(* ===== verification/Prelude.thy ===== *)
theory Prelude
  imports Main "HOL-Library.Char_ord" "HOL-Library.List_Lexorder" "HOL-Library.AList"
begin

text \<open>
  Shared vocabulary of the development: the time type, Go's string helpers, decimal
  rendering of integers (Go's \<^verbatim>\<open>strconv.FormatInt\<close>/\<^verbatim>\<open>Itoa\<close> and Lua's
  \<^verbatim>\<open>tostring\<close>/\<^verbatim>\<open>tonumber\<close> on integers), and the generic list lemmas that the
  component theories use. Instants and durations are mathematical integers: the unit is
  nanoseconds for a Go \<^verbatim>\<open>time.Time\<close>/\<^verbatim>\<open>time.Duration\<close> unless a definition says
  milliseconds or seconds. A \<^verbatim>\<open>time.Time\<close> field whose zero value is tested by the
  code is a \<open>time option\<close> (\<open>None\<close> is \<^verbatim>\<open>IsZero\<close>).
\<close>

type_synonym time = int
type_synonym duration = int

abbreviation nanos_per_ms :: int where
  "nanos_per_ms \<equiv> 1000000"

abbreviation nanos_per_s :: int where
  "nanos_per_s \<equiv> 1000000000"

named_theorems trim_simps \<open>simplification of the cut-off operations on sorted timestamp lists\<close>

subsection \<open>Durations and instants\<close>

text \<open>
  \<^verbatim>\<open>Duration.Milliseconds\<close> truncates towards zero, \<^verbatim>\<open>Time.UnixMilli\<close> of an instant
  after the epoch is the floor; \<open>quot\<close> is Go's integer division.
\<close>

definition quot :: "int \<Rightarrow> int \<Rightarrow> int" where
  "quot a b = sgn a * sgn b * (\<bar>a\<bar> div \<bar>b\<bar>)"

definition milliseconds :: "duration \<Rightarrow> int" where
  "milliseconds d = quot d nanos_per_ms"

definition unix_milli :: "time \<Rightarrow> int" where
  "unix_milli t = t div nanos_per_ms"

definition unix_sec :: "time \<Rightarrow> int" where
  "unix_sec t = t div nanos_per_s"

lemma quot_nonneg: "0 \<le> a \<Longrightarrow> 0 < b \<Longrightarrow> quot a b = a div b"
  by (cases "a = 0") (auto simp: quot_def sgn_if)

lemma milliseconds_scale [simp]: "0 \<le> d \<Longrightarrow> milliseconds (nanos_per_ms * d) = d"
  by (simp add: milliseconds_def quot_nonneg)

lemma unix_milli_scale [simp]: "unix_milli (nanos_per_ms * t) = t"
  by (simp add: unix_milli_def)

lemma unix_milli_mono: "s \<le> t \<Longrightarrow> unix_milli s \<le> unix_milli t"
  by (simp add: unix_milli_def zdiv_mono1)

lemma unix_sec_mono: "s \<le> t \<Longrightarrow> unix_sec s \<le> unix_sec t"
  by (simp add: unix_sec_def zdiv_mono1)

subsection \<open>Strings\<close>

text \<open>
  \<^verbatim>\<open>strings.TrimSpace\<close> on byte strings: the ASCII white space of \<^verbatim>\<open>unicode.IsSpace\<close>.
\<close>

definition is_space :: "char \<Rightarrow> bool" where
  "is_space c \<longleftrightarrow> of_char c \<in> {9, 10, 11, 12, 13, 32 :: nat}"

definition trim_space :: "string \<Rightarrow> string" where
  "trim_space s = rev (dropWhile is_space (rev (dropWhile is_space s)))"

lemma trim_space_Nil_iff: "trim_space s = [] \<longleftrightarrow> (\<forall>c \<in> set s. is_space c)"
proof
  assume "trim_space s = []"
  then have "\<forall>c \<in> set (dropWhile is_space s). is_space c"
    by (simp only: trim_space_def rev_is_Nil_conv dropWhile_eq_Nil_conv set_rev) 
  then have "dropWhile is_space s = []"
    by (metis hd_dropWhile hd_in_set)
  then show "\<forall>c \<in> set s. is_space c"
    by (simp add: dropWhile_eq_Nil_conv)
qed (auto simp: trim_space_def dest: set_dropWhileD)

lemma trim_space_nonempty: "trim_space s \<noteq> [] \<Longrightarrow> s \<noteq> []"
  by (auto simp: trim_space_Nil_iff)

text \<open>\<^verbatim>\<open>strings.ToUpper\<close> and \<^verbatim>\<open>strings.ToLower\<close> on ASCII.\<close>

definition ascii_upper :: "char \<Rightarrow> char" where
  "ascii_upper c = (if 97 \<le> (of_char c :: nat) \<and> (of_char c :: nat) \<le> 122 then char_of ((of_char c :: nat) - 32) else c)"

definition ascii_lower :: "char \<Rightarrow> char" where
  "ascii_lower c = (if 65 \<le> (of_char c :: nat) \<and> (of_char c :: nat) \<le> 90 then char_of ((of_char c :: nat) + 32) else c)"

lemma ascii_lower_idem [simp]: "ascii_lower (ascii_lower c) = ascii_lower c"
  by (auto simp: ascii_lower_def)

lemma is_space_lower [simp]: "is_space (ascii_lower c) \<longleftrightarrow> is_space c"
  by (auto simp: is_space_def ascii_lower_def)

lemma trim_space_lower: "trim_space (map ascii_lower s) = map ascii_lower (trim_space s)"
proof -
  have "dropWhile is_space (map ascii_lower xs) = map ascii_lower (dropWhile is_space xs)" for xs by (induction xs) auto
  then show ?thesis by (simp add: trim_space_def rev_map)
qed

lemma trim_space_idem [simp]: "trim_space (trim_space s) = trim_space s"
proof -
  define xs where "xs = dropWhile is_space s"
  have hd: "xs = [] \<or> \<not> is_space (hd xs)" unfolding xs_def by (metis hd_dropWhile)
  define ys where "ys = dropWhile is_space (rev xs)"
  have first: "ys \<noteq> [] \<Longrightarrow> xs \<noteq> [] \<and> hd (rev ys) = hd xs"
  proof -
    assume "ys \<noteq> []"
    obtain zs where zs: "rev xs = zs @ ys" unfolding ys_def by (metis takeWhile_dropWhile_id)
    then have "xs = rev ys @ rev zs" by (metis rev_append rev_rev_ident)
    with \<open>ys \<noteq> []\<close> show "xs \<noteq> [] \<and> hd (rev ys) = hd xs" by (cases "rev ys") auto
  qed
  have "dropWhile is_space (rev ys) = rev ys"
    using hd first by (cases "rev ys") auto
  moreover have "dropWhile is_space ys = ys" by (simp add: ys_def)
  ultimately show ?thesis by (simp add: trim_space_def xs_def [symmetric] ys_def [symmetric])
qed

text \<open>\<^verbatim>\<open>strings.Join\<close> and \<^verbatim>\<open>strings.Split\<close> with a separator of one character.\<close>

fun join_with :: "char \<Rightarrow> string list \<Rightarrow> string" where
  "join_with c [] = []"
| "join_with c [x] = x"
| "join_with c (x # y # xs) = x @ c # join_with c (y # xs)"

fun split_on :: "char \<Rightarrow> string \<Rightarrow> string list" where
  "split_on c [] = [[]]"
| "split_on c (x # xs) =
     (if x = c then [] # split_on c xs
      else (case split_on c xs of [] \<Rightarrow> [[x]] | l # ls \<Rightarrow> (x # l) # ls))"

lemma split_on_plain: "c \<notin> set x \<Longrightarrow> split_on c x = [x]"
  by (induction x) auto

lemma split_on_sep: "c \<notin> set x \<Longrightarrow> split_on c (x @ c # r) = x # split_on c r"
  by (induction x) auto

lemma split_join: "xs \<noteq> [] \<Longrightarrow> \<forall>x \<in> set xs. c \<notin> set x \<Longrightarrow> split_on c (join_with c xs) = xs"
  by (induction c xs rule: join_with.induct) (simp_all add: split_on_plain split_on_sep)

lemma bar_split:
  assumes "c \<notin> set x" and "c \<notin> set x'" and "x @ c # y = x' @ c # y'"
  shows "x = x' \<and> y = y'"
  using assms
proof (induction x arbitrary: x')
  case Nil
  then show ?case by (cases x') auto
next
  case (Cons a x)
  then show ?case by (cases x') auto
qed

text \<open>\<^verbatim>\<open>strings.SplitN(s, c, 2)\<close>.\<close>

definition splitN2 :: "char \<Rightarrow> string \<Rightarrow> string list" where
  "splitN2 c s = (if c \<in> set s then [takeWhile (\<lambda>x. x \<noteq> c) s, tl (dropWhile (\<lambda>x. x \<noteq> c) s)] else [s])"

text \<open>A hash that behaves like SHA-256 in hexadecimal as far as the program is concerned: no collisions, no separator.\<close>

definition ideal_hash :: "(string \<Rightarrow> string) \<Rightarrow> bool" where
  "ideal_hash sha \<longleftrightarrow> inj sha \<and> (\<forall>x. sha x \<noteq> [] \<and> CHR ''|'' \<notin> set (sha x))"

text \<open>A function with these properties, for witnesses: two characters per character.\<close>

definition ex_code :: "char \<Rightarrow> string" where
  "ex_code c = (if c = CHR ''|'' then ''01'' else [c, CHR ''0''])"

definition ex_sha :: "string \<Rightarrow> string" where
  "ex_sha x = CHR ''h'' # concat (map ex_code x)"

lemma ex_code_facts: "length (ex_code c) = 2" "CHR ''|'' \<notin> set (ex_code c)" "ex_code c = ex_code d \<longleftrightarrow> c = d"
  by (auto simp: ex_code_def)

lemma ex_sha_ideal: "ideal_hash ex_sha"
proof -
  have "concat (map ex_code x) = concat (map ex_code y) \<Longrightarrow> x = y" for x y
  proof (induction x arbitrary: y)
    case Nil
    then show ?case by (cases y) (auto simp: ex_code_def split: if_splits)
  next
    case (Cons a x)
    then obtain b z where y: "y = b # z" by (cases y) (auto simp: ex_code_def split: if_splits)
    with Cons.prems have "ex_code a = ex_code b \<and> concat (map ex_code x) = concat (map ex_code z)"
      by (simp add: append_eq_append_conv ex_code_facts(1))
    with Cons.IH y ex_code_facts(3) show ?case by simp
  qed
  then show ?thesis by (auto simp: ideal_hash_def ex_sha_def inj_def ex_code_facts(2))
qed

text \<open>Length-prefixed strings, for concrete encodings of records: a length in unary, a colon and the bytes.\<close>

definition netstr :: "string \<Rightarrow> string" where
  "netstr x = replicate (length x) (CHR ''#'') @ CHR '':'' # x"

definition unnet :: "string \<Rightarrow> string \<times> string" where
  "unnet cs = (let n = length (takeWhile (\<lambda>c. c = CHR ''#'') cs); r = drop (Suc n) cs in (take n r, drop n r))"

fun unnets :: "nat \<Rightarrow> string \<Rightarrow> string list" where
  "unnets 0 cs = []"
| "unnets (Suc n) cs = (let (x, r) = unnet cs in x # unnets n r)"

lemma unnet_netstr [simp]: "unnet (netstr x @ r) = (x, r)"
proof -
  have "takeWhile (\<lambda>c. c = CHR ''#'') (netstr x @ r) = replicate (length x) (CHR ''#'')"
    by (simp add: netstr_def takeWhile_append)
  then show ?thesis by (simp add: unnet_def netstr_def)
qed

lemma unnets_concat: "unnets (length xs) (concat (map netstr xs) @ r) = xs"
  by (induction xs) simp_all

subsection \<open>Decimal numerals\<close>

definition digit_char :: "nat \<Rightarrow> char" where
  "digit_char d = char_of (48 + d)"

fun dec_nat :: "nat \<Rightarrow> string" where
  "dec_nat n = (if n < 10 then [digit_char n] else dec_nat (n div 10) @ [digit_char (n mod 10)])"

declare dec_nat.simps [simp del]

definition itoa :: "int \<Rightarrow> string" where
  "itoa i = (if i < 0 then CHR ''-'' # dec_nat (nat (- i)) else dec_nat (nat i))"

definition digit_val :: "char \<Rightarrow> nat option" where
  "digit_val c = (let n = of_char c :: nat in if 48 \<le> n \<and> n \<le> 57 then Some (n - 48) else None)"

fun parse_digits :: "nat \<Rightarrow> string \<Rightarrow> nat option" where
  "parse_digits acc [] = Some acc"
| "parse_digits acc (c # cs) =
     (case digit_val c of None \<Rightarrow> None | Some d \<Rightarrow> parse_digits (10 * acc + d) cs)"

definition atoi :: "string \<Rightarrow> int option" where
  "atoi s = (case s of
       [] \<Rightarrow> None
     | c # cs \<Rightarrow>
         if c = CHR ''-'' then (if cs = [] then None else map_option (\<lambda>n. - int n) (parse_digits 0 cs))
         else map_option int (parse_digits 0 s))"

lemma digit_val_char [simp]: "d < 10 \<Longrightarrow> digit_val (digit_char d) = Some d"
  by (simp add: digit_val_def digit_char_def)

lemma parse_digits_append:
  "parse_digits acc (xs @ ys) = (case parse_digits acc xs of None \<Rightarrow> None | Some n \<Rightarrow> parse_digits n ys)"
  by (induction acc xs rule: parse_digits.induct) (auto split: option.splits)

lemma parse_digits_dec_nat: "parse_digits 0 (dec_nat n) = Some n"
proof (induction n rule: dec_nat.induct)
  case (1 n)
  show ?case
  proof (cases "n < 10")
    case True
    then show ?thesis by (simp add: dec_nat.simps [of n])
  next
    case False
    with "1.IH" have "parse_digits 0 (dec_nat (n div 10)) = Some (n div 10)" by simp
    with False show ?thesis by (simp add: dec_nat.simps [of n] parse_digits_append)
  qed
qed

lemma dec_nat_nonempty [simp]: "dec_nat n \<noteq> []"
  by (subst dec_nat.simps) simp

lemma hd_dec_nat: "\<exists>d. d < 10 \<and> hd (dec_nat n) = digit_char d"
proof (induction n rule: dec_nat.induct)
  case (1 n)
  show ?case
  proof (cases "n < 10")
    case True
    then show ?thesis by (auto simp: dec_nat.simps [of n])
  next
    case False
    with "1.IH" show ?thesis by (simp add: dec_nat.simps [of n])
  qed
qed

lemma digit_char_not_minus: "d < 10 \<Longrightarrow> digit_char d \<noteq> CHR ''-''"
proof
  assume "d < 10" and "digit_char d = CHR ''-''"
  then have "digit_val (CHR ''-'') = Some d" by (metis digit_val_char)
  then show False by (simp add: digit_val_def)
qed

lemma hd_dec_nat_not_minus [simp]: "hd (dec_nat n) \<noteq> CHR ''-''"
  using hd_dec_nat [of n] digit_char_not_minus by metis

lemma atoi_itoa [simp]: "atoi (itoa i) = Some i"
proof (cases "i < 0")
  case True
  then show ?thesis by (simp add: itoa_def atoi_def parse_digits_dec_nat)
next
  case False
  obtain c cs where c: "dec_nat (nat i) = c # cs" by (meson dec_nat_nonempty list.exhaust)
  then have "c \<noteq> CHR ''-''" using hd_dec_nat_not_minus [of "nat i"] by simp
  then have "atoi (dec_nat (nat i)) = map_option int (parse_digits 0 (dec_nat (nat i)))"
    using c by (simp add: atoi_def)
  with False show ?thesis by (simp add: itoa_def parse_digits_dec_nat)
qed

lemma itoa_inj: "itoa i = itoa j \<longleftrightarrow> i = j"
  by (metis atoi_itoa option.inject)

lemma length_dec_nat: "n < 10 ^ k \<Longrightarrow> 0 < k \<Longrightarrow> length (dec_nat n) \<le> k"
proof (induction k arbitrary: n)
  case (Suc k)
  show ?case
  proof (cases "n < 10")
    case True
    then show ?thesis by (simp add: dec_nat.simps [of n])
  next
    case False
    with Suc.prems have "n div 10 < 10 ^ k" and "0 < k" by (auto simp: less_mult_imp_div_less) (cases k, auto)
    with Suc.IH [of "n div 10"] False show ?thesis by (simp add: dec_nat.simps [of n])
  qed
qed simp

subsection \<open>Rows\<close>

lemma find_SomeD: "find P xs = Some x \<Longrightarrow> x \<in> set xs \<and> P x"
  by (auto simp: find_Some_iff)

lemma find_append: "find P (xs @ ys) = (case find P xs of None \<Rightarrow> find P ys | Some x \<Rightarrow> Some x)"
  by (induction xs) auto

lemma find_unique:
  assumes "distinct (map f xs)" and "x \<in> set xs" and "P x" and "\<And>y. P y \<Longrightarrow> f y = f x"
  shows "find P xs = Some x"
  using assms(1,2)
proof (induction xs)
  case (Cons a xs)
  show ?case
  proof (cases "P a")
    case True
    then have "f a = f x" by (rule assms(4))
    with Cons.prems have "a = x" by (auto simp: image_iff)
    with True show ?thesis by simp
  next
    case False
    with Cons assms(3) show ?thesis by auto
  qed
qed simp

text \<open>Rows with property \<open>P\<close> stay, under their key \<open>f\<close>.\<close>

definition stays :: "('a \<Rightarrow> bool) \<Rightarrow> ('a \<Rightarrow> 'b) \<Rightarrow> 'a list \<Rightarrow> 'a list \<Rightarrow> bool" where
  "stays P f xs ys \<longleftrightarrow> (\<forall>x \<in> set xs. P x \<longrightarrow> (\<exists>y \<in> set ys. f y = f x \<and> P y))"

lemma stays_refl [simp]: "stays P f xs xs" "stays P f xs (xs @ ys)"
  by (auto simp: stays_def)

lemma stays_trans: "stays P f xs ys \<Longrightarrow> stays P f ys zs \<Longrightarrow> stays P f xs zs"
  unfolding stays_def by metis

lemma stays_map: "(\<And>x. P x \<Longrightarrow> f (g x) = f x \<and> P (g x)) \<Longrightarrow> stays P f xs (map g xs)"
  by (auto simp: stays_def)

lemma distinct_map_eq: "distinct (map f xs) \<Longrightarrow> x \<in> set xs \<Longrightarrow> y \<in> set xs \<Longrightarrow> f x = f y \<Longrightarrow> x = y"
  by (auto simp: distinct_map inj_on_def)

subsection \<open>Sliding windows over sorted timestamps\<close>

text \<open>
  Trimming the front of a timestamp log (\<open>dropWhile\<close>, as the Go loop does) and filtering
  it (as \<^verbatim>\<open>ZREMRANGEBYSCORE\<close> does) agree on logs kept in order.
\<close>

lemma dropWhile_sorted [trim_simps]:
  "sorted xs \<Longrightarrow> dropWhile (\<lambda>t. t < c) xs = filter (\<lambda>t. c \<le> t) xs" for c :: "'a::linorder"
proof (induction xs)
  case Nil
  then show ?case by simp
next
  case (Cons x xs)
  show ?case
  proof (cases "x < c")
    case True
    with Cons show ?thesis by simp
  next
    case False
    with Cons.prems have "\<forall>y \<in> set xs. c \<le> y" by auto
    with False show ?thesis by (simp add: filter_id_conv)
  qed
qed

lemma filter_filter_ge [trim_simps]:
  "c \<le> d \<Longrightarrow> filter (\<lambda>t. d \<le> t) (filter (\<lambda>t. c \<le> t) xs) = filter (\<lambda>t. d \<le> t) xs" for c d :: "'a::linorder"
  by (auto intro: filter_cong)

lemma sorted_snoc: "sorted xs \<Longrightarrow> \<forall>x \<in> set xs. x \<le> t \<Longrightarrow> sorted (xs @ [t])" for t :: "'a::linorder"
  by (simp add: sorted_append)

subsection \<open>Short runs\<close>

lemma run4: "R a b \<Longrightarrow> R b c \<Longrightarrow> R c d \<Longrightarrow> R d e \<Longrightarrow> R\<^sup>*\<^sup>* a e"
  by (meson converse_rtranclp_into_rtranclp r_into_rtranclp)

end
