(* ===== verification/Valkey.thy ===== *)
theory Valkey
  imports Prelude "HOL-Library.Product_Lexorder"
begin

text \<open>
  The Valkey (Redis) server the program talks to is not part of the repository. The
  definitions that call it take its commands as an argument of type \<open>'s valkey\<close>, a record
  with one function per command over an opaque server state \<open>'s\<close>; every command is given
  the server's clock in milliseconds, since keys expire by it.

  The locale \<open>valkey_server\<close> states the documented behaviour that the program relies on:
  there is a view of the server state as a key space (a map from keys to typed values with
  an optional expiry instant) which every command changes as its documentation says. The
  reference key space \<open>ks_valkey\<close> satisfies it, so the hypothesis is satisfiable and the
  witnesses can evaluate scripts on it.
\<close>

record 's valkey =
  vk_get :: "'s \<Rightarrow> int \<Rightarrow> string \<Rightarrow> string option"
  vk_set :: "'s \<Rightarrow> int \<Rightarrow> string \<Rightarrow> string \<Rightarrow> int option \<Rightarrow> 's"
  vk_del :: "'s \<Rightarrow> int \<Rightarrow> string \<Rightarrow> 's"
  vk_pexpire :: "'s \<Rightarrow> int \<Rightarrow> string \<Rightarrow> int \<Rightarrow> 's"
  vk_expirenx :: "'s \<Rightarrow> int \<Rightarrow> string \<Rightarrow> int \<Rightarrow> 's"
  vk_incr :: "'s \<Rightarrow> int \<Rightarrow> string \<Rightarrow> 's \<times> int option"
  vk_zadd :: "'s \<Rightarrow> int \<Rightarrow> string \<Rightarrow> int \<Rightarrow> string \<Rightarrow> 's"
  vk_zrem :: "'s \<Rightarrow> int \<Rightarrow> string \<Rightarrow> string \<Rightarrow> 's \<times> int"
  vk_zcard :: "'s \<Rightarrow> int \<Rightarrow> string \<Rightarrow> int"
  vk_zremrangebyscore :: "'s \<Rightarrow> int \<Rightarrow> string \<Rightarrow> int \<Rightarrow> 's"
  vk_zrangebyscore :: "'s \<Rightarrow> int \<Rightarrow> string \<Rightarrow> int \<Rightarrow> int \<Rightarrow> string list"
  vk_lpush :: "'s \<Rightarrow> int \<Rightarrow> string \<Rightarrow> string \<Rightarrow> 's"
  vk_ltrim :: "'s \<Rightarrow> int \<Rightarrow> string \<Rightarrow> int \<Rightarrow> int \<Rightarrow> 's"
  vk_exists :: "'s \<Rightarrow> int \<Rightarrow> string \<Rightarrow> bool"
  vk_sadd :: "'s \<Rightarrow> int \<Rightarrow> string \<Rightarrow> string \<Rightarrow> 's"
  vk_srem :: "'s \<Rightarrow> int \<Rightarrow> string \<Rightarrow> string \<Rightarrow> 's"
  vk_smembers :: "'s \<Rightarrow> int \<Rightarrow> string \<Rightarrow> string list"
  vk_sismember :: "'s \<Rightarrow> int \<Rightarrow> string \<Rightarrow> string \<Rightarrow> bool"

subsection \<open>The documented behaviour: a key space\<close>

datatype vval = VStr string | VZset "(string \<times> int) list" | VList "string list" | VSet "string list"

type_synonym keyspace = "string \<rightharpoonup> vval \<times> int option"

definition ks_live :: "keyspace \<Rightarrow> int \<Rightarrow> string \<Rightarrow> (vval \<times> int option) option" where
  "ks_live m t k = (case m k of
       Some (x, Some e) \<Rightarrow> if e < t then None else Some (x, Some e)
     | r \<Rightarrow> r)"

definition ks_str :: "keyspace \<Rightarrow> int \<Rightarrow> string \<Rightarrow> string option" where
  "ks_str m t k = (case ks_live m t k of Some (VStr x, _) \<Rightarrow> Some x | _ \<Rightarrow> None)"

definition ks_zset :: "keyspace \<Rightarrow> int \<Rightarrow> string \<Rightarrow> (string \<times> int) list" where
  "ks_zset m t k = (case ks_live m t k of Some (VZset z, _) \<Rightarrow> z | _ \<Rightarrow> [])"

definition ks_list :: "keyspace \<Rightarrow> int \<Rightarrow> string \<Rightarrow> string list" where
  "ks_list m t k = (case ks_live m t k of Some (VList l, _) \<Rightarrow> l | _ \<Rightarrow> [])"

definition ks_set :: "keyspace \<Rightarrow> int \<Rightarrow> string \<Rightarrow> string \<Rightarrow> int option \<Rightarrow> keyspace" where
  "ks_set m t k x px = m(k \<mapsto> (VStr x, map_option (\<lambda>d. t + d) px))"

definition ks_del :: "keyspace \<Rightarrow> int \<Rightarrow> string \<Rightarrow> keyspace" where
  "ks_del m t k = m(k := None)"

definition ks_pexpire :: "keyspace \<Rightarrow> int \<Rightarrow> string \<Rightarrow> int \<Rightarrow> keyspace" where
  "ks_pexpire m t k d = (case ks_live m t k of
       None \<Rightarrow> m
     | Some (x, _) \<Rightarrow> if d \<le> 0 then m(k := None) else m(k \<mapsto> (x, Some (t + d))))"

text \<open>\<^verbatim>\<open>PEXPIRE key ms NX\<close>: only a key without an expiry gets one.\<close>

definition ks_expirenx :: "keyspace \<Rightarrow> int \<Rightarrow> string \<Rightarrow> int \<Rightarrow> keyspace" where
  "ks_expirenx m t k d = (case ks_live m t k of
       Some (x, None) \<Rightarrow> if d \<le> 0 then m(k := None) else m(k \<mapsto> (x, Some (t + d)))
     | _ \<Rightarrow> m)"

definition ks_incr :: "keyspace \<Rightarrow> int \<Rightarrow> string \<Rightarrow> keyspace \<times> int option" where
  "ks_incr m t k = (case ks_live m t k of
       None \<Rightarrow> (m(k \<mapsto> (VStr (itoa 1), None)), Some 1)
     | Some (VStr x, e) \<Rightarrow>
         (case atoi x of None \<Rightarrow> (m, None) | Some n \<Rightarrow> (m(k \<mapsto> (VStr (itoa (n + 1)), e)), Some (n + 1)))
     | _ \<Rightarrow> (m, None))"

text \<open>A sorted set that becomes empty is removed with its expiry.\<close>

definition ks_zput :: "keyspace \<Rightarrow> string \<Rightarrow> (string \<times> int) list \<Rightarrow> int option \<Rightarrow> keyspace" where
  "ks_zput m k z e = m(k := (if z = [] then None else Some (VZset z, e)))"

definition ks_zadd :: "keyspace \<Rightarrow> int \<Rightarrow> string \<Rightarrow> int \<Rightarrow> string \<Rightarrow> keyspace" where
  "ks_zadd m t k sc x = (case ks_live m t k of
       None \<Rightarrow> ks_zput m k [(x, sc)] None
     | Some (VZset z, e) \<Rightarrow> ks_zput m k (AList.update x sc z) e
     | _ \<Rightarrow> m)"

definition ks_zfilter :: "((string \<times> int) \<Rightarrow> bool) \<Rightarrow> keyspace \<Rightarrow> int \<Rightarrow> string \<Rightarrow> keyspace" where
  "ks_zfilter P m t k = (case ks_live m t k of
       Some (VZset z, e) \<Rightarrow> ks_zput m k (filter P z) e
     | _ \<Rightarrow> m)"

definition ks_zrem :: "keyspace \<Rightarrow> int \<Rightarrow> string \<Rightarrow> string \<Rightarrow> keyspace \<times> int" where
  "ks_zrem m t k x = (ks_zfilter (\<lambda>p. fst p \<noteq> x) m t k,
     if x \<in> set (map fst (ks_zset m t k)) then 1 else 0)"

definition ks_zcard :: "keyspace \<Rightarrow> int \<Rightarrow> string \<Rightarrow> int" where
  "ks_zcard m t k = int (length (ks_zset m t k))"

text \<open>\<^verbatim>\<open>ZREMRANGEBYSCORE key -inf (cutoff\<close>: the bound is exclusive.\<close>

definition ks_zremrangebyscore :: "keyspace \<Rightarrow> int \<Rightarrow> string \<Rightarrow> int \<Rightarrow> keyspace" where
  "ks_zremrangebyscore m t k cutoff = ks_zfilter (\<lambda>p. cutoff \<le> snd p) m t k"

text \<open>
  \<^verbatim>\<open>ZRANGEBYSCORE key -inf stop LIMIT 0 count\<close>: members in the order of their scores,
  ties in the order of the members.
\<close>

definition ks_zrangebyscore :: "keyspace \<Rightarrow> int \<Rightarrow> string \<Rightarrow> int \<Rightarrow> int \<Rightarrow> string list" where
  "ks_zrangebyscore m t k stop count =
     take (nat count) (map fst (sort_key (\<lambda>p. (snd p, fst p)) (filter (\<lambda>p. snd p \<le> stop) (ks_zset m t k))))"

definition ks_lpush :: "keyspace \<Rightarrow> int \<Rightarrow> string \<Rightarrow> string \<Rightarrow> keyspace" where
  "ks_lpush m t k x = (case ks_live m t k of
       None \<Rightarrow> m(k \<mapsto> (VList [x], None))
     | Some (VList l, e) \<Rightarrow> m(k \<mapsto> (VList (x # l), e))
     | _ \<Rightarrow> m)"

definition ks_ltrim :: "keyspace \<Rightarrow> int \<Rightarrow> string \<Rightarrow> int \<Rightarrow> int \<Rightarrow> keyspace" where
  "ks_ltrim m t k start stop = (case ks_live m t k of
       Some (VList l, e) \<Rightarrow>
         (let l' = drop (nat start) (take (nat (stop + 1)) l)
          in m(k := (if l' = [] then None else Some (VList l', e))))
     | _ \<Rightarrow> m)"

definition ks_set_members :: "keyspace \<Rightarrow> int \<Rightarrow> string \<Rightarrow> string list" where
  "ks_set_members m t k = (case ks_live m t k of Some (VSet l, _) \<Rightarrow> l | _ \<Rightarrow> [])"

definition ks_sadd :: "keyspace \<Rightarrow> int \<Rightarrow> string \<Rightarrow> string \<Rightarrow> keyspace" where
  "ks_sadd m t k x = (case ks_live m t k of
       None \<Rightarrow> m(k \<mapsto> (VSet [x], None))
     | Some (VSet l, e) \<Rightarrow> m(k \<mapsto> (VSet (if x \<in> set l then l else l @ [x]), e))
     | _ \<Rightarrow> m)"

definition ks_srem :: "keyspace \<Rightarrow> int \<Rightarrow> string \<Rightarrow> string \<Rightarrow> keyspace" where
  "ks_srem m t k x = (case ks_live m t k of
       Some (VSet l, e) \<Rightarrow>
         (let l' = filter (\<lambda>y. y \<noteq> x) l in m(k := (if l' = [] then None else Some (VSet l', e))))
     | _ \<Rightarrow> m)"

definition ks_valkey :: "keyspace valkey" where
  "ks_valkey = \<lparr>vk_get = ks_str, vk_set = ks_set, vk_del = ks_del, vk_pexpire = ks_pexpire, vk_expirenx = ks_expirenx,
     vk_incr = ks_incr, vk_zadd = ks_zadd, vk_zrem = ks_zrem, vk_zcard = ks_zcard,
     vk_zremrangebyscore = ks_zremrangebyscore, vk_zrangebyscore = ks_zrangebyscore,
     vk_lpush = ks_lpush, vk_ltrim = ks_ltrim, vk_exists = (\<lambda>m t k. ks_live m t k \<noteq> None),
     vk_sadd = ks_sadd, vk_srem = ks_srem, vk_smembers = ks_set_members,
     vk_sismember = (\<lambda>m t k x. x \<in> set (ks_set_members m t k))\<rparr>"

subsection \<open>The interface\<close>

locale valkey_server =
  fixes v :: "'s valkey" and ks :: "'s \<Rightarrow> keyspace"
  assumes get: "vk_get v s t k = ks_str (ks s) t k"
    and set: "ks (vk_set v s t k x px) = ks_set (ks s) t k x px"
    and del: "ks (vk_del v s t k) = ks_del (ks s) t k"
    and pexpire: "ks (vk_pexpire v s t k d) = ks_pexpire (ks s) t k d"
    and expirenx: "ks (vk_expirenx v s t k d) = ks_expirenx (ks s) t k d"
    and incr: "ks (fst (vk_incr v s t k)) = fst (ks_incr (ks s) t k)"
              "snd (vk_incr v s t k) = snd (ks_incr (ks s) t k)"
    and zadd: "ks (vk_zadd v s t k sc x) = ks_zadd (ks s) t k sc x"
    and zrem: "ks (fst (vk_zrem v s t k x)) = fst (ks_zrem (ks s) t k x)"
              "snd (vk_zrem v s t k x) = snd (ks_zrem (ks s) t k x)"
    and zcard: "vk_zcard v s t k = ks_zcard (ks s) t k"
    and zremrangebyscore: "ks (vk_zremrangebyscore v s t k c) = ks_zremrangebyscore (ks s) t k c"
    and zrangebyscore: "vk_zrangebyscore v s t k stop n = ks_zrangebyscore (ks s) t k stop n"
    and lpush: "ks (vk_lpush v s t k x) = ks_lpush (ks s) t k x"
    and ltrim: "ks (vk_ltrim v s t k i j) = ks_ltrim (ks s) t k i j"
    and exists: "vk_exists v s t k \<longleftrightarrow> ks_live (ks s) t k \<noteq> None"
    and sadd: "ks (vk_sadd v s t k x) = ks_sadd (ks s) t k x"
    and srem: "ks (vk_srem v s t k x) = ks_srem (ks s) t k x"
    and smembers: "vk_smembers v s t k = ks_set_members (ks s) t k"
    and sismember: "vk_sismember v s t k x \<longleftrightarrow> x \<in> set (ks_set_members (ks s) t k)"
begin

lemmas commands = get set del pexpire expirenx incr zadd zrem zcard zremrangebyscore zrangebyscore lpush ltrim
  exists sadd srem smembers sismember

end

lemma ks_valkey_server: "valkey_server ks_valkey (\<lambda>m. m)"
  by unfold_locales (simp_all add: ks_valkey_def)

interpretation ref: valkey_server ks_valkey "\<lambda>m. m"
  by (rule ks_valkey_server)

lemmas ks_command_defs = ks_live_def ks_str_def ks_zset_def ks_list_def ks_set_def ks_del_def
  ks_pexpire_def ks_incr_def ks_zput_def ks_zadd_def ks_zfilter_def ks_zrem_def ks_zcard_def
  ks_zremrangebyscore_def ks_zrangebyscore_def ks_lpush_def ks_ltrim_def

subsection \<open>Observations after commands\<close>

named_theorems ks_simps \<open>what a read returns after a write of the key space\<close>

lemma ks_live_other [ks_simps]:
  "k' \<noteq> k \<Longrightarrow> ks_live (ks_set m t k x px) u k' = ks_live m u k'"
  "k' \<noteq> k \<Longrightarrow> ks_live (ks_del m t k) u k' = ks_live m u k'"
  "k' \<noteq> k \<Longrightarrow> ks_live (ks_pexpire m t k d) u k' = ks_live m u k'"
  "k' \<noteq> k \<Longrightarrow> ks_live (fst (ks_incr m t k)) u k' = ks_live m u k'"
  "k' \<noteq> k \<Longrightarrow> ks_live (ks_zadd m t k sc y) u k' = ks_live m u k'"
  "k' \<noteq> k \<Longrightarrow> ks_live (ks_zfilter P m t k) u k' = ks_live m u k'"
  "k' \<noteq> k \<Longrightarrow> ks_live (ks_lpush m t k y) u k' = ks_live m u k'"
  "k' \<noteq> k \<Longrightarrow> ks_live (ks_ltrim m t k i j) u k' = ks_live m u k'"
  by (auto simp: ks_command_defs Let_def split: option.splits vval.splits prod.splits)

lemma ks_live_frame:
  assumes "ks_live m' u k' = ks_live m u k'"
  shows "ks_str m' u k' = ks_str m u k'" and "ks_zset m' u k' = ks_zset m u k'"
    and "ks_list m' u k' = ks_list m u k'"
  using assms by (simp_all add: ks_str_def ks_zset_def ks_list_def)

lemmas ks_str_other [ks_simps] = ks_live_other [THEN ks_live_frame(1)]
lemmas ks_zset_other [ks_simps] = ks_live_other [THEN ks_live_frame(2)]
lemmas ks_list_other [ks_simps] = ks_live_other [THEN ks_live_frame(3)]

lemma ks_str_set [ks_simps]:
  "ks_str (ks_set m t k x px) u k = (case px of Some d \<Rightarrow> if t + d < u then None else Some x | None \<Rightarrow> Some x)"
  by (auto simp: ks_str_def ks_set_def ks_live_def split: option.splits)

lemma ks_del_same [ks_simps]:
  "ks_str (ks_del m t k) u k = None"
  "ks_zset (ks_del m t k) u k = []"
  by (auto simp: ks_str_def ks_zset_def ks_del_def ks_live_def)

lemma ks_live_upd: "ks_live m t k = Some (x, e) \<Longrightarrow> ks_live (m(k \<mapsto> (y, e))) t k = Some (y, e)"
  by (cases e) (auto simp: ks_live_def split: option.splits prod.splits if_splits)

lemma ks_live_upd_None [simp]:
  "ks_live (m(k \<mapsto> (y, None))) t k = Some (y, None)" "ks_live (m(k := None)) t k = None"
  by (simp_all add: ks_live_def)

lemma ks_live_later: "t \<le> u \<Longrightarrow> ks_live m u k = Some r \<Longrightarrow> ks_live m t k = Some r"
  by (auto simp: ks_live_def split: option.splits prod.splits if_splits)

subsection \<open>Sliding-window logs kept in a sorted set\<close>

text \<open>
  Two components keep a log of instants in a sorted set, trimmed to a window on every use.
  \<open>tracks m k w log used t\<close> says that from \<open>t\<close> on the set under \<open>k\<close> agrees with \<open>log\<close> inside every
  window of length \<open>w\<close>, with members from \<open>used\<close>; it speaks about all later instants, so the
  passing of time and the expiry of the key keep it.
\<close>

definition zset_or_absent :: "keyspace \<Rightarrow> string \<Rightarrow> bool" where
  "zset_or_absent m k \<longleftrightarrow> (case m k of None \<Rightarrow> True | Some (VZset z, e) \<Rightarrow> True | _ \<Rightarrow> False)"

lemma AList_update_fresh: "k \<notin> fst ` set al \<Longrightarrow> AList.update k x al = al @ [(k, x)]"
  by (induction al) auto

text \<open>Trimming, adding and expiring the failure set in one step.\<close>

lemma ks_log_entry_cmds:
  assumes "zset_or_absent m k" and "mem \<notin> fst ` set (ks_zset m t k)" and "0 < w"
  shows "ks_pexpire (ks_zadd (ks_zremrangebyscore m t k (now - w)) t k now mem) t k (w + 5000) =
           m(k \<mapsto> (VZset (filter (\<lambda>p. now - w \<le> snd p) (ks_zset m t k) @ [(mem, now)]), Some (t + (w + 5000))))"
proof (cases "ks_live m t k")
  case None
  then have "ks_zremrangebyscore m t k (now - w) = m" and z: "ks_zset m t k = []"
    by (simp_all add: ks_zremrangebyscore_def ks_zfilter_def ks_zset_def)
  with None have "ks_zadd (ks_zremrangebyscore m t k (now - w)) t k now mem = m(k \<mapsto> (VZset [(mem, now)], None))"
    by (simp add: ks_zadd_def ks_zput_def)
  with z assms(3) show ?thesis by (simp add: ks_pexpire_def ks_live_def)
next
  case (Some r)
  with assms(1) obtain z e where r: "ks_live m t k = Some (VZset z, e)" "m k = Some (VZset z, e)"
    by (auto simp: zset_or_absent_def ks_live_def split: option.splits prod.splits vval.splits if_splits)
  then have z: "ks_zset m t k = z" by (simp add: ks_zset_def)
  let ?z = "filter (\<lambda>p. now - w \<le> snd p) z"
  let ?e = "if ?z = [] then None else e"
  have rem: "ks_zremrangebyscore m t k (now - w) = m(k := (if ?z = [] then None else Some (VZset ?z, e)))"
    using r by (simp add: ks_zremrangebyscore_def ks_zfilter_def ks_zput_def)
  have live: "ks_live (ks_zremrangebyscore m t k (now - w)) t k = (if ?z = [] then None else Some (VZset ?z, e))"
    unfolding rem using ks_live_upd [OF r(1), of "VZset ?z"] by simp
  have "mem \<notin> fst ` set ?z" using assms(2) z by auto
  then have upd: "AList.update mem now ?z = ?z @ [(mem, now)]" by (rule AList_update_fresh)
  have add: "ks_zadd (ks_zremrangebyscore m t k (now - w)) t k now mem = m(k \<mapsto> (VZset (?z @ [(mem, now)]), ?e))"
    unfolding ks_zadd_def live using upd by (simp add: rem ks_zput_def)
  have "ks_live (m(k \<mapsto> (VZset (?z @ [(mem, now)]), ?e))) t k = Some (VZset (?z @ [(mem, now)]), ?e)"
    using ks_live_upd [OF r(1), of "VZset (?z @ [(mem, now)])"] by simp
  then show ?thesis unfolding add ks_pexpire_def using z assms(3) by simp
qed

definition log_entry :: "keyspace \<Rightarrow> int \<Rightarrow> string \<Rightarrow> int \<Rightarrow> string \<Rightarrow> keyspace" where
  "log_entry m t k w mem =
     m(k \<mapsto> (VZset (filter (\<lambda>p. t - w \<le> snd p) (ks_zset m t k) @ [(mem, t)]), Some (t + (w + 5000))))"

lemma zset_log_entry:
  "ks_zset (log_entry m t k w mem) u k =
     (if t + (w + 5000) < u then [] else filter (\<lambda>p. t - w \<le> snd p) (ks_zset m t k) @ [(mem, t)])"
  by (simp add: log_entry_def ks_zset_def ks_live_def)

lemma log_entry_other: "k' \<noteq> k \<Longrightarrow> ks_live (log_entry m t k w mem) u k' = ks_live m u k'"
  by (simp add: log_entry_def ks_live_def)

definition tracks :: "keyspace \<Rightarrow> string \<Rightarrow> int \<Rightarrow> int list \<Rightarrow> string set \<Rightarrow> int \<Rightarrow> bool" where
  "tracks m k w log used now \<longleftrightarrow>
     (\<forall>x \<in> set log. x \<le> now) \<and> zset_or_absent m k
     \<and> (\<forall>u \<ge> now. fst ` set (ks_zset m u k) \<subseteq> used)
     \<and> (\<forall>u \<ge> now. filter (\<lambda>x. u - w \<le> x) (map snd (ks_zset m u k)) = filter (\<lambda>x. u - w \<le> x) log)"

lemma tracks_later: "tracks m k w log used t \<Longrightarrow> t \<le> now \<Longrightarrow> tracks m k w log used now"
  unfolding tracks_def by (meson order_trans)

lemma tracks_mono: "tracks m k w log used t \<Longrightarrow> used \<subseteq> used' \<Longrightarrow> tracks m k w log used' t"
  unfolding tracks_def by blast

lemma tracks_frame:
  assumes "m' k = m k" and "tracks m k w log used t"
  shows "tracks m' k w log used t"
proof -
  from assms(1) have "ks_zset m' u k = ks_zset m u k" for u by (simp add: ks_zset_def ks_live_def)
  with assms show ?thesis by (simp add: tracks_def zset_or_absent_def)
qed

lemma tracks_empty: "m k = None \<Longrightarrow> tracks m k w [] used t"
  by (simp add: tracks_def zset_or_absent_def ks_zset_def ks_live_def)

lemma tracks_count:
  assumes "tracks m k w log used t"
  shows "length (filter (\<lambda>p. t - w \<le> snd p) (ks_zset m t k)) = length (filter (\<lambda>x. t - w \<le> x) log)"
proof -
  have "filter (\<lambda>x. t - w \<le> x) (map snd (ks_zset m t k)) = filter (\<lambda>x. t - w \<le> x) log"
    using assms by (simp add: tracks_def)
  then show ?thesis by (metis (no_types, lifting) filter_map length_map comp_apply filter_cong)
qed

lemma tracks_log_entry:
  assumes rel: "tracks m k w log used t" and "0 < w"
  shows "tracks (log_entry m t k w mem) k w (log @ [t]) (insert mem used) t"
proof -
  let ?z = "filter (\<lambda>p. t - w \<le> snd p) (ks_zset m t k) @ [(mem, t)]"
  let ?m = "log_entry m t k w mem"
  have sub: "fst ` set (ks_zset m t k) \<subseteq> used" and log: "\<forall>x \<in> set log. x \<le> t"
    and same: "filter (\<lambda>x. t - w \<le> x) (map snd (ks_zset m t k)) = filter (\<lambda>x. t - w \<le> x) log"
    using rel by (auto simp: tracks_def)
  have logged: "map snd ?z = filter (\<lambda>x. t - w \<le> x) log @ [t]"
    using same by (simp add: filter_map o_def)
  have "filter (\<lambda>x. u - w \<le> x) (map snd (ks_zset ?m u k)) = filter (\<lambda>x. u - w \<le> x) (log @ [t])"
    if "t \<le> u" for u
  proof (cases "t + (w + 5000) < u")
    case True
    with log have "filter (\<lambda>x. u - w \<le> x) (log @ [t]) = []" by (auto simp: filter_empty_conv)
    with True show ?thesis by (simp add: zset_log_entry)
  next
    case False
    then have "filter (\<lambda>x. u - w \<le> x) (map snd (ks_zset ?m u k))
                 = filter (\<lambda>x. u - w \<le> x) (filter (\<lambda>x. t - w \<le> x) log @ [t])"
      unfolding zset_log_entry using logged by simp
    moreover from \<open>t \<le> u\<close> have "filter (\<lambda>x. u - w \<le> x) (filter (\<lambda>x. t - w \<le> x) log) = filter (\<lambda>x. u - w \<le> x) log"
      by (intro filter_filter_ge) simp
    ultimately show ?thesis by (simp only: filter_append)
  qed
  moreover have "fst ` set (ks_zset ?m u k) \<subseteq> insert mem used" for u
    unfolding zset_log_entry using sub by (auto simp: image_iff)
  moreover have "zset_or_absent ?m k" by (simp add: zset_or_absent_def log_entry_def)
  ultimately show ?thesis using log by (auto simp: tracks_def)
qed

text \<open>Trimming without adding, and taking back an entry just added.\<close>

definition trim_entry :: "keyspace \<Rightarrow> int \<Rightarrow> string \<Rightarrow> int \<Rightarrow> keyspace" where
  "trim_entry m t k w = ks_pexpire (ks_zremrangebyscore m t k (t - w)) t k (w + 5000)"

lemma zset_trimmed:
  "zset_or_absent m k \<Longrightarrow> ks_zset (ks_zremrangebyscore m t k c) t k = filter (\<lambda>p. c \<le> snd p) (ks_zset m t k)"
proof (cases "ks_live m t k")
  case (Some r)
  assume "zset_or_absent m k"
  with Some obtain z e where r: "ks_live m t k = Some (VZset z, e)"
    by (auto simp: zset_or_absent_def ks_live_def split: option.splits prod.splits vval.splits if_splits)
  let ?z = "filter (\<lambda>p. c \<le> snd p) z"
  have "ks_live (m(k := (if ?z = [] then None else Some (VZset ?z, e)))) t k = (if ?z = [] then None else Some (VZset ?z, e))"
    using ks_live_upd [OF r, of "VZset ?z"] by simp
  then show ?thesis using r
    by (simp add: ks_zremrangebyscore_def ks_zfilter_def ks_zput_def ks_zset_def)
qed (simp add: ks_zremrangebyscore_def ks_zfilter_def ks_zset_def)

lemma trim_entry_at:
  fixes t :: int
  assumes "zset_or_absent m k" and "0 < w"
  defines "z \<equiv> filter (\<lambda>p. t - w \<le> snd p) (ks_zset m t k)"
  shows "trim_entry m t k w k = (if ks_live m t k = None then m k
           else if z = [] then None else Some (VZset z, Some (t + (w + 5000))))"
proof (cases "ks_live m t k")
  case (Some r)
  with assms(1) obtain x e where r: "ks_live m t k = Some (VZset x, e)"
    by (auto simp: zset_or_absent_def ks_live_def split: option.splits prod.splits vval.splits if_splits)
  then have z: "z = filter (\<lambda>p. t - w \<le> snd p) x" by (simp add: z_def ks_zset_def)
  have live: "ks_live (m(k := (if z = [] then None else Some (VZset z, e)))) t k = (if z = [] then None else Some (VZset z, e))"
    using ks_live_upd [OF r, of "VZset z"] by simp
  have "ks_zremrangebyscore m t k (t - w) = m(k := (if z = [] then None else Some (VZset z, e)))"
    using r z by (simp add: ks_zremrangebyscore_def ks_zfilter_def ks_zput_def)
  then show ?thesis unfolding trim_entry_def ks_pexpire_def using live r assms(2) by simp
qed (simp add: trim_entry_def ks_zremrangebyscore_def ks_zfilter_def ks_pexpire_def)

lemma trim_entry_other: "k' \<noteq> k \<Longrightarrow> trim_entry m t k w k' = m k'"
  by (auto simp: trim_entry_def ks_zremrangebyscore_def ks_zfilter_def ks_zput_def ks_pexpire_def
      split: option.splits vval.splits prod.splits)

text \<open>Every way of keeping exactly the window's entries, with an expiry past the window, tracks the log.\<close>

lemma tracks_window_set:
  assumes "tracks m k w log used t" and "0 < w"
    and "m' k = (if z = [] then None else Some (VZset z, Some (t + (w + 5000))))"
    and "z = filter (\<lambda>p. t - w \<le> snd p) (ks_zset m t k)"
  shows "tracks m' k w log used t"
proof -
  have zset: "ks_zset m' u k = (if t + (w + 5000) < u then [] else z)" for u
    using assms(3) by (simp add: ks_zset_def ks_live_def)
  have log: "\<forall>x \<in> set log. x \<le> t" and sub: "fst ` set (ks_zset m t k) \<subseteq> used"
    and same: "filter (\<lambda>x. t - w \<le> x) (map snd (ks_zset m t k)) = filter (\<lambda>x. t - w \<le> x) log"
    using assms(1) by (auto simp: tracks_def)
  have snd_z: "map snd z = filter (\<lambda>x. t - w \<le> x) log"
    using same assms(4) by (simp add: filter_map o_def)
  have "filter (\<lambda>x. u - w \<le> x) (map snd (ks_zset m' u k)) = filter (\<lambda>x. u - w \<le> x) log" if "t \<le> u" for u
  proof (cases "t + (w + 5000) < u")
    case True
    with log have "filter (\<lambda>x. u - w \<le> x) log = []" by (auto simp: filter_empty_conv)
    with True show ?thesis by (simp add: zset)
  next
    case False
    then have "map snd (ks_zset m' u k) = filter (\<lambda>x. t - w \<le> x) log" unfolding zset using snd_z by simp
    moreover from \<open>t \<le> u\<close> have "t - w \<le> u - w" by simp
    ultimately show ?thesis by (simp only: filter_filter_ge)
  qed
  moreover have "zset_or_absent m' k" using assms(3) by (simp add: zset_or_absent_def)
  moreover have "fst ` set (ks_zset m' u k) \<subseteq> used" for u
    unfolding zset using sub assms(4) by auto
  ultimately show ?thesis using log by (simp add: tracks_def)
qed

lemma tracks_trim_entry:
  assumes "tracks m k w log used t" and "0 < w"
  shows "tracks (trim_entry m t k w) k w log used t"
proof (cases "ks_live m t k")
  case None
  with assms have "trim_entry m t k w k = m k" by (simp add: trim_entry_at tracks_def)
  then show ?thesis using assms(1) by (rule tracks_frame)
next
  case (Some r)
  with assms show ?thesis by (intro tracks_window_set [OF assms]) (auto simp: trim_entry_at tracks_def)
qed

lemma tracks_take_back:
  assumes "tracks m k w log used t" and "0 < w" and "mem \<notin> used"
    and "m2 k = log_entry m t k w mem k"
  shows "tracks (fst (ks_zrem m2 t k mem)) k w log used t"
proof (rule tracks_window_set [OF assms(1,2) _ refl])
  let ?z = "filter (\<lambda>p. t - w \<le> snd p) (ks_zset m t k)"
  have live: "ks_live m2 t k = Some (VZset (?z @ [(mem, t)]), Some (t + (w + 5000)))"
    using assms(2,4) by (simp add: ks_live_def log_entry_def)
  have "mem \<notin> fst ` set (ks_zset m t k)" using assms(1,3) by (auto simp: tracks_def)
  then have "filter (\<lambda>p. fst p \<noteq> mem) (?z @ [(mem, t)]) = ?z"
    by (simp add: filter_id_conv) (auto intro: filter_cong)
  with live show "fst (ks_zrem m2 t k mem) k = (if ?z = [] then None else Some (VZset ?z, Some (t + (w + 5000))))"
    by (simp add: ks_zrem_def ks_zfilter_def ks_zput_def)
qed

lemma zrem_other: "k' \<noteq> k \<Longrightarrow> fst (ks_zrem m t k x) k' = m k'"
  by (auto simp: ks_zrem_def ks_zfilter_def ks_zput_def split: option.splits vval.splits prod.splits)

end
