(* ===== verification/Breaker.thy ===== *)
theory Breaker
  imports Valkey
begin

text \<open>
  The circuit breakers of \<^verbatim>\<open>internal/jmap/breaker.go\<close>: the in-process breaker, the
  Valkey-backed breaker with its two Lua scripts, and the interface both implement.
  The injected clock \<^verbatim>\<open>now\<close> is an argument of each operation.
\<close>

subsection \<open>The in-process breaker\<close>

record hostBreakerState =
  failures :: "time list"
  openUntil :: "time option"

record inProcessCircuitBreaker =
  threshold :: int
  cooldown :: duration
  window :: duration
  state :: "string \<rightharpoonup> hostBreakerState"

record inProcessBreakerConfig =
  cfg_Threshold :: int
  cfg_Cooldown :: duration
  cfg_Window :: duration

definition clampBreakerWindow :: "duration \<Rightarrow> duration \<Rightarrow> duration" where
  "clampBreakerWindow cd w = (if cd \<le> 0 \<or> w \<le> 0 \<or> w \<ge> cd then w else cd)"

definition newInProcessCircuitBreaker :: "inProcessBreakerConfig \<Rightarrow> inProcessCircuitBreaker" where
  "newInProcessCircuitBreaker cfg =
     \<lparr>threshold = (if cfg_Threshold cfg \<le> 0 then 3 else cfg_Threshold cfg),
      cooldown = cfg_Cooldown cfg,
      window = clampBreakerWindow (cfg_Cooldown cfg) (cfg_Window cfg),
      state = Map.empty\<rparr>"

definition trimLocked :: "inProcessCircuitBreaker \<Rightarrow> hostBreakerState \<Rightarrow> time \<Rightarrow> hostBreakerState" where
  "trimLocked b s now =
     (if window b \<le> 0 \<or> failures s = [] then s
      else let cutoff = now - window b
           in s\<lparr>failures := dropWhile (\<lambda>t. t < cutoff) (failures s)\<rparr>)"

text \<open>\<^verbatim>\<open>Open\<close> trims the stored state as a side effect, so it returns the breaker too.\<close>

definition Open :: "inProcessCircuitBreaker \<Rightarrow> time \<Rightarrow> string \<Rightarrow> bool \<times> inProcessCircuitBreaker" where
  "Open b now host = (case state b host of
       None \<Rightarrow> (False, b)
     | Some s0 \<Rightarrow>
         (let s = trimLocked b s0 now; b' = b\<lparr>state := (state b)(host \<mapsto> s)\<rparr>
          in (if cooldown b > 0
              then (case openUntil s of None \<Rightarrow> False | Some u \<Rightarrow> now < u)
              else int (length (failures s)) \<ge> threshold b, b')))"

definition RecordSuccess :: "inProcessCircuitBreaker \<Rightarrow> string \<Rightarrow> inProcessCircuitBreaker" where
  "RecordSuccess b host = b\<lparr>state := (state b)(host := None)\<rparr>"

definition RecordFailure :: "inProcessCircuitBreaker \<Rightarrow> time \<Rightarrow> string \<Rightarrow> inProcessCircuitBreaker" where
  "RecordFailure b now host =
     (let s0 = (case state b host of None \<Rightarrow> \<lparr>failures = [], openUntil = None\<rparr> | Some s \<Rightarrow> s);
          s1 = trimLocked b s0 now;
          s2 = s1\<lparr>failures := failures s1 @ [now]\<rparr>;
          s3 = (if cooldown b > 0 \<and> (case openUntil s2 of None \<Rightarrow> False | Some u \<Rightarrow> \<not> now < u)
                then s2\<lparr>openUntil := Some (now + cooldown b)\<rparr>
                else if int (length (failures s2)) \<ge> threshold b
                then (if cooldown b > 0 then s2\<lparr>openUntil := Some (now + cooldown b)\<rparr> else s2)
                else s2)
      in b\<lparr>state := (state b)(host \<mapsto> s3)\<rparr>)"

subsection \<open>The Valkey-backed breaker\<close>

record RedisCircuitBreaker =
  r_threshold :: int
  r_cooldown :: duration
  r_window :: duration

text \<open>
  The constructor; \<open>hasClient\<close> says whether \<^verbatim>\<open>cfg.Client\<close> is non-nil.
\<close>

definition NewRedisCircuitBreaker :: "bool \<Rightarrow> int \<Rightarrow> duration \<Rightarrow> duration \<Rightarrow> RedisCircuitBreaker option" where
  "NewRedisCircuitBreaker hasClient th cd w =
     (if \<not> hasClient then None
      else let cd' = (if cd \<le> 0 then 30 * nanos_per_s else cd);
               w' = (if w \<le> 0 then 60 * nanos_per_s else w)
           in Some \<lparr>r_threshold = (if th \<le> 0 then 3 else th), r_cooldown = cd',
                    r_window = clampBreakerWindow cd' w'\<rparr>)"

definition breaker_keys :: "string \<Rightarrow> string \<times> string" where
  "breaker_keys host =
     (''kmail:cb:{'' @ host @ ''}:fail'', ''kmail:cb:{'' @ host @ ''}:open_until'')"

text \<open>
  The Lua scripts. \<open>t\<close> is the server's clock; \<^verbatim>\<open>tostring\<close> and \<^verbatim>\<open>tonumber\<close> are exact on the
  integers below \<open>10 ^ 14\<close>, which epoch milliseconds stay under.
\<close>

definition breakerAllowScript :: "'s valkey \<Rightarrow> 's \<Rightarrow> int \<Rightarrow> string \<Rightarrow> string \<Rightarrow> int \<Rightarrow> int" where
  "breakerAllowScript v s t failKey openKey now =
     (case vk_get v s t openKey of
        None \<Rightarrow> 0
      | Some raw \<Rightarrow> (case atoi raw of
            None \<Rightarrow> 0
          | Some until_ms \<Rightarrow> if now \<ge> until_ms then 0 else 1))"

definition breakerFailScript ::
    "'s valkey \<Rightarrow> 's \<Rightarrow> int \<Rightarrow> string \<Rightarrow> string \<Rightarrow> int \<Rightarrow> int \<Rightarrow> int \<Rightarrow> int \<Rightarrow> string \<Rightarrow> 's \<times> int" where
  "breakerFailScript v s t failKey openKey win thr cd now member =
     (let cutoff = now - win;
          s1 = vk_zremrangebyscore v s t failKey cutoff;
          s2 = vk_zadd v s1 t failKey now member;
          count = vk_zcard v s2 t failKey;
          s3 = vk_pexpire v s2 t failKey (win + 5000);
          trip = vk_set v s3 t openKey (itoa (now + cd)) (Some (cd + 5000))
      in if (case vk_get v s3 t openKey of
               None \<Rightarrow> False
             | Some raw \<Rightarrow> (case atoi raw of None \<Rightarrow> False | Some u \<Rightarrow> now \<ge> u))
         then (trip, count)
         else if count \<ge> thr then (trip, count) else (s3, count))"

text \<open>
  \<open>up\<close> says whether the call reaches the server; \<^verbatim>\<open>Open\<close> fails open, the record operations
  drop the event. \<open>rnd\<close> is the hex rendering of the eight random bytes, \<open>None\<close> when
  \<^verbatim>\<open>rand.Read\<close> fails.
\<close>

definition newBreakerMember :: "int \<Rightarrow> string option \<Rightarrow> string option" where
  "newBreakerMember nowMs rnd = map_option (\<lambda>r. itoa nowMs @ '':'' @ r) rnd"

definition redisOpen :: "RedisCircuitBreaker \<Rightarrow> 's valkey \<Rightarrow> bool \<Rightarrow> 's \<Rightarrow> int \<Rightarrow> time \<Rightarrow> string \<Rightarrow> bool" where
  "redisOpen b v up s t now host =
     (if \<not> up then False
      else let (failKey, openKey) = breaker_keys host
           in breakerAllowScript v s t failKey openKey (unix_milli now) = 1)"

definition redisRecordSuccess :: "RedisCircuitBreaker \<Rightarrow> 's valkey \<Rightarrow> bool \<Rightarrow> 's \<Rightarrow> int \<Rightarrow> string \<Rightarrow> 's" where
  "redisRecordSuccess b v up s t host =
     (if \<not> up then s
      else let (failKey, openKey) = breaker_keys host
           in vk_del v (vk_del v s t failKey) t openKey)"

definition redisRecordFailure ::
    "RedisCircuitBreaker \<Rightarrow> 's valkey \<Rightarrow> bool \<Rightarrow> 's \<Rightarrow> int \<Rightarrow> time \<Rightarrow> string option \<Rightarrow> string \<Rightarrow> 's" where
  "redisRecordFailure b v up s t now rnd host =
     (let (failKey, openKey) = breaker_keys host; nowMs = unix_milli now
      in case newBreakerMember nowMs rnd of
           None \<Rightarrow> s
         | Some member \<Rightarrow>
             if \<not> up then s
             else fst (breakerFailScript v s t failKey openKey (milliseconds (r_window b))
                         (r_threshold b) (milliseconds (r_cooldown b)) nowMs member))"

subsection \<open>Runs against one host, and the reference machine\<close>

text \<open>
  A run is a list of timed calls; its result is the list of verdicts of \<^verbatim>\<open>Open\<close>. The
  random suffix of the sorted-set member is part of the failure event.
\<close>

datatype bevent = BFail string | BSuccess | BOpen

fun run_local :: "inProcessCircuitBreaker \<Rightarrow> string \<Rightarrow> (time \<times> bevent) list \<Rightarrow> bool list" where
  "run_local b h [] = []"
| "run_local b h ((t, BFail r) # es) = run_local (RecordFailure b t h) h es"
| "run_local b h ((t, BSuccess) # es) = run_local (RecordSuccess b h) h es"
| "run_local b h ((t, BOpen) # es) = (let (open, b') = Open b t h in open # run_local b' h es)"

fun run_redis :: "RedisCircuitBreaker \<Rightarrow> 's valkey \<Rightarrow> 's \<Rightarrow> string \<Rightarrow> (time \<times> bevent) list \<Rightarrow> bool list" where
  "run_redis b v s h [] = []"
| "run_redis b v s h ((t, BFail r) # es) =
     run_redis b v (redisRecordFailure b v True s (unix_milli t) t (Some r) h) h es"
| "run_redis b v s h ((t, BSuccess) # es) =
     run_redis b v (redisRecordSuccess b v True s (unix_milli t) h) h es"
| "run_redis b v s h ((t, BOpen) # es) =
     redisOpen b v True s (unix_milli t) t h # run_redis b v s h es"

text \<open>
  The reference machine forgets nothing: it keeps every failure since the last success
  and counts those inside the window when a failure is recorded.
\<close>

record breaker_history =
  hist :: "time list"
  tripped :: "time option"

definition no_history :: breaker_history where
  "no_history = \<lparr>hist = [], tripped = None\<rparr>"

definition in_window :: "duration \<Rightarrow> time \<Rightarrow> time list \<Rightarrow> time list" where
  "in_window w now h = (if w \<le> 0 then h else filter (\<lambda>t. now - w \<le> t) h)"

definition cooled_down :: "time \<Rightarrow> time option \<Rightarrow> bool" where
  "cooled_down now u = (case u of None \<Rightarrow> False | Some p \<Rightarrow> p \<le> now)"

definition spec_fail :: "int \<Rightarrow> duration \<Rightarrow> duration \<Rightarrow> time \<Rightarrow> breaker_history \<Rightarrow> breaker_history" where
  "spec_fail th cd w now s =
     \<lparr>hist = hist s @ [now],
      tripped = (if cd > 0 \<and> (cooled_down now (tripped s)
                               \<or> int (length (in_window w now (hist s @ [now]))) \<ge> th)
                 then Some (now + cd) else tripped s)\<rparr>"

definition spec_open :: "int \<Rightarrow> duration \<Rightarrow> duration \<Rightarrow> time \<Rightarrow> breaker_history \<Rightarrow> bool" where
  "spec_open th cd w now s =
     (if cd > 0 then (case tripped s of None \<Rightarrow> False | Some p \<Rightarrow> now < p)
      else int (length (in_window w now (hist s))) \<ge> th)"

fun run_spec :: "int \<Rightarrow> duration \<Rightarrow> duration \<Rightarrow> breaker_history \<Rightarrow> (time \<times> bevent) list \<Rightarrow> bool list" where
  "run_spec th cd w s [] = []"
| "run_spec th cd w s ((t, BFail r) # es) = run_spec th cd w (spec_fail th cd w t s) es"
| "run_spec th cd w s ((t, BSuccess) # es) = run_spec th cd w no_history es"
| "run_spec th cd w s ((t, BOpen) # es) = spec_open th cd w t s # run_spec th cd w s es"

lemma in_window_in_window:
  "t \<le> now \<Longrightarrow> in_window w now (in_window w t h) = in_window w now h"
  by (auto simp: in_window_def intro: filter_cong)

lemma in_window_snoc: "in_window w now h @ [now] = in_window w now (h @ [now])"
  by (simp add: in_window_def)

lemma sorted_in_window: "sorted h \<Longrightarrow> sorted (in_window w now h)"
  by (simp add: in_window_def sorted_filter [of "\<lambda>x. x", simplified])

subsection \<open>The in-process breaker implements the reference machine\<close>

definition host_state :: "inProcessCircuitBreaker \<Rightarrow> string \<Rightarrow> hostBreakerState" where
  "host_state b h = (case state b h of None \<Rightarrow> \<lparr>failures = [], openUntil = None\<rparr> | Some s \<Rightarrow> s)"

lemma trimLocked_simps [simp]:
  "openUntil (trimLocked b s now) = openUntil s"
  by (simp add: trimLocked_def Let_def)

lemma trimLocked_failures:
  "sorted (failures s) \<Longrightarrow> failures (trimLocked b s now) = in_window (window b) now (failures s)"
  by (simp add: trimLocked_def in_window_def Let_def dropWhile_sorted)

lemma RecordFailure_params [simp]:
  "threshold (RecordFailure b t h) = threshold b" "cooldown (RecordFailure b t h) = cooldown b"
  "window (RecordFailure b t h) = window b"
  by (simp_all add: RecordFailure_def Let_def)

lemma RecordSuccess_params [simp]:
  "threshold (RecordSuccess b h) = threshold b" "cooldown (RecordSuccess b h) = cooldown b"
  "window (RecordSuccess b h) = window b"
  by (simp_all add: RecordSuccess_def)

lemma Open_params [simp]:
  "threshold (snd (Open b t h)) = threshold b" "cooldown (snd (Open b t h)) = cooldown b"
  "window (snd (Open b t h)) = window b"
  by (simp_all add: Open_def Let_def split: option.splits)

lemma host_state_failure:
  "failures (host_state (RecordFailure b now h) h) = failures (trimLocked b (host_state b h) now) @ [now]"
  "openUntil (host_state (RecordFailure b now h) h) =
     (if cooldown b > 0 \<and> (cooled_down now (openUntil (host_state b h))
           \<or> int (length (failures (trimLocked b (host_state b h) now) @ [now])) \<ge> threshold b)
      then Some (now + cooldown b) else openUntil (host_state b h))"
  by (simp_all add: RecordFailure_def host_state_def Let_def cooled_down_def not_less split: option.split)

lemma host_state_success [simp]: "host_state (RecordSuccess b h) h = \<lparr>failures = [], openUntil = None\<rparr>"
  by (simp add: RecordSuccess_def host_state_def)

lemma host_state_other [simp]:
  "h' \<noteq> h \<Longrightarrow> host_state (RecordFailure b now h) h' = host_state b h'"
  "h' \<noteq> h \<Longrightarrow> host_state (RecordSuccess b h) h' = host_state b h'"
  "h' \<noteq> h \<Longrightarrow> host_state (snd (Open b now h)) h' = host_state b h'"
  by (simp_all add: RecordFailure_def RecordSuccess_def Open_def host_state_def Let_def split: option.splits)

lemma fst_Open:
  "0 < threshold b \<Longrightarrow> fst (Open b now h) =
     (if cooldown b > 0 then (case openUntil (host_state b h) of None \<Rightarrow> False | Some u \<Rightarrow> now < u)
      else int (length (failures (trimLocked b (host_state b h) now))) \<ge> threshold b)"
  by (simp add: Open_def host_state_def Let_def trimLocked_def split: option.splits)

lemma host_state_Open: "host_state (snd (Open b now h)) h = trimLocked b (host_state b h) now"
  by (simp add: Open_def host_state_def Let_def trimLocked_def split: option.splits)

text \<open>
  The simulation relation: the stored log is the window of the full history as of some
  earlier instant, so trimming it again at a later instant gives the window of the history.
\<close>

definition local_rel :: "inProcessCircuitBreaker \<Rightarrow> string \<Rightarrow> breaker_history \<Rightarrow> time \<Rightarrow> bool" where
  "local_rel b h s now \<longleftrightarrow>
     0 < threshold b \<and> sorted (hist s) \<and> (\<forall>x \<in> set (hist s). x \<le> now)
     \<and> openUntil (host_state b h) = tripped s
     \<and> (\<exists>t \<le> now. failures (host_state b h) = in_window (window b) t (hist s))"

lemma local_rel_trim:
  assumes "local_rel b h s t0" and "t0 \<le> now"
  shows "failures (trimLocked b (host_state b h) now) = in_window (window b) now (hist s)"
proof -
  obtain t where t: "t \<le> now" "failures (host_state b h) = in_window (window b) t (hist s)"
    using assms unfolding local_rel_def by (meson order_trans)
  then have "sorted (failures (host_state b h))"
    using assms(1) by (simp add: local_rel_def sorted_in_window)
  with t show ?thesis by (simp add: trimLocked_failures in_window_in_window)
qed

lemma local_rel_fail:
  assumes "local_rel b h s t0" and "t0 \<le> now"
  shows "local_rel (RecordFailure b now h) h
           (spec_fail (threshold b) (cooldown b) (window b) now s) now"
  using assms local_rel_trim [OF assms]
  by (fastforce simp: local_rel_def host_state_failure spec_fail_def in_window_snoc sorted_append)

lemma local_rel_success:
  "local_rel b h s t0 \<Longrightarrow> t0 \<le> now \<Longrightarrow> local_rel (RecordSuccess b h) h no_history now"
  by (auto simp: local_rel_def no_history_def in_window_def)

lemma local_rel_open:
  assumes "local_rel b h s t0" and "t0 \<le> now"
  shows "fst (Open b now h) = spec_open (threshold b) (cooldown b) (window b) now s"
    and "local_rel (snd (Open b now h)) h s now"
proof -
  note trim = local_rel_trim [OF assms]
  show "fst (Open b now h) = spec_open (threshold b) (cooldown b) (window b) now s"
    using assms by (simp add: fst_Open local_rel_def spec_open_def trim)
  show "local_rel (snd (Open b now h)) h s now"
    using assms trim by (fastforce simp: local_rel_def host_state_Open)
qed

lemma run_local_spec:
  assumes "local_rel b h s t0" and "sorted (t0 # map fst es)"
  shows "run_local b h es = run_spec (threshold b) (cooldown b) (window b) s es"
  using assms
proof (induction b h es arbitrary: s t0 rule: run_local.induct)
  case (2 b h t r es)
  then show ?case using local_rel_fail [of b h s t0 t] by simp
next
  case (3 b h t es)
  then show ?case using local_rel_success [of b h s t0 t] by simp
next
  case (4 b h t es)
  obtain o' b' where ob: "Open b t h = (o', b')" by fastforce
  with 4(3) local_rel_open [OF 4(2), of t]
  have "o' = spec_open (threshold b) (cooldown b) (window b) t s" and "local_rel b' h s t"
    and "threshold b' = threshold b" "cooldown b' = cooldown b" "window b' = window b"
    using Open_params [of b t h] by auto
  moreover from 4(3) have "sorted (t # map fst es)" by simp
  ultimately show ?case using 4(1) [OF ob [symmetric] refl] ob by simp
qed simp

lemma new_local_rel: "local_rel (newInProcessCircuitBreaker cfg) h no_history t0"
  by (auto simp: local_rel_def newInProcessCircuitBreaker_def no_history_def host_state_def in_window_def)

subsection \<open>The Valkey scripts on the key space\<close>

lemma breaker_keys_distinct: "fst (breaker_keys h) \<noteq> snd (breaker_keys h)"
  by (simp add: breaker_keys_def)

definition trip_key :: "keyspace \<Rightarrow> int \<Rightarrow> string \<Rightarrow> int \<Rightarrow> keyspace" where
  "trip_key m t k cd = m(k \<mapsto> (VStr (itoa (t + cd)), Some (t + (cd + 5000))))"

context valkey_server
begin

lemma ks_breakerFailScript:
  assumes "fk \<noteq> ok" and "zset_or_absent (ks s) fk"
    and "mem \<notin> fst ` set (ks_zset (ks s) t fk)" and "0 < w"
  shows "ks (fst (breakerFailScript v s t fk ok w th cd t mem)) =
    (let m = log_entry (ks s) t fk w mem
     in if (case ks_str (ks s) t ok of None \<Rightarrow> False
            | Some raw \<Rightarrow> (case atoi raw of None \<Rightarrow> False | Some u \<Rightarrow> u \<le> t))
           \<or> int (length (filter (\<lambda>p. t - w \<le> snd p) (ks_zset (ks s) t fk))) + 1 \<ge> th
        then trip_key m t ok cd else m)"
proof -
  let ?s2 = "vk_zadd v (vk_zremrangebyscore v s t fk (t - w)) t fk t mem"
  let ?s3 = "vk_pexpire v ?s2 t fk (w + 5000)"
  have s3: "ks ?s3 = log_entry (ks s) t fk w mem"
    using ks_log_entry_cmds [OF assms(2-4), of t] by (simp add: commands log_entry_def)
  have set3: "ks (vk_set v ?s3 t ok x (Some d)) = (ks ?s3)(ok \<mapsto> (VStr x, Some (t + d)))" for x d
    by (simp add: set ks_set_def)
  have get3: "vk_get v ?s3 t ok = ks_str (ks s) t ok"
    using assms(1) unfolding get s3 by (simp add: log_entry_def ks_str_def ks_live_def)
  have "ks_zset (ks ?s3) t fk = filter (\<lambda>p. t - w \<le> snd p) (ks_zset (ks s) t fk) @ [(mem, t)]"
    using assms(4) unfolding s3 by (simp add: log_entry_def ks_zset_def ks_live_def)
  moreover have "ks_zset (ks ?s2) t fk = ks_zset (ks ?s3) t fk"
    unfolding pexpire using assms(4)
    by (auto simp: ks_zset_def ks_pexpire_def ks_live_def split: option.splits prod.splits if_splits)
  ultimately have card: "vk_zcard v ?s2 t fk = int (length (filter (\<lambda>p. t - w \<le> snd p) (ks_zset (ks s) t fk))) + 1"
    by (simp add: zcard ks_zcard_def)
  show ?thesis
    unfolding breakerFailScript_def Let_def card get3
    by (auto simp: set3 s3 trip_key_def split: option.splits)
qed

end

subsection \<open>The Valkey breaker implements the reference machine\<close>

text \<open>
  The relation speaks about every later instant, so the passing of time (and the expiry of
  keys with it) keeps it. The failure set agrees with the history inside the window; the
  \<^verbatim>\<open>open_until\<close> key holds the end of the plateau until five seconds after it.
\<close>

definition redis_rel :: "keyspace \<Rightarrow> string \<Rightarrow> string \<Rightarrow> int \<Rightarrow> breaker_history \<Rightarrow> string set \<Rightarrow> int \<Rightarrow> bool" where
  "redis_rel m fk ok w s used now \<longleftrightarrow>
     tracks m fk w (hist s) used now
     \<and> (\<forall>u \<ge> now. ks_str m u ok =
          (case tripped s of None \<Rightarrow> None | Some p \<Rightarrow> if u \<le> p + 5000 then Some (itoa p) else None))"

lemma redis_rel_later: "redis_rel m fk ok w s used t \<Longrightarrow> t \<le> now \<Longrightarrow> redis_rel m fk ok w s used now"
  unfolding redis_rel_def by (meson order_trans tracks_later)

lemma redis_rel_log:
  assumes "redis_rel m fk ok w s used t" and "fk \<noteq> ok" and "0 < w"
  shows "redis_rel (log_entry m t fk w mem) fk ok w (s\<lparr>hist := hist s @ [t]\<rparr>) (insert mem used) t"
  using assms tracks_log_entry [of m fk w "hist s" used t mem]
  by (simp add: redis_rel_def ks_live_frame(1) [OF log_entry_other])

lemma redis_rel_trip:
  assumes "redis_rel m fk ok w s used t" and "fk \<noteq> ok" and "0 < cd"
  shows "redis_rel (trip_key m t ok cd) fk ok w (s\<lparr>tripped := Some (t + cd)\<rparr>) used t"
  using assms tracks_frame [of "trip_key m t ok cd" fk m]
  by (simp add: redis_rel_def trip_key_def ks_str_def ks_live_def add.assoc not_less)

text \<open>A failure that comes within five seconds of the end of the plateau sees the key.\<close>

definition prompt_fail :: "time \<Rightarrow> breaker_history \<Rightarrow> bool" where
  "prompt_fail now s = (case tripped s of None \<Rightarrow> True | Some p \<Rightarrow> now \<le> p + 5000)"

fun prompt :: "int \<Rightarrow> duration \<Rightarrow> duration \<Rightarrow> breaker_history \<Rightarrow> (time \<times> bevent) list \<Rightarrow> bool" where
  "prompt th cd w s [] = True"
| "prompt th cd w s ((t, BFail r) # es) = (prompt_fail t s \<and> prompt th cd w (spec_fail th cd w t s) es)"
| "prompt th cd w s ((t, BSuccess) # es) = prompt th cd w no_history es"
| "prompt th cd w s ((t, BOpen) # es) = prompt th cd w s es"

fun fail_members :: "(time \<times> bevent) list \<Rightarrow> string list" where
  "fail_members [] = []"
| "fail_members ((t, BFail r) # es) = (itoa t @ '':'' @ r) # fail_members es"
| "fail_members ((t, e) # es) = fail_members es"

definition at_ms :: "(time \<times> bevent) list \<Rightarrow> (time \<times> bevent) list" where
  "at_ms es = map (\<lambda>(t, e). (nanos_per_ms * t, e)) es"

lemma at_ms_simps [simp]: "at_ms [] = []" "at_ms ((t, e) # es) = (nanos_per_ms * t, e) # at_ms es"
  by (simp_all add: at_ms_def)

context valkey_server
begin

lemma redis_rel_fail:
  assumes rel: "redis_rel (ks s) (fst (breaker_keys h)) (snd (breaker_keys h)) w hs used t"
    and "0 < w" "0 < cd" and "prompt_fail t hs" and fresh: "itoa t @ '':'' @ r \<notin> used"
  shows "redis_rel (ks (redisRecordFailure \<lparr>r_threshold = th, r_cooldown = nanos_per_ms * cd, r_window = nanos_per_ms * w\<rparr>
             v True s t (nanos_per_ms * t) (Some r) h)) (fst (breaker_keys h)) (snd (breaker_keys h)) w
             (spec_fail th cd w t hs) (insert (itoa t @ '':'' @ r) used) t"
proof -
  obtain fk ok where keys: "breaker_keys h = (fk, ok)" by fastforce
  have dist: "fk \<noteq> ok" using breaker_keys_distinct [of h] keys by simp
  let ?mem = "itoa t @ '':'' @ r"
  let ?old = "case ks_str (ks s) t ok of None \<Rightarrow> False | Some raw \<Rightarrow> (case atoi raw of None \<Rightarrow> False | Some u \<Rightarrow> u \<le> t)"
  let ?n = "int (length (filter (\<lambda>p. t - w \<le> snd p) (ks_zset (ks s) t fk)))"
  have rel': "redis_rel (ks s) fk ok w hs used t" using rel keys by simp
  then have zs: "zset_or_absent (ks s) fk" and mem: "?mem \<notin> fst ` set (ks_zset (ks s) t fk)"
    using fresh by (auto simp: redis_rel_def tracks_def)
  have old: "?old = cooled_down t (tripped hs)"
    using rel' assms(4) by (auto simp: redis_rel_def cooled_down_def prompt_fail_def split: option.splits)
  have "length (filter (\<lambda>p. t - w \<le> snd p) (ks_zset (ks s) t fk)) = length (filter (\<lambda>x. t - w \<le> x) (hist hs))"
    using rel' tracks_count [of "ks s" fk w "hist hs" used t] by (simp add: redis_rel_def)
  then have n: "?n + 1 = int (length (in_window w t (hist hs @ [t])))"
    using assms(2) by (simp add: in_window_def)
  have log: "redis_rel (log_entry (ks s) t fk w ?mem) fk ok w (hs\<lparr>hist := hist hs @ [t]\<rparr>) (insert ?mem used) t"
    by (rule redis_rel_log [OF rel' dist assms(2)])
  let ?m = "log_entry (ks s) t fk w ?mem"
  let ?trip = "cooled_down t (tripped hs) \<or> int (length (in_window w t (hist hs @ [t]))) \<ge> th"
  have "ks (redisRecordFailure \<lparr>r_threshold = th, r_cooldown = nanos_per_ms * cd, r_window = nanos_per_ms * w\<rparr>
          v True s t (nanos_per_ms * t) (Some r) h) = (if ?trip then trip_key ?m t ok cd else ?m)"
    using ks_breakerFailScript [OF dist zs mem assms(2), of th cd] assms(2,3)
    by (simp add: redisRecordFailure_def keys newBreakerMember_def Let_def old n)
  moreover have "spec_fail th cd w t hs =
      (if ?trip then (hs\<lparr>hist := hist hs @ [t]\<rparr>)\<lparr>tripped := Some (t + cd)\<rparr> else hs\<lparr>hist := hist hs @ [t]\<rparr>)"
    using assms(3) by (cases hs) (simp add: spec_fail_def)
  ultimately show ?thesis
    using log redis_rel_trip [OF log dist assms(3)] by (simp only: keys fst_conv snd_conv split: if_split) simp
qed

lemma redis_rel_success:
  assumes "redis_rel (ks s) (fst (breaker_keys h)) (snd (breaker_keys h)) w hs used t"
  shows "redis_rel (ks (redisRecordSuccess b v True s t' h)) (fst (breaker_keys h)) (snd (breaker_keys h)) w
           no_history used t"
proof -
  obtain fk ok where keys: "breaker_keys h = (fk, ok)" by fastforce
  then have "fk \<noteq> ok" using breaker_keys_distinct [of h] by simp
  with keys show ?thesis
    by (simp add: redisRecordSuccess_def del ks_del_def redis_rel_def no_history_def tracks_empty ks_str_def ks_live_def)
qed

lemma redis_rel_open:
  assumes "redis_rel (ks s) (fst (breaker_keys h)) (snd (breaker_keys h)) w hs used t" and "0 < cd"
  shows "redisOpen b v True s t (nanos_per_ms * t) h = spec_open th cd w t hs"
  using assms
  by (auto simp: redisOpen_def breakerAllowScript_def get redis_rel_def spec_open_def split: prod.splits option.splits if_splits)

lemma run_redis_spec:
  assumes "redis_rel (ks s) (fst (breaker_keys h)) (snd (breaker_keys h)) w hs used t0"
    and "sorted (t0 # map fst es)" and "0 < w" "0 < cd" and "prompt th cd w hs es"
    and "distinct (fail_members es)" and "set (fail_members es) \<inter> used = {}"
  shows "run_redis \<lparr>r_threshold = th, r_cooldown = nanos_per_ms * cd, r_window = nanos_per_ms * w\<rparr> v s h (at_ms es)
           = run_spec th cd w hs es"
  using assms
proof (induction th cd w hs es arbitrary: s used t0 rule: prompt.induct)
  case (2 th cd w hs t r es)
  have rel: "redis_rel (ks s) (fst (breaker_keys h)) (snd (breaker_keys h)) w hs used t"
    using redis_rel_later [OF 2(2), of t] 2(3) by simp
  have step: "redis_rel (ks (redisRecordFailure \<lparr>r_threshold = th, r_cooldown = nanos_per_ms * cd, r_window = nanos_per_ms * w\<rparr>
             v True s t (nanos_per_ms * t) (Some r) h)) (fst (breaker_keys h)) (snd (breaker_keys h)) w
             (spec_fail th cd w t hs) (insert (itoa t @ '':'' @ r) used) t"
    by (rule redis_rel_fail [OF rel]) (use 2(4-8) in auto)
  show ?case using 2(1) [OF step] 2(3-8) by simp
next
  case (3 th cd w hs t es)
  have rel: "redis_rel (ks s) (fst (breaker_keys h)) (snd (breaker_keys h)) w hs used t"
    using redis_rel_later [OF 3(2), of t] 3(3) by simp
  show ?case using 3(1) [OF redis_rel_success [OF rel]] 3(3-8) by simp
next
  case (4 th cd w hs t es)
  then show ?case using redis_rel_open [OF redis_rel_later [OF 4(2), of t]] redis_rel_later [OF 4(2), of t]
    by auto
qed simp

end

text \<open>The reference machine does not depend on the unit of time.\<close>

definition scale :: "int \<Rightarrow> breaker_history \<Rightarrow> breaker_history" where
  "scale c s = \<lparr>hist = map (\<lambda>x. c * x) (hist s), tripped = map_option (\<lambda>x. c * x) (tripped s)\<rparr>"

lemma in_window_scale:
  assumes "0 < c"
  shows "in_window (c * w) (c * now) (map (\<lambda>x. c * x) h) = map (\<lambda>x. c * x) (in_window w now h)"
proof -
  have "c * now - c * w \<le> c * x \<longleftrightarrow> now - w \<le> x" for x
    using assms by (metis mult_le_cancel_left_pos right_diff_distrib)
  moreover have "c * w \<le> 0 \<longleftrightarrow> w \<le> 0" using assms by (simp add: mult_le_0_iff)
  ultimately show ?thesis by (simp add: in_window_def filter_map o_def)
qed

lemma spec_fail_scale:
  "0 < c \<Longrightarrow> spec_fail th (c * cd) (c * w) (c * now) (scale c s) = scale c (spec_fail th cd w now s)"
  using in_window_scale [of c w now "hist s @ [now]"]
  by (auto simp: spec_fail_def scale_def zero_less_mult_iff cooled_down_def distrib_left split: option.split)

lemma spec_open_scale:
  "0 < c \<Longrightarrow> spec_open th (c * cd) (c * w) (c * now) (scale c s) = spec_open th cd w now s"
  using in_window_scale [of c w now "hist s"]
  by (simp add: spec_open_def scale_def zero_less_mult_iff split: option.split)

lemma run_spec_at_ms:
  "run_spec th (nanos_per_ms * cd) (nanos_per_ms * w) (scale nanos_per_ms s) (at_ms es) = run_spec th cd w s es"
proof (induction th cd w s es rule: run_spec.induct)
  case (3 th cd w s t es)
  moreover have "scale nanos_per_ms no_history = no_history" by (simp add: scale_def no_history_def)
  ultimately show ?case by simp
qed (simp_all add: spec_fail_scale spec_open_scale)

lemma run_spec_at_ms_start:
  "run_spec th (nanos_per_ms * cd) (nanos_per_ms * w) no_history (at_ms es) = run_spec th cd w no_history es"
  using run_spec_at_ms [of th cd w no_history es] by (simp add: scale_def no_history_def)

lemma sorted_at_ms: "sorted (map fst es) \<Longrightarrow> sorted (map fst (at_ms es))"
  by (induction es) (auto simp: at_ms_def)

subsection \<open>The breaker interface\<close>

text \<open>
  What the callers of \<^verbatim>\<open>CircuitBreaker\<close> rely on: a success closes the breaker of its host,
  asking does not change any verdict, and hosts do not affect one another.
\<close>

locale circuit_breaker =
  fixes verdict :: "'b \<Rightarrow> time \<Rightarrow> string \<Rightarrow> bool"
    and ask :: "'b \<Rightarrow> time \<Rightarrow> string \<Rightarrow> 'b"
    and success :: "'b \<Rightarrow> time \<Rightarrow> string \<Rightarrow> 'b"
    and failure :: "'b \<Rightarrow> time \<Rightarrow> string \<Rightarrow> 'b"
    and inv :: "'b \<Rightarrow> bool"
  assumes success_closes: "inv b \<Longrightarrow> \<not> verdict (success b t h) u h"
    and success_frame: "inv b \<Longrightarrow> h' \<noteq> h \<Longrightarrow> verdict (success b t h) u h' = verdict b u h'"
    and failure_frame: "inv b \<Longrightarrow> h' \<noteq> h \<Longrightarrow> verdict (failure b t h) u h' = verdict b u h'"
    and ask_frame: "inv b \<Longrightarrow> verdict (ask b t h) u h' = verdict b u h'"
    and inv_success: "inv b \<Longrightarrow> inv (success b t h)"
    and inv_failure: "inv b \<Longrightarrow> inv (failure b t h)"
    and inv_ask: "inv b \<Longrightarrow> inv (ask b t h)"

definition local_inv :: "inProcessCircuitBreaker \<Rightarrow> bool" where
  "local_inv b \<longleftrightarrow> 0 < threshold b \<and> 0 < cooldown b"

lemma verdict_local:
  "local_inv b \<Longrightarrow> fst (Open b u h) = (case openUntil (host_state b h) of None \<Rightarrow> False | Some p \<Rightarrow> u < p)"
  by (simp add: local_inv_def fst_Open)

lemma local_inv_step [simp]:
  "local_inv (RecordSuccess b h) = local_inv b" "local_inv (RecordFailure b t h) = local_inv b"
  "local_inv (snd (Open b t h)) = local_inv b"
  by (simp_all add: local_inv_def)

lemma openUntil_Open [simp]: "openUntil (host_state (snd (Open b t h)) h') = openUntil (host_state b h')"
  by (cases "h' = h") (simp_all add: host_state_Open)

interpretation local_breaker: circuit_breaker
  "\<lambda>b t h. fst (Open b t h)" "\<lambda>b t h. snd (Open b t h)" "\<lambda>b t h. RecordSuccess b h" RecordFailure local_inv
  by unfold_locales (simp_all add: verdict_local)

lemma breaker_keys_inj:
  "fst (breaker_keys h) \<noteq> snd (breaker_keys h')"
  "h' \<noteq> h \<Longrightarrow> snd (breaker_keys h') \<noteq> snd (breaker_keys h)"
proof -
  show "fst (breaker_keys h) \<noteq> snd (breaker_keys h')"
  proof
    assume "fst (breaker_keys h) = snd (breaker_keys h')"
    then have "rev (fst (breaker_keys h)) = rev (snd (breaker_keys h'))" by simp
    then show False by (simp add: breaker_keys_def)
  qed
qed (simp add: breaker_keys_def)

lemma redisOpen_reference:
  "redisOpen b ks_valkey True m t now h =
     (case ks_str m t (snd (breaker_keys h)) of None \<Rightarrow> False
      | Some raw \<Rightarrow> (case atoi raw of None \<Rightarrow> False | Some u \<Rightarrow> unix_milli now < u))"
  by (auto simp: redisOpen_def breakerAllowScript_def ks_valkey_def split: prod.splits option.splits)

lemma redis_open_key_other:
  assumes "h' \<noteq> h"
  shows "ks_str (redisRecordFailure b ks_valkey True m t now (Some r) h) u (snd (breaker_keys h')) = ks_str m u (snd (breaker_keys h'))"
    and "ks_str (redisRecordSuccess b ks_valkey True m t h) u (snd (breaker_keys h')) = ks_str m u (snd (breaker_keys h'))"
  using breaker_keys_inj(1) [of h h'] breaker_keys_inj(2) [OF assms]
  by (auto simp: redisRecordFailure_def redisRecordSuccess_def newBreakerMember_def breakerFailScript_def
      ks_valkey_def ks_zremrangebyscore_def Let_def ks_simps split: prod.splits option.splits)

interpretation redis_breaker: circuit_breaker
  "\<lambda>m t h. redisOpen b ks_valkey True m (unix_milli t) t h" "\<lambda>m t h. m"
  "\<lambda>m t h. redisRecordSuccess b ks_valkey True m (unix_milli t) h"
  "\<lambda>m t h. redisRecordFailure b ks_valkey True m (unix_milli t) t (Some r) h" "\<lambda>_. True" for b r
proof unfold_locales
  fix m t h u
  have "ks_str (redisRecordSuccess b ks_valkey True m (unix_milli t) h) (unix_milli u) (snd (breaker_keys h)) = None"
    by (simp add: redisRecordSuccess_def ks_valkey_def ks_simps split: prod.splits)
  then show "\<not> redisOpen b ks_valkey True (redisRecordSuccess b ks_valkey True m (unix_milli t) h) (unix_milli u) u h"
    by (simp add: redisOpen_reference)
qed (simp_all add: redisOpen_reference redis_open_key_other)

lemma run_local_history:
  assumes "sorted (map fst es)"
  shows "run_local (newInProcessCircuitBreaker cfg) h es =
           run_spec (threshold (newInProcessCircuitBreaker cfg)) (cfg_Cooldown cfg)
             (clampBreakerWindow (cfg_Cooldown cfg) (cfg_Window cfg)) no_history es"
proof (cases es)
  case (Cons e es')
  then have "sorted (fst e # map fst es)" using assms by simp
  from run_local_spec [OF new_local_rel this, of cfg h] show ?thesis
    by (simp add: newInProcessCircuitBreaker_def)
qed simp

subsection \<open>Properties of the breakers\<close>

text \<open>
  C1: For every sequence of calls on one host at non-decreasing instants, the trimmed log of
  the in-process breaker gives the same verdicts as the reference machine that keeps every
  failure since the last success: trimming loses nothing and never counts a stale failure.
\<close>

theorem in_process_breaker_refines_history:
  assumes "sorted (map fst es)"
  shows "run_local (newInProcessCircuitBreaker cfg) h es =
           run_spec (threshold (newInProcessCircuitBreaker cfg)) (cfg_Cooldown cfg)
             (clampBreakerWindow (cfg_Cooldown cfg) (cfg_Window cfg)) no_history es"
  by (rule run_local_history [OF assms])

theorem in_process_breaker_refines_history_witness:
  "sorted (map fst [(1 :: time, BFail []), (2, BFail []), (3, BFail []), (4, BOpen), (40, BOpen)]) \<and>
   run_local (newInProcessCircuitBreaker \<lparr>cfg_Threshold = 3, cfg_Cooldown = 30, cfg_Window = 60\<rparr>) ''h''
     [(1, BFail []), (2, BFail []), (3, BFail []), (4, BOpen), (40, BOpen)] = [True, False]"
  using in_process_breaker_refines_history [of "[(1, BFail []), (2, BFail []), (3, BFail []), (4, BOpen), (40, BOpen)]"
      "\<lparr>cfg_Threshold = 3, cfg_Cooldown = 30, cfg_Window = 60\<rparr>" "''h''"]
  by (simp add: newInProcessCircuitBreaker_def clampBreakerWindow_def spec_fail_def spec_open_def
      no_history_def in_window_def cooled_down_def)

text \<open>
  C6: The Valkey-backed breaker and the in-process breaker give the same verdicts on every
  sequence of calls, for any server with the documented behaviour, millisecond clocks and
  unique members, as long as each recorded failure comes no later than five seconds after
  the end of an open plateau (the grace the \<^verbatim>\<open>open_until\<close> key's expiry leaves).
\<close>

theorem redis_breaker_equals_in_process:
  assumes "valkey_server v ks"
    and "ks s (fst (breaker_keys h)) = None" "ks s (snd (breaker_keys h)) = None"
    and "0 < th" "0 < cd" "cd \<le> w"
    and "sorted (map fst es)" and "distinct (fail_members es)" and "prompt th cd w no_history es"
  shows "run_redis \<lparr>r_threshold = th, r_cooldown = nanos_per_ms * cd, r_window = nanos_per_ms * w\<rparr> v s h (at_ms es)
       = run_local (newInProcessCircuitBreaker \<lparr>cfg_Threshold = th, cfg_Cooldown = nanos_per_ms * cd,
            cfg_Window = nanos_per_ms * w\<rparr>) h (at_ms es)"
proof (cases es)
  case (Cons e es')
  have "redis_rel (ks s) (fst (breaker_keys h)) (snd (breaker_keys h)) w no_history {} (fst e)"
    using assms(2,3) by (simp add: redis_rel_def no_history_def tracks_empty ks_str_def ks_live_def)
  then have "run_redis \<lparr>r_threshold = th, r_cooldown = nanos_per_ms * cd, r_window = nanos_per_ms * w\<rparr> v s h (at_ms es)
       = run_spec th cd w no_history es"
    using valkey_server.run_redis_spec [OF assms(1)] assms(4-9) Cons by auto
  moreover have "run_local (newInProcessCircuitBreaker \<lparr>cfg_Threshold = th, cfg_Cooldown = nanos_per_ms * cd,
            cfg_Window = nanos_per_ms * w\<rparr>) h (at_ms es) = run_spec th cd w no_history es"
    using run_local_history [OF sorted_at_ms [OF assms(7)], of "\<lparr>cfg_Threshold = th, cfg_Cooldown = nanos_per_ms * cd,
            cfg_Window = nanos_per_ms * w\<rparr>" h] assms(4-6)
    by (simp add: newInProcessCircuitBreaker_def clampBreakerWindow_def run_spec_at_ms_start)
  ultimately show ?thesis by simp
qed (simp add: at_ms_def)

theorem redis_breaker_equals_in_process_witness:
  "run_redis \<lparr>r_threshold = 2, r_cooldown = nanos_per_ms * 30, r_window = nanos_per_ms * 60\<rparr> ks_valkey Map.empty ''h''
     (at_ms [(1, BFail ''a''), (2, BFail ''b''), (3, BOpen), (40, BFail ''c''), (41, BOpen)])
   = run_local (newInProcessCircuitBreaker \<lparr>cfg_Threshold = 2, cfg_Cooldown = nanos_per_ms * 30,
        cfg_Window = nanos_per_ms * 60\<rparr>) ''h''
     (at_ms [(1, BFail ''a''), (2, BFail ''b''), (3, BOpen), (40, BFail ''c''), (41, BOpen)])"
proof -
  have "distinct (fail_members [(1, BFail ''a''), (2, BFail ''b''), (3, BOpen), (40, BFail ''c''), (41, BOpen)])"
    by (simp add: itoa_def dec_nat.simps digit_char_def)
  then show ?thesis
    by (intro redis_breaker_equals_in_process [OF ks_valkey_server])
      (simp_all add: spec_fail_def no_history_def in_window_def cooled_down_def prompt_fail_def)
qed

text \<open>
  Beyond that grace the two breakers differ: when the \<^verbatim>\<open>open_until\<close> key has expired and
  the old failures have left the window, a failed probe re-trips the in-process breaker but
  leaves the Valkey-backed one closed. With the default parameters (threshold 3, cooldown
  30 s, window 60 s), three failures and one failed probe 61 s later show it.
\<close>

theorem breakers_differ_after_grace:
  "run_local (newInProcessCircuitBreaker \<lparr>cfg_Threshold = 3, cfg_Cooldown = nanos_per_ms * 30000,
      cfg_Window = nanos_per_ms * 60000\<rparr>) ''h''
     (at_ms [(1, BFail ''a''), (1, BFail ''b''), (1, BFail ''c''), (61002, BFail ''d''), (61003, BOpen)]) = [True]
   \<and> run_redis \<lparr>r_threshold = 3, r_cooldown = nanos_per_ms * 30000, r_window = nanos_per_ms * 60000\<rparr> ks_valkey Map.empty ''h''
     (at_ms [(1, BFail ''a''), (1, BFail ''b''), (1, BFail ''c''), (61002, BFail ''d''), (61003, BOpen)]) = [False]"
proof
  show "run_local (newInProcessCircuitBreaker \<lparr>cfg_Threshold = 3, cfg_Cooldown = nanos_per_ms * 30000,
      cfg_Window = nanos_per_ms * 60000\<rparr>) ''h''
     (at_ms [(1, BFail ''a''), (1, BFail ''b''), (1, BFail ''c''), (61002, BFail ''d''), (61003, BOpen)]) = [True]"
    by (simp add: newInProcessCircuitBreaker_def clampBreakerWindow_def RecordFailure_def Open_def trimLocked_def Let_def)
  show "run_redis \<lparr>r_threshold = 3, r_cooldown = nanos_per_ms * 30000, r_window = nanos_per_ms * 60000\<rparr> ks_valkey Map.empty ''h''
     (at_ms [(1, BFail ''a''), (1, BFail ''b''), (1, BFail ''c''), (61002, BFail ''d''), (61003, BOpen)]) = [False]"
    by (simp add: redisRecordFailure_def redisOpen_def breaker_keys_def newBreakerMember_def breakerFailScript_def
        breakerAllowScript_def ks_valkey_def ks_command_defs milliseconds_def quot_def unix_milli_def Let_def
        itoa_def dec_nat.simps digit_char_def)
qed

text \<open>
  The whole effect of one recorded failure on later verdicts, for a breaker with a
  positive cooldown: if the breaker was half-open, or the failures inside the window (with
  this one) reach the threshold, it is open exactly until the cooldown has passed;
  otherwise the verdicts are those from before the failure.
\<close>

theorem failure_opens_for_cooldown:
  assumes "0 < threshold b" "0 < cooldown b" and "sorted (failures (host_state b h))"
  shows "fst (Open (RecordFailure b now h) t h) =
    (if cooled_down now (openUntil (host_state b h))
        \<or> int (length (in_window (window b) now (failures (host_state b h)))) + 1 \<ge> threshold b
     then t < now + cooldown b else fst (Open b t h))"
proof -
  have "fst (Open (RecordFailure b now h) t h) =
      (case openUntil (host_state (RecordFailure b now h) h) of None \<Rightarrow> False | Some u \<Rightarrow> t < u)"
    using verdict_local [of "RecordFailure b now h"] assms(1,2) by (simp add: local_inv_def)
  moreover have "fst (Open b t h) = (case openUntil (host_state b h) of None \<Rightarrow> False | Some u \<Rightarrow> t < u)"
    using verdict_local assms(1,2) by (simp add: local_inv_def)
  ultimately show ?thesis
    using assms(2) by (simp add: host_state_failure trimLocked_failures [OF assms(3)] add.commute)
qed

theorem failure_opens_for_cooldown_witness:
  "fst (Open (RecordFailure \<lparr>threshold = 2, cooldown = 30, window = 60, state = [''h'' \<mapsto> \<lparr>failures = [5], openUntil = None\<rparr>]\<rparr> 10 ''h'') 39 ''h'')
   \<and> \<not> fst (Open (RecordFailure \<lparr>threshold = 2, cooldown = 30, window = 60, state = [''h'' \<mapsto> \<lparr>failures = [5], openUntil = None\<rparr>]\<rparr> 70 ''h'') 71 ''h'')"
proof -
  let ?b = "\<lparr>threshold = 2, cooldown = 30, window = 60, state = [''h'' \<mapsto> \<lparr>failures = [5], openUntil = None\<rparr>]\<rparr>"
  have "0 < threshold ?b" "0 < cooldown ?b" "sorted (failures (host_state ?b ''h''))"
    by (simp_all add: host_state_def)
  note rule = failure_opens_for_cooldown [OF this]
  show ?thesis
    by (simp add: rule host_state_def in_window_def cooled_down_def) (simp add: Open_def trimLocked_def)
qed

end
