(* ===== verification/ShardTransport.thy ===== *)
theory ShardTransport
  imports Breaker "HOL-Library.Sublist"
begin

text \<open>
  The shard failover transport of \<^verbatim>\<open>internal/jmap/proxy.go\<close>: \<^verbatim>\<open>RoundTrip\<close> tries the
  candidate shards of a tenant in order, consulting a circuit breaker per host, and
  \<^verbatim>\<open>ShardsAvailable\<close> reports whether any candidate is closed. The breaker is an argument
  (its four operations, in the order of the locale \<open>circuit_breaker\<close>), so the lemmas hold
  for both implementations. Also arguments: \<open>parse\<close> (\<^verbatim>\<open>url.Parse\<close>, giving the host),
  \<open>rewind i\<close> (whether the request body can be re-attached for the \<open>i\<close>-th candidate),
  \<open>send i host\<close> (what the upstream answers), and \<open>clk\<close> (the clock: reading \<open>2 * i\<close> is the
  \<^verbatim>\<open>Open\<close> of the \<open>i\<close>-th candidate and \<open>2 * i + 1\<close> its recorded outcome). The third component
  of a result is the list of hosts that were sent the request.
\<close>

datatype upstream = TransportErr string | Status int

datatype rt_error =
    ParseErr string | RewindErr | UpstreamErr string | Upstream5xx string int
  | NoCandidates | BufferErr | TargetErr string

type_synonym 'b outcome = "(rt_error + string \<times> int) \<times> 'b \<times> string list"

abbreviation log_sent :: "string \<Rightarrow> 'b outcome \<Rightarrow> 'b outcome" where
  "log_sent h r \<equiv> (fst r, fst (snd r), h # snd (snd r))"

fun attempts ::
  "('b \<Rightarrow> time \<Rightarrow> string \<Rightarrow> bool) \<Rightarrow> ('b \<Rightarrow> time \<Rightarrow> string \<Rightarrow> 'b) \<Rightarrow> ('b \<Rightarrow> time \<Rightarrow> string \<Rightarrow> 'b)
   \<Rightarrow> ('b \<Rightarrow> time \<Rightarrow> string \<Rightarrow> 'b) \<Rightarrow> (string \<Rightarrow> string option) \<Rightarrow> (nat \<Rightarrow> bool)
   \<Rightarrow> (nat \<Rightarrow> string \<Rightarrow> upstream) \<Rightarrow> (nat \<Rightarrow> time) \<Rightarrow> nat \<Rightarrow> rt_error option \<Rightarrow> 'b \<Rightarrow> string list
   \<Rightarrow> 'b outcome" where
  "attempts verdict ask success failure parse rewind send clk i lastErr b [] =
     (Inl (case lastErr of None \<Rightarrow> NoCandidates | Some e \<Rightarrow> e), b, [])"
| "attempts verdict ask success failure parse rewind send clk i lastErr b (candidate # rest) =
     (case parse candidate of
        None \<Rightarrow> attempts verdict ask success failure parse rewind send clk (Suc i) (Some (ParseErr candidate)) b rest
      | Some host \<Rightarrow>
          let open = verdict b (clk (2 * i)) host; b1 = ask b (clk (2 * i)) host
          in if open \<and> rest \<noteq> []
             then attempts verdict ask success failure parse rewind send clk (Suc i) lastErr b1 rest
             else if \<not> rewind i
             then attempts verdict ask success failure parse rewind send clk (Suc i) (Some RewindErr) b1 rest
             else (case send i host of
                 TransportErr e \<Rightarrow>
                   log_sent host (attempts verdict ask success failure parse rewind send clk (Suc i)
                     (Some (UpstreamErr e)) (failure b1 (clk (2 * i + 1)) host) rest)
               | Status st \<Rightarrow>
                   if st \<ge> 500 then
                     (if rest \<noteq> []
                      then log_sent host (attempts verdict ask success failure parse rewind send clk (Suc i)
                             (Some (Upstream5xx host st)) (failure b1 (clk (2 * i + 1)) host) rest)
                      else (Inr (host, st), failure b1 (clk (2 * i + 1)) host, [host]))
                   else (Inr (host, st), success b1 (clk (2 * i + 1)) host, [host])))"

text \<open>
  \<open>target\<close> is the host of the default target (\<open>None\<close> when \<^verbatim>\<open>proxy.target\<close> is nil), used when the
  tenant has no shards; \<open>buffered\<close> says whether draining the request body succeeded.
\<close>

definition RoundTrip ::
  "('b \<Rightarrow> time \<Rightarrow> string \<Rightarrow> bool) \<Rightarrow> ('b \<Rightarrow> time \<Rightarrow> string \<Rightarrow> 'b) \<Rightarrow> ('b \<Rightarrow> time \<Rightarrow> string \<Rightarrow> 'b)
   \<Rightarrow> ('b \<Rightarrow> time \<Rightarrow> string \<Rightarrow> 'b) \<Rightarrow> (string \<Rightarrow> string option) \<Rightarrow> (nat \<Rightarrow> bool)
   \<Rightarrow> (nat \<Rightarrow> string \<Rightarrow> upstream) \<Rightarrow> (nat \<Rightarrow> time) \<Rightarrow> string option \<Rightarrow> bool \<Rightarrow> 'b \<Rightarrow> string list
   \<Rightarrow> 'b outcome" where
  "RoundTrip verdict ask success failure parse rewind send clk target buffered b urls =
     (if urls = [] then
        (case target of
           None \<Rightarrow> (case send 0 [] of TransportErr e \<Rightarrow> (Inl (TargetErr e), b, [[]])
                    | Status st \<Rightarrow> (Inr ([], st), b, [[]]))
         | Some host \<Rightarrow> (case send 0 host of
               TransportErr e \<Rightarrow> (Inl (TargetErr e), failure b (clk 1) host, [host])
             | Status st \<Rightarrow>
                 if st \<ge> 500 then (Inr (host, st), failure b (clk 1) host, [host])
                 else (Inr (host, st), success b (clk 1) host, [host])))
      else if \<not> buffered then (Inl BufferErr, b, [])
      else attempts verdict ask success failure parse rewind send clk 0 None b urls)"

fun any_closed ::
  "('b \<Rightarrow> time \<Rightarrow> string \<Rightarrow> bool) \<Rightarrow> ('b \<Rightarrow> time \<Rightarrow> string \<Rightarrow> 'b) \<Rightarrow> (string \<Rightarrow> string option)
   \<Rightarrow> (nat \<Rightarrow> time) \<Rightarrow> nat \<Rightarrow> 'b \<Rightarrow> string list \<Rightarrow> bool \<times> 'b" where
  "any_closed verdict ask parse clk i b [] = (False, b)"
| "any_closed verdict ask parse clk i b (raw # rest) =
     (case parse raw of
        None \<Rightarrow> any_closed verdict ask parse clk (Suc i) b rest
      | Some host \<Rightarrow>
          if host = [] then any_closed verdict ask parse clk (Suc i) b rest
          else if \<not> verdict b (clk (2 * i)) host then (True, ask b (clk (2 * i)) host)
          else any_closed verdict ask parse clk (Suc i) (ask b (clk (2 * i)) host) rest)"

definition ShardsAvailable ::
  "('b \<Rightarrow> time \<Rightarrow> string \<Rightarrow> bool) \<Rightarrow> ('b \<Rightarrow> time \<Rightarrow> string \<Rightarrow> 'b) \<Rightarrow> (string \<Rightarrow> string option)
   \<Rightarrow> (nat \<Rightarrow> time) \<Rightarrow> string option \<Rightarrow> 'b \<Rightarrow> string list \<Rightarrow> bool \<times> 'b" where
  "ShardsAvailable verdict ask parse clk target b shards =
     (let urls = (if shards = [] then (case target of None \<Rightarrow> [] | Some u \<Rightarrow> [u]) else shards)
      in any_closed verdict ask parse clk 0 b urls)"

text \<open>
  Resolution of the candidate list; the shard service's answers are arguments
  (\<open>None\<close> for an error).
\<close>

definition resolveShardURLsUncached :: "(string \<Rightarrow> string option) \<Rightarrow> (string \<Rightarrow> string list option) \<Rightarrow> string \<Rightarrow> string list" where
  "resolveShardURLsUncached getTenantShard getSecondaryShards tenantID =
     (case getTenantShard tenantID of
        None \<Rightarrow> []
      | Some primary \<Rightarrow>
          if primary = [] then []
          else [primary] @ (case getSecondaryShards tenantID of None \<Rightarrow> [] | Some secondaries \<Rightarrow> secondaries))"

record shardResolveMemo =
  memo_done :: bool
  memo_tenant :: string
  memo_urls :: "string list"

text \<open>\<open>memo\<close> is \<open>None\<close> when the request carries no memo; \<open>hasShards\<close> says whether a shard service is wired.\<close>

definition resolveShardURLs ::
  "bool \<Rightarrow> (string \<Rightarrow> string option) \<Rightarrow> (string \<Rightarrow> string list option) \<Rightarrow> shardResolveMemo option \<Rightarrow> string
   \<Rightarrow> string list \<times> shardResolveMemo option" where
  "resolveShardURLs hasShards getTenantShard getSecondaryShards memo tenantID =
     (if \<not> hasShards \<or> tenantID = [] then ([], memo)
      else case memo of
          None \<Rightarrow> (resolveShardURLsUncached getTenantShard getSecondaryShards tenantID, None)
        | Some m \<Rightarrow>
            if memo_done m \<and> memo_tenant m = tenantID then (memo_urls m, memo)
            else let urls = resolveShardURLsUncached getTenantShard getSecondaryShards tenantID
                 in (urls, Some \<lparr>memo_done = True, memo_tenant = tenantID, memo_urls = urls\<rparr>))"

subsection \<open>What the transport does whatever the breaker says\<close>

lemma attempts_sent:
  assumes "\<forall>c \<in> set cs. parse c \<noteq> Some h"
  shows "h \<notin> set (snd (snd (attempts verdict ask success failure parse rewind send clk i e b cs)))"
  using assms
  by (induction cs arbitrary: i e b) (auto simp: Let_def split: option.splits upstream.splits)

lemma attempts_subseq:
  "subseq (snd (snd (attempts verdict ask success failure parse rewind send clk i e b cs))) (List.map_filter parse cs)"
proof (induction cs arbitrary: i e b)
  case (Cons c cs)
  then show ?case
    by (cases "parse c") (auto simp: map_filter_simps Let_def split: upstream.split)
qed (simp add: map_filter_simps)

lemma attempts_last_resort:
  assumes "cs \<noteq> []" and "parse (last cs) = Some h" and "rewind (i + length cs - 1)"
    and "send (i + length cs - 1) h = Status st"
  shows "\<exists>h' st'. fst (attempts verdict ask success failure parse rewind send clk i e b cs) = Inr (h', st')"
  using assms
proof (induction cs arbitrary: i e b)
  case (Cons c cs)
  show ?case
  proof (cases "cs = []")
    case True
    with Cons.prems show ?thesis by (simp add: Let_def)
  next
    case False
    then have "\<exists>h' st'. fst (attempts verdict ask success failure parse rewind send clk (Suc i) e' b' cs) = Inr (h', st')" for e' b'
      using Cons.IH [of "Suc i" e' b'] Cons.prems by simp
    then show ?thesis
      by (auto simp: Let_def split: option.split upstream.split)
  qed
qed simp

lemma attempts_error_set:
  "e \<noteq> None \<or> cs \<noteq> [] \<Longrightarrow> e \<noteq> Some NoCandidates \<Longrightarrow>
   fst (attempts verdict ask success failure parse rewind send clk i e b cs) \<noteq> Inl NoCandidates"
proof (induction cs arbitrary: i e b)
  case (Cons c cs)
  then show ?case
    by (cases "cs = []") (auto simp: Let_def split: option.splits upstream.splits)
qed (auto split: option.splits)

subsection \<open>What the transport guarantees for any breaker\<close>

text \<open>
  \<open>passed_over\<close>: why the loop goes on after candidate \<open>j\<close>, which is not the last one. Its URL does not
  parse, its body cannot be re-attached, its upstream fails or answers 500 and above, or its
  breaker is open and no earlier candidate has the same host.
\<close>

definition passed_over ::
  "(time \<Rightarrow> string \<Rightarrow> bool) \<Rightarrow> (string \<Rightarrow> string option) \<Rightarrow> (nat \<Rightarrow> bool) \<Rightarrow> (nat \<Rightarrow> string \<Rightarrow> upstream) \<Rightarrow> (nat \<Rightarrow> time)
   \<Rightarrow> nat \<Rightarrow> string list \<Rightarrow> nat \<Rightarrow> bool" where
  "passed_over isopen parse rewind send clk i cs j =
     (case parse (cs ! j) of
        None \<Rightarrow> True
      | Some g \<Rightarrow>
          \<not> rewind (i + j)
          \<or> (case send (i + j) g of TransportErr _ \<Rightarrow> True | Status st \<Rightarrow> st \<ge> 500)
          \<or> (isopen (clk (2 * (i + j))) g \<and> (\<forall>l<j. parse (cs ! l) \<noteq> Some g)))"

lemma passed_over_rest:
  assumes "passed_over (verdict b) parse rewind send clk i (c # rest) (Suc j)"
    and "\<And>t g. parse c \<noteq> Some g \<Longrightarrow> verdict b' t g = verdict b t g"
  shows "passed_over (verdict b') parse rewind send clk (Suc i) rest j"
proof (cases "parse (rest ! j)")
  case (Some g)
  have "parse c \<noteq> Some g" if "\<forall>l<Suc j. parse ((c # rest) ! l) \<noteq> Some g" using that [rule_format, of 0] by simp
  with assms Some show ?thesis by (auto simp: passed_over_def)
qed (simp add: passed_over_def)

context circuit_breaker
begin

lemma attempts_reaches_healthy:
  assumes "inv b" and "k < length cs" and "parse (cs ! k) = Some h"
    and "\<forall>j < k. parse (cs ! j) \<noteq> Some h \<and> passed_over (verdict b) parse rewind send clk i cs j"
    and "rewind (i + k)" and "send (i + k) h = Status st" and "st < 500"
    and "\<not> verdict b (clk (2 * (i + k))) h"
  shows "fst (attempts verdict ask success failure parse rewind send clk i e b cs) = Inr (h, st)
    \<and> (\<exists>xs. snd (snd (attempts verdict ask success failure parse rewind send clk i e b cs)) = xs @ [h] \<and> h \<notin> set xs)"
    (is "?good (attempts verdict ask success failure parse rewind send clk i e b cs)")
  using assms
proof (induction k arbitrary: i e b cs)
  case 0
  then obtain c rest where "cs = c # rest" by (cases cs) auto
  with 0 show ?case by simp
next
  case (Suc k)
  then obtain c rest where cs: "cs = c # rest" by (cases cs) auto
  with Suc.prems(2,3) have rest: "rest \<noteq> []" "k < length rest" "parse (rest ! k) = Some h" by auto
  have c: "parse c \<noteq> Some h" "passed_over (verdict b) parse rewind send clk i cs 0"
    using Suc.prems(4) [rule_format, of 0] by (simp_all add: cs)
  have go: "?good (attempts verdict ask success failure parse rewind send clk (Suc i) e' b' rest)"
    if b': "inv b'" "\<And>t g. parse c \<noteq> Some g \<Longrightarrow> verdict b' t g = verdict b t g" for e' b'
  proof (rule Suc.IH)
    show "\<forall>j<k. parse (rest ! j) \<noteq> Some h \<and> passed_over (verdict b') parse rewind send clk (Suc i) rest j"
    proof (intro allI impI)
      fix j assume "j < k"
      with Suc.prems(4) [rule_format, of "Suc j"] passed_over_rest [of verdict b parse rewind send clk i c rest j b'] b'(2)
      show "parse (rest ! j) \<noteq> Some h \<and> passed_over (verdict b') parse rewind send clk (Suc i) rest j" by (simp add: cs)
    qed
  qed (use rest c(1) b' Suc.prems in auto)
  have more: "?good (log_sent g r)" if "?good r" "g \<noteq> h" for g and r :: "'b outcome"
    using that by (auto intro: exI [of _ "g # _"])
  show ?case
  proof (cases "parse c")
    case None
    then show ?thesis using go [of b] Suc.prems(1) by (simp add: cs)
  next
    case (Some g)
    have ask: "inv (ask b t g)" "\<And>u x. parse c \<noteq> Some x \<Longrightarrow> verdict (ask b t g) u x = verdict b u x" for t
      using Suc.prems(1) ask_frame [OF Suc.prems(1)] inv_ask by auto
    have fail: "inv (failure (ask b t g) u g)"
      "\<And>v x. parse c \<noteq> Some x \<Longrightarrow> verdict (failure (ask b t g) u g) v x = verdict b v x" for t u
      using ask Some failure_frame [OF ask(1)] inv_failure by auto
    have "g \<noteq> h" using c(1) Some by auto
    show ?thesis
      using Some rest(1) c(2) go [OF ask] more [OF go [OF fail] \<open>g \<noteq> h\<close>]
      by (auto simp: cs Let_def passed_over_def split: upstream.splits)
  qed
qed

lemma attempts_skips_open:
  assumes "inv b" and "Suc k < length cs" and "parse (cs ! k) = Some h"
    and "\<forall>j < length cs. j \<noteq> k \<longrightarrow> parse (cs ! j) \<noteq> Some h"
    and "verdict b (clk (2 * (i + k))) h"
  shows "h \<notin> set (snd (snd (attempts verdict ask success failure parse rewind send clk i e b cs)))"
  using assms
proof (induction k arbitrary: i e b cs)
  case 0
  then obtain c rest where cs: "cs = c # rest" by (cases cs) auto
  have "parse (rest ! j) \<noteq> Some h" if "j < length rest" for j
    using "0.prems"(4) that cs by (metis Suc_less_eq length_Cons nat.distinct(1) nth_Cons_Suc)
  then have "\<forall>r \<in> set rest. parse r \<noteq> Some h" by (metis in_set_conv_nth)
  moreover have "rest \<noteq> []" using "0.prems"(2) cs by auto
  ultimately show ?case using cs "0.prems"(3,5) attempts_sent [of rest parse h] by (simp add: Let_def)
next
  case (Suc k)
  then obtain c rest where cs: "cs = c # rest" by (cases cs) auto
  have rest: "rest \<noteq> []" "Suc k < length rest" "parse (rest ! k) = Some h"
    and uniq: "\<forall>j < length rest. j \<noteq> k \<longrightarrow> parse (rest ! j) \<noteq> Some h" and c: "parse c \<noteq> Some h"
    using Suc.prems(2-4) by (auto simp: cs)
  have go: "h \<notin> set (snd (snd (attempts verdict ask success failure parse rewind send clk (Suc i) e' b' rest)))"
    if "inv b'" "\<And>t. verdict b' t h = verdict b t h" for e' b'
    using Suc.IH [of b' rest "Suc i" e'] that rest uniq Suc.prems(5) by auto
  show ?case
  proof (cases "parse c")
    case None
    then show ?thesis using go [of b] Suc.prems(1) by (simp add: cs)
  next
    case (Some h0)
    with c have "h \<noteq> h0" by auto
    have ask: "inv (ask b t h0)" "\<And>u. verdict (ask b t h0) u h = verdict b u h" for t
      using Suc.prems(1) ask_frame [OF Suc.prems(1)] inv_ask by auto
    have fail: "inv (failure (ask b t h0) u h0)" "\<And>x. verdict (failure (ask b t h0) u h0) x h = verdict b x h" for t u
      using ask failure_frame [OF ask(1) \<open>h \<noteq> h0\<close>] inv_failure by auto
    show ?thesis
      using Some rest(1) go [OF ask] go [OF fail] \<open>h \<noteq> h0\<close>
      by (auto simp: cs Let_def split: upstream.split)
  qed
qed

lemma attempts_success_closes:
  assumes "inv b" and "fst (attempts verdict ask success failure parse rewind send clk i e b cs) = Inr (h, st)"
    and "st < 500"
  shows "\<not> verdict (fst (snd (attempts verdict ask success failure parse rewind send clk i e b cs))) u h"
  using assms
proof (induction cs arbitrary: i e b)
  case (Cons c cs)
  show ?case
  proof (cases "parse c")
    case None
    with Cons show ?thesis by simp
  next
    case (Some h0)
    have "inv (ask b t h0)" "inv (failure (ask b t h0) x h0)" for t x
      using Cons.prems(1) inv_ask inv_failure by auto
    with Cons Some show ?thesis
      by (auto simp: Let_def success_closes split: upstream.splits if_splits)
  qed
qed simp

end

subsection \<open>Properties of the transport\<close>

abbreviation localRoundTrip where
  "localRoundTrip \<equiv> RoundTrip (\<lambda>b t h. fst (Open b t h)) (\<lambda>b t h. snd (Open b t h)) (\<lambda>b t h. RecordSuccess b h) RecordFailure"

abbreviation redisRoundTrip where
  "redisRoundTrip rb r \<equiv> RoundTrip (\<lambda>m t h. redisOpen rb ks_valkey True m (unix_milli t) t h) (\<lambda>m t h. m)
     (\<lambda>m t h. redisRecordSuccess rb ks_valkey True m (unix_milli t) h)
     (\<lambda>m t h. redisRecordFailure rb ks_valkey True m (unix_milli t) t (Some r) h)"

text \<open>
  C7: Failover finds the first healthy shard: if a candidate's breaker is closed when it is
  consulted and its upstream answers below 500, and every candidate before it has another host and
  does not parse, cannot be re-sent the body, fails, answers 500 and above, or has an open
  breaker, then \<^verbatim>\<open>RoundTrip\<close> with the in-process breaker returns exactly the answer of that shard,
  sends it the request once and to nobody after it, and leaves its breaker closed.\<close>

theorem failover_reaches_healthy_shard:
  assumes "local_inv b" and "k < length urls" and "parse (urls ! k) = Some h"
    and "\<forall>j < k. parse (urls ! j) \<noteq> Some h \<and> passed_over (\<lambda>t g. fst (Open b t g)) parse rewind send clk 0 urls j"
    and "rewind k" and "send k h = Status st" and "st < 500" and "\<not> fst (Open b (clk (2 * k)) h)"
  shows "\<exists>b' sent. localRoundTrip parse rewind send clk target True b urls = (Inr (h, st), b', sent @ [h])
           \<and> h \<notin> set sent \<and> (\<forall>u. \<not> fst (Open b' u h))"
proof -
  let ?r = "attempts (\<lambda>b t h. fst (Open b t h)) (\<lambda>b t h. snd (Open b t h)) (\<lambda>b t h. RecordSuccess b h)
      RecordFailure parse rewind send clk 0 None b urls"
  have "urls \<noteq> []" using assms(2) by auto
  then have run: "localRoundTrip parse rewind send clk target True b urls = ?r" by (simp add: RoundTrip_def)
  from local_breaker.attempts_reaches_healthy [of b k urls parse h rewind send clk 0 st None] assms
  obtain sent where res: "fst ?r = Inr (h, st)" and sent: "snd (snd ?r) = sent @ [h]" "h \<notin> set sent" by auto
  from local_breaker.attempts_success_closes [OF assms(1) res assms(7)] have "\<forall>u. \<not> fst (Open (fst (snd ?r)) u h)" by blast
  with run res sent show ?thesis by (metis prod.collapse)
qed

theorem failover_reaches_healthy_shard_witness:
  "\<exists>b' sent. localRoundTrip Some (\<lambda>_. True) (\<lambda>i h. if h = ''b'' then Status 200 else Status 503) (\<lambda>i. int i) None True
      (newInProcessCircuitBreaker \<lparr>cfg_Threshold = 3, cfg_Cooldown = 30, cfg_Window = 60\<rparr>) [''a'', ''b'', ''c'']
      = (Inr (''b'', 200), b', sent @ [''b'']) \<and> ''b'' \<notin> set sent \<and> (\<forall>u. \<not> fst (Open b' u ''b''))"
  by (rule failover_reaches_healthy_shard [where k = 1 and h = "''b''" and st = 200])
    (simp_all add: local_inv_def newInProcessCircuitBreaker_def Open_def passed_over_def)

text \<open>
  A shard whose breaker is open in Valkey is not sent the request when it is not the
  last candidate.
\<close>

theorem open_shard_is_skipped:
  assumes "Suc k < length urls" and "parse (urls ! k) = Some h"
    and "\<forall>j < length urls. j \<noteq> k \<longrightarrow> parse (urls ! j) \<noteq> Some h"
    and "redisOpen rb ks_valkey True m (unix_milli (clk (2 * k))) (clk (2 * k)) h"
  shows "h \<notin> set (snd (snd (redisRoundTrip rb r parse rewind send clk target buffered m urls)))"
proof -
  have "urls \<noteq> []" using assms(1) by auto
  then show ?thesis
    using redis_breaker.attempts_skips_open [OF TrueI assms(1-3), where i = 0] assms(4)
    unfolding RoundTrip_def by auto
qed

theorem open_shard_is_skipped_witness:
  "''a'' \<notin> set (snd (snd (redisRoundTrip \<lparr>r_threshold = 1, r_cooldown = 10, r_window = 10\<rparr> ''x'' Some (\<lambda>_. True)
      (\<lambda>i h. Status 200) (\<lambda>i. 0) None True [''kmail:cb:{a}:open_until'' \<mapsto> (VStr ''7'', None)] [''a'', ''b''])))"
  by (rule open_shard_is_skipped [where k = 0 and h = "''a''"])
    (auto simp: less_Suc_eq redisOpen_reference breaker_keys_def ks_str_def ks_live_def atoi_def digit_val_def unix_milli_def Let_def)

text \<open>
  The last resort: if the last candidate parses, its body can be re-attached and its
  upstream answers at all, \<^verbatim>\<open>RoundTrip\<close> returns an answer rather than an error, whatever the
  breaker says, and each candidate is sent the request at most once, in order.
\<close>

theorem last_resort_answers:
  assumes "urls \<noteq> []" and "parse (last urls) = Some h" and "rewind (length urls - 1)"
    and "send (length urls - 1) h = Status st"
    and "r = RoundTrip verdict ask success failure parse rewind send clk target True b urls"
  shows "(\<exists>h' st'. fst r = Inr (h', st')) \<and> subseq (snd (snd r)) (List.map_filter parse urls)"
proof -
  have r: "r = attempts verdict ask success failure parse rewind send clk 0 None b urls"
    using assms(1,5) by (simp add: RoundTrip_def)
  have "\<exists>h' st'. fst r = Inr (h', st')" unfolding r by (rule attempts_last_resort) (use assms in auto)
  moreover have "subseq (snd (snd r)) (List.map_filter parse urls)" unfolding r by (rule attempts_subseq)
  ultimately show ?thesis by auto
qed

theorem last_resort_answers_witness:
  "\<exists>r. r = RoundTrip (\<lambda>b t h. True) (\<lambda>b t h. b) (\<lambda>b t h. b) (\<lambda>b t h. b) Some (\<lambda>_. True) (\<lambda>i h. Status 200) (\<lambda>_. 0)
      None True () [''a'', ''b''] \<and> (\<exists>h' st'. fst r = Inr (h', st')) \<and> subseq (snd (snd r)) (List.map_filter Some [''a'', ''b''])"
  using last_resort_answers [OF _ _ _ _ refl, of "[''a'', ''b'']" Some "''b''" "\<lambda>_. True" "\<lambda>i h. Status 200" 200
      "\<lambda>b t h. True" "\<lambda>b t h. b" "\<lambda>b t h. b" "\<lambda>b t h. b" "\<lambda>_. 0" None "()"]
  by simp

text \<open>
  \<^verbatim>\<open>ShardsAvailable\<close> is more pessimistic than the transport's routing: with every breaker
  open it reports no shard available, yet \<^verbatim>\<open>RoundTrip\<close> still tries the last candidate and can
  return 200.
\<close>

theorem unavailable_yet_served:
  "fst (ShardsAvailable (\<lambda>b t h. fst (Open b t h)) (\<lambda>b t h. snd (Open b t h)) Some (\<lambda>_. 5) None
      \<lparr>threshold = 1, cooldown = 30, window = 60, state = [''a'' \<mapsto> \<lparr>failures = [1], openUntil = Some 31\<rparr>]\<rparr> [''a'']) = False
   \<and> fst (localRoundTrip Some (\<lambda>_. True) (\<lambda>i h. Status 200) (\<lambda>_. 5) None True
      \<lparr>threshold = 1, cooldown = 30, window = 60, state = [''a'' \<mapsto> \<lparr>failures = [1], openUntil = Some 31\<rparr>]\<rparr> [''a'']) = Inr (''a'', 200)"
  by (simp add: ShardsAvailable_def RoundTrip_def Open_def trimLocked_def Let_def)

end
