(* ===== verification/RateLimit.thy ===== *)
theory RateLimit
  imports Valkey Complex_Main
begin

text \<open>
  The rate limiter of \<^verbatim>\<open>internal/middleware/ratelimit.go\<close> and \<^verbatim>\<open>ratelimit_fallback.go\<close>: the
  combined tenant and user sliding-window script, the bucket counter \<^verbatim>\<open>IncrWithTTL\<close>, the
  in-memory token bucket used when Valkey is down, and the middleware that combines them.
  Float64 arithmetic of the token bucket is modelled by rationals.
\<close>

subsection \<open>The sliding-window store\<close>

text \<open>
  The Lua script. The result is the new state and the pair of admissions as integers.
\<close>

definition slidingWindowScript ::
  "'s valkey \<Rightarrow> 's \<Rightarrow> int \<Rightarrow> string \<Rightarrow> string \<Rightarrow> int \<Rightarrow> int \<Rightarrow> int \<Rightarrow> int \<Rightarrow> string \<Rightarrow> 's \<times> (int \<times> int)" where
  "slidingWindowScript v s t tenant_key user_key win tenant_limit user_limit now member =
     (let cutoff = now - win;
          s1 = vk_zremrangebyscore v s t tenant_key cutoff;
          tenant_count = vk_zcard v s1 t tenant_key;
          tenant_admitted = (if tenant_count < tenant_limit then 1 else 0);
          s2 = (if tenant_count < tenant_limit then vk_zadd v s1 t tenant_key now member else s1);
          s3 = vk_pexpire v s2 t tenant_key (win + 5000)
      in if tenant_admitted = (0 :: int) then (s3, (0, 0))
         else if user_limit \<le> 0 then (s3, (1, 1))
         else
           let s4 = vk_zremrangebyscore v s3 t user_key cutoff;
               user_count = vk_zcard v s4 t user_key;
               user_admitted = (if user_count < user_limit then 1 else 0);
               s5 = (if user_count < user_limit then vk_zadd v s4 t user_key now member else s4);
               s6 = vk_pexpire v s5 t user_key (win + 5000)
           in if user_admitted = (0 :: int) then (fst (vk_zrem v s6 t tenant_key member), (1, 0))
              else (s6, (1, 1)))"

definition incrWithTTLScript :: "'s valkey \<Rightarrow> 's \<Rightarrow> int \<Rightarrow> string \<Rightarrow> int \<Rightarrow> 's \<times> int option" where
  "incrWithTTLScript v s t key ttl =
     (let (s1, n) = vk_incr v s t key
      in if n = Some 1 then (vk_pexpire v s1 t key ttl, n) else (s1, n))"

text \<open>
  \<open>rnd\<close> is the hex of the random bytes (\<open>None\<close> when \<^verbatim>\<open>rand.Read\<close> fails), \<open>up\<close> whether the call
  reaches the server. A store call returns an error or the two flags.
\<close>

datatype store_error = NilClient | MemberErr | EvalErr | BadTTL

definition newUniqueMember :: "int \<Rightarrow> string option \<Rightarrow> string option" where
  "newUniqueMember nowMs rnd = map_option (\<lambda>r. itoa nowMs @ '':'' @ r) rnd"

definition Allow ::
  "'s valkey \<Rightarrow> bool \<Rightarrow> bool \<Rightarrow> 's \<Rightarrow> int \<Rightarrow> string \<Rightarrow> string \<Rightarrow> duration \<Rightarrow> int \<Rightarrow> int \<Rightarrow> time \<Rightarrow> string option
   \<Rightarrow> 's \<times> (store_error + bool \<times> bool)" where
  "Allow v hasClient up s t tenantKey userKey win tenantLimit userLimit now rnd =
     (if \<not> hasClient then (s, Inl NilClient)
      else
        let windowMs = (if milliseconds win \<le> 0 then 60000 else milliseconds win);
            nowMs = unix_milli now
        in case newUniqueMember nowMs rnd of
             None \<Rightarrow> (s, Inl MemberErr)
           | Some member \<Rightarrow>
               if \<not> up then (s, Inl EvalErr)
               else let (s', p) = slidingWindowScript v s t tenantKey userKey windowMs tenantLimit userLimit nowMs member
                    in (s', Inr (fst p = 1, snd p = 1)))"

definition IncrWithTTL :: "'s valkey \<Rightarrow> bool \<Rightarrow> bool \<Rightarrow> 's \<Rightarrow> int \<Rightarrow> string \<Rightarrow> duration \<Rightarrow> 's \<times> (store_error + int)" where
  "IncrWithTTL v hasClient up s t key ttl =
     (if \<not> hasClient then (s, Inl NilClient)
      else if milliseconds ttl \<le> 0 then (s, Inl BadTTL)
      else if \<not> up then (s, Inl EvalErr)
      else case incrWithTTLScript v s t key (milliseconds ttl) of
             (s', None) \<Rightarrow> (s', Inl EvalErr)
           | (s', Some n) \<Rightarrow> (s', Inr n))"

subsection \<open>The in-memory token bucket\<close>

record tokenBucket =
  tokens :: rat
  last_seen :: time

record MemoryLimiter =
  buckets :: "(string \<times> tokenBucket) list"
  ratePerSec :: rat
  burst :: rat
  gcEvery :: duration
  lastGC :: "time option"

definition seconds :: "duration \<Rightarrow> rat" where
  "seconds d = of_int d / of_int nanos_per_s"

definition NewMemoryLimiter :: "int \<Rightarrow> duration \<Rightarrow> MemoryLimiter" where
  "NewMemoryLimiter limit win =
     (let win' = (if win \<le> 0 then 60 * nanos_per_s else win)
      in \<lparr>buckets = [],
          ratePerSec = (if limit > 0 then of_int limit / seconds win' else 0),
          burst = (if limit > 0 then of_int limit else 0),
          gcEvery = 10 * win',
          lastGC = None\<rparr>)"

definition maybeGCLocked :: "MemoryLimiter \<Rightarrow> time \<Rightarrow> MemoryLimiter" where
  "maybeGCLocked ml now = (case lastGC ml of
       None \<Rightarrow> ml\<lparr>lastGC := Some now\<rparr>
     | Some g \<Rightarrow>
         if now - g < gcEvery ml then ml
         else ml\<lparr>lastGC := Some now,
                  buckets := filter (\<lambda>(k, b). \<not> (tokens b + seconds (now - last_seen b) * ratePerSec ml \<ge> burst ml))
                               (buckets ml)\<rparr>)"

definition refill :: "MemoryLimiter \<Rightarrow> tokenBucket option \<Rightarrow> time \<Rightarrow> tokenBucket" where
  "refill ml b now = (case b of
       None \<Rightarrow> \<lparr>tokens = burst ml, last_seen = now\<rparr>
     | Some b \<Rightarrow>
         if seconds (now - last_seen b) > 0
         then b\<lparr>tokens := (let tk = tokens b + seconds (now - last_seen b) * ratePerSec ml
                           in if tk > burst ml then burst ml else tk),
                last_seen := now\<rparr>
         else b)"

definition bucketAllow :: "MemoryLimiter \<Rightarrow> string \<Rightarrow> time \<Rightarrow> MemoryLimiter \<times> bool" where
  "bucketAllow ml key now =
     (if burst ml \<le> 0 then (ml, True)
      else
        let ml1 = maybeGCLocked ml now;
            b = refill ml1 (map_of (buckets ml1) key) now
        in if tokens b \<ge> 1
           then (ml1\<lparr>buckets := AList.update key (b\<lparr>tokens := tokens b - 1\<rparr>) (buckets ml1)\<rparr>, True)
           else (ml1\<lparr>buckets := AList.update key b (buckets ml1)\<rparr>, False))"

subsection \<open>The middleware\<close>

record RateLimiterConfig =
  TenantRPM :: int
  UserRPM :: int
  Window :: duration
  FailClosed :: bool

record rate_state =
  FallbackTenant :: MemoryLimiter
  FallbackUser :: MemoryLimiter

definition NewRateLimiter :: "RateLimiterConfig \<Rightarrow> RateLimiterConfig \<times> rate_state" where
  "NewRateLimiter cfg =
     (let w = (if Window cfg \<le> 0 then 60 * nanos_per_s else Window cfg);
          tr = (if TenantRPM cfg \<le> 0 then 1000 else TenantRPM cfg);
          ur = (if UserRPM cfg \<le> 0 then 200 else UserRPM cfg)
      in (cfg\<lparr>Window := w, TenantRPM := tr, UserRPM := ur\<rparr>,
          \<lparr>FallbackTenant = NewMemoryLimiter tr w, FallbackUser = NewMemoryLimiter ur w\<rparr>))"

text \<open>
  What the wrapped handler answers: the next handler, 429 with the retry delay, limit and scope of
  \<^verbatim>\<open>writeRateLimitExceeded\<close>, or 503 of \<^verbatim>\<open>writeRateLimitDegraded\<close>.
\<close>

datatype rl_response =
    Next
  | NextFallback
  | Exceeded int int string
  | Degraded int int string

definition retry_seconds :: "duration \<Rightarrow> int" where
  "retry_seconds win = quot win nanos_per_s"

definition tenant_key :: "string \<Rightarrow> string" where
  "tenant_key tid = ''kmail:rl:tenant:{'' @ tid @ ''}''"

definition user_key :: "string \<Rightarrow> string \<Rightarrow> string" where
  "user_key tid uid = ''kmail:rl:user:{'' @ tid @ ''}:'' @ uid"

definition Wrap ::
  "RateLimiterConfig \<Rightarrow> 's valkey \<Rightarrow> bool \<Rightarrow> 's \<Rightarrow> int \<Rightarrow> rate_state \<Rightarrow> string \<Rightarrow> string \<Rightarrow> time \<Rightarrow> string option
   \<Rightarrow> 's \<times> rate_state \<times> rl_response" where
  "Wrap cfg v up s t rs tenantID userID now rnd =
     (if tenantID = [] then (s, rs, Next)
      else
        let win = Window cfg; tk = tenant_key tenantID;
            uk = (if userID \<noteq> [] then user_key tenantID userID else tk);
            userLimit = (if userID \<noteq> [] then UserRPM cfg else 0)
        in case Allow v True up s t tk uk win (TenantRPM cfg) userLimit now rnd of
             (s', Inl _) \<Rightarrow>
               if \<not> FailClosed cfg then (s', rs, Next)
               else
                 let (ft, okT) = bucketAllow (FallbackTenant rs) tk now; rs1 = rs\<lparr>FallbackTenant := ft\<rparr>
                 in if \<not> okT then (s', rs1, Degraded (retry_seconds win) (TenantRPM cfg) ''tenant'')
                    else if userLimit > 0 then
                      let (fu, okU) = bucketAllow (FallbackUser rs1) uk now; rs2 = rs1\<lparr>FallbackUser := fu\<rparr>
                      in if \<not> okU then (s', rs2, Degraded (retry_seconds win) (UserRPM cfg) ''user'')
                         else (s', rs2, NextFallback)
                    else (s', rs1, NextFallback)
           | (s', Inr (tenantOK, userOK)) \<Rightarrow>
               if \<not> tenantOK then (s', rs, Exceeded (retry_seconds win) (TenantRPM cfg) ''tenant'')
               else if \<not> userOK then (s', rs, Exceeded (retry_seconds win) (UserRPM cfg) ''user'')
               else (s', rs, Next))"

subsection \<open>The reference limiter\<close>

text \<open>
  The reference limiter keeps, per key, the instants (in milliseconds) of every admitted
  request and nothing else.
\<close>

type_synonym rl_logs = "string \<Rightarrow> int list"

definition recent :: "int \<Rightarrow> int \<Rightarrow> int list \<Rightarrow> int" where
  "recent w now lg = int (length (filter (\<lambda>x. now - w \<le> x) lg))"

definition spec_allow :: "int \<Rightarrow> int \<Rightarrow> int \<Rightarrow> int \<Rightarrow> string \<Rightarrow> string \<Rightarrow> rl_logs \<Rightarrow> rl_logs \<times> bool \<times> bool" where
  "spec_allow w tlim ulim now tk uk L =
     (if recent w now (L tk) \<ge> tlim then (L, False, False)
      else if ulim \<le> 0 then (L(tk := L tk @ [now]), True, True)
      else if recent w now (L uk) \<ge> ulim then (L, True, False)
      else (L(tk := L tk @ [now], uk := L uk @ [now]), True, True))"

text \<open>Requests: tenant, user (empty for none), instant, random suffix.\<close>

type_synonym rl_request = "string \<times> string \<times> time \<times> string"

definition rl_user_key :: "string \<Rightarrow> string \<Rightarrow> string" where
  "rl_user_key tid uid = (if uid \<noteq> [] then user_key tid uid else tenant_key tid)"

fun run_allow :: "'s valkey \<Rightarrow> 's \<Rightarrow> duration \<Rightarrow> int \<Rightarrow> int \<Rightarrow> rl_request list \<Rightarrow> (store_error + bool \<times> bool) list" where
  "run_allow v s win tlim ulim [] = []"
| "run_allow v s win tlim ulim ((tid, uid, now, rnd) # rs) =
     (let (s', r) = Allow v True True s (unix_milli now) (tenant_key tid) (rl_user_key tid uid) win tlim
                      (if uid \<noteq> [] then ulim else 0) now (Some rnd)
      in r # run_allow v s' win tlim ulim rs)"

fun run_spec_allow :: "int \<Rightarrow> int \<Rightarrow> int \<Rightarrow> rl_logs \<Rightarrow> rl_request list \<Rightarrow> (bool \<times> bool) list" where
  "run_spec_allow w tlim ulim L [] = []"
| "run_spec_allow w tlim ulim L ((tid, uid, now, rnd) # rs) =
     (let (L', r) = spec_allow w tlim (if uid \<noteq> [] then ulim else 0) (unix_milli now) (tenant_key tid) (rl_user_key tid uid) L
      in r # run_spec_allow w tlim ulim L' rs)"

definition rl_members :: "rl_request list \<Rightarrow> string list" where
  "rl_members rs = map (\<lambda>(tid, uid, now, rnd). itoa (unix_milli now) @ '':'' @ rnd) rs"

definition rl_times :: "rl_request list \<Rightarrow> time list" where
  "rl_times rs = map (\<lambda>(tid, uid, now, rnd). now) rs"

definition rl_keys :: "string set" where
  "rl_keys = {k. take 9 k = ''kmail:rl:''}"

lemma key_in_rl_keys [simp]: "tenant_key tid \<in> rl_keys" "user_key tid uid \<in> rl_keys" "rl_user_key tid uid \<in> rl_keys"
  by (simp_all add: rl_keys_def tenant_key_def user_key_def rl_user_key_def)

lemma tenant_user_keys_distinct [simp]: "tenant_key tid \<noteq> user_key tid' uid" "user_key tid' uid \<noteq> tenant_key tid"
  by (simp_all add: tenant_key_def user_key_def)

subsection \<open>The script implements the reference limiter\<close>

definition all_tracked :: "keyspace \<Rightarrow> int \<Rightarrow> rl_logs \<Rightarrow> string set \<Rightarrow> int \<Rightarrow> bool" where
  "all_tracked m w L used now \<longleftrightarrow> (\<forall>k \<in> rl_keys. tracks m k w (L k) used now)"

lemma all_tracked_later: "all_tracked m w L used t \<Longrightarrow> t \<le> u \<Longrightarrow> all_tracked m w L used u"
  unfolding all_tracked_def using tracks_later by blast

lemma all_tracked_upd:
  assumes "all_tracked m w L used t" and "\<forall>k'. k' \<noteq> k \<longrightarrow> m' k' = m k'"
    and "tracks m' k w lg (insert mem used) t"
  shows "all_tracked m' w (L(k := lg)) (insert mem used) t"
  unfolding all_tracked_def
proof
  fix k' assume "k' \<in> rl_keys"
  show "tracks m' k' w ((L(k := lg)) k') (insert mem used) t"
  proof (cases "k' = k")
    case False
    with assms(1,2) \<open>k' \<in> rl_keys\<close> have "tracks m' k' w (L k') used t"
      by (intro tracks_frame [of m' k' m]) (auto simp: all_tracked_def)
    with False show ?thesis by (auto intro: tracks_mono)
  qed (use assms(3) in simp)
qed

lemma all_tracked_log:
  assumes "all_tracked m w L used t" and "0 < w" and "k \<in> rl_keys"
  shows "all_tracked (log_entry m t k w mem) w (L(k := L k @ [t])) (insert mem used) t"
  using assms tracks_log_entry [of m k w "L k" used t mem]
  by (intro all_tracked_upd) (auto simp: all_tracked_def log_entry_def)

lemma all_tracked_trim:
  assumes "all_tracked m w L used t" and "0 < w" and "k \<in> rl_keys"
  shows "all_tracked (trim_entry m t k w) w L (insert mem used) t"
  using assms tracks_trim_entry [of m k w "L k" used t] all_tracked_upd [of m w L used t k "trim_entry m t k w" "L k" mem]
  by (auto simp: all_tracked_def trim_entry_other intro: tracks_mono)

lemma all_tracked_take_back:
  assumes "all_tracked m w L used t" and "0 < w" and "mem \<notin> used" and "tk \<in> rl_keys" "uk \<in> rl_keys" "tk \<noteq> uk"
  defines "m2 \<equiv> trim_entry (log_entry m t tk w mem) t uk w"
  shows "all_tracked (fst (ks_zrem m2 t tk mem)) w L (insert mem used) t"
proof -
  have m2: "m2 tk = log_entry m t tk w mem tk" using assms(6) by (simp add: m2_def trim_entry_other)
  have "tracks (fst (ks_zrem m2 t tk mem)) tk w (L tk) used t"
    using tracks_take_back [of m tk w "L tk" used t mem m2] m2 assms(1-4) by (simp add: all_tracked_def)
  moreover have "all_tracked m2 w (L(tk := L tk @ [t])) (insert mem used) t"
    using all_tracked_trim [OF all_tracked_log [OF assms(1,2,4)] assms(2,5), of mem mem] by (simp add: m2_def)
  moreover have "\<forall>k'. k' \<noteq> tk \<longrightarrow> fst (ks_zrem m2 t tk mem) k' = m2 k'" by (simp add: zrem_other)
  ultimately have "all_tracked (fst (ks_zrem m2 t tk mem)) w ((L(tk := L tk @ [t]))(tk := L tk)) (insert mem (insert mem used)) t"
    using all_tracked_upd [of m2 w "L(tk := L tk @ [t])" "insert mem used" t tk "fst (ks_zrem m2 t tk mem)" "L tk" mem]
    by (blast intro: tracks_mono)
  then show ?thesis by simp
qed

context valkey_server
begin

text \<open>The two shapes in which the script touches one sorted set.\<close>

lemma trim_commands:
  "ks (vk_pexpire v (vk_zremrangebyscore v s t k (t - w)) t k (w + 5000)) = trim_entry (ks s) t k w"
  by (simp add: commands trim_entry_def)

lemma log_commands:
  assumes "tracks (ks s) k w lg used t" and "0 < w" and "mem \<notin> used"
  shows "ks (vk_pexpire v (vk_zadd v (vk_zremrangebyscore v s t k (t - w)) t k t mem) t k (w + 5000)) = log_entry (ks s) t k w mem"
proof -
  have "zset_or_absent (ks s) k" and "mem \<notin> fst ` set (ks_zset (ks s) t k)"
    using assms(1,3) by (auto simp: tracks_def)
  then show ?thesis using ks_log_entry_cmds [of "ks s" k mem t w t] assms(2) by (simp add: commands log_entry_def)
qed

lemma count_commands:
  assumes "tracks (ks s) k w lg used t"
  shows "vk_zcard v (vk_zremrangebyscore v s t k (t - w)) t k = recent w t lg"
proof -
  have "zset_or_absent (ks s) k" using assms by (simp add: tracks_def)
  then show ?thesis using tracks_count [OF assms] by (simp add: commands ks_zcard_def zset_trimmed recent_def)
qed

lemma slidingWindowScript_spec:
  assumes rel: "all_tracked (ks s) w L used t" and w: "0 < w" and fresh: "mem \<notin> used"
    and keys: "tk \<in> rl_keys" "uk \<in> rl_keys" and dist: "0 < ulim \<Longrightarrow> tk \<noteq> uk"
    and spec: "spec_allow w tlim ulim t tk uk L = (L', ok)"
    and run: "slidingWindowScript v s t tk uk w tlim ulim t mem = (s', p)"
  shows "all_tracked (ks s') w L' (insert mem used) t" and "(fst p = 1, snd p = 1) = ok"
proof -
  have T: "tracks (ks s) tk w (L tk) used t" and U: "tracks (ks s) uk w (L uk) used t"
    using rel keys by (auto simp: all_tracked_def)
  note lg = all_tracked_log [OF rel w keys(1), of mem]
  let ?s3 = "vk_pexpire v (vk_zadd v (vk_zremrangebyscore v s t tk (t - w)) t tk t mem) t tk (w + 5000)"
  have s3: "ks ?s3 = log_entry (ks s) t tk w mem" by (rule log_commands [OF T w fresh])
  have U3: "tracks (ks ?s3) uk w (L uk) used t" if "tk \<noteq> uk"
    unfolding s3 using tracks_frame [OF _ U, of "log_entry (ks s) t tk w mem"] that by (simp add: log_entry_def)
  have "all_tracked (ks s') w L' (insert mem used) t \<and> (fst p = 1, snd p = 1) = ok"
  proof (cases "recent w t (L tk) \<ge> tlim")
    case True
    with run spec all_tracked_trim [OF rel w keys(1), of mem] show ?thesis
      by (auto simp: slidingWindowScript_def spec_allow_def Let_def count_commands [OF T] trim_commands)
  next
    case False
    show ?thesis
    proof (cases "ulim \<le> 0")
      case True
      with False run spec lg s3 show ?thesis
        by (auto simp: slidingWindowScript_def spec_allow_def Let_def count_commands [OF T])
    next
      case pos: False
      then have ne: "tk \<noteq> uk" using dist by simp
      show ?thesis
      proof (cases "recent w t (L uk) \<ge> ulim")
        case True
        with False pos run spec all_tracked_take_back [OF rel w fresh keys ne]
        show ?thesis
          by (auto simp: slidingWindowScript_def spec_allow_def Let_def count_commands [OF T]
              count_commands [OF U3 [OF ne]] trim_commands s3 zrem)
      next
        case below: False
        have "ks (vk_pexpire v (vk_zadd v (vk_zremrangebyscore v ?s3 t uk (t - w)) t uk t mem) t uk (w + 5000))
                = log_entry (log_entry (ks s) t tk w mem) t uk w mem"
          using log_commands [OF U3 [OF ne] w fresh] s3 by simp
        with False pos below run spec all_tracked_log [OF lg w keys(2), of mem] ne
        show ?thesis
          by (auto simp: slidingWindowScript_def spec_allow_def Let_def count_commands [OF T]
              count_commands [OF U3 [OF ne]] fun_upd_twist)
      qed
    qed
  qed
  then show "all_tracked (ks s') w L' (insert mem used) t" and "(fst p = 1, snd p = 1) = ok" by auto
qed

lemma run_allow_spec:
  assumes "all_tracked (ks s) w L used t0" and "w = milliseconds win" "0 < w"
    and "sorted (t0 # map unix_milli (rl_times rs))" and "distinct (rl_members rs)" and "set (rl_members rs) \<inter> used = {}"
  shows "run_allow v s win tlim ulim rs = map Inr (run_spec_allow w tlim ulim L rs)"
  using assms
proof (induction rs arbitrary: s L used t0)
  case (Cons r rs)
  obtain tid uid now rnd where r: "r = (tid, uid, now, rnd)" by (metis prod_cases4)
  let ?t = "unix_milli now" and ?mem = "itoa (unix_milli now) @ '':'' @ rnd"
  let ?ulim = "if uid \<noteq> [] then ulim else 0"
  obtain s' p where run: "slidingWindowScript v s ?t (tenant_key tid) (rl_user_key tid uid) w tlim ?ulim ?t ?mem = (s', p)"
    by (metis prod.collapse)
  obtain L' ok where spec: "spec_allow w tlim ?ulim ?t (tenant_key tid) (rl_user_key tid uid) L = (L', ok)" by (metis prod.collapse)
  have tr: "all_tracked (ks s) w L used ?t"
    using Cons.prems(1,4) by (auto simp: r rl_times_def intro: all_tracked_later)
  have fresh: "?mem \<notin> used" and rest: "set (rl_members rs) \<inter> insert ?mem used = {}" "distinct (rl_members rs)"
    and times: "sorted (?t # map unix_milli (rl_times rs))"
    using Cons.prems(4-6) by (auto simp: r rl_members_def rl_times_def)
  have ne: "0 < ?ulim \<Longrightarrow> tenant_key tid \<noteq> rl_user_key tid uid" by (auto simp: rl_user_key_def split: if_splits)
  note step = slidingWindowScript_spec [OF tr Cons.prems(3) fresh key_in_rl_keys(1,3) ne spec run]
  have "run_allow v s' win tlim ulim rs = map Inr (run_spec_allow w tlim ulim L' rs)"
    by (rule Cons.IH [OF step(1) Cons.prems(2,3) times rest(2,1)])
  with step(2) run spec Cons.prems(2,3) show ?case
    by (simp add: r Allow_def newUniqueMember_def Let_def)
qed simp

end

subsection \<open>How many requests a window admits\<close>

fun admitted :: "string \<Rightarrow> rl_request list \<Rightarrow> (bool \<times> bool) list \<Rightarrow> int list" where
  "admitted tid ((tid', uid, now, rnd) # rs) ((a, b) # oks) =
     (if tid' = tid \<and> a \<and> b then [unix_milli now] else []) @ admitted tid rs oks"
| "admitted tid _ _ = []"

definition bounded_log :: "int \<Rightarrow> int \<Rightarrow> int list \<Rightarrow> bool" where
  "bounded_log w n lg \<longleftrightarrow> (\<forall>t. int (length (filter (\<lambda>x. t - w \<le> x \<and> x \<le> t) lg)) \<le> n)"

lemma bounded_log_snoc:
  assumes "bounded_log w n lg" and "\<forall>x \<in> set lg. x \<le> now" and "recent w now lg < n"
  shows "bounded_log w n (lg @ [now])"
  unfolding bounded_log_def
proof
  fix t
  show "int (length (filter (\<lambda>x. t - w \<le> x \<and> x \<le> t) (lg @ [now]))) \<le> n"
  proof (cases "now \<le> t")
    case True
    have "length (filter (\<lambda>x. t - w \<le> x \<and> x \<le> t) lg) \<le> length (filter (\<lambda>x. now - w \<le> x) lg)"
      using True by (induction lg) auto
    with assms(3) show ?thesis by (simp add: recent_def)
  next
    case False
    with assms(1) show ?thesis by (simp add: bounded_log_def)
  qed
qed

lemma tenant_key_inj [simp]: "tenant_key a = tenant_key b \<longleftrightarrow> a = b"
  by (simp add: tenant_key_def)

lemma spec_allow_tenant_log:
  assumes "spec_allow w tlim ulim' now (tenant_key tid') (rl_user_key tid' uid) L = (L', a, b)"
  shows "L' (tenant_key tid) = L (tenant_key tid) @ (if tid' = tid \<and> a \<and> b then [now] else [])"
    and "a \<and> b \<Longrightarrow> recent w now (L (tenant_key tid')) < tlim"
  using assms by (auto simp: spec_allow_def rl_user_key_def not_le split: if_splits)

lemma bounded_admitted:
  assumes "bounded_log w tlim (L (tenant_key tid))" and "\<forall>x \<in> set (L (tenant_key tid)). x \<le> t0"
    and "sorted (t0 # map unix_milli (rl_times rs))"
  shows "bounded_log w tlim (L (tenant_key tid) @ admitted tid rs (run_spec_allow w tlim ulim L rs))"
  using assms
proof (induction rs arbitrary: L t0)
  case (Cons r rs)
  obtain tid' uid now rnd where r: "r = (tid', uid, now, rnd)" by (metis prod_cases4)
  let ?t = "unix_milli now"
  obtain L' a b where spec: "spec_allow w tlim (if uid \<noteq> [] then ulim else 0) ?t (tenant_key tid') (rl_user_key tid' uid) L = (L', a, b)"
    by (metis prod_cases3)
  have le: "\<forall>x \<in> set (L (tenant_key tid)). x \<le> ?t" and times: "sorted (?t # map unix_milli (rl_times rs))"
    using Cons.prems(2,3) by (auto simp: r rl_times_def intro: order_trans)
  have "bounded_log w tlim (L' (tenant_key tid))" and "\<forall>x \<in> set (L' (tenant_key tid)). x \<le> ?t"
    using Cons.prems(1) le spec_allow_tenant_log [OF spec] bounded_log_snoc [OF Cons.prems(1) le] by (auto split: if_splits)
  then have "bounded_log w tlim (L' (tenant_key tid) @ admitted tid rs (run_spec_allow w tlim ulim L' rs))"
    using Cons.IH [of L' ?t] times by simp
  then show ?case by (simp add: r spec spec_allow_tenant_log(1) [OF spec, of tid])
qed simp

subsection \<open>Token buckets: forgetting idle buckets is invisible\<close>

text \<open>The reference bucket per key: its level at the last use; no bucket is ever dropped.\<close>

definition level_at :: "rat \<Rightarrow> rat \<Rightarrow> rat \<times> time \<Rightarrow> time \<Rightarrow> rat" where
  "level_at cap rate b now = min cap (fst b + seconds (now - snd b) * rate)"

fun run_levels :: "rat \<Rightarrow> rat \<Rightarrow> (string \<Rightarrow> rat \<times> time) \<Rightarrow> (string \<times> time) list \<Rightarrow> bool list" where
  "run_levels cap rate B [] = []"
| "run_levels cap rate B ((k, now) # rs) =
     (let l = level_at cap rate (B k) now; ok = (l \<ge> 1)
      in ok # run_levels cap rate (B(k := (if ok then l - 1 else l, now))) rs)"

fun run_bucket :: "MemoryLimiter \<Rightarrow> (string \<times> time) list \<Rightarrow> bool list" where
  "run_bucket ml [] = []"
| "run_bucket ml ((k, now) # rs) = (let (ml', ok) = bucketAllow ml k now in ok # run_bucket ml' rs)"

lemma seconds_simps [simp]: "seconds 0 = 0" "0 \<le> seconds d \<longleftrightarrow> 0 \<le> d" "0 < seconds d \<longleftrightarrow> 0 < d"
  by (simp_all add: seconds_def zero_le_divide_iff zero_less_divide_iff)

lemma seconds_diff: "seconds (a - b) = seconds a - seconds b"
  by (simp add: seconds_def diff_divide_distrib)

lemma seconds_mono: "a \<le> b \<Longrightarrow> seconds a \<le> seconds b"
  by (simp add: seconds_def divide_right_mono)

lemma level_at_later:
  assumes "0 \<le> rate" and "t \<le> u"
  shows "level_at cap rate (level_at cap rate b t, t) u = level_at cap rate b u"
proof -
  have "0 \<le> (seconds u - seconds t) * rate" using assms by (simp add: seconds_mono)
  then show ?thesis by (auto simp: level_at_def min_def seconds_diff algebra_simps)
qed

lemma level_at_full:
  assumes "0 \<le> rate" and "t \<le> u" and "cap \<le> fst b + seconds (t - snd b) * rate"
  shows "level_at cap rate b u = cap"
proof -
  have "seconds (t - snd b) * rate \<le> seconds (u - snd b) * rate"
    using assms(1,2) by (intro mult_right_mono seconds_mono) auto
  with assms(3) show ?thesis by (simp add: level_at_def)
qed

definition bucket_level :: "MemoryLimiter \<Rightarrow> string \<Rightarrow> time \<Rightarrow> rat" where
  "bucket_level ml k u = (case map_of (buckets ml) k of
       None \<Rightarrow> burst ml
     | Some b \<Rightarrow> level_at (burst ml) (ratePerSec ml) (tokens b, last_seen b) u)"

definition limiter_wf :: "MemoryLimiter \<Rightarrow> time \<Rightarrow> bool" where
  "limiter_wf ml t \<longleftrightarrow>
     0 < burst ml \<and> 0 \<le> ratePerSec ml \<and> distinct (map fst (buckets ml))
     \<and> (\<forall>k b. map_of (buckets ml) k = Some b \<longrightarrow> last_seen b \<le> t \<and> 0 \<le> tokens b \<and> tokens b \<le> burst ml)"

lemma map_of_filter_distinct:
  "distinct (map fst xs) \<Longrightarrow>
   map_of (filter P xs) k = (case map_of xs k of None \<Rightarrow> None | Some x \<Rightarrow> if P (k, x) then Some x else None)"
  by (induction xs) (auto simp: map_of_eq_None_iff [symmetric] split: option.splits)

lemma distinct_map_fst_filter: "distinct (map fst xs) \<Longrightarrow> distinct (map fst (filter P xs))"
  by (induction xs) auto

lemma maybeGCLocked_params [simp]:
  "burst (maybeGCLocked ml now) = burst ml" "ratePerSec (maybeGCLocked ml now) = ratePerSec ml"
  by (simp_all add: maybeGCLocked_def split: option.split)

lemma buckets_gc:
  assumes "distinct (map fst (buckets ml))"
  shows "map_of (buckets (maybeGCLocked ml now)) k = map_of (buckets ml) k
     \<or> (map_of (buckets (maybeGCLocked ml now)) k = None
        \<and> (\<exists>b. map_of (buckets ml) k = Some b
             \<and> burst ml \<le> tokens b + seconds (now - last_seen b) * ratePerSec ml))"
  using assms by (auto simp: maybeGCLocked_def map_of_filter_distinct split: option.splits if_splits)

lemma bucket_level_gc:
  assumes "limiter_wf ml t" and "now \<le> u"
  shows "bucket_level (maybeGCLocked ml now) k u = bucket_level ml k u"
proof -
  have d: "distinct (map fst (buckets ml))" and r: "0 \<le> ratePerSec ml" using assms(1) by (auto simp: limiter_wf_def)
  show ?thesis
    using buckets_gc [OF d, of now k] level_at_full [OF r assms(2), of "burst ml"]
    by (auto simp: bucket_level_def split: option.split)
qed

lemma limiter_wf_gc:
  assumes "limiter_wf ml t" and "t \<le> now"
  shows "limiter_wf (maybeGCLocked ml now) now"
proof -
  have d: "distinct (map fst (buckets ml))" using assms(1) by (simp add: limiter_wf_def)
  then have "distinct (map fst (buckets (maybeGCLocked ml now)))"
    by (auto simp: maybeGCLocked_def distinct_map_fst_filter split: option.split)
  moreover have "last_seen b \<le> now \<and> 0 \<le> tokens b \<and> tokens b \<le> burst ml"
    if "map_of (buckets (maybeGCLocked ml now)) k = Some b" for k b
  proof -
    from that buckets_gc [OF d, of now k] have "map_of (buckets ml) k = Some b" by auto
    with assms have "last_seen b \<le> t" "0 \<le> tokens b" "tokens b \<le> burst ml" by (auto simp: limiter_wf_def)
    with assms(2) show ?thesis by simp
  qed
  ultimately show ?thesis using assms(1) by (auto simp: limiter_wf_def)
qed

lemma refill_level:
  assumes "limiter_wf ml now"
  shows "tokens (refill ml (map_of (buckets ml) k) now) = bucket_level ml k now"
    and "last_seen (refill ml (map_of (buckets ml) k) now) = now"
proof -
  have le: "last_seen b \<le> now" "tokens b \<le> burst ml" if "map_of (buckets ml) k = Some b" for b
    using that assms by (auto simp: limiter_wf_def)
  show "tokens (refill ml (map_of (buckets ml) k) now) = bucket_level ml k now"
    using le by (cases "map_of (buckets ml) k") (auto simp: refill_def bucket_level_def level_at_def min_def Let_def not_less)
  show "last_seen (refill ml (map_of (buckets ml) k) now) = now"
    using le by (cases "map_of (buckets ml) k") (auto simp: refill_def Let_def not_less)
qed

lemma bucket_level_range:
  assumes "limiter_wf ml t" and "t \<le> u"
  shows "0 \<le> bucket_level ml k u" and "bucket_level ml k u \<le> burst ml"
proof -
  have "0 \<le> seconds (u - last_seen b) * ratePerSec ml" if "map_of (buckets ml) k = Some b" for b
    using that assms by (auto simp: limiter_wf_def intro!: mult_nonneg_nonneg)
      (meson order_trans)
  then show "0 \<le> bucket_level ml k u" and "bucket_level ml k u \<le> burst ml"
    using assms(1) by (auto simp: bucket_level_def level_at_def limiter_wf_def split: option.split)
qed

text \<open>One call: admitted exactly when the level is at least one, and one token is taken.\<close>

lemma bucketAllow_level:
  assumes wf: "limiter_wf ml t" and "t \<le> now" and "bucketAllow ml key now = (ml', ok)"
  shows "ok = (bucket_level ml key now \<ge> 1)" and "limiter_wf ml' now"
    and "burst ml' = burst ml" and "ratePerSec ml' = ratePerSec ml"
    and "now \<le> u \<Longrightarrow> bucket_level ml' k u =
       (if k = key then level_at (burst ml) (ratePerSec ml) (bucket_level ml key now - (if ok then 1 else 0), now) u
        else bucket_level ml k u)"
proof -
  let ?g = "maybeGCLocked ml now"
  let ?l = "bucket_level ml key now"
  have pos: "0 < burst ml" using wf by (simp add: limiter_wf_def)
  have g: "limiter_wf ?g now" by (rule limiter_wf_gc [OF assms(1,2)])
  define b where "b = refill ?g (map_of (buckets ?g) key) now"
  have b: "tokens b = ?l" "last_seen b = now"
    using refill_level [OF g] bucket_level_gc [OF wf order_refl] by (simp_all add: b_def)
  define c where "c = (if 1 \<le> ?l then b\<lparr>tokens := tokens b - 1\<rparr> else b)"
  have c: "tokens c = ?l - (if 1 \<le> ?l then 1 else 0)" "last_seen c = now" using b by (simp_all add: c_def)
  have eq: "ml' = ?g\<lparr>buckets := AList.update key c (buckets ?g)\<rparr>" and ok: "ok = (1 \<le> ?l)"
    using assms(3) pos b by (auto simp: bucketAllow_def Let_def b_def [symmetric] c_def split: if_splits)
  show "ok = (bucket_level ml key now \<ge> 1)" by (rule ok)
  show "burst ml' = burst ml" and "ratePerSec ml' = ratePerSec ml" by (simp_all add: eq)
  have range: "0 \<le> tokens c" "tokens c \<le> burst ml"
    using bucket_level_range [OF wf assms(2), of key] by (auto simp: c)
  show "limiter_wf ml' now"
    using g range c by (auto simp: limiter_wf_def eq update_conv' distinct_update split: if_splits)
  show "bucket_level ml' k u =
       (if k = key then level_at (burst ml) (ratePerSec ml) (?l - (if ok then 1 else 0), now) u
        else bucket_level ml k u)" if "now \<le> u"
  proof (cases "k = key")
    case True
    then show ?thesis by (simp add: bucket_level_def eq update_conv' ok c)
  next
    case False
    then have "bucket_level ml' k u = bucket_level ?g k u"
      by (simp add: bucket_level_def eq update_conv' split: option.split)
    with False bucket_level_gc [OF wf that] show ?thesis by simp
  qed
qed

lemma run_bucket_levels:
  assumes "limiter_wf ml t" and "sorted (t # map snd rs)"
    and "\<And>k u. t \<le> u \<Longrightarrow> bucket_level ml k u = level_at (burst ml) (ratePerSec ml) (B k) u"
  shows "run_bucket ml rs = run_levels (burst ml) (ratePerSec ml) B rs"
  using assms
proof (induction rs arbitrary: ml t B)
  case (Cons r rs)
  obtain key now where r: "r = (key, now)" by fastforce
  obtain ml' ok where run: "bucketAllow ml key now = (ml', ok)" by fastforce
  have le: "t \<le> now" and rest: "sorted (now # map snd rs)" using Cons.prems(2) by (auto simp: r)
  note step = bucketAllow_level [OF Cons.prems(1) le run]
  let ?l = "level_at (burst ml) (ratePerSec ml) (B key) now"
  have l: "bucket_level ml key now = ?l" using Cons.prems(3) le by simp
  have "run_bucket ml' rs = run_levels (burst ml') (ratePerSec ml') (B(key := (if ok then ?l - 1 else ?l, now))) rs"
    using Cons.prems(3) le by (intro Cons.IH [OF step(2) rest]) (auto simp: step(3-5) l)
  with run step(1,3,4) l show ?case by (simp add: r Let_def)
qed simp

fun granted :: "string \<Rightarrow> (string \<times> time) list \<Rightarrow> bool list \<Rightarrow> nat" where
  "granted k ((k', now) # rs) (ok # oks) = (if k' = k \<and> ok then 1 else 0) + granted k rs oks"
| "granted k _ _ = 0"

lemma level_at_step:
  assumes "0 \<le> rate" and "t \<le> u"
  shows "level_at cap rate b u \<le> level_at cap rate b t + rate * seconds (u - t)"
proof -
  have "0 \<le> rate * seconds (u - t)" using assms by simp
  then show ?thesis by (auto simp: level_at_def min_def seconds_diff algebra_simps)
qed

lemma granted_bound:
  assumes "0 < cap" "0 \<le> rate" and "sorted (t # map snd rs @ [tend])" and "\<And>k. 0 \<le> fst (B k) \<and> snd (B k) \<le> t"
  shows "of_nat (granted k rs (run_levels cap rate B rs)) \<le> level_at cap rate (B k) t + rate * seconds (tend - t)"
  using assms(3,4)
proof (induction rs arbitrary: t B)
  case Nil
  then have "0 \<le> level_at cap rate (B k) t" "0 \<le> rate * seconds (tend - t)"
    using assms(1,2) by (auto simp: level_at_def)
  then show ?case by simp
next
  case (Cons r rs)
  obtain k' now where r: "r = (k', now)" by fastforce
  have le: "t \<le> now" and rest: "sorted (now # map snd rs @ [tend])" using Cons.prems(1) by (auto simp: r)
  let ?l = "level_at cap rate (B k') now"
  let ?B = "B(k' := (if 1 \<le> ?l then ?l - 1 else ?l, now))"
  have "0 \<le> ?l" using Cons.prems(2) [of k'] le assms(1,2) by (auto simp: level_at_def)
  then have inv: "0 \<le> fst (?B x) \<and> snd (?B x) \<le> now" for x
    using Cons.prems(2) [of x] le by auto
  have IH: "of_nat (granted k rs (run_levels cap rate ?B rs)) \<le> level_at cap rate (?B k) now + rate * seconds (tend - now)"
    by (rule Cons.IH [OF rest inv])
  have up: "level_at cap rate (B k) now + rate * seconds (tend - now) \<le> level_at cap rate (B k) t + rate * seconds (tend - t)"
    using level_at_step [OF assms(2) le, of cap "B k"] by (simp add: seconds_diff algebra_simps)
  have "level_at cap rate (?B k) now + (if k' = k \<and> 1 \<le> ?l then 1 else 0) \<le> level_at cap rate (B k) now"
    using assms(2) \<open>0 \<le> ?l\<close> by (auto simp: level_at_def)
  moreover have "granted k (r # rs) (run_levels cap rate B (r # rs))
      = (if k' = k \<and> 1 \<le> ?l then 1 else 0) + granted k rs (run_levels cap rate ?B rs)"
    by (simp add: r Let_def)
  ultimately show ?case using IH up by (auto split: if_splits)
qed

lemma run_fresh_bucket:
  assumes "0 < limit" and "0 < win" and "sorted (map snd rs)" and "rs \<noteq> []"
  shows "run_bucket (NewMemoryLimiter limit win) rs =
    run_levels (of_int limit) (of_int limit / seconds win) (\<lambda>_. (of_int limit, snd (hd rs))) rs"
proof -
  let ?ml = "NewMemoryLimiter limit win" and ?t = "snd (hd rs)"
  have rate: "0 \<le> (rat_of_int limit) / seconds win" using assms(1,2) by (simp add: zero_le_divide_iff)
  have ml: "burst ?ml = of_int limit" "ratePerSec ?ml = of_int limit / seconds win" "buckets ?ml = []"
    using assms(1,2) by (simp_all add: NewMemoryLimiter_def Let_def)
  have wf: "limiter_wf ?ml ?t" using assms(1) rate by (simp add: limiter_wf_def ml)
  have full: "bucket_level ?ml k u = level_at (burst ?ml) (ratePerSec ?ml) (of_int limit, ?t) u" if "?t \<le> u" for k u
  proof -
    have "0 \<le> seconds (u - ?t) * (rat_of_int limit / seconds win)" using that rate by (intro mult_nonneg_nonneg) simp_all
    then show ?thesis by (simp add: bucket_level_def ml level_at_def)
  qed
  have "sorted (?t # map snd rs)" using assms(3,4) by (cases rs) auto
  then show ?thesis using run_bucket_levels [OF wf _ full] ml by simp
qed

text \<open>The bucket counter: calls at the given server instants.\<close>

fun run_incr :: "'s valkey \<Rightarrow> 's \<Rightarrow> string \<Rightarrow> duration \<Rightarrow> int list \<Rightarrow> 's \<times> (store_error + int) list" where
  "run_incr v s key ttl [] = (s, [])"
| "run_incr v s key ttl (t # ts) =
     (let (s', r) = IncrWithTTL v True True s t key ttl; (s'', rs) = run_incr v s' key ttl ts in (s'', r # rs))"

context valkey_server
begin

lemma IncrWithTTL_fresh:
  assumes "ks_live (ks s) t key = None" and "0 < milliseconds ttl"
  obtains s' where "IncrWithTTL v True True s t key ttl = (s', Inr 1)"
    and "ks s' key = Some (VStr (itoa 1), Some (t + milliseconds ttl))"
proof -
  obtain s1 n where i: "vk_incr v s t key = (s1, n)" by fastforce
  then have "n = Some 1" and k1: "ks s1 = (ks s)(key \<mapsto> (VStr (itoa 1), None))"
    using incr(1) [of s t key] incr(2) [of s t key] assms(1) by (simp_all add: ks_incr_def)
  then show ?thesis
    using that [of "vk_pexpire v s1 t key (milliseconds ttl)"] i assms(2)
    by (simp add: IncrWithTTL_def incrWithTTLScript_def pexpire ks_pexpire_def)
qed

lemma IncrWithTTL_again:
  assumes "ks s key = Some (VStr (itoa n), Some e)" and "t \<le> e" and "1 \<le> n" and "0 < milliseconds ttl"
  obtains s' where "IncrWithTTL v True True s t key ttl = (s', Inr (n + 1))"
    and "ks s' key = Some (VStr (itoa (n + 1)), Some e)"
proof -
  obtain s1 r where i: "vk_incr v s t key = (s1, r)" by fastforce
  then have "r = Some (n + 1)" and "ks s1 = (ks s)(key \<mapsto> (VStr (itoa (n + 1)), Some e))"
    using incr(1) [of s t key] incr(2) [of s t key] assms(1,2) by (simp_all add: ks_incr_def ks_live_def)
  then show ?thesis
    using that [of s1] i assms(3,4) by (simp add: IncrWithTTL_def incrWithTTLScript_def)
qed

lemma run_incr_again:
  assumes "ks s key = Some (VStr (itoa n), Some e)" and "\<forall>t \<in> set ts. t \<le> e" and "1 \<le> n" and "0 < milliseconds ttl"
  shows "snd (run_incr v s key ttl ts) = map (\<lambda>i. Inr (n + 1 + int i)) [0..<length ts]
    \<and> (\<exists>n'. ks (fst (run_incr v s key ttl ts)) key = Some (VStr (itoa n'), Some e))"
  using assms
proof (induction ts arbitrary: s n)
  case (Cons t ts)
  obtain s' where s': "IncrWithTTL v True True s t key ttl = (s', Inr (n + 1))"
    and k': "ks s' key = Some (VStr (itoa (n + 1)), Some e)"
    using IncrWithTTL_again [OF Cons.prems(1) _ Cons.prems(3,4), of t] Cons.prems(2) by auto
  with Cons.IH [OF k'] Cons.prems show ?case
    by (auto simp: map_upt_Suc algebra_simps simp del: upt_Suc split: prod.split)
qed auto

end

subsection \<open>Properties of the rate limiter\<close>

text \<open>
  C3: The sliding-window script, run on any server with the documented behaviour for any
  sequence of requests of any tenants and users at non-decreasing instants, answers as the
  reference limiter that logs exactly the admitted requests: in particular a request
  rejected at the user ceiling leaves the tenant's budget as it was.
\<close>

theorem sliding_window_matches_reference:
  assumes "valkey_server v ks" and "\<forall>k \<in> rl_keys. ks s k = None" and "0 < milliseconds win"
    and "sorted (rl_times rs)" and "distinct (rl_members rs)"
  shows "run_allow v s win tlim ulim rs = map Inr (run_spec_allow (milliseconds win) tlim ulim (\<lambda>_. []) rs)"
proof (cases rs)
  case (Cons r rs')
  have "sorted (map unix_milli (rl_times rs))"
    using assms(4) by (auto simp: sorted_map intro: sorted_wrt_mono_rel unix_milli_mono)
  then have "sorted (unix_milli (hd (rl_times rs)) # map unix_milli (rl_times rs))"
    by (simp add: Cons rl_times_def)
  moreover have "all_tracked (ks s) (milliseconds win) (\<lambda>_. []) {} (unix_milli (hd (rl_times rs)))"
    using assms(2) by (simp add: all_tracked_def tracks_empty)
  ultimately show ?thesis
    using valkey_server.run_allow_spec [OF assms(1) _ refl assms(3)] assms(5) by blast
qed simp

theorem sliding_window_matches_reference_witness:
  "run_allow ks_valkey Map.empty (nanos_per_ms * 100) 3 1
     [(''t'', ''u'', 0, ''a''), (''t'', ''u'', 0, ''b''), (''t'', ''w'', 0, ''c''), (''t'', [], 0, ''d''), (''t'', [], 0, ''e'')]
   = map Inr [(True, True), (True, False), (True, True), (True, True), (False, False)]"
  by (subst sliding_window_matches_reference [OF ks_valkey_server])
    (simp_all add: rl_times_def rl_members_def spec_allow_def recent_def rl_user_key_def tenant_key_def user_key_def milliseconds_def quot_def)

text \<open>
  The ceiling holds in every window: among the requests of one tenant, at most
  \<^verbatim>\<open>TenantRPM\<close> admitted ones lie in any closed interval of the window's length, so a burst at
  the boundary of two windows cannot double the rate.
\<close>

theorem sliding_window_bound:
  assumes "valkey_server v ks" and "\<forall>k \<in> rl_keys. ks s k = None" and "0 < milliseconds win" and "0 \<le> tlim"
    and "sorted (rl_times rs)" and "distinct (rl_members rs)"
  shows "int (length (filter (\<lambda>x. t - milliseconds win \<le> x \<and> x \<le> t)
           (admitted tid rs (map projr (run_allow v s win tlim ulim rs))))) \<le> tlim"
proof -
  have "sorted (map unix_milli (rl_times rs))"
    using assms(5) by (auto simp: sorted_map intro: sorted_wrt_mono_rel unix_milli_mono)
  then obtain t0 where t0: "sorted (t0 # map unix_milli (rl_times rs))"
    by (cases "rl_times rs") (auto intro: that)
  moreover have "all_tracked (ks s) (milliseconds win) (\<lambda>_. []) {} t0"
    using assms(2) by (simp add: all_tracked_def tracks_empty)
  ultimately have "map projr (run_allow v s win tlim ulim rs) = run_spec_allow (milliseconds win) tlim ulim (\<lambda>_. []) rs"
    using valkey_server.run_allow_spec [OF assms(1) _ refl assms(3), of s "\<lambda>_. []" "{}" t0 rs tlim ulim] assms(6)
    by (simp add: o_def)
  moreover have "bounded_log (milliseconds win) tlim (admitted tid rs (run_spec_allow (milliseconds win) tlim ulim (\<lambda>_. []) rs))"
    using bounded_admitted [of "milliseconds win" tlim "\<lambda>_. []" tid t0 rs ulim] t0 assms(4) by (simp add: bounded_log_def)
  ultimately show ?thesis by (simp add: bounded_log_def)
qed

theorem sliding_window_bound_witness:
  "int (length (filter (\<lambda>x. 100 - milliseconds (nanos_per_ms * 100) \<le> x \<and> x \<le> 100)
     (admitted ''t'' [(''t'', [], 0, ''a''), (''t'', [], nanos_per_ms * 99, ''b''), (''t'', [], nanos_per_ms * 100, ''c'')]
       (map projr (run_allow ks_valkey Map.empty (nanos_per_ms * 100) 2 5
         [(''t'', [], 0, ''a''), (''t'', [], nanos_per_ms * 99, ''b''), (''t'', [], nanos_per_ms * 100, ''c'')]))))) \<le> 2"
  by (rule sliding_window_bound [OF ks_valkey_server])
    (simp_all add: rl_times_def rl_members_def unix_milli_def milliseconds_def quot_def itoa_def dec_nat.simps digit_char_def)

text \<open>
  The in-memory fallback decides as if no bucket were ever dropped: the periodic removal
  of idle buckets is invisible, and a key that was never seen starts full.
\<close>

theorem bucket_gc_invisible:
  assumes "0 < limit" and "0 < win" and "sorted (map snd rs)" and "rs \<noteq> []"
  shows "run_bucket (NewMemoryLimiter limit win) rs =
    run_levels (of_int limit) (of_int limit / seconds win) (\<lambda>_. (of_int limit, snd (hd rs))) rs"
  by (rule run_fresh_bucket [OF assms])

theorem bucket_gc_invisible_witness:
  "run_bucket (NewMemoryLimiter 2 nanos_per_s) [(''k'', 0), (''k'', 0), (''k'', 0), (''k'', 20 * nanos_per_s)]
   = [True, True, False, True]"
  by (subst bucket_gc_invisible) (simp_all add: level_at_def seconds_def Let_def)

text \<open>
  The fallback's ceiling: over a span of length \<open>e\<close>, a key is granted at most
  \<open>limit * (1 + e / window)\<close> requests (the burst plus the refill).
\<close>

theorem bucket_grant_bound:
  assumes "0 < limit" and "0 < win" and "sorted (map snd rs)" and "rs \<noteq> []"
  shows "rat_of_nat (granted k rs (run_bucket (NewMemoryLimiter limit win) rs))
    \<le> of_int limit * (1 + of_int (snd (last rs) - snd (hd rs)) / of_int win)"
proof -
  let ?c = "rat_of_int limit" and ?t = "snd (hd rs)" and ?e = "snd (last rs)"
  let ?B = "\<lambda>_ :: string. (?c, ?t)"
  have ml: "run_bucket (NewMemoryLimiter limit win) rs = run_levels ?c (?c / seconds win) ?B rs"
    by (rule run_fresh_bucket [OF assms])
  have "sorted (?t # map snd rs @ [?e])"
  proof -
    have "sorted (map snd rs @ [?e])" using assms(3) by (cases rs rule: rev_cases) (auto simp: sorted_append)
    with assms(4) show ?thesis by (cases rs) auto
  qed
  then have "rat_of_nat (granted k rs (run_levels ?c (?c / seconds win) ?B rs))
    \<le> level_at ?c (?c / seconds win) (?B k) ?t + (?c / seconds win) * seconds (?e - ?t)"
    using assms(1,2) by (intro granted_bound) (auto simp: zero_le_divide_iff)
  also have "\<dots> = ?c * (1 + of_int (?e - ?t) / of_int win)"
    using assms(2) by (simp add: level_at_def seconds_def field_simps)
  finally show ?thesis unfolding ml .
qed

theorem bucket_grant_bound_witness:
  "rat_of_nat (granted ''k'' [(''k'', 0), (''k'', 10)] (run_bucket (NewMemoryLimiter 1 nanos_per_s) [(''k'', 0), (''k'', 10)]))
   \<le> of_int 1 * (1 + of_int (snd (last [(''k'', 0 :: int), (''k'', 10)]) - snd (hd [(''k'', 0), (''k'', 10)])) / of_int nanos_per_s)"
  by (rule bucket_grant_bound) simp_all

text \<open>
  The middleware when Valkey fails. Failing open serves every request; failing closed
  serves exactly the requests that the tenant's bucket admits and, when a user is known, the
  user's bucket admits too, and answers 503 with the scope otherwise.
\<close>

theorem outage_policy:
  assumes "tenantID \<noteq> []"
  shows "snd (snd (Wrap cfg v False s t rs tenantID userID now rnd)) =
    (if \<not> FailClosed cfg then Next
     else if \<not> snd (bucketAllow (FallbackTenant rs) (tenant_key tenantID) now)
     then Degraded (retry_seconds (Window cfg)) (TenantRPM cfg) ''tenant''
     else if userID \<noteq> [] \<and> UserRPM cfg > 0 \<and> \<not> snd (bucketAllow (FallbackUser rs) (user_key tenantID userID) now)
     then Degraded (retry_seconds (Window cfg)) (UserRPM cfg) ''user''
     else NextFallback)
    \<and> fst (Wrap cfg v False s t rs tenantID userID now rnd) = s"
proof -
  obtain e where "Allow v True False s t tk uk win tlim ulim now rnd = (s, Inl e)" for tk uk win tlim ulim
    by (cases rnd) (auto simp: Allow_def newUniqueMember_def Let_def)
  with assms show ?thesis by (simp add: Wrap_def Let_def split: prod.split)
qed

theorem outage_policy_witness:
  "snd (snd (Wrap \<lparr>TenantRPM = 1, UserRPM = 1, Window = nanos_per_s, FailClosed = True\<rparr> ks_valkey False Map.empty 0
      \<lparr>FallbackTenant = NewMemoryLimiter 1 nanos_per_s, FallbackUser = NewMemoryLimiter 1 nanos_per_s\<rparr> ''t'' ''u'' 0 (Some ''x'')))
   = NextFallback"
  by (simp add: outage_policy bucketAllow_def maybeGCLocked_def NewMemoryLimiter_def refill_def Let_def)

text \<open>
  The bucket counter counts every call of its period, one by one, from the first call
  until the period has passed (later calls do not extend it), and the first call after
  that starts again at 1.
\<close>

theorem counter_counts_one_period:
  assumes "valkey_server v ks" and "ks_live (ks s) t key = None" and "0 < milliseconds ttl"
    and "\<forall>u \<in> set ts. u \<le> t + milliseconds ttl" and "t + milliseconds ttl < t'"
  shows "snd (run_incr v s key ttl (t # ts)) = map (\<lambda>i. Inr (1 + int i)) [0..<Suc (length ts)]
       \<and> snd (IncrWithTTL v True True (fst (run_incr v s key ttl (t # ts))) t' key ttl) = Inr 1"
proof -
  obtain s' where s': "IncrWithTTL v True True s t key ttl = (s', Inr 1)"
    and k': "ks s' key = Some (VStr (itoa 1), Some (t + milliseconds ttl))"
    using valkey_server.IncrWithTTL_fresh [OF assms(1-3)] by blast
  note again = valkey_server.run_incr_again [OF assms(1) k' assms(4) _ assms(3), simplified]
  then obtain n' where "ks (fst (run_incr v s' key ttl ts)) key = Some (VStr (itoa n'), Some (t + milliseconds ttl))"
    by blast
  with assms(5) have "ks_live (ks (fst (run_incr v s' key ttl ts))) t' key = None" by (simp add: ks_live_def)
  then have "snd (IncrWithTTL v True True (fst (run_incr v s' key ttl ts)) t' key ttl) = Inr 1"
    using valkey_server.IncrWithTTL_fresh [OF assms(1) _ assms(3)] by (metis snd_conv)
  then show ?thesis using again s' by (simp add: split_beta map_upt_Suc algebra_simps del: upt_Suc)
qed

theorem counter_counts_one_period_witness:
  "snd (run_incr ks_valkey Map.empty ''k'' nanos_per_ms (0 # [1, 1])) = map (\<lambda>i. Inr (1 + int i)) [0..<3]
   \<and> snd (IncrWithTTL ks_valkey True True (fst (run_incr ks_valkey Map.empty ''k'' nanos_per_ms (0 # [1, 1]))) 2 ''k'' nanos_per_ms) = Inr 1"
  using counter_counts_one_period [OF ks_valkey_server, of Map.empty 0 "''k''" nanos_per_ms "[1, 1]" 2]
  by (simp add: ks_live_def milliseconds_def quot_def numeral_3_eq_3 del: run_incr.simps)

end
