(* ===== verification/UndoSend.thy ===== *)
theory UndoSend
  imports Valkey
begin

text \<open>
  The "Undo Send" hold queue of \<^verbatim>\<open>internal/undosend\<close>: \<^verbatim>\<open>service.go\<close> (hold, cancel, claim,
  dead-letter and requeue against Valkey) and \<^verbatim>\<open>worker.go\<close> (the dispatch worker). Valkey is
  the argument \<open>v\<close>; JSON is the argument \<open>cd\<close>, a codec for the persisted record with what the
  cancel script reads of it; the JMAP submission of the internal client is the argument
  \<open>submit\<close>. Every operation takes the server's clock \<open>t\<close> in milliseconds and, where the code
  reads it, the process clock \<open>now\<close> in nanoseconds.
\<close>

subsection \<open>Data\<close>

datatype undo_error =
    ErrNotFound | ErrAlreadySent | ErrTenantMismatch | ErrRequired string | ErrUUID
  | ErrDecode | ErrTenantRequired | ErrConfig

datatype send_status = StatusPending | StatusSent | StatusCancelled | StatusFailed

datatype dispatch_error =
    EmptyPayload | BadPayload | SubmitErr string | MethodErr string | MissingResponse | Rejected string

record PendingSend =
  ps_ID :: string
  ps_TenantID :: string
  ps_KChatUserID :: string
  ps_StalwartAccountID :: string
  ps_CreateID :: string
  ps_EmailID :: string
  ps_IdentityID :: string
  ps_SubmissionPayload :: string
  ps_Status :: send_status
  ps_CreatedAt :: time
  ps_DeadlineAt :: time
  ps_Attempts :: int
  ps_LastError :: "dispatch_error option"

record HoldInput =
  hi_TenantID :: string
  hi_KChatUserID :: string
  hi_StalwartAccountID :: string
  hi_CreateID :: string
  hi_EmailID :: string
  hi_IdentityID :: string
  hi_SubmissionPayload :: string

text \<open>
  The codec: \<open>enc\<close> and \<open>dec\<close> are \<^verbatim>\<open>json.Marshal\<close> and \<^verbatim>\<open>json.Unmarshal\<close> on \<^verbatim>\<open>PendingSend\<close>,
  \<open>lua_tenant\<close> is \<^verbatim>\<open>cjson.decode(raw).tenant_id\<close>.
\<close>

record codec =
  enc :: "PendingSend \<Rightarrow> string"
  dec :: "string \<Rightarrow> PendingSend option"
  lua_tenant :: "string \<Rightarrow> string option"

locale json_codec =
  fixes cd :: codec
  assumes dec_enc [simp]: "dec cd (enc cd p) = Some p"
    and lua_tenant_enc [simp]: "lua_tenant cd (enc cd p) = Some (ps_TenantID p)"
    and enc_nonempty [simp]: "enc cd p \<noteq> []"

record undo_service =
  us_delay :: duration
  us_maxDelay :: duration
  us_ttlSlack :: duration

definition NewService :: "bool \<Rightarrow> duration \<Rightarrow> duration \<Rightarrow> duration \<Rightarrow> undo_error + undo_service" where
  "NewService hasClient delay maxDelay ttlSlack =
     (if \<not> hasClient then Inl ErrConfig
      else
        let d = (if delay \<le> 0 then 10 * nanos_per_s else delay);
            md = (if maxDelay \<le> 0 then 300 * nanos_per_s else maxDelay);
            sl = (if ttlSlack \<le> 0 then 300 * nanos_per_s else ttlSlack)
        in if d > md then Inl ErrConfig
           else Inr \<lparr>us_delay = d, us_maxDelay = md, us_ttlSlack = sl\<rparr>)"

definition sortedSetKey :: string where
  "sortedSetKey = ''kmail:pending_sends''"

definition failedListKey :: string where
  "failedListKey = ''kmail:failed_sends''"

definition companionKey :: "string \<Rightarrow> string" where
  "companionKey i = ''kmail:pending_send:'' @ i"

subsection \<open>The service\<close>

text \<open>The cancel script: read, check the tenant, revoke the sorted-set entry, then delete the payload.\<close>

datatype cancel_result = RMissing | RDecodeError | RMismatch | RClaimed | ROk

definition cancelLua :: "'s valkey \<Rightarrow> codec \<Rightarrow> 's \<Rightarrow> int \<Rightarrow> string \<Rightarrow> string \<Rightarrow> string \<Rightarrow> string \<Rightarrow> 's \<times> cancel_result" where
  "cancelLua v cd s t key setKey tenantID i =
     (case vk_get v s t key of
        None \<Rightarrow> (s, RMissing)
      | Some raw \<Rightarrow>
          if raw = [] then (s, RMissing)
          else (case lua_tenant cd raw of
              None \<Rightarrow> (s, RDecodeError)
            | Some tid \<Rightarrow>
                if tid \<noteq> tenantID then (s, RMismatch)
                else let (s1, removed) = vk_zrem v s t setKey i
                     in if removed = 0 then (s1, RClaimed) else (vk_del v s1 t key, ROk)))"

definition validateHold :: "HoldInput \<Rightarrow> undo_error option" where
  "validateHold i =
     (if trim_space (hi_TenantID i) = [] then Some (ErrRequired ''TenantID'')
      else if trim_space (hi_KChatUserID i) = [] then Some (ErrRequired ''KChatUserID'')
      else if trim_space (hi_StalwartAccountID i) = [] then Some (ErrRequired ''StalwartAccountID'')
      else if trim_space (hi_EmailID i) = [] then Some (ErrRequired ''EmailID'')
      else if hi_SubmissionPayload i = [] then Some (ErrRequired ''SubmissionPayload'')
      else None)"

definition undo_write :: "undo_service \<Rightarrow> 's valkey \<Rightarrow> codec \<Rightarrow> 's \<Rightarrow> int \<Rightarrow> time \<Rightarrow> PendingSend \<Rightarrow> 's" where
  "undo_write us v cd s t now ps =
     (let ttl0 = (ps_DeadlineAt ps - now) + us_ttlSlack us;
          keyTTL = (if ttl0 \<le> 0 then us_ttlSlack us else ttl0);
          s1 = vk_set v s t (companionKey (ps_ID ps)) (enc cd ps) (Some (milliseconds keyTTL))
      in vk_zadd v s1 t sortedSetKey (unix_sec (ps_DeadlineAt ps)) (ps_ID ps))"

text \<open>\<open>uuid\<close> is the fresh UUIDv7, \<open>None\<close> when minting it fails.\<close>

definition Hold :: "undo_service \<Rightarrow> 's valkey \<Rightarrow> codec \<Rightarrow> 's \<Rightarrow> int \<Rightarrow> time \<Rightarrow> string option \<Rightarrow> HoldInput
    \<Rightarrow> 's \<times> (undo_error + PendingSend)" where
  "Hold us v cd s t now uuid i =
     (case validateHold i of
        Some e \<Rightarrow> (s, Inl e)
      | None \<Rightarrow> (case uuid of
          None \<Rightarrow> (s, Inl ErrUUID)
        | Some u \<Rightarrow>
            let ps = \<lparr>ps_ID = u, ps_TenantID = hi_TenantID i, ps_KChatUserID = hi_KChatUserID i,
                      ps_StalwartAccountID = hi_StalwartAccountID i, ps_CreateID = hi_CreateID i,
                      ps_EmailID = hi_EmailID i, ps_IdentityID = hi_IdentityID i,
                      ps_SubmissionPayload = hi_SubmissionPayload i, ps_Status = StatusPending,
                      ps_CreatedAt = now, ps_DeadlineAt = now + us_delay us, ps_Attempts = 0, ps_LastError = None\<rparr>
            in (undo_write us v cd s t now ps, Inr ps)))"

definition readByID :: "'s valkey \<Rightarrow> codec \<Rightarrow> 's \<Rightarrow> int \<Rightarrow> string \<Rightarrow> undo_error + PendingSend" where
  "readByID v cd s t i =
     (case vk_get v s t (companionKey i) of
        None \<Rightarrow> Inl ErrNotFound
      | Some raw \<Rightarrow> (case dec cd raw of None \<Rightarrow> Inl ErrDecode | Some ps \<Rightarrow> Inr ps))"

definition undo_Get :: "'s valkey \<Rightarrow> codec \<Rightarrow> 's \<Rightarrow> int \<Rightarrow> string \<Rightarrow> undo_error + PendingSend" where
  "undo_Get v cd s t i = (if trim_space i = [] then Inl ErrNotFound else readByID v cd s t i)"

definition Cancel :: "'s valkey \<Rightarrow> codec \<Rightarrow> 's \<Rightarrow> int \<Rightarrow> string \<Rightarrow> string \<Rightarrow> 's \<times> undo_error option" where
  "Cancel v cd s t i tenantID =
     (if trim_space i = [] then (s, Some ErrNotFound)
      else if trim_space tenantID = [] then (s, Some ErrTenantRequired)
      else case cancelLua v cd s t (companionKey i) sortedSetKey tenantID i of
          (s', ROk) \<Rightarrow> (s', None)
        | (s', RMissing) \<Rightarrow> (s', Some ErrAlreadySent)
        | (s', RClaimed) \<Rightarrow> (s', Some ErrAlreadySent)
        | (s', RMismatch) \<Rightarrow> (s', Some ErrTenantMismatch)
        | (s', RDecodeError) \<Rightarrow> (s', Some ErrDecode))"

definition dueIDs :: "'s valkey \<Rightarrow> 's \<Rightarrow> int \<Rightarrow> time \<Rightarrow> int \<Rightarrow> string list" where
  "dueIDs v s t now limit =
     vk_zrangebyscore v s t sortedSetKey (unix_sec now) (if limit \<le> 0 then 50 else limit)"

definition claim :: "'s valkey \<Rightarrow> 's \<Rightarrow> int \<Rightarrow> string \<Rightarrow> 's \<times> bool" where
  "claim v s t i = (let (s', removed) = vk_zrem v s t sortedSetKey i in (s', removed > 0))"

definition markDispatched :: "'s valkey \<Rightarrow> 's \<Rightarrow> int \<Rightarrow> string \<Rightarrow> 's" where
  "markDispatched v s t i = vk_del v s t (companionKey i)"

definition markFailed :: "'s valkey \<Rightarrow> codec \<Rightarrow> 's \<Rightarrow> int \<Rightarrow> PendingSend \<Rightarrow> dispatch_error \<Rightarrow> 's" where
  "markFailed v cd s t ps err =
     (let ps' = ps\<lparr>ps_Status := StatusFailed, ps_LastError := Some err\<rparr>;
          s1 = vk_lpush v s t failedListKey (enc cd ps');
          s2 = vk_ltrim v s1 t failedListKey 0 999
      in vk_del v s2 t (companionKey (ps_ID ps')))"

definition requeue :: "undo_service \<Rightarrow> 's valkey \<Rightarrow> codec \<Rightarrow> 's \<Rightarrow> int \<Rightarrow> time \<Rightarrow> PendingSend \<Rightarrow> time \<Rightarrow> 's" where
  "requeue us v cd s t now ps nextDeadline =
     (let ps' = ps\<lparr>ps_DeadlineAt := nextDeadline\<rparr>;
          ttl0 = (ps_DeadlineAt ps' - now) + us_ttlSlack us;
          keyTTL = (if ttl0 \<le> 0 then us_ttlSlack us else ttl0);
          s1 = vk_set v s t (companionKey (ps_ID ps')) (enc cd ps') (Some (milliseconds keyTTL))
      in vk_zadd v s1 t sortedSetKey (unix_sec (ps_DeadlineAt ps')) (ps_ID ps'))"

subsection \<open>The dispatch worker\<close>

record undo_worker =
  w_maxBatch :: int
  w_maxAttempts :: int

definition NewDispatchWorker :: "bool \<Rightarrow> bool \<Rightarrow> int \<Rightarrow> int \<Rightarrow> undo_error + undo_worker" where
  "NewDispatchWorker hasService hasInternal maxBatch maxAttempts =
     (if \<not> hasService \<or> \<not> hasInternal then Inl ErrConfig
      else Inr \<lparr>w_maxBatch = (if maxBatch \<le> 0 then 50 else maxBatch),
                w_maxAttempts = (if maxAttempts \<le> 0 then 3 else maxAttempts)\<rparr>)"

text \<open>
  The submission. \<open>parseObj\<close> decodes the stored payload into an object (an association list of
  JSON values), \<open>jstr\<close> is a JSON string. The upstream sees the account, the creation key
  and the completed object.
\<close>

record 'j submission =
  sub_accountId :: string
  sub_createKey :: string
  sub_create :: "(string \<times> 'j) list"
  sub_onSuccessDestroyEmail :: "string list"

datatype jmap_reply =
    DispatchFailed string
  | Reply "string option" "(string \<times> string list) option"

definition submissionCreateKey :: "PendingSend \<Rightarrow> string" where
  "submissionCreateKey ps = (if trim_space (ps_CreateID ps) \<noteq> [] then ps_CreateID ps else ''submission'')"

definition buildSubmissionCreate ::
    "(string \<Rightarrow> (string \<times> 'j) list option) \<Rightarrow> (string \<Rightarrow> 'j) \<Rightarrow> PendingSend \<Rightarrow> dispatch_error + (string \<times> 'j) list" where
  "buildSubmissionCreate parseObj jstr ps =
     (if ps_SubmissionPayload ps = [] then Inl EmptyPayload
      else case parseObj (ps_SubmissionPayload ps) of
          None \<Rightarrow> Inl BadPayload
        | Some payload \<Rightarrow>
            let p1 = AList.update ''emailId'' (jstr (ps_EmailID ps)) payload
            in Inr (if trim_space (ps_IdentityID ps) \<noteq> []
                    then AList.update ''identityId'' (jstr (ps_IdentityID ps)) p1 else p1))"

text \<open>
  \<open>internal\<close> is \<^verbatim>\<open>InternalSubmitter.Dispatch\<close>. A reply carries the first method-level error, if
  any, and the method name with the \<^verbatim>\<open>notCreated\<close> keys of call \<^verbatim>\<open>"0"\<close>, if it is present.
\<close>

definition dispatch ::
    "(string \<Rightarrow> (string \<times> 'j) list option) \<Rightarrow> (string \<Rightarrow> 'j) \<Rightarrow> (string \<Rightarrow> string \<Rightarrow> 'j submission \<Rightarrow> jmap_reply)
     \<Rightarrow> PendingSend \<Rightarrow> dispatch_error option" where
  "dispatch parseObj jstr internal ps =
     (case buildSubmissionCreate parseObj jstr ps of
        Inl e \<Rightarrow> Some e
      | Inr create \<Rightarrow>
          (case internal (ps_TenantID ps) (ps_KChatUserID ps)
                  \<lparr>sub_accountId = ps_StalwartAccountID ps, sub_createKey = submissionCreateKey ps,
                   sub_create = create, sub_onSuccessDestroyEmail = [''#'' @ submissionCreateKey ps]\<rparr> of
             DispatchFailed e \<Rightarrow> Some (SubmitErr e)
           | Reply (Some e) _ \<Rightarrow> Some (MethodErr e)
           | Reply None None \<Rightarrow> Some MissingResponse
           | Reply None (Some (name, notCreated)) \<Rightarrow>
               if name \<noteq> ''EmailSubmission/set'' then Some MissingResponse
               else (case notCreated of [] \<Rightarrow> None | k # _ \<Rightarrow> Some (Rejected k))))"

definition backoff :: "int \<Rightarrow> duration" where
  "backoff attempts =
     (let d = (5 * attempts * attempts) * nanos_per_s in if d > 30 * nanos_per_s then 30 * nanos_per_s else d)"

definition handleErr :: "undo_service \<Rightarrow> undo_worker \<Rightarrow> 's valkey \<Rightarrow> codec \<Rightarrow> 's \<Rightarrow> int \<Rightarrow> time \<Rightarrow> PendingSend
    \<Rightarrow> dispatch_error \<Rightarrow> 's" where
  "handleErr us w v cd s t now ps err =
     (if ps_Attempts ps \<ge> w_maxAttempts w then markFailed v cd s t ps err
      else requeue us v cd s t now ps (now + backoff (ps_Attempts ps)))"

text \<open>\<open>process\<close> returns the new state and the submissions handed to Stalwart.\<close>

definition process ::
    "undo_service \<Rightarrow> undo_worker \<Rightarrow> 's valkey \<Rightarrow> codec \<Rightarrow> (PendingSend \<Rightarrow> dispatch_error option)
     \<Rightarrow> 's \<Rightarrow> int \<Rightarrow> time \<Rightarrow> string \<Rightarrow> 's \<times> PendingSend list" where
  "process us w v cd submit s t now i =
     (case claim v s t i of
        (s1, False) \<Rightarrow> (s1, [])
      | (s1, True) \<Rightarrow>
          (case readByID v cd s1 t i of
             Inl _ \<Rightarrow> (s1, [])
           | Inr ps0 \<Rightarrow>
               let ps = ps0\<lparr>ps_Attempts := ps_Attempts ps0 + 1\<rparr>
               in (case submit ps of
                     Some e \<Rightarrow> (handleErr us w v cd s1 t now ps e, [ps])
                   | None \<Rightarrow> (markDispatched v s1 t (ps_ID ps), [ps]))))"

fun process_all ::
    "undo_service \<Rightarrow> undo_worker \<Rightarrow> 's valkey \<Rightarrow> codec \<Rightarrow> (PendingSend \<Rightarrow> dispatch_error option)
     \<Rightarrow> 's \<Rightarrow> int \<Rightarrow> time \<Rightarrow> string list \<Rightarrow> 's \<times> PendingSend list" where
  "process_all us w v cd submit s t now [] = (s, [])"
| "process_all us w v cd submit s t now (i # is) =
     (let (s1, out1) = process us w v cd submit s t now i;
          (s2, out2) = process_all us w v cd submit s1 t now is
      in (s2, out1 @ out2))"

definition Tick ::
    "undo_service \<Rightarrow> undo_worker \<Rightarrow> 's valkey \<Rightarrow> codec \<Rightarrow> (PendingSend \<Rightarrow> dispatch_error option)
     \<Rightarrow> 's \<Rightarrow> int \<Rightarrow> time \<Rightarrow> 's \<times> PendingSend list" where
  "Tick us w v cd submit s t now = process_all us w v cd submit s t now (dueIDs v s t now (w_maxBatch w))"

subsection \<open>A codec\<close>

text \<open>
  A concrete codec that satisfies \<open>json_codec\<close>: the fields as a sequence of length-prefixed strings.
\<close>

definition status_string :: "send_status \<Rightarrow> string" where
  "status_string st = (case st of StatusPending \<Rightarrow> ''pending'' | StatusSent \<Rightarrow> ''sent''
     | StatusCancelled \<Rightarrow> ''cancelled'' | StatusFailed \<Rightarrow> ''failed'')"

definition parse_status :: "string \<Rightarrow> send_status" where
  "parse_status x = (if x = ''sent'' then StatusSent else if x = ''cancelled'' then StatusCancelled
     else if x = ''failed'' then StatusFailed else StatusPending)"

definition error_fields :: "dispatch_error option \<Rightarrow> string \<times> string" where
  "error_fields e = (case e of None \<Rightarrow> ([], []) | Some EmptyPayload \<Rightarrow> (''1'', []) | Some BadPayload \<Rightarrow> (''2'', [])
     | Some (SubmitErr x) \<Rightarrow> (''3'', x) | Some (MethodErr x) \<Rightarrow> (''4'', x) | Some MissingResponse \<Rightarrow> (''5'', [])
     | Some (Rejected x) \<Rightarrow> (''6'', x))"

definition parse_error :: "string \<Rightarrow> string \<Rightarrow> dispatch_error option" where
  "parse_error k x = (if k = ''1'' then Some EmptyPayload else if k = ''2'' then Some BadPayload
     else if k = ''3'' then Some (SubmitErr x) else if k = ''4'' then Some (MethodErr x)
     else if k = ''5'' then Some MissingResponse else if k = ''6'' then Some (Rejected x) else None)"

definition send_fields :: "PendingSend \<Rightarrow> string list" where
  "send_fields p = [ps_ID p, ps_TenantID p, ps_KChatUserID p, ps_StalwartAccountID p, ps_CreateID p, ps_EmailID p,
     ps_IdentityID p, ps_SubmissionPayload p, status_string (ps_Status p), itoa (ps_CreatedAt p), itoa (ps_DeadlineAt p),
     itoa (ps_Attempts p), fst (error_fields (ps_LastError p)), snd (error_fields (ps_LastError p))]"

definition parse_send :: "string list \<Rightarrow> PendingSend option" where
  "parse_send xs = (case xs of
       [a, b, c, d, e, f, g, h, st, ca, da, at, k, x] \<Rightarrow>
         Some \<lparr>ps_ID = a, ps_TenantID = b, ps_KChatUserID = c, ps_StalwartAccountID = d, ps_CreateID = e, ps_EmailID = f,
               ps_IdentityID = g, ps_SubmissionPayload = h, ps_Status = parse_status st, ps_CreatedAt = the (atoi ca),
               ps_DeadlineAt = the (atoi da), ps_Attempts = the (atoi at), ps_LastError = parse_error k x\<rparr>
     | _ \<Rightarrow> None)"

definition net_codec :: codec where
  "net_codec = \<lparr>enc = (\<lambda>p. concat (map netstr (send_fields p))), dec = (\<lambda>raw. parse_send (unnets 14 raw)),
     lua_tenant = (\<lambda>raw. map_option ps_TenantID (parse_send (unnets 14 raw)))\<rparr>"

lemma parse_send_fields: "parse_send (send_fields p) = Some p"
proof -
  have "parse_status (status_string st) = st" for st
    by (cases st) (simp_all add: parse_status_def status_string_def)
  moreover have "parse_error (fst (error_fields e)) (snd (error_fields e)) = e" for e
    by (simp add: parse_error_def error_fields_def split: option.split dispatch_error.split)
  ultimately show ?thesis by (simp add: parse_send_def send_fields_def)
qed

lemma net_codec: "json_codec net_codec"
proof
  fix p
  have "length (send_fields p) = 14" by (simp add: send_fields_def)
  with unnets_concat [of "send_fields p" "[]"]
  have "unnets 14 (concat (map netstr (send_fields p))) = send_fields p" by simp
  then show "dec net_codec (enc net_codec p) = Some p"
    and "lua_tenant net_codec (enc net_codec p) = Some (ps_TenantID p)"
    by (simp_all add: net_codec_def parse_send_fields)
  show "enc net_codec p \<noteq> []" by (simp add: net_codec_def send_fields_def netstr_def)
qed

interpretation net: json_codec net_codec
  by (rule net_codec)

subsection \<open>The queue in the key space\<close>

definition queue :: "keyspace \<Rightarrow> string list" where
  "queue m = (case m sortedSetKey of Some (VZset z, None) \<Rightarrow> map fst z | _ \<Rightarrow> [])"

definition queue_ok :: "keyspace \<Rightarrow> bool" where
  "queue_ok m = (case m sortedSetKey of None \<Rightarrow> True | Some (VZset z, None) \<Rightarrow> distinct (map fst z) | _ \<Rightarrow> False)"

lemma keys_distinct [simp]:
  "companionKey i \<noteq> sortedSetKey" "sortedSetKey \<noteq> companionKey i" "companionKey i \<noteq> failedListKey"
  "failedListKey \<noteq> companionKey i" "sortedSetKey \<noteq> failedListKey" "failedListKey \<noteq> sortedSetKey"
  "companionKey i = companionKey j \<longleftrightarrow> i = j"
  by (simp_all add: companionKey_def sortedSetKey_def failedListKey_def)

lemma queue_cases:
  assumes "queue_ok m"
  obtains "m sortedSetKey = None" "queue m = []"
  | z where "m sortedSetKey = Some (VZset z, None)" "queue m = map fst z" "distinct (map fst z)"
  using assms by (auto simp: queue_ok_def queue_def split: option.splits prod.splits vval.splits)

lemma zset_queue: "queue_ok m \<Longrightarrow> map fst (ks_zset m t sortedSetKey) = queue m"
  by (erule queue_cases) (simp_all add: ks_zset_def ks_live_def)

lemma queue_zrem:
  assumes "queue_ok m"
  shows "queue (fst (ks_zrem m t sortedSetKey x)) = filter (\<lambda>y. y \<noteq> x) (queue m)"
    and "queue_ok (fst (ks_zrem m t sortedSetKey x))"
    and "snd (ks_zrem m t sortedSetKey x) = (if x \<in> set (queue m) then 1 else 0)"
proof -
  have dist: "distinct (map fst (filter P z))" if "distinct (map fst z)" for P and z :: "(string \<times> int) list"
    using that by (simp add: distinct_map inj_on_def)
  have fst_filter: "map fst (filter (\<lambda>p. fst p \<noteq> x) z) = filter (\<lambda>y. y \<noteq> x) (map fst z)" for z :: "(string \<times> int) list"
    by (simp add: filter_map o_def)
  from assms have "queue (fst (ks_zrem m t sortedSetKey x)) = filter (\<lambda>y. y \<noteq> x) (queue m)
      \<and> queue_ok (fst (ks_zrem m t sortedSetKey x))"
  proof (cases rule: queue_cases)
    case 1
    then show ?thesis by (simp add: ks_zrem_def ks_zfilter_def ks_live_def queue_def queue_ok_def)
  next
    case (2 z)
    then have "fst (ks_zrem m t sortedSetKey x) sortedSetKey =
        (if filter (\<lambda>p. fst p \<noteq> x) z = [] then None else Some (VZset (filter (\<lambda>p. fst p \<noteq> x) z), None))"
      by (simp add: ks_zrem_def ks_zfilter_def ks_live_def ks_zput_def)
    with 2 dist [of z] fst_filter [of z] show ?thesis by (auto simp: queue_def queue_ok_def filter_empty_conv)
  qed
  then show "queue (fst (ks_zrem m t sortedSetKey x)) = filter (\<lambda>y. y \<noteq> x) (queue m)"
    and "queue_ok (fst (ks_zrem m t sortedSetKey x))" by simp_all
  show "snd (ks_zrem m t sortedSetKey x) = (if x \<in> set (queue m) then 1 else 0)"
    using zset_queue [OF assms, of t] by (simp add: ks_zrem_def flip: set_map)
qed

lemma queue_zadd:
  assumes "queue_ok m"
  shows "queue (ks_zadd m t sortedSetKey sc x) = (if x \<in> set (queue m) then queue m else queue m @ [x])"
    and "queue_ok (ks_zadd m t sortedSetKey sc x)"
proof -
  have ne: "AList.update x sc z \<noteq> []" for z by (cases z) auto
  from assms have "queue (ks_zadd m t sortedSetKey sc x) = (if x \<in> set (queue m) then queue m else queue m @ [x])
      \<and> queue_ok (ks_zadd m t sortedSetKey sc x)"
  proof (cases rule: queue_cases)
    case 1
    then show ?thesis by (simp add: ks_zadd_def ks_live_def ks_zput_def queue_def queue_ok_def)
  next
    case (2 z)
    then show ?thesis
      using ne by (simp add: ks_zadd_def ks_live_def ks_zput_def queue_def queue_ok_def update_keys distinct_update)
  qed
  then show "queue (ks_zadd m t sortedSetKey sc x) = (if x \<in> set (queue m) then queue m else queue m @ [x])"
    and "queue_ok (ks_zadd m t sortedSetKey sc x)" by simp_all
qed

lemma zadd_other: "k \<noteq> sortedSetKey \<Longrightarrow> ks_zadd m t sortedSetKey sc x k = m k"
  by (auto simp: ks_zadd_def ks_zput_def split: option.splits vval.splits prod.splits)

lemma queue_frame: "m' sortedSetKey = m sortedSetKey \<Longrightarrow> queue m' = queue m \<and> queue_ok m' = queue_ok m"
  by (simp add: queue_def queue_ok_def)

lemma other_keys:
  "k \<noteq> companionKey i \<Longrightarrow> ks_set m t (companionKey i) x px k = m k"
  "k \<noteq> companionKey i \<Longrightarrow> ks_del m t (companionKey i) k = m k"
  "k \<noteq> failedListKey \<Longrightarrow> ks_lpush m t failedListKey x k = m k"
  "k \<noteq> failedListKey \<Longrightarrow> ks_ltrim m t failedListKey a b k = m k"
  by (auto simp: ks_set_def ks_del_def ks_lpush_def ks_ltrim_def Let_def split: option.splits vval.splits prod.splits)

definition companions_ok :: "codec \<Rightarrow> keyspace \<Rightarrow> bool" where
  "companions_ok cd m \<longleftrightarrow> (\<forall>i x e. m (companionKey i) = Some (x, e) \<longrightarrow> (\<exists>ps. x = VStr (enc cd ps) \<and> ps_ID ps = i))"

lemma companions_frame:
  assumes "companions_ok cd m" and "\<And>i. m' (companionKey i) = m (companionKey i) \<or> m' (companionKey i) = None"
  shows "companions_ok cd m'"
  unfolding companions_ok_def
proof (intro allI impI)
  fix i x e assume "m' (companionKey i) = Some (x, e)"
  with assms(2) [of i] have "m (companionKey i) = Some (x, e)" by auto
  with assms(1) show "\<exists>ps. x = VStr (enc cd ps) \<and> ps_ID ps = i" by (simp add: companions_ok_def)
qed

lemma companions_set:
  "companions_ok cd m \<Longrightarrow> companions_ok cd (ks_set m t (companionKey (ps_ID ps)) (enc cd ps) px)"
  by (auto simp: companions_ok_def ks_set_def split: if_splits)

text \<open>What a client may rely on: the queue is well-formed and every payload belongs to its id.\<close>

definition store_ok :: "codec \<Rightarrow> keyspace \<Rightarrow> bool" where
  "store_ok cd m \<longleftrightarrow> queue_ok m \<and> companions_ok cd m"

lemma store_ok_frame:
  assumes "store_ok cd m" and "m' sortedSetKey = m sortedSetKey"
    and "\<And>i. m' (companionKey i) = m (companionKey i) \<or> m' (companionKey i) = None"
  shows "store_ok cd m' \<and> queue m' = queue m"
  using assms queue_frame [of m' m] companions_frame [of cd m m'] by (simp add: store_ok_def)

lemma store_ok_del: "store_ok cd m \<Longrightarrow> store_ok cd (ks_del m t (companionKey i)) \<and> queue (ks_del m t (companionKey i)) = queue m"
  by (rule store_ok_frame) (auto simp: ks_del_def)

lemma store_ok_enqueue:
  assumes "store_ok cd m"
  shows "store_ok cd (ks_zadd (ks_set m t (companionKey (ps_ID ps)) (enc cd ps) px) t sortedSetKey sc (ps_ID ps))
    \<and> queue (ks_zadd (ks_set m t (companionKey (ps_ID ps)) (enc cd ps) px) t sortedSetKey sc (ps_ID ps))
        = (if ps_ID ps \<in> set (queue m) then queue m else queue m @ [ps_ID ps])"
proof -
  let ?m = "ks_set m t (companionKey (ps_ID ps)) (enc cd ps) px"
  have same: "queue ?m = queue m \<and> queue_ok ?m = queue_ok m"
    by (rule queue_frame) (simp add: ks_set_def)
  have "companions_ok cd ?m" using assms by (simp add: store_ok_def companions_set)
  then have "companions_ok cd (ks_zadd ?m t sortedSetKey sc (ps_ID ps))"
    by (rule companions_frame) (simp add: zadd_other)
  moreover have "queue_ok ?m" using same assms by (simp add: store_ok_def)
  ultimately show ?thesis
    unfolding store_ok_def queue_zadd(1) [OF \<open>queue_ok ?m\<close>] using same queue_zadd(2) [OF \<open>queue_ok ?m\<close>] by simp
qed

lemma store_ok_zrem:
  assumes "store_ok cd m"
  shows "store_ok cd (fst (ks_zrem m t sortedSetKey x))"
proof -
  have "companions_ok cd (fst (ks_zrem m t sortedSetKey x))"
    by (rule companions_frame [of cd m]) (use assms in \<open>simp_all add: store_ok_def zrem_other\<close>)
  with queue_zrem(2) [of m t x] assms show ?thesis by (simp add: store_ok_def)
qed

subsection \<open>What every operation does to the queue\<close>

locale undo_queue = valkey_server v ks + json_codec cd
  for v :: "'s valkey" and ks and cd
begin

definition ok :: "'s \<Rightarrow> bool" where
  "ok s \<longleftrightarrow> store_ok cd (ks s)"

definition q :: "'s \<Rightarrow> string list" where
  "q s = queue (ks s)"

lemma hold_effect:
  assumes "ok s" and "Hold us v cd s t now (Some u) i = (s', Inr ps)"
  shows "ok s' \<and> q s' = (if u \<in> set (q s) then q s else q s @ [u]) \<and> ps_ID ps = u"
proof -
  from assms(2) have "ps_ID ps = u" and "s' = undo_write us v cd s t now ps"
    by (auto simp: Hold_def Let_def split: option.splits)
  with assms(1) show ?thesis
    by (auto simp: undo_write_def Let_def ok_def q_def commands store_ok_enqueue)
qed

lemma hold_refused: "Hold us v cd s t now uuid i = (s', Inl e) \<Longrightarrow> s' = s"
  by (auto simp: Hold_def Let_def split: option.splits)

lemma cancel_effect:
  assumes "ok s" and "Cancel v cd s t i tn = (s', r)"
  shows "ok s'" and "r = None \<Longrightarrow> i \<in> set (q s) \<and> q s' = filter (\<lambda>y. y \<noteq> i) (q s)"
    and "r \<noteq> None \<Longrightarrow> q s' = q s"
proof -
  obtain s1 c where lua: "cancelLua v cd s t (companionKey i) sortedSetKey tn i = (s1, c)" by fastforce
  let ?m = "fst (ks_zrem (ks s) t sortedSetKey i)"
  have qok: "queue_ok (ks s)" using assms(1) by (simp add: ok_def store_ok_def)
  have zr: "store_ok cd ?m" using assms(1) by (simp add: ok_def store_ok_zrem)
  have del: "store_ok cd (ks_del ?m t (companionKey i)) \<and> queue (ks_del ?m t (companionKey i)) = queue ?m"
    by (rule store_ok_del [OF zr])
  have keep: "i \<notin> set (queue (ks s)) \<Longrightarrow> queue ?m = queue (ks s)"
    using queue_zrem(1) [OF qok, of t i] by (simp add: filter_id_conv) metis
  have "ok s1 \<and> (if c = ROk then i \<in> set (q s) \<and> q s1 = filter (\<lambda>y. y \<noteq> i) (q s) else q s1 = q s)"
    using lua assms(1) del zr keep queue_zrem [OF qok, of t i]
    by (auto simp: cancelLua_def Let_def ok_def q_def commands case_prod_beta split: option.splits if_splits)
  moreover have "(s1 = s' \<and> (r = None \<longleftrightarrow> c = ROk)) \<or> (s' = s \<and> r \<noteq> None)"
    using assms(2) lua by (cases c) (auto simp: Cancel_def split: if_splits)
  ultimately show "ok s'" and "r = None \<Longrightarrow> i \<in> set (q s) \<and> q s' = filter (\<lambda>y. y \<noteq> i) (q s)"
    and "r \<noteq> None \<Longrightarrow> q s' = q s"
    using assms(1) by (auto split: if_splits)
qed

lemma claim_effect:
  assumes "ok s" and "claim v s t i = (s', b)"
  shows "ok s' \<and> b = (i \<in> set (q s)) \<and> q s' = filter (\<lambda>y. y \<noteq> i) (q s)"
  using assms store_ok_zrem [of cd "ks s" t i] queue_zrem [of "ks s" t i]
  by (auto simp: claim_def Let_def case_prod_beta ok_def q_def commands store_ok_def split: if_splits)

lemma read_effect:
  assumes "ok s" and "readByID v cd s t i = Inr ps"
  shows "ps_ID ps = i"
proof -
  from assms(2) obtain raw where "ks_str (ks s) t (companionKey i) = Some raw" and dec: "dec cd raw = Some ps"
    by (auto simp: readByID_def commands split: option.splits)
  then obtain e where "ks s (companionKey i) = Some (VStr raw, e)"
    by (auto simp: ks_str_def ks_live_def split: option.splits prod.splits vval.splits if_splits)
  with assms(1) obtain ps' where "raw = enc cd ps'" "ps_ID ps' = i"
    by (fastforce simp: ok_def store_ok_def companions_ok_def)
  with dec show ?thesis by simp
qed

lemma dispatched_effect: "ok s \<Longrightarrow> ok (markDispatched v s t i) \<and> q (markDispatched v s t i) = q s"
  by (simp add: markDispatched_def ok_def q_def commands store_ok_del)

lemma requeue_effect:
  "ok s \<Longrightarrow> ok (requeue us v cd s t now ps d)
     \<and> q (requeue us v cd s t now ps d) = (if ps_ID ps \<in> set (q s) then q s else q s @ [ps_ID ps])"
  using store_ok_enqueue [of cd "ks s" t "ps\<lparr>ps_DeadlineAt := d\<rparr>"]
  by (simp add: requeue_def Let_def ok_def q_def commands)

lemma failed_effect: "ok s \<Longrightarrow> ok (markFailed v cd s t ps e) \<and> q (markFailed v cd s t ps e) = q s"
  unfolding ok_def q_def by (rule store_ok_frame) (auto simp: markFailed_def Let_def commands ks_del_def other_keys)

lemma handleErr_effect:
  "ok s \<Longrightarrow> ok (handleErr us w v cd s t now ps e)
     \<and> (q (handleErr us w v cd s t now ps e) = q s
        \<or> q (handleErr us w v cd s t now ps e) = (if ps_ID ps \<in> set (q s) then q s else q s @ [ps_ID ps]))"
  using failed_effect [of s t ps e] requeue_effect [of s us t now ps] by (simp add: handleErr_def)

end

subsection \<open>Concurrent cancels, holds and workers\<close>

text \<open>
  Any number of API processes and dispatch workers share the store. A worker's \<open>process\<close> is
  several round trips, so other clients run between them; \<open>stage\<close> says how far a worker is with
  an id. \<open>undo_step\<close> interleaves the atomic commands and scripts of all of them, and a worker may
  crash at any stage. What a dispatch reports is not what Stalwart did: the worker posts the
  submission, \<^verbatim>\<open>InternalClient.Dispatch\<close> may post it again to the next shard, and every post
  stays in \<open>sys_wire\<close> until Stalwart accepts or refuses it, which may be after the worker
  gave up on it and took its time-out, a broken answer or a status above 500 for an error.
  \<open>sys_accepted\<close> lists the submissions Stalwart accepted, \<open>sys_cancelled\<close> the ids whose cancel was
  confirmed to the user, \<open>sys_used\<close> the UUIDs minted so far. Two records are kept for the
  statements only: \<open>sys_reposted\<close> has an entry per post after the first one of an attempt,
  \<open>sys_unclear\<close> one per attempt that ended with an error although a post of that id was accepted
  or still open.
\<close>

datatype stage = Claimed string | Loaded PendingSend | Posted PendingSend | Submitted string

fun stage_id :: "stage \<Rightarrow> string" where
  "stage_id (Claimed i) = i"
| "stage_id (Loaded ps) = ps_ID ps"
| "stage_id (Posted ps) = ps_ID ps"
| "stage_id (Submitted i) = i"

record 's undo_sys =
  sys_store :: 's
  sys_inflight :: "stage list"
  sys_wire :: "string list"
  sys_accepted :: "string list"
  sys_reposted :: "string list"
  sys_unclear :: "string list"
  sys_cancelled :: "string set"
  sys_used :: "string set"

inductive undo_step ::
    "undo_service \<Rightarrow> undo_worker \<Rightarrow> 's valkey \<Rightarrow> codec \<Rightarrow> 's undo_sys \<Rightarrow> 's undo_sys \<Rightarrow> bool"
  for us w v cd where
  step_hold: "u \<notin> sys_used y \<Longrightarrow> Hold us v cd (sys_store y) t now (Some u) hi = (s', Inr ps)
    \<Longrightarrow> undo_step us w v cd y (y\<lparr>sys_store := s', sys_used := insert u (sys_used y)\<rparr>)"
| step_cancel: "Cancel v cd (sys_store y) t i tenantID = (s', None)
    \<Longrightarrow> undo_step us w v cd y (y\<lparr>sys_store := s', sys_cancelled := insert i (sys_cancelled y)\<rparr>)"
| step_cancel_refused: "Cancel v cd (sys_store y) t i tenantID = (s', Some e)
    \<Longrightarrow> undo_step us w v cd y (y\<lparr>sys_store := s'\<rparr>)"
| step_claim: "claim v (sys_store y) t i = (s', True)
    \<Longrightarrow> undo_step us w v cd y (y\<lparr>sys_store := s', sys_inflight := Claimed i # sys_inflight y\<rparr>)"
| step_claim_lost: "claim v (sys_store y) t i = (s', False) \<Longrightarrow> undo_step us w v cd y (y\<lparr>sys_store := s'\<rparr>)"
| step_load: "sys_inflight y = xs @ Claimed i # ys \<Longrightarrow> readByID v cd (sys_store y) t i = Inr ps
    \<Longrightarrow> undo_step us w v cd y
          (y\<lparr>sys_inflight := xs @ Loaded (ps\<lparr>ps_Attempts := ps_Attempts ps + 1\<rparr>) # ys\<rparr>)"
| step_post: "sys_inflight y = xs @ Loaded ps # ys
    \<Longrightarrow> undo_step us w v cd y
          (y\<lparr>sys_inflight := xs @ Posted ps # ys, sys_wire := ps_ID ps # sys_wire y\<rparr>)"
| step_repost: "sys_inflight y = xs @ Posted ps # ys
    \<Longrightarrow> undo_step us w v cd y
          (y\<lparr>sys_wire := ps_ID ps # sys_wire y, sys_reposted := ps_ID ps # sys_reposted y\<rparr>)"
| step_accept: "sys_wire y = xs @ i # ys
    \<Longrightarrow> undo_step us w v cd y (y\<lparr>sys_wire := xs @ ys, sys_accepted := i # sys_accepted y\<rparr>)"
| step_refuse: "sys_wire y = xs @ i # ys \<Longrightarrow> undo_step us w v cd y (y\<lparr>sys_wire := xs @ ys\<rparr>)"
| step_submit: "sys_inflight y = xs @ Posted ps # ys
    \<Longrightarrow> undo_step us w v cd y (y\<lparr>sys_inflight := xs @ Submitted (ps_ID ps) # ys\<rparr>)"
| step_error: "sys_inflight y = xs @ st # ys \<Longrightarrow> st = Loaded ps \<or> st = Posted ps
    \<Longrightarrow> undo_step us w v cd y
          (y\<lparr>sys_store := handleErr us w v cd (sys_store y) t now ps e, sys_inflight := xs @ ys,
             sys_unclear := (if ps_ID ps \<in> set (sys_wire y) \<union> set (sys_accepted y) then [ps_ID ps] else []) @ sys_unclear y\<rparr>)"
| step_finish: "sys_inflight y = xs @ Submitted i # ys
    \<Longrightarrow> undo_step us w v cd y (y\<lparr>sys_store := markDispatched v (sys_store y) t i, sys_inflight := xs @ ys\<rparr>)"
| step_abandon: "sys_inflight y = xs @ st # ys \<Longrightarrow> undo_step us w v cd y (y\<lparr>sys_inflight := xs @ ys\<rparr>)"

inductive_cases undo_stepE: "undo_step us w v cd y y'"

definition undo_init :: "'s \<Rightarrow> 's undo_sys" where
  "undo_init s = \<lparr>sys_store = s, sys_inflight = [], sys_wire = [], sys_accepted = [], sys_reposted = [],
     sys_unclear = [], sys_cancelled = {}, sys_used = {}\<rparr>"

fun unposted :: "stage \<Rightarrow> bool" where
  "unposted (Claimed i) = True"
| "unposted (Loaded ps) = True"
| "unposted st = False"

text \<open>The posts of an id that Stalwart accepted or may still accept, and the excess an id is allowed.\<close>

definition posts :: "'s undo_sys \<Rightarrow> string \<Rightarrow> nat" where
  "posts y i = count_list (sys_accepted y) i + count_list (sys_wire y) i"

definition excess :: "'s undo_sys \<Rightarrow> string \<Rightarrow> nat" where
  "excess y i = count_list (sys_reposted y) i + count_list (sys_unclear y) i"

lemma posts_zero: "posts y i = 0 \<longleftrightarrow> i \<notin> set (sys_wire y) \<union> set (sys_accepted y)"
  by (auto simp: posts_def count_list_0_iff)

text \<open>
  The invariant over a list of queued ids: an id is in at most one of the queue and the workers'
  hands; a cancelled id is in none; an id that could be posted for the first time in an attempt
  has only the posts its reposts and unclear attempts account for, any other id one more.
\<close>

definition undo_inv :: "string list \<Rightarrow> 's undo_sys \<Rightarrow> bool" where
  "undo_inv qs y \<longleftrightarrow>
     distinct (qs @ map stage_id (sys_inflight y))
     \<and> set qs \<union> stage_id ` set (sys_inflight y) \<union> sys_cancelled y \<subseteq> sys_used y
     \<and> sys_cancelled y \<inter> (set qs \<union> stage_id ` set (sys_inflight y)) = {}
     \<and> (\<forall>i. i \<notin> sys_used y \<longrightarrow> posts y i = 0)
     \<and> (\<forall>i. posts y i \<le> 1 + excess y i)
     \<and> (\<forall>i\<in>set qs \<union> stage_id ` set (filter unposted (sys_inflight y)). posts y i \<le> excess y i)
     \<and> (\<forall>i\<in>set qs \<union> stage_id ` set (filter unposted (sys_inflight y)) \<union> sys_cancelled y. posts y i \<noteq> 0 \<longrightarrow> i \<in> set (sys_unclear y))"

context undo_queue
begin

lemma step_ok: "undo_step us w v cd y y' \<Longrightarrow> ok (sys_store y) \<Longrightarrow> ok (sys_store y')"
  by (induction rule: undo_step.induct)
    (auto dest: hold_effect cancel_effect(1) claim_effect simp: handleErr_effect dispatched_effect)

lemma undo_inv_shrink:
  assumes "undo_inv qs y" and "distinct (qs' @ map stage_id (sys_inflight y'))" and "set qs' \<subseteq> set qs"
    and "set (sys_inflight y') \<subseteq> set (sys_inflight y)" and "\<And>i. posts y' i \<le> posts y i"
    and "sys_reposted y' = sys_reposted y" and "sys_unclear y' = sys_unclear y"
    and "sys_cancelled y' = sys_cancelled y" and "sys_used y' = sys_used y"
  shows "undo_inv qs' y'"
proof -
  have ex: "excess y' = excess y" using assms(6,7) by (simp add: excess_def fun_eq_iff)
  have sub: "stage_id ` set (sys_inflight y') \<subseteq> stage_id ` set (sys_inflight y)"
    "stage_id ` set (filter unposted (sys_inflight y')) \<subseteq> stage_id ` set (filter unposted (sys_inflight y))"
    using assms(4) by auto
  have zero: "posts y' i = 0" if "posts y i = 0" for i using assms(5) [of i] that by simp
  have "\<forall>i. i \<notin> sys_used y' \<longrightarrow> posts y' i = 0" using assms(1,9) zero by (simp add: undo_inv_def)
  moreover have "\<forall>i. posts y' i \<le> 1 + excess y' i"
  proof
    fix i
    have "posts y i \<le> 1 + excess y i" using assms(1) by (simp add: undo_inv_def)
    with assms(5) [of i] show "posts y' i \<le> 1 + excess y' i" by (simp add: ex)
  qed
  moreover have "\<forall>i\<in>set qs' \<union> stage_id ` set (filter unposted (sys_inflight y')). posts y' i \<le> excess y' i"
  proof
    fix i assume "i \<in> set qs' \<union> stage_id ` set (filter unposted (sys_inflight y'))"
    with sub(2) assms(3) have "i \<in> set qs \<union> stage_id ` set (filter unposted (sys_inflight y))" by blast
    then have "posts y i \<le> excess y i" using assms(1) unfolding undo_inv_def by blast
    with assms(5) [of i] show "posts y' i \<le> excess y' i" by (simp add: ex)
  qed
  moreover have "\<forall>i\<in>set qs' \<union> stage_id ` set (filter unposted (sys_inflight y')) \<union> sys_cancelled y'.
      posts y' i \<noteq> 0 \<longrightarrow> i \<in> set (sys_unclear y')"
  proof (intro ballI impI)
    fix i assume "i \<in> set qs' \<union> stage_id ` set (filter unposted (sys_inflight y')) \<union> sys_cancelled y'" and "posts y' i \<noteq> 0"
    then have "i \<in> set qs \<union> stage_id ` set (filter unposted (sys_inflight y)) \<union> sys_cancelled y" and "posts y i \<noteq> 0"
      using sub(2) assms(3,8) zero [of i] by (blast, metis)
    then show "i \<in> set (sys_unclear y')" using assms(1,7) unfolding undo_inv_def by simp
  qed
  moreover have "set qs' \<union> stage_id ` set (sys_inflight y') \<union> sys_cancelled y' \<subseteq> sys_used y'"
    "sys_cancelled y' \<inter> (set qs' \<union> stage_id ` set (sys_inflight y')) = {}"
  proof -
    have "set qs \<union> stage_id ` set (sys_inflight y) \<union> sys_cancelled y \<subseteq> sys_used y"
      "sys_cancelled y \<inter> (set qs \<union> stage_id ` set (sys_inflight y)) = {}"
      using assms(1) by (simp_all add: undo_inv_def)
    with assms(3,8,9) sub(1) show "set qs' \<union> stage_id ` set (sys_inflight y') \<union> sys_cancelled y' \<subseteq> sys_used y'"
      "sys_cancelled y' \<inter> (set qs' \<union> stage_id ` set (sys_inflight y')) = {}"
      by blast+
  qed
  ultimately show ?thesis using assms(2) by (simp add: undo_inv_def)
qed

lemma undo_inv_distinct: "undo_inv qs y \<Longrightarrow> distinct (qs @ map stage_id (sys_inflight y))"
  by (simp add: undo_inv_def)

lemmas ghost_simps = undo_inv_def posts_def excess_def

lemma step_inv_store:
  assumes inv: "undo_inv (q (sys_store y)) y" and ok: "ok (sys_store y)"
  shows "Hold us v cd (sys_store y) t now (Some u) hi = (s', Inr ps) \<Longrightarrow> u \<notin> sys_used y
      \<Longrightarrow> undo_inv (q s') (y\<lparr>sys_store := s', sys_used := insert u (sys_used y)\<rparr>)"
    and "Cancel v cd (sys_store y) t i tenantID = (s', None)
      \<Longrightarrow> undo_inv (q s') (y\<lparr>sys_store := s', sys_cancelled := insert i (sys_cancelled y)\<rparr>)"
    and "claim v (sys_store y) t i = (s', True)
      \<Longrightarrow> undo_inv (q s') (y\<lparr>sys_store := s', sys_inflight := Claimed i # sys_inflight y\<rparr>)"
proof -
  assume h: "Hold us v cd (sys_store y) t now (Some u) hi = (s', Inr ps)" "u \<notin> sys_used y"
  have "u \<notin> set (q (sys_store y))" "u \<notin> stage_id ` set (sys_inflight y)" using inv h(2) by (auto simp: undo_inv_def)
  with hold_effect [OF ok h(1)] inv h(2) show "undo_inv (q s') (y\<lparr>sys_store := s', sys_used := insert u (sys_used y)\<rparr>)"
    by (auto simp: ghost_simps)
next
  assume c: "Cancel v cd (sys_store y) t i tenantID = (s', None)"
  from cancel_effect(2) [OF ok c] inv
  show "undo_inv (q s') (y\<lparr>sys_store := s', sys_cancelled := insert i (sys_cancelled y)\<rparr>)"
    by (auto simp: ghost_simps)
next
  assume c: "claim v (sys_store y) t i = (s', True)"
  from claim_effect [OF ok c] inv
  show "undo_inv (q s') (y\<lparr>sys_store := s', sys_inflight := Claimed i # sys_inflight y\<rparr>)"
    by (auto simp: ghost_simps)
qed

lemma undo_inv_hand:
  assumes "undo_inv qs y" and "sys_inflight y = xs @ st # ys"
  shows "stage_id st \<notin> set qs" "stage_id st \<notin> stage_id ` set xs" "stage_id st \<notin> stage_id ` set ys"
    "stage_id st \<in> sys_used y" "stage_id st \<notin> sys_cancelled y"
    "posts y (stage_id st) \<le> 1 + excess y (stage_id st)"
    "unposted st \<Longrightarrow> posts y (stage_id st) \<le> excess y (stage_id st)"
proof -
  note inv = assms(1) [unfolded undo_inv_def assms(2)]
  from inv show "stage_id st \<notin> set qs" "stage_id st \<notin> stage_id ` set xs" "stage_id st \<notin> stage_id ` set ys"
    "stage_id st \<in> sys_used y" "stage_id st \<notin> sys_cancelled y"
    by auto
  from inv show "posts y (stage_id st) \<le> 1 + excess y (stage_id st)" by blast
  assume "unposted st"
  with inv show "posts y (stage_id st) \<le> excess y (stage_id st)" by simp
qed

lemma step_inv_post:
  assumes inv: "undo_inv qs y" and fl: "sys_inflight y = xs @ st # ys"
  shows "st = Loaded ps \<Longrightarrow> undo_inv qs (y\<lparr>sys_inflight := xs @ Posted ps # ys, sys_wire := ps_ID ps # sys_wire y\<rparr>)"
    and "st = Posted ps
      \<Longrightarrow> undo_inv qs (y\<lparr>sys_wire := ps_ID ps # sys_wire y, sys_reposted := ps_ID ps # sys_reposted y\<rparr>)"
proof -
  assume st: "st = Loaded ps"
  from undo_inv_hand [OF inv fl] inv fl st
  show "undo_inv qs (y\<lparr>sys_inflight := xs @ Posted ps # ys, sys_wire := ps_ID ps # sys_wire y\<rparr>)"
    by (auto simp: ghost_simps)
next
  assume st: "st = Posted ps"
  from undo_inv_hand [OF inv fl] inv fl st
  show "undo_inv qs (y\<lparr>sys_wire := ps_ID ps # sys_wire y, sys_reposted := ps_ID ps # sys_reposted y\<rparr>)"
    by (auto simp: ghost_simps)
qed

lemma step_inv_error:
  assumes inv: "undo_inv qs y" and fl: "sys_inflight y = xs @ st # ys" and st: "st = Loaded ps \<or> st = Posted ps"
    and qs: "qs' = qs \<or> qs' = (if ps_ID ps \<in> set qs then qs else qs @ [ps_ID ps])"
  shows "undo_inv qs' (y\<lparr>sys_store := s', sys_inflight := xs @ ys,
    sys_unclear := (if ps_ID ps \<in> set (sys_wire y) \<union> set (sys_accepted y) then [ps_ID ps] else []) @ sys_unclear y\<rparr>)"
    (is "undo_inv qs' ?y")
proof -
  let ?i = "ps_ID ps"
  have id: "stage_id st = ?i" using st by auto
  note no = undo_inv_hand [OF inv fl, unfolded id]
  have "distinct (qs @ map stage_id (xs @ ys))" using undo_inv_distinct [OF inv] fl by auto
  moreover from qs no(1) have "qs' = qs \<or> qs' = qs @ [?i]" by simp
  ultimately have qs': "set qs' \<subseteq> insert ?i (set qs)" "distinct (qs' @ map stage_id (xs @ ys))"
    using no(1-3) by (elim disjE; force)+
  have posts: "posts ?y = posts y" by (simp add: posts_def fun_eq_iff)
  have ex: "excess y j \<le> excess ?y j" for j by (simp add: excess_def)
  have one: "posts y ?i \<le> excess ?y ?i"
  proof (cases "posts y ?i = 0")
    case False
    then have "excess ?y ?i = excess y ?i + 1" by (simp add: excess_def posts_zero)
    with inv show ?thesis by (simp add: undo_inv_def)
  qed simp
  have "\<forall>i. posts ?y i \<le> 1 + excess ?y i"
  proof
    fix i
    have "posts y i \<le> 1 + excess y i" using inv by (simp add: undo_inv_def)
    with ex [of i] show "posts ?y i \<le> 1 + excess ?y i" unfolding posts by linarith
  qed
  moreover have "\<forall>i\<in>set qs' \<union> stage_id ` set (filter unposted (xs @ ys)). posts ?y i \<le> excess ?y i"
  proof
    fix i assume "i \<in> set qs' \<union> stage_id ` set (filter unposted (xs @ ys))"
    then consider "i = ?i" | "i \<in> set qs \<union> stage_id ` set (filter unposted (sys_inflight y))"
      using qs'(1) fl by auto
    then show "posts ?y i \<le> excess ?y i"
    proof cases
      case 2
      then have "posts y i \<le> excess y i" using inv unfolding undo_inv_def by blast
      with ex [of i] show ?thesis unfolding posts by linarith
    qed (use one posts in simp)
  qed
  moreover have "\<forall>i\<in>set qs' \<union> stage_id ` set (filter unposted (xs @ ys)) \<union> sys_cancelled y. posts ?y i \<noteq> 0 \<longrightarrow> i \<in> set (sys_unclear ?y)"
    using inv fl qs'(1) unfolding posts undo_inv_def posts_zero by (auto simp: posts_zero)
  moreover have "set qs' \<union> stage_id ` set (xs @ ys) \<union> sys_cancelled y \<subseteq> sys_used y"
    "sys_cancelled y \<inter> (set qs' \<union> stage_id ` set (xs @ ys)) = {}"
    using inv fl no qs'(1) by (auto simp: undo_inv_def)
  moreover have "\<forall>i. i \<notin> sys_used y \<longrightarrow> posts ?y i = 0" using inv unfolding posts by (simp add: undo_inv_def)
  ultimately show ?thesis using qs'(2) by (simp add: undo_inv_def)
qed

lemma step_inv:
  assumes "undo_step us w v cd y y'" and ok: "ok (sys_store y)" and inv: "undo_inv (q (sys_store y)) y"
  shows "undo_inv (q (sys_store y')) y'"
  using assms(1)
proof (cases rule: undo_step.cases)
  case (step_hold u t now hi s' ps)
  with step_inv_store(1) [OF inv ok] show ?thesis by simp
next
  case (step_cancel t i tenantID s')
  with step_inv_store(2) [OF inv ok] show ?thesis by simp
next
  case (step_cancel_refused t i tenantID s' e)
  with cancel_effect(3) [OF ok step_cancel_refused(2)] inv show ?thesis by (simp add: ghost_simps)
next
  case (step_claim t i s')
  with step_inv_store(3) [OF inv ok] show ?thesis by simp
next
  case (step_claim_lost t i s')
  with claim_effect [OF ok step_claim_lost(2)] show ?thesis
    using inv by (intro undo_inv_shrink [OF inv]) (auto simp: posts_def undo_inv_def)
next
  case (step_load xs i ys t ps)
  with read_effect [OF ok step_load(3)] inv show ?thesis by (auto simp: ghost_simps)
next
  case (step_post xs ps ys)
  with step_inv_post(1) [OF inv step_post(2)] show ?thesis by simp
next
  case (step_repost xs ps ys)
  with step_inv_post(2) [OF inv step_repost(2)] show ?thesis by simp
next
  case (step_error xs st ys ps t now e)
  from handleErr_effect [OF ok, of us w t now ps e]
  show ?thesis unfolding step_error(1) by (intro step_inv_error [OF inv step_error(2,3)]) auto
next
  case (step_finish xs i ys t)
  with dispatched_effect [OF ok, of t i] show ?thesis
    using undo_inv_distinct [OF inv] by (intro undo_inv_shrink [OF inv]) (auto simp: posts_def)
next
  case (step_submit xs ps ys)
  with inv show ?thesis by (auto simp: ghost_simps)
next
  case (step_accept xs i ys)
  with undo_inv_distinct [OF inv] show ?thesis by (intro undo_inv_shrink [OF inv]) (auto simp: posts_def)
next
  case (step_refuse xs i ys)
  with undo_inv_distinct [OF inv] show ?thesis by (intro undo_inv_shrink [OF inv]) (auto simp: posts_def)
next
  case (step_abandon xs st ys)
  with undo_inv_distinct [OF inv] show ?thesis by (intro undo_inv_shrink [OF inv]) (auto simp: posts_def)
qed

lemma reachable_inv:
  assumes "(undo_step us w v cd)\<^sup>*\<^sup>* (undo_init s) y" and "ok s" and "q s = []"
  shows "ok (sys_store y) \<and> undo_inv (q (sys_store y)) y"
  using assms(1)
proof (induction rule: rtranclp_induct)
  case base
  then show ?case using assms(2,3) by (simp add: undo_init_def ghost_simps)
next
  case (step y y')
  then show ?case using step_ok step_inv by blast
qed

text \<open>The sequential code of a worker is a run of the step relation.\<close>

lemma process_steps:
  assumes "process us w v cd submit s t now i = (s', out)" and "sys_store y = s" and "ok s"
  shows "\<exists>y'. (undo_step us w v cd)\<^sup>*\<^sup>* y y' \<and> sys_store y' = s' \<and> sys_inflight y' = sys_inflight y
    \<and> sys_accepted y' = rev (map ps_ID (filter (\<lambda>ps. submit ps = None) out)) @ sys_accepted y
    \<and> sys_cancelled y' = sys_cancelled y \<and> sys_used y' = sys_used y"
proof -
  obtain s1 b where c: "claim v (sys_store y) t i = (s1, b)" by fastforce
  show ?thesis
  proof (cases b)
    case False
    then have "undo_step us w v cd y (y\<lparr>sys_store := s1\<rparr>)" using c by (intro step_claim_lost) simp
    moreover from False c assms(1,2) have "s' = s1" "out = []" by (simp_all add: process_def)
    ultimately show ?thesis by (intro exI [of _ "y\<lparr>sys_store := s1\<rparr>"] conjI r_into_rtranclp) simp_all
  next
    case True
    let ?y1 = "y\<lparr>sys_store := s1, sys_inflight := Claimed i # sys_inflight y\<rparr>"
    have st1: "undo_step us w v cd y ?y1" using c True by (intro step_claim) simp
    show ?thesis
    proof (cases "readByID v cd s1 t i")
      case (Inl e)
      have "undo_step us w v cd ?y1 (?y1\<lparr>sys_inflight := [] @ sys_inflight y\<rparr>)"
        by (rule step_abandon) simp
      with st1 have "(undo_step us w v cd)\<^sup>*\<^sup>* y (?y1\<lparr>sys_inflight := [] @ sys_inflight y\<rparr>)"
        by (rule converse_rtranclp_into_rtranclp [OF _ r_into_rtranclp])
      moreover from Inl True c assms(1,2) have "s' = s1" "out = []" by (simp_all add: process_def)
      ultimately show ?thesis by (intro exI [of _ "?y1\<lparr>sys_inflight := [] @ sys_inflight y\<rparr>"] conjI) simp_all
    next
      case (Inr ps0)
      define ps where "ps = ps0\<lparr>ps_Attempts := ps_Attempts ps0 + 1\<rparr>"
      let ?y2 = "?y1\<lparr>sys_inflight := [] @ Loaded ps # sys_inflight y\<rparr>"
      have st2: "undo_step us w v cd ?y1 ?y2"
        unfolding ps_def by (rule step_load) (use Inr in auto)
      have run2: "(undo_step us w v cd)\<^sup>*\<^sup>* y ?y2" using st1 st2
        by (rule converse_rtranclp_into_rtranclp [OF _ r_into_rtranclp])
      show ?thesis
      proof (cases "submit ps")
        case None
        let ?yp = "?y2\<lparr>sys_inflight := [] @ Posted ps # sys_inflight y, sys_wire := ps_ID ps # sys_wire ?y2\<rparr>"
        let ?ya = "?yp\<lparr>sys_wire := [] @ sys_wire y, sys_accepted := ps_ID ps # sys_accepted ?yp\<rparr>"
        let ?y3 = "?ya\<lparr>sys_inflight := [] @ Submitted (ps_ID ps) # sys_inflight y\<rparr>"
        let ?y4 = "?y3\<lparr>sys_store := markDispatched v (sys_store ?y3) t (ps_ID ps), sys_inflight := [] @ sys_inflight y\<rparr>"
        have "undo_step us w v cd ?y2 ?yp" by (rule step_post) simp
        moreover have "undo_step us w v cd ?yp ?ya" by (rule step_accept) simp
        moreover have "undo_step us w v cd ?ya ?y3" by (rule step_submit) simp
        moreover have "undo_step us w v cd ?y3 ?y4" by (rule step_finish) simp
        ultimately have "(undo_step us w v cd)\<^sup>*\<^sup>* y ?y4"
          by (intro rtranclp_trans [OF run2] run4)
        moreover from None Inr True c assms(1,2) have "s' = markDispatched v s1 t (ps_ID ps)" "out = [ps]"
          by (simp_all add: process_def ps_def Let_def)
        ultimately show ?thesis using None by (intro exI [of _ ?y4] conjI) simp_all
      next
        case (Some e)
        let ?y3 = "?y2\<lparr>sys_store := handleErr us w v cd (sys_store ?y2) t now ps e, sys_inflight := [] @ sys_inflight y,
          sys_unclear := (if ps_ID ps \<in> set (sys_wire ?y2) \<union> set (sys_accepted ?y2) then [ps_ID ps] else []) @ sys_unclear ?y2\<rparr>"
        have "undo_step us w v cd ?y2 ?y3" by (rule step_error [where st = "Loaded ps"]) simp_all
        with run2 have "(undo_step us w v cd)\<^sup>*\<^sup>* y ?y3" by (rule rtranclp.rtrancl_into_rtrancl)
        moreover from Some Inr True c assms(1,2) have "s' = handleErr us w v cd s1 t now ps e" "out = [ps]"
          by (simp_all add: process_def ps_def Let_def)
        ultimately show ?thesis using Some by (intro exI [of _ ?y3] conjI) simp_all
      qed
    qed
  qed
qed

text \<open>An id that nobody holds any more stays that way, and nothing more of it is posted.\<close>

definition released :: "string \<Rightarrow> 's undo_sys \<Rightarrow> bool" where
  "released u y \<longleftrightarrow> u \<in> sys_used y \<and> u \<notin> set (q (sys_store y)) \<and> u \<notin> stage_id ` set (sys_inflight y)"

lemma step_released:
  assumes "undo_step us w v cd y y'" and ok: "ok (sys_store y)" and rel: "released u y"
  shows "released u y' \<and> posts y' u \<le> posts y u"
  using assms(1)
proof (cases rule: undo_step.cases)
  case (step_hold u' t now hi s' ps)
  with hold_effect [OF ok step_hold(3)] rel show ?thesis by (auto simp: released_def posts_def split: if_splits)
next
  case (step_cancel t i tenantID s')
  with cancel_effect(2) [OF ok step_cancel(2)] rel show ?thesis by (auto simp: released_def posts_def)
next
  case (step_cancel_refused t i tenantID s' e)
  with cancel_effect(3) [OF ok step_cancel_refused(2)] rel show ?thesis by (auto simp: released_def posts_def)
next
  case (step_claim t i s')
  with claim_effect [OF ok step_claim(2)] rel show ?thesis by (auto simp: released_def posts_def)
next
  case (step_claim_lost t i s')
  with claim_effect [OF ok step_claim_lost(2)] rel show ?thesis by (auto simp: released_def posts_def)
next
  case (step_load xs i ys t ps)
  with read_effect [OF ok step_load(3)] rel show ?thesis by (auto simp: released_def posts_def)
next
  case (step_error xs st ys ps t now e)
  with handleErr_effect [OF ok, of us w t now ps e] rel show ?thesis by (auto simp: released_def posts_def split: if_splits)
next
  case (step_finish xs i ys t)
  with dispatched_effect [OF ok, of t i] rel show ?thesis by (auto simp: released_def posts_def)
qed (use rel in \<open>auto simp: released_def posts_def\<close>)

lemma steps_released:
  assumes "(undo_step us w v cd)\<^sup>*\<^sup>* y y'" and "ok (sys_store y)" and "released u y"
  shows "ok (sys_store y') \<and> released u y' \<and> posts y' u \<le> posts y u"
  using assms
proof (induction rule: rtranclp_induct)
  case (step y1 y2)
  then have "ok (sys_store y1)" "released u y1" "posts y1 u \<le> posts y u" by auto
  with step_ok [OF step(2)] step_released [OF step(2)] show ?case using le_trans by blast
qed simp

subsection \<open>A hold can be cancelled until its payload expires\<close>

lemma held_payload:
  assumes "Hold us v cd s t now (Some u) hi = (s', Inr ps)"
  shows "ks s' (companionKey u) = Some (VStr (enc cd ps),
           Some (t + milliseconds (if us_delay us + us_ttlSlack us \<le> 0 then us_ttlSlack us else us_delay us + us_ttlSlack us)))"
    and "ps_TenantID ps = hi_TenantID hi" and "ps_DeadlineAt ps = now + us_delay us" and "ps_Attempts ps = 0"
  using assms by (auto simp: Hold_def undo_write_def Let_def commands zadd_other ks_set_def split: option.splits)

lemma cancel_held:
  assumes ok: "ok s" and fresh: "u \<notin> set (q s)" and u: "trim_space u \<noteq> []" and t': "t' \<le> t + milliseconds (us_delay us + us_ttlSlack us)"
    and pos: "0 < us_delay us" "0 < us_ttlSlack us"
    and hold: "Hold us v cd s t now (Some u) hi = (s', Inr ps)"
  shows "Cancel v cd s' t' u tn =
    (if trim_space tn = [] then (s', Some ErrTenantRequired)
     else if tn \<noteq> hi_TenantID hi then (s', Some ErrTenantMismatch)
     else (vk_del v (fst (vk_zrem v s' t' sortedSetKey u)) t' (companionKey u), None))"
proof -
  have get: "vk_get v s' t' (companionKey u) = Some (enc cd ps)"
    using held_payload(1) [OF hold] pos t' by (simp add: commands ks_str_def ks_live_def)
  have "queue_ok (ks s')" and "u \<in> set (queue (ks s'))"
    using hold_effect [OF ok hold] by (auto simp: ok_def q_def store_ok_def)
  then have "snd (vk_zrem v s' t' sortedSetKey u) = 1" by (simp add: commands queue_zrem)
  then show ?thesis
    using get u held_payload(2) [OF hold] by (simp add: Cancel_def cancelLua_def Let_def case_prod_beta)
qed

lemma cancelled_is_gone:
  "readByID v cd (vk_del v s t (companionKey u)) t2 u = Inl ErrNotFound"
  by (simp add: readByID_def commands ks_simps)

subsection \<open>When a hold becomes due\<close>

lemma zrange_iff:
  assumes "int (length (ks_zset m t k)) \<le> n"
  shows "x \<in> set (ks_zrangebyscore m t k stop n) \<longleftrightarrow> (\<exists>sc. (x, sc) \<in> set (ks_zset m t k) \<and> sc \<le> stop)"
proof -
  let ?z = "filter (\<lambda>p. snd p \<le> stop) (ks_zset m t k)"
  have "length ?z \<le> nat n" using assms length_filter_le [of "\<lambda>p. snd p \<le> stop" "ks_zset m t k"] by linarith
  then have "ks_zrangebyscore m t k stop n = map fst (sort_key (\<lambda>p. (snd p, fst p)) ?z)"
    unfolding ks_zrangebyscore_def by simp
  then show ?thesis by force
qed

lemma zrange_due: "x \<in> set (ks_zrangebyscore m t k stop n) \<Longrightarrow> \<exists>sc. (x, sc) \<in> set (ks_zset m t k) \<and> sc \<le> stop"
  by (fastforce simp: ks_zrangebyscore_def dest!: in_set_takeD)

lemma zrange_length: "length (ks_zrangebyscore m t k stop n) \<le> nat n"
  by (simp add: ks_zrangebyscore_def)

lemma held_score:
  assumes ok: "ok s" and hold: "Hold us v cd s t now (Some u) hi = (s', Inr ps)"
  shows "(u, sc) \<in> set (ks_zset (ks s') t' sortedSetKey) \<longleftrightarrow> sc = unix_sec (ps_DeadlineAt ps)"
proof -
  let ?d = "unix_sec (ps_DeadlineAt ps)"
  define m where "m = ks_set (ks s) t (companionKey u) (enc cd ps)
    (Some (milliseconds (if us_delay us + us_ttlSlack us \<le> 0 then us_ttlSlack us else us_delay us + us_ttlSlack us)))"
  have "queue_ok m" using queue_frame [of m "ks s"] ok by (simp add: m_def ks_set_def ok_def store_ok_def)
  have "ks s' = ks_zadd m t sortedSetKey ?d u"
    using hold by (auto simp: Hold_def undo_write_def Let_def commands m_def split: option.splits)
  moreover have "(u, sc) \<in> set (ks_zset (ks_zadd m t sortedSetKey ?d u) t' sortedSetKey) \<longleftrightarrow> sc = ?d"
    using \<open>queue_ok m\<close>
  proof (cases rule: queue_cases)
    case 1
    then show ?thesis by (simp add: ks_zadd_def ks_live_def ks_zput_def ks_zset_def)
  next
    case (2 z)
    have ne: "AList.update u ?d z \<noteq> []" by (cases z) auto
    have "distinct (map fst (AList.update u ?d z))" using 2(3) by (rule distinct_update)
    then have "(u, sc) \<in> set (AList.update u ?d z) \<longleftrightarrow> map_of (AList.update u ?d z) u = Some sc" by simp
    with 2 ne show ?thesis by (auto simp: ks_zadd_def ks_live_def ks_zput_def ks_zset_def update_conv')
  qed
  ultimately show ?thesis by simp
qed

lemma due_sound:
  assumes "ok s" and "Hold us v cd s t now (Some u) hi = (s', Inr ps)" and "u \<in> set (dueIDs v s' t' now' n)"
  shows "unix_sec (ps_DeadlineAt ps) \<le> unix_sec now'"
proof -
  from assms(3) zrange_due obtain sc where "(u, sc) \<in> set (ks_zset (ks s') t' sortedSetKey)" "sc \<le> unix_sec now'"
    unfolding dueIDs_def commands by blast
  with held_score [OF assms(1,2)] show ?thesis by simp
qed

lemma due_complete:
  assumes "ok s" and "Hold us v cd s t now (Some u) hi = (s', Inr ps)"
    and "unix_sec (ps_DeadlineAt ps) \<le> unix_sec now'" and "int (length (q s')) \<le> n" and "0 < n"
  shows "u \<in> set (dueIDs v s' t' now' n)"
proof -
  have "queue_ok (ks s')" using hold_effect [OF assms(1,2)] by (simp add: ok_def store_ok_def)
  then have "length (ks_zset (ks s') t' sortedSetKey) = length (q s')" by (metis zset_queue length_map q_def)
  with assms(4) have len: "int (length (ks_zset (ks s') t' sortedSetKey)) \<le> n" by simp
  have "(u, unix_sec (ps_DeadlineAt ps)) \<in> set (ks_zset (ks s') t' sortedSetKey)"
    using held_score [OF assms(1,2)] by simp
  with assms(3,5) show ?thesis unfolding dueIDs_def commands using zrange_iff [OF len, of u "unix_sec now'"] by auto
qed

subsection \<open>The attempt budget\<close>

definition attempts_left :: "undo_worker \<Rightarrow> string \<Rightarrow> 's \<Rightarrow> nat" where
  "attempts_left w i s = (if i \<in> set (q s) then
     (case ks s (companionKey i) of Some (VStr raw, _) \<Rightarrow>
        (case dec cd raw of Some ps \<Rightarrow> nat (max 1 (w_maxAttempts w - ps_Attempts ps)) | None \<Rightarrow> 0)
      | _ \<Rightarrow> 0) else 0)"

lemma left_unqueued: "i \<notin> set (q s) \<Longrightarrow> attempts_left w i s = 0"
  by (simp add: attempts_left_def)

lemma process_budget:
  assumes ok: "ok s" and run: "process us w v cd submit s t now i = (s', out)"
  shows "ok s' \<and> length out + attempts_left w i s' \<le> attempts_left w i s"
proof -
  obtain s1 b where c: "claim v s t i = (s1, b)" by fastforce
  note eff = claim_effect [OF ok c]
  then have s1: "ok s1" "i \<notin> set (q s1)" by auto
  show ?thesis
  proof (cases "b \<and> (\<exists>ps. readByID v cd s1 t i = Inr ps)")
    case False
    then have "s' = s1 \<and> out = []" using run c by (cases b) (auto simp: process_def split: sum.splits)
    then show ?thesis using s1 by (simp add: left_unqueued)
  next
    case True
    then obtain ps0 where b: b and rd: "readByID v cd s1 t i = Inr ps0" by blast
    define ps where "ps = ps0\<lparr>ps_Attempts := ps_Attempts ps0 + 1\<rparr>"
    have id: "ps_ID ps = i" using read_effect [OF s1(1) rd] by (simp add: ps_def)
    from rd obtain raw e where "ks s1 (companionKey i) = Some (VStr raw, e)" "dec cd raw = Some ps0"
      by (auto simp: readByID_def commands ks_str_def ks_live_def split: option.splits prod.splits vval.splits if_splits)
    moreover have "ks s1 (companionKey i) = ks s (companionKey i)"
      using c by (auto simp: claim_def Let_def case_prod_beta commands zrem_other)
    ultimately have left: "attempts_left w i s = nat (max 1 (w_maxAttempts w - ps_Attempts ps0))"
      using b eff by (simp add: attempts_left_def)
    have out: "out = [ps]" and s': "s' = (case submit ps of None \<Rightarrow> markDispatched v s1 t i | Some e \<Rightarrow> handleErr us w v cd s1 t now ps e)"
      using run c b rd id by (auto simp: process_def ps_def Let_def split: option.splits)
    show ?thesis
    proof (cases "submit ps")
      case None
      with s' dispatched_effect [OF s1(1), of t i] s1(2) have "ok s'" "attempts_left w i s' = 0"
        by (simp_all add: left_unqueued)
      with out left show ?thesis by simp
    next
      case (Some e)
      show ?thesis
      proof (cases "ps_Attempts ps \<ge> w_maxAttempts w")
        case True
        with Some s' failed_effect [OF s1(1), of t ps e] s1(2) have "ok s'" "attempts_left w i s' = 0"
          by (simp_all add: left_unqueued handleErr_def)
        with out left show ?thesis by simp
      next
        case False
        then have req: "s' = requeue us v cd s1 t now ps (now + backoff (ps_Attempts ps))"
          using Some s' by (simp add: handleErr_def)
        then obtain x where "ks s' (companionKey i) = Some (VStr (enc cd (ps\<lparr>ps_DeadlineAt := now + backoff (ps_Attempts ps)\<rparr>)), x)"
          using id by (simp add: requeue_def Let_def commands zadd_other ks_set_def)
        then have "attempts_left w i s' \<le> nat (max 1 (w_maxAttempts w - ps_Attempts ps))"
          by (simp add: attempts_left_def)
        moreover have "ok s'" using req requeue_effect [OF s1(1)] by blast
        ultimately show ?thesis using out left False by (simp add: ps_def)
      qed
    qed
  qed
qed

end

interpretation uq: undo_queue ks_valkey "\<lambda>m. m" net_codec
  by (intro undo_queue.intro ks_valkey_server net_codec)

text \<open>Any number of workers processing one id, one after the other, at the given instants.\<close>

fun process_seq ::
    "undo_service \<Rightarrow> undo_worker \<Rightarrow> 's valkey \<Rightarrow> codec \<Rightarrow> (PendingSend \<Rightarrow> dispatch_error option)
     \<Rightarrow> 's \<Rightarrow> string \<Rightarrow> (int \<times> time) list \<Rightarrow> 's \<times> PendingSend list" where
  "process_seq us w v cd submit s i [] = (s, [])"
| "process_seq us w v cd submit s i ((t, now) # ts) =
     (let (s1, out1) = process us w v cd submit s t now i;
          (s2, out2) = process_seq us w v cd submit s1 i ts
      in (s2, out1 @ out2))"

context undo_queue
begin

lemma process_seq_budget:
  "ok s \<Longrightarrow> length (snd (process_seq us w v cd submit s i ts)) \<le> attempts_left w i s"
proof (induction ts arbitrary: s)
  case (Cons p ts)
  obtain t now where p: "p = (t, now)" by fastforce
  obtain s1 out1 where run: "process us w v cd submit s t now i = (s1, out1)" by fastforce
  from process_budget [OF Cons.prems run] Cons.IH [of s1] show ?case
    by (simp add: p run case_prod_beta)
qed simp

lemma held_left:
  assumes "ok s" and "Hold us v cd s t now (Some u) hi = (s', Inr ps)"
  shows "ok s' \<and> attempts_left w u s' \<le> nat (max 1 (w_maxAttempts w))"
  using hold_effect [OF assms] held_payload(1,4) [OF assms(2)] by (simp add: attempts_left_def)

lemma failed_list:
  assumes "ks s failedListKey = None \<or> (\<exists>l. ks s failedListKey = Some (VList l, None))"
  shows "ks_list (ks (markFailed v cd s t ps e)) t failedListKey
    = take 1000 (enc cd (ps\<lparr>ps_Status := StatusFailed, ps_LastError := Some e\<rparr>) # ks_list (ks s) t failedListKey)"
  using assms
  by (auto simp: markFailed_def Let_def commands ks_list_def ks_live_def ks_del_def ks_lpush_def ks_ltrim_def)

lemma failed_gone: "readByID v cd (markFailed v cd s t ps e) t2 (ps_ID ps) = Inl ErrNotFound"
  by (simp add: markFailed_def Let_def readByID_def commands ks_simps)

lemma requeued_payload:
  assumes "0 < us_ttlSlack us" and "now \<le> d"
  shows "readByID v cd (requeue us v cd s t now ps d) t (ps_ID ps) = Inr (ps\<lparr>ps_DeadlineAt := d\<rparr>)"
proof -
  have "0 \<le> milliseconds ((d - now) + us_ttlSlack us)"
    using assms by (simp add: milliseconds_def quot_nonneg)
  with assms show ?thesis by (simp add: requeue_def Let_def readByID_def commands ks_str_def ks_live_def zadd_other ks_set_def)
qed

end

lemma empty_store: "m sortedSetKey = None \<Longrightarrow> (\<And>i. m (companionKey i) = None) \<Longrightarrow> store_ok cd m \<and> queue m = []"
  by (simp add: store_ok_def queue_ok_def queue_def companions_ok_def)

subsection \<open>Properties\<close>

text \<open>
  C2: However holds, cancels and any number of dispatch workers interleave, whichever of them
  crash, and whatever Stalwart did with a submission before the worker saw an answer, an error or
  nothing: a pending send whose cancel was confirmed was accepted by Stalwart only if an earlier
  attempt of it had ended with an error although its post was accepted or still open, and after
  the cancel it is not posted again; Stalwart accepts a pending send at most once, plus once for
  every repeated post of one attempt (the failover of the internal client) and every such
  unclear attempt; and every id is in at most one of the queue and the workers' hands.\<close>

theorem cancelled_never_sent:
  assumes "valkey_server v ks" and "json_codec cd"
    and "ks s sortedSetKey = None" and "\<forall>i. ks s (companionKey i) = None"
    and "(undo_step us w v cd)\<^sup>*\<^sup>* (undo_init s) y"
  shows "sys_cancelled y \<inter> set (sys_accepted y) \<subseteq> set (sys_unclear y)
    \<and> (\<forall>i\<in>sys_cancelled y. \<forall>y'. (undo_step us w v cd)\<^sup>*\<^sup>* y y' \<longrightarrow> posts y' i \<le> posts y i)
    \<and> (\<forall>i. count_list (sys_accepted y) i \<le> 1 + count_list (sys_reposted y) i + count_list (sys_unclear y) i)
    \<and> distinct (queue (ks (sys_store y)) @ map stage_id (sys_inflight y))"
proof -
  note uq = undo_queue.intro [OF assms(1,2)]
  have "undo_queue.ok ks cd s" and "undo_queue.q ks s = []"
    using empty_store [of "ks s" cd] assms(3,4) by (simp_all add: undo_queue.ok_def [OF uq] undo_queue.q_def [OF uq])
  from undo_queue.reachable_inv [OF uq assms(5) this]
  have ok: "undo_queue.ok ks cd (sys_store y)" and inv: "undo_inv (queue (ks (sys_store y))) y"
    by (simp_all add: undo_queue.q_def [OF uq])
  have "i \<in> set (sys_unclear y)" if "i \<in> sys_cancelled y" "i \<in> set (sys_accepted y)" for i
  proof -
    have "posts y i \<noteq> 0" using that(2) by (simp add: posts_zero)
    with inv that(1) show ?thesis by (simp add: undo_inv_def)
  qed
  moreover have "posts y' i \<le> posts y i" if "i \<in> sys_cancelled y" "(undo_step us w v cd)\<^sup>*\<^sup>* y y'" for i y'
  proof -
    have "undo_queue.released ks i y"
      using inv that(1) by (auto simp: undo_inv_def undo_queue.released_def [OF uq] undo_queue.q_def [OF uq])
    with undo_queue.steps_released [OF uq that(2) ok] show ?thesis by blast
  qed
  moreover have "count_list (sys_accepted y) i \<le> 1 + count_list (sys_reposted y) i + count_list (sys_unclear y) i" for i
  proof -
    have "posts y i \<le> 1 + excess y i" using inv by (simp add: undo_inv_def)
    then show ?thesis by (simp add: posts_def excess_def)
  qed
  ultimately show ?thesis using inv by (auto simp: undo_inv_def)
qed

text \<open>
  A worker that dies between its claim and the submission loses the message: whatever runs
  afterwards, restarted workers included, a send of which nothing was posted before is never
  accepted by Stalwart.\<close>

theorem claimed_send_lost_on_crash:
  assumes "valkey_server v ks" and "json_codec cd"
    and "ks s sortedSetKey = None" and "\<forall>i. ks s (companionKey i) = None"
    and "(undo_step us w v cd)\<^sup>*\<^sup>* (undo_init s) y"
    and "sys_inflight y = xs @ Claimed i # ys" and "posts y i = 0"
    and "(undo_step us w v cd)\<^sup>*\<^sup>* (y\<lparr>sys_inflight := xs @ ys\<rparr>) y'"
  shows "i \<notin> set (sys_accepted y')"
proof -
  note uq = undo_queue.intro [OF assms(1,2)]
  have "undo_queue.ok ks cd s" and "undo_queue.q ks s = []"
    using empty_store [of "ks s" cd] assms(3,4) by (simp_all add: undo_queue.ok_def [OF uq] undo_queue.q_def [OF uq])
  note inv = undo_queue.reachable_inv [OF uq assms(5) this]
  let ?y = "y\<lparr>sys_inflight := xs @ ys\<rparr>"
  have "undo_queue.released ks i ?y"
    using inv assms(6) by (auto simp: undo_queue.released_def [OF uq] undo_inv_def)
  with undo_queue.steps_released [OF uq assms(8)] inv have "posts y' i \<le> posts ?y i" by simp
  moreover have "posts ?y i = 0" using assms(7) by (simp add: posts_def)
  ultimately show ?thesis by (simp add: posts_zero)
qed

text \<open>
  Until the payload expires, a cancel by the owning tenant succeeds, takes exactly that id off
  the queue and removes the payload, while another tenant's cancel and a cancel without tenant
  are refused and change nothing.\<close>

theorem undo_window_honoured:
  assumes "valkey_server v ks" and "json_codec cd" and "store_ok cd (ks s)"
    and "u \<notin> set (queue (ks s))" and "trim_space u \<noteq> []"
    and "0 < us_delay us" and "0 < us_ttlSlack us"
    and "Hold us v cd s t now (Some u) hi = (s', Inr ps)"
    and "t' \<le> t + milliseconds (us_delay us + us_ttlSlack us)"
  shows "(case Cancel v cd s' t' u (hi_TenantID hi) of (s2, r) \<Rightarrow>
            r = None \<and> queue (ks s2) = queue (ks s) \<and> (\<forall>t2. readByID v cd s2 t2 u = Inl ErrNotFound)
            \<and> Cancel v cd s2 t' u (hi_TenantID hi) = (s2, Some ErrAlreadySent))
    \<and> (\<forall>tn. tn \<noteq> hi_TenantID hi \<longrightarrow>
          Cancel v cd s' t' u tn = (s', Some (if trim_space tn = [] then ErrTenantRequired else ErrTenantMismatch)))"
proof -
  note uq = undo_queue.intro [OF assms(1,2)]
  have ok: "undo_queue.ok ks cd s" and fresh: "u \<notin> set (undo_queue.q ks s)"
    using assms(3,4) by (simp_all add: undo_queue.ok_def [OF uq] undo_queue.q_def [OF uq])
  have tn: "trim_space (hi_TenantID hi) \<noteq> []"
    using assms(8) by (auto simp: Hold_def validateHold_def split: option.splits if_splits)
  note cancel = undo_queue.cancel_held [OF uq ok fresh assms(5,9,6,7,8)]
  let ?s2 = "vk_del v (fst (vk_zrem v s' t' sortedSetKey u)) t' (companionKey u)"
  have ok': "undo_queue.ok ks cd s'" and q': "queue (ks s') = queue (ks s) @ [u]"
    using undo_queue.hold_effect [OF uq ok assms(8)] fresh by (simp_all add: undo_queue.q_def [OF uq])
  have c: "Cancel v cd s' t' u (hi_TenantID hi) = (?s2, None)" using cancel tn by simp
  from undo_queue.cancel_effect(2) [OF uq ok' c] have "queue (ks ?s2) = queue (ks s)"
    using q' assms(4) by (simp add: undo_queue.q_def [OF uq] filter_id_conv) metis
  moreover have gone: "readByID v cd ?s2 t2 u = Inl ErrNotFound" for t2
    by (rule undo_queue.cancelled_is_gone [OF uq])
  then have "vk_get v ?s2 t' (companionKey u) = None"
    using valkey_server.get [OF assms(1)] valkey_server.del [OF assms(1)] by (simp add: ks_simps)
  then have "Cancel v cd ?s2 t' u (hi_TenantID hi) = (?s2, Some ErrAlreadySent)"
    using tn assms(5) by (simp add: Cancel_def cancelLua_def)
  ultimately show ?thesis using c cancel gone by simp
qed

text \<open>
  A hold is offered to the dispatch worker exactly when the clock's second has reached the
  second of its deadline, as long as the batch covers the queue, so never more than a second
  before the deadline and always from the deadline on.\<close>

theorem hold_due_at_deadline:
  assumes "valkey_server v ks" and "json_codec cd" and "store_ok cd (ks s)"
    and "Hold us v cd s t now (Some u) hi = (s', Inr ps)"
    and "int (length (queue (ks s'))) \<le> n" and "0 < n"
  shows "(u \<in> set (dueIDs v s' t' now' n) \<longleftrightarrow> unix_sec (now + us_delay us) \<le> unix_sec now')
    \<and> (now + us_delay us \<le> now' \<longrightarrow> u \<in> set (dueIDs v s' t' now' n))
    \<and> (u \<in> set (dueIDs v s' t' now' n) \<longrightarrow> now + us_delay us < now' + nanos_per_s)"
proof -
  note uq = undo_queue.intro [OF assms(1,2)]
  have ok: "undo_queue.ok ks cd s" using assms(3) by (simp add: undo_queue.ok_def [OF uq])
  have d: "ps_DeadlineAt ps = now + us_delay us" by (rule undo_queue.held_payload(3) [OF uq assms(4)])
  have "u \<in> set (dueIDs v s' t' now' n) \<longleftrightarrow> unix_sec (now + us_delay us) \<le> unix_sec now'"
    using undo_queue.due_sound [OF uq ok assms(4)] undo_queue.due_complete [OF uq ok assms(4)] assms(5,6)
    unfolding d undo_queue.q_def [OF uq] by blast
  moreover have "a < b + nanos_per_s" if "unix_sec a \<le> unix_sec b" for a b
    using that unfolding unix_sec_def by linarith
  ultimately show ?thesis using unix_sec_mono by blast
qed

text \<open>
  However often and by however many workers a held send is processed, it is handed to Stalwart
  at most \<^verbatim>\<open>maxAttempts\<close> times.\<close>

theorem attempt_budget:
  assumes "valkey_server v ks" and "json_codec cd" and "store_ok cd (ks s)"
    and "Hold us v cd s t now (Some u) hi = (s', Inr ps)" and "1 \<le> w_maxAttempts w"
  shows "int (length (snd (process_seq us w v cd submit s' u ts))) \<le> w_maxAttempts w"
proof -
  note uq = undo_queue.intro [OF assms(1,2)]
  have ok: "undo_queue.ok ks cd s" using assms(3) by (simp add: undo_queue.ok_def [OF uq])
  from undo_queue.held_left [OF uq ok assms(4), of w]
  have "undo_queue.ok ks cd s'" and "undo_queue.attempts_left ks cd w u s' \<le> nat (max 1 (w_maxAttempts w))" by auto
  with undo_queue.process_seq_budget [OF uq, of s' us w submit u ts] assms(5) show ?thesis by linarith
qed

text \<open>
  A failed submission is either kept for retry, at most thirty seconds later and with its
  attempt counted, or, once the budget is used up, moved to the head of the dead-letter list, which
  never exceeds a thousand entries, with its payload removed.\<close>

theorem failed_submission_handling:
  assumes "valkey_server v ks" and "json_codec cd" and "0 < us_ttlSlack us" and "0 \<le> ps_Attempts ps"
    and "ks s failedListKey = None \<or> (\<exists>l. ks s failedListKey = Some (VList l, None))"
  shows "let s' = handleErr us w v cd s t now ps e in
    if ps_Attempts ps \<ge> w_maxAttempts w
    then ks_list (ks s') t failedListKey
           = take 1000 (enc cd (ps\<lparr>ps_Status := StatusFailed, ps_LastError := Some e\<rparr>) # ks_list (ks s) t failedListKey)
         \<and> readByID v cd s' t (ps_ID ps) = Inl ErrNotFound
    else \<exists>d. now \<le> d \<and> d \<le> now + 30 * nanos_per_s \<and> readByID v cd s' t (ps_ID ps) = Inr (ps\<lparr>ps_DeadlineAt := d\<rparr>)"
proof -
  note uq = undo_queue.intro [OF assms(1,2)]
  have "0 \<le> backoff (ps_Attempts ps)" and "backoff (ps_Attempts ps) \<le> 30 * nanos_per_s"
    using assms(4) by (simp_all add: backoff_def Let_def)
  then show ?thesis
    using undo_queue.failed_list [OF uq assms(5)] undo_queue.failed_gone [OF uq]
      undo_queue.requeued_payload [OF uq assms(3), of now "now + backoff (ps_Attempts ps)" s t ps]
    by (auto simp: handleErr_def Let_def intro!: exI [of _ "now + backoff (ps_Attempts ps)"])
qed

subsection \<open>A concrete scenario\<close>

text \<open>
  Tenant \<^verbatim>\<open>acme\<close> holds message \<^verbatim>\<open>a\<close> at 0.9 seconds, with the default delay of ten seconds, and
  message \<^verbatim>\<open>b\<close> right after it.
\<close>

definition ex_us :: undo_service where
  "ex_us = \<lparr>us_delay = 10 * nanos_per_s, us_maxDelay = 300 * nanos_per_s, us_ttlSlack = 300 * nanos_per_s\<rparr>"

definition ex_w :: undo_worker where
  "ex_w = \<lparr>w_maxBatch = 50, w_maxAttempts = 3\<rparr>"

definition ex_hold :: HoldInput where
  "ex_hold = \<lparr>hi_TenantID = ''acme'', hi_KChatUserID = ''u1'', hi_StalwartAccountID = ''acc'', hi_CreateID = [],
     hi_EmailID = ''e1'', hi_IdentityID = [], hi_SubmissionPayload = ''{}''\<rparr>"

definition ex_ps :: "string \<Rightarrow> PendingSend" where
  "ex_ps u = \<lparr>ps_ID = u, ps_TenantID = ''acme'', ps_KChatUserID = ''u1'', ps_StalwartAccountID = ''acc'', ps_CreateID = [],
     ps_EmailID = ''e1'', ps_IdentityID = [], ps_SubmissionPayload = ''{}'', ps_Status = StatusPending,
     ps_CreatedAt = 900000000, ps_DeadlineAt = 10900000000, ps_Attempts = 0, ps_LastError = None\<rparr>"

definition ex_put :: "keyspace \<Rightarrow> string \<Rightarrow> keyspace" where
  "ex_put m u = undo_write ex_us ks_valkey net_codec m 0 900000000 (ex_ps u)"

abbreviation ex_store :: keyspace where
  "ex_store \<equiv> ex_put Map.empty ''a''"

lemma ex_held: "Hold ex_us ks_valkey net_codec m 0 900000000 (Some u) ex_hold = (ex_put m u, Inr (ex_ps u))"
  by (simp add: Let_def Hold_def ex_hold_def validateHold_def trim_space_def is_space_def ex_ps_def ex_us_def ex_put_def)

lemma ex_empty [simp]: "store_ok cd Map.empty" "queue Map.empty = []"
  using empty_store [of Map.empty cd] by simp_all

lemma ex_put_store: "store_ok net_codec m \<Longrightarrow> u \<notin> set (queue m) \<Longrightarrow> store_ok net_codec (ex_put m u) \<and> queue (ex_put m u) = queue m @ [u]"
  using uq.hold_effect [OF _ ex_held, of m u] by (simp add: uq.ok_def uq.q_def)

lemma ex_put_read: "ex_put m u (companionKey u) = Some (VStr (enc net_codec (ex_ps u)), Some 310000)"
  using uq.held_payload(1) [OF ex_held, of m u] by (simp add: ex_us_def milliseconds_def quot_nonneg)

lemma ex_put_other: "u \<noteq> u' \<Longrightarrow> ex_put m u (companionKey u') = m (companionKey u')"
  by (simp add: ex_put_def undo_write_def Let_def ks_valkey_def zadd_other ks_set_def ex_ps_def)

lemma ex_claim:
  assumes "store_ok net_codec m" and "u \<in> set (queue m)"
  shows "claim ks_valkey m t u = (fst (ks_zrem m t sortedSetKey u), True)"
  using assms queue_zrem(3) [of m t u]
  by (simp add: claim_def ks_valkey_def Let_def case_prod_beta store_ok_def)

lemma ex_process:
  assumes "store_ok net_codec m" and "u \<in> set (queue m)" and "0 \<le> t" and "t \<le> 310000"
    and "m (companionKey u) = Some (VStr (enc net_codec (ex_ps u)), Some 310000)"
  shows "process ex_us ex_w ks_valkey net_codec (\<lambda>_. None) m t now u
    = (ks_del (fst (ks_zrem m t sortedSetKey u)) t (companionKey u), [(ex_ps u)\<lparr>ps_Attempts := 1\<rparr>])"
proof -
  have "readByID ks_valkey net_codec (fst (ks_zrem m t sortedSetKey u)) t u = Inr (ex_ps u)"
    using assms by (simp add: readByID_def ks_valkey_def ks_str_def ks_live_def zrem_other)
  then show ?thesis
    by (simp add: process_def ex_claim [OF assms(1,2)] markDispatched_def ref.del ex_ps_def Let_def)
qed

lemma ex_run:
  "\<exists>y. (undo_step ex_us ex_w ks_valkey net_codec)\<^sup>*\<^sup>* (undo_init Map.empty) y
     \<and> sys_cancelled y = {''a''} \<and> sys_accepted y = [''b'']"
proof -
  let ?step = "undo_step ex_us ex_w ks_valkey net_codec"
  let ?m = "ex_put ex_store ''b''"
  let ?y0 = "undo_init Map.empty :: keyspace undo_sys"
  let ?y1 = "?y0\<lparr>sys_store := ex_store, sys_used := insert ''a'' (sys_used ?y0)\<rparr>"
  let ?y2 = "?y1\<lparr>sys_store := ?m, sys_used := insert ''b'' (sys_used ?y1)\<rparr>"
  have m: "store_ok net_codec ?m" "queue ?m = [''a'', ''b'']"
    using ex_put_store [of Map.empty "''a''"] ex_put_store [of ex_store "''b''"] by simp_all
  have "?step ?y0 ?y1" by (rule step_hold) (simp_all add: undo_init_def, rule ex_held)
  moreover have "?step ?y1 ?y2" by (rule step_hold) (simp_all add: undo_init_def, rule ex_held)
  moreover obtain s' where c: "Cancel ks_valkey net_codec ?m 5000 ''a'' ''acme'' = (s', None)"
    and s': "s' = ks_del (fst (ks_zrem ?m 5000 sortedSetKey ''a'')) 5000 (companionKey ''a'')"
  proof -
    have "ks_str ?m 5000 (companionKey ''a'') = Some (enc net_codec (ex_ps ''a''))"
      by (simp add: ks_str_def ks_live_def ex_put_other ex_put_read)
    then show ?thesis using that m queue_zrem(3) [of ?m 5000 "''a''"]
      by (simp add: Cancel_def cancelLua_def trim_space_def is_space_def ks_valkey_def Let_def case_prod_beta
          store_ok_def ex_ps_def)
  qed
  let ?y3 = "?y2\<lparr>sys_store := s', sys_cancelled := insert ''a'' (sys_cancelled ?y2)\<rparr>"
  have "?step ?y2 ?y3" by (rule step_cancel [where t = 5000]) (use c in simp)
  ultimately have run3: "?step\<^sup>*\<^sup>* ?y0 ?y3"
    by (intro converse_rtranclp_into_rtranclp [of ?step ?y0 ?y1] converse_rtranclp_into_rtranclp [of ?step ?y1 ?y2] r_into_rtranclp)
  have ok': "store_ok net_codec s'" "queue s' = [''b'']"
    using uq.cancel_effect [OF _ c] m by (simp_all add: uq.ok_def uq.q_def)
  have "s' (companionKey ''b'') = Some (VStr (enc net_codec (ex_ps ''b'')), Some 310000)"
    unfolding s' by (simp add: ks_del_def zrem_other ex_put_read)
  from uq.process_steps [OF ex_process [OF ok'(1) _ _ _ this, of 11000 undefined], of ?y3] ok'
  obtain y where "?step\<^sup>*\<^sup>* ?y3 y" and "sys_accepted y = [''b'']" and "sys_cancelled y = {''a''}"
    by (auto simp: uq.ok_def ex_ps_def undo_init_def)
  with run3 show ?thesis by (meson rtranclp_trans)
qed

theorem cancelled_never_sent_witness:
  "\<exists>y. (undo_step ex_us ex_w ks_valkey net_codec)\<^sup>*\<^sup>* (undo_init Map.empty) y
     \<and> sys_cancelled y = {''a''} \<and> sys_accepted y = [''b'']
     \<and> (\<forall>y'. (undo_step ex_us ex_w ks_valkey net_codec)\<^sup>*\<^sup>* y y' \<longrightarrow> posts y' ''a'' \<le> posts y ''a'')"
proof -
  from ex_run obtain y where y: "(undo_step ex_us ex_w ks_valkey net_codec)\<^sup>*\<^sup>* (undo_init Map.empty) y"
    "sys_cancelled y = {''a''}" "sys_accepted y = [''b'']" by blast
  from cancelled_never_sent [OF ks_valkey_server net_codec _ _ y(1)] y(2)
  have "\<forall>y'. (undo_step ex_us ex_w ks_valkey net_codec)\<^sup>*\<^sup>* y y' \<longrightarrow> posts y' ''a'' \<le> posts y ''a''" by simp
  with y show ?thesis by blast
qed

theorem claimed_send_lost_on_crash_witness:
  "\<exists>y y'. (undo_step ex_us ex_w ks_valkey net_codec)\<^sup>*\<^sup>* (undo_init Map.empty) y
     \<and> sys_inflight y = [Claimed ''a''] \<and> y' = y\<lparr>sys_inflight := []\<rparr>
     \<and> (\<forall>y''. (undo_step ex_us ex_w ks_valkey net_codec)\<^sup>*\<^sup>* y' y'' \<longrightarrow> ''a'' \<notin> set (sys_accepted y''))"
proof -
  let ?step = "undo_step ex_us ex_w ks_valkey net_codec"
  let ?y0 = "undo_init Map.empty :: keyspace undo_sys"
  let ?y1 = "?y0\<lparr>sys_store := ex_store, sys_used := insert ''a'' (sys_used ?y0)\<rparr>"
  let ?y2 = "?y1\<lparr>sys_store := fst (ks_zrem ex_store 0 sortedSetKey ''a''), sys_inflight := Claimed ''a'' # sys_inflight ?y1\<rparr>"
  have "?step ?y0 ?y1" by (rule step_hold) (simp_all add: undo_init_def, rule ex_held)
  moreover have "?step ?y1 ?y2"
    by (rule step_claim [where t = 0]) (use ex_put_store [of Map.empty "''a''"] in \<open>simp add: ex_claim\<close>)
  ultimately have run: "?step\<^sup>*\<^sup>* ?y0 ?y2"
    by (rule converse_rtranclp_into_rtranclp [OF _ r_into_rtranclp])
  have "''a'' \<notin> set (sys_accepted y'')" if "?step\<^sup>*\<^sup>* (?y2\<lparr>sys_inflight := [] @ []\<rparr>) y''" for y''
    by (rule claimed_send_lost_on_crash [OF ks_valkey_server net_codec _ _ run _ _ that]) (simp_all add: undo_init_def posts_def)
  with run show ?thesis by (intro exI [of _ ?y2] exI [of _ "?y2\<lparr>sys_inflight := []\<rparr>"]) (auto simp: undo_init_def)
qed

theorem undo_window_honoured_witness:
  "snd (Cancel ks_valkey net_codec ex_store 5000 ''a'' ''acme'') = None
   \<and> Cancel ks_valkey net_codec ex_store 5000 ''a'' ''evil'' = (ex_store, Some ErrTenantMismatch)"
  using undo_window_honoured [OF ks_valkey_server net_codec _ _ _ _ _ ex_held, of Map.empty "''a''" 5000]
  by (auto simp: ex_us_def ex_hold_def trim_space_def is_space_def milliseconds_def quot_nonneg split: prod.splits)

theorem hold_due_at_deadline_witness:
  "''a'' \<in> set (dueIDs ks_valkey ex_store 11000 11000000000 50) \<and> ''a'' \<notin> set (dueIDs ks_valkey ex_store 9000 9000000000 50)"
  using hold_due_at_deadline [OF ks_valkey_server net_codec _ ex_held, of Map.empty "''a''" 50 11000 11000000000]
    hold_due_at_deadline [OF ks_valkey_server net_codec _ ex_held, of Map.empty "''a''" 50 9000 9000000000]
    ex_put_store [of Map.empty "''a''"]
  by (simp add: ex_us_def unix_sec_def)

theorem attempt_budget_witness:
  "int (length (snd (process_seq ex_us ex_w ks_valkey net_codec (\<lambda>_. Some MissingResponse) ex_store ''a''
     [(11000, 11000000000), (16000, 16000000000), (36000, 36000000000), (66000, 66000000000)]))) \<le> 3"
proof -
  have w: "w_maxAttempts ex_w = 3" by (simp add: ex_w_def)
  show ?thesis by (rule attempt_budget [OF ks_valkey_server net_codec _ ex_held, of Map.empty ex_w, unfolded w]) simp_all
qed

theorem failed_submission_handling_witness:
  "ks_list (handleErr ex_us ex_w ks_valkey net_codec ex_store 0 0 ((ex_ps ''a'')\<lparr>ps_Attempts := 3\<rparr>) MissingResponse) 0 failedListKey
     = [enc net_codec ((ex_ps ''a'')\<lparr>ps_Attempts := 3, ps_Status := StatusFailed, ps_LastError := Some MissingResponse\<rparr>)]"
proof -
  have "ex_store failedListKey = None"
    by (simp add: ex_put_def undo_write_def ks_valkey_def zadd_other ks_set_def Let_def)
  then show ?thesis
    using failed_submission_handling [OF ks_valkey_server net_codec, of ex_us "(ex_ps ''a'')\<lparr>ps_Attempts := 3\<rparr>" ex_store ex_w 0 0 MissingResponse]
    by (simp add: ex_us_def ex_w_def ks_list_def ks_live_def Let_def)
qed

text \<open>
  With the default delay, a message held at 0.9 seconds (deadline 10.9) is due at 10.0 seconds
  and a worker running then submits it, 0.9 seconds before its undo deadline.\<close>

theorem dispatched_before_deadline:
  "snd (Tick ex_us ex_w ks_valkey net_codec (\<lambda>_. None) ex_store 10000 10000000000) = [(ex_ps ''a'')\<lparr>ps_Attempts := 1\<rparr>]
   \<and> 10000000000 < ps_DeadlineAt (ex_ps ''a'')"
proof -
  have "ks_zset ex_store 10000 sortedSetKey = [(''a'', 10)]"
    by (simp add: ex_put_def undo_write_def ks_valkey_def ks_zset_def ks_live_def ks_zadd_def ks_zput_def ks_set_def
        Let_def ex_ps_def unix_sec_def)
  then have "dueIDs ks_valkey ex_store 10000 10000000000 50 = [''a'']"
    by (simp add: dueIDs_def ks_valkey_def ks_zrangebyscore_def unix_sec_def)
  then show ?thesis
    using ex_process [of ex_store "''a''" 10000 10000000000] ex_put_store [of Map.empty "''a''"] ex_put_read [of Map.empty "''a''"]
    by (simp add: Tick_def ex_w_def ex_ps_def)
qed

end
