(* ===== verification/AuditLog.thy ===== *)
theory AuditLog
  imports Prelude "HOL-Library.Product_Lexorder" "HOL-Library.List_Lexorder" "HOL-Library.Char_ord" "HOL-Library.Multiset"
begin

text \<open>
  The hash-chained audit log of \<^verbatim>\<open>internal/audit/audit.go\<close>. The table is the list of its rows in
  the order of \<^verbatim>\<open>seq\<close>, an append is one transaction under the per-tenant advisory lock. What the
  code takes from elsewhere is an argument: \<open>sha\<close> (SHA-256 and hex), and an environment with the
  JSON encoder, the round trip of a metadata object through a \<^verbatim>\<open>jsonb\<close> column, \<^verbatim>\<open>net.ParseIP\<close>
  with \<^verbatim>\<open>String\<close>, the round trip of an address through an \<^verbatim>\<open>inet\<close> column and the cast of a text to
  \<^verbatim>\<open>uuid\<close> and back.
\<close>

subsection \<open>Data\<close>

datatype audit_error =
    ErrInvalidInput string | ErrChainPrev string | ErrChainHash string | ErrDatabase | ErrUnknownFormat string

record 'j Entry =
  e_TenantID :: string
  e_ActorID :: string
  e_ActorType :: string
  e_Action :: string
  e_ResourceType :: string
  e_ResourceID :: string
  e_Metadata :: "(string \<times> 'j) list"
  e_IPAddress :: string
  e_UserAgent :: string
  e_ID :: string
  e_PrevHash :: string
  e_EntryHash :: string
  e_CreatedAt :: time

text \<open>A row as stored: the nullable columns are options, \<open>r_metadata\<close> is the \<^verbatim>\<open>jsonb\<close> value.\<close>

record 'j audit_row =
  r_id :: string
  r_tenant_id :: string
  r_actor_id :: string
  r_actor_type :: string
  r_action :: string
  r_resource_type :: string
  r_resource_id :: "string option"
  r_metadata :: "(string \<times> 'j) list"
  r_ip_address :: "string option"
  r_user_agent :: "string option"
  r_prev_hash :: string
  r_entry_hash :: string
  r_created_at :: time

record 'j audit_env =
  env_json_key :: "string \<Rightarrow> string"
  env_json_value :: "'j \<Rightarrow> string"
  env_jsonb :: "(string \<times> 'j) list \<Rightarrow> (string \<times> 'j) list"
  env_parse_ip :: "string \<Rightarrow> string option"
  env_inet_host :: "string \<Rightarrow> string"
  env_uuid :: "string \<Rightarrow> string option"

record QueryFilters =
  f_Action :: string
  f_ActorID :: string
  f_ResourceType :: string
  f_Since :: "time option"
  f_Until :: "time option"
  f_Limit :: int
  f_Offset :: int

subsection \<open>The hash\<close>

definition nullString :: "string \<Rightarrow> string option" where
  "nullString x = (if x = [] then None else Some x)"

definition canonicalJSON :: "'j audit_env \<Rightarrow> (string \<times> 'j) list \<Rightarrow> string" where
  "canonicalJSON env m =
     (if m = [] then ''{}''
      else CHR ''{'' # join_with (CHR '','')
             (map (\<lambda>(k, x). env_json_key env k @ CHR '':'' # env_json_value env x) (sort_key fst m)) @ ''}'')"

definition hash_input :: "'j audit_env \<Rightarrow> string \<Rightarrow> 'j Entry \<Rightarrow> string" where
  "hash_input env prev e =
     prev @ CHR ''|'' # e_TenantID e @ CHR ''|'' # e_ActorID e @ CHR ''|'' # e_ActorType e @ CHR ''|'' # e_Action e
       @ CHR ''|'' # e_ResourceType e @ CHR ''|'' # e_ResourceID e @ CHR ''|'' # canonicalJSON env (e_Metadata e)
       @ CHR ''|'' # e_IPAddress e @ CHR ''|'' # e_UserAgent e"

definition computeHash :: "(string \<Rightarrow> string) \<Rightarrow> 'j audit_env \<Rightarrow> string \<Rightarrow> 'j Entry \<Rightarrow> string" where
  "computeHash sha env prev e = sha (hash_input env prev e)"

subsection \<open>Appending\<close>

text \<open>
  The row-level security policy of \<^verbatim>\<open>audit_log\<close> admits a row only if the text of its tenant is the
  tenant the transaction announced, the column check restricts the actor type, and migration 011
  makes \<open>(tenant_id, prev_hash)\<close> unique; a violation rolls the transaction back. \<open>nid\<close> and \<open>now\<close> are the
  defaults of \<^verbatim>\<open>id\<close> and \<^verbatim>\<open>created_at\<close>, \<open>known\<close> says whether the tenant exists.
\<close>

definition tenant_rows :: "string \<Rightarrow> 'j audit_row list \<Rightarrow> 'j audit_row list" where
  "tenant_rows tid rows = filter (\<lambda>r. r_tenant_id r = tid) rows"

definition tail_hash :: "string \<Rightarrow> 'j audit_row list \<Rightarrow> string" where
  "tail_hash tid rows = (case rev (tenant_rows tid rows) of [] \<Rightarrow> [] | r # _ \<Rightarrow> r_entry_hash r)"

definition normalise_ip :: "'j audit_env \<Rightarrow> string \<Rightarrow> string" where
  "normalise_ip env ip = (if ip = [] then [] else case env_parse_ip env ip of Some p \<Rightarrow> p | None \<Rightarrow> [])"

definition audit_Log ::
    "(string \<Rightarrow> string) \<Rightarrow> 'j audit_env \<Rightarrow> (string \<Rightarrow> bool) \<Rightarrow> 'j audit_row list option \<Rightarrow> string \<Rightarrow> time \<Rightarrow> 'j Entry
     \<Rightarrow> 'j audit_row list option \<times> (audit_error + 'j Entry)" where
  "audit_Log sha env known pool nid now e =
     (if e_TenantID e = [] \<or> e_Action e = [] \<or> e_ActorType e = []
      then (pool, Inl (ErrInvalidInput ''tenantID, action, and actorType required''))
      else case pool of
          None \<Rightarrow> (None, Inr (e\<lparr>e_EntryHash := computeHash sha env [] e, e_CreatedAt := now\<rparr>))
        | Some rows \<Rightarrow>
            (case env_uuid env (e_TenantID e) of
               None \<Rightarrow> (pool, Inl ErrDatabase)
             | Some tid \<Rightarrow>
                 let prevHash = (if tid = e_TenantID e then tail_hash tid rows else []);
                     e1 = e\<lparr>e_PrevHash := prevHash, e_IPAddress := normalise_ip env (e_IPAddress e)\<rparr>;
                     e2 = e1\<lparr>e_EntryHash := computeHash sha env prevHash e1\<rparr>;
                     row = \<lparr>r_id = nid, r_tenant_id = tid, r_actor_id = e_ActorID e2, r_actor_type = e_ActorType e2,
                            r_action = e_Action e2, r_resource_type = e_ResourceType e2,
                            r_resource_id = nullString (e_ResourceID e2), r_metadata = env_jsonb env (e_Metadata e2),
                            r_ip_address = nullString (e_IPAddress e2), r_user_agent = nullString (e_UserAgent e2),
                            r_prev_hash = prevHash, r_entry_hash = e_EntryHash e2, r_created_at = now\<rparr>
                 in if tid \<noteq> e_TenantID e \<or> \<not> known tid
                       \<or> e_ActorType e2 \<notin> {''user'', ''system'', ''admin''}
                       \<or> (\<exists>r \<in> set rows. r_tenant_id r = tid \<and> r_prev_hash r = prevHash)
                    then (pool, Inl ErrDatabase)
                    else (Some (rows @ [row]), Inr (e2\<lparr>e_ID := nid, e_CreatedAt := now\<rparr>))))"

subsection \<open>Reading\<close>

definition scan_entry :: "'j audit_env \<Rightarrow> 'j audit_row \<Rightarrow> 'j Entry" where
  "scan_entry env r =
     \<lparr>e_TenantID = r_tenant_id r, e_ActorID = r_actor_id r, e_ActorType = r_actor_type r, e_Action = r_action r,
      e_ResourceType = r_resource_type r, e_ResourceID = (case r_resource_id r of Some x \<Rightarrow> x | None \<Rightarrow> []),
      e_Metadata = r_metadata r,
      e_IPAddress = (case r_ip_address r of Some x \<Rightarrow> env_inet_host env x | None \<Rightarrow> []),
      e_UserAgent = (case r_user_agent r of Some x \<Rightarrow> x | None \<Rightarrow> []),
      e_ID = r_id r, e_PrevHash = r_prev_hash r, e_EntryHash = r_entry_hash r, e_CreatedAt = r_created_at r\<rparr>"

definition row_matches :: "QueryFilters \<Rightarrow> 'j audit_row \<Rightarrow> bool" where
  "row_matches f r \<longleftrightarrow>
     (f_Action f \<noteq> [] \<longrightarrow> r_action r = f_Action f)
     \<and> (f_ActorID f \<noteq> [] \<longrightarrow> r_actor_id r = f_ActorID f)
     \<and> (f_ResourceType f \<noteq> [] \<longrightarrow> r_resource_type r = f_ResourceType f)
     \<and> (case f_Since f of None \<Rightarrow> True | Some t \<Rightarrow> t \<le> r_created_at r)
     \<and> (case f_Until f of None \<Rightarrow> True | Some t \<Rightarrow> r_created_at r \<le> t)"

text \<open>A negative offset is an error of the database.\<close>

definition audit_Query ::
    "'j audit_env \<Rightarrow> 'j audit_row list option \<Rightarrow> string \<Rightarrow> QueryFilters \<Rightarrow> audit_error + 'j Entry list" where
  "audit_Query env pool tenantID f =
     (if tenantID = [] then Inl (ErrInvalidInput ''tenantID required'')
      else let limit = (if f_Limit f \<le> 0 \<or> f_Limit f > 1000 then 100 else f_Limit f)
        in case pool of
          None \<Rightarrow> Inr []
        | Some rows \<Rightarrow>
            (case env_uuid env tenantID of
               None \<Rightarrow> Inl ErrDatabase
             | Some tid \<Rightarrow>
                 if f_Offset f < 0 then Inl ErrDatabase
                 else let visible = (if tid = tenantID then tenant_rows tid rows else [])
                   in Inr (map (scan_entry env)
                        (take (nat limit) (drop (nat (f_Offset f)) (rev (filter (row_matches f) visible)))))))"

fun chain_walk :: "(string \<Rightarrow> string) \<Rightarrow> 'j audit_env \<Rightarrow> string \<Rightarrow> 'j audit_row list \<Rightarrow> audit_error option" where
  "chain_walk sha env prev [] = None"
| "chain_walk sha env prev (r # rs) =
     (let e = scan_entry env r in
      if e_PrevHash e \<noteq> prev then Some (ErrChainPrev (e_ID e))
      else if computeHash sha env prev e \<noteq> e_EntryHash e then Some (ErrChainHash (e_ID e))
      else chain_walk sha env (e_EntryHash e) rs)"

text \<open>\<open>bypass\<close>: the connecting role skips row-level security, as the operations CLI does.\<close>

definition VerifyChain ::
    "(string \<Rightarrow> string) \<Rightarrow> 'j audit_env \<Rightarrow> bool \<Rightarrow> 'j audit_row list option \<Rightarrow> string \<Rightarrow> audit_error option" where
  "VerifyChain sha env bypass pool tenantID =
     (if tenantID = [] then Some (ErrInvalidInput ''tenantID required'')
      else case pool of
          None \<Rightarrow> None
        | Some rows \<Rightarrow>
            (case env_uuid env tenantID of
               None \<Rightarrow> Some ErrDatabase
             | Some tid \<Rightarrow>
                 chain_walk sha env [] (if bypass \<or> tid = tenantID then tenant_rows tid rows else [])))"

subsection \<open>The platform the chain relies on\<close>

text \<open>
  The hash is taken of the entry in memory, while the verification recomputes it from what the
  columns give back. A \<^verbatim>\<open>jsonb\<close> column with the decoding into Go values reorders keys, which the
  canonical form absorbs, but also rounds integers above \<^verbatim>\<open>2^53\<close>, and \<^verbatim>\<open>host(inet)\<close> prints some
  addresses differently from \<^verbatim>\<open>net.IP.String\<close>. An entry survives when its canonical metadata and
  its address come back as they were.
\<close>

definition survives :: "'j audit_env \<Rightarrow> 'j Entry \<Rightarrow> bool" where
  "survives env e \<longleftrightarrow> canonicalJSON env (env_jsonb env (e_Metadata e)) = canonicalJSON env (e_Metadata e)
     \<and> (case env_parse_ip env (e_IPAddress e) of None \<Rightarrow> True | Some p \<Rightarrow> env_inet_host env p = p)"

lemma sort_key_fst_perm:
  fixes m m' :: "(string \<times> 'j) list"
  assumes "mset m = mset m'" and "distinct (map fst m)"
  shows "sort_key fst m = sort_key fst m'"
proof (rule properties_for_sort_key)
  show "mset (sort_key fst m') = mset m" using assms(1) by simp
  have set: "set m = set m'" using assms(1) by (rule mset_eq_setD)
  have one: "p = q" if "p \<in> set m'" "q \<in> set m'" "fst p = fst q" for p q
    using that assms(2) set by (metis distinct_map inj_onD)
  have "distinct m" using assms(2) by (simp add: distinct_map)
  then have "distinct m'" using assms(1) by (metis mset_eq_imp_distinct_iff)
  fix k assume k: "k \<in> set (sort_key fst m')"
  have single: "filter (\<lambda>x. fst k = fst x) xs = [k]" if "distinct xs" "set xs = set m'" for xs
  proof -
    have "set (filter (\<lambda>x. fst k = fst x) xs) = {k}" using that k by (auto intro!: one)
    moreover have "distinct (filter (\<lambda>x. fst k = fst x) xs)" using that by simp
    moreover from calculation have "length (filter (\<lambda>x. fst k = fst x) xs) = Suc 0"
      using distinct_card [of "filter (\<lambda>x. fst k = fst x) xs"] by simp
    then obtain y where "filter (\<lambda>x. fst k = fst x) xs = [y]" by (auto simp: length_Suc_conv)
    moreover from calculation this have "y = k" by (metis list.set_intros(1) singletonD)
    ultimately show ?thesis by simp
  qed
  show "filter (\<lambda>x. fst k = fst x) (sort_key fst m') = filter (\<lambda>x. fst k = fst x) m"
    using single [of "sort_key fst m'"] single [of m] \<open>distinct m\<close> \<open>distinct m'\<close> set by simp
qed simp

lemma canonicalJSON_perm:
  "mset m = mset m' \<Longrightarrow> distinct (map fst m) \<Longrightarrow> canonicalJSON env m = canonicalJSON env m'"
  using sort_key_fst_perm [of m m'] by (auto simp: canonicalJSON_def)

subsection \<open>Walking the chain\<close>

definition last_hash :: "string \<Rightarrow> 'j audit_row list \<Rightarrow> string" where
  "last_hash prev rs = (if rs = [] then prev else r_entry_hash (last rs))"

lemma scan_simps [simp]:
  "e_PrevHash (scan_entry env r) = r_prev_hash r" "e_EntryHash (scan_entry env r) = r_entry_hash r"
  "e_ID (scan_entry env r) = r_id r"
  by (simp_all add: scan_entry_def)

definition row_ok :: "(string \<Rightarrow> string) \<Rightarrow> 'j audit_env \<Rightarrow> string \<Rightarrow> 'j audit_row \<Rightarrow> bool" where
  "row_ok sha env prev r \<longleftrightarrow> r_prev_hash r = prev \<and> computeHash sha env prev (scan_entry env r) = r_entry_hash r"

lemma chain_walk_Cons:
  "chain_walk sha env prev (r # rs) = None \<longleftrightarrow> row_ok sha env prev r \<and> chain_walk sha env (r_entry_hash r) rs = None"
  by (simp add: row_ok_def Let_def)

lemma chain_walk_snoc:
  "chain_walk sha env prev (rs @ [r]) = None \<longleftrightarrow> chain_walk sha env prev rs = None \<and> row_ok sha env (last_hash prev rs) r"
proof (induction rs arbitrary: prev)
  case Nil
  show ?case by (simp add: last_hash_def chain_walk_Cons del: chain_walk.simps(2))
next
  case (Cons a rs)
  have "last_hash (r_entry_hash a) rs = last_hash prev (a # rs)" by (simp add: last_hash_def)
  with Cons show ?case by (simp add: chain_walk_Cons del: chain_walk.simps(2))
qed

lemma tail_hash_last: "tail_hash tid rows = last_hash [] (tenant_rows tid rows)"
  by (cases "tenant_rows tid rows" rule: rev_cases) (simp_all add: tail_hash_def last_hash_def)

definition chains_ok :: "(string \<Rightarrow> string) \<Rightarrow> 'j audit_env \<Rightarrow> 'j audit_row list \<Rightarrow> bool" where
  "chains_ok sha env rows \<longleftrightarrow> (\<forall>tid. chain_walk sha env [] (tenant_rows tid rows) = None)"

lemma Log_row:
  assumes "audit_Log sha env known (Some rows) nid now e = (Some rows', res)" and "rows' \<noteq> rows"
  obtains r where "rows' = rows @ [r]" and "r_tenant_id r = e_TenantID e" and "r_prev_hash r = tail_hash (e_TenantID e) rows"
    and "r_entry_hash r = computeHash sha env (tail_hash (e_TenantID e) rows)
      (e\<lparr>e_PrevHash := tail_hash (e_TenantID e) rows, e_IPAddress := normalise_ip env (e_IPAddress e)\<rparr>)"
    and "r_actor_id r = e_ActorID e" "r_actor_type r = e_ActorType e" "r_action r = e_Action e"
      "r_resource_type r = e_ResourceType e" "r_resource_id r = nullString (e_ResourceID e)"
      "r_metadata r = env_jsonb env (e_Metadata e)" "r_ip_address r = nullString (normalise_ip env (e_IPAddress e))"
      "r_user_agent r = nullString (e_UserAgent e)"
  using assms by (auto simp: audit_Log_def Let_def split: if_splits option.splits)

lemma tenant_rows_snoc:
  "tenant_rows t (rows @ [r]) = (if r_tenant_id r = t then tenant_rows t rows @ [r] else tenant_rows t rows)"
  by (simp add: tenant_rows_def)

lemma Log_chains:
  assumes "chains_ok sha env rows" and "survives env e"
    and run: "audit_Log sha env known (Some rows) nid now e = (Some rows', res)"
  shows "chains_ok sha env rows'"
proof (cases "rows' = rows")
  case False
  from run this show ?thesis
  proof (rule Log_row)
    fix r
    let ?e1 = "e\<lparr>e_PrevHash := tail_hash (e_TenantID e) rows, e_IPAddress := normalise_ip env (e_IPAddress e)\<rparr>"
    assume row: "rows' = rows @ [r]" "r_tenant_id r = e_TenantID e" "r_prev_hash r = tail_hash (e_TenantID e) rows"
        "r_entry_hash r = computeHash sha env (tail_hash (e_TenantID e) rows) ?e1"
      and cols: "r_actor_id r = e_ActorID e" "r_actor_type r = e_ActorType e" "r_action r = e_Action e"
        "r_resource_type r = e_ResourceType e" "r_resource_id r = nullString (e_ResourceID e)"
        "r_metadata r = env_jsonb env (e_Metadata e)" "r_ip_address r = nullString (normalise_ip env (e_IPAddress e))"
        "r_user_agent r = nullString (e_UserAgent e)"
    have ip: "(case r_ip_address r of Some x \<Rightarrow> env_inet_host env x | None \<Rightarrow> []) = normalise_ip env (e_IPAddress e)"
      using assms(2) by (auto simp: survives_def cols nullString_def normalise_ip_def split: option.splits)
    have "hash_input env p (scan_entry env r) = hash_input env p ?e1" for p
      using ip assms(2) by (simp add: hash_input_def scan_entry_def cols row(2) survives_def) (simp add: nullString_def)
    then have "row_ok sha env (last_hash [] (tenant_rows (e_TenantID e) rows)) r"
      using row(3,4) by (simp add: row_ok_def computeHash_def tail_hash_last)
    then show ?thesis using assms(1) row(1,2) by (auto simp: chains_ok_def chain_walk_snoc tenant_rows_snoc)
  qed
qed (use assms in simp)

subsection \<open>A reference platform\<close>

text \<open>Scalars as metadata, \<^verbatim>\<open>jsonb\<close> ordering keys by length and then by bytes, dotted addresses, lower-case UUIDs.\<close>

datatype json_scalar = JNull | JBool bool | JInt int | JText string

definition ref_env :: "json_scalar audit_env" where
  "ref_env = \<lparr>env_json_key = (\<lambda>k. CHR 34 # k @ [CHR 34]),
     env_json_value = (\<lambda>j. case j of JNull \<Rightarrow> ''null'' | JBool b \<Rightarrow> (if b then ''true'' else ''false'') | JInt n \<Rightarrow> itoa n
        | JText x \<Rightarrow> CHR 34 # x @ [CHR 34]),
     env_jsonb = sort_key (\<lambda>p. (length (fst p), fst p)),
     env_parse_ip = (\<lambda>x. if list_all (\<lambda>c. c = CHR ''.'' \<or> (of_char c :: nat) \<in> {48..57}) x then Some x else None),
     env_inet_host = (\<lambda>x. x),
     env_uuid = (\<lambda>x. if length x = 36 then Some (map ascii_lower x) else None)\<rparr>"

lemma ref_survives: "distinct (map fst (e_Metadata e)) \<Longrightarrow> survives ref_env e"
proof -
  assume "distinct (map fst (e_Metadata e))"
  then have "canonicalJSON ref_env (env_jsonb ref_env (e_Metadata e)) = canonicalJSON ref_env (e_Metadata e)"
    by (intro canonicalJSON_perm [symmetric]) (simp_all add: ref_env_def)
  then show ?thesis by (simp add: survives_def) (simp add: ref_env_def)
qed

subsection \<open>Injectivity of the hash input\<close>

lemma bar_split_last:
  assumes "c \<notin> set y" and "c \<notin> set y'" and "x @ c # y = x' @ c # y'"
  shows "x = x' \<and> y = y'"
proof -
  have "rev y @ c # rev x = rev y' @ c # rev x'" using arg_cong [OF assms(3), of rev] by simp
  with bar_split [of c "rev y" "rev y'" "rev x" "rev x'"] assms(1,2) show ?thesis by simp
qed

lemma bars_inj:
  assumes "length xs = length ys" and "\<forall>x \<in> set xs \<union> set ys. c \<notin> set x"
    and "concat (map (\<lambda>x. x @ [c]) xs) @ r = concat (map (\<lambda>x. x @ [c]) ys) @ r'"
  shows "xs = ys \<and> r = r'"
  using assms
proof (induction xs ys rule: list_induct2)
  case (Cons x xs y ys)
  then have "x = y \<and> concat (map (\<lambda>x. x @ [c]) xs) @ r = concat (map (\<lambda>x. x @ [c]) ys) @ r'"
    by (intro bar_split [of c]) auto
  with Cons show ?case by simp
qed simp

text \<open>The fields the hash covers, and the entries that do not use the separator (other than in the metadata).\<close>

definition covered :: "'j audit_env \<Rightarrow> 'j Entry \<Rightarrow> string list" where
  "covered env e = [e_TenantID e, e_ActorID e, e_ActorType e, e_Action e, e_ResourceType e, e_ResourceID e,
     canonicalJSON env (e_Metadata e), e_IPAddress e, e_UserAgent e]"

definition no_bar :: "'j Entry \<Rightarrow> bool" where
  "no_bar e \<longleftrightarrow> (\<forall>x \<in> {e_TenantID e, e_ActorID e, e_ActorType e, e_Action e, e_ResourceType e, e_ResourceID e,
     e_IPAddress e, e_UserAgent e}. CHR ''|'' \<notin> set x)"

lemma hash_input_inj:
  assumes "no_bar e" and "no_bar e'" and p: "CHR ''|'' \<notin> set p" and p': "CHR ''|'' \<notin> set p'"
    and eq: "hash_input env p e = hash_input env p' e'"
  shows "p = p' \<and> covered env e = covered env e'"
proof -
  let ?lead = "\<lambda>p e. [p, e_TenantID e, e_ActorID e, e_ActorType e, e_Action e, e_ResourceType e, e_ResourceID e]"
  let ?tail = "\<lambda>e. canonicalJSON env (e_Metadata e) @ CHR ''|'' # e_IPAddress e @ CHR ''|'' # e_UserAgent e"
  have clean: "\<forall>x \<in> set (?lead p e) \<union> set (?lead p' e'). CHR ''|'' \<notin> set x"
    using assms(1,2) p p' by (simp add: no_bar_def)
  have "concat (map (\<lambda>x. x @ ''|'') (?lead p e)) @ ?tail e = concat (map (\<lambda>x. x @ ''|'') (?lead p' e')) @ ?tail e'"
    using eq by (simp add: hash_input_def)
  from bars_inj [OF _ clean this] have lead: "?lead p e = ?lead p' e'" and tail: "?tail e = ?tail e'" by simp_all
  have ua: "(canonicalJSON env (e_Metadata e) @ CHR ''|'' # e_IPAddress e) = (canonicalJSON env (e_Metadata e') @ CHR ''|'' # e_IPAddress e')
      \<and> e_UserAgent e = e_UserAgent e'"
    by (rule bar_split_last) (use tail assms(1,2) in \<open>auto simp: no_bar_def\<close>)
  have "canonicalJSON env (e_Metadata e) = canonicalJSON env (e_Metadata e') \<and> e_IPAddress e = e_IPAddress e'"
    by (rule bar_split_last [of "CHR ''|''"]) (use ua assms(1,2) in \<open>auto simp: no_bar_def\<close>)
  with lead ua show ?thesis by (simp add: covered_def)
qed

lemma chain_determined:
  assumes "ideal_hash sha"
    and "\<forall>r \<in> set rs \<union> set rs'. no_bar (scan_entry env r)"
    and "chain_walk sha env [] rs = None" and "chain_walk sha env [] rs' = None"
    and "last_hash [] rs = last_hash [] rs'"
  shows "map (\<lambda>r. covered env (scan_entry env r)) rs = map (\<lambda>r. covered env (scan_entry env r)) rs'"
  using assms(2-)
proof (induction rs arbitrary: rs' rule: rev_induct)
  case Nil
  have "rs' = []"
  proof (cases rs' rule: rev_cases)
    case (snoc ys y)
    with Nil(3,4) assms(1) show ?thesis
      by (auto simp: chain_walk_snoc row_ok_def computeHash_def last_hash_def ideal_hash_def)
  qed
  then show ?case by simp
next
  case (snoc r rs)
  then have ok: "chain_walk sha env [] rs = None" "row_ok sha env (last_hash [] rs) r" by (simp_all add: chain_walk_snoc)
  show ?case
  proof (cases rs' rule: rev_cases)
    case Nil
    with snoc(5) ok assms(1) show ?thesis
      by (auto simp: last_hash_def row_ok_def computeHash_def ideal_hash_def)
  next
    case inner: (snoc ys y)
    then have ok': "chain_walk sha env [] ys = None" "row_ok sha env (last_hash [] ys) y"
      using snoc(4) by (simp_all add: chain_walk_snoc)
    have "r_entry_hash r = r_entry_hash y" using snoc(5) inner by (simp add: last_hash_def)
    with ok(2) ok'(2) have "hash_input env (last_hash [] rs) (scan_entry env r) = hash_input env (last_hash [] ys) (scan_entry env y)"
      using assms(1) by (auto simp: row_ok_def computeHash_def ideal_hash_def intro: injD [of sha])
    moreover have "CHR ''|'' \<notin> set (last_hash [] zs)" if "chain_walk sha env [] zs = None" for zs
    proof (cases zs rule: rev_cases)
      case (snoc us u)
      with that have "r_entry_hash u = sha (hash_input env (last_hash [] us) (scan_entry env u))"
        by (simp add: chain_walk_snoc row_ok_def computeHash_def)
      with snoc assms(1) show ?thesis by (simp add: last_hash_def ideal_hash_def)
    qed (simp add: last_hash_def)
    ultimately have "last_hash [] rs = last_hash [] ys \<and> covered env (scan_entry env r) = covered env (scan_entry env y)"
      using snoc(2) inner ok(1) ok'(1) by (intro hash_input_inj) auto
    with snoc.IH [of ys] snoc(2) inner ok(1) ok'(1) show ?thesis by simp
  qed
qed

subsection \<open>Sequences of appends\<close>

fun log_all ::
    "(string \<Rightarrow> string) \<Rightarrow> 'j audit_env \<Rightarrow> (string \<Rightarrow> bool) \<Rightarrow> 'j audit_row list \<Rightarrow> (string \<times> time \<times> 'j Entry) list
     \<Rightarrow> 'j audit_row list" where
  "log_all sha env known rows [] = rows"
| "log_all sha env known rows ((nid, now, e) # ops) =
     (case audit_Log sha env known (Some rows) nid now e of
        (Some rows', _) \<Rightarrow> log_all sha env known rows' ops
      | (None, _) \<Rightarrow> rows)"

lemma Log_keeps_pool: "\<exists>rows' res. audit_Log sha env known (Some rows) nid now e = (Some rows', res)"
  by (auto simp: audit_Log_def Let_def split: option.splits)

lemma log_all_chains:
  "chains_ok sha env rows \<Longrightarrow> \<forall>(nid, now, e) \<in> set ops. survives env e
     \<Longrightarrow> chains_ok sha env (log_all sha env known rows ops)"
proof (induction ops arbitrary: rows)
  case (Cons op ops)
  obtain nid now e where op: "op = (nid, now, e)" by (cases op)
  obtain rows' res where run: "audit_Log sha env known (Some rows) nid now e = (Some rows', res)"
    using Log_keeps_pool by blast
  have "survives env e" using Cons.prems(2) op by simp
  from Log_chains [OF Cons.prems(1) this run] Cons.IH [of rows'] Cons.prems(2) show ?case by (simp add: op run)
qed simp

text \<open>With an ideal hash an append is never refused by the linearity index: no earlier row points at the tail.\<close>

lemma tail_is_fresh:
  assumes "ideal_hash sha" and "chain_walk sha env [] rs = None" and "\<forall>r \<in> set rs. no_bar (scan_entry env r)"
    and "r \<in> set rs"
  shows "r_prev_hash r \<noteq> last_hash [] rs"
proof
  assume eq: "r_prev_hash r = last_hash [] rs"
  from assms(4) obtain xs ys where rs: "rs = xs @ r # ys" by (meson split_list)
  have pre: "chain_walk sha env p (as @ bs) = None \<Longrightarrow> chain_walk sha env p as = None" for p as and bs :: "'a audit_row list"
    by (induction as arbitrary: p) (simp_all add: chain_walk_Cons del: chain_walk.simps(2))
  have "chain_walk sha env [] (xs @ [r]) = None" using assms(2) rs pre [of "[]" "xs @ [r]" ys] by simp
  then have "chain_walk sha env [] xs = None" and "last_hash [] xs = last_hash [] rs"
    using eq by (simp_all add: chain_walk_snoc row_ok_def)
  then have "map (\<lambda>r. covered env (scan_entry env r)) xs = map (\<lambda>r. covered env (scan_entry env r)) rs"
    by (intro chain_determined [OF assms(1)]) (use assms(2,3) rs in auto)
  from arg_cong [OF this, of length] show False using rs by simp
qed

subsection \<open>Properties\<close>

text \<open>
  C5: Whatever sequence of entries is logged, by any number of tenants and with any refused
  appends in between, the verification of every tenant's chain succeeds, run as the application
  role or as a role that bypasses row-level security, provided every entry survives its columns:
  its canonical metadata comes back from \<^verbatim>\<open>jsonb\<close> and its address from \<^verbatim>\<open>inet\<close> as they were hashed.\<close>

theorem logged_chains_verify:
  assumes "\<forall>(nid, now, e) \<in> set ops. survives env e"
    and "tenantID \<noteq> []" and "env_uuid env tenantID = Some tid"
  shows "VerifyChain sha env bypass (Some (log_all sha env known [] ops)) tenantID = None"
proof -
  have "chains_ok sha env (log_all sha env known [] ops)"
    using assms(1) by (intro log_all_chains) (simp_all add: chains_ok_def tenant_rows_def)
  then show ?thesis using assms(2,3) by (simp add: VerifyChain_def chains_ok_def)
qed

text \<open>
  The condition is needed: an appended entry whose metadata comes back with another canonical
  form breaks its tenant's chain, although nobody changed the table.\<close>

theorem lossy_metadata_breaks_chain:
  assumes "ideal_hash sha" and "audit_Log sha env known (Some rows) nid now e = (Some rows', res)" and "rows' \<noteq> rows"
    and "canonicalJSON env (env_jsonb env (e_Metadata e)) \<noteq> canonicalJSON env (e_Metadata e)"
    and "case env_parse_ip env (e_IPAddress e) of None \<Rightarrow> True | Some p \<Rightarrow> env_inet_host env p = p"
  shows "chain_walk sha env [] (tenant_rows (e_TenantID e) rows') \<noteq> None"
  using assms(2,3)
proof (rule Log_row)
  fix r
  let ?e1 = "e\<lparr>e_PrevHash := tail_hash (e_TenantID e) rows, e_IPAddress := normalise_ip env (e_IPAddress e)\<rparr>"
  assume row: "rows' = rows @ [r]" "r_tenant_id r = e_TenantID e"
      "r_entry_hash r = computeHash sha env (tail_hash (e_TenantID e) rows) ?e1"
    and cols: "r_actor_id r = e_ActorID e" "r_actor_type r = e_ActorType e" "r_action r = e_Action e"
      "r_resource_type r = e_ResourceType e" "r_resource_id r = nullString (e_ResourceID e)"
      "r_metadata r = env_jsonb env (e_Metadata e)" "r_ip_address r = nullString (normalise_ip env (e_IPAddress e))"
      "r_user_agent r = nullString (e_UserAgent e)"
  have ip: "(case r_ip_address r of Some x \<Rightarrow> env_inet_host env x | None \<Rightarrow> []) = normalise_ip env (e_IPAddress e)"
    using assms(5) by (auto simp: cols nullString_def normalise_ip_def split: option.splits)
  have "hash_input env p (scan_entry env r) \<noteq> hash_input env p ?e1" for p
    using ip assms(4) by (simp add: hash_input_def scan_entry_def cols row(2)) (simp add: nullString_def)
  then have "computeHash sha env p (scan_entry env r) \<noteq> computeHash sha env p ?e1" for p
    using assms(1) by (auto simp: computeHash_def ideal_hash_def dest: injD)
  then have "\<not> row_ok sha env (last_hash [] (tenant_rows (e_TenantID e) rows)) r"
    using row(3) by (simp add: row_ok_def tail_hash_last)
  then show ?thesis using row(1,2) by (simp add: chain_walk_snoc tenant_rows_snoc)
qed

text \<open>
  C4: Tamper evidence, for a hash without collisions and rows whose fields other than the metadata
  do not contain the separator \<^verbatim>\<open>|\<close>: two such tables that both verify for a tenant and have the
  same tail hash agree in every field the hash covers, row by row, so a verified chain cannot have
  been edited in those fields, reordered, extended in the middle or shortened below its recorded
  tail.\<close>

theorem verified_chain_is_untampered:
  assumes "ideal_hash sha" and "tenantID \<noteq> []" and "env_uuid env tenantID = Some tenantID"
    and "\<forall>r \<in> set rows \<union> set rows'. no_bar (scan_entry env r)"
    and "VerifyChain sha env bypass (Some rows) tenantID = None" and "VerifyChain sha env bypass (Some rows') tenantID = None"
    and "tail_hash tenantID rows = tail_hash tenantID rows'"
  shows "map (\<lambda>r. covered env (scan_entry env r)) (tenant_rows tenantID rows)
    = map (\<lambda>r. covered env (scan_entry env r)) (tenant_rows tenantID rows')"
  by (rule chain_determined [OF assms(1)])
    (use assms(2-) in \<open>auto simp: VerifyChain_def tail_hash_last tenant_rows_def\<close>)

text \<open>
  A valid entry of an existing tenant is always appended: with a chain that verifies and an ideal
  hash, the uniqueness of \<^verbatim>\<open>(tenant_id, prev_hash)\<close> never refuses it, and the new row is the new tail.\<close>

theorem append_is_never_refused:
  assumes "ideal_hash sha" and "chain_walk sha env [] (tenant_rows (e_TenantID e) rows) = None"
    and "\<forall>r \<in> set rows. no_bar (scan_entry env r)"
    and "e_TenantID e \<noteq> []" and "e_Action e \<noteq> []" and "e_ActorType e \<in> {''user'', ''system'', ''admin''}"
    and "env_uuid env (e_TenantID e) = Some (e_TenantID e)" and "known (e_TenantID e)"
  shows "\<exists>row e'. audit_Log sha env known (Some rows) nid now e = (Some (rows @ [row]), Inr e')
    \<and> r_tenant_id row = e_TenantID e \<and> r_prev_hash row = tail_hash (e_TenantID e) rows \<and> r_entry_hash row = e_EntryHash e'
    \<and> tail_hash (e_TenantID e) (rows @ [row]) = e_EntryHash e'"
proof -
  let ?tid = "e_TenantID e"
  have "\<not> (\<exists>r \<in> set rows. r_tenant_id r = ?tid \<and> r_prev_hash r = tail_hash ?tid rows)"
    using tail_is_fresh [OF assms(1,2)] assms(3) by (auto simp: tail_hash_last tenant_rows_def)
  moreover have "e_ActorType e \<noteq> []" using assms(6) by auto
  ultimately show ?thesis using assms(4-) by (auto simp: audit_Log_def Let_def tail_hash_def tenant_rows_def)
qed

text \<open>
  The fields of an entry are not separated unambiguously: whatever the hash function, moving the
  text around a separator from one field to the next gives an entry with the same hash.\<close>

theorem hash_is_ambiguous:
  "computeHash sha env prev (e\<lparr>e_Action := a @ CHR ''|'' # b, e_ResourceType := c\<rparr>)
     = computeHash sha env prev (e\<lparr>e_Action := a, e_ResourceType := b @ CHR ''|'' # c\<rparr>)"
  by (simp add: computeHash_def hash_input_def)

text \<open>
  A query returns only rows of the caller's tenant that match the filters, newest first, a page
  of at most a thousand; an export covers no more than the newest thousand.\<close>

theorem query_page:
  assumes "tenantID \<noteq> []" and "env_uuid env tenantID = Some tid" and "0 \<le> f_Offset f"
  shows "\<exists>es. audit_Query env (Some rows) tenantID f = Inr es \<and> length es \<le> 1000
    \<and> (\<forall>e \<in> set es. \<exists>r \<in> set rows. r_tenant_id r = tenantID \<and> row_matches f r \<and> e = scan_entry env r)
    \<and> (tid = tenantID \<and> 0 < f_Limit f \<and> f_Limit f \<le> 1000 \<longrightarrow>
         es = map (scan_entry env) (take (nat (f_Limit f)) (drop (nat (f_Offset f))
                (rev (filter (\<lambda>r. r_tenant_id r = tenantID \<and> row_matches f r) rows)))))"
proof -
  let ?vis = "if tid = tenantID then tenant_rows tid rows else []"
  let ?lim = "if f_Limit f \<le> 0 \<or> f_Limit f > 1000 then 100 else f_Limit f"
  let ?es = "map (scan_entry env) (take (nat ?lim) (drop (nat (f_Offset f)) (rev (filter (row_matches f) ?vis))))"
  have run: "audit_Query env (Some rows) tenantID f = Inr ?es" using assms by (simp add: audit_Query_def Let_def)
  have "nat ?lim \<le> 1000" by (auto simp: nat_le_iff)
  then have "length ?es \<le> 1000" by simp
  moreover have "\<exists>r \<in> set rows. r_tenant_id r = tenantID \<and> row_matches f r \<and> e = scan_entry env r" if "e \<in> set ?es" for e
    using that by (fastforce simp: tenant_rows_def dest!: in_set_takeD in_set_dropD split: if_splits)
  moreover have "filter (row_matches f) (tenant_rows tenantID rows) = filter (\<lambda>r. r_tenant_id r = tenantID \<and> row_matches f r) rows"
    by (simp add: tenant_rows_def conj_commute)
  then have "?es = map (scan_entry env) (take (nat (f_Limit f)) (drop (nat (f_Offset f))
                (rev (filter (\<lambda>r. r_tenant_id r = tenantID \<and> row_matches f r) rows))))"
    if "tid = tenantID" "0 < f_Limit f" "f_Limit f \<le> 1000"
    using that by simp
  ultimately show ?thesis using run by blast
qed

text \<open>
  The canonical form, and with it the hash, does not depend on the order in which the metadata
  map is iterated.\<close>

lemma hash_ignores_map_order:
  assumes "mset m = mset m'" and "distinct (map fst m)"
  shows "computeHash sha env prev (e\<lparr>e_Metadata := m\<rparr>) = computeHash sha env prev (e\<lparr>e_Metadata := m'\<rparr>)"
  using canonicalJSON_perm [OF assms, of env] by (simp add: computeHash_def hash_input_def)

subsection \<open>Witnesses\<close>

definition ex_tid :: string where
  "ex_tid = ''11111111-1111-4111-8111-111111111111''"

definition ex_entry :: "json_scalar Entry" where
  "ex_entry = \<lparr>e_TenantID = ex_tid, e_ActorID = ''u1'', e_ActorType = ''admin'', e_Action = ''domain.create'',
     e_ResourceType = ''domain'', e_ResourceID = ''d1'', e_Metadata = [(''name'', JText ''example.com''), (''n'', JInt 2)],
     e_IPAddress = ''10.0.0.1'', e_UserAgent = ''cli'', e_ID = [], e_PrevHash = [], e_EntryHash = [], e_CreatedAt = 0\<rparr>"

definition ex_row :: "time \<Rightarrow> json_scalar audit_row" where
  "ex_row t = \<lparr>r_id = ''r1'', r_tenant_id = ex_tid, r_actor_id = ''u1'', r_actor_type = ''admin'', r_action = ''domain.create'',
     r_resource_type = ''domain'', r_resource_id = Some ''d1'', r_metadata = e_Metadata ex_entry, r_ip_address = Some ''10.0.0.1'',
     r_user_agent = Some ''cli'', r_prev_hash = [], r_entry_hash = computeHash ex_sha ref_env [] ex_entry, r_created_at = t\<rparr>"

lemma ex_uuid: "env_uuid ref_env ex_tid = Some ex_tid" "ex_tid \<noteq> []"
  by (simp_all add: ref_env_def ex_tid_def ascii_lower_def)

lemma ex_scan: "computeHash ex_sha ref_env p (scan_entry ref_env (ex_row t)) = computeHash ex_sha ref_env p ex_entry"
  "no_bar (scan_entry ref_env (ex_row t))"
  by (simp_all add: computeHash_def hash_input_def scan_entry_def ex_row_def ex_entry_def ref_env_def no_bar_def ex_tid_def)

lemma ex_walk: "chain_walk ex_sha ref_env [] [ex_row t] = None" "tenant_rows ex_tid [ex_row t] = [ex_row t]"
  using ex_scan(1) [of "[]" t] by (simp_all add: ex_row_def tenant_rows_def)

theorem logged_chains_verify_witness:
  "VerifyChain ex_sha ref_env True (Some (log_all ex_sha ref_env (\<lambda>_. True) []
     [(''r1'', 5, ex_entry), (''r2'', 6, ex_entry\<lparr>e_Action := ''domain.delete''\<rparr>)])) ex_tid = None"
  by (rule logged_chains_verify) (auto simp: ex_uuid ex_entry_def intro!: ref_survives)

theorem verified_chain_is_untampered_witness:
  "VerifyChain ex_sha ref_env False (Some [ex_row 5]) ex_tid = None \<and> [ex_row 5] \<noteq> [ex_row 6]
   \<and> map (\<lambda>r. covered ref_env (scan_entry ref_env r)) (tenant_rows ex_tid [ex_row 5])
     = map (\<lambda>r. covered ref_env (scan_entry ref_env r)) (tenant_rows ex_tid [ex_row 6])"
proof -
  have v: "VerifyChain ex_sha ref_env False (Some [ex_row t]) ex_tid = None" for t
    using ex_walk [of t] ex_uuid by (simp add: VerifyChain_def del: chain_walk.simps)
  have "tail_hash ex_tid [ex_row 5] = tail_hash ex_tid [ex_row 6]" by (simp add: tail_hash_def ex_walk) (simp add: ex_row_def)
  from verified_chain_is_untampered [OF ex_sha_ideal ex_uuid(2,1) _ v v this] v [of 5] ex_scan(2) show ?thesis
    by (simp add: ex_row_def)
qed

theorem append_is_never_refused_witness:
  "\<exists>row e'. audit_Log ex_sha ref_env (\<lambda>_. True) (Some [ex_row 5]) ''r2'' 6 ex_entry = (Some [ex_row 5, row], Inr e')"
proof -
  have t: "e_TenantID ex_entry = ex_tid" by (simp add: ex_entry_def)
  have "chain_walk ex_sha ref_env [] (tenant_rows (e_TenantID ex_entry) [ex_row 5]) = None"
    unfolding t ex_walk(2) by (rule ex_walk(1))
  from append_is_never_refused [OF ex_sha_ideal this, of "\<lambda>_. True" "''r2''" 6] show ?thesis
    using ex_scan(2) [of 5] ex_uuid by (auto simp: t) (auto simp: ex_entry_def)
qed

theorem query_page_witness:
  "audit_Query ref_env (Some [ex_row 5, ex_row 7]) ex_tid
     \<lparr>f_Action = [], f_ActorID = ''u1'', f_ResourceType = [], f_Since = Some 6, f_Until = None, f_Limit = 10, f_Offset = 0\<rparr>
   = Inr [scan_entry ref_env (ex_row 7)]"
  using query_page [OF ex_uuid(2) ex_uuid(1), of "\<lparr>f_Action = [], f_ActorID = ''u1'', f_ResourceType = [], f_Since = Some 6,
    f_Until = None, f_Limit = 10, f_Offset = 0\<rparr>" "[ex_row 5, ex_row 7]"]
  by (auto simp: row_matches_def ex_row_def)

lemma hash_ignores_map_order_witness:
  "computeHash ex_sha ref_env [] (ex_entry\<lparr>e_Metadata := [(''a'', JNull), (''b'', JNull)]\<rparr>)
   = computeHash ex_sha ref_env [] (ex_entry\<lparr>e_Metadata := [(''b'', JNull), (''a'', JNull)]\<rparr>)"
  by (rule hash_ignores_map_order) simp_all

end
