(* ===== verification/Mbox.thy ===== *)
theory Mbox
  imports Prelude
begin

text \<open>
  The mbox writer of the eDiscovery export, \<^verbatim>\<open>internal/export/mbox.go\<close>. A writer is the bytes
  written so far; \<open>date\<close> is the formatted timestamp of the separator line, an argument since
  \<^verbatim>\<open>time.Format\<close> with the asctime layout yields one line of text without line breaks.
\<close>

abbreviation LF :: char where
  "LF \<equiv> CHR 10"

abbreviation CR :: char where
  "CR \<equiv> CHR 13"

subsection \<open>The writer\<close>

definition stripLineBreaks :: "string \<Rightarrow> string" where
  "stripLineBreaks x = (if \<not> list_ex (\<lambda>c. c = CR \<or> c = LF) x then x else filter (\<lambda>c. \<not> (c = CR \<or> c = LF)) x)"

definition isFromLine :: "string \<Rightarrow> bool" where
  "isFromLine line = (take 5 (dropWhile (\<lambda>c. c = CHR ''>'') line) = ''From '')"

text \<open>\<^verbatim>\<open>bytes.SplitAfter(body, "\n")\<close>: every piece but the last ends in a line feed.\<close>

fun splitAfter :: "string \<Rightarrow> string list" where
  "splitAfter [] = [[]]"
| "splitAfter (c # cs) =
     (if c = LF then [c] # splitAfter cs
      else (case splitAfter cs of [] \<Rightarrow> [[c]] | l # ls \<Rightarrow> (c # l) # ls))"

definition quoteFromLines :: "string \<Rightarrow> string" where
  "quoteFromLines body =
     (if body = [] then body
      else concat (map (\<lambda>line. if isFromLine line then CHR ''>'' # line else line) (splitAfter body)))"

definition WriteMessage :: "string \<Rightarrow> string \<Rightarrow> string \<Rightarrow> string \<Rightarrow> string" where
  "WriteMessage w from date raw =
     (let sender = stripLineBreaks (if from = [] then ''MAILER-DAEMON'' else from);
          w1 = w @ ''From '' @ sender @ '' '' @ date @ [LF];
          w2 = w1 @ quoteFromLines raw;
          w3 = (if raw = [] \<or> last raw \<noteq> LF then w2 @ [LF] else w2)
      in w3 @ [LF])"

subsection \<open>A reader of the mboxrd format\<close>

text \<open>
  What a reader does with the stream: a line that starts with \<^verbatim>\<open>From \<close> opens a message, every other
  line belongs to the open message, with one \<^verbatim>\<open>>\<close> removed if it is quoted; the blank line that ends an
  entry is dropped.
\<close>

definition unquoteLine :: "string \<Rightarrow> string" where
  "unquoteLine line = (if isFromLine line \<and> line \<noteq> [] \<and> hd line = CHR ''>'' then tl line else line)"

definition unquoteFromLines :: "string \<Rightarrow> string" where
  "unquoteFromLines body = concat (map unquoteLine (splitAfter body))"

definition separator :: "string \<Rightarrow> bool" where
  "separator line \<longleftrightarrow> take 5 line = ''From ''"

fun read_msgs :: "string list \<Rightarrow> string list list" where
  "read_msgs [] = []"
| "read_msgs (l # ls) =
     (if separator l then takeWhile (\<lambda>x. \<not> separator x) ls # read_msgs ls else read_msgs ls)"

definition mbox_lines :: "string \<Rightarrow> string list" where
  "mbox_lines s = filter (\<lambda>l. l \<noteq> []) (splitAfter s)"

definition read_mbox :: "string \<Rightarrow> string list" where
  "read_mbox s = map (\<lambda>ls. concat (map unquoteLine (butlast ls))) (read_msgs (mbox_lines s))"

fun write_all :: "string \<Rightarrow> (string \<times> string \<times> string) list \<Rightarrow> string" where
  "write_all w [] = w"
| "write_all w ((from, date, raw) # ms) = write_all (WriteMessage w from date raw) ms"

text \<open>A message as it comes back: closed by a line feed.\<close>

definition closed :: "string \<Rightarrow> string" where
  "closed raw = (if raw = [] \<or> last raw \<noteq> LF then raw @ [LF] else raw)"

subsection \<open>Lines\<close>

definition is_line :: "string \<Rightarrow> bool" where
  "is_line l \<longleftrightarrow> (\<exists>x. l = x @ [LF] \<and> LF \<notin> set x)"

definition quoteLine :: "string \<Rightarrow> string" where
  "quoteLine line = (if isFromLine line then CHR ''>'' # line else line)"

lemma splitAfter_ne [simp]: "splitAfter s \<noteq> []"
  by (cases s) (auto split: list.split)

lemma splitAfter_no_LF: "LF \<notin> set x \<Longrightarrow> splitAfter x = [x]"
  by (induction x) auto

lemma splitAfter_line: "LF \<notin> set x \<Longrightarrow> splitAfter (x @ LF # s) = (x @ [LF]) # splitAfter s"
  by (induction x) auto

lemma mbox_lines_Nil [simp]: "mbox_lines [] = []"
  by (simp add: mbox_lines_def)

lemma mbox_lines_Cons: "is_line l \<Longrightarrow> mbox_lines (l @ s) = l # mbox_lines s"
  by (auto simp: is_line_def mbox_lines_def splitAfter_line)

lemma mbox_lines_concat: "\<forall>l \<in> set ls. is_line l \<Longrightarrow> mbox_lines (concat ls @ s) = ls @ mbox_lines s"
  by (induction ls) (simp_all add: mbox_lines_Cons)

text \<open>Every string is a sequence of lines and an open rest.\<close>

lemma string_lines:
  obtains ls x where "s = concat ls @ x" and "\<forall>l \<in> set ls. is_line l" and "LF \<notin> set x"
    and "splitAfter s = ls @ [x]"
proof -
  have "\<exists>ls x. s = concat ls @ x \<and> (\<forall>l \<in> set ls. is_line l) \<and> LF \<notin> set x \<and> splitAfter s = ls @ [x]"
  proof (induction s)
    case Nil
    show ?case by (intro exI [of _ "[]"]) simp
  next
    case (Cons c s)
    then obtain ls x where s: "s = concat ls @ x" "\<forall>l \<in> set ls. is_line l" "LF \<notin> set x" "splitAfter s = ls @ [x]" by blast
    show ?case
    proof (cases "c = LF")
      case True
      have "is_line [LF]" by (auto simp: is_line_def)
      with s True show ?thesis by (intro exI [of _ "[LF] # ls"] exI [of _ x]) auto
    next
      case c: False
      show ?thesis
      proof (cases ls)
        case Nil
        with s c show ?thesis by (intro exI [of _ "[]"] exI [of _ "c # x"]) auto
      next
        case (Cons l ls')
        then obtain y where "l = y @ [LF]" "LF \<notin> set y" using s by (auto simp: is_line_def)
        then have "is_line (c # l)" using c by (auto simp: is_line_def intro!: exI [of _ "c # y"])
        with s c Cons show ?thesis by (intro exI [of _ "(c # l) # ls'"] exI [of _ x]) auto
      qed
    qed
  qed
  with that show thesis by blast
qed

subsection \<open>Quoting\<close>

lemma isFromLine_snoc: "isFromLine (x @ [LF]) = isFromLine x"
proof -
  have "take 5 (y @ [LF]) = ''From '' \<longleftrightarrow> take 5 y = ''From ''" for y :: string
  proof (cases "length y < 5")
    case True
    then have "LF \<in> set (take 5 (y @ [LF]))" and "length (take 5 y) < 5" by auto
    then show ?thesis by (auto dest!: arg_cong [where f = set] arg_cong [where f = length])
  qed simp
  moreover have "dropWhile (\<lambda>c. c = CHR ''>'') (x @ [LF]) = dropWhile (\<lambda>c. c = CHR ''>'') x @ [LF]"
    by (induction x) auto
  ultimately show ?thesis by (simp add: isFromLine_def)
qed

lemma quoteLine_snoc: "quoteLine (x @ [LF]) = quoteLine x @ [LF]"
  by (simp add: quoteLine_def isFromLine_snoc)

lemma quoteLine_is_line: "is_line l \<Longrightarrow> is_line (quoteLine l)"
proof -
  assume "is_line l"
  then obtain x where "l = x @ [LF]" "LF \<notin> set x" by (auto simp: is_line_def)
  then have "quoteLine l = quoteLine x @ [LF]" and "LF \<notin> set (quoteLine x)"
    by (simp_all add: quoteLine_snoc) (simp add: quoteLine_def)
  then show ?thesis by (auto simp: is_line_def)
qed

lemma unquote_quote [simp]: "unquoteLine (quoteLine l) = l"
proof (cases "isFromLine l")
  case True
  then have "isFromLine (CHR ''>'' # l)" by (simp add: isFromLine_def)
  with True show ?thesis by (simp add: unquoteLine_def quoteLine_def)
next
  case False
  then show ?thesis by (simp add: unquoteLine_def quoteLine_def)
qed

lemma quoted_no_separator [simp]: "\<not> separator (quoteLine l)"
proof (cases "isFromLine l")
  case True
  then show ?thesis by (simp add: quoteLine_def separator_def)
next
  case False
  moreover have "separator l \<Longrightarrow> isFromLine l"
    by (cases l) (auto simp: separator_def isFromLine_def)
  ultimately show ?thesis by (auto simp: quoteLine_def)
qed

lemma quoteFromLines_pieces: "quoteFromLines body = concat (map quoteLine (splitAfter body))"
proof -
  have "quoteLine = (\<lambda>line. if isFromLine line then CHR ''>'' # line else line)" by (simp add: fun_eq_iff quoteLine_def)
  moreover have "quoteLine [] = []" by (simp add: quoteLine_def isFromLine_def)
  ultimately show ?thesis by (cases "body = []") (simp_all add: quoteFromLines_def)
qed

lemma quote_closed:
  "quoteFromLines raw @ (if raw = [] \<or> last raw \<noteq> LF then [LF] else []) = quoteFromLines (closed raw)"
proof -
  obtain ls x where raw: "raw = concat ls @ x" and ls: "\<forall>l \<in> set ls. is_line l" and x: "LF \<notin> set x"
    and pieces: "splitAfter raw = ls @ [x]" by (rule string_lines)
  show ?thesis
  proof (cases "raw = [] \<or> last raw \<noteq> LF")
    case True
    have "splitAfter (concat ls @ x @ [LF]) = ls @ [x @ [LF], []]" using ls
    proof (induction ls)
      case (Cons l ls)
      then obtain y where "l = y @ [LF]" "LF \<notin> set y" by (auto simp: is_line_def)
      with Cons show ?case by (simp add: splitAfter_line)
    qed (simp add: splitAfter_line x)
    with True raw pieces show ?thesis by (simp add: closed_def quoteFromLines_pieces quoteLine_snoc) (simp add: quoteLine_def isFromLine_def)
  qed (simp add: closed_def)
qed

lemma closed_lines:
  obtains ls where "closed raw = concat ls" and "\<forall>l \<in> set ls. is_line l" and "quoteFromLines (closed raw) = concat (map quoteLine ls)"
proof -
  obtain ls x where c: "closed raw = concat ls @ x" and ls: "\<forall>l \<in> set ls. is_line l" and x: "LF \<notin> set x"
    and pieces: "splitAfter (closed raw) = ls @ [x]" by (rule string_lines)
  have "closed raw \<noteq> []" "last (closed raw) = LF" by (auto simp: closed_def)
  with c x have "x = []" by (cases x rule: rev_cases) auto
  with that c ls pieces show thesis by (simp add: quoteFromLines_pieces quoteLine_def isFromLine_def)
qed

subsection \<open>Reading back\<close>

lemma read_msgs_skip: "\<forall>l \<in> set ls. \<not> separator l \<Longrightarrow> read_msgs (ls @ rest) = read_msgs rest"
  by (induction ls) auto

lemma read_msgs_message:
  assumes "separator h" and "\<forall>l \<in> set ls. \<not> separator l" and "rest = [] \<or> separator (hd rest)"
  shows "read_msgs (h # ls @ rest) = ls # read_msgs rest"
proof -
  have "takeWhile (\<lambda>x. \<not> separator x) (ls @ rest) = ls"
    using assms(2,3) by (cases rest) (auto simp: takeWhile_append)
  with assms(1) read_msgs_skip [OF assms(2)] show ?thesis by simp
qed

text \<open>One entry of the stream: its separator line, the quoted lines and the blank line.\<close>

definition entry_lines :: "string \<times> string \<times> string \<Rightarrow> string list" where
  "entry_lines m = (case m of (from, date, raw) \<Rightarrow>
     (''From '' @ stripLineBreaks (if from = [] then ''MAILER-DAEMON'' else from) @ '' '' @ date @ [LF])
       # map quoteLine (mbox_lines (closed raw)) @ [[LF]])"

lemma strip_no_breaks: "set (stripLineBreaks x) \<inter> {CR, LF} = {}"
  by (auto simp: stripLineBreaks_def list_ex_iff)

lemma WriteMessage_lines:
  assumes "LF \<notin> set date"
  shows "WriteMessage w from date raw = w @ concat (entry_lines (from, date, raw))"
    and "\<forall>l \<in> set (entry_lines (from, date, raw)). is_line l"
    and "concat (map unquoteLine (butlast (tl (entry_lines (from, date, raw))))) = closed raw"
proof -
  obtain ls where c: "closed raw = concat ls" and ls: "\<forall>l \<in> set ls. is_line l"
    and q: "quoteFromLines (closed raw) = concat (map quoteLine ls)" by (rule closed_lines)
  have lines: "mbox_lines (closed raw) = ls" using mbox_lines_concat [OF ls, of "[]"] c by simp
  show "WriteMessage w from date raw = w @ concat (entry_lines (from, date, raw))"
    using quote_closed [of raw] q by (auto simp: WriteMessage_def Let_def entry_lines_def lines split: if_splits)
  have "is_line (''From '' @ stripLineBreaks y @ '' '' @ date @ [LF])" for y
    using assms strip_no_breaks [of y] by (auto simp: is_line_def intro!: exI [of _ "''From '' @ stripLineBreaks y @ '' '' @ date"])
  moreover have "is_line [LF]" by (auto simp: is_line_def)
  ultimately show "\<forall>l \<in> set (entry_lines (from, date, raw)). is_line l"
    using ls quoteLine_is_line by (auto simp: entry_lines_def lines simp del: append.simps)
  show "concat (map unquoteLine (butlast (tl (entry_lines (from, date, raw))))) = closed raw"
    by (simp add: entry_lines_def lines o_def) (simp add: c)
qed

lemma write_all_lines:
  "\<forall>(from, date, raw) \<in> set ms. LF \<notin> set date \<Longrightarrow> write_all w ms = w @ concat (concat (map entry_lines ms))"
  by (induction w ms rule: write_all.induct) (auto simp: WriteMessage_lines(1))

lemma read_entries: "read_msgs (concat (map entry_lines ms)) = map (\<lambda>m. tl (entry_lines m)) ms"
proof (induction ms)
  case (Cons m ms)
  obtain sender date raw where m: "m = (sender, date, raw)" by (cases m)
  let ?h = "''From '' @ stripLineBreaks (if sender = [] then ''MAILER-DAEMON'' else sender) @ '' '' @ date @ [LF]"
  have "separator ?h" by (simp add: separator_def)
  moreover have "\<forall>l \<in> set (map quoteLine (mbox_lines (closed raw)) @ [[LF]]). \<not> separator l"
    by (auto simp: separator_def [of "[LF]"])
  moreover have "concat (map entry_lines ms) = [] \<or> separator (hd (concat (map entry_lines ms)))"
    by (cases ms) (auto simp: entry_lines_def separator_def split: prod.splits)
  ultimately have "read_msgs (?h # (map quoteLine (mbox_lines (closed raw)) @ [[LF]]) @ concat (map entry_lines ms))
      = (map quoteLine (mbox_lines (closed raw)) @ [[LF]]) # read_msgs (concat (map entry_lines ms))"
    by (rule read_msgs_message)
  moreover have "entry_lines m = ?h # map quoteLine (mbox_lines (closed raw)) @ [[LF]]"
    by (simp only: m entry_lines_def prod.case)
  ultimately show ?case using Cons by simp
qed simp

subsection \<open>Properties\<close>

text \<open>
  C8: The export is lossless and its message boundaries cannot be forged: reading back the stream
  written for any sequence of messages, whatever their senders and bodies contain, gives exactly
  these messages, each closed by a line feed, provided the formatted dates have no line breaks.\<close>

theorem mbox_roundtrip:
  assumes "\<forall>(from, date, raw) \<in> set ms. LF \<notin> set date"
  shows "read_mbox (write_all [] ms) = map (\<lambda>(from, date, raw). closed raw) ms"
proof -
  have lines: "\<forall>l \<in> set (concat (map entry_lines ms)). is_line l"
    using assms WriteMessage_lines(2) by fastforce
  have "mbox_lines (write_all [] ms) = concat (map entry_lines ms)"
    using mbox_lines_concat [OF lines, of "[]"] write_all_lines [OF assms, of "[]"] by simp
  then have "read_mbox (write_all [] ms) = map (\<lambda>m. concat (map unquoteLine (butlast (tl (entry_lines m))))) ms"
    by (simp add: read_mbox_def read_entries)
  also have "\<dots> = map (\<lambda>(from, date, raw). closed raw) ms"
    using assms WriteMessage_lines(3) by (auto intro!: map_cong)
  finally show ?thesis .
qed

theorem mbox_roundtrip_witness:
  "read_mbox (write_all [] [(''a@b'' @ [LF] @ ''From x'', ''Thu Jan  1 00:00:00 1970'', ''From me'' @ [LF] @ ''>From you''), ([], ''Fri'', [])])
     = [''From me'' @ [LF] @ ''>From you'' @ [LF], [LF]]"
  using mbox_roundtrip [of "[(''a@b'' @ [LF] @ ''From x'', ''Thu Jan  1 00:00:00 1970'', ''From me'' @ [LF] @ ''>From you''), ([], ''Fri'', [])]"]
  by (simp add: closed_def)

text \<open>
  Quoting is reversible byte for byte, and no line of a quoted body can be taken for a separator.\<close>

lemma quoting_reversible:
  "unquoteFromLines (quoteFromLines body) = body \<and> \<not> list_ex separator (splitAfter (quoteFromLines body))"
proof -
  obtain ls x where b: "body = concat ls @ x" and ls: "\<forall>l \<in> set ls. is_line l" and x: "LF \<notin> set x"
    and pieces: "splitAfter body = ls @ [x]" by (rule string_lines)
  have "splitAfter (concat (map quoteLine ls) @ quoteLine x) = map quoteLine (ls @ [x])" using ls
  proof (induction ls)
    case Nil
    have "LF \<notin> set (quoteLine x)" using x by (simp add: quoteLine_def)
    then show ?case by (simp add: splitAfter_no_LF)
  next
    case (Cons l ls)
    then obtain y where "quoteLine l = y @ [LF]" "LF \<notin> set y" using quoteLine_is_line [of l] by (auto simp: is_line_def)
    with Cons show ?case by (simp add: splitAfter_line)
  qed
  then have "splitAfter (quoteFromLines body) = map quoteLine (splitAfter body)"
    by (simp add: quoteFromLines_pieces pieces)
  then show ?thesis using b pieces by (simp add: unquoteFromLines_def o_def list_ex_iff)
qed

end
