(* ===== verification/Approval.thy ===== *)
theory Approval
  imports Prelude
begin

text \<open>
  The admin approval workflow of \<^verbatim>\<open>internal/approval/service.go\<close>. The tables \<^verbatim>\<open>approval_requests\<close> (in
  insertion order) and \<^verbatim>\<open>approval_config\<close> are the store; every operation is one transaction that first
  announces its tenant. \<open>uuid\<close> is the cast of a text to \<^verbatim>\<open>uuid\<close> (\<open>None\<close> on a malformed text); a failed
  cast, a missing row or a violated constraint is \<open>ErrDB\<close>. \<open>now\<close> is the database clock of the
  transaction.
\<close>

subsection \<open>Data\<close>

datatype Status = StatusPending | StatusApproved | StatusRejected | StatusExpired

datatype approval_error =
    ErrMissing string | ErrNoPool | ErrDB | ErrNoRows | ErrNotApproved Status | ErrNoExecutor

record Request =
  req_ID :: string
  req_TenantID :: string
  req_RequesterID :: string
  req_Action :: string
  req_TargetResource :: string
  req_Status :: Status
  req_ApproverID :: "string option"
  req_Reason :: string
  req_CreatedAt :: time
  req_ResolvedAt :: "time option"
  req_ExpiresAt :: time

record approval_store =
  requests :: "Request list"
  config :: "string \<times> string \<Rightarrow> bool option"

type_synonym uuid_cast = "string \<Rightarrow> string option"

text \<open>The default of \<^verbatim>\<open>expires_at\<close>: seven days.\<close>

definition expiry_interval :: duration where
  "expiry_interval = 7 * 24 * 3600 * nanos_per_s"

subsection \<open>Operations\<close>

definition RequiresApproval :: "uuid_cast \<Rightarrow> approval_store option \<Rightarrow> string \<Rightarrow> string \<Rightarrow> bool" where
  "RequiresApproval uuid pool tenantID action =
     (case pool of
        None \<Rightarrow> False
      | Some st \<Rightarrow>
          if tenantID = [] then False
          else (case uuid tenantID of
              None \<Rightarrow> False
            | Some tid \<Rightarrow> (case config st (tid, action) of None \<Rightarrow> False | Some b \<Rightarrow> b)))"

definition CreateRequest ::
    "uuid_cast \<Rightarrow> (string \<Rightarrow> bool) \<Rightarrow> approval_store option \<Rightarrow> string \<Rightarrow> time \<Rightarrow> string \<Rightarrow> string \<Rightarrow> string \<Rightarrow> string
     \<Rightarrow> approval_store option \<times> (approval_error + Request)" where
  "CreateRequest uuid known pool nid now tenantID requesterID action target =
     (if tenantID = [] \<or> requesterID = [] \<or> action = [] then (pool, Inl (ErrMissing ''tenant, requester, action''))
      else case pool of
          None \<Rightarrow> (None, Inl ErrNoPool)
        | Some st \<Rightarrow>
            (case uuid tenantID of
               None \<Rightarrow> (pool, Inl ErrDB)
             | Some tid \<Rightarrow>
                 if \<not> known tid \<or> nid \<in> req_ID ` set (requests st) then (pool, Inl ErrDB)
                 else let r = \<lparr>req_ID = nid, req_TenantID = tid, req_RequesterID = requesterID, req_Action = action,
                               req_TargetResource = target, req_Status = StatusPending, req_ApproverID = None,
                               req_Reason = [], req_CreatedAt = now, req_ResolvedAt = None,
                               req_ExpiresAt = now + expiry_interval\<rparr>
                   in (Some (st\<lparr>requests := requests st @ [r]\<rparr>), Inr r)))"

text \<open>An \<^verbatim>\<open>UPDATE ... WHERE id AND tenant_id AND status = 'pending' RETURNING\<close>.\<close>

definition update_where :: "(Request \<Rightarrow> bool) \<Rightarrow> (Request \<Rightarrow> Request) \<Rightarrow> Request list \<Rightarrow> Request list" where
  "update_where P f rs = map (\<lambda>r. if P r then f r else r) rs"

definition resolve ::
    "uuid_cast \<Rightarrow> approval_store option \<Rightarrow> time \<Rightarrow> string \<Rightarrow> string \<Rightarrow> string \<Rightarrow> Status
     \<Rightarrow> approval_store option \<times> (approval_error + Request)" where
  "resolve uuid pool now tenantID approvalID approverID status =
     (if tenantID = [] then (pool, Inl (ErrMissing ''tenantID''))
      else case pool of
          None \<Rightarrow> (None, Inl ErrNoPool)
        | Some st \<Rightarrow>
            (case (uuid tenantID, uuid approvalID) of
               (Some tid, Some rid) \<Rightarrow>
                 let P = (\<lambda>r. req_ID r = rid \<and> req_TenantID r = tid \<and> req_Status r = StatusPending);
                     f = (\<lambda>r. r\<lparr>req_Status := status, req_ApproverID := Some approverID, req_ResolvedAt := Some now\<rparr>)
                 in (case filter P (requests st) of
                       [] \<Rightarrow> (pool, Inl ErrNoRows)
                     | r # _ \<Rightarrow> (Some (st\<lparr>requests := update_where P f (requests st)\<rparr>), Inr (f r)))
             | _ \<Rightarrow> (pool, Inl ErrDB)))"

definition ApproveRequest ::
    "uuid_cast \<Rightarrow> approval_store option \<Rightarrow> time \<Rightarrow> string \<Rightarrow> string \<Rightarrow> string
     \<Rightarrow> approval_store option \<times> (approval_error + Request)" where
  "ApproveRequest uuid pool now tenantID approvalID approverID =
     resolve uuid pool now tenantID approvalID approverID StatusApproved"

definition set_reason :: "uuid_cast \<Rightarrow> approval_store option \<Rightarrow> string \<Rightarrow> string \<Rightarrow> string \<Rightarrow> approval_store option" where
  "set_reason uuid pool tenantID approvalID reason =
     (case (pool, uuid tenantID, uuid approvalID) of
        (Some st, Some tid, Some rid) \<Rightarrow>
          Some (st\<lparr>requests := update_where (\<lambda>r. req_ID r = rid \<and> req_TenantID r = tid)
                                 (\<lambda>r. r\<lparr>req_Reason := reason\<rparr>) (requests st)\<rparr>)
      | _ \<Rightarrow> pool)"

definition RejectRequest ::
    "uuid_cast \<Rightarrow> approval_store option \<Rightarrow> time \<Rightarrow> string \<Rightarrow> string \<Rightarrow> string \<Rightarrow> string
     \<Rightarrow> approval_store option \<times> (approval_error + Request)" where
  "RejectRequest uuid pool now tenantID approvalID approverID reason =
     (case resolve uuid pool now tenantID approvalID approverID StatusRejected of
        (pool', Inl e) \<Rightarrow> (pool', Inl e)
      | (pool', Inr r) \<Rightarrow>
          if reason \<noteq> [] then (set_reason uuid pool' tenantID approvalID reason, Inr (r\<lparr>req_Reason := reason\<rparr>))
          else (pool', Inr r))"

definition ListPendingRequests :: "uuid_cast \<Rightarrow> approval_store option \<Rightarrow> time \<Rightarrow> string \<Rightarrow> approval_error + Request list" where
  "ListPendingRequests uuid pool now tenantID =
     (case pool of
        None \<Rightarrow> Inr []
      | Some st \<Rightarrow>
          if tenantID = [] then Inr []
          else (case uuid tenantID of
              None \<Rightarrow> Inl ErrDB
            | Some tid \<Rightarrow> Inr (sort_key (\<lambda>r. - req_CreatedAt r)
                (filter (\<lambda>r. req_TenantID r = tid \<and> req_Status r = StatusPending \<and> req_ExpiresAt r > now) (requests st)))))"

definition ListAll :: "uuid_cast \<Rightarrow> approval_store option \<Rightarrow> string \<Rightarrow> int \<Rightarrow> approval_error + Request list" where
  "ListAll uuid pool tenantID limit =
     (case pool of
        None \<Rightarrow> Inr []
      | Some st \<Rightarrow>
          if tenantID = [] then Inr []
          else let n = (if limit \<le> 0 \<or> limit > 200 then 50 else limit)
            in (case uuid tenantID of
              None \<Rightarrow> Inl ErrDB
            | Some tid \<Rightarrow> Inr (take (nat n) (sort_key (\<lambda>r. - req_CreatedAt r)
                (filter (\<lambda>r. req_TenantID r = tid) (requests st))))))"

text \<open>
  \<open>executors\<close> are the registered callbacks. The result is the outcome with the request handed to the
  executor, if one was called.
\<close>

definition ExecuteApproved ::
    "uuid_cast \<Rightarrow> (string \<Rightarrow> (Request \<Rightarrow> approval_error option) option) \<Rightarrow> approval_store option \<Rightarrow> string \<Rightarrow> string
     \<Rightarrow> approval_error option \<times> Request option" where
  "ExecuteApproved uuid executors pool tenantID approvalID =
     (if tenantID = [] then (Some (ErrMissing ''tenantID''), None)
      else case pool of
          None \<Rightarrow> (Some ErrNoPool, None)
        | Some st \<Rightarrow>
            (case (uuid tenantID, uuid approvalID) of
               (Some tid, Some rid) \<Rightarrow>
                 (case filter (\<lambda>r. req_ID r = rid \<and> req_TenantID r = tid) (requests st) of
                    [] \<Rightarrow> (Some ErrNoRows, None)
                  | r # _ \<Rightarrow>
                      if req_Status r \<noteq> StatusApproved then (Some (ErrNotApproved (req_Status r)), None)
                      else (case executors (req_Action r) of
                          None \<Rightarrow> (Some ErrNoExecutor, None)
                        | Some exec \<Rightarrow> (exec r, Some r)))
             | _ \<Rightarrow> (Some ErrDB, None)))"

definition SetActionConfig ::
    "uuid_cast \<Rightarrow> (string \<Rightarrow> bool) \<Rightarrow> approval_store option \<Rightarrow> string \<Rightarrow> string \<Rightarrow> bool
     \<Rightarrow> approval_store option \<times> approval_error option" where
  "SetActionConfig uuid known pool tenantID action requires =
     (if tenantID = [] then (pool, Some (ErrMissing ''tenantID''))
      else case pool of
          None \<Rightarrow> (None, Some ErrNoPool)
        | Some st \<Rightarrow>
            (case uuid tenantID of
               None \<Rightarrow> (pool, Some ErrDB)
             | Some tid \<Rightarrow>
                 if \<not> known tid then (pool, Some ErrDB)
                 else (Some (st\<lparr>config := (config st)((tid, action) := Some requires)\<rparr>), None)))"

definition ListActionConfig :: "uuid_cast \<Rightarrow> approval_store option \<Rightarrow> string \<Rightarrow> approval_error + (string \<rightharpoonup> bool)" where
  "ListActionConfig uuid pool tenantID =
     (case pool of
        None \<Rightarrow> Inr Map.empty
      | Some st \<Rightarrow>
          if tenantID = [] then Inr Map.empty
          else (case uuid tenantID of
              None \<Rightarrow> Inl ErrDB
            | Some tid \<Rightarrow> Inr (\<lambda>a. config st (tid, a))))"

subsection \<open>Runs of the workflow\<close>

text \<open>
  The state of a run: the store, the resolutions confirmed to their callers (per request the tenant,
  the outcome and the approver), and the requests handed to executors.
\<close>

record approval_run =
  run_store :: approval_store
  run_resolved :: "(string \<times> string \<times> Status \<times> string option) list"
  run_executed :: "Request list"

definition confirm :: "Request \<Rightarrow> string \<times> string \<times> Status \<times> string option" where
  "confirm r = (req_ID r, req_TenantID r, req_Status r, req_ApproverID r)"

inductive approval_step ::
    "uuid_cast \<Rightarrow> (string \<Rightarrow> bool) \<Rightarrow> (string \<Rightarrow> (Request \<Rightarrow> approval_error option) option) \<Rightarrow> approval_run \<Rightarrow> approval_run \<Rightarrow> bool"
  for uuid known execs where
  do_create: "CreateRequest uuid known (Some (run_store y)) nid now tenantID requesterID action target = (Some st, res)
    \<Longrightarrow> approval_step uuid known execs y (y\<lparr>run_store := st\<rparr>)"
| do_approve: "ApproveRequest uuid (Some (run_store y)) now tenantID approvalID approverID = (Some st, Inr r)
    \<Longrightarrow> approval_step uuid known execs y (y\<lparr>run_store := st, run_resolved := confirm r # run_resolved y\<rparr>)"
| do_reject: "RejectRequest uuid (Some (run_store y)) now tenantID approvalID approverID reason = (Some st, Inr r)
    \<Longrightarrow> approval_step uuid known execs y (y\<lparr>run_store := st, run_resolved := confirm r # run_resolved y\<rparr>)"
| do_approve_refused: "ApproveRequest uuid (Some (run_store y)) now tenantID approvalID approverID = (Some st, Inl e)
    \<Longrightarrow> approval_step uuid known execs y (y\<lparr>run_store := st\<rparr>)"
| do_reject_refused: "RejectRequest uuid (Some (run_store y)) now tenantID approvalID approverID reason = (Some st, Inl e)
    \<Longrightarrow> approval_step uuid known execs y (y\<lparr>run_store := st\<rparr>)"
| do_execute: "ExecuteApproved uuid execs (Some (run_store y)) tenantID approvalID = (out, Some r)
    \<Longrightarrow> approval_step uuid known execs y (y\<lparr>run_executed := r # run_executed y\<rparr>)"
| do_config: "SetActionConfig uuid known (Some (run_store y)) tenantID action requires = (Some st, out)
    \<Longrightarrow> approval_step uuid known execs y (y\<lparr>run_store := st\<rparr>)"

definition no_requests :: approval_run where
  "no_requests = \<lparr>run_store = \<lparr>requests = [], config = (\<lambda>_. None)\<rparr>, run_resolved = [], run_executed = []\<rparr>"

subsection \<open>What the calls do to the table\<close>

definition settled :: "Status \<Rightarrow> string \<Rightarrow> time \<Rightarrow> Request \<Rightarrow> Request" where
  "settled status approver now r = r\<lparr>req_Status := status, req_ApproverID := Some approver, req_ResolvedAt := Some now\<rparr>"

definition open_request :: "string \<Rightarrow> string \<Rightarrow> Request \<Rightarrow> bool" where
  "open_request rid tid r \<longleftrightarrow> req_ID r = rid \<and> req_TenantID r = tid \<and> req_Status r = StatusPending"

lemma resolve_success:
  assumes "resolve uuid (Some st) now tenantID approvalID approverID status = (pool', Inr r')"
  obtains tid rid r where "uuid tenantID = Some tid" and "uuid approvalID = Some rid" and "r \<in> set (requests st)"
    and "open_request rid tid r" and "r' = settled status approverID now r"
    and "pool' = Some (st\<lparr>requests := update_where (open_request rid tid) (settled status approverID now) (requests st)\<rparr>)"
proof -
  from assms obtain tid rid where ids: "uuid tenantID = Some tid" "uuid approvalID = Some rid"
    by (auto simp: resolve_def split: if_splits option.splits)
  have fold: "(\<lambda>r. req_ID r = rid \<and> req_TenantID r = tid \<and> req_Status r = StatusPending) = open_request rid tid"
    "(\<lambda>r. r\<lparr>req_Status := status, req_ApproverID := Some approverID, req_ResolvedAt := Some now\<rparr>) = settled status approverID now"
    by (simp_all add: fun_eq_iff open_request_def settled_def)
  from assms ids obtain r rest where f: "filter (open_request rid tid) (requests st) = r # rest"
    by (cases "filter (open_request rid tid) (requests st)") (auto simp: resolve_def Let_def fold split: if_splits)
  then have "r \<in> set (filter (open_request rid tid) (requests st))" by simp
  then have r: "r \<in> set (requests st)" "open_request rid tid r" by simp_all
  have "r' = settled status approverID now r"
    and "pool' = Some (st\<lparr>requests := update_where (open_request rid tid) (settled status approverID now) (requests st)\<rparr>)"
    using assms ids f by (auto simp: resolve_def Let_def fold settled_def split: if_splits)
  with ids r that show thesis by blast
qed

lemma resolve_failure:
  "resolve uuid (Some st) now tenantID approvalID approverID status = (pool', Inl e) \<Longrightarrow> pool' = Some st"
  by (auto simp: resolve_def Let_def split: if_splits option.splits list.splits)

lemma ids_update:
  assumes "\<And>r. req_ID (f r) = req_ID r"
  shows "map req_ID (update_where P f rs) = map req_ID rs"
  using assms by (induction rs) (auto simp: update_where_def)

lemma settled_simps [simp]: "req_ID (settled s a n r) = req_ID r" "req_TenantID (settled s a n r) = req_TenantID r"
  "req_Status (settled s a n r) = s" "req_ApproverID (settled s a n r) = Some a"
  by (simp_all add: settled_def)

text \<open>
  The table and the confirmed resolutions agree: a pending row has none, a settled row exactly the one
  that was confirmed; and only requests confirmed as approved were executed.
\<close>

definition resolution :: "Request \<Rightarrow> (string \<times> Status \<times> string option) option" where
  "resolution r = (if req_Status r = StatusPending then None else Some (req_TenantID r, req_Status r, req_ApproverID r))"

definition log_of :: "(string \<times> string \<times> Status \<times> string option) list \<Rightarrow> string \<Rightarrow> (string \<times> Status \<times> string option) option" where
  "log_of log = map_of log"

lemma log_of_simps [simp]: "log_of [] i = None" "log_of (c # log) i = (if i = fst c then Some (snd c) else log_of log i)"
  by (simp_all add: log_of_def)

lemma log_of_None: "log_of log i = None \<longleftrightarrow> i \<notin> fst ` set log"
  by (simp add: log_of_def map_of_eq_None_iff)

definition table_inv :: "Request list \<Rightarrow> (string \<times> string \<times> Status \<times> string option) list \<Rightarrow> bool" where
  "table_inv rs log \<longleftrightarrow>
     distinct (map req_ID rs) \<and> distinct (map fst log) \<and> fst ` set log \<subseteq> req_ID ` set rs
     \<and> (\<forall>r \<in> set rs. log_of log (req_ID r) = resolution r)"

definition approval_inv :: "approval_run \<Rightarrow> bool" where
  "approval_inv y \<longleftrightarrow> table_inv (requests (run_store y)) (run_resolved y)
     \<and> (\<forall>r \<in> set (run_executed y). log_of (run_resolved y) (req_ID r) = Some (req_TenantID r, StatusApproved, req_ApproverID r))"

lemma table_settle:
  assumes inv: "table_inv rs log" and r: "r \<in> set rs" "open_request rid tid r" and "status \<noteq> StatusPending"
  shows "table_inv (update_where (open_request rid tid) (settled status a now) rs) (confirm (settled status a now r) # log)"
    and "log_of log rid = None"
proof -
  let ?rs = "update_where (open_request rid tid) (settled status a now) rs"
  have dist: "distinct (map req_ID rs)" using inv by (simp add: table_inv_def)
  have "log_of log (req_ID r) = resolution r" using inv r(1) unfolding table_inv_def by blast
  then have "log_of log (req_ID r) = None" using r(2) by (simp add: resolution_def open_request_def)
  then show none: "log_of log rid = None" using r(2) by (simp add: open_request_def)
  have one: "x = r" if "x \<in> set rs" "req_ID x = rid" for x
    using that r dist by (auto simp: open_request_def distinct_map dest: inj_onD)
  have rows: "log_of (confirm (settled status a now r) # log) (req_ID x) = resolution x" if x: "x \<in> set ?rs" for x
  proof -
    from x obtain z where z: "z \<in> set rs" "x = (if open_request rid tid z then settled status a now z else z)"
      by (auto simp: update_where_def)
    show ?thesis
    proof (cases "req_ID z = rid")
      case True
      with one z r assms(4) show ?thesis by (simp add: confirm_def resolution_def)
    next
      case False
      with z r(2) inv show ?thesis by (simp add: table_inv_def confirm_def open_request_def)
    qed
  qed
  have fresh: "rid \<notin> fst ` set log" using none by (metis log_of_None)
  have ids: "map req_ID ?rs = map req_ID rs" by (rule ids_update) simp
  then have "req_ID ` set ?rs = req_ID ` set rs" by (metis set_map)
  then have sub: "fst ` set (confirm (settled status a now r) # log) \<subseteq> req_ID ` set ?rs"
    using inv r(1) by (simp add: table_inv_def confirm_def)
  have "distinct (map fst (confirm (settled status a now r) # log))"
    using inv fresh r(2) by (simp add: table_inv_def confirm_def open_request_def)
  with sub rows dist ids show "table_inv ?rs (confirm (settled status a now r) # log)"
    unfolding table_inv_def by simp
qed

lemma table_reason:
  assumes "table_inv rs log"
  shows "table_inv (update_where P (\<lambda>r. r\<lparr>req_Reason := x\<rparr>) rs) log"
proof -
  have ids: "map req_ID (update_where P (\<lambda>r. r\<lparr>req_Reason := x\<rparr>) rs) = map req_ID rs" by (rule ids_update) simp
  then have "req_ID ` set (update_where P (\<lambda>r. r\<lparr>req_Reason := x\<rparr>) rs) = req_ID ` set rs" by (metis set_map)
  moreover have "log_of log (req_ID r) = resolution r" if "r \<in> set (update_where P (\<lambda>r. r\<lparr>req_Reason := x\<rparr>) rs)" for r
  proof -
    from that obtain z where "z \<in> set rs" "req_ID r = req_ID z" "resolution r = resolution z"
      by (auto simp: update_where_def resolution_def)
    with assms show ?thesis by (simp add: table_inv_def)
  qed
  ultimately show ?thesis using assms ids by (simp add: table_inv_def)
qed

lemma table_create:
  assumes "table_inv rs log" and "req_ID r \<notin> req_ID ` set rs" and "req_Status r = StatusPending"
  shows "table_inv (rs @ [r]) log"
proof -
  have "req_ID r \<notin> fst ` set log" using assms(1,2) by (auto simp: table_inv_def)
  then have "log_of log (req_ID r) = None" by (metis log_of_None)
  with assms show ?thesis by (auto simp: table_inv_def resolution_def)
qed

lemma execute_approved:
  assumes "ExecuteApproved uuid execs (Some st) tenantID approvalID = (out, Some r)"
  shows "r \<in> set (requests st) \<and> req_Status r = StatusApproved \<and> uuid tenantID = Some (req_TenantID r) \<and> uuid approvalID = Some (req_ID r)"
proof -
  from assms obtain tid rid where ids: "uuid tenantID = Some tid" "uuid approvalID = Some rid"
    by (auto simp: ExecuteApproved_def split: if_splits option.splits)
  let ?P = "\<lambda>r. req_ID r = rid \<and> req_TenantID r = tid"
  from assms ids obtain rest where f: "filter ?P (requests st) = r # rest" and "req_Status r = StatusApproved"
    by (cases "filter ?P (requests st)") (auto simp: ExecuteApproved_def split: if_splits option.splits)
  moreover have "r \<in> set (filter ?P (requests st))" unfolding f by simp
  then have "r \<in> set (requests st) \<and> ?P r" by simp
  ultimately show ?thesis using ids by simp
qed

lemma reject_success:
  assumes "RejectRequest uuid (Some st) now tenantID approvalID approverID reason = (Some st', Inr r)"
  obtains st1 r1 P where "resolve uuid (Some st) now tenantID approvalID approverID StatusRejected = (Some st1, Inr r1)"
    and "confirm r = confirm r1" and "requests st' = update_where P (\<lambda>x. x\<lparr>req_Reason := reason\<rparr>) (requests st1)"
proof -
  obtain p x where res: "resolve uuid (Some st) now tenantID approvalID approverID StatusRejected = (p, x)" by fastforce
  with assms obtain r1 where x: "x = Inr r1" by (cases x) (auto simp: RejectRequest_def)
  with res obtain st1 where p: "p = Some st1" by (auto elim: resolve_success)
  obtain tid rid where ids: "uuid tenantID = Some tid" "uuid approvalID = Some rid"
    using res x by (auto elim: resolve_success)
  have none: "requests st1 = update_where (\<lambda>_. False) (\<lambda>x. x\<lparr>req_Reason := reason\<rparr>) (requests st1)"
    by (simp add: update_where_def)
  show thesis
  proof (cases "reason = []")
    case True
    then have "r = r1" "st' = st1" using assms res x p by (simp_all add: RejectRequest_def)
    then show thesis using that [of st1 r1 "\<lambda>_. False"] res x p none by simp
  next
    case False
    then have "r = r1\<lparr>req_Reason := reason\<rparr>"
      and "requests st' = update_where (\<lambda>r. req_ID r = rid \<and> req_TenantID r = tid) (\<lambda>x. x\<lparr>req_Reason := reason\<rparr>) (requests st1)"
      using assms res x p ids by (auto simp: RejectRequest_def set_reason_def)
    then show thesis using that [of st1 r1] res x p by (simp add: confirm_def)
  qed
qed

lemma confirmed_executed:
  assumes inv: "approval_inv y" and fresh: "log_of (run_resolved y) (fst c) = None"
    and "r \<in> set (run_executed y)"
  shows "log_of (c # run_resolved y) (req_ID r) = Some (req_TenantID r, StatusApproved, req_ApproverID r)"
proof -
  have "log_of (run_resolved y) (req_ID r) = Some (req_TenantID r, StatusApproved, req_ApproverID r)"
    using inv assms(3) by (simp add: approval_inv_def)
  with fresh show ?thesis by (cases c) auto
qed

lemma approval_step_inv:
  assumes "approval_step uuid known execs y y'" and inv: "approval_inv y"
  shows "approval_inv y'"
  using assms(1)
proof (cases rule: approval_step.cases)
  case (do_create nid now tenantID requesterID action target st res)
  then consider "st = run_store y" | r where "st = (run_store y)\<lparr>requests := requests (run_store y) @ [r]\<rparr>"
      "req_ID r \<notin> req_ID ` set (requests (run_store y))" "req_Status r = StatusPending"
    by (auto simp: CreateRequest_def Let_def split: if_splits option.splits)
  then show ?thesis using inv do_create(1) by cases (simp_all add: approval_inv_def table_create)
next
  case (do_approve now tenantID approvalID approverID st r)
  from do_approve(2) obtain tid rid r0 where r0: "r0 \<in> set (requests (run_store y))" "open_request rid tid r0"
    and r: "r = settled StatusApproved approverID now r0"
    and st: "st = (run_store y)\<lparr>requests := update_where (open_request rid tid) (settled StatusApproved approverID now) (requests (run_store y))\<rparr>"
    unfolding ApproveRequest_def by (rule resolve_success) auto
  have "table_inv (requests (run_store y)) (run_resolved y)" using inv by (simp add: approval_inv_def)
  note settle = table_settle(1) [OF this r0, of StatusApproved approverID now] table_settle(2) [OF this r0, of StatusApproved]
  have "log_of (run_resolved y) (fst (confirm r)) = None" using settle(2) r r0 by (simp add: confirm_def open_request_def)
  with settle(1) r st confirmed_executed [OF inv this] do_approve(1) show ?thesis by (simp add: approval_inv_def)
next
  case (do_reject now tenantID approvalID approverID reason st r)
  from do_reject(2) obtain st1 r1 P where res: "resolve uuid (Some (run_store y)) now tenantID approvalID approverID StatusRejected = (Some st1, Inr r1)"
    and c: "confirm r = confirm r1" and st: "requests st = update_where P (\<lambda>x. x\<lparr>req_Reason := reason\<rparr>) (requests st1)"
    by (rule reject_success)
  from res obtain tid rid r0 where r0: "r0 \<in> set (requests (run_store y))" "open_request rid tid r0"
    and r1: "r1 = settled StatusRejected approverID now r0"
    and st1: "st1 = (run_store y)\<lparr>requests := update_where (open_request rid tid) (settled StatusRejected approverID now) (requests (run_store y))\<rparr>"
    by (rule resolve_success) auto
  have "table_inv (requests (run_store y)) (run_resolved y)" using inv by (simp add: approval_inv_def)
  note settle = table_settle(1) [OF this r0, of StatusRejected approverID now] table_settle(2) [OF this r0, of StatusRejected]
  then have tab: "table_inv (requests st) (confirm r # run_resolved y)" using st st1 c r1 by (simp add: table_reason)
  have "log_of (run_resolved y) (fst (confirm r)) = None" using settle(2) c r1 r0 by (simp add: confirm_def open_request_def)
  from confirmed_executed [OF inv this] tab do_reject(1) show ?thesis by (simp add: approval_inv_def)
next
  case (do_approve_refused now tenantID approvalID approverID st e)
  then have "st = run_store y" by (auto simp: ApproveRequest_def dest: resolve_failure)
  with inv do_approve_refused(1) show ?thesis by (simp add: approval_inv_def)
next
  case (do_reject_refused now tenantID approvalID approverID reason st e)
  then have "st = run_store y"
    by (auto simp: RejectRequest_def split: prod.splits sum.splits if_splits dest: resolve_failure)
  with inv do_reject_refused(1) show ?thesis by (simp add: approval_inv_def)
next
  case (do_execute tenantID approvalID out r)
  with execute_approved [OF do_execute(2)] inv show ?thesis
    by (auto simp: approval_inv_def table_inv_def resolution_def)
next
  case (do_config tenantID action requires st out)
  then have "requests st = requests (run_store y)"
    by (auto simp: SetActionConfig_def split: if_splits option.splits)
  with inv do_config(1) show ?thesis by (simp add: approval_inv_def)
qed

lemma approval_reachable:
  assumes "(approval_step uuid known execs)\<^sup>*\<^sup>* no_requests y"
  shows "approval_inv y"
  using assms
proof (induction rule: rtranclp_induct)
  case base
  show ?case by (simp add: approval_inv_def table_inv_def no_requests_def)
next
  case (step y z)
  then show ?case using approval_step_inv by blast
qed

text \<open>Resolutions and rows are only ever added.\<close>

lemma approval_step_grows:
  assumes "approval_step uuid known execs y y'" and inv: "approval_inv y"
  shows "req_ID ` set (requests (run_store y)) \<subseteq> req_ID ` set (requests (run_store y'))
    \<and> (\<exists>c. run_resolved y' = c @ run_resolved y)"
  using assms(1)
proof (cases rule: approval_step.cases)
  case (do_create nid now tenantID requesterID action target st res)
  then show ?thesis by (auto simp: CreateRequest_def Let_def split: if_splits option.splits)
next
  case (do_approve now tenantID approvalID approverID st r)
  from do_approve(2) have "map req_ID (requests st) = map req_ID (requests (run_store y))"
    unfolding ApproveRequest_def by (rule resolve_success) (simp add: ids_update)
  then show ?thesis using do_approve(1) by simp (metis order_refl set_map)
next
  case (do_reject now tenantID approvalID approverID reason st r)
  from do_reject(2) obtain st1 r1 P where res: "resolve uuid (Some (run_store y)) now tenantID approvalID approverID StatusRejected = (Some st1, Inr r1)"
    and st: "requests st = update_where P (\<lambda>x. x\<lparr>req_Reason := reason\<rparr>) (requests st1)"
    by (rule reject_success)
  from res have "map req_ID (requests st1) = map req_ID (requests (run_store y))"
    by (rule resolve_success) (simp add: ids_update)
  with st have "map req_ID (requests st) = map req_ID (requests (run_store y))" by (simp add: ids_update)
  then show ?thesis using do_reject(1) by simp (metis order_refl set_map)
next
  case (do_approve_refused now tenantID approvalID approverID st e)
  then have "st = run_store y" by (auto simp: ApproveRequest_def dest: resolve_failure)
  with do_approve_refused(1) show ?thesis by simp
next
  case (do_reject_refused now tenantID approvalID approverID reason st e)
  then have "st = run_store y"
    by (auto simp: RejectRequest_def split: prod.splits sum.splits if_splits dest: resolve_failure)
  with do_reject_refused(1) show ?thesis by simp
next
  case (do_config tenantID action requires st out)
  then have "requests st = requests (run_store y)"
    by (auto simp: SetActionConfig_def split: if_splits option.splits)
  with do_config(1) show ?thesis by simp
qed simp

lemma approval_steps_grow:
  assumes "(approval_step uuid known execs)\<^sup>*\<^sup>* y y'" and "approval_inv y"
  shows "approval_inv y' \<and> req_ID ` set (requests (run_store y)) \<subseteq> req_ID ` set (requests (run_store y'))
    \<and> (\<exists>c. run_resolved y' = c @ run_resolved y)"
  using assms(1)
proof (induction rule: rtranclp_induct)
  case base
  then show ?case using assms(2) by simp
next
  case (step y' z)
  then have inv: "approval_inv y'" by blast
  note grow = approval_step_grows [OF step(2) inv]
  from grow step(3) obtain c d where "run_resolved y' = c @ run_resolved y" "run_resolved z = d @ run_resolved y'" by auto
  then have "\<exists>c. run_resolved z = c @ run_resolved y" by simp
  moreover have "approval_inv z" using step(2) inv by (rule approval_step_inv)
  moreover have "req_ID ` set (requests (run_store y)) \<subseteq> req_ID ` set (requests (run_store z))" using grow step(3) by (meson order_trans)
  ultimately show ?case by simp
qed

lemma log_of_append: "distinct (map fst (c @ log)) \<Longrightarrow> log_of log i = Some x \<Longrightarrow> log_of (c @ log) i = Some x"
proof (induction c)
  case (Cons a c)
  then have "i \<in> fst ` set log" using log_of_None [of log i] by (cases "i \<in> fst ` set log") simp_all
  moreover have "fst a \<notin> fst ` set log" using Cons.prems(1) by simp
  ultimately have "i \<noteq> fst a" by metis
  with Cons show ?case by simp
qed simp

subsection \<open>Properties\<close>

text \<open>
  C11: In every run of the workflow each request is resolved at most once, so it is never both approved
  and rejected, and an executor only ever receives a request whose approval, by the recorded approver
  and for that tenant, was confirmed before.\<close>

theorem only_approved_is_executed:
  assumes "(approval_step uuid known execs)\<^sup>*\<^sup>* no_requests y"
  shows "distinct (map fst (run_resolved y))
    \<and> (\<forall>r \<in> set (run_executed y). (req_ID r, req_TenantID r, StatusApproved, req_ApproverID r) \<in> set (run_resolved y))"
proof -
  have "approval_inv y" using assms by (rule approval_reachable)
  then show ?thesis by (auto simp: approval_inv_def table_inv_def log_of_def dest: map_of_SomeD)
qed

text \<open>
  A resolution is final: once a request is approved or rejected, no later call changes its
  outcome, its approver or its tenant.\<close>

theorem resolution_is_final:
  assumes "(approval_step uuid known execs)\<^sup>*\<^sup>* no_requests y" and "(approval_step uuid known execs)\<^sup>*\<^sup>* y y'"
    and "r \<in> set (requests (run_store y))" and "req_Status r \<noteq> StatusPending"
  shows "\<exists>r' \<in> set (requests (run_store y')). req_ID r' = req_ID r \<and> req_Status r' = req_Status r
    \<and> req_ApproverID r' = req_ApproverID r \<and> req_TenantID r' = req_TenantID r"
proof -
  have inv: "approval_inv y" using assms(1) by (rule approval_reachable)
  note grow = approval_steps_grow [OF assms(2) inv]
  then obtain r' where r': "r' \<in> set (requests (run_store y'))" "req_ID r' = req_ID r" using assms(3) by force
  have "log_of (run_resolved y) (req_ID r) = resolution r"
    using inv assms(3) unfolding approval_inv_def table_inv_def by blast
  with assms(4) have "log_of (run_resolved y) (req_ID r) = Some (req_TenantID r, req_Status r, req_ApproverID r)"
    by (simp add: resolution_def)
  with grow have "log_of (run_resolved y') (req_ID r) = Some (req_TenantID r, req_Status r, req_ApproverID r)"
    using log_of_append by (fastforce simp: approval_inv_def table_inv_def)
  moreover have "log_of (run_resolved y') (req_ID r') = resolution r'"
    using grow r'(1) unfolding approval_inv_def table_inv_def by blast
  ultimately have "resolution r' = Some (req_TenantID r, req_Status r, req_ApproverID r)" using r'(2) by simp
  with r' show ?thesis by (auto simp: resolution_def split: if_splits)
qed

text \<open>
  Tenant isolation: with the id of another tenant's request, approving, rejecting and executing all
  fail as if the request did not exist, and nothing changes.\<close>

theorem foreign_request_untouched:
  assumes "tenantID \<noteq> []" and "uuid tenantID = Some tid" and "uuid approvalID = Some rid"
    and "\<forall>r \<in> set (requests st). req_ID r = rid \<longrightarrow> req_TenantID r \<noteq> tid"
  shows "ApproveRequest uuid (Some st) now tenantID approvalID approverID = (Some st, Inl ErrNoRows)
    \<and> RejectRequest uuid (Some st) now tenantID approvalID approverID reason = (Some st, Inl ErrNoRows)
    \<and> ExecuteApproved uuid execs (Some st) tenantID approvalID = (Some ErrNoRows, None)"
proof -
  have "filter (\<lambda>r. req_ID r = rid \<and> req_TenantID r = tid \<and> req_Status r = StatusPending) (requests st) = []"
    and none: "filter (\<lambda>r. req_ID r = rid \<and> req_TenantID r = tid) (requests st) = []"
    using assms(4) by (auto simp: filter_empty_conv)
  then have "resolve uuid (Some st) now tenantID approvalID approverID s = (Some st, Inl ErrNoRows)" for s
    using assms(1-3) by (simp add: resolve_def Let_def)
  with none assms(1-3) show ?thesis by (simp add: ApproveRequest_def RejectRequest_def ExecuteApproved_def)
qed

subsection \<open>A concrete run\<close>

definition ex_execs :: "string \<Rightarrow> (Request \<Rightarrow> approval_error option) option" where
  "ex_execs a = (if a = ''user_delete'' then Some (\<lambda>_. None) else None)"

definition ex_req :: "Status \<Rightarrow> string option \<Rightarrow> time option \<Rightarrow> Request" where
  "ex_req s a t = \<lparr>req_ID = ''r1'', req_TenantID = ''t1'', req_RequesterID = ''alice'', req_Action = ''user_delete'',
     req_TargetResource = ''bob'', req_Status = s, req_ApproverID = a, req_Reason = [], req_CreatedAt = 0,
     req_ResolvedAt = t, req_ExpiresAt = expiry_interval\<rparr>"

definition ex_run :: "approval_run" where
  "ex_run = \<lparr>run_store = \<lparr>requests = [ex_req StatusApproved (Some ''carol'') (Some 5)], config = (\<lambda>_. None)\<rparr>,
     run_resolved = [(''r1'', ''t1'', StatusApproved, Some ''carol'')],
     run_executed = [ex_req StatusApproved (Some ''carol'') (Some 5)]\<rparr>"

lemma ex_run_reachable: "(approval_step Some (\<lambda>_. True) ex_execs)\<^sup>*\<^sup>* no_requests ex_run"
proof -
  let ?step = "approval_step Some (\<lambda>_. True) ex_execs"
  let ?y1 = "no_requests\<lparr>run_store := \<lparr>requests = [ex_req StatusPending None None], config = (\<lambda>_. None)\<rparr>\<rparr>"
  let ?y2 = "?y1\<lparr>run_store := \<lparr>requests = [ex_req StatusApproved (Some ''carol'') (Some 5)], config = (\<lambda>_. None)\<rparr>,
    run_resolved := confirm (ex_req StatusApproved (Some ''carol'') (Some 5)) # run_resolved ?y1\<rparr>"
  have "?step no_requests ?y1"
    by (rule do_create [where nid = "''r1''" and now = 0 and tenantID = "''t1''" and requesterID = "''alice''"
          and action = "''user_delete''" and target = "''bob''" and res = "Inr (ex_req StatusPending None None)"])
      (simp add: CreateRequest_def no_requests_def ex_req_def Let_def)
  moreover have "?step ?y1 ?y2"
    by (rule do_approve [where now = 5 and tenantID = "''t1''" and approvalID = "''r1''" and approverID = "''carol''"])
      (simp add: ApproveRequest_def resolve_def ex_req_def update_where_def no_requests_def)
  moreover have "?step ?y2 (?y2\<lparr>run_executed := ex_req StatusApproved (Some ''carol'') (Some 5) # run_executed ?y2\<rparr>)"
    by (rule do_execute [where tenantID = "''t1''" and approvalID = "''r1''" and out = None])
      (simp add: ExecuteApproved_def ex_req_def ex_execs_def)
  ultimately have "?step\<^sup>*\<^sup>* no_requests (?y2\<lparr>run_executed := ex_req StatusApproved (Some ''carol'') (Some 5) # run_executed ?y2\<rparr>)"
    by (intro converse_rtranclp_into_rtranclp [of ?step no_requests ?y1] converse_rtranclp_into_rtranclp [of ?step ?y1 ?y2] r_into_rtranclp)
  then show ?thesis by (simp add: ex_run_def no_requests_def confirm_def ex_req_def)
qed

theorem only_approved_is_executed_witness:
  "(req_ID (hd (run_executed ex_run)), req_TenantID (hd (run_executed ex_run)), StatusApproved, Some ''carol'') \<in> set (run_resolved ex_run)
   \<and> distinct (map fst (run_resolved ex_run))"
  using only_approved_is_executed [OF ex_run_reachable] by (simp add: ex_run_def ex_req_def)

theorem resolution_is_final_witness:
  "\<exists>y'. (approval_step Some (\<lambda>_. True) ex_execs)\<^sup>*\<^sup>* ex_run y' \<and> length (run_executed y') = 2
     \<and> (\<exists>r' \<in> set (requests (run_store y')). req_ID r' = ''r1'' \<and> req_Status r' = StatusApproved \<and> req_ApproverID r' = Some ''carol'')"
proof -
  let ?r = "ex_req StatusApproved (Some ''carol'') (Some 5)"
  let ?y = "ex_run\<lparr>run_executed := ?r # run_executed ex_run\<rparr>"
  have "approval_step Some (\<lambda>_. True) ex_execs ex_run ?y"
    by (rule do_execute [where tenantID = "''t1''" and approvalID = "''r1''" and out = None])
      (simp add: ExecuteApproved_def ex_run_def ex_req_def ex_execs_def)
  then have run: "(approval_step Some (\<lambda>_. True) ex_execs)\<^sup>*\<^sup>* ex_run ?y" by (rule r_into_rtranclp)
  from resolution_is_final [OF ex_run_reachable run, of ?r] run show ?thesis
    by (intro exI [of _ ?y]) (auto simp: ex_run_def ex_req_def)
qed

theorem foreign_request_untouched_witness:
  "ExecuteApproved Some ex_execs (Some (run_store ex_run)) ''t2'' ''r1'' = (Some ErrNoRows, None)"
  using foreign_request_untouched [of "''t2''" Some "''t2''" "''r1''" "''r1''" "run_store ex_run"]
  by (simp add: ex_run_def ex_req_def)

text \<open>
  Neither the expiry nor the requester restricts an approval: a year after it was filed, when it is
  no longer listed as pending, a request can be approved by the very person who filed it and is then
  executed, and executing it a second time runs the action again.\<close>

theorem expired_self_approval_executes:
  "let year = 365 * 24 * 3600 * nanos_per_s;
       st = \<lparr>requests = [ex_req StatusPending None None], config = (\<lambda>_. None)\<rparr>;
       approved = ex_req StatusApproved (Some ''alice'') (Some year)
   in ListPendingRequests Some (Some st) year ''t1'' = Inr []
      \<and> ApproveRequest Some (Some st) year ''t1'' ''r1'' ''alice'' = (Some (st\<lparr>requests := [approved]\<rparr>), Inr approved)
      \<and> ExecuteApproved Some ex_execs (Some (st\<lparr>requests := [approved]\<rparr>)) ''t1'' ''r1'' = (None, Some approved)"
  by (simp add: Let_def ListPendingRequests_def ApproveRequest_def resolve_def ExecuteApproved_def ex_req_def
      ex_execs_def update_where_def expiry_interval_def)

end
