(* ===== verification/Encoding.thy ===== *)
theory Encoding
  imports Prelude "HOL-Library.Word"
begin

unbundle bit_operations_syntax

text \<open>
  Bytes and the text encodings of the Go standard library that the program uses for secrets: hexadecimal
  (\<^verbatim>\<open>encoding/hex\<close>) and unpadded URL-safe base64 (\<^verbatim>\<open>base64.RawURLEncoding\<close>).
\<close>

type_synonym byte = "8 word"

definition byte_bits :: "byte \<Rightarrow> bool list" where
  "byte_bits b = map (\<lambda>i. bit b (7 - i)) [0..<8]"

text \<open>The value of a group of bits, most significant first.\<close>

definition group_val :: "bool list \<Rightarrow> nat" where
  "group_val g = foldl (\<lambda>n x. 2 * n + (if x then 1 else 0)) 0 g"

definition hex_digit :: "nat \<Rightarrow> char" where
  "hex_digit n = ''0123456789abcdef'' ! n"

definition hex_encode :: "byte list \<Rightarrow> string" where
  "hex_encode bs = concat (map (\<lambda>b. [hex_digit (unat b div 16), hex_digit (unat b mod 16)]) bs)"

definition base64url_alphabet :: string where
  "base64url_alphabet = ''ABCDEFGHIJKLMNOPQRSTUVWXYZabcdefghijklmnopqrstuvwxyz0123456789-_''"

fun rawurl_bits :: "bool list \<Rightarrow> string" where
  "rawurl_bits [] = []"
| "rawurl_bits (b # bs) =
     base64url_alphabet ! group_val (take 6 (b # bs @ [False, False, False, False, False])) # rawurl_bits (drop 5 bs)"

definition rawurl_encode :: "byte list \<Rightarrow> string" where
  "rawurl_encode bs = rawurl_bits (concat (map byte_bits bs))"

end
