(* ===== verification/Totp.thy ===== *)
theory Totp
  imports Encoding
begin

unbundle bit_operations_syntax

text \<open>
  The TOTP second factor of \<^verbatim>\<open>internal/middleware/totp.go\<close> and its store \<^verbatim>\<open>totp_store.go\<close>: the
  brute-force-guarded evaluation of an attempt, the handlers that use it (enrol, verify, check, status,
  disable), the one-time passwords and the recovery codes. The table \<^verbatim>\<open>totp_credentials\<close> is a map from
  (tenant, user) to the row; \<open>None\<close> in place of the table is a service without a pool. HMAC-SHA-1, SHA-256
  in hexadecimal, the secret envelope and the random source are arguments. The flags \<open>db\<close> say whether the
  transactions of a handler commit.
\<close>

subsection \<open>Data\<close>

record TOTPCredential =
  EncryptedSecret :: "byte list"
  RecoveryCodesHash :: string
  Enabled :: bool
  CreatedAt :: time
  LastUsedAt :: "time option"
  FailedAttempts :: int
  LockedUntil :: "time option"

type_synonym totp_table = "(string \<times> string) \<rightharpoonup> TOTPCredential"

datatype totp_error = ErrTOTPNotFound | ErrTOTPAlreadyEnabled | ErrEnvelope | ErrTOTPStore

record TOTPVerification =
  OK :: bool
  Method :: string
  SetRecoveryHash :: "string option"
  SetEnabled :: "bool option"
  SetEncryptedSecret :: "byte list option"
  Err :: "totp_error option"

record TOTPAttemptResult =
  NotEnabled :: bool
  Locked :: bool
  RetryAfter :: duration
  Verified :: bool
  ResMethod :: string

definition no_verification :: TOTPVerification where
  "no_verification = \<lparr>OK = False, Method = [], SetRecoveryHash = None, SetEnabled = None, SetEncryptedSecret = None, Err = None\<rparr>"

definition no_result :: TOTPAttemptResult where
  "no_result = \<lparr>NotEnabled = False, Locked = False, RetryAfter = 0, Verified = False, ResMethod = []\<rparr>"

subsection \<open>The store\<close>

definition coalesce :: "'a option \<Rightarrow> 'a \<Rightarrow> 'a" where
  "coalesce a b = (case a of Some x \<Rightarrow> x | None \<Rightarrow> b)"

definition totp_Get :: "totp_table option \<Rightarrow> bool \<Rightarrow> string \<Rightarrow> string \<Rightarrow> totp_error + TOTPCredential" where
  "totp_Get pool db tenantID userID =
     (case pool of
        None \<Rightarrow> Inl ErrTOTPNotFound
      | Some tab \<Rightarrow> if \<not> db then Inl ErrTOTPNotFound
          else (case tab (tenantID, userID) of None \<Rightarrow> Inl ErrTOTPNotFound | Some c \<Rightarrow> Inr c))"

definition Upsert :: "totp_table option \<Rightarrow> bool \<Rightarrow> string \<Rightarrow> string \<Rightarrow> byte list \<Rightarrow> string \<Rightarrow> bool \<Rightarrow> time
    \<Rightarrow> totp_table option \<times> totp_error option" where
  "Upsert pool db tenantID userID encryptedSecret recoveryHash enabled now =
     (case pool of
        None \<Rightarrow> (None, None)
      | Some tab \<Rightarrow>
          if \<not> db then (pool, Some ErrTOTPStore)
          else let row = (case tab (tenantID, userID) of
                   None \<Rightarrow> \<lparr>EncryptedSecret = encryptedSecret, RecoveryCodesHash = recoveryHash, Enabled = enabled,
                           CreatedAt = now, LastUsedAt = None, FailedAttempts = 0, LockedUntil = None\<rparr>
                 | Some c \<Rightarrow> c\<lparr>EncryptedSecret := encryptedSecret, RecoveryCodesHash := recoveryHash, Enabled := enabled,
                              FailedAttempts := 0, LockedUntil := None\<rparr>)
            in (Some (tab((tenantID, userID) \<mapsto> row)), None))"

definition failed_row :: "int \<Rightarrow> time \<Rightarrow> TOTPCredential \<Rightarrow> TOTPCredential" where
  "failed_row maxAttempts until c =
     (if FailedAttempts c + 1 \<ge> maxAttempts then c\<lparr>FailedAttempts := 0, LockedUntil := Some until\<rparr>
      else c\<lparr>FailedAttempts := FailedAttempts c + 1\<rparr>)"

definition verified_row :: "time \<Rightarrow> TOTPVerification \<Rightarrow> TOTPCredential \<Rightarrow> TOTPCredential" where
  "verified_row now v c =
     c\<lparr>LastUsedAt := Some now, FailedAttempts := 0, LockedUntil := None,
       RecoveryCodesHash := coalesce (SetRecoveryHash v) (RecoveryCodesHash c),
       Enabled := coalesce (SetEnabled v) (Enabled c),
       EncryptedSecret := coalesce (SetEncryptedSecret v) (EncryptedSecret c)\<rparr>"

definition locked_for :: "time \<Rightarrow> TOTPCredential \<Rightarrow> duration" where
  "locked_for now c = (case LockedUntil c of None \<Rightarrow> 0 | Some u \<Rightarrow> u - now)"

definition EvaluateAttempt ::
    "totp_table option \<Rightarrow> bool \<Rightarrow> string \<Rightarrow> string \<Rightarrow> time \<Rightarrow> int \<Rightarrow> duration \<Rightarrow> bool \<Rightarrow> (TOTPCredential \<Rightarrow> TOTPVerification)
     \<Rightarrow> totp_table option \<times> (totp_error + TOTPAttemptResult)" where
  "EvaluateAttempt pool db tenantID userID now maxAttempts lockFor requireEnabled verify =
     (case pool of
        None \<Rightarrow> (None, Inl ErrTOTPNotFound)
      | Some tab \<Rightarrow>
          let maxA = (if maxAttempts < 1 then 1 else maxAttempts) in
          if \<not> db then (pool, Inl ErrTOTPStore)
          else (case tab (tenantID, userID) of
              None \<Rightarrow> (pool, Inl ErrTOTPNotFound)
            | Some c \<Rightarrow>
                if requireEnabled \<and> \<not> Enabled c then (pool, Inr (no_result\<lparr>NotEnabled := True\<rparr>))
                else if locked_for now c > 0
                then (pool, Inr (no_result\<lparr>Locked := True, RetryAfter := locked_for now c\<rparr>))
                else let v = verify c in
                  (case Err v of
                     Some e \<Rightarrow> (pool, Inl e)
                   | None \<Rightarrow>
                       if \<not> OK v
                       then (Some (tab((tenantID, userID) \<mapsto> failed_row maxA (now + lockFor) c)), Inr no_result)
                       else (Some (tab((tenantID, userID) \<mapsto> verified_row now v c)),
                             Inr (no_result\<lparr>Verified := True, ResMethod := Method v\<rparr>)))))"

definition totp_Delete :: "totp_table option \<Rightarrow> bool \<Rightarrow> string \<Rightarrow> string \<Rightarrow> totp_table option \<times> totp_error option" where
  "totp_Delete pool db tenantID userID =
     (case pool of
        None \<Rightarrow> (None, None)
      | Some tab \<Rightarrow> if \<not> db then (pool, Some ErrTOTPStore) else (Some (tab((tenantID, userID) := None)), None))"

subsection \<open>One-time passwords\<close>

text \<open>\<open>binary.BigEndian.PutUint64(buf, uint64(counter))\<close>.\<close>

definition be64 :: "int \<Rightarrow> byte list" where
  "be64 counter = map (\<lambda>i. ucast (drop_bit (8 * (7 - i)) (of_int counter :: 64 word))) [0..<8]"

text \<open>\<^verbatim>\<open>%06d\<close> of a number below a million.\<close>

definition pad6 :: "nat \<Rightarrow> string" where
  "pad6 n = replicate (6 - length (dec_nat n)) (CHR ''0'') @ dec_nat n"

definition generateHOTP :: "(byte list \<Rightarrow> byte list \<Rightarrow> byte list) \<Rightarrow> byte list \<Rightarrow> int \<Rightarrow> string" where
  "generateHOTP hmac secret counter =
     (let sum = hmac secret (be64 counter);
          off = unat (last sum AND 0x0f);
          val = push_bit 24 (ucast (sum ! off AND 0x7f) :: 32 word)
                OR push_bit 16 (ucast (sum ! (off + 1)))
                OR push_bit 8 (ucast (sum ! (off + 2)))
                OR ucast (sum ! (off + 3))
      in pad6 (unat (val mod 1000000)))"

definition verifyCode :: "(byte list \<Rightarrow> byte list \<Rightarrow> byte list) \<Rightarrow> byte list \<Rightarrow> string \<Rightarrow> time \<Rightarrow> bool" where
  "verifyCode hmac secret code now =
     (if length code \<noteq> 6 then False
      else let step = quot (unix_sec now) 30
           in list_ex (\<lambda>delta. generateHOTP hmac secret (step + delta) = code) [-1, 0, 1])"

subsection \<open>Recovery codes\<close>

definition base32_alphabet :: string where
  "base32_alphabet = ''ABCDEFGHIJKLMNOPQRSTUVWXYZ234567''"

fun base32_bits :: "bool list \<Rightarrow> string" where
  "base32_bits [] = []"
| "base32_bits (b # bs) =
     (let g = take 5 (b # bs @ [False, False, False, False])
      in base32_alphabet ! foldl (\<lambda>n x. 2 * n + (if x then 1 else 0)) 0 g # base32_bits (drop 4 bs))"

definition base32 :: "byte list \<Rightarrow> string" where
  "base32 raw = base32_bits (concat (map byte_bits raw))"

text \<open>\<open>raws\<close> are the random draws of six bytes each, \<open>None\<close> when the source fails.\<close>

definition recovery_code :: "byte list \<Rightarrow> string" where
  "recovery_code raw = (let c = map ascii_upper (base32 raw) in take 5 c @ ''-'' @ drop 5 c)"

definition newRecoveryCodes :: "(string \<Rightarrow> string) \<Rightarrow> byte list list option \<Rightarrow> (string list \<times> string) option" where
  "newRecoveryCodes sha raws =
     map_option (\<lambda>rs. (map recovery_code rs, join_with (CHR ''|'') (map (\<lambda>r. sha (recovery_code r)) rs))) raws"

fun remove_first :: "string \<Rightarrow> string list \<Rightarrow> string list \<times> bool" where
  "remove_first x [] = ([], False)"
| "remove_first x (p # ps) = (if p = x then (ps, True) else let (out, found) = remove_first x ps in (p # out, found))"

definition consumeRecoveryCode :: "(string \<Rightarrow> string) \<Rightarrow> string \<Rightarrow> string \<Rightarrow> string \<times> bool" where
  "consumeRecoveryCode sha bundle code =
     (if bundle = [] \<or> code = [] then (bundle, False)
      else let want = sha (map ascii_upper (trim_space code));
               (out, found) = remove_first want (split_on (CHR ''|'') bundle)
           in if \<not> found then (bundle, False) else (join_with (CHR ''|'') out, True))"

subsection \<open>The handlers\<close>

record totp_config =
  cfg_hmac :: "byte list \<Rightarrow> byte list \<Rightarrow> byte list"
  cfg_sha :: "string \<Rightarrow> string"
  cfg_envelope :: "((byte list \<Rightarrow> byte list option) \<times> (byte list \<Rightarrow> byte list option)) option"
  cfg_MaxFailedAttempts :: int
  cfg_LockoutDuration :: duration

definition NewTOTPHandlers :: "totp_config \<Rightarrow> totp_config" where
  "NewTOTPHandlers cfg =
     cfg\<lparr>cfg_MaxFailedAttempts := (if cfg_MaxFailedAttempts cfg \<le> 0 then 5 else cfg_MaxFailedAttempts cfg),
         cfg_LockoutDuration := (if cfg_LockoutDuration cfg \<le> 0 then 15 * 60 * nanos_per_s else cfg_LockoutDuration cfg)\<rparr>"

definition wrapSecret :: "totp_config \<Rightarrow> byte list \<Rightarrow> byte list option" where
  "wrapSecret cfg x = (case cfg_envelope cfg of None \<Rightarrow> Some x | Some (wrap, unwrap) \<Rightarrow> wrap x)"

definition unwrapSecret :: "totp_config \<Rightarrow> byte list \<Rightarrow> byte list option" where
  "unwrapSecret cfg x = (case cfg_envelope cfg of None \<Rightarrow> Some x | Some (wrap, unwrap) \<Rightarrow> unwrap x)"

text \<open>The request as the handlers read it: the identity in the context and in the development headers, and the body.\<close>

datatype totp_body = EmptyBody | BadBody | Body string

record totp_request =
  ctx_tenant :: string
  ctx_user :: string
  dev_tenant :: string
  dev_user :: string
  req_body :: totp_body

definition totp_identity :: "totp_request \<Rightarrow> (string \<times> string) option" where
  "totp_identity r =
     (if ctx_tenant r \<noteq> [] \<and> ctx_user r \<noteq> [] then Some (ctx_tenant r, ctx_user r)
      else if dev_tenant r \<noteq> [] \<and> dev_user r \<noteq> [] then Some (dev_tenant r, dev_user r)
      else None)"

datatype totp_response =
    Unauthorized string | BadRequest string | Conflict string | TooMany int | ServerError string
  | EnrollOK "byte list" | VerifyOK "string list" | CheckOK string | StatusOK bool bool | NoContent

definition writeLocked :: "duration \<Rightarrow> totp_response" where
  "writeLocked remaining = (let secs = quot remaining nanos_per_s in TooMany (if secs < 1 then 1 else secs))"

text \<open>The closures that decide about a submitted code on the locked row.\<close>

definition enroll_verify :: "totp_config \<Rightarrow> byte list \<Rightarrow> string \<Rightarrow> time \<Rightarrow> TOTPCredential \<Rightarrow> TOTPVerification" where
  "enroll_verify cfg newSecret code now cred =
     (case unwrapSecret cfg (EncryptedSecret cred) of
        None \<Rightarrow> no_verification\<lparr>Err := Some ErrEnvelope\<rparr>
      | Some sec \<Rightarrow>
          if verifyCode (cfg_hmac cfg) sec code now
          then \<lparr>OK = True, Method = ''totp'', SetRecoveryHash = Some [], SetEnabled = Some False, SetEncryptedSecret = Some newSecret, Err = None\<rparr>
          else if snd (consumeRecoveryCode (cfg_sha cfg) (RecoveryCodesHash cred) code)
          then \<lparr>OK = True, Method = ''recovery'', SetRecoveryHash = Some [], SetEnabled = Some False, SetEncryptedSecret = Some newSecret, Err = None\<rparr>
          else no_verification)"

definition confirm_verify :: "totp_config \<Rightarrow> string \<Rightarrow> string \<Rightarrow> time \<Rightarrow> TOTPCredential \<Rightarrow> TOTPVerification" where
  "confirm_verify cfg hashed code now cred =
     (if Enabled cred then no_verification\<lparr>Err := Some ErrTOTPAlreadyEnabled\<rparr>
      else case unwrapSecret cfg (EncryptedSecret cred) of
        None \<Rightarrow> no_verification\<lparr>Err := Some ErrEnvelope\<rparr>
      | Some sec \<Rightarrow>
          if verifyCode (cfg_hmac cfg) sec code now
          then \<lparr>OK = True, Method = ''totp'', SetRecoveryHash = Some hashed, SetEnabled = Some True, SetEncryptedSecret = None, Err = None\<rparr>
          else no_verification)"

definition check_verify :: "totp_config \<Rightarrow> string \<Rightarrow> time \<Rightarrow> TOTPCredential \<Rightarrow> TOTPVerification" where
  "check_verify cfg code now cred =
     (case unwrapSecret cfg (EncryptedSecret cred) of
        None \<Rightarrow> no_verification\<lparr>Err := Some ErrEnvelope\<rparr>
      | Some sec \<Rightarrow>
          if verifyCode (cfg_hmac cfg) sec code now then no_verification\<lparr>OK := True, Method := ''totp''\<rparr>
          else (case consumeRecoveryCode (cfg_sha cfg) (RecoveryCodesHash cred) code of
              (updated, True) \<Rightarrow> no_verification\<lparr>OK := True, Method := ''recovery'', SetRecoveryHash := Some updated\<rparr>
            | (_, False) \<Rightarrow> no_verification))"

definition disable_verify :: "totp_config \<Rightarrow> string \<Rightarrow> time \<Rightarrow> TOTPCredential \<Rightarrow> TOTPVerification" where
  "disable_verify cfg code now cred =
     (case unwrapSecret cfg (EncryptedSecret cred) of
        None \<Rightarrow> no_verification\<lparr>Err := Some ErrEnvelope\<rparr>
      | Some sec \<Rightarrow>
          if verifyCode (cfg_hmac cfg) sec code now then no_verification\<lparr>OK := True, Method := ''totp''\<rparr>
          else if snd (consumeRecoveryCode (cfg_sha cfg) (RecoveryCodesHash cred) code)
          then no_verification\<lparr>OK := True, Method := ''recovery''\<rparr>
          else no_verification)"

text \<open>\<open>secret\<close> is the fresh random secret, \<open>None\<close> when the random source fails.\<close>

definition enroll :: "totp_config \<Rightarrow> totp_table option \<Rightarrow> bool \<Rightarrow> bool \<Rightarrow> time \<Rightarrow> byte list option \<Rightarrow> totp_request
    \<Rightarrow> totp_table option \<times> totp_response" where
  "enroll cfg pool db db2 now secret r =
     (case totp_identity r of
        None \<Rightarrow> (pool, Unauthorized ''identity'')
      | Some (tenantID, userID) \<Rightarrow>
          (case req_body r of
             BadBody \<Rightarrow> (pool, BadRequest ''invalid body'')
           | b \<Rightarrow>
               let code = trim_space (case b of Body c \<Rightarrow> c | _ \<Rightarrow> []) in
               (case secret of
                  None \<Rightarrow> (pool, ServerError ''rand'')
                | Some sec \<Rightarrow>
                    (case wrapSecret cfg sec of
                       None \<Rightarrow> (pool, ServerError ''envelope'')
                     | Some wrapped \<Rightarrow>
                         let create = (\<lambda>p. case Upsert p db2 tenantID userID wrapped [] False now of
                               (p', Some e) \<Rightarrow> (p', ServerError ''store'') | (p', None) \<Rightarrow> (p', EnrollOK sec)) in
                         (case EvaluateAttempt pool db tenantID userID now (cfg_MaxFailedAttempts cfg) (cfg_LockoutDuration cfg) True
                                 (enroll_verify cfg wrapped code now) of
                            (pool', Inl ErrTOTPNotFound) \<Rightarrow> create pool'
                          | (pool', Inl e) \<Rightarrow> (pool', ServerError ''store error'')
                          | (pool', Inr res) \<Rightarrow>
                              if NotEnabled res then create pool'
                              else if Locked res then (pool', writeLocked (RetryAfter res))
                              else if \<not> Verified res then (pool', Unauthorized ''code required to re-enroll'')
                              else (pool', EnrollOK sec))))))"

definition totp_verify :: "totp_config \<Rightarrow> totp_table option \<Rightarrow> bool \<Rightarrow> time \<Rightarrow> byte list list option \<Rightarrow> totp_request
    \<Rightarrow> totp_table option \<times> totp_response" where
  "totp_verify cfg pool db now raws r =
     (case totp_identity r of
        None \<Rightarrow> (pool, Unauthorized ''identity'')
      | Some (tenantID, userID) \<Rightarrow>
          (case req_body r of
             Body c \<Rightarrow>
               (case newRecoveryCodes (cfg_sha cfg) raws of
                  None \<Rightarrow> (pool, ServerError ''rand'')
                | Some (codes, hashed) \<Rightarrow>
                    (case EvaluateAttempt pool db tenantID userID now (cfg_MaxFailedAttempts cfg) (cfg_LockoutDuration cfg) False
                            (confirm_verify cfg hashed (trim_space c) now) of
                       (pool', Inl ErrTOTPNotFound) \<Rightarrow> (pool', BadRequest ''not enrolled'')
                     | (pool', Inl ErrTOTPAlreadyEnabled) \<Rightarrow> (pool', Conflict ''already enrolled'')
                     | (pool', Inl e) \<Rightarrow> (pool', ServerError ''store error'')
                     | (pool', Inr res) \<Rightarrow>
                         if Locked res then (pool', writeLocked (RetryAfter res))
                         else if \<not> Verified res then (pool', Unauthorized ''invalid code'')
                         else (pool', VerifyOK codes)))
           | _ \<Rightarrow> (pool, BadRequest ''invalid body'')))"

definition totp_check :: "totp_config \<Rightarrow> totp_table option \<Rightarrow> bool \<Rightarrow> time \<Rightarrow> totp_request
    \<Rightarrow> totp_table option \<times> totp_response" where
  "totp_check cfg pool db now r =
     (case totp_identity r of
        None \<Rightarrow> (pool, Unauthorized ''identity'')
      | Some (tenantID, userID) \<Rightarrow>
          (case req_body r of
             Body c \<Rightarrow>
               (case EvaluateAttempt pool db tenantID userID now (cfg_MaxFailedAttempts cfg) (cfg_LockoutDuration cfg) True
                       (check_verify cfg (trim_space c) now) of
                  (pool', Inl ErrTOTPNotFound) \<Rightarrow> (pool', Unauthorized ''not enabled'')
                | (pool', Inl e) \<Rightarrow> (pool', ServerError ''store error'')
                | (pool', Inr res) \<Rightarrow>
                    if NotEnabled res then (pool', Unauthorized ''not enabled'')
                    else if Locked res then (pool', writeLocked (RetryAfter res))
                    else if \<not> Verified res then (pool', Unauthorized ''invalid code'')
                    else (pool', CheckOK (ResMethod res)))
           | _ \<Rightarrow> (pool, BadRequest ''invalid body'')))"

definition totp_status :: "totp_table option \<Rightarrow> bool \<Rightarrow> totp_request \<Rightarrow> totp_response" where
  "totp_status pool db r =
     (case totp_identity r of
        None \<Rightarrow> Unauthorized ''identity''
      | Some (tenantID, userID) \<Rightarrow>
          (case totp_Get pool db tenantID userID of
             Inl _ \<Rightarrow> StatusOK False False
           | Inr cred \<Rightarrow> StatusOK True (Enabled cred)))"

definition totp_disable :: "totp_config \<Rightarrow> totp_table option \<Rightarrow> bool \<Rightarrow> bool \<Rightarrow> time \<Rightarrow> totp_request
    \<Rightarrow> totp_table option \<times> totp_response" where
  "totp_disable cfg pool db db2 now r =
     (case totp_identity r of
        None \<Rightarrow> (pool, Unauthorized ''identity'')
      | Some (tenantID, userID) \<Rightarrow>
          (case req_body r of
             BadBody \<Rightarrow> (pool, BadRequest ''invalid body'')
           | b \<Rightarrow>
               let code = trim_space (case b of Body c \<Rightarrow> c | _ \<Rightarrow> []);
                   remove = (\<lambda>p. case totp_Delete p db2 tenantID userID of
                               (p', Some e) \<Rightarrow> (p', ServerError ''store'') | (p', None) \<Rightarrow> (p', NoContent))
               in (case EvaluateAttempt pool db tenantID userID now (cfg_MaxFailedAttempts cfg) (cfg_LockoutDuration cfg) True
                         (disable_verify cfg code now) of
                     (pool', Inl ErrTOTPNotFound) \<Rightarrow> (pool', NoContent)
                   | (pool', Inl e) \<Rightarrow> (pool', ServerError ''store error'')
                   | (pool', Inr res) \<Rightarrow>
                       if NotEnabled res then remove pool'
                       else if Locked res then (pool', writeLocked (RetryAfter res))
                       else if \<not> Verified res then (pool', Unauthorized ''code required to disable'')
                       else remove pool')))"

subsection \<open>Attempts on one row\<close>

lemma EvaluateAttempt_row:
  assumes "tab (t, u) = Some c"
  shows "EvaluateAttempt (Some tab) True t u now maxA lockFor req vf =
    (if req \<and> \<not> Enabled c then (Some tab, Inr (no_result\<lparr>NotEnabled := True\<rparr>))
     else if locked_for now c > 0 then (Some tab, Inr (no_result\<lparr>Locked := True, RetryAfter := locked_for now c\<rparr>))
     else case Err (vf c) of
         Some e \<Rightarrow> (Some tab, Inl e)
       | None \<Rightarrow>
           if \<not> OK (vf c) then (Some (tab((t, u) \<mapsto> failed_row (if maxA < 1 then 1 else maxA) (now + lockFor) c)), Inr no_result)
           else (Some (tab((t, u) \<mapsto> verified_row now (vf c) c)), Inr (no_result\<lparr>Verified := True, ResMethod := Method (vf c)\<rparr>)))"
  using assms by (simp add: EvaluateAttempt_def Let_def)

lemma result_simps [simp]:
  "NotEnabled no_result = False" "Locked no_result = False" "Verified no_result = False"
  by (simp_all add: no_result_def)

lemma verification_simps [simp]: "OK no_verification = False" "Err no_verification = None"
  "SetRecoveryHash no_verification = None" "SetEnabled no_verification = None" "SetEncryptedSecret no_verification = None"
  by (simp_all add: no_verification_def)

text \<open>The attempts that were evaluated, in a sequence of attempts with the given closures.\<close>

fun evaluated :: "totp_table option \<Rightarrow> string \<Rightarrow> string \<Rightarrow> int \<Rightarrow> duration \<Rightarrow> bool \<Rightarrow> (time \<times> (TOTPCredential \<Rightarrow> TOTPVerification)) list \<Rightarrow> nat" where
  "evaluated pool t u maxA lockFor req [] = 0"
| "evaluated pool t u maxA lockFor req ((now, vf) # as) =
     (case EvaluateAttempt pool True t u now maxA lockFor req vf of
        (pool', Inr res) \<Rightarrow> (if NotEnabled res \<or> Locked res then 0 else 1) + evaluated pool' t u maxA lockFor req as
      | (pool', Inl e) \<Rightarrow> evaluated pool' t u maxA lockFor req as)"

definition wrong :: "(TOTPCredential \<Rightarrow> TOTPVerification) \<Rightarrow> bool" where
  "wrong vf \<longleftrightarrow> (\<forall>c. \<not> OK (vf c) \<and> Err (vf c) = None)"

definition budget :: "int \<Rightarrow> time \<Rightarrow> TOTPCredential \<Rightarrow> nat" where
  "budget maxA horizon c = (case LockedUntil c of
       Some until \<Rightarrow> if horizon \<le> until then 0 else nat (max 1 (max 1 maxA - FailedAttempts c))
     | None \<Rightarrow> nat (max 1 (max 1 maxA - FailedAttempts c)))"

lemma evaluated_budget:
  assumes "tab (t, u) = Some c" and "0 \<le> FailedAttempts c"
    and "\<forall>(now, vf) \<in> set as. t0 \<le> now \<and> now < t0 + lockFor \<and> wrong vf"
  shows "evaluated (Some tab) t u maxA lockFor req as \<le> budget maxA (t0 + lockFor) c"
  using assms
proof (induction as arbitrary: tab c)
  case (Cons a as)
  obtain now vf where a: "a = (now, vf)" by fastforce
  have window: "t0 \<le> now" "now < t0 + lockFor" and vf: "\<not> OK (vf c)" "Err (vf c) = None"
    using Cons.prems(3) a by (auto simp: wrong_def)
  have rest: "\<forall>(now, vf) \<in> set as. t0 \<le> now \<and> now < t0 + lockFor \<and> wrong vf" using Cons.prems(3) by simp
  note IH = Cons.IH [OF _ _ rest]
  show ?case
  proof (cases "(req \<and> \<not> Enabled c) \<or> locked_for now c > 0")
    case True
    have "evaluated (Some tab) t u maxA lockFor req as \<le> budget maxA (t0 + lockFor) c"
      using IH [of tab c] Cons.prems(1,2) by blast
    with True show ?thesis by (auto simp: a EvaluateAttempt_row [where tab = tab, OF Cons.prems(1)])
  next
    case False
    define c' where "c' = failed_row (if maxA < 1 then 1 else maxA) (now + lockFor) c"
    have fa: "0 \<le> FailedAttempts c'" using Cons.prems(2) by (simp add: c'_def failed_row_def)
    have "evaluated (Some tab) t u maxA lockFor req (a # as)
        = 1 + evaluated (Some (tab((t, u) \<mapsto> c'))) t u maxA lockFor req as"
      using False vf by (auto simp: a c'_def EvaluateAttempt_row [where tab = tab, OF Cons.prems(1)])
    also have "\<dots> \<le> 1 + budget maxA (t0 + lockFor) c'"
      using IH [of "tab((t, u) \<mapsto> c')" c'] fa by (simp del: fun_upd_apply add: fun_upd_same)
    also have "\<dots> \<le> budget maxA (t0 + lockFor) c"
      using False window Cons.prems(2)
      by (auto simp: c'_def budget_def failed_row_def locked_for_def max_def split: option.splits if_splits)
    finally show ?thesis .
  qed
qed simp

subsection \<open>Codes\<close>

lemma length_pad6: "n < 1000000 \<Longrightarrow> length (pad6 n) = 6"
  using length_dec_nat [of n 6] by (simp add: pad6_def)

lemma length_HOTP: "length (generateHOTP hmac secret counter) = 6"
proof -
  have "unat (x mod 1000000) < 1000000" for x :: "32 word"
    by (simp add: unat_mod)
  then show ?thesis by (simp add: generateHOTP_def Let_def length_pad6)
qed

definition code_char :: "char \<Rightarrow> bool" where
  "code_char c \<longleftrightarrow> ascii_upper c = c \<and> \<not> is_space c"

lemma alphabet_chars: "n < 32 \<Longrightarrow> code_char (base32_alphabet ! n)"
proof -
  assume "n < 32"
  then have "base32_alphabet ! n \<in> set base32_alphabet" by (intro nth_mem) (simp add: base32_alphabet_def)
  moreover have "\<forall>c \<in> set base32_alphabet. code_char c"
    by (simp add: base32_alphabet_def code_char_def ascii_upper_def is_space_def)
  ultimately show ?thesis by blast
qed

lemma bits_below: "foldl (\<lambda>n x. 2 * n + (if x then 1 else 0)) a bs < (a + 1) * 2 ^ length bs" for a :: nat
proof (induction bs arbitrary: a)
  case (Cons b bs)
  let ?n = "2 * a + (if b then 1 else 0)"
  have "foldl (\<lambda>n x. 2 * n + (if x then 1 else 0)) a (b # bs) = foldl (\<lambda>n x. 2 * n + (if x then 1 else 0)) ?n bs" by simp
  also have "\<dots> < (?n + 1) * 2 ^ length bs" by (rule Cons.IH)
  also have "\<dots> \<le> (2 * a + 2) * 2 ^ length bs" by (intro mult_right_mono) auto
  also have "\<dots> = (a + 1) * 2 ^ length (b # bs)" by simp
  finally show ?case .
qed simp

lemma base32_chars: "\<forall>c \<in> set (base32_bits bs). code_char c"
proof (induction bs rule: base32_bits.induct)
  case (2 b bs)
  let ?g = "take 5 (b # bs @ [False, False, False, False])"
  have "length ?g = 5" by simp
  then have "foldl (\<lambda>n x. 2 * n + (if x then 1 else 0)) 0 ?g < (32 :: nat)"
    using bits_below [of 0 ?g] by simp
  then have "code_char (base32_alphabet ! foldl (\<lambda>n x. 2 * n + (if x then 1 else 0)) 0 ?g)" by (rule alphabet_chars)
  with 2 show ?case by (simp add: Let_def)
qed simp

lemma trim_upper_id:
  assumes "\<forall>c \<in> set x. code_char c"
  shows "map ascii_upper (trim_space x) = x"
proof -
  have "dropWhile is_space y = y" if "\<forall>c \<in> set y. code_char c" for y
    using that by (cases y) (auto simp: code_char_def)
  from this [of x] this [of "rev x"] assms have "trim_space x = x" by (simp add: trim_space_def)
  moreover have "map ascii_upper x = x" using assms by (simp add: code_char_def map_idI)
  ultimately show ?thesis by simp
qed

lemma recovery_code_id: "map ascii_upper (trim_space (recovery_code raw)) = recovery_code raw" "recovery_code raw \<noteq> []"
proof -
  have "\<forall>c \<in> set (base32 raw). code_char c" by (simp add: base32_def base32_chars)
  then have "map ascii_upper (base32 raw) = base32 raw" by (simp add: code_char_def map_idI)
  then have "recovery_code raw = take 5 (base32 raw) @ ''-'' @ drop 5 (base32 raw)" by (simp add: recovery_code_def Let_def)
  moreover have "code_char (CHR ''-'')" by (simp add: code_char_def ascii_upper_def is_space_def)
  ultimately have "\<forall>c \<in> set (recovery_code raw). code_char c"
    using \<open>\<forall>c \<in> set (base32 raw). code_char c\<close> by (auto dest: in_set_takeD in_set_dropD)
  then show "map ascii_upper (trim_space (recovery_code raw)) = recovery_code raw" by (rule trim_upper_id)
  show "recovery_code raw \<noteq> []" by (simp add: recovery_code_def Let_def)
qed

lemma remove_first_distinct: "distinct ps \<Longrightarrow> remove_first x ps = (filter (\<lambda>p. p \<noteq> x) ps, x \<in> set ps)"
proof (induction ps)
  case (Cons p ps)
  then have "x \<notin> set ps \<Longrightarrow> filter (\<lambda>p. p \<noteq> x) ps = ps" by (auto simp: filter_id_conv)
  with Cons show ?case by (cases "p = x") auto
qed simp

text \<open>Consuming a code from a bundle of distinct hashes removes exactly its hash.\<close>

lemma consume_bundle:
  assumes "ideal_hash sha" and "distinct codes" and "c \<noteq> []" and "map ascii_upper (trim_space c) = c"
  shows "consumeRecoveryCode sha (join_with (CHR ''|'') (map sha codes)) c =
    (join_with (CHR ''|'') (map sha (filter (\<lambda>x. x \<noteq> c) codes)), c \<in> set codes)"
proof (cases "codes = []")
  case True
  then show ?thesis by (simp add: consumeRecoveryCode_def)
next
  case False
  have inj: "inj sha" and sep: "\<And>x. sha x \<noteq> [] \<and> CHR ''|'' \<notin> set (sha x)" using assms(1) by (auto simp: ideal_hash_def)
  have "join_with (CHR ''|'') (map sha codes) \<noteq> []"
    using False sep by (cases codes rule: remdups_adj.cases) auto
  moreover have "split_on (CHR ''|'') (join_with (CHR ''|'') (map sha codes)) = map sha codes"
    using False sep by (intro split_join) auto
  moreover have "distinct (map sha codes)" using assms(2) inj by (simp add: distinct_map) (meson inj_on_subset subset_UNIV)
  moreover have "filter (\<lambda>p. p \<noteq> sha c) (map sha codes) = map sha (filter (\<lambda>x. x \<noteq> c) codes)"
    using inj by (simp add: filter_map o_def inj_eq)
  moreover have "sha c \<in> set (map sha codes) \<longleftrightarrow> c \<in> set codes" using inj by (auto simp: inj_eq)
  moreover have "c \<notin> set codes \<Longrightarrow> filter (\<lambda>x. x \<noteq> c) codes = codes" by (auto simp: filter_id_conv)
  ultimately show ?thesis
    using assms(3,4) by (simp add: consumeRecoveryCode_def Let_def remove_first_distinct case_prod_beta)
qed

subsection \<open>Properties\<close>

text \<open>
  C9: Brute-force bound: however many wrong guesses are submitted for an account inside one lockout
  period, through any of the handlers, at most \<^verbatim>\<open>MaxFailedAttempts\<close> of them are evaluated at all.\<close>

theorem guesses_per_lockout_period:
  assumes "tab (t, u) = Some c" and "0 \<le> FailedAttempts c"
    and "\<forall>(now, vf) \<in> set as. t0 \<le> now \<and> now < t0 + lockFor \<and> wrong vf"
  shows "int (evaluated (Some tab) t u maxA lockFor req as) \<le> max 1 maxA"
proof -
  have "budget maxA (t0 + lockFor) c \<le> nat (max 1 maxA)"
    using assms(2) by (auto simp: budget_def split: option.split)
  with evaluated_budget [where tab = tab, OF assms, of maxA req] show ?thesis by linarith
qed

text \<open>The second factor: a live one-time password or an unused recovery code.\<close>

definition has_factor :: "totp_config \<Rightarrow> TOTPCredential \<Rightarrow> string \<Rightarrow> time \<Rightarrow> bool" where
  "has_factor cfg c code now \<longleftrightarrow> (\<exists>sec. unwrapSecret cfg (EncryptedSecret c) = Some sec
     \<and> (verifyCode (cfg_hmac cfg) sec code now \<or> snd (consumeRecoveryCode (cfg_sha cfg) (RecoveryCodesHash c) code)))"

definition body_code :: "totp_request \<Rightarrow> string" where
  "body_code r = trim_space (case req_body r of Body c \<Rightarrow> c | _ \<Rightarrow> [])"

text \<open>What a refused caller may change: the counters of the row.\<close>

definition only_counters :: "(string \<times> string) \<Rightarrow> totp_table \<Rightarrow> totp_table option \<Rightarrow> bool" where
  "only_counters k tab pool' \<longleftrightarrow> (\<exists>fa lu. pool' = Some (tab(k := map_option (\<lambda>c. c\<lparr>FailedAttempts := fa, LockedUntil := lu\<rparr>) (tab k))))"

lemma only_counters_refl: "only_counters k tab (Some tab)"
proof -
  have "tab = tab(k := map_option (\<lambda>c. c\<lparr>FailedAttempts := FailedAttempts (the (tab k)), LockedUntil := LockedUntil (the (tab k))\<rparr>) (tab k))"
    by (cases "tab k") auto
  then show ?thesis unfolding only_counters_def by metis
qed

lemma only_counters_failed: "tab k = Some c \<Longrightarrow> only_counters k tab (Some (tab(k \<mapsto> failed_row m until c)))"
proof -
  assume "tab k = Some c"
  moreover have "failed_row m until c = c\<lparr>FailedAttempts := FailedAttempts (failed_row m until c), LockedUntil := LockedUntil (failed_row m until c)\<rparr>"
    by (simp add: failed_row_def)
  ultimately show ?thesis unfolding only_counters_def by (metis option.map(2))
qed

lemma attempt_without_factor:
  assumes row: "tab (t, u) = Some c" and en: "Enabled c"
    and vf: "Err (vf c) = None \<Longrightarrow> \<not> OK (vf c)"
    and run: "EvaluateAttempt (Some tab) True t u now maxA lockFor req vf = (pool', res)"
  shows "only_counters (t, u) tab pool' \<and> (case res of Inl e \<Rightarrow> e = the (Err (vf c)) \<and> Err (vf c) \<noteq> None
     | Inr r \<Rightarrow> \<not> NotEnabled r \<and> \<not> Verified r)"
  using run vf en only_counters_refl [of "(t, u)" tab] only_counters_failed [where tab = tab and k = "(t, u)", OF row]
  by (auto simp: EvaluateAttempt_row [where tab = tab, OF row] split: if_splits option.splits)

lemma no_factor_closures:
  assumes "Enabled c" and "\<not> has_factor cfg c code now"
  shows "Err (enroll_verify cfg w code now c) = None \<Longrightarrow> \<not> OK (enroll_verify cfg w code now c)"
    and "Err (confirm_verify cfg h code now c) = Some ErrTOTPAlreadyEnabled"
    and "Err (check_verify cfg code now c) = None \<Longrightarrow> \<not> OK (check_verify cfg code now c)"
    and "Err (disable_verify cfg code now c) = None \<Longrightarrow> \<not> OK (disable_verify cfg code now c)"
    and "Err (enroll_verify cfg w code now c) \<in> {None, Some ErrEnvelope}"
    and "Err (check_verify cfg code now c) \<in> {None, Some ErrEnvelope}"
    and "Err (disable_verify cfg code now c) \<in> {None, Some ErrEnvelope}"
  using assms
  by (auto simp: enroll_verify_def confirm_verify_def check_verify_def disable_verify_def has_factor_def
      split: option.splits prod.splits bool.splits)

text \<open>
  C10: The second factor guards its own removal: on an enabled credential, a caller without a live
  one-time password or an unused recovery code gets neither a rotation, nor a removal, nor a
  confirmation, nor a login, and changes nothing but the failure counters of that row.\<close>

theorem factor_required_on_enabled:
  assumes "tab (t, u) = Some c" and "Enabled c" and "totp_identity r = Some (t, u)"
    and "\<not> has_factor cfg c (body_code r) now"
  shows "(case enroll cfg (Some tab) True True now secret r of (pool', resp) \<Rightarrow>
            only_counters (t, u) tab pool' \<and> (\<forall>x. resp \<noteq> EnrollOK x))
    \<and> (case totp_disable cfg (Some tab) True True now r of (pool', resp) \<Rightarrow>
            only_counters (t, u) tab pool' \<and> resp \<noteq> NoContent)
    \<and> (case totp_check cfg (Some tab) True now r of (pool', resp) \<Rightarrow>
            only_counters (t, u) tab pool' \<and> (\<forall>x. resp \<noteq> CheckOK x))
    \<and> (case totp_verify cfg (Some tab) True now raws r of (pool', resp) \<Rightarrow>
            only_counters (t, u) tab pool' \<and> (\<forall>x. resp \<noteq> VerifyOK x))"
proof (intro conjI)
  note nf = no_factor_closures [OF assms(2,4)]
  note att = attempt_without_factor [where tab = tab, OF assms(1,2)]
  note refl = only_counters_refl [of "(t, u)" tab]
  have code: "trim_space (case req_body r of EmptyBody \<Rightarrow> [] | BadBody \<Rightarrow> [] | Body c \<Rightarrow> c) = body_code r"
    by (simp add: body_code_def split: totp_body.split)
  let ?A = "\<lambda>req vf. EvaluateAttempt (Some tab) True t u now (cfg_MaxFailedAttempts cfg) (cfg_LockoutDuration cfg) req vf"
  show "case enroll cfg (Some tab) True True now secret r of (pool', resp) \<Rightarrow>
          only_counters (t, u) tab pool' \<and> (\<forall>x. resp \<noteq> EnrollOK x)"
  proof (cases "req_body r = BadBody \<or> secret = None \<or> wrapSecret cfg (the secret) = None")
    case True
    then show ?thesis using refl assms(3) by (auto simp: enroll_def split: totp_body.split option.split)
  next
    case False
    then obtain sec wrapped where sec: "secret = Some sec" "wrapSecret cfg sec = Some wrapped" by auto
    obtain p res where run: "?A True (enroll_verify cfg wrapped (body_code r) now) = (p, res)" by fastforce
    from att [OF nf(1) run] nf(5) [of wrapped] run sec assms(3) False show ?thesis
      by (cases "req_body r"; cases res)
        (auto simp: enroll_def body_code_def writeLocked_def Let_def split: totp_error.splits if_splits)
  qed
  show "case totp_disable cfg (Some tab) True True now r of (pool', resp) \<Rightarrow> only_counters (t, u) tab pool' \<and> resp \<noteq> NoContent"
  proof -
    obtain p res where run: "?A True (disable_verify cfg (body_code r) now) = (p, res)" by fastforce
    from att [OF nf(4) run] nf(7) run assms(3) refl show ?thesis
      by (cases "req_body r"; cases res)
        (auto simp: totp_disable_def body_code_def writeLocked_def Let_def split: totp_error.splits if_splits)
  qed
  show "case totp_check cfg (Some tab) True now r of (pool', resp) \<Rightarrow> only_counters (t, u) tab pool' \<and> (\<forall>x. resp \<noteq> CheckOK x)"
  proof -
    obtain p res where run: "?A True (check_verify cfg (body_code r) now) = (p, res)" by fastforce
    from att [OF nf(3) run] nf(6) run assms(3) refl show ?thesis
      by (cases "req_body r"; cases res)
        (auto simp: totp_check_def body_code_def writeLocked_def Let_def split: totp_error.splits if_splits)
  qed
  show "case totp_verify cfg (Some tab) True now raws r of (pool', resp) \<Rightarrow> only_counters (t, u) tab pool' \<and> (\<forall>x. resp \<noteq> VerifyOK x)"
  proof (cases "newRecoveryCodes (cfg_sha cfg) raws")
    case None
    then show ?thesis using refl assms(3) by (auto simp: totp_verify_def split: totp_body.split)
  next
    case (Some ch)
    obtain codes hashed where ch: "ch = (codes, hashed)" by fastforce
    obtain p res where run: "?A False (confirm_verify cfg hashed (body_code r) now) = (p, res)" by fastforce
    have "Err (confirm_verify cfg hashed (body_code r) now c) = None \<Longrightarrow> \<not> OK (confirm_verify cfg hashed (body_code r) now c)"
      using nf(2) [of hashed] by simp
    from att [OF this run] nf(2) [of hashed] run assms(3) refl Some ch show ?thesis
      by (cases "req_body r"; cases res)
        (auto simp: totp_verify_def body_code_def writeLocked_def Let_def split: totp_error.splits if_splits)
  qed
qed

text \<open>
  A locked account stays locked for everyone: until the lock elapses, checking, re-enrolling and
  disabling an enabled credential answer 429 and change nothing, also with the right code.\<close>

theorem locked_refuses_even_right_code:
  assumes "tab (t, u) = Some c" and "Enabled c" and "totp_identity r = Some (t, u)" and "0 < locked_for now c"
    and "req_body r = Body code" and "wrapSecret cfg sec = Some wrapped"
  shows "totp_check cfg (Some tab) True now r = (Some tab, writeLocked (locked_for now c))
    \<and> enroll cfg (Some tab) True True now (Some sec) r = (Some tab, writeLocked (locked_for now c))
    \<and> totp_disable cfg (Some tab) True True now r = (Some tab, writeLocked (locked_for now c))"
  using assms
  by (simp add: totp_check_def enroll_def totp_disable_def EvaluateAttempt_def no_result_def Let_def)

text \<open>
  A minted recovery code works exactly once: it is accepted from the minted bundle, the bundle that
  remains refuses it and still accepts every other code.\<close>

theorem recovery_code_single_use:
  assumes "ideal_hash sha" and "newRecoveryCodes sha (Some raws) = Some (codes, bundle)" and "distinct codes"
    and "code \<in> set codes"
  shows "\<exists>bundle'. consumeRecoveryCode sha bundle code = (bundle', True)
    \<and> snd (consumeRecoveryCode sha bundle' code) = False
    \<and> (\<forall>other \<in> set codes. other \<noteq> code \<longrightarrow> snd (consumeRecoveryCode sha bundle' other) = True)"
proof -
  from assms(2) have codes: "codes = map recovery_code raws" and b0: "bundle = join_with (CHR ''|'') (map sha codes)"
    by (auto simp: newRecoveryCodes_def o_def)
  have form: "x \<noteq> [] \<and> map ascii_upper (trim_space x) = x" if "x \<in> set codes" for x
    using that codes recovery_code_id by auto
  let ?rest = "filter (\<lambda>x. x \<noteq> code) codes"
  have "distinct ?rest" using assms(3) by simp
  then show ?thesis
    using form assms(3,4) consume_bundle [OF assms(1), of codes] consume_bundle [OF assms(1), of ?rest] b0 by auto
qed

text \<open>
  The code an authenticator shows now is accepted now, and so is the code of the step before and of
  the step after; every code has six characters.\<close>

theorem current_code_accepted:
  "let step = quot (unix_sec now) 30
   in verifyCode hmac secret (generateHOTP hmac secret (step - 1)) now
      \<and> verifyCode hmac secret (generateHOTP hmac secret step) now
      \<and> verifyCode hmac secret (generateHOTP hmac secret (step + 1)) now
      \<and> length (generateHOTP hmac secret step) = 6"
  by (simp add: verifyCode_def length_HOTP Let_def)

text \<open>
  A one-time password is not used up by a login: the same code, submitted again at once, logs in a
  second time.\<close>

theorem code_is_replayable:
  assumes "totp_check cfg (Some tab) True now r = (pool', CheckOK ''totp'')" and "0 < cfg_MaxFailedAttempts cfg"
  shows "\<exists>pool''. totp_check cfg pool' True now r = (pool'', CheckOK ''totp'')"
proof -
  obtain t u code c sec where id: "totp_identity r = Some (t, u)" "req_body r = Body code" and row: "tab (t, u) = Some c"
    and en: "Enabled c" and unlocked: "\<not> locked_for now c > 0" and sec: "unwrapSecret cfg (EncryptedSecret c) = Some sec"
    and v: "verifyCode (cfg_hmac cfg) sec (trim_space code) now"
    and p1: "pool' = Some (tab((t, u) \<mapsto> verified_row now (no_verification\<lparr>OK := True, Method := ''totp''\<rparr>) c))"
    using assms(1)
    by (auto simp: totp_check_def EvaluateAttempt_def check_verify_def no_verification_def no_result_def writeLocked_def Let_def
        split: option.splits totp_body.splits if_splits totp_error.splits prod.splits bool.splits)
  let ?c = "verified_row now (no_verification\<lparr>OK := True, Method := ''totp''\<rparr>) c"
  have "Enabled ?c" "EncryptedSecret ?c = EncryptedSecret c" "\<not> locked_for now ?c > 0"
    using en by (simp_all add: verified_row_def coalesce_def locked_for_def)
  with id sec v show ?thesis unfolding p1
    by (simp add: totp_check_def EvaluateAttempt_def check_verify_def Let_def no_verification_def no_result_def)
qed

subsection \<open>Witnesses\<close>

text \<open>A configuration whose one-time password is always \<^verbatim>\<open>000000\<close>.\<close>

definition ex_cfg :: totp_config where
  "ex_cfg = \<lparr>cfg_hmac = (\<lambda>_ _. replicate 20 0), cfg_sha = ex_sha, cfg_envelope = None,
     cfg_MaxFailedAttempts = 5, cfg_LockoutDuration = 900 * nanos_per_s\<rparr>"

definition ex_cred :: "time option \<Rightarrow> TOTPCredential" where
  "ex_cred lock = \<lparr>EncryptedSecret = [1, 2, 3], RecoveryCodesHash = [], Enabled = True, CreatedAt = 0, LastUsedAt = None,
     FailedAttempts = 0, LockedUntil = lock\<rparr>"

definition ex_request :: "string \<Rightarrow> totp_request" where
  "ex_request code = \<lparr>ctx_tenant = ''t1'', ctx_user = ''u1'', dev_tenant = [], dev_user = [], req_body = Body code\<rparr>"

lemma ex_HOTP: "generateHOTP (\<lambda>_ _. replicate 20 0) sec n = ''000000''"
proof -
  have "digit_char 0 = CHR ''0''" by code_simp
  moreover have "replicate 5 c = [c, c, c, c, c]" for c :: char by (simp add: numeral_eq_Suc)
  ultimately have "pad6 0 = ''000000''" by (simp add: pad6_def dec_nat.simps [of 0])
  then show ?thesis by (simp add: generateHOTP_def)
qed

lemma ex_verify: "verifyCode (\<lambda>_ _. replicate 20 0) sec code now \<longleftrightarrow> code = ''000000''"
  by (auto simp: verifyCode_def ex_HOTP Let_def)

lemma ex_identity: "totp_identity (ex_request code) = Some (''t1'', ''u1'')"
  by (simp add: totp_identity_def ex_request_def)

theorem guesses_per_lockout_period_witness:
  "int (evaluated (Some [(''t1'', ''u1'') \<mapsto> ex_cred None]) ''t1'' ''u1'' 5 (900 * nanos_per_s) True
     (map (\<lambda>i. (i * nanos_per_s, \<lambda>_. no_verification)) [0..600])) \<le> 5"
proof -
  have "\<forall>(now, vf) \<in> set (map (\<lambda>i. (i * nanos_per_s, \<lambda>_. no_verification)) [0..600]). 0 \<le> now \<and> now < 0 + 900 * nanos_per_s \<and> wrong vf"
    by (auto simp: wrong_def)
  from guesses_per_lockout_period [OF _ _ this, of "[(''t1'', ''u1'') \<mapsto> ex_cred None]" "''t1''" "''u1''" "ex_cred None" 5 True]
  show ?thesis by (simp add: ex_cred_def)
qed

theorem factor_required_on_enabled_witness:
  "(\<forall>x. snd (totp_check ex_cfg (Some [(''t1'', ''u1'') \<mapsto> ex_cred None]) True 0 (ex_request ''123456'')) \<noteq> CheckOK x)
   \<and> snd (totp_disable ex_cfg (Some [(''t1'', ''u1'') \<mapsto> ex_cred None]) True True 0 (ex_request ''123456'')) \<noteq> NoContent"
proof -
  have "\<not> has_factor ex_cfg (ex_cred None) (body_code (ex_request ''123456'')) 0"
    by (simp add: has_factor_def ex_cfg_def ex_cred_def ex_verify body_code_def ex_request_def trim_space_def is_space_def
        consumeRecoveryCode_def)
  from factor_required_on_enabled [OF _ _ ex_identity this, of "[(''t1'', ''u1'') \<mapsto> ex_cred None]" "Some []" "Some []"]
  show ?thesis by (auto simp: ex_cred_def split: prod.splits)
qed

theorem locked_refuses_even_right_code_witness:
  "totp_check ex_cfg (Some [(''t1'', ''u1'') \<mapsto> ex_cred (Some (60 * nanos_per_s))]) True 0 (ex_request ''000000'')
     = (Some [(''t1'', ''u1'') \<mapsto> ex_cred (Some (60 * nanos_per_s))], TooMany 60)"
  using locked_refuses_even_right_code [of "[(''t1'', ''u1'') \<mapsto> ex_cred (Some (60 * nanos_per_s))]" "''t1''" "''u1''"
      "ex_cred (Some (60 * nanos_per_s))" "ex_request ''000000''" 0 "''000000''" ex_cfg "[]" "[]"] ex_identity
  by (simp add: ex_cred_def ex_request_def locked_for_def ex_cfg_def wrapSecret_def writeLocked_def quot_nonneg)

lemma ex_codes: "recovery_code [0, 0, 0, 0, 0, 0] = ''AAAAA-AAAAA''" "recovery_code [255, 0, 0, 0, 0, 0] = ''74AAA-AAAAA''"
  by (simp_all add: recovery_code_def base32_def byte_bits_def base32_alphabet_def ascii_upper_def upt_rec)

theorem recovery_code_single_use_witness:
  "\<exists>bundle'. consumeRecoveryCode ex_sha (join_with (CHR ''|'') (map ex_sha [''AAAAA-AAAAA'', ''74AAA-AAAAA''])) ''AAAAA-AAAAA'' = (bundle', True)
     \<and> snd (consumeRecoveryCode ex_sha bundle' ''AAAAA-AAAAA'') = False
     \<and> snd (consumeRecoveryCode ex_sha bundle' ''74AAA-AAAAA'') = True"
proof -
  let ?codes = "[''AAAAA-AAAAA'', ''74AAA-AAAAA'']"
  have new: "newRecoveryCodes ex_sha (Some [[0, 0, 0, 0, 0, 0], [255, 0, 0, 0, 0, 0]]) = Some (?codes, join_with (CHR ''|'') (map ex_sha ?codes))"
    by (simp add: newRecoveryCodes_def ex_codes)
  from recovery_code_single_use [OF ex_sha_ideal new, of "''AAAAA-AAAAA''"] show ?thesis by auto
qed

theorem code_is_replayable_witness:
  "\<exists>pool' pool''. totp_check ex_cfg (Some [(''t1'', ''u1'') \<mapsto> ex_cred None]) True 0 (ex_request ''000000'') = (pool', CheckOK ''totp'')
     \<and> totp_check ex_cfg pool' True 0 (ex_request ''000000'') = (pool'', CheckOK ''totp'')"
proof -
  obtain pool' where first: "totp_check ex_cfg (Some [(''t1'', ''u1'') \<mapsto> ex_cred None]) True 0 (ex_request ''000000'') = (pool', CheckOK ''totp'')"
    by (simp add: totp_check_def ex_identity EvaluateAttempt_def ex_cred_def locked_for_def check_verify_def Let_def
        unwrapSecret_def ex_cfg_def ex_verify ex_request_def trim_space_def is_space_def no_verification_def no_result_def
        totp_identity_def)
  from code_is_replayable [OF first] first show ?thesis by (simp add: ex_cfg_def)
qed

end
