(* ===== verification/Session.thy ===== *)
theory Session
  imports Valkey "HOL-Library.Multiset"
begin

text \<open>
  The session ledger of \<^verbatim>\<open>internal/middleware\<close>: \<^verbatim>\<open>session.go\<close> (the manager and the in-process store),
  \<^verbatim>\<open>session_redis.go\<close> (the shared store) and \<^verbatim>\<open>session_handlers.go\<close> (list and revoke). The interface
  \<^verbatim>\<open>SessionStore\<close> is a record of its operations; the manager and the handlers take it as an argument.
  \<open>sha\<close> is SHA-256 in hexadecimal.
\<close>

subsection \<open>Data\<close>

record SessionInfo =
  si_ID :: string
  si_UserKey :: string
  si_TenantID :: string
  si_UserID :: string
  si_UserAgent :: string
  si_IP :: string
  si_CreatedAt :: "time option"
  si_LastSeen :: time

datatype session_error = ErrSessionNotFound | ErrSessionStore

record 's session_store =
  ss_Touch :: "'s \<Rightarrow> SessionInfo \<Rightarrow> duration \<Rightarrow> int \<Rightarrow> time \<Rightarrow> 's \<times> (session_error + string list)"
  ss_List :: "'s \<Rightarrow> string \<Rightarrow> duration \<Rightarrow> time \<Rightarrow> 's \<times> (session_error + SessionInfo list)"
  ss_Revoke :: "'s \<Rightarrow> string \<Rightarrow> string \<Rightarrow> duration \<Rightarrow> time \<Rightarrow> 's \<times> session_error option"
  ss_IsRevoked :: "'s \<Rightarrow> string \<Rightarrow> time \<Rightarrow> 's \<times> (session_error + bool)"

subsection \<open>The in-process store\<close>

text \<open>The inner Go map is an association list with distinct keys in the order of its iteration.\<close>

record MemorySessionStore =
  mem_sessions :: "string \<Rightarrow> (string \<times> SessionInfo) list"
  mem_revoked :: "string \<rightharpoonup> time"

definition NewMemorySessionStore :: MemorySessionStore where
  "NewMemorySessionStore = \<lparr>mem_sessions = (\<lambda>_. []), mem_revoked = Map.empty\<rparr>"

definition pruneLocked :: "MemorySessionStore \<Rightarrow> string \<Rightarrow> duration \<Rightarrow> time \<Rightarrow> MemorySessionStore" where
  "pruneLocked s uk idleTTL now =
     s\<lparr>mem_sessions := (mem_sessions s)(uk := filter (\<lambda>(sid, info). \<not> (now - si_LastSeen info > idleTTL)) (mem_sessions s uk))\<rparr>"

text \<open>The search for the oldest session other than the caller's own.\<close>

fun oldest_other :: "string \<Rightarrow> (string \<times> SessionInfo) list \<Rightarrow> (string \<times> SessionInfo) option \<Rightarrow> string option" where
  "oldest_other keep [] best = map_option fst best"
| "oldest_other keep ((sid, info) # rest) best =
     (if sid = keep then oldest_other keep rest best
      else case best of
          None \<Rightarrow> oldest_other keep rest (Some (sid, info))
        | Some (b, binfo) \<Rightarrow>
            if the (si_CreatedAt info) < the (si_CreatedAt binfo) then oldest_other keep rest (Some (sid, info))
            else oldest_other keep rest best)"

lemma oldest_other_mem:
  "oldest_other keep xs best = Some x \<Longrightarrow> (x \<in> fst ` set xs \<and> x \<noteq> keep) \<or> (\<exists>i. best = Some (x, i))"
proof (induction keep xs best rule: oldest_other.induct)
  case (2 keep sid info rest best)
  show ?case
  proof (cases "sid = keep")
    case True
    with 2 show ?thesis by auto
  next
    case False
    show ?thesis
    proof (cases best)
      case None
      with 2(2) [OF False] 2(5) False show ?thesis by auto
    next
      case (Some b)
      obtain bid binfo where b: "b = (bid, binfo)" by fastforce
      show ?thesis
      proof (cases "the (si_CreatedAt info) < the (si_CreatedAt binfo)")
        case True
        with 2(3) [OF False] 2(5) False Some b show ?thesis by auto
      next
        case less: False
        with 2(4) [OF False] 2(5) False Some b show ?thesis by auto
      qed
    qed
  qed
qed simp

function evict_loop :: "string \<Rightarrow> int \<Rightarrow> (string \<times> SessionInfo) list \<Rightarrow> (string \<times> SessionInfo) list \<times> string list" where
  "evict_loop keep cap xs =
     (if int (length xs) > cap
      then (case oldest_other keep xs None of
          None \<Rightarrow> (xs, [])
        | Some victim \<Rightarrow>
            if victim = [] then (xs, [])
            else let (ys, ev) = evict_loop keep cap (filter (\<lambda>p. fst p \<noteq> victim) xs) in (ys, victim # ev))
      else (xs, []))"
  by pat_completeness auto
termination
proof (relation "measure (\<lambda>(keep, cap, xs). length xs)")
  fix keep cap and xs :: "(string \<times> SessionInfo) list" and victim
  assume "oldest_other keep xs None = Some victim"
  then have "victim \<in> fst ` set xs" using oldest_other_mem by fastforce
  then show "((keep, cap, filter (\<lambda>p. fst p \<noteq> victim) xs), keep, cap, xs) \<in> measure (\<lambda>(keep, cap, xs). length xs)"
    by (auto intro!: length_filter_less)
qed simp

declare evict_loop.simps [simp del]

definition memTouch :: "MemorySessionStore \<Rightarrow> SessionInfo \<Rightarrow> duration \<Rightarrow> int \<Rightarrow> time \<Rightarrow> MemorySessionStore \<times> (session_error + string list)" where
  "memTouch s inp idleTTL maxConcurrent now =
     (let uk = si_UserKey inp; s1 = pruneLocked s uk idleTTL now in
      case map_of (mem_sessions s1 uk) (si_ID inp) of
        Some existing \<Rightarrow>
          (s1\<lparr>mem_sessions := (mem_sessions s1)(uk := AList.update (si_ID inp)
             (existing\<lparr>si_LastSeen := now, si_UserAgent := si_UserAgent inp, si_IP := si_IP inp\<rparr>) (mem_sessions s1 uk))\<rparr>, Inr [])
      | None \<Rightarrow>
          let inp1 = inp\<lparr>si_CreatedAt := Some (case si_CreatedAt inp of None \<Rightarrow> now | Some c \<Rightarrow> c), si_LastSeen := now\<rparr>;
              xs = AList.update (si_ID inp) inp1 (mem_sessions s1 uk);
              (ys, evicted) = (if maxConcurrent > 0 then evict_loop (si_ID inp) maxConcurrent xs else (xs, []))
          in (s1\<lparr>mem_sessions := (mem_sessions s1)(uk := ys)\<rparr>, Inr evicted))"

definition newest_first :: "SessionInfo list \<Rightarrow> SessionInfo list" where
  "newest_first xs = sort_key (\<lambda>i. - the (si_CreatedAt i)) xs"

definition memList :: "MemorySessionStore \<Rightarrow> string \<Rightarrow> duration \<Rightarrow> time \<Rightarrow> MemorySessionStore \<times> (session_error + SessionInfo list)" where
  "memList s uk idleTTL now =
     (let s1 = pruneLocked s uk idleTTL now in (s1, Inr (newest_first (map snd (mem_sessions s1 uk)))))"

definition memRevoke :: "MemorySessionStore \<Rightarrow> string \<Rightarrow> string \<Rightarrow> duration \<Rightarrow> time \<Rightarrow> MemorySessionStore \<times> session_error option" where
  "memRevoke s uk sessionID ttl now =
     (case map_of (mem_sessions s uk) sessionID of
        None \<Rightarrow> (s, Some ErrSessionNotFound)
      | Some _ \<Rightarrow>
          (s\<lparr>mem_sessions := (mem_sessions s)(uk := filter (\<lambda>p. fst p \<noteq> sessionID) (mem_sessions s uk)),
             mem_revoked := (mem_revoked s)(sessionID \<mapsto> now + ttl)\<rparr>, None))"

definition memIsRevoked :: "MemorySessionStore \<Rightarrow> string \<Rightarrow> time \<Rightarrow> MemorySessionStore \<times> (session_error + bool)" where
  "memIsRevoked s sessionID now =
     (case mem_revoked s sessionID of
        None \<Rightarrow> (s, Inr False)
      | Some exp \<Rightarrow>
          if now > exp then (s\<lparr>mem_revoked := (mem_revoked s)(sessionID := None)\<rparr>, Inr False)
          else (s, Inr True))"

definition memory_store :: "MemorySessionStore session_store" where
  "memory_store = \<lparr>ss_Touch = memTouch, ss_List = memList, ss_Revoke = memRevoke, ss_IsRevoked = memIsRevoked\<rparr>"

subsection \<open>The shared store\<close>

text \<open>
  \<open>cd\<close> is the JSON codec of \<^verbatim>\<open>SessionInfo\<close>; the server's clock is the process clock in milliseconds.
  The client sends \<^verbatim>\<open>EXPIRE\<close> in whole seconds and \<^verbatim>\<open>SET\<close> with an expiry in milliseconds, at least one of them
  for a positive duration; \<^verbatim>\<open>SET\<close> with no positive duration sets no expiry.
\<close>

record session_codec =
  s_enc :: "SessionInfo \<Rightarrow> string"
  s_dec :: "string \<Rightarrow> SessionInfo option"

definition sessKey :: "string \<Rightarrow> string" where
  "sessKey sid = ''sess:'' @ sid"

definition userSessKey :: "string \<Rightarrow> string" where
  "userSessKey uk = ''usess:'' @ uk"

definition revokedKey :: "string \<Rightarrow> string" where
  "revokedKey sid = ''srevoked:'' @ sid"

definition format_sec :: "duration \<Rightarrow> int" where
  "format_sec d = (if 0 < d \<and> d < nanos_per_s then 1 else quot d nanos_per_s)"

definition format_ms :: "duration \<Rightarrow> int" where
  "format_ms d = (if 0 < d \<and> d < nanos_per_ms then 1 else milliseconds d)"

definition set_expiry :: "duration \<Rightarrow> int option" where
  "set_expiry d = (if 0 < d then Some (format_ms d) else None)"

fun load_infos :: "'s valkey \<Rightarrow> session_codec \<Rightarrow> 's \<Rightarrow> int \<Rightarrow> string list \<Rightarrow> SessionInfo list \<times> string list" where
  "load_infos v cd s t [] = ([], [])"
| "load_infos v cd s t (i # ids) =
     (let (out, stale) = load_infos v cd s t ids in
      case vk_get v s t (sessKey i) of
        None \<Rightarrow> (out, i # stale)
      | Some raw \<Rightarrow> (case s_dec cd raw of None \<Rightarrow> (out, i # stale) | Some info \<Rightarrow> (info # out, stale)))"

definition listLive :: "'s valkey \<Rightarrow> session_codec \<Rightarrow> 's \<Rightarrow> string \<Rightarrow> time \<Rightarrow> 's \<times> SessionInfo list" where
  "listLive v cd s uk now =
     (let t = unix_milli now; (out, stale) = load_infos v cd s t (vk_smembers v s t (userSessKey uk))
      in (fold (\<lambda>i s. vk_srem v s t (userSessKey uk) i) stale s, newest_first out))"

fun evict_tail :: "'s valkey \<Rightarrow> 's \<Rightarrow> int \<Rightarrow> string \<Rightarrow> string \<Rightarrow> int \<Rightarrow> SessionInfo list \<Rightarrow> 's \<times> string list" where
  "evict_tail v s t uk keepID excess [] = (s, [])"
| "evict_tail v s t uk keepID excess (victim # rest) =
     (if excess \<le> 0 then (s, [])
      else if si_ID victim = keepID then evict_tail v s t uk keepID excess rest
      else let s1 = vk_srem v (vk_del v s t (sessKey (si_ID victim))) t (userSessKey uk) (si_ID victim);
               (s2, ev) = evict_tail v s1 t uk keepID (excess - 1) rest
           in (s2, si_ID victim # ev))"

definition enforceCap :: "'s valkey \<Rightarrow> session_codec \<Rightarrow> 's \<Rightarrow> string \<Rightarrow> string \<Rightarrow> int \<Rightarrow> time \<Rightarrow> 's \<times> string list" where
  "enforceCap v cd s uk keepID maxConcurrent now =
     (let (s1, live) = listLive v cd s uk now in
      if int (length live) \<le> maxConcurrent then (s1, [])
      else evict_tail v s1 (unix_milli now) uk keepID (int (length live) - maxConcurrent) (rev live))"

definition redisTouch :: "'s valkey \<Rightarrow> session_codec \<Rightarrow> 's \<Rightarrow> SessionInfo \<Rightarrow> duration \<Rightarrow> int \<Rightarrow> time
    \<Rightarrow> 's \<times> (session_error + string list)" where
  "redisTouch v cd s inp idleTTL maxConcurrent now =
     (let t = unix_milli now;
          created = (case vk_get v s t (sessKey (si_ID inp)) of
              None \<Rightarrow> Some now
            | Some raw \<Rightarrow> (case s_dec cd raw of None \<Rightarrow> si_CreatedAt inp | Some prev \<Rightarrow> si_CreatedAt prev));
          inp1 = inp\<lparr>si_CreatedAt := created, si_LastSeen := now\<rparr>;
          s1 = vk_set v s t (sessKey (si_ID inp)) (s_enc cd inp1) (set_expiry idleTTL);
          s2 = vk_sadd v s1 t (userSessKey (si_UserKey inp)) (si_ID inp);
          s3 = vk_pexpire v s2 t (userSessKey (si_UserKey inp)) (1000 * format_sec idleTTL)
      in if maxConcurrent \<le> 0 then (s3, Inr [])
         else (case enforceCap v cd s3 (si_UserKey inp) (si_ID inp) maxConcurrent now of (s4, ev) \<Rightarrow> (s4, Inr ev)))"

definition redisList :: "'s valkey \<Rightarrow> session_codec \<Rightarrow> 's \<Rightarrow> string \<Rightarrow> duration \<Rightarrow> time \<Rightarrow> 's \<times> (session_error + SessionInfo list)" where
  "redisList v cd s uk idleTTL now = (case listLive v cd s uk now of (s1, infos) \<Rightarrow> (s1, Inr infos))"

definition redisRevoke :: "'s valkey \<Rightarrow> 's \<Rightarrow> string \<Rightarrow> string \<Rightarrow> duration \<Rightarrow> time \<Rightarrow> 's \<times> session_error option" where
  "redisRevoke v s uk sessionID ttl now =
     (let t = unix_milli now in
      if \<not> vk_sismember v s t (userSessKey uk) sessionID then (s, Some ErrSessionNotFound)
      else let s1 = vk_del v s t (sessKey sessionID);
               s2 = vk_srem v s1 t (userSessKey uk) sessionID
           in (vk_set v s2 t (revokedKey sessionID) ''1'' (set_expiry ttl), None))"

definition redisIsRevoked :: "'s valkey \<Rightarrow> 's \<Rightarrow> string \<Rightarrow> time \<Rightarrow> 's \<times> (session_error + bool)" where
  "redisIsRevoked v s sessionID now = (s, Inr (vk_exists v s (unix_milli now) (revokedKey sessionID)))"

definition redis_store :: "'s valkey \<Rightarrow> session_codec \<Rightarrow> 's session_store" where
  "redis_store v cd = \<lparr>ss_Touch = redisTouch v cd, ss_List = redisList v cd, ss_Revoke = redisRevoke v, ss_IsRevoked = redisIsRevoked v\<rparr>"

subsection \<open>The manager\<close>

record session_config =
  sc_IdleTimeout :: duration
  sc_MaxConcurrent :: int
  sc_Enabled :: bool
  sc_RevokeTTL :: duration

definition NewSessionManager :: "session_config \<Rightarrow> session_config" where
  "NewSessionManager cfg =
     cfg\<lparr>sc_IdleTimeout := (if sc_IdleTimeout cfg \<le> 0 then 8 * 3600 * nanos_per_s else sc_IdleTimeout cfg),
         sc_MaxConcurrent := (if sc_MaxConcurrent cfg = 0 then 5 else sc_MaxConcurrent cfg),
         sc_RevokeTTL := (if sc_RevokeTTL cfg \<le> 0 then 24 * 3600 * nanos_per_s else sc_RevokeTTL cfg)\<rparr>"

record http_request =
  rq_Authorization :: string
  rq_tenant :: string
  rq_user :: string
  rq_UserAgent :: string
  rq_XForwardedFor :: string
  rq_RemoteHost :: string

definition SessionIDFromRequest :: "(string \<Rightarrow> string) \<Rightarrow> http_request \<Rightarrow> string" where
  "SessionIDFromRequest sha r =
     (case splitN2 (CHR '' '') (rq_Authorization r) of
        [scheme, rest] \<Rightarrow>
          if map ascii_lower scheme \<noteq> ''bearer'' then []
          else let tok = trim_space rest in if tok = [] then [] else take 32 (sha tok)
      | _ \<Rightarrow> [])"

definition userKey :: "string \<Rightarrow> string \<Rightarrow> string" where
  "userKey tenantID userID = tenantID @ '':'' @ userID"

text \<open>\<open>rq_RemoteHost\<close> is the host of the connection's remote address.\<close>

definition clientIP :: "http_request \<Rightarrow> string" where
  "clientIP r = (if rq_XForwardedFor r \<noteq> [] then trim_space (takeWhile (\<lambda>c. c \<noteq> CHR '','') (rq_XForwardedFor r))
     else rq_RemoteHost r)"

datatype session_response = Next | SessionRevoked | SessionLimit

definition session_Wrap :: "(string \<Rightarrow> string) \<Rightarrow> 's session_store option \<Rightarrow> session_config \<Rightarrow> 's \<Rightarrow> time \<Rightarrow> http_request
    \<Rightarrow> 's \<times> session_response" where
  "session_Wrap sha store cfg s now r =
     (case store of
        None \<Rightarrow> (s, Next)
      | Some ss \<Rightarrow>
          if \<not> sc_Enabled cfg then (s, Next)
          else let sid = SessionIDFromRequest sha r in
            if sid = [] \<or> rq_tenant r = [] \<or> rq_user r = [] then (s, Next)
            else (case ss_IsRevoked ss s sid now of
                (s1, Inl _) \<Rightarrow> (s1, Next)
              | (s1, Inr True) \<Rightarrow> (s1, SessionRevoked)
              | (s1, Inr False) \<Rightarrow>
                  let info = \<lparr>si_ID = sid, si_UserKey = userKey (rq_tenant r) (rq_user r), si_TenantID = rq_tenant r,
                              si_UserID = rq_user r, si_UserAgent = rq_UserAgent r, si_IP = clientIP r,
                              si_CreatedAt = Some now, si_LastSeen = now\<rparr>
                  in (case ss_Touch ss s1 info (sc_IdleTimeout cfg) (sc_MaxConcurrent cfg) now of
                        (s2, Inl _) \<Rightarrow> (s2, Next)
                      | (s2, Inr evicted) \<Rightarrow> (s2, if sid \<in> set evicted then SessionLimit else Next))))"

subsection \<open>The handlers\<close>

datatype session_reply =
    ServiceUnavailable | Unauthenticated | ListFailed | Sessions "(SessionInfo \<times> bool) list" int int
  | MissingTarget | RevokeFailed | SessionNotFound | Revoked "string list"

definition list_sessions :: "(string \<Rightarrow> string) \<Rightarrow> 's session_store option \<Rightarrow> session_config \<Rightarrow> 's \<Rightarrow> time \<Rightarrow> http_request
    \<Rightarrow> 's \<times> session_reply" where
  "list_sessions sha store cfg s now r =
     (case store of
        None \<Rightarrow> (s, ServiceUnavailable)
      | Some ss \<Rightarrow>
          if rq_tenant r = [] \<or> rq_user r = [] then (s, Unauthenticated)
          else (case ss_List ss s (userKey (rq_tenant r) (rq_user r)) (sc_IdleTimeout cfg) now of
              (s1, Inl _) \<Rightarrow> (s1, ListFailed)
            | (s1, Inr infos) \<Rightarrow>
                (s1, Sessions (map (\<lambda>i. (i, si_ID i = SessionIDFromRequest sha r)) infos)
                       (sc_MaxConcurrent cfg) (quot (sc_IdleTimeout cfg) nanos_per_s))))"

fun revoke_each :: "'s session_store \<Rightarrow> 's \<Rightarrow> string \<Rightarrow> duration \<Rightarrow> time \<Rightarrow> string list \<Rightarrow> 's \<times> string list option" where
  "revoke_each ss s uk ttl now [] = (s, Some [])"
| "revoke_each ss s uk ttl now (sid # sids) =
     (case ss_Revoke ss s uk sid ttl now of
        (s1, None) \<Rightarrow> (case revoke_each ss s1 uk ttl now sids of (s2, r) \<Rightarrow> (s2, map_option (\<lambda>xs. sid # xs) r))
      | (s1, Some ErrSessionNotFound) \<Rightarrow> revoke_each ss s1 uk ttl now sids
      | (s1, Some ErrSessionStore) \<Rightarrow> (s1, None))"

definition revoke_sessions :: "(string \<Rightarrow> string) \<Rightarrow> 's session_store option \<Rightarrow> session_config \<Rightarrow> 's \<Rightarrow> time \<Rightarrow> http_request
    \<Rightarrow> string \<Rightarrow> bool \<Rightarrow> 's \<times> session_reply" where
  "revoke_sessions sha store cfg s now r sessionID allOthers =
     (case store of
        None \<Rightarrow> (s, ServiceUnavailable)
      | Some ss \<Rightarrow>
          if rq_tenant r = [] \<or> rq_user r = [] then (s, Unauthenticated)
          else if sessionID = [] \<and> \<not> allOthers then (s, MissingTarget)
          else let uk = userKey (rq_tenant r) (rq_user r); current = SessionIDFromRequest sha r in
            (case (if allOthers
                   then (case ss_List ss s uk (sc_IdleTimeout cfg) now of
                       (s1, Inl _) \<Rightarrow> (s1, None)
                     | (s1, Inr infos) \<Rightarrow> (s1, Some (filter (\<lambda>i. i \<noteq> current) (map si_ID infos))))
                   else (s, Some [sessionID])) of
               (s1, None) \<Rightarrow> (s1, ListFailed)
             | (s1, Some toRevoke) \<Rightarrow>
                 (case revoke_each ss s1 uk (sc_RevokeTTL cfg) now toRevoke of
                    (s2, None) \<Rightarrow> (s2, RevokeFailed)
                  | (s2, Some revoked) \<Rightarrow>
                      if \<not> allOthers \<and> revoked = [] then (s2, SessionNotFound) else (s2, Revoked revoked))))"

subsection \<open>The contract of a store\<close>

text \<open>
  What the manager and the handlers rely on, for a fixed cap and idle timeout: \<open>owned s uk now\<close> are the
  session ids in the user's ledger, \<open>tomb s sid now\<close> says that the id is revoked. A touch records the
  caller's own session, never evicts it and leaves at most \<open>cap\<close> sessions; a revocation works only on the
  user's own ledger and lasts for its time to live (up to the resolution of the store's clock); the other
  operations do not touch revocations.
\<close>

locale session_ledger =
  fixes ss :: "'s session_store" and cap :: int and idle :: duration
    and wf :: "'s \<Rightarrow> bool" and owned :: "'s \<Rightarrow> string \<Rightarrow> time \<Rightarrow> string set" and tomb :: "'s \<Rightarrow> string \<Rightarrow> time \<Rightarrow> bool"
  assumes touch: "wf s \<Longrightarrow> 0 < idle \<Longrightarrow> si_ID inp \<noteq> [] \<Longrightarrow> ss_Touch ss s inp idle cap now = (s', res) \<Longrightarrow>
      \<exists>ev. res = Inr ev \<and> wf s' \<and> si_ID inp \<notin> set ev \<and> si_ID inp \<in> owned s' (si_UserKey inp) now
        \<and> owned s' (si_UserKey inp) now \<subseteq> insert (si_ID inp) (owned s (si_UserKey inp) now)
        \<and> (0 < cap \<longrightarrow> int (card (owned s' (si_UserKey inp) now)) \<le> cap)
        \<and> (\<forall>x u. now \<le> u \<longrightarrow> tomb s' x u = tomb s x u)"
    and listing: "wf s \<Longrightarrow> ss_List ss s uk idle now = (s', lres) \<Longrightarrow>
      \<exists>infos. lres = Inr infos \<and> wf s' \<and> si_ID ` set infos = owned s' uk now \<and> owned s' uk now \<subseteq> owned s uk now
        \<and> sorted_wrt (\<lambda>a b. the (si_CreatedAt b) \<le> the (si_CreatedAt a)) infos
        \<and> (\<forall>x u. now \<le> u \<longrightarrow> tomb s' x u = tomb s x u)"
    and revoke_owned: "wf s \<Longrightarrow> sid \<in> owned s uk now \<Longrightarrow> 0 < ttl \<Longrightarrow>
      \<exists>s'. ss_Revoke ss s uk sid ttl now = (s', None) \<and> wf s' \<and> owned s' uk now = owned s uk now - {sid}
        \<and> (\<forall>u. now \<le> u \<and> u + nanos_per_ms \<le> now + ttl \<longrightarrow> tomb s' sid u)
        \<and> (\<forall>x u. x \<noteq> sid \<and> now \<le> u \<longrightarrow> tomb s' x u = tomb s x u)"
    and revoke_foreign: "wf s \<Longrightarrow> sid \<notin> owned s uk now \<Longrightarrow> ss_Revoke ss s uk sid ttl now = (s, Some ErrSessionNotFound)"
    and revoked: "wf s \<Longrightarrow> ss_IsRevoked ss s sid now = (s', rres) \<Longrightarrow>
      rres = Inr (tomb s sid now) \<and> wf s' \<and> owned s' uk now = owned s uk now
        \<and> (\<forall>x u. now \<le> u \<longrightarrow> tomb s' x u = tomb s x u)"

subsection \<open>The in-process store keeps the contract\<close>

definition mem_wf :: "int \<Rightarrow> MemorySessionStore \<Rightarrow> bool" where
  "mem_wf cap s \<longleftrightarrow> (\<forall>uk. distinct (map fst (mem_sessions s uk)) \<and> (\<forall>(sid, i) \<in> set (mem_sessions s uk). si_ID i = sid \<and> sid \<noteq> [])
     \<and> (0 < cap \<longrightarrow> int (length (mem_sessions s uk)) \<le> cap))"

definition mem_owned :: "MemorySessionStore \<Rightarrow> string \<Rightarrow> time \<Rightarrow> string set" where
  "mem_owned s uk now = fst ` set (mem_sessions s uk)"

definition mem_tomb :: "MemorySessionStore \<Rightarrow> string \<Rightarrow> time \<Rightarrow> bool" where
  "mem_tomb s sid now \<longleftrightarrow> (case mem_revoked s sid of None \<Rightarrow> False | Some exp \<Rightarrow> now \<le> exp)"

lemma oldest_other_some:
  "(\<exists>p \<in> set xs. fst p \<noteq> keep) \<or> best \<noteq> None \<Longrightarrow> \<exists>x. oldest_other keep xs best = Some x"
  by (induction keep xs best rule: oldest_other.induct) (auto split: option.splits if_splits)

lemma evict_loop_spec:
  assumes "distinct (map fst xs)" and "evict_loop keep cap xs = (ys, ev)" and "keep \<in> fst ` set xs" and "0 < cap"
    and "[] \<notin> fst ` set xs"
  shows "set ys \<subseteq> set xs \<and> distinct (map fst ys) \<and> keep \<in> fst ` set ys \<and> keep \<notin> set ev \<and> int (length ys) \<le> cap
    \<and> fst ` set ys \<inter> set ev = {}"
  using assms
proof (induction keep cap xs arbitrary: ys ev rule: evict_loop.induct)
  case (1 keep cap xs)
  show ?case
  proof (cases "int (length xs) > cap")
    case False
    with 1 have "ys = xs" "ev = []" by (simp_all add: evict_loop.simps [of keep cap xs])
    with False 1 show ?thesis by auto
  next
    case True
    have "\<exists>p \<in> set xs. fst p \<noteq> keep"
    proof (rule ccontr)
      assume "\<not> ?thesis"
      then have "set (map fst xs) \<subseteq> {keep}" by auto
      then have "card (set (map fst xs)) \<le> card {keep}" by (intro card_mono) auto
      moreover have "card (set (map fst xs)) = length xs" using 1(2) by (metis distinct_card length_map)
      ultimately show False using True 1(5) by simp
    qed
    then obtain victim where v: "oldest_other keep xs None = Some victim" using oldest_other_some by metis
    then have vm: "victim \<noteq> keep" "victim \<in> fst ` set xs" using oldest_other_mem [OF v] by auto
    then have ne: "victim \<noteq> []" using 1(6) by blast
    let ?xs = "filter (\<lambda>p. fst p \<noteq> victim) xs"
    obtain zs ev' where z: "evict_loop keep cap ?xs = (zs, ev')" by fastforce
    have res: "ys = zs" "ev = victim # ev'" using 1(3) True v z ne by (simp_all add: evict_loop.simps [of keep cap xs])
    have "distinct (map fst ?xs)" using 1(2) by (simp add: distinct_map inj_on_def)
    moreover have "keep \<in> fst ` set ?xs" using 1(4) vm by auto
    moreover have "[] \<notin> fst ` set ?xs" using 1(6) by auto
    ultimately have IH: "set zs \<subseteq> set ?xs \<and> distinct (map fst zs) \<and> keep \<in> fst ` set zs \<and> keep \<notin> set ev' \<and> int (length zs) \<le> cap \<and> fst ` set zs \<inter> set ev' = {}"
      using 1(1) [OF True v ne _ z] 1(5) by blast
    with res vm show ?thesis by auto
  qed
qed

lemma prune_sessions:
  "mem_sessions (pruneLocked s uk idle now) uk' =
     (if uk' = uk then filter (\<lambda>(sid, info). \<not> (now - si_LastSeen info > idle)) (mem_sessions s uk) else mem_sessions s uk')"
  "mem_revoked (pruneLocked s uk idle now) = mem_revoked s"
  by (simp_all add: pruneLocked_def)

lemma mem_wf_user:
  assumes "mem_wf cap s" and "distinct (map fst ys)" and "\<forall>(sid, i) \<in> set ys. si_ID i = sid \<and> sid \<noteq> []"
    and "0 < cap \<longrightarrow> int (length ys) \<le> cap"
  shows "mem_wf cap (s\<lparr>mem_sessions := (mem_sessions s)(uk := ys)\<rparr>)"
  using assms by (simp add: mem_wf_def)

lemma mem_wf_filter: "mem_wf cap s \<Longrightarrow> mem_wf cap (s\<lparr>mem_sessions := (mem_sessions s)(uk := filter P (mem_sessions s uk))\<rparr>)"
proof (rule mem_wf_user)
  assume wf: "mem_wf cap s"
  have "distinct (map fst (mem_sessions s uk))" using wf by (simp add: mem_wf_def)
  then show "distinct (map fst (filter P (mem_sessions s uk)))" by (simp add: distinct_map inj_on_def)
  show "\<forall>(sid, i) \<in> set (filter P (mem_sessions s uk)). si_ID i = sid \<and> sid \<noteq> []" using wf by (auto simp: mem_wf_def)
  show "0 < cap \<longrightarrow> int (length (filter P (mem_sessions s uk))) \<le> cap"
  proof
    assume "0 < cap"
    then have "int (length (mem_sessions s uk)) \<le> cap" using wf by (simp add: mem_wf_def)
    then show "int (length (filter P (mem_sessions s uk))) \<le> cap" using length_filter_le [of P "mem_sessions s uk"] by linarith
  qed
qed

lemma mem_wf_prune: "mem_wf cap s \<Longrightarrow> mem_wf cap (pruneLocked s uk idle now)"
  by (simp add: pruneLocked_def mem_wf_filter)

lemma mem_tomb_sessions: "mem_revoked s' = mem_revoked s \<Longrightarrow> mem_tomb s' = mem_tomb s"
  by (simp add: mem_tomb_def fun_eq_iff)

lemma mem_wf_revoked: "mem_wf cap (s\<lparr>mem_revoked := x\<rparr>) = mem_wf cap s"
  by (simp add: mem_wf_def)

lemma mem_touch_law:
  assumes wf: "mem_wf cap s" and nonempty: "si_ID inp \<noteq> []" and run: "memTouch s inp idle cap now = (s', res)"
  shows "\<exists>ev. res = Inr ev \<and> mem_wf cap s' \<and> si_ID inp \<notin> set ev \<and> si_ID inp \<in> mem_owned s' (si_UserKey inp) now
    \<and> mem_owned s' (si_UserKey inp) now \<subseteq> insert (si_ID inp) (mem_owned s (si_UserKey inp) now)
    \<and> (0 < cap \<longrightarrow> int (card (mem_owned s' (si_UserKey inp) now)) \<le> cap)
    \<and> (\<forall>x u. now \<le> u \<longrightarrow> mem_tomb s' x u = mem_tomb s x u)"
proof -
  let ?uk = "si_UserKey inp" and ?id = "si_ID inp"
  define s1 where "s1 = pruneLocked s ?uk idle now"
  have wf1: "mem_wf cap s1" using wf by (simp add: s1_def mem_wf_prune)
  have sub: "fst ` set (mem_sessions s1 ?uk) \<subseteq> fst ` set (mem_sessions s ?uk)" by (auto simp: s1_def prune_sessions)
  have dist: "distinct (map fst (mem_sessions s1 ?uk))" and ids: "\<forall>(sid, i) \<in> set (mem_sessions s1 ?uk). si_ID i = sid \<and> sid \<noteq> []"
    and len: "0 < cap \<longrightarrow> int (length (mem_sessions s1 ?uk)) \<le> cap" using wf1 by (auto simp: mem_wf_def)
  have rev: "mem_revoked s1 = mem_revoked s" by (simp add: s1_def prune_sessions)
  have "\<exists>ys ev. s' = s1\<lparr>mem_sessions := (mem_sessions s1)(?uk := ys)\<rparr> \<and> res = Inr ev \<and> ?id \<notin> set ev
      \<and> ?id \<in> fst ` set ys \<and> fst ` set ys \<subseteq> insert ?id (fst ` set (mem_sessions s1 ?uk)) \<and> distinct (map fst ys)
      \<and> (\<forall>(sid, i) \<in> set ys. si_ID i = sid \<and> sid \<noteq> []) \<and> (0 < cap \<longrightarrow> int (length ys) \<le> cap)"
  proof (cases "map_of (mem_sessions s1 ?uk) ?id")
    case (Some existing)
    define ys where "ys = AList.update ?id (existing\<lparr>si_LastSeen := now, si_UserAgent := si_UserAgent inp, si_IP := si_IP inp\<rparr>) (mem_sessions s1 ?uk)"
    have mem: "(?id, existing) \<in> set (mem_sessions s1 ?uk)" using Some by (rule map_of_SomeD)
    then have eid: "si_ID existing = ?id" using ids by auto
    have keys: "map fst ys = map fst (mem_sessions s1 ?uk)" using mem by (auto simp: ys_def update_keys image_iff) (metis fst_conv)
    then have "length ys = length (mem_sessions s1 ?uk)" by (metis length_map)
    moreover have "p = (?id, existing\<lparr>si_LastSeen := now, si_UserAgent := si_UserAgent inp, si_IP := si_IP inp\<rparr>) \<or> p \<in> set (mem_sessions s1 ?uk)"
      if "p \<in> set ys" for p
    proof -
      have "q = (k, x) \<or> q \<in> set al" if "q \<in> set (AList.update k x al)" for q k x and al :: "(string \<times> SessionInfo) list"
        using that by (induction al) (auto split: if_splits)
      with that show ?thesis by (auto simp: ys_def)
    qed
    then have "\<forall>(sid, i) \<in> set ys. si_ID i = sid \<and> sid \<noteq> []" using ids eid nonempty by fastforce
    moreover have "fst ` set ys = fst ` set (mem_sessions s1 ?uk)" using keys by (metis set_map)
    ultimately show ?thesis
      using run Some keys dist len mem
      by (intro exI [of _ ys] exI [of _ "[]"]) (auto simp: memTouch_def Let_def ys_def s1_def intro: rev_image_eqI)
  next
    case None
    then have fresh: "?id \<notin> fst ` set (mem_sessions s1 ?uk)" by (simp add: map_of_eq_None_iff)
    define inp1 where "inp1 = inp\<lparr>si_CreatedAt := Some (case si_CreatedAt inp of None \<Rightarrow> now | Some c \<Rightarrow> c), si_LastSeen := now\<rparr>"
    define xs where "xs = AList.update ?id inp1 (mem_sessions s1 ?uk)"
    have xs: "xs = mem_sessions s1 ?uk @ [(?id, inp1)]" using fresh by (simp add: xs_def AList_update_fresh)
    have dx: "distinct (map fst xs)" and ix: "\<forall>(sid, i) \<in> set xs. si_ID i = sid \<and> sid \<noteq> []" using dist fresh ids nonempty by (auto simp: xs inp1_def)
    obtain ys ev where e: "(if cap > 0 then evict_loop ?id cap xs else (xs, [])) = (ys, ev)" by fastforce
    have spec: "set ys \<subseteq> set xs \<and> distinct (map fst ys) \<and> ?id \<in> fst ` set ys \<and> ?id \<notin> set ev \<and> (0 < cap \<longrightarrow> int (length ys) \<le> cap)"
    proof (cases "0 < cap")
      case True
      have "[] \<notin> fst ` set xs" using ix by auto
      with True e evict_loop_spec [OF dx, of ?id cap ys ev] show ?thesis by (auto simp: xs)
    next
      case False
      with e dx show ?thesis by (auto simp: xs)
    qed
    have "s' = s1\<lparr>mem_sessions := (mem_sessions s1)(?uk := ys)\<rparr>" "res = Inr ev"
      using run None e [unfolded xs_def inp1_def] by (simp_all add: memTouch_def Let_def s1_def [symmetric])
    with spec ix show ?thesis by (intro exI [of _ ys] exI [of _ ev]) (auto simp: xs)
  qed
  then obtain ys ev where s': "s' = s1\<lparr>mem_sessions := (mem_sessions s1)(?uk := ys)\<rparr>" and res: "res = Inr ev" "?id \<notin> set ev"
    and ys: "?id \<in> fst ` set ys" "fst ` set ys \<subseteq> insert ?id (fst ` set (mem_sessions s1 ?uk))" "distinct (map fst ys)"
      "\<forall>(sid, i) \<in> set ys. si_ID i = sid \<and> sid \<noteq> []" "0 < cap \<longrightarrow> int (length ys) \<le> cap" by blast
  have "mem_wf cap s'" unfolding s' by (rule mem_wf_user [OF wf1 ys(3,4,5)])
  moreover have "card (fst ` set ys) = length ys" using ys(3) by (metis distinct_card length_map set_map)
  moreover have "mem_tomb s' = mem_tomb s" using s' rev by (intro mem_tomb_sessions) simp
  ultimately show ?thesis using res ys(1,2,5) sub by (auto simp: mem_owned_def s')
qed

lemma newest_first_sorted: "sorted_wrt (\<lambda>a b. the (si_CreatedAt b) \<le> the (si_CreatedAt a)) (newest_first xs)"
proof -
  have "sorted (map (\<lambda>i. - the (si_CreatedAt i)) (newest_first xs))" by (simp add: newest_first_def)
  then show ?thesis by (simp add: sorted_wrt_map)
qed

lemma set_newest_first [simp]: "set (newest_first xs) = set xs"
  by (simp add: newest_first_def)

interpretation memory_ledger: session_ledger memory_store cap idle "mem_wf cap" mem_owned mem_tomb for cap idle
proof
  fix s s' :: MemorySessionStore and inp now res
  show "\<exists>ev. res = Inr ev \<and> mem_wf cap s' \<and> si_ID inp \<notin> set ev \<and> si_ID inp \<in> mem_owned s' (si_UserKey inp) now
        \<and> mem_owned s' (si_UserKey inp) now \<subseteq> insert (si_ID inp) (mem_owned s (si_UserKey inp) now)
        \<and> (0 < cap \<longrightarrow> int (card (mem_owned s' (si_UserKey inp) now)) \<le> cap)
        \<and> (\<forall>x u. now \<le> u \<longrightarrow> mem_tomb s' x u = mem_tomb s x u)"
    if "mem_wf cap s" "0 < idle" "si_ID inp \<noteq> []" "ss_Touch memory_store s inp idle cap now = (s', res)"
    using that by (intro mem_touch_law) (simp_all add: memory_store_def)
next
  fix s s' :: MemorySessionStore and uk now res
  assume wf: "mem_wf cap s" and run: "ss_List memory_store s uk idle now = (s', res)"
  have s': "s' = pruneLocked s uk idle now" and res: "res = Inr (newest_first (map snd (mem_sessions s' uk)))"
    using run by (auto simp: memory_store_def memList_def Let_def)
  have wf': "mem_wf cap s'" unfolding s' by (rule mem_wf_prune [OF wf])
  then have "si_ID ` snd ` set (mem_sessions s' uk) = fst ` set (mem_sessions s' uk)"
    unfolding mem_wf_def by (force simp: image_iff)
  moreover have "fst ` set (mem_sessions s' uk) \<subseteq> fst ` set (mem_sessions s uk)" by (auto simp: s' prune_sessions)
  moreover have "mem_tomb s' = mem_tomb s" unfolding s' by (intro mem_tomb_sessions) (simp add: prune_sessions)
  ultimately show "\<exists>infos. res = Inr infos \<and> mem_wf cap s' \<and> si_ID ` set infos = mem_owned s' uk now \<and> mem_owned s' uk now \<subseteq> mem_owned s uk now
        \<and> sorted_wrt (\<lambda>a b. the (si_CreatedAt b) \<le> the (si_CreatedAt a)) infos
        \<and> (\<forall>x u. now \<le> u \<longrightarrow> mem_tomb s' x u = mem_tomb s x u)"
    using wf' res by (simp add: mem_owned_def newest_first_sorted)
next
  fix s :: MemorySessionStore and sid uk now ttl
  assume wf: "mem_wf cap s" and own: "sid \<in> mem_owned s uk now" and "0 < (ttl :: duration)"
  let ?f = "s\<lparr>mem_sessions := (mem_sessions s)(uk := filter (\<lambda>p. fst p \<noteq> sid) (mem_sessions s uk))\<rparr>"
  let ?s = "?f\<lparr>mem_revoked := (mem_revoked s)(sid \<mapsto> now + ttl)\<rparr>"
  have "map_of (mem_sessions s uk) sid \<noteq> None" using own by (simp add: mem_owned_def map_of_eq_None_iff)
  then have "ss_Revoke memory_store s uk sid ttl now = (?s, None)" by (auto simp: memory_store_def memRevoke_def)
  moreover have "mem_wf cap ?s" using mem_wf_filter [OF wf, of uk] by (simp add: mem_wf_def)
  moreover have "mem_owned ?s uk now = mem_owned s uk now - {sid}" by (auto simp: mem_owned_def)
  moreover have "mem_tomb ?s sid u" if "now \<le> u \<and> u + nanos_per_ms \<le> now + ttl" for u using that by (simp add: mem_tomb_def)
  moreover have "mem_tomb ?s x u = mem_tomb s x u" if "x \<noteq> sid" for x u using that by (simp add: mem_tomb_def)
  ultimately show "\<exists>s'. ss_Revoke memory_store s uk sid ttl now = (s', None) \<and> mem_wf cap s' \<and> mem_owned s' uk now = mem_owned s uk now - {sid}
        \<and> (\<forall>u. now \<le> u \<and> u + nanos_per_ms \<le> now + ttl \<longrightarrow> mem_tomb s' sid u)
        \<and> (\<forall>x u. x \<noteq> sid \<and> now \<le> u \<longrightarrow> mem_tomb s' x u = mem_tomb s x u)" by blast
next
  fix s :: MemorySessionStore and sid uk now ttl
  assume "mem_wf cap s" and own: "sid \<notin> mem_owned s uk now"
  then have "map_of (mem_sessions s uk) sid = None" by (simp add: mem_owned_def map_of_eq_None_iff)
  then show "ss_Revoke memory_store s uk sid ttl now = (s, Some ErrSessionNotFound)" by (simp add: memory_store_def memRevoke_def)
next
  fix s s' :: MemorySessionStore and sid uk now res
  assume wf: "mem_wf cap s" and run: "ss_IsRevoked memory_store s sid now = (s', res)"
  show "res = Inr (mem_tomb s sid now) \<and> mem_wf cap s' \<and> mem_owned s' uk now = mem_owned s uk now
        \<and> (\<forall>x u. now \<le> u \<longrightarrow> mem_tomb s' x u = mem_tomb s x u)"
    using run wf by (auto simp: memory_store_def memIsRevoked_def mem_tomb_def mem_wf_revoked mem_owned_def split: option.splits if_splits)
qed

subsection \<open>The shared store keeps the contract\<close>

text \<open>
  The codec drops the user key, which is not part of the JSON; the id survives. In a well-formed key space
  the index keys hold sets and every session key holds the encoding of a session with its id.
\<close>

locale session_json =
  fixes cd :: session_codec
  assumes dec_enc_id: "\<exists>j. s_dec cd (s_enc cd i) = Some j \<and> si_ID j = si_ID i \<and> si_CreatedAt j = si_CreatedAt i"

lemma session_keys [simp]:
  "sessKey a \<noteq> userSessKey b" "userSessKey b \<noteq> sessKey a" "sessKey a \<noteq> revokedKey c" "revokedKey c \<noteq> sessKey a"
  "userSessKey b \<noteq> revokedKey c" "revokedKey c \<noteq> userSessKey b"
  "sessKey a = sessKey a' \<longleftrightarrow> a = a'" "userSessKey b = userSessKey b' \<longleftrightarrow> b = b'" "revokedKey c = revokedKey c' \<longleftrightarrow> c = c'"
  by (simp_all add: sessKey_def userSessKey_def revokedKey_def)

definition red_wf :: "session_codec \<Rightarrow> keyspace \<Rightarrow> bool" where
  "red_wf cd m \<longleftrightarrow>
     (\<forall>uk x e. m (userSessKey uk) = Some (x, e) \<longrightarrow> (\<exists>l. x = VSet l \<and> distinct l))
     \<and> (\<forall>sid x e. m (sessKey sid) = Some (x, e) \<longrightarrow> (\<exists>i. x = VStr (s_enc cd i) \<and> si_ID i = sid))"

definition red_owned :: "keyspace \<Rightarrow> string \<Rightarrow> time \<Rightarrow> string set" where
  "red_owned m uk now = set (ks_set_members m (unix_milli now) (userSessKey uk))"

definition red_tomb :: "keyspace \<Rightarrow> string \<Rightarrow> time \<Rightarrow> bool" where
  "red_tomb m sid now \<longleftrightarrow> ks_live m (unix_milli now) (revokedKey sid) \<noteq> None"

lemma ks_live_Some: "ks_live m t k = Some r \<Longrightarrow> m k = Some r"
  by (auto simp: ks_live_def split: option.splits prod.splits if_splits)

lemma live_cases:
  assumes "red_wf cd m"
  obtains "ks_live m t (userSessKey uk) = None"
  | l e where "ks_live m t (userSessKey uk) = Some (VSet l, e)" "distinct l" "m (userSessKey uk) = Some (VSet l, e)"
proof (cases "ks_live m t (userSessKey uk)")
  case (Some r)
  obtain x e where r: "r = (x, e)" by fastforce
  have mk: "m (userSessKey uk) = Some (x, e)" using ks_live_Some [OF Some] r by simp
  with assms [unfolded red_wf_def, THEN conjunct1, rule_format, OF mk] obtain l where "x = VSet l" "distinct l" by auto
  with mk show thesis using that(2) [of l e] Some r by simp
qed (rule that(1))

lemma srem_effect:
  assumes "red_wf cd m"
  shows "red_wf cd (ks_srem m t (userSessKey uk) x)"
    and "ks_set_members (ks_srem m t (userSessKey uk) x) t (userSessKey uk) = filter (\<lambda>y. y \<noteq> x) (ks_set_members m t (userSessKey uk))"
    and "k \<noteq> userSessKey uk \<Longrightarrow> ks_srem m t (userSessKey uk) x k = m k"
proof -
  show other: "k \<noteq> userSessKey uk \<Longrightarrow> ks_srem m t (userSessKey uk) x k = m k" for k
    by (auto simp: ks_srem_def Let_def split: option.splits vval.splits prod.splits)
  from assms have "red_wf cd (ks_srem m t (userSessKey uk) x)
    \<and> ks_set_members (ks_srem m t (userSessKey uk) x) t (userSessKey uk) = filter (\<lambda>y. y \<noteq> x) (ks_set_members m t (userSessKey uk))"
  proof (cases rule: live_cases [where t = t and uk = uk])
    case 1
    then show ?thesis using assms by (simp add: ks_srem_def ks_set_members_def)
  next
    case (2 l e)
    let ?l = "filter (\<lambda>y. y \<noteq> x) l"
    have m': "ks_srem m t (userSessKey uk) x = m(userSessKey uk := (if ?l = [] then None else Some (VSet ?l, e)))"
      using 2 by (simp add: ks_srem_def Let_def)
    have "ks_live (m(userSessKey uk := (if ?l = [] then None else Some (VSet ?l, e)))) t (userSessKey uk)
        = (if ?l = [] then None else Some (VSet ?l, e))"
      using ks_live_upd [OF 2(1), of "VSet ?l"] by simp
    then have "ks_set_members (ks_srem m t (userSessKey uk) x) t (userSessKey uk) = ?l" by (simp add: m' ks_set_members_def)
    moreover have "red_wf cd (ks_srem m t (userSessKey uk) x)" using assms 2(2) by (auto simp: m' red_wf_def)
    ultimately show ?thesis using 2 by (simp add: ks_set_members_def)
  qed
  then show "red_wf cd (ks_srem m t (userSessKey uk) x)"
    and "ks_set_members (ks_srem m t (userSessKey uk) x) t (userSessKey uk) = filter (\<lambda>y. y \<noteq> x) (ks_set_members m t (userSessKey uk))"
    by simp_all
qed

lemma red_frame:
  "(\<And>uk. m' (userSessKey uk) = m (userSessKey uk)) \<Longrightarrow> ks_set_members m' t (userSessKey uk) = ks_set_members m t (userSessKey uk)"
  "(\<And>sid. m' (revokedKey sid) = m (revokedKey sid)) \<Longrightarrow> red_tomb m' = red_tomb m"
  by (simp_all add: ks_set_members_def ks_live_def red_tomb_def fun_eq_iff)

lemma set_session_effect:
  assumes "red_wf cd m" and "si_ID i = sid"
  shows "red_wf cd (ks_set m t (sessKey sid) (s_enc cd i) px)"
    and "ks_set_members (ks_set m t (sessKey sid) (s_enc cd i) px) u (userSessKey uk) = ks_set_members m u (userSessKey uk)"
    and "red_tomb (ks_set m t (sessKey sid) (s_enc cd i) px) = red_tomb m"
  using assms red_frame [of "ks_set m t (sessKey sid) (s_enc cd i) px" m] by (auto simp: ks_set_def red_wf_def)

lemma del_session_effect:
  assumes "red_wf cd m"
  shows "red_wf cd (ks_del m t (sessKey sid))"
    and "ks_set_members (ks_del m t (sessKey sid)) u (userSessKey uk) = ks_set_members m u (userSessKey uk)"
    and "red_tomb (ks_del m t (sessKey sid)) = red_tomb m"
  using assms red_frame [of "ks_del m t (sessKey sid)" m] by (auto simp: ks_del_def red_wf_def)

lemma srem_tomb:
  assumes "red_wf cd m"
  shows "red_tomb (ks_srem m t (userSessKey uk) x) = red_tomb m"
  using red_frame(2) [of "ks_srem m t (userSessKey uk) x" m] srem_effect(3) [OF assms] by simp

text \<open>Adding to the index and refreshing its expiry.\<close>

definition index_put :: "keyspace \<Rightarrow> int \<Rightarrow> string \<Rightarrow> string \<Rightarrow> int \<Rightarrow> keyspace" where
  "index_put m t uk x d = ks_pexpire (ks_sadd m t (userSessKey uk) x) t (userSessKey uk) d"

lemma index_put_effect:
  assumes "red_wf cd m" and "0 < d"
  shows "red_wf cd (index_put m t uk x d)"
    and "ks_set_members (index_put m t uk x d) t (userSessKey uk) =
           (let l = ks_set_members m t (userSessKey uk) in if x \<in> set l then l else l @ [x])"
    and "k \<noteq> userSessKey uk \<Longrightarrow> index_put m t uk x d k = m k"
proof -
  let ?l = "let l = ks_set_members m t (userSessKey uk) in if x \<in> set l then l else l @ [x]"
  obtain e where add: "ks_sadd m t (userSessKey uk) x = m(userSessKey uk \<mapsto> (VSet ?l, e))"
    and live: "ks_live (m(userSessKey uk \<mapsto> (VSet ?l, e))) t (userSessKey uk) = Some (VSet ?l, e)" and dist: "distinct ?l"
    using assms(1)
  proof (cases rule: live_cases [where t = t and uk = uk])
    case 1
    then show thesis using that [of None] by (simp add: ks_sadd_def ks_set_members_def)
  next
    case (2 l e)
    then have l: "?l = (if x \<in> set l then l else l @ [x])" by (simp add: ks_set_members_def)
    with 2 show thesis using that [of e] ks_live_upd [OF 2(1)] unfolding l by (simp add: ks_sadd_def)
  qed
  have put: "index_put m t uk x d = m(userSessKey uk \<mapsto> (VSet ?l, Some (t + d)))"
    unfolding index_put_def add ks_pexpire_def live using assms(2) by simp
  show "red_wf cd (index_put m t uk x d)" unfolding put using assms(1) dist by (simp add: red_wf_def)
  show "ks_set_members (index_put m t uk x d) t (userSessKey uk) = ?l"
    unfolding put using assms(2) by (simp add: ks_set_members_def ks_live_def)
  show "k \<noteq> userSessKey uk \<Longrightarrow> index_put m t uk x d k = m k" unfolding put by simp
qed

lemma members_distinct: "red_wf cd m \<Longrightarrow> distinct (ks_set_members m t (userSessKey uk))"
  by (erule live_cases [where t = t and uk = uk]) (simp_all add: ks_set_members_def)

lemma format_sec_pos: "0 < d \<Longrightarrow> 0 < 1000 * format_sec d"
  by (auto simp: format_sec_def quot_nonneg pos_imp_zdiv_pos_iff)

lemma format_ms_pos: "0 < d \<Longrightarrow> 0 < format_ms d"
  by (auto simp: format_ms_def milliseconds_def quot_nonneg pos_imp_zdiv_pos_iff)

lemma unix_milli_window:
  assumes "now \<le> u" and "u + nanos_per_ms \<le> now + ttl"
  shows "unix_milli u \<le> unix_milli now + format_ms ttl"
proof -
  have p: "0 < nanos_per_ms" by (simp add:)
  with assms have ttl: "nanos_per_ms \<le> ttl" by linarith
  then have ms: "format_ms ttl = ttl div nanos_per_ms" using p by (simp add: format_ms_def milliseconds_def quot_nonneg)
  have "u div nanos_per_ms \<le> (now + ttl - nanos_per_ms) div nanos_per_ms" using assms p by (intro zdiv_mono1) auto
  also have "\<dots> \<le> now div nanos_per_ms + ttl div nanos_per_ms" using p by linarith
  finally show ?thesis by (simp add: unix_milli_def ms)
qed

lemma length_filter_notin:
  "distinct xs \<Longrightarrow> distinct ys \<Longrightarrow> set ys \<subseteq> set xs \<Longrightarrow> length (filter (\<lambda>y. y \<notin> set ys) xs) = length xs - length ys"
proof -
  assume a: "distinct xs" "distinct ys" "set ys \<subseteq> set xs"
  have "length (filter (\<lambda>y. y \<notin> set ys) xs) = card (set xs - set ys)"
    using distinct_card [of "filter (\<lambda>y. y \<notin> set ys) xs"] a(1) by (simp add: set_diff_eq)
  with a show ?thesis by (simp add: card_Diff_subset distinct_card)
qed

lemma length_filter_one_out:
  "distinct (map f xs) \<Longrightarrow> k \<in> f ` set xs \<Longrightarrow> length (filter (\<lambda>i. f i \<noteq> k) xs) = length xs - 1"
proof (induction xs)
  case (Cons x xs)
  show ?case
  proof (cases "f x = k")
    case True
    then have "filter (\<lambda>i. f i \<noteq> k) xs = xs" using Cons.prems(1) by (fastforce simp: filter_id_conv image_iff)
    with True show ?thesis by simp
  next
    case False
    with Cons have "length (filter (\<lambda>i. f i \<noteq> k) xs) = length xs - 1" and "xs \<noteq> []" by auto
    with False show ?thesis by (cases xs) auto
  qed
qed simp

locale redis_sessions = valkey_server v ks + session_json cd
  for v :: "'s valkey" and ks and cd
begin

definition members :: "'s \<Rightarrow> int \<Rightarrow> string \<Rightarrow> string list" where
  "members s t uk = ks_set_members (ks s) t (userSessKey uk)"

definition present :: "'s \<Rightarrow> int \<Rightarrow> string \<Rightarrow> bool" where
  "present s t sid \<longleftrightarrow> ks_str (ks s) t (sessKey sid) \<noteq> None"

lemma load_infos_spec:
  assumes "red_wf cd (ks s)"
  shows "map si_ID (fst (load_infos v cd s t ids)) = filter (present s t) ids"
    and "snd (load_infos v cd s t ids) = filter (\<lambda>i. \<not> present s t i) ids"
proof -
  have "map si_ID (fst (load_infos v cd s t ids)) = filter (present s t) ids
      \<and> snd (load_infos v cd s t ids) = filter (\<lambda>i. \<not> present s t i) ids"
  proof (induction ids)
    case (Cons i ids)
    show ?case
    proof (cases "ks_str (ks s) t (sessKey i)")
      case None
      with Cons show ?thesis by (simp add: commands present_def case_prod_beta)
    next
      case (Some raw)
      then obtain e where "ks_live (ks s) t (sessKey i) = Some (VStr raw, e)"
        by (auto simp: ks_str_def split: option.splits vval.splits)
      from ks_live_Some [OF this] assms obtain info where "raw = s_enc cd info" "si_ID info = i"
        unfolding red_wf_def by blast
      with dec_enc_id [of info] obtain j where "s_dec cd raw = Some j" "si_ID j = i" by auto
      with Some Cons show ?thesis by (simp add: commands present_def case_prod_beta)
    qed
  qed simp
  then show "map si_ID (fst (load_infos v cd s t ids)) = filter (present s t) ids"
    and "snd (load_infos v cd s t ids) = filter (\<lambda>i. \<not> present s t i) ids" by simp_all
qed

lemma fold_srem:
  assumes "red_wf cd (ks s)"
  shows "let s' = fold (\<lambda>i s. vk_srem v s t (userSessKey uk) i) xs s in
    red_wf cd (ks s') \<and> members s' t uk = filter (\<lambda>y. y \<notin> set xs) (members s t uk) \<and> red_tomb (ks s') = red_tomb (ks s)
    \<and> (\<forall>sid. ks s' (sessKey sid) = ks s (sessKey sid))"
  using assms
proof (induction xs arbitrary: s)
  case (Cons x xs)
  let ?s = "vk_srem v s t (userSessKey uk) x"
  have "red_wf cd (ks ?s)" and "members ?s t uk = filter (\<lambda>y. y \<noteq> x) (members s t uk)"
    and "red_tomb (ks ?s) = red_tomb (ks s)" and "\<forall>sid. ks ?s (sessKey sid) = ks s (sessKey sid)"
    using srem_effect [OF Cons.prems] srem_tomb [OF Cons.prems] by (simp_all add: commands members_def)
  with Cons.IH [of ?s] show ?case by (simp add: Let_def)
qed simp

lemma listLive_effect:
  assumes "red_wf cd (ks s)" and "listLive v cd s uk now = (s', infos)"
  shows "red_wf cd (ks s')" and "members s' (unix_milli now) uk = filter (present s (unix_milli now)) (members s (unix_milli now) uk)"
    and "red_tomb (ks s') = red_tomb (ks s)" and "mset (map si_ID infos) = mset (members s' (unix_milli now) uk)"
    and "sorted_wrt (\<lambda>a b. the (si_CreatedAt b) \<le> the (si_CreatedAt a)) infos"
proof -
  let ?t = "unix_milli now"
  obtain out stale where l: "load_infos v cd s ?t (members s ?t uk) = (out, stale)" by fastforce
  have s': "s' = fold (\<lambda>i s. vk_srem v s ?t (userSessKey uk) i) stale s" and infos: "infos = newest_first out"
    using assms(2) l by (simp_all add: listLive_def Let_def commands members_def case_prod_beta)
  note spec = load_infos_spec [OF assms(1), of ?t "members s ?t uk", unfolded l, simplified]
  note fold = fold_srem [OF assms(1), of ?t uk stale, folded s', unfolded Let_def]
  show "red_wf cd (ks s')" and "red_tomb (ks s') = red_tomb (ks s)" using fold by blast+
  have "members s' ?t uk = filter (\<lambda>y. y \<notin> set stale) (members s ?t uk)" using fold by blast
  also have "\<dots> = filter (present s ?t) (members s ?t uk)" by (auto simp: spec(2) intro: filter_cong)
  finally show mem: "members s' ?t uk = filter (present s ?t) (members s ?t uk)" .
  show "mset (map si_ID infos) = mset (members s' ?t uk)" unfolding mem infos
    by (metis spec(1) mset_map mset_sort newest_first_def)
  show "sorted_wrt (\<lambda>a b. the (si_CreatedAt b) \<le> the (si_CreatedAt a)) infos" unfolding infos by (rule newest_first_sorted)
qed

lemma evict_tail_effect:
  assumes "red_wf cd (ks s)" and "evict_tail v s t uk keep n xs = (s', ev)" and "distinct (map si_ID xs)"
  shows "red_wf cd (ks s') \<and> members s' t uk = filter (\<lambda>y. y \<notin> set ev) (members s t uk) \<and> red_tomb (ks s') = red_tomb (ks s)
    \<and> keep \<notin> set ev \<and> set ev \<subseteq> si_ID ` set xs \<and> distinct ev
    \<and> (n \<le> int (length (filter (\<lambda>i. si_ID i \<noteq> keep) xs)) \<longrightarrow> int (length ev) = max 0 n)"
  using assms
proof (induction xs arbitrary: s n ev)
  case (Cons x xs)
  let ?id = "si_ID x"
  consider (stop) "n \<le> 0" | (skip) "0 < n" "?id = keep" | (evict) "0 < n" "?id \<noteq> keep" by linarith
  then show ?case
  proof cases
    case stop
    with Cons.prems show ?thesis by simp
  next
    case skip
    with Cons.prems Cons.IH [of s n ev] show ?thesis by auto
  next
    case evict
    define s0 where "s0 = vk_del v s t (sessKey ?id)"
    define s1 where "s1 = vk_srem v s0 t (userSessKey uk) ?id"
    have wf0: "red_wf cd (ks s0)" and m0: "members s0 t uk = members s t uk" and t0: "red_tomb (ks s0) = red_tomb (ks s)"
      using del_session_effect [OF Cons.prems(1), where t = t and sid = ?id] by (simp_all add: s0_def commands members_def)
    have wf1: "red_wf cd (ks s1)" and m1: "members s1 t uk = filter (\<lambda>y. y \<noteq> ?id) (members s t uk)" and t1: "red_tomb (ks s1) = red_tomb (ks s)"
      using srem_effect [OF wf0, where t = t and uk = uk and x = ?id] srem_tomb [OF wf0] m0 t0 by (simp_all add: s1_def commands members_def)
    obtain ev' where run: "evict_tail v s1 t uk keep (n - 1) xs = (s', ev')" and ev: "ev = ?id # ev'"
      using Cons.prems(2) evict by (auto simp: Let_def s0_def s1_def split: prod.splits)
    have IH: "red_wf cd (ks s') \<and> members s' t uk = filter (\<lambda>y. y \<notin> set ev') (members s1 t uk) \<and> red_tomb (ks s') = red_tomb (ks s1)
      \<and> keep \<notin> set ev' \<and> set ev' \<subseteq> si_ID ` set xs \<and> distinct ev'
      \<and> (n - 1 \<le> int (length (filter (\<lambda>i. si_ID i \<noteq> keep) xs)) \<longrightarrow> int (length ev') = max 0 (n - 1))"
      using Cons.IH [OF wf1 run] Cons.prems(3) by simp
    moreover have "?id \<notin> si_ID ` set xs" using Cons.prems(3) by auto
    moreover have "filter (\<lambda>y. y \<notin> set ev') (members s1 t uk) = filter (\<lambda>y. y \<notin> set ev) (members s t uk)"
      by (auto simp: m1 ev intro: filter_cong)
    ultimately show ?thesis using evict t1 ev by auto
  qed
qed simp

lemma listLive_ids:
  assumes "red_wf cd (ks s)" and "listLive v cd s uk now = (s', infos)"
  shows "distinct (map si_ID infos)" and "set (map si_ID infos) = set (members s' (unix_milli now) uk)"
    and "length infos = length (members s' (unix_milli now) uk)"
proof -
  note eff = listLive_effect [OF assms]
  have d: "distinct (members s' (unix_milli now) uk)" using members_distinct [OF eff(1)] by (simp add: members_def)
  from eff(4) have "length (map si_ID infos) = length (members s' (unix_milli now) uk)" by (rule mset_eq_length)
  then show len: "length infos = length (members s' (unix_milli now) uk)" by simp
  from eff(4) show ids: "set (map si_ID infos) = set (members s' (unix_milli now) uk)" by (rule mset_eq_setD)
  show "distinct (map si_ID infos)" using d len ids by (metis card_distinct distinct_card length_map)
qed

lemma enforceCap_effect:
  assumes wf: "red_wf cd (ks s)" and run: "enforceCap v cd s uk keep cap now = (s', ev)" and cap: "0 < cap"
    and keep: "keep \<in> set (members s (unix_milli now) uk)" "present s (unix_milli now) keep"
  shows "red_wf cd (ks s') \<and> keep \<notin> set ev \<and> keep \<in> set (members s' (unix_milli now) uk)
    \<and> set (members s' (unix_milli now) uk) \<subseteq> set (members s (unix_milli now) uk)
    \<and> int (length (members s' (unix_milli now) uk)) \<le> cap \<and> red_tomb (ks s') = red_tomb (ks s)"
proof -
  let ?t = "unix_milli now"
  obtain s1 live where l: "listLive v cd s uk now = (s1, live)" by fastforce
  note eff = listLive_effect [OF wf l] and ids = listLive_ids [OF wf l]
  have keep1: "keep \<in> set (members s1 ?t uk)" using keep by (simp add: eff(2))
  have sub: "set (members s1 ?t uk) \<subseteq> set (members s ?t uk)" by (auto simp: eff(2))
  show ?thesis
  proof (cases "int (length live) \<le> cap")
    case True
    then have "s' = s1" "ev = []" using run l by (simp_all add: enforceCap_def)
    with True eff ids keep1 sub show ?thesis by simp
  next
    case False
    let ?n = "int (length live) - cap"
    have tail: "evict_tail v s1 ?t uk keep ?n (rev live) = (s', ev)" using run l False by (simp add: enforceCap_def)
    have d: "distinct (map si_ID (rev live))" using ids(1) by (simp add: rev_map [symmetric])
    note ev = evict_tail_effect [OF eff(1) tail d]
    have "length (filter (\<lambda>i. si_ID i \<noteq> keep) (rev live)) = length live - 1"
      using length_filter_one_out [OF d] keep1 ids(2) by simp
    then have len_ev: "int (length ev) = ?n" using ev False cap by simp
    have "set ev \<subseteq> set (members s1 ?t uk)" using ev ids(2) by auto
    moreover have "distinct (members s1 ?t uk)" using members_distinct [OF eff(1)] by (simp add: members_def)
    ultimately have "length (filter (\<lambda>y. y \<notin> set ev) (members s1 ?t uk)) = length (members s1 ?t uk) - length ev"
      using ev by (simp add: length_filter_notin)
    moreover have m: "members s' ?t uk = filter (\<lambda>y. y \<notin> set ev) (members s1 ?t uk)" using ev by blast
    ultimately have "int (length (members s' ?t uk)) \<le> cap" unfolding m using len_ev ids(3) False cap by linarith
    with ev eff keep1 sub show ?thesis by auto
  qed
qed

lemma touch_law:
  assumes wf: "red_wf cd (ks s)" and idle: "0 < idle" and run: "redisTouch v cd s inp idle cap now = (s', res)"
  shows "\<exists>ev. res = Inr ev \<and> red_wf cd (ks s') \<and> si_ID inp \<notin> set ev \<and> si_ID inp \<in> red_owned (ks s') (si_UserKey inp) now
    \<and> red_owned (ks s') (si_UserKey inp) now \<subseteq> insert (si_ID inp) (red_owned (ks s) (si_UserKey inp) now)
    \<and> (0 < cap \<longrightarrow> int (card (red_owned (ks s') (si_UserKey inp) now)) \<le> cap)
    \<and> (\<forall>x u. now \<le> u \<longrightarrow> red_tomb (ks s') x u = red_tomb (ks s) x u)"
proof -
  let ?t = "unix_milli now" and ?id = "si_ID inp" and ?uk = "si_UserKey inp"
  define inp1 where "inp1 = inp\<lparr>si_CreatedAt := (case vk_get v s ?t (sessKey ?id) of None \<Rightarrow> Some now
    | Some raw \<Rightarrow> (case s_dec cd raw of None \<Rightarrow> si_CreatedAt inp | Some prev \<Rightarrow> si_CreatedAt prev)), si_LastSeen := now\<rparr>"
  define s1 where "s1 = vk_set v s ?t (sessKey ?id) (s_enc cd inp1) (set_expiry idle)"
  define s3 where "s3 = vk_pexpire v (vk_sadd v s1 ?t (userSessKey ?uk) ?id) ?t (userSessKey ?uk) (1000 * format_sec idle)"
  have id1: "si_ID inp1 = ?id" by (simp add: inp1_def)
  have ks1: "ks s1 = ks_set (ks s) ?t (sessKey ?id) (s_enc cd inp1) (set_expiry idle)" by (simp add: s1_def commands)
  note one = set_session_effect [OF wf id1, where t = ?t and px = "set_expiry idle", folded ks1]
  have ks3: "ks s3 = index_put (ks s1) ?t ?uk ?id (1000 * format_sec idle)" by (simp add: s3_def commands index_put_def)
  note three = index_put_effect [OF one(1) format_sec_pos [OF idle], where t = ?t and uk = ?uk and x = ?id, folded ks3]
  have mem3: "set (members s3 ?t ?uk) = insert ?id (set (members s ?t ?uk))"
    using three(2) one(2) by (auto simp: members_def Let_def)
  have tomb3: "red_tomb (ks s3) = red_tomb (ks s)" using red_frame(2) [of "ks s3" "ks s1"] three(3) one(3) by simp
  have pres: "present s3 ?t ?id" using three(3) [of "sessKey ?id"] format_ms_pos [OF idle] idle
    by (simp add: present_def ks1 ks_str_def ks_live_def ks_set_def set_expiry_def)
  have step: "redisTouch v cd s inp idle cap now = (if cap \<le> 0 then (s3, Inr [])
      else (case enforceCap v cd s3 ?uk ?id cap now of (s4, ev) \<Rightarrow> (s4, Inr ev)))"
    by (simp add: redisTouch_def Let_def s3_def s1_def inp1_def)
  show ?thesis
  proof (cases "cap \<le> 0")
    case True
    with step run have "s' = s3" "res = Inr []" by simp_all
    with True three(1) mem3 tomb3 show ?thesis by (simp add: red_owned_def members_def)
  next
    case False
    obtain s4 ev where cap: "enforceCap v cd s3 ?uk ?id cap now = (s4, ev)" by fastforce
    with False step run have r: "s' = s4" "res = Inr ev" by simp_all
    have fx: "red_wf cd (ks s4) \<and> ?id \<notin> set ev \<and> ?id \<in> set (members s4 ?t ?uk) \<and> set (members s4 ?t ?uk) \<subseteq> set (members s3 ?t ?uk)
      \<and> int (length (members s4 ?t ?uk)) \<le> cap \<and> red_tomb (ks s4) = red_tomb (ks s3)"
      using enforceCap_effect [OF three(1) cap] False mem3 pres by simp
    then have "card (set (members s4 ?t ?uk)) = length (members s4 ?t ?uk)"
      using members_distinct [of cd "ks s4"] by (simp add: members_def distinct_card)
    with fx r mem3 tomb3 show ?thesis by (auto simp: red_owned_def members_def)
  qed
qed

lemma revoke_law:
  assumes wf: "red_wf cd (ks s)" and own: "sid \<in> red_owned (ks s) uk now" and ttl: "0 < ttl"
  shows "\<exists>s'. redisRevoke v s uk sid ttl now = (s', None) \<and> red_wf cd (ks s') \<and> red_owned (ks s') uk now = red_owned (ks s) uk now - {sid}
    \<and> (\<forall>u. now \<le> u \<and> u + nanos_per_ms \<le> now + ttl \<longrightarrow> red_tomb (ks s') sid u)
    \<and> (\<forall>x u. x \<noteq> sid \<and> now \<le> u \<longrightarrow> red_tomb (ks s') x u = red_tomb (ks s) x u)"
proof -
  let ?t = "unix_milli now"
  define s1 where "s1 = vk_del v s ?t (sessKey sid)"
  define s2 where "s2 = vk_srem v s1 ?t (userSessKey uk) sid"
  define s3 where "s3 = vk_set v s2 ?t (revokedKey sid) ''1'' (set_expiry ttl)"
  have ks1: "ks s1 = ks_del (ks s) ?t (sessKey sid)" and ks2: "ks s2 = ks_srem (ks s1) ?t (userSessKey uk) sid"
    and ks3: "ks s3 = (ks s2)(revokedKey sid \<mapsto> (VStr ''1'', Some (?t + format_ms ttl)))"
    using ttl by (simp_all add: s1_def s2_def s3_def commands ks_set_def set_expiry_def)
  note one = del_session_effect [OF wf, where t = ?t and sid = sid, folded ks1]
  note two = srem_effect [OF one(1), where t = ?t and uk = uk and x = sid, folded ks2]
    and tomb2 = srem_tomb [OF one(1), where t = ?t and uk = uk and x = sid, folded ks2]
  have "redisRevoke v s uk sid ttl now = (s3, None)"
    using own by (simp add: redisRevoke_def Let_def commands red_owned_def s1_def s2_def s3_def)
  moreover have "red_wf cd (ks s3)" using two(1) by (simp add: ks3 red_wf_def)
  moreover have "ks_set_members (ks s3) ?t (userSessKey uk) = filter (\<lambda>y. y \<noteq> sid) (ks_set_members (ks s) ?t (userSessKey uk))"
    using red_frame(1) [of "ks s3" "ks s2"] two(2) one(2) by (simp add: ks3)
  then have "red_owned (ks s3) uk now = red_owned (ks s) uk now - {sid}" by (auto simp: red_owned_def)
  moreover have "red_tomb (ks s3) sid u" if "now \<le> u" "u + nanos_per_ms \<le> now + ttl" for u
    using unix_milli_window [OF that] by (simp add: red_tomb_def ks3 ks_live_def)
  moreover have "red_tomb (ks s3) x u = red_tomb (ks s) x u" if "x \<noteq> sid" for x u
    using that tomb2 one(3) by (simp add: red_tomb_def ks3 ks_live_def fun_eq_iff)
  ultimately show ?thesis by blast
qed

lemma ledger: "session_ledger (redis_store v cd) cap idle (\<lambda>s. red_wf cd (ks s)) (\<lambda>s. red_owned (ks s)) (\<lambda>s. red_tomb (ks s))"
proof (unfold_locales, goal_cases)
  case (1 s inp now s' res)
  then show ?case by (intro touch_law) (simp_all add: redis_store_def)
next
  case (3 s sid uk now ttl)
  then show ?case using revoke_law by (simp add: redis_store_def)
next
  case (2 s uk now s' res)
  then have wf: "red_wf cd (ks s)" and run: "ss_List (redis_store v cd) s uk idle now = (s', res)" by simp_all
  obtain infos where l: "listLive v cd s uk now = (s', infos)" and res: "res = Inr infos"
    using run by (auto simp: redis_store_def redisList_def split: prod.splits)
  note eff = listLive_effect [OF wf l] and ids = listLive_ids [OF wf l]
  have "si_ID ` set infos = red_owned (ks s') uk now" using ids(2) by (simp add: red_owned_def members_def)
  moreover have "red_owned (ks s') uk now \<subseteq> red_owned (ks s) uk now" using eff(2) by (auto simp: red_owned_def members_def)
  ultimately show ?case using eff res by simp
next
  case (4 s sid uk now ttl)
  then show ?case by (simp add: redis_store_def redisRevoke_def Let_def commands red_owned_def)
next
  case (5 s sid now s' res uk)
  then show ?case by (auto simp: redis_store_def redisIsRevoked_def commands red_tomb_def)
qed

end

text \<open>A codec that fits the hypothesis: every JSON field as a length-prefixed string.\<close>

definition ex_session_codec :: session_codec where
  "ex_session_codec =
     \<lparr>s_enc = (\<lambda>i. concat (map netstr [si_ID i, si_TenantID i, si_UserID i, si_UserAgent i, si_IP i,
        (case si_CreatedAt i of None \<Rightarrow> [] | Some c \<Rightarrow> itoa c), itoa (si_LastSeen i)])),
      s_dec = (\<lambda>raw. case unnets 7 raw of
        [a, b, c, d, e, f, g] \<Rightarrow> map_option (\<lambda>t. \<lparr>si_ID = a, si_UserKey = [], si_TenantID = b, si_UserID = c, si_UserAgent = d,
           si_IP = e, si_CreatedAt = atoi f, si_LastSeen = t\<rparr>) (atoi g)
        | _ \<Rightarrow> None)\<rparr>"

lemma ex_session_json: "session_json ex_session_codec"
proof
  fix i :: SessionInfo
  let ?xs = "[si_ID i, si_TenantID i, si_UserID i, si_UserAgent i, si_IP i, (case si_CreatedAt i of None \<Rightarrow> [] | Some c \<Rightarrow> itoa c), itoa (si_LastSeen i)]"
  have "unnets 7 (concat (map netstr ?xs)) = ?xs" using unnets_concat [of ?xs "[]"] by (simp add: numeral_eq_Suc)
  then have "s_dec ex_session_codec (s_enc ex_session_codec i) = Some (i\<lparr>si_UserKey := []\<rparr>)"
    by (cases "si_CreatedAt i") (simp_all add: ex_session_codec_def atoi_def [of "[]"])
  then show "\<exists>j. s_dec ex_session_codec (s_enc ex_session_codec i) = Some j \<and> si_ID j = si_ID i \<and> si_CreatedAt j = si_CreatedAt i" by simp
qed

interpretation ref_sessions: redis_sessions ks_valkey "\<lambda>m. m" ex_session_codec
  by (intro redis_sessions.intro ks_valkey_server ex_session_json)

interpretation redis_ledger: session_ledger "redis_store ks_valkey ex_session_codec" cap idle "red_wf ex_session_codec" red_owned red_tomb
  for cap idle
  by (rule ref_sessions.ledger)

subsection \<open>What the manager and the handlers promise\<close>

text \<open>Requests, listings and revocations of all users in any order, as time passes.\<close>

inductive session_step :: "(string \<Rightarrow> string) \<Rightarrow> 's session_store \<Rightarrow> session_config \<Rightarrow> 's \<times> time \<Rightarrow> 's \<times> time \<Rightarrow> bool"
  for sha ss cfg where
  request: "t \<le> t' \<Longrightarrow> session_Wrap sha (Some ss) cfg s t' r = (s', resp) \<Longrightarrow> session_step sha ss cfg (s, t) (s', t')"
| listed: "t \<le> t' \<Longrightarrow> list_sessions sha (Some ss) cfg s t' r = (s', reply) \<Longrightarrow> session_step sha ss cfg (s, t) (s', t')"
| revocation: "t \<le> t' \<Longrightarrow> revoke_sessions sha (Some ss) cfg s t' r sid all = (s', reply) \<Longrightarrow> session_step sha ss cfg (s, t) (s', t')"

text \<open>A request that the manager tracks.\<close>

definition tracked :: "(string \<Rightarrow> string) \<Rightarrow> session_config \<Rightarrow> http_request \<Rightarrow> bool" where
  "tracked sha cfg r \<longleftrightarrow> sc_Enabled cfg \<and> SessionIDFromRequest sha r \<noteq> [] \<and> rq_tenant r \<noteq> [] \<and> rq_user r \<noteq> []"

text \<open>The tombstone of \<open>sid\<close> stands until \<open>d\<close>.\<close>

definition stands :: "('s \<Rightarrow> string \<Rightarrow> time \<Rightarrow> bool) \<Rightarrow> 's \<Rightarrow> string \<Rightarrow> time \<Rightarrow> time \<Rightarrow> bool" where
  "stands tomb s sid t d \<longleftrightarrow> (\<forall>u. t \<le> u \<and> u + nanos_per_ms \<le> d \<longrightarrow> tomb s sid u)"

context session_ledger
begin

lemma wrap_untracked: "\<not> tracked sha cfg r \<Longrightarrow> session_Wrap sha (Some ss) cfg s now r = (s, Next)"
  by (auto simp: tracked_def session_Wrap_def Let_def)

lemma wrap_tracked:
  assumes "wf s" and "tracked sha cfg r" and "sc_MaxConcurrent cfg = cap" and "sc_IdleTimeout cfg = idle" and "0 < idle"
  defines "sid \<equiv> SessionIDFromRequest sha r" and "uk \<equiv> userKey (rq_tenant r) (rq_user r)"
  shows "\<exists>s'. session_Wrap sha (Some ss) cfg s now r = (s', if tomb s sid now then SessionRevoked else Next) \<and> wf s'
    \<and> (\<not> tomb s sid now \<longrightarrow> sid \<in> owned s' uk now \<and> owned s' uk now \<subseteq> insert sid (owned s uk now)
         \<and> (0 < cap \<longrightarrow> int (card (owned s' uk now)) \<le> cap))
    \<and> (\<forall>x u. now \<le> u \<longrightarrow> tomb s' x u = tomb s x u)"
proof -
  obtain s1 b where chk: "ss_IsRevoked ss s sid now = (s1, b)" by fastforce
  note rv = revoked [OF assms(1) chk]
  define info where "info = \<lparr>si_ID = sid, si_UserKey = uk, si_TenantID = rq_tenant r, si_UserID = rq_user r,
    si_UserAgent = rq_UserAgent r, si_IP = clientIP r, si_CreatedAt = Some now, si_LastSeen = now\<rparr>"
  obtain s2 res where tch: "ss_Touch ss s1 info idle cap now = (s2, res)" by fastforce
  have ids: "si_ID info = sid" "si_UserKey info = uk" "sid \<noteq> []" using assms(2) by (simp_all add: info_def tracked_def sid_def)
  have wf1: "wf s1" using rv by blast
  note tl = touch [OF wf1 assms(5) _ tch, unfolded ids, OF ids(3)]
  show ?thesis
  proof (cases "tomb s sid now")
    case True
    with chk rv assms(2) have "session_Wrap sha (Some ss) cfg s now r = (s1, SessionRevoked)"
      by (simp add: session_Wrap_def Let_def tracked_def sid_def)
    with True rv show ?thesis by auto
  next
    case False
    from tl obtain ev where ev: "res = Inr ev" "sid \<notin> set ev" by blast
    have "session_Wrap sha (Some ss) cfg s now r = (s2, Next)"
      using False chk rv tch ev assms(2,3,4) by (simp add: session_Wrap_def Let_def tracked_def sid_def uk_def info_def)
    with False rv tl show ?thesis by auto
  qed
qed

lemma revoke_each_effect:
  assumes "wf s" and "0 < ttl" and "revoke_each ss s uk ttl now sids = (s', r)"
  shows "\<exists>ids. r = Some ids \<and> wf s' \<and> set ids = set sids \<inter> owned s uk now \<and> owned s' uk now = owned s uk now - set sids
    \<and> (\<forall>x \<in> set ids. stands tomb s' x now (now + ttl)) \<and> (\<forall>x u. x \<notin> set ids \<and> now \<le> u \<longrightarrow> tomb s' x u = tomb s x u)"
  using assms
proof (induction sids arbitrary: s r)
  case (Cons sid sids)
  show ?case
  proof (cases "sid \<in> owned s uk now")
    case True
    then obtain s1 where s1: "ss_Revoke ss s uk sid ttl now = (s1, None)" "wf s1" "owned s1 uk now = owned s uk now - {sid}"
      "\<forall>u. now \<le> u \<and> u + nanos_per_ms \<le> now + ttl \<longrightarrow> tomb s1 sid u" "\<forall>x u. x \<noteq> sid \<and> now \<le> u \<longrightarrow> tomb s1 x u = tomb s x u"
      using revoke_owned [OF Cons.prems(1) _ Cons.prems(2)] by blast
    obtain r1 where rest: "revoke_each ss s1 uk ttl now sids = (s', r1)" and r: "r = map_option (\<lambda>xs. sid # xs) r1"
      using Cons.prems(3) s1(1) by (auto split: prod.splits)
    from Cons.IH [OF s1(2) Cons.prems(2) rest] obtain ids where ids: "r1 = Some ids" "wf s'"
      "set ids = set sids \<inter> owned s1 uk now" "owned s' uk now = owned s1 uk now - set sids"
      "\<forall>x \<in> set ids. stands tomb s' x now (now + ttl)" "\<forall>x u. x \<notin> set ids \<and> now \<le> u \<longrightarrow> tomb s' x u = tomb s1 x u" by blast
    have "sid \<notin> set ids" using ids(3) s1(3) by auto
    then have "stands tomb s' sid now (now + ttl)" using s1(4) ids(6) by (simp add: stands_def)
    with ids s1 r True show ?thesis by (intro exI [of _ "sid # ids"]) auto
  next
    case False
    with Cons.prems revoke_foreign [OF Cons.prems(1)] have "revoke_each ss s uk ttl now sids = (s', r)" by simp
    with Cons.IH [OF Cons.prems(1,2)] False show ?thesis by auto
  qed
qed simp

lemma revoke_sessions_effect:
  assumes "wf s" and "sc_IdleTimeout cfg = idle" and ttl: "0 < sc_RevokeTTL cfg"
    and auth: "rq_tenant r \<noteq> []" "rq_user r \<noteq> []" and target: "sid \<noteq> [] \<or> all"
    and run: "revoke_sessions sha (Some ss) cfg s now r sid all = (s', reply)"
  defines "uk \<equiv> userKey (rq_tenant r) (rq_user r)"
  shows "\<exists>ids targets own. reply = (if \<not> all \<and> ids = [] then SessionNotFound else Revoked ids) \<and> wf s'
    \<and> targets = (if all then own - {SessionIDFromRequest sha r} else {sid}) \<and> own \<subseteq> owned s uk now
    \<and> set ids = targets \<inter> own \<and> owned s' uk now = own - targets \<and> (\<not> all \<longrightarrow> own = owned s uk now)
    \<and> (\<forall>x \<in> set ids. stands tomb s' x now (now + sc_RevokeTTL cfg)) \<and> (\<forall>x u. x \<notin> set ids \<and> now \<le> u \<longrightarrow> tomb s' x u = tomb s x u)"
proof -
  let ?cur = "SessionIDFromRequest sha r"
  obtain s1 sids where sel: "(if all then (case ss_List ss s uk (sc_IdleTimeout cfg) now of
        (s1, Inl _) \<Rightarrow> (s1, None) | (s1, Inr infos) \<Rightarrow> (s1, Some (filter (\<lambda>i. i \<noteq> ?cur) (map si_ID infos))))
      else (s, Some [sid])) = (s1, Some sids)"
    and s1: "wf s1" "owned s1 uk now \<subseteq> owned s uk now" "\<forall>x u. now \<le> u \<longrightarrow> tomb s1 x u = tomb s x u"
    and sids: "set sids = (if all then owned s1 uk now - {?cur} else {sid})" "\<not> all \<Longrightarrow> owned s1 uk now = owned s uk now"
  proof (cases all)
    case True
    obtain s2 res where l: "ss_List ss s uk idle now = (s2, res)" by fastforce
    from listing [OF assms(1) l] obtain infos where infos: "res = Inr infos" "wf s2" "si_ID ` set infos = owned s2 uk now"
      "owned s2 uk now \<subseteq> owned s uk now" "\<forall>x u. now \<le> u \<longrightarrow> tomb s2 x u = tomb s x u" by blast
    have "set (filter (\<lambda>i. i \<noteq> ?cur) (map si_ID infos)) = owned s2 uk now - {?cur}" using infos(3) by auto
    with True l infos assms(2) show thesis by (intro that) auto
  next
    case False
    with assms(1) show thesis by (intro that [of s "[sid]"]) auto
  qed
  obtain r2 where each: "revoke_each ss s1 uk (sc_RevokeTTL cfg) now sids = (s', r2)"
    and reply: "reply = (case r2 of None \<Rightarrow> RevokeFailed | Some ids \<Rightarrow> if \<not> all \<and> ids = [] then SessionNotFound else Revoked ids)"
    using run auth target sel by (auto simp: revoke_sessions_def Let_def uk_def split: prod.splits option.splits if_splits)
  from revoke_each_effect [OF s1(1) ttl each] obtain ids where ids: "r2 = Some ids" "wf s'" "set ids = set sids \<inter> owned s1 uk now"
    "owned s' uk now = owned s1 uk now - set sids" "\<forall>x \<in> set ids. stands tomb s' x now (now + sc_RevokeTTL cfg)"
    "\<forall>x u. x \<notin> set ids \<and> now \<le> u \<longrightarrow> tomb s' x u = tomb s1 x u" by blast
  with reply s1 sids show ?thesis by (intro exI [of _ ids] exI [of _ "set sids"] exI [of _ "owned s1 uk now"]) auto
qed

lemma revoke_sessions_rejected:
  "\<not> (rq_tenant r \<noteq> [] \<and> rq_user r \<noteq> [] \<and> (sid \<noteq> [] \<or> all)) \<Longrightarrow>
    fst (revoke_sessions sha (Some ss) cfg s now r sid all) = s"
  by (auto simp: revoke_sessions_def)

lemma list_sessions_effect:
  assumes "wf s" and "sc_IdleTimeout cfg = idle" and "list_sessions sha (Some ss) cfg s now r = (s', reply)"
  shows "wf s' \<and> (\<forall>x u. now \<le> u \<longrightarrow> tomb s' x u = tomb s x u)"
proof (cases "rq_tenant r = [] \<or> rq_user r = []")
  case True
  with assms show ?thesis by (simp add: list_sessions_def)
next
  case False
  obtain s1 res where l: "ss_List ss s (userKey (rq_tenant r) (rq_user r)) idle now = (s1, res)" by fastforce
  from listing [OF assms(1) l] have "\<exists>infos. res = Inr infos" and "wf s1 \<and> (\<forall>x u. now \<le> u \<longrightarrow> tomb s1 x u = tomb s x u)" by blast+
  moreover from this False l assms(2,3) have "s' = s1" by (auto simp: list_sessions_def)
  ultimately show ?thesis by simp
qed

text \<open>Every step keeps the store well-formed and keeps a tombstone up to its deadline.\<close>

lemma step_stands:
  assumes "session_step sha ss cfg (s, t) (s', t')" and "wf s" and cfg: "sc_MaxConcurrent cfg = cap" "sc_IdleTimeout cfg = idle" "0 < idle"
    "0 < sc_RevokeTTL cfg" and st: "stands tomb s sid t d" and d: "d \<le> t + sc_RevokeTTL cfg"
  shows "wf s' \<and> t \<le> t' \<and> stands tomb s' sid t' d"
  using assms(1)
proof cases
  case (request r resp)
  have "wf s' \<and> (\<forall>x u. t' \<le> u \<longrightarrow> tomb s' x u = tomb s x u)"
  proof (cases "tracked sha cfg r")
    case True
    from wrap_tracked [OF assms(2) True cfg(1-3), of t'] request show ?thesis by auto
  next
    case False
    from wrap_untracked [OF False, of s t'] request assms(2) show ?thesis by simp
  qed
  with request st show ?thesis by (simp add: stands_def)
next
  case (listed r reply)
  with list_sessions_effect [OF assms(2) cfg(2)] st show ?thesis by (auto simp: stands_def)
next
  case (revocation r x all reply)
  show ?thesis
  proof (cases "rq_tenant r \<noteq> [] \<and> rq_user r \<noteq> [] \<and> (x \<noteq> [] \<or> all)")
    case True
    from revoke_sessions_effect [OF assms(2) cfg(2,4) _ _ _ revocation(2)] True obtain ids where "wf s'"
      "\<forall>x \<in> set ids. stands tomb s' x t' (t' + sc_RevokeTTL cfg)" "\<forall>x u. x \<notin> set ids \<and> t' \<le> u \<longrightarrow> tomb s' x u = tomb s x u" by blast
    with st d revocation(1) show ?thesis by (cases "sid \<in> set ids") (auto simp: stands_def)
  next
    case False
    from revoke_sessions_rejected [OF False, of sha cfg s t'] revocation have "s' = s" by simp
    with assms(2) st revocation(1) show ?thesis by (simp add: stands_def)
  qed
qed

lemma run_stands:
  assumes "(session_step sha ss cfg)\<^sup>*\<^sup>* p q" and "wf (fst p)" and "sc_MaxConcurrent cfg = cap" "sc_IdleTimeout cfg = idle" "0 < idle"
    "0 < sc_RevokeTTL cfg" and "stands tomb (fst p) sid (snd p) d" and "d \<le> snd p + sc_RevokeTTL cfg"
  shows "wf (fst q) \<and> snd p \<le> snd q \<and> stands tomb (fst q) sid (snd q) d"
  using assms(1)
proof (induction rule: rtranclp_induct)
  case base
  with assms show ?case by simp
next
  case (step q q')
  have "session_step sha ss cfg (fst q, snd q) (fst q', snd q')" using step.hyps(2) by simp
  from step_stands [OF this _ assms(3-6)] step.IH assms(8) show ?case by fastforce
qed

lemma revoked_refused:
  assumes "wf s" and cfg: "sc_MaxConcurrent cfg = cap" "sc_IdleTimeout cfg = idle" "0 < idle" "0 < sc_RevokeTTL cfg"
    and rev: "revoke_sessions sha (Some ss) cfg s now r sid all = (s1, Revoked ids)"
    and run: "(session_step sha ss cfg)\<^sup>*\<^sup>* (s1, now) (s2, t)" and "t \<le> u" and "u + nanos_per_ms \<le> now + sc_RevokeTTL cfg"
    and "tracked sha cfg q" and "SessionIDFromRequest sha q \<in> set ids"
  shows "snd (session_Wrap sha (Some ss) cfg s2 u q) = SessionRevoked"
proof -
  have "rq_tenant r \<noteq> [] \<and> rq_user r \<noteq> [] \<and> (sid \<noteq> [] \<or> all)"
    using rev by (auto simp: revoke_sessions_def split: if_splits)
  with revoke_sessions_effect [OF assms(1) cfg(2,4) _ _ _ rev] assms(11)
  have "wf s1" and "stands tomb s1 (SessionIDFromRequest sha q) now (now + sc_RevokeTTL cfg)" by (fastforce split: if_splits)+
  with run_stands [OF run _ cfg] have "wf s2" and "stands tomb s2 (SessionIDFromRequest sha q) t (now + sc_RevokeTTL cfg)" by auto
  with assms(8,9) have "wf s2" and "tomb s2 (SessionIDFromRequest sha q) u" by (auto simp: stands_def)
  with wrap_tracked [OF _ assms(10) cfg(1-3), of s2 u] show ?thesis by auto
qed

end

subsection \<open>Properties\<close>

lemma NewSessionManager_pos: "0 < sc_IdleTimeout (NewSessionManager c)" "0 < sc_RevokeTTL (NewSessionManager c)"
  by (simp_all add: NewSessionManager_def)

text \<open>A small deployment: one signed-in browser in the shared store.\<close>

definition ex_session_request :: "string \<Rightarrow> http_request" where
  "ex_session_request tok = \<lparr>rq_Authorization = ''bearer '' @ tok, rq_tenant = ''t'', rq_user = ''u'', rq_UserAgent = [], rq_XForwardedFor = [], rq_RemoteHost = ''h''\<rparr>"

definition ex_info :: "string \<Rightarrow> time \<Rightarrow> SessionInfo" where
  "ex_info sid t = \<lparr>si_ID = sid, si_UserKey = ''t:u'', si_TenantID = ''t'', si_UserID = ''u'', si_UserAgent = [], si_IP = ''h'',
     si_CreatedAt = Some t, si_LastSeen = t\<rparr>"

definition ex_session_config :: session_config where
  "ex_session_config = \<lparr>sc_IdleTimeout = 0, sc_MaxConcurrent = 1, sc_Enabled = True, sc_RevokeTTL = 0\<rparr>"

definition ex_signed_in :: keyspace where
  "ex_signed_in = [sessKey ''a'' \<mapsto> (VStr (s_enc ex_session_codec \<lparr>si_ID = ''a'', si_UserKey = [], si_TenantID = ''t'', si_UserID = ''u'', si_UserAgent = [],
      si_IP = ''h'', si_CreatedAt = Some 0, si_LastSeen = 0\<rparr>), None), userSessKey ''t:u'' \<mapsto> (VSet [''a''], None)]"

lemma ex_signed_in_wf: "red_wf ex_session_codec ex_signed_in"
  by (auto simp: red_wf_def ex_signed_in_def)

text \<open>
  C12: With sessions enabled and a Valkey that answers, once the revoke handler has answered that a session is revoked, the session
  middleware refuses with "session revoked" every request that it tracks (one with a session id, a tenant and a user, on a route behind
  the middleware) and that presents the token of that session, whatever requests, listings and revocations of any user come in
  between, until the revocation's time to live has passed (up to the millisecond resolution of Valkey's clock). While sessions are disabled, and on the
  routes without the middleware, the revocation has no effect.\<close>

theorem revoked_session_stays_refused:
  assumes "valkey_server v ks" and "session_json cd" and "red_wf cd (ks s)" and "cfg = NewSessionManager cfg0"
    and "revoke_sessions sha (Some (redis_store v cd)) cfg s now r sid all = (s1, Revoked ids)"
    and "(session_step sha (redis_store v cd) cfg)\<^sup>*\<^sup>* (s1, now) (s2, t)" and "t \<le> u" and "u + nanos_per_ms \<le> now + sc_RevokeTTL cfg"
    and "tracked sha cfg q" and "SessionIDFromRequest sha q \<in> set ids"
  shows "snd (session_Wrap sha (Some (redis_store v cd)) cfg s2 u q) = SessionRevoked"
  using session_ledger.revoked_refused [OF redis_sessions.ledger [OF redis_sessions.intro [OF assms(1,2)]], OF assms(3) refl refl _ _ assms(5-10)]
    NewSessionManager_pos by (simp add: assms(4))

theorem revoked_session_stays_refused_witness:
  "snd (session_Wrap (\<lambda>x. x) (Some (redis_store ks_valkey ex_session_codec)) (NewSessionManager ex_session_config)
     (fst (revoke_sessions (\<lambda>x. x) (Some (redis_store ks_valkey ex_session_codec)) (NewSessionManager ex_session_config)
        ex_signed_in 0 (ex_session_request ''b'') ''a'' False)) (3600 * nanos_per_s) (ex_session_request ''a'')) = SessionRevoked"
proof -
  let ?cfg = "NewSessionManager ex_session_config" and ?ss = "redis_store ks_valkey ex_session_codec"
  let ?r = "revoke_sessions (\<lambda>x. x) (Some ?ss) ?cfg ex_signed_in 0 (ex_session_request ''b'') ''a'' False"
  have "snd ?r = Revoked [''a'']" by code_simp
  then have rev: "?r = (fst ?r, Revoked [''a''])" by (simp add: prod_eq_iff)
  have "tracked (\<lambda>x. x) ?cfg (ex_session_request ''a'')" and "SessionIDFromRequest (\<lambda>x. x) (ex_session_request ''a'') \<in> set [''a'']"
    and "3600 * nanos_per_s + nanos_per_ms \<le> 0 + sc_RevokeTTL ?cfg" and "(0::int) \<le> 3600 * nanos_per_s" by code_simp+
  then show ?thesis
    using revoked_session_stays_refused [where ks = "\<lambda>m. m" and s = ex_signed_in, OF ks_valkey_server ex_session_json ex_signed_in_wf refl rev rtranclp.rtrancl_refl] by blast
qed

text \<open>
  A tracked request whose session is not revoked is always let through, never refused over the limit; afterwards its session is
  in the user's ledger, no other session has been added, and the ledger holds at most the configured number
  of sessions.\<close>

theorem session_cap_holds:
  assumes "valkey_server v ks" and "session_json cd" and "red_wf cd (ks s)" and "cfg = NewSessionManager cfg0" and "tracked sha cfg q"
    and "\<not> vk_exists v s (unix_milli now) (revokedKey (SessionIDFromRequest sha q))"
  shows "\<exists>s'. session_Wrap sha (Some (redis_store v cd)) cfg s now q = (s', Next) \<and> red_wf cd (ks s')
    \<and> SessionIDFromRequest sha q \<in> red_owned (ks s') (userKey (rq_tenant q) (rq_user q)) now
    \<and> red_owned (ks s') (userKey (rq_tenant q) (rq_user q)) now
        \<subseteq> insert (SessionIDFromRequest sha q) (red_owned (ks s) (userKey (rq_tenant q) (rq_user q)) now)
    \<and> (0 < sc_MaxConcurrent cfg \<longrightarrow> int (card (red_owned (ks s') (userKey (rq_tenant q) (rq_user q)) now)) \<le> sc_MaxConcurrent cfg)"
proof -
  have "\<not> red_tomb (ks s) (SessionIDFromRequest sha q) now"
    using assms(6) valkey_server.exists [OF assms(1)] by (simp add: red_tomb_def)
  with session_ledger.wrap_tracked [OF redis_sessions.ledger [OF redis_sessions.intro [OF assms(1,2)]], OF assms(3,5) refl refl, of now]
    NewSessionManager_pos(1) [of cfg0] show ?thesis by (auto simp: assms(4))
qed

theorem session_cap_holds_witness:
  "\<exists>s'. session_Wrap (\<lambda>x. x) (Some (redis_store ks_valkey ex_session_codec)) (NewSessionManager ex_session_config) ex_signed_in 5 (ex_session_request ''b'') = (s', Next)
    \<and> ''b'' \<in> red_owned s' ''t:u'' 5 \<and> card (red_owned s' ''t:u'' 5) \<le> 1"
proof -
  let ?cfg = "NewSessionManager ex_session_config" and ?q = "ex_session_request ''b''"
  have "tracked (\<lambda>x. x) ?cfg ?q" and "\<not> vk_exists ks_valkey ex_signed_in (unix_milli 5) (revokedKey (SessionIDFromRequest (\<lambda>x. x) ?q))"
    by code_simp+
  moreover have "SessionIDFromRequest (\<lambda>x. x) ?q = ''b''" "userKey (rq_tenant ?q) (rq_user ?q) = ''t:u''" "sc_MaxConcurrent ?cfg = 1" by code_simp+
  ultimately show ?thesis using session_cap_holds [where ks = "\<lambda>m. m" and s = ex_signed_in and sha = "\<lambda>x. x" and q = ?q and now = 5,
      OF ks_valkey_server ex_session_json ex_signed_in_wf refl, of ex_session_config] by auto
qed

text \<open>
  Signing out everywhere else always succeeds: afterwards the user's ledger holds no session but the caller's own, and every
  session the answer names was the user's and not the caller's own.\<close>

theorem sign_out_everywhere_else:
  fixes sha :: "string \<Rightarrow> string"
  assumes "valkey_server v ks" and "session_json cd" and "red_wf cd (ks s)" and "cfg = NewSessionManager cfg0"
    and "rq_tenant r \<noteq> []" and "rq_user r \<noteq> []"
  defines "uk \<equiv> userKey (rq_tenant r) (rq_user r)" and "current \<equiv> SessionIDFromRequest sha r"
  shows "\<exists>s' ids. revoke_sessions sha (Some (redis_store v cd)) cfg s now r sid True = (s', Revoked ids)
    \<and> red_owned (ks s') uk now \<subseteq> {current} \<and> set ids \<subseteq> red_owned (ks s) uk now - {current}
    \<and> (current \<in> red_owned (ks s') uk now \<longrightarrow> current \<in> red_owned (ks s) uk now)"
proof -
  obtain s' reply where run: "revoke_sessions sha (Some (redis_store v cd)) cfg s now r sid True = (s', reply)" by fastforce
  from session_ledger.revoke_sessions_effect [OF redis_sessions.ledger [OF redis_sessions.intro [OF assms(1,2)]], OF assms(3) refl _ assms(5,6) _ run]
    NewSessionManager_pos(2) [of cfg0]
  obtain ids own where "reply = Revoked ids" "own \<subseteq> red_owned (ks s) uk now" "set ids = (own - {current}) \<inter> own"
    "red_owned (ks s') uk now = own - (own - {current})" by (auto simp: uk_def current_def assms(4))
  with run show ?thesis by blast
qed

theorem sign_out_everywhere_else_witness:
  "\<exists>s' ids. revoke_sessions (\<lambda>x. x) (Some (redis_store ks_valkey ex_session_codec)) (NewSessionManager ex_session_config) ex_signed_in 0 (ex_session_request ''b'') [] True
     = (s', Revoked ids) \<and> red_owned s' ''t:u'' 0 \<subseteq> {''b''}"
proof -
  let ?q = "ex_session_request ''b''"
  have "rq_tenant ?q \<noteq> []" "rq_user ?q \<noteq> []" "userKey (rq_tenant ?q) (rq_user ?q) = ''t:u''" "SessionIDFromRequest (\<lambda>x. x) ?q = ''b''" by code_simp+
  then show ?thesis
    using sign_out_everywhere_else [where ks = "\<lambda>m. m" and s = ex_signed_in and r = ?q and sha = "\<lambda>x. x" and now = 0 and sid = "[]",
      OF ks_valkey_server ex_session_json ex_signed_in_wf refl, of ex_session_config] by auto
qed

text \<open>
  Revoking by id is scoped to its owner: for an id that is not in the caller's own ledger the handler answers "not found" and
  changes nothing, so no tombstone can be planted for another user's session.\<close>

theorem foreign_session_untouched:
  assumes "valkey_server v ks" and "session_json cd" and "red_wf cd (ks s)"
    and "rq_tenant r \<noteq> []" and "rq_user r \<noteq> []" and "sid \<noteq> []"
    and "sid \<notin> red_owned (ks s) (userKey (rq_tenant r) (rq_user r)) now"
  shows "revoke_sessions sha (Some (redis_store v cd)) cfg s now r sid False = (s, SessionNotFound)"
  using session_ledger.revoke_foreign [OF redis_sessions.ledger [OF redis_sessions.intro [OF assms(1,2)]], OF assms(3,7)] assms(4-6)
  by (simp add: revoke_sessions_def Let_def)

theorem foreign_session_untouched_witness:
  "revoke_sessions (\<lambda>x. x) (Some (redis_store ks_valkey ex_session_codec)) (NewSessionManager ex_session_config) ex_signed_in 0
     ((ex_session_request ''b'')\<lparr>rq_user := ''mallory''\<rparr>) ''a'' False = (ex_signed_in, SessionNotFound)"
proof -
  let ?q = "(ex_session_request ''b'')\<lparr>rq_user := ''mallory''\<rparr>"
  have "rq_tenant ?q \<noteq> []" "rq_user ?q \<noteq> []" "''a'' \<noteq> ([] :: string)" "''a'' \<notin> red_owned ex_signed_in (userKey (rq_tenant ?q) (rq_user ?q)) 0" by code_simp+
  then show ?thesis by (rule foreign_session_untouched [where ks = "\<lambda>m. m" and s = ex_signed_in, OF ks_valkey_server ex_session_json ex_signed_in_wf])
qed

text \<open>
  Eviction is not revocation: a session evicted by the cap has no tombstone, so the next request with its token is let through and
  puts it back into the ledger.\<close>

theorem evicted_session_still_served:
  assumes "mem_wf cap s" and "cfg = NewSessionManager cfg0" and "sc_MaxConcurrent cfg = cap" and "si_ID inp \<noteq> []"
    and "memTouch s inp (sc_IdleTimeout cfg) cap now = (s1, Inr evicted)" and "SessionIDFromRequest sha q \<in> set evicted"
    and "tracked sha cfg q" and "now \<le> u" and "mem_revoked s (SessionIDFromRequest sha q) = None"
  shows "\<exists>s2. session_Wrap sha (Some memory_store) cfg s1 u q = (s2, Next)
    \<and> SessionIDFromRequest sha q \<in> mem_owned s2 (userKey (rq_tenant q) (rq_user q)) u"
proof -
  have idle: "0 < sc_IdleTimeout cfg" using NewSessionManager_pos(1) by (simp add: assms(2))
  have "ss_Touch memory_store s inp (sc_IdleTimeout cfg) cap now = (s1, Inr evicted)" using assms(5) by (simp add: memory_store_def)
  from memory_ledger.touch [OF assms(1) idle assms(4) this]
  have "mem_wf cap s1" and tomb: "\<forall>x u. now \<le> u \<longrightarrow> mem_tomb s1 x u = mem_tomb s x u" by blast+
  moreover have "\<not> mem_tomb s1 (SessionIDFromRequest sha q) u" using tomb assms(8,9) by (simp add: mem_tomb_def)
  ultimately show ?thesis using memory_ledger.wrap_tracked [OF _ assms(7,3) refl idle, of s1 u] by auto
qed

theorem evicted_session_still_served_witness:
  "\<exists>s2. session_Wrap (\<lambda>x. x) (Some memory_store) (NewSessionManager ex_session_config)
     (fst (memTouch (fst (memTouch NewMemorySessionStore (ex_info ''a'' 1) (8 * 3600 * nanos_per_s) 1 1)) (ex_info ''b'' 2) (8 * 3600 * nanos_per_s) 1 2))
     3 (ex_session_request ''a'') = (s2, Next) \<and> ''a'' \<in> mem_owned s2 ''t:u'' 3"
proof -
  let ?cfg = "NewSessionManager ex_session_config" and ?q = "ex_session_request ''a''" and ?idle = "8 * 3600 * nanos_per_s"
  let ?s = "fst (memTouch NewMemorySessionStore (ex_info ''a'' 1) ?idle 1 1)"
  have cap: "sc_MaxConcurrent ?cfg = 1" and idle: "sc_IdleTimeout ?cfg = ?idle" and tr: "tracked (\<lambda>x. x) ?cfg ?q"
    and sid: "SessionIDFromRequest (\<lambda>x. x) ?q = ''a''" and uk: "userKey (rq_tenant ?q) (rq_user ?q) = ''t:u''"
    and ne: "si_ID (ex_info ''a'' 1) \<noteq> []" "si_ID (ex_info ''b'' 2) \<noteq> []" by code_simp+
  have "mem_wf 1 NewMemorySessionStore" by (simp add: mem_wf_def NewMemorySessionStore_def)
  from mem_touch_law [OF this ne(1), of ?idle 1 ?s "snd (memTouch NewMemorySessionStore (ex_info ''a'' 1) ?idle 1 1)"]
  have wf: "mem_wf 1 ?s" by auto
  have "snd (memTouch ?s (ex_info ''b'' 2) ?idle 1 2) = Inr [''a'']" by code_simp
  then have run: "memTouch ?s (ex_info ''b'' 2) (sc_IdleTimeout ?cfg) 1 2 = (fst (memTouch ?s (ex_info ''b'' 2) ?idle 1 2), Inr [''a''])"
    by (simp add: prod_eq_iff idle)
  have "mem_revoked ?s ''a'' = None" by code_simp
  with evicted_session_still_served [OF wf refl cap ne(2) run, of "\<lambda>x. x" ?q 3] tr sid uk show ?thesis by simp
qed

end
