(* ===== verification/OAuth.thy ===== *)
theory OAuth
  imports Encoding
begin

text \<open>
  The OAuth 2.0 authorization server of \<^verbatim>\<open>internal/oauth\<close>: client registration, the consent screen and its
  approval, the token endpoint with its authorization-code and refresh-token grants, replay detection,
  revocation and the bearer-token middleware (\<^verbatim>\<open>service.go\<close>, \<^verbatim>\<open>handlers.go\<close>, \<^verbatim>\<open>middleware.go\<close>, \<^verbatim>\<open>types.go\<close>).

  The four tables are lists in insertion order with their keys and foreign keys; the server's role owns them,
  so that row-level security does not apply (as the comments of the code say). A transaction that fails
  leaves the tables as they were, so an operation either commits as a whole or changes nothing. Identifiers
  read back from the tables are canonical; \<open>uuid\<close> is the cast of a text that comes from outside. Random bytes
  and fresh row ids are arguments of the operation that draws them (\<open>None\<close> when the source fails); SHA-256,
  bcrypt and the part of \<^verbatim>\<open>url.Parse\<close> after the scheme are fields of the environment.
\<close>

subsection \<open>Data\<close>

record Client =
  cl_ID :: string
  cl_TenantID :: string
  cl_ClientID :: string
  cl_ClientType :: string
  cl_Name :: string
  cl_HomepageURL :: string
  cl_LogoURL :: string
  cl_RedirectURIs :: "string list"
  cl_AllowedScopes :: "string list"
  cl_Active :: bool
  cl_CreatedAt :: time
  cl_UpdatedAt :: time

record auth_code =
  ac_ID :: string
  ac_TenantID :: string
  ac_ClientID :: string
  ac_UserID :: string
  ac_hash :: string
  ac_redirect :: string
  ac_scopes :: "string list"
  ac_challenge :: "string option"
  ac_method :: "string option"
  ac_expires :: time
  ac_consumed :: "time option"

record refresh_row =
  rt_ID :: string
  rt_TenantID :: string
  rt_ClientID :: string
  rt_UserID :: string
  rt_hash :: string
  rt_scopes :: "string list"
  rt_parent :: "string option"
  rt_expires :: time
  rt_revoked :: "time option"

record access_row =
  at_ID :: string
  at_TenantID :: string
  at_ClientID :: string
  at_UserID :: string
  at_hash :: string
  at_scopes :: "string list"
  at_expires :: time
  at_revoked :: "time option"
  at_refresh :: string

text \<open>The tables; a client row carries its secret hash beside the public view.\<close>

record oauth_db =
  tenants :: "string list"
  users :: "string list"
  clients :: "(Client \<times> string option) list"
  codes :: "auth_code list"
  refreshes :: "refresh_row list"
  accesses :: "access_row list"

record AccessTokenContext =
  tc_TokenID :: string
  tc_TenantID :: string
  tc_UserID :: string
  tc_ClientID :: string
  tc_Scopes :: "string list"
  tc_ExpiresAt :: time

record TokenResponse =
  tr_AccessToken :: string
  tr_TokenType :: string
  tr_ExpiresIn :: int
  tr_RefreshToken :: string
  tr_Scope :: string

datatype oauth_err =
    OAuthError string string int
  | ErrClientNotFound | ErrCodeNotFound | ErrCodeAlreadyConsumed | ErrAccessTokenNotFound | ErrRefreshTokenNotFound
  | ErrInvalidRedirectURI | ErrInvalidCodeVerifier | ErrScopeNotAllowed | ErrClientSecretMismatch
  | ErrPKCERequiredButMissing | ErrRefreshTokenReplay | ErrRequest string | ErrRand | ErrDatabase | ErrContext

record oauth_env =
  oe_sha :: "string \<Rightarrow> byte list"
  oe_bcrypt :: "string \<Rightarrow> string option"
  oe_bcrypt_ok :: "string \<Rightarrow> string \<Rightarrow> bool"
  oe_uuid :: "string \<Rightarrow> string option"
  oe_url_rest :: "string \<Rightarrow> string option"

record oauth_service =
  os_accessTokenTTL :: duration
  os_refreshTokenTTL :: duration
  os_codeTTL :: duration

definition oauth_NewService :: oauth_service where
  "oauth_NewService = \<lparr>os_accessTokenTTL = 3600 * nanos_per_s, os_refreshTokenTTL = 30 * 24 * 3600 * nanos_per_s,
     os_codeTTL = 60 * nanos_per_s\<rparr>"

subsection \<open>Scopes\<close>

definition KnownScopes :: "string list" where
  "KnownScopes = [''read:mail'', ''write:mail'', ''read:calendar'', ''write:calendar'', ''read:contacts'', ''write:contacts'', ''read:profile'']"

definition isWriteScopeImplyingRead :: "string \<Rightarrow> string \<Rightarrow> bool" where
  "isWriteScopeImplyingRead granted want =
     (if granted = ''write:mail'' then want = ''read:mail''
      else if granted = ''write:calendar'' then want = ''read:calendar''
      else if granted = ''write:contacts'' then want = ''read:contacts''
      else False)"

fun ScopesInclude :: "string list \<Rightarrow> string \<Rightarrow> bool" where
  "ScopesInclude [] want = False"
| "ScopesInclude (s # granted) want = (if s = want then True else if isWriteScopeImplyingRead s want then True else ScopesInclude granted want)"

definition HasScope :: "AccessTokenContext \<Rightarrow> string \<Rightarrow> bool" where
  "HasScope a want = ScopesInclude (tc_Scopes a) want"

subsection \<open>Helpers\<close>

text \<open>The scheme of a URL as \<^verbatim>\<open>url.Parse\<close> reads it, and the rest.\<close>

datatype scheme_result = BadScheme | NoScheme | Scheme string string

definition is_letter :: "char \<Rightarrow> bool" where
  "is_letter c \<longleftrightarrow> (let n = of_char c :: nat in 65 \<le> n \<and> n \<le> 90 \<or> 97 \<le> n \<and> n \<le> 122)"

definition is_scheme_rest :: "char \<Rightarrow> bool" where
  "is_scheme_rest c \<longleftrightarrow> (let n = of_char c :: nat in 48 \<le> n \<and> n \<le> 57) \<or> c \<in> {CHR ''+'', CHR ''-'', CHR ''.''}"

fun get_scheme :: "string \<Rightarrow> string \<Rightarrow> scheme_result" where
  "get_scheme pre [] = NoScheme"
| "get_scheme pre (c # cs) =
     (if is_letter c then get_scheme (pre @ [c]) cs
      else if is_scheme_rest c then (if pre = [] then NoScheme else get_scheme (pre @ [c]) cs)
      else if c = CHR '':'' then (if pre = [] then BadScheme else Scheme pre cs)
      else NoScheme)"

definition is_ctl :: "char \<Rightarrow> bool" where
  "is_ctl c \<longleftrightarrow> (of_char c :: nat) < 32 \<or> (of_char c :: nat) = 127"

definition url_Parse :: "oauth_env \<Rightarrow> string \<Rightarrow> (string \<times> string) option" where
  "url_Parse env raw =
     (if list_ex is_ctl raw then None
      else case get_scheme [] raw of
        BadScheme \<Rightarrow> None
      | NoScheme \<Rightarrow> map_option (\<lambda>host. ([], host)) (oe_url_rest env raw)
      | Scheme scheme rest \<Rightarrow> map_option (\<lambda>host. (map ascii_lower scheme, host)) (oe_url_rest env rest))"

definition validateRedirectURI :: "oauth_env \<Rightarrow> string \<Rightarrow> bool" where
  "validateRedirectURI env raw =
     (if raw = [] then False
      else case url_Parse env raw of
        None \<Rightarrow> False
      | Some (sch, host) \<Rightarrow>
          if sch = [] then False
          else let scheme = map ascii_lower sch in
            if scheme \<in> {''https'', ''http''} then True
            else if scheme \<in> {''javascript'', ''data'', ''vbscript'', ''file''} then False
            else CHR ''.'' \<in> set scheme)"

definition validateExternalDisplayURL :: "oauth_env \<Rightarrow> string \<Rightarrow> bool" where
  "validateExternalDisplayURL env raw =
     (case url_Parse env raw of
        None \<Rightarrow> False
      | Some (sch, host) \<Rightarrow>
          let scheme = map ascii_lower sch in
            if scheme \<noteq> ''https'' \<and> scheme \<noteq> ''http'' then False else host \<noteq> [])"

definition generateOpaqueToken :: "byte list option \<Rightarrow> string option" where
  "generateOpaqueToken buf = map_option rawurl_encode buf"

definition hashToken :: "oauth_env \<Rightarrow> string \<Rightarrow> string" where
  "hashToken env plain = hex_encode (oe_sha env plain)"

definition verifyPKCE :: "oauth_env \<Rightarrow> string \<Rightarrow> string \<Rightarrow> string \<Rightarrow> bool" where
  "verifyPKCE env codeChallenge codeVerifier meth =
     (if meth = ''plain'' then codeChallenge = codeVerifier
      else if meth = ''S256'' then codeChallenge = rawurl_encode (oe_sha env codeVerifier)
      else False)"

fun redirectURIInAllowList :: "string list \<Rightarrow> string \<Rightarrow> bool" where
  "redirectURIInAllowList [] want = False"
| "redirectURIInAllowList (a # allow) want = (if a = want then True else redirectURIInAllowList allow want)"

fun containsString :: "string list \<Rightarrow> string \<Rightarrow> bool" where
  "containsString [] needle = False"
| "containsString (h # hs) needle = (if h = needle then True else containsString hs needle)"

definition joinScopes :: "string list \<Rightarrow> string" where
  "joinScopes scopes = join_with (CHR '' '') scopes"

lemma allow_list_iff [simp]: "redirectURIInAllowList xs x \<longleftrightarrow> x \<in> set xs" "containsString xs x \<longleftrightarrow> x \<in> set xs"
  by (induction xs) auto

subsection \<open>Clients\<close>

record client_request =
  rr_name :: string
  rr_clientType :: string
  rr_redirectURIs :: "string list"
  rr_allowedScopes :: "string list"
  rr_homepageURL :: string
  rr_logoURL :: string

text \<open>\<open>idr\<close> and \<open>sec\<close> are the random bytes of the client id and of the secret, \<open>rid\<close> the row id.\<close>

definition RegisterClient :: "oauth_env \<Rightarrow> oauth_db \<Rightarrow> time \<Rightarrow> string \<Rightarrow> client_request \<Rightarrow> string \<Rightarrow> byte list option \<Rightarrow> byte list option
    \<Rightarrow> oauth_db \<times> (oauth_err + Client \<times> string)" where
  "RegisterClient env db now tenantID r rid idr sec =
     (if tenantID = [] then (db, Inl (ErrRequest ''tenant_id required''))
      else if rr_name r = [] then (db, Inl (ErrRequest ''name required''))
      else if rr_clientType r \<noteq> ''confidential'' \<and> rr_clientType r \<noteq> ''public'' then (db, Inl (ErrRequest ''client_type''))
      else if rr_redirectURIs r = [] then (db, Inl (ErrRequest ''at least one redirect_uri required''))
      else if \<not> list_all (validateRedirectURI env) (rr_redirectURIs r) then (db, Inl (ErrRequest ''redirect_uri''))
      else if rr_homepageURL r \<noteq> [] \<and> \<not> validateExternalDisplayURL env (rr_homepageURL r) then (db, Inl (ErrRequest ''homepage_url''))
      else if rr_logoURL r \<noteq> [] \<and> \<not> validateExternalDisplayURL env (rr_logoURL r) then (db, Inl (ErrRequest ''logo_url''))
      else if \<not> list_all (\<lambda>sc. sc \<in> set KnownScopes) (rr_allowedScopes r) then (db, Inl (ErrRequest ''unknown scope''))
      else case generateOpaqueToken idr of
        None \<Rightarrow> (db, Inl ErrRand)
      | Some clientID \<Rightarrow>
          (case (if rr_clientType r = ''confidential''
                 then (case generateOpaqueToken sec of
                     None \<Rightarrow> None
                   | Some plain \<Rightarrow> map_option (\<lambda>h. (plain, Some h)) (oe_bcrypt env plain))
                 else Some ([], None)) of
             None \<Rightarrow> (db, Inl ErrRand)
           | Some (plaintextSecret, secretHash) \<Rightarrow>
               (case oe_uuid env tenantID of
                  None \<Rightarrow> (db, Inl ErrDatabase)
                | Some tid \<Rightarrow>
                    if tid \<notin> set (tenants db) \<or> list_ex (\<lambda>(c, _). cl_ID c = rid \<or> cl_ClientID c = clientID) (clients db)
                    then (db, Inl ErrDatabase)
                    else let c = \<lparr>cl_ID = rid, cl_TenantID = tid, cl_ClientID = clientID, cl_ClientType = rr_clientType r,
                                  cl_Name = rr_name r, cl_HomepageURL = rr_homepageURL r, cl_LogoURL = rr_logoURL r,
                                  cl_RedirectURIs = rr_redirectURIs r, cl_AllowedScopes = rr_allowedScopes r,
                                  cl_Active = True, cl_CreatedAt = now, cl_UpdatedAt = now\<rparr>
                         in (db\<lparr>clients := clients db @ [(c, secretHash)]\<rparr>, Inr (c, plaintextSecret)))))"

definition GetClient :: "oauth_env \<Rightarrow> oauth_db \<Rightarrow> string \<Rightarrow> string \<Rightarrow> oauth_err + Client" where
  "GetClient env db tenantID clientID =
     (if tenantID = [] \<or> clientID = [] then Inl ErrClientNotFound
      else case oe_uuid env tenantID of
        None \<Rightarrow> Inl ErrDatabase
      | Some tid \<Rightarrow>
          (case find (\<lambda>(c, _). cl_TenantID c = tid \<and> cl_ClientID c = clientID \<and> cl_Active c) (clients db) of
             None \<Rightarrow> Inl ErrClientNotFound
           | Some (c, _) \<Rightarrow> Inr c))"

definition LookupClientForExchange :: "oauth_db \<Rightarrow> string \<Rightarrow> oauth_err + Client" where
  "LookupClientForExchange db clientID =
     (if clientID = [] then Inl ErrClientNotFound
      else case find (\<lambda>(c, _). cl_ClientID c = clientID \<and> cl_Active c) (clients db) of
        None \<Rightarrow> Inl ErrClientNotFound
      | Some (c, _) \<Rightarrow> Inr c)"

text \<open>A missing row or a \<^verbatim>\<open>NULL\<close> hash makes the scan fail.\<close>

definition VerifyClientSecret :: "oauth_env \<Rightarrow> oauth_db \<Rightarrow> Client option \<Rightarrow> string \<Rightarrow> oauth_err option" where
  "VerifyClientSecret env db client plaintextSecret =
     (case client of
        None \<Rightarrow> Some ErrClientSecretMismatch
      | Some c \<Rightarrow>
          if cl_ClientType c \<noteq> ''confidential'' then Some ErrClientSecretMismatch
          else case find (\<lambda>(c', _). cl_ID c' = cl_ID c) (clients db) of
              None \<Rightarrow> Some ErrDatabase
            | Some (_, None) \<Rightarrow> Some ErrDatabase
            | Some (_, Some hash) \<Rightarrow>
                if hash = [] then Some ErrClientSecretMismatch
                else if \<not> oe_bcrypt_ok env hash plaintextSecret then Some ErrClientSecretMismatch
                else None)"

subsection \<open>Authorization codes\<close>

text \<open>The keys and foreign keys of a new code: the tenant, the client and the user exist, id and hash are new.\<close>

definition insert_code :: "oauth_db \<Rightarrow> auth_code \<Rightarrow> oauth_db option" where
  "insert_code db a =
     (if ac_TenantID a \<in> set (tenants db) \<and> ac_UserID a \<in> set (users db) \<and> list_ex (\<lambda>(c, _). cl_ID c = ac_ClientID a) (clients db)
         \<and> \<not> list_ex (\<lambda>b. ac_ID b = ac_ID a \<or> ac_hash b = ac_hash a) (codes db)
         \<and> (case ac_method a of None \<Rightarrow> True | Some m \<Rightarrow> m \<in> {''plain'', ''S256''})
      then Some (db\<lparr>codes := codes db @ [a]\<rparr>) else None)"

definition IssueAuthorizationCode :: "oauth_env \<Rightarrow> oauth_service \<Rightarrow> oauth_db \<Rightarrow> time \<Rightarrow> Client option \<Rightarrow> string \<Rightarrow> string \<Rightarrow> string list
    \<Rightarrow> string \<Rightarrow> string \<Rightarrow> string \<Rightarrow> byte list option \<Rightarrow> oauth_db \<times> (oauth_err + string)" where
  "IssueAuthorizationCode env svc db now client userID redirectURI grantedScopes codeChallenge codeChallengeMethod rid rnd =
     (case client of
        None \<Rightarrow> (db, Inl ErrClientNotFound)
      | Some c \<Rightarrow>
          if userID = [] then (db, Inl (ErrRequest ''user_id required''))
          else if \<not> redirectURIInAllowList (cl_RedirectURIs c) redirectURI then (db, Inl ErrInvalidRedirectURI)
          else if \<not> list_all (containsString (cl_AllowedScopes c)) grantedScopes then (db, Inl ErrScopeNotAllowed)
          else if cl_ClientType c = ''public'' \<and> codeChallenge = [] then (db, Inl ErrPKCERequiredButMissing)
          else if codeChallengeMethod \<noteq> [] \<and> codeChallengeMethod \<noteq> ''plain'' \<and> codeChallengeMethod \<noteq> ''S256''
          then (db, Inl (OAuthError ''invalid_request'' ''code_challenge_method must be plain or S256'' 400))
          else case generateOpaqueToken rnd of
              None \<Rightarrow> (db, Inl ErrRand)
            | Some plaintextCode \<Rightarrow>
                (case oe_uuid env userID of
                   None \<Rightarrow> (db, Inl ErrDatabase)
                 | Some uid \<Rightarrow>
                     (case insert_code db
                        \<lparr>ac_ID = rid, ac_TenantID = cl_TenantID c, ac_ClientID = cl_ID c, ac_UserID = uid, ac_hash = hashToken env plaintextCode,
                         ac_redirect = redirectURI, ac_scopes = grantedScopes,
                         ac_challenge = (if codeChallenge \<noteq> [] then Some codeChallenge else None),
                         ac_method = (if codeChallenge \<noteq> []
                           then Some (if codeChallengeMethod = [] then ''plain'' else codeChallengeMethod) else None),
                         ac_expires = now + os_codeTTL svc, ac_consumed = None\<rparr> of
                        None \<Rightarrow> (db, Inl ErrDatabase)
                      | Some db' \<Rightarrow> (db', Inr plaintextCode))))"

subsection \<open>Tokens\<close>

text \<open>The random draws of a new token pair and its row ids.\<close>

record mint_rand =
  mr_access :: "byte list option"
  mr_refresh :: "byte list option"
  mr_refresh_id :: string
  mr_access_id :: string

definition mintTokensTx :: "oauth_env \<Rightarrow> oauth_service \<Rightarrow> oauth_db \<Rightarrow> Client \<Rightarrow> string \<Rightarrow> string list \<Rightarrow> string option \<Rightarrow> time \<Rightarrow> mint_rand
    \<Rightarrow> oauth_err + oauth_db \<times> TokenResponse" where
  "mintTokensTx env svc db c userID scopes parent now m =
     (case generateOpaqueToken (mr_access m) of
        None \<Rightarrow> Inl ErrRand
      | Some plaintextAccess \<Rightarrow>
          (case generateOpaqueToken (mr_refresh m) of
             None \<Rightarrow> Inl ErrRand
           | Some plaintextRefresh \<Rightarrow>
               let accessHash = hashToken env plaintextAccess; refreshHash = hashToken env plaintextRefresh in
               if cl_TenantID c \<notin> set (tenants db) \<or> userID \<notin> set (users db) \<or> \<not> list_ex (\<lambda>(c', _). cl_ID c' = cl_ID c) (clients db)
                  \<or> list_ex (\<lambda>r. rt_ID r = mr_refresh_id m \<or> rt_hash r = refreshHash) (refreshes db)
                  \<or> list_ex (\<lambda>a. at_ID a = mr_access_id m \<or> at_hash a = accessHash) (accesses db)
               then Inl ErrDatabase
               else Inr
                 (db\<lparr>refreshes := refreshes db @ [\<lparr>rt_ID = mr_refresh_id m, rt_TenantID = cl_TenantID c, rt_ClientID = cl_ID c, rt_UserID = userID,
                       rt_hash = refreshHash, rt_scopes = scopes, rt_parent = parent, rt_expires = now + os_refreshTokenTTL svc, rt_revoked = None\<rparr>],
                     accesses := accesses db @ [\<lparr>at_ID = mr_access_id m, at_TenantID = cl_TenantID c, at_ClientID = cl_ID c, at_UserID = userID,
                       at_hash = accessHash, at_scopes = scopes, at_expires = now + os_accessTokenTTL svc, at_revoked = None, at_refresh = mr_refresh_id m\<rparr>]\<rparr>,
                  \<lparr>tr_AccessToken = plaintextAccess, tr_TokenType = ''Bearer'', tr_ExpiresIn = quot (os_accessTokenTTL svc) nanos_per_s,
                   tr_RefreshToken = plaintextRefresh, tr_Scope = joinScopes scopes\<rparr>)))"

abbreviation invalid_grant :: "string \<Rightarrow> oauth_err" where
  "invalid_grant d \<equiv> OAuthError ''invalid_grant'' d 400"

definition claimable_code :: "string \<Rightarrow> time \<Rightarrow> auth_code \<Rightarrow> bool" where
  "claimable_code h now a \<longleftrightarrow> ac_hash a = h \<and> ac_consumed a = None \<and> ac_expires a > now"

definition ExchangeAuthorizationCode :: "oauth_env \<Rightarrow> oauth_service \<Rightarrow> oauth_db \<Rightarrow> time \<Rightarrow> Client option \<Rightarrow> string \<Rightarrow> string \<Rightarrow> string \<Rightarrow> mint_rand
    \<Rightarrow> oauth_db \<times> (oauth_err + TokenResponse)" where
  "ExchangeAuthorizationCode env svc db now client plaintextCode redirectURI codeVerifier m =
     (case client of
        None \<Rightarrow> (db, Inl ErrClientNotFound)
      | Some c \<Rightarrow>
          let codeHash = hashToken env plaintextCode in
          (case find (claimable_code codeHash now) (codes db) of
             None \<Rightarrow> (db, Inl (invalid_grant ''authorization code not found, expired, or already consumed''))
           | Some a \<Rightarrow>
               let db1 = db\<lparr>codes := map (\<lambda>b. if claimable_code codeHash now b then b\<lparr>ac_consumed := Some now\<rparr> else b) (codes db)\<rparr> in
               if ac_ClientID a \<noteq> cl_ID c then (db, Inl (invalid_grant ''code was issued to a different client''))
               else if ac_TenantID a \<noteq> cl_TenantID c then (db, Inl (invalid_grant ''code tenant mismatch''))
               else if ac_redirect a \<noteq> redirectURI then (db, Inl (invalid_grant ''redirect_uri does not match the value used at /authorize''))
               else if (case ac_challenge a of None \<Rightarrow> False | Some ch \<Rightarrow> ch \<noteq> []) \<and> codeVerifier = []
               then (db, Inl (OAuthError ''invalid_request'' ''code_verifier required (PKCE in use)'' 400))
               else if (case ac_challenge a of
                     None \<Rightarrow> False
                   | Some ch \<Rightarrow> ch \<noteq> [] \<and> \<not> verifyPKCE env ch codeVerifier (case ac_method a of None \<Rightarrow> ''plain'' | Some meth \<Rightarrow> meth))
               then (db, Inl (invalid_grant ''code_verifier does not match challenge''))
               else if (case ac_challenge a of None \<Rightarrow> True | Some ch \<Rightarrow> ch = []) \<and> cl_ClientType c = ''public''
               then (db, Inl (invalid_grant ''public clients must use PKCE''))
               else (case mintTokensTx env svc db1 c (ac_UserID a) (ac_scopes a) None now m of
                   Inl e \<Rightarrow> (db, Inl e)
                 | Inr (db2, resp) \<Rightarrow> (db2, Inr resp))))"

text \<open>
  The recursive query of the replay path: the rows reached from \<open>work\<close> along \<^verbatim>\<open>parent_id\<close>, one generation after
  the other; a table with \<open>n\<close> rows has at most \<open>n\<close> generations.
\<close>

fun chain_from :: "nat \<Rightarrow> refresh_row list \<Rightarrow> string list \<Rightarrow> string list" where
  "chain_from 0 rows work = []"
| "chain_from (Suc n) rows work =
     (if work = [] then []
      else work @ chain_from n rows (map rt_ID (filter (\<lambda>r. \<exists>w \<in> set work. rt_parent r = Some w) rows)))"

definition refresh_chain :: "oauth_db \<Rightarrow> string \<Rightarrow> string list" where
  "refresh_chain db rootID =
     chain_from (Suc (length (refreshes db))) (refreshes db) (map rt_ID (filter (\<lambda>r. rt_ID r = rootID) (refreshes db)))"

definition revoke_refresh :: "time \<Rightarrow> (refresh_row \<Rightarrow> bool) \<Rightarrow> refresh_row list \<Rightarrow> refresh_row list" where
  "revoke_refresh now P = map (\<lambda>r. if P r \<and> rt_revoked r = None then r\<lparr>rt_revoked := Some now\<rparr> else r)"

definition revoke_access :: "time \<Rightarrow> (access_row \<Rightarrow> bool) \<Rightarrow> access_row list \<Rightarrow> access_row list" where
  "revoke_access now P = map (\<lambda>a. if P a \<and> at_revoked a = None then a\<lparr>at_revoked := Some now\<rparr> else a)"

definition revokeRefreshChain :: "oauth_db \<Rightarrow> time \<Rightarrow> string \<Rightarrow> oauth_db" where
  "revokeRefreshChain db now rootID =
     (let chain = refresh_chain db rootID;
          db1 = db\<lparr>refreshes := revoke_refresh now (\<lambda>r. rt_ID r \<in> set chain) (refreshes db)\<rparr>
      in db1\<lparr>accesses := revoke_access now (\<lambda>a. at_refresh a \<in> set (refresh_chain db1 rootID)) (accesses db1)\<rparr>)"

definition RefreshAccessToken :: "oauth_env \<Rightarrow> oauth_service \<Rightarrow> oauth_db \<Rightarrow> time \<Rightarrow> Client option \<Rightarrow> string \<Rightarrow> mint_rand
    \<Rightarrow> oauth_db \<times> (oauth_err + TokenResponse)" where
  "RefreshAccessToken env svc db now client plaintextRefreshToken m =
     (case client of
        None \<Rightarrow> (db, Inl ErrClientNotFound)
      | Some c \<Rightarrow>
          if plaintextRefreshToken = [] then (db, Inl (OAuthError ''invalid_request'' ''refresh_token required'' 400))
          else let refreshHash = hashToken env plaintextRefreshToken in
          (case find (\<lambda>r. rt_hash r = refreshHash \<and> rt_revoked r = None \<and> rt_expires r > now) (refreshes db) of
             None \<Rightarrow>
               (case find (\<lambda>r. rt_hash r = refreshHash) (refreshes db) of
                  None \<Rightarrow> (db, Inl (invalid_grant ''refresh token not found''))
                | Some r \<Rightarrow>
                    if rt_revoked r \<noteq> None
                    then (revokeRefreshChain db now (rt_ID r), Inl (invalid_grant ''refresh token replay detected - token family revoked''))
                    else (db, Inl (invalid_grant ''refresh token expired'')))
           | Some r \<Rightarrow>
               let db1 = db\<lparr>refreshes := revoke_refresh now (\<lambda>x. rt_hash x = refreshHash \<and> rt_expires x > now) (refreshes db)\<rparr> in
               if rt_ClientID r \<noteq> cl_ID c then (db, Inl (invalid_grant ''refresh token was issued to a different client''))
               else (case mintTokensTx env svc db1 c (rt_UserID r) (rt_scopes r) (Some (rt_ID r)) now m of
                   Inl e \<Rightarrow> (db, Inl e)
                 | Inr (db2, resp) \<Rightarrow>
                     (db2\<lparr>accesses := revoke_access now (\<lambda>a. at_refresh a = rt_ID r) (accesses db2)\<rparr>, Inr resp))))"

text \<open>
  The lookup runs without a tenant setting, in a role that row security does not restrict. Where row security is forced on the role
  (\<^verbatim>\<open>migrations/010_force_rls.sql\<close>) the query finds no row and every token is refused, so a token that is served is one served here.
\<close>

definition ValidateAccessToken :: "oauth_env \<Rightarrow> oauth_db \<Rightarrow> time \<Rightarrow> string \<Rightarrow> oauth_err + AccessTokenContext" where
  "ValidateAccessToken env db now plaintextToken =
     (if plaintextToken = [] then Inl ErrAccessTokenNotFound
      else case find (\<lambda>a. at_hash a = hashToken env plaintextToken \<and> list_ex (\<lambda>(c, _). cl_ID c = at_ClientID a \<and> cl_Active c) (clients db)
               \<and> at_revoked a = None \<and> at_expires a > now) (accesses db) of
          None \<Rightarrow> Inl ErrAccessTokenNotFound
        | Some a \<Rightarrow> Inr \<lparr>tc_TokenID = at_ID a, tc_TenantID = at_TenantID a, tc_UserID = at_UserID a, tc_ClientID = at_ClientID a,
                        tc_Scopes = at_scopes a, tc_ExpiresAt = at_expires a\<rparr>)"

definition RevokeToken :: "oauth_env \<Rightarrow> oauth_db \<Rightarrow> time \<Rightarrow> Client option \<Rightarrow> string \<Rightarrow> oauth_db \<times> oauth_err option" where
  "RevokeToken env db now client plaintextToken =
     (case client of
        None \<Rightarrow> (db, Some ErrClientNotFound)
      | Some c \<Rightarrow>
          let tokenHash = hashToken env plaintextToken; foreign = OAuthError ''unauthorized_client'' ''token was issued to a different client'' 400 in
          (case find (\<lambda>a. at_hash a = tokenHash) (accesses db) of
             Some a \<Rightarrow>
               if at_ClientID a \<noteq> cl_ID c then (db, Some foreign)
               else (db\<lparr>accesses := revoke_access now (\<lambda>x. at_hash x = tokenHash) (accesses db)\<rparr>, None)
           | None \<Rightarrow>
               (case find (\<lambda>r. rt_hash r = tokenHash) (refreshes db) of
                  None \<Rightarrow> (db, None)
                | Some r \<Rightarrow>
                    if rt_ClientID r \<noteq> cl_ID c then (db, Some foreign)
                    else (db\<lparr>refreshes := revoke_refresh now (\<lambda>x. rt_ID x = rt_ID r) (refreshes db),
                             accesses := revoke_access now (\<lambda>a. at_refresh a = rt_ID r) (accesses db)\<rparr>, None))))"

subsection \<open>The endpoints\<close>

text \<open>
  A request: its method, whether the form parses, the form or query values, the basic credentials, the CSRF
  cookie and the (user, tenant) of the signed-in human. A redirect is the URI with the parameters set on it.
\<close>

record oauth_request =
  oq_Method :: string
  oq_form_ok :: bool
  oq_form :: "string \<Rightarrow> string"
  oq_basic :: "(string \<times> string) option"
  oq_csrf_cookie :: "string option"
  oq_user :: "(string \<times> string) option"

datatype oauth_response =
    HttpError string int
  | OAuthEnvelope string string int
  | RedirectTo string "(string \<times> string) list"
  | ConsentScreen Client "string list" string string
  | Tokens TokenResponse
  | RevokeOK
  | HandlerPanic

fun fields :: "string \<Rightarrow> string list" where
  "fields [] = []"
| "fields (c # cs) =
     (if is_space c then fields cs
      else (case cs of
          [] \<Rightarrow> [[c]]
        | d # _ \<Rightarrow> if is_space d then [c] # fields cs else (case fields cs of [] \<Rightarrow> [[c]] | w # ws \<Rightarrow> (c # w) # ws)))"

definition splitScopes :: "string \<Rightarrow> string list" where
  "splitScopes raw = (let t = trim_space raw in if t = [] then [] else fields t)"

definition redirectWithError :: "oauth_env \<Rightarrow> string \<Rightarrow> string \<Rightarrow> string \<Rightarrow> string \<Rightarrow> oauth_response" where
  "redirectWithError env redirectURI state code description =
     (case url_Parse env redirectURI of
        None \<Rightarrow> HttpError description 400
      | Some (scheme, _) \<Rightarrow>
          if scheme = [] then HttpError description 400
          else RedirectTo redirectURI
            ([(''error'', code), (''error_description'', description)] @ (if state \<noteq> [] then [(''state'', state)] else [])))"

definition redirectWithOAuthError :: "oauth_env \<Rightarrow> string \<Rightarrow> string \<Rightarrow> oauth_err \<Rightarrow> oauth_response" where
  "redirectWithOAuthError env redirectURI state err =
     (case err of
        OAuthError code description _ \<Rightarrow> redirectWithError env redirectURI state code description
      | ErrScopeNotAllowed \<Rightarrow> redirectWithError env redirectURI state ''invalid_scope'' ''requested scope not allowed for this client''
      | ErrInvalidRedirectURI \<Rightarrow> HttpError ''redirect_uri does not match client allow-list'' 400
      | ErrPKCERequiredButMissing \<Rightarrow> redirectWithError env redirectURI state ''invalid_request'' ''PKCE required for public clients''
      | ErrInvalidCodeVerifier \<Rightarrow> redirectWithError env redirectURI state ''invalid_request'' ''code_verifier does not match challenge''
      | _ \<Rightarrow> redirectWithError env redirectURI state ''server_error'' ''internal error issuing authorization code'')"

definition mapTokenError :: "oauth_err \<Rightarrow> string \<times> string \<times> int" where
  "mapTokenError err =
     (case err of
        OAuthError code description status \<Rightarrow> (code, description, status)
      | ErrCodeNotFound \<Rightarrow> (''invalid_grant'', ''authorization grant invalid'', 400)
      | ErrCodeAlreadyConsumed \<Rightarrow> (''invalid_grant'', ''authorization grant invalid'', 400)
      | ErrInvalidRedirectURI \<Rightarrow> (''invalid_grant'', ''authorization grant invalid'', 400)
      | ErrInvalidCodeVerifier \<Rightarrow> (''invalid_grant'', ''authorization grant invalid'', 400)
      | ErrPKCERequiredButMissing \<Rightarrow> (''invalid_grant'', ''authorization grant invalid'', 400)
      | ErrRefreshTokenNotFound \<Rightarrow> (''invalid_grant'', ''authorization grant invalid'', 400)
      | ErrRefreshTokenReplay \<Rightarrow> (''invalid_grant'', ''authorization grant invalid'', 400)
      | ErrScopeNotAllowed \<Rightarrow> (''invalid_scope'', ''scope not allowed'', 400)
      | ErrContext \<Rightarrow> (''server_error'', ''request cancelled'', 503)
      | _ \<Rightarrow> (''server_error'', ''internal error issuing token'', 500))"

definition writeOAuthError :: "string \<times> string \<times> int \<Rightarrow> oauth_response" where
  "writeOAuthError e = (case e of (code, description, status) \<Rightarrow> OAuthEnvelope code description (if status = 0 then 400 else status))"

text \<open>\<open>nonce\<close> is the CSRF nonce of this rendering.\<close>

definition Authorize :: "oauth_env \<Rightarrow> oauth_db \<Rightarrow> oauth_request \<Rightarrow> string option \<Rightarrow> oauth_response" where
  "Authorize env db r nonce =
     (if oq_Method r \<noteq> ''GET'' then HttpError ''method not allowed'' 405
      else let q = oq_form r; scope = splitScopes (q ''scope''); redirectURI = q ''redirect_uri'' in
      if q ''response_type'' \<noteq> ''code'' then HttpError ''response_type must be code'' 400
      else if q ''client_id'' = [] then HttpError ''client_id required'' 400
      else case oq_user r of
          None \<Rightarrow> HttpError ''authentication required'' 401
        | Some (userID, tenantID) \<Rightarrow>
            if userID = [] \<or> tenantID = [] then HttpError ''authentication required'' 401
            else (case GetClient env db tenantID (q ''client_id'') of
                Inl _ \<Rightarrow> HttpError ''unknown or inactive client'' 400
              | Inr c \<Rightarrow>
                  if \<not> redirectURIInAllowList (cl_RedirectURIs c) redirectURI then HttpError ''redirect_uri does not match client allow-list'' 400
                  else (case find (\<lambda>sc. \<not> containsString (cl_AllowedScopes c) sc) scope of
                      Some sc \<Rightarrow> redirectWithError env redirectURI (q ''state'') ''invalid_scope'' (''scope '' @ sc @ '' not allowed for this client'')
                    | None \<Rightarrow>
                        if cl_ClientType c = ''public'' \<and> q ''code_challenge'' = []
                        then redirectWithError env redirectURI (q ''state'') ''invalid_request'' ''public clients must use PKCE''
                        else (case nonce of
                            None \<Rightarrow> HttpError ''csrf generation failed'' 500
                          | Some csrf \<Rightarrow> ConsentScreen c scope redirectURI csrf))))"

definition csrf_ok :: "oauth_request \<Rightarrow> bool" where
  "csrf_ok r \<longleftrightarrow> (case oq_csrf_cookie r of
       None \<Rightarrow> False
     | Some v \<Rightarrow> v \<noteq> [] \<and> oq_form r ''csrf_token'' \<noteq> [] \<and> v = oq_form r ''csrf_token'')"

definition Approve :: "oauth_env \<Rightarrow> oauth_service \<Rightarrow> oauth_db \<Rightarrow> time \<Rightarrow> oauth_request \<Rightarrow> string \<Rightarrow> byte list option \<Rightarrow> oauth_db \<times> oauth_response" where
  "Approve env svc db now r rid rnd =
     (if oq_Method r \<noteq> ''POST'' then (db, HttpError ''method not allowed'' 405)
      else if \<not> oq_form_ok r then (db, HttpError ''malformed form'' 400)
      else case oq_user r of
          None \<Rightarrow> (db, HttpError ''authentication required'' 401)
        | Some (userID, tenantID) \<Rightarrow>
            if userID = [] \<or> tenantID = [] then (db, HttpError ''authentication required'' 401)
            else if \<not> csrf_ok r then (db, HttpError ''csrf token mismatch'' 403)
            else let f = oq_form r; redirectURI = f ''redirect_uri''; state = f ''state'' in
              (case GetClient env db tenantID (f ''client_id'') of
                 Inl _ \<Rightarrow> (db, HttpError ''unknown or inactive client'' 400)
               | Inr c \<Rightarrow>
                   if \<not> redirectURIInAllowList (cl_RedirectURIs c) redirectURI
                   then (db, HttpError ''redirect_uri does not match client allow-list'' 400)
                   else if f ''decision'' \<noteq> ''approve'' then (db, redirectWithError env redirectURI state ''access_denied'' ''user denied consent'')
                   else (case IssueAuthorizationCode env svc db now (Some c) userID redirectURI (splitScopes (f ''scope''))
                            (f ''code_challenge'') (f ''code_challenge_method'') rid rnd of
                       (db1, Inl e) \<Rightarrow> (db1, redirectWithOAuthError env redirectURI state e)
                     | (db1, Inr code) \<Rightarrow>
                         (db1, case url_Parse env redirectURI of
                            None \<Rightarrow> HandlerPanic
                          | Some _ \<Rightarrow> RedirectTo redirectURI ([(''code'', code)] @ (if state \<noteq> [] then [(''state'', state)] else []))))))"

text \<open>The client authentication that the token and the revocation endpoint share.\<close>

definition authenticate_client :: "oauth_env \<Rightarrow> oauth_db \<Rightarrow> oauth_request \<Rightarrow> oauth_response + Client" where
  "authenticate_client env db r =
     (let (clientID, clientSecret) = (case oq_basic r of Some p \<Rightarrow> p | None \<Rightarrow> (oq_form r ''client_id'', oq_form r ''client_secret'')) in
      if clientID = [] then Inl (OAuthEnvelope ''invalid_client'' ''client_id required'' 401)
      else case LookupClientForExchange db clientID of
          Inl _ \<Rightarrow> Inl (OAuthEnvelope ''invalid_client'' ''unknown client'' 401)
        | Inr c \<Rightarrow>
            if cl_ClientType c = ''confidential'' \<and> VerifyClientSecret env db (Some c) clientSecret \<noteq> None
            then Inl (OAuthEnvelope ''invalid_client'' ''client authentication failed'' 401)
            else Inr c)"

definition token_answer :: "oauth_db \<times> (oauth_err + TokenResponse) \<Rightarrow> oauth_db \<times> oauth_response" where
  "token_answer p = (case p of (db, Inl e) \<Rightarrow> (db, writeOAuthError (mapTokenError e)) | (db, Inr resp) \<Rightarrow> (db, Tokens resp))"

definition handleAuthCodeGrant :: "oauth_env \<Rightarrow> oauth_service \<Rightarrow> oauth_db \<Rightarrow> time \<Rightarrow> oauth_request \<Rightarrow> Client \<Rightarrow> mint_rand \<Rightarrow> oauth_db \<times> oauth_response" where
  "handleAuthCodeGrant env svc db now r c m =
     (if oq_form r ''code'' = [] then (db, OAuthEnvelope ''invalid_request'' ''code required'' 400)
      else token_answer (ExchangeAuthorizationCode env svc db now (Some c) (oq_form r ''code'') (oq_form r ''redirect_uri'') (oq_form r ''code_verifier'') m))"

definition handleRefreshGrant :: "oauth_env \<Rightarrow> oauth_service \<Rightarrow> oauth_db \<Rightarrow> time \<Rightarrow> oauth_request \<Rightarrow> Client \<Rightarrow> mint_rand \<Rightarrow> oauth_db \<times> oauth_response" where
  "handleRefreshGrant env svc db now r c m =
     (if oq_form r ''refresh_token'' = [] then (db, OAuthEnvelope ''invalid_request'' ''refresh_token required'' 400)
      else token_answer (RefreshAccessToken env svc db now (Some c) (oq_form r ''refresh_token'') m))"

definition oauth_Token :: "oauth_env \<Rightarrow> oauth_service \<Rightarrow> oauth_db \<Rightarrow> time \<Rightarrow> oauth_request \<Rightarrow> mint_rand \<Rightarrow> oauth_db \<times> oauth_response" where
  "oauth_Token env svc db now r m =
     (if oq_Method r \<noteq> ''POST'' then (db, OAuthEnvelope ''invalid_request'' ''POST required'' 405)
      else if \<not> oq_form_ok r then (db, OAuthEnvelope ''invalid_request'' ''malformed form body'' 400)
      else case authenticate_client env db r of
          Inl resp \<Rightarrow> (db, resp)
        | Inr c \<Rightarrow>
            if oq_form r ''grant_type'' = ''authorization_code'' then handleAuthCodeGrant env svc db now r c m
            else if oq_form r ''grant_type'' = ''refresh_token'' then handleRefreshGrant env svc db now r c m
            else (db, OAuthEnvelope ''unsupported_grant_type'' ''grant_type must be authorization_code or refresh_token'' 400))"

definition oauth_Revoke :: "oauth_env \<Rightarrow> oauth_db \<Rightarrow> time \<Rightarrow> oauth_request \<Rightarrow> oauth_db \<times> oauth_response" where
  "oauth_Revoke env db now r =
     (if oq_Method r \<noteq> ''POST'' then (db, OAuthEnvelope ''invalid_request'' ''POST required'' 405)
      else if \<not> oq_form_ok r then (db, OAuthEnvelope ''invalid_request'' ''malformed form body'' 400)
      else case authenticate_client env db r of
          Inl resp \<Rightarrow> (db, resp)
        | Inr c \<Rightarrow>
            if oq_form r ''token'' = [] then (db, RevokeOK)
            else (case RevokeToken env db now (Some c) (oq_form r ''token'') of
                (db1, None) \<Rightarrow> (db1, RevokeOK)
              | (db1, Some (OAuthError code d st)) \<Rightarrow> (db1, writeOAuthError (code, d, st))
              | (db1, Some _) \<Rightarrow> (db1, OAuthEnvelope ''server_error'' ''revocation failed'' 500)))"

subsection \<open>The bearer-token middleware\<close>

definition extractBearerToken :: "string \<Rightarrow> string + string" where
  "extractBearerToken auth =
     (if auth = [] then Inl ''Authorization header missing''
      else case splitN2 (CHR '' '') auth of
        [scheme, rest] \<Rightarrow>
          if map ascii_lower scheme \<noteq> ''bearer'' then Inl ''Authorization header must be Bearer <token>''
          else let token = trim_space rest in if token = [] then Inl ''Bearer token empty'' else Inr token
      | _ \<Rightarrow> Inl ''Authorization header must be Bearer <token>'')"

datatype bearer_response = Challenge string string int | Serve AccessTokenContext

definition bearer_Wrap :: "oauth_env \<Rightarrow> oauth_db \<Rightarrow> time \<Rightarrow> string \<Rightarrow> bearer_response" where
  "bearer_Wrap env db now authz =
     (case extractBearerToken authz of
        Inl msg \<Rightarrow> Challenge ''invalid_request'' msg 401
      | Inr token \<Rightarrow>
          (case ValidateAccessToken env db now token of
             Inl ErrAccessTokenNotFound \<Rightarrow> Challenge ''invalid_token'' ''access token unknown, revoked, or expired'' 401
           | Inl _ \<Rightarrow> Challenge ''server_error'' ''token validation failed'' 500
           | Inr ctx \<Rightarrow> Serve ctx))"

definition RequireScope :: "oauth_env \<Rightarrow> oauth_db \<Rightarrow> time \<Rightarrow> string \<Rightarrow> string \<Rightarrow> bearer_response" where
  "RequireScope env db now requiredScope authz =
     (case bearer_Wrap env db now authz of
        Challenge e d st \<Rightarrow> Challenge e d st
      | Serve ctx \<Rightarrow>
          if \<not> HasScope ctx requiredScope
          then Challenge ''insufficient_scope'' (''token does not carry required scope '' @ requiredScope) 403
          else Serve ctx)"

definition quotedStringEscape :: "string \<Rightarrow> string" where
  "quotedStringEscape s = concat (map (\<lambda>c.
     if c = CHR 0x5C \<or> c = CHR 0x22 then [CHR 0x5C, c]
     else if c = CHR 0x09 \<or> c = CHR '' '' then [c]
     else if is_ctl c then [] else [c]) s)"

definition writeWWWAuthenticate :: "string \<Rightarrow> string \<Rightarrow> string" where
  "writeWWWAuthenticate errorCode description =
     ''Bearer realm='' @ [CHR 0x22] @ ''kmail'' @ [CHR 0x22] @ '', error='' @ [CHR 0x22] @ quotedStringEscape errorCode @ [CHR 0x22]
       @ '', error_description='' @ [CHR 0x22] @ quotedStringEscape description @ [CHR 0x22]"

end
