(* ===== verification/OAuthRuns.thy ===== *)
theory OAuthRuns
  imports OAuth
begin

text \<open>
  Safety of the authorization server of theory \<open>OAuth\<close>: refresh-token families and the recursive query that
  walks them, the invariant of the four tables and its preservation by every operation, runs of the server
  with the log of its consent form, and the properties that follow: tokens need consent, codes are
  single-use, replay kills the family, revocation is final.
\<close>

subsection \<open>Token families\<close>

text \<open>The parent relation of the refresh table; a family is what descends from one root.\<close>

definition parent_step :: "refresh_row list \<Rightarrow> string \<Rightarrow> string \<Rightarrow> bool" where
  "parent_step rows p x \<longleftrightarrow> (\<exists>r \<in> set rows. rt_parent r = Some p \<and> rt_ID r = x)"

abbreviation descends :: "refresh_row list \<Rightarrow> string \<Rightarrow> string \<Rightarrow> bool" where
  "descends rows \<equiv> (parent_step rows)\<^sup>*\<^sup>*"

definition same_family :: "refresh_row list \<Rightarrow> string \<Rightarrow> string \<Rightarrow> bool" where
  "same_family rows x y \<longleftrightarrow> (\<exists>root. descends rows root x \<and> descends rows root y)"

definition parents_first :: "refresh_row list \<Rightarrow> bool" where
  "parents_first rows \<longleftrightarrow> (\<forall>i < length rows. \<forall>p. rt_parent (rows ! i) = Some p \<longrightarrow> (\<exists>j < i. rt_ID (rows ! j) = p))"

lemma parent_step_index:
  assumes "parents_first rows" and "distinct (map rt_ID rows)" and "parent_step rows (rt_ID (rows ! j)) x" and "j < length rows"
  shows "\<exists>i < length rows. rt_ID (rows ! i) = x \<and> j < i"
proof -
  obtain i where i: "i < length rows" "rt_parent (rows ! i) = Some (rt_ID (rows ! j))" "rt_ID (rows ! i) = x"
    using assms(3) unfolding parent_step_def by (metis in_set_conv_nth)
  with assms(1) obtain j' where j': "j' < i" "rt_ID (rows ! j') = rt_ID (rows ! j)" unfolding parents_first_def by blast
  have "j' < length rows" using j'(1) i(1) by simp
  then have "j' = j" using assms(2,4) j'(2) by (metis (mono_tags, lifting) distinct_conv_nth length_map nth_map)
  with i j' show ?thesis by blast
qed

lemma generation_index:
  assumes "parents_first rows" and "distinct (map rt_ID rows)" and "(parent_step rows ^^ Suc k) w x"
  shows "\<exists>i < length rows. rt_ID (rows ! i) = x \<and> k < i"
  using assms(3)
proof (induction k arbitrary: x)
  case 0
  then have "parent_step rows w x" by auto
  then obtain r where "r \<in> set rows" "rt_parent r = Some w" "rt_ID r = x" by (auto simp: parent_step_def)
  then obtain i where "i < length rows" "rows ! i = r" by (metis in_set_conv_nth)
  with assms(1) \<open>rt_parent r = Some w\<close> \<open>rt_ID r = x\<close> show ?case unfolding parents_first_def by (metis gr_zeroI not_less_zero)
next
  case (Suc k)
  from Suc.prems obtain y where y: "(parent_step rows ^^ Suc k) w y" "parent_step rows y x" by (rule relpowp_Suc_E)
  from Suc.IH [OF y(1)] obtain j where j: "j < length rows" "rt_ID (rows ! j) = y" "k < j" by blast
  from parent_step_index [OF assms(1,2) _ j(1)] y(2) j(2) obtain i where "i < length rows" "rt_ID (rows ! i) = x" "j < i" by blast
  with j show ?case by (intro exI [of _ i]) auto
qed

lemma chain_from_sound: "x \<in> set (chain_from n rows work) \<Longrightarrow> \<exists>w \<in> set work. descends rows w x"
proof (induction n rows work rule: chain_from.induct)
  case (2 n rows work)
  let ?next = "map rt_ID (filter (\<lambda>r. \<exists>w \<in> set work. rt_parent r = Some w) rows)"
  show ?case
  proof (cases "x \<in> set work")
    case False
    with 2 have "\<exists>w \<in> set ?next. descends rows w x" by (auto split: if_splits)
    then obtain r w where "r \<in> set rows" "w \<in> set work" "rt_parent r = Some w" "descends rows (rt_ID r) x" by auto
    then show ?thesis by (meson converse_rtranclp_into_rtranclp parent_step_def)
  qed blast
qed simp

lemma chain_from_complete: "(parent_step rows ^^ k) w x \<Longrightarrow> w \<in> set work \<Longrightarrow> k < n \<Longrightarrow> x \<in> set (chain_from n rows work)"
proof (induction k arbitrary: w work n)
  case 0
  then show ?case by (cases n) auto
next
  case (Suc k)
  then obtain n' where n: "n = Suc n'" by (cases n) auto
  from Suc.prems(1) obtain y where y: "parent_step rows w y" "(parent_step rows ^^ k) y x" by (rule relpowp_Suc_E2)
  then have "y \<in> set (map rt_ID (filter (\<lambda>r. \<exists>w \<in> set work. rt_parent r = Some w) rows))"
    using Suc.prems(2) by (auto simp: parent_step_def)
  from Suc.IH [OF y(2) this, of n'] Suc.prems show ?case by (auto simp: n)
qed

text \<open>The recursive query finds exactly the descendants of its root: the fuel is never exhausted.\<close>

lemma refresh_chain_set:
  assumes "parents_first (refreshes db)" and "distinct (map rt_ID (refreshes db))" and "root \<in> rt_ID ` set (refreshes db)"
  shows "set (refresh_chain db root) = {x. descends (refreshes db) root x}"
proof
  show "set (refresh_chain db root) \<subseteq> {x. descends (refreshes db) root x}"
    using chain_from_sound by (fastforce simp: refresh_chain_def simp del: chain_from.simps)
next
  show "{x. descends (refreshes db) root x} \<subseteq> set (refresh_chain db root)"
  proof
    fix x assume "x \<in> {x. descends (refreshes db) root x}"
    then obtain k where k: "(parent_step (refreshes db) ^^ k) root x" by (auto dest: rtranclp_imp_relpowp)
    have "k < Suc (length (refreshes db))"
    proof (cases k)
      case (Suc k')
      from generation_index [OF assms(1,2) k [unfolded Suc]] obtain i where "i < length (refreshes db)" "k' < i" by blast
      with Suc show ?thesis by simp
    qed simp
    moreover have "root \<in> set (map rt_ID (filter (\<lambda>r. rt_ID r = root) (refreshes db)))" using assms(3) by auto
    ultimately show "x \<in> set (refresh_chain db root)" unfolding refresh_chain_def using chain_from_complete [OF k] by blast
  qed
qed

text \<open>With at most one child per row, of two members of a family one descends from the other.\<close>

definition single_child :: "refresh_row list \<Rightarrow> bool" where
  "single_child rows \<longleftrightarrow> (\<forall>r \<in> set rows. \<forall>r' \<in> set rows. rt_parent r \<noteq> None \<and> rt_parent r = rt_parent r' \<longrightarrow> rt_ID r = rt_ID r')"

lemma family_linear:
  assumes "single_child rows" and "descends rows root x" and "descends rows root y"
  shows "descends rows x y \<or> descends rows y x"
  using assms(2,3)
proof (induction arbitrary: y rule: rtranclp_induct)
  case (step x z)
  from step.IH [OF step.prems] show ?case
  proof
    assume "descends rows x y"
    then show ?thesis
    proof (cases rule: converse_rtranclpE)
      case base
      with step.hyps(2) show ?thesis by blast
    next
      case child: (step z')
      have "z' = z" using assms(1) child(1) step.hyps(2) unfolding parent_step_def single_child_def by (metis option.distinct(1))
      with child(2) show ?thesis by simp
    qed
  next
    assume "descends rows y x"
    with step.hyps(2) show ?thesis by (meson rtranclp.rtrancl_into_rtrancl)
  qed
qed simp

subsection \<open>The invariant of the tables\<close>

lemma revoke_refresh_simps [simp]:
  "map rt_ID (revoke_refresh now P rows) = map rt_ID rows"
  "map rt_hash (revoke_refresh now P rows) = map rt_hash rows"
  "length (revoke_refresh now P rows) = length rows"
  by (simp_all add: revoke_refresh_def comp_def if_distrib cong: if_cong)

lemma revoke_access_simps [simp]:
  "map at_hash (revoke_access now Q xs) = map at_hash xs"
  "revoke_access now Q (xs @ ys) = revoke_access now Q xs @ revoke_access now Q ys"
  by (simp_all add: revoke_access_def comp_def if_distrib cong: if_cong)

text \<open>A revoked row keeps everything but its time stamp, and time stamps are never cleared.\<close>

lemma revoke_refresh_cases:
  assumes "r' \<in> set (revoke_refresh now P rows)"
  obtains r where "r \<in> set rows" "rt_ID r' = rt_ID r" "rt_hash r' = rt_hash r" "rt_parent r' = rt_parent r" "rt_TenantID r' = rt_TenantID r"
    "rt_ClientID r' = rt_ClientID r" "rt_UserID r' = rt_UserID r" "rt_scopes r' = rt_scopes r" "rt_expires r' = rt_expires r"
    "rt_revoked r' = None \<longleftrightarrow> \<not> P r \<and> rt_revoked r = None"
  using assms by (auto simp: revoke_refresh_def split: if_splits)

lemma revoke_refresh_image:
  assumes "r \<in> set rows"
  obtains r' where "r' \<in> set (revoke_refresh now P rows)" "rt_ID r' = rt_ID r" "rt_hash r' = rt_hash r" "rt_parent r' = rt_parent r" "rt_TenantID r' = rt_TenantID r"
    "rt_ClientID r' = rt_ClientID r" "rt_UserID r' = rt_UserID r" "rt_scopes r' = rt_scopes r"
    "rt_revoked r' = None \<longleftrightarrow> \<not> P r \<and> rt_revoked r = None"
proof
  let ?f = "\<lambda>r. if P r \<and> rt_revoked r = None then r\<lparr>rt_revoked := Some now\<rparr> else r"
  show "?f r \<in> set (revoke_refresh now P rows)" using assms by (auto simp: revoke_refresh_def)
qed auto

lemma revoke_access_cases:
  assumes "a' \<in> set (revoke_access now Q xs)"
  obtains a where "a \<in> set xs" "at_hash a' = at_hash a" "at_TenantID a' = at_TenantID a" "at_ClientID a' = at_ClientID a" "at_UserID a' = at_UserID a"
    "at_scopes a' = at_scopes a" "at_refresh a' = at_refresh a" "at_revoked a' = None \<longleftrightarrow> \<not> Q a \<and> at_revoked a = None"
  using assms by (auto simp: revoke_access_def split: if_splits)

lemma parent_step_revoke [simp]: "parent_step (revoke_refresh now P rows) = parent_step rows"
proof (intro ext iffI)
  fix x y
  assume "parent_step (revoke_refresh now P rows) x y"
  then show "parent_step rows x y" unfolding parent_step_def by (metis revoke_refresh_cases)
next
  fix x y
  assume "parent_step rows x y"
  then show "parent_step (revoke_refresh now P rows) x y" unfolding parent_step_def by (metis revoke_refresh_image)
qed

lemma parents_first_revoke [simp]: "parents_first (revoke_refresh now P rows) = parents_first rows"
proof -
  have "i < length rows \<Longrightarrow> rt_parent (revoke_refresh now P rows ! i) = rt_parent (rows ! i)
      \<and> rt_ID (revoke_refresh now P rows ! i) = rt_ID (rows ! i)" for i
    by (simp add: revoke_refresh_def)
  then show ?thesis unfolding parents_first_def by (metis (no_types, lifting) order.strict_trans revoke_refresh_simps(3))
qed

lemma refresh_chain_revoke [simp]: "refresh_chain (db\<lparr>refreshes := revoke_refresh now P (refreshes db)\<rparr>) root = refresh_chain db root"
proof -
  have *: "map rt_ID (filter Q (revoke_refresh now P rows)) = map rt_ID (filter Q rows)"
    if "\<And>r t. Q (r\<lparr>rt_revoked := t\<rparr>) = Q r" for Q and rows
    by (induction rows) (auto simp: revoke_refresh_def that)
  have "chain_from n (revoke_refresh now P rows) w = chain_from n rows w" for n rows w
    by (induction n rows w rule: chain_from.induct) (simp_all add: *)
  then show ?thesis by (simp add: refresh_chain_def *)
qed

definition keys_ok :: "oauth_db \<Rightarrow> bool" where
  "keys_ok db \<longleftrightarrow> distinct (map (\<lambda>p. cl_ID (fst p)) (clients db)) \<and> distinct (map ac_hash (codes db)) \<and> distinct (map rt_ID (refreshes db))
     \<and> distinct (map rt_hash (refreshes db)) \<and> distinct (map at_hash (accesses db))"

text \<open>A rotated refresh token is revoked and has one successor, which was inserted later.\<close>

definition chain_ok :: "oauth_db \<Rightarrow> bool" where
  "chain_ok db \<longleftrightarrow> parents_first (refreshes db) \<and> single_child (refreshes db)
     \<and> (\<forall>r \<in> set (refreshes db). \<forall>q \<in> set (refreshes db). rt_parent r = Some (rt_ID q) \<longrightarrow> rt_revoked q \<noteq> None)"

text \<open>
  Every access token stems from a refresh token of the same client, user and scopes, and is live only while
  that one is; every refresh token stems from a consumed code; clients keep their tenant.
\<close>

definition backed_ok :: "oauth_db \<Rightarrow> bool" where
  "backed_ok db \<longleftrightarrow>
     (\<forall>a \<in> set (accesses db). \<exists>r \<in> set (refreshes db). rt_ID r = at_refresh a \<and> rt_TenantID r = at_TenantID a \<and> rt_ClientID r = at_ClientID a
        \<and> rt_UserID r = at_UserID a \<and> rt_scopes r = at_scopes a \<and> (at_revoked a = None \<longrightarrow> rt_revoked r = None))
     \<and> (\<forall>r \<in> set (refreshes db). \<exists>k \<in> set (codes db). ac_consumed k \<noteq> None \<and> ac_TenantID k = rt_TenantID r \<and> ac_ClientID k = rt_ClientID r
        \<and> ac_UserID k = rt_UserID r \<and> ac_scopes k = rt_scopes r)
     \<and> (\<forall>r \<in> set (refreshes db). \<exists>c \<in> fst ` set (clients db). cl_ID c = rt_ClientID r \<and> cl_TenantID c = rt_TenantID r)"

definition oauth_inv :: "oauth_db \<Rightarrow> bool" where
  "oauth_inv db \<longleftrightarrow> keys_ok db \<and> chain_ok db \<and> backed_ok db"

lemma single_child_revoke:
  assumes "single_child rows"
  shows "single_child (revoke_refresh now P rows)"
  unfolding single_child_def
proof (intro ballI impI)
  fix x y
  assume xy: "x \<in> set (revoke_refresh now P rows)" "y \<in> set (revoke_refresh now P rows)" and par: "rt_parent x \<noteq> None \<and> rt_parent x = rt_parent y"
  obtain r where r: "r \<in> set rows" "rt_ID x = rt_ID r" "rt_parent x = rt_parent r" using xy(1) by (rule revoke_refresh_cases)
  obtain q where q: "q \<in> set rows" "rt_ID y = rt_ID q" "rt_parent y = rt_parent q" using xy(2) by (rule revoke_refresh_cases)
  from assms r q par have "rt_ID r = rt_ID q" unfolding single_child_def by metis
  with r q show "rt_ID x = rt_ID y" by simp
qed

text \<open>Revoking refresh tokens together with at least their access tokens keeps the invariant.\<close>

lemma inv_revoke:
  assumes inv: "oauth_inv db" and clos: "\<And>a r. a \<in> set (accesses db) \<Longrightarrow> r \<in> set (refreshes db) \<Longrightarrow> P r \<Longrightarrow> at_refresh a = rt_ID r \<Longrightarrow> Q a"
  shows "oauth_inv (db\<lparr>refreshes := revoke_refresh now P (refreshes db), accesses := revoke_access now Q (accesses db)\<rparr>)" (is "oauth_inv ?db")
proof -
  have "keys_ok ?db" using inv by (simp add: oauth_inv_def keys_ok_def)
  moreover have "rt_revoked q' \<noteq> None"
    if "r' \<in> set (refreshes ?db)" "q' \<in> set (refreshes ?db)" "rt_parent r' = Some (rt_ID q')" for r' q'
  proof -
    from that(1) have "r' \<in> set (revoke_refresh now P (refreshes db))" by simp
    then obtain r where r: "r \<in> set (refreshes db)" "rt_parent r' = rt_parent r" by (rule revoke_refresh_cases)
    from that(2) have "q' \<in> set (revoke_refresh now P (refreshes db))" by simp
    then obtain q where q: "q \<in> set (refreshes db)" "rt_ID q' = rt_ID q" "rt_revoked q' = None \<longleftrightarrow> \<not> P q \<and> rt_revoked q = None"
      by (rule revoke_refresh_cases)
    from r q that(3) inv have "rt_revoked q \<noteq> None" by (auto simp: oauth_inv_def chain_ok_def)
    with q show ?thesis by blast
  qed
  then have "chain_ok ?db" using inv by (simp add: oauth_inv_def chain_ok_def single_child_revoke)
  moreover have "backed_ok ?db"
    unfolding backed_ok_def
  proof (intro conjI ballI)
    fix a' assume "a' \<in> set (accesses ?db)"
    then have "a' \<in> set (revoke_access now Q (accesses db))" by simp
    then obtain a where a: "a \<in> set (accesses db)" "at_TenantID a' = at_TenantID a" "at_ClientID a' = at_ClientID a" "at_UserID a' = at_UserID a"
      "at_scopes a' = at_scopes a" "at_refresh a' = at_refresh a" "at_revoked a' = None \<longleftrightarrow> \<not> Q a \<and> at_revoked a = None" by (rule revoke_access_cases)
    with inv obtain r where r: "r \<in> set (refreshes db)" "rt_ID r = at_refresh a" "rt_TenantID r = at_TenantID a" "rt_ClientID r = at_ClientID a"
      "rt_UserID r = at_UserID a" "rt_scopes r = at_scopes a" "at_revoked a = None \<longrightarrow> rt_revoked r = None" unfolding oauth_inv_def backed_ok_def by blast
    obtain r' where "r' \<in> set (revoke_refresh now P (refreshes db))" "rt_ID r' = rt_ID r" "rt_TenantID r' = rt_TenantID r" "rt_ClientID r' = rt_ClientID r"
      "rt_UserID r' = rt_UserID r" "rt_scopes r' = rt_scopes r" "rt_revoked r' = None \<longleftrightarrow> \<not> P r \<and> rt_revoked r = None" using r(1) by (rule revoke_refresh_image)
    with a r clos [OF a(1) r(1)] show "\<exists>r \<in> set (refreshes ?db). rt_ID r = at_refresh a' \<and> rt_TenantID r = at_TenantID a' \<and> rt_ClientID r = at_ClientID a'
        \<and> rt_UserID r = at_UserID a' \<and> rt_scopes r = at_scopes a' \<and> (at_revoked a' = None \<longrightarrow> rt_revoked r = None)"
      by (intro bexI [of _ r']) auto
  next
    fix r' assume "r' \<in> set (refreshes ?db)"
    then have "r' \<in> set (revoke_refresh now P (refreshes db))" by simp
    then obtain r where r: "r \<in> set (refreshes db)" "rt_TenantID r' = rt_TenantID r" "rt_ClientID r' = rt_ClientID r" "rt_UserID r' = rt_UserID r"
      "rt_scopes r' = rt_scopes r" by (rule revoke_refresh_cases)
    with inv show "\<exists>k \<in> set (codes ?db). ac_consumed k \<noteq> None \<and> ac_TenantID k = rt_TenantID r' \<and> ac_ClientID k = rt_ClientID r'
        \<and> ac_UserID k = rt_UserID r' \<and> ac_scopes k = rt_scopes r'"
      and "\<exists>c \<in> fst ` set (clients ?db). cl_ID c = rt_ClientID r' \<and> cl_TenantID c = rt_TenantID r'"
      by (simp_all add: oauth_inv_def backed_ok_def)
  qed
  ultimately show ?thesis by (simp add: oauth_inv_def)
qed

text \<open>What a successful mint inserts.\<close>

lemma mint_elim:
  assumes "mintTokensTx env svc db c u sc parent now m = Inr (db', resp)"
  obtains R A where "db' = db\<lparr>refreshes := refreshes db @ [R], accesses := accesses db @ [A]\<rparr>"
    "rt_ID R = mr_refresh_id m" "rt_TenantID R = cl_TenantID c" "rt_ClientID R = cl_ID c" "rt_UserID R = u" "rt_scopes R = sc"
    "rt_parent R = parent" "rt_revoked R = None" "rt_expires R = now + os_refreshTokenTTL svc" "rt_hash R = hashToken env (tr_RefreshToken resp)"
    "at_TenantID A = cl_TenantID c" "at_ClientID A = cl_ID c" "at_UserID A = u" "at_scopes A = sc" "at_refresh A = mr_refresh_id m" "at_revoked A = None"
    "at_expires A = now + os_accessTokenTTL svc" "at_hash A = hashToken env (tr_AccessToken resp)"
    "mr_refresh_id m \<notin> rt_ID ` set (refreshes db)" "rt_hash R \<notin> rt_hash ` set (refreshes db)" "at_hash A \<notin> at_hash ` set (accesses db)"
    "tr_Scope resp = joinScopes sc" "tr_TokenType resp = ''Bearer''" "tr_ExpiresIn resp = quot (os_accessTokenTTL svc) nanos_per_s"
proof -
  obtain pa pr where ok: "generateOpaqueToken (mr_access m) = Some pa" "generateOpaqueToken (mr_refresh m) = Some pr"
    using assms by (auto simp: mintTokensTx_def split: option.splits)
  note res = assms [unfolded mintTokensTx_def ok Let_def option.case]
  show thesis using res
    by (intro that [where R = "\<lparr>rt_ID = mr_refresh_id m, rt_TenantID = cl_TenantID c, rt_ClientID = cl_ID c, rt_UserID = u,
        rt_hash = hashToken env pr, rt_scopes = sc, rt_parent = parent, rt_expires = now + os_refreshTokenTTL svc, rt_revoked = None\<rparr>"
        and A = "\<lparr>at_ID = mr_access_id m, at_TenantID = cl_TenantID c, at_ClientID = cl_ID c, at_UserID = u,
        at_hash = hashToken env pa, at_scopes = sc, at_expires = now + os_accessTokenTTL svc, at_revoked = None, at_refresh = mr_refresh_id m\<rparr>"])
      (auto simp: list_ex_iff split: if_splits)
qed

lemma inv_mint:
  assumes inv: "oauth_inv db" and run: "mintTokensTx env svc db c u sc parent now m = Inr (db', resp)"
    and cl: "\<exists>c' \<in> fst ` set (clients db). cl_ID c' = cl_ID c \<and> cl_TenantID c' = cl_TenantID c"
    and code: "\<exists>k \<in> set (codes db). ac_consumed k \<noteq> None \<and> ac_TenantID k = cl_TenantID c \<and> ac_ClientID k = cl_ID c \<and> ac_UserID k = u \<and> ac_scopes k = sc"
    and par: "\<And>p. parent = Some p \<Longrightarrow> p \<in> rt_ID ` set (refreshes db) \<and> (\<forall>q \<in> set (refreshes db). rt_ID q = p \<longrightarrow> rt_revoked q \<noteq> None)
      \<and> (\<forall>r \<in> set (refreshes db). rt_parent r \<noteq> Some p)"
  shows "oauth_inv db'"
proof -
  obtain R A where db': "db' = db\<lparr>refreshes := refreshes db @ [R], accesses := accesses db @ [A]\<rparr>"
    and R: "rt_ID R = mr_refresh_id m" "rt_TenantID R = cl_TenantID c" "rt_ClientID R = cl_ID c" "rt_UserID R = u" "rt_scopes R = sc" "rt_parent R = parent" "rt_revoked R = None"
    and A: "at_TenantID A = cl_TenantID c" "at_ClientID A = cl_ID c" "at_UserID A = u" "at_scopes A = sc" "at_refresh A = mr_refresh_id m"
    and fresh: "mr_refresh_id m \<notin> rt_ID ` set (refreshes db)" "rt_hash R \<notin> rt_hash ` set (refreshes db)" "at_hash A \<notin> at_hash ` set (accesses db)"
    using run by (rule mint_elim)
  have "keys_ok db'" using inv fresh R(1) by (auto simp: oauth_inv_def keys_ok_def db')
  moreover have first: "parents_first (refreshes db @ [R])"
    unfolding parents_first_def
  proof (intro allI impI)
    fix i p
    assume i: "i < length (refreshes db @ [R])" and p: "rt_parent ((refreshes db @ [R]) ! i) = Some p"
    show "\<exists>j < i. rt_ID ((refreshes db @ [R]) ! j) = p"
    proof (cases "i < length (refreshes db)")
      case True
      with inv p obtain j where "j < i" "rt_ID (refreshes db ! j) = p"
        by (auto simp: oauth_inv_def chain_ok_def parents_first_def nth_append)
      with True show ?thesis by (intro exI [of _ j]) (simp add: nth_append)
    next
      case False
      with i p R(6) have ip: "i = length (refreshes db)" "parent = Some p" by (auto simp: nth_append less_Suc_eq)
      with par obtain q where "q \<in> set (refreshes db)" "rt_ID q = p" by auto
      then obtain j where "j < length (refreshes db)" "refreshes db ! j = q" by (metis in_set_conv_nth)
      with ip \<open>rt_ID q = p\<close> show ?thesis by (intro exI [of _ j]) (simp add: nth_append)
    qed
  qed
  have sc: "single_child (refreshes db)" using inv by (simp add: oauth_inv_def chain_ok_def)
  have "single_child (refreshes db @ [R])"
    unfolding single_child_def
  proof (intro ballI impI)
    fix r r'
    assume m: "r \<in> set (refreshes db @ [R])" "r' \<in> set (refreshes db @ [R])" and e: "rt_parent r \<noteq> None \<and> rt_parent r = rt_parent r'"
    from e obtain p where p: "rt_parent r = Some p" "rt_parent r' = Some p" by (metis option.exhaust)
    consider "r = R" "r' = R" | "r = R" "r' \<in> set (refreshes db)" | "r \<in> set (refreshes db)" "r' = R" | "r \<in> set (refreshes db)" "r' \<in> set (refreshes db)"
      using m by auto
    then show "rt_ID r = rt_ID r'"
    proof cases
      case 4
      with sc e show ?thesis unfolding single_child_def by blast
    qed (use p par [of p] R(6) in auto)
  qed
  moreover have "rt_revoked q \<noteq> None" if "r \<in> set (refreshes db @ [R])" "q \<in> set (refreshes db @ [R])" "rt_parent r = Some (rt_ID q)" for r q
  proof (cases "r = R")
    case True
    with that(3) R(6) have pq: "parent = Some (rt_ID q)" by simp
    then have "rt_ID q \<in> rt_ID ` set (refreshes db)" using par by blast
    then have "q \<noteq> R" using fresh(1) R(1) by metis
    with that(2) par [OF pq] show ?thesis by simp
  next
    case False
    then have r: "r \<in> set (refreshes db)" using that(1) by simp
    then obtain i where "i < length (refreshes db)" "refreshes db ! i = r" by (metis in_set_conv_nth)
    with inv that(3) obtain j where "j < i" "rt_ID (refreshes db ! j) = rt_ID q" unfolding oauth_inv_def chain_ok_def parents_first_def by blast
    with \<open>i < length (refreshes db)\<close> have "rt_ID q \<in> rt_ID ` set (refreshes db)" by (metis image_eqI nth_mem order.strict_trans)
    then have "q \<noteq> R" using fresh(1) R(1) by metis
    then have "q \<in> set (refreshes db)" using that(2) by simp
    with r that(3) inv show ?thesis by (simp add: oauth_inv_def chain_ok_def)
  qed
  ultimately have "chain_ok db'" using first by (simp add: chain_ok_def db')
  moreover have "backed_ok db'" using inv cl code R A unfolding oauth_inv_def backed_ok_def db' by auto
  ultimately show ?thesis using \<open>keys_ok db'\<close> by (simp add: oauth_inv_def)
qed

text \<open>Consuming codes keeps the invariant, and so does whatever only adds clients or codes or deactivates a client.\<close>

definition consume :: "time \<Rightarrow> (auth_code \<Rightarrow> bool) \<Rightarrow> auth_code list \<Rightarrow> auth_code list" where
  "consume now P = map (\<lambda>b. if P b then b\<lparr>ac_consumed := Some now\<rparr> else b)"

lemma inv_consume:
  assumes "oauth_inv db"
  shows "oauth_inv (db\<lparr>codes := consume now P (codes db)\<rparr>)" (is "oauth_inv ?db")
proof -
  have "map ac_hash (consume now P (codes db)) = map ac_hash (codes db)" by (simp add: consume_def comp_def if_distrib cong: if_cong)
  then have "keys_ok ?db" using assms by (simp add: oauth_inv_def keys_ok_def)
  moreover have "\<exists>k' \<in> set (consume now P (codes db)). ac_consumed k' \<noteq> None \<and> ac_TenantID k' = ac_TenantID k \<and> ac_ClientID k' = ac_ClientID k
      \<and> ac_UserID k' = ac_UserID k \<and> ac_scopes k' = ac_scopes k" if "k \<in> set (codes db)" "ac_consumed k \<noteq> None" for k
    using that by (intro bexI [of _ "if P k then k\<lparr>ac_consumed := Some now\<rparr> else k"]) (auto simp: consume_def)
  then have "backed_ok ?db" using assms unfolding oauth_inv_def backed_ok_def by simp metis
  ultimately show ?thesis using assms by (simp add: oauth_inv_def chain_ok_def)
qed

text \<open>What no operation undoes: consumed codes stay consumed, revoked tokens stay revoked.\<close>

definition keeps :: "oauth_db \<Rightarrow> oauth_db \<Rightarrow> bool" where
  "keeps db db' \<longleftrightarrow> stays (\<lambda>k. ac_consumed k \<noteq> None) ac_hash (codes db) (codes db')
     \<and> stays (\<lambda>a. at_revoked a \<noteq> None) at_hash (accesses db) (accesses db')
     \<and> stays (\<lambda>r. rt_revoked r \<noteq> None) rt_hash (refreshes db) (refreshes db')"

lemma keeps_refl [simp]: "keeps db db"
  by (simp add: keeps_def)

lemma keeps_trans: "keeps a b \<Longrightarrow> keeps b c \<Longrightarrow> keeps a c"
  unfolding keeps_def by (blast intro: stays_trans)

lemma keeps_revoke: "keeps db (db\<lparr>refreshes := revoke_refresh now P (refreshes db), accesses := revoke_access now' Q (accesses db)\<rparr>)"
  by (auto simp: keeps_def revoke_refresh_def revoke_access_def intro!: stays_map)

lemma keeps_mint: "mintTokensTx env svc db c u sc parent now m = Inr (db', resp) \<Longrightarrow> keeps db db'"
  by (erule mint_elim) (simp add: keeps_def)

lemma keeps_consume: "keeps db (db\<lparr>codes := consume now P (codes db)\<rparr>)"
  by (auto simp: keeps_def consume_def intro!: stays_map)

subsection \<open>The operations keep the invariant\<close>

lemma authenticated_client: "authenticate_client env db r = Inr c \<Longrightarrow> c \<in> fst ` set (clients db)"
proof -
  assume "authenticate_client env db r = Inr c"
  then obtain i where "LookupClientForExchange db i = Inr c" by (auto simp: authenticate_client_def Let_def split: if_splits sum.splits prod.splits)
  then obtain h where "find (\<lambda>(c, _). cl_ClientID c = i \<and> cl_Active c) (clients db) = Some (c, h)"
    by (auto simp: LookupClientForExchange_def split: if_splits option.splits)
  then show ?thesis by (auto dest!: find_SomeD intro: rev_image_eqI)
qed

text \<open>A successful exchange, taken apart.\<close>

lemma exchange_elim:
  assumes "ExchangeAuthorizationCode env svc db now (Some c) code uri ver m = (db', Inr resp)"
  obtains a where "a \<in> set (codes db)" "claimable_code (hashToken env code) now a" "ac_ClientID a = cl_ID c" "ac_TenantID a = cl_TenantID c" "ac_redirect a = uri"
    "\<forall>ch. ac_challenge a = Some ch \<and> ch \<noteq> [] \<longrightarrow> ver \<noteq> [] \<and> verifyPKCE env ch ver (case ac_method a of None \<Rightarrow> ''plain'' | Some meth \<Rightarrow> meth)"
    "cl_ClientType c = ''public'' \<longrightarrow> (\<exists>ch. ac_challenge a = Some ch \<and> ch \<noteq> [])"
    "mintTokensTx env svc (db\<lparr>codes := consume now (claimable_code (hashToken env code) now) (codes db)\<rparr>) c (ac_UserID a) (ac_scopes a) None now m = Inr (db', resp)"
proof -
  let ?h = "hashToken env code"
  from assms obtain a where a: "find (claimable_code ?h now) (codes db) = Some a"
    by (auto simp: ExchangeAuthorizationCode_def Let_def split: option.splits)
  have "a \<in> set (codes db)" "claimable_code ?h now a" using a by (auto simp: find_Some_iff)
  with assms a show thesis
    by (intro that [of a]) (auto simp: ExchangeAuthorizationCode_def Let_def consume_def split: if_splits option.splits sum.splits)
qed

lemma exchange_failed: "ExchangeAuthorizationCode env svc db now c code uri ver m = (db', Inl e) \<Longrightarrow> db' = db"
  by (auto simp: ExchangeAuthorizationCode_def Let_def split: if_splits option.splits sum.splits)

lemma exchange_inv:
  assumes inv: "oauth_inv db" and cl: "c \<in> fst ` set (clients db)"
    and run: "ExchangeAuthorizationCode env svc db now (Some c) code uri ver m = (db', res)"
  shows "oauth_inv db' \<and> keeps db db'"
proof (cases res)
  case (Inl e)
  with run inv exchange_failed show ?thesis by fastforce
next
  case (Inr resp)
  let ?P = "claimable_code (hashToken env code) now"
  from run Inr obtain a where a: "a \<in> set (codes db)" "?P a" "ac_ClientID a = cl_ID c" "ac_TenantID a = cl_TenantID c"
    and mint: "mintTokensTx env svc (db\<lparr>codes := consume now ?P (codes db)\<rparr>) c (ac_UserID a) (ac_scopes a) None now m = Inr (db', resp)"
    by (auto elim: exchange_elim)
  have "a\<lparr>ac_consumed := Some now\<rparr> \<in> set (consume now ?P (codes db))" using a by (auto simp: consume_def intro!: rev_image_eqI)
  then have "oauth_inv db'"
    using a(3,4) cl by (intro inv_mint [OF inv_consume [OF inv] mint]) (auto intro!: bexI [of _ "a\<lparr>ac_consumed := Some now\<rparr>"])
  with keeps_trans [OF keeps_consume keeps_mint [OF mint]] show ?thesis by blast
qed

text \<open>A successful refresh, taken apart: the claimed token is revoked with its access tokens and a successor is minted.\<close>

lemma refresh_elim:
  assumes "RefreshAccessToken env svc db now (Some c) tok m = (db', Inr resp)"
  obtains r db2 where "r \<in> set (refreshes db)" "rt_hash r = hashToken env tok" "rt_revoked r = None" "rt_expires r > now" "rt_ClientID r = cl_ID c"
    "mintTokensTx env svc (db\<lparr>refreshes := revoke_refresh now (\<lambda>x. rt_hash x = hashToken env tok \<and> rt_expires x > now) (refreshes db)\<rparr>)
       c (rt_UserID r) (rt_scopes r) (Some (rt_ID r)) now m = Inr (db2, resp)"
    "db' = db2\<lparr>accesses := revoke_access now (\<lambda>a. at_refresh a = rt_ID r) (accesses db2)\<rparr>"
proof -
  let ?P = "\<lambda>r. rt_hash r = hashToken env tok \<and> rt_revoked r = None \<and> rt_expires r > now"
  from assms obtain r where r: "find ?P (refreshes db) = Some r"
    by (auto simp: RefreshAccessToken_def Let_def split: option.splits if_splits)
  with find_SomeD [OF r] assms show thesis
    by (auto simp: RefreshAccessToken_def Let_def split: if_splits sum.splits intro: that)
qed

text \<open>The same state, reached by revoking first and minting afterwards.\<close>

lemma mint_after_revoke:
  assumes "mintTokensTx env svc (db\<lparr>refreshes := rs\<rparr>) c u sc parent now m = Inr (db2, resp)" and "mr_refresh_id m \<noteq> i"
  shows "mintTokensTx env svc (db\<lparr>refreshes := rs, accesses := revoke_access now (\<lambda>a. at_refresh a = i) (accesses db)\<rparr>) c u sc parent now m
    = Inr (db2\<lparr>accesses := revoke_access now (\<lambda>a. at_refresh a = i) (accesses db2)\<rparr>, resp)"
proof -
  have ex: "list_ex (\<lambda>a. at_ID a = x \<or> at_hash a = h) (revoke_access now Q xs) = list_ex (\<lambda>a. at_ID a = x \<or> at_hash a = h) xs" for x h Q xs
    by (induction xs) (auto simp: revoke_access_def)
  have one: "revoke_access now Q [A] = [A]" if "\<not> Q A" for Q A using that by (simp add: revoke_access_def)
  show ?thesis using assms
    by (auto simp: mintTokensTx_def Let_def ex one split: option.splits if_splits)
qed

lemma claimed_unique:
  assumes "keys_ok db" and "r \<in> set (refreshes db)" and "rt_hash r = h" and "rt_expires r > now"
  shows "revoke_refresh now (\<lambda>x. rt_hash x = h \<and> rt_expires x > now) (refreshes db) = revoke_refresh now (\<lambda>x. rt_ID x = rt_ID r) (refreshes db)"
  unfolding revoke_refresh_def
proof (intro map_cong refl)
  fix x assume x: "x \<in> set (refreshes db)"
  have "rt_hash x = h \<longleftrightarrow> x = r" "rt_ID x = rt_ID r \<longleftrightarrow> x = r"
    using assms x distinct_map_eq [of rt_hash "refreshes db" x r] distinct_map_eq [of rt_ID "refreshes db" x r] by (auto simp: keys_ok_def)
  then show "(if (rt_hash x = h \<and> rt_expires x > now) \<and> rt_revoked x = None then x\<lparr>rt_revoked := Some now\<rparr> else x)
    = (if rt_ID x = rt_ID r \<and> rt_revoked x = None then x\<lparr>rt_revoked := Some now\<rparr> else x)" using assms(4) by auto
qed

lemma refresh_success:
  assumes inv: "oauth_inv db" and cl: "c \<in> fst ` set (clients db)" and run: "RefreshAccessToken env svc db now (Some c) tok m = (db', Inr resp)"
  shows "oauth_inv db' \<and> keeps db db'"
proof -
  from run obtain r db2 where r: "r \<in> set (refreshes db)" "rt_hash r = hashToken env tok" "rt_revoked r = None" "rt_expires r > now" "rt_ClientID r = cl_ID c"
    and mint: "mintTokensTx env svc (db\<lparr>refreshes := revoke_refresh now (\<lambda>x. rt_hash x = hashToken env tok \<and> rt_expires x > now) (refreshes db)\<rparr>)
       c (rt_UserID r) (rt_scopes r) (Some (rt_ID r)) now m = Inr (db2, resp)"
    and db': "db' = db2\<lparr>accesses := revoke_access now (\<lambda>a. at_refresh a = rt_ID r) (accesses db2)\<rparr>" by (rule refresh_elim)
  have keys: "keys_ok db" using inv by (simp add: oauth_inv_def)
  note mint = mint [unfolded claimed_unique [OF keys r(1,2,4)]]
  let ?P = "\<lambda>x. rt_ID x = rt_ID r" and ?Q = "\<lambda>a. at_refresh a = rt_ID r"
  define d where "d = db\<lparr>refreshes := revoke_refresh now ?P (refreshes db), accesses := revoke_access now ?Q (accesses db)\<rparr>"
  have "rt_ID r \<in> set (map rt_ID (refreshes db))" using r(1) by simp
  then have "rt_ID r \<in> rt_ID ` set (revoke_refresh now ?P (refreshes db))" by (metis revoke_refresh_simps(1) set_map)
  moreover have "mr_refresh_id m \<notin> rt_ID ` set (revoke_refresh now ?P (refreshes db))" using mint by (rule mint_elim) simp
  ultimately have "mr_refresh_id m \<noteq> rt_ID r" by metis
  with mint_after_revoke [OF mint] have mint': "mintTokensTx env svc d c (rt_UserID r) (rt_scopes r) (Some (rt_ID r)) now m = Inr (db', resp)"
    by (simp add: d_def db')
  have invd: "oauth_inv d" unfolding d_def by (rule inv_revoke [OF inv]) simp
  obtain c' where c': "c' \<in> fst ` set (clients db)" "cl_ID c' = rt_ClientID r" "cl_TenantID c' = rt_TenantID r"
    using inv r(1) unfolding oauth_inv_def backed_ok_def by blast
  have tenant: "rt_TenantID r = cl_TenantID c"
  proof -
    obtain p where p: "p \<in> set (clients db)" "c' = fst p" using c'(1) by (rule imageE)
    obtain q where q: "q \<in> set (clients db)" "c = fst q" using cl by (rule imageE)
    have "distinct (map (\<lambda>p. cl_ID (fst p)) (clients db))" using keys by (simp add: keys_ok_def)
    from distinct_map_eq [OF this p(1) q(1)] p q c'(2) r(5) have "p = q" by simp
    with p q c'(3) show ?thesis by simp
  qed
  have "oauth_inv db'"
  proof (rule inv_mint [OF invd mint'])
    show "\<exists>c' \<in> fst ` set (clients d). cl_ID c' = cl_ID c \<and> cl_TenantID c' = cl_TenantID c" using cl by (auto simp: d_def)
    show "\<exists>k \<in> set (codes d). ac_consumed k \<noteq> None \<and> ac_TenantID k = cl_TenantID c \<and> ac_ClientID k = cl_ID c \<and> ac_UserID k = rt_UserID r \<and> ac_scopes k = rt_scopes r"
    proof -
      obtain k where "k \<in> set (codes db)" "ac_consumed k \<noteq> None" "ac_TenantID k = rt_TenantID r" "ac_ClientID k = rt_ClientID r" "ac_UserID k = rt_UserID r" "ac_scopes k = rt_scopes r"
        using inv r(1) unfolding oauth_inv_def backed_ok_def by blast
      with tenant r(5) show ?thesis by (intro bexI [of _ k]) (simp_all add: d_def)
    qed
    fix p assume "Some (rt_ID r) = Some p"
    then have p: "p = rt_ID r" by simp
    have "rt_revoked q \<noteq> None" if "q \<in> set (refreshes d)" "rt_ID q = p" for q
      using that p by (auto simp: d_def revoke_refresh_def split: if_splits)
    moreover have "rt_parent q' \<noteq> Some p" if q': "q' \<in> set (refreshes d)" for q'
    proof
      assume par: "rt_parent q' = Some p"
      from q' have "q' \<in> set (revoke_refresh now ?P (refreshes db))" by (simp add: d_def)
      then obtain q where "q \<in> set (refreshes db)" "rt_parent q' = rt_parent q" by (rule revoke_refresh_cases)
      with par p r(1) inv have "rt_revoked r \<noteq> None" unfolding oauth_inv_def chain_ok_def by metis
      with r(3) show False by simp
    qed
    moreover have "p \<in> rt_ID ` set (refreshes d)" using \<open>rt_ID r \<in> rt_ID ` set (revoke_refresh now ?P (refreshes db))\<close> by (simp add: p d_def)
    ultimately show "p \<in> rt_ID ` set (refreshes d) \<and> (\<forall>q \<in> set (refreshes d). rt_ID q = p \<longrightarrow> rt_revoked q \<noteq> None) \<and> (\<forall>r \<in> set (refreshes d). rt_parent r \<noteq> Some p)"
      by blast
  qed
  moreover have "keeps db d" unfolding d_def by (rule keeps_revoke)
  ultimately show ?thesis using keeps_trans keeps_mint [OF mint'] by blast
qed

lemma revoke_chain_eq:
  "revokeRefreshChain db now i = db\<lparr>refreshes := revoke_refresh now (\<lambda>r. rt_ID r \<in> set (refresh_chain db i)) (refreshes db),
     accesses := revoke_access now (\<lambda>a. at_refresh a \<in> set (refresh_chain db i)) (accesses db)\<rparr>"
  by (simp add: revokeRefreshChain_def Let_def)

lemma refresh_failed:
  assumes "RefreshAccessToken env svc db now c tok m = (db', Inl e)"
  shows "db' = db \<or> (\<exists>i. db' = revokeRefreshChain db now i)"
  using assms by (auto simp: RefreshAccessToken_def Let_def split: option.splits if_splits sum.splits)

lemma refresh_inv:
  assumes inv: "oauth_inv db" and cl: "c \<in> fst ` set (clients db)" and run: "RefreshAccessToken env svc db now (Some c) tok m = (db', res)"
  shows "oauth_inv db' \<and> keeps db db'"
proof (cases res)
  case (Inl e)
  have "oauth_inv (revokeRefreshChain db now i)" for i unfolding revoke_chain_eq by (rule inv_revoke [OF inv]) simp
  moreover have "keeps db (revokeRefreshChain db now i)" for i unfolding revoke_chain_eq by (rule keeps_revoke)
  ultimately show ?thesis using refresh_failed [of env svc db now "Some c" tok m db' e] run Inl inv by auto
next
  case (Inr resp)
  with refresh_success [OF inv cl] run show ?thesis by blast
qed

lemma revoke_token_inv:
  assumes inv: "oauth_inv db" and run: "RevokeToken env db now c tok = (db', res)"
  shows "oauth_inv db' \<and> keeps db db'"
proof -
  have 1: "oauth_inv (db\<lparr>accesses := revoke_access now Q (accesses db)\<rparr>) \<and> keeps db (db\<lparr>accesses := revoke_access now Q (accesses db)\<rparr>)" for Q
  proof -
    have "revoke_refresh now (\<lambda>r. False) (refreshes db) = refreshes db" by (simp add: revoke_refresh_def)
    with inv_revoke [OF inv, where P = "\<lambda>r. False" and Q = Q and now = now] keeps_revoke [where db = db and now = now and P = "\<lambda>r. False" and now' = now and Q = Q]
    show ?thesis by simp
  qed
  have 2: "oauth_inv (db\<lparr>refreshes := revoke_refresh now (\<lambda>x. rt_ID x = i) (refreshes db), accesses := revoke_access now (\<lambda>a. at_refresh a = i) (accesses db)\<rparr>)" for i
    by (rule inv_revoke [OF inv]) simp
  show ?thesis using run inv
    by (auto simp: RevokeToken_def Let_def 1 2 keeps_revoke split: option.splits if_splits)
qed

lemma issue_elim:
  assumes "IssueAuthorizationCode env svc db now (Some c) userID uri scopes ch meth rid rnd = (db', Inr code)"
  obtains a uid where "db' = db\<lparr>codes := codes db @ [a]\<rparr>" "ac_hash a = hashToken env code" "ac_hash a \<notin> ac_hash ` set (codes db)"
    "ac_TenantID a = cl_TenantID c" "ac_ClientID a = cl_ID c" "oe_uuid env userID = Some uid" "ac_UserID a = uid" "ac_redirect a = uri" "ac_scopes a = scopes"
    "ac_consumed a = None" "ac_expires a = now + os_codeTTL svc" "uri \<in> set (cl_RedirectURIs c)" "set scopes \<subseteq> set (cl_AllowedScopes c)"
    "cl_ClientType c = ''public'' \<longrightarrow> ac_challenge a \<noteq> None"
proof -
  from assms obtain uid where "oe_uuid env userID = Some uid" by (auto simp: IssueAuthorizationCode_def split: if_splits option.splits)
  with assms show thesis
    by (auto simp: IssueAuthorizationCode_def insert_code_def list_all_iff list_ex_iff split: if_splits option.splits intro!: that)
qed

lemma issue_failed: "IssueAuthorizationCode env svc db now c userID uri scopes ch meth rid rnd = (db', Inl e) \<Longrightarrow> db' = db"
  by (auto simp: IssueAuthorizationCode_def split: if_splits option.splits)

lemma inv_add_code:
  assumes "oauth_inv db" and "ac_hash a \<notin> ac_hash ` set (codes db)"
  shows "oauth_inv (db\<lparr>codes := codes db @ [a]\<rparr>)"
  using assms unfolding oauth_inv_def keys_ok_def chain_ok_def backed_ok_def by (auto 0 3)

lemma inv_add_client:
  assumes "oauth_inv db" and "cl_ID c \<notin> (\<lambda>p. cl_ID (fst p)) ` set (clients db)"
  shows "oauth_inv (db\<lparr>clients := clients db @ [(c, h)]\<rparr>)"
proof -
  have "keys_ok (db\<lparr>clients := clients db @ [(c, h)]\<rparr>)" using assms by (auto simp: oauth_inv_def keys_ok_def)
  moreover have "backed_ok (db\<lparr>clients := clients db @ [(c, h)]\<rparr>)" using assms(1) unfolding oauth_inv_def backed_ok_def by auto
  ultimately show ?thesis using assms by (simp add: oauth_inv_def chain_ok_def)
qed

text \<open>An operator deactivates a client: \<^verbatim>\<open>UPDATE oauth_clients SET active = false\<close>.\<close>

definition deactivate :: "string \<Rightarrow> oauth_db \<Rightarrow> oauth_db" where
  "deactivate i db = db\<lparr>clients := map (\<lambda>(c, h). (if cl_ID c = i then c\<lparr>cl_Active := False\<rparr> else c, h)) (clients db)\<rparr>"

lemma deactivate_frame:
  "codes (deactivate i db) = codes db" "refreshes (deactivate i db) = refreshes db" "accesses (deactivate i db) = accesses db"
  by (simp_all add: deactivate_def)

lemma inv_deactivate:
  assumes "oauth_inv db"
  shows "oauth_inv (deactivate i db)"
proof -
  let ?f = "\<lambda>c. if cl_ID c = i then c\<lparr>cl_Active := False\<rparr> else c"
  have cl: "clients (deactivate i db) = map (\<lambda>(c, h). (?f c, h)) (clients db)" by (simp add: deactivate_def)
  have "map (\<lambda>p. cl_ID (fst p)) (clients (deactivate i db)) = map (\<lambda>p. cl_ID (fst p)) (clients db)"
    unfolding cl by (simp add: case_prod_beta)
  then have "keys_ok (deactivate i db)" using assms unfolding oauth_inv_def keys_ok_def by (metis deactivate_frame)
  moreover have "\<exists>c' \<in> fst ` set (clients (deactivate i db)). cl_ID c' = cl_ID c \<and> cl_TenantID c' = cl_TenantID c" if "c \<in> fst ` set (clients db)" for c
    using that unfolding cl by (intro bexI [of _ "?f c"]) (auto intro!: image_eqI)
  then have "backed_ok (deactivate i db)" using assms unfolding oauth_inv_def backed_ok_def
    unfolding deactivate_frame by metis
  ultimately show ?thesis using assms by (simp add: oauth_inv_def chain_ok_def deactivate_frame)
qed

subsection \<open>Runs of the server\<close>

text \<open>
  The server together with the log of its consent form: every approval request with its answer. Requests of
  any client and any user arrive in any order; clocks are not assumed to advance.
\<close>

record oauth_run =
  run_db :: oauth_db
  run_log :: "(oauth_request \<times> oauth_response) list"

inductive oauth_step :: "oauth_env \<Rightarrow> oauth_service \<Rightarrow> oauth_run \<Rightarrow> oauth_run \<Rightarrow> bool" for env svc where
  registration: "RegisterClient env (run_db s) now t req rid idr sec = (db', res) \<Longrightarrow> oauth_step env svc s (s\<lparr>run_db := db'\<rparr>)"
| approval: "Approve env svc (run_db s) now r rid rnd = (db', resp) \<Longrightarrow> oauth_step env svc s (s\<lparr>run_db := db', run_log := run_log s @ [(r, resp)]\<rparr>)"
| token: "oauth_Token env svc (run_db s) now r m = (db', resp) \<Longrightarrow> oauth_step env svc s (s\<lparr>run_db := db'\<rparr>)"
| revocation: "oauth_Revoke env (run_db s) now r = (db', resp) \<Longrightarrow> oauth_step env svc s (s\<lparr>run_db := db'\<rparr>)"
| deactivation: "oauth_step env svc s (s\<lparr>run_db := deactivate i (run_db s)\<rparr>)"

inductive_cases oauth_stepE: "oauth_step env svc s s'"

definition oauth_init :: "string list \<Rightarrow> string list \<Rightarrow> oauth_run" where
  "oauth_init ts us = \<lparr>run_db = \<lparr>tenants = ts, users = us, clients = [], codes = [], refreshes = [], accesses = []\<rparr>, run_log = []\<rparr>"

abbreviation oauth_runs :: "oauth_env \<Rightarrow> oauth_service \<Rightarrow> oauth_run \<Rightarrow> oauth_run \<Rightarrow> bool" where
  "oauth_runs env svc \<equiv> (oauth_step env svc)\<^sup>*\<^sup>*"

text \<open>The redirect URIs that clients registered.\<close>

definition uris_ok :: "oauth_env \<Rightarrow> oauth_db \<Rightarrow> bool" where
  "uris_ok env db \<longleftrightarrow> (\<forall>p \<in> set (clients db). \<forall>u \<in> set (cl_RedirectURIs (fst p)). validateRedirectURI env u)"

text \<open>An approved consent: what its request says of the code that it created.\<close>

definition consent_form :: "oauth_env \<Rightarrow> oauth_request \<Rightarrow> oauth_response \<Rightarrow> auth_code \<Rightarrow> bool" where
  "consent_form env r resp a \<longleftrightarrow>
     (\<exists>code ps. resp = RedirectTo (ac_redirect a) ((''code'', code) # ps) \<and> hashToken env code = ac_hash a)
     \<and> csrf_ok r \<and> oq_form r ''decision'' = ''approve'' \<and> oq_form r ''redirect_uri'' = ac_redirect a
     \<and> (\<exists>u t. oq_user r = Some (u, t) \<and> oe_uuid env u = Some (ac_UserID a) \<and> oe_uuid env t = Some (ac_TenantID a))
     \<and> ac_scopes a = splitScopes (oq_form r ''scope'')"

definition consent_client :: "oauth_db \<Rightarrow> oauth_request \<Rightarrow> auth_code \<Rightarrow> bool" where
  "consent_client db r a \<longleftrightarrow> (\<exists>c \<in> fst ` set (clients db). cl_ID c = ac_ClientID a \<and> cl_ClientID c = oq_form r ''client_id''
     \<and> set (ac_scopes a) \<subseteq> set (cl_AllowedScopes c) \<and> ac_redirect a \<in> set (cl_RedirectURIs c))"

definition consented :: "oauth_env \<Rightarrow> oauth_run \<Rightarrow> auth_code \<Rightarrow> bool" where
  "consented env s a \<longleftrightarrow> (\<exists>(r, resp) \<in> set (run_log s). consent_form env r resp a \<and> consent_client (run_db s) r a)"

definition run_inv :: "oauth_env \<Rightarrow> oauth_run \<Rightarrow> bool" where
  "run_inv env s \<longleftrightarrow> oauth_inv (run_db s) \<and> uris_ok env (run_db s)
     \<and> (\<forall>a \<in> set (codes (run_db s)). consented env s a)"

text \<open>What a consent says does not depend on the code being consumed, nor on clients being added or deactivated.\<close>

definition same_clients :: "oauth_db \<Rightarrow> oauth_db \<Rightarrow> bool" where
  "same_clients db db' \<longleftrightarrow> (\<forall>c \<in> fst ` set (clients db). \<exists>c' \<in> fst ` set (clients db'). cl_ID c' = cl_ID c \<and> cl_ClientID c' = cl_ClientID c
     \<and> cl_AllowedScopes c' = cl_AllowedScopes c \<and> cl_RedirectURIs c' = cl_RedirectURIs c)"

lemma consented_mono:
  assumes "consented env s a" and cl: "same_clients (run_db s) (run_db s')" and "set (run_log s) \<subseteq> set (run_log s')"
    and eq: "ac_hash a' = ac_hash a" "ac_redirect a' = ac_redirect a" "ac_UserID a' = ac_UserID a" "ac_TenantID a' = ac_TenantID a"
      "ac_ClientID a' = ac_ClientID a" "ac_scopes a' = ac_scopes a"
  shows "consented env s' a'"
proof -
  obtain r resp where r: "(r, resp) \<in> set (run_log s)" "consent_form env r resp a" "consent_client (run_db s) r a"
    using assms(1) by (auto simp: consented_def)
  have "consent_form env r resp a'" using r(2) by (simp add: consent_form_def eq)
  moreover obtain c where c: "c \<in> fst ` set (clients (run_db s))" "cl_ID c = ac_ClientID a" "cl_ClientID c = oq_form r ''client_id''"
    "set (ac_scopes a) \<subseteq> set (cl_AllowedScopes c)" "ac_redirect a \<in> set (cl_RedirectURIs c)" using r(3) unfolding consent_client_def by blast
  from cl c(1) obtain c' where "c' \<in> fst ` set (clients (run_db s'))" "cl_ID c' = cl_ID c" "cl_ClientID c' = cl_ClientID c"
    "cl_AllowedScopes c' = cl_AllowedScopes c" "cl_RedirectURIs c' = cl_RedirectURIs c" unfolding same_clients_def by blast
  with c have "consent_client (run_db s') r a'" unfolding consent_client_def eq by (intro bexI [of _ c']) simp_all
  ultimately show ?thesis using r(1) assms(3) unfolding consented_def by blast
qed

lemma validated_parses: "validateRedirectURI env u \<Longrightarrow> \<exists>p. url_Parse env u = Some p"
  by (auto simp: validateRedirectURI_def split: if_splits option.splits)

definition derived :: "oauth_db \<Rightarrow> oauth_db \<Rightarrow> bool" where
  "derived db db' \<longleftrightarrow> clients db' = clients db \<and> (\<forall>a' \<in> set (codes db'). \<exists>a \<in> set (codes db). ac_hash a' = ac_hash a \<and> ac_redirect a' = ac_redirect a
     \<and> ac_UserID a' = ac_UserID a \<and> ac_TenantID a' = ac_TenantID a \<and> ac_ClientID a' = ac_ClientID a \<and> ac_scopes a' = ac_scopes a)"

lemma derived_same: "clients db' = clients db \<Longrightarrow> codes db' = codes db \<Longrightarrow> derived db db'"
  by (auto simp: derived_def)

lemma exchange_derived:
  assumes "ExchangeAuthorizationCode env svc db now (Some c) code uri ver m = (db', res)"
  shows "derived db db'"
proof (cases res)
  case (Inl e)
  with assms exchange_failed show ?thesis by (fastforce intro: derived_same)
next
  case (Inr resp)
  let ?d = "db\<lparr>codes := consume now (claimable_code (hashToken env code) now) (codes db)\<rparr>"
  obtain a :: auth_code where "mintTokensTx env svc ?d c (ac_UserID a) (ac_scopes a) None now m = Inr (db', resp)"
    using assms [unfolded Inr] by (elim exchange_elim) blast
  then have "clients db' = clients db" "codes db' = consume now (claimable_code (hashToken env code) now) (codes db)" by (auto elim: mint_elim)
  then show ?thesis by (auto simp: derived_def consume_def)
qed

lemma refresh_derived:
  assumes "RefreshAccessToken env svc db now (Some c) tok m = (db', res)"
  shows "derived db db'"
proof (cases res)
  case (Inl e)
  with refresh_failed [of env svc db now "Some c" tok m db' e] assms show ?thesis by (auto simp: revoke_chain_eq intro: derived_same)
next
  case (Inr resp)
  show ?thesis using assms [unfolded Inr] by (auto elim!: refresh_elim mint_elim intro!: derived_same)
qed

lemma token_effect:
  assumes "oauth_inv db" and "oauth_Token env svc db now r m = (db', resp)"
  shows "oauth_inv db' \<and> keeps db db' \<and> derived db db'"
proof (cases "db' = db")
  case False
  with assms(2) obtain c where c: "authenticate_client env db r = Inr c"
    and "handleAuthCodeGrant env svc db now r c m = (db', resp) \<or> handleRefreshGrant env svc db now r c m = (db', resp)"
    by (auto simp: oauth_Token_def split: if_splits sum.splits)
  then consider (code) "\<exists>res. ExchangeAuthorizationCode env svc db now (Some c) (oq_form r ''code'') (oq_form r ''redirect_uri'') (oq_form r ''code_verifier'') m = (db', res)"
    | (refresh) "\<exists>res. RefreshAccessToken env svc db now (Some c) (oq_form r ''refresh_token'') m = (db', res)"
    using False by (auto simp: handleAuthCodeGrant_def handleRefreshGrant_def token_answer_def split: if_splits prod.splits sum.splits)
  then show ?thesis
  proof cases
    case code
    with exchange_inv [OF assms(1) authenticated_client [OF c]] exchange_derived show ?thesis by blast
  next
    case refresh
    with refresh_inv [OF assms(1) authenticated_client [OF c]] refresh_derived show ?thesis by blast
  qed
qed (use assms in \<open>auto intro: derived_same\<close>)

lemma revoke_effect:
  assumes "oauth_inv db" and "oauth_Revoke env db now r = (db', resp)"
  shows "oauth_inv db' \<and> keeps db db' \<and> derived db db'"
proof (cases "db' = db")
  case False
  with assms(2) obtain c res where run: "RevokeToken env db now (Some c) (oq_form r ''token'') = (db', res)"
    by (auto simp: oauth_Revoke_def split: if_splits sum.splits prod.splits option.splits oauth_err.splits)
  then have "derived db db'" by (auto simp: RevokeToken_def Let_def intro: derived_same split: option.splits if_splits)
  with revoke_token_inv [OF assms(1) run] show ?thesis by blast
qed (use assms in \<open>auto intro: derived_same\<close>)

lemma register_effect:
  assumes "RegisterClient env db now t req rid idr sec = (db', res)"
  shows "db' = db \<or> (\<exists>c h. db' = db\<lparr>clients := clients db @ [(c, h)]\<rparr> \<and> cl_ID c \<notin> (\<lambda>p. cl_ID (fst p)) ` set (clients db)
    \<and> (\<forall>u \<in> set (cl_RedirectURIs c). validateRedirectURI env u))"
proof (cases "db' = db")
  case False
  with assms have v: "list_all (validateRedirectURI env) (rr_redirectURIs req)" by (auto simp: RegisterClient_def split: if_splits)
  define mk where "mk tid cid = \<lparr>cl_ID = rid, cl_TenantID = tid, cl_ClientID = cid, cl_ClientType = rr_clientType req,
      cl_Name = rr_name req, cl_HomepageURL = rr_homepageURL req, cl_LogoURL = rr_logoURL req, cl_RedirectURIs = rr_redirectURIs req,
      cl_AllowedScopes = rr_allowedScopes req, cl_Active = True, cl_CreatedAt = now, cl_UpdatedAt = now\<rparr>" for tid cid
  obtain tid cid h where "db' = db\<lparr>clients := clients db @ [(mk tid cid, h)]\<rparr>" "\<not> list_ex (\<lambda>(c, _). cl_ID c = rid \<or> cl_ClientID c = cid) (clients db)"
    using assms False by (auto simp: RegisterClient_def Let_def mk_def split: if_splits option.splits prod.splits)
  moreover from this have "cl_ID (mk tid cid) \<notin> (\<lambda>p. cl_ID (fst p)) ` set (clients db)" by (auto simp: mk_def list_ex_iff)
  moreover have "\<forall>u \<in> set (cl_RedirectURIs (mk tid cid)). validateRedirectURI env u" using v by (simp add: mk_def list_all_iff)
  ultimately show ?thesis by blast
qed simp

lemma get_client: "GetClient env db t i = Inr c \<Longrightarrow> c \<in> fst ` set (clients db) \<and> oe_uuid env t = Some (cl_TenantID c) \<and> cl_ClientID c = i"
  by (auto simp: GetClient_def split: if_splits option.splits dest!: find_SomeD intro: rev_image_eqI)

lemma approve_effect:
  assumes uris: "uris_ok env db" and run: "Approve env svc db now r rid rnd = (db', resp)" and changed: "db' \<noteq> db"
  obtains a where "db' = db\<lparr>codes := codes db @ [a]\<rparr>" "ac_hash a \<notin> ac_hash ` set (codes db)" "consent_form env r resp a" "consent_client db r a"
proof -
  from run changed obtain u t c where ut: "oq_user r = Some (u, t)" and csrf: "csrf_ok r" and c: "GetClient env db t (oq_form r ''client_id'') = Inr c"
    and dec: "oq_form r ''decision'' = ''approve''"
    by (auto simp: Approve_def Let_def split: if_splits option.splits sum.splits)
  let ?uri = "oq_form r ''redirect_uri''" and ?sc = "splitScopes (oq_form r ''scope'')"
  let ?issue = "IssueAuthorizationCode env svc db now (Some c) u ?uri ?sc (oq_form r ''code_challenge'') (oq_form r ''code_challenge_method'') rid rnd"
  obtain code where issue: "?issue = (db', Inr code)"
    and resp: "resp = (case url_Parse env ?uri of None \<Rightarrow> HandlerPanic
      | Some _ \<Rightarrow> RedirectTo ?uri ([(''code'', code)] @ (if oq_form r ''state'' \<noteq> [] then [(''state'', oq_form r ''state'')] else [])))"
    using run changed ut csrf c dec issue_failed [of env svc db now "Some c"]
    by (auto simp: Approve_def Let_def split: if_splits prod.splits sum.splits)
  from issue obtain a uid where a: "db' = db\<lparr>codes := codes db @ [a]\<rparr>" "ac_hash a = hashToken env code" "ac_hash a \<notin> ac_hash ` set (codes db)"
    "ac_TenantID a = cl_TenantID c" "ac_ClientID a = cl_ID c" "oe_uuid env u = Some uid" "ac_UserID a = uid" "ac_redirect a = ?uri" "ac_scopes a = ?sc"
    "?uri \<in> set (cl_RedirectURIs c)" "set ?sc \<subseteq> set (cl_AllowedScopes c)" by (rule issue_elim)
  note gc = get_client [OF c]
  from gc uris a(10) have "validateRedirectURI env ?uri" unfolding uris_ok_def by auto
  with validated_parses resp obtain ps where "resp = RedirectTo ?uri ((''code'', code) # ps)" by fastforce
  with a gc ut csrf dec have "consent_form env r resp a" unfolding consent_form_def by simp
  moreover have "consent_client db r a" unfolding consent_client_def using gc a by auto
  ultimately show thesis using that a by blast
qed

text \<open>One step keeps the invariant of the run and everything revoked or consumed.\<close>

lemma run_inv_derived:
  assumes "run_inv env s" and "oauth_inv db'" and "derived (run_db s) db'"
  shows "run_inv env (s\<lparr>run_db := db'\<rparr>)"
proof -
  have cl: "clients db' = clients (run_db s)" using assms(3) by (simp add: derived_def)
  then have "same_clients (run_db s) db'" by (auto simp: same_clients_def)
  moreover have "\<exists>a \<in> set (codes (run_db s)). ac_hash a' = ac_hash a \<and> ac_redirect a' = ac_redirect a
     \<and> ac_UserID a' = ac_UserID a \<and> ac_TenantID a' = ac_TenantID a \<and> ac_ClientID a' = ac_ClientID a \<and> ac_scopes a' = ac_scopes a"
    if "a' \<in> set (codes db')" for a' using that assms(3) by (simp add: derived_def)
  ultimately have "consented env (s\<lparr>run_db := db'\<rparr>) a'" if "a' \<in> set (codes db')" for a'
    using that assms(1) consented_mono [of env s _ "s\<lparr>run_db := db'\<rparr>" a'] unfolding run_inv_def by fastforce
  with assms cl show ?thesis by (simp add: run_inv_def uris_ok_def)
qed

lemma run_step:
  assumes step: "oauth_step env svc s s'" and inv: "run_inv env s"
  shows "run_inv env s' \<and> keeps (run_db s) (run_db s')"
  using step
proof cases
  case (registration now t req rid idr sec db' res)
  show ?thesis
  proof (cases "db' = run_db s")
    case False
    with register_effect [OF registration(2)] obtain c h where c: "db' = (run_db s)\<lparr>clients := clients (run_db s) @ [(c, h)]\<rparr>"
      "cl_ID c \<notin> (\<lambda>p. cl_ID (fst p)) ` set (clients (run_db s))" "\<forall>u \<in> set (cl_RedirectURIs c). validateRedirectURI env u" by blast
    have "oauth_inv db'" unfolding c(1) by (rule inv_add_client [OF _ c(2)]) (use inv in \<open>simp add: run_inv_def\<close>)
    moreover have "same_clients (run_db s) db'" unfolding same_clients_def c(1) by auto
    then have "consented env s' a" if "a \<in> set (codes (run_db s))" for a
      using that inv consented_mono [of env s a s' a] by (simp add: run_inv_def registration(1))
    moreover have "uris_ok env db'" using inv c(3) by (simp add: run_inv_def uris_ok_def c(1))
    ultimately show ?thesis by (simp add: run_inv_def registration(1) c(1) keeps_def)
  qed (use inv registration(1) in simp)
next
  case (approval now r rid rnd db' resp)
  have mono: "consented env s' a" if "consented env s a" "same_clients (run_db s) db'" for a
    using that consented_mono [of env s a s' a] by (auto simp: approval(1))
  have uris: "uris_ok env (run_db s)" using inv by (simp add: run_inv_def)
  show ?thesis
  proof (cases "db' = run_db s")
    case True
    then have "same_clients (run_db s) db'" by (auto simp: same_clients_def)
    with True inv mono show ?thesis by (simp add: run_inv_def approval(1))
  next
    case False
    from uris approval(2) False obtain a where a: "db' = (run_db s)\<lparr>codes := codes (run_db s) @ [a]\<rparr>" "ac_hash a \<notin> ac_hash ` set (codes (run_db s))"
      "consent_form env r resp a" "consent_client (run_db s) r a" by (rule approve_effect)
    have "oauth_inv db'" unfolding a(1) by (rule inv_add_code [OF _ a(2)]) (use inv in \<open>simp add: run_inv_def\<close>)
    moreover have "same_clients (run_db s) db'" unfolding same_clients_def a(1) by auto
    moreover have "consented env s' a" using a(3,4) by (auto simp: consented_def consent_client_def approval(1) a(1))
    moreover have "uris_ok env db'" using uris by (simp add: uris_ok_def a(1))
    moreover have "keeps (run_db s) db'" by (simp add: keeps_def a(1))
    ultimately show ?thesis using inv mono by (auto simp: run_inv_def approval(1) a(1))
  qed
next
  case (token now r m db' resp)
  have "oauth_inv (run_db s)" using inv by (simp add: run_inv_def)
  from token_effect [OF this token(2)] run_inv_derived [OF inv] show ?thesis by (simp add: token(1))
next
  case (revocation now r db' resp)
  have "oauth_inv (run_db s)" using inv by (simp add: run_inv_def)
  from revoke_effect [OF this revocation(2)] run_inv_derived [OF inv] show ?thesis by (simp add: revocation(1))
next
  case (deactivation i)
  have "same_clients (run_db s) (deactivate i (run_db s))"
    unfolding same_clients_def
  proof
    fix c assume "c \<in> fst ` set (clients (run_db s))"
    then obtain h where "(c, h) \<in> set (clients (run_db s))" by force
    then have "((if cl_ID c = i then c\<lparr>cl_Active := False\<rparr> else c), h) \<in> set (clients (deactivate i (run_db s)))" by (force simp: deactivate_def)
    then show "\<exists>c' \<in> fst ` set (clients (deactivate i (run_db s))). cl_ID c' = cl_ID c \<and> cl_ClientID c' = cl_ClientID c
      \<and> cl_AllowedScopes c' = cl_AllowedScopes c \<and> cl_RedirectURIs c' = cl_RedirectURIs c"
      by (rule rev_bexI [OF imageI]) simp
  qed
  then have "consented env s' a" if "a \<in> set (codes (run_db s))" for a
    using that inv consented_mono [of env s a s' a] by (simp add: run_inv_def deactivation(1))
  moreover have "uris_ok env (deactivate i (run_db s))"
    unfolding uris_ok_def
  proof (intro ballI)
    fix p u assume p: "p \<in> set (clients (deactivate i (run_db s)))" and u: "u \<in> set (cl_RedirectURIs (fst p))"
    from p obtain q where "q \<in> set (clients (run_db s))" "cl_RedirectURIs (fst p) = cl_RedirectURIs (fst q)" by (auto simp: deactivate_def)
    with u inv show "validateRedirectURI env u" by (auto simp: run_inv_def uris_ok_def)
  qed
  ultimately show ?thesis using inv inv_deactivate [of "run_db s" i] by (simp add: run_inv_def deactivation(1) deactivate_frame keeps_def)
qed

lemma init_inv: "run_inv env (oauth_init ts us)"
  by (simp add: run_inv_def oauth_init_def oauth_inv_def keys_ok_def chain_ok_def backed_ok_def uris_ok_def parents_first_def single_child_def)

lemma runs_inv:
  assumes "oauth_runs env svc s s'" and "run_inv env s"
  shows "run_inv env s' \<and> keeps (run_db s) (run_db s')"
  using assms
proof (induction rule: rtranclp_induct)
  case (step y z)
  with run_step [OF step.hyps(2)] show ?case by (blast intro: keeps_trans)
qed simp

lemmas reachable_inv = runs_inv [OF _ init_inv, THEN conjunct1]

subsection \<open>What follows\<close>

lemma validate_elim:
  assumes "ValidateAccessToken env db now tok = Inr ctx"
  obtains a where "a \<in> set (accesses db)" "at_hash a = hashToken env tok" "at_revoked a = None" "at_expires a > now"
    "tc_TenantID ctx = at_TenantID a" "tc_UserID ctx = at_UserID a" "tc_ClientID ctx = at_ClientID a" "tc_Scopes ctx = at_scopes a"
    "\<exists>p \<in> set (clients db). cl_ID (fst p) = at_ClientID a \<and> cl_Active (fst p)"
proof -
  obtain a where a: "find (\<lambda>a. at_hash a = hashToken env tok \<and> list_ex (\<lambda>(c, _). cl_ID c = at_ClientID a \<and> cl_Active c) (clients db)
      \<and> at_revoked a = None \<and> at_expires a > now) (accesses db) = Some a"
    and ctx: "ctx = \<lparr>tc_TokenID = at_ID a, tc_TenantID = at_TenantID a, tc_UserID = at_UserID a, tc_ClientID = at_ClientID a, tc_Scopes = at_scopes a, tc_ExpiresAt = at_expires a\<rparr>"
    using assms by (auto simp: ValidateAccessToken_def split: if_splits option.splits)
  show thesis using find_SomeD [OF a] by (intro that [of a]) (auto simp: ctx list_ex_iff split: prod.splits intro: rev_bexI)
qed

lemma validate_origin:
  assumes inv: "run_inv env s" and ok: "ValidateAccessToken env (run_db s) now tok = Inr ctx"
  shows "\<exists>k \<in> set (codes (run_db s)). consented env s k \<and> ac_consumed k \<noteq> None \<and> ac_TenantID k = tc_TenantID ctx \<and> ac_UserID k = tc_UserID ctx
    \<and> ac_ClientID k = tc_ClientID ctx \<and> ac_scopes k = tc_Scopes ctx"
proof -
  obtain a where a: "a \<in> set (accesses (run_db s))" "tc_TenantID ctx = at_TenantID a" "tc_UserID ctx = at_UserID a" "tc_ClientID ctx = at_ClientID a" "tc_Scopes ctx = at_scopes a"
    using ok by (rule validate_elim)
  obtain r where r: "r \<in> set (refreshes (run_db s))" "rt_TenantID r = at_TenantID a" "rt_ClientID r = at_ClientID a" "rt_UserID r = at_UserID a" "rt_scopes r = at_scopes a"
    using inv a(1) unfolding run_inv_def oauth_inv_def backed_ok_def by blast
  obtain k where "k \<in> set (codes (run_db s))" "ac_consumed k \<noteq> None" "ac_TenantID k = rt_TenantID r" "ac_ClientID k = rt_ClientID r" "ac_UserID k = rt_UserID r" "ac_scopes k = rt_scopes r"
    using inv r(1) unfolding run_inv_def oauth_inv_def backed_ok_def by blast
  with a r inv show ?thesis by (intro bexI [of _ k]) (simp_all add: run_inv_def)
qed

lemma wrap_serves: "bearer_Wrap env db now authz = Serve ctx \<Longrightarrow> \<exists>tok. extractBearerToken authz = Inr tok \<and> ValidateAccessToken env db now tok = Inr ctx"
  by (simp add: bearer_Wrap_def split: sum.splits oauth_err.splits)

text \<open>A consumed code stays refused: exchanging it fails and changes nothing.\<close>

lemma consumed_refused:
  assumes "keys_ok db" and "k \<in> set (codes db)" and "ac_hash k = hashToken env code" and "ac_consumed k \<noteq> None"
  shows "ExchangeAuthorizationCode env svc db now (Some c) code uri ver m = (db, Inl (invalid_grant ''authorization code not found, expired, or already consumed''))"
proof -
  have "find (claimable_code (hashToken env code) now) (codes db) = None"
    unfolding find_None_iff
  proof
    assume "\<exists>x. x \<in> set (codes db) \<and> claimable_code (hashToken env code) now x"
    then obtain x where x: "x \<in> set (codes db)" "ac_hash x = ac_hash k" "ac_consumed x = None" using assms(3) by (auto simp: claimable_code_def)
    have "distinct (map ac_hash (codes db))" using assms(1) by (simp add: keys_ok_def)
    from distinct_map_eq [OF this x(1) assms(2) x(2)] x(3) assms(4) show False by simp
  qed
  then show ?thesis by (simp add: ExchangeAuthorizationCode_def Let_def)
qed

lemma exchange_consumes:
  assumes "ExchangeAuthorizationCode env svc db now (Some c) code uri ver m = (db', Inr resp)"
  shows "\<exists>k \<in> set (codes db'). ac_hash k = hashToken env code \<and> ac_consumed k \<noteq> None"
proof -
  let ?P = "claimable_code (hashToken env code) now"
  obtain a :: auth_code where a: "a \<in> set (codes db)" "?P a" and mint: "mintTokensTx env svc (db\<lparr>codes := consume now ?P (codes db)\<rparr>) c (ac_UserID a) (ac_scopes a) None now m = Inr (db', resp)"
    using assms by (elim exchange_elim) blast
  from mint have "codes db' = consume now ?P (codes db)" by (auto elim: mint_elim)
  moreover have "a\<lparr>ac_consumed := Some now\<rparr> \<in> set (consume now ?P (codes db))" using a by (auto simp: consume_def intro!: rev_image_eqI)
  ultimately show ?thesis using a(2) by (intro bexI [of _ "a\<lparr>ac_consumed := Some now\<rparr>"]) (simp_all add: claimable_code_def)
qed

lemma token_code_grant:
  assumes "oauth_Token env svc db now r m = (db', Tokens resp)" and "oq_form r ''grant_type'' = ''authorization_code''"
  obtains c where "authenticate_client env db r = Inr c"
    "ExchangeAuthorizationCode env svc db now (Some c) (oq_form r ''code'') (oq_form r ''redirect_uri'') (oq_form r ''code_verifier'') m = (db', Inr resp)"
proof -
  obtain c where c: "authenticate_client env db r = Inr c" using assms
    by (auto simp: oauth_Token_def authenticate_client_def Let_def split: if_splits sum.splits prod.splits)
  with assms show thesis
    by (intro that [OF c]) (auto simp: oauth_Token_def handleAuthCodeGrant_def token_answer_def writeOAuthError_def split: if_splits prod.splits sum.splits)
qed

text \<open>Members of a family: everything but its youngest member is revoked.\<close>

lemma descendant_revoked:
  assumes "oauth_inv db" and "r \<in> set (refreshes db)" and "descends (refreshes db) (rt_ID r) y" and "y \<noteq> rt_ID r"
  shows "rt_revoked r \<noteq> None"
proof -
  from assms(3,4) obtain z where "parent_step (refreshes db) (rt_ID r) z" by (metis converse_rtranclpE)
  with assms(1,2) show ?thesis unfolding parent_step_def oauth_inv_def chain_ok_def by blast
qed

lemma live_unique:
  assumes inv: "oauth_inv db" and r: "r \<in> set (refreshes db)" "rt_revoked r = None" and r': "r' \<in> set (refreshes db)" "rt_revoked r' = None"
    and fam: "same_family (refreshes db) (rt_ID r) (rt_ID r')"
  shows "r = r'"
proof -
  have "single_child (refreshes db)" using inv by (simp add: oauth_inv_def chain_ok_def)
  with fam have "descends (refreshes db) (rt_ID r) (rt_ID r') \<or> descends (refreshes db) (rt_ID r') (rt_ID r)" unfolding same_family_def by (metis family_linear)
  then have "rt_ID r = rt_ID r'" using descendant_revoked [OF inv] r r' by metis
  with r r' inv show ?thesis by (auto simp: oauth_inv_def keys_ok_def intro: distinct_map_eq [of rt_ID])
qed

text \<open>The replay path revokes the whole family with its access tokens.\<close>

lemma chain_revokes_family:
  assumes inv: "oauth_inv db" and r0: "r0 \<in> set (refreshes db)" and fam: "same_family (refreshes db) (rt_ID r0) (rt_ID r')"
    and r': "r' \<in> set (refreshes (revokeRefreshChain db now (rt_ID r0)))" and rev0: "rt_revoked r0 \<noteq> None"
  shows "rt_revoked r' \<noteq> None"
proof -
  let ?P = "\<lambda>r. rt_ID r \<in> set (refresh_chain db (rt_ID r0))"
  from r' have "r' \<in> set (revoke_refresh now ?P (refreshes db))" by (simp add: revoke_chain_eq)
  then obtain r where r: "r \<in> set (refreshes db)" "rt_ID r' = rt_ID r" "rt_revoked r' = None \<longleftrightarrow> \<not> ?P r \<and> rt_revoked r = None" by (rule revoke_refresh_cases)
  have ch: "set (refresh_chain db (rt_ID r0)) = {x. descends (refreshes db) (rt_ID r0) x}"
    using inv r0 by (intro refresh_chain_set) (auto simp: oauth_inv_def chain_ok_def keys_ok_def)
  have "single_child (refreshes db)" using inv by (simp add: oauth_inv_def chain_ok_def)
  with fam r(2) consider "descends (refreshes db) (rt_ID r0) (rt_ID r)" | "descends (refreshes db) (rt_ID r) (rt_ID r0)"
    unfolding same_family_def by (metis family_linear)
  then show ?thesis
  proof cases
    case 1
    with ch r(3) show ?thesis by simp
  next
    case 2
    show ?thesis
    proof (cases "rt_ID r = rt_ID r0")
      case True
      with ch r(3) show ?thesis by simp
    next
      case False
      with descendant_revoked [OF inv r(1) 2] r(3) show ?thesis by metis
    qed
  qed
qed

lemma access_dead_with_refresh:
  assumes "oauth_inv db" and "a \<in> set (accesses db)" and "\<And>r. r \<in> set (refreshes db) \<Longrightarrow> rt_ID r = at_refresh a \<Longrightarrow> rt_revoked r \<noteq> None"
  shows "at_revoked a \<noteq> None"
  using assms unfolding oauth_inv_def backed_ok_def by metis

subsection \<open>A run for the witnesses\<close>

text \<open>One tenant, one user, one public client; the user consents, and the client exchanges its code and refreshes once.\<close>

definition ex_env :: oauth_env where
  "ex_env = \<lparr>oe_sha = map (\<lambda>c. of_nat (of_char c)), oe_bcrypt = Some, oe_bcrypt_ok = (=), oe_uuid = Some, oe_url_rest = Some\<rparr>"

definition ex_client_request :: client_request where
  "ex_client_request = \<lparr>rr_name = ''app'', rr_clientType = ''public'', rr_redirectURIs = [''https://a/cb''], rr_allowedScopes = [''read:mail''],
     rr_homepageURL = [], rr_logoURL = []\<rparr>"

definition ex_form :: "(string \<times> string) list \<Rightarrow> string \<Rightarrow> string" where
  "ex_form kvs k = (case map_of kvs k of None \<Rightarrow> [] | Some v \<Rightarrow> v)"

definition ex_oauth_request :: "(string \<times> string) list \<Rightarrow> oauth_request" where
  "ex_oauth_request kvs = \<lparr>oq_Method = ''POST'', oq_form_ok = True, oq_form = ex_form kvs, oq_basic = None, oq_csrf_cookie = Some ''n'',
     oq_user = Some (''u'', ''t'')\<rparr>"

definition ex_consent :: oauth_request where
  "ex_consent = ex_oauth_request [(''client_id'', ''AA''), (''redirect_uri'', ''https://a/cb''), (''scope'', ''read:mail''), (''code_challenge'', ''v''),
     (''csrf_token'', ''n''), (''decision'', ''approve'')]"

definition ex_exchange :: oauth_request where
  "ex_exchange = ex_oauth_request [(''grant_type'', ''authorization_code''), (''client_id'', ''AA''), (''code'', ''AQ''), (''redirect_uri'', ''https://a/cb''),
     (''code_verifier'', ''v'')]"

definition ex_refresh :: oauth_request where
  "ex_refresh = ex_oauth_request [(''grant_type'', ''refresh_token''), (''client_id'', ''AA''), (''refresh_token'', ''Aw'')]"

definition ex_mint :: "string \<Rightarrow> byte \<Rightarrow> byte \<Rightarrow> mint_rand" where
  "ex_mint i a b = \<lparr>mr_access = Some [a], mr_refresh = Some [b], mr_refresh_id = i, mr_access_id = i\<rparr>"

definition ex_client :: Client where
  "ex_client = \<lparr>cl_ID = ''c1'', cl_TenantID = ''t'', cl_ClientID = ''AA'', cl_ClientType = ''public'', cl_Name = ''app'', cl_HomepageURL = [], cl_LogoURL = [],
     cl_RedirectURIs = [''https://a/cb''], cl_AllowedScopes = [''read:mail''], cl_Active = True, cl_CreatedAt = 0, cl_UpdatedAt = 0\<rparr>"

definition ex_code_row :: "time option \<Rightarrow> auth_code" where
  "ex_code_row t = \<lparr>ac_ID = ''k1'', ac_TenantID = ''t'', ac_ClientID = ''c1'', ac_UserID = ''u'', ac_hash = ''4151'', ac_redirect = ''https://a/cb'', ac_scopes = [''read:mail''],
     ac_challenge = Some ''v'', ac_method = Some ''plain'', ac_expires = 60 * nanos_per_s, ac_consumed = t\<rparr>"

definition ex_refresh_row :: "string \<Rightarrow> string \<Rightarrow> string option \<Rightarrow> time \<Rightarrow> time option \<Rightarrow> refresh_row" where
  "ex_refresh_row i h p t rv = \<lparr>rt_ID = i, rt_TenantID = ''t'', rt_ClientID = ''c1'', rt_UserID = ''u'', rt_hash = h, rt_scopes = [''read:mail''], rt_parent = p,
     rt_expires = t + 30 * 24 * 3600 * nanos_per_s, rt_revoked = rv\<rparr>"

definition ex_access_row :: "string \<Rightarrow> string \<Rightarrow> time \<Rightarrow> time option \<Rightarrow> access_row" where
  "ex_access_row i h t rv = \<lparr>at_ID = i, at_TenantID = ''t'', at_ClientID = ''c1'', at_UserID = ''u'', at_hash = h, at_scopes = [''read:mail''],
     at_expires = t + 3600 * nanos_per_s, at_revoked = rv, at_refresh = i\<rparr>"

definition ex_db :: "auth_code list \<Rightarrow> refresh_row list \<Rightarrow> access_row list \<Rightarrow> oauth_db" where
  "ex_db ks rs as = \<lparr>tenants = [''t''], users = [''u''], clients = [(ex_client, None)], codes = ks, refreshes = rs, accesses = as\<rparr>"

definition ex_db3 :: oauth_db where
  "ex_db3 = ex_db [ex_code_row (Some 1)] [ex_refresh_row ''r1'' ''4177'' None 1 None] [ex_access_row ''r1'' ''4167'' 1 None]"

definition ex_db4 :: oauth_db where
  "ex_db4 = ex_db [ex_code_row (Some 1)] [ex_refresh_row ''r1'' ''4177'' None 1 (Some 2), ex_refresh_row ''r2'' ''4251'' (Some ''r1'') 2 None]
     [ex_access_row ''r1'' ''4167'' 1 (Some 2), ex_access_row ''r2'' ''4241'' 2 None]"

lemma ex_register:
  "RegisterClient ex_env (run_db (oauth_init [''t''] [''u''])) 0 ''t'' ex_client_request ''c1'' (Some [0]) None = (ex_db [] [] [], Inr (ex_client, []))"
  by code_simp

lemma ex_approve: "Approve ex_env oauth_NewService (ex_db [] [] []) 0 ex_consent ''k1'' (Some [1]) = (ex_db [ex_code_row None] [] [], RedirectTo ''https://a/cb'' [(''code'', ''AQ'')])"
  by code_simp

lemma ex_exchanged: "oauth_Token ex_env oauth_NewService (ex_db [ex_code_row None] [] []) 1 ex_exchange (ex_mint ''r1'' 2 3)
   = (ex_db3, Tokens \<lparr>tr_AccessToken = ''Ag'', tr_TokenType = ''Bearer'', tr_ExpiresIn = 3600, tr_RefreshToken = ''Aw'', tr_Scope = ''read:mail''\<rparr>)"
  by code_simp

lemma ex_refreshed: "oauth_Token ex_env oauth_NewService ex_db3 2 ex_refresh (ex_mint ''r2'' 4 5)
   = (ex_db4, Tokens \<lparr>tr_AccessToken = ''BA'', tr_TokenType = ''Bearer'', tr_ExpiresIn = 3600, tr_RefreshToken = ''BQ'', tr_Scope = ''read:mail''\<rparr>)"
  by code_simp

definition ex_state :: "oauth_db \<Rightarrow> oauth_run" where
  "ex_state db = \<lparr>run_db = db, run_log = [(ex_consent, RedirectTo ''https://a/cb'' [(''code'', ''AQ'')])]\<rparr>"

lemma ex_oauth_run:
  "oauth_runs ex_env oauth_NewService (oauth_init [''t''] [''u'']) (ex_state (ex_db [ex_code_row None] [] []))"
  "oauth_runs ex_env oauth_NewService (ex_state (ex_db [ex_code_row None] [] [])) (ex_state ex_db3)"
  "oauth_runs ex_env oauth_NewService (ex_state ex_db3) (ex_state ex_db4)"
proof -
  let ?i = "oauth_init [''t''] [''u'']"
  have 1: "oauth_step ex_env oauth_NewService ?i (?i\<lparr>run_db := ex_db [] [] []\<rparr>)" by (rule oauth_step.registration [OF ex_register])
  have 2: "oauth_step ex_env oauth_NewService (?i\<lparr>run_db := ex_db [] [] []\<rparr>) (ex_state (ex_db [ex_code_row None] [] []))"
    using oauth_step.approval [of ex_env oauth_NewService "?i\<lparr>run_db := ex_db [] [] []\<rparr>"] ex_approve by (simp add: ex_state_def oauth_init_def)
  show "oauth_runs ex_env oauth_NewService ?i (ex_state (ex_db [ex_code_row None] [] []))" using 1 2 by (meson converse_rtranclp_into_rtranclp r_into_rtranclp)
  show "oauth_runs ex_env oauth_NewService (ex_state (ex_db [ex_code_row None] [] [])) (ex_state ex_db3)"
    using oauth_step.token [of ex_env oauth_NewService "ex_state (ex_db [ex_code_row None] [] [])"] ex_exchanged by (simp add: ex_state_def r_into_rtranclp)
  show "oauth_runs ex_env oauth_NewService (ex_state ex_db3) (ex_state ex_db4)"
    using oauth_step.token [of ex_env oauth_NewService "ex_state ex_db3"] ex_refreshed by (simp add: ex_state_def r_into_rtranclp)
qed

lemmas ex_reach3 = rtranclp_trans [OF ex_oauth_run(1,2)]
lemmas ex_reach4 = rtranclp_trans [OF ex_reach3 ex_oauth_run(3)]

subsection \<open>Properties\<close>

text \<open>
  C13: Whatever requests the server has seen, a bearer token that the middleware accepts acts for a user who approved the consent
  form, with a matching CSRF token, in that tenant, for that client, and for exactly the scopes the form
  listed, all of them allowed to the client.\<close>

theorem token_needs_consent:
  assumes "oauth_runs env svc (oauth_init ts us) s" and "bearer_Wrap env (run_db s) now authz = Serve ctx"
  shows "\<exists>(r, resp) \<in> set (run_log s). csrf_ok r \<and> oq_form r ''decision'' = ''approve'' \<and> tc_Scopes ctx = splitScopes (oq_form r ''scope'')
    \<and> (\<exists>u t. oq_user r = Some (u, t) \<and> oe_uuid env u = Some (tc_UserID ctx) \<and> oe_uuid env t = Some (tc_TenantID ctx))
    \<and> (\<exists>c \<in> fst ` set (clients (run_db s)). cl_ID c = tc_ClientID ctx \<and> cl_ClientID c = oq_form r ''client_id'' \<and> set (tc_Scopes ctx) \<subseteq> set (cl_AllowedScopes c))"
proof -
  obtain tok where "ValidateAccessToken env (run_db s) now tok = Inr ctx" using wrap_serves [OF assms(2)] by blast
  from validate_origin [OF reachable_inv [OF assms(1)] this] obtain k where k: "consented env s k" "ac_TenantID k = tc_TenantID ctx" "ac_UserID k = tc_UserID ctx"
    "ac_ClientID k = tc_ClientID ctx" "ac_scopes k = tc_Scopes ctx" by blast
  then obtain r resp where r: "(r, resp) \<in> set (run_log s)" "consent_form env r resp k" "consent_client (run_db s) r k" by (auto simp: consented_def)
  show ?thesis by (rule bexI [OF _ r(1)]) (use r(2,3) k in \<open>auto simp: consent_form_def consent_client_def\<close>)
qed

theorem token_needs_consent_witness:
  "\<exists>(r, resp) \<in> set (run_log (ex_state ex_db3)). csrf_ok r \<and> oq_form r ''decision'' = ''approve'' \<and> [''read:mail''] = splitScopes (oq_form r ''scope'')"
proof -
  have "bearer_Wrap ex_env (run_db (ex_state ex_db3)) 2 ''Bearer Ag'' = Serve \<lparr>tc_TokenID = ''r1'', tc_TenantID = ''t'', tc_UserID = ''u'', tc_ClientID = ''c1'',
    tc_Scopes = [''read:mail''], tc_ExpiresAt = 1 + 3600 * nanos_per_s\<rparr>" by code_simp
  from token_needs_consent [OF ex_reach3 this] show ?thesis by fastforce
qed

text \<open>
  C15: An authorization code is single-use: once the token endpoint has answered a code with tokens, every later request with that
  code, by any client and at any time, is refused and changes nothing (in particular it revokes nothing).\<close>

theorem code_is_single_use:
  assumes "oauth_runs env svc (oauth_init ts us) s" and "oauth_Token env svc (run_db s) now r m = (db1, Tokens resp)"
    and "oq_form r ''grant_type'' = ''authorization_code''" and "oauth_runs env svc (s\<lparr>run_db := db1\<rparr>) s2"
    and "oq_form r2 ''grant_type'' = ''authorization_code''" and "oq_form r2 ''code'' = oq_form r ''code''"
  shows "fst (oauth_Token env svc (run_db s2) now2 r2 m2) = run_db s2 \<and> (\<forall>resp2. snd (oauth_Token env svc (run_db s2) now2 r2 m2) \<noteq> Tokens resp2)"
proof -
  have inv: "run_inv env (s\<lparr>run_db := db1\<rparr>)" using run_step [OF oauth_step.token [OF assms(2)] reachable_inv [OF assms(1)]] by blast
  obtain c where "ExchangeAuthorizationCode env svc (run_db s) now (Some c) (oq_form r ''code'') (oq_form r ''redirect_uri'') (oq_form r ''code_verifier'') m = (db1, Inr resp)"
    using assms(2,3) by (rule token_code_grant)
  from exchange_consumes [OF this] obtain k where "k \<in> set (codes db1)" "ac_hash k = hashToken env (oq_form r ''code'')" "ac_consumed k \<noteq> None" by blast
  with runs_inv [OF assms(4) inv] obtain k2 where k2: "k2 \<in> set (codes (run_db s2))" "ac_hash k2 = hashToken env (oq_form r2 ''code'')" "ac_consumed k2 \<noteq> None"
    by (fastforce simp: keeps_def stays_def assms(6))
  have keys: "keys_ok (run_db s2)" using runs_inv [OF assms(4) inv] by (simp add: run_inv_def oauth_inv_def)
  show ?thesis
    using consumed_refused [OF keys k2] assms(5)
    by (auto simp: oauth_Token_def handleAuthCodeGrant_def token_answer_def mapTokenError_def writeOAuthError_def authenticate_client_def Let_def
      split: if_splits sum.splits prod.splits)
qed

theorem code_is_single_use_witness:
  "fst (oauth_Token ex_env oauth_NewService ex_db4 3 ex_exchange (ex_mint ''r9'' 8 9)) = ex_db4
    \<and> (case snd (oauth_Token ex_env oauth_NewService ex_db4 3 ex_exchange (ex_mint ''r9'' 8 9)) of Tokens _ \<Rightarrow> False | _ \<Rightarrow> True)"
proof -
  let ?s = "ex_state (ex_db [ex_code_row None] [] [])"
  have g: "oq_form ex_exchange ''grant_type'' = ''authorization_code''" by code_simp
  have s: "oauth_Token ex_env oauth_NewService (run_db ?s) 1 ex_exchange (ex_mint ''r1'' 2 3)
     = (ex_db3, Tokens \<lparr>tr_AccessToken = ''Ag'', tr_TokenType = ''Bearer'', tr_ExpiresIn = 3600, tr_RefreshToken = ''Aw'', tr_Scope = ''read:mail''\<rparr>)"
    using ex_exchanged by (simp add: ex_state_def)
  have "oauth_runs ex_env oauth_NewService (?s\<lparr>run_db := ex_db3\<rparr>) (ex_state ex_db4)" using ex_oauth_run(3) by (simp add: ex_state_def)
  from code_is_single_use [OF ex_oauth_run(1) s g this g refl, of 3 "ex_mint ''r9'' 8 9"] show ?thesis
    by (auto simp: ex_state_def split: oauth_response.splits)
qed

text \<open>
  C14: In every reachable state a token family has at most one refresh token that is not revoked, and an access token that is not
  revoked belongs to it: rotation leaves no second live credential behind.\<close>

theorem one_live_token_per_family:
  assumes "oauth_runs env svc (oauth_init ts us) s" and "r \<in> set (refreshes (run_db s))" and "r' \<in> set (refreshes (run_db s))"
    and "same_family (refreshes (run_db s)) (rt_ID r) (rt_ID r')" and "rt_revoked r = None"
  shows "(rt_revoked r' = None \<longrightarrow> r' = r) \<and> (\<forall>a \<in> set (accesses (run_db s)). at_refresh a = rt_ID r' \<and> at_revoked a = None \<longrightarrow> r' = r)"
proof -
  have inv: "oauth_inv (run_db s)" using reachable_inv [OF assms(1)] by (simp add: run_inv_def)
  have live: "r' = r" if "rt_revoked r' = None" using live_unique [OF inv assms(2,5,3) that assms(4)] by simp
  moreover have "r' = r" if a: "a \<in> set (accesses (run_db s))" "at_refresh a = rt_ID r'" "at_revoked a = None" for a
  proof (rule live, rule ccontr)
    assume "rt_revoked r' \<noteq> None"
    then have "at_revoked a \<noteq> None"
      using access_dead_with_refresh [OF inv a(1)] a(2) assms(3) distinct_map_eq [of rt_ID "refreshes (run_db s)"] inv
      by (auto simp: oauth_inv_def keys_ok_def)
    with a(3) show False by simp
  qed
  ultimately show ?thesis by blast
qed

lemma ex_family: "same_family (refreshes ex_db4) ''r2'' ''r1''" "same_family (refreshes ex_db4) ''r1'' ''r2''"
proof -
  have "parent_step (refreshes ex_db4) ''r1'' ''r2''" by code_simp
  then show "same_family (refreshes ex_db4) ''r2'' ''r1''" "same_family (refreshes ex_db4) ''r1'' ''r2''" unfolding same_family_def by blast+
qed

theorem one_live_token_per_family_witness:
  "rt_revoked (refreshes ex_db4 ! 1) = None \<and> rt_revoked (refreshes ex_db4 ! 0) \<noteq> None"
proof -
  let ?r = "refreshes ex_db4 ! 1" and ?q = "refreshes ex_db4 ! 0"
  have m: "?r \<in> set (refreshes (run_db (ex_state ex_db4)))" "?q \<in> set (refreshes (run_db (ex_state ex_db4)))" "rt_revoked ?r = None" "?q \<noteq> ?r" by code_simp+
  have "rt_ID ?r = ''r2''" "rt_ID ?q = ''r1''" by code_simp+
  then have "same_family (refreshes (run_db (ex_state ex_db4))) (rt_ID ?r) (rt_ID ?q)" using ex_family by (simp add: ex_state_def)
  from one_live_token_per_family [OF ex_reach4 m(1,2) this m(3)] m show ?thesis by blast
qed

text \<open>
  Replay detection: presenting a refresh token that was already revoked, by whichever client, is answered with invalid_grant,
  and afterwards every refresh token of its family and every access token issued under one of them is
  revoked, ancestors and successors alike.\<close>

theorem replay_revokes_family:
  assumes "oauth_runs env svc (oauth_init ts us) s" and "r0 \<in> set (refreshes (run_db s))" and "rt_revoked r0 \<noteq> None"
    and "rt_hash r0 = hashToken env tok" and "tok \<noteq> []"
  shows "\<exists>db'. RefreshAccessToken env svc (run_db s) now (Some c) tok m
      = (db', Inl (invalid_grant ''refresh token replay detected - token family revoked''))
    \<and> (\<forall>r \<in> set (refreshes db'). same_family (refreshes (run_db s)) (rt_ID r0) (rt_ID r) \<longrightarrow>
          rt_revoked r \<noteq> None \<and> (\<forall>a \<in> set (accesses db'). at_refresh a = rt_ID r \<longrightarrow> at_revoked a \<noteq> None))"
proof -
  let ?db = "run_db s" and ?db' = "revokeRefreshChain (run_db s) now (rt_ID r0)"
  have inv: "oauth_inv ?db" using reachable_inv [OF assms(1)] by (simp add: run_inv_def)
  have only: "x = r0" if "x \<in> set (refreshes ?db)" "rt_hash x = hashToken env tok" for x
    using that assms(2,4) inv distinct_map_eq [of rt_hash "refreshes ?db" x r0] by (simp add: oauth_inv_def keys_ok_def)
  have "find (\<lambda>r. rt_hash r = hashToken env tok \<and> rt_revoked r = None \<and> rt_expires r > now) (refreshes ?db) = None"
    unfolding find_None_iff by (metis only assms(3))
  moreover have "find (\<lambda>r. rt_hash r = hashToken env tok) (refreshes ?db) = Some r0"
    using inv assms(2,4) by (intro find_unique [of rt_hash]) (auto simp: oauth_inv_def keys_ok_def)
  ultimately have run: "RefreshAccessToken env svc ?db now (Some c) tok m = (?db', Inl (invalid_grant ''refresh token replay detected - token family revoked''))"
    using assms(3,5) by (simp add: RefreshAccessToken_def Let_def)
  have inv': "oauth_inv ?db'" unfolding revoke_chain_eq by (rule inv_revoke [OF inv]) simp
  have dead: "rt_revoked r \<noteq> None" if "r \<in> set (refreshes ?db')" "same_family (refreshes ?db) (rt_ID r0) (rt_ID r)" for r
    using chain_revokes_family [OF inv assms(2) that(2,1) assms(3)] .
  have "at_revoked a \<noteq> None" if "r \<in> set (refreshes ?db')" "same_family (refreshes ?db) (rt_ID r0) (rt_ID r)" "a \<in> set (accesses ?db')" "at_refresh a = rt_ID r" for r a
    using access_dead_with_refresh [OF inv' that(3)] dead that by metis
  with run dead show ?thesis by blast
qed

theorem replay_revokes_family_witness:
  "\<exists>db'. RefreshAccessToken ex_env oauth_NewService ex_db4 3 (Some ex_client) ''Aw'' (ex_mint ''r9'' 8 9)
      = (db', Inl (invalid_grant ''refresh token replay detected - token family revoked''))
    \<and> list_all (\<lambda>r. rt_revoked r \<noteq> None) (refreshes db')"
proof -
  let ?q = "refreshes ex_db4 ! 0"
  have m: "?q \<in> set (refreshes (run_db (ex_state ex_db4)))" "rt_revoked ?q \<noteq> None" "rt_hash ?q = hashToken ex_env ''Aw''" "''Aw'' \<noteq> ([] :: string)" by code_simp+
  have q: "rt_ID ?q = ''r1''" by code_simp
  from replay_revokes_family [OF ex_reach4 m, of 3 ex_client "ex_mint ''r9'' 8 9"] obtain db' where
    run: "RefreshAccessToken ex_env oauth_NewService ex_db4 3 (Some ex_client) ''Aw'' (ex_mint ''r9'' 8 9) = (db', Inl (invalid_grant ''refresh token replay detected - token family revoked''))"
    and all: "\<forall>r \<in> set (refreshes db'). same_family (refreshes ex_db4) ''r1'' (rt_ID r) \<longrightarrow> rt_revoked r \<noteq> None"
    unfolding q by (auto simp: ex_state_def)
  have "map rt_ID (refreshes (fst (RefreshAccessToken ex_env oauth_NewService ex_db4 3 (Some ex_client) ''Aw'' (ex_mint ''r9'' 8 9)))) = [''r1'', ''r2'']" by code_simp
  then have "map rt_ID (refreshes db') = [''r1'', ''r2'']" unfolding run by simp
  from arg_cong [OF this, of set] have ids: "rt_ID ` set (refreshes db') = {''r1'', ''r2''}" by simp
  have self: "same_family (refreshes ex_db4) ''r1'' ''r1''" unfolding same_family_def by blast
  have "same_family (refreshes ex_db4) ''r1'' (rt_ID r)" if "r \<in> set (refreshes db')" for r
  proof -
    have "rt_ID r \<in> {''r1'', ''r2''}" using that ids by blast
    then consider "rt_ID r = ''r1''" | "rt_ID r = ''r2''" by blast
    then show ?thesis by cases (use self ex_family(2) in simp_all)
  qed
  with run all show ?thesis by (simp add: list_all_iff)
qed

text \<open>
  The token endpoint hands out tokens for a code only to the client it was issued to, with the redirect URI of the consent,
  before the code expires, and with the right code verifier whenever the consent carried a challenge;
  for a public client it always did.\<close>

theorem code_exchange_checks:
  assumes "oauth_Token env svc db now r m = (db', Tokens resp)" and "oq_form r ''grant_type'' = ''authorization_code''"
  shows "\<exists>c a. authenticate_client env db r = Inr c \<and> a \<in> set (codes db) \<and> ac_hash a = hashToken env (oq_form r ''code'') \<and> ac_consumed a = None \<and> now < ac_expires a
    \<and> ac_ClientID a = cl_ID c \<and> ac_redirect a = oq_form r ''redirect_uri'' \<and> tr_Scope resp = joinScopes (ac_scopes a)
    \<and> (case ac_challenge a of
         None \<Rightarrow> cl_ClientType c \<noteq> ''public''
       | Some ch \<Rightarrow> ch = [] \<and> cl_ClientType c \<noteq> ''public''
           \<or> verifyPKCE env ch (oq_form r ''code_verifier'') (case ac_method a of None \<Rightarrow> ''plain'' | Some meth \<Rightarrow> meth))"
proof -
  obtain c where c: "authenticate_client env db r = Inr c"
    "ExchangeAuthorizationCode env svc db now (Some c) (oq_form r ''code'') (oq_form r ''redirect_uri'') (oq_form r ''code_verifier'') m = (db', Inr resp)"
    using assms by (rule token_code_grant)
  from c(2) obtain a where a: "a \<in> set (codes db)" "claimable_code (hashToken env (oq_form r ''code'')) now a" "ac_ClientID a = cl_ID c" "ac_redirect a = oq_form r ''redirect_uri''"
    "\<forall>ch. ac_challenge a = Some ch \<and> ch \<noteq> [] \<longrightarrow> oq_form r ''code_verifier'' \<noteq> [] \<and> verifyPKCE env ch (oq_form r ''code_verifier'') (case ac_method a of None \<Rightarrow> ''plain'' | Some meth \<Rightarrow> meth)"
    "cl_ClientType c = ''public'' \<longrightarrow> (\<exists>ch. ac_challenge a = Some ch \<and> ch \<noteq> [])"
    "mintTokensTx env svc (db\<lparr>codes := consume now (claimable_code (hashToken env (oq_form r ''code'')) now) (codes db)\<rparr>) c (ac_UserID a) (ac_scopes a) None now m = Inr (db', resp)"
    by (rule exchange_elim)
  have "tr_Scope resp = joinScopes (ac_scopes a)" using a(7) by (rule mint_elim)
  moreover have "case ac_challenge a of
         None \<Rightarrow> cl_ClientType c \<noteq> ''public''
       | Some ch \<Rightarrow> ch = [] \<and> cl_ClientType c \<noteq> ''public''
           \<or> verifyPKCE env ch (oq_form r ''code_verifier'') (case ac_method a of None \<Rightarrow> ''plain'' | Some meth \<Rightarrow> meth)"
    using a(5,6) by (cases "ac_challenge a") auto
  ultimately show ?thesis using c(1) a(1-4) by (intro exI [of _ c] exI [of _ a]) (auto simp: claimable_code_def)
qed

theorem code_exchange_checks_witness:
  "\<exists>c a. authenticate_client ex_env (ex_db [ex_code_row None] [] []) ex_exchange = Inr c \<and> a \<in> set (codes (ex_db [ex_code_row None] [] [])) \<and> ac_ClientID a = cl_ID c"
proof -
  have "oq_form ex_exchange ''grant_type'' = ''authorization_code''" by code_simp
  from code_exchange_checks [OF ex_exchanged this] show ?thesis by blast
qed

text \<open>
  Registered redirect targets only: whenever the approval endpoint answers with a redirect, its target is one of the redirect
  URIs that the named client registered, and its scheme is not javascript, data, vbscript or file in any
  capitalisation; the endpoint never panics.\<close>

theorem redirects_are_registered:
  assumes "oauth_runs env svc (oauth_init ts us) s" and "Approve env svc (run_db s) now r rid rnd = (db', resp)"
  shows "resp \<noteq> HandlerPanic \<and> (\<forall>uri ps. resp = RedirectTo uri ps \<longrightarrow>
    (\<exists>c \<in> fst ` set (clients (run_db s)). cl_ClientID c = oq_form r ''client_id'' \<and> uri \<in> set (cl_RedirectURIs c))
    \<and> (\<exists>scheme host. url_Parse env uri = Some (scheme, host) \<and> map ascii_lower scheme \<notin> {''javascript'', ''data'', ''vbscript'', ''file''}))"
proof -
  let ?uri = "oq_form r ''redirect_uri''"
  have uris: "uris_ok env (run_db s)" using reachable_inv [OF assms(1)] by (simp add: run_inv_def)
  show ?thesis
  proof (cases "\<exists>c. (\<exists>u t. oq_user r = Some (u, t) \<and> GetClient env (run_db s) t (oq_form r ''client_id'') = Inr c) \<and> ?uri \<in> set (cl_RedirectURIs c)")
    case True
    then obtain c u t where c: "GetClient env (run_db s) t (oq_form r ''client_id'') = Inr c" "?uri \<in> set (cl_RedirectURIs c)" by blast
    note gc = get_client [OF c(1)]
    have v: "validateRedirectURI env ?uri" using uris gc c(2) unfolding uris_ok_def by auto
    then obtain scheme host where p: "url_Parse env ?uri = Some (scheme, host)" using validated_parses by fastforce
    then have safe: "map ascii_lower scheme \<notin> {''javascript'', ''data'', ''vbscript'', ''file''}"
      using v by (auto simp: validateRedirectURI_def Let_def split: if_splits)
    have "resp \<noteq> HandlerPanic \<and> (\<forall>uri ps. resp = RedirectTo uri ps \<longrightarrow> uri = ?uri)"
      using assms(2) p by (auto simp: Approve_def Let_def redirectWithError_def redirectWithOAuthError_def split: if_splits option.splits sum.splits prod.splits oauth_err.splits)
    with gc c(2) p safe show ?thesis by blast
  next
    case False
    with assms(2) have "\<exists>d n. resp = HttpError d n" by (auto simp: Approve_def Let_def split: if_splits option.splits sum.splits)
    then show ?thesis by auto
  qed
qed

theorem redirects_are_registered_witness:
  "snd (Approve ex_env oauth_NewService ex_db3 5 ex_consent ''k2'' (Some [7])) \<noteq> HandlerPanic"
  using redirects_are_registered [OF ex_reach3, of 5 ex_consent "''k2''" "Some [7]" "fst (Approve ex_env oauth_NewService ex_db3 5 ex_consent ''k2'' (Some [7]))"
    "snd (Approve ex_env oauth_NewService ex_db3 5 ex_consent ''k2'' (Some [7]))"] by (simp add: ex_state_def)

text \<open>A revoked token stays refused: the middleware finds no live row for it, and the token endpoint no live refresh token.\<close>

lemma revoked_access_refused:
  assumes inv: "oauth_inv db2" and keep: "keeps db1 db2" and a: "a1 \<in> set (accesses db1)" "at_hash a1 = hashToken env tok" "at_revoked a1 \<noteq> None"
  shows "ValidateAccessToken env db2 now tok = Inl ErrAccessTokenNotFound"
proof -
  from keep a obtain b where b: "b \<in> set (accesses db2)" "at_hash b = hashToken env tok" "at_revoked b \<noteq> None"
    unfolding keeps_def stays_def by metis
  have "x = b" if "x \<in> set (accesses db2)" "at_hash x = hashToken env tok" for x
    using that b inv distinct_map_eq [of at_hash "accesses db2" x b] by (simp add: oauth_inv_def keys_ok_def)
  then have "find (\<lambda>a. at_hash a = hashToken env tok \<and> list_ex (\<lambda>(c, _). cl_ID c = at_ClientID a \<and> cl_Active c) (clients db2)
      \<and> at_revoked a = None \<and> at_expires a > now) (accesses db2) = None"
    unfolding find_None_iff by (metis b(3))
  then show ?thesis by (simp add: ValidateAccessToken_def)
qed

lemma revoked_refresh_refused:
  assumes inv: "oauth_inv db2" and keep: "keeps db1 db2" and r: "r1 \<in> set (refreshes db1)" "rt_hash r1 = hashToken env tok" "rt_revoked r1 \<noteq> None"
  shows "RefreshAccessToken env svc db2 now (Some c) tok m \<noteq> (db', Inr resp)"
proof -
  from keep r obtain b where b: "b \<in> set (refreshes db2)" "rt_hash b = hashToken env tok" "rt_revoked b \<noteq> None"
    unfolding keeps_def stays_def by metis
  have "x = b" if "x \<in> set (refreshes db2)" "rt_hash x = hashToken env tok" for x
    using that b inv distinct_map_eq [of rt_hash "refreshes db2" x b] by (simp add: oauth_inv_def keys_ok_def)
  then have "find (\<lambda>r. rt_hash r = hashToken env tok \<and> rt_revoked r = None \<and> rt_expires r > now) (refreshes db2) = None"
    unfolding find_None_iff by (metis b(3))
  then show ?thesis by (auto simp: RefreshAccessToken_def Let_def split: if_splits option.splits)
qed

lemma revoke_access_image:
  assumes "a \<in> set xs" and "Q a"
  shows "\<exists>a' \<in> set (revoke_access now Q xs). at_hash a' = at_hash a \<and> at_revoked a' \<noteq> None"
  using assms by (intro bexI [of _ "if at_revoked a = None then a\<lparr>at_revoked := Some now\<rparr> else a"]) (auto simp: revoke_access_def)

text \<open>What the revocation endpoint marks.\<close>

lemma revoke_token_access:
  assumes run: "RevokeToken env db now (Some c) tok = (db1, None)" and a: "a \<in> set (accesses db)" "at_hash a = hashToken env tok"
  shows "\<exists>a1 \<in> set (accesses db1). at_hash a1 = at_hash a \<and> at_revoked a1 \<noteq> None"
proof -
  obtain a0 where "find (\<lambda>a. at_hash a = hashToken env tok) (accesses db) = Some a0"
    using a by (metis (mono_tags, lifting) find_None_iff not_None_eq)
  with run have "db1 = db\<lparr>accesses := revoke_access now (\<lambda>x. at_hash x = hashToken env tok) (accesses db)\<rparr>"
    by (auto simp: RevokeToken_def Let_def split: if_splits)
  with revoke_access_image [where Q = "\<lambda>x. at_hash x = hashToken env tok", OF a] show ?thesis by simp
qed

lemma revoke_token_refresh:
  assumes inv: "oauth_inv db" and run: "RevokeToken env db now (Some c) tok = (db1, None)" and na: "hashToken env tok \<notin> at_hash ` set (accesses db)"
    and r: "r \<in> set (refreshes db)" "rt_hash r = hashToken env tok"
  shows "db1 = db\<lparr>refreshes := revoke_refresh now (\<lambda>x. rt_ID x = rt_ID r) (refreshes db), accesses := revoke_access now (\<lambda>a. at_refresh a = rt_ID r) (accesses db)\<rparr>"
proof -
  have "find (\<lambda>a. at_hash a = hashToken env tok) (accesses db) = None" using na unfolding find_None_iff by (metis imageI)
  moreover have "find (\<lambda>r. rt_hash r = hashToken env tok) (refreshes db) = Some r"
    using inv r by (intro find_unique [of rt_hash]) (auto simp: oauth_inv_def keys_ok_def)
  ultimately show ?thesis using run by (auto simp: RevokeToken_def Let_def split: if_splits)
qed

text \<open>
  Revocation is final: when the revocation endpoint has confirmed the revocation of an access token or of a refresh token, the
  bearer middleware never again accepts that access token, nor any access token issued together with that
  refresh token, and the refresh token is never exchanged again.\<close>

theorem revocation_is_final:
  assumes "oauth_runs env svc (oauth_init ts us) s" and "RevokeToken env (run_db s) now (Some c) tok = (db1, None)"
    and "oauth_runs env svc (s\<lparr>run_db := db1\<rparr>) s2"
  shows "(\<forall>a \<in> set (accesses (run_db s)). at_hash a = hashToken env tok \<longrightarrow> ValidateAccessToken env (run_db s2) now2 tok = Inl ErrAccessTokenNotFound)
    \<and> (\<forall>r \<in> set (refreshes (run_db s)). rt_hash r = hashToken env tok \<and> hashToken env tok \<notin> at_hash ` set (accesses (run_db s)) \<longrightarrow>
        (\<forall>db' resp. RefreshAccessToken env svc (run_db s2) now2 (Some c2) tok m \<noteq> (db', Inr resp))
        \<and> (\<forall>a \<in> set (accesses (run_db s)). \<forall>tok'. at_refresh a = rt_ID r \<and> at_hash a = hashToken env tok' \<longrightarrow>
              ValidateAccessToken env (run_db s2) now2 tok' = Inl ErrAccessTokenNotFound))"
proof -
  have inv: "oauth_inv (run_db s)" using reachable_inv [OF assms(1)] by (simp add: run_inv_def)
  have "run_inv env (s\<lparr>run_db := db1\<rparr>)"
  proof (rule run_inv_derived [OF reachable_inv [OF assms(1)]])
    show "oauth_inv db1" using revoke_token_inv [OF inv assms(2)] by blast
    show "derived (run_db s) db1" using assms(2) by (auto simp: RevokeToken_def Let_def intro: derived_same split: option.splits if_splits)
  qed
  from runs_inv [OF assms(3) this] have inv2: "oauth_inv (run_db s2)" and keep: "keeps db1 (run_db s2)" by (simp_all add: run_inv_def)
  show ?thesis
  proof (intro conjI ballI impI)
    fix a assume a: "a \<in> set (accesses (run_db s))" "at_hash a = hashToken env tok"
    from revoke_token_access [OF assms(2) a] obtain a1 where "a1 \<in> set (accesses db1)" "at_hash a1 = hashToken env tok" "at_revoked a1 \<noteq> None" by (auto simp: a(2))
    then show "ValidateAccessToken env (run_db s2) now2 tok = Inl ErrAccessTokenNotFound" by (rule revoked_access_refused [OF inv2 keep])
  next
    fix r assume r: "r \<in> set (refreshes (run_db s))" and h: "rt_hash r = hashToken env tok \<and> hashToken env tok \<notin> at_hash ` set (accesses (run_db s))"
    have db1: "db1 = (run_db s)\<lparr>refreshes := revoke_refresh now (\<lambda>x. rt_ID x = rt_ID r) (refreshes (run_db s)),
        accesses := revoke_access now (\<lambda>a. at_refresh a = rt_ID r) (accesses (run_db s))\<rparr>"
      using revoke_token_refresh [OF inv assms(2) _ r] h by blast
    obtain r1 where "r1 \<in> set (refreshes db1)" "rt_hash r1 = hashToken env tok" "rt_revoked r1 \<noteq> None"
      using r by (rule revoke_refresh_image [where P = "\<lambda>x. rt_ID x = rt_ID r" and now = now]) (use h in \<open>auto simp: db1\<close>)
    then show "\<forall>db' resp. RefreshAccessToken env svc (run_db s2) now2 (Some c2) tok m \<noteq> (db', Inr resp)"
      using revoked_refresh_refused [OF inv2 keep] by blast
    fix a
    assume "a \<in> set (accesses (run_db s))"
    then have "\<exists>a1 \<in> set (accesses db1). at_hash a1 = at_hash a \<and> at_revoked a1 \<noteq> None" if "at_refresh a = rt_ID r"
      using revoke_access_image [of a _ "\<lambda>a. at_refresh a = rt_ID r", OF _ that] by (simp add: db1)
    then show "\<forall>tok'. at_refresh a = rt_ID r \<and> at_hash a = hashToken env tok' \<longrightarrow> ValidateAccessToken env (run_db s2) now2 tok' = Inl ErrAccessTokenNotFound"
      using revoked_access_refused [OF inv2 keep] by auto
  qed
qed

theorem revocation_is_final_witness:
  "ValidateAccessToken ex_env (fst (RevokeToken ex_env ex_db4 3 (Some ex_client) ''BQ'')) 4 ''BA'' = Inl ErrAccessTokenNotFound
    \<and> ValidateAccessToken ex_env ex_db4 4 ''BA'' \<noteq> Inl ErrAccessTokenNotFound"
proof -
  let ?db = "fst (RevokeToken ex_env ex_db4 3 (Some ex_client) ''BQ'')" and ?r = "refreshes ex_db4 ! 1" and ?a = "accesses ex_db4 ! 1"
  have run: "RevokeToken ex_env (run_db (ex_state ex_db4)) 3 (Some ex_client) ''BQ'' = (?db, None)" by code_simp
  have m: "?r \<in> set (refreshes (run_db (ex_state ex_db4)))" "?a \<in> set (accesses (run_db (ex_state ex_db4)))" by code_simp+
  have h: "rt_hash ?r = hashToken ex_env ''BQ'' \<and> hashToken ex_env ''BQ'' \<notin> at_hash ` set (accesses (run_db (ex_state ex_db4)))"
    "at_refresh ?a = rt_ID ?r \<and> at_hash ?a = hashToken ex_env ''BA''" by code_simp+
  have live: "ValidateAccessToken ex_env ex_db4 4 ''BA'' \<noteq> Inl ErrAccessTokenNotFound" by code_simp
  from revocation_is_final [OF ex_reach4 run rtranclp.rtrancl_refl] m h have "ValidateAccessToken ex_env ?db 4 ''BA'' = Inl ErrAccessTokenNotFound" by auto
  with live show ?thesis by blast
qed

end
