(* ===== verification/Cutover.thy ===== *)
theory Cutover
  imports AuditLog
begin

text \<open>
  The move of a tenant between search back ends, \<^verbatim>\<open>internal/search/cutover.go\<close>, \<^verbatim>\<open>cutover_worker.go\<close>,
  \<^verbatim>\<open>cutover_handlers.go\<close> and the parts of \<^verbatim>\<open>service.go\<close> it rests on: the job table, the migration of one
  claimed tenant (export, reindex, validate, flip, mark), the worker's tick with its two reconciliation
  passes, and the operator's synchronous cutover.

  The two tables are lists with their keys. The search engines are a parameter: a \<open>search_backend\<close> record of
  operations on a state \<open>'b\<close> that stands for the contents of all engines. What a run meets outside the program
  is an argument as well: the exported messages, the random sample, cancellation of the context, failing
  database calls and the clock (\<open>migration_outcome\<close>). A database call that fails changes nothing. The
  migrations a tick starts concern different tenants; the tick runs them one after the other, and theory
  \<open>CutoverRuns\<close> interleaves their steps. Log output and the \<^verbatim>\<open>InProgress\<close> gauge, which is back at its value when
  a migration returns, are left out. Tenant ids are compared as text.
\<close>

subsection \<open>Data\<close>

datatype CutoverState = CutoverPending | CutoverInProgress | CutoverCompleted | CutoverFailed

record CutoverJob =
  cj_TenantID :: string
  cj_TargetBackend :: string
  cj_State :: CutoverState
  cj_MailboxSize :: int
  cj_Threshold :: int
  cj_StartedAt :: "time option"
  cj_CompletedAt :: "time option"
  cj_FailureCount :: int
  cj_LastError :: string
  cj_CreatedAt :: time
  cj_UpdatedAt :: time

text \<open>The tenants with their \<^verbatim>\<open>search_backend\<close> column, the job table, and the clock of the database.\<close>

record cutover_db =
  backend_of :: "(string \<times> string) list"
  jobs :: "CutoverJob list"
  db_now :: time

record search_message =
  sm_MailboxID :: string
  sm_MessageID :: string
  sm_Subject :: string
  sm_Snippet :: string
  sm_From :: string

record SearchHit =
  sh_MessageID :: string
  sh_Subject :: string
  sh_Snippet :: string

datatype search_err =
    InvalidInput string | NotFound string | BackendUnavailable string | CutoverBusy | Failure string
  | Wrapped string search_err

fun err_text :: "search_err \<Rightarrow> string" where
  "err_text (InvalidInput s) = ''invalid input: '' @ s"
| "err_text (NotFound s) = ''not found'' @ (if s = [] then [] else '': '' @ s)"
| "err_text (BackendUnavailable s) = ''backend not available in this deployment: '' @ s"
| "err_text CutoverBusy = ''search: cutover already in progress for tenant/target''"
| "err_text (Failure s) = s"
| "err_text (Wrapped p e) = p @ '': '' @ err_text e"

record 'b search_backend =
  sb_SearchMessages :: "'b \<Rightarrow> string \<Rightarrow> string \<Rightarrow> nat \<Rightarrow> 'b \<times> (search_err + SearchHit list)"
  sb_DeleteIndex :: "'b \<Rightarrow> string \<Rightarrow> 'b \<times> search_err option"
  sb_MigrateIndex :: "'b \<Rightarrow> string \<Rightarrow> search_message list \<Rightarrow> 'b \<times> search_err option"

type_synonym 'b search_service = "string \<rightharpoonup> 'b search_backend"

subsection \<open>The job table\<close>

definition job_at :: "string \<Rightarrow> string \<Rightarrow> CutoverJob \<Rightarrow> bool" where
  "job_at tenantID target j \<longleftrightarrow> cj_TenantID j = tenantID \<and> cj_TargetBackend j = target"

definition update_jobs :: "(CutoverJob \<Rightarrow> bool) \<Rightarrow> (CutoverJob \<Rightarrow> CutoverJob) \<Rightarrow> cutover_db \<Rightarrow> cutover_db" where
  "update_jobs P f db = db\<lparr>jobs := map (\<lambda>j. if P j then f j else j) (jobs db)\<rparr>"

record CandidateFilter =
  cf_SourceBackend :: string
  cf_TargetBackend :: string
  cf_MaxFailures :: int
  cf_RetryAfterBefore :: time

definition ListCandidates :: "cutover_db \<Rightarrow> CandidateFilter \<Rightarrow> string list" where
  "ListCandidates db f =
     map fst (filter (\<lambda>(t, b). b = cf_SourceBackend f \<and>
       (case find (job_at t (cf_TargetBackend f)) (jobs db) of
          None \<Rightarrow> True
        | Some j \<Rightarrow> cj_State j = CutoverPending
            \<or> cj_State j = CutoverFailed \<and> cj_FailureCount j < cf_MaxFailures f \<and> cj_UpdatedAt j < cf_RetryAfterBefore f))
       (backend_of db))"

definition new_job :: "cutover_db \<Rightarrow> string \<Rightarrow> string \<Rightarrow> int \<Rightarrow> int \<Rightarrow> time \<Rightarrow> CutoverJob" where
  "new_job db tenantID target sz threshold now =
     \<lparr>cj_TenantID = tenantID, cj_TargetBackend = target, cj_State = CutoverPending, cj_MailboxSize = sz, cj_Threshold = threshold,
      cj_StartedAt = None, cj_CompletedAt = None, cj_FailureCount = 0, cj_LastError = [], cj_CreatedAt = db_now db, cj_UpdatedAt = now\<rparr>"

definition has_tenant :: "cutover_db \<Rightarrow> string \<Rightarrow> bool" where
  "has_tenant db tenantID \<longleftrightarrow> tenantID \<in> fst ` set (backend_of db)"

definition claimable :: "CutoverJob \<Rightarrow> bool" where
  "claimable j \<longleftrightarrow> cj_State j = CutoverPending \<or> cj_State j = CutoverFailed"

definition claimed_job :: "int \<Rightarrow> time \<Rightarrow> CutoverJob \<Rightarrow> CutoverJob" where
  "claimed_job sz now j =
     j\<lparr>cj_State := CutoverInProgress, cj_MailboxSize := sz, cj_StartedAt := Some now, cj_CompletedAt := None, cj_UpdatedAt := now\<rparr>"

definition Claim :: "cutover_db \<Rightarrow> string \<Rightarrow> string \<Rightarrow> int \<Rightarrow> int \<Rightarrow> time \<Rightarrow> cutover_db \<times> (search_err + bool)" where
  "Claim db tenantID target sz threshold now =
     (if \<not> has_tenant db tenantID then (db, Inl (Failure ''foreign key violation''))
      else let db1 = (if list_ex (job_at tenantID target) (jobs db) then db
                      else db\<lparr>jobs := jobs db @ [new_job db tenantID target sz threshold now]\<rparr>);
               hit = (\<lambda>j. job_at tenantID target j \<and> claimable j)
           in (update_jobs hit (claimed_job sz now) db1, Inr (length (filter hit (jobs db1)) = 1)))"

definition completed_job :: "time \<Rightarrow> CutoverJob \<Rightarrow> CutoverJob" where
  "completed_job now j = j\<lparr>cj_State := CutoverCompleted, cj_CompletedAt := Some now, cj_UpdatedAt := now, cj_FailureCount := 0, cj_LastError := []\<rparr>"

definition failed_job :: "string \<Rightarrow> time \<Rightarrow> CutoverJob \<Rightarrow> CutoverJob" where
  "failed_job reason now j = j\<lparr>cj_State := CutoverFailed, cj_FailureCount := cj_FailureCount j + 1, cj_LastError := reason, cj_UpdatedAt := now\<rparr>"

definition MarkCompleted :: "cutover_db \<Rightarrow> string \<Rightarrow> string \<Rightarrow> time \<Rightarrow> cutover_db" where
  "MarkCompleted db tenantID target now = update_jobs (job_at tenantID target) (completed_job now) db"

definition MarkFailed :: "cutover_db \<Rightarrow> string \<Rightarrow> string \<Rightarrow> string \<Rightarrow> time \<Rightarrow> cutover_db" where
  "MarkFailed db tenantID target reason now = update_jobs (job_at tenantID target) (failed_job reason now) db"

text \<open>The reconciled rows: in progress toward \<open>target\<close>, untouched since \<open>before\<close>, their tenant on \<open>backend\<close>.\<close>

definition stale :: "cutover_db \<Rightarrow> string \<Rightarrow> string \<Rightarrow> time \<Rightarrow> CutoverJob \<Rightarrow> bool" where
  "stale db target backend before j \<longleftrightarrow> cj_TargetBackend j = target \<and> cj_State j = CutoverInProgress \<and> cj_UpdatedAt j < before
     \<and> (cj_TenantID j, backend) \<in> set (backend_of db)"

definition ReconcileCompleted :: "cutover_db \<Rightarrow> string \<Rightarrow> time \<Rightarrow> time \<Rightarrow> cutover_db \<times> nat" where
  "ReconcileCompleted db target before now =
     (update_jobs (stale db target target before) (completed_job now) db, length (filter (stale db target target before) (jobs db)))"

definition ReconcileStale :: "cutover_db \<Rightarrow> string \<Rightarrow> string \<Rightarrow> time \<Rightarrow> time \<Rightarrow> cutover_db \<times> nat" where
  "ReconcileStale db source target before now =
     (update_jobs (stale db target source before) (failed_job ''stale in_progress: assumed crash recovery'' now) db,
      length (filter (stale db target source before) (jobs db)))"

definition pending_job :: "int \<Rightarrow> int \<Rightarrow> time \<Rightarrow> CutoverJob \<Rightarrow> CutoverJob" where
  "pending_job sz threshold now j =
     (if cj_State j = CutoverInProgress then j
      else j\<lparr>cj_State := CutoverPending, cj_MailboxSize := sz, cj_Threshold := threshold, cj_FailureCount := 0, cj_LastError := [],
             cj_CompletedAt := None, cj_UpdatedAt := now\<rparr>)"

definition UpsertPending :: "cutover_db \<Rightarrow> string \<Rightarrow> string \<Rightarrow> int \<Rightarrow> int \<Rightarrow> time \<Rightarrow> cutover_db \<times> (search_err + CutoverJob)" where
  "UpsertPending db tenantID target sz threshold now =
     (if \<not> has_tenant db tenantID then (db, Inl (Wrapped ''upsert pending cutover'' (Failure ''foreign key violation'')))
      else case find (job_at tenantID target) (jobs db) of
          None \<Rightarrow> let j = new_job db tenantID target sz threshold now in (db\<lparr>jobs := jobs db @ [j]\<rparr>, Inr j)
        | Some j \<Rightarrow> (update_jobs (job_at tenantID target) (pending_job sz threshold now) db, Inr (pending_job sz threshold now j)))"

definition cutover_Get :: "cutover_db \<Rightarrow> string \<Rightarrow> string \<Rightarrow> search_err + CutoverJob" where
  "cutover_Get db tenantID target =
     (case find (job_at tenantID target) (jobs db) of None \<Rightarrow> Inl (NotFound []) | Some j \<Rightarrow> Inr j)"

definition cutover_List :: "cutover_db \<Rightarrow> string \<Rightarrow> CutoverJob list" where
  "cutover_List db tenantID = sort_key (\<lambda>j. (- cj_UpdatedAt j, cj_TargetBackend j)) (filter (\<lambda>j. cj_TenantID j = tenantID) (jobs db))"

subsection \<open>The search service\<close>

definition IsValidBackend :: "string \<Rightarrow> bool" where
  "IsValidBackend name \<longleftrightarrow>
     name \<in> {''meilisearch'', ''opensearch'', ''shared_meilisearch'', ''shared_opensearch'', ''dedicated_opensearch''}"

definition GetBackend :: "cutover_db \<Rightarrow> string \<Rightarrow> search_err + string" where
  "GetBackend db tenantID =
     (if tenantID = [] then Inl (InvalidInput ''tenantID required'')
      else case map_of (backend_of db) tenantID of
          None \<Rightarrow> Inl (NotFound [])
        | Some b \<Rightarrow> Inr (if b = [] then ''shared_meilisearch'' else b))"

definition IsBackendAvailable :: "'b search_service \<Rightarrow> string \<Rightarrow> bool" where
  "IsBackendAvailable svc name \<longleftrightarrow> svc name \<noteq> None"

definition set_backend :: "string \<Rightarrow> string \<Rightarrow> cutover_db \<Rightarrow> cutover_db" where
  "set_backend tenantID backend db = db\<lparr>backend_of := map (\<lambda>(t, b). if t = tenantID then (t, backend) else (t, b)) (backend_of db)\<rparr>"

text \<open>\<open>fault\<close> is the error of the transaction, if it fails.\<close>

definition SetBackend :: "'b search_service \<Rightarrow> cutover_db \<Rightarrow> string \<Rightarrow> string \<Rightarrow> search_err option \<Rightarrow> cutover_db \<times> search_err option" where
  "SetBackend svc db tenantID backend fault =
     (if tenantID = [] \<or> backend = [] then (db, Some (InvalidInput ''tenantID and backend required''))
      else if \<not> IsValidBackend backend then (db, Some (InvalidInput (''backend '' @ backend @ '' is not a recognised value'')))
      else if \<not> IsBackendAvailable svc backend then (db, Some (BackendUnavailable backend))
      else case fault of
          Some e \<Rightarrow> (db, Some e)
        | None \<Rightarrow> if has_tenant db tenantID then (set_backend tenantID backend db, None) else (db, Some (NotFound [])))"

definition reindexInto :: "'b search_service \<Rightarrow> 'b \<Rightarrow> string \<Rightarrow> string \<Rightarrow> search_message list \<Rightarrow> 'b \<times> search_err option" where
  "reindexInto svc ix tenantID name msgs =
     (case svc name of
        None \<Rightarrow> (ix, Some (NotFound (''backend '' @ name @ '' not configured'')))
      | Some b \<Rightarrow>
          (case sb_DeleteIndex b ix tenantID of
             (ix1, Some e) \<Rightarrow> (ix1, Some (Wrapped ''reindex: delete'' e))
           | (ix1, None) \<Rightarrow> if msgs = [] then (ix1, None) else sb_MigrateIndex b ix1 tenantID msgs))"

definition ReindexTo :: "'b search_service \<Rightarrow> 'b \<Rightarrow> string \<Rightarrow> string \<Rightarrow> search_message list \<Rightarrow> 'b \<times> search_err option" where
  "ReindexTo svc ix tenantID backend msgs =
     (if tenantID = [] \<or> backend = [] then (ix, Some (InvalidInput ''tenantID and backend required''))
      else if \<not> IsValidBackend backend then (ix, Some (InvalidInput (''backend '' @ backend @ '' is not a recognised value'')))
      else if \<not> IsBackendAvailable svc backend then (ix, Some (BackendUnavailable backend))
      else reindexInto svc ix tenantID backend msgs)"

definition validationQuery :: "search_message \<Rightarrow> string" where
  "validationQuery m = (if sm_Subject m \<noteq> [] then sm_Subject m else sm_From m)"

fun containsMessageID :: "SearchHit list \<Rightarrow> string \<Rightarrow> bool" where
  "containsMessageID [] i \<longleftrightarrow> False"
| "containsMessageID (h # hs) i \<longleftrightarrow> sh_MessageID h = i \<or> containsMessageID hs i"

text \<open>\<open>perm\<close> is the permutation drawn by \<^verbatim>\<open>rand.Perm\<close>.\<close>

definition sampleMessages :: "nat list \<Rightarrow> search_message list \<Rightarrow> nat \<Rightarrow> search_message list" where
  "sampleMessages perm msgs n = (if length msgs \<le> n then msgs else map ((!) msgs) (take n perm))"

abbreviation cutoverValidationSampleSize :: nat where "cutoverValidationSampleSize \<equiv> 10"
abbreviation cutoverValidationLimit :: nat where "cutoverValidationLimit \<equiv> 50"
abbreviation cutoverValidationAttempts :: nat where "cutoverValidationAttempts \<equiv> 5"

text \<open>The retry loop: \<open>n\<close> attempts remain, \<open>cancelled k\<close> says whether the context is done before the attempt with \<open>k\<close> left.\<close>

fun search_attempts :: "'b search_backend \<Rightarrow> (nat \<Rightarrow> bool) \<Rightarrow> string \<Rightarrow> string \<Rightarrow> search_message \<Rightarrow> nat \<Rightarrow> 'b \<Rightarrow> search_err option
    \<Rightarrow> 'b \<times> search_err option" where
  "search_attempts b cancelled tenantID backend m 0 ix lastErr = (ix, lastErr)"
| "search_attempts b cancelled tenantID backend m (Suc n) ix lastErr =
     (if Suc n < cutoverValidationAttempts \<and> cancelled (Suc n) then (ix, Some (Failure ''context canceled''))
      else case sb_SearchMessages b ix tenantID (validationQuery m) cutoverValidationLimit of
          (ix1, Inl e) \<Rightarrow> search_attempts b cancelled tenantID backend m n ix1 (Some (Wrapped (''validate: search in '' @ backend) e))
        | (ix1, Inr hits) \<Rightarrow>
            if containsMessageID hits (sm_MessageID m) then (ix1, None)
            else if length hits \<ge> cutoverValidationLimit then (ix1, None)
            else search_attempts b cancelled tenantID backend m n ix1
                   (Some (Failure (''validate: message '' @ sm_MessageID m @ '' not searchable in '' @ backend @ '' after reindex''))))"

definition validateSearchable :: "'b search_backend \<Rightarrow> (nat \<Rightarrow> bool) \<Rightarrow> 'b \<Rightarrow> string \<Rightarrow> string \<Rightarrow> search_message \<Rightarrow> 'b \<times> search_err option" where
  "validateSearchable b cancelled ix tenantID backend m = search_attempts b cancelled tenantID backend m cutoverValidationAttempts ix None"

fun validate_all :: "'b search_backend \<Rightarrow> (nat \<Rightarrow> nat \<Rightarrow> bool) \<Rightarrow> 'b \<Rightarrow> string \<Rightarrow> string \<Rightarrow> search_message list \<Rightarrow> 'b \<times> search_err option" where
  "validate_all b cancelled ix tenantID backend [] = (ix, None)"
| "validate_all b cancelled ix tenantID backend (m # ms) =
     (case validateSearchable b (cancelled (length ms)) ix tenantID backend m of
        (ix1, Some e) \<Rightarrow> (ix1, Some e)
      | (ix1, None) \<Rightarrow> validate_all b cancelled ix1 tenantID backend ms)"

definition probed :: "nat list \<Rightarrow> search_message list \<Rightarrow> search_message list" where
  "probed perm msgs = sampleMessages perm (filter (\<lambda>m. sm_MessageID m \<noteq> [] \<and> validationQuery m \<noteq> []) msgs) cutoverValidationSampleSize"

definition Validate :: "'b search_service \<Rightarrow> (nat \<Rightarrow> nat \<Rightarrow> bool) \<Rightarrow> nat list \<Rightarrow> 'b \<Rightarrow> string \<Rightarrow> string \<Rightarrow> search_message list
    \<Rightarrow> 'b \<times> search_err option" where
  "Validate svc cancelled perm ix tenantID backend msgs =
     (if tenantID = [] \<or> backend = [] then (ix, Some (InvalidInput ''tenantID and backend required''))
      else case svc backend of
          None \<Rightarrow> (ix, Some (NotFound (''backend '' @ backend @ '' not configured'')))
        | Some b \<Rightarrow> validate_all b cancelled ix tenantID backend (probed perm msgs))"

subsection \<open>One migration\<close>

datatype audit_value = AText string | ANumber int

record 'b cutover_world =
  cw_db :: cutover_db
  cw_ix :: 'b
  cw_audit :: "audit_value audit_row list option option"
  cw_Completed :: nat
  cw_Failed :: nat

text \<open>
  What a migration meets: the answer of the message source, the sample, cancellation, the outcome of the
  database calls, the clock at its end, and id and clock of the audit row. \<open>mo_mark\<close> are the errors of
  the successive attempts to mark the job completed; an attempt beyond the list succeeds.
\<close>

record migration_outcome =
  mo_messages :: "search_err + search_message list"
  mo_perm :: "nat list"
  mo_cancelled :: "nat \<Rightarrow> nat \<Rightarrow> bool"
  mo_flip :: "search_err option"
  mo_mark :: "search_err option list"
  mo_mark_cancelled :: "nat \<Rightarrow> bool"
  mo_mark_failed :: "search_err option"
  mo_now :: time
  mo_audit_id :: string
  mo_audit_now :: time

record 'b migration_deps =
  md_svc :: "'b search_service"
  md_markCompletedRetries :: nat
  md_sha :: "string \<Rightarrow> string"
  md_audit_env :: "audit_value audit_env"
  md_actorType :: string
  md_actorID :: string

definition audit_entry :: "'b migration_deps \<Rightarrow> string \<Rightarrow> string \<Rightarrow> string \<Rightarrow> string \<Rightarrow> nat \<Rightarrow> string \<Rightarrow> audit_value Entry" where
  "audit_entry d tenantID source target action messages failure =
     \<lparr>e_TenantID = tenantID, e_ActorID = md_actorID d, e_ActorType = (if md_actorType d = [] then ''system'' else md_actorType d),
      e_Action = action, e_ResourceType = ''search_backend'', e_ResourceID = target,
      e_Metadata = [(''target_backend'', AText target)]
        @ (if source \<noteq> [] then [(''source_backend'', AText source)] else [])
        @ (if action = ''search_cutover_completed'' then [(''messages_migrated'', ANumber (int messages))] else [])
        @ (if failure \<noteq> [] then [(''error'', AText failure)] else []),
      e_IPAddress = [], e_UserAgent = [], e_ID = [], e_PrevHash = [], e_EntryHash = [], e_CreatedAt = 0\<rparr>"

text \<open>\<open>cw_audit\<close> is \<open>None\<close> when no audit log is wired; an append that fails is only logged.\<close>

definition recordAudit :: "'b migration_deps \<Rightarrow> migration_outcome \<Rightarrow> 'b cutover_world \<Rightarrow> string \<Rightarrow> string \<Rightarrow> string \<Rightarrow> string \<Rightarrow> nat \<Rightarrow> string
    \<Rightarrow> 'b cutover_world" where
  "recordAudit d o1 w tenantID source target action messages failure =
     (case cw_audit w of
        None \<Rightarrow> w
      | Some pool \<Rightarrow> w\<lparr>cw_audit := Some (fst (audit_Log (md_sha d) (md_audit_env d) (has_tenant (cw_db w)) pool (mo_audit_id o1) (mo_audit_now o1)
          (audit_entry d tenantID source target action messages failure)))\<rparr>)"

definition markFailed :: "'b migration_deps \<Rightarrow> migration_outcome \<Rightarrow> 'b cutover_world \<Rightarrow> string \<Rightarrow> string \<Rightarrow> string \<Rightarrow> string \<Rightarrow> search_err
    \<Rightarrow> 'b cutover_world \<times> search_err option" where
  "markFailed d o1 w tenantID source target stage cause =
     (let reason = stage @ '': '' @ err_text cause;
          db1 = (if mo_mark_failed o1 = None then MarkFailed (cw_db w) tenantID target reason (mo_now o1) else cw_db w)
      in (recordAudit d o1 (w\<lparr>cw_db := db1, cw_Failed := cw_Failed w + 1\<rparr>) tenantID source target ''search_cutover_failed'' 0 reason,
          Some (Wrapped stage cause)))"

fun mark_attempts :: "(nat \<Rightarrow> bool) \<Rightarrow> time \<Rightarrow> string \<Rightarrow> string \<Rightarrow> nat \<Rightarrow> search_err option list \<Rightarrow> cutover_db \<Rightarrow> search_err option
    \<Rightarrow> cutover_db \<times> search_err option" where
  "mark_attempts cancelled now tenantID target 0 outcomes db lastErr = (db, lastErr)"
| "mark_attempts cancelled now tenantID target (Suc n) (Some e # outcomes) db lastErr =
     (if cancelled n then (db, Some (Failure ''context canceled''))
      else mark_attempts cancelled now tenantID target n outcomes db (Some e))"
| "mark_attempts cancelled now tenantID target (Suc n) (None # outcomes) db lastErr = (MarkCompleted db tenantID target now, None)"
| "mark_attempts cancelled now tenantID target (Suc n) [] db lastErr = (MarkCompleted db tenantID target now, None)"

definition markCompletedWithRetry :: "'b migration_deps \<Rightarrow> migration_outcome \<Rightarrow> cutover_db \<Rightarrow> string \<Rightarrow> string \<Rightarrow> cutover_db \<times> search_err option" where
  "markCompletedWithRetry d o1 db tenantID target =
     mark_attempts (mo_mark_cancelled o1) (mo_now o1) tenantID target (md_markCompletedRetries d) (mo_mark o1) db None"

definition runMigration :: "'b migration_deps \<Rightarrow> migration_outcome \<Rightarrow> 'b cutover_world \<Rightarrow> string \<Rightarrow> string \<Rightarrow> string
    \<Rightarrow> 'b cutover_world \<times> search_err option" where
  "runMigration d o1 w tenantID source target =
     (case mo_messages o1 of
        Inl e \<Rightarrow> markFailed d o1 w tenantID source target ''fetch messages'' e
      | Inr msgs \<Rightarrow>
        (case ReindexTo (md_svc d) (cw_ix w) tenantID target msgs of
           (ix1, Some e) \<Rightarrow> markFailed d o1 (w\<lparr>cw_ix := ix1\<rparr>) tenantID source target ''reindex'' e
         | (ix1, None) \<Rightarrow>
           (case Validate (md_svc d) (mo_cancelled o1) (mo_perm o1) ix1 tenantID target msgs of
              (ix2, Some e) \<Rightarrow> markFailed d o1 (w\<lparr>cw_ix := ix2\<rparr>) tenantID source target ''validate'' e
            | (ix2, None) \<Rightarrow>
              (case SetBackend (md_svc d) (cw_db w) tenantID target (mo_flip o1) of
                 (db1, Some e) \<Rightarrow> markFailed d o1 (w\<lparr>cw_ix := ix2, cw_db := db1\<rparr>) tenantID source target ''set backend'' e
               | (db1, None) \<Rightarrow>
                   let w1 = recordAudit d o1 (w\<lparr>cw_ix := ix2, cw_db := db1, cw_Completed := cw_Completed w + 1\<rparr>)
                              tenantID source target ''search_cutover_completed'' (length msgs) []
                   in (case markCompletedWithRetry d o1 (cw_db w1) tenantID target of
                         (db2, Some e) \<Rightarrow> (w1\<lparr>cw_db := db2\<rparr>, Some (Wrapped ''mark completed'' e))
                       | (db2, None) \<Rightarrow> (w1\<lparr>cw_db := db2\<rparr>, None))))))"

subsection \<open>The worker\<close>

record CutoverConfig =
  cc_Threshold :: int
  cc_MaxFailures :: int
  cc_MaxRetryGap :: duration
  cc_ReconcileAfter :: duration
  cc_Transitions :: "(string \<times> string) list"
  cc_MarkCompletedRetries :: int

definition DefaultCutoverTransitions :: "(string \<times> string) list" where
  "DefaultCutoverTransitions = [(''meilisearch'', ''opensearch''), (''shared_meilisearch'', ''shared_opensearch'')]"

definition NewCutoverWorker :: "CutoverConfig \<Rightarrow> CutoverConfig" where
  "NewCutoverWorker cfg =
     \<lparr>cc_Threshold = (if cc_Threshold cfg \<le> 0 then 100000 * 16 * 1024 else cc_Threshold cfg),
      cc_MaxFailures = (if cc_MaxFailures cfg \<le> 0 then 5 else cc_MaxFailures cfg),
      cc_MaxRetryGap = (if cc_MaxRetryGap cfg \<le> 0 then 3600 * nanos_per_s else cc_MaxRetryGap cfg),
      cc_ReconcileAfter = (if cc_ReconcileAfter cfg \<le> 0 then 1800 * nanos_per_s else cc_ReconcileAfter cfg),
      cc_Transitions = (if cc_Transitions cfg = [] then DefaultCutoverTransitions else cc_Transitions cfg),
      cc_MarkCompletedRetries = (if cc_MarkCompletedRetries cfg \<le> 0 then 3 else cc_MarkCompletedRetries cfg)\<rparr>"

text \<open>
  What a tick meets: the sizes reported for the tenants, the time each claim reads and what each migration
  meets, per tenant and target. \<open>tk_claim_fault\<close> is a failing claim.
\<close>

record tick_outcome =
  tk_size :: "string \<Rightarrow> search_err + int"
  tk_claim_now :: "string \<Rightarrow> string \<Rightarrow> time"
  tk_claim_fault :: "string \<Rightarrow> string \<Rightarrow> search_err option"
  tk_migration :: "string \<Rightarrow> string \<Rightarrow> migration_outcome"

definition cutoverOne :: "CutoverConfig \<Rightarrow> 'b migration_deps \<Rightarrow> tick_outcome \<Rightarrow> 'b cutover_world \<Rightarrow> string \<Rightarrow> int \<Rightarrow> string \<Rightarrow> string
    \<Rightarrow> 'b cutover_world \<times> search_err option" where
  "cutoverOne cfg d tk w tenantID sz source target =
     (case tk_claim_fault tk tenantID target of
        Some e \<Rightarrow> (w, Some (Wrapped ''claim'' e))
      | None \<Rightarrow>
          (case Claim (cw_db w) tenantID target sz (cc_Threshold cfg) (tk_claim_now tk tenantID target) of
             (db1, Inl e) \<Rightarrow> (w\<lparr>cw_db := db1\<rparr>, Some (Wrapped ''claim'' e))
           | (db1, Inr False) \<Rightarrow> (w\<lparr>cw_db := db1\<rparr>, None)
           | (db1, Inr True) \<Rightarrow> runMigration d (tk_migration tk tenantID target) (w\<lparr>cw_db := db1\<rparr>) tenantID source target))"

fun migrate_each :: "CutoverConfig \<Rightarrow> 'b migration_deps \<Rightarrow> tick_outcome \<Rightarrow> string \<Rightarrow> string \<Rightarrow> string list \<Rightarrow> 'b cutover_world \<Rightarrow> 'b cutover_world" where
  "migrate_each cfg d tk source target [] w = w"
| "migrate_each cfg d tk source target (t # ts) w =
     migrate_each cfg d tk source target ts
       (case tk_size tk t of
          Inl _ \<Rightarrow> w
        | Inr sz \<Rightarrow> if sz < cc_Threshold cfg then w else fst (cutoverOne cfg d tk w t sz source target))"

definition tickTransition :: "CutoverConfig \<Rightarrow> 'b migration_deps \<Rightarrow> tick_outcome \<Rightarrow> time \<Rightarrow> string \<times> string \<Rightarrow> 'b cutover_world \<Rightarrow> 'b cutover_world" where
  "tickTransition cfg d tk now tr w =
     (let staleBefore = now - cc_ReconcileAfter cfg;
          db1 = fst (ReconcileCompleted (cw_db w) (snd tr) staleBefore now);
          db2 = fst (ReconcileStale db1 (fst tr) (snd tr) staleBefore now);
          ids = ListCandidates db2 \<lparr>cf_SourceBackend = fst tr, cf_TargetBackend = snd tr, cf_MaxFailures = cc_MaxFailures cfg,
                                    cf_RetryAfterBefore = now - cc_MaxRetryGap cfg\<rparr>
      in migrate_each cfg d tk (fst tr) (snd tr) ids (w\<lparr>cw_db := db2\<rparr>))"

definition Tick :: "CutoverConfig \<Rightarrow> 'b migration_deps \<Rightarrow> (string \<times> string \<Rightarrow> tick_outcome \<times> time) \<Rightarrow> 'b cutover_world \<Rightarrow> 'b cutover_world" where
  "Tick cfg d tks w = fold (\<lambda>tr. tickTransition cfg d (fst (tks tr)) (snd (tks tr)) tr) (cc_Transitions cfg) w"

subsection \<open>The operator's cutover\<close>

definition InitiateCutover :: "cutover_db \<Rightarrow> string \<Rightarrow> string \<Rightarrow> int \<Rightarrow> int \<Rightarrow> time \<Rightarrow> cutover_db \<times> (search_err + CutoverJob)" where
  "InitiateCutover db tenantID target sz threshold now =
     (if tenantID = [] \<or> target = [] then (db, Inl (InvalidInput ''tenantID and targetBackend required''))
      else if \<not> IsValidBackend target then (db, Inl (InvalidInput (''backend '' @ target @ '' is not a recognised value'')))
      else case GetBackend db tenantID of
          Inl e \<Rightarrow> (db, Inl e)
        | Inr cur \<Rightarrow>
            if cur = target then (db, Inl (InvalidInput (''tenant already on backend '' @ target)))
            else UpsertPending db tenantID target sz threshold now)"

definition ExecuteCutover :: "'b migration_deps \<Rightarrow> migration_outcome \<Rightarrow> 'b cutover_world \<Rightarrow> string \<Rightarrow> string \<Rightarrow> string \<Rightarrow> int \<Rightarrow> int \<Rightarrow> time
    \<Rightarrow> 'b cutover_world \<times> search_err option" where
  "ExecuteCutover d o1 w tenantID target actorID sz threshold now =
     (if tenantID = [] \<or> target = [] then (w, Some (InvalidInput ''tenantID and targetBackend required''))
      else if \<not> IsValidBackend target then (w, Some (InvalidInput (''backend '' @ target @ '' is not a recognised value'')))
      else case GetBackend (cw_db w) tenantID of
          Inl e \<Rightarrow> (w, Some e)
        | Inr cur \<Rightarrow>
            if cur = target then (w, Some (InvalidInput (''tenant already on backend '' @ target)))
            else (case Claim (cw_db w) tenantID target sz threshold now of
                (db1, Inl e) \<Rightarrow> (w\<lparr>cw_db := db1\<rparr>, Some (Wrapped ''claim'' e))
              | (db1, Inr False) \<Rightarrow> (w\<lparr>cw_db := db1\<rparr>, Some CutoverBusy)
              | (db1, Inr True) \<Rightarrow>
                  runMigration (d\<lparr>md_actorType := ''admin'', md_actorID := actorID\<rparr>) o1 (w\<lparr>cw_db := db1\<rparr>) tenantID cur target))"

definition tenantSize :: "(string \<Rightarrow> search_err + int) option \<Rightarrow> string \<Rightarrow> int" where
  "tenantSize sizer tenantID = (case sizer of None \<Rightarrow> 0 | Some f \<Rightarrow> (case f tenantID of Inl _ \<Rightarrow> 0 | Inr n \<Rightarrow> n))"

fun root_err :: "search_err \<Rightarrow> search_err" where
  "root_err (Wrapped p e) = root_err e"
| "root_err e = e"

definition statusFor :: "search_err \<Rightarrow> int" where
  "statusFor err = (case root_err err of InvalidInput _ \<Rightarrow> 400 | BackendUnavailable _ \<Rightarrow> 400 | NotFound _ \<Rightarrow> 404 | _ \<Rightarrow> 500)"

definition checkTenantScope :: "string \<Rightarrow> string \<Rightarrow> bool" where
  "checkTenantScope ctxTenantID pathTenantID \<longleftrightarrow> ctxTenantID \<noteq> [] \<and> ctxTenantID = pathTenantID"

text \<open>\<open>body\<close> is the target of the decoded request, \<open>None\<close> when it does not decode; the answer is a status with the job.\<close>

definition initiate :: "'b migration_deps \<Rightarrow> migration_outcome \<Rightarrow> 'b cutover_world \<Rightarrow> string \<Rightarrow> string \<Rightarrow> string option \<Rightarrow> string
    \<Rightarrow> (string \<Rightarrow> search_err + int) option \<Rightarrow> int \<Rightarrow> time \<Rightarrow> time \<Rightarrow> 'b cutover_world \<times> int \<times> CutoverJob option" where
  "initiate d o1 w ctxTenantID tenantID body actorID sizer threshold now1 now2 =
     (if \<not> checkTenantScope ctxTenantID tenantID then (w, 403, None)
      else case body of
          None \<Rightarrow> (w, 400, None)
        | Some target \<Rightarrow>
            (case InitiateCutover (cw_db w) tenantID target (tenantSize sizer tenantID) threshold now1 of
               (db1, Inl e) \<Rightarrow> (w\<lparr>cw_db := db1\<rparr>, statusFor e, None)
             | (db1, Inr job) \<Rightarrow>
                 if cj_State job = CutoverInProgress then (w\<lparr>cw_db := db1\<rparr>, 409, None)
                 else (case ExecuteCutover d o1 (w\<lparr>cw_db := db1\<rparr>) tenantID target actorID (tenantSize sizer tenantID) threshold now2 of
                     (w2, Some e) \<Rightarrow> (w2, if root_err e = CutoverBusy then 409 else statusFor e, None)
                   | (w2, None) \<Rightarrow>
                       (case cutover_Get (cw_db w2) tenantID target of
                          Inl e \<Rightarrow> (w2, statusFor e, None)
                        | Inr job2 \<Rightarrow> (w2, 200, Some job2)))))"

end
