(* ===== verification/CutoverRuns.thy ===== *)
theory CutoverRuns
  imports Cutover
begin

text \<open>
  Correctness of the search cutover of theory \<open>Cutover\<close>: what one migration leaves behind on every path, recovery
  of jobs whose worker died, the bound on automatic retries, progress of a tick, and exclusiveness of the
  claim when the steps of many workers and operators interleave.
\<close>

subsection \<open>The job table as a map\<close>

abbreviation job :: "cutover_db \<Rightarrow> string \<Rightarrow> string \<Rightarrow> CutoverJob option" where
  "job db t target \<equiv> find (job_at t target) (jobs db)"

definition keeps_key :: "(CutoverJob \<Rightarrow> CutoverJob) \<Rightarrow> bool" where
  "keeps_key f \<longleftrightarrow> (\<forall>j. cj_TenantID (f j) = cj_TenantID j \<and> cj_TargetBackend (f j) = cj_TargetBackend j)"

lemma keeps_key_jobs [simp]:
  "keeps_key (claimed_job sz now)" "keeps_key (completed_job now)" "keeps_key (failed_job reason now)" "keeps_key (pending_job sz th now)"
  by (auto simp: keeps_key_def claimed_job_def completed_job_def failed_job_def pending_job_def)

lemma job_update [simp]:
  assumes "keeps_key f"
  shows "job (update_jobs P f db) t target = map_option (\<lambda>j. if P j then f j else j) (job db t target)"
proof -
  have "find (job_at t target) (map (\<lambda>j. if P j then f j else j) js) = map_option (\<lambda>j. if P j then f j else j) (find (job_at t target) js)" for js
    using assms by (induction js) (auto simp: keeps_key_def job_at_def)
  then show ?thesis by (simp add: update_jobs_def)
qed

lemma update_jobs_frame [simp]:
  "backend_of (update_jobs P f db) = backend_of db" "db_now (update_jobs P f db) = db_now db" "has_tenant (update_jobs P f db) = has_tenant db"
  by (auto simp: update_jobs_def has_tenant_def)

lemma tenants_set_backend [simp]: "map fst (backend_of (set_backend t b db)) = map fst (backend_of db)"
proof -
  have "map fst (map (\<lambda>(x, c). if x = t then (x, b) else (x, c)) l) = map fst l" for l :: "(string \<times> string) list" by (induction l) auto
  then show ?thesis by (simp add: set_backend_def del: map_map)
qed

lemma has_tenant_set_backend [simp]: "has_tenant (set_backend t b db) = has_tenant db"
  unfolding has_tenant_def by (metis (no_types) list.set_map tenants_set_backend)

lemma job_at_find: "job db t target = Some j \<Longrightarrow> job_at t target j \<and> j \<in> set (jobs db)"
  by (auto dest: find_SomeD)

lemma set_backend_frame [simp]: "jobs (set_backend t b db) = jobs db" "db_now (set_backend t b db) = db_now db"
  by (simp_all add: set_backend_def)

text \<open>The keys of the two tables, and the foreign key.\<close>

abbreviation key :: "CutoverJob \<Rightarrow> string \<times> string" where
  "key j \<equiv> (cj_TenantID j, cj_TargetBackend j)"

definition tables_ok :: "cutover_db \<Rightarrow> bool" where
  "tables_ok db \<longleftrightarrow> distinct (map fst (backend_of db)) \<and> distinct (map key (jobs db)) \<and> (\<forall>j \<in> set (jobs db). has_tenant db (cj_TenantID j))"

lemma job_iff: "tables_ok db \<Longrightarrow> job db t target = Some j \<longleftrightarrow> j \<in> set (jobs db) \<and> key j = (t, target)"
  by (auto simp: tables_ok_def job_at_def dest!: find_SomeD intro: find_unique [of key])

lemma update_tables_ok [simp]:
  assumes "tables_ok db" and "keeps_key f"
  shows "tables_ok (update_jobs P f db)"
proof -
  have "map key (map (\<lambda>j. if P j then f j else j) (jobs db)) = map key (jobs db)"
    using assms(2) by (auto simp: keeps_key_def)
  then have "distinct (map key (jobs (update_jobs P f db)))" using assms(1) unfolding tables_ok_def update_jobs_def by (simp del: map_map)
  moreover have "\<forall>j \<in> set (jobs (update_jobs P f db)). has_tenant db (cj_TenantID j)"
    using assms by (auto simp: tables_ok_def keeps_key_def update_jobs_def)
  ultimately show ?thesis using assms(1) by (simp add: tables_ok_def)
qed

lemma set_backend_tables_ok [simp]: "tables_ok db \<Longrightarrow> tables_ok (set_backend t b db)"
  by (simp add: tables_ok_def)

lemma map_of_set_backend [simp]:
  "map_of (backend_of (set_backend t b db)) t' = (if t' = t then map_option (\<lambda>_. b) (map_of (backend_of db) t) else map_of (backend_of db) t')"
proof -
  have "map_of (map (\<lambda>(x, c). if x = t then (x, b) else (x, c)) l) t' = (if t' = t then map_option (\<lambda>_. b) (map_of l t) else map_of l t')" for l
    by (induction l) auto
  then show ?thesis by (simp add: set_backend_def)
qed

lemma has_tenant_map_of: "has_tenant db t \<longleftrightarrow> (\<exists>b. map_of (backend_of db) t = Some b)"
  by (metis has_tenant_def map_of_eq_None_iff option.exhaust option.distinct(1))

text \<open>Claiming, in terms of the map: the claim succeeds unless the job is in progress or completed.\<close>

definition claim_base :: "cutover_db \<Rightarrow> string \<Rightarrow> string \<Rightarrow> int \<Rightarrow> int \<Rightarrow> time \<Rightarrow> CutoverJob" where
  "claim_base db t target sz th now = (case job db t target of None \<Rightarrow> new_job db t target sz th now | Some j \<Rightarrow> j)"

lemma claim_cases:
  assumes "tables_ok db" and "has_tenant db t"
  shows "\<exists>db'. Claim db t target sz th now = (db', Inr (claimable (claim_base db t target sz th now)))
    \<and> tables_ok db' \<and> backend_of db' = backend_of db
    \<and> job db' t target = Some (if claimable (claim_base db t target sz th now) then claimed_job sz now (claim_base db t target sz th now)
                                else claim_base db t target sz th now)
    \<and> (\<forall>t' b'. (t', b') \<noteq> (t, target) \<longrightarrow> job db' t' b' = job db t' b')"
proof -
  define db1 where "db1 = (if list_ex (job_at t target) (jobs db) then db else db\<lparr>jobs := jobs db @ [new_job db t target sz th now]\<rparr>)"
  let ?c = "claim_base db t target sz th now" and ?hit = "\<lambda>j. job_at t target j \<and> claimable j"
  have new: "job_at t target (new_job db t target sz th now)" by (simp add: job_at_def new_job_def)
  have base: "job db1 t target = Some ?c"
    unfolding db1_def claim_base_def using new by (auto simp: list_ex_iff find_append find_None_iff split: option.splits dest: job_at_find)
  have ok1: "tables_ok db1"
    using assms by (auto simp: db1_def tables_ok_def has_tenant_def list_ex_iff job_at_def new_job_def)
  have frame: "job db1 t' b' = job db t' b'" if "(t', b') \<noteq> (t, target)" for t' b'
    using that by (auto simp: db1_def find_append job_at_def new_job_def split: option.splits)
  have bk: "backend_of db1 = backend_of db" by (simp add: db1_def)
  have "filter ?hit (jobs db1) = (if claimable ?c then [?c] else [])"
  proof -
    have "filter (job_at t target) js = [?c]" if "distinct (map key js)" "find (job_at t target) js = Some ?c" for js
      using that by (induction js) (auto simp: job_at_def filter_empty_conv image_iff split: if_splits)
    then have "filter (job_at t target) (jobs db1) = [?c]" using base ok1 by (simp add: tables_ok_def)
    then have "filter claimable (filter (job_at t target) (jobs db1)) = (if claimable ?c then [?c] else [])" by simp
    then show ?thesis by (simp add: conj_commute)
  qed
  then have run: "Claim db t target sz th now = (update_jobs ?hit (claimed_job sz now) db1, Inr (claimable ?c))"
    using assms(2) by (simp add: Claim_def Let_def flip: db1_def)
  have at: "job_at t target ?c" using base job_at_find by blast
  show ?thesis
  proof (intro exI conjI allI impI, rule run)
    show "job (update_jobs ?hit (claimed_job sz now) db1) t target = Some (if claimable ?c then claimed_job sz now ?c else ?c)"
      using at by (simp add: base)
    fix t' b' assume ne: "(t', b') \<noteq> (t, target)"
    show "job (update_jobs ?hit (claimed_job sz now) db1) t' b' = job db t' b'"
      using ne job_at_find [where db = db1 and t = t' and target = b'] by (cases "job db1 t' b'") (auto simp: frame [OF ne, symmetric] job_at_def)
  qed (simp_all add: ok1 bk)
qed

subsection \<open>One migration\<close>

lemma recordAudit_frame [simp]:
  "cw_db (recordAudit d o1 w t s b a n f) = cw_db w" "cw_ix (recordAudit d o1 w t s b a n f) = cw_ix w"
  "cw_Completed (recordAudit d o1 w t s b a n f) = cw_Completed w" "cw_Failed (recordAudit d o1 w t s b a n f) = cw_Failed w"
  by (simp_all add: recordAudit_def split: option.splits)

lemma markFailed_effect:
  assumes "markFailed d o1 w t source target stage cause = (w', res)"
  shows "res = Some (Wrapped stage cause) \<and> cw_ix w' = cw_ix w \<and> cw_Completed w' = cw_Completed w \<and> cw_Failed w' = cw_Failed w + 1
    \<and> cw_db w' = (if mo_mark_failed o1 = None then MarkFailed (cw_db w) t target (stage @ '': '' @ err_text cause) (mo_now o1) else cw_db w)"
  using assms by (auto simp: markFailed_def Let_def)

lemma mark_attempts_effect:
  assumes "mark_attempts cancelled now t target n outcomes db lastErr = (db', res)" and "0 < n \<or> lastErr \<noteq> None"
  shows "(res = None \<and> db' = MarkCompleted db t target now) \<or> (res \<noteq> None \<and> db' = db)"
  using assms by (induction cancelled now t target n outcomes db lastErr rule: mark_attempts.induct) (auto split: if_splits)

text \<open>
  \<open>searches\<close>: the engine states reached from one by searches of the tenant. A message is findable from a state if, after
  some searches, the engine answered for it: with a hit of its id, or with a full window of hits for its subject.
  \<open>reindexed\<close>: the state after the tenant's index was deleted and the messages were imported, both without an error.
\<close>

definition searches :: "'b search_backend \<Rightarrow> string \<Rightarrow> 'b \<Rightarrow> 'b \<Rightarrow> bool" where
  "searches b t = (\<lambda>ix ix'. \<exists>q n. fst (sb_SearchMessages b ix t q n) = ix')\<^sup>*\<^sup>*"

definition findable :: "'b search_backend \<Rightarrow> string \<Rightarrow> 'b \<Rightarrow> search_message \<Rightarrow> bool" where
  "findable b t ix m \<longleftrightarrow> (\<exists>ix1 ix2 hits. searches b t ix ix1
     \<and> sb_SearchMessages b ix1 t (validationQuery m) cutoverValidationLimit = (ix2, Inr hits)
     \<and> (containsMessageID hits (sm_MessageID m) \<or> cutoverValidationLimit \<le> length hits))"

definition reindexed :: "'b search_backend \<Rightarrow> 'b \<Rightarrow> string \<Rightarrow> search_message list \<Rightarrow> 'b \<Rightarrow> bool" where
  "reindexed b ix t msgs ix1 \<longleftrightarrow> (\<exists>ix0. sb_DeleteIndex b ix t = (ix0, None)
     \<and> (if msgs = [] then ix1 = ix0 else sb_MigrateIndex b ix0 t msgs = (ix1, None)))"

lemma searches_refl: "searches b t ix ix"
  by (simp add: searches_def)

lemma searches_trans: "searches b t ix ix1 \<Longrightarrow> searches b t ix1 ix2 \<Longrightarrow> searches b t ix ix2"
  unfolding searches_def by (rule rtranclp_trans)

lemma searches_one: "sb_SearchMessages b ix t q n = (ix', r) \<Longrightarrow> searches b t ix ix'"
  unfolding searches_def by (rule r_into_rtranclp) (metis fst_conv)

lemma findable_later: "searches b t ix ix1 \<Longrightarrow> findable b t ix1 m \<Longrightarrow> findable b t ix m"
  unfolding findable_def by (meson searches_trans)

lemma search_attempts_found:
  assumes "search_attempts b cancelled t backend m n ix lastErr = (ix', None)" and "0 < n \<or> lastErr \<noteq> None"
  shows "findable b t ix m \<and> searches b t ix ix'"
  using assms
proof (induction b cancelled t backend m n ix lastErr rule: search_attempts.induct)
  case (2 b cancelled t backend m n ix lastErr)
  obtain ix1 r where s: "sb_SearchMessages b ix t (validationQuery m) cutoverValidationLimit = (ix1, r)" by (meson surj_pair)
  note one = searches_one [OF s]
  have go: "findable b t ix m \<and> searches b t ix ix'" if "findable b t ix1 m \<and> searches b t ix1 ix'"
    using that findable_later [OF one] searches_trans [OF one] by blast
  have hit: "findable b t ix m" if "r = Inr hits" "containsMessageID hits (sm_MessageID m) \<or> cutoverValidationLimit \<le> length hits" for hits
    unfolding findable_def using that s searches_refl [of b t ix] by (intro exI [of _ ix] exI [of _ ix1] exI [of _ hits]) simp
  show ?case
    using "2.prems"(1) s go hit one "2.IH"(1) [OF _ s [symmetric]] "2.IH"(2) [OF _ s [symmetric]]
    by (cases r) (auto split: if_splits)
qed simp

lemma validate_all_found:
  assumes "validate_all b cancelled ix t backend ms = (ix', None)" and "m \<in> set ms"
  shows "findable b t ix m"
  using assms
proof (induction b cancelled ix t backend ms rule: validate_all.induct)
  case (2 b cancelled ix t backend m0 ms)
  then obtain ix1 where first: "validateSearchable b (cancelled (length ms)) ix t backend m0 = (ix1, None)"
    and rest: "validate_all b cancelled ix1 t backend ms = (ix', None)"
    by (auto split: prod.splits option.splits)
  from search_attempts_found [OF first [unfolded validateSearchable_def]]
  have "findable b t ix m0" "searches b t ix ix1" by simp_all
  then show ?case
  proof (cases "m = m0")
    case False
    with 2 first rest have "findable b t ix1 m" by simp
    then show ?thesis by (rule findable_later [OF \<open>searches b t ix ix1\<close>])
  qed (simp add: \<open>findable b t ix m0\<close>)
qed simp

text \<open>The paths of a migration: it fails before the flip, or it flips after a passed validation.\<close>

definition validated :: "'b migration_deps \<Rightarrow> migration_outcome \<Rightarrow> 'b \<Rightarrow> string \<Rightarrow> string \<Rightarrow> search_message list \<Rightarrow> 'b \<Rightarrow> bool" where
  "validated d o1 ix t target msgs ix2 \<longleftrightarrow> mo_messages o1 = Inr msgs \<and>
     (\<exists>ix1. ReindexTo (md_svc d) ix t target msgs = (ix1, None) \<and> Validate (md_svc d) (mo_cancelled o1) (mo_perm o1) ix1 t target msgs = (ix2, None))"

lemma runMigration_cases:
  assumes "runMigration d o1 w t source target = (w', res)" and "0 < md_markCompletedRetries d"
  obtains (failed) stage cause where "res = Some (Wrapped stage cause)" "cw_Completed w' = cw_Completed w" "cw_Failed w' = cw_Failed w + 1"
      "cw_db w' = (if mo_mark_failed o1 = None then MarkFailed (cw_db w) t target (stage @ '': '' @ err_text cause) (mo_now o1) else cw_db w)"
    | (flipped) msgs where "validated d o1 (cw_ix w) t target msgs (cw_ix w')" "has_tenant (cw_db w) t" "IsValidBackend target"
      "cw_Completed w' = cw_Completed w + 1" "cw_Failed w' = cw_Failed w"
      "res = None \<and> cw_db w' = MarkCompleted (set_backend t target (cw_db w)) t target (mo_now o1)
        \<or> (\<exists>e. res = Some (Wrapped ''mark completed'' e)) \<and> cw_db w' = set_backend t target (cw_db w)"
proof (cases "\<exists>msgs ix2 db1. validated d o1 (cw_ix w) t target msgs ix2 \<and> SetBackend (md_svc d) (cw_db w) t target (mo_flip o1) = (db1, None)")
  case True
  then obtain msgs ix1 ix2 db1 where v: "mo_messages o1 = Inr msgs" "ReindexTo (md_svc d) (cw_ix w) t target msgs = (ix1, None)"
    "Validate (md_svc d) (mo_cancelled o1) (mo_perm o1) ix1 t target msgs = (ix2, None)" and set: "SetBackend (md_svc d) (cw_db w) t target (mo_flip o1) = (db1, None)"
    by (auto simp: validated_def)
  from set have db1: "db1 = set_backend t target (cw_db w)" "has_tenant (cw_db w) t" "IsValidBackend target" by (auto simp: SetBackend_def split: if_splits option.splits)
  obtain db2 res2 where mark: "markCompletedWithRetry d o1 db1 t target = (db2, res2)" by (meson surj_pair)
  have "res2 = None \<and> db2 = MarkCompleted db1 t target (mo_now o1) \<or> res2 \<noteq> None \<and> db2 = db1"
    using mark_attempts_effect [OF mark [unfolded markCompletedWithRetry_def]] assms(2) by simp
  then show thesis using assms(1) v set mark db1
    by (intro flipped [of msgs]) (auto simp: runMigration_def Let_def validated_def split: option.splits)
next
  case False
  have "\<exists>w0 stage cause. (w', res) = markFailed d o1 w0 t source target stage cause \<and> cw_db w0 = cw_db w
      \<and> cw_Completed w0 = cw_Completed w \<and> cw_Failed w0 = cw_Failed w"
  proof (cases "mo_messages o1")
    case (Inl e)
    with assms(1) show ?thesis by (intro exI [of _ w] exI [of _ "''fetch messages''"] exI [of _ e]) (auto simp: runMigration_def)
  next
    case msgs: (Inr msgs)
    obtain ix1 r1 where re: "ReindexTo (md_svc d) (cw_ix w) t target msgs = (ix1, r1)" by (meson surj_pair)
    obtain ix2 r2 where va: "Validate (md_svc d) (mo_cancelled o1) (mo_perm o1) ix1 t target msgs = (ix2, r2)" by (meson surj_pair)
    obtain db1 r3 where se: "SetBackend (md_svc d) (cw_db w) t target (mo_flip o1) = (db1, r3)" by (meson surj_pair)
    have keep: "r3 \<noteq> None \<Longrightarrow> db1 = cw_db w" using se by (auto simp: SetBackend_def split: if_splits option.splits)
    consider e where "r1 = Some e" | e where "r1 = None" "r2 = Some e" | e where "r1 = None" "r2 = None" "r3 = Some e" | "r1 = None" "r2 = None" "r3 = None"
      by (cases r1; cases r2; cases r3) auto
    then show ?thesis
    proof cases
      case 1
      with assms(1) msgs re show ?thesis by (intro exI [of _ "w\<lparr>cw_ix := ix1\<rparr>"] exI [of _ "''reindex''"] exI [of _ e]) (simp add: runMigration_def)
    next
      case 2
      with assms(1) msgs re va show ?thesis by (intro exI [of _ "w\<lparr>cw_ix := ix2\<rparr>"] exI [of _ "''validate''"] exI [of _ e]) (simp add: runMigration_def)
    next
      case 3
      with assms(1) msgs re va se keep show ?thesis
        by (intro exI [of _ "w\<lparr>cw_ix := ix2, cw_db := db1\<rparr>"] exI [of _ "''set backend''"] exI [of _ e]) (simp add: runMigration_def)
    next
      case 4
      with False msgs re va se show ?thesis by (auto simp: validated_def)
    qed
  qed
  then obtain w0 stage cause where mf: "markFailed d o1 w0 t source target stage cause = (w', res)" and w0: "cw_db w0 = cw_db w"
      "cw_Completed w0 = cw_Completed w" "cw_Failed w0 = cw_Failed w" by metis
  show thesis using markFailed_effect [OF mf] w0 by (intro failed [of stage cause]) auto
qed

subsection \<open>A tick\<close>

lemma job_update_other:
  assumes "keeps_key f" and "\<And>j. P j \<Longrightarrow> key j = k" and "(t', b') \<noteq> k"
  shows "job (update_jobs P f db) t' b' = job db t' b'"
  using assms job_at_find [where db = db and t = t' and target = b'] by (cases "job db t' b'") (auto simp: job_at_def)

text \<open>What an operation on one job leaves alone: the other jobs, the other tenants' back ends and the keys.\<close>

definition touches_only :: "string \<Rightarrow> string \<Rightarrow> cutover_db \<Rightarrow> cutover_db \<Rightarrow> bool" where
  "touches_only t target db db' \<longleftrightarrow> tables_ok db' \<and> has_tenant db' = has_tenant db
     \<and> (\<forall>t' b'. (t', b') \<noteq> (t, target) \<longrightarrow> job db' t' b' = job db t' b')
     \<and> (\<forall>t'. t' \<noteq> t \<longrightarrow> map_of (backend_of db') t' = map_of (backend_of db) t')"

lemma touches_refl [simp]: "tables_ok db \<Longrightarrow> touches_only t target db db"
  by (simp add: touches_only_def)

lemma touches_trans: "touches_only t target a b \<Longrightarrow> touches_only t target b c \<Longrightarrow> touches_only t target a c"
  by (simp add: touches_only_def)

lemma touches_update:
  assumes "tables_ok db" and "keeps_key f"
  shows "touches_only t target db (update_jobs (job_at t target) f db)"
proof -
  have "job (update_jobs (job_at t target) f db) t' b' = job db t' b'" if "(t', b') \<noteq> (t, target)" for t' b'
    using that by (intro job_update_other [OF assms(2)]) (auto simp: job_at_def)
  with assms show ?thesis unfolding touches_only_def by (simp del: job_update)
qed

lemma touches_mark [simp]:
  "tables_ok db \<Longrightarrow> touches_only t target db (MarkFailed db t target reason now)"
  "tables_ok db \<Longrightarrow> touches_only t target db (MarkCompleted db t target now)"
  by (simp_all add: MarkFailed_def MarkCompleted_def touches_update)

lemma touches_set_backend [simp]: "tables_ok db \<Longrightarrow> touches_only t target db (set_backend t b db)"
  by (simp add: touches_only_def)

lemma touches_claim:
  assumes "tables_ok db" and "Claim db t target sz th now = (db', r)"
  shows "touches_only t target db db'"
proof (cases "has_tenant db t")
  case True
  from claim_cases [OF assms(1) this, of target sz th now] assms(2) show ?thesis by (auto simp: touches_only_def has_tenant_def)
next
  case False
  with assms show ?thesis by (simp add: Claim_def)
qed

lemma touches_migration:
  assumes "runMigration d o1 w t source target = (w', res)" and "0 < md_markCompletedRetries d" and "tables_ok (cw_db w)"
  shows "touches_only t target (cw_db w) (cw_db w')"
  using assms(1,2)
proof (cases rule: runMigration_cases)
  case (failed stage cause)
  with assms(3) show ?thesis by simp
next
  case (flipped msgs)
  have "touches_only t target (set_backend t target (cw_db w)) (cw_db w')" using flipped(6) assms(3) by auto
  with assms(3) show ?thesis by (blast intro: touches_trans touches_set_backend)
qed

lemma touches_one:
  assumes "0 < md_markCompletedRetries d" and "tables_ok (cw_db w)"
  shows "touches_only t target (cw_db w) (cw_db (fst (cutoverOne cfg d tk w t sz source target)))"
proof (cases "tk_claim_fault tk t target")
  case None
  obtain db1 r where claim: "Claim (cw_db w) t target sz (cc_Threshold cfg) (tk_claim_now tk t target) = (db1, r)" by (meson surj_pair)
  note t1 = touches_claim [OF assms(2) claim]
  then have ok: "tables_ok db1" by (simp add: touches_only_def)
  obtain w' res where run: "runMigration d (tk_migration tk t target) (w\<lparr>cw_db := db1\<rparr>) t source target = (w', res)" by (meson surj_pair)
  have "touches_only t target db1 (cw_db w')" using touches_migration [OF run assms(1)] ok by simp
  with t1 have "touches_only t target (cw_db w) (cw_db w')" by (rule touches_trans)
  with t1 claim run None show ?thesis by (auto simp: cutoverOne_def split: sum.splits bool.splits)
qed (simp add: cutoverOne_def assms)

definition maybe_one :: "CutoverConfig \<Rightarrow> 'b migration_deps \<Rightarrow> tick_outcome \<Rightarrow> string \<Rightarrow> string \<Rightarrow> string \<Rightarrow> 'b cutover_world \<Rightarrow> 'b cutover_world" where
  "maybe_one cfg d tk source target t w =
     (case tk_size tk t of Inl _ \<Rightarrow> w | Inr sz \<Rightarrow> if sz < cc_Threshold cfg then w else fst (cutoverOne cfg d tk w t sz source target))"

lemma migrate_each_fold: "migrate_each cfg d tk source target ts w = fold (maybe_one cfg d tk source target) ts w"
  by (induction ts arbitrary: w) (simp_all add: maybe_one_def)

lemma touches_maybe:
  assumes "0 < md_markCompletedRetries d" and "tables_ok (cw_db w)"
  shows "touches_only t target (cw_db w) (cw_db (maybe_one cfg d tk source target t w))"
  using assms touches_one [OF assms, of t target cfg tk] by (auto simp: maybe_one_def split: sum.splits)

lemma each_frame:
  assumes "0 < md_markCompletedRetries d" and "tables_ok (cw_db w)"
  shows "tables_ok (cw_db (fold (maybe_one cfg d tk source target) ts w))
    \<and> has_tenant (cw_db (fold (maybe_one cfg d tk source target) ts w)) = has_tenant (cw_db w)
    \<and> (\<forall>t b. b \<noteq> target \<or> t \<notin> set ts \<longrightarrow> job (cw_db (fold (maybe_one cfg d tk source target) ts w)) t b = job (cw_db w) t b)
    \<and> (\<forall>t. t \<notin> set ts \<longrightarrow> map_of (backend_of (cw_db (fold (maybe_one cfg d tk source target) ts w))) t = map_of (backend_of (cw_db w)) t)"
  using assms(2)
proof (induction ts arbitrary: w)
  case (Cons t ts)
  note step = touches_maybe [OF assms(1) Cons.prems, of t target cfg tk source]
  then have "tables_ok (cw_db (maybe_one cfg d tk source target t w))" by (simp add: touches_only_def)
  from Cons.IH [OF this] step show ?case by (auto simp: touches_only_def)
qed simp

text \<open>The two reconciliation passes at the head of a tick.\<close>

definition reconciled :: "CutoverConfig \<Rightarrow> time \<Rightarrow> string \<times> string \<Rightarrow> cutover_db \<Rightarrow> cutover_db" where
  "reconciled cfg now tr db =
     fst (ReconcileStale (fst (ReconcileCompleted db (snd tr) (now - cc_ReconcileAfter cfg) now)) (fst tr) (snd tr) (now - cc_ReconcileAfter cfg) now)"

definition tick_filter :: "CutoverConfig \<Rightarrow> time \<Rightarrow> string \<times> string \<Rightarrow> CandidateFilter" where
  "tick_filter cfg now tr =
     \<lparr>cf_SourceBackend = fst tr, cf_TargetBackend = snd tr, cf_MaxFailures = cc_MaxFailures cfg, cf_RetryAfterBefore = now - cc_MaxRetryGap cfg\<rparr>"

lemma tickTransition_eq:
  "tickTransition cfg d tk now tr w =
     fold (maybe_one cfg d tk (fst tr) (snd tr)) (ListCandidates (reconciled cfg now tr (cw_db w)) (tick_filter cfg now tr)) (w\<lparr>cw_db := reconciled cfg now tr (cw_db w)\<rparr>)"
  by (simp add: tickTransition_def Let_def reconciled_def tick_filter_def migrate_each_fold)

lemma reconciled_frame [simp]:
  "backend_of (reconciled cfg now tr db) = backend_of db" "has_tenant (reconciled cfg now tr db) = has_tenant db"
  "tables_ok db \<Longrightarrow> tables_ok (reconciled cfg now tr db)"
  by (simp_all add: reconciled_def ReconcileStale_def ReconcileCompleted_def)

lemma tenant_row: "tables_ok db \<Longrightarrow> (t, b) \<in> set (backend_of db) \<longleftrightarrow> map_of (backend_of db) t = Some b"
  by (auto simp: tables_ok_def map_of_eq_Some_iff)

definition reconcile_job :: "CutoverConfig \<Rightarrow> time \<Rightarrow> string \<times> string \<Rightarrow> cutover_db \<Rightarrow> CutoverJob \<Rightarrow> CutoverJob" where
  "reconcile_job cfg now tr db j =
     (if stale db (snd tr) (snd tr) (now - cc_ReconcileAfter cfg) j then completed_job now j
      else if stale db (snd tr) (fst tr) (now - cc_ReconcileAfter cfg) j then failed_job ''stale in_progress: assumed crash recovery'' now j
      else j)"

lemma job_reconciled: "job (reconciled cfg now tr db) t b = map_option (reconcile_job cfg now tr db) (job db t b)"
  by (cases "job db t b")
    (auto simp: reconciled_def ReconcileStale_def ReconcileCompleted_def reconcile_job_def stale_def completed_job_def)

lemma candidate_iff:
  assumes "tables_ok db"
  shows "t \<in> set (ListCandidates db f) \<longleftrightarrow> map_of (backend_of db) t = Some (cf_SourceBackend f) \<and>
    (case job db t (cf_TargetBackend f) of
       None \<Rightarrow> True
     | Some j \<Rightarrow> cj_State j = CutoverPending
         \<or> cj_State j = CutoverFailed \<and> cj_FailureCount j < cf_MaxFailures f \<and> cj_UpdatedAt j < cf_RetryAfterBefore f)"
  unfolding tenant_row [OF assms, symmetric] by (auto simp: ListCandidates_def image_iff split: option.splits)

lemma candidates_distinct: "tables_ok db \<Longrightarrow> distinct (ListCandidates db f)"
  unfolding ListCandidates_def tables_ok_def by (blast intro: distinct_map_filter)

text \<open>
  C18: A job of a configured transition whose worker died, with its tenant on the source or the target of that transition, is
  recovered: the first pass of that transition later than the reconciliation window marks it completed if the tenant was
  already moved, and failed with one more failure if it was not; the tenant stays where it was, and a failed job
  is offered to the workers again once the retry gap has passed, as long as its failures are below the maximum.\<close>

theorem wedged_job_recovers:
  assumes "tables_ok (cw_db w)" and "job (cw_db w) t target = Some j" and "cj_State j = CutoverInProgress"
    and "cj_UpdatedAt j < now - cc_ReconcileAfter cfg" and "source \<noteq> target" and "0 \<le> cc_MaxRetryGap cfg" and "0 < md_markCompletedRetries d"
    and "map_of (backend_of (cw_db w)) t = Some b" and "b = source \<or> b = target"
  shows "job (cw_db (tickTransition cfg d tk now (source, target) w)) t target =
      Some (if b = target then completed_job now j else failed_job ''stale in_progress: assumed crash recovery'' now j)
    \<and> map_of (backend_of (cw_db (tickTransition cfg d tk now (source, target) w))) t = Some b
    \<and> (b = source \<and> cj_FailureCount j + 1 < cc_MaxFailures cfg \<and> now < later - cc_MaxRetryGap cfg
        \<longrightarrow> t \<in> set (ListCandidates (cw_db (tickTransition cfg d tk now (source, target) w)) (tick_filter cfg later (source, target))))"
proof -
  let ?db = "reconciled cfg now (source, target) (cw_db w)" and ?w = "tickTransition cfg d tk now (source, target) w"
  let ?j = "if b = target then completed_job now j else failed_job ''stale in_progress: assumed crash recovery'' now j"
  have key: "cj_TenantID j = t" "cj_TargetBackend j = target" using job_at_find [OF assms(2)] by (simp_all add: job_at_def)
  have "stale (cw_db w) target x (now - cc_ReconcileAfter cfg) j \<longleftrightarrow> x = b" for x
    using assms(3,4,8) key tenant_row [OF assms(1), of t x] by (auto simp: stale_def)
  then have job: "job ?db t target = Some ?j" using assms(2,5,9) by (auto simp: job_reconciled reconcile_job_def)
  have ok: "tables_ok ?db" using assms(1) by simp
  have "cj_State ?j \<noteq> CutoverPending" "\<not> cj_UpdatedAt ?j < now - cc_MaxRetryGap cfg" using assms(6) by (simp_all add: completed_job_def failed_job_def)
  then have out: "t \<notin> set (ListCandidates ?db (tick_filter cfg now (source, target)))"
    unfolding candidate_iff [OF ok] by (simp add: tick_filter_def job)
  have frame: "job (cw_db ?w) t target = Some ?j" "map_of (backend_of (cw_db ?w)) t = Some b" and ok': "tables_ok (cw_db ?w)"
    using each_frame [OF assms(7), where w = "w\<lparr>cw_db := ?db\<rparr>" and cfg = cfg and tk = tk and source = source and target = target
        and ts = "ListCandidates ?db (tick_filter cfg now (source, target))"] ok job out assms(8)
    by (auto simp: tickTransition_eq)
  have "t \<in> set (ListCandidates (cw_db ?w) (tick_filter cfg later (source, target)))"
    if "b = source" "cj_FailureCount j + 1 < cc_MaxFailures cfg" "now < later - cc_MaxRetryGap cfg"
    using that frame assms(5) unfolding candidate_iff [OF ok'] by (simp add: tick_filter_def failed_job_def)
  with frame show ?thesis by blast
qed

text \<open>
  A job for a target that no transition has is never recovered: ticks do not touch it, whatever state it is in.\<close>

lemma tickTransition_other_target:
  assumes "tables_ok (cw_db w)" and "0 < md_markCompletedRetries d" and "target \<noteq> snd tr"
  shows "tables_ok (cw_db (tickTransition cfg d tk now tr w)) \<and> job (cw_db (tickTransition cfg d tk now tr w)) t target = job (cw_db w) t target"
proof -
  let ?db = "reconciled cfg now tr (cw_db w)"
  have "reconcile_job cfg now tr (cw_db w) j = j" if "job (cw_db w) t target = Some j" for j
    using job_at_find [OF that] assms(3) by (auto simp: job_at_def reconcile_job_def stale_def)
  then have "job ?db t target = job (cw_db w) t target" by (cases "job (cw_db w) t target") (simp_all add: job_reconciled)
  moreover have "tables_ok ?db" using assms(1) by simp
  ultimately show ?thesis
    using each_frame [OF assms(2), where w = "w\<lparr>cw_db := ?db\<rparr>" and cfg = cfg and tk = tk and source = "fst tr" and target = "snd tr"
        and ts = "ListCandidates ?db (tick_filter cfg now tr)"] assms(3)
    by (simp add: tickTransition_eq)
qed

theorem unlisted_target_is_never_recovered:
  assumes "tables_ok (cw_db w)" and "0 < md_markCompletedRetries d" and "target \<notin> snd ` set (cc_Transitions cfg)"
  shows "job (cw_db (Tick cfg d tks w)) t target = job (cw_db w) t target"
proof -
  have "target \<notin> snd ` set trs \<Longrightarrow> tables_ok (cw_db w) \<Longrightarrow>
      job (cw_db (fold (\<lambda>tr. tickTransition cfg d (fst (tks tr)) (snd (tks tr)) tr) trs w)) t target = job (cw_db w) t target" for trs w
    by (induction trs arbitrary: w) (auto simp: tickTransition_other_target [OF _ assms(2)])
  then show ?thesis using assms(1,3) by (simp add: Tick_def)
qed

lemma validated_findable:
  assumes "validated d o1 ix t target msgs ix2"
  shows "\<exists>b ix1. md_svc d target = Some b \<and> reindexed b ix t msgs ix1 \<and> (\<forall>m \<in> set (probed (mo_perm o1) msgs). findable b t ix1 m)"
proof -
  obtain ix1 where re: "ReindexTo (md_svc d) ix t target msgs = (ix1, None)"
    and va: "Validate (md_svc d) (mo_cancelled o1) (mo_perm o1) ix1 t target msgs = (ix2, None)" using assms by (auto simp: validated_def)
  then obtain b where b: "md_svc d target = Some b" "validate_all b (mo_cancelled o1) ix1 t target (probed (mo_perm o1) msgs) = (ix2, None)"
    by (auto simp: Validate_def split: if_splits option.splits)
  have "reindexed b ix t msgs ix1"
    using re b(1) by (auto simp: ReindexTo_def reindexInto_def reindexed_def split: if_splits prod.splits option.splits)
  with b validate_all_found [OF b(2)] show ?thesis by blast
qed

text \<open>
  C17: What a migration leaves behind, on every path: either it moves the tenant to the target, and then the messages were exported,
  the target engine deleted the tenant's old index and imported all of them without an error, and from the state
  after that import, after searches only, it answered for every sampled message, with the job completed unless
  all attempts to mark it failed; or it fails at an earlier stage, the tenant stays on its back end and the job is
  failed with one more failure and the stage in its error, unless recording that failure fails itself. Other tenants and other jobs are
  untouched.\<close>

theorem flip_only_after_validation:
  assumes "tables_ok (cw_db w)" and "job (cw_db w) t target = Some j" and "0 < md_markCompletedRetries d"
    and "runMigration d o1 w t source target = (w', res)"
  shows "touches_only t target (cw_db w) (cw_db w')
    \<and> ((\<exists>msgs b ix1. mo_messages o1 = Inr msgs \<and> md_svc d target = Some b \<and> reindexed b (cw_ix w) t msgs ix1
          \<and> (\<forall>m \<in> set (probed (mo_perm o1) msgs). findable b t ix1 m)
          \<and> map_of (backend_of (cw_db w')) t = Some target \<and> job (cw_db w') t target = Some (if res = None then completed_job (mo_now o1) j else j)
          \<and> cw_Completed w' = cw_Completed w + 1 \<and> cw_Failed w' = cw_Failed w)
      \<or> (\<exists>stage cause. res = Some (Wrapped stage cause) \<and> backend_of (cw_db w') = backend_of (cw_db w)
          \<and> (mo_mark_failed o1 = None \<longrightarrow> job (cw_db w') t target = Some (failed_job (stage @ '': '' @ err_text cause) (mo_now o1) j))
          \<and> cw_Completed w' = cw_Completed w \<and> cw_Failed w' = cw_Failed w + 1))"
proof -
  have at: "job_at t target j" using assms(2) job_at_find by blast
  have only: "touches_only t target (cw_db w) (cw_db w')" by (rule touches_migration [OF assms(4,3,1)])
  show ?thesis using assms(4,3)
  proof (cases rule: runMigration_cases)
    case (failed stage cause)
    with only at assms(2) show ?thesis by (auto simp: MarkFailed_def)
  next
    case (flipped msgs)
    obtain b ix1 where "md_svc d target = Some b" "reindexed b (cw_ix w) t msgs ix1" "\<forall>m \<in> set (probed (mo_perm o1) msgs). findable b t ix1 m"
      using validated_findable [OF flipped(1)] by blast
    moreover have "mo_messages o1 = Inr msgs" using flipped(1) by (simp add: validated_def)
    moreover have "map_of (backend_of (cw_db w')) t = Some target"
      using flipped(2,6) by (auto simp: MarkCompleted_def has_tenant_map_of)
    moreover have "job (cw_db w') t target = Some (if res = None then completed_job (mo_now o1) j else j)"
      using flipped(6) at assms(2) by (auto simp: MarkCompleted_def)
    ultimately show ?thesis using only flipped(4,5) by blast
  qed
qed

subsection \<open>Progress\<close>

text \<open>
  An engine that serves: deleting and importing succeed, and from then on a search for the subject (or sender)
  of an imported message is answered with that message or with a full window. \<open>P\<close> marks the states after the import.
\<close>

definition engine_serves :: "'b search_backend \<Rightarrow> string \<Rightarrow> search_message list \<Rightarrow> ('b \<Rightarrow> bool) \<Rightarrow> bool" where
  "engine_serves b t msgs P \<longleftrightarrow> (\<forall>ix. snd (sb_DeleteIndex b ix t) = None)
     \<and> (\<forall>ix. snd (sb_MigrateIndex b ix t msgs) = None \<and> P (fst (sb_MigrateIndex b ix t msgs)))
     \<and> (\<forall>ix m. P ix \<and> m \<in> set msgs \<longrightarrow> (\<exists>ix' hits. sb_SearchMessages b ix t (validationQuery m) cutoverValidationLimit = (ix', Inr hits) \<and> P ix'
          \<and> (containsMessageID hits (sm_MessageID m) \<or> cutoverValidationLimit \<le> length hits)))"

definition perm_of :: "nat list \<Rightarrow> nat \<Rightarrow> bool" where
  "perm_of perm n \<longleftrightarrow> mset perm = mset [0..<n]"

definition searchable :: "search_message list \<Rightarrow> search_message list" where
  "searchable msgs = filter (\<lambda>m. sm_MessageID m \<noteq> [] \<and> validationQuery m \<noteq> []) msgs"

lemma probed_subset: "perm_of perm (length (searchable msgs)) \<Longrightarrow> set (probed perm msgs) \<subseteq> set msgs"
proof
  fix m
  assume perm: "perm_of perm (length (searchable msgs))" and m: "m \<in> set (probed perm msgs)"
  have "set perm = {0..<length (searchable msgs)}" using perm unfolding perm_of_def by (metis atLeastLessThan_upt mset_eq_setD)
  then have "set (take cutoverValidationSampleSize perm) \<subseteq> {..<length (searchable msgs)}" using set_take_subset by fastforce
  then have "m \<in> set (searchable msgs)" using m unfolding probed_def sampleMessages_def searchable_def [symmetric]
    by (auto split: if_splits intro: nth_mem)
  then show "m \<in> set msgs" by (simp add: searchable_def)
qed

lemma serves_probe:
  assumes "engine_serves b t msgs P" and "P ix" and "m \<in> set msgs"
  shows "\<exists>ix'. validateSearchable b cancelled ix t target m = (ix', None) \<and> P ix'"
proof -
  obtain ix' hits where "sb_SearchMessages b ix t (validationQuery m) cutoverValidationLimit = (ix', Inr hits)" "P ix'"
      "containsMessageID hits (sm_MessageID m) \<or> cutoverValidationLimit \<le> length hits"
    using assms unfolding engine_serves_def by blast
  then show ?thesis by (auto simp: validateSearchable_def eval_nat_numeral)
qed

lemma serves_all:
  assumes "engine_serves b t msgs P" and "P ix" and "set ms \<subseteq> set msgs"
  shows "\<exists>ix'. validate_all b cancelled ix t target ms = (ix', None)"
  using assms(2,3)
proof (induction ms arbitrary: ix)
  case (Cons m ms)
  then obtain ix1 where "validateSearchable b (cancelled (length ms)) ix t target m = (ix1, None)" "P ix1"
    using serves_probe [OF assms(1)] by (metis list.set_intros(1) subsetD)
  with Cons show ?case by auto
qed simp

lemma serves_validated:
  assumes "engine_serves b t msgs P" and "md_svc d target = Some b" and "t \<noteq> []" and "IsValidBackend target" and "mo_messages o1 = Inr msgs"
    and "perm_of (mo_perm o1) (length (searchable msgs))"
  shows "\<exists>ix2. validated d o1 ix t target msgs ix2"
proof -
  have ne: "target \<noteq> []" using assms(4) by (auto simp: IsValidBackend_def)
  obtain ix1 where del: "sb_DeleteIndex b ix t = (ix1, None)" using assms(1) unfolding engine_serves_def by (metis prod.collapse)
  obtain ix2 where mig: "sb_MigrateIndex b ix1 t msgs = (ix2, None)" "P ix2" using assms(1) unfolding engine_serves_def by (metis prod.collapse)
  have sub: "set (probed (mo_perm o1) msgs) \<subseteq> set msgs" by (rule probed_subset [OF assms(6)])
  have re: "ReindexTo (md_svc d) ix t target msgs = (if msgs = [] then ix1 else ix2, None)"
    using assms(2-4) ne del mig by (simp add: ReindexTo_def reindexInto_def IsBackendAvailable_def)
  have "\<exists>ix3. validate_all b (mo_cancelled o1) (if msgs = [] then ix1 else ix2) t target (probed (mo_perm o1) msgs) = (ix3, None)"
    using serves_all [OF assms(1) mig(2) sub] sub by auto
  then show ?thesis using re assms(2,3,5) ne by (auto simp: validated_def Validate_def)
qed

text \<open>
  Automatic promotion makes progress: a candidate tenant at or above the threshold, whose target engine serves its messages,
  is after one tick on the target back end with its job completed, whatever happens to the other tenants of
  the tick.\<close>

theorem tick_promotes:
  assumes ok: "tables_ok (cw_db w)" and cand: "t \<in> set (ListCandidates (cw_db w) (tick_filter cfg now (source, target)))"
    and big: "tk_size tk t = Inr sz" "cc_Threshold cfg \<le> sz" and db: "tk_claim_fault tk t target = None" "mo_flip (tk_migration tk t target) = None"
      "mo_mark (tk_migration tk t target) = []" "0 < md_markCompletedRetries d"
    and eng: "md_svc d target = Some b" "engine_serves b t msgs P" "mo_messages (tk_migration tk t target) = Inr msgs"
      "perm_of (mo_perm (tk_migration tk t target)) (length (searchable msgs))"
    and names: "t \<noteq> []" "IsValidBackend target"
  shows "map_of (backend_of (cw_db (tickTransition cfg d tk now (source, target) w))) t = Some target
    \<and> (\<exists>j. job (cw_db (tickTransition cfg d tk now (source, target) w)) t target = Some j \<and> cj_State j = CutoverCompleted
        \<and> cj_FailureCount j = 0 \<and> cj_CompletedAt j = Some (mo_now (tk_migration tk t target)))"
proof -
  let ?db = "reconciled cfg now (source, target) (cw_db w)" and ?one = "maybe_one cfg d tk source target" and ?o = "tk_migration tk t target"
  let ?ids = "ListCandidates ?db (tick_filter cfg now (source, target))"
  have ok1: "tables_ok ?db" using ok by simp
  have st: "j \<in> set (jobs (cw_db w)) \<Longrightarrow> cj_State j \<noteq> CutoverInProgress \<Longrightarrow> reconcile_job cfg now (source, target) (cw_db w) j = j" for j
    by (simp add: reconcile_job_def stale_def)
  have same: "job ?db t target = job (cw_db w) t target"
    using cand job_at_find [where db = "cw_db w" and t = t and target = target] unfolding candidate_iff [OF ok]
    by (cases "job (cw_db w) t target") (auto simp: job_reconciled tick_filter_def st)
  have cand1: "t \<in> set ?ids" using cand unfolding candidate_iff [OF ok] candidate_iff [OF ok1] by (simp add: same tick_filter_def)
  then obtain xs ys where ids: "?ids = xs @ t # ys" and out: "t \<notin> set xs" "t \<notin> set ys"
    using candidates_distinct [OF ok1, of "tick_filter cfg now (source, target)"] by (metis distinct.simps(2) distinct_append not_distinct_conv_prefix split_list_first)
  define w1 where "w1 = fold ?one xs (w\<lparr>cw_db := ?db\<rparr>)"
  have w1: "tables_ok (cw_db w1)" "has_tenant (cw_db w1) t" "job (cw_db w1) t target = job ?db t target"
    using each_frame [OF db(4), where w = "w\<lparr>cw_db := ?db\<rparr>" and cfg = cfg and tk = tk and source = source and target = target and ts = xs] ok1 out
      cand unfolding candidate_iff [OF ok] by (auto simp: w1_def has_tenant_map_of)
  have cl: "claimable (claim_base (cw_db w1) t target sz (cc_Threshold cfg) (tk_claim_now tk t target))"
    using cand unfolding candidate_iff [OF ok]
    by (auto simp: claim_base_def w1(3) same claimable_def new_job_def tick_filter_def split: option.splits)
  obtain db2 j2 where claim: "Claim (cw_db w1) t target sz (cc_Threshold cfg) (tk_claim_now tk t target) = (db2, Inr True)" and db2: "tables_ok db2"
      "backend_of db2 = backend_of (cw_db w1)" "job db2 t target = Some j2"
    using claim_cases [OF w1(1,2), of target sz "cc_Threshold cfg" "tk_claim_now tk t target"] cl by auto
  have ht: "has_tenant db2 t" using db2(2) w1(2) by (simp add: has_tenant_def)
  obtain w2 res where run: "runMigration d ?o (w1\<lparr>cw_db := db2\<rparr>) t source target = (w2, res)" by (meson surj_pair)
  obtain ix2 where va: "validated d ?o (cw_ix w1) t target msgs ix2" using serves_validated [OF eng(2,1) names eng(3,4)] by blast
  have "SetBackend (md_svc d) db2 t target (mo_flip ?o) = (set_backend t target db2, None)"
    using names eng(1) db(2) ht by (auto simp: SetBackend_def IsBackendAvailable_def IsValidBackend_def)
  moreover have "markCompletedWithRetry d ?o (set_backend t target db2) t target = (MarkCompleted (set_backend t target db2) t target (mo_now ?o), None)"
    using db(3,4) by (cases "md_markCompletedRetries d") (auto simp: markCompletedWithRetry_def)
  ultimately have w2: "cw_db w2 = MarkCompleted (set_backend t target db2) t target (mo_now ?o)"
    using run va by (auto simp: runMigration_def validated_def Let_def)
  have one: "?one t w1 = w2" using big db(1) claim run by (simp add: maybe_one_def cutoverOne_def)
  have at: "job_at t target j2" using job_at_find [OF db2(3)] by blast
  have end1: "map_of (backend_of (cw_db w2)) t = Some target" "job (cw_db w2) t target = Some (completed_job (mo_now ?o) j2)"
    using ht at db2(3) by (auto simp: w2 MarkCompleted_def has_tenant_map_of)
  have ok2: "tables_ok (cw_db w2)" using db2(1) by (simp add: w2 MarkCompleted_def)
  have "cw_db (tickTransition cfg d tk now (source, target) w) = cw_db (fold ?one ys w2)"
    by (simp add: tickTransition_eq ids flip: w1_def one)
  with each_frame [OF db(4) ok2, where cfg = cfg and tk = tk and source = source and target = target and ts = ys] out end1
  show ?thesis by (auto simp: completed_job_def)
qed

subsection \<open>Bounded retries\<close>

lemma job_stateless [simp]:
  "cj_State (completed_job now j) = CutoverCompleted" "cj_FailureCount (completed_job now j) = 0" "cj_CompletedAt (completed_job now j) = Some now"
  "cj_State (failed_job r now j) = CutoverFailed" "cj_FailureCount (failed_job r now j) = cj_FailureCount j + 1" "cj_CompletedAt (failed_job r now j) = cj_CompletedAt j"
  "cj_State (claimed_job sz now j) = CutoverInProgress" "cj_FailureCount (claimed_job sz now j) = cj_FailureCount j" "cj_CompletedAt (claimed_job sz now j) = None"
  "cj_UpdatedAt (failed_job r now j) = now" "cj_UpdatedAt (claimed_job sz now j) = now"
  "cj_State (new_job db t b sz th now) = CutoverPending" "cj_FailureCount (new_job db t b sz th now) = 0" "cj_CompletedAt (new_job db t b sz th now) = None"
  by (simp_all add: completed_job_def failed_job_def claimed_job_def new_job_def)

lemma maybe_one_job:
  assumes "tables_ok (cw_db w)" and "0 < md_markCompletedRetries d"
  shows "job (cw_db (maybe_one cfg d tk source target t w)) t target = job (cw_db w) t target
    \<or> (\<exists>sz now n r c. claimable (claim_base (cw_db w) t target sz (cc_Threshold cfg) now) \<and> c = claimed_job sz now (claim_base (cw_db w) t target sz (cc_Threshold cfg) now)
        \<and> job (cw_db (maybe_one cfg d tk source target t w)) t target \<in> {Some c, Some (completed_job n c), Some (failed_job r n c)})"
proof (cases "\<exists>sz. tk_size tk t = Inr sz \<and> \<not> sz < cc_Threshold cfg \<and> tk_claim_fault tk t target = None \<and> has_tenant (cw_db w) t")
  case False
  then have "cw_db (maybe_one cfg d tk source target t w) = cw_db w"
    by (auto simp: maybe_one_def cutoverOne_def Claim_def split: sum.splits option.splits)
  then show ?thesis by simp
next
  case True
  then obtain sz where sz: "tk_size tk t = Inr sz" "\<not> sz < cc_Threshold cfg" "tk_claim_fault tk t target = None" "has_tenant (cw_db w) t" by blast
  let ?now = "tk_claim_now tk t target" and ?o = "tk_migration tk t target"
  define base where "base = claim_base (cw_db w) t target sz (cc_Threshold cfg) ?now"
  obtain db1 where claim: "Claim (cw_db w) t target sz (cc_Threshold cfg) ?now = (db1, Inr (claimable base))"
    and db1: "tables_ok db1" "job db1 t target = Some (if claimable base then claimed_job sz ?now base else base)"
    using claim_cases [OF assms(1) sz(4), of target sz "cc_Threshold cfg" ?now] unfolding base_def by blast
  show ?thesis
  proof (cases "claimable base")
    case no: False
    then have "job (cw_db w) t target = Some base" by (auto simp: base_def claim_base_def claimable_def split: option.splits)
    with no claim db1 sz show ?thesis by (simp add: maybe_one_def cutoverOne_def)
  next
    case True
    obtain w' res where run: "runMigration d ?o (w\<lparr>cw_db := db1\<rparr>) t source target = (w', res)" by (meson surj_pair)
    have one: "maybe_one cfg d tk source target t w = w'" using sz claim True run by (simp add: maybe_one_def cutoverOne_def)
    let ?c = "claimed_job sz ?now base"
    have at: "job_at t target ?c" using db1(2) True job_at_find by fastforce
    have "\<exists>r. job (cw_db w') t target \<in> {Some ?c, Some (completed_job (mo_now ?o) ?c), Some (failed_job r (mo_now ?o) ?c)}"
      using run assms(2) by (cases rule: runMigration_cases) (use db1(2) True at in \<open>auto simp: MarkFailed_def MarkCompleted_def\<close>)
    with True show ?thesis unfolding one base_def by blast
  qed
qed

definition retry_ok :: "int \<Rightarrow> cutover_db \<Rightarrow> bool" where
  "retry_ok m db \<longleftrightarrow> (\<forall>t b j. job db t b = Some j \<longrightarrow> 0 \<le> cj_FailureCount j \<and> cj_FailureCount j \<le> m
     \<and> (cj_State j \<noteq> CutoverFailed \<longrightarrow> cj_FailureCount j < m))"

lemma retry_reconciled: "retry_ok m db \<Longrightarrow> 0 < m \<Longrightarrow> retry_ok m (reconciled cfg now tr db)"
  unfolding retry_ok_def job_reconciled by (fastforce simp: reconcile_job_def stale_def split: if_splits)

lemma retry_one:
  assumes "retry_ok m (cw_db w)" and "0 < m" and "tables_ok (cw_db w)" and "0 < md_markCompletedRetries d"
    and free: "case job (cw_db w) t target of None \<Rightarrow> True | Some j \<Rightarrow> cj_FailureCount j < m"
  shows "retry_ok m (cw_db (maybe_one cfg d tk source target t w))"
  unfolding retry_ok_def
proof (intro allI impI)
  fix t' b' j
  let ?w = "maybe_one cfg d tk source target t w"
  assume j: "job (cw_db ?w) t' b' = Some j"
  show "0 \<le> cj_FailureCount j \<and> cj_FailureCount j \<le> m \<and> (cj_State j \<noteq> CutoverFailed \<longrightarrow> cj_FailureCount j < m)"
  proof (cases "job (cw_db ?w) t' b' = job (cw_db w) t' b'")
    case True
    with j assms(1) show ?thesis by (simp add: retry_ok_def)
  next
    case False
    then have tb: "t' = t" "b' = target" using touches_maybe [OF assms(4,3), of t target cfg tk source] by (auto simp: touches_only_def)
    with False maybe_one_job [OF assms(3,4), where cfg = cfg and tk = tk and source = source and target = target and t = t] obtain sz now n r c
      where c: "c = claimed_job sz now (claim_base (cw_db w) t target sz (cc_Threshold cfg) now)"
        and new: "job (cw_db ?w) t target \<in> {Some c, Some (completed_job n c), Some (failed_job r n c)}" by metis
    have "0 \<le> cj_FailureCount c \<and> cj_FailureCount c < m"
      using free assms(1,2) unfolding c claim_base_def retry_ok_def by (auto split: option.splits)
    moreover have "j \<in> {c, completed_job n c, failed_job r n c}" using new j tb by simp
    ultimately show ?thesis using assms(2) by auto
  qed
qed

lemma retry_each:
  assumes "0 < m" and "0 < md_markCompletedRetries d"
  shows "retry_ok m (cw_db w) \<Longrightarrow> tables_ok (cw_db w) \<Longrightarrow> distinct ts \<Longrightarrow> \<forall>t \<in> set ts. case job (cw_db w) t target of None \<Rightarrow> True | Some j \<Rightarrow> cj_FailureCount j < m
    \<Longrightarrow> retry_ok m (cw_db (fold (maybe_one cfg d tk source target) ts w))"
proof (induction ts arbitrary: w)
  case (Cons t ts)
  let ?w = "maybe_one cfg d tk source target t w"
  note only = touches_maybe [OF assms(2) Cons.prems(2), of t target cfg tk source]
  have "retry_ok m (cw_db ?w)" using Cons.prems by (intro retry_one) (use assms in auto)
  moreover have "tables_ok (cw_db ?w)" using only by (simp add: touches_only_def)
  moreover have "\<forall>t' \<in> set ts. case job (cw_db ?w) t' target of None \<Rightarrow> True | Some j \<Rightarrow> cj_FailureCount j < m"
  proof
    fix t' assume t': "t' \<in> set ts"
    then have "job (cw_db ?w) t' target = job (cw_db w) t' target" using only Cons.prems(3) by (auto simp: touches_only_def)
    then show "case job (cw_db ?w) t' target of None \<Rightarrow> True | Some j \<Rightarrow> cj_FailureCount j < m" using Cons.prems(4) t' by simp
  qed
  ultimately show ?case using Cons.IH [of ?w] Cons.prems(3) by simp
qed simp

lemma tick_retry:
  assumes "retry_ok (cc_MaxFailures cfg) (cw_db w)" and "tables_ok (cw_db w)" and "0 < cc_MaxFailures cfg" and "0 < md_markCompletedRetries d"
  shows "retry_ok (cc_MaxFailures cfg) (cw_db (tickTransition cfg d tk now tr w)) \<and> tables_ok (cw_db (tickTransition cfg d tk now tr w))"
proof -
  let ?db = "reconciled cfg now tr (cw_db w)"
  have ok: "tables_ok ?db" using assms(2) by simp
  have r: "retry_ok (cc_MaxFailures cfg) ?db" using assms(1,3) by (rule retry_reconciled)
  have "case job ?db t (snd tr) of None \<Rightarrow> True | Some j \<Rightarrow> cj_FailureCount j < cc_MaxFailures cfg"
    if "t \<in> set (ListCandidates ?db (tick_filter cfg now tr))" for t
    using that r unfolding candidate_iff [OF ok] retry_ok_def by (auto simp: tick_filter_def split: option.splits)
  then show ?thesis unfolding tickTransition_eq
    using retry_each [OF assms(3,4), where w = "w\<lparr>cw_db := ?db\<rparr>"] each_frame [OF assms(4), where w = "w\<lparr>cw_db := ?db\<rparr>"] r ok candidates_distinct [OF ok] by simp
qed

lemma exhausted_left_alone:
  assumes "tables_ok (cw_db w)" and "0 < md_markCompletedRetries d" and "job (cw_db w) t b = Some j" and "cj_State j = CutoverFailed"
    and "cj_FailureCount j = cc_MaxFailures cfg"
  shows "job (cw_db (tickTransition cfg d tk now tr w)) t b = Some j"
proof -
  let ?db = "reconciled cfg now tr (cw_db w)"
  have ok: "tables_ok ?db" using assms(1) by simp
  have j: "job ?db t b = Some j" using assms(3,4) by (simp add: job_reconciled reconcile_job_def stale_def)
  have "b \<noteq> snd tr \<or> t \<notin> set (ListCandidates ?db (tick_filter cfg now tr))"
    using j assms(4,5) unfolding candidate_iff [OF ok] by (auto simp: tick_filter_def)
  with each_frame [OF assms(2), where w = "w\<lparr>cw_db := ?db\<rparr>"] ok j show ?thesis by (simp add: tickTransition_eq)
qed

lemma ticks_inv:
  assumes "0 < cc_MaxFailures cfg" and "0 < md_markCompletedRetries d" and "retry_ok (cc_MaxFailures cfg) (cw_db w)" and "tables_ok (cw_db w)"
  shows "retry_ok (cc_MaxFailures cfg) (cw_db (fold (Tick cfg d) outs w)) \<and> tables_ok (cw_db (fold (Tick cfg d) outs w))"
proof -
  let ?I = "\<lambda>w. retry_ok (cc_MaxFailures cfg) (cw_db w) \<and> tables_ok (cw_db w)"
  have tick: "?I (Tick cfg d tks w)" if "?I w" for tks w
    unfolding Tick_def by (rule fold_invariant [where P = ?I and Q = "\<lambda>_. True"]) (use that in \<open>simp_all add: tick_retry assms(1,2)\<close>)
  show ?thesis by (rule fold_invariant [where P = ?I and Q = "\<lambda>_. True"]) (use assms in \<open>simp_all add: tick\<close>)
qed

lemma ticks_exhausted:
  assumes "0 < cc_MaxFailures cfg" and "0 < md_markCompletedRetries d" and "retry_ok (cc_MaxFailures cfg) (cw_db w)" and "tables_ok (cw_db w)"
    and "job (cw_db w) t b = Some j" and "cj_FailureCount j = cc_MaxFailures cfg" and "cj_State j = CutoverFailed"
  shows "job (cw_db (fold (Tick cfg d) outs w)) t b = Some j"
proof -
  let ?I = "\<lambda>w. retry_ok (cc_MaxFailures cfg) (cw_db w) \<and> tables_ok (cw_db w) \<and> job (cw_db w) t b = Some j"
  have "?I (Tick cfg d tks w)" if "?I w" for tks w
    unfolding Tick_def by (rule fold_invariant [where P = ?I and Q = "\<lambda>_. True"]) (use that in \<open>simp_all add: tick_retry exhausted_left_alone assms(1,2,6,7)\<close>)
  then have "?I (fold (Tick cfg d) outs w)" by (intro fold_invariant [where P = ?I and Q = "\<lambda>_. True"]) (use assms in auto)
  then show ?thesis by blast
qed

text \<open>
  Automatic retries are bounded: through any number of ticks, whatever fails in them, no job collects more than MaxFailures
  failures, and a job that has that many is left exactly as it is by every later tick.\<close>

theorem retries_are_bounded:
  assumes "tables_ok (cw_db w)" and "jobs (cw_db w) = []" and "cfg = NewCutoverWorker cfg0" and "md_markCompletedRetries d = nat (cc_MarkCompletedRetries cfg)"
    and "j \<in> set (jobs (cw_db (fold (Tick cfg d) outs w)))"
  shows "0 \<le> cj_FailureCount j \<and> cj_FailureCount j \<le> cc_MaxFailures cfg
    \<and> (cj_FailureCount j = cc_MaxFailures cfg \<longrightarrow> j \<in> set (jobs (cw_db (fold (Tick cfg d) outs2 (fold (Tick cfg d) outs w)))))"
proof -
  have pos: "0 < cc_MaxFailures cfg" "0 < md_markCompletedRetries d" using assms(3,4) by (auto simp: NewCutoverWorker_def)
  have "retry_ok (cc_MaxFailures cfg) (cw_db w)" using assms(2) by (simp add: retry_ok_def)
  from ticks_inv [OF pos this assms(1)] have inv: "retry_ok (cc_MaxFailures cfg) (cw_db (fold (Tick cfg d) outs w))" "tables_ok (cw_db (fold (Tick cfg d) outs w))" by blast+
  have j: "job (cw_db (fold (Tick cfg d) outs w)) (cj_TenantID j) (cj_TargetBackend j) = Some j" using assms(5) job_iff [OF inv(2)] by blast
  have b: "0 \<le> cj_FailureCount j \<and> cj_FailureCount j \<le> cc_MaxFailures cfg \<and> (cj_State j \<noteq> CutoverFailed \<longrightarrow> cj_FailureCount j < cc_MaxFailures cfg)"
    using inv(1) j unfolding retry_ok_def by blast
  then have "job (cw_db (fold (Tick cfg d) outs2 (fold (Tick cfg d) outs w))) (cj_TenantID j) (cj_TargetBackend j) = Some j" if "cj_FailureCount j = cc_MaxFailures cfg"
    using ticks_exhausted [OF pos inv j that] that by auto
  with b show ?thesis using job_at_find by blast
qed

subsection \<open>Interleaved workers\<close>

text \<open>
  Many pods and operators at once: the store operations are atomic, everything between them interleaves. A migration
  in flight is its tenant, its target and whether it has flipped the tenant yet; it may die at any point, which writes
  nothing. The reconciliation passes are timely when no migration in flight is older than their window, as the
  configuration assumes (a migration takes minutes, the window is half an hour).
\<close>

type_synonym flight = "(string \<times> string) \<times> bool"

record cutover_run =
  cr_db :: cutover_db
  cr_flights :: "flight list"

definition timely :: "cutover_db \<Rightarrow> flight list \<Rightarrow> time \<Rightarrow> bool" where
  "timely db fl before \<longleftrightarrow> (\<forall>f \<in> set fl. \<forall>j. job db (fst (fst f)) (snd (fst f)) = Some j \<longrightarrow> before \<le> cj_UpdatedAt j)"

inductive cutover_step :: "'b search_service \<Rightarrow> cutover_run \<Rightarrow> cutover_run \<Rightarrow> bool" for svc where
  claim: "Claim db t target sz th now = (db', Inr True) \<Longrightarrow>
    cutover_step svc \<lparr>cr_db = db, cr_flights = fl\<rparr> \<lparr>cr_db = db', cr_flights = fl @ [((t, target), False)]\<rparr>"
| lost: "Claim db t target sz th now = (db', r) \<Longrightarrow> r \<noteq> Inr True \<Longrightarrow>
    cutover_step svc \<lparr>cr_db = db, cr_flights = fl\<rparr> \<lparr>cr_db = db', cr_flights = fl\<rparr>"
| start: "InitiateCutover db t target sz th now = (db', r) \<Longrightarrow>
    cutover_step svc \<lparr>cr_db = db, cr_flights = fl\<rparr> \<lparr>cr_db = db', cr_flights = fl\<rparr>"
| flip: "SetBackend svc db t target fault = (db', None) \<Longrightarrow>
    cutover_step svc \<lparr>cr_db = db, cr_flights = fl @ ((t, target), False) # fl'\<rparr> \<lparr>cr_db = db', cr_flights = fl @ ((t, target), True) # fl'\<rparr>"
| mark: "cutover_step svc \<lparr>cr_db = db, cr_flights = fl @ ((t, target), True) # fl'\<rparr> \<lparr>cr_db = MarkCompleted db t target now, cr_flights = fl @ fl'\<rparr>"
| stop: "cutover_step svc \<lparr>cr_db = db, cr_flights = fl @ ((t, target), False) # fl'\<rparr> \<lparr>cr_db = MarkFailed db t target reason now, cr_flights = fl @ fl'\<rparr>"
| die: "cutover_step svc \<lparr>cr_db = db, cr_flights = fl @ f # fl'\<rparr> \<lparr>cr_db = db, cr_flights = fl @ fl'\<rparr>"
| move: "SetBackend svc db t backend fault = (db', r) \<Longrightarrow>
    cutover_step svc \<lparr>cr_db = db, cr_flights = fl\<rparr> \<lparr>cr_db = db', cr_flights = fl\<rparr>"
| reconcile_completed: "timely db fl before \<Longrightarrow>
    cutover_step svc \<lparr>cr_db = db, cr_flights = fl\<rparr> \<lparr>cr_db = fst (ReconcileCompleted db target before now), cr_flights = fl\<rparr>"
| reconcile_stale: "timely db fl before \<Longrightarrow>
    cutover_step svc \<lparr>cr_db = db, cr_flights = fl\<rparr> \<lparr>cr_db = fst (ReconcileStale db source target before now), cr_flights = fl\<rparr>"

abbreviation cutover_runs :: "'b search_service \<Rightarrow> cutover_run \<Rightarrow> cutover_run \<Rightarrow> bool" where
  "cutover_runs svc \<equiv> (cutover_step svc)\<^sup>*\<^sup>*"

text \<open>The migration function is a run of these steps.\<close>

lemma migration_is_run:
  assumes "runMigration d o1 w t source target = (w', res)" and "0 < md_markCompletedRetries d"
  shows "cutover_runs (md_svc d) \<lparr>cr_db = cw_db w, cr_flights = fl @ [((t, target), False)]\<rparr> \<lparr>cr_db = cw_db w', cr_flights = fl\<rparr>"
  using assms
proof (cases rule: runMigration_cases)
  case (failed stage cause)
  then show ?thesis
    using cutover_step.stop [of "md_svc d" "cw_db w" fl t target "[]"] cutover_step.die [of "md_svc d" "cw_db w" fl "((t, target), False)" "[]"] by auto
next
  case (flipped msgs)
  let ?db = "set_backend t target (cw_db w)"
  obtain b where "md_svc d target = Some b" using validated_findable [OF flipped(1)] by blast
  moreover have "t \<noteq> []" "target \<noteq> []" using flipped(1) by (auto simp: validated_def ReindexTo_def split: if_splits)
  ultimately have "SetBackend (md_svc d) (cw_db w) t target None = (?db, None)" using flipped(2,3) by (simp add: SetBackend_def IsBackendAvailable_def)
  then have 1: "cutover_step (md_svc d) \<lparr>cr_db = cw_db w, cr_flights = fl @ [((t, target), False)]\<rparr> \<lparr>cr_db = ?db, cr_flights = fl @ [((t, target), True)]\<rparr>"
    by (rule cutover_step.flip)
  have "cutover_step (md_svc d) \<lparr>cr_db = ?db, cr_flights = fl @ [((t, target), True)]\<rparr> \<lparr>cr_db = cw_db w', cr_flights = fl\<rparr>"
    using flipped(6) cutover_step.mark [of "md_svc d" ?db fl t target "[]"] cutover_step.die [of "md_svc d" ?db fl "((t, target), True)" "[]"] by auto
  with 1 show ?thesis by (meson converse_rtranclp_into_rtranclp r_into_rtranclp)
qed

definition flights_ok :: "cutover_db \<Rightarrow> flight list \<Rightarrow> bool" where
  "flights_ok db fl \<longleftrightarrow> tables_ok db \<and> distinct (map fst fl)
     \<and> (\<forall>k \<in> fst ` set fl. \<exists>j. job db (fst k) (snd k) = Some j \<and> cj_State j = CutoverInProgress)
     \<and> (\<forall>t b j. job db t b = Some j \<longrightarrow> (cj_CompletedAt j \<noteq> None \<longleftrightarrow> cj_State j = CutoverCompleted))"

lemma flights_update:
  assumes "flights_ok db fl" and "keeps_key f" and "\<And>k j. k \<in> fst ` set fl \<Longrightarrow> job db (fst k) (snd k) = Some j \<Longrightarrow> P j \<Longrightarrow> f j = j"
    and "\<And>j. P j \<Longrightarrow> j \<in> set (jobs db) \<Longrightarrow> cj_CompletedAt (f j) \<noteq> None \<longleftrightarrow> cj_State (f j) = CutoverCompleted"
  shows "flights_ok (update_jobs P f db) fl"
  unfolding flights_ok_def
proof (intro conjI ballI allI impI)
  show "tables_ok (update_jobs P f db)" "distinct (map fst fl)" using assms(1,2) by (simp_all add: flights_ok_def)
next
  fix k assume k: "k \<in> fst ` set fl"
  with assms(1) obtain j where j: "job db (fst k) (snd k) = Some j" "cj_State j = CutoverInProgress" unfolding flights_ok_def by blast
  with assms(2) assms(3) [OF k j(1)] show "\<exists>j. job (update_jobs P f db) (fst k) (snd k) = Some j \<and> cj_State j = CutoverInProgress" by (cases "P j") simp_all
next
  fix t b j assume "job (update_jobs P f db) t b = Some j"
  then obtain j0 where j0: "job db t b = Some j0" "j = (if P j0 then f j0 else j0)" using assms(2) by auto
  with assms(1) assms(4) [of j0] job_at_find [OF j0(1)] show "(cj_CompletedAt j \<noteq> None) = (cj_State j = CutoverCompleted)"
    unfolding flights_ok_def by (cases "P j0") simp_all
qed

lemma flights_backend: "flights_ok db fl \<Longrightarrow> flights_ok (set_backend t b db) fl"
  by (simp add: flights_ok_def)

lemma flights_sub: "flights_ok db (fl @ f # fl') \<Longrightarrow> flights_ok db (fl @ fl')"
  by (auto simp: flights_ok_def)

lemma flight_job:
  assumes "flights_ok db (fl @ ((t, target), x) # fl')"
  obtains j where "job db t target = Some j" "cj_State j = CutoverInProgress" "cj_CompletedAt j = None" "(t, target) \<notin> fst ` set (fl @ fl')"
proof -
  from assms obtain j where j: "job db t target = Some j" "cj_State j = CutoverInProgress" unfolding flights_ok_def by fastforce
  moreover from assms j have "cj_CompletedAt j = None" unfolding flights_ok_def by (metis CutoverState.distinct(7))
  moreover from assms have "(t, target) \<notin> fst ` set (fl @ fl')" by (auto simp: flights_ok_def)
  ultimately show thesis using that by blast
qed

lemma flights_same_jobs:
  assumes "flights_ok db fl" and "tables_ok db'" and "\<And>t b. job db' t b = job db t b"
  shows "flights_ok db' fl"
  using assms by (simp add: flights_ok_def)

lemma flights_claim:
  assumes ok: "flights_ok db fl" and run: "Claim db t target sz th now = (db', r)"
  shows "flights_ok db' (if r = Inr True then fl @ [((t, target), False)] else fl)"
proof (cases "has_tenant db t")
  case False
  with ok run show ?thesis by (auto simp: Claim_def)
next
  case True
  let ?c = "claim_base db t target sz th now"
  have tok: "tables_ok db" using ok by (simp add: flights_ok_def)
  from claim_cases [OF tok True, of target sz th now] run have r: "r = Inr (claimable ?c)" and db': "tables_ok db'"
    "job db' t target = Some (if claimable ?c then claimed_job sz now ?c else ?c)" "\<And>t' b'. (t', b') \<noteq> (t, target) \<Longrightarrow> job db' t' b' = job db t' b'" by auto
  show ?thesis
  proof (cases "claimable ?c")
    case False
    then have "job db t target = Some ?c" by (auto simp: claim_base_def claimable_def split: option.splits)
    with False db' have "job db' t' b' = job db t' b'" for t' b' by (cases "(t', b') = (t, target)") auto
    with ok db'(1) have "flights_ok db' fl" by (rule flights_same_jobs)
    with r False show ?thesis by simp
  next
    case cl: True
    have new: "(t, target) \<notin> fst ` set fl"
    proof
      assume "(t, target) \<in> fst ` set fl"
      with ok obtain j where "job db t target = Some j" "cj_State j = CutoverInProgress" unfolding flights_ok_def by fastforce
      with cl show False by (simp add: claim_base_def claimable_def)
    qed
    have "\<exists>j. job db' (fst k) (snd k) = Some j \<and> cj_State j = CutoverInProgress" if "k \<in> insert (t, target) (fst ` set fl)" for k
      using that cl db'(2,3) ok unfolding flights_ok_def by (cases "k = (t, target)") auto
    moreover have "(cj_CompletedAt j \<noteq> None) = (cj_State j = CutoverCompleted)" if "job db' t' b' = Some j" for t' b' j
      using that cl db'(2,3) ok unfolding flights_ok_def by (cases "(t', b') = (t, target)") auto
    ultimately have "flights_ok db' (fl @ [((t, target), False)])" using ok new db'(1) by (auto simp: flights_ok_def)
    with r cl show ?thesis by simp
  qed
qed

lemma flights_initiate:
  assumes ok: "flights_ok db fl" and run: "InitiateCutover db t target sz th now = (db', r)"
  shows "flights_ok db' fl"
proof (cases "db' = db")
  case False
  with run have up: "UpsertPending db t target sz th now = (db', r)" "has_tenant db t"
    by (auto simp: InitiateCutover_def UpsertPending_def split: if_splits sum.splits)
  show ?thesis
  proof (cases "job db t target")
    case (Some j)
    have "db' = update_jobs (job_at t target) (pending_job sz th now) db" using up Some by (simp add: UpsertPending_def)
    moreover have "flights_ok (update_jobs (job_at t target) (pending_job sz th now) db) fl"
    proof (rule flights_update [OF ok])
      show "pending_job sz th now j = j" if k: "k \<in> fst ` set fl" and j: "job db (fst k) (snd k) = Some j" for k j
      proof -
        from ok k obtain j' where "job db (fst k) (snd k) = Some j'" "cj_State j' = CutoverInProgress" unfolding flights_ok_def by blast
        with j show ?thesis by (simp add: pending_job_def)
      qed
      fix j assume "j \<in> set (jobs db)"
      then have "job db (cj_TenantID j) (cj_TargetBackend j) = Some j" using ok by (simp add: flights_ok_def job_iff)
      with ok show "(cj_CompletedAt (pending_job sz th now j) \<noteq> None) = (cj_State (pending_job sz th now j) = CutoverCompleted)"
        unfolding flights_ok_def pending_job_def by auto
    qed simp
    ultimately show ?thesis by simp
  next
    case None
    then have db': "db' = db\<lparr>jobs := jobs db @ [new_job db t target sz th now]\<rparr>" using up by (auto simp: UpsertPending_def Let_def)
    have at: "job_at t' b' (new_job db t target sz th now) \<longleftrightarrow> (t', b') = (t, target)" for t' b' by (auto simp: job_at_def new_job_def)
    have job: "job db' t' b' = (if (t', b') = (t, target) then Some (new_job db t target sz th now) else job db t' b')" for t' b'
      using None by (auto simp: db' find_append at split: option.splits)
    have "key (new_job db t target sz th now) \<notin> key ` set (jobs db)" using None by (auto simp: find_None_iff job_at_def new_job_def)
    then have "tables_ok db'" using ok up(2) by (auto simp: flights_ok_def tables_ok_def db' has_tenant_def new_job_def)
    moreover have "(t, target) \<notin> fst ` set fl" using ok None unfolding flights_ok_def by fastforce
    moreover have "\<exists>j. job db' (fst k) (snd k) = Some j \<and> cj_State j = CutoverInProgress" if "k \<in> fst ` set fl" for k
    proof -
      have "k \<noteq> (t, target)" using that calculation(2) by blast
      then have "job db' (fst k) (snd k) = job db (fst k) (snd k)" by (metis job prod.collapse)
      then show ?thesis using ok that unfolding flights_ok_def by metis
    qed
    moreover have "(cj_CompletedAt j \<noteq> None) = (cj_State j = CutoverCompleted)" if "job db' t' b' = Some j" for t' b' j
    proof (cases "(t', b') = (t, target)")
      case True
      with that show ?thesis unfolding job by auto
    next
      case False
      then have "job db t' b' = Some j" using that by (simp only: job if_False)
      with ok show ?thesis unfolding flights_ok_def by blast
    qed
    ultimately show ?thesis using ok unfolding flights_ok_def by blast
  qed
qed (use ok in simp)

lemma flights_mark:
  assumes "flights_ok db (fl @ ((t, target), x) # fl')" and "keeps_key f"
    and "\<And>j. cj_State j = CutoverInProgress \<Longrightarrow> cj_CompletedAt j = None \<Longrightarrow> cj_CompletedAt (f j) \<noteq> None \<longleftrightarrow> cj_State (f j) = CutoverCompleted"
  shows "flights_ok (update_jobs (job_at t target) f db) (fl @ fl')"
proof -
  obtain j0 where j0: "job db t target = Some j0" "cj_State j0 = CutoverInProgress" "cj_CompletedAt j0 = None" and new: "(t, target) \<notin> fst ` set (fl @ fl')"
    using assms(1) by (rule flight_job)
  show ?thesis
  proof (rule flights_update [OF flights_sub [OF assms(1)] assms(2)])
    show "f j = j" if "k \<in> fst ` set (fl @ fl')" "job db (fst k) (snd k) = Some j" "job_at t target j" for k j
      using that new job_at_find [OF that(2)] by (auto simp: job_at_def)
    fix j assume "job_at t target j" "j \<in> set (jobs db)"
    then have "job db t target = Some j" using assms(1) by (simp add: flights_ok_def job_iff job_at_def)
    then have "j = j0" using j0(1) by simp
    with j0 assms(3) show "(cj_CompletedAt (f j) \<noteq> None) = (cj_State (f j) = CutoverCompleted)" by blast
  qed
qed

lemma flights_reconcile:
  assumes ok: "flights_ok db fl" and "timely db fl before" and "keeps_key f"
    and "\<And>j. cj_State j = CutoverInProgress \<Longrightarrow> cj_CompletedAt j = None \<Longrightarrow> cj_CompletedAt (f j) \<noteq> None \<longleftrightarrow> cj_State (f j) = CutoverCompleted"
  shows "flights_ok (update_jobs (stale db target b before) f db) fl"
proof (rule flights_update [OF ok assms(3)])
  show "f j = j" if "k \<in> fst ` set fl" "job db (fst k) (snd k) = Some j" "stale db target b before j" for k j
    using that assms(2) by (fastforce simp: timely_def stale_def)
  fix j assume j: "stale db target b before j" "j \<in> set (jobs db)"
  then have "job db (cj_TenantID j) (cj_TargetBackend j) = Some j" using ok by (simp add: flights_ok_def job_iff)
  moreover have "cj_State j = CutoverInProgress" using j(1) by (simp add: stale_def)
  ultimately have "cj_CompletedAt j = None" using ok unfolding flights_ok_def by (metis CutoverState.distinct(7))
  with \<open>cj_State j = CutoverInProgress\<close> assms(4) show "(cj_CompletedAt (f j) \<noteq> None) = (cj_State (f j) = CutoverCompleted)" by blast
qed

lemma set_backend_eq: "SetBackend svc db t b fault = (db', r) \<Longrightarrow> db' = db \<or> db' = set_backend t b db"
  by (auto simp: SetBackend_def split: if_splits option.splits)

lemma step_flights:
  assumes "cutover_step svc s s'" and "flights_ok (cr_db s) (cr_flights s)"
  shows "flights_ok (cr_db s') (cr_flights s')"
  using assms
proof (cases rule: cutover_step.cases)
  case (claim db t target sz th now db' fl)
  with assms(2) flights_claim [OF _ claim(3)] show ?thesis by simp
next
  case (lost db t target sz th now db' r fl)
  with assms(2) flights_claim [OF _ lost(3)] show ?thesis by simp
next
  case (start db t target sz th now db' r fl)
  with assms(2) flights_initiate [OF _ start(3)] show ?thesis by simp
next
  case (flip db t target fault db' fl fl')
  then have "flights_ok db' (fl @ ((t, target), False) # fl')" using assms(2) set_backend_eq [OF flip(3)] flights_backend by auto
  with flip show ?thesis by (simp add: flights_ok_def)
next
  case (mark db fl t target fl' now)
  with assms(2) flights_mark [of db fl t target True fl' "completed_job now"] show ?thesis by (simp add: MarkCompleted_def)
next
  case (stop db fl t target fl' reason now)
  with assms(2) flights_mark [of db fl t target False fl' "failed_job reason now"] show ?thesis by (simp add: MarkFailed_def)
next
  case (die db fl f fl')
  with assms(2) flights_sub show ?thesis by simp
next
  case (move db t backend fault db' r fl)
  with assms(2) set_backend_eq [OF move(3)] flights_backend show ?thesis by auto
next
  case (reconcile_completed db fl before target now)
  with assms(2) flights_reconcile [of db fl before "completed_job now"] show ?thesis by (simp add: ReconcileCompleted_def)
next
  case (reconcile_stale db fl before source target now)
  with assms(2) flights_reconcile [of db fl before "failed_job ''stale in_progress: assumed crash recovery'' now"] show ?thesis by (simp add: ReconcileStale_def)
qed

text \<open>
  C16: However claims, flips, completions, failures, crashes, operator requests and timely reconciliations of any number of pods
  interleave, no job ever has two migrations in flight, every migration in flight owns a job in progress,
  and a job carries a completion time exactly when it is completed.\<close>

theorem claims_are_exclusive:
  assumes "cutover_runs svc \<lparr>cr_db = \<lparr>backend_of = ts, jobs = [], db_now = n\<rparr>, cr_flights = []\<rparr> s" and "distinct (map fst ts)"
  shows "distinct (map fst (cr_flights s))
    \<and> (\<forall>f \<in> set (cr_flights s). \<exists>j. job (cr_db s) (fst (fst f)) (snd (fst f)) = Some j \<and> cj_State j = CutoverInProgress)
    \<and> (\<forall>j \<in> set (jobs (cr_db s)). cj_CompletedAt j \<noteq> None \<longleftrightarrow> cj_State j = CutoverCompleted)"
proof -
  have "flights_ok (cr_db s) (cr_flights s)"
    using assms(1)
  proof (induction rule: rtranclp_induct)
    case base
    then show ?case using assms(2) by (simp add: flights_ok_def tables_ok_def)
  next
    case (step y z)
    with step_flights show ?case by blast
  qed
  then have ok: "flights_ok (cr_db s) (cr_flights s)" .
  have "job (cr_db s) (cj_TenantID j) (cj_TargetBackend j) = Some j" if "j \<in> set (jobs (cr_db s))" for j
    using that ok by (simp add: flights_ok_def job_iff)
  with ok show ?thesis unfolding flights_ok_def by fastforce
qed

subsection \<open>A concrete engine\<close>

definition ex_engine :: "(string \<times> search_message) list search_backend" where
  "ex_engine = \<lparr>sb_SearchMessages = (\<lambda>ix t q n. (ix, Inr (map (\<lambda>(_, m). \<lparr>sh_MessageID = sm_MessageID m, sh_Subject = sm_Subject m, sh_Snippet = sm_Snippet m\<rparr>)
       (take n (filter (\<lambda>(u, m). u = t \<and> validationQuery m = q) ix))))),
     sb_DeleteIndex = (\<lambda>ix t. (filter (\<lambda>(u, _). u \<noteq> t) ix, None)),
     sb_MigrateIndex = (\<lambda>ix t msgs. (ix @ map (Pair t) msgs, None))\<rparr>"

definition ex_mail :: search_message where
  "ex_mail = \<lparr>sm_MailboxID = ''in'', sm_MessageID = ''m1'', sm_Subject = ''hello'', sm_Snippet = [], sm_From = ''a@b''\<rparr>"

definition ex_deps :: "(string \<times> search_message) list migration_deps" where
  "ex_deps = \<lparr>md_svc = (\<lambda>n. if n = ''opensearch'' then Some ex_engine else None), md_markCompletedRetries = 3, md_sha = (\<lambda>s. s), md_audit_env = undefined,
     md_actorType = [], md_actorID = []\<rparr>"

definition ex_outcome :: "search_err option \<Rightarrow> search_message list \<Rightarrow> migration_outcome" where
  "ex_outcome flip msgs = \<lparr>mo_messages = Inr msgs, mo_perm = [0], mo_cancelled = (\<lambda>_ _. False), mo_flip = flip, mo_mark = [], mo_mark_cancelled = (\<lambda>_. False),
     mo_mark_failed = None, mo_now = 9, mo_audit_id = ''a1'', mo_audit_now = 9\<rparr>"

definition ex_cutover_job :: "CutoverState \<Rightarrow> time \<Rightarrow> CutoverJob" where
  "ex_cutover_job st upd = \<lparr>cj_TenantID = ''t'', cj_TargetBackend = ''opensearch'', cj_State = st, cj_MailboxSize = 7, cj_Threshold = 5, cj_StartedAt = Some upd,
     cj_CompletedAt = None, cj_FailureCount = 0, cj_LastError = [], cj_CreatedAt = 0, cj_UpdatedAt = upd\<rparr>"

definition ex_world :: "CutoverJob list \<Rightarrow> (string \<times> search_message) list cutover_world" where
  "ex_world js = \<lparr>cw_db = \<lparr>backend_of = [(''t'', ''meilisearch'')], jobs = js, db_now = 0\<rparr>, cw_ix = [], cw_audit = None, cw_Completed = 0, cw_Failed = 0\<rparr>"

definition ex_cfg :: CutoverConfig where
  "ex_cfg = NewCutoverWorker \<lparr>cc_Threshold = 5, cc_MaxFailures = 0, cc_MaxRetryGap = 10, cc_ReconcileAfter = 10, cc_Transitions = [], cc_MarkCompletedRetries = 0\<rparr>"

definition ex_tick :: tick_outcome where
  "ex_tick = \<lparr>tk_size = (\<lambda>_. Inr 7), tk_claim_now = (\<lambda>_ _. 8), tk_claim_fault = (\<lambda>_ _. None), tk_migration = (\<lambda>_ _. ex_outcome None [ex_mail])\<rparr>"

lemma ex_world_ok [simp]: "tables_ok (cw_db (ex_world []))" "tables_ok (cw_db (ex_world [ex_cutover_job st upd]))"
  by (simp_all add: tables_ok_def ex_world_def has_tenant_def ex_cutover_job_def)

lemma contains_hit: "containsMessageID hs i \<longleftrightarrow> i \<in> sh_MessageID ` set hs"
  by (induction hs) auto

text \<open>The concrete engine serves whatever is imported into it.\<close>

lemma ex_engine_serves: "engine_serves ex_engine t [ex_mail] (\<lambda>ix. (t, ex_mail) \<in> set ix)"
proof -
  have "containsMessageID hits (sm_MessageID ex_mail) \<or> cutoverValidationLimit \<le> length hits"
    if ix: "(t, ex_mail) \<in> set ix" and hits: "sb_SearchMessages ex_engine ix t (validationQuery ex_mail) cutoverValidationLimit = (ix, Inr hits)" for ix hits
  proof -
    let ?found = "filter (\<lambda>(u, m). u = t \<and> validationQuery m = validationQuery ex_mail) ix"
    have map: "map sh_MessageID hits = map (sm_MessageID \<circ> snd) (take cutoverValidationLimit ?found)" using hits by (auto simp: ex_engine_def)
    show ?thesis
    proof (cases "cutoverValidationLimit \<le> length ?found")
      case True
      with arg_cong [OF map, of length] show ?thesis by simp
    next
      case False
      then have "sm_MessageID ex_mail \<in> set (map sh_MessageID hits)" using ix unfolding map by force
      then show ?thesis by (simp add: contains_hit)
    qed
  qed
  moreover have "\<exists>hits. sb_SearchMessages ex_engine ix t q n = (ix, Inr hits)" for ix q n by (simp add: ex_engine_def)
  moreover have "snd (sb_DeleteIndex ex_engine ix t) = None" "snd (sb_MigrateIndex ex_engine ix t ms) = None"
    "fst (sb_MigrateIndex ex_engine ix t ms) = ix @ map (Pair t) ms" for ix ms by (simp_all add: ex_engine_def)
  ultimately show ?thesis unfolding engine_serves_def by simp blast
qed

theorem wedged_job_recovers_witness:
  "job (cw_db (tickTransition ex_cfg ex_deps ex_tick 20 (''meilisearch'', ''opensearch'') (ex_world [ex_cutover_job CutoverInProgress 1]))) ''t'' ''opensearch''
    = Some (failed_job ''stale in_progress: assumed crash recovery'' 20 (ex_cutover_job CutoverInProgress 1))"
proof -
  have h: "job (cw_db (ex_world [ex_cutover_job CutoverInProgress 1])) ''t'' ''opensearch'' = Some (ex_cutover_job CutoverInProgress 1)"
    "cj_State (ex_cutover_job CutoverInProgress 1) = CutoverInProgress" "cj_UpdatedAt (ex_cutover_job CutoverInProgress 1) < 20 - cc_ReconcileAfter ex_cfg"
    "''meilisearch'' \<noteq> ''opensearch''" "0 \<le> cc_MaxRetryGap ex_cfg" "0 < md_markCompletedRetries ex_deps"
    "map_of (backend_of (cw_db (ex_world [ex_cutover_job CutoverInProgress 1]))) ''t'' = Some ''meilisearch''"
    by (simp_all add: ex_world_def ex_cutover_job_def job_at_def ex_cfg_def NewCutoverWorker_def ex_deps_def)
  from wedged_job_recovers [OF ex_world_ok(2) h] show ?thesis by simp
qed

theorem flip_only_after_validation_witness:
  "\<exists>w' ix1. runMigration ex_deps (ex_outcome None [ex_mail]) (ex_world [ex_cutover_job CutoverInProgress 1]) ''t'' ''meilisearch'' ''opensearch'' = (w', None)
    \<and> reindexed ex_engine (cw_ix (ex_world [ex_cutover_job CutoverInProgress 1])) ''t'' [ex_mail] ix1 \<and> findable ex_engine ''t'' ix1 ex_mail
    \<and> map_of (backend_of (cw_db w')) ''t'' = Some ''opensearch''
    \<and> touches_only ''t'' ''opensearch'' (cw_db (ex_world [ex_cutover_job CutoverInProgress 1])) (cw_db w')"
proof -
  let ?w = "ex_world [ex_cutover_job CutoverInProgress 1]" and ?o = "ex_outcome None [ex_mail]"
  obtain w' where run: "runMigration ex_deps ?o ?w ''t'' ''meilisearch'' ''opensearch'' = (w', None)"
    by (simp add: runMigration_def ex_outcome_def ReindexTo_def reindexInto_def Validate_def probed_def sampleMessages_def validateSearchable_def eval_nat_numeral
        ex_deps_def ex_engine_def ex_mail_def validationQuery_def IsValidBackend_def IsBackendAvailable_def SetBackend_def recordAudit_def Let_def
        has_tenant_def markCompletedWithRetry_def ex_world_def)
  have job: "job (cw_db ?w) ''t'' ''opensearch'' = Some (ex_cutover_job CutoverInProgress 1)" by (simp add: ex_world_def ex_cutover_job_def job_at_def)
  have d: "0 < md_markCompletedRetries ex_deps" "md_svc ex_deps ''opensearch'' = Some ex_engine" "mo_messages ?o = Inr [ex_mail]"
    "ex_mail \<in> set (probed (mo_perm ?o) [ex_mail])"
    by (simp_all add: ex_deps_def ex_outcome_def probed_def sampleMessages_def ex_mail_def validationQuery_def)
  from flip_only_after_validation [OF ex_world_ok(2) job d(1) run] d(2-) run show ?thesis by auto
qed

theorem tick_promotes_witness:
  "map_of (backend_of (cw_db (tickTransition ex_cfg ex_deps ex_tick 20 (''meilisearch'', ''opensearch'') (ex_world [])))) ''t'' = Some ''opensearch''"
proof -
  have c: "''t'' \<in> set (ListCandidates (cw_db (ex_world [])) (tick_filter ex_cfg 20 (''meilisearch'', ''opensearch'')))"
    by (simp add: ListCandidates_def ex_world_def tick_filter_def)
  have e: "md_svc ex_deps ''opensearch'' = Some ex_engine" "0 < md_markCompletedRetries ex_deps" by (simp_all add: ex_deps_def)
  have k: "tk_size ex_tick ''t'' = Inr 7" "cc_Threshold ex_cfg \<le> 7" "tk_claim_fault ex_tick ''t'' ''opensearch'' = None"
    "mo_flip (tk_migration ex_tick ''t'' ''opensearch'') = None" "mo_mark (tk_migration ex_tick ''t'' ''opensearch'') = []"
    "mo_messages (tk_migration ex_tick ''t'' ''opensearch'') = Inr [ex_mail]"
    by (simp_all add: ex_tick_def ex_cfg_def NewCutoverWorker_def ex_outcome_def)
  have p: "perm_of (mo_perm (tk_migration ex_tick ''t'' ''opensearch'')) (length (searchable [ex_mail]))"
    by (simp add: perm_of_def ex_tick_def ex_outcome_def searchable_def ex_mail_def validationQuery_def)
  have n: "''t'' \<noteq> ([] :: string)" "IsValidBackend ''opensearch''" by (simp_all add: IsValidBackend_def)
  from tick_promotes [OF ex_world_ok(1) c k(1-5) e(2,1) ex_engine_serves k(6) p n] show ?thesis by blast
qed

definition ex_bad_tick :: tick_outcome where
  "ex_bad_tick = ex_tick\<lparr>tk_migration := (\<lambda>_ _. (ex_outcome None [])\<lparr>mo_messages := Inl (Failure ''export'')\<rparr>)\<rparr>"

lemma ex_one_job: "\<exists>j. jobs (cw_db (fold (Tick ex_cfg ex_deps) [\<lambda>_. (ex_bad_tick, 20)] (ex_world []))) = [j] \<and> cj_FailureCount j = 1"
  by (simp add: Tick_def tickTransition_def ReconcileCompleted_def ReconcileStale_def update_jobs_def Let_def ex_cfg_def NewCutoverWorker_def
      DefaultCutoverTransitions_def ex_world_def ex_deps_def ex_bad_tick_def ex_tick_def ex_outcome_def ListCandidates_def tick_filter_def cutoverOne_def Claim_def
      has_tenant_def job_at_def new_job_def claimable_def claimed_job_def stale_def runMigration_def markFailed_def recordAudit_def MarkFailed_def failed_job_def)

theorem retries_are_bounded_witness:
  "\<exists>j. jobs (cw_db (fold (Tick ex_cfg ex_deps) [\<lambda>_. (ex_bad_tick, 20)] (ex_world []))) = [j] \<and> cj_FailureCount j = 1 \<and> cj_FailureCount j \<le> 5"
proof -
  obtain j where j: "jobs (cw_db (fold (Tick ex_cfg ex_deps) [\<lambda>_. (ex_bad_tick, 20)] (ex_world []))) = [j]" "cj_FailureCount j = 1"
    using ex_one_job by blast
  then have mem: "j \<in> set (jobs (cw_db (fold (Tick ex_cfg ex_deps) [\<lambda>_. (ex_bad_tick, 20)] (ex_world []))))" by simp
  have "cc_MaxFailures ex_cfg = 5" "jobs (cw_db (ex_world [])) = []" "md_markCompletedRetries ex_deps = nat (cc_MarkCompletedRetries ex_cfg)"
    by (simp_all add: ex_cfg_def NewCutoverWorker_def ex_world_def ex_deps_def)
  with retries_are_bounded [OF ex_world_ok(1) _ ex_cfg_def _ mem] j show ?thesis by simp
qed

theorem claims_are_exclusive_witness:
  "\<exists>db'. Claim (cw_db (ex_world [])) ''t'' ''opensearch'' 7 5 8 = (db', Inr True) \<and> list_all (\<lambda>j. cj_CompletedAt j \<noteq> None \<longleftrightarrow> cj_State j = CutoverCompleted) (jobs db')"
proof -
  let ?db = "cw_db (ex_world [])"
  obtain db' where c: "Claim ?db ''t'' ''opensearch'' 7 5 8 = (db', Inr True)"
    by (simp add: Claim_def ex_world_def has_tenant_def job_at_def new_job_def claimable_def)
  from cutover_step.claim [OF c, of "md_svc ex_deps" "[]"]
  have "cutover_runs (md_svc ex_deps) \<lparr>cr_db = \<lparr>backend_of = [(''t'', ''meilisearch'')], jobs = [], db_now = 0\<rparr>, cr_flights = []\<rparr>
      \<lparr>cr_db = db', cr_flights = [((''t'', ''opensearch''), False)]\<rparr>" by (simp add: ex_world_def r_into_rtranclp)
  from claims_are_exclusive [OF this] c show ?thesis by (auto simp: list_all_iff)
qed

end
