(* ===== verification/Calendar.thy ===== *)
theory Calendar
  imports Prelude
begin

text \<open>
  Machine integers and instants of the Go standard library as the program uses them: \<^verbatim>\<open>int64\<close> arithmetic,
  \<^verbatim>\<open>strconv.ParseInt\<close>, the difference of two instants, civil dates in UTC.
\<close>

subsection \<open>Integers\<close>

definition int64 :: "int \<Rightarrow> int" where
  "int64 n = (n + 2 ^ 63) mod 2 ^ 64 - 2 ^ 63"

definition fits_int8 :: "int \<Rightarrow> bool" where
  "fits_int8 n \<longleftrightarrow> - (2 ^ 63) \<le> n \<and> n < 2 ^ 63"

definition fits_int4 :: "int \<Rightarrow> bool" where
  "fits_int4 n \<longleftrightarrow> - (2 ^ 31) \<le> n \<and> n < 2 ^ 31"

lemma int64_id: "fits_int8 n \<Longrightarrow> int64 n = n"
  by (simp add: int64_def fits_int8_def)

lemma fits_int8_int64: "fits_int8 (int64 n)"
  using pos_mod_sign [of "2 ^ 64" "n + 2 ^ 63"] pos_mod_bound [of "2 ^ 64" "n + 2 ^ 63"]
  by (simp add: int64_def fits_int8_def)

lemma int64_minus: "n \<noteq> - (2 ^ 63) \<Longrightarrow> fits_int8 n \<Longrightarrow> int64 (- n) = - n"
  by (rule int64_id) (simp add: fits_int8_def)

lemma fits_int8_mono: "fits_int8 n \<Longrightarrow> \<bar>m\<bar> \<le> \<bar>n\<bar> \<Longrightarrow> n \<noteq> - (2 ^ 63) \<Longrightarrow> fits_int8 m"
  by (auto simp: fits_int8_def)

text \<open>\<^verbatim>\<open>strconv.ParseInt(s, 10, 64)\<close>: an optional sign, digits only, in range.\<close>

definition ParseInt :: "string \<Rightarrow> int option" where
  "ParseInt s =
     (let (neg, ds) = (case s of [] \<Rightarrow> (False, [])
                       | c # cs \<Rightarrow> if c = CHR ''-'' then (True, cs) else if c = CHR ''+'' then (False, cs) else (False, s))
      in if ds = [] then None
         else case parse_digits 0 ds of
             None \<Rightarrow> None
           | Some n \<Rightarrow> let v = (if neg then - int n else int n) in if fits_int8 v then Some v else None)"

subsection \<open>Instants\<close>

abbreviation nanos_per_day :: int where "nanos_per_day \<equiv> 86400 * nanos_per_s"
abbreviation nanos_per_hour :: int where "nanos_per_hour \<equiv> 3600 * nanos_per_s"

definition day_of :: "time \<Rightarrow> int" where "day_of t = t div nanos_per_day"
definition hour_of :: "time \<Rightarrow> int" where "hour_of t = t div nanos_per_hour"

text \<open>\<^verbatim>\<open>Time.Sub\<close> saturates.\<close>

definition time_Sub :: "time \<Rightarrow> time \<Rightarrow> duration" where
  "time_Sub a b = max (- (2 ^ 63)) (min (2 ^ 63 - 1) (a - b))"

lemma time_Sub_within: "\<bar>a - b\<bar> < 2 ^ 63 \<Longrightarrow> time_Sub a b = a - b"
  by (simp add: time_Sub_def)

lemma time_Sub_mono: "b' \<le> b \<Longrightarrow> time_Sub a b \<le> time_Sub a b'"
  by (simp add: time_Sub_def)

text \<open>
  The civil date of a day number in the proleptic Gregorian calendar, counted in eras of 400 years that begin on the
  first of March, and its inverse.
\<close>

definition civil_date :: "int \<Rightarrow> int \<times> int \<times> int" where
  "civil_date days =
     (let z = days + 719468; era = z div 146097; doe = z mod 146097;
          yoe = (doe - doe div 1460 + doe div 36524 - doe div 146096) div 365;
          doy = doe - (365 * yoe + yoe div 4 - yoe div 100);
          mp = (5 * doy + 2) div 153; d = doy - (153 * mp + 2) div 5 + 1; m = (if mp < 10 then mp + 3 else mp - 9)
      in (yoe + era * 400 + (if m \<le> 2 then 1 else 0), m, d))"

definition civil_days :: "int \<Rightarrow> int \<Rightarrow> int \<Rightarrow> int" where
  "civil_days y0 m d =
     (let y = (if m \<le> 2 then y0 - 1 else y0); era = y div 400; yoe = y mod 400; mp = (if m > 2 then m - 3 else m + 9);
          doy = (153 * mp + 2) div 5 + d - 1; doe = yoe * 365 + yoe div 4 - yoe div 100 + doy
      in era * 146097 + doe - 719468)"

text \<open>\<^verbatim>\<open>t.AddDate(0, 1, 0)\<close> in UTC: the same day of the next month, where a day past its end runs into the month after.\<close>

definition AddMonth :: "time \<Rightarrow> time" where
  "AddMonth t =
     (case civil_date (day_of t) of (y, m, d) \<Rightarrow>
        let (y', m') = (if m = 12 then (y + 1, 1) else (y, m + 1))
        in (civil_days y' m' 1 + d - 1) * nanos_per_day + t mod nanos_per_day)"

definition pad :: "nat \<Rightarrow> int \<Rightarrow> string" where
  "pad w n = (let s = itoa n in replicate (w - length s) (CHR ''0'') @ s)"

lemma pad_two:
  assumes "0 \<le> n" and "n < 100"
  shows "pad 2 n = [digit_char (nat n div 10), digit_char (nat n mod 10)]"
proof (cases "nat n < 10")
  case True
  moreover have "digit_char 0 = CHR ''0''" by code_simp
  ultimately show ?thesis using assms by (simp add: pad_def itoa_def dec_nat.simps [of "nat n"])
next
  case False
  then have "dec_nat (nat n) = [digit_char (nat n div 10), digit_char (nat n mod 10)]"
    using assms by (simp add: dec_nat.simps [of "nat n"] dec_nat.simps [of "nat n div 10"])
  with assms show ?thesis by (simp add: pad_def itoa_def)
qed

end
