(* ===== verification/Deliverability.thy ===== *)
theory Deliverability
  imports Complex_Main Valkey Calendar "HOL-Library.List_Lexorder" "HOL-Library.Char_ord"
begin

text \<open>
  The deliverability control plane, \<^verbatim>\<open>internal/deliverability\<close>: suppression lists (\<^verbatim>\<open>suppression.go\<close>), bounce
  processing (\<^verbatim>\<open>bounce.go\<close>), send limits on Valkey counters (\<^verbatim>\<open>sendlimit.go\<close>), the warm-up ramp (\<^verbatim>\<open>warmup.go\<close>), IP
  pools (\<^verbatim>\<open>ippool.go\<close>), abuse scoring (\<^verbatim>\<open>abuse.go\<close>) and deliverability alerts (\<^verbatim>\<open>alerts.go\<close>).

  Tables are lists in insertion order with their keys; row ids and the database clock are arguments. Tenant ids
  are compared as text. A \<^verbatim>\<open>float64\<close> is a rational number. A service without a database, which only tests build,
  is not modelled; letters are folded in ASCII.
\<close>

subsection \<open>Data\<close>

datatype deliv_error =
    DInvalid string | DNotFound | DSuppressed string | DSendLimitExceeded | DDatabase

record Suppression =
  su_ID :: string
  su_TenantID :: string
  su_Email :: string
  su_Reason :: string
  su_Source :: string
  su_CreatedAt :: time

record BounceEvent =
  be_ID :: string
  be_TenantID :: string
  be_Email :: string
  be_BounceType :: string
  be_DSNCode :: string
  be_Diagnostic :: string
  be_MessageID :: string
  be_CreatedAt :: time

record IPPool =
  pool_ID :: string
  pool_Name :: string
  pool_Type :: string
  pool_Description :: string
  pool_CreatedAt :: time

record IPAddress =
  ip_ID :: string
  ip_PoolID :: string
  ip_Address :: string
  ip_ReverseDNS :: string
  ip_ReputationScore :: int
  ip_DailyVolume :: int
  ip_WarmupDay :: int
  ip_Status :: string

record TenantPoolAssignment =
  as_TenantID :: string
  as_PoolID :: string
  as_Priority :: int
  as_CreatedAt :: time

text \<open>\<open>plans\<close>: id, plan and creation time of the tenants; \<open>send_limits\<close>: the daily and hourly override of a tenant.\<close>

record deliv_db =
  plans :: "(string \<times> string \<times> time) list"
  suppression_list :: "Suppression list"
  bounce_events :: "BounceEvent list"
  send_limits :: "(string \<times> int \<times> int) list"
  ip_pools :: "IPPool list"
  ip_addresses :: "IPAddress list"
  pool_assignments :: "TenantPoolAssignment list"

record deliv_config =
  dc_CoreDailyLimit :: int
  dc_ProDailyLimit :: int
  dc_PrivacyDailyLimit :: int
  dc_WarmupDays :: int
  dc_BounceSoftEscalationCount :: int
  dc_BounceSoftWindow :: duration

definition deliv_NewService :: "deliv_config \<Rightarrow> deliv_config" where
  "deliv_NewService cfg =
     \<lparr>dc_CoreDailyLimit = (if dc_CoreDailyLimit cfg \<le> 0 then 500 else dc_CoreDailyLimit cfg),
      dc_ProDailyLimit = (if dc_ProDailyLimit cfg \<le> 0 then 2000 else dc_ProDailyLimit cfg),
      dc_PrivacyDailyLimit = (if dc_PrivacyDailyLimit cfg \<le> 0 then 5000 else dc_PrivacyDailyLimit cfg),
      dc_WarmupDays = (if dc_WarmupDays cfg \<le> 0 then 30 else dc_WarmupDays cfg),
      dc_BounceSoftEscalationCount = (if dc_BounceSoftEscalationCount cfg \<le> 0 then 3 else dc_BounceSoftEscalationCount cfg),
      dc_BounceSoftWindow = (if dc_BounceSoftWindow cfg \<le> 0 then 72 * 3600 * nanos_per_s else dc_BounceSoftWindow cfg)\<rparr>"

definition tenant_known :: "deliv_db \<Rightarrow> string \<Rightarrow> bool" where
  "tenant_known db tenantID \<longleftrightarrow> tenantID \<in> fst ` set (plans db)"

subsection \<open>Suppression lists\<close>

definition isValidReason :: "string \<Rightarrow> bool" where
  "isValidReason r \<longleftrightarrow> r \<in> {''hard_bounce'', ''complaint'', ''manual'', ''unsubscribe''}"

definition normalizeEmail :: "string \<Rightarrow> string" where
  "normalizeEmail e = map ascii_lower (trim_space e)"

definition suppression_at :: "string \<Rightarrow> string \<Rightarrow> Suppression \<Rightarrow> bool" where
  "suppression_at tenantID email r \<longleftrightarrow> su_TenantID r = tenantID \<and> su_Email r = email"

definition AddSuppression :: "deliv_db \<Rightarrow> string \<Rightarrow> time \<Rightarrow> string \<Rightarrow> string \<Rightarrow> string \<Rightarrow> string \<Rightarrow> deliv_db \<times> (deliv_error + Suppression)" where
  "AddSuppression db nid now tenantID email reason source =
     (if tenantID = [] \<or> email = [] then (db, Inl (DInvalid ''tenantID and email required''))
      else if \<not> isValidReason reason then (db, Inl (DInvalid (''invalid reason '' @ reason)))
      else if \<not> tenant_known db tenantID then (db, Inl DDatabase)
      else let email1 = normalizeEmail email in
        (case find (suppression_at tenantID email1) (suppression_list db) of
           None \<Rightarrow>
             (let row = \<lparr>su_ID = nid, su_TenantID = tenantID, su_Email = email1, su_Reason = reason, su_Source = source, su_CreatedAt = now\<rparr>
              in (db\<lparr>suppression_list := suppression_list db @ [row]\<rparr>, Inr row))
         | Some r \<Rightarrow>
             (db\<lparr>suppression_list := map (\<lambda>x. if suppression_at tenantID email1 x then x\<lparr>su_Reason := reason, su_Source := source\<rparr> else x) (suppression_list db)\<rparr>,
              Inr (r\<lparr>su_Reason := reason, su_Source := source\<rparr>))))"

definition RemoveSuppression :: "deliv_db \<Rightarrow> string \<Rightarrow> string \<Rightarrow> deliv_db \<times> deliv_error option" where
  "RemoveSuppression db tenantID email =
     (if tenantID = [] \<or> email = [] then (db, Some (DInvalid ''tenantID and email required''))
      else if \<not> list_ex (suppression_at tenantID (normalizeEmail email)) (suppression_list db) then (db, Some DNotFound)
      else (db\<lparr>suppression_list := filter (\<lambda>r. \<not> suppression_at tenantID (normalizeEmail email) r) (suppression_list db)\<rparr>, None))"

definition IsSuppressed :: "deliv_db \<Rightarrow> string \<Rightarrow> string \<Rightarrow> deliv_error + bool" where
  "IsSuppressed db tenantID email =
     (if tenantID = [] \<or> email = [] then Inl (DInvalid ''tenantID and email required'')
      else Inr (list_ex (suppression_at tenantID (normalizeEmail email)) (suppression_list db)))"

definition CheckRecipient :: "deliv_db \<Rightarrow> string \<Rightarrow> string \<Rightarrow> deliv_error option" where
  "CheckRecipient db tenantID recipientEmail =
     (case IsSuppressed db tenantID recipientEmail of
        Inl e \<Rightarrow> Some e
      | Inr True \<Rightarrow> Some (DSuppressed recipientEmail)
      | Inr False \<Rightarrow> None)"

text \<open>Rows of equal age come in insertion order; the query leaves their order open.\<close>

definition page :: "int \<Rightarrow> int \<Rightarrow> 'a list \<Rightarrow> 'a list" where
  "page lmt ofs xs = take (nat lmt) (drop (nat ofs) xs)"

definition ListSuppressions :: "deliv_db \<Rightarrow> string \<Rightarrow> string \<Rightarrow> int \<Rightarrow> int \<Rightarrow> deliv_error + Suppression list" where
  "ListSuppressions db tenantID reason lmt ofs =
     (if tenantID = [] then Inl (DInvalid ''tenantID required'')
      else Inr (page (if lmt \<le> 0 \<or> lmt > 500 then 100 else lmt) (if ofs < 0 then 0 else ofs)
        (sort_key (\<lambda>r. - su_CreatedAt r) (filter (\<lambda>r. su_TenantID r = tenantID \<and> (reason = [] \<or> su_Reason r = reason)) (suppression_list db)))))"

subsection \<open>Bounces\<close>

definition recent_soft :: "deliv_db \<Rightarrow> string \<Rightarrow> string \<Rightarrow> time \<Rightarrow> int" where
  "recent_soft db tenantID email since =
     int (length (filter (\<lambda>b. be_TenantID b = tenantID \<and> be_Email b = email \<and> be_BounceType b = ''soft'' \<and> since \<le> be_CreatedAt b) (bounce_events db)))"

text \<open>
  \<open>bid\<close> and \<open>dbnow\<close> are id and creation time of the event, \<open>now\<close> the clock of the process, \<open>nid\<close> the id of a new
  suppression. An error of the suppression is dropped.
\<close>

definition ShouldEscalateSoft :: "deliv_config \<Rightarrow> int \<Rightarrow> bool" where
  "ShouldEscalateSoft cfg recent \<longleftrightarrow> recent \<ge> dc_BounceSoftEscalationCount cfg"

definition ProcessBounce :: "deliv_config \<Rightarrow> deliv_db \<Rightarrow> string \<Rightarrow> time \<Rightarrow> time \<Rightarrow> string \<Rightarrow> string \<Rightarrow> BounceEvent \<Rightarrow> deliv_db \<times> (deliv_error + BounceEvent)" where
  "ProcessBounce cfg db bid dbnow now nid tenantID evt =
     (if tenantID = [] \<or> be_Email evt = [] then (db, Inl (DInvalid ''tenantID and email required''))
      else if be_BounceType evt \<notin> {''hard'', ''soft'', ''complaint''} then (db, Inl (DInvalid (''invalid bounce_type '' @ be_BounceType evt)))
      else if \<not> tenant_known db tenantID then (db, Inl DDatabase)
      else let email = normalizeEmail (be_Email evt);
               evt1 = evt\<lparr>be_ID := bid, be_TenantID := tenantID, be_Email := email, be_CreatedAt := dbnow\<rparr>;
               db1 = db\<lparr>bounce_events := bounce_events db @ [evt1]\<rparr>;
               recent = (if be_BounceType evt = ''soft'' then recent_soft db1 tenantID email (now - dc_BounceSoftWindow cfg) else 0);
               suppress = (\<lambda>reason source. fst (AddSuppression db1 nid dbnow tenantID email reason source))
           in (if be_BounceType evt = ''hard'' then suppress ''hard_bounce'' ''bounce-processor''
               else if be_BounceType evt = ''complaint'' then suppress ''complaint'' ''bounce-processor''
               else if ShouldEscalateSoft cfg recent then suppress ''hard_bounce'' ''bounce-processor-soft-escalation''
               else db1, Inr evt1))"

definition ListBounces :: "deliv_db \<Rightarrow> string \<Rightarrow> int \<Rightarrow> int \<Rightarrow> deliv_error + BounceEvent list" where
  "ListBounces db tenantID lmt ofs =
     (if tenantID = [] then Inl (DInvalid ''tenantID required'')
      else Inr (page (if lmt \<le> 0 \<or> lmt > 500 then 100 else lmt) (if ofs < 0 then 0 else ofs)
        (sort_key (\<lambda>b. - be_CreatedAt b) (filter (\<lambda>b. be_TenantID b = tenantID) (bounce_events db)))))"

subsection \<open>Send limits\<close>

definition PlanDailyLimit :: "deliv_config \<Rightarrow> string \<Rightarrow> int option" where
  "PlanDailyLimit cfg plan =
     (if plan = ''core'' then Some (dc_CoreDailyLimit cfg) else if plan = ''pro'' then Some (dc_ProDailyLimit cfg)
      else if plan = ''privacy'' then Some (dc_PrivacyDailyLimit cfg) else None)"

definition HourlyFromDaily :: "int \<Rightarrow> int" where
  "HourlyFromDaily daily = (if daily \<le> 0 then 0 else let h = quot daily 10 in if h \<le> 0 then 1 else h)"

text \<open>The daily and hourly limit; the plan of an unknown name counts as 0.\<close>

definition GetLimit :: "deliv_config \<Rightarrow> deliv_db \<Rightarrow> string \<Rightarrow> deliv_error + int \<times> int" where
  "GetLimit cfg db tenantID =
     (if tenantID = [] then Inl (DInvalid ''tenantID required'')
      else case map_of (plans db) tenantID of
          None \<Rightarrow> Inl DDatabase
        | Some (plan, _) \<Rightarrow>
            let (d, h) = (case map_of (send_limits db) tenantID of None \<Rightarrow> (0, 0) | Some lmt \<Rightarrow> lmt);
                daily = (if d = 0 then (case PlanDailyLimit cfg plan of None \<Rightarrow> 0 | Some p \<Rightarrow> p) else d);
                hourly = (if h = 0 then HourlyFromDaily daily else h)
            in Inr (daily, hourly))"

definition SetLimit :: "deliv_db \<Rightarrow> string \<Rightarrow> int \<Rightarrow> int \<Rightarrow> deliv_db \<times> deliv_error option" where
  "SetLimit db tenantID daily hourly =
     (if tenantID = [] then (db, Some (DInvalid ''tenantID required''))
      else if daily < 0 \<or> hourly < 0 then (db, Some (DInvalid ''limits must be >= 0''))
      else if \<not> tenant_known db tenantID then (db, Some DDatabase)
      else (db\<lparr>send_limits := AList.update tenantID (daily, hourly) (send_limits db)\<rparr>, None))"

text \<open>\<^verbatim>\<open>Format("20060102")\<close> in UTC.\<close>

definition format_day :: "int \<Rightarrow> string" where
  "format_day day = (case civil_date day of (y, m, d) \<Rightarrow> pad 4 y @ pad 2 m @ pad 2 d)"

definition dailyKey :: "string \<Rightarrow> time \<Rightarrow> string" where
  "dailyKey tenantID t = ''kmail:sends:daily:'' @ tenantID @ '':'' @ format_day (day_of t)"

definition hourlyKey :: "string \<Rightarrow> time \<Rightarrow> string" where
  "hourlyKey tenantID t = ''kmail:sends:hourly:'' @ tenantID @ '':'' @ format_day (hour_of t div 24) @ pad 2 (hour_of t mod 24)"

text \<open>\<open>up\<close>: the pipeline reaches Valkey; \<open>vt\<close> is Valkey's clock in milliseconds, \<open>now\<close> the clock of the process.\<close>

definition CheckSendLimit :: "deliv_config \<Rightarrow> deliv_db \<Rightarrow> 's valkey option \<Rightarrow> bool \<Rightarrow> 's \<Rightarrow> int \<Rightarrow> time \<Rightarrow> string \<Rightarrow> 's \<times> deliv_error option" where
  "CheckSendLimit cfg db vk up s vt now tenantID =
     (if tenantID = [] then (s, Some (DInvalid ''tenantID required''))
      else case GetLimit cfg db tenantID of
          Inl e \<Rightarrow> (s, Some e)
        | Inr (daily, hourly) \<Rightarrow>
            (case vk of
               None \<Rightarrow> (s, None)
             | Some v \<Rightarrow>
                 if \<not> up then (s, None)
                 else let (s1, d) = vk_incr v s vt (dailyKey tenantID now);
                          s2 = vk_expirenx v s1 vt (dailyKey tenantID now) (9 * 24 * 3600 * 1000);
                          (s3, h) = vk_incr v s2 vt (hourlyKey tenantID now);
                          s4 = vk_expirenx v s3 vt (hourlyKey tenantID now) (2 * 3600 * 1000)
                      in (s4, case (d, h) of
                           (Some dn, Some hn) \<Rightarrow>
                             if daily > 0 \<and> dn > daily then Some DSendLimitExceeded
                             else if hourly > 0 \<and> hn > hourly then Some DSendLimitExceeded else None
                         | _ \<Rightarrow> None)))"

fun parse_int64_digits :: "int \<Rightarrow> string \<Rightarrow> int option" where
  "parse_int64_digits n [] = Some n"
| "parse_int64_digits n (c # cs) =
     (case digit_val c of None \<Rightarrow> None | Some d \<Rightarrow> parse_int64_digits (int64 (n * 10 + int d)) cs)"

definition parseInt64 :: "string \<Rightarrow> int option" where
  "parseInt64 s = (if s = [] then None else parse_int64_digits 0 s)"

text \<open>\<^verbatim>\<open>Get().Int64()\<close> on a counter; an unreadable value is an error.\<close>

definition GetDailyVolume :: "'s valkey option \<Rightarrow> 's \<Rightarrow> int \<Rightarrow> string \<Rightarrow> time \<Rightarrow> deliv_error + int" where
  "GetDailyVolume vk s vt tenantID day =
     (case vk of
        None \<Rightarrow> Inr 0
      | Some v \<Rightarrow>
          if tenantID = [] then Inr 0
          else (case vk_get v s vt (dailyKey tenantID day) of
              None \<Rightarrow> Inr 0
            | Some x \<Rightarrow> (case atoi x of None \<Rightarrow> Inl DDatabase | Some n \<Rightarrow> Inr n)))"

fun parse_history :: "string option list \<Rightarrow> deliv_error + int list" where
  "parse_history [] = Inr []"
| "parse_history (None # xs) = map_sum id ((#) 0) (parse_history xs)"
| "parse_history (Some x # xs) = (case parseInt64 x of None \<Rightarrow> Inl DDatabase | Some n \<Rightarrow> map_sum id ((#) n) (parse_history xs))"

definition GetVolumeHistory :: "'s valkey option \<Rightarrow> 's \<Rightarrow> int \<Rightarrow> time \<Rightarrow> string \<Rightarrow> int \<Rightarrow> deliv_error + int list" where
  "GetVolumeHistory vk s vt now tenantID days =
     (if days \<le> 0 then Inr []
      else case vk of
          None \<Rightarrow> Inr (replicate (nat days) 0)
        | Some v \<Rightarrow>
            if tenantID = [] then Inr (replicate (nat days) 0)
            else parse_history (map (\<lambda>i. vk_get v s vt (dailyKey tenantID (now - int i * nanos_per_day))) [0..<nat days]))"

definition AverageDailyVolume :: "'s valkey option \<Rightarrow> 's \<Rightarrow> int \<Rightarrow> time \<Rightarrow> string \<Rightarrow> int \<Rightarrow> deliv_error + rat" where
  "AverageDailyVolume vk s vt now tenantID days =
     (case GetVolumeHistory vk s vt now tenantID (days + 1) of
        Inl e \<Rightarrow> Inl e
      | Inr hist \<Rightarrow> if length hist \<le> 1 then Inr 0 else Inr (of_int (sum_list (tl hist)) / of_nat (length hist - 1)))"

subsection \<open>Warm-up\<close>

definition warmupAnchors :: "(int \<times> int) list" where
  "warmupAnchors = [(1, 50), (2, 100), (5, 500), (10, 1000), (20, 2000)]"

fun walk_anchors :: "int \<Rightarrow> int \<Rightarrow> (int \<times> int) list \<Rightarrow> int" where
  "walk_anchors day prev [] = prev"
| "walk_anchors day prev ((d, n) # as) = (if d > day then prev else walk_anchors day n as)"

definition WarmupCapForDay :: "int \<Rightarrow> int \<Rightarrow> int \<Rightarrow> int" where
  "WarmupCapForDay day planCap warmupDays =
     (if day \<le> 0 \<or> planCap \<le> 0 then 0
      else let warmupDays1 = (if warmupDays \<le> 0 then 30 else warmupDays) in
        if day \<ge> warmupDays1 then planCap
        else let cap0 = walk_anchors day 0 warmupAnchors; cap1 = (if cap0 > planCap then planCap else cap0)
             in if cap1 = 0 then 50 else cap1)"

definition WarmupRamp :: "int \<Rightarrow> int \<Rightarrow> int \<rightharpoonup> int" where
  "WarmupRamp planCap warmupDays = (\<lambda>d. if 1 \<le> d \<and> d \<le> warmupDays then Some (WarmupCapForDay d planCap warmupDays) else None)"

definition GetCurrentLimit :: "deliv_config \<Rightarrow> deliv_db \<Rightarrow> time \<Rightarrow> string \<Rightarrow> deliv_error + int" where
  "GetCurrentLimit cfg db now tenantID =
     (if tenantID = [] then Inl (DInvalid ''tenantID required'')
      else case map_of (plans db) tenantID of
          None \<Rightarrow> Inl DNotFound
        | Some (plan, created) \<Rightarrow>
            (case PlanDailyLimit cfg plan of
               None \<Rightarrow> Inl (DInvalid (''unknown plan '' @ plan))
             | Some planCap \<Rightarrow> Inr (WarmupCapForDay (quot (now - created) nanos_per_day + 1) planCap (dc_WarmupDays cfg))))"

subsection \<open>IP pools\<close>

definition isValidPoolType :: "string \<Rightarrow> bool" where
  "isValidPoolType pt \<longleftrightarrow> pt \<in> {''system_transactional'', ''mature_trusted'', ''new_warming'', ''restricted'', ''dedicated_enterprise''}"

definition ListPools :: "deliv_db \<Rightarrow> IPPool list" where
  "ListPools db = sort_key (\<lambda>p. pool_Type p) (sort_key (\<lambda>p. pool_Name p) (ip_pools db))"

definition CreatePool :: "deliv_db \<Rightarrow> string \<Rightarrow> time \<Rightarrow> string \<Rightarrow> string \<Rightarrow> string \<Rightarrow> deliv_db \<times> (deliv_error + IPPool)" where
  "CreatePool db nid now name poolType description =
     (if name = [] \<or> poolType = [] then (db, Inl (DInvalid ''name and pool_type required''))
      else if \<not> isValidPoolType poolType then (db, Inl (DInvalid (''invalid pool_type '' @ poolType)))
      else if list_ex (\<lambda>p. pool_Name p = name) (ip_pools db) then (db, Inl DDatabase)
      else let p = \<lparr>pool_ID = nid, pool_Name = name, pool_Type = poolType, pool_Description = description, pool_CreatedAt = now\<rparr>
           in (db\<lparr>ip_pools := ip_pools db @ [p]\<rparr>, Inr p))"

text \<open>\<open>inet\<close> is the cast of the address, \<open>None\<close> when it is malformed.\<close>

definition AddIP :: "(string \<Rightarrow> string option) \<Rightarrow> deliv_db \<Rightarrow> string \<Rightarrow> string \<Rightarrow> string \<Rightarrow> string \<Rightarrow> deliv_db \<times> (deliv_error + IPAddress)" where
  "AddIP inet db nid poolID address reverseDNS =
     (if poolID = [] \<or> address = [] then (db, Inl (DInvalid ''poolID and address required''))
      else case inet address of
          None \<Rightarrow> (db, Inl DDatabase)
        | Some a \<Rightarrow>
            if \<not> list_ex (\<lambda>p. pool_ID p = poolID) (ip_pools db) \<or> list_ex (\<lambda>i. ip_Address i = a) (ip_addresses db) then (db, Inl DDatabase)
            else let i = \<lparr>ip_ID = nid, ip_PoolID = poolID, ip_Address = a, ip_ReverseDNS = reverseDNS, ip_ReputationScore = 0, ip_DailyVolume = 0,
                          ip_WarmupDay = 0, ip_Status = ''warming''\<rparr>
                 in (db\<lparr>ip_addresses := ip_addresses db @ [i]\<rparr>, Inr i))"

text \<open>Equal scores are ordered by address; \<open>addr_key\<close> stands for the order of the \<^verbatim>\<open>inet\<close> type.\<close>

definition ListIPs :: "(string \<Rightarrow> nat) \<Rightarrow> deliv_db \<Rightarrow> string \<Rightarrow> deliv_error + IPAddress list" where
  "ListIPs addr_key db poolID =
     (if poolID = [] then Inl (DInvalid ''poolID required'')
      else Inr (sort_key (\<lambda>i. - ip_ReputationScore i) (sort_key (\<lambda>i. addr_key (ip_Address i)) (filter (\<lambda>i. ip_PoolID i = poolID) (ip_addresses db)))))"

definition AssignTenantPool :: "deliv_db \<Rightarrow> time \<Rightarrow> string \<Rightarrow> string \<Rightarrow> int \<Rightarrow> deliv_db \<times> deliv_error option" where
  "AssignTenantPool db now tenantID poolType priority =
     (if tenantID = [] \<or> poolType = [] then (db, Some (DInvalid ''tenantID and poolType required''))
      else if \<not> isValidPoolType poolType then (db, Some (DInvalid (''invalid poolType '' @ poolType)))
      else let prio = (if priority \<le> 0 then 100 else priority) in
        (case sort_key (\<lambda>p. pool_CreatedAt p) (filter (\<lambda>p. pool_Type p = poolType) (ip_pools db)) of
           [] \<Rightarrow> (db, Some DNotFound)
         | p # _ \<Rightarrow>
             let here = (\<lambda>a. as_TenantID a = tenantID \<and> as_PoolID a = pool_ID p) in
             if \<not> tenant_known db tenantID then (db, Some DDatabase)
             else if list_ex here (pool_assignments db)
             then (db\<lparr>pool_assignments := map (\<lambda>a. if here a then a\<lparr>as_Priority := prio\<rparr> else a) (pool_assignments db)\<rparr>, None)
             else (db\<lparr>pool_assignments := pool_assignments db @
                      [\<lparr>as_TenantID = tenantID, as_PoolID = pool_ID p, as_Priority = prio, as_CreatedAt = now\<rparr>]\<rparr>, None)))"

definition GetTenantPool :: "deliv_db \<Rightarrow> string \<Rightarrow> deliv_error + TenantPoolAssignment" where
  "GetTenantPool db tenantID =
     (if tenantID = [] then Inl (DInvalid ''tenantID required'')
      else case sort_key as_Priority (filter (\<lambda>a. as_TenantID a = tenantID \<and> list_ex (\<lambda>p. pool_ID p = as_PoolID a) (ip_pools db)) (pool_assignments db)) of
          [] \<Rightarrow> Inl DNotFound
        | a # _ \<Rightarrow> Inr a)"

fun selectBestIP :: "IPAddress option \<Rightarrow> IPAddress list \<Rightarrow> IPAddress option" where
  "selectBestIP best [] = best"
| "selectBestIP best (i # is) =
     selectBestIP (if ip_Status i \<noteq> ''active'' then best
       else case best of
           None \<Rightarrow> Some i
         | Some b \<Rightarrow> if ip_ReputationScore i > ip_ReputationScore b then Some i
             else if ip_ReputationScore i = ip_ReputationScore b \<and> ip_DailyVolume i < ip_DailyVolume b then Some i else Some b) is"

definition SelectSendingIP :: "(string \<Rightarrow> nat) \<Rightarrow> deliv_db \<Rightarrow> string \<Rightarrow> deliv_error + IPAddress" where
  "SelectSendingIP addr_key db tenantID =
     (if tenantID = [] then Inl (DInvalid ''tenantID required'')
      else case GetTenantPool db tenantID of
          Inl e \<Rightarrow> Inl e
        | Inr a \<Rightarrow>
            (case ListIPs addr_key db (as_PoolID a) of
               Inl e \<Rightarrow> Inl e
             | Inr ips \<Rightarrow> (case selectBestIP None ips of None \<Rightarrow> Inl DNotFound | Some i \<Rightarrow> Inr i)))"

subsection \<open>Abuse scoring\<close>

record abuseSignals =
  sig_VolumeLast24h :: int
  sig_VolumeAverage7d :: rat
  sig_VolumeSpikeRatio :: rat
  sig_NewDomainsRatio :: rat
  sig_TotalDomainsLast24h :: int
  sig_AuthFailuresLast5m :: int
  sig_HardBouncesLast24h :: int
  sig_SendsLast24h :: int
  sig_BounceRate :: rat
  sig_ComplaintsLast24h :: int
  sig_ComplaintRate :: rat

definition compositeScore :: "abuseSignals \<Rightarrow> int" where
  "compositeScore s =
     (let score = (if sig_VolumeSpikeRatio s \<ge> 3 then 20 else 0) + (if sig_NewDomainsRatio s \<ge> 1 / 2 then 15 else 0)
        + (if sig_AuthFailuresLast5m s \<ge> 10 then 25 else 0) + (if sig_BounceRate s \<ge> 1 / 20 then 20 else 0)
        + (if sig_ComplaintRate s \<ge> 1 / 1000 then 20 else 0)
      in if score > 100 then 100 else score)"

definition severityForRatio :: "rat \<Rightarrow> rat \<Rightarrow> rat \<Rightarrow> string" where
  "severityForRatio x warn crit =
     (if x \<ge> crit * (3 / 2) then ''critical'' else if x \<ge> crit then ''high'' else if x \<ge> warn then ''medium'' else ''low'')"

text \<open>An alert to raise: type, severity and score; the JSON details repeat the signals. Conversion to \<^verbatim>\<open>int\<close> truncates.\<close>

definition trunc :: "rat \<Rightarrow> int" where
  "trunc x = (if x < 0 then - floor (- x) else floor x)"

definition toAlerts :: "abuseSignals \<Rightarrow> (string \<times> string \<times> int) list" where
  "toAlerts s =
     (if sig_VolumeSpikeRatio s \<ge> 3
        then [(''volume_spike'', severityForRatio (sig_VolumeSpikeRatio s) 3 10, trunc (sig_VolumeSpikeRatio s * 10))] else [])
     @ (if sig_NewDomainsRatio s \<ge> 1 / 2 \<and> sig_TotalDomainsLast24h s > 0
        then [(''recipient_anomaly'', severityForRatio (sig_NewDomainsRatio s) (1 / 2) (9 / 10), trunc (sig_NewDomainsRatio s * 100))] else [])
     @ (if sig_AuthFailuresLast5m s \<ge> 10
        then [(''auth_failure_storm'', severityForRatio (of_int (sig_AuthFailuresLast5m s)) 10 100, sig_AuthFailuresLast5m s)] else [])
     @ (if sig_BounceRate s \<ge> 1 / 20
        then [(''high_bounce_rate'', severityForRatio (sig_BounceRate s) (1 / 20) (3 / 20), trunc (sig_BounceRate s * 100))] else [])
     @ (if sig_ComplaintRate s \<ge> 1 / 1000
        then [(''high_complaint_rate'', severityForRatio (sig_ComplaintRate s) (1 / 1000) (1 / 200), trunc (sig_ComplaintRate s * 1000))] else [])"

definition bounce_count :: "deliv_db \<Rightarrow> time \<Rightarrow> string \<Rightarrow> string \<Rightarrow> int" where
  "bounce_count db dbnow tenantID kind =
     int (length (filter (\<lambda>b. be_TenantID b = tenantID \<and> be_BounceType b = kind \<and> dbnow - nanos_per_day \<le> be_CreatedAt b) (bounce_events db)))"

definition computeTenantSignals :: "deliv_db \<Rightarrow> 's valkey option \<Rightarrow> 's \<Rightarrow> int \<Rightarrow> time \<Rightarrow> time \<Rightarrow> string \<Rightarrow> deliv_error + abuseSignals \<times> int" where
  "computeTenantSignals db vk s vt now dbnow tenantID =
     (case GetDailyVolume vk s vt tenantID now of
        Inl e \<Rightarrow> Inl e
      | Inr sends \<Rightarrow>
          (case AverageDailyVolume vk s vt now tenantID 7 of
             Inl e \<Rightarrow> Inl e
           | Inr avg \<Rightarrow>
               let hard = bounce_count db dbnow tenantID ''hard''; complaints = bounce_count db dbnow tenantID ''complaint'';
                   sig = \<lparr>sig_VolumeLast24h = sends, sig_VolumeAverage7d = avg, sig_VolumeSpikeRatio = (if avg > 0 then of_int sends / avg else 0),
                          sig_NewDomainsRatio = 0, sig_TotalDomainsLast24h = 0, sig_AuthFailuresLast5m = 0, sig_HardBouncesLast24h = hard,
                          sig_SendsLast24h = sends, sig_BounceRate = (if sends > 0 then of_int hard / of_int sends else 0),
                          sig_ComplaintsLast24h = complaints, sig_ComplaintRate = (if sends > 0 then of_int complaints / of_int sends else 0)\<rparr>
               in Inr (sig, compositeScore sig)))"

text \<open>The two alert tables and the score table; a tenant's own score has no user.\<close>

record AbuseAlert =
  aa_ID :: string
  aa_TenantID :: string
  aa_AlertType :: string
  aa_Severity :: string
  aa_Score :: int
  aa_Acknowledged :: bool
  aa_CreatedAt :: time

record DeliverabilityAlert =
  da_ID :: string
  da_TenantID :: string
  da_AlertType :: string
  da_Severity :: string
  da_MetricValue :: rat
  da_ThresholdValue :: rat
  da_Acknowledged :: bool
  da_CreatedAt :: time

record alert_db =
  abuse_scores :: "((string \<times> string option) \<times> int) list"
  abuse_alerts :: "AbuseAlert list"
  alert_thresholds :: "((string \<times> string) \<times> rat \<times> rat) list"
  deliverability_alerts :: "DeliverabilityAlert list"

definition ScoreUser :: "deliv_db \<Rightarrow> 's valkey option \<Rightarrow> 's \<Rightarrow> int \<Rightarrow> time \<Rightarrow> time \<Rightarrow> alert_db \<Rightarrow> string \<Rightarrow> string \<Rightarrow> alert_db \<times> (deliv_error + int)" where
  "ScoreUser db vk s vt now dbnow adb tenantID userID =
     (if tenantID = [] then (adb, Inl (DInvalid ''tenantID required''))
      else case computeTenantSignals db vk s vt now dbnow tenantID of
          Inl e \<Rightarrow> (adb, Inl e)
        | Inr (sig, tot) \<Rightarrow>
            (adb\<lparr>abuse_scores := AList.update (tenantID, if userID = [] then None else Some userID) tot (abuse_scores adb)\<rparr>, Inr tot))"

definition new_alert :: "string \<Rightarrow> time \<Rightarrow> string \<Rightarrow> string \<times> string \<times> int \<Rightarrow> AbuseAlert" where
  "new_alert nid now tenantID a = (case a of (kind, severity, score) \<Rightarrow>
     \<lparr>aa_ID = nid, aa_TenantID = tenantID, aa_AlertType = kind, aa_Severity = severity, aa_Score = score, aa_Acknowledged = False, aa_CreatedAt = now\<rparr>)"

text \<open>\<open>ids\<close> are the ids of the inserted alerts, in order.\<close>

definition DetectAnomalies :: "deliv_db \<Rightarrow> 's valkey option \<Rightarrow> 's \<Rightarrow> int \<Rightarrow> time \<Rightarrow> time \<Rightarrow> (nat \<Rightarrow> string) \<Rightarrow> alert_db \<Rightarrow> string
    \<Rightarrow> alert_db \<times> (deliv_error + AbuseAlert list)" where
  "DetectAnomalies db vk s vt now dbnow ids adb tenantID =
     (if tenantID = [] then (adb, Inl (DInvalid ''tenantID required''))
      else case computeTenantSignals db vk s vt now dbnow tenantID of
          Inl e \<Rightarrow> (adb, Inl e)
        | Inr (sig, _) \<Rightarrow>
            let raised = map (\<lambda>(i, a). new_alert (ids i) dbnow tenantID a) (enumerate 0 (toAlerts sig))
            in (adb\<lparr>abuse_alerts := abuse_alerts adb @ raised\<rparr>, Inr raised))"

definition AcknowledgeAlert :: "AbuseAlert list \<Rightarrow> string \<Rightarrow> string \<Rightarrow> AbuseAlert list \<times> deliv_error option" where
  "AcknowledgeAlert rows tenantID alertID =
     (let this = (\<lambda>a. aa_TenantID a = tenantID \<and> aa_ID a = alertID) in
      if tenantID = [] \<or> alertID = [] then (rows, Some (DInvalid ''tenantID and alertID required''))
      else if \<not> list_ex this rows then (rows, Some DNotFound)
      else (map (\<lambda>a. if this a then a\<lparr>aa_Acknowledged := True\<rparr> else a) rows, None))"

subsection \<open>Deliverability alerts\<close>

text \<open>A threshold is the pair of its warning and its critical value.\<close>

definition metric_names :: "string list" where
  "metric_names = [''bounce_rate'', ''complaint_rate'', ''reputation_drop'', ''daily_volume_spike'']"

definition defaultThresholds :: "string \<rightharpoonup> rat \<times> rat" where
  "defaultThresholds = [''bounce_rate'' \<mapsto> (1 / 20, 1 / 10), ''complaint_rate'' \<mapsto> (1 / 1000, 3 / 1000), ''reputation_drop'' \<mapsto> (20, 40),
     ''daily_volume_spike'' \<mapsto> (5, 10)]"

definition ListThresholds :: "alert_db \<Rightarrow> string \<Rightarrow> deliv_error + (string \<times> rat \<times> rat) list" where
  "ListThresholds adb tenantID =
     (if tenantID = [] then Inl (DInvalid ''tenantID required'')
      else Inr (map (\<lambda>n. (n, case map_of (alert_thresholds adb) (tenantID, n) of Some th \<Rightarrow> th | None \<Rightarrow> the (defaultThresholds n))) metric_names))"

definition ConfigureThresholds :: "alert_db \<Rightarrow> string \<Rightarrow> (string \<times> rat \<times> rat) list \<Rightarrow> alert_db \<times> (deliv_error + (string \<times> rat \<times> rat) list)" where
  "ConfigureThresholds adb tenantID ths =
     (if tenantID = [] then (adb, Inl (DInvalid ''tenantID required''))
      else let adb1 = adb\<lparr>alert_thresholds := fold (\<lambda>(n, th). if n = [] then id else AList.update (tenantID, n) th) ths (alert_thresholds adb)\<rparr>
           in (adb1, ListThresholds adb1 tenantID))"

definition evaluateSeverity :: "rat \<Rightarrow> rat \<times> rat \<Rightarrow> string option" where
  "evaluateSeverity x th =
     (if snd th > 0 \<and> x \<ge> snd th then Some ''critical'' else if fst th > 0 \<and> x \<ge> fst th then Some ''warning'' else None)"

definition reputation_drop :: "deliv_db \<Rightarrow> string \<Rightarrow> int" where
  "reputation_drop db tenantID =
     foldr max (map (\<lambda>i. 100 - ip_ReputationScore i)
       (filter (\<lambda>i. list_ex (\<lambda>a. as_TenantID a = tenantID \<and> as_PoolID a = ip_PoolID i) (pool_assignments db)) (ip_addresses db))) 0"

definition sampleMetrics :: "deliv_db \<Rightarrow> 's valkey option \<Rightarrow> 's \<Rightarrow> int \<Rightarrow> time \<Rightarrow> time \<Rightarrow> string \<Rightarrow> deliv_error + (string \<times> rat) list" where
  "sampleMetrics db vk s vt now dbnow tenantID =
     (case GetDailyVolume vk s vt tenantID now of
        Inl e \<Rightarrow> Inl e
      | Inr sends \<Rightarrow>
          (case AverageDailyVolume vk s vt now tenantID 7 of
             Inl e \<Rightarrow> Inl e
           | Inr avg \<Rightarrow>
               Inr [(''bounce_rate'', if sends > 0 then of_int (bounce_count db dbnow tenantID ''hard'') / of_int sends else 0),
                    (''complaint_rate'', if sends > 0 then of_int (bounce_count db dbnow tenantID ''complaint'') / of_int sends else 0),
                    (''reputation_drop'', of_int (reputation_drop db tenantID)),
                    (''daily_volume_spike'', if avg > 0 then of_int sends / avg else 0)]))"

definition chooseThreshold :: "string \<Rightarrow> rat \<times> rat \<Rightarrow> rat" where
  "chooseThreshold severity th = (if severity = ''critical'' then snd th else fst th)"

definition deliv_AcknowledgeAlert :: "DeliverabilityAlert list \<Rightarrow> string \<Rightarrow> string \<Rightarrow> DeliverabilityAlert list \<times> deliv_error option" where
  "deliv_AcknowledgeAlert rows tenantID alertID =
     (let this = (\<lambda>a. da_TenantID a = tenantID \<and> da_ID a = alertID) in
      if tenantID = [] \<or> alertID = [] then (rows, Some (DInvalid ''tenantID and alertID required''))
      else if \<not> list_ex this rows then (rows, Some DNotFound)
      else (map (\<lambda>a. if this a then a\<lparr>da_Acknowledged := True\<rparr> else a) rows, None))"

text \<open>The metrics are visited in the order of a Go map, so \<open>ord\<close> rearranges them; the message text is left out.\<close>

definition EvaluateThresholds :: "deliv_db \<Rightarrow> 's valkey option \<Rightarrow> 's \<Rightarrow> int \<Rightarrow> time \<Rightarrow> time \<Rightarrow> (nat \<Rightarrow> string)
    \<Rightarrow> ((string \<times> rat) list \<Rightarrow> (string \<times> rat) list) \<Rightarrow> alert_db \<Rightarrow> string \<Rightarrow> alert_db \<times> (deliv_error + DeliverabilityAlert list)" where
  "EvaluateThresholds db vk s vt now dbnow ids ord adb tenantID =
     (case ListThresholds adb tenantID of
        Inl e \<Rightarrow> (adb, Inl e)
      | Inr ths \<Rightarrow>
          (case sampleMetrics db vk s vt now dbnow tenantID of
             Inl e \<Rightarrow> (adb, Inl e)
           | Inr metrics \<Rightarrow>
               let crossed = List.map_filter (\<lambda>(n, x). map_option (\<lambda>sev. (n, x, sev)) (evaluateSeverity x (the (map_of ths n)))) (ord metrics);
                   raised = map (\<lambda>(i, (n, x, sev)). \<lparr>da_ID = ids i, da_TenantID = tenantID, da_AlertType = n, da_Severity = sev, da_MetricValue = x,
                     da_ThresholdValue = chooseThreshold sev (the (map_of ths n)), da_Acknowledged = False, da_CreatedAt = dbnow\<rparr>) (enumerate 0 crossed)
               in (adb\<lparr>deliverability_alerts := deliverability_alerts adb @ raised\<rparr>, Inr raised)))"

end
