(* ===== verification/DeliverabilityProps.thy ===== *)
theory DeliverabilityProps
  imports Deliverability
begin

text \<open>
  Correctness of the deliverability control plane of theory \<open>Deliverability\<close>: which recipients bounces suppress, the
  send limits against a reference that counts attempts, the warm-up ramp, the choice of the sending IP and the
  alerts.
\<close>

subsection \<open>Suppression by bounces\<close>

lemma normalizeEmail_idem [simp]: "normalizeEmail (normalizeEmail e) = normalizeEmail e"
  by (simp add: normalizeEmail_def trim_space_lower comp_def)

text \<open>A bounce as it reaches the processor: row id, database and process clock, id for a suppression, tenant and event.\<close>

type_synonym bounce_input = "string \<times> time \<times> time \<times> string \<times> string \<times> BounceEvent"

fun bounce_step :: "deliv_config \<Rightarrow> bounce_input \<Rightarrow> deliv_db \<Rightarrow> deliv_db" where
  "bounce_step cfg (bid, dbnow, now, nid, tenantID, evt) db = fst (ProcessBounce cfg db bid dbnow now nid tenantID evt)"

text \<open>The events that are recorded, those of one address, and the rule that suppresses it.\<close>

fun recorded :: "string set \<Rightarrow> bounce_input \<Rightarrow> bool" where
  "recorded known (bid, dbnow, now, nid, tenantID, evt) \<longleftrightarrow>
     tenantID \<noteq> [] \<and> be_Email evt \<noteq> [] \<and> be_BounceType evt \<in> {''hard'', ''soft'', ''complaint''} \<and> tenantID \<in> known"

fun concerns :: "string \<Rightarrow> string \<Rightarrow> bounce_input \<Rightarrow> bool" where
  "concerns t email (bid, dbnow, now, nid, tenantID, evt) \<longleftrightarrow> tenantID = t \<and> normalizeEmail (be_Email evt) = email"

fun soft_since :: "time \<Rightarrow> bounce_input \<Rightarrow> bool" where
  "soft_since since (bid, dbnow, now, nid, tenantID, evt) \<longleftrightarrow> be_BounceType evt = ''soft'' \<and> since \<le> dbnow"

fun suppresses :: "deliv_config \<Rightarrow> bounce_input list \<Rightarrow> bounce_input \<Rightarrow> bool" where
  "suppresses cfg earlier (bid, dbnow, now, nid, tenantID, evt) \<longleftrightarrow>
     be_BounceType evt = ''hard'' \<or> be_BounceType evt = ''complaint''
     \<or> dc_BounceSoftEscalationCount cfg \<le> int (length (filter (\<lambda>x. concerns tenantID (normalizeEmail (be_Email evt)) x \<and> soft_since (now - dc_BounceSoftWindow cfg) x)
          (earlier @ [(bid, dbnow, now, nid, tenantID, evt)])))"

fun bounce_row :: "bounce_input \<Rightarrow> BounceEvent" where
  "bounce_row (bid, dbnow, now, nid, tenantID, evt) = evt\<lparr>be_ID := bid, be_TenantID := tenantID, be_Email := normalizeEmail (be_Email evt), be_CreatedAt := dbnow\<rparr>"

abbreviation known_tenants :: "deliv_db \<Rightarrow> string set" where
  "known_tenants db \<equiv> fst ` set (plans db)"

abbreviation suppressed :: "deliv_db \<Rightarrow> string \<Rightarrow> string \<Rightarrow> bool" where
  "suppressed db t email \<equiv> list_ex (suppression_at t email) (suppression_list db)"

lemma add_suppression_effect:
  assumes "t \<noteq> []" and "normalizeEmail e \<noteq> []" and "isValidReason reason" and "tenant_known db t" and "AddSuppression db nid now t e reason source = (db', r)"
  shows "bounce_events db' = bounce_events db \<and> plans db' = plans db
    \<and> (\<forall>t' e'. suppressed db' t' e' \<longleftrightarrow> suppressed db t' e' \<or> (t' = t \<and> e' = normalizeEmail e))"
proof -
  have ne: "e \<noteq> []" using assms(2) by (auto simp: normalizeEmail_def trim_space_def)
  show ?thesis
  proof (cases "find (suppression_at t (normalizeEmail e)) (suppression_list db)")
    case None
    with assms ne show ?thesis by (auto simp: AddSuppression_def Let_def suppression_at_def)
  next
    case (Some r0)
    then have old: "suppressed db t (normalizeEmail e)" by (auto simp: list_ex_iff dest: find_SomeD)
    let ?f = "\<lambda>x. if suppression_at t (normalizeEmail e) x then x\<lparr>su_Reason := reason, su_Source := source\<rparr> else x"
    have "list_ex (suppression_at t' e') (map ?f l) = list_ex (suppression_at t' e') l" for t' e' l
      by (induction l) (auto simp: suppression_at_def)
    moreover have "db' = db\<lparr>suppression_list := map ?f (suppression_list db)\<rparr>" using assms ne Some by (simp add: AddSuppression_def Let_def)
    ultimately show ?thesis using old by auto
  qed
qed

lemma reasons_valid [simp]: "isValidReason ''hard_bounce''" "isValidReason ''complaint''"
  by (simp_all add: isValidReason_def)

lemma add_suppression_blank:
  "fst (AddSuppression db nid now t [] reason source) = db"
  by (simp add: AddSuppression_def)

lemma bounce_effect:
  assumes "bounce_events db = map bounce_row (filter (recorded known) earlier)" and "known = known_tenants db" and "email \<noteq> []"
  shows "bounce_events (bounce_step cfg x db) = map bounce_row (filter (recorded known) (earlier @ [x]))
    \<and> plans (bounce_step cfg x db) = plans db
    \<and> (suppressed (bounce_step cfg x db) t email \<longleftrightarrow> suppressed db t email
        \<or> (recorded known x \<and> concerns t email x \<and> suppresses cfg (filter (recorded known) earlier) x))"
proof -
  obtain bid dbnow now nid tenantID evt where x: "x = (bid, dbnow, now, nid, tenantID, evt)" by (metis surj_pair)
  show ?thesis
  proof (cases "recorded known x")
    case False
    with assms show ?thesis by (auto simp: x ProcessBounce_def tenant_known_def)
  next
    case True
    let ?e = "normalizeEmail (be_Email evt)"
    define db1 where "db1 = db\<lparr>bounce_events := bounce_events db @ [bounce_row x]\<rparr>"
    have db1: "plans db1 = plans db" "suppression_list db1 = suppression_list db" "tenant_known db1 tenantID" "tenantID \<noteq> []"
      using True assms(2) by (auto simp: db1_def tenant_known_def x)
    have rows: "bounce_events db1 = map bounce_row (filter (recorded known) (earlier @ [x]))" using True assms(1) by (simp add: db1_def)
    have recent: "recent_soft db1 tenantID ?e since = int (length (filter (\<lambda>y. concerns tenantID ?e y \<and> soft_since since y) (filter (recorded known) earlier @ [x])))" for since
    proof -
      have "be_TenantID (bounce_row y) = tenantID \<and> be_Email (bounce_row y) = ?e \<and> be_BounceType (bounce_row y) = ''soft'' \<and> since \<le> be_CreatedAt (bounce_row y)
          \<longleftrightarrow> concerns tenantID ?e y \<and> soft_since since y" for y by (cases y) auto
      then show ?thesis using True by (simp add: recent_soft_def rows filter_map comp_def)
    qed
    define fires where "fires \<longleftrightarrow> suppresses cfg (filter (recorded known) earlier) x"
    have step: "\<exists>reason source. isValidReason reason \<and>
        bounce_step cfg x db = (if fires then fst (AddSuppression db1 nid dbnow tenantID ?e reason source) else db1)"
    proof -
      have hard: ?thesis if "be_BounceType evt = ''hard''"
        using that True assms(2) by (intro exI [of _ "''hard_bounce''"] exI [of _ "''bounce-processor''"])
          (auto simp: x fires_def ProcessBounce_def Let_def db1_def tenant_known_def)
      have complaint: ?thesis if "be_BounceType evt = ''complaint''"
        using that True assms(2) by (intro exI [of _ "''complaint''"] exI [of _ "''bounce-processor''"])
          (auto simp: x fires_def ProcessBounce_def Let_def db1_def tenant_known_def)
      have soft: ?thesis if "be_BounceType evt = ''soft''"
        using that True assms(2) recent [of "now - dc_BounceSoftWindow cfg"]
        by (intro exI [of _ "''hard_bounce''"] exI [of _ "''bounce-processor-soft-escalation''"])
          (auto simp: x fires_def ProcessBounce_def Let_def db1_def tenant_known_def ShouldEscalateSoft_def)
      from True have "be_BounceType evt = ''hard'' \<or> be_BounceType evt = ''complaint'' \<or> be_BounceType evt = ''soft''" by (auto simp: x)
      then show ?thesis using hard complaint soft by blast
    qed
    then obtain reason source where r: "isValidReason reason" and st: "bounce_step cfg x db = (if fires then fst (AddSuppression db1 nid dbnow tenantID ?e reason source) else db1)"
      by blast
    have con: "concerns t email x \<longleftrightarrow> tenantID = t \<and> ?e = email" by (simp add: x)
    show ?thesis
    proof (cases "?e = []")
      case True
      then have "bounce_step cfg x db = db1" by (simp add: st add_suppression_blank)
      with True db1 rows con assms(3) show ?thesis by auto
    next
      case False
      obtain db2 res where add: "AddSuppression db1 nid dbnow tenantID ?e reason source = (db2, res)" by (meson surj_pair)
      have "normalizeEmail ?e \<noteq> []" using False by simp
      note eff = add_suppression_effect [OF db1(4) this r db1(3) add]
      show ?thesis using eff st add db1 rows con True by (auto simp: fires_def)
    qed
  qed
qed

text \<open>
  Bounces suppress exactly the recipients the policy names: after any sequence of reported bounces, starting from empty tables,
  an address is on a tenant's suppression list if and only if some recorded bounce for it was a hard bounce or a
  complaint, or was the last of at least the configured number of soft bounces within the window; case and
  surrounding space of the address do not matter, and other tenants' bounces have no effect.\<close>

theorem suppression_follows_bounces:
  assumes "suppression_list db = []" and "bounce_events db = []" and "normalizeEmail e \<noteq> []" and "t \<noteq> []"
  shows "IsSuppressed (fold (bounce_step cfg) xs db) t e =
    Inr (\<exists>pre x post. xs = pre @ x # post \<and> recorded (known_tenants db) x \<and> concerns t (normalizeEmail e) x
      \<and> suppresses cfg (filter (recorded (known_tenants db)) pre) x)"
proof -
  let ?known = "known_tenants db" and ?e = "normalizeEmail e"
  let ?hit = "\<lambda>xs. \<exists>pre x post. xs = pre @ x # post \<and> recorded ?known x \<and> concerns t ?e x \<and> suppresses cfg (filter (recorded ?known) pre) x"
  have "bounce_events (fold (bounce_step cfg) xs db) = map bounce_row (filter (recorded ?known) xs) \<and> plans (fold (bounce_step cfg) xs db) = plans db
      \<and> (suppressed (fold (bounce_step cfg) xs db) t ?e \<longleftrightarrow> ?hit xs)"
  proof (induction xs rule: rev_induct)
    case Nil
    with assms(1,2) show ?case by simp
  next
    case (snoc x xs)
    let ?db = "fold (bounce_step cfg) xs db"
    have "?hit (xs @ [x]) \<longleftrightarrow> ?hit xs \<or> (recorded ?known x \<and> concerns t ?e x \<and> suppresses cfg (filter (recorded ?known) xs) x)" (is "_ \<longleftrightarrow> _ \<or> ?last")
    proof
      assume "?hit (xs @ [x])"
      then obtain pre y post where h: "xs @ [x] = pre @ y # post" "recorded ?known y" "concerns t ?e y" "suppresses cfg (filter (recorded ?known) pre) y" by blast
      then show "?hit xs \<or> ?last"
      proof (cases post rule: rev_cases)
        case (snoc post' z)
        with h(1) have "xs = pre @ y # post'" by simp
        with h show ?thesis by blast
      qed (use h in auto)
    next
      assume "?hit xs \<or> ?last"
      then show "?hit (xs @ [x])"
      proof
        assume "?hit xs"
        then obtain pre y post where h: "xs = pre @ y # post" "recorded ?known y \<and> concerns t ?e y \<and> suppresses cfg (filter (recorded ?known) pre) y" by blast
        then have "xs @ [x] = pre @ y # (post @ [x])" by simp
        with h(2) show ?thesis by blast
      qed blast
    qed
    moreover have "bounce_events ?db = map bounce_row (filter (recorded ?known) xs)" "?known = known_tenants ?db" using snoc by simp_all
    note eff = bounce_effect [OF this assms(3), of cfg x t]
    ultimately have "suppressed (bounce_step cfg x ?db) t ?e \<longleftrightarrow> ?hit (xs @ [x])" using snoc by blast
    with eff snoc show ?case by simp
  qed
  moreover have "e \<noteq> []" using assms(3) by (auto simp: normalizeEmail_def trim_space_def)
  ultimately show ?thesis using assms(4) by (simp add: IsSuppressed_def)
qed

subsection \<open>Send limits against a reference\<close>

text \<open>A counter key: absent at 0, otherwise the count with an expiry not before \<open>lo\<close>.\<close>

definition counted :: "keyspace \<Rightarrow> string \<Rightarrow> nat \<Rightarrow> int \<Rightarrow> bool" where
  "counted m k n lo \<longleftrightarrow> (if n = 0 then m k = None else \<exists>e \<ge> lo. m k = Some (VStr (itoa (int n)), Some e))"

definition bump :: "keyspace \<Rightarrow> int \<Rightarrow> string \<Rightarrow> int \<Rightarrow> keyspace" where
  "bump m t k ttl = ks_expirenx (fst (ks_incr m t k)) t k ttl"

lemma bump_other: "k' \<noteq> k \<Longrightarrow> bump m t k ttl k' = m k'"
  by (auto simp: bump_def ks_expirenx_def ks_incr_def split: option.splits prod.splits vval.splits)

lemma counted_bump:
  assumes "counted m k n lo" and "t \<le> lo" and "lo \<le> t + ttl" and "0 < ttl"
  shows "counted (bump m t k ttl) k (Suc n) lo \<and> snd (ks_incr m t k) = Some (int n + 1)"
proof (cases "n = 0")
  case True
  with assms show ?thesis by (simp add: counted_def bump_def ks_incr_def ks_expirenx_def ks_live_def)
next
  case False
  then obtain e where e: "m k = Some (VStr (itoa (int n)), Some e)" "lo \<le> e" using assms(1) by (auto simp: counted_def)
  with assms(2) have "ks_live m t k = Some (VStr (itoa (int n)), Some e)" by (simp add: ks_live_def)
  with e assms(2) show ?thesis by (auto simp: counted_def bump_def ks_incr_def ks_expirenx_def ks_live_def add.commute)
qed

text \<open>A call is the time and the tenant; the reference counts attempts of the tenant in the day and in the hour.\<close>

type_synonym send_call = "time \<times> string"

definition attempts :: "send_call list \<Rightarrow> string \<Rightarrow> (time \<Rightarrow> bool) \<Rightarrow> nat" where
  "attempts hist t P = length (filter (\<lambda>c. snd c = t \<and> P (fst c)) hist)"

definition reference_answer :: "deliv_config \<Rightarrow> deliv_db \<Rightarrow> send_call list \<Rightarrow> send_call \<Rightarrow> deliv_error option" where
  "reference_answer cfg db hist c = (case c of (now, t) \<Rightarrow>
     if t = [] then Some (DInvalid ''tenantID required'')
     else case GetLimit cfg db t of
         Inl e \<Rightarrow> Some e
       | Inr (daily, hourly) \<Rightarrow>
           if daily > 0 \<and> int (attempts (hist @ [c]) t (\<lambda>u. day_of u = day_of now)) > daily then Some DSendLimitExceeded
           else if hourly > 0 \<and> int (attempts (hist @ [c]) t (\<lambda>u. hour_of u = hour_of now)) > hourly then Some DSendLimitExceeded
           else None)"

text \<open>Calls that never reach the counters do not count as attempts.\<close>

definition limited :: "deliv_config \<Rightarrow> deliv_db \<Rightarrow> send_call \<Rightarrow> bool" where
  "limited cfg db c \<longleftrightarrow> snd c \<noteq> [] \<and> (\<exists>l. GetLimit cfg db (snd c) = Inr l)"

fun reference_answers :: "deliv_config \<Rightarrow> deliv_db \<Rightarrow> send_call list \<Rightarrow> send_call list \<Rightarrow> deliv_error option list" where
  "reference_answers cfg db hist [] = []"
| "reference_answers cfg db hist (c # cs) = reference_answer cfg db hist c # reference_answers cfg db (if limited cfg db c then hist @ [c] else hist) cs"

fun send_answers :: "deliv_config \<Rightarrow> deliv_db \<Rightarrow> 's valkey \<Rightarrow> 's \<Rightarrow> send_call list \<Rightarrow> deliv_error option list" where
  "send_answers cfg db v s [] = []"
| "send_answers cfg db v s ((now, t) # cs) =
     (case CheckSendLimit cfg db (Some v) True s (unix_milli now) now t of (s', r) \<Rightarrow> r # send_answers cfg db v s' cs)"

lemma clock_bounds:
  "day_of now * 86400000 \<le> unix_milli now" "unix_milli now < (day_of now + 1) * 86400000"
  "hour_of now * 3600000 \<le> unix_milli now" "unix_milli now < (hour_of now + 1) * 3600000" "hour_of now div 24 = day_of now"
proof -
  have d: "day_of now = unix_milli now div 86400000" "hour_of now = unix_milli now div 3600000"
    by (simp_all add: day_of_def hour_of_def unix_milli_def flip: zdiv_zmult2_eq)
  show "day_of now * 86400000 \<le> unix_milli now" "unix_milli now < (day_of now + 1) * 86400000"
    "hour_of now * 3600000 \<le> unix_milli now" "unix_milli now < (hour_of now + 1) * 3600000" unfolding d by presburger+
  show "hour_of now div 24 = day_of now" unfolding d by (simp flip: zdiv_zmult2_eq)
qed

lemma pad_two_inj:
  assumes "0 \<le> a" "a < 100" "0 \<le> b" "b < 100" "pad 2 a = pad 2 b"
  shows "a = b"
proof -
  have "digit_char (nat a div 10) = digit_char (nat b div 10)" "digit_char (nat a mod 10) = digit_char (nat b mod 10)"
    using assms by (simp_all add: pad_two)
  moreover have inj: "x = y" if "digit_char x = digit_char y" "x < 10" "y < 10" for x y
    using that by (metis digit_val_char option.inject)
  ultimately have "nat a div 10 = nat b div 10" "nat a mod 10 = nat b mod 10"
    using assms by (simp_all add: inj)
  then have "nat a = nat b" by (metis mult_div_mod_eq)
  with assms show ?thesis by simp
qed

lemma hour_keys:
  assumes "hourlyKey t now = hourlyKey t' now'" and "day_of now = day_of now'"
  shows "t = t' \<and> hour_of now = hour_of now'"
proof -
  let ?p = "\<lambda>u. pad 2 (hour_of u mod 24)"
  have range: "0 \<le> hour_of u mod 24" "hour_of u mod 24 < 100" for u by (simp_all add: order.strict_trans2 [OF pos_mod_bound])
  then have len: "length (?p u) = 2" for u by (simp add: pad_two)
  from assms have e: "t @ '':'' @ format_day (day_of now') @ ?p now = t' @ '':'' @ format_day (day_of now') @ ?p now'"
    by (simp add: hourlyKey_def clock_bounds)
  then have "(t @ '':'' @ format_day (day_of now')) @ ?p now = (t' @ '':'' @ format_day (day_of now')) @ ?p now'" by simp
  then have p: "?p now = ?p now'" by (rule append_eq_append_conv [THEN iffD1, THEN conjunct2, rotated]) (simp add: len)
  with e have "t = t'" by simp
  moreover have "hour_of now mod 24 = hour_of now' mod 24" using pad_two_inj [OF range range p] .
  then have "hour_of now = hour_of now'" using assms(2) clock_bounds(5) by (metis mult_div_mod_eq)
  ultimately show ?thesis by simp
qed

lemma key_facts [simp]: "dailyKey t now \<noteq> hourlyKey t' now'" "hourlyKey t' now' \<noteq> dailyKey t now"
  by (simp_all add: dailyKey_def hourlyKey_def)

lemma day_keys: "dailyKey t now = dailyKey t' now' \<Longrightarrow> day_of now = day_of now' \<Longrightarrow> t = t'"
  by (simp add: dailyKey_def)

text \<open>The counters agree with the attempts so far, all on day \<open>D\<close>.\<close>

definition counters_ok :: "int \<Rightarrow> keyspace \<Rightarrow> send_call list \<Rightarrow> bool" where
  "counters_ok D m hist \<longleftrightarrow>
     (\<forall>now t. day_of now = D \<longrightarrow> counted m (dailyKey t now) (attempts hist t (\<lambda>u. day_of u = D)) ((D + 9) * 86400000)
        \<and> counted m (hourlyKey t now) (attempts hist t (\<lambda>u. hour_of u = hour_of now)) ((hour_of now + 2) * 3600000))"

lemma attempts_snoc: "attempts (hist @ [(now, t)]) t' P = attempts hist t' P + (if t' = t \<and> P now then 1 else 0)"
  by (simp add: attempts_def)

context valkey_server
begin

lemma check_step:
  assumes "counters_ok D (ks s) hist" and "day_of now = D" and "t \<noteq> []" and "GetLimit cfg db t = Inr (daily, hourly)"
  shows "\<exists>s'. CheckSendLimit cfg db (Some v) True s (unix_milli now) now t = (s', reference_answer cfg db hist (now, t)) \<and> counters_ok D (ks s') (hist @ [(now, t)])"
proof -
  let ?vt = "unix_milli now" and ?dk = "dailyKey t now" and ?hk = "hourlyKey t now"
  let ?d = "attempts hist t (\<lambda>u. day_of u = D)" and ?h = "attempts hist t (\<lambda>u. hour_of u = hour_of now)"
  obtain s1 d where i1: "vk_incr v s ?vt ?dk = (s1, d)" by (meson surj_pair)
  define s2 where "s2 = vk_expirenx v s1 ?vt ?dk (9 * 24 * 3600 * 1000)"
  obtain s3 h where i3: "vk_incr v s2 ?vt ?hk = (s3, h)" by (meson surj_pair)
  define s4 where "s4 = vk_expirenx v s3 ?vt ?hk (2 * 3600 * 1000)"
  have m2: "ks s2 = bump (ks s) ?vt ?dk (9 * 24 * 3600 * 1000)" using incr(1) [of s ?vt ?dk] i1 by (simp add: s2_def expirenx bump_def)
  have m4: "ks s4 = bump (ks s2) ?vt ?hk (2 * 3600 * 1000)" using incr(1) [of s2 ?vt ?hk] i3 by (simp add: s4_def expirenx bump_def)
  note cb = clock_bounds [of now]
  have c1: "counted (ks s) ?dk ?d ((D + 9) * 86400000)" and c2: "counted (ks s) ?hk ?h ((hour_of now + 2) * 3600000)"
    using assms(1,2) by (auto simp: counters_ok_def)
  have b1: "counted (ks s2) ?dk (Suc ?d) ((D + 9) * 86400000) \<and> d = Some (int ?d + 1)"
    using counted_bump [OF c1, of ?vt "9 * 24 * 3600 * 1000"] cb assms(2) incr(2) [of s ?vt ?dk] i1 unfolding m2 by simp
  have c2': "counted (ks s2) ?hk ?h ((hour_of now + 2) * 3600000)" using c2 by (simp add: m2 counted_def bump_other)
  have b2: "counted (ks s4) ?hk (Suc ?h) ((hour_of now + 2) * 3600000) \<and> h = Some (int ?h + 1)"
    using counted_bump [OF c2', of ?vt "2 * 3600 * 1000"] cb incr(2) [of s2 ?vt ?hk] i3 unfolding m4 by simp
  have other: "ks s4 k = ks s k" if "k \<noteq> ?dk" "k \<noteq> ?hk" for k using that by (simp add: m4 m2 bump_other)
  have b1': "counted (ks s4) ?dk (Suc ?d) ((D + 9) * 86400000)" using b1 by (simp add: m4 counted_def bump_other)
  have "counters_ok D (ks s4) (hist @ [(now, t)])"
    unfolding counters_ok_def
  proof (intro allI impI)
    fix now' t'
    assume D': "day_of now' = D"
    have day: "counted (ks s4) (dailyKey t' now') (attempts (hist @ [(now, t)]) t' (\<lambda>u. day_of u = D)) ((D + 9) * 86400000)"
    proof (cases "t' = t")
      case True
      then have "dailyKey t' now' = ?dk" using assms(2) D' by (simp add: dailyKey_def)
      with b1' True assms(2) show ?thesis by (simp add: attempts_snoc)
    next
      case False
      then have "dailyKey t' now' \<noteq> ?dk" using day_keys assms(2) D' by metis
      with False assms(1) D' show ?thesis by (simp add: attempts_snoc counted_def other counters_ok_def)
    qed
    have hour: "counted (ks s4) (hourlyKey t' now') (attempts (hist @ [(now, t)]) t' (\<lambda>u. hour_of u = hour_of now')) ((hour_of now' + 2) * 3600000)"
    proof (cases "t' = t \<and> hour_of now' = hour_of now")
      case True
      then have "hourlyKey t' now' = ?hk" by (simp add: hourlyKey_def)
      with b2 True show ?thesis by (simp add: attempts_snoc)
    next
      case False
      then have "hourlyKey t' now' \<noteq> ?hk" using hour_keys assms(2) D' by metis
      with False assms(1) D' show ?thesis by (auto simp: attempts_snoc counted_def other counters_ok_def)
    qed
    from day hour show "counted (ks s4) (dailyKey t' now') (attempts (hist @ [(now, t)]) t' (\<lambda>u. day_of u = D)) ((D + 9) * 86400000)
      \<and> counted (ks s4) (hourlyKey t' now') (attempts (hist @ [(now, t)]) t' (\<lambda>u. hour_of u = hour_of now')) ((hour_of now' + 2) * 3600000)" ..
  qed
  moreover have "CheckSendLimit cfg db (Some v) True s ?vt now t = (s4, reference_answer cfg db hist (now, t))"
  proof -
    have "CheckSendLimit cfg db (Some v) True s ?vt now t = (s4, if daily > 0 \<and> int ?d + 1 > daily then Some DSendLimitExceeded
        else if hourly > 0 \<and> int ?h + 1 > hourly then Some DSendLimitExceeded else None)"
      unfolding CheckSendLimit_def using assms(3,4) b1 b2 by (simp add: i1 i3 [unfolded s2_def, simplified] s4_def)
    then show ?thesis using assms(2-4) by (simp add: reference_answer_def attempts_snoc add.commute)
  qed
  ultimately show ?thesis by blast
qed

lemma answers_reference:
  assumes "\<forall>c \<in> set cs. day_of (fst c) = D" and "counters_ok D (ks s) hist"
  shows "send_answers cfg db v s cs = reference_answers cfg db hist cs"
  using assms
proof (induction cs arbitrary: s hist)
  case (Cons c cs)
  obtain now t where c: "c = (now, t)" by (cases c)
  show ?case
  proof (cases "limited cfg db c")
    case True
    then obtain daily hourly where "t \<noteq> []" "GetLimit cfg db t = Inr (daily, hourly)" by (auto simp: limited_def c)
    with check_step [OF Cons.prems(2)] Cons.prems(1) obtain s' where
      "CheckSendLimit cfg db (Some v) True s (unix_milli now) now t = (s', reference_answer cfg db hist (now, t))" "counters_ok D (ks s') (hist @ [(now, t)])"
      by (metis c fst_conv list.set_intros(1))
    with Cons True show ?thesis by (simp add: c)
  next
    case False
    then have "CheckSendLimit cfg db (Some v) True s (unix_milli now) now t = (s, reference_answer cfg db hist (now, t))"
      by (auto simp: limited_def c CheckSendLimit_def reference_answer_def split: sum.splits)
    with Cons False show ?thesis by (simp add: c)
  qed
qed simp

end

text \<open>
  C19: The send limiter answers every sequence of sends of a day, of any tenants, exactly like a reference that counts the tenant's
  attempts of the day and of the hour and refuses once the day's count exceeds the daily or the hour's count the hourly
  cap; attempts that were refused count as well.\<close>

theorem send_limit_matches_reference:
  assumes "valkey_server v ks" and "\<forall>c \<in> set cs. day_of (fst c) = D"
    and "\<forall>now t. day_of now = D \<longrightarrow> ks s (dailyKey t now) = None \<and> ks s (hourlyKey t now) = None"
  shows "send_answers cfg db v s cs = reference_answers cfg db [] cs"
proof -
  have "counters_ok D (ks s) []" using assms(3) by (simp add: counters_ok_def counted_def attempts_def)
  with valkey_server.answers_reference [OF assms(1,2)] show ?thesis by blast
qed

subsection \<open>Warm-up and sending IPs\<close>

lemma walk_mono: "day \<le> day' \<Longrightarrow> walk_anchors day 0 warmupAnchors \<le> walk_anchors day' 0 warmupAnchors"
  by (simp add: warmupAnchors_def)

lemma walk_positive: "1 \<le> day \<Longrightarrow> 50 \<le> walk_anchors day 0 warmupAnchors"
  by (simp add: warmupAnchors_def)

text \<open>
  The warm-up ramp never falls and never exceeds the plan: on a later day the cap is at least that of an earlier one, it is
  positive from the first day, at most 50 on the first day of a ramp, and exactly the plan cap from the last
  warm-up day on.\<close>

theorem warmup_ramp_monotone:
  assumes "0 < planCap" and "1 \<le> day" and "day \<le> day'"
  shows "0 < WarmupCapForDay day planCap warmupDays \<and> WarmupCapForDay day planCap warmupDays \<le> WarmupCapForDay day' planCap warmupDays
    \<and> WarmupCapForDay day' planCap warmupDays \<le> planCap
    \<and> ((if warmupDays \<le> 0 then 30 else warmupDays) \<le> day' \<longrightarrow> WarmupCapForDay day' planCap warmupDays = planCap)
    \<and> (1 < (if warmupDays \<le> 0 then 30 else warmupDays) \<longrightarrow> WarmupCapForDay 1 planCap warmupDays \<le> 50)"
proof -
  define n where "n = (if warmupDays \<le> 0 then 30 else warmupDays)"
  have cap: "WarmupCapForDay d planCap warmupDays = (if n \<le> d then planCap else min planCap (walk_anchors d 0 warmupAnchors))" if "1 \<le> d" for d
    using that assms(1) walk_positive [OF that] by (auto simp: WarmupCapForDay_def n_def Let_def min_def)
  have d': "1 \<le> day'" using assms by simp
  have "1 < n \<Longrightarrow> WarmupCapForDay 1 planCap warmupDays \<le> 50" using cap [of 1] by (simp add: warmupAnchors_def)
  moreover have "0 < WarmupCapForDay day planCap warmupDays" using cap [OF assms(2)] walk_positive [OF assms(2)] assms(1) by auto
  moreover have "WarmupCapForDay day planCap warmupDays \<le> WarmupCapForDay day' planCap warmupDays"
    unfolding cap [OF assms(2)] cap [OF d'] using assms(3) walk_mono [OF assms(3)] by auto
  ultimately show ?thesis using cap [OF d'] unfolding n_def [symmetric] by auto
qed

theorem warmup_ramp_monotone_witness:
  "0 < WarmupCapForDay 3 5000 30 \<and> WarmupCapForDay 3 5000 30 \<le> WarmupCapForDay 30 5000 30 \<and> WarmupCapForDay 30 5000 30 = 5000"
  using warmup_ramp_monotone [of 5000 3 30 30] by simp

text \<open>Between two anchors the cap stays at the lower one.\<close>

lemma warmup_steps: "WarmupCapForDay 3 5000 30 = 100 \<and> WarmupCapForDay 4 5000 30 = 100 \<and> WarmupCapForDay 29 5000 30 = 2000"
  by code_simp

definition better_ip :: "IPAddress \<Rightarrow> IPAddress \<Rightarrow> bool" where
  "better_ip i j \<longleftrightarrow> ip_ReputationScore j < ip_ReputationScore i \<or> (ip_ReputationScore j = ip_ReputationScore i \<and> ip_DailyVolume i \<le> ip_DailyVolume j)"

lemma selectBest:
  "case selectBestIP best ips of
     None \<Rightarrow> best = None \<and> (\<forall>i \<in> set ips. ip_Status i \<noteq> ''active'')
   | Some b \<Rightarrow> (Some b = best \<or> b \<in> set ips \<and> ip_Status b = ''active'') \<and> (\<forall>i \<in> set ips. ip_Status i = ''active'' \<longrightarrow> better_ip b i)
       \<and> (\<forall>b0. best = Some b0 \<longrightarrow> better_ip b b0)"
proof (induction best ips rule: selectBestIP.induct)
  case (1 best)
  then show ?case by (auto simp: better_ip_def split: option.splits)
next
  case (2 best i rest)
  let ?next = "if ip_Status i \<noteq> ''active'' then best
       else case best of
           None \<Rightarrow> Some i
         | Some b \<Rightarrow> if ip_ReputationScore i > ip_ReputationScore b then Some i
             else if ip_ReputationScore i = ip_ReputationScore b \<and> ip_DailyVolume i < ip_DailyVolume b then Some i else Some b"
  have trans: "better_ip a b \<Longrightarrow> better_ip b c \<Longrightarrow> better_ip a c" for a b c by (auto simp: better_ip_def)
  have beats: "\<forall>c. ?next = Some c \<longrightarrow> (ip_Status i = ''active'' \<longrightarrow> better_ip c i) \<and> (\<forall>b0. best = Some b0 \<longrightarrow> better_ip c b0)
      \<and> (Some c = best \<or> c = i \<and> ip_Status i = ''active'')"
    by (auto simp: better_ip_def split: option.splits if_splits)
  have none: "?next = None \<Longrightarrow> best = None \<and> ip_Status i \<noteq> ''active''" by (auto split: option.splits if_splits)
  show ?case
  proof (cases "selectBestIP ?next rest")
    case None
    with 2 none show ?thesis by simp
  next
    case (Some b)
    from 2 [unfolded Some] have b: "Some b = ?next \<or> b \<in> set rest \<and> ip_Status b = ''active''" "\<forall>i \<in> set rest. ip_Status i = ''active'' \<longrightarrow> better_ip b i"
      "\<forall>b0. ?next = Some b0 \<longrightarrow> better_ip b b0" by simp_all
    have next_beats: "(ip_Status i = ''active'' \<longrightarrow> better_ip b i) \<and> (\<forall>b0. best = Some b0 \<longrightarrow> better_ip b b0)"
    proof (cases ?next)
      case None
      with none show ?thesis by simp
    next
      case (Some c)
      have bc: "better_ip b c" by (rule b(3) [rule_format, OF Some])
      note c = beats [rule_format, OF Some]
      show ?thesis
      proof (intro conjI impI allI)
        assume "ip_Status i = ''active''"
        with c have "better_ip c i" by (simp only: simp_thms)
        with bc show "better_ip b i" by (rule trans)
      next
        fix b0 assume "best = Some b0"
        with c have "better_ip c b0" by (simp only: simp_thms)
        with bc show "better_ip b b0" by (rule trans)
      qed
    qed
    moreover have "Some b = best \<or> b \<in> set (i # rest) \<and> ip_Status b = ''active''"
    proof (cases "Some b = ?next")
      case True
      with beats [rule_format, of b] have "Some b = best \<or> b = i \<and> ip_Status i = ''active''" by (simp only: True)
      then show ?thesis by auto
    next
      case False
      with b(1) show ?thesis by simp
    qed
    ultimately show ?thesis using b(2) Some by simp
  qed
qed

text \<open>
  The sending IP of a tenant is an active address of its pool of highest priority, and no active address of that pool has a
  better reputation, or the same reputation and less volume; an error means that the pool has none.\<close>

theorem sending_ip_is_best:
  assumes "t \<noteq> []" and "GetTenantPool db t = Inr a" and "as_PoolID a \<noteq> []"
  shows "(\<forall>a' \<in> set (pool_assignments db). as_TenantID a' = t \<and> list_ex (\<lambda>p. pool_ID p = as_PoolID a') (ip_pools db) \<longrightarrow> as_Priority a \<le> as_Priority a')
    \<and> (case SelectSendingIP addr_key db t of
         Inr i \<Rightarrow> i \<in> set (ip_addresses db) \<and> ip_PoolID i = as_PoolID a \<and> ip_Status i = ''active''
           \<and> (\<forall>j \<in> set (ip_addresses db). ip_PoolID j = as_PoolID a \<and> ip_Status j = ''active'' \<longrightarrow> better_ip i j)
       | Inl e \<Rightarrow> e = DNotFound \<and> (\<forall>j \<in> set (ip_addresses db). ip_PoolID j = as_PoolID a \<longrightarrow> ip_Status j \<noteq> ''active''))"
proof -
  let ?mine = "filter (\<lambda>a. as_TenantID a = t \<and> list_ex (\<lambda>p. pool_ID p = as_PoolID a) (ip_pools db)) (pool_assignments db)"
  obtain rest where srt: "sort_key as_Priority ?mine = a # rest" using assms(1,2) by (auto simp: GetTenantPool_def split: list.splits)
  have "sorted (map as_Priority (a # rest))" using sorted_sort_key [of as_Priority ?mine] unfolding srt .
  moreover have "set ?mine = insert a (set rest)" using arg_cong [OF srt, of set] unfolding set_sort by simp
  ultimately have prio: "\<forall>a' \<in> set ?mine. as_Priority a \<le> as_Priority a'" by auto
  obtain ips where ips: "ListIPs addr_key db (as_PoolID a) = Inr ips" "set ips = {i \<in> set (ip_addresses db). ip_PoolID i = as_PoolID a}"
    using assms(3) by (auto simp: ListIPs_def)
  have sel: "SelectSendingIP addr_key db t = (case selectBestIP None ips of None \<Rightarrow> Inl DNotFound | Some i \<Rightarrow> Inr i)"
    using assms(1,2) ips(1) by (simp add: SelectSendingIP_def)
  show ?thesis using prio selectBest [of None ips] unfolding sel by (auto simp: ips(2) split: option.splits)
qed

subsection \<open>Examples\<close>

definition ex_deliv_db :: deliv_db where
  "ex_deliv_db = \<lparr>plans = [(''t'', ''pro'', 0)], suppression_list = [], bounce_events = [], send_limits = [(''t'', 2, 5)],
     ip_pools = [\<lparr>pool_ID = ''p'', pool_Name = ''main'', pool_Type = ''mature_trusted'', pool_Description = [], pool_CreatedAt = 0\<rparr>],
     ip_addresses = [\<lparr>ip_ID = ''i1'', ip_PoolID = ''p'', ip_Address = ''192.0.2.1'', ip_ReverseDNS = [], ip_ReputationScore = 90, ip_DailyVolume = 5, ip_WarmupDay = 9, ip_Status = ''active''\<rparr>,
       \<lparr>ip_ID = ''i2'', ip_PoolID = ''p'', ip_Address = ''192.0.2.2'', ip_ReverseDNS = [], ip_ReputationScore = 90, ip_DailyVolume = 4, ip_WarmupDay = 9, ip_Status = ''active''\<rparr>],
     pool_assignments = [\<lparr>as_TenantID = ''t'', as_PoolID = ''p'', as_Priority = 100, as_CreatedAt = 0\<rparr>]\<rparr>"

definition ex_deliv_cfg :: deliv_config where
  "ex_deliv_cfg = deliv_NewService \<lparr>dc_CoreDailyLimit = 0, dc_ProDailyLimit = 0, dc_PrivacyDailyLimit = 0, dc_WarmupDays = 0, dc_BounceSoftEscalationCount = 0, dc_BounceSoftWindow = 0\<rparr>"

definition ex_bounce :: "string \<Rightarrow> BounceEvent" where
  "ex_bounce kind = \<lparr>be_ID = [], be_TenantID = [], be_Email = '' Bob@X.org'', be_BounceType = kind, be_DSNCode = [], be_Diagnostic = [], be_MessageID = [], be_CreatedAt = 0\<rparr>"

theorem suppression_follows_bounces_witness:
  "IsSuppressed (fold (bounce_step ex_deliv_cfg) [(''b1'', 1, 1, ''s1'', ''t'', ex_bounce ''hard'')] ex_deliv_db) ''t'' ''BOB@x.ORG'' = Inr True"
proof -
  let ?x = "(''b1'', 1, 1, ''s1'', ''t'', ex_bounce ''hard'')"
  have h: "suppression_list ex_deliv_db = []" "bounce_events ex_deliv_db = []" "normalizeEmail ''BOB@x.ORG'' \<noteq> []" "''t'' \<noteq> ([] :: string)" by code_simp+
  have "recorded (known_tenants ex_deliv_db) ?x" "concerns ''t'' (normalizeEmail ''BOB@x.ORG'') ?x" by code_simp+
  moreover have "suppresses ex_deliv_cfg [] ?x" by (simp add: ex_bounce_def)
  ultimately have "\<exists>pre x post. [?x] = pre @ x # post \<and> recorded (known_tenants ex_deliv_db) x \<and> concerns ''t'' (normalizeEmail ''BOB@x.ORG'') x
      \<and> suppresses ex_deliv_cfg (filter (recorded (known_tenants ex_deliv_db)) pre) x"
    by (intro exI [of _ "[]"] exI [of _ ?x]) auto
  with suppression_follows_bounces [OF h, of ex_deliv_cfg "[?x]"] show ?thesis by simp
qed

theorem send_limit_matches_reference_witness:
  "send_answers ex_deliv_cfg ex_deliv_db ks_valkey Map.empty [(0, ''t''), (1, ''t''), (2, ''t'')] = [None, None, Some DSendLimitExceeded]"
proof -
  have "\<forall>c \<in> set [(0, ''t''), (1, ''t''), (2 :: int, ''t'')]. day_of (fst c) = 0" by code_simp
  from send_limit_matches_reference [OF ks_valkey_server this, of Map.empty ex_deliv_cfg ex_deliv_db]
  have "send_answers ex_deliv_cfg ex_deliv_db ks_valkey Map.empty [(0, ''t''), (1, ''t''), (2, ''t'')] = reference_answers ex_deliv_cfg ex_deliv_db [] [(0, ''t''), (1, ''t''), (2, ''t'')]"
    by simp
  also have "\<dots> = [None, None, Some DSendLimitExceeded]"
    by (simp add: reference_answer_def limited_def GetLimit_def ex_deliv_db_def attempts_def day_of_def hour_of_def)
  finally show ?thesis .
qed

theorem sending_ip_is_best_witness:
  "\<exists>i. SelectSendingIP length ex_deliv_db ''t'' = Inr i \<and> ip_ID i = ''i2'' \<and> list_all (better_ip i) (ip_addresses ex_deliv_db)"
proof -
  obtain a where a: "GetTenantPool ex_deliv_db ''t'' = Inr a" "as_PoolID a = ''p''" by (simp add: GetTenantPool_def ex_deliv_db_def)
  have "SelectSendingIP length ex_deliv_db ''t'' = Inr (ip_addresses ex_deliv_db ! 1)" "ip_ID (ip_addresses ex_deliv_db ! 1) = ''i2''"
    "list_all (\<lambda>j. ip_PoolID j = ''p'' \<and> ip_Status j = ''active'') (ip_addresses ex_deliv_db)"
    by (simp_all add: SelectSendingIP_def GetTenantPool_def ListIPs_def ex_deliv_db_def)
  with sending_ip_is_best [OF _ a(1), of length] a(2) show ?thesis by (auto simp: list_all_iff)
qed

end
