(* ===== verification/FeatureFlags.thy ===== *)
theory FeatureFlags
  imports Prelude "HOL-Library.Product_Lexorder"
begin

text \<open>
  The feature flags of \<^verbatim>\<open>internal/featureflags\<close>: the resolver with its cached snapshot (\<^verbatim>\<open>featureflags.go\<close>), the store over
  two tables (\<^verbatim>\<open>store.go\<close>), the admin handlers with their last-known-good cache (\<^verbatim>\<open>handlers.go\<close>) and the process-wide
  entry point (\<^verbatim>\<open>default.go\<close>).

  A store without a pool is \<open>None\<close>. A store call takes what goes wrong outside the program as an argument \<open>fault\<close>; a
  call that fails changes nothing. An error is the list of the causes it wraps, which is what \<^verbatim>\<open>errors.Is\<close> and \<^verbatim>\<open>errors.As\<close>
  look at. Reading all flags takes two statements without a transaction, so it takes two states of the tables. Rows come
  in byte order. \<open>uuid\<close> is the cast of a text to \<^verbatim>\<open>uuid\<close>.
\<close>

subsection \<open>Data\<close>

record Flag =
  fl_Key :: string
  fl_Description :: string
  fl_DefaultEnabled :: bool
  fl_CreatedAt :: time
  fl_UpdatedAt :: time

record Override =
  ov_ID :: string
  ov_FlagKey :: string
  ov_Scope :: string
  ov_ScopeID :: string
  ov_Enabled :: bool
  ov_CreatedAt :: time
  ov_UpdatedAt :: time

record Subject =
  subj_TenantID :: string
  subj_UserID :: string
  subj_Plan :: string

record FlagView = Flag +
  fv_Overrides :: "Override list"

record flag_db =
  flag_rows :: "Flag list"
  override_rows :: "Override list"
  tenant_plans :: "(string \<times> string) list"

datatype cause =
    PgError string | ErrNoPool | DeadlineExceeded | Canceled | NetError string | ErrClosedPool | ErrNetClosed | ErrUnexpectedEOF | EOF | Plain string

type_synonym store_error = "cause list"

abbreviation ScopeGlobal :: string where "ScopeGlobal \<equiv> ''global''"
abbreviation ScopePlan :: string where "ScopePlan \<equiv> ''plan''"
abbreviation ScopeTenant :: string where "ScopeTenant \<equiv> ''tenant''"
abbreviation ScopeUser :: string where "ScopeUser \<equiv> ''user''"

definition validScopes :: "string set" where
  "validScopes = {ScopeGlobal, ScopePlan, ScopeTenant, ScopeUser}"

subsection \<open>Store\<close>

definition listFlags :: "flag_db \<Rightarrow> Flag list" where
  "listFlags db = sort_key fl_Key (flag_rows db)"

definition listOverrides :: "flag_db \<Rightarrow> Override list" where
  "listOverrides db = sort_key (\<lambda>o'. (ov_FlagKey o', ov_Scope o', ov_ScopeID o')) (override_rows db)"

definition loadAll :: "store_error option \<Rightarrow> flag_db option \<Rightarrow> flag_db option \<Rightarrow> store_error + Flag list \<times> Override list" where
  "loadAll fault db1 db2 =
     (case (db1, db2) of
        (Some d1, Some d2) \<Rightarrow> (case fault of Some e \<Rightarrow> Inl e | None \<Rightarrow> Inr (listFlags d1, listOverrides d2))
      | _ \<Rightarrow> Inr ([], []))"

definition tenantPlan :: "(string \<Rightarrow> string option) \<Rightarrow> store_error option \<Rightarrow> flag_db option \<Rightarrow> string \<Rightarrow> store_error + string" where
  "tenantPlan uuid fault db tenantID =
     (case db of
        None \<Rightarrow> Inr []
      | Some d \<Rightarrow>
          if tenantID = [] then Inr []
          else case fault of
              Some e \<Rightarrow> Inl e
            | None \<Rightarrow>
                (case uuid tenantID of
                   None \<Rightarrow> Inl [PgError ''invalid input syntax for type uuid'']
                 | Some i \<Rightarrow> Inr (case map_of (tenant_plans d) i of None \<Rightarrow> [] | Some plan \<Rightarrow> plan)))"

text \<open>
  The column check counts characters; \<open>length\<close> counts the bytes of the key, which is the same for a key of ASCII characters.
\<close>

definition UpsertFlag :: "store_error option \<Rightarrow> time \<Rightarrow> flag_db option \<Rightarrow> Flag \<Rightarrow> flag_db option \<times> (store_error + Flag)" where
  "UpsertFlag fault now db f =
     (case db of
        None \<Rightarrow> (db, Inl [ErrNoPool])
      | Some d \<Rightarrow>
          if fl_Key f = [] then (db, Inl [Plain ''featureflags: flag key required''])
          else case fault of
              Some e \<Rightarrow> (db, Inl e)
            | None \<Rightarrow>
                if length (fl_Key f) > 128 then (db, Inl [PgError ''feature_flags_key_check''])
                else case find (\<lambda>r. fl_Key r = fl_Key f) (flag_rows d) of
                    None \<Rightarrow>
                      (let row = f\<lparr>fl_CreatedAt := now, fl_UpdatedAt := now\<rparr> in (Some (d\<lparr>flag_rows := flag_rows d @ [row]\<rparr>), Inr row))
                  | Some r \<Rightarrow>
                      (let row = r\<lparr>fl_Description := fl_Description f, fl_DefaultEnabled := fl_DefaultEnabled f, fl_UpdatedAt := now\<rparr>
                       in (Some (d\<lparr>flag_rows := map (\<lambda>x. if fl_Key x = fl_Key f then row else x) (flag_rows d)\<rparr>), Inr row)))"

definition DeleteFlag :: "store_error option \<Rightarrow> flag_db option \<Rightarrow> string \<Rightarrow> flag_db option \<times> store_error option" where
  "DeleteFlag fault db key =
     (case db of
        None \<Rightarrow> (db, Some [ErrNoPool])
      | Some d \<Rightarrow>
          (case fault of
             Some e \<Rightarrow> (db, Some e)
           | None \<Rightarrow> (Some (d\<lparr>flag_rows := filter (\<lambda>r. fl_Key r \<noteq> key) (flag_rows d),
                             override_rows := filter (\<lambda>r. ov_FlagKey r \<noteq> key) (override_rows d)\<rparr>), None)))"

definition Validate_override :: "Override \<Rightarrow> string option" where
  "Validate_override o' =
     (if ov_FlagKey o' = [] then Some ''featureflags: override flag_key required''
      else if ov_Scope o' \<notin> validScopes then Some (''featureflags: invalid scope '' @ ov_Scope o')
      else if ov_Scope o' = ScopeGlobal
      then (if ov_ScopeID o' \<noteq> [] then Some ''featureflags: global override must have empty scope_id'' else None)
      else if ov_ScopeID o' = [] then Some (''featureflags: scope '' @ ov_Scope o' @ '' requires a non-empty scope_id'')
      else None)"

definition override_at :: "string \<Rightarrow> string \<Rightarrow> string \<Rightarrow> Override \<Rightarrow> bool" where
  "override_at key scope scopeID r \<longleftrightarrow> ov_FlagKey r = key \<and> ov_Scope r = scope \<and> ov_ScopeID r = scopeID"

text \<open>\<open>nid\<close> is the id of a new row.\<close>

definition SetOverride :: "store_error option \<Rightarrow> string \<Rightarrow> time \<Rightarrow> flag_db option \<Rightarrow> Override \<Rightarrow> flag_db option \<times> (store_error + Override)" where
  "SetOverride fault nid now db o' =
     (case db of
        None \<Rightarrow> (db, Inl [ErrNoPool])
      | Some d \<Rightarrow>
          (case Validate_override o' of
             Some e \<Rightarrow> (db, Inl [Plain e])
           | None \<Rightarrow>
               (case fault of
                  Some e \<Rightarrow> (db, Inl e)
                | None \<Rightarrow>
                    let here = override_at (ov_FlagKey o') (ov_Scope o') (ov_ScopeID o') in
                    if \<not> list_ex (\<lambda>f. fl_Key f = ov_FlagKey o') (flag_rows d) then (db, Inl [PgError ''feature_flag_overrides_flag_key_fkey''])
                    else case find here (override_rows d) of
                        None \<Rightarrow>
                          (let row = o'\<lparr>ov_ID := nid, ov_CreatedAt := now, ov_UpdatedAt := now\<rparr>
                           in (Some (d\<lparr>override_rows := override_rows d @ [row]\<rparr>), Inr row))
                      | Some r \<Rightarrow>
                          (let row = r\<lparr>ov_Enabled := ov_Enabled o', ov_UpdatedAt := now\<rparr>
                           in (Some (d\<lparr>override_rows := map (\<lambda>x. if here x then row else x) (override_rows d)\<rparr>), Inr row)))))"

definition DeleteOverride :: "store_error option \<Rightarrow> flag_db option \<Rightarrow> string \<Rightarrow> string \<Rightarrow> string \<Rightarrow> flag_db option \<times> store_error option" where
  "DeleteOverride fault db flagKey scope scopeID =
     (case db of
        None \<Rightarrow> (db, Some [ErrNoPool])
      | Some d \<Rightarrow>
          (case fault of
             Some e \<Rightarrow> (db, Some e)
           | None \<Rightarrow> (Some (d\<lparr>override_rows := filter (\<lambda>r. \<not> override_at flagKey scope scopeID r) (override_rows d)\<rparr>), None)))"

subsection \<open>Resolver\<close>

record resolved =
  rs_def :: bool
  rs_overrides :: "string \<rightharpoonup> bool"

record snapshot =
  sn_flags :: "string \<rightharpoonup> resolved"
  sn_loaded :: time

record flag_service =
  sv_ttl :: duration
  sv_snap :: "snapshot option"
  sv_plans :: "string \<rightharpoonup> string \<times> time"

definition scopeKey :: "string \<Rightarrow> string \<Rightarrow> string" where
  "scopeKey scope i = (if scope = ScopeGlobal then ScopeGlobal else scope @ '':'' @ i)"

definition flag_newService :: flag_service where
  "flag_newService = \<lparr>sv_ttl = 30 * nanos_per_s, sv_snap = None, sv_plans = Map.empty\<rparr>"

definition WithTTL :: "flag_service \<Rightarrow> duration \<Rightarrow> flag_service" where
  "WithTTL s ttl = (if ttl > 0 then s\<lparr>sv_ttl := ttl\<rparr> else s)"

definition Invalidate :: "flag_service \<Rightarrow> flag_service" where
  "Invalidate s = s\<lparr>sv_snap := None, sv_plans := Map.empty\<rparr>"

definition add_flag :: "Flag \<Rightarrow> (string \<rightharpoonup> resolved) \<Rightarrow> string \<rightharpoonup> resolved" where
  "add_flag f m = m(fl_Key f \<mapsto> \<lparr>rs_def = fl_DefaultEnabled f, rs_overrides = Map.empty\<rparr>)"

definition add_override :: "Override \<Rightarrow> (string \<rightharpoonup> resolved) \<Rightarrow> string \<rightharpoonup> resolved" where
  "add_override o' m =
     (case m (ov_FlagKey o') of
        None \<Rightarrow> m
      | Some r \<Rightarrow> m(ov_FlagKey o' \<mapsto> r\<lparr>rs_overrides := (rs_overrides r)(scopeKey (ov_Scope o') (ov_ScopeID o') \<mapsto> ov_Enabled o')\<rparr>))"

definition buildSnapshot :: "time \<Rightarrow> Flag list \<Rightarrow> Override list \<Rightarrow> snapshot" where
  "buildSnapshot now flags overrides = \<lparr>sn_flags = fold add_override overrides (fold add_flag flags Map.empty), sn_loaded = now\<rparr>"

text \<open>\<open>load\<close> is what the store answers and \<open>loaded\<close> the clock when the snapshot is built.\<close>

definition refresh :: "store_error + Flag list \<times> Override list \<Rightarrow> time \<Rightarrow> flag_service \<Rightarrow> flag_service \<times> (store_error + snapshot)" where
  "refresh load loaded s =
     (case load of
        Inl e \<Rightarrow> (s, Inl e)
      | Inr (flags, overrides) \<Rightarrow> let sn = buildSnapshot loaded flags overrides in (s\<lparr>sv_snap := Some sn\<rparr>, Inr sn))"

definition getSnapshot :: "store_error + Flag list \<times> Override list \<Rightarrow> time \<Rightarrow> time \<Rightarrow> flag_service \<Rightarrow> flag_service \<times> (store_error + snapshot)" where
  "getSnapshot load now loaded s =
     (case sv_snap s of
        Some sn \<Rightarrow> if now - sn_loaded sn < sv_ttl s then (s, Inr sn) else refresh load loaded s
      | None \<Rightarrow> refresh load loaded s)"

definition evaluate :: "resolved \<Rightarrow> Subject \<Rightarrow> bool" where
  "evaluate r subj =
     (case (if subj_UserID subj \<noteq> [] then rs_overrides r (scopeKey ScopeUser (subj_UserID subj)) else None) of
        Some v \<Rightarrow> v
      | None \<Rightarrow>
          (case (if subj_TenantID subj \<noteq> [] then rs_overrides r (scopeKey ScopeTenant (subj_TenantID subj)) else None) of
             Some v \<Rightarrow> v
           | None \<Rightarrow>
               (case (if subj_Plan subj \<noteq> [] then rs_overrides r (scopeKey ScopePlan (subj_Plan subj)) else None) of
                  Some v \<Rightarrow> v
                | None \<Rightarrow> (case rs_overrides r (scopeKey ScopeGlobal []) of Some v \<Rightarrow> v | None \<Rightarrow> rs_def r))))"

definition EvaluateSubject :: "store_error + Flag list \<times> Override list \<Rightarrow> time \<Rightarrow> time \<Rightarrow> flag_service \<Rightarrow> string \<Rightarrow> Subject \<Rightarrow> flag_service \<times> bool" where
  "EvaluateSubject load now loaded s key subj =
     (case getSnapshot load now loaded s of
        (s1, Inl _) \<Rightarrow> (s1, False)
      | (s1, Inr sn) \<Rightarrow> (s1, case sn_flags sn key of None \<Rightarrow> False | Some r \<Rightarrow> evaluate r subj))"

definition cachedPlan :: "flag_service \<Rightarrow> time \<Rightarrow> string \<Rightarrow> string option" where
  "cachedPlan s now tenantID =
     (case sv_plans s tenantID of
        None \<Rightarrow> None
      | Some (plan, loaded) \<Rightarrow> if now - loaded < sv_ttl s then Some plan else None)"

definition planFor :: "store_error + string \<Rightarrow> time \<Rightarrow> time \<Rightarrow> flag_service \<Rightarrow> string \<Rightarrow> flag_service \<times> string" where
  "planFor answer now loaded s tenantID =
     (case cachedPlan s now tenantID of
        Some plan \<Rightarrow> (s, plan)
      | None \<Rightarrow>
          (case answer of
             Inl _ \<Rightarrow> (s, [])
           | Inr plan \<Rightarrow> (s\<lparr>sv_plans := (sv_plans s)(tenantID \<mapsto> (plan, loaded))\<rparr>, plan)))"

text \<open>The caller's tenant and user come from the request context; \<open>answer\<close> is what \<^verbatim>\<open>tenantPlan\<close> would answer.\<close>

definition flag_IsEnabled :: "store_error + string \<Rightarrow> store_error + Flag list \<times> Override list \<Rightarrow> time \<Rightarrow> time \<Rightarrow> flag_service
    \<Rightarrow> string \<Rightarrow> string \<Rightarrow> string \<Rightarrow> flag_service \<times> bool" where
  "flag_IsEnabled answer load now loaded s tenantID userID key =
     (let (s1, plan) = (if tenantID \<noteq> [] then planFor answer now loaded s tenantID else (s, []))
      in EvaluateSubject load now loaded s1 key \<lparr>subj_TenantID = tenantID, subj_UserID = userID, subj_Plan = plan\<rparr>)"

definition default_IsEnabled :: "store_error + string \<Rightarrow> store_error + Flag list \<times> Override list \<Rightarrow> time \<Rightarrow> time \<Rightarrow> flag_service option
    \<Rightarrow> string \<Rightarrow> string \<Rightarrow> string \<Rightarrow> flag_service option \<times> bool" where
  "default_IsEnabled answer load now loaded svc tenantID userID key =
     (case svc of
        None \<Rightarrow> (None, False)
      | Some s \<Rightarrow> (case flag_IsEnabled answer load now loaded s tenantID userID key of (s1, v) \<Rightarrow> (Some s1, v)))"

subsection \<open>Admin view\<close>

definition scopePrecedence :: "string \<Rightarrow> int" where
  "scopePrecedence scope = (if scope = ScopePlan then 1 else if scope = ScopeTenant then 2 else if scope = ScopeUser then 3 else 0)"

definition view_of :: "Flag \<Rightarrow> Override list \<Rightarrow> FlagView" where
  "view_of f os = \<lparr>fl_Key = fl_Key f, fl_Description = fl_Description f, fl_DefaultEnabled = fl_DefaultEnabled f, fl_CreatedAt = fl_CreatedAt f,
     fl_UpdatedAt = fl_UpdatedAt f, fv_Overrides = os\<rparr>"

text \<open>Keys are unique, so every override has at most one view to go to; rows of one flag have valid scopes.\<close>

definition assembleViews :: "Flag list \<Rightarrow> Override list \<Rightarrow> FlagView list" where
  "assembleViews flags overrides =
     map (\<lambda>f. view_of f (sort_key (\<lambda>o'. (scopePrecedence (ov_Scope o'), ov_ScopeID o')) (filter (\<lambda>o'. ov_FlagKey o' = fl_Key f) overrides)))
       (sort_key fl_Key flags)"

definition loadViews :: "store_error + Flag list \<times> Override list \<Rightarrow> store_error + FlagView list" where
  "loadViews load = (case load of Inl e \<Rightarrow> Inl e | Inr (flags, overrides) \<Rightarrow> Inr (assembleViews flags overrides))"

subsection \<open>Handlers\<close>

definition isStoreUnavailable :: "store_error \<Rightarrow> bool" where
  "isStoreUnavailable e \<longleftrightarrow>
     (\<not> list_ex (\<lambda>c. case c of PgError _ \<Rightarrow> True | _ \<Rightarrow> False) e
      \<and> list_ex (\<lambda>c. case c of ErrNoPool \<Rightarrow> True | DeadlineExceeded \<Rightarrow> True | Canceled \<Rightarrow> True | NetError _ \<Rightarrow> True
          | ErrClosedPool \<Rightarrow> True | ErrNetClosed \<Rightarrow> True | ErrUnexpectedEOF \<Rightarrow> True | EOF \<Rightarrow> True | _ \<Rightarrow> False) e)"

text \<open>
  The last-known-good cache of the handlers, with the resolver they invalidate; \<open>None\<close> for \<open>fh_cachedReadStart\<close> is the
  zero time. \<open>fh_reconciles\<close> counts the reconciliations that a write left running in the background.
\<close>

record flag_handlers =
  fh_svc :: "flag_service option"
  fh_lastGood :: "FlagView list option"
  fh_cachedAt :: time
  fh_cachedReadStart :: "time option"
  fh_reconciles :: nat
  fh_maxStaleAge :: duration

definition precedes :: "time \<Rightarrow> time option \<Rightarrow> bool" where
  "precedes t b \<longleftrightarrow> (case b of None \<Rightarrow> False | Some b' \<Rightarrow> t < b')"

definition cacheViews :: "FlagView list \<Rightarrow> time \<Rightarrow> time \<Rightarrow> flag_handlers \<Rightarrow> flag_handlers" where
  "cacheViews views readStart now h =
     (if precedes readStart (fh_cachedReadStart h) then h
      else h\<lparr>fh_lastGood := Some views, fh_cachedAt := now, fh_cachedReadStart := Some readStart\<rparr>)"

definition cachedViews :: "time \<Rightarrow> flag_handlers \<Rightarrow> (FlagView list \<times> duration) option" where
  "cachedViews now h = (case fh_lastGood h of None \<Rightarrow> None | Some views \<Rightarrow> Some (views, now - fh_cachedAt h))"

definition withinStaleBound :: "flag_handlers \<Rightarrow> duration \<Rightarrow> bool" where
  "withinStaleBound h age \<longleftrightarrow> fh_maxStaleAge h \<le> 0 \<or> age \<le> fh_maxStaleAge h"

definition dropCache :: "time \<Rightarrow> flag_handlers \<Rightarrow> flag_handlers" where
  "dropCache readStart h =
     (if precedes readStart (fh_cachedReadStart h) then h
      else h\<lparr>fh_lastGood := None, fh_cachedAt := 0, fh_cachedReadStart := Some readStart\<rparr>)"

definition removeFlagFromCache :: "string \<Rightarrow> time \<Rightarrow> flag_handlers \<Rightarrow> flag_handlers" where
  "removeFlagFromCache key now h =
     (let h1 = h\<lparr>fh_cachedReadStart := Some now\<rparr> in
      case fh_lastGood h of None \<Rightarrow> h1 | Some views \<Rightarrow> h1\<lparr>fh_lastGood := Some (filter (\<lambda>v. fl_Key v \<noteq> key) views)\<rparr>)"

definition refreshCacheAfterWrite :: "store_error + Flag list \<times> Override list \<Rightarrow> time \<Rightarrow> time \<Rightarrow> flag_handlers \<Rightarrow> flag_handlers" where
  "refreshCacheAfterWrite load readStart now h =
     (let h1 = h\<lparr>fh_reconciles := fh_reconciles h - 1\<rparr> in
      case loadViews load of Inl _ \<Rightarrow> dropCache readStart h1 | Inr views \<Rightarrow> cacheViews views readStart now h1)"

definition handlers_invalidate :: "flag_handlers \<Rightarrow> flag_handlers" where
  "handlers_invalidate h = h\<lparr>fh_svc := map_option Invalidate (fh_svc h)\<rparr>"

text \<open>Responses: views with the age in seconds when they are stale, one view, a bare key, no content, or an error with its status.\<close>

datatype flag_response =
    RespViews "int option" "FlagView list" | RespView FlagView | RespKey string | RespNoContent | RespErr nat store_error

definition writeStoreErr :: "store_error \<Rightarrow> flag_response" where
  "writeStoreErr e = RespErr (if isStoreUnavailable e then 503 else 500) e"

definition flags_list :: "store_error + Flag list \<times> Override list \<Rightarrow> time \<Rightarrow> time \<Rightarrow> flag_handlers \<Rightarrow> flag_handlers \<times> flag_response" where
  "flags_list load readStart now h =
     (case loadViews load of
        Inl e \<Rightarrow>
          (h, if isStoreUnavailable e
              then (case cachedViews now h of
                      Some (views, age) \<Rightarrow> if withinStaleBound h age then RespViews (Some (max 0 (quot age nanos_per_s))) views else writeStoreErr e
                    | None \<Rightarrow> writeStoreErr e)
              else writeStoreErr e)
      | Inr views \<Rightarrow> (cacheViews views readStart now h, RespViews None views))"

record overrideOp =
  op_Scope :: string
  op_ScopeID :: string
  op_Enabled :: bool
  op_Delete :: bool

record putRequest =
  pr_Key :: string
  pr_Description :: string
  pr_DefaultEnabled :: bool
  pr_Delete :: bool
  pr_Overrides :: "overrideOp list"

definition op_override :: "string \<Rightarrow> overrideOp \<Rightarrow> Override" where
  "op_override key op = \<lparr>ov_ID = [], ov_FlagKey = key, ov_Scope = op_Scope op, ov_ScopeID = op_ScopeID op, ov_Enabled = op_Enabled op,
     ov_CreatedAt = 0, ov_UpdatedAt = 0\<rparr>"

fun validate_ops :: "string \<Rightarrow> overrideOp list \<Rightarrow> string option" where
  "validate_ops key [] = None"
| "validate_ops key (op # ops) =
     (if op_Delete op then (if op_Scope op \<notin> validScopes then Some (''invalid scope: '' @ op_Scope op) else validate_ops key ops)
      else case Validate_override (op_override key op) of Some e \<Rightarrow> Some e | None \<Rightarrow> validate_ops key ops)"

text \<open>One mutation per step; \<open>faults\<close> gives the outcome of the statements, \<open>ids\<close> the ids of new rows, both by position.\<close>

fun apply_ops :: "(nat \<Rightarrow> store_error option) \<Rightarrow> (nat \<Rightarrow> string) \<Rightarrow> time \<Rightarrow> string \<Rightarrow> nat \<Rightarrow> overrideOp list \<Rightarrow> flag_db option \<Rightarrow> flag_db option \<times> store_error option" where
  "apply_ops faults ids now key i [] db = (db, None)"
| "apply_ops faults ids now key i (op # ops) db =
     (if op_Delete op
      then (case DeleteOverride (faults i) db key (op_Scope op) (op_ScopeID op) of
              (db1, Some e) \<Rightarrow> (db1, Some e)
            | (db1, None) \<Rightarrow> apply_ops faults ids now key (Suc i) ops db1)
      else (case SetOverride (faults i) (ids i) now db (op_override key op) of
              (db1, Inl e) \<Rightarrow> (db1, Some e)
            | (db1, Inr _) \<Rightarrow> apply_ops faults ids now key (Suc i) ops db1))"

text \<open>
  What a write meets outside the program: the clock of the database, the fault of the first statement, of the mutations
  and of the reload, and the clock of the process at the reload and at its end. Another writer between the statements is
  the subject of theory \<open>FeatureFlagRuns\<close>.
\<close>

record put_outcome =
  po_dbnow :: time
  po_first :: "store_error option"
  po_ops :: "nat \<Rightarrow> store_error option"
  po_ids :: "nat \<Rightarrow> string"
  po_load :: "store_error option"
  po_readStart :: time
  po_now :: time

definition flags_put :: "put_outcome \<Rightarrow> string \<Rightarrow> string + putRequest \<Rightarrow> flag_db option \<Rightarrow> flag_handlers \<Rightarrow> (flag_db option \<times> flag_handlers) \<times> flag_response" where
  "flags_put po userID body db h =
     (if userID = [] then ((db, h), RespErr 401 [Plain ''unauthenticated''])
      else case body of
          Inl e \<Rightarrow> ((db, h), RespErr 400 [Plain (''invalid json: '' @ e)])
        | Inr r \<Rightarrow>
            if pr_Key r = [] then ((db, h), RespErr 400 [Plain ''key required''])
            else if pr_Delete r
            then (case DeleteFlag (po_first po) db (pr_Key r) of
                    (db1, Some e) \<Rightarrow> ((db1, h), writeStoreErr e)
                  | (db1, None) \<Rightarrow> ((db1, removeFlagFromCache (pr_Key r) (po_now po) (handlers_invalidate h)), RespNoContent))
            else case validate_ops (pr_Key r) (pr_Overrides r) of
                Some e \<Rightarrow> ((db, h), RespErr 400 [Plain e])
              | None \<Rightarrow>
                  (case UpsertFlag (po_first po) (po_dbnow po) db
                          \<lparr>fl_Key = pr_Key r, fl_Description = pr_Description r, fl_DefaultEnabled = pr_DefaultEnabled r, fl_CreatedAt = 0, fl_UpdatedAt = 0\<rparr> of
                     (db1, Inl e) \<Rightarrow> ((db1, h), writeStoreErr e)
                   | (db1, Inr _) \<Rightarrow>
                       (case apply_ops (po_ops po) (po_ids po) (po_dbnow po) (pr_Key r) 0 (pr_Overrides r) db1 of
                          (db2, Some e) \<Rightarrow> ((db2, dropCache (po_now po) (handlers_invalidate h)), writeStoreErr e)
                        | (db2, None) \<Rightarrow>
                            (case loadViews (loadAll (po_load po) db2 db2) of
                               Inl _ \<Rightarrow> ((db2, handlers_invalidate (h\<lparr>fh_reconciles := fh_reconciles h + 1\<rparr>)), RespKey (pr_Key r))
                             | Inr views \<Rightarrow>
                                 ((db2, handlers_invalidate (cacheViews views (po_readStart po) (po_now po) h)),
                                  case find (\<lambda>v. fl_Key v = pr_Key r) views of Some v \<Rightarrow> RespView v | None \<Rightarrow> RespKey (pr_Key r))))))"

end
