(* ===== verification/FeatureFlagRuns.thy ===== *)
theory FeatureFlagRuns
  imports FeatureFlags
begin

text \<open>
  Correctness of the feature flags of theory \<open>FeatureFlags\<close>: the constraints of the tables, the resolver against a
  reference that reads the precedence off the rows, the effect of a write, and runs in which writers, refreshes of the
  resolver and reads of the admin view interleave statement by statement.
\<close>

subsection \<open>Tables\<close>

definition override_key :: "Override \<Rightarrow> string \<times> string \<times> string" where
  "override_key r = (ov_FlagKey r, ov_Scope r, ov_ScopeID r)"

definition valid_scope :: "string \<Rightarrow> string \<Rightarrow> bool" where
  "valid_scope sc i \<longleftrightarrow> sc \<in> validScopes \<and> (sc = ScopeGlobal \<longleftrightarrow> i = [])"

definition overrides_ok :: "Override list \<Rightarrow> bool" where
  "overrides_ok os \<longleftrightarrow> distinct (map override_key os) \<and> (\<forall>r \<in> set os. valid_scope (ov_Scope r) (ov_ScopeID r))"

definition flag_tables_ok :: "flag_db \<Rightarrow> bool" where
  "flag_tables_ok d \<longleftrightarrow> distinct (map fl_Key (flag_rows d)) \<and> (\<forall>f \<in> set (flag_rows d). fl_Key f \<noteq> [] \<and> length (fl_Key f) \<le> 128)
     \<and> overrides_ok (override_rows d) \<and> (\<forall>r \<in> set (override_rows d). ov_FlagKey r \<in> fl_Key ` set (flag_rows d))"

lemma Validate_override_ok: "Validate_override o' = None \<longleftrightarrow> ov_FlagKey o' \<noteq> [] \<and> valid_scope (ov_Scope o') (ov_ScopeID o')"
  by (auto simp: Validate_override_def valid_scope_def)

lemma override_at_key: "override_at key sc i r \<longleftrightarrow> override_key r = (key, sc, i)"
  by (simp add: override_at_def override_key_def)

lemma override_at_fun: "override_at key sc i = (\<lambda>r. override_key r = (key, sc, i))"
  by (simp add: fun_eq_iff override_at_key)

definition flag_keys :: "flag_db \<Rightarrow> string set" where
  "flag_keys d = fl_Key ` set (flag_rows d)"

definition overriding :: "Override list \<Rightarrow> string \<Rightarrow> string \<Rightarrow> string \<Rightarrow> bool option" where
  "overriding os key sc i = map_option ov_Enabled (find (override_at key sc i) os)"

text \<open>The columns of a flag that a write sets.\<close>

definition flag_value :: "flag_db \<Rightarrow> string \<Rightarrow> (string \<times> bool) option" where
  "flag_value d key = map_option (\<lambda>f. (fl_Description f, fl_DefaultEnabled f)) (find (\<lambda>f. fl_Key f = key) (flag_rows d))"

lemma find_none_key: "find (\<lambda>f. g f = k) xs = None \<longleftrightarrow> k \<notin> g ` set xs"
  by (auto simp: find_None_iff)

lemma find_map_key: "(\<And>x. x \<in> set xs \<Longrightarrow> g (h x) = g x) \<Longrightarrow> find (\<lambda>x. g x = k) (map h xs) = map_option h (find (\<lambda>x. g x = k) xs)"
  by (induction xs) auto

lemma map_keys_cong: "(\<And>x. x \<in> set xs \<Longrightarrow> g (h x) = g x) \<Longrightarrow> map g (map h xs) = map g xs"
  by (induction xs) auto

lemma tables_ok_map: "(\<And>x. fl_Key (h x) = fl_Key x) \<Longrightarrow> flag_tables_ok (d\<lparr>flag_rows := map h (flag_rows d)\<rparr>) = flag_tables_ok d"
  by (simp add: flag_tables_ok_def comp_def image_image)

lemma tables_ok_map_overrides:
  assumes "\<And>x. override_key (h x) = override_key x"
  shows "flag_tables_ok (d\<lparr>override_rows := map h (override_rows d)\<rparr>) = flag_tables_ok d"
proof -
  have "ov_FlagKey (h x) = ov_FlagKey x" "ov_Scope (h x) = ov_Scope x" "ov_ScopeID (h x) = ov_ScopeID x" for x
    using assms [of x] by (simp_all add: override_key_def)
  then show ?thesis by (simp add: flag_tables_ok_def overrides_ok_def comp_def assms)
qed

text \<open>What each statement leaves behind.\<close>

lemma upsert_effect:
  assumes "UpsertFlag fault now (Some d) f = (db', Inr row)" and "flag_tables_ok d"
  obtains d' where "db' = Some d'" "flag_tables_ok d'" "override_rows d' = override_rows d" "flag_keys d' = insert (fl_Key f) (flag_keys d)"
    "flag_value d' = (flag_value d)(fl_Key f \<mapsto> (fl_Description f, fl_DefaultEnabled f))"
proof (cases "find (\<lambda>r. fl_Key r = fl_Key f) (flag_rows d)")
  case None
  then have new: "fl_Key f \<notin> fl_Key ` set (flag_rows d)" by (simp add: find_none_key)
  have k: "fl_Key f \<noteq> []" "length (fl_Key f) \<le> 128" "db' = Some (d\<lparr>flag_rows := flag_rows d @ [f\<lparr>fl_CreatedAt := now, fl_UpdatedAt := now\<rparr>]\<rparr>)"
    using assms(1) None by (auto simp: UpsertFlag_def Let_def split: if_splits option.splits)
  let ?d = "d\<lparr>flag_rows := flag_rows d @ [f\<lparr>fl_CreatedAt := now, fl_UpdatedAt := now\<rparr>]\<rparr>"
  have "flag_tables_ok ?d" using assms(2) new k(1,2) by (auto simp: flag_tables_ok_def)
  moreover have "flag_value ?d = (flag_value d)(fl_Key f \<mapsto> (fl_Description f, fl_DefaultEnabled f))"
    using None by (auto simp: flag_value_def find_append fun_eq_iff split: option.splits)
  ultimately show ?thesis using that [OF k(3)] by (simp add: flag_keys_def)
next
  case (Some r)
  let ?row = "r\<lparr>fl_Description := fl_Description f, fl_DefaultEnabled := fl_DefaultEnabled f, fl_UpdatedAt := now\<rparr>"
  let ?h = "\<lambda>x. if fl_Key x = fl_Key f then ?row else x"
  let ?d = "d\<lparr>flag_rows := map ?h (flag_rows d)\<rparr>"
  have db: "db' = Some ?d" using assms(1) Some by (auto simp: UpsertFlag_def Let_def split: if_splits option.splits)
  have r: "fl_Key r = fl_Key f" "r \<in> set (flag_rows d)" using find_SomeD [OF Some] by auto
  have keys: "map fl_Key (map ?h (flag_rows d)) = map fl_Key (flag_rows d)" by (rule map_keys_cong) (simp add: r(1))
  have kset: "fl_Key ` set (map ?h (flag_rows d)) = fl_Key ` set (flag_rows d)" using arg_cong [OF keys, of set] by (simp only: set_map)
  have col: "fl_Key (?h x) = fl_Key x" for x by (simp add: r(1))
  have "flag_tables_ok ?d"
    using assms(2) by (subst tables_ok_map) (rule col)
  moreover have "flag_value ?d = (flag_value d)(fl_Key f \<mapsto> (fl_Description f, fl_DefaultEnabled f))"
  proof
    fix k
    have "find (\<lambda>x. fl_Key x = k) (map ?h (flag_rows d)) = map_option ?h (find (\<lambda>x. fl_Key x = k) (flag_rows d))"
      by (rule find_map_key) (simp add: r(1))
    then show "flag_value ?d k = ((flag_value d)(fl_Key f \<mapsto> (fl_Description f, fl_DefaultEnabled f))) k"
      using Some by (auto simp: flag_value_def map_option_case split: option.splits dest: find_SomeD)
  qed
  moreover have "fl_Key f \<in> flag_keys d" using imageI [OF r(2), of fl_Key] unfolding flag_keys_def r(1) .
  ultimately show ?thesis using that [OF db] kset by (simp add: flag_keys_def insert_absorb del: set_map)
qed

lemma delete_flag_effect:
  assumes "DeleteFlag fault (Some d) key = (db', None)" and "flag_tables_ok d"
  obtains d' where "db' = Some d'" "flag_tables_ok d'" "flag_keys d' = flag_keys d - {key}"
    "\<And>k sc i. overriding (override_rows d') k sc i = (if k = key then None else overriding (override_rows d) k sc i)"
    "flag_value d' = (flag_value d)(key := None)"
proof -
  let ?d = "d\<lparr>flag_rows := filter (\<lambda>r. fl_Key r \<noteq> key) (flag_rows d), override_rows := filter (\<lambda>r. ov_FlagKey r \<noteq> key) (override_rows d)\<rparr>"
  have db: "db' = Some ?d" using assms(1) by (auto simp: DeleteFlag_def split: option.splits)
  have "flag_tables_ok ?d" using assms(2) by (auto simp: flag_tables_ok_def overrides_ok_def distinct_map_filter)
  moreover have "overriding (filter (\<lambda>r. ov_FlagKey r \<noteq> key) os) k sc i = (if k = key then None else overriding os k sc i)" for os k sc i
    by (induction os) (auto simp: overriding_def override_at_def)
  moreover have "find (\<lambda>f. fl_Key f = k) (filter (\<lambda>r. fl_Key r \<noteq> key) fs) = (if k = key then None else find (\<lambda>f. fl_Key f = k) fs)" for fs :: "Flag list" and k
    by (induction fs) auto
  then have "flag_value ?d = (flag_value d)(key := None)" by (auto simp: flag_value_def)
  ultimately show ?thesis using that [OF db] by (auto simp: flag_keys_def)
qed

lemma set_override_effect:
  assumes "SetOverride fault nid now (Some d) o' = (db', Inr row)" and "flag_tables_ok d"
  obtains d' where "db' = Some d'" "flag_tables_ok d'" "flag_rows d' = flag_rows d"
    "\<And>k sc i. overriding (override_rows d') k sc i = (if (k, sc, i) = override_key o' then Some (ov_Enabled o') else overriding (override_rows d) k sc i)"
proof -
  let ?here = "\<lambda>r. override_key r = override_key o'"
  have here: "override_at (ov_FlagKey o') (ov_Scope o') (ov_ScopeID o') = ?here" by (simp add: fun_eq_iff override_at_key) (simp add: override_key_def)
  have v: "valid_scope (ov_Scope o') (ov_ScopeID o')" and fk: "ov_FlagKey o' \<in> fl_Key ` set (flag_rows d)"
    using assms(1) Validate_override_ok [of o'] by (auto simp: SetOverride_def Let_def list_ex_iff image_iff eq_commute split: option.splits if_splits)
  note at = override_at_fun
  show ?thesis
  proof (cases "find ?here (override_rows d)")
    case None
    let ?row = "o'\<lparr>ov_ID := nid, ov_CreatedAt := now, ov_UpdatedAt := now\<rparr>"
    let ?d = "d\<lparr>override_rows := override_rows d @ [?row]\<rparr>"
    have db: "db' = Some ?d" using assms(1) None by (auto simp: SetOverride_def Let_def here split: option.splits if_splits)
    have key: "override_key ?row = override_key o'" by (simp add: override_key_def)
    have new: "override_key o' \<notin> override_key ` set (override_rows d)" using None by (simp add: find_none_key)
    have "flag_tables_ok ?d" using assms(2) v fk new key by (auto simp: flag_tables_ok_def overrides_ok_def)
    moreover have "overriding (override_rows ?d) k sc i = (if (k, sc, i) = override_key o' then Some (ov_Enabled o') else overriding (override_rows d) k sc i)" for k sc i
      using None by (auto simp: overriding_def find_append at key split: option.splits)
    ultimately show ?thesis using that [OF db] by simp
  next
    case (Some r)
    let ?h = "\<lambda>x. if ?here x then r\<lparr>ov_Enabled := ov_Enabled o', ov_UpdatedAt := now\<rparr> else x"
    let ?d = "d\<lparr>override_rows := map ?h (override_rows d)\<rparr>"
    have db: "db' = Some ?d" using assms(1) Some by (auto simp: SetOverride_def Let_def here split: option.splits if_splits)
    have r: "override_key r = override_key o'" "r \<in> set (override_rows d)" using find_SomeD [OF Some] by auto
    have h: "override_key (?h x) = override_key x" for x using r(1) by (auto simp: override_key_def)
    have "flag_tables_ok ?d" using assms(2) by (subst tables_ok_map_overrides) (rule h)
    moreover have "overriding (override_rows ?d) k sc i = (if (k, sc, i) = override_key o' then Some (ov_Enabled o') else overriding (override_rows d) k sc i)" for k sc i
    proof -
      have "find (\<lambda>x. override_key x = (k, sc, i)) (map ?h (override_rows d)) = map_option ?h (find (\<lambda>x. override_key x = (k, sc, i)) (override_rows d))"
        by (rule find_map_key) (rule h)
      then show ?thesis using Some by (auto simp: overriding_def at map_option_case split: option.splits dest: find_SomeD)
    qed
    ultimately show ?thesis using that [OF db] by simp
  qed
qed

lemma delete_override_effect:
  assumes "DeleteOverride fault (Some d) key sc0 i0 = (db', None)" and "flag_tables_ok d"
  obtains d' where "db' = Some d'" "flag_tables_ok d'" "flag_rows d' = flag_rows d"
    "\<And>k sc i. overriding (override_rows d') k sc i = (if (k, sc, i) = (key, sc0, i0) then None else overriding (override_rows d) k sc i)"
proof -
  let ?d = "d\<lparr>override_rows := filter (\<lambda>r. \<not> override_at key sc0 i0 r) (override_rows d)\<rparr>"
  have db: "db' = Some ?d" using assms(1) by (auto simp: DeleteOverride_def split: option.splits)
  have "flag_tables_ok ?d" using assms(2) by (auto simp: flag_tables_ok_def overrides_ok_def distinct_map_filter)
  moreover have "overriding (filter (\<lambda>r. \<not> override_at key sc0 i0 r) os) k sc i = (if (k, sc, i) = (key, sc0, i0) then None else overriding os k sc i)" for os k sc i
    by (induction os) (auto simp: overriding_def override_at_def)
  ultimately show ?thesis using that [OF db] by simp
qed

subsection \<open>Resolution\<close>

text \<open>The reference: the first override on the ladder from the user to everyone, else the default of the flag, else off.\<close>

definition ladder :: "Subject \<Rightarrow> (string \<times> string) list" where
  "ladder subj = (if subj_UserID subj = [] then [] else [(ScopeUser, subj_UserID subj)])
     @ (if subj_TenantID subj = [] then [] else [(ScopeTenant, subj_TenantID subj)])
     @ (if subj_Plan subj = [] then [] else [(ScopePlan, subj_Plan subj)]) @ [(ScopeGlobal, [])]"

definition flag_resolution :: "Flag list \<Rightarrow> Override list \<Rightarrow> string \<Rightarrow> Subject \<Rightarrow> bool" where
  "flag_resolution flags os key subj =
     (case find (\<lambda>f. fl_Key f = key) flags of
        None \<Rightarrow> False
      | Some f \<Rightarrow> (case List.map_filter (\<lambda>(sc, i). overriding os key sc i) (ladder subj) of v # _ \<Rightarrow> v | [] \<Rightarrow> fl_DefaultEnabled f))"

lemma scopeKey_inj:
  "valid_scope sc i \<Longrightarrow> valid_scope sc' i' \<Longrightarrow> scopeKey sc i = scopeKey sc' i' \<longleftrightarrow> sc = sc' \<and> i = i'"
  unfolding valid_scope_def validScopes_def scopeKey_def by (elim conjE insertE emptyE; simp)

lemma add_flags_at:
  "distinct (map fl_Key fs) \<Longrightarrow>
     fold add_flag fs m k = (case find (\<lambda>f. fl_Key f = k) fs of None \<Rightarrow> m k | Some f \<Rightarrow> Some \<lparr>rs_def = fl_DefaultEnabled f, rs_overrides = Map.empty\<rparr>)"
proof (induction fs arbitrary: m)
  case (Cons f fs)
  then have "fl_Key f = k \<Longrightarrow> find (\<lambda>f. fl_Key f = k) fs = None" by (auto simp: find_none_key)
  with Cons show ?case by (auto simp: add_flag_def)
qed simp

lemma add_overrides_at:
  "overrides_ok os \<Longrightarrow> valid_scope sc i \<Longrightarrow> m key = Some r \<Longrightarrow>
     \<exists>r'. fold add_override os m key = Some r' \<and> rs_def r' = rs_def r
       \<and> rs_overrides r' (scopeKey sc i) = (case overriding os key sc i of None \<Rightarrow> rs_overrides r (scopeKey sc i) | Some v \<Rightarrow> Some v)"
proof (induction os arbitrary: m r)
  case (Cons o' os)
  let ?k = "scopeKey (ov_Scope o') (ov_ScopeID o')"
  define r1 where "r1 = (if ov_FlagKey o' = key then r\<lparr>rs_overrides := (rs_overrides r)(?k \<mapsto> ov_Enabled o')\<rparr> else r)"
  have ok: "overrides_ok os" and v: "valid_scope (ov_Scope o') (ov_ScopeID o')" and new: "override_key o' \<notin> override_key ` set os"
    using Cons.prems(1) by (auto simp: overrides_ok_def)
  have "add_override o' m key = Some r1" using Cons.prems(3) by (auto simp: add_override_def r1_def split: option.splits)
  from Cons.IH [of "add_override o' m", OF ok Cons.prems(2) this] obtain r' where r': "fold add_override os (add_override o' m) key = Some r'" "rs_def r' = rs_def r1"
    "rs_overrides r' (scopeKey sc i) = (case overriding os key sc i of None \<Rightarrow> rs_overrides r1 (scopeKey sc i) | Some v \<Rightarrow> Some v)" by blast
  have same: "override_at key sc i o' \<longleftrightarrow> ov_FlagKey o' = key \<and> ?k = scopeKey sc i"
    using scopeKey_inj [OF v Cons.prems(2)] by (auto simp: override_at_def)
  have "override_at key sc i o' \<Longrightarrow> overriding os key sc i = None"
    using new find_none_key [of override_key "(key, sc, i)" os] by (simp add: overriding_def override_at_fun override_at_key)
  then have "rs_overrides r' (scopeKey sc i) = (case overriding (o' # os) key sc i of None \<Rightarrow> rs_overrides r (scopeKey sc i) | Some v \<Rightarrow> Some v)"
    unfolding r'(3) using same by (auto simp: overriding_def r1_def split: option.splits)
  moreover have "rs_def r1 = rs_def r" by (simp add: r1_def)
  ultimately show ?case using r'(1,2) by simp
qed (simp add: overriding_def)

lemma add_overrides_none: "m key = None \<Longrightarrow> fold add_override os m key = None"
proof (induction os arbitrary: m)
  case (Cons o' os)
  then have "add_override o' m key = None" by (auto simp: add_override_def split: option.splits)
  from Cons.IH [of "add_override o' m", OF this] show ?case by simp
qed simp

definition snapshot_answer :: "snapshot \<Rightarrow> string \<Rightarrow> Subject \<Rightarrow> bool" where
  "snapshot_answer sn key subj = (case sn_flags sn key of None \<Rightarrow> False | Some r \<Rightarrow> evaluate r subj)"

lemma snapshot_resolves:
  assumes "distinct (map fl_Key flags)" and "overrides_ok os"
  shows "snapshot_answer (buildSnapshot now flags os) key subj = flag_resolution flags os key subj"
proof (cases "find (\<lambda>f. fl_Key f = key) flags")
  case None
  then have "fold add_flag flags Map.empty key = None" using add_flags_at [OF assms(1), of Map.empty key] by simp
  from add_overrides_none [of "fold add_flag flags Map.empty", OF this] None show ?thesis by (simp add: snapshot_answer_def buildSnapshot_def flag_resolution_def)
next
  case (Some f)
  let ?r = "\<lparr>rs_def = fl_DefaultEnabled f, rs_overrides = Map.empty\<rparr>"
  let ?m = "fold add_flag flags Map.empty"
  have m: "?m key = Some ?r" using add_flags_at [OF assms(1), of Map.empty key] Some by simp
  have "valid_scope ScopeGlobal []" by (simp add: valid_scope_def validScopes_def)
  from add_overrides_at [where m = ?m, OF assms(2) this m] obtain r where r: "fold add_override os ?m key = Some r" "rs_def r = fl_DefaultEnabled f" by auto
  have at: "rs_overrides r (scopeKey sc i) = overriding os key sc i" if "valid_scope sc i" for sc i
    using add_overrides_at [where m = ?m, OF assms(2) that m] r(1) by (auto split: option.splits)
  have "valid_scope ScopeUser i" "valid_scope ScopeTenant i" "valid_scope ScopePlan i" if "i \<noteq> []" for i
    using that by (simp_all add: valid_scope_def validScopes_def)
  then have "evaluate r subj = (case List.map_filter (\<lambda>(sc, i). overriding os key sc i) (ladder subj) of v # _ \<Rightarrow> v | [] \<Rightarrow> fl_DefaultEnabled f)"
    using at [OF \<open>valid_scope ScopeGlobal []\<close>] at r(2) unfolding evaluate_def ladder_def
    by (auto simp: List.map_filter_def split: option.splits)
  then show ?thesis using r(1) Some by (simp add: snapshot_answer_def buildSnapshot_def flag_resolution_def)
qed

lemma find_same:
  assumes "distinct (map g xs)" and "distinct (map g ys)" and "set xs = set ys"
  shows "find (\<lambda>x. g x = k) xs = find (\<lambda>x. g x = k) ys"
proof (cases "find (\<lambda>x. g x = k) xs")
  case None
  with assms(3) have "find (\<lambda>x. g x = k) ys = None" by (simp only: find_none_key simp_thms)
  with None show ?thesis by simp
next
  case (Some x)
  then have x: "x \<in> set ys" "g x = k" using find_SomeD [OF Some] assms(3) by auto
  then have "find (\<lambda>x. g x = k) ys \<noteq> None" unfolding find_none_key by blast
  then obtain y where y: "find (\<lambda>x. g x = k) ys = Some y" by blast
  with find_SomeD [OF y] x distinct_map_eq [OF assms(2), of y x] Some show ?thesis by simp
qed

lemma listFlags_ok: "flag_tables_ok d \<Longrightarrow> distinct (map fl_Key (listFlags d))"
  by (simp add: flag_tables_ok_def listFlags_def distinct_map)

lemma listOverrides_ok: "flag_tables_ok d \<Longrightarrow> overrides_ok (listOverrides d)"
  by (simp add: flag_tables_ok_def overrides_ok_def listOverrides_def distinct_map)

lemma overriding_sorted: "flag_tables_ok d \<Longrightarrow> overriding (listOverrides d) = overriding (override_rows d)"
  unfolding overriding_def override_at_fun
  by (intro ext arg_cong [of _ _ "map_option ov_Enabled"] find_same)
    (simp_all add: flag_tables_ok_def overrides_ok_def listOverrides_def distinct_map)

lemma find_flag_sorted: "flag_tables_ok d \<Longrightarrow> find (\<lambda>f. fl_Key f = k) (listFlags d) = find (\<lambda>f. fl_Key f = k) (flag_rows d)"
  by (intro find_same) (simp_all add: flag_tables_ok_def listFlags_def distinct_map)

text \<open>Resolution on the rows that two states of the tables hold.\<close>

abbreviation resolution_of :: "flag_db \<Rightarrow> flag_db \<Rightarrow> string \<Rightarrow> Subject \<Rightarrow> bool" where
  "resolution_of d1 d2 \<equiv> flag_resolution (flag_rows d1) (override_rows d2)"

lemma loaded_snapshot_resolves:
  assumes "flag_tables_ok d1" and "flag_tables_ok d2"
  shows "snapshot_answer (buildSnapshot now (listFlags d1) (listOverrides d2)) key subj = resolution_of d1 d2 key subj"
  using snapshot_resolves [OF listFlags_ok [OF assms(1)] listOverrides_ok [OF assms(2)]]
  unfolding flag_resolution_def find_flag_sorted [OF assms(1)] overriding_sorted [OF assms(2)] .

lemma EvaluateSubject_answer:
  "snd (EvaluateSubject load now loaded s key subj) =
     (case snd (getSnapshot load now loaded s) of Inl _ \<Rightarrow> False | Inr sn \<Rightarrow> snapshot_answer sn key subj)"
  by (auto simp: EvaluateSubject_def snapshot_answer_def split: prod.splits sum.splits)

text \<open>
  A flag that is looked up without a fresh snapshot resolves to its most specific matching override (user, then
  tenant, then plan, then everyone), to its default when there is none, and to off when it is not registered.\<close>

theorem flags_resolve_by_precedence:
  assumes "flag_tables_ok d1" and "flag_tables_ok d2" and "sv_snap s = None"
  shows "snd (EvaluateSubject (loadAll None (Some d1) (Some d2)) now loaded s key subj) = resolution_of d1 d2 key subj"
  using assms(3) loaded_snapshot_resolves [OF assms(1,2)] unfolding EvaluateSubject_answer
  by (simp add: getSnapshot_def refresh_def loadAll_def Let_def)

subsection \<open>Effect of a write\<close>

definition op_effect :: "string \<Rightarrow> string \<Rightarrow> overrideOp \<Rightarrow> bool option \<Rightarrow> bool option" where
  "op_effect sc i op v = (if op_Scope op = sc \<and> op_ScopeID op = i then (if op_Delete op then None else Some (op_Enabled op)) else v)"

lemma apply_ops_effect:
  assumes "apply_ops faults ids now key n ops (Some d) = (db', None)" and "flag_tables_ok d"
  shows "\<exists>d'. db' = Some d' \<and> flag_tables_ok d' \<and> flag_rows d' = flag_rows d
    \<and> (\<forall>k sc i. overriding (override_rows d') k sc i = (if k = key then fold (op_effect sc i) ops (overriding (override_rows d) k sc i) else overriding (override_rows d) k sc i))"
  using assms
proof (induction ops arbitrary: n d)
  case Nil
  then show ?case by auto
next
  case (Cons op ops)
  obtain d1 where d1: "flag_tables_ok d1" "flag_rows d1 = flag_rows d" "apply_ops faults ids now key (Suc n) ops (Some d1) = (db', None)"
    "\<And>k sc i. overriding (override_rows d1) k sc i = (if k = key then op_effect sc i op (overriding (override_rows d) k sc i) else overriding (override_rows d) k sc i)"
  proof (cases "op_Delete op")
    case True
    then obtain db1 where step: "DeleteOverride (faults n) (Some d) key (op_Scope op) (op_ScopeID op) = (db1, None)"
      and rest: "apply_ops faults ids now key (Suc n) ops db1 = (db', None)"
      using Cons.prems(1) by (auto split: prod.splits option.splits)
    from delete_override_effect [OF step Cons.prems(2)] obtain d' where d': "db1 = Some d'" "flag_tables_ok d'" "flag_rows d' = flag_rows d"
      "\<And>k sc i. overriding (override_rows d') k sc i = (if (k, sc, i) = (key, op_Scope op, op_ScopeID op) then None else overriding (override_rows d) k sc i)" by blast
    show thesis by (rule that [OF d'(2,3) rest [unfolded d'(1)]]) (auto simp: d'(4) op_effect_def True)
  next
    case False
    then obtain db1 row where step: "SetOverride (faults n) (ids n) now (Some d) (op_override key op) = (db1, Inr row)"
      and rest: "apply_ops faults ids now key (Suc n) ops db1 = (db', None)"
      using Cons.prems(1) by (auto split: prod.splits sum.splits)
    from set_override_effect [OF step Cons.prems(2)] obtain d' where d': "db1 = Some d'" "flag_tables_ok d'" "flag_rows d' = flag_rows d"
      "\<And>k sc i. overriding (override_rows d') k sc i = (if (k, sc, i) = override_key (op_override key op) then Some (ov_Enabled (op_override key op)) else overriding (override_rows d) k sc i)"
      by blast
    show thesis by (rule that [OF d'(2,3) rest [unfolded d'(1)]]) (auto simp: d'(4) op_effect_def False override_key_def op_override_def)
  qed
  from Cons.IH [OF d1(3,1)] d1(2,4) show ?case by auto
qed

lemma apply_ops_tables:
  assumes "flag_tables_ok d"
  shows "\<exists>d'. fst (apply_ops faults ids now key n ops (Some d)) = Some d' \<and> flag_tables_ok d'"
  using assms
proof (induction ops arbitrary: n d)
  case (Cons op ops)
  show ?case
  proof (cases "op_Delete op")
    case True
    show ?thesis
    proof (cases "snd (DeleteOverride (faults n) (Some d) key (op_Scope op) (op_ScopeID op))")
      case None
      with delete_override_effect [OF _ Cons.prems, of "faults n" key "op_Scope op" "op_ScopeID op"]
      obtain d' where "DeleteOverride (faults n) (Some d) key (op_Scope op) (op_ScopeID op) = (Some d', None)" "flag_tables_ok d'"
        by (metis prod.collapse)
      with True Cons.IH show ?thesis by simp
    next
      case (Some e)
      then show ?thesis using True Cons.prems by (auto simp: DeleteOverride_def split: option.splits)
    qed
  next
    case False
    show ?thesis
    proof (cases "snd (SetOverride (faults n) (ids n) now (Some d) (op_override key op))")
      case (Inr row)
      with set_override_effect [OF _ Cons.prems, of "faults n" "ids n" now "op_override key op"]
      obtain d' where "SetOverride (faults n) (ids n) now (Some d) (op_override key op) = (Some d', Inr row)" "flag_tables_ok d'"
        by (metis prod.collapse)
      with False Cons.IH show ?thesis by simp
    next
      case (Inl e)
      then have "SetOverride (faults n) (ids n) now (Some d) (op_override key op) = (Some d, Inl e)"
        by (auto simp: SetOverride_def Let_def split: option.splits if_splits)
      with False Cons.prems show ?thesis by simp
    qed
  qed
qed simp

lemma upsert_keeps:
  assumes "flag_tables_ok d"
  shows "\<exists>d'. fst (UpsertFlag fault now (Some d) f) = Some d' \<and> flag_tables_ok d'"
proof (cases "snd (UpsertFlag fault now (Some d) f)")
  case (Inl e)
  then have "fst (UpsertFlag fault now (Some d) f) = Some d" by (auto simp: UpsertFlag_def Let_def split: option.splits if_splits)
  with assms show ?thesis by simp
next
  case (Inr row)
  obtain db' where "UpsertFlag fault now (Some d) f = (db', Inr row)" using Inr by (metis prod.collapse)
  from upsert_effect [OF this assms] this show ?thesis by (metis fst_conv)
qed

lemma delete_keeps:
  assumes "flag_tables_ok d"
  shows "\<exists>d'. fst (DeleteFlag fault (Some d) key) = Some d' \<and> flag_tables_ok d'"
proof (cases fault)
  case None
  then obtain db' where "DeleteFlag fault (Some d) key = (db', None)" by (auto simp: DeleteFlag_def)
  from delete_flag_effect [OF this assms] this show ?thesis by (metis fst_conv)
qed (use assms in \<open>simp add: DeleteFlag_def\<close>)

lemma put_tables:
  assumes "flag_tables_ok d"
  shows "\<exists>d'. fst (fst (flags_put po userID body (Some d) h)) = Some d' \<and> flag_tables_ok d'"
proof (cases body)
  case (Inr r)
  let ?f = "\<lparr>fl_Key = pr_Key r, fl_Description = pr_Description r, fl_DefaultEnabled = pr_DefaultEnabled r, fl_CreatedAt = 0, fl_UpdatedAt = 0\<rparr> :: Flag"
  obtain d1 where d1: "fst (UpsertFlag (po_first po) (po_dbnow po) (Some d) ?f) = Some d1" "flag_tables_ok d1" using upsert_keeps [OF assms] by blast
  obtain d2 where d2: "fst (DeleteFlag (po_first po) (Some d) (pr_Key r)) = Some d2" "flag_tables_ok d2" using delete_keeps [OF assms] by blast
  obtain d3 where d3: "fst (apply_ops (po_ops po) (po_ids po) (po_dbnow po) (pr_Key r) 0 (pr_Overrides r) (Some d1)) = Some d3" "flag_tables_ok d3"
    using apply_ops_tables [OF d1(2)] by blast
  show ?thesis using Inr assms d1 d2 d3 by (auto simp: flags_put_def split: option.splits sum.splits prod.splits)
qed (use assms in \<open>auto simp: flags_put_def\<close>)

text \<open>
  The flag tables satisfy their constraints after any sequence of writes: flag keys are unique, not empty and at most
  128 long, overrides belong to a flag, have a valid scope with an id exactly when it is not global, and are unique per
  flag, scope and id.\<close>

theorem flag_tables_well_formed:
  "\<exists>d. fst (fold (\<lambda>(po, userID, body) (db, h). fst (flags_put po userID body db h)) puts
        (Some \<lparr>flag_rows = [], override_rows = [], tenant_plans = ps\<rparr>, h0)) = Some d \<and> flag_tables_ok d"
proof -
  let ?put = "\<lambda>(po, userID, body) (db, h). fst (flags_put po userID body db h)"
  have "\<exists>d'. fst (fold ?put puts (Some d, h)) = Some d' \<and> flag_tables_ok d'" if "flag_tables_ok d" for d h
    using that
  proof (induction puts arbitrary: d h)
    case (Cons x puts)
    obtain po userID body where x: "x = (po, userID, body)" by (cases x)
    obtain d1 h1 where "fst (flags_put po userID body (Some d) h) = (Some d1, h1)" "flag_tables_ok d1"
      using put_tables [OF Cons.prems, of po userID body h] by (metis prod.collapse)
    with Cons.IH x show ?case by simp
  qed simp
  then show ?thesis by (simp add: flag_tables_ok_def overrides_ok_def)
qed

text \<open>
  A write that is answered with success sets exactly the description and the default of its flag and applies its override
  mutations in order; other flags and their overrides stay as they were, and the resolver forgets its snapshot.\<close>

theorem flag_put_effect:
  assumes "flag_tables_ok d" and "flags_put po userID (Inr r) (Some d) h = ((db', h'), resp)" and "\<not> pr_Delete r" and "\<forall>c e. resp \<noteq> RespErr c e"
  shows "\<exists>d'. db' = Some d' \<and> flag_value d' = (flag_value d)(pr_Key r \<mapsto> (pr_Description r, pr_DefaultEnabled r))
    \<and> (\<forall>k sc i. overriding (override_rows d') k sc i =
          (if k = pr_Key r then fold (op_effect sc i) (pr_Overrides r) (overriding (override_rows d) k sc i) else overriding (override_rows d) k sc i))
    \<and> (\<forall>sv. fh_svc h' = Some sv \<longrightarrow> sv_snap sv = None)"
proof -
  let ?f = "\<lparr>fl_Key = pr_Key r, fl_Description = pr_Description r, fl_DefaultEnabled = pr_DefaultEnabled r, fl_CreatedAt = 0, fl_UpdatedAt = 0\<rparr> :: Flag"
  obtain db1 row where up: "UpsertFlag (po_first po) (po_dbnow po) (Some d) ?f = (db1, Inr row)"
    and ops: "apply_ops (po_ops po) (po_ids po) (po_dbnow po) (pr_Key r) 0 (pr_Overrides r) db1 = (db', None)"
    and h': "h' = handlers_invalidate (h\<lparr>fh_reconciles := fh_reconciles h + 1\<rparr>) \<or> (\<exists>views. h' = handlers_invalidate (cacheViews views (po_readStart po) (po_now po) h))"
    using assms(2-4) by (auto simp: flags_put_def writeStoreErr_def split: if_splits option.splits sum.splits prod.splits)
  from upsert_effect [OF up assms(1)] obtain d1 where d1: "db1 = Some d1" "flag_tables_ok d1" "override_rows d1 = override_rows d"
    "flag_value d1 = (flag_value d)(pr_Key r \<mapsto> (pr_Description r, pr_DefaultEnabled r))" by auto
  from apply_ops_effect [OF ops [unfolded d1(1)] d1(2)] obtain d2 where d2: "db' = Some d2" "flag_rows d2 = flag_rows d1"
    "\<forall>k sc i. overriding (override_rows d2) k sc i = (if k = pr_Key r then fold (op_effect sc i) (pr_Overrides r) (overriding (override_rows d) k sc i) else overriding (override_rows d) k sc i)"
    unfolding d1(3) by blast
  have "flag_value d2 = flag_value d1" using d2(2) by (simp add: flag_value_def fun_eq_iff)
  moreover have "fh_svc h' = Some sv \<longrightarrow> sv_snap sv = None" for sv using h' by (auto simp: handlers_invalidate_def Invalidate_def)
  ultimately show ?thesis using d2(1,3) d1(4) by simp
qed

subsection \<open>Interleaved runs\<close>

text \<open>
  A read of all flags in progress: when it began, and the instant and the tables of its two statements as far as they are
  executed.
\<close>

record flag_read =
  rd_start :: time
  rd_first :: "(time \<times> flag_db) option"
  rd_second :: "(time \<times> flag_db) option"

text \<open>
  One process and the database: the clock, the tables and when they last changed, the handlers' cache with the resolver,
  the refreshes of the resolver and the reads of the admin view that are in progress, the deletes that are committed but not yet
  answered, and (for the statement of the properties only) the keys whose delete was answered and that were not created again.
\<close>

record flag_run =
  fr_now :: time
  fr_db :: flag_db
  fr_since :: time
  fr_h :: flag_handlers
  fr_loads :: "flag_read list"
  fr_reads :: "flag_read list"
  fr_pending :: "string list"
  fr_gone :: "string set"

text \<open>A statement of any process that changes the tables.\<close>

inductive flag_write :: "flag_db \<Rightarrow> flag_db \<Rightarrow> bool" where
  upsert: "UpsertFlag None now (Some d) f = (Some d', Inr row) \<Longrightarrow> flag_write d d'"
| delete: "DeleteFlag None (Some d) key = (Some d', None) \<Longrightarrow> flag_write d d'"
| set_override: "SetOverride None nid now (Some d) o' = (Some d', Inr row') \<Longrightarrow> flag_write d d'"
| delete_override: "DeleteOverride None (Some d) key sc i = (Some d', None) \<Longrightarrow> flag_write d d'"

definition written :: "flag_db \<Rightarrow> flag_run \<Rightarrow> flag_run" where
  "written d' s = s\<lparr>fr_db := d', fr_since := fr_now s, fr_gone := fr_gone s - flag_keys d'\<rparr>"

text \<open>Advance of a read by its first or its second statement.\<close>

inductive read_statement :: "time \<Rightarrow> flag_db \<Rightarrow> flag_read \<Rightarrow> flag_read \<Rightarrow> bool" where
  first: "rd_first r = None \<Longrightarrow> read_statement t d r (r\<lparr>rd_first := Some (t, d)\<rparr>)"
| second: "rd_first r = Some x \<Longrightarrow> rd_second r = None \<Longrightarrow> read_statement t d r (r\<lparr>rd_second := Some (t, d)\<rparr>)"

text \<open>
  Steps at the current instant, and the passing of time: no two steps happen at the same instant. A refresh of the resolver ends
  within \<open>D\<close> of its begin (the store bounds its reads by a deadline).
\<close>

inductive flag_event :: "duration \<Rightarrow> flag_run \<Rightarrow> flag_run \<Rightarrow> bool" for D where
  other_write: "flag_write (fr_db s) d' \<Longrightarrow> flag_event D s (written d' s)"
| delete: "DeleteFlag None (Some (fr_db s)) key = (Some d', None) \<Longrightarrow> flag_event D s ((written d' s)\<lparr>fr_pending := key # fr_pending s\<rparr>)"
| delete_answered: "key \<in> set (fr_pending s) \<Longrightarrow>
    flag_event D s (s\<lparr>fr_h := removeFlagFromCache key (fr_now s) (handlers_invalidate (fr_h s)), fr_pending := remove1 key (fr_pending s),
      fr_gone := (if key \<in> flag_keys (fr_db s) then fr_gone s else insert key (fr_gone s))\<rparr>)"
| invalidate: "flag_event D s (s\<lparr>fr_h := handlers_invalidate (fr_h s)\<rparr>)"
| drop_cache: "flag_event D s (s\<lparr>fr_h := dropCache (fr_now s) (fr_h s)\<rparr>)"
| begin_load: "flag_event D s (s\<lparr>fr_loads := \<lparr>rd_start = fr_now s, rd_first = None, rd_second = None\<rparr> # fr_loads s\<rparr>)"
| load: "fr_loads s = xs @ r # ys \<Longrightarrow> read_statement (fr_now s) (fr_db s) r r' \<Longrightarrow> flag_event D s (s\<lparr>fr_loads := xs @ r' # ys\<rparr>)"
| load_failed: "fr_loads s = xs @ r # ys \<Longrightarrow> flag_event D s (s\<lparr>fr_loads := xs @ ys\<rparr>)"
| loaded: "fr_loads s = xs @ r # ys \<Longrightarrow> rd_first r = Some (t1, d1) \<Longrightarrow> rd_second r = Some (t2, d2) \<Longrightarrow> fr_now s - rd_start r \<le> D \<Longrightarrow>
    flag_event D s (s\<lparr>fr_loads := xs @ ys,
      fr_h := (fr_h s)\<lparr>fh_svc := map_option (\<lambda>sv. fst (refresh (loadAll None (Some d1) (Some d2)) (fr_now s) sv)) (fh_svc (fr_h s))\<rparr>\<rparr>)"
| begin_read: "flag_event D s (s\<lparr>fr_reads := \<lparr>rd_start = fr_now s, rd_first = None, rd_second = None\<rparr> # fr_reads s\<rparr>)"
| read: "fr_reads s = xs @ r # ys \<Longrightarrow> read_statement (fr_now s) (fr_db s) r r' \<Longrightarrow> flag_event D s (s\<lparr>fr_reads := xs @ r' # ys\<rparr>)"
| read_failed: "fr_reads s = xs @ r # ys \<Longrightarrow> flag_event D s (s\<lparr>fr_reads := xs @ ys\<rparr>)"
| reconcile_failed: "fr_reads s = xs @ r # ys \<Longrightarrow> flag_event D s (s\<lparr>fr_reads := xs @ ys, fr_h := dropCache (rd_start r) (fr_h s)\<rparr>)"
| read_done: "fr_reads s = xs @ r # ys \<Longrightarrow> rd_first r = Some (t1, d1) \<Longrightarrow> rd_second r = Some (t2, d2) \<Longrightarrow>
    flag_event D s (s\<lparr>fr_reads := xs @ ys, fr_h := cacheViews (assembleViews (listFlags d1) (listOverrides d2)) (rd_start r) (fr_now s) (fr_h s)\<rparr>)"

inductive flag_step :: "duration \<Rightarrow> flag_run \<Rightarrow> flag_run \<Rightarrow> bool" for D where
  step: "fr_now s < t \<Longrightarrow> flag_event D (s\<lparr>fr_now := t\<rparr>) s' \<Longrightarrow> flag_step D s s'"

abbreviation flag_runs :: "duration \<Rightarrow> flag_run \<Rightarrow> flag_run \<Rightarrow> bool" where
  "flag_runs D \<equiv> (flag_step D)\<^sup>*\<^sup>*"

definition flag_init :: "flag_run \<Rightarrow> bool" where
  "flag_init s \<longleftrightarrow> flag_tables_ok (fr_db s) \<and> fr_since s \<le> fr_now s \<and> fr_loads s = [] \<and> fr_reads s = [] \<and> fr_pending s = [] \<and> fr_gone s = {}
     \<and> fh_lastGood (fr_h s) = None \<and> fh_cachedReadStart (fr_h s) = None \<and> (\<forall>sv. fh_svc (fr_h s) = Some sv \<longrightarrow> sv_snap sv = None)"

lemma write_tables:
  assumes "flag_write d d'" and "flag_tables_ok d"
  shows "flag_tables_ok d'"
  using assms(1)
proof cases
  case upsert
  from upsert_effect [OF upsert assms(2)] show ?thesis by blast
next
  case delete
  from delete_flag_effect [OF delete assms(2)] show ?thesis by blast
next
  case set_override
  from set_override_effect [OF set_override assms(2)] show ?thesis by blast
next
  case delete_override
  from delete_override_effect [OF delete_override assms(2)] show ?thesis by blast
qed

text \<open>What was seen at instant \<open>t\<close> is what the tables hold now unless they changed after \<open>t\<close>.\<close>

definition seen_ok :: "flag_run \<Rightarrow> time \<times> flag_db \<Rightarrow> bool" where
  "seen_ok s x \<longleftrightarrow> fst x \<le> fr_now s \<and> flag_tables_ok (snd x) \<and> (fr_since s \<le> fst x \<longrightarrow> snd x = fr_db s)"

definition read_ok :: "flag_run \<Rightarrow> flag_read \<Rightarrow> bool" where
  "read_ok s r \<longleftrightarrow> rd_start r \<le> fr_now s \<and> (\<forall>x. rd_first r = Some x \<or> rd_second r = Some x \<longrightarrow> rd_start r \<le> fst x \<and> seen_ok s x)"

definition snapshot_ok :: "duration \<Rightarrow> flag_run \<Rightarrow> snapshot \<Rightarrow> bool" where
  "snapshot_ok D s sn \<longleftrightarrow> (\<exists>x1 x2. seen_ok s x1 \<and> seen_ok s x2 \<and> sn_loaded sn - D \<le> fst x1 \<and> sn_loaded sn - D \<le> fst x2
     \<and> sn = buildSnapshot (sn_loaded sn) (listFlags (snd x1)) (listOverrides (snd x2)))"

definition loads_ok :: "duration \<Rightarrow> flag_run \<Rightarrow> bool" where
  "loads_ok D s \<longleftrightarrow> flag_tables_ok (fr_db s) \<and> fr_since s \<le> fr_now s \<and> (\<forall>r \<in> set (fr_loads s). read_ok s r)
     \<and> (\<forall>sv sn. fh_svc (fr_h s) = Some sv \<and> sv_snap sv = Some sn \<longrightarrow> snapshot_ok D s sn)"

lemma seen_later:
  assumes "seen_ok s x" and "fr_now s \<le> fr_now s'" and "fr_db s' = fr_db s \<and> fr_since s' = fr_since s \<or> fr_now s < fr_since s'"
  shows "seen_ok s' x"
  using assms by (auto simp: seen_ok_def)

lemma read_later:
  assumes "read_ok s r" and "fr_now s \<le> fr_now s'" and "fr_db s' = fr_db s \<and> fr_since s' = fr_since s \<or> fr_now s < fr_since s'"
  shows "read_ok s' r"
  using assms(1,2) seen_later [OF _ assms(2,3)] unfolding read_ok_def by (meson order.trans)

lemma snapshot_later:
  assumes "snapshot_ok D s sn" and "fr_now s \<le> fr_now s'" and "fr_db s' = fr_db s \<and> fr_since s' = fr_since s \<or> fr_now s < fr_since s'"
  shows "snapshot_ok D s' sn"
  using assms(1) seen_later [OF _ assms(2,3)] unfolding snapshot_ok_def by blast

text \<open>An event leaves time alone and either leaves the tables alone or changes them now.\<close>

lemma event_frame:
  assumes "flag_event D s s'"
  shows "fr_now s' = fr_now s \<and> (fr_db s' = fr_db s \<and> fr_since s' = fr_since s \<or> flag_write (fr_db s) (fr_db s') \<and> fr_since s' = fr_now s)"
  using assms by cases (auto simp: written_def intro: flag_write.delete)

lemma event_loads:
  assumes "flag_event D s s'" and "r \<in> set (fr_loads s')"
  shows "r \<in> set (fr_loads s) \<or> r = \<lparr>rd_start = fr_now s, rd_first = None, rd_second = None\<rparr>
    \<or> (\<exists>r0 \<in> set (fr_loads s). read_statement (fr_now s) (fr_db s) r0 r \<and> fr_db s' = fr_db s \<and> fr_since s' = fr_since s)"
  using assms by cases (auto simp: written_def)

lemma statement_effect:
  assumes "read_statement t d r0 r"
  shows "rd_start r = rd_start r0" "rd_first r = rd_first r0 \<or> rd_first r = Some (t, d)"
    "\<And>x. rd_first r = Some x \<or> rd_second r = Some x \<Longrightarrow> x = (t, d) \<or> rd_first r0 = Some x \<or> rd_second r0 = Some x"
  using assms by (cases; auto)+

lemma handlers_svc [simp]:
  "fh_svc (removeFlagFromCache k t h) = fh_svc h" "fh_svc (dropCache t h) = fh_svc h" "fh_svc (cacheViews vs t n h) = fh_svc h"
  "fh_svc (handlers_invalidate h) = map_option Invalidate (fh_svc h)" "sv_snap (Invalidate sv) = None"
  by (simp_all add: removeFlagFromCache_def dropCache_def cacheViews_def handlers_invalidate_def Invalidate_def Let_def split: option.splits)

lemma event_snapshot:
  assumes "flag_event D s s'" and "fh_svc (fr_h s') = Some sv" and "sv_snap sv = Some sn"
  shows "(\<exists>sv0. fh_svc (fr_h s) = Some sv0 \<and> sv_snap sv0 = Some sn)
    \<or> (\<exists>r x1 x2. r \<in> set (fr_loads s) \<and> rd_first r = Some x1 \<and> rd_second r = Some x2 \<and> fr_now s - rd_start r \<le> D \<and> fr_db s' = fr_db s \<and> fr_since s' = fr_since s
         \<and> sn = buildSnapshot (fr_now s) (listFlags (snd x1)) (listOverrides (snd x2)))"
  using assms(1)
proof cases
  case (loaded xs r ys t1 d1 t2 d2)
  with assms(2,3) have "sn = buildSnapshot (fr_now s) (listFlags d1) (listOverrides d2)" by (auto simp: refresh_def loadAll_def Let_def)
  with loaded show ?thesis by (intro disjI2 exI [of _ r] exI [of _ "(t1, d1)"] exI [of _ "(t2, d2)"]) simp
qed (use assms(2,3) in \<open>auto simp: written_def\<close>)

lemma loads_step:
  assumes "flag_step D s s'" and "loads_ok D s"
  shows "loads_ok D s'"
  using assms(1)
proof cases
  case (step t)
  let ?s = "s\<lparr>fr_now := t\<rparr>"
  note frame = event_frame [OF step(2)]
  have later: "fr_now s \<le> fr_now s'" "fr_db s' = fr_db s \<and> fr_since s' = fr_since s \<or> fr_now s < fr_since s'" using frame step(1) by auto
  have since: "fr_since s \<le> fr_now s" and ok: "flag_tables_ok (fr_db s)" using assms(2) by (simp_all add: loads_ok_def)
  have "flag_tables_ok (fr_db s')" using frame ok write_tables by auto
  moreover have "fr_since s' \<le> fr_now s'" using frame step(1) since by auto
  moreover have "read_ok s' r" if "r \<in> set (fr_loads s')" for r
    using event_loads [OF step(2) that]
  proof (elim disjE bexE conjE)
    assume "r \<in> set (fr_loads ?s)"
    with assms(2) have "read_ok s r" by (simp add: loads_ok_def)
    then show ?thesis by (rule read_later [OF _ later])
  next
    assume "r = \<lparr>rd_start = fr_now ?s, rd_first = None, rd_second = None\<rparr>"
    then show ?thesis using frame by (simp add: read_ok_def)
  next
    fix r0 assume r0: "r0 \<in> set (fr_loads ?s)" "read_statement (fr_now ?s) (fr_db ?s) r0 r" "fr_db s' = fr_db ?s" "fr_since s' = fr_since ?s"
    then have "read_ok s r0" using assms(2) by (simp add: loads_ok_def)
    then have "read_ok s' r0" by (rule read_later [OF _ later])
    moreover have "seen_ok s' (t, fr_db s)" using frame r0(3) ok by (simp add: seen_ok_def)
    moreover have "rd_start r0 \<le> t" using \<open>read_ok s r0\<close> step(1) by (simp add: read_ok_def)
    ultimately show ?thesis using statement_effect [OF r0(2)] unfolding read_ok_def by auto
  qed
  moreover have "snapshot_ok D s' sn" if "fh_svc (fr_h s') = Some sv" "sv_snap sv = Some sn" for sv sn
    using event_snapshot [OF step(2) that]
  proof (elim disjE exE conjE)
    fix sv0 assume "fh_svc (fr_h ?s) = Some sv0" "sv_snap sv0 = Some sn"
    with assms(2) have "snapshot_ok D s sn" by (auto simp: loads_ok_def)
    then show ?thesis by (rule snapshot_later [OF _ later])
  next
    fix r x1 x2 assume r: "r \<in> set (fr_loads ?s)" "rd_first r = Some x1" "rd_second r = Some x2" "fr_now ?s - rd_start r \<le> D"
      "sn = buildSnapshot (fr_now ?s) (listFlags (snd x1)) (listOverrides (snd x2))"
    then have "read_ok s r" using assms(2) by (simp add: loads_ok_def)
    then have "read_ok s' r" by (rule read_later [OF _ later])
    with r(2,3) have x: "rd_start r \<le> fst x1" "seen_ok s' x1" "rd_start r \<le> fst x2" "seen_ok s' x2" unfolding read_ok_def by blast+
    have "sn_loaded sn = t" using r(5) by (simp add: buildSnapshot_def)
    then show ?thesis using x r(4,5) unfolding snapshot_ok_def by (intro exI conjI) auto
  qed
  ultimately show ?thesis by (simp add: loads_ok_def)
qed

lemma runs_loads_ok:
  assumes "flag_runs D s0 s" and "flag_init s0"
  shows "loads_ok D s"
  using assms(1)
proof (induction rule: rtranclp_induct)
  case base
  from assms(2) show ?case by (auto simp: flag_init_def loads_ok_def)
next
  case (step y z)
  then show ?case by (simp add: loads_step)
qed

text \<open>
  A change of the flag tables reaches every process in bounded time: from a cache period plus the duration of a read
  after the last change on, every lookup gives the resolution on the current tables, whatever refreshes, writes and
  invalidations ran before and in whichever order their statements took place. The one exception is an unreachable
  database: once the snapshot is older than the cache period, every flag is off.\<close>

theorem flag_change_propagates:
  assumes "flag_runs D s0 s" and "flag_init s0" and "fh_svc (fr_h s) = Some sv" and "fr_now s \<le> now" and "fr_since s + sv_ttl sv + D \<le> now"
  shows "snd (EvaluateSubject (loadAll fault (Some (fr_db s)) (Some (fr_db s))) now loaded sv key subj) =
    (if fault \<noteq> None \<and> (\<forall>sn. sv_snap sv = Some sn \<longrightarrow> sn_loaded sn + sv_ttl sv \<le> now) then False else resolution_of (fr_db s) (fr_db s) key subj)"
proof -
  have ok: "loads_ok D s" by (rule runs_loads_ok [OF assms(1,2)])
  then have tables: "flag_tables_ok (fr_db s)" by (simp add: loads_ok_def)
  have fresh: "snapshot_answer sn key subj = resolution_of (fr_db s) (fr_db s) key subj" if sn: "sv_snap sv = Some sn" "now - sn_loaded sn < sv_ttl sv" for sn
  proof -
    from ok assms(3) sn(1) have "snapshot_ok D s sn" by (simp add: loads_ok_def)
    then obtain x1 x2 where x: "seen_ok s x1" "seen_ok s x2" "sn_loaded sn - D \<le> fst x1" "sn_loaded sn - D \<le> fst x2"
      "sn = buildSnapshot (sn_loaded sn) (listFlags (snd x1)) (listOverrides (snd x2))" unfolding snapshot_ok_def by blast
    have "snd x1 = fr_db s" "snd x2 = fr_db s" using x(1-4) sn(2) assms(5) by (auto simp: seen_ok_def)
    then have "sn = buildSnapshot (sn_loaded sn) (listFlags (fr_db s)) (listOverrides (fr_db s))" using x(5) by simp
    then have "snapshot_answer sn key subj = snapshot_answer (buildSnapshot (sn_loaded sn) (listFlags (fr_db s)) (listOverrides (fr_db s))) key subj" by (rule arg_cong)
    with loaded_snapshot_resolves [OF tables tables] show ?thesis by simp
  qed
  show ?thesis
  proof (cases "\<exists>sn. sv_snap sv = Some sn \<and> now - sn_loaded sn < sv_ttl sv")
    case True
    then obtain sn where sn: "sv_snap sv = Some sn" "now - sn_loaded sn < sv_ttl sv" by blast
    then show ?thesis using fresh [OF sn] unfolding EvaluateSubject_answer by (simp add: getSnapshot_def)
  next
    case False
    then have "getSnapshot load now loaded sv = refresh load loaded sv" for load by (auto simp: getSnapshot_def split: option.splits)
    moreover have "\<forall>sn. sv_snap sv = Some sn \<longrightarrow> sn_loaded sn + sv_ttl sv \<le> now" using False by force
    ultimately show ?thesis using loaded_snapshot_resolves [OF tables tables] unfolding EvaluateSubject_answer
      by (cases fault) (simp_all add: refresh_def loadAll_def Let_def)
  qed
qed

subsection \<open>The last-known-good cache\<close>

lemma keys_assembled: "fl_Key ` set (assembleViews (listFlags d) os) = flag_keys d"
  by (force simp: assembleViews_def listFlags_def flag_keys_def view_of_def image_image)

definition gone_ok :: "flag_run \<Rightarrow> bool" where
  "gone_ok s \<longleftrightarrow> (\<forall>r \<in> set (fr_reads s). rd_start r \<le> fr_now s)
     \<and> (\<forall>k \<in> fr_gone s. k \<notin> flag_keys (fr_db s) \<and> (\<forall>vs. fh_lastGood (fr_h s) = Some vs \<longrightarrow> k \<notin> fl_Key ` set vs)
         \<and> (\<forall>r \<in> set (fr_reads s). \<forall>t d. rd_first r = Some (t, d) \<and> k \<in> flag_keys d \<longrightarrow> precedes (rd_start r) (fh_cachedReadStart (fr_h s))))"

lemma precedes_mono: "precedes x b \<Longrightarrow> \<not> precedes t b \<Longrightarrow> precedes x (Some t)"
  by (auto simp: precedes_def split: option.splits)

lemma gone_tick: "gone_ok s \<Longrightarrow> fr_now s < t \<Longrightarrow> gone_ok (s\<lparr>fr_now := t\<rparr>) \<and> (\<forall>r \<in> set (fr_reads s). rd_start r < t)"
  by (auto simp: gone_ok_def)

lemma handlers_frame [simp]:
  "fh_lastGood (handlers_invalidate h) = fh_lastGood h" "fh_cachedReadStart (handlers_invalidate h) = fh_cachedReadStart h"
  by (simp_all add: handlers_invalidate_def)

lemma gone_event:
  assumes "flag_event D s s'" and "gone_ok s" and "\<forall>r \<in> set (fr_reads s). rd_start r < fr_now s"
  shows "gone_ok s'"
  using assms(1)
proof cases
  case (delete_answered key)
  have f: "fh_cachedReadStart (fr_h s') = Some (fr_now s)" "fr_reads s' = fr_reads s" "fr_db s' = fr_db s" "fr_now s' = fr_now s"
    using delete_answered by (simp_all add: removeFlagFromCache_def Let_def split: option.splits)
  have cached: "fh_lastGood (fr_h s') = map_option (filter (\<lambda>v. fl_Key v \<noteq> key)) (fh_lastGood (fr_h s))"
    using delete_answered by (simp add: removeFlagFromCache_def Let_def split: option.splits)
  have k: "k = key \<and> key \<notin> flag_keys (fr_db s) \<or> k \<in> fr_gone s" if "k \<in> fr_gone s'" for k using that delete_answered by (auto split: if_splits)
  have "precedes (rd_start r) (fh_cachedReadStart (fr_h s'))" if "r \<in> set (fr_reads s)" for r using assms(3) that by (simp add: f(1) precedes_def)
  moreover have "k \<notin> flag_keys (fr_db s') \<and> (\<forall>vs. fh_lastGood (fr_h s') = Some vs \<longrightarrow> k \<notin> fl_Key ` set vs)" if "k \<in> fr_gone s'" for k
    using k [OF that] assms(2) unfolding f cached gone_ok_def by auto
  ultimately show ?thesis using assms(2) unfolding gone_ok_def f by simp
next
  case drop_cache
  have "\<forall>r \<in> set (fr_reads s). precedes (rd_start r) (Some (fr_now s))" using assms(3) by (simp add: precedes_def)
  with drop_cache assms(2) show ?thesis unfolding gone_ok_def by (auto simp: dropCache_def)
next
  case (reconcile_failed xs r ys)
  show ?thesis
  proof (cases "precedes (rd_start r) (fh_cachedReadStart (fr_h s))")
    case True
    with reconcile_failed assms(2) show ?thesis unfolding gone_ok_def by (auto simp: dropCache_def)
  next
    case False
    then have "s' = s\<lparr>fr_reads := xs @ ys, fr_h := (fr_h s)\<lparr>fh_lastGood := None, fh_cachedAt := 0, fh_cachedReadStart := Some (rd_start r)\<rparr>\<rparr>"
      using reconcile_failed by (simp add: dropCache_def)
    then show ?thesis using assms(2) reconcile_failed(2) precedes_mono [OF _ False] unfolding gone_ok_def by simp
  qed
next
  case (read_done xs r ys t1 d1 t2 d2)
  show ?thesis
  proof (cases "precedes (rd_start r) (fh_cachedReadStart (fr_h s))")
    case True
    with read_done assms(2) show ?thesis unfolding gone_ok_def by (auto simp: cacheViews_def)
  next
    case False
    have "k \<notin> flag_keys d1" if "k \<in> fr_gone s" for k using assms(2) that read_done False unfolding gone_ok_def by auto
    moreover have "s' = s\<lparr>fr_reads := xs @ ys, fr_h := (fr_h s)\<lparr>fh_lastGood := Some (assembleViews (listFlags d1) (listOverrides d2)), fh_cachedAt := fr_now s,
        fh_cachedReadStart := Some (rd_start r)\<rparr>\<rparr>" using read_done False by (simp add: cacheViews_def)
    ultimately show ?thesis using assms(2) read_done(2) precedes_mono [OF _ False] unfolding gone_ok_def by (simp add: keys_assembled)
  qed
next
  case (read xs r ys r')
  with statement_effect(1,2) [OF read(3)] assms(2) show ?thesis unfolding gone_ok_def by auto
next
  case (other_write d')
  with assms(2) show ?thesis unfolding gone_ok_def by (auto simp: written_def)
next
  case (delete key d')
  with assms(2) show ?thesis unfolding gone_ok_def by (auto simp: written_def)
qed (use assms(2) in \<open>auto simp: gone_ok_def\<close>)

text \<open>
  A deleted flag does not come back: after a delete was answered, and until the flag is created again, no read of the
  admin view that is served from the last-known-good cache shows it, however reads, reconciliations and other writes
  overlapped with the delete.\<close>

theorem deleted_flag_stays_hidden:
  assumes "flag_runs D s0 s" and "flag_init s0" and "k \<in> fr_gone s" and "flags_list (Inl e) readStart now (fr_h s) = (h', RespViews age vs)"
  shows "k \<notin> fl_Key ` set vs"
proof -
  have "gone_ok s" using assms(1)
  proof (induction rule: rtranclp_induct)
    case base
    with assms(2) show ?case by (simp add: flag_init_def gone_ok_def)
  next
    case (step y z)
    from step(2) obtain t where t: "fr_now y < t" "flag_event D (y\<lparr>fr_now := t\<rparr>) z" by cases
    with gone_tick [OF step(3) t(1)] gone_event [OF t(2)] show ?case by simp
  qed
  moreover have "fh_lastGood (fr_h s) = Some vs"
    using assms(4) by (auto simp: flags_list_def loadViews_def cachedViews_def writeStoreErr_def split: if_splits option.splits)
  ultimately show ?thesis using assms(3) by (auto simp: gone_ok_def)
qed

text \<open>
  A write that was answered with success can stay hidden: when another flag is deleted between the start of the write's
  reload and its end, the views of the reload are turned away, and the cache goes on serving the views from before the write.
\<close>

lemma overtaken_write_stays_hidden:
  assumes "fh_lastGood h = Some old" and "r < t" and "isStoreUnavailable e" and "fh_maxStaleAge h \<le> 0"
  shows "\<exists>age. snd (flags_list (Inl e) rs now (cacheViews new r t' (removeFlagFromCache j t h))) = RespViews (Some age) (filter (\<lambda>v. fl_Key v \<noteq> j) old)"
  using assms by (simp add: removeFlagFromCache_def cacheViews_def precedes_def flags_list_def loadViews_def cachedViews_def withinStaleBound_def Let_def)

subsection \<open>Examples\<close>

definition ex_flag :: Flag where
  "ex_flag = \<lparr>fl_Key = ''new_ui'', fl_Description = [], fl_DefaultEnabled = False, fl_CreatedAt = 0, fl_UpdatedAt = 0\<rparr>"

definition ex_override :: "string \<Rightarrow> string \<Rightarrow> bool \<Rightarrow> Override" where
  "ex_override sc i v = \<lparr>ov_ID = i, ov_FlagKey = ''new_ui'', ov_Scope = sc, ov_ScopeID = i, ov_Enabled = v, ov_CreatedAt = 0, ov_UpdatedAt = 0\<rparr>"

definition ex_flag_db :: flag_db where
  "ex_flag_db = \<lparr>flag_rows = [ex_flag], override_rows = [ex_override ScopeTenant ''t1'' True, ex_override ScopeUser ''u1'' False], tenant_plans = []\<rparr>"

definition ex_subject :: "string \<Rightarrow> Subject" where
  "ex_subject u = \<lparr>subj_TenantID = ''t1'', subj_UserID = u, subj_Plan = []\<rparr>"

definition ex_handlers :: flag_handlers where
  "ex_handlers = \<lparr>fh_svc = Some flag_newService, fh_lastGood = None, fh_cachedAt = 0, fh_cachedReadStart = None, fh_reconciles = 0, fh_maxStaleAge = 0\<rparr>"

lemma ex_flag_db_ok: "flag_tables_ok ex_flag_db"
  by (simp add: flag_tables_ok_def overrides_ok_def ex_flag_db_def ex_flag_def ex_override_def override_key_def valid_scope_def validScopes_def)

lemma ex_resolution: "resolution_of ex_flag_db ex_flag_db ''new_ui'' (ex_subject ''u1'') = False"
  "resolution_of ex_flag_db ex_flag_db ''new_ui'' (ex_subject ''u2'') = True"
  by code_simp+

theorem flags_resolve_by_precedence_witness:
  "snd (EvaluateSubject (loadAll None (Some ex_flag_db) (Some ex_flag_db)) 5 6 flag_newService ''new_ui'' (ex_subject ''u2'')) = True"
  using flags_resolve_by_precedence [OF ex_flag_db_ok ex_flag_db_ok, of flag_newService 5 6 "''new_ui''" "ex_subject ''u2''"]
  by (simp add: ex_resolution flag_newService_def)

definition ex_put :: putRequest where
  "ex_put = \<lparr>pr_Key = ''new_ui'', pr_Description = ''on'', pr_DefaultEnabled = True, pr_Delete = False,
     pr_Overrides = [\<lparr>op_Scope = ScopeUser, op_ScopeID = ''u1'', op_Enabled = False, op_Delete = True\<rparr>]\<rparr>"

definition ex_po :: put_outcome where
  "ex_po = \<lparr>po_dbnow = 7, po_first = None, po_ops = (\<lambda>_. None), po_ids = (\<lambda>_. []), po_load = Some [DeadlineExceeded], po_readStart = 8, po_now = 9\<rparr>"

theorem flag_put_effect_witness:
  "\<exists>d' h'. flags_put ex_po ''admin'' (Inr ex_put) (Some ex_flag_db) ex_handlers = ((Some d', h'), RespKey ''new_ui'')
    \<and> flag_value d' ''new_ui'' = Some (''on'', True) \<and> overriding (override_rows d') ''new_ui'' ScopeUser ''u1'' = None"
proof -
  obtain d' h' where p: "flags_put ex_po ''admin'' (Inr ex_put) (Some ex_flag_db) ex_handlers = ((Some d', h'), RespKey ''new_ui'')"
    by (simp add: flags_put_def ex_put_def ex_po_def validScopes_def UpsertFlag_def ex_flag_db_def ex_flag_def Let_def DeleteOverride_def loadAll_def loadViews_def)
  have "\<not> pr_Delete ex_put" by (simp add: ex_put_def)
  from flag_put_effect [OF ex_flag_db_ok p this] p show ?thesis by (auto simp: ex_put_def op_effect_def)
qed

definition ex_run0 :: flag_run where
  "ex_run0 = \<lparr>fr_now = 1, fr_db = ex_flag_db, fr_since = 1, fr_h = ex_handlers, fr_loads = [], fr_reads = [], fr_pending = [], fr_gone = {}\<rparr>"

lemma ex_run0_init: "flag_init ex_run0"
  by (simp add: flag_init_def ex_run0_def ex_flag_db_ok ex_handlers_def flag_newService_def)

theorem flag_change_propagates_witness:
  "snd (EvaluateSubject (loadAll None (Some ex_flag_db) (Some ex_flag_db)) 40000000000 40000000001 flag_newService ''new_ui'' (ex_subject ''u1'')) = False"
  using flag_change_propagates [of "5 * nanos_per_s" ex_run0 ex_run0 flag_newService 40000000000 None 40000000001 "''new_ui''" "ex_subject ''u1''", OF _ ex_run0_init]
  by (simp add: ex_run0_def ex_handlers_def flag_newService_def ex_resolution)

lemma step_eq: "fr_now s < t \<Longrightarrow> flag_event D (s\<lparr>fr_now := t\<rparr>) s'' \<Longrightarrow> s'' = s' \<Longrightarrow> flag_step D s s'"
  using flag_step.step by blast

definition ex_reading :: "time \<Rightarrow> (time \<times> flag_db) option \<Rightarrow> (time \<times> flag_db) option \<Rightarrow> flag_run" where
  "ex_reading t x1 x2 = ex_run0\<lparr>fr_now := t, fr_reads := [\<lparr>rd_start = 2, rd_first = x1, rd_second = x2\<rparr>]\<rparr>"

definition ex_cached :: flag_handlers where
  "ex_cached = cacheViews (assembleViews (listFlags ex_flag_db) (listOverrides ex_flag_db)) 2 5 ex_handlers"

definition ex_deleted :: flag_run where
  "ex_deleted = ex_run0\<lparr>fr_now := 7, fr_db := ex_flag_db\<lparr>flag_rows := [], override_rows := []\<rparr>, fr_since := 6,
     fr_h := removeFlagFromCache ''new_ui'' 7 (handlers_invalidate ex_cached), fr_gone := {''new_ui''}\<rparr>"

lemma ex_flag_run: "flag_runs D ex_run0 ex_deleted"
proof -
  let ?d = "ex_flag_db\<lparr>flag_rows := [], override_rows := []\<rparr>"
  let ?s5 = "ex_run0\<lparr>fr_now := 5, fr_h := ex_cached\<rparr>"
  let ?s6 = "ex_run0\<lparr>fr_now := 6, fr_db := ?d, fr_since := 6, fr_h := ex_cached, fr_pending := [''new_ui'']\<rparr>"
  let ?x = "\<lambda>t. Some (t :: time, ex_flag_db)"
  have "flag_step D ex_run0 (ex_reading 2 None None)" by (rule step_eq [OF _ flag_event.begin_read, of _ 2]) (simp_all add: ex_run0_def ex_reading_def)
  moreover have "flag_step D (ex_reading 2 None None) (ex_reading 3 (?x 3) None)"
    by (rule step_eq [OF _ flag_event.read [of _ "[]" "\<lparr>rd_start = 2, rd_first = None, rd_second = None\<rparr>" "[]", OF _ read_statement.first], of _ 3]) (simp_all add: ex_run0_def ex_reading_def)
  moreover have "flag_step D (ex_reading 3 (?x 3) None) (ex_reading 4 (?x 3) (?x 4))"
    by (rule step_eq [OF _ flag_event.read [of _ "[]" "\<lparr>rd_start = 2, rd_first = ?x 3, rd_second = None\<rparr>" "[]", OF _ read_statement.second], of _ 4]) (simp_all add: ex_run0_def ex_reading_def)
  moreover have "flag_step D (ex_reading 4 (?x 3) (?x 4)) ?s5"
    by (rule step_eq [OF _ flag_event.read_done [of _ "[]" "\<lparr>rd_start = 2, rd_first = ?x 3, rd_second = ?x 4\<rparr>" "[]"], of _ 5]) (simp_all add: ex_run0_def ex_reading_def ex_cached_def)
  moreover have "flag_step D ?s5 ?s6"
    by (rule step_eq [OF _ flag_event.delete [of _ "''new_ui''" ?d], of _ 6])
      (simp_all add: ex_run0_def ex_flag_db_def ex_flag_def ex_override_def DeleteFlag_def written_def)
  moreover have "flag_step D ?s6 ex_deleted"
    by (rule step_eq [OF _ flag_event.delete_answered [of "''new_ui''"], of _ 7]) (simp_all add: ex_run0_def ex_deleted_def flag_keys_def)
  ultimately show ?thesis by (meson converse_rtranclp_into_rtranclp rtranclp.rtrancl_refl)
qed

theorem deleted_flag_stays_hidden_witness:
  "\<exists>h' vs. flags_list (Inl [DeadlineExceeded]) 8 8 (fr_h ex_deleted) = (h', RespViews (Some 0) vs) \<and> ''new_ui'' \<notin> fl_Key ` set vs"
proof -
  obtain h' vs where l: "flags_list (Inl [DeadlineExceeded]) 8 8 (fr_h ex_deleted) = (h', RespViews (Some 0) vs)"
    by (simp add: flags_list_def loadViews_def isStoreUnavailable_def cachedViews_def ex_deleted_def ex_cached_def removeFlagFromCache_def handlers_invalidate_def
        cacheViews_def precedes_def ex_handlers_def withinStaleBound_def Let_def quot_def)
  have "''new_ui'' \<in> fr_gone ex_deleted" by (simp add: ex_deleted_def)
  from deleted_flag_stays_hidden [OF ex_flag_run ex_run0_init this l] l show ?thesis by blast
qed

end
