(* ===== verification/Billing.thy ===== *)
theory Billing
  imports Calendar
begin

text \<open>
  The tables of the control plane (\<^verbatim>\<open>migrations/001_baseline.sql\<close>, \<^verbatim>\<open>005_storage_events.sql\<close>) and the quota service
  over them (\<^verbatim>\<open>internal/billing/billing.go\<close>).

  Every operation takes the tables and returns them; what goes wrong outside the program is an argument, \<open>fault\<close> for one
  transaction and \<open>faults\<close> for the transactions of an operation in their order: a refused connection, a cancelled
  context, a text that is no uuid. The constraints of the tables are written out with the statements. Ids are in their
  canonical text form. The columns \<^verbatim>\<open>created_at\<close> and \<^verbatim>\<open>updated_at\<close> are left out; rows are kept in the order of their
  creation. A service without a pool has \<open>cfg_Pool\<close> false.
\<close>

subsection \<open>Tables\<close>

record Tenant =
  tn_ID :: string
  tn_Name :: string
  tn_Slug :: string
  tn_Plan :: string
  tn_Status :: string

record User =
  us_ID :: string
  us_TenantID :: string
  us_KChatUserID :: string
  us_StalwartAccountID :: string
  us_Email :: string
  us_DisplayName :: string
  us_Role :: string
  us_Status :: string
  us_AccountType :: string
  us_QuotaBytes :: int

record Domain =
  dm_ID :: string
  dm_TenantID :: string
  dm_Domain :: string
  dm_Verified :: bool
  dm_MXVerified :: bool
  dm_SPFVerified :: bool
  dm_DKIMVerified :: bool
  dm_DMARCVerified :: bool

record SharedInbox =
  si_ID :: string
  si_TenantID :: string
  si_Address :: string
  si_DisplayName :: string
  si_MLSGroupID :: string

record SharedInboxMember =
  sm_TenantID :: string
  sm_SharedInboxID :: string
  sm_UserID :: string
  sm_Role :: string

record Quota =
  q_StorageUsedBytes :: int
  q_StorageLimitBytes :: int
  q_SeatCount :: int
  q_SeatLimit :: int

text \<open>\<open>be_metadata\<close> is the JSON object of the row, a number in decimal.\<close>

record billing_event =
  be_tenant :: string
  be_type :: string
  be_seat_count :: "int option"
  be_storage_delta :: "int option"
  be_amount_cents :: "int option"
  be_metadata :: "(string \<times> string) list"

record Subscription =
  sub_Plan :: string
  sub_Status :: string
  sub_StripeSubscriptionID :: "string option"
  sub_StripeCustomerID :: "string option"
  sub_CurrentPeriodStart :: time
  sub_CurrentPeriodEnd :: time

record dunning_row =
  du_tenant :: string
  du_invoice :: string
  du_customer :: string
  du_amount :: int
  du_currency :: string
  du_occurred_at :: time

record StorageEvent =
  se_EventType :: string
  se_ObjectKey :: string
  se_SizeBytes :: int

record Alias =
  al_ID :: string
  al_TenantID :: string
  al_UserID :: string
  al_AliasEmail :: string

record sync_row =
  sy_id :: string
  sy_tenant :: string
  sy_operation :: string
  sy_account :: string
  sy_alias :: string
  sy_status :: string
  sy_attempts :: int
  sy_last_error :: string
  sy_next_retry_at :: time

record Shard =
  sh_ID :: string
  sh_Name :: string
  sh_StalwartURL :: string
  sh_PostgresDSN :: string
  sh_MaxMailboxes :: int
  sh_CurrentMailboxes :: int
  sh_Status :: string
  sh_HealthCheckedAt :: time

record failover_row =
  fo_shard :: string
  fo_backup :: string
  fo_priority :: int

record control_db =
  tenants :: "Tenant list"
  users :: "User list"
  domains :: "Domain list"
  shared_inboxes :: "SharedInbox list"
  shared_inbox_members :: "SharedInboxMember list"
  quotas :: "string \<rightharpoonup> Quota"
  billing_events :: "billing_event list"
  billing_subscriptions :: "string \<rightharpoonup> Subscription"
  billing_dunning_events :: "dunning_row list"
  storage_events :: "(string \<times> StorageEvent) list"
  aliases :: "Alias list"
  alias_stalwart_sync_queue :: "sync_row list"
  stalwart_shards :: "Shard list"
  tenant_shard_assignments :: "string \<rightharpoonup> string"
  shard_failover_config :: "failover_row list"

datatype ctl_error = ErrNotFound | ErrInvalidInput string | ErrQuotaExceeded | DbError string | OtherError string

type_synonym faults = "nat \<Rightarrow> string option"

definition tenant_exists :: "control_db \<Rightarrow> string \<Rightarrow> bool" where
  "tenant_exists db i \<longleftrightarrow> list_ex (\<lambda>t. tn_ID t = i) (tenants db)"

definition tenant_row :: "control_db \<Rightarrow> string \<Rightarrow> Tenant option" where
  "tenant_row db i = find (\<lambda>t. tn_ID t = i) (tenants db)"

lemma tenant_exists_map:
  assumes "\<And>t. tn_ID (f t) = tn_ID t"
  shows "tenant_exists (db\<lparr>tenants := map f (tenants db)\<rparr>) i = tenant_exists db i"
proof -
  have "list_ex (\<lambda>t. tn_ID t = i) (map f ts) = list_ex (\<lambda>t. tn_ID t = i) ts" for ts by (induction ts) (simp_all add: assms)
  then show ?thesis by (simp add: tenant_exists_def)
qed

subsection \<open>Transactions and statements\<close>

fun and_then :: "'e + 'a \<Rightarrow> ('a \<Rightarrow> 'e + 'b) \<Rightarrow> 'e + 'b" where
  "and_then (Inl e) f = Inl e"
| "and_then (Inr a) f = f a"

lemma and_then_Inr_iff: "and_then r f = Inr x \<longleftrightarrow> (\<exists>a. r = Inr a \<and> f a = Inr x)"
  by (cases r) auto

text \<open>\<^verbatim>\<open>pgx.BeginFunc\<close> with \<^verbatim>\<open>SetTenantGUC\<close> as its first statement: an error of the body rolls the transaction back.\<close>

definition tx :: "string option \<Rightarrow> string \<Rightarrow> (control_db \<Rightarrow> ctl_error + control_db \<times> 'a) \<Rightarrow> control_db \<Rightarrow> control_db \<times> (ctl_error + 'a)" where
  "tx fault tenantID body db =
     (case fault of
        Some e \<Rightarrow> (db, Inl (DbError e))
      | None \<Rightarrow>
          if tenantID = [] then (db, Inl (OtherError ''SetTenantGUC: empty tenantID''))
          else case body db of Inl e \<Rightarrow> (db, Inl e) | Inr (db', a) \<Rightarrow> (db', Inr a))"

definition zero_quota :: Quota where
  "zero_quota = \<lparr>q_StorageUsedBytes = 0, q_StorageLimitBytes = 0, q_SeatCount = 0, q_SeatLimit = 0\<rparr>"

definition quota_ok :: "Quota \<Rightarrow> bool" where
  "quota_ok q \<longleftrightarrow>
     0 \<le> q_StorageUsedBytes q \<and> fits_int8 (q_StorageUsedBytes q) \<and> 0 \<le> q_StorageLimitBytes q \<and> fits_int8 (q_StorageLimitBytes q)
     \<and> 0 \<le> q_SeatCount q \<and> fits_int4 (q_SeatCount q) \<and> 0 \<le> q_SeatLimit q \<and> fits_int4 (q_SeatLimit q)"

text \<open>A row of \<^verbatim>\<open>quotas\<close> is written: its tenant exists, its columns are in range and not negative.\<close>

definition put_quota :: "string \<Rightarrow> Quota \<Rightarrow> control_db \<Rightarrow> ctl_error + control_db" where
  "put_quota tenantID q db =
     (if \<not> tenant_exists db tenantID then Inl (DbError ''quotas_tenant_id_fkey'')
      else if \<not> quota_ok q then Inl (DbError ''quotas: column out of range'')
      else Inr (db\<lparr>quotas := (quotas db)(tenantID \<mapsto> q)\<rparr>))"

text \<open>\<^verbatim>\<open>INSERT ... ON CONFLICT (tenant_id) DO UPDATE\<close>: \<open>new\<close> changes the default row, \<open>upd\<close> an existing one.\<close>

definition upsert_quota :: "string \<Rightarrow> (Quota \<Rightarrow> Quota) \<Rightarrow> (Quota \<Rightarrow> Quota) \<Rightarrow> control_db \<Rightarrow> ctl_error + control_db" where
  "upsert_quota tenantID new upd db =
     (case quotas db tenantID of
        None \<Rightarrow> put_quota tenantID (new zero_quota) db
      | Some q \<Rightarrow> put_quota tenantID (upd q) db)"

definition billing_event_types :: "string list" where
  "billing_event_types = [''seat_added'', ''seat_removed'', ''storage_delta'', ''storage_snapshot'', ''plan_changed'', ''plan_prorated'',
     ''invoice_generated'', ''limit_adjusted'']"

definition event_row :: "string \<Rightarrow> string \<Rightarrow> billing_event" where
  "event_row tenantID ty = \<lparr>be_tenant = tenantID, be_type = ty, be_seat_count = None, be_storage_delta = None, be_amount_cents = None, be_metadata = []\<rparr>"

definition in_range :: "(int \<Rightarrow> bool) \<Rightarrow> int option \<Rightarrow> bool" where
  "in_range fits v \<longleftrightarrow> (case v of None \<Rightarrow> True | Some n \<Rightarrow> fits n)"

definition insert_event :: "billing_event \<Rightarrow> control_db \<Rightarrow> ctl_error + control_db" where
  "insert_event ev db =
     (if \<not> tenant_exists db (be_tenant ev) then Inl (DbError ''billing_events_tenant_id_fkey'')
      else if be_type ev \<notin> set billing_event_types then Inl (DbError ''billing_events_event_type_check'')
      else if \<not> (in_range fits_int4 (be_seat_count ev) \<and> in_range fits_int8 (be_storage_delta ev) \<and> in_range fits_int8 (be_amount_cents ev))
      then Inl (DbError ''billing_events: column out of range'')
      else Inr (db\<lparr>billing_events := billing_events db @ [ev]\<rparr>))"

subsection \<open>Configuration and plans\<close>

record billing_config =
  cfg_Pool :: bool
  cfg_CoreSeatCents :: int
  cfg_ProSeatCents :: int
  cfg_PrivacySeatCents :: int
  cfg_CorePerSeatBytes :: int
  cfg_ProPerSeatBytes :: int
  cfg_PrivacyPerSeatBytes :: int

definition or_default :: "int \<Rightarrow> int \<Rightarrow> int" where
  "or_default d v = (if v \<le> 0 then d else v)"

definition NewService :: "billing_config \<Rightarrow> billing_config" where
  "NewService cfg = cfg\<lparr>
     cfg_CoreSeatCents := or_default 300 (cfg_CoreSeatCents cfg),
     cfg_ProSeatCents := or_default 600 (cfg_ProSeatCents cfg),
     cfg_PrivacySeatCents := or_default 900 (cfg_PrivacySeatCents cfg),
     cfg_CorePerSeatBytes := or_default (5 * 1024 * 1024 * 1024) (cfg_CorePerSeatBytes cfg),
     cfg_ProPerSeatBytes := or_default (15 * 1024 * 1024 * 1024) (cfg_ProPerSeatBytes cfg),
     cfg_PrivacyPerSeatBytes := or_default (50 * 1024 * 1024 * 1024) (cfg_PrivacyPerSeatBytes cfg)\<rparr>"

abbreviation PlanCore :: string where "PlanCore \<equiv> ''core''"
abbreviation PlanPro :: string where "PlanPro \<equiv> ''pro''"
abbreviation PlanPrivacy :: string where "PlanPrivacy \<equiv> ''privacy''"

definition GetPlanPricing :: "billing_config \<Rightarrow> string \<Rightarrow> ctl_error + int" where
  "GetPlanPricing cfg plan =
     (if plan = PlanCore then Inr (cfg_CoreSeatCents cfg)
      else if plan = PlanPro then Inr (cfg_ProSeatCents cfg)
      else if plan = PlanPrivacy then Inr (cfg_PrivacySeatCents cfg)
      else Inl (ErrInvalidInput (''unknown plan '' @ plan)))"

definition ValidatePlan :: "string \<Rightarrow> ctl_error option" where
  "ValidatePlan plan =
     (if plan = PlanCore \<or> plan = PlanPro \<or> plan = PlanPrivacy then None
      else Some (ErrInvalidInput ''plan must be one of core, pro, privacy''))"

definition PerSeatStorageBytes :: "billing_config \<Rightarrow> string \<Rightarrow> ctl_error + int" where
  "PerSeatStorageBytes cfg plan =
     (if plan = PlanCore then Inr (cfg_CorePerSeatBytes cfg)
      else if plan = PlanPro then Inr (cfg_ProPerSeatBytes cfg)
      else if plan = PlanPrivacy then Inr (cfg_PrivacyPerSeatBytes cfg)
      else Inl (ErrInvalidInput (''unknown plan '' @ plan)))"

subsection \<open>Quotas\<close>

definition GetQuota :: "billing_config \<Rightarrow> string option \<Rightarrow> control_db \<Rightarrow> string \<Rightarrow> ctl_error + Quota" where
  "GetQuota cfg fault db tenantID =
     (if tenantID = [] then Inl (ErrInvalidInput ''tenantID required'')
      else if \<not> cfg_Pool cfg then Inl ErrNotFound
      else snd (tx fault tenantID (\<lambda>d. case quotas d tenantID of None \<Rightarrow> Inl ErrNotFound | Some q \<Rightarrow> Inr (d, q)) db))"

definition UpsertQuota :: "billing_config \<Rightarrow> string option \<Rightarrow> control_db \<Rightarrow> string \<Rightarrow> int \<Rightarrow> int \<Rightarrow> control_db \<times> (ctl_error + unit)" where
  "UpsertQuota cfg fault db tenantID storageLimit seatLimit =
     (if tenantID = [] then (db, Inl (ErrInvalidInput ''tenantID required''))
      else if \<not> cfg_Pool cfg then (db, Inr ())
      else tx fault tenantID (\<lambda>d.
        let lims = (\<lambda>q. q\<lparr>q_StorageLimitBytes := storageLimit, q_SeatLimit := seatLimit\<rparr>)
        in and_then (upsert_quota tenantID lims lims d) (\<lambda>d'. Inr (d', ()))) db)"

record UpdateQuotaLimitsInput =
  ul_StorageLimitBytes :: "int option"
  ul_SeatLimit :: "int option"

definition coalesce :: "'a option \<Rightarrow> 'a \<Rightarrow> 'a" where
  "coalesce v d = (case v of None \<Rightarrow> d | Some x \<Rightarrow> x)"

definition UpdateQuotaLimits :: "billing_config \<Rightarrow> string option \<Rightarrow> control_db \<Rightarrow> string \<Rightarrow> UpdateQuotaLimitsInput \<Rightarrow> control_db \<times> (ctl_error + Quota)" where
  "UpdateQuotaLimits cfg fault db tenantID inp =
     (if ul_StorageLimitBytes inp = None \<and> ul_SeatLimit inp = None then (db, Inl (ErrInvalidInput ''nothing to update''))
      else if coalesce (ul_StorageLimitBytes inp) 0 < 0 then (db, Inl (ErrInvalidInput ''storage_limit_bytes must be >= 0''))
      else if coalesce (ul_SeatLimit inp) 0 < 0 then (db, Inl (ErrInvalidInput ''seat_limit must be >= 0''))
      else if \<not> cfg_Pool cfg then (db, Inl ErrNotFound)
      else tx fault tenantID (\<lambda>d.
        case quotas d tenantID of
          None \<Rightarrow> Inl ErrNotFound
        | Some q \<Rightarrow>
            let q' = q\<lparr>q_StorageLimitBytes := coalesce (ul_StorageLimitBytes inp) (q_StorageLimitBytes q),
                       q_SeatLimit := coalesce (ul_SeatLimit inp) (q_SeatLimit q)\<rparr>
            in and_then (put_quota tenantID q' d) (\<lambda>d1.
               and_then (insert_event ((event_row tenantID ''limit_adjusted'')\<lparr>be_seat_count := Some (q_SeatLimit q')\<rparr>) d1) (\<lambda>d2.
               Inr (d2, q')))) db)"

text \<open>
  In \<^verbatim>\<open>GREATEST(0, $2)\<close> the parameter takes the type of the literal, \<^verbatim>\<open>integer\<close>, so a delta that needs more than 32
  bits cannot be sent; the sum is a \<^verbatim>\<open>bigint\<close> and an overflow is an error.
\<close>

definition UpdateStorageUsage :: "billing_config \<Rightarrow> string option \<Rightarrow> control_db \<Rightarrow> string \<Rightarrow> int \<Rightarrow> control_db \<times> (ctl_error + unit)" where
  "UpdateStorageUsage cfg fault db tenantID deltaBytes =
     (if tenantID = [] then (db, Inl (ErrInvalidInput ''tenantID required''))
      else if \<not> cfg_Pool cfg then (db, Inr ())
      else tx fault tenantID (\<lambda>d.
        if \<not> fits_int4 deltaBytes then Inl (DbError ''value out of range for int4'')
        else and_then (upsert_quota tenantID (\<lambda>q. q\<lparr>q_StorageUsedBytes := max 0 deltaBytes\<rparr>)
                  (\<lambda>q. q\<lparr>q_StorageUsedBytes := max 0 (q_StorageUsedBytes q + deltaBytes)\<rparr>) d) (\<lambda>d1.
             and_then (insert_event ((event_row tenantID ''storage_delta'')\<lparr>be_storage_delta := Some deltaBytes\<rparr>) d1) (\<lambda>d2.
             Inr (d2, ())))) db)"

definition SetStorageUsage :: "billing_config \<Rightarrow> string option \<Rightarrow> control_db \<Rightarrow> string \<Rightarrow> int \<Rightarrow> control_db \<times> (ctl_error + unit)" where
  "SetStorageUsage cfg fault db tenantID usedBytes =
     (if tenantID = [] then (db, Inl (ErrInvalidInput ''tenantID required''))
      else if usedBytes < 0 then (db, Inl (ErrInvalidInput ''usedBytes must be >= 0''))
      else if \<not> cfg_Pool cfg then (db, Inr ())
      else tx fault tenantID (\<lambda>d.
        let used = (\<lambda>q. q\<lparr>q_StorageUsedBytes := usedBytes\<rparr>)
        in and_then (upsert_quota tenantID used used d) (\<lambda>d1.
           and_then (insert_event ((event_row tenantID ''storage_snapshot'')\<lparr>be_storage_delta := Some usedBytes\<rparr>) d1) (\<lambda>d2.
           Inr (d2, ())))) db)"

subsection \<open>Seats\<close>

definition is_seat :: "string \<Rightarrow> User \<Rightarrow> bool" where
  "is_seat tenantID u \<longleftrightarrow> us_TenantID u = tenantID \<and> us_Status u = ''active'' \<and> us_AccountType u = ''user''"

definition CountSeats :: "billing_config \<Rightarrow> string option \<Rightarrow> control_db \<Rightarrow> string \<Rightarrow> ctl_error + int" where
  "CountSeats cfg fault db tenantID =
     (if tenantID = [] then Inl (ErrInvalidInput ''tenantID required'')
      else if \<not> cfg_Pool cfg then Inr 0
      else snd (tx fault tenantID (\<lambda>d. Inr (d, int (length (filter (is_seat tenantID) (users d))))) db))"

definition SyncSeatCount :: "billing_config \<Rightarrow> faults \<Rightarrow> control_db \<Rightarrow> string \<Rightarrow> control_db \<times> (ctl_error + int)" where
  "SyncSeatCount cfg faults db tenantID =
     (case CountSeats cfg (faults 0) db tenantID of
        Inl e \<Rightarrow> (db, Inl e)
      | Inr count \<Rightarrow>
          if \<not> cfg_Pool cfg then (db, Inr count)
          else tx (faults 1) tenantID (\<lambda>d.
            let seats = (\<lambda>q. q\<lparr>q_SeatCount := count\<rparr>)
            in and_then (upsert_quota tenantID seats seats d) (\<lambda>d'. Inr (d', count))) db)"

definition EnforcePlanLimits :: "billing_config \<Rightarrow> string option \<Rightarrow> control_db \<Rightarrow> string \<Rightarrow> ctl_error option" where
  "EnforcePlanLimits cfg fault db tenantID =
     (case GetQuota cfg fault db tenantID of
        Inl e \<Rightarrow> Some e
      | Inr q \<Rightarrow>
          if q_SeatLimit q > 0 \<and> q_SeatCount q > q_SeatLimit q then Some ErrQuotaExceeded
          else if q_StorageLimitBytes q > 0 \<and> q_StorageUsedBytes q > q_StorageLimitBytes q then Some ErrQuotaExceeded
          else None)"

definition CheckStorageQuota :: "billing_config \<Rightarrow> string option \<Rightarrow> control_db \<Rightarrow> string \<Rightarrow> int \<Rightarrow> ctl_error option" where
  "CheckStorageQuota cfg fault db tenantID additionalBytes =
     (if additionalBytes < 0 then Some (ErrInvalidInput ''additionalBytes must be >= 0'')
      else case GetQuota cfg fault db tenantID of
          Inl ErrNotFound \<Rightarrow> Some ErrQuotaExceeded
        | Inl e \<Rightarrow> Some e
        | Inr q \<Rightarrow>
            if q_StorageLimitBytes q = 0 then None
            else if int64 (q_StorageUsedBytes q + additionalBytes) > q_StorageLimitBytes q then Some ErrQuotaExceeded
            else None)"

definition CheckSeatAvailable :: "billing_config \<Rightarrow> string option \<Rightarrow> control_db \<Rightarrow> string \<Rightarrow> ctl_error option" where
  "CheckSeatAvailable cfg fault db tenantID =
     (case GetQuota cfg fault db tenantID of
        Inl ErrNotFound \<Rightarrow> None
      | Inl e \<Rightarrow> Some e
      | Inr q \<Rightarrow>
          if q_SeatLimit q = 0 then None
          else if q_SeatCount q + 1 > q_SeatLimit q then Some ErrQuotaExceeded
          else None)"

definition IncrementSeatCount :: "billing_config \<Rightarrow> string option \<Rightarrow> control_db \<Rightarrow> string \<Rightarrow> int \<Rightarrow> control_db \<times> (ctl_error + unit)" where
  "IncrementSeatCount cfg fault db tenantID delta =
     (if tenantID = [] then (db, Inl (ErrInvalidInput ''tenantID required''))
      else if \<not> cfg_Pool cfg then (db, Inr ())
      else tx fault tenantID (\<lambda>d.
        and_then (upsert_quota tenantID (\<lambda>q. q\<lparr>q_SeatCount := max 0 delta\<rparr>) (\<lambda>q. q\<lparr>q_SeatCount := max 0 (q_SeatCount q + delta)\<rparr>) d) (\<lambda>d1.
        and_then (insert_event ((event_row tenantID (if delta < 0 then ''seat_removed'' else ''seat_added''))\<lparr>be_seat_count := Some delta\<rparr>) d1) (\<lambda>d2.
        Inr (d2, ())))) db)"

subsection \<open>Invoices and plans\<close>

text \<open>A query outside a transaction.\<close>

definition tenant_plan :: "string option \<Rightarrow> control_db \<Rightarrow> string \<Rightarrow> ctl_error + string" where
  "tenant_plan fault db tenantID =
     (case fault of
        Some e \<Rightarrow> Inl (DbError e)
      | None \<Rightarrow> (case tenant_row db tenantID of None \<Rightarrow> Inl ErrNotFound | Some t \<Rightarrow> Inr (tn_Plan t)))"

definition CalculateInvoice :: "billing_config \<Rightarrow> faults \<Rightarrow> control_db \<Rightarrow> string \<Rightarrow> control_db \<times> (ctl_error + int)" where
  "CalculateInvoice cfg faults db tenantID =
     (if tenantID = [] then (db, Inl (ErrInvalidInput ''tenantID required''))
      else if \<not> cfg_Pool cfg then (db, Inr 0)
      else case and_then (tenant_plan (faults 0) db tenantID) (GetPlanPricing cfg) of
          Inl e \<Rightarrow> (db, Inl e)
        | Inr price \<Rightarrow>
            (case CountSeats cfg (faults 1) db tenantID of
               Inl e \<Rightarrow> (db, Inl e)
             | Inr seats \<Rightarrow>
                 let tot = int64 (price * seats);
                     logged = tx (faults 2) tenantID (\<lambda>d.
                       and_then (insert_event ((event_row tenantID ''invoice_generated'')\<lparr>be_seat_count := Some seats, be_amount_cents := Some tot\<rparr>) d)
                         (\<lambda>d'. Inr (d', ()))) db
                 in (fst logged, Inr tot)))"

record BillingSummary =
  bs_TenantID :: string
  bs_Plan :: string
  bs_PerSeatCents :: int
  bs_SeatCount :: int
  bs_SeatLimit :: int
  bs_MonthlyCents :: int
  bs_StorageUsed :: int
  bs_StorageLimit :: int
  bs_StoragePercent :: int

definition Summary :: "billing_config \<Rightarrow> faults \<Rightarrow> control_db \<Rightarrow> string \<Rightarrow> ctl_error + BillingSummary" where
  "Summary cfg faults db tenantID =
     (if \<not> cfg_Pool cfg then Inl ErrNotFound
      else and_then (tenant_plan (faults 0) db tenantID) (\<lambda>plan.
           and_then (GetPlanPricing cfg plan) (\<lambda>price.
           and_then (case GetQuota cfg (faults 1) db tenantID of Inl ErrNotFound \<Rightarrow> Inr zero_quota | r \<Rightarrow> r) (\<lambda>q.
           Inr \<lparr>bs_TenantID = tenantID, bs_Plan = plan, bs_PerSeatCents = price, bs_SeatCount = q_SeatCount q, bs_SeatLimit = q_SeatLimit q,
                bs_MonthlyCents = int64 (price * q_SeatCount q), bs_StorageUsed = q_StorageUsedBytes q, bs_StorageLimit = q_StorageLimitBytes q,
                bs_StoragePercent = (if q_StorageLimitBytes q > 0
                                     then quot (int64 (q_StorageUsedBytes q * 100)) (q_StorageLimitBytes q) else 0)\<rparr>))))"

definition set_plan :: "string \<Rightarrow> string \<Rightarrow> control_db \<Rightarrow> control_db" where
  "set_plan tenantID plan db = db\<lparr>tenants := map (\<lambda>t. if tn_ID t = tenantID then t\<lparr>tn_Plan := plan\<rparr> else t) (tenants db)\<rparr>"

definition sync_storage_default :: "string \<Rightarrow> int \<Rightarrow> int \<Rightarrow> control_db \<Rightarrow> ctl_error + control_db" where
  "sync_storage_default tenantID newBytes oldDefault db =
     (case quotas db tenantID of
        None \<Rightarrow> Inr db
      | Some q \<Rightarrow> if q_StorageLimitBytes q = oldDefault then put_quota tenantID (q\<lparr>q_StorageLimitBytes := newBytes\<rparr>) db else Inr db)"

definition seat_bytes_or_zero :: "billing_config \<Rightarrow> string \<Rightarrow> int" where
  "seat_bytes_or_zero cfg plan = (case PerSeatStorageBytes cfg plan of Inl _ \<Rightarrow> 0 | Inr n \<Rightarrow> n)"

definition ChangePlan :: "billing_config \<Rightarrow> faults \<Rightarrow> control_db \<Rightarrow> string \<Rightarrow> string \<Rightarrow> control_db \<times> (ctl_error + BillingSummary)" where
  "ChangePlan cfg faults db tenantID newPlan =
     (if tenantID = [] then (db, Inl (ErrInvalidInput ''tenantID required''))
      else case ValidatePlan newPlan of
          Some e \<Rightarrow> (db, Inl e)
        | None \<Rightarrow>
            if \<not> cfg_Pool cfg then (db, Inl ErrNotFound)
            else case tx (faults 0) tenantID (\<lambda>d.
                case tenant_row d tenantID of
                  None \<Rightarrow> Inl ErrNotFound
                | Some t \<Rightarrow>
                    let oldPlan = tn_Plan t; newBytes = seat_bytes_or_zero cfg newPlan in
                    if oldPlan = newPlan then Inr (d, ())
                    else let d1 = set_plan tenantID newPlan d in
                         and_then (if newBytes > 0 then sync_storage_default tenantID newBytes (seat_bytes_or_zero cfg oldPlan) d1 else Inr d1) (\<lambda>d2.
                         and_then (insert_event ((event_row tenantID ''plan_changed'')\<lparr>be_metadata := [(''old_plan'', oldPlan), (''new_plan'', newPlan)]\<rparr>) d2) (\<lambda>d3.
                         Inr (d3, ())))) db of
                (db1, Inl e) \<Rightarrow> (db1, Inl e)
              | (db1, Inr _) \<Rightarrow>
                  (case EnforcePlanLimits cfg (faults 1) db1 tenantID of
                     Some e \<Rightarrow> if e = ErrNotFound then (db1, Summary cfg (\<lambda>n. faults (2 + n)) db1 tenantID) else (db1, Inl e)
                   | None \<Rightarrow> (db1, Summary cfg (\<lambda>n. faults (2 + n)) db1 tenantID)))"

subsection \<open>Tables with tenants and users only\<close>

definition control_tables :: "Tenant list \<Rightarrow> User list \<Rightarrow> control_db" where
  "control_tables ts us = \<lparr>tenants = ts, users = us, domains = [], shared_inboxes = [], shared_inbox_members = [], quotas = Map.empty, billing_events = [],
     billing_subscriptions = Map.empty, billing_dunning_events = [], storage_events = [], aliases = [], alias_stalwart_sync_queue = [],
     stalwart_shards = [], tenant_shard_assignments = Map.empty, shard_failover_config = []\<rparr>"

definition active_tenant :: "string \<Rightarrow> Tenant" where
  "active_tenant i = \<lparr>tn_ID = i, tn_Name = i, tn_Slug = i, tn_Plan = ''core'', tn_Status = ''active''\<rparr>"

end
