(* ===== verification/Shards.thy ===== *)
theory Shards
  imports Complex_Main Billing
begin

text \<open>
  Mail shards: registration, assignment of tenants, rebalancing, health and failover (\<^verbatim>\<open>internal/tenant/shard.go\<close>), automatic
  provisioning (\<^verbatim>\<open>autoprovision.go\<close>) and the admin handlers (\<^verbatim>\<open>shard_handlers.go\<close>).

  A statement takes the fault it meets, if any. Fractions are exact. The caches are expiring LRU caches: an entry is a
  value with the time it was added, gone after five minutes; that a full cache drops other entries is a step of its own.
\<close>

abbreviation ShardStatusActive :: string where "ShardStatusActive \<equiv> ''active''"
abbreviation ShardStatusDraining :: string where "ShardStatusDraining \<equiv> ''draining''"
abbreviation ShardStatusOffline :: string where "ShardStatusOffline \<equiv> ''offline''"
abbreviation shardCacheTTL :: duration where "shardCacheTTL \<equiv> 300 * nanos_per_s"

datatype shard_error = ErrNoCapacity | ErrNoProvisioner | ShardError string

type_synonym shard_cache = "string \<rightharpoonup> string \<times> time"

record shard_service =
  sv_cache :: shard_cache
  sv_idCache :: shard_cache

definition cache_get :: "time \<Rightarrow> string \<Rightarrow> shard_cache \<Rightarrow> string option" where
  "cache_get now k c = (case c k of None \<Rightarrow> None | Some (v, added) \<Rightarrow> if now < added + shardCacheTTL then Some v else None)"

definition cache_add :: "time \<Rightarrow> string \<Rightarrow> string \<Rightarrow> shard_cache \<Rightarrow> shard_cache" where
  "cache_add now k v c = c(k \<mapsto> (v, now))"

definition cache_evict :: "string \<Rightarrow> shard_cache \<Rightarrow> shard_cache" where
  "cache_evict k c = c(k := None)"

definition invalidate :: "string \<Rightarrow> shard_service \<Rightarrow> shard_service" where
  "invalidate tenantID s = s\<lparr>sv_cache := cache_evict tenantID (sv_cache s), sv_idCache := cache_evict tenantID (sv_idCache s)\<rparr>"

definition NewShardService :: shard_service where
  "NewShardService = \<lparr>sv_cache = Map.empty, sv_idCache = Map.empty\<rparr>"

subsection \<open>Shards\<close>

definition shard_ok :: "Shard \<Rightarrow> bool" where
  "shard_ok sh \<longleftrightarrow> 0 \<le> sh_MaxMailboxes sh \<and> fits_int4 (sh_MaxMailboxes sh) \<and> 0 \<le> sh_CurrentMailboxes sh \<and> fits_int4 (sh_CurrentMailboxes sh)
     \<and> sh_Status sh \<in> {ShardStatusActive, ShardStatusDraining, ShardStatusOffline}"

definition shard_row :: "string \<Rightarrow> control_db \<Rightarrow> Shard option" where
  "shard_row i db = find (\<lambda>sh. sh_ID sh = i) (stalwart_shards db)"

definition RegisterShard :: "bool \<Rightarrow> string option \<Rightarrow> string \<Rightarrow> control_db \<Rightarrow> Shard \<Rightarrow> control_db \<times> (shard_error + Shard)" where
  "RegisterShard pool fault nid db shard =
     (if sh_Name shard = [] \<or> sh_StalwartURL shard = [] then (db, Inl (ShardError ''name and stalwart_url required''))
      else let sh = shard\<lparr>sh_MaxMailboxes := (if sh_MaxMailboxes shard \<le> 0 then 10000 else sh_MaxMailboxes shard),
                          sh_Status := (if sh_Status shard = [] then ShardStatusActive else sh_Status shard)\<rparr>
           in if \<not> pool then (db, Inr (sh\<lparr>sh_ID := ''stub''\<rparr>))
              else case fault of
                  Some e \<Rightarrow> (db, Inl (ShardError e))
                | None \<Rightarrow>
                    let row = sh\<lparr>sh_ID := nid, sh_CurrentMailboxes := 0, sh_HealthCheckedAt := 0\<rparr> in
                    if list_ex (\<lambda>r. sh_ID r = nid \<or> sh_Name r = sh_Name sh) (stalwart_shards db) then (db, Inl (ShardError ''stalwart_shards: unique constraint''))
                    else if \<not> shard_ok row then (db, Inl (ShardError ''stalwart_shards: check constraint''))
                    else (db\<lparr>stalwart_shards := stalwart_shards db @ [row]\<rparr>, Inr (sh\<lparr>sh_ID := nid\<rparr>)))"

definition ListShardIDs :: "string option \<Rightarrow> control_db \<Rightarrow> shard_error + string list" where
  "ListShardIDs fault db = (case fault of Some e \<Rightarrow> Inl (ShardError e) | None \<Rightarrow> Inr (sort (map sh_ID (stalwart_shards db))))"

definition ListShards :: "string option \<Rightarrow> control_db \<Rightarrow> shard_error + Shard list" where
  "ListShards fault db = (case fault of Some e \<Rightarrow> Inl (ShardError e) | None \<Rightarrow> Inr (sort_key sh_Name (stalwart_shards db)))"

definition GetShard :: "string option \<Rightarrow> control_db \<Rightarrow> string \<Rightarrow> shard_error + Shard" where
  "GetShard fault db i =
     (case fault of Some e \<Rightarrow> Inl (ShardError e) | None \<Rightarrow> (case shard_row i db of None \<Rightarrow> Inl (ShardError ''get shard: no rows'') | Some sh \<Rightarrow> Inr sh))"

text \<open>The tenants of a shard, in the order of the tenants' rows.\<close>

definition tenants_on_shard :: "string \<Rightarrow> control_db \<Rightarrow> string list" where
  "tenants_on_shard i db = filter (\<lambda>t. tenant_shard_assignments db t = Some i) (map tn_ID (tenants db))"

definition ListTenantsOnShard :: "string option \<Rightarrow> control_db \<Rightarrow> string \<Rightarrow> shard_error + string list" where
  "ListTenantsOnShard fault db i = (case fault of Some e \<Rightarrow> Inl (ShardError e) | None \<Rightarrow> Inr (tenants_on_shard i db))"

text \<open>An update of one shard; the statement fails where the row breaks a constraint.\<close>

definition update_shard :: "string \<Rightarrow> (Shard \<Rightarrow> Shard) \<Rightarrow> control_db \<Rightarrow> shard_error + control_db" where
  "update_shard i f db =
     (case shard_row i db of
        None \<Rightarrow> Inr db
      | Some sh \<Rightarrow>
          if \<not> shard_ok (f sh) then Inl (ShardError ''stalwart_shards: check constraint'')
          else if list_ex (\<lambda>r. sh_ID r \<noteq> i \<and> sh_Name r = sh_Name (f sh)) (stalwart_shards db) then Inl (ShardError ''stalwart_shards_name_key'')
          else Inr (db\<lparr>stalwart_shards := map (\<lambda>r. if sh_ID r = i then f r else r) (stalwart_shards db)\<rparr>))"

definition nullif_empty :: "string \<Rightarrow> string \<Rightarrow> string" where
  "nullif_empty new old = (if new = [] then old else new)"

definition UpdateShard :: "faults \<Rightarrow> control_db \<times> shard_service \<Rightarrow> string \<Rightarrow> Shard \<Rightarrow> (control_db \<times> shard_service) \<times> (shard_error + Shard)" where
  "UpdateShard faults s i inp =
     (case s of (db, sv) \<Rightarrow>
        (case faults 0 of
           Some e \<Rightarrow> (s, Inl (ShardError e))
         | None \<Rightarrow>
             (case update_shard i (\<lambda>r. r\<lparr>sh_Name := nullif_empty (sh_Name inp) (sh_Name r), sh_StalwartURL := nullif_empty (sh_StalwartURL inp) (sh_StalwartURL r),
                     sh_MaxMailboxes := (if sh_MaxMailboxes inp > 0 then sh_MaxMailboxes inp else sh_MaxMailboxes r),
                     sh_Status := nullif_empty (sh_Status inp) (sh_Status r)\<rparr>) db of
                Inl e \<Rightarrow> (s, Inl e)
              | Inr db1 \<Rightarrow>
                  (case ListTenantsOnShard (faults 1) db1 i of
                     Inl e \<Rightarrow> ((db1, sv), Inl e)
                   | Inr ts \<Rightarrow> ((db1, fold invalidate ts sv), GetShard (faults 2) db1 i)))))"

definition UpdateShardHealth :: "string option \<Rightarrow> time \<Rightarrow> control_db \<Rightarrow> string \<Rightarrow> bool \<Rightarrow> control_db \<times> shard_error option" where
  "UpdateShardHealth fault now db i healthy =
     (case fault of
        Some e \<Rightarrow> (db, Some (ShardError e))
      | None \<Rightarrow>
          (case update_shard i (\<lambda>r. r\<lparr>sh_HealthCheckedAt := now,
                  sh_Status := (if sh_Status r = ShardStatusDraining then ShardStatusDraining else if healthy then ShardStatusActive else ShardStatusOffline)\<rparr>) db of
             Inl e \<Rightarrow> (db, Some e)
           | Inr db1 \<Rightarrow> (db1, None)))"

text \<open>\<open>probe\<close> is the answer of a shard's health endpoint.\<close>

definition HealthCheck :: "(string \<Rightarrow> bool) \<Rightarrow> string option \<Rightarrow> (string \<Rightarrow> string option) \<Rightarrow> time \<Rightarrow> control_db \<Rightarrow> control_db \<times> shard_error option" where
  "HealthCheck probe listFault faults now db =
     (case ListShards listFault db of
        Inl e \<Rightarrow> (db, Some e)
      | Inr shards \<Rightarrow>
          (fold (\<lambda>sh d. if sh_Status sh = ShardStatusDraining then d else fst (UpdateShardHealth (faults (sh_ID sh)) now d (sh_ID sh) (probe (sh_StalwartURL sh))))
             shards db, None))"

subsection \<open>Assignment\<close>

definition has_room :: "Shard \<Rightarrow> bool" where
  "has_room sh \<longleftrightarrow> sh_Status sh = ShardStatusActive \<and> sh_CurrentMailboxes sh < sh_MaxMailboxes sh"

text \<open>Less loaded, by the fraction of its mailboxes, the smaller id on a tie.\<close>

definition emptier :: "Shard \<Rightarrow> Shard \<Rightarrow> bool" where
  "emptier a b \<longleftrightarrow>
     (let l = sh_CurrentMailboxes a * sh_MaxMailboxes b; r = sh_CurrentMailboxes b * sh_MaxMailboxes a in l < r \<or> l = r \<and> sh_ID a \<le> sh_ID b)"

fun emptiest :: "Shard list \<Rightarrow> Shard option" where
  "emptiest [] = None"
| "emptiest (sh # shs) = (case emptiest shs of None \<Rightarrow> Some sh | Some b \<Rightarrow> if emptier sh b then Some sh else Some b)"

definition add_mailboxes :: "int \<Rightarrow> Shard \<Rightarrow> Shard" where
  "add_mailboxes n r = r\<lparr>sh_CurrentMailboxes := (if n < 0 then max 0 (sh_CurrentMailboxes r + n) else sh_CurrentMailboxes r + n)\<rparr>"

definition put_assignment :: "string \<Rightarrow> string \<Rightarrow> control_db \<Rightarrow> shard_error + control_db" where
  "put_assignment tenantID shardID db =
     (if \<not> tenant_exists db tenantID \<or> shard_row shardID db = None then Inl (ShardError ''tenant_shard_assignments: foreign key'')
      else Inr (db\<lparr>tenant_shard_assignments := (tenant_shard_assignments db)(tenantID \<mapsto> shardID)\<rparr>))"

text \<open>
  The transaction reads the tenant's shard and the emptiest shard with room, then writes the assignment and the counters. It
  runs at the default isolation and takes no lock when it reads: \<open>others\<close> is what other transactions commit between its
  reads and its writes, and stays when it rolls back.
\<close>

definition assign :: "(control_db \<Rightarrow> control_db) \<Rightarrow> string \<Rightarrow> control_db \<Rightarrow> shard_error + control_db \<times> string" where
  "assign others tenantID db =
     (let old = tenant_shard_assignments db tenantID in
      case emptiest (filter has_room (stalwart_shards db)) of
        None \<Rightarrow> Inl ErrNoCapacity
      | Some sh \<Rightarrow>
          and_then (put_assignment tenantID (sh_ID sh) (others db)) (\<lambda>d1.
          and_then (case old of None \<Rightarrow> Inr d1 | Some o' \<Rightarrow> if o' \<noteq> sh_ID sh then update_shard o' (add_mailboxes (- 1)) d1 else Inr d1) (\<lambda>d2.
          and_then (if old = Some (sh_ID sh) then Inr d2 else update_shard (sh_ID sh) (add_mailboxes 1) d2) (\<lambda>d3.
          Inr (d3, sh_ID sh)))))"

definition AssignTenantToShard :: "bool \<Rightarrow> string option \<Rightarrow> (control_db \<Rightarrow> control_db) \<Rightarrow> control_db \<times> shard_service \<Rightarrow> string
    \<Rightarrow> (control_db \<times> shard_service) \<times> (shard_error + string)" where
  "AssignTenantToShard pool fault others s tenantID =
     (case s of (db, sv) \<Rightarrow>
        if tenantID = [] then (s, Inl (ShardError ''tenantID required''))
        else if \<not> pool then (s, Inr ''stub'')
        else case fault of
            Some e \<Rightarrow> ((others db, sv), Inl (ShardError e))
          | None \<Rightarrow> (case assign others tenantID db of
                Inl e \<Rightarrow> ((others db, sv), Inl e)
              | Inr (db1, i) \<Rightarrow> ((db1, invalidate tenantID sv), Inr i)))"

definition GetTenantShardID :: "bool \<Rightarrow> string option \<Rightarrow> time \<Rightarrow> time \<Rightarrow> control_db \<Rightarrow> shard_service \<Rightarrow> string \<Rightarrow> shard_service \<times> (shard_error + string)" where
  "GetTenantShardID pool fault now added db sv tenantID =
     (if tenantID = [] then (sv, Inl (ShardError ''tenantID required''))
      else case cache_get now tenantID (sv_idCache sv) of
          Some i \<Rightarrow> (sv, Inr i)
        | None \<Rightarrow>
            if \<not> pool then (sv, Inl ErrNoCapacity)
            else case fault of
                Some e \<Rightarrow> (sv, Inl (ShardError e))
              | None \<Rightarrow>
                  (case tenant_shard_assignments db tenantID of
                     None \<Rightarrow> (sv, Inl ErrNoCapacity)
                   | Some i \<Rightarrow> (sv\<lparr>sv_idCache := cache_add added tenantID i (sv_idCache sv)\<rparr>, Inr i)))"

definition GetTenantShard :: "bool \<Rightarrow> string option \<Rightarrow> time \<Rightarrow> time \<Rightarrow> control_db \<Rightarrow> shard_service \<Rightarrow> string \<Rightarrow> shard_service \<times> (shard_error + string)" where
  "GetTenantShard pool fault now added db sv tenantID =
     (if tenantID = [] then (sv, Inl (ShardError ''tenantID required''))
      else case cache_get now tenantID (sv_cache sv) of
          Some u \<Rightarrow> (sv, Inr u)
        | None \<Rightarrow>
            if \<not> pool then (sv, Inl ErrNoCapacity)
            else case fault of
                Some e \<Rightarrow> (sv, Inl (ShardError e))
              | None \<Rightarrow>
                  (case Option.bind (tenant_shard_assignments db tenantID) (\<lambda>i. shard_row i db) of
                     None \<Rightarrow> (sv, Inl ErrNoCapacity)
                   | Some sh \<Rightarrow> (sv\<lparr>sv_cache := cache_add added tenantID (sh_StalwartURL sh) (sv_cache sv)\<rparr>, Inr (sh_StalwartURL sh))))"

definition rebalance :: "string \<Rightarrow> string \<Rightarrow> string \<Rightarrow> control_db \<Rightarrow> shard_error + control_db" where
  "rebalance fromShardID toShardID tenantID db =
     and_then (put_assignment tenantID toShardID db) (\<lambda>d1.
     and_then (if fromShardID \<noteq> [] then update_shard fromShardID (add_mailboxes (- 1)) d1 else Inr d1)
       (update_shard toShardID (add_mailboxes 1)))"

definition RebalanceShard :: "bool \<Rightarrow> string option \<Rightarrow> control_db \<times> shard_service \<Rightarrow> string \<Rightarrow> string \<Rightarrow> string \<Rightarrow> (control_db \<times> shard_service) \<times> (shard_error + string)" where
  "RebalanceShard pool fault s fromShardID toShardID tenantID =
     (case s of (db, sv) \<Rightarrow>
        if tenantID = [] \<or> toShardID = [] then (s, Inl (ShardError ''tenantID and toShardID required''))
        else if \<not> pool then (s, Inr toShardID)
        else case fault of
            Some e \<Rightarrow> (s, Inl (ShardError e))
          | None \<Rightarrow> (case rebalance fromShardID toShardID tenantID db of Inl e \<Rightarrow> (s, Inl e) | Inr db1 \<Rightarrow> ((db1, invalidate tenantID sv), Inr toShardID)))"

text \<open>The backups of a tenant's shard that are active, by priority; rows are in the order of their creation.\<close>

definition GetSecondaryShards :: "string option \<Rightarrow> control_db \<Rightarrow> string \<Rightarrow> shard_error + string list" where
  "GetSecondaryShards fault db tenantID =
     (if tenantID = [] then Inl (ShardError ''tenantID required'')
      else case fault of
          Some e \<Rightarrow> Inl (ShardError e)
        | None \<Rightarrow>
            (case tenant_shard_assignments db tenantID of
               None \<Rightarrow> Inr []
             | Some i \<Rightarrow>
                 Inr (map (\<lambda>(_, sh). sh_StalwartURL sh)
                   (sort_key fst
                     [(fo_priority f, sh). sh \<leftarrow> stalwart_shards db, f \<leftarrow> shard_failover_config db,
                        fo_shard f = i \<and> fo_backup f = sh_ID sh \<and> sh_Status sh = ShardStatusActive]))))"

subsection \<open>Automatic provisioning\<close>

definition counts :: "Shard \<Rightarrow> bool" where
  "counts sh \<longleftrightarrow> sh_Status sh = ShardStatusActive \<and> 0 < sh_MaxMailboxes sh"

definition clusterUtilisation :: "Shard list \<Rightarrow> rat \<times> bool" where
  "clusterUtilisation shards =
     (let used = sum_list (map sh_CurrentMailboxes (filter counts shards)); capacity = sum_list (map sh_MaxMailboxes (filter counts shards))
      in if capacity = 0 then (0, False) else (of_int used / of_int capacity, True))"

definition needsProvision :: "Shard list \<Rightarrow> rat \<Rightarrow> bool" where
  "needsProvision shards threshold =
     (case clusterUtilisation shards of (fr, hasActiveCapacity) \<Rightarrow> \<not> hasActiveCapacity \<or> \<not> list_ex has_room shards \<or> fr \<ge> threshold)"

definition threshold_or_default :: "rat \<Rightarrow> rat" where
  "threshold_or_default t = (if t \<le> 0 then 8 / 10 else t)"

text \<open>
  \<open>locked\<close> is the answer of the advisory lock, \<open>name\<close> the generated name, \<open>prov\<close> the provisioner; \<open>others\<close> happens between the
  first look and the one under the lock.
\<close>

definition AutoProvisionShard :: "(string \<Rightarrow> string + Shard) option \<Rightarrow> faults \<Rightarrow> bool \<Rightarrow> string \<Rightarrow> string \<Rightarrow> (control_db \<Rightarrow> control_db) \<Rightarrow> control_db \<Rightarrow> rat
    \<Rightarrow> control_db \<times> (shard_error + Shard option)" where
  "AutoProvisionShard prov faults locked name nid others db threshold0 =
     (let threshold = threshold_or_default threshold0 in
      case ListShards (faults 0) db of
        Inl e \<Rightarrow> (db, Inl e)
      | Inr shards \<Rightarrow>
          if \<not> needsProvision shards threshold then (db, Inr None)
          else case prov of
              None \<Rightarrow> (db, Inl ErrNoProvisioner)
            | Some provision \<Rightarrow>
                let db1 = others db in
                (case faults 1 of
                   Some e \<Rightarrow> (db1, Inl (ShardError e))
                 | None \<Rightarrow>
                     if \<not> locked then (db1, Inr None)
                     else case ListShards (faults 2) db1 of
                         Inl e \<Rightarrow> (db1, Inl e)
                       | Inr shards1 \<Rightarrow>
                           if \<not> needsProvision shards1 threshold then (db1, Inr None)
                           else case provision name of
                               Inl e \<Rightarrow> (db1, Inl (ShardError e))
                             | Inr sh0 \<Rightarrow>
                                 let sh = (if sh_Name sh0 = [] then sh0\<lparr>sh_Name := name\<rparr> else sh0)
                                 in (case RegisterShard True (faults 3) nid db1 sh of (db2, Inl e) \<Rightarrow> (db2, Inl e) | (db2, Inr reg) \<Rightarrow> (db2, Inr (Some reg)))))"

record ShardCapacity =
  sc_ID :: string
  sc_Name :: string
  sc_Status :: string
  sc_Mailboxes :: int
  sc_MaxMailboxes :: int
  sc_Utilised :: rat

record CapacityReport =
  cr_Shards :: "ShardCapacity list"
  cr_ActiveShards :: int
  cr_TotalMailboxes :: int
  cr_TotalCapacity :: int
  cr_ClusterUtilised :: rat
  cr_Threshold :: rat
  cr_NeedsProvisioning :: bool

definition CapacityReportWithThreshold :: "string option \<Rightarrow> control_db \<Rightarrow> rat \<Rightarrow> shard_error + CapacityReport" where
  "CapacityReportWithThreshold fault db threshold0 =
     and_then (ListShards fault db) (\<lambda>shards.
       let threshold = threshold_or_default threshold0; active = filter counts shards;
           used = sum_list (map sh_CurrentMailboxes active); capacity = sum_list (map sh_MaxMailboxes active)
       in Inr \<lparr>cr_Shards = map (\<lambda>sh. \<lparr>sc_ID = sh_ID sh, sc_Name = sh_Name sh, sc_Status = sh_Status sh, sc_Mailboxes = sh_CurrentMailboxes sh,
                  sc_MaxMailboxes = sh_MaxMailboxes sh,
                  sc_Utilised = (if sh_MaxMailboxes sh > 0 then of_int (sh_CurrentMailboxes sh) / of_int (sh_MaxMailboxes sh) else 0)\<rparr>) shards,
               cr_ActiveShards = int (length active), cr_TotalMailboxes = used, cr_TotalCapacity = capacity,
               cr_ClusterUtilised = (if capacity > 0 then of_int used / of_int capacity else 0),
               cr_Threshold = threshold, cr_NeedsProvisioning = needsProvision shards threshold\<rparr>)"

subsection \<open>Handlers\<close>

datatype shard_body = ShardErr string | ShardList "Shard list" | Report CapacityReport | OneShard Shard | ShardWithTenants Shard "string list" | Assigned string string

definition shard_error_text :: "shard_error \<Rightarrow> string" where
  "shard_error_text e =
     (case e of ErrNoCapacity \<Rightarrow> ''no shard with free capacity'' | ErrNoProvisioner \<Rightarrow> ''tenant: capacity threshold reached but no shard provisioner configured'' | ShardError m \<Rightarrow> m)"

definition shard_respond :: "int \<Rightarrow> ('a \<Rightarrow> shard_body) \<Rightarrow> shard_error + 'a \<Rightarrow> int \<times> shard_body" where
  "shard_respond ok body r = (case r of Inl e \<Rightarrow> (500, ShardErr (shard_error_text e)) | Inr a \<Rightarrow> (ok, body a))"

definition shard_list :: "string option \<Rightarrow> control_db \<Rightarrow> int \<times> shard_body" where
  "shard_list fault db = shard_respond 200 ShardList (ListShards fault db)"

definition shard_health :: "string option \<Rightarrow> control_db \<Rightarrow> int \<times> shard_body" where
  "shard_health fault db = shard_respond 200 Report (CapacityReportWithThreshold fault db 0)"

definition shard_register :: "string option \<Rightarrow> string \<Rightarrow> control_db \<Rightarrow> Shard option \<Rightarrow> control_db \<times> int \<times> shard_body" where
  "shard_register fault nid db inp =
     (case inp of
        None \<Rightarrow> (db, 400, ShardErr ''decode'')
      | Some sh \<Rightarrow> (case RegisterShard True fault nid db sh of (db1, r) \<Rightarrow> (db1, shard_respond 201 OneShard r)))"

definition shard_get :: "faults \<Rightarrow> control_db \<Rightarrow> string \<Rightarrow> int \<times> shard_body" where
  "shard_get faults db i =
     (case GetShard (faults 0) db i of
        Inl e \<Rightarrow> (404, ShardErr (shard_error_text e))
      | Inr sh \<Rightarrow> shard_respond 200 (ShardWithTenants sh) (ListTenantsOnShard (faults 1) db (sh_ID sh)))"

definition shard_update :: "faults \<Rightarrow> control_db \<times> shard_service \<Rightarrow> string \<Rightarrow> Shard option \<Rightarrow> (control_db \<times> shard_service) \<times> int \<times> shard_body" where
  "shard_update faults s i inp =
     (case inp of
        None \<Rightarrow> (s, 400, ShardErr ''decode'')
      | Some sh \<Rightarrow> (case UpdateShard faults s i sh of (s1, r) \<Rightarrow> (s1, shard_respond 200 OneShard r)))"

definition shard_rebalance :: "string option \<Rightarrow> control_db \<times> shard_service \<Rightarrow> string \<Rightarrow> (string \<times> string) option \<Rightarrow> (control_db \<times> shard_service) \<times> int \<times> shard_body" where
  "shard_rebalance fault s i inp =
     (case inp of
        None \<Rightarrow> (s, 400, ShardErr ''decode'')
      | Some (tenantID, fromShardID) \<Rightarrow>
          if tenantID = [] then (s, 400, ShardErr ''tenant_id required'')
          else case RebalanceShard True fault s fromShardID i tenantID of (s1, r) \<Rightarrow> (s1, shard_respond 200 (Assigned tenantID) r))"

end
