(* ===== verification/Aliases.thy ===== *)
theory Aliases
  imports Billing
begin

text \<open>
  Mail aliases (\<^verbatim>\<open>internal/tenant/aliases.go\<close>) and the outbox that carries them to Stalwart: its queue
  (\<^verbatim>\<open>stalwart_alias_sync_queue.go\<close>) and the worker that drains it (\<^verbatim>\<open>stalwart_alias_sync_worker.go\<close>).

  Stalwart is the set of (account, alias) pairs it serves. A call to it takes an answer: whether it was carried out and
  whether the client saw it succeed (\<open>None\<close>) or fail with a message. \<open>parse_address\<close> is \<^verbatim>\<open>mail.ParseAddress\<close> down to the
  address. The database role of the queue sees the rows of every tenant.
\<close>

type_synonym stalwart = "(string \<times> string) set"

record sync_answer =
  sa_applied :: bool
  sa_error :: "string option"

abbreviation aliasSyncOpAdd :: string where "aliasSyncOpAdd \<equiv> ''add''"
abbreviation aliasSyncOpRemove :: string where "aliasSyncOpRemove \<equiv> ''remove''"
abbreviation AliasSyncMaxAttempts :: int where "AliasSyncMaxAttempts \<equiv> 5"

definition AddAlias :: "sync_answer \<Rightarrow> string \<Rightarrow> string \<Rightarrow> stalwart \<Rightarrow> stalwart \<times> string option" where
  "AddAlias ans account alias st = (if sa_applied ans then insert (account, alias) st else st, sa_error ans)"

definition RemoveAlias :: "sync_answer \<Rightarrow> string \<Rightarrow> string \<Rightarrow> stalwart \<Rightarrow> stalwart \<times> string option" where
  "RemoveAlias ans account alias st = (if sa_applied ans then st - {(account, alias)} else st, sa_error ans)"

subsection \<open>Queue\<close>

definition nextAliasSyncBackoff :: "int \<Rightarrow> duration" where
  "nextAliasSyncBackoff attempt =
     (if attempt = 1 then 30 * nanos_per_s else if attempt = 2 then 120 * nanos_per_s else if attempt = 3 then 600 * nanos_per_s
      else if attempt = 4 then 1800 * nanos_per_s else nanos_per_hour)"

definition enqueueAliasSyncTx :: "string \<Rightarrow> time \<Rightarrow> string \<Rightarrow> string \<Rightarrow> string \<Rightarrow> string \<Rightarrow> control_db \<Rightarrow> ctl_error + control_db \<times> string" where
  "enqueueAliasSyncTx qid now tenantID op account alias db =
     (if tenantID = [] \<or> account = [] \<or> alias = [] then Inl (ErrInvalidInput ''tenant id, stalwart account id, and alias email are required'')
      else if op \<noteq> aliasSyncOpAdd \<and> op \<noteq> aliasSyncOpRemove then Inl (ErrInvalidInput ''alias sync operation must be add or remove'')
      else if \<not> tenant_exists db tenantID then Inl (DbError ''alias_stalwart_sync_queue_tenant_id_fkey'')
      else if list_ex (\<lambda>r. sy_id r = qid) (alias_stalwart_sync_queue db) then Inl (DbError ''alias_stalwart_sync_queue_pkey'')
      else Inr (db\<lparr>alias_stalwart_sync_queue := alias_stalwart_sync_queue db @
             [\<lparr>sy_id = qid, sy_tenant = tenantID, sy_operation = op, sy_account = account, sy_alias = alias, sy_status = ''pending'', sy_attempts = 0,
               sy_last_error = [], sy_next_retry_at = now\<rparr>]\<rparr>, qid))"

text \<open>An update of the pending row with an id, or nothing.\<close>

definition on_pending :: "string \<Rightarrow> (sync_row \<Rightarrow> sync_row) \<Rightarrow> control_db \<Rightarrow> control_db" where
  "on_pending i f db =
     db\<lparr>alias_stalwart_sync_queue := map (\<lambda>r. if sy_id r = i \<and> sy_status r = ''pending'' then f r else r) (alias_stalwart_sync_queue db)\<rparr>"

definition exec :: "string option \<Rightarrow> (control_db \<Rightarrow> control_db) \<Rightarrow> control_db \<Rightarrow> control_db \<times> ctl_error option" where
  "exec fault f db = (case fault of Some e \<Rightarrow> (db, Some (DbError e)) | None \<Rightarrow> (f db, None))"

definition markAliasSyncSynced :: "string option \<Rightarrow> string \<Rightarrow> control_db \<Rightarrow> control_db \<times> ctl_error option" where
  "markAliasSyncSynced fault i = exec fault (on_pending i (\<lambda>r. r\<lparr>sy_status := ''synced'', sy_last_error := []\<rparr>))"

definition recordAliasSyncFailure :: "string option \<Rightarrow> time \<Rightarrow> string \<Rightarrow> string \<Rightarrow> duration \<Rightarrow> control_db \<Rightarrow> control_db \<times> ctl_error option" where
  "recordAliasSyncFailure fault now i msg backoff =
     exec fault (on_pending i (\<lambda>r. r\<lparr>sy_attempts := sy_attempts r + 1, sy_last_error := msg, sy_next_retry_at := now + backoff\<rparr>))"

definition markAliasSyncFailed :: "string option \<Rightarrow> string \<Rightarrow> string \<Rightarrow> control_db \<Rightarrow> control_db \<times> ctl_error option" where
  "markAliasSyncFailed fault i msg = exec fault (on_pending i (\<lambda>r. r\<lparr>sy_status := ''failed'', sy_last_error := msg\<rparr>))"

subsection \<open>Aliases\<close>

text \<open>What happens outside during one call: the faults of its statements, the clock, the ids of new rows, Stalwart's answer.\<close>

record alias_env =
  ae_faults :: faults
  ae_now :: time
  ae_nid :: string
  ae_qid :: string
  ae_answer :: sync_answer

definition normalizeAliasEmail :: "(string \<Rightarrow> string option) \<Rightarrow> string \<Rightarrow> ctl_error + string" where
  "normalizeAliasEmail parse_address inp =
     (let trimmed = trim_space inp in
      if trimmed = [] then Inl (ErrInvalidInput ''alias_email is required'')
      else case parse_address trimmed of
          None \<Rightarrow> Inl (ErrInvalidInput ''alias_email must be a valid RFC 5322 address'')
        | Some a \<Rightarrow>
            let lowered = map ascii_lower a in
            if CHR ''@'' \<notin> set lowered then Inl (ErrInvalidInput ''alias_email must contain @'') else Inr lowered)"

text \<open>\<open>sync\<close>: a Stalwart client is wired. Without a queue row (\<open>None\<close>) nothing is attempted.\<close>

definition attemptAliasSyncInline :: "bool \<Rightarrow> alias_env \<Rightarrow> string option \<Rightarrow> string \<Rightarrow> string \<Rightarrow> string \<Rightarrow> control_db \<times> stalwart \<Rightarrow> control_db \<times> stalwart" where
  "attemptAliasSyncInline sync env queueID op account alias s =
     (case (s, queueID) of
        (_, None) \<Rightarrow> s
      | ((db, st), Some i) \<Rightarrow>
          if \<not> sync then s
          else if op = aliasSyncOpAdd \<or> op = aliasSyncOpRemove then
            (case (if op = aliasSyncOpAdd then AddAlias else RemoveAlias) (ae_answer env) account alias st of
               (st1, None) \<Rightarrow> (fst (markAliasSyncSynced (ae_faults env 1) i db), st1)
             | (st1, Some e) \<Rightarrow> (fst (recordAliasSyncFailure (ae_faults env 1) (ae_now env) i e (nextAliasSyncBackoff 1) db), st1))
          else s)"

datatype alias_error = ErrAliasInUse | Ctl ctl_error

definition user_account :: "string \<Rightarrow> string \<Rightarrow> control_db \<Rightarrow> string option" where
  "user_account tenantID userID db = map_option us_StalwartAccountID (find (\<lambda>u. us_ID u = userID \<and> us_TenantID u = tenantID) (users db))"

text \<open>The transaction: the user's account, the row, and the queue row where a client is wired.\<close>

definition insert_alias :: "bool \<Rightarrow> alias_env \<Rightarrow> string \<Rightarrow> string \<Rightarrow> string \<Rightarrow> control_db \<Rightarrow> alias_error + control_db \<times> Alias \<times> string \<times> string option" where
  "insert_alias sync env tenantID userID alias db =
     (case user_account tenantID userID db of
        None \<Rightarrow> Inl (Ctl ErrNotFound)
      | Some account \<Rightarrow>
          if list_ex (\<lambda>a. al_ID a = ae_nid env \<or> al_AliasEmail a = alias) (aliases db) then Inl ErrAliasInUse
          else if \<not> tenant_exists db tenantID then Inl (Ctl (DbError ''aliases_tenant_id_fkey''))
          else let a = \<lparr>al_ID = ae_nid env, al_TenantID = tenantID, al_UserID = userID, al_AliasEmail = alias\<rparr>;
                   db1 = db\<lparr>aliases := aliases db @ [a]\<rparr>
               in if \<not> sync then Inr (db1, a, account, None)
                  else case enqueueAliasSyncTx (ae_qid env) (ae_now env) tenantID aliasSyncOpAdd account alias db1 of
                      Inl e \<Rightarrow> Inl (Ctl e)
                    | Inr (db2, i) \<Rightarrow> Inr (db2, a, account, Some i))"

definition CreateAlias :: "(string \<Rightarrow> string option) \<Rightarrow> bool \<Rightarrow> alias_env \<Rightarrow> control_db \<times> stalwart \<Rightarrow> string \<Rightarrow> string \<Rightarrow> string
    \<Rightarrow> (control_db \<times> stalwart) \<times> (alias_error + Alias)" where
  "CreateAlias parse_address sync env s tenantID userID aliasEmail =
     (case s of (db, st) \<Rightarrow>
        if tenantID = [] then (s, Inl (Ctl (ErrInvalidInput ''tenant id is required'')))
        else if userID = [] then (s, Inl (Ctl (ErrInvalidInput ''user_id is required'')))
        else case normalizeAliasEmail parse_address aliasEmail of
            Inl e \<Rightarrow> (s, Inl (Ctl e))
          | Inr alias \<Rightarrow>
              (case ae_faults env 0 of
                 Some e \<Rightarrow> (s, Inl (Ctl (DbError e)))
               | None \<Rightarrow>
                   (case insert_alias sync env tenantID userID alias db of
                      Inl e \<Rightarrow> (s, Inl e)
                    | Inr (db1, a, account, queueID) \<Rightarrow> (attemptAliasSyncInline sync env queueID aliasSyncOpAdd account (al_AliasEmail a) (db1, st), Inr a))))"

definition listAliases :: "string option \<Rightarrow> control_db \<Rightarrow> string \<Rightarrow> string \<Rightarrow> ctl_error + Alias list" where
  "listAliases fault db tenantID userID =
     snd (tx fault tenantID (\<lambda>d. Inr (d, sort_key al_AliasEmail (filter (\<lambda>a. al_TenantID a = tenantID \<and> (userID = [] \<or> al_UserID a = userID)) (aliases d)))) db)"

definition ListAliases :: "string option \<Rightarrow> control_db \<Rightarrow> string \<Rightarrow> ctl_error + Alias list" where
  "ListAliases fault db tenantID =
     (if tenantID = [] then Inl (ErrInvalidInput ''tenant id is required'') else listAliases fault db tenantID [])"

definition ListUserAliases :: "string option \<Rightarrow> control_db \<Rightarrow> string \<Rightarrow> string \<Rightarrow> ctl_error + Alias list" where
  "ListUserAliases fault db tenantID userID =
     (if tenantID = [] \<or> userID = [] then Inl (ErrInvalidInput ''tenant id and user id are required'') else listAliases fault db tenantID userID)"

text \<open>The transaction of a deletion: \<open>None\<close> without a row; the alias, the account and the queue row otherwise.\<close>

definition delete_alias :: "bool \<Rightarrow> alias_env \<Rightarrow> string \<Rightarrow> string \<Rightarrow> control_db \<Rightarrow> ctl_error + control_db \<times> (string \<times> string \<times> string option) option" where
  "delete_alias sync env tenantID aliasID db =
     (case find (\<lambda>a. al_ID a = aliasID \<and> al_TenantID a = tenantID) (aliases db) of
        None \<Rightarrow> Inr (db, None)
      | Some a \<Rightarrow>
          let db1 = db\<lparr>aliases := filter (\<lambda>r. \<not> (al_ID r = aliasID \<and> al_TenantID r = tenantID)) (aliases db)\<rparr>;
              account = coalesce (user_account tenantID (al_UserID a) db) []
          in if \<not> sync \<or> account = [] then Inr (db1, Some (al_AliasEmail a, account, None))
             else case enqueueAliasSyncTx (ae_qid env) (ae_now env) tenantID aliasSyncOpRemove account (al_AliasEmail a) db1 of
                 Inl e \<Rightarrow> Inl e
               | Inr (db2, i) \<Rightarrow> Inr (db2, Some (al_AliasEmail a, account, Some i)))"

definition DeleteAlias :: "bool \<Rightarrow> alias_env \<Rightarrow> control_db \<times> stalwart \<Rightarrow> string \<Rightarrow> string \<Rightarrow> (control_db \<times> stalwart) \<times> ctl_error option" where
  "DeleteAlias sync env s tenantID aliasID =
     (case s of (db, st) \<Rightarrow>
        if tenantID = [] \<or> aliasID = [] then (s, Some (ErrInvalidInput ''tenant id and alias id are required''))
        else case tx (ae_faults env 0) tenantID (delete_alias sync env tenantID aliasID) db of
            (db1, Inl e) \<Rightarrow> ((db1, st), Some e)
          | (db1, Inr None) \<Rightarrow> ((db1, st), Some ErrNotFound)
          | (db1, Inr (Some (alias, account, queueID))) \<Rightarrow> (attemptAliasSyncInline sync env queueID aliasSyncOpRemove account alias (db1, st), None))"

subsection \<open>Worker\<close>

text \<open>One iteration: the faults of the claim and of the bookkeeping, the clock of both, Stalwart's answer.\<close>

record tick_env =
  ke_claim_fault :: "string option"
  ke_mark_fault :: "string option"
  ke_now :: time
  ke_marked_at :: time
  ke_answer :: sync_answer
  ke_cancelled :: bool

definition due :: "time \<Rightarrow> sync_row \<Rightarrow> bool" where
  "due now r \<longleftrightarrow> sy_status r = ''pending'' \<and> sy_next_retry_at r \<le> now"

text \<open>\<^verbatim>\<open>ORDER BY next_retry_at LIMIT 1\<close>.\<close>

definition next_due :: "time \<Rightarrow> control_db \<Rightarrow> sync_row option" where
  "next_due now db = (case sort_key sy_next_retry_at (filter (due now) (alias_stalwart_sync_queue db)) of [] \<Rightarrow> None | r # _ \<Rightarrow> Some r)"

definition claim :: "time \<Rightarrow> string \<Rightarrow> control_db \<Rightarrow> control_db" where
  "claim now i db =
     db\<lparr>alias_stalwart_sync_queue := map (\<lambda>r. if sy_id r = i then r\<lparr>sy_next_retry_at := now + nextAliasSyncBackoff AliasSyncMaxAttempts\<rparr> else r) (alias_stalwart_sync_queue db)\<rparr>"

text \<open>The result is whether a row was processed, and the error.\<close>

definition processNext :: "tick_env \<Rightarrow> control_db \<times> stalwart \<Rightarrow> (control_db \<times> stalwart) \<times> bool \<times> ctl_error option" where
  "processNext env s =
     (case s of (db, st) \<Rightarrow>
        (case ke_claim_fault env of
           Some e \<Rightarrow> (s, False, Some (DbError e))
         | None \<Rightarrow>
             (case next_due (ke_now env) db of
                None \<Rightarrow> (s, False, None)
              | Some r \<Rightarrow>
                  let db1 = claim (ke_now env) (sy_id r) db in
                  if sy_operation r \<noteq> aliasSyncOpAdd \<and> sy_operation r \<noteq> aliasSyncOpRemove
                  then (case markAliasSyncFailed (ke_mark_fault env) (sy_id r) (''unknown operation '' @ sy_operation r) db1 of (db2, e) \<Rightarrow> ((db2, st), True, e))
                  else case (if sy_operation r = aliasSyncOpAdd then AddAlias else RemoveAlias) (ke_answer env) (sy_account r) (sy_alias r) st of
                      (st1, None) \<Rightarrow> (case markAliasSyncSynced (ke_mark_fault env) (sy_id r) db1 of (db2, e) \<Rightarrow> ((db2, st1), True, e))
                    | (st1, Some msg) \<Rightarrow>
                        if sy_attempts r + 1 \<ge> AliasSyncMaxAttempts
                        then (case markAliasSyncFailed (ke_mark_fault env) (sy_id r) msg db1 of (db2, e) \<Rightarrow> ((db2, st1), True, e))
                        else (case recordAliasSyncFailure (ke_mark_fault env) (ke_marked_at env) (sy_id r) msg (nextAliasSyncBackoff (sy_attempts r + 1)) db1 of
                                (db2, e) \<Rightarrow> ((db2, st1), True, e)))))"

text \<open>What is left of the retry budget of the queue: it bounds the iterations of a tick without a cap.\<close>

definition row_budget :: "sync_row \<Rightarrow> nat" where
  "row_budget r = (if sy_status r = ''pending'' then Suc (nat (AliasSyncMaxAttempts - sy_attempts r)) else 0)"

definition sync_budget :: "control_db \<Rightarrow> nat" where
  "sync_budget db = sum_list (map row_budget (alias_stalwart_sync_queue db))"

lemma sum_list_map_less:
  fixes g :: "'a \<Rightarrow> nat"
  assumes "\<And>x. x \<in> set xs \<Longrightarrow> g (f x) \<le> g x" and "r \<in> set xs" and "g (f r) < g r"
  shows "sum_list (map g (map f xs)) < sum_list (map g xs)"
  using assms
proof (induction xs)
  case (Cons a xs)
  have le: "sum_list (map g (map f xs)) \<le> sum_list (map g xs)"
    using sum_list_mono [of xs "\<lambda>x. g (f x)" g] Cons.prems(1) by (simp add: o_def)
  show ?case
  proof (cases "r \<in> set xs")
    case True
    with Cons have "sum_list (map g (map f xs)) < sum_list (map g xs)" by simp
    with Cons.prems(1) [of a] show ?thesis by simp
  next
    case False
    with Cons.prems have "r = a" by simp
    with Cons.prems(3) le show ?thesis by simp
  qed
qed simp

lemma next_due_SomeD: "next_due now db = Some r \<Longrightarrow> r \<in> set (alias_stalwart_sync_queue db) \<and> due now r"
proof -
  assume a: "next_due now db = Some r"
  then obtain rs where "sort_key sy_next_retry_at (filter (due now) (alias_stalwart_sync_queue db)) = r # rs"
    by (auto simp: next_due_def split: list.splits)
  then have "r \<in> set (sort_key sy_next_retry_at (filter (due now) (alias_stalwart_sync_queue db)))" by simp
  then show ?thesis by simp
qed

lemma row_budget_retry [simp]: "row_budget (r\<lparr>sy_next_retry_at := t\<rparr>) = row_budget r"
  by (simp add: row_budget_def)

lemma budget_claim [simp]: "sync_budget (claim now i db) = sync_budget db"
  by (simp add: sync_budget_def claim_def o_def if_distrib cong: if_cong)

lemma budget_on_pending:
  assumes "r \<in> set (alias_stalwart_sync_queue db)" and "sy_id r = i" and "sy_status r = ''pending''"
    and "\<And>x. row_budget (f x) \<le> row_budget x" and "row_budget (f r) < row_budget r"
  shows "sync_budget (on_pending i f db) < sync_budget db"
proof -
  let ?F = "\<lambda>r. if sy_id r = i \<and> sy_status r = ''pending'' then f r else r"
  have "sum_list (map row_budget (map ?F (alias_stalwart_sync_queue db))) < sum_list (map row_budget (alias_stalwart_sync_queue db))"
    by (rule sum_list_map_less [where r = r]) (use assms in auto)
  then show ?thesis by (simp add: sync_budget_def on_pending_def del: map_map)
qed

lemma claimed_row:
  assumes "next_due now db = Some r"
  shows "r\<lparr>sy_next_retry_at := now + nextAliasSyncBackoff AliasSyncMaxAttempts\<rparr> \<in> set (alias_stalwart_sync_queue (claim now (sy_id r) db))"
    and "sy_status r = ''pending''"
  using next_due_SomeD [OF assms] by (auto simp: claim_def due_def intro!: image_eqI [where x = r])

lemma processNext_progress:
  assumes "processNext env (db, st) = ((db', st'), True, None)"
  shows "sync_budget db' < sync_budget db"
proof -
  obtain r where r: "ke_claim_fault env = None" "next_due (ke_now env) db = Some r"
    using assms by (auto simp: processNext_def split: option.splits)
  note row = claimed_row [OF r(2)]
  let ?r = "r\<lparr>sy_next_retry_at := ke_now env + nextAliasSyncBackoff AliasSyncMaxAttempts\<rparr>"
  have drop: "sync_budget (on_pending (sy_id r) f (claim (ke_now env) (sy_id r) db)) < sync_budget db"
    if "\<And>x. row_budget (f x) \<le> row_budget x" "row_budget (f ?r) < row_budget ?r" for f
    using budget_on_pending [OF row(1), of "sy_id r" f] row(2) that by simp
  have pos: "0 < row_budget ?r" using row(2) by (simp add: row_budget_def)
  have settled: "sync_budget (on_pending (sy_id r) (\<lambda>x. x\<lparr>sy_status := v, sy_last_error := m\<rparr>) (claim (ke_now env) (sy_id r) db)) < sync_budget db"
    if "v \<noteq> ''pending''" for v m
    by (rule drop) (use that pos in \<open>simp_all add: row_budget_def\<close>)
  show ?thesis
  proof (cases "sy_operation r = aliasSyncOpAdd \<or> sy_operation r = aliasSyncOpRemove")
    case False
    with assms r show ?thesis
      by (auto simp: processNext_def markAliasSyncFailed_def exec_def Let_def split: option.splits intro: settled)
  next
    case True
    obtain st1 res where call: "(if sy_operation r = aliasSyncOpAdd then AddAlias else RemoveAlias) (ke_answer env) (sy_account r) (sy_alias r) st = (st1, res)"
      by fastforce
    consider "res = None" | m where "res = Some m" "sy_attempts r + 1 \<ge> AliasSyncMaxAttempts" | m where "res = Some m" "\<not> sy_attempts r + 1 \<ge> AliasSyncMaxAttempts"
      by (cases res) auto
    then show ?thesis
    proof cases
      case 1
      with assms r True call show ?thesis
        by (auto simp: processNext_def markAliasSyncSynced_def exec_def Let_def split: option.splits intro: settled)
    next
      case 2
      with assms r True call show ?thesis
        by (auto simp: processNext_def markAliasSyncFailed_def exec_def Let_def split: option.splits intro: settled)
    next
      case 3
      then have "sync_budget (on_pending (sy_id r) (\<lambda>x. x\<lparr>sy_attempts := sy_attempts x + 1, sy_last_error := m, sy_next_retry_at := t\<rparr>)
          (claim (ke_now env) (sy_id r) db)) < sync_budget db" for t
        by (intro drop) (use row(2) in \<open>auto simp: row_budget_def\<close>)
      with 3 assms r True call show ?thesis
        by (auto simp: processNext_def recordAliasSyncFailure_def exec_def Let_def split: option.splits)
    qed
  qed
qed

text \<open>
  One tick: at most \<open>cap\<close> rows (no cap if it is not positive), with a pause before every further row, until no row is due or
  a statement fails. The rows taken are counted.
\<close>

function tickLoop :: "int \<Rightarrow> bool \<Rightarrow> (nat \<Rightarrow> tick_env) \<Rightarrow> nat \<Rightarrow> control_db \<times> stalwart \<Rightarrow> (control_db \<times> stalwart) \<times> nat" where
  "tickLoop cap pause env i s =
     (if \<not> (cap \<le> 0 \<or> int i < cap) then (s, i)
      else if 0 < i \<and> pause \<and> ke_cancelled (env i) then (s, i)
      else case processNext (env i) s of
          (s', True, None) \<Rightarrow> tickLoop cap pause env (Suc i) s'
        | (s', True, Some e) \<Rightarrow> (s', Suc i)
        | (s', False, _) \<Rightarrow> (s', i))"
  by pat_completeness auto

termination tickLoop
proof (relation "measure (\<lambda>(cap, pause, env, i, s). sync_budget (fst s))")
qed (auto dest!: processNext_progress [OF sym])

declare tickLoop.simps [simp del]

end
