(* ===== verification/ShardProps.thy ===== *)
theory ShardProps
  imports Shards Aliases
begin

text \<open>
  Properties of the mail shards and of the alias outbox: the choice of a shard, the mailbox counters, the capacity after
  automatic provisioning, and the end of every tick of the alias worker.
\<close>

subsection \<open>The choice of a shard\<close>

definition measurable :: "Shard \<Rightarrow> bool" where
  "measurable sh \<longleftrightarrow> 0 < sh_MaxMailboxes sh"

lemma emptier_refl [simp]: "emptier a a"
  by (simp add: emptier_def)

lemma emptier_total: "\<not> emptier a b \<Longrightarrow> emptier b a"
  by (auto simp: emptier_def Let_def)

lemma cross_le_trans:
  fixes a b c :: int
  assumes "0 < mb" "0 < mc" "0 < ma" "a * mb \<le> b * ma" "b * mc \<le> c * mb"
  shows "a * mc \<le> c * ma" and "a * mb < b * ma \<or> b * mc < c * mb \<Longrightarrow> a * mc < c * ma"
proof -
  have 1: "(a * mb) * mc \<le> (b * ma) * mc" "(b * mc) * ma \<le> (c * mb) * ma" using assms by (simp_all add: mult_right_mono)
  then have "mb * (a * mc) \<le> mb * (c * ma)" by (simp add: algebra_simps)
  then show "a * mc \<le> c * ma" using assms(1) by simp
  assume "a * mb < b * ma \<or> b * mc < c * mb"
  then have "(a * mb) * mc < (b * ma) * mc \<or> (b * mc) * ma < (c * mb) * ma" using assms by simp
  with 1 have "mb * (a * mc) < mb * (c * ma)" by (auto simp: algebra_simps)
  then show "a * mc < c * ma" using assms(1) by simp
qed

lemma emptier_trans:
  assumes "measurable a" "measurable b" "measurable c" "emptier a b" "emptier b c"
  shows "emptier a c"
proof -
  let ?ca = "sh_CurrentMailboxes a" and ?cb = "sh_CurrentMailboxes b" and ?cc = "sh_CurrentMailboxes c"
  let ?ma = "sh_MaxMailboxes a" and ?mb = "sh_MaxMailboxes b" and ?mc = "sh_MaxMailboxes c"
  have le: "?ca * ?mb \<le> ?cb * ?ma" "?cb * ?mc \<le> ?cc * ?mb" using assms(4,5) by (auto simp: emptier_def Let_def)
  have pos: "0 < ?ma" "0 < ?mb" "0 < ?mc" using assms(1-3) by (simp_all add: measurable_def)
  note cross = cross_le_trans [OF pos(2,3,1) le]
  show ?thesis
  proof (cases "?ca * ?mb < ?cb * ?ma \<or> ?cb * ?mc < ?cc * ?mb")
    case True
    then show ?thesis using cross(2) by (simp add: emptier_def Let_def)
  next
    case False
    then have "sh_ID a \<le> sh_ID b" "sh_ID b \<le> sh_ID c" using assms(4,5) by (auto simp: emptier_def Let_def)
    then have "sh_ID a \<le> sh_ID c" by (rule order_trans)
    with cross(1) show ?thesis by (auto simp: emptier_def Let_def)
  qed
qed

lemma emptiest_None [simp]: "emptiest shs = None \<longleftrightarrow> shs = []"
  by (cases shs) (auto split: option.splits)

lemma emptiest_mem: "emptiest shs = Some sh \<Longrightarrow> sh \<in> set shs"
  by (induction shs arbitrary: sh) (auto split: option.splits if_splits)

lemma emptiest_least:
  assumes "\<forall>x \<in> set shs. measurable x" and "emptiest shs = Some sh" and "x \<in> set shs"
  shows "emptier sh x"
  using assms
proof (induction shs arbitrary: sh x)
  case (Cons a shs)
  show ?case
  proof (cases "emptiest shs")
    case None
    with Cons.prems show ?thesis by simp
  next
    case (Some b)
    then have b: "b \<in> set shs" and least: "\<And>y. y \<in> set shs \<Longrightarrow> emptier b y"
      using Cons.IH Cons.prems(1) by (auto intro: emptiest_mem)
    show ?thesis
    proof (cases "emptier a b")
      case True
      with Some Cons.prems have sh: "sh = a" by simp
      show ?thesis
      proof (cases "x = a")
        case False
        then have "x \<in> set shs" using Cons.prems(3) by simp
        then have "emptier b x" by (rule least)
        with True sh b \<open>x \<in> set shs\<close> Cons.prems(1) show ?thesis by (auto intro: emptier_trans)
      qed (simp add: sh)
    next
      case False
      with Some Cons.prems have sh: "sh = b" by simp
      with emptier_total [OF False] least Cons.prems(3) show ?thesis by auto
    qed
  qed
qed simp

lemma room_measurable: "shard_ok sh \<Longrightarrow> has_room sh \<Longrightarrow> measurable sh"
  by (auto simp: shard_ok_def has_room_def measurable_def)

subsection \<open>The mailbox counters\<close>

definition residents :: "control_db \<Rightarrow> string \<Rightarrow> string set" where
  "residents db i = {t. tenant_shard_assignments db t = Some i}"

text \<open>The tables of the shards: ids are unique, tenants are on known shards, every counter is the number of its tenants.\<close>

definition shards_ok :: "control_db \<Rightarrow> bool" where
  "shards_ok db \<longleftrightarrow>
     distinct (map sh_ID (stalwart_shards db)) \<and> finite (dom (tenant_shard_assignments db))
     \<and> ran (tenant_shard_assignments db) \<subseteq> sh_ID ` set (stalwart_shards db)
     \<and> (\<forall>sh \<in> set (stalwart_shards db). sh_CurrentMailboxes sh = int (card (residents db (sh_ID sh))) \<and> shard_ok sh)"

definition within_capacity :: "control_db \<Rightarrow> bool" where
  "within_capacity db \<longleftrightarrow> (\<forall>sh \<in> set (stalwart_shards db). sh_CurrentMailboxes sh \<le> sh_MaxMailboxes sh)"

definition same_shards :: "(Shard \<Rightarrow> Shard) \<Rightarrow> bool" where
  "same_shards f \<longleftrightarrow> (\<forall>sh. sh_ID (f sh) = sh_ID sh \<and> sh_CurrentMailboxes (f sh) = sh_CurrentMailboxes sh)"

lemma finite_residents: "finite (dom (tenant_shard_assignments db)) \<Longrightarrow> finite (residents db i)"
  by (rule finite_subset [of _ "dom (tenant_shard_assignments db)"]) (auto simp: residents_def)

lemma shard_row_unique: "distinct (map sh_ID (stalwart_shards db)) \<Longrightarrow> sh \<in> set (stalwart_shards db) \<Longrightarrow> shard_row (sh_ID sh) db = Some sh"
  unfolding shard_row_def by (rule find_unique [where f = sh_ID]) auto

lemma shard_row_SomeD: "shard_row i db = Some sh \<Longrightarrow> sh \<in> set (stalwart_shards db) \<and> sh_ID sh = i"
  unfolding shard_row_def by (auto dest: find_SomeD)

lemma update_shard_Inr:
  assumes "update_shard i f db = Inr db'" and "distinct (map sh_ID (stalwart_shards db))"
  shows "db' = db\<lparr>stalwart_shards := map (\<lambda>r. if sh_ID r = i then f r else r) (stalwart_shards db)\<rparr>
    \<and> (\<forall>sh \<in> set (stalwart_shards db). sh_ID sh = i \<longrightarrow> shard_ok (f sh))"
proof (cases "shard_row i db")
  case None
  then have none: "\<forall>sh \<in> set (stalwart_shards db). sh_ID sh \<noteq> i" unfolding shard_row_def by (auto simp: find_None_iff)
  have "map (\<lambda>r. if sh_ID r = i then f r else r) (stalwart_shards db) = stalwart_shards db" by (rule map_idI) (use none in auto)
  moreover have "db' = db" using assms(1) None by (simp add: update_shard_def)
  ultimately show ?thesis using none by (simp only:) simp
next
  case (Some sh)
  then have "\<forall>x \<in> set (stalwart_shards db). sh_ID x = i \<longrightarrow> x = sh" using shard_row_SomeD [OF Some] assms(2) by (auto intro: distinct_map_eq)
  with assms(1) Some show ?thesis by (auto simp: update_shard_def split: if_splits)
qed

lemma shards_ok_map:
  assumes "shards_ok db" and "stalwart_shards db' = map F (stalwart_shards db)" and "\<And>r. sh_ID (F r) = sh_ID r"
    and "finite (dom (tenant_shard_assignments db'))" and "ran (tenant_shard_assignments db') \<subseteq> sh_ID ` set (stalwart_shards db)"
    and "\<And>r. r \<in> set (stalwart_shards db) \<Longrightarrow> sh_CurrentMailboxes (F r) = int (card (residents db' (sh_ID r)))"
    and "\<And>r. r \<in> set (stalwart_shards db) \<Longrightarrow> shard_ok (F r)"
  shows "shards_ok db'"
proof -
  have ids: "map sh_ID (stalwart_shards db') = map sh_ID (stalwart_shards db)" using assms(2,3) by (simp add: o_def)
  then have "set (map sh_ID (stalwart_shards db')) = set (map sh_ID (stalwart_shards db))" by (simp only:)
  then have "sh_ID ` set (stalwart_shards db') = sh_ID ` set (stalwart_shards db)" by (simp only: set_map)
  moreover have "sh_CurrentMailboxes x = int (card (residents db' (sh_ID x))) \<and> shard_ok x" if "x \<in> set (stalwart_shards db')" for x
    using that assms(2,3,6,7) by auto
  ultimately show ?thesis using assms(1,4,5) ids unfolding shards_ok_def by simp
qed

text \<open>A change of one shard that keeps its id and its counter keeps the tables in order.\<close>

lemma update_shard_ok:
  assumes "shards_ok db" and "same_shards f" and "update_shard i f db = Inr db'"
  shows "shards_ok db'"
proof -
  have d: "distinct (map sh_ID (stalwart_shards db))" using assms(1) by (simp add: shards_ok_def)
  note upd = update_shard_Inr [OF assms(3) d]
  let ?F = "\<lambda>r. if sh_ID r = i then f r else r"
  have "residents db' = residents db" using upd by (simp add: residents_def fun_eq_iff)
  then show ?thesis
    using assms(1,2) upd by (intro shards_ok_map [OF assms(1), of db' ?F]) (auto simp: shards_ok_def same_shards_def)
qed

lemma card_residents_add:
  assumes "finite (dom (tenant_shard_assignments db))" and "tenant_shard_assignments db t \<noteq> Some i"
  shows "card (residents (db\<lparr>tenant_shard_assignments := (tenant_shard_assignments db)(t \<mapsto> i)\<rparr>) i) = Suc (card (residents db i))"
proof -
  have "residents (db\<lparr>tenant_shard_assignments := (tenant_shard_assignments db)(t \<mapsto> i)\<rparr>) i = insert t (residents db i)"
    by (auto simp: residents_def)
  moreover have "t \<notin> residents db i" using assms(2) by (simp add: residents_def)
  ultimately show ?thesis using finite_residents [OF assms(1)] by simp
qed

lemma residents_del:
  "j \<noteq> i \<Longrightarrow> residents (db\<lparr>tenant_shard_assignments := (tenant_shard_assignments db)(t \<mapsto> i)\<rparr>) j = residents db j - {t}"
  by (auto simp: residents_def)

lemma residents_same: "tenant_shard_assignments db t = Some i \<Longrightarrow>
    residents (db\<lparr>tenant_shard_assignments := (tenant_shard_assignments db)(t \<mapsto> i)\<rparr>) = residents db"
  by (auto simp: residents_def fun_eq_iff)

text \<open>What an assignment does to the row of a shard.\<close>

definition moved :: "string option \<Rightarrow> string \<Rightarrow> Shard \<Rightarrow> Shard" where
  "moved old i r =
     (if old = Some i then r
      else if sh_ID r = i then add_mailboxes 1 r
      else if old = Some (sh_ID r) then add_mailboxes (- 1) r else r)"

lemma moved_ID [simp]: "sh_ID (moved old i r) = sh_ID r"
  by (simp add: moved_def add_mailboxes_def)

lemma moved_Max [simp]: "sh_MaxMailboxes (moved old i r) = sh_MaxMailboxes r"
  by (simp add: moved_def add_mailboxes_def)

lemma add_mailboxes_ID [simp]: "sh_ID (add_mailboxes n r) = sh_ID r"
  by (simp add: add_mailboxes_def)

lemma assign_Inr:
  assumes "assign id t db = Inr (db', i)" and "distinct (map sh_ID (stalwart_shards db))"
  obtains sh where "emptiest (filter has_room (stalwart_shards db)) = Some sh" and "i = sh_ID sh"
    and "db' = db\<lparr>tenant_shard_assignments := (tenant_shard_assignments db)(t \<mapsto> i),
                  stalwart_shards := map (moved (tenant_shard_assignments db t) i) (stalwart_shards db)\<rparr>"
    and "\<forall>r \<in> set (stalwart_shards db'). r \<in> set (stalwart_shards db) \<or> shard_ok r"
proof -
  let ?old = "tenant_shard_assignments db t"
  let ?d1 = "db\<lparr>tenant_shard_assignments := (tenant_shard_assignments db)(t \<mapsto> i)\<rparr>"
  obtain sh d2 where sh: "emptiest (filter has_room (stalwart_shards db)) = Some sh" "i = sh_ID sh"
    and d2: "(case ?old of None \<Rightarrow> Inr ?d1 | Some o' \<Rightarrow> if o' \<noteq> i then update_shard o' (add_mailboxes (- 1)) ?d1 else Inr ?d1) = Inr d2"
    and d3: "(if ?old = Some i then Inr d2 else update_shard i (add_mailboxes 1) d2) = Inr db'"
    using assms(1) unfolding assign_def Let_def put_assignment_def
    by (cases "emptiest (filter has_room (stalwart_shards db))"; cases ?old)
      (auto simp: and_then_Inr_iff split: if_splits)
  show thesis
  proof (cases "?old = Some i")
    case True
    with d2 d3 have "db' = ?d1" by simp
    moreover have "map (moved ?old i) (stalwart_shards db) = stalwart_shards db" using True by (auto simp: moved_def intro!: map_idI)
    ultimately show thesis using sh by (intro that) auto
  next
    case False
    let ?F = "\<lambda>r. if ?old = Some (sh_ID r) then add_mailboxes (- 1) r else r"
    have 2: "d2 = ?d1\<lparr>stalwart_shards := map ?F (stalwart_shards db)\<rparr> \<and> (\<forall>r \<in> set (stalwart_shards db). ?old = Some (sh_ID r) \<longrightarrow> shard_ok (?F r))"
    proof (cases ?old)
      case None
      have id: "?d1\<lparr>stalwart_shards := stalwart_shards db\<rparr> = ?d1" by (rule control_db.equality) simp_all
      have "d2 = ?d1" using d2 None by simp
      then show ?thesis unfolding \<open>d2 = ?d1\<close> using None by (simp add: id)
    next
      case (Some o')
      with d2 False have "update_shard o' (add_mailboxes (- 1)) ?d1 = Inr d2" by simp
      from update_shard_Inr [OF this] assms(2) Some show ?thesis by (auto cong: if_cong)
    qed
    have dist: "distinct (map sh_ID (stalwart_shards d2))"
      using 2 assms(2) by (simp add: o_def if_distrib cong: if_cong)
    have "update_shard i (add_mailboxes 1) d2 = Inr db'" using d3 False by simp
    note 3 = update_shard_Inr [OF this dist]
    have "map (\<lambda>r. if sh_ID r = i then add_mailboxes 1 r else r) (map ?F (stalwart_shards db)) = map (moved ?old i) (stalwart_shards db)"
      using False by (auto simp: moved_def)
    moreover have "\<forall>r \<in> set (stalwart_shards db'). r \<in> set (stalwart_shards db) \<or> shard_ok r" using 2 3 False by auto
    ultimately show thesis using sh 2 3 by (intro that) auto
  qed
qed

lemma assign_ok:
  assumes ok: "shards_ok db" and asg: "assign id t db = Inr (db', i)"
  shows "shards_ok db'" and "within_capacity db \<Longrightarrow> within_capacity db'"
proof -
  let ?old = "tenant_shard_assignments db t"
  have dist: "distinct (map sh_ID (stalwart_shards db))" and fin: "finite (dom (tenant_shard_assignments db))" using ok by (simp_all add: shards_ok_def)
  obtain sh where sh: "emptiest (filter has_room (stalwart_shards db)) = Some sh" "i = sh_ID sh"
    and db': "db' = db\<lparr>tenant_shard_assignments := (tenant_shard_assignments db)(t \<mapsto> i), stalwart_shards := map (moved ?old i) (stalwart_shards db)\<rparr>"
    and good: "\<forall>r \<in> set (stalwart_shards db'). r \<in> set (stalwart_shards db) \<or> shard_ok r"
    using assign_Inr [OF asg dist] by metis
  have room: "sh \<in> set (stalwart_shards db)" "has_room sh" using emptiest_mem [OF sh(1)] by auto
  let ?d1 = "db\<lparr>tenant_shard_assignments := (tenant_shard_assignments db)(t \<mapsto> i)\<rparr>"
  have res: "residents db' = residents ?d1" using db' by (simp add: residents_def fun_eq_iff)
  have count: "sh_CurrentMailboxes (moved ?old i r) = int (card (residents db' (sh_ID r)))" if r: "r \<in> set (stalwart_shards db)" for r
  proof -
    have cur: "sh_CurrentMailboxes r = int (card (residents db (sh_ID r)))" using ok r by (simp add: shards_ok_def)
    consider "?old = Some i" | "?old \<noteq> Some i" "sh_ID r = i" | "?old \<noteq> Some i" "sh_ID r \<noteq> i" "?old = Some (sh_ID r)"
      | "?old \<noteq> Some i" "sh_ID r \<noteq> i" "?old \<noteq> Some (sh_ID r)" by blast
    then show ?thesis
    proof cases
      case 1
      then show ?thesis using cur res residents_same [OF 1] by (simp add: moved_def)
    next
      case 2
      then show ?thesis using cur res card_residents_add [OF fin 2(1)] by (simp add: moved_def add_mailboxes_def)
    next
      case 3
      then have "t \<in> residents db (sh_ID r)" by (simp add: residents_def)
      then have "card (residents db (sh_ID r) - {t}) = card (residents db (sh_ID r)) - 1" "0 < card (residents db (sh_ID r))"
        using finite_residents [OF fin] by (auto simp: card_gt_0_iff)
      then show ?thesis using cur res 3 residents_del [of "sh_ID r" i db t] by (simp add: moved_def add_mailboxes_def)
    next
      case 4
      then have "t \<notin> residents db (sh_ID r)" by (simp add: residents_def)
      then show ?thesis using cur res 4 residents_del [of "sh_ID r" i db t] by (simp add: moved_def)
    qed
  qed
  have "ran ((tenant_shard_assignments db)(t \<mapsto> i)) \<subseteq> sh_ID ` set (stalwart_shards db)"
    using ok sh(2) room(1) by (auto simp: shards_ok_def ran_def)
  moreover have "shard_ok (moved ?old i r)" if "r \<in> set (stalwart_shards db)" for r
    using that good ok db' by (auto simp: shards_ok_def)
  ultimately show "shards_ok db'"
    using count fin db' by (intro shards_ok_map [OF ok, of db' "moved ?old i"]) simp_all
  assume cap: "within_capacity db"
  show "within_capacity db'"
    unfolding within_capacity_def
  proof
    fix r' assume "r' \<in> set (stalwart_shards db')"
    then obtain r where r: "r \<in> set (stalwart_shards db)" "r' = moved ?old i r" using db' by auto
    have "sh_CurrentMailboxes r \<le> sh_MaxMailboxes r" using cap r(1) by (simp add: within_capacity_def)
    moreover have "sh_ID r = i \<Longrightarrow> r = sh" using r(1) room(1) sh(2) dist by (auto intro: distinct_map_eq)
    moreover have "0 \<le> sh_MaxMailboxes r" using ok r(1) by (auto simp: shards_ok_def shard_ok_def)
    ultimately show "sh_CurrentMailboxes r' \<le> sh_MaxMailboxes r'" using r(2) room(2) by (auto simp: moved_def add_mailboxes_def has_room_def)
  qed
qed

subsection \<open>Names\<close>

definition names_ok :: "control_db \<Rightarrow> bool" where
  "names_ok db \<longleftrightarrow> distinct (map sh_Name (stalwart_shards db))"

lemma distinct_map_rename:
  assumes "distinct (map g xs)" and "distinct (map k xs)" and "\<And>x. x \<in> set xs \<Longrightarrow> k x \<noteq> i \<Longrightarrow> F x = x"
    and "\<And>x y. x \<in> set xs \<Longrightarrow> y \<in> set xs \<Longrightarrow> k x = i \<Longrightarrow> k y \<noteq> i \<Longrightarrow> g (F x) \<noteq> g y"
  shows "distinct (map g (map F xs))"
proof -
  have "inj_on (\<lambda>x. g (F x)) (set xs)"
  proof (rule inj_onI)
    fix x y assume xy: "x \<in> set xs" "y \<in> set xs" "g (F x) = g (F y)"
    show "x = y"
    proof (cases "k x = i \<longleftrightarrow> k y = i")
      case True
      then have "k x = k y \<or> F x = x \<and> F y = y" using assms(3) xy by auto
      then show ?thesis using xy assms(1,2) by (auto intro: distinct_map_eq)
    next
      case False
      then show ?thesis using xy assms(3,4) by metis
    qed
  qed
  then show ?thesis using assms(1) by (simp add: distinct_map o_def)
qed

lemma update_shard_names:
  assumes "names_ok db" and "distinct (map sh_ID (stalwart_shards db))" and "update_shard i f db = Inr db'"
  shows "names_ok db'"
proof (cases "shard_row i db")
  case None
  with assms show ?thesis by (simp add: update_shard_def)
next
  case (Some sh)
  then have uniq: "\<forall>x \<in> set (stalwart_shards db). sh_ID x = i \<longrightarrow> x = sh" using shard_row_SomeD [OF Some] assms(2) by (auto intro: distinct_map_eq)
  from assms(3) Some have free: "\<forall>r \<in> set (stalwart_shards db). sh_ID r \<noteq> i \<longrightarrow> sh_Name r \<noteq> sh_Name (f sh)"
    by (auto simp: update_shard_def list_ex_iff split: if_splits)
  have "distinct (map sh_Name (map (\<lambda>r. if sh_ID r = i then f r else r) (stalwart_shards db)))"
    by (rule distinct_map_rename [where k = sh_ID and i = i]) (use assms(1,2) uniq free in \<open>auto simp: names_ok_def\<close>)
  then show ?thesis using update_shard_Inr [OF assms(3,2)] by (simp add: names_ok_def)
qed

lemma moved_Name [simp]: "sh_Name (moved old i r) = sh_Name r"
  by (simp add: moved_def add_mailboxes_def)

lemma assign_names:
  assumes "names_ok db" and "distinct (map sh_ID (stalwart_shards db))" and "assign id t db = Inr (db', i)"
  shows "names_ok db'"
proof (rule assign_Inr [OF assms(3,2)])
  fix sh
  assume "db' = db\<lparr>tenant_shard_assignments := (tenant_shard_assignments db)(t \<mapsto> i), stalwart_shards := map (moved (tenant_shard_assignments db t) i) (stalwart_shards db)\<rparr>"
  then show ?thesis using assms(1) by (simp add: names_ok_def o_def)
qed

subsection \<open>Runs\<close>

datatype shard_op =
    OpRegister "string option" string Shard
  | OpUpdate faults string Shard
  | OpHealth "string \<Rightarrow> bool" "string option" "string \<Rightarrow> string option" time
  | OpAssign "string option" string

fun shard_apply :: "shard_op \<Rightarrow> control_db \<times> shard_service \<Rightarrow> control_db \<times> shard_service" where
  "shard_apply (OpRegister fault nid sh) (db, sv) = (fst (RegisterShard True fault nid db sh), sv)"
| "shard_apply (OpUpdate faults i inp) s = fst (UpdateShard faults s i inp)"
| "shard_apply (OpHealth probe lf faults now) (db, sv) = (fst (HealthCheck probe lf faults now db), sv)"
| "shard_apply (OpAssign fault t) s = fst (AssignTenantToShard True fault id s t)"

text \<open>An operation that lowers no limit.\<close>

fun keeps_limits :: "shard_op \<Rightarrow> bool" where
  "keeps_limits (OpUpdate _ _ inp) \<longleftrightarrow> sh_MaxMailboxes inp \<le> 0"
| "keeps_limits _ \<longleftrightarrow> True"

definition shard_tables :: "control_db \<Rightarrow> bool" where
  "shard_tables db \<longleftrightarrow> shards_ok db \<and> names_ok db"

lemma register_tables:
  assumes "shard_tables db"
  shows "shard_tables (fst (RegisterShard True fault nid db sh)) \<and> (within_capacity db \<longrightarrow> within_capacity (fst (RegisterShard True fault nid db sh)))"
proof (cases "fst (RegisterShard True fault nid db sh) = db")
  case False
  let ?row = "sh\<lparr>sh_MaxMailboxes := (if sh_MaxMailboxes sh \<le> 0 then 10000 else sh_MaxMailboxes sh), sh_Status := (if sh_Status sh = [] then ShardStatusActive else sh_Status sh),
      sh_ID := nid, sh_CurrentMailboxes := 0, sh_HealthCheckedAt := 0\<rparr>"
  have "fst (RegisterShard True fault nid db sh) = db\<lparr>stalwart_shards := stalwart_shards db @ [?row]\<rparr>
      \<and> \<not> list_ex (\<lambda>r. sh_ID r = nid \<or> sh_Name r = sh_Name sh) (stalwart_shards db) \<and> shard_ok ?row"
    using False by (cases fault) (simp_all add: RegisterShard_def Let_def split: if_split_asm)
  then obtain row where db': "fst (RegisterShard True fault nid db sh) = db\<lparr>stalwart_shards := stalwart_shards db @ [row]\<rparr>"
    and row: "sh_ID row = nid" "sh_CurrentMailboxes row = 0" "shard_ok row"
    and free: "\<forall>r \<in> set (stalwart_shards db). sh_ID r \<noteq> nid \<and> sh_Name r \<noteq> sh_Name row"
    by (intro that [of ?row]) (simp_all add: list_ex_iff)
  have "residents db nid = {}" using free assms by (force simp: shard_tables_def shards_ok_def residents_def ran_def)
  moreover have "residents (db\<lparr>stalwart_shards := stalwart_shards db @ [row]\<rparr>) = residents db" by (simp add: residents_def fun_eq_iff)
  ultimately have "shards_ok (db\<lparr>stalwart_shards := stalwart_shards db @ [row]\<rparr>)"
    using assms row free by (auto simp: shard_tables_def shards_ok_def)
  moreover have "names_ok (db\<lparr>stalwart_shards := stalwart_shards db @ [row]\<rparr>)"
    using assms free by (auto simp: shard_tables_def names_ok_def)
  moreover have "0 \<le> sh_MaxMailboxes row" using row(3) by (simp add: shard_ok_def)
  ultimately show ?thesis using row(2) by (auto simp: db' shard_tables_def within_capacity_def)
qed (use assms in auto)

lemma update_tables:
  assumes "shard_tables db" and "same_shards f" and "update_shard i f db = Inr db'"
  shows "shard_tables db' \<and> ((\<forall>r. sh_MaxMailboxes (f r) = sh_MaxMailboxes r) \<longrightarrow> within_capacity db \<longrightarrow> within_capacity db')"
proof -
  have d: "distinct (map sh_ID (stalwart_shards db))" using assms(1) by (simp add: shard_tables_def shards_ok_def)
  have "shard_tables db'"
    using update_shard_ok [OF _ assms(2,3)] update_shard_names [OF _ d assms(3)] assms(1) by (simp add: shard_tables_def)
  then show ?thesis using update_shard_Inr [OF assms(3) d] assms(2) by (auto simp: within_capacity_def same_shards_def)
qed

definition tables_step :: "bool \<Rightarrow> control_db \<Rightarrow> control_db \<Rightarrow> bool" where
  "tables_step keeps db db' \<longleftrightarrow> (shard_tables db \<longrightarrow> shard_tables db' \<and> (keeps \<longrightarrow> within_capacity db \<longrightarrow> within_capacity db'))"

lemma health_step: "tables_step True db (fst (UpdateShardHealth fault now db i healthy))"
proof (cases "fst (UpdateShardHealth fault now db i healthy) = db")
  case False
  then obtain f db' where "update_shard i f db = Inr db'" "fst (UpdateShardHealth fault now db i healthy) = db'"
    and "same_shards f" "\<forall>r. sh_MaxMailboxes (f r) = sh_MaxMailboxes r"
    by (auto simp: UpdateShardHealth_def same_shards_def split: option.splits sum.splits)
  then show ?thesis using update_tables [of db f i db'] by (simp add: tables_step_def)
qed (simp add: tables_step_def)

lemma tables_step_trans: "tables_step k a b \<Longrightarrow> tables_step k b c \<Longrightarrow> tables_step k a c"
  by (auto simp: tables_step_def)

lemma health_check_step: "tables_step True db (fst (HealthCheck probe lf faults now db))"
proof -
  have "tables_step True d (fold (\<lambda>sh d. if sh_Status sh = ShardStatusDraining then d else fst (UpdateShardHealth (faults (sh_ID sh)) now d (sh_ID sh) (probe (sh_StalwartURL sh)))) shs d)" for shs d
  proof (induction shs arbitrary: d)
    case (Cons a shs)
    then show ?case using health_step tables_step_trans by (cases "sh_Status a = ShardStatusDraining") (fastforce simp: tables_step_def)+
  qed (simp add: tables_step_def)
  then show ?thesis by (auto simp: HealthCheck_def tables_step_def split: sum.splits)
qed

lemma assign_step:
  assumes "assign id t db = Inr (db', i)"
  shows "tables_step True db db'"
proof -
  have "shard_tables db' \<and> (within_capacity db \<longrightarrow> within_capacity db')" if tab: "shard_tables db"
  proof -
    have d: "distinct (map sh_ID (stalwart_shards db))" using tab by (simp add: shard_tables_def shards_ok_def)
    have ok: "shards_ok db" and names: "names_ok db" using tab by (simp_all add: shard_tables_def)
    show ?thesis using assign_ok [OF ok assms] assign_names [OF names d assms] by (simp add: shard_tables_def)
  qed
  then show ?thesis by (simp add: tables_step_def)
qed

lemma shard_apply_step: "tables_step (keeps_limits op) (fst s) (fst (shard_apply op s))"
proof (cases s)
  case (Pair db sv)
  show ?thesis
  proof (cases op)
    case (OpRegister fault nid sh)
    then show ?thesis using register_tables Pair by (simp add: tables_step_def)
  next
    case (OpUpdate faults i inp)
    show ?thesis
    proof (cases "fst (fst (UpdateShard faults (db, sv) i inp)) = db")
      case True
      then show ?thesis using OpUpdate Pair by (simp add: tables_step_def)
    next
      case False
      then obtain f db' where "update_shard i f db = Inr db'" "fst (fst (UpdateShard faults (db, sv) i inp)) = db'"
        and "same_shards f" "sh_MaxMailboxes inp \<le> 0 \<longrightarrow> (\<forall>r. sh_MaxMailboxes (f r) = sh_MaxMailboxes r)"
        by (auto simp: UpdateShard_def same_shards_def split: option.splits sum.splits if_splits)
      then show ?thesis using update_tables [of db f i db'] OpUpdate Pair by (simp add: tables_step_def)
    qed
  next
    case (OpHealth probe lf faults now)
    then show ?thesis using health_check_step Pair by simp
  next
    case (OpAssign fault t)
    show ?thesis
    proof (cases "fst (fst (AssignTenantToShard True fault id (db, sv) t)) = db")
      case True
      then show ?thesis using OpAssign Pair by (simp add: tables_step_def)
    next
      case False
      then obtain db' i where "assign id t db = Inr (db', i)" "fst (fst (AssignTenantToShard True fault id (db, sv) t)) = db'"
        by (auto simp: AssignTenantToShard_def split: option.splits sum.splits if_splits)
      then show ?thesis using assign_step [of t db db' i] OpAssign Pair by simp
    qed
  qed
qed

text \<open>
  C22: From tables without shards and assignments, in whatever order shards are registered, updated, probed and tenants
  assigned, one transaction after the other, the mailbox counter of every shard is the number of tenants assigned to it,
  every assigned tenant is on a registered shard, and as long as no operator lowers a limit no shard holds more
  tenants than its limit. Assignments that overlap are excluded: they take no lock between their reads and their writes.\<close>

theorem shard_counters_match:
  assumes "stalwart_shards db = []" and "tenant_shard_assignments db = Map.empty"
  shows "case fold shard_apply ops (db, sv) of (db', sv') \<Rightarrow>
    (\<forall>sh \<in> set (stalwart_shards db'). sh_CurrentMailboxes sh = int (card (residents db' (sh_ID sh)))
       \<and> (list_all keeps_limits ops \<longrightarrow> sh_CurrentMailboxes sh \<le> sh_MaxMailboxes sh))
    \<and> ran (tenant_shard_assignments db') \<subseteq> sh_ID ` set (stalwart_shards db')"
proof -
  have steps: "tables_step (list_all keeps_limits ops) (fst s) (fst (fold shard_apply ops s))" for s
  proof (induction ops arbitrary: s)
    case (Cons op ops)
    have "tables_step (list_all keeps_limits (op # ops)) (fst s) (fst (shard_apply op s))"
      using shard_apply_step [of op s] by (auto simp: tables_step_def)
    moreover have "tables_step (list_all keeps_limits (op # ops)) (fst (shard_apply op s)) (fst (fold shard_apply ops (shard_apply op s)))"
      using Cons.IH [of "shard_apply op s"] by (auto simp: tables_step_def)
    ultimately show ?case by (simp add: tables_step_def)
  qed (simp add: tables_step_def)
  have "shard_tables db" "within_capacity db" using assms by (simp_all add: shard_tables_def shards_ok_def names_ok_def within_capacity_def)
  moreover obtain db' sv' where run: "fold shard_apply ops (db, sv) = (db', sv')" by (cases "fold shard_apply ops (db, sv)")
  ultimately have "shard_tables db'" and "list_all keeps_limits ops \<longrightarrow> within_capacity db'" using steps [of "(db, sv)"] by (simp_all add: tables_step_def)
  then show ?thesis unfolding run by (simp add: shard_tables_def shards_ok_def within_capacity_def)
qed

text \<open>
  Overlapping assignments break it. Two of one tenant count it twice, and two of different tenants fill the last place of a shard
  together.\<close>

definition race_tables :: control_db where
  "race_tables = (control_tables [active_tenant ''t1'', active_tenant ''t2''] [])\<lparr>stalwart_shards :=
     [\<lparr>sh_ID = ''s1'', sh_Name = ''east'', sh_StalwartURL = ''http://east'', sh_PostgresDSN = [], sh_MaxMailboxes = 1, sh_CurrentMailboxes = 0,
       sh_Status = ShardStatusActive, sh_HealthCheckedAt = 0\<rparr>]\<rparr>"

definition racing :: "string \<Rightarrow> string \<Rightarrow> control_db" where
  "racing t t' = fst (fst (AssignTenantToShard True None (\<lambda>db. fst (fst (AssignTenantToShard True None id (db, NewShardService) t')))
     (race_tables, NewShardService) t))"

lemma racing_assignments_miscount:
  "map sh_CurrentMailboxes (stalwart_shards (racing ''t1'' ''t1'')) = [2] \<and> tenant_shard_assignments (racing ''t1'' ''t1'') ''t2'' = None"
  by code_simp

lemma racing_assignments_exceed_capacity:
  "map (\<lambda>sh. (sh_CurrentMailboxes sh, sh_MaxMailboxes sh)) (stalwart_shards (racing ''t1'' ''t2'')) = [(2, 1)]"
  by code_simp

definition ex_shard :: "string \<Rightarrow> int \<Rightarrow> Shard" where
  "ex_shard name n = \<lparr>sh_ID = [], sh_Name = name, sh_StalwartURL = ''http://'' @ name, sh_PostgresDSN = [], sh_MaxMailboxes = n, sh_CurrentMailboxes = 0, sh_Status = [], sh_HealthCheckedAt = 0\<rparr>"

definition ex_shard_ops :: "shard_op list" where
  "ex_shard_ops = [OpRegister None ''s1'' (ex_shard ''east'' 1), OpRegister None ''s2'' (ex_shard ''west'' 2), OpAssign None ''t1'', OpAssign None ''t2'']"

theorem shard_counters_match_witness:
  "map sh_CurrentMailboxes (stalwart_shards (fst (fold shard_apply ex_shard_ops (control_tables [active_tenant ''t1'', active_tenant ''t2''] [], NewShardService)))) = [1, 1]
   \<and> ran (tenant_shard_assignments (fst (fold shard_apply ex_shard_ops (control_tables [active_tenant ''t1'', active_tenant ''t2''] [], NewShardService))))
      \<subseteq> sh_ID ` set (stalwart_shards (fst (fold shard_apply ex_shard_ops (control_tables [active_tenant ''t1'', active_tenant ''t2''] [], NewShardService))))"
proof -
  have "stalwart_shards (control_tables ts us) = []" "tenant_shard_assignments (control_tables ts us) = Map.empty" for ts us by (simp_all add: control_tables_def)
  from shard_counters_match [OF this, of ex_shard_ops "[active_tenant ''t1'', active_tenant ''t2'']" "[]" NewShardService]
  have "ran (tenant_shard_assignments (fst (fold shard_apply ex_shard_ops (control_tables [active_tenant ''t1'', active_tenant ''t2''] [], NewShardService))))
      \<subseteq> sh_ID ` set (stalwart_shards (fst (fold shard_apply ex_shard_ops (control_tables [active_tenant ''t1'', active_tenant ''t2''] [], NewShardService))))"
    by (simp split: prod.splits)
  moreover have "map sh_CurrentMailboxes (stalwart_shards (fst (fold shard_apply ex_shard_ops (control_tables [active_tenant ''t1'', active_tenant ''t2''] [], NewShardService)))) = [1, 1]"
    by code_simp
  ultimately show ?thesis by blast
qed

text \<open>A rebalance to the shard the tenant is on already counts it twice, past the limit too.\<close>

lemma rebalance_miscounts:
  "let s = fold shard_apply [OpRegister None ''s1'' (ex_shard ''east'' 1), OpAssign None ''t1''] (control_tables [active_tenant ''t1''] [], NewShardService);
       db' = fst (fst (RebalanceShard True None s [] ''s1'' ''t1''))
   in map (\<lambda>sh. (sh_CurrentMailboxes sh, sh_MaxMailboxes sh)) (stalwart_shards db') = [(2, 1)] \<and> length (tenants db') = 1"
  by code_simp

subsection \<open>Provisioning\<close>

lemma update_shard_succeeds:
  assumes "names_ok db" and "distinct (map sh_ID (stalwart_shards db))"
    and "\<And>sh. sh \<in> set (stalwart_shards db) \<Longrightarrow> sh_ID sh = i \<Longrightarrow> shard_ok (f sh) \<and> sh_Name (f sh) = sh_Name sh"
  shows "\<exists>db'. update_shard i f db = Inr db'"
proof (cases "shard_row i db")
  case (Some sh)
  then have sh: "sh \<in> set (stalwart_shards db)" "sh_ID sh = i" by (auto dest: shard_row_SomeD)
  then have "\<not> list_ex (\<lambda>r. sh_ID r \<noteq> i \<and> sh_Name r = sh_Name (f sh)) (stalwart_shards db)"
    using assms(1,3) by (auto simp: list_ex_iff names_ok_def dest: distinct_map_eq)
  then show ?thesis using Some sh assms(3) by (simp add: update_shard_def)
qed (simp add: update_shard_def)

lemma add_mailboxes_simps [simp]:
  "sh_Name (add_mailboxes n r) = sh_Name r" "sh_MaxMailboxes (add_mailboxes n r) = sh_MaxMailboxes r" "sh_Status (add_mailboxes n r) = sh_Status r"
  by (simp_all add: add_mailboxes_def)

lemma shard_ok_less: "shard_ok r \<Longrightarrow> shard_ok (add_mailboxes (- 1) r)"
  by (auto simp: shard_ok_def add_mailboxes_def fits_int4_def)

lemma shard_ok_more: "shard_ok r \<Longrightarrow> has_room r \<Longrightarrow> shard_ok (add_mailboxes 1 r)"
  by (auto simp: shard_ok_def add_mailboxes_def fits_int4_def has_room_def)

lemma assign_succeeds:
  assumes tab: "shard_tables db" and "tenant_exists db t" and room: "list_ex has_room (stalwart_shards db)"
  shows "\<exists>db' i. assign id t db = Inr (db', i)"
proof -
  have dist: "distinct (map sh_ID (stalwart_shards db))" and names: "names_ok db" and oks: "\<forall>r \<in> set (stalwart_shards db). shard_ok r"
    using tab by (simp_all add: shard_tables_def shards_ok_def)
  obtain sh where sh: "emptiest (filter has_room (stalwart_shards db)) = Some sh"
    using room by (cases "emptiest (filter has_room (stalwart_shards db))") (auto simp: list_ex_iff filter_empty_conv)
  then have mem: "sh \<in> set (stalwart_shards db)" "has_room sh" using emptiest_mem by fastforce+
  define d1 where "d1 = db\<lparr>tenant_shard_assignments := (tenant_shard_assignments db)(t \<mapsto> sh_ID sh)\<rparr>"
  have put: "put_assignment t (sh_ID sh) db = Inr d1"
    using assms(2) shard_row_unique [OF dist mem(1)] by (simp add: put_assignment_def d1_def)
  have d1: "stalwart_shards d1 = stalwart_shards db" "names_ok d1" using names by (simp_all add: d1_def names_ok_def)
  let ?old = "tenant_shard_assignments db t"
  have dec: "\<exists>d2. update_shard o' (add_mailboxes (- 1)) d1 = Inr d2" for o'
    by (rule update_shard_succeeds) (use d1 dist oks shard_ok_less in auto)
  have inc: "\<exists>d3. update_shard (sh_ID sh) (add_mailboxes 1) d2 = Inr d3"
    if "d2 = d1 \<or> (\<exists>o'. o' \<noteq> sh_ID sh \<and> update_shard o' (add_mailboxes (- 1)) d1 = Inr d2)" for d2
  proof (rule update_shard_succeeds)
    have d2: "names_ok d2 \<and> distinct (map sh_ID (stalwart_shards d2)) \<and> (\<forall>r \<in> set (stalwart_shards d2). sh_ID r = sh_ID sh \<longrightarrow> r = sh)"
      using that
    proof
      assume "d2 = d1"
      then show ?thesis using d1 dist mem(1) by (auto intro: distinct_map_eq)
    next
      assume "\<exists>o'. o' \<noteq> sh_ID sh \<and> update_shard o' (add_mailboxes (- 1)) d1 = Inr d2"
      then obtain o' where o': "o' \<noteq> sh_ID sh" "update_shard o' (add_mailboxes (- 1)) d1 = Inr d2" by blast
      have dist1: "distinct (map sh_ID (stalwart_shards d1))" using d1(1) dist by simp
      from update_shard_Inr [OF o'(2) dist1] d1(1)
      have shards: "stalwart_shards d2 = map (\<lambda>r. if sh_ID r = o' then add_mailboxes (- 1) r else r) (stalwart_shards db)" by simp
      have "distinct (map sh_ID (stalwart_shards d2))" using dist by (simp add: shards o_def if_distrib cong: if_cong)
      moreover have "\<forall>r \<in> set (stalwart_shards d2). sh_ID r = sh_ID sh \<longrightarrow> r = sh" using o'(1) mem(1) dist by (auto simp: shards intro: distinct_map_eq)
      ultimately show ?thesis using update_shard_names [OF d1(2) dist1 o'(2)] by simp
    qed
    then show "names_ok d2" "distinct (map sh_ID (stalwart_shards d2))" by simp_all
    fix r assume "r \<in> set (stalwart_shards d2)" "sh_ID r = sh_ID sh"
    then show "shard_ok (add_mailboxes 1 r) \<and> sh_Name (add_mailboxes 1 r) = sh_Name r" using d2 mem oks shard_ok_more by auto
  qed
  show ?thesis
  proof (cases "?old = Some (sh_ID sh) \<or> ?old = None")
    case True
    then show ?thesis using sh put inc [of d1] by (auto simp: assign_def Let_def)
  next
    case False
    then obtain o' where o': "?old = Some o'" "o' \<noteq> sh_ID sh" by auto
    obtain d2 where d2: "update_shard o' (add_mailboxes (- 1)) d1 = Inr d2" using dec by blast
    then obtain d3 where "update_shard (sh_ID sh) (add_mailboxes 1) d2 = Inr d3" using inc [of d2] o'(2) by blast
    then show ?thesis using sh put o' d2 by (simp add: assign_def Let_def)
  qed
qed

text \<open>
  When the provisioner returns a machine that is not out of service, one undisturbed round of automatic provisioning
  leaves the cluster with a free mailbox slot: any tenant can be assigned to a shard afterwards.\<close>

theorem provisioning_makes_room:
  assumes "shard_tables db" and "tenant_exists db t" and "t \<noteq> []" and "name \<noteq> []" and "\<forall>r \<in> set (stalwart_shards db). sh_ID r \<noteq> nid \<and> sh_Name r \<noteq> name"
    and "provision name = Inr sh" and "sh_Name sh \<in> {[], name}" and "sh_StalwartURL sh \<noteq> []" and "sh_Status sh \<in> {[], ShardStatusActive}" and "fits_int4 (sh_MaxMailboxes sh)"
  shows "\<exists>db' r i. AutoProvisionShard (Some provision) (\<lambda>_. None) True name nid (\<lambda>d. d) db threshold = (db', Inr r)
    \<and> snd (AssignTenantToShard True None id (db', sv) t) = Inr i"
proof -
  let ?shards = "sort_key sh_Name (stalwart_shards db)"
  have assignable: "\<exists>i. snd (AssignTenantToShard True None id (d, sv) t) = Inr i"
    if "shard_tables d" "tenant_exists d t" "list_ex has_room (stalwart_shards d)" for d
    using assign_succeeds [OF that] assms(3) by (auto simp: AssignTenantToShard_def)
  show ?thesis
  proof (cases "needsProvision ?shards (threshold_or_default threshold)")
    case False
    then have "list_ex has_room (stalwart_shards db)" by (simp add: needsProvision_def list_ex_iff split: prod.splits)
    with False assignable [of db] assms(1,2) show ?thesis by (simp add: AutoProvisionShard_def ListShards_def Let_def)
  next
    case True
    let ?sh = "if sh_Name sh = [] then sh\<lparr>sh_Name := name\<rparr> else sh"
    let ?reg = "?sh\<lparr>sh_MaxMailboxes := (if sh_MaxMailboxes ?sh \<le> 0 then 10000 else sh_MaxMailboxes ?sh), sh_Status := (if sh_Status ?sh = [] then ShardStatusActive else sh_Status ?sh)\<rparr>"
    let ?row = "?reg\<lparr>sh_ID := nid, sh_CurrentMailboxes := 0, sh_HealthCheckedAt := 0\<rparr>"
    let ?db' = "db\<lparr>stalwart_shards := stalwart_shards db @ [?row]\<rparr>"
    have name: "sh_Name ?sh = name" "sh_StalwartURL ?sh \<noteq> []" using assms(7,8) by auto
    have fresh: "\<not> list_ex (\<lambda>r. sh_ID r = nid \<or> sh_Name r = name) (stalwart_shards db)" using assms(5) by (auto simp: list_ex_iff)
    have ok: "shard_ok ?row" using assms(9,10) by (auto simp: shard_ok_def fits_int4_def)
    have reg: "RegisterShard True None nid db ?sh = (?db', Inr (?reg\<lparr>sh_ID := nid\<rparr>))"
      using name assms(4) fresh ok unfolding RegisterShard_def Let_def by simp
    have "shard_tables ?db'" using register_tables [OF assms(1), of None nid ?sh] unfolding reg by simp
    moreover have "tenant_exists ?db' t" using assms(2) by (simp add: tenant_exists_def)
    moreover have "has_room ?row" using assms(9) by (auto simp: has_room_def)
    then have "list_ex has_room (stalwart_shards ?db')" by simp
    ultimately obtain i where "snd (AssignTenantToShard True None id (?db', sv) t) = Inr i" using assignable [of ?db'] by blast
    moreover have "AutoProvisionShard (Some provision) (\<lambda>_. None) True name nid (\<lambda>d. d) db threshold = (?db', Inr (Some (?reg\<lparr>sh_ID := nid\<rparr>)))"
      using True assms(6) unfolding AutoProvisionShard_def Let_def ListShards_def by (simp add: reg del: if_split)
    ultimately show ?thesis by blast
  qed
qed

theorem provisioning_makes_room_witness:
  "\<exists>db' r i. AutoProvisionShard (Some (\<lambda>n. Inr (ex_shard [] 5))) (\<lambda>_. None) True ''auto-1'' ''n1'' (\<lambda>d. d) (control_tables [active_tenant ''t1''] []) 0 = (db', Inr r)
    \<and> snd (AssignTenantToShard True None id (db', NewShardService) ''t1'') = Inr i"
  by (rule provisioning_makes_room [where sh = "ex_shard [] 5"])
    (simp_all add: shard_tables_def shards_ok_def names_ok_def control_tables_def tenant_exists_def active_tenant_def ex_shard_def fits_int4_def)

subsection \<open>The alias worker\<close>

lemma tickLoop_more:
  assumes "cap \<le> 0 \<or> int i < cap" and "\<not> (0 < i \<and> pause \<and> ke_cancelled (env i))"
  shows "tickLoop cap pause env i s =
    (case processNext (env i) s of (s', True, None) \<Rightarrow> tickLoop cap pause env (Suc i) s' | (s', True, Some e) \<Rightarrow> (s', Suc i) | (s', False, _) \<Rightarrow> (s', i))"
  using assms by (subst tickLoop.simps) auto

lemma processNext_spent:
  assumes "processNext env s = (s', True, e)"
  shows "0 < sync_budget (fst s)"
proof -
  obtain db st where s: "s = (db, st)" by (cases s)
  then obtain r where "next_due (ke_now env) db = Some r" using assms by (auto simp: processNext_def split: option.splits)
  then have r: "r \<in> set (alias_stalwart_sync_queue db)" "due (ke_now env) r" using next_due_SomeD by blast+
  then have "row_budget r \<in> set (map row_budget (alias_stalwart_sync_queue db))" "0 < row_budget r" by (simp_all add: due_def row_budget_def)
  then show ?thesis using member_le_sum_list [of "row_budget r" "map row_budget (alias_stalwart_sync_queue db)"] by (simp add: s sync_budget_def)
qed

lemma processNext_took:
  assumes "ke_claim_fault env = None" and "ke_mark_fault env = None" and "next_due (ke_now env) db = Some r"
  shows "\<exists>s'. processNext env (db, st) = (s', True, None)"
proof -
  consider "sy_operation r = aliasSyncOpAdd" | "sy_operation r = aliasSyncOpRemove" | "sy_operation r \<noteq> aliasSyncOpAdd" "sy_operation r \<noteq> aliasSyncOpRemove" by blast
  then show ?thesis
    by cases (cases "sa_error (ke_answer env)"; cases "sy_attempts r + 1 \<ge> AliasSyncMaxAttempts";
      simp add: assms processNext_def Let_def markAliasSyncFailed_def markAliasSyncSynced_def recordAliasSyncFailure_def exec_def AddAlias_def RemoveAlias_def)+
qed

lemma tickLoop_bound: "snd (tickLoop cap pause env i s) \<le> i + sync_budget (fst s) \<and> (0 < cap \<longrightarrow> int i \<le> cap \<longrightarrow> int (snd (tickLoop cap pause env i s)) \<le> cap)"
proof (induction cap pause env i s rule: tickLoop.induct)
  case (1 cap pause env i s)
  show ?case
  proof (cases "(cap \<le> 0 \<or> int i < cap) \<and> \<not> (0 < i \<and> pause \<and> ke_cancelled (env i))")
    case False
    then show ?thesis by (subst (1 2) tickLoop.simps) auto
  next
    case True
    have more: "tickLoop cap pause env i s =
        (case processNext (env i) s of (s', True, None) \<Rightarrow> tickLoop cap pause env (Suc i) s' | (s', True, Some e) \<Rightarrow> (s', Suc i) | (s', False, _) \<Rightarrow> (s', i))"
      by (rule tickLoop_more) (use True in auto)
    obtain s' took e where p: "processNext (env i) s = (s', took, e)" by (cases "processNext (env i) s")
    show ?thesis
    proof (cases "took \<and> e = None")
      case go: True
      then have "snd (tickLoop cap pause env (Suc i) s') \<le> Suc i + sync_budget (fst s') \<and> (0 < cap \<longrightarrow> int (Suc i) \<le> cap \<longrightarrow> int (snd (tickLoop cap pause env (Suc i) s')) \<le> cap)"
        using "1.IH" True p by simp
      moreover have "sync_budget (fst s') < sync_budget (fst s)" using processNext_progress [of "env i" "fst s" "snd s" "fst s'" "snd s'"] p go by simp
      ultimately show ?thesis using more p go True by auto
    next
      case stop: False
      then show ?thesis using more p True processNext_spent [of "env i" s s' e] by (cases took; cases e) auto
    qed
  qed
qed

lemma tickLoop_drains:
  assumes "cap \<le> 0" and "\<not> pause" and "\<forall>k. ke_claim_fault (env k) = None \<and> ke_mark_fault (env k) = None"
  shows "case tickLoop cap pause env i s of (s', n) \<Rightarrow> next_due (ke_now (env n)) (fst s') = None"
  using assms
proof (induction cap pause env i s rule: tickLoop.induct)
  case (1 cap pause env i s)
  have more: "tickLoop cap pause env i s =
    (case processNext (env i) s of (s', True, None) \<Rightarrow> tickLoop cap pause env (Suc i) s' | (s', True, Some e) \<Rightarrow> (s', Suc i) | (s', False, _) \<Rightarrow> (s', i))"
    by (rule tickLoop_more) (use "1.prems" in auto)
  obtain db st where s: "s = (db, st)" by (cases s)
  show ?case
  proof (cases "next_due (ke_now (env i)) db")
    case None
    then have "processNext (env i) s = (s, False, None)" using "1.prems"(3) by (simp add: processNext_def s)
    then show ?thesis using more None s by simp
  next
    case (Some r)
    then obtain s' where p: "processNext (env i) s = (s', True, None)"
      using processNext_took [of "env i" db r st] "1.prems"(3) s by auto
    then have "case tickLoop cap pause env (Suc i) s' of (s', n) \<Rightarrow> next_due (ke_now (env n)) (fst s') = None" using "1.IH" "1.prems" by simp
    then show ?thesis using more p by simp
  qed
qed

text \<open>
  C23: Every tick of the alias worker ends, whatever Stalwart and the clock do: it takes at most as many rows as the retry
  budget of the queue allows, and at most its cap. A tick without a cap, a pause and database faults ends with no row due.\<close>

theorem alias_tick_ends:
  "snd (tickLoop cap pause env 0 s) \<le> sync_budget (fst s)
   \<and> (0 < cap \<longrightarrow> int (snd (tickLoop cap pause env 0 s)) \<le> cap)
   \<and> ((\<forall>k. ke_claim_fault (env k) = None \<and> ke_mark_fault (env k) = None) \<longrightarrow>
        (case tickLoop 0 False env 0 s of (s', n) \<Rightarrow> next_due (ke_now (env n)) (fst s') = None))"
  using tickLoop_bound [of cap pause env 0 s] tickLoop_drains [of 0 False env 0 s] by simp

definition ex_user :: User where
  "ex_user = \<lparr>us_ID = ''u1'', us_TenantID = ''t1'', us_KChatUserID = ''k1'', us_StalwartAccountID = ''acc'', us_Email = ''a@x'', us_DisplayName = ''A'', us_Role = ''member'',
     us_Status = ''active'', us_AccountType = ''user'', us_QuotaBytes = 0\<rparr>"

definition ex_alias_db :: control_db where
  "ex_alias_db = (control_tables [active_tenant ''t1''] [])\<lparr>users := [ex_user]\<rparr>"

definition ex_alias_env :: "time \<Rightarrow> string \<Rightarrow> bool \<Rightarrow> alias_env" where
  "ex_alias_env now qid up = \<lparr>ae_faults = (\<lambda>_. None), ae_now = now, ae_nid = ''al1'', ae_qid = qid,
     ae_answer = \<lparr>sa_applied = up, sa_error = (if up then None else Some ''down'')\<rparr>\<rparr>"

definition ex_tick_env :: "time \<Rightarrow> bool \<Rightarrow> nat \<Rightarrow> tick_env" where
  "ex_tick_env now up k = \<lparr>ke_claim_fault = None, ke_mark_fault = None, ke_now = now, ke_marked_at = now,
     ke_answer = \<lparr>sa_applied = up, sa_error = (if up then None else Some ''down'')\<rparr>, ke_cancelled = False\<rparr>"

text \<open>An alias is created while Stalwart is down.\<close>

definition ex_created :: "control_db \<times> stalwart" where
  "ex_created = fst (CreateAlias Some True (ex_alias_env 0 ''q1'' False) (ex_alias_db, {}) ''t1'' ''u1'' ''sales@x'')"

theorem alias_tick_ends_witness:
  "sync_budget (fst ex_created) = 5
   \<and> snd (tickLoop 0 False (ex_tick_env (60 * nanos_per_s) False) 0 ex_created) \<le> 5
   \<and> (case tickLoop 0 False (ex_tick_env (60 * nanos_per_s) False) 0 ex_created of
        (s', n) \<Rightarrow> next_due (ke_now (ex_tick_env (60 * nanos_per_s) False n)) (fst s') = None)"
proof -
  have budget: "sync_budget (fst ex_created) = 5" by code_simp
  have "\<forall>k. ke_claim_fault (ex_tick_env (60 * nanos_per_s) False k) = None \<and> ke_mark_fault (ex_tick_env (60 * nanos_per_s) False k) = None"
    by (simp add: ex_tick_env_def)
  with alias_tick_ends [of 0 False "ex_tick_env (60 * nanos_per_s) False" ex_created] budget show ?thesis by simp
qed

text \<open>
  The alias is deleted again, with Stalwart back; then the worker retries the older row and Stalwart serves an alias that
  is in no table, with nothing left in the queue to correct it.
\<close>

lemma deleted_alias_comes_back:
  "let s = fst (DeleteAlias True (ex_alias_env (10 * nanos_per_s) ''q2'' True) ex_created ''t1'' ''al1'');
       (db, st) = fst (tickLoop 50 False (ex_tick_env (60 * nanos_per_s) True) 0 s)
   in aliases db = [] \<and> st = {(''acc'', ''sales@x'')} \<and> map sy_status (alias_stalwart_sync_queue db) = [''synced'', ''synced'']"
  by code_simp

end
