(* ===== verification/BillingFlow.thy ===== *)
theory BillingFlow
  imports Billing Encoding
begin

text \<open>
  What happens around the quota service: the Stripe client (\<^verbatim>\<open>stripe.go\<close>), the lifecycle hooks (\<^verbatim>\<open>lifecycle.go\<close>),
  dunning (\<^verbatim>\<open>dunning.go\<close>), the Stripe webhook (\<^verbatim>\<open>webhook.go\<close>), storage events with their webhook and worker
  (\<^verbatim>\<open>storage_events.go\<close>, \<^verbatim>\<open>storage_event_worker.go\<close>), the quota worker (\<^verbatim>\<open>quota_worker.go\<close>) and the HTTP handlers
  (\<^verbatim>\<open>handlers.go\<close>, \<^verbatim>\<open>portal_handler.go\<close>).

  Calls to Stripe are returned as a list of requests, their answers are arguments. Request bodies arrive decoded
  (\<open>None\<close> for a body that does not decode).
\<close>

subsection \<open>Stripe client\<close>

record SubscriptionRequest =
  sr_Customer :: string
  sr_PriceID :: string
  sr_Quantity :: int
  sr_ItemID :: string
  sr_Metadata :: "(string \<times> string) list"

text \<open>A request of the client: method, path and form; \<open>path_escape\<close> is \<^verbatim>\<open>url.PathEscape\<close>.\<close>

record stripe_request =
  rq_method :: string
  rq_path :: string
  rq_form :: "(string \<times> string) list"

definition metadata_form :: "(string \<times> string) list \<Rightarrow> (string \<times> string) list" where
  "metadata_form md = map (\<lambda>(k, v). (''metadata['' @ k @ '']'', v)) md"

definition opt_field :: "string \<Rightarrow> string \<Rightarrow> (string \<times> string) list" where
  "opt_field k v = (if v = [] then [] else [(k, v)])"

definition quantity_field :: "int \<Rightarrow> (string \<times> string) list" where
  "quantity_field n = (if n > 0 then [(''items[0][quantity]'', itoa n)] else [])"

definition CreateCustomer :: "bool \<Rightarrow> string \<Rightarrow> (string \<times> string) list \<Rightarrow> string + stripe_request" where
  "CreateCustomer configured email md =
     (if \<not> configured then Inl ''stripe: not configured''
      else Inr \<lparr>rq_method = ''POST'', rq_path = ''/v1/customers'', rq_form = opt_field ''email'' email @ metadata_form md\<rparr>)"

definition CreateSubscription :: "bool \<Rightarrow> SubscriptionRequest \<Rightarrow> string + stripe_request" where
  "CreateSubscription configured req =
     (if \<not> configured then Inl ''stripe: not configured''
      else Inr \<lparr>rq_method = ''POST'', rq_path = ''/v1/subscriptions'',
        rq_form = [(''customer'', sr_Customer req), (''items[0][price]'', sr_PriceID req)] @ quantity_field (sr_Quantity req) @ metadata_form (sr_Metadata req)\<rparr>)"

definition UpdateSubscription :: "(string \<Rightarrow> string) \<Rightarrow> bool \<Rightarrow> string \<Rightarrow> SubscriptionRequest \<Rightarrow> string + stripe_request" where
  "UpdateSubscription path_escape configured i req =
     (if \<not> configured then Inl ''stripe: not configured''
      else if i = [] then Inl ''stripe: subscription id required''
      else if (sr_PriceID req \<noteq> [] \<or> sr_Quantity req > 0) \<and> sr_ItemID req = []
      then Inl ''stripe: ItemID is required when modifying an existing subscription item''
      else Inr \<lparr>rq_method = ''POST'', rq_path = ''/v1/subscriptions/'' @ path_escape i,
        rq_form = opt_field ''items[0][id]'' (sr_ItemID req) @ opt_field ''items[0][price]'' (sr_PriceID req) @ quantity_field (sr_Quantity req)
                  @ metadata_form (sr_Metadata req)\<rparr>)"

definition CancelSubscription :: "(string \<Rightarrow> string) \<Rightarrow> bool \<Rightarrow> string \<Rightarrow> string + stripe_request" where
  "CancelSubscription path_escape configured i =
     (if \<not> configured then Inl ''stripe: not configured''
      else if i = [] then Inl ''stripe: subscription id required''
      else Inr \<lparr>rq_method = ''DELETE'', rq_path = ''/v1/subscriptions/'' @ path_escape i, rq_form = []\<rparr>)"

definition CreatePortalSession :: "bool \<Rightarrow> string \<Rightarrow> string \<Rightarrow> string + stripe_request" where
  "CreatePortalSession configured customer returnURL =
     (if \<not> configured then Inl ''stripe: not configured''
      else if customer = [] then Inl ''stripe: customer required''
      else Inr \<lparr>rq_method = ''POST'', rq_path = ''/v1/billing_portal/sessions'', rq_form = (''customer'', customer) # opt_field ''return_url'' returnURL\<rparr>)"

subsection \<open>Lifecycle\<close>

text \<open>
  \<open>lc_stripe\<close>: a Stripe client is wired and configured. A missing price is \<open>None\<close>, which the code reads as the empty
  string. \<open>ans_customer\<close> and \<open>ans_subscription\<close> are Stripe's answers, the id or an error.
\<close>

record Lifecycle =
  lc_cfg :: billing_config
  lc_stripe :: bool
  lc_pricing :: "string \<rightharpoonup> string"
  lc_path_escape :: "string \<Rightarrow> string"

record stripe_answers =
  ans_customer :: "string + string"
  ans_subscription :: "string + string"

definition price_of :: "Lifecycle \<Rightarrow> string \<Rightarrow> string" where
  "price_of l plan = (case lc_pricing l plan of None \<Rightarrow> [] | Some p \<Rightarrow> p)"

definition nonempty :: "string \<Rightarrow> string option" where
  "nonempty s = (if s = [] then None else Some s)"

definition or_else :: "'a option \<Rightarrow> 'a option \<Rightarrow> 'a option" where
  "or_else a b = (case a of None \<Rightarrow> b | Some x \<Rightarrow> Some x)"

text \<open>The constraints of \<^verbatim>\<open>billing_subscriptions\<close>: the tenant, the plan, the status and the unique subscription id.\<close>

definition put_subscription :: "string \<Rightarrow> Subscription \<Rightarrow> control_db \<Rightarrow> ctl_error + control_db" where
  "put_subscription tenantID sub db =
     (if \<not> tenant_exists db tenantID then Inl (DbError ''billing_subscriptions_tenant_id_fkey'')
      else if ValidatePlan (sub_Plan sub) \<noteq> None then Inl (DbError ''billing_subscriptions_plan_check'')
      else if sub_Status sub \<notin> {''active'', ''past_due'', ''cancelled''} then Inl (DbError ''billing_subscriptions_status_check'')
      else if sub_StripeSubscriptionID sub \<noteq> None
              \<and> list_ex (\<lambda>t. tn_ID t \<noteq> tenantID
                     \<and> (case billing_subscriptions db (tn_ID t) of None \<Rightarrow> False | Some r \<Rightarrow> sub_StripeSubscriptionID r = sub_StripeSubscriptionID sub)) (tenants db)
      then Inl (DbError ''billing_subscriptions_stripe_subscription_id_key'')
      else Inr (db\<lparr>billing_subscriptions := (billing_subscriptions db)(tenantID \<mapsto> sub)\<rparr>))"

definition upsertSubscriptionWithStripe :: "Lifecycle \<Rightarrow> string option \<Rightarrow> control_db \<Rightarrow> string \<Rightarrow> string \<Rightarrow> string \<Rightarrow> string \<Rightarrow> string \<Rightarrow> time \<Rightarrow> time
    \<Rightarrow> control_db \<times> (ctl_error + unit)" where
  "upsertSubscriptionWithStripe l fault db tenantID plan status stripeID stripeCustomerID periodStart periodEnd =
     (if \<not> cfg_Pool (lc_cfg l) then (db, Inr ())
      else tx fault tenantID (\<lambda>d.
        let old = billing_subscriptions d tenantID;
            keep = (\<lambda>v f. or_else (nonempty v) (case old of None \<Rightarrow> None | Some r \<Rightarrow> f r))
        in and_then (put_subscription tenantID
             \<lparr>sub_Plan = plan, sub_Status = status, sub_StripeSubscriptionID = keep stripeID sub_StripeSubscriptionID,
              sub_StripeCustomerID = keep stripeCustomerID sub_StripeCustomerID, sub_CurrentPeriodStart = periodStart, sub_CurrentPeriodEnd = periodEnd\<rparr> d)
             (\<lambda>d'. Inr (d', ()))) db)"

definition upsertSubscription :: "Lifecycle \<Rightarrow> string option \<Rightarrow> control_db \<Rightarrow> string \<Rightarrow> string \<Rightarrow> string \<Rightarrow> string \<Rightarrow> time \<Rightarrow> time
    \<Rightarrow> control_db \<times> (ctl_error + unit)" where
  "upsertSubscription l fault db tenantID plan status stripeID periodStart periodEnd =
     upsertSubscriptionWithStripe l fault db tenantID plan status stripeID [] periodStart periodEnd"

definition GetSubscription :: "Lifecycle \<Rightarrow> string option \<Rightarrow> control_db \<Rightarrow> string \<Rightarrow> ctl_error + Subscription" where
  "GetSubscription l fault db tenantID =
     (if \<not> cfg_Pool (lc_cfg l) then Inl ErrNotFound
      else snd (tx fault tenantID (\<lambda>d. case billing_subscriptions d tenantID of None \<Rightarrow> Inl ErrNotFound | Some r \<Rightarrow> Inr (d, r)) db))"

definition subscription_id :: "Subscription \<Rightarrow> string" where
  "subscription_id sub = coalesce (sub_StripeSubscriptionID sub) []"

definition markSubscriptionCancelled :: "Lifecycle \<Rightarrow> string option \<Rightarrow> control_db \<Rightarrow> string \<Rightarrow> control_db \<times> (ctl_error + unit)" where
  "markSubscriptionCancelled l fault db tenantID =
     (if \<not> cfg_Pool (lc_cfg l) then (db, Inr ())
      else tx fault tenantID (\<lambda>d.
        Inr (d\<lparr>billing_subscriptions := (case billing_subscriptions d tenantID of
               None \<Rightarrow> billing_subscriptions d
             | Some r \<Rightarrow> (billing_subscriptions d)(tenantID \<mapsto> r\<lparr>sub_Status := ''cancelled''\<rparr>))\<rparr>, ())) db)"

text \<open>The requests of \<^verbatim>\<open>OnTenantCreated\<close> and the two ids they yield.\<close>

definition create_in_stripe :: "Lifecycle \<Rightarrow> stripe_answers \<Rightarrow> string \<Rightarrow> string \<Rightarrow> (string + stripe_request) list \<times> string \<times> string" where
  "create_in_stripe l ans tenantID plan =
     (if \<not> lc_stripe l then ([], [], [])
      else let c1 = CreateCustomer True [] [(''kmail_tenant_id'', tenantID)] in
           case ans_customer ans of
             Inl _ \<Rightarrow> ([c1], [], [])
           | Inr customerID \<Rightarrow>
               if price_of l plan = [] then ([c1], customerID, [])
               else ([c1, CreateSubscription True \<lparr>sr_Customer = customerID, sr_PriceID = price_of l plan, sr_Quantity = 1, sr_ItemID = [],
                            sr_Metadata = [(''kmail_tenant_id'', tenantID), (''kmail_plan'', plan)]\<rparr>],
                     customerID, case ans_subscription ans of Inl _ \<Rightarrow> [] | Inr i \<Rightarrow> i))"

definition OnTenantCreated :: "Lifecycle \<Rightarrow> stripe_answers \<Rightarrow> faults \<Rightarrow> time \<Rightarrow> control_db \<Rightarrow> string \<Rightarrow> string
    \<Rightarrow> control_db \<times> (string + stripe_request) list \<times> (ctl_error + unit)" where
  "OnTenantCreated l ans faults now db tenantID plan =
     (case ValidatePlan plan of
        Some e \<Rightarrow> (db, [], Inl e)
      | None \<Rightarrow>
          (case UpsertQuota (lc_cfg l) (faults 0) db tenantID (seat_bytes_or_zero (lc_cfg l) plan) 1 of
             (db1, Inl e) \<Rightarrow> (db1, [], Inl e)
           | (db1, Inr _) \<Rightarrow>
               (case create_in_stripe l ans tenantID plan of
                  (calls, customerID, subscriptionID) \<Rightarrow>
                    (case upsertSubscriptionWithStripe l (faults 1) db1 tenantID plan ''active'' subscriptionID customerID now (AddMonth now) of
                       (db2, r) \<Rightarrow> (db2, calls, r)))))"

definition OnTenantDeleted :: "Lifecycle \<Rightarrow> faults \<Rightarrow> control_db \<Rightarrow> string \<Rightarrow> control_db \<times> (string + stripe_request) list \<times> (ctl_error + unit)" where
  "OnTenantDeleted l faults db tenantID =
     (let db1 = fst (CalculateInvoice (lc_cfg l) faults db tenantID);
          calls = (if lc_stripe l
                   then (case GetSubscription l (faults 3) db1 tenantID of
                           Inr sub \<Rightarrow> if subscription_id sub \<noteq> [] then [CancelSubscription (lc_path_escape l) True (subscription_id sub)] else []
                         | Inl _ \<Rightarrow> [])
                   else [])
      in case markSubscriptionCancelled l (faults 4) db1 tenantID of (db2, r) \<Rightarrow> (db2, calls, r))"

text \<open>
  Whole days of a duration, plus one. The code divides hours as floating point numbers and truncates; up to 128 days
  that is the integer quotient.
\<close>

definition days_started :: "duration \<Rightarrow> int" where
  "days_started d = quot d nanos_per_day + 1"

definition computeProration :: "Lifecycle \<Rightarrow> string option \<Rightarrow> control_db \<Rightarrow> string \<Rightarrow> string \<Rightarrow> string \<Rightarrow> time \<Rightarrow> time \<Rightarrow> time \<Rightarrow> ctl_error + int" where
  "computeProration l fault db tenantID oldPlan newPlan periodStart periodEnd now0 =
     (if oldPlan = [] \<or> newPlan = [] \<or> oldPlan = newPlan then Inr 0
      else and_then (GetPlanPricing (lc_cfg l) oldPlan) (\<lambda>oldCents.
           and_then (GetPlanPricing (lc_cfg l) newPlan) (\<lambda>newCents.
           and_then (case CountSeats (lc_cfg l) fault db tenantID of Inl ErrNotFound \<Rightarrow> Inr 0 | r \<Rightarrow> r) (\<lambda>seats.
             let periodDays = (let p = days_started (time_Sub periodEnd periodStart) in if p \<le> 0 then 30 else p);
                 now = (if now0 < periodStart then periodStart else now0)
             in if now > periodEnd then Inr 0
                else let remainingDays = max 0 (days_started (time_Sub periodEnd now));
                         delta = int64 (int64 (newCents - oldCents) * seats)
                     in Inr (quot (int64 (delta * remainingDays)) periodDays)))))"

definition recordEvent :: "Lifecycle \<Rightarrow> string option \<Rightarrow> control_db \<Rightarrow> string \<Rightarrow> string \<Rightarrow> (string \<times> string) list \<Rightarrow> int \<Rightarrow> control_db \<times> (ctl_error + unit)" where
  "recordEvent l fault db tenantID eventType md amountCents =
     (if \<not> cfg_Pool (lc_cfg l) then (db, Inr ())
      else tx fault tenantID (\<lambda>d.
        and_then (insert_event ((event_row tenantID eventType)\<lparr>be_metadata := md, be_amount_cents := Some amountCents\<rparr>) d) (\<lambda>d'. Inr (d', ()))) db)"

definition OnPlanChanged :: "Lifecycle \<Rightarrow> faults \<Rightarrow> time \<Rightarrow> control_db \<Rightarrow> string \<Rightarrow> string \<Rightarrow> string
    \<Rightarrow> control_db \<times> (string + stripe_request) list \<times> (ctl_error + unit)" where
  "OnPlanChanged l faults now db tenantID oldPlan newPlan =
     (case GetSubscription l (faults 0) db tenantID of
        Inl ErrNotFound \<Rightarrow>
          (case upsertSubscription l (faults 1) db tenantID newPlan ''active'' [] now (AddMonth now) of (db1, r) \<Rightarrow> (db1, [], r))
      | Inl e \<Rightarrow> (db, [], Inl e)
      | Inr sub \<Rightarrow>
          let prorated = (case computeProration l (faults 1) db tenantID oldPlan newPlan (sub_CurrentPeriodStart sub) (sub_CurrentPeriodEnd sub) now of
                            Inl _ \<Rightarrow> 0 | Inr n \<Rightarrow> n);
              calls = (if lc_stripe l \<and> subscription_id sub \<noteq> [] \<and> price_of l newPlan \<noteq> []
                       then [UpdateSubscription (lc_path_escape l) True (subscription_id sub) \<lparr>sr_Customer = [], sr_PriceID = [], sr_Quantity = 0, sr_ItemID = [],
                               sr_Metadata = [(''kmail_plan'', newPlan), (''kmail_price_id'', price_of l newPlan)]\<rparr>]
                       else [])
          in case upsertSubscription l (faults 2) db tenantID newPlan (sub_Status sub) (subscription_id sub) (sub_CurrentPeriodStart sub) (sub_CurrentPeriodEnd sub) of
               (db1, Inl e) \<Rightarrow> (db1, calls, Inl e)
             | (db1, Inr _) \<Rightarrow>
                 (case recordEvent l (faults 3) db1 tenantID ''plan_prorated''
                         [(''old_plan'', oldPlan), (''new_plan'', newPlan), (''proration_cents'', itoa prorated)] prorated of
                    (db2, r) \<Rightarrow> (db2, calls, r)))"

definition OnSeatAdded :: "Lifecycle \<Rightarrow> string option \<Rightarrow> control_db \<Rightarrow> string \<Rightarrow> control_db \<times> (ctl_error + unit)" where
  "OnSeatAdded l fault db tenantID = IncrementSeatCount (lc_cfg l) fault db tenantID 1"

definition OnSeatRemoved :: "Lifecycle \<Rightarrow> string option \<Rightarrow> control_db \<Rightarrow> string \<Rightarrow> control_db \<times> (ctl_error + unit)" where
  "OnSeatRemoved l fault db tenantID = IncrementSeatCount (lc_cfg l) fault db tenantID (- 1)"

definition ProrationPreview :: "Lifecycle \<Rightarrow> faults \<Rightarrow> time \<Rightarrow> control_db \<Rightarrow> string \<Rightarrow> string \<Rightarrow> ctl_error + int" where
  "ProrationPreview l faults now db tenantID newPlan =
     and_then (GetSubscription l (faults 0) db tenantID) (\<lambda>sub.
       computeProration l (faults 1) db tenantID (sub_Plan sub) newPlan (sub_CurrentPeriodStart sub) (sub_CurrentPeriodEnd sub) now)"

record BillingHistoryEntry =
  bh_EventType :: string
  bh_AmountCents :: int
  bh_SeatCount :: int
  bh_Metadata :: "(string \<times> string) list"

definition ListBillingHistory :: "Lifecycle \<Rightarrow> string option \<Rightarrow> control_db \<Rightarrow> string \<Rightarrow> int \<Rightarrow> ctl_error + BillingHistoryEntry list" where
  "ListBillingHistory l fault db tenantID lmt0 =
     (if \<not> cfg_Pool (lc_cfg l) then Inr []
      else let lmt = (if lmt0 \<le> 0 \<or> lmt0 > 200 then 50 else lmt0) in
           snd (tx fault tenantID (\<lambda>d. Inr (d,
             map (\<lambda>e. \<lparr>bh_EventType = be_type e, bh_AmountCents = coalesce (be_amount_cents e) 0, bh_SeatCount = coalesce (be_seat_count e) 0,
                       bh_Metadata = be_metadata e\<rparr>)
               (take (nat lmt) (rev (filter (\<lambda>e. be_tenant e = tenantID) (billing_events d)))))) db))"

subsection \<open>Dunning\<close>

abbreviation dunningWindow :: duration where "dunningWindow \<equiv> 30 * 24 * nanos_per_hour"
abbreviation dunningSuspendThreshold :: int where "dunningSuspendThreshold \<equiv> 3"

record DunningEvent =
  de_TenantID :: string
  de_StripeInvoiceID :: string
  de_StripeCustomerID :: string
  de_AmountDue :: int
  de_Currency :: string
  de_OccurredAt :: "time option"

record dunning_config =
  dc_Pool :: bool
  dc_Notifier :: bool
  dc_Auditor :: bool

datatype dunning_effect =
    NotifyPaymentFailed string string int string
  | AuditPaymentFailed string string int int string
  | AuditTenantSuspended string int

definition insert_dunning :: "DunningEvent \<Rightarrow> time \<Rightarrow> control_db \<Rightarrow> ctl_error + control_db \<times> bool" where
  "insert_dunning evt occurred db =
     (if list_ex (\<lambda>r. du_invoice r = de_StripeInvoiceID evt) (billing_dunning_events db) then Inr (db, False)
      else if \<not> tenant_exists db (de_TenantID evt) then Inl (DbError ''billing_dunning_events_tenant_id_fkey'')
      else Inr (db\<lparr>billing_dunning_events := billing_dunning_events db @
                  [\<lparr>du_tenant = de_TenantID evt, du_invoice = de_StripeInvoiceID evt, du_customer = de_StripeCustomerID evt, du_amount = de_AmountDue evt,
                    du_currency = de_Currency evt, du_occurred_at = occurred\<rparr>]\<rparr>, True))"

definition failures_since :: "time \<Rightarrow> string \<Rightarrow> control_db \<Rightarrow> int" where
  "failures_since cutoff tenantID db = int (length (filter (\<lambda>r. du_tenant r = tenantID \<and> du_occurred_at r \<ge> cutoff) (billing_dunning_events db)))"

definition recordAndCount :: "dunning_config \<Rightarrow> string option \<Rightarrow> control_db \<Rightarrow> DunningEvent \<Rightarrow> time \<Rightarrow> control_db \<times> (ctl_error + int \<times> bool)" where
  "recordAndCount cfg fault db evt occurred =
     (if \<not> dc_Pool cfg then (db, Inr (1, True))
      else tx fault (de_TenantID evt) (\<lambda>d.
        and_then (insert_dunning evt occurred d) (\<lambda>(d', isNew).
        Inr (d', (failures_since (occurred - dunningWindow) (de_TenantID evt) d', isNew)))) db)"

definition suspend :: "dunning_config \<Rightarrow> string option \<Rightarrow> control_db \<Rightarrow> string \<Rightarrow> control_db \<times> (ctl_error + unit)" where
  "suspend cfg fault db tenantID =
     (if \<not> dc_Pool cfg then (db, Inr ())
      else tx fault tenantID (\<lambda>d.
        Inr (d\<lparr>tenants := map (\<lambda>t. if tn_ID t = tenantID \<and> tn_Status t \<noteq> ''suspended'' then t\<lparr>tn_Status := ''suspended''\<rparr> else t) (tenants d)\<rparr>, ())) db)"

definition dunning_Handle :: "dunning_config \<Rightarrow> faults \<Rightarrow> time \<Rightarrow> control_db \<Rightarrow> DunningEvent \<Rightarrow> control_db \<times> dunning_effect list \<times> ctl_error option" where
  "dunning_Handle cfg faults now db evt =
     (if de_TenantID evt = [] then (db, [], Some (OtherError ''dunning: tenant id required''))
      else let occurred = coalesce (de_OccurredAt evt) now in
           case recordAndCount cfg (faults 0) db evt occurred of
             (db1, Inl e) \<Rightarrow> (db1, [], Some e)
           | (db1, Inr (failures, isNew)) \<Rightarrow>
               let told = (if isNew then
                     (if dc_Notifier cfg then [NotifyPaymentFailed (de_TenantID evt) (de_StripeInvoiceID evt) (de_AmountDue evt) (de_Currency evt)] else [])
                     @ (if dc_Auditor cfg then [AuditPaymentFailed (de_TenantID evt) (de_StripeInvoiceID evt) failures (de_AmountDue evt) (de_Currency evt)] else [])
                   else [])
               in if isNew \<and> failures \<ge> dunningSuspendThreshold
                  then (case suspend cfg (faults 1) db1 (de_TenantID evt) of
                          (db2, Inl e) \<Rightarrow> (db2, told, Some e)
                        | (db2, Inr _) \<Rightarrow> (db2, told @ (if dc_Auditor cfg then [AuditTenantSuspended (de_TenantID evt) failures] else []), None))
                  else (db1, told, None))"

end
