(* ===== verification/BillingEvents.thy ===== *)
theory BillingEvents
  imports BillingFlow
begin

text \<open>
  The Stripe webhook (\<^verbatim>\<open>webhook.go\<close>), storage events with their webhook and worker (\<^verbatim>\<open>storage_events.go\<close>,
  \<^verbatim>\<open>storage_event_worker.go\<close>), the quota worker (\<^verbatim>\<open>quota_worker.go\<close>) and the HTTP handlers (\<^verbatim>\<open>handlers.go\<close>,
  \<^verbatim>\<open>portal_handler.go\<close>). \<open>hmac key msg\<close> is HMAC-SHA256.
\<close>

subsection \<open>Signed requests\<close>

abbreviation replayWindow :: duration where "replayWindow \<equiv> 300 * nanos_per_s"

text \<open>The fields \<^verbatim>\<open>t\<close> and \<^verbatim>\<open>v1\<close> of a signature header; the last of several wins.\<close>

definition signature_fields :: "string \<Rightarrow> string \<times> string" where
  "signature_fields header =
     fold (\<lambda>kv (t, v1). case splitN2 (CHR ''='') (trim_space kv) of
             [k, v] \<Rightarrow> if k = ''t'' then (v, v1) else if k = ''v1'' then (t, v) else (t, v1)
           | _ \<Rightarrow> (t, v1))
       (split_on (CHR '','') header) ([], [])"

definition outside_window :: "time \<Rightarrow> int \<Rightarrow> bool" where
  "outside_window now ts = (let delta = time_Sub now (ts * nanos_per_s) in delta > replayWindow \<or> delta < - replayWindow)"

definition stripe_verify :: "(string \<Rightarrow> string \<Rightarrow> byte list) \<Rightarrow> string \<Rightarrow> time \<Rightarrow> string \<Rightarrow> string \<Rightarrow> string option" where
  "stripe_verify hmac secret now header body =
     (if secret = [] then None
      else if header = [] then Some ''missing Stripe-Signature header''
      else let (t, v1) = signature_fields header in
           if t = [] \<or> v1 = [] then Some ''malformed Stripe-Signature header''
           else if hex_encode (hmac secret (t @ ''.'' @ body)) \<noteq> v1 then Some ''signature mismatch''
           else case ParseInt t of
               None \<Rightarrow> Some ''malformed Stripe-Signature timestamp''
             | Some ts \<Rightarrow> if outside_window now ts then Some ''Stripe-Signature timestamp outside replay window'' else None)"

text \<open>\<^verbatim>\<open>hex.DecodeString\<close>.\<close>

definition hex_val :: "char \<Rightarrow> nat option" where
  "hex_val c =
     (let n = of_char c :: nat in
      if 48 \<le> n \<and> n \<le> 57 then Some (n - 48)
      else if 97 \<le> n \<and> n \<le> 102 then Some (n - 87)
      else if 65 \<le> n \<and> n \<le> 70 then Some (n - 55) else None)"

fun hex_decode :: "string \<Rightarrow> byte list option" where
  "hex_decode [] = Some []"
| "hex_decode [c] = None"
| "hex_decode (a # b # cs) =
     (case (hex_val a, hex_val b, hex_decode cs) of
        (Some h, Some l, Some bs) \<Rightarrow> Some (of_nat (16 * h + l) # bs)
      | _ \<Rightarrow> None)"

definition storage_verify :: "(string \<Rightarrow> string \<Rightarrow> byte list) \<Rightarrow> string \<Rightarrow> time \<Rightarrow> string \<Rightarrow> string \<Rightarrow> string option" where
  "storage_verify hmac secret now header body =
     (if secret = [] then None
      else if header = [] then Some ''missing X-Kmail-Signature header''
      else let (t, v1) = signature_fields header in
           if t = [] \<or> v1 = [] then Some ''malformed X-Kmail-Signature header''
           else case hex_decode v1 of
               None \<Rightarrow> Some ''malformed X-Kmail-Signature value''
             | Some sig \<Rightarrow>
                 if hmac secret (t @ ''.'' @ body) \<noteq> sig then Some ''signature mismatch''
                 else case ParseInt t of
                     None \<Rightarrow> Some ''malformed X-Kmail-Signature timestamp''
                   | Some ts \<Rightarrow> if outside_window now ts then Some ''X-Kmail-Signature timestamp outside replay window'' else None)"

subsection \<open>Stripe webhook\<close>

record subscriptionObject =
  so_ID :: string
  so_Status :: string
  so_Metadata :: "(string \<times> string) list"
  so_CurrentPeriodStart :: int
  so_CurrentPeriodEnd :: int

text \<open>An event with what its object decodes to as a payment, a checkout session and a subscription.\<close>

record stripeEvent =
  ev_Type :: string
  ev_payment :: "(string \<times> string) list option"
  ev_checkout :: "string option"
  ev_subscription :: "subscriptionObject option"

definition lookup_or_empty :: "(string \<times> string) list \<Rightarrow> string \<Rightarrow> string" where
  "lookup_or_empty md k = (case map_of md k of None \<Rightarrow> [] | Some v \<Rightarrow> v)"

definition tenantIDFromObject :: "stripeEvent \<Rightarrow> string" where
  "tenantIDFromObject ev = (case ev_payment ev of None \<Rightarrow> [] | Some md \<Rightarrow> lookup_or_empty md ''tenant_id'')"

definition set_subscription_status :: "string \<Rightarrow> string \<Rightarrow> control_db \<Rightarrow> control_db" where
  "set_subscription_status tenantID status db =
     db\<lparr>billing_subscriptions := (case billing_subscriptions db tenantID of
          None \<Rightarrow> billing_subscriptions db
        | Some r \<Rightarrow> (billing_subscriptions db)(tenantID \<mapsto> r\<lparr>sub_Status := status\<rparr>))\<rparr>"

definition markActive :: "bool \<Rightarrow> string option \<Rightarrow> control_db \<Rightarrow> stripeEvent \<Rightarrow> control_db \<times> (ctl_error + unit)" where
  "markActive pool fault db ev =
     (let tenantID = tenantIDFromObject ev in
      if tenantID = [] \<or> \<not> pool then (db, Inr ())
      else tx fault tenantID (\<lambda>d. Inr (set_subscription_status tenantID ''active'' d, ())) db)"

definition markPastDue :: "bool \<Rightarrow> string option \<Rightarrow> control_db \<Rightarrow> stripeEvent \<Rightarrow> control_db \<times> (ctl_error + unit)" where
  "markPastDue pool fault db ev =
     (let tenantID = tenantIDFromObject ev in
      if tenantID = [] \<or> \<not> pool then (db, Inr ())
      else tx fault tenantID (\<lambda>d. Inr (set_subscription_status tenantID ''past_due'' d, ())) db)"

definition mapStripeStatus :: "string \<Rightarrow> string" where
  "mapStripeStatus s =
     (if s \<in> {''active'', ''trialing''} then ''active''
      else if s \<in> {''past_due'', ''unpaid'', ''incomplete'', ''incomplete_expired''} then ''past_due''
      else if s \<in> {''canceled'', ''cancelled''} then ''cancelled''
      else ''active'')"

definition validSubscriptionStatus :: "string \<Rightarrow> bool" where
  "validSubscriptionStatus s \<longleftrightarrow>
     s \<in> {''active'', ''trialing'', ''past_due'', ''unpaid'', ''canceled'', ''cancelled'', ''incomplete'', ''incomplete_expired''}"

definition applySubscriptionUpdate :: "bool \<Rightarrow> string option \<Rightarrow> control_db \<Rightarrow> stripeEvent \<Rightarrow> control_db \<times> (ctl_error + unit)" where
  "applySubscriptionUpdate pool fault db ev =
     (case ev_subscription ev of
        None \<Rightarrow> (db, Inl (OtherError ''decode''))
      | Some so \<Rightarrow>
          let tenantID = lookup_or_empty (so_Metadata so) ''tenant_id'';
              status = (if so_Status so = [] then ''active'' else so_Status so)
          in if tenantID = [] \<or> \<not> pool then (db, Inr ())
             else if \<not> validSubscriptionStatus status then (db, Inl (OtherError (''unknown stripe status '' @ status)))
             else tx fault tenantID (\<lambda>d.
               case billing_subscriptions d tenantID of
                 None \<Rightarrow> Inr (d, ())
               | Some r \<Rightarrow>
                   and_then (put_subscription tenantID (r\<lparr>sub_Status := mapStripeStatus status, sub_StripeSubscriptionID := Some (so_ID so),
                       sub_CurrentPeriodStart := so_CurrentPeriodStart so * nanos_per_s, sub_CurrentPeriodEnd := so_CurrentPeriodEnd so * nanos_per_s\<rparr>) d)
                     (\<lambda>d'. Inr (d', ()))) db)"

text \<open>
  \<open>completer\<close> is the signup flow behind \<^verbatim>\<open>SignupCompleter\<close>, if wired; \<open>lifecycle\<close>: a lifecycle is wired. The second
  component is the checkout session handed to the signup flow.
\<close>

definition completeSignup :: "(string \<Rightarrow> ctl_error option) option \<Rightarrow> stripeEvent \<Rightarrow> string option \<times> (ctl_error + unit)" where
  "completeSignup completer ev =
     (case completer of
        None \<Rightarrow> (None, Inr ())
      | Some complete \<Rightarrow>
          (case ev_checkout ev of
             None \<Rightarrow> (None, Inl (OtherError ''decode checkout session''))
           | Some i \<Rightarrow>
               if i = [] then (None, Inr ())
               else (Some i, case complete i of None \<Rightarrow> Inr () | Some e \<Rightarrow> Inl e)))"

definition stripe_dispatch :: "(string \<Rightarrow> ctl_error option) option \<Rightarrow> bool \<Rightarrow> bool \<Rightarrow> string option \<Rightarrow> control_db \<Rightarrow> stripeEvent
    \<Rightarrow> control_db \<times> string option \<times> (ctl_error + unit)" where
  "stripe_dispatch completer lifecycle pool fault db ev =
     (let quiet = (\<lambda>(d, r). (d, None, r)) in
      if ev_Type ev = ''checkout.session.completed'' then (case completeSignup completer ev of (i, r) \<Rightarrow> (db, i, r))
      else if \<not> lifecycle then (db, None, Inr ())
      else if ev_Type ev \<in> {''payment_intent.succeeded'', ''invoice.paid''} then quiet (markActive pool fault db ev)
      else if ev_Type ev = ''invoice.payment_failed'' then quiet (markPastDue pool fault db ev)
      else if ev_Type ev \<in> {''customer.subscription.updated'', ''customer.subscription.deleted''} then quiet (applySubscriptionUpdate pool fault db ev)
      else (db, None, Inr ()))"

text \<open>\<open>body\<close> is what was read (\<open>None\<close>: the read failed), \<open>decode\<close> the JSON decoder.\<close>

definition stripe_serve :: "(string \<Rightarrow> string \<Rightarrow> byte list) \<Rightarrow> (string \<Rightarrow> stripeEvent option) \<Rightarrow> string \<Rightarrow> (string \<Rightarrow> ctl_error option) option \<Rightarrow> bool \<Rightarrow> bool
    \<Rightarrow> string option \<Rightarrow> time \<Rightarrow> control_db \<Rightarrow> string \<Rightarrow> string option \<Rightarrow> control_db \<times> string option \<times> int" where
  "stripe_serve hmac decode secret completer lifecycle pool fault now db header body =
     (case body of
        None \<Rightarrow> (db, None, 400)
      | Some b \<Rightarrow>
          (case stripe_verify hmac secret now header b of
             Some _ \<Rightarrow> (db, None, 400)
           | None \<Rightarrow>
               (case decode b of
                  None \<Rightarrow> (db, None, 400)
                | Some ev \<Rightarrow>
                    (case stripe_dispatch completer lifecycle pool fault db ev of
                       (db', i, Inl _) \<Rightarrow> (db', i, 500)
                     | (db', i, Inr _) \<Rightarrow> (db', i, 204)))))"

subsection \<open>Storage events\<close>

abbreviation EventObjectCreated :: string where "EventObjectCreated \<equiv> ''object_created''"
abbreviation EventObjectDeleted :: string where "EventObjectDeleted \<equiv> ''object_deleted''"

definition validStorageEventType :: "string \<Rightarrow> bool" where
  "validStorageEventType t \<longleftrightarrow> t = EventObjectCreated \<or> t = EventObjectDeleted"

text \<open>The first event that is refused decides the error.\<close>

definition event_error :: "StorageEvent \<Rightarrow> ctl_error option" where
  "event_error e =
     (if \<not> validStorageEventType (se_EventType e) then Some (ErrInvalidInput (''unknown storage event type '' @ se_EventType e))
      else if se_SizeBytes e < 0 then Some (ErrInvalidInput ''sizeBytes must be >= 0'') else None)"

definition insert_storage_event :: "string \<Rightarrow> StorageEvent \<Rightarrow> control_db \<Rightarrow> ctl_error + control_db" where
  "insert_storage_event tenantID e db =
     (if \<not> tenant_exists db tenantID then Inl (DbError ''storage_events_tenant_id_fkey'')
      else if \<not> validStorageEventType (se_EventType e) then Inl (DbError ''storage_events_event_type_check'')
      else if \<not> fits_int8 (se_SizeBytes e) then Inl (DbError ''size_bytes out of range'')
      else Inr (db\<lparr>storage_events := storage_events db @ [(tenantID, e)]\<rparr>))"

fun insert_storage_events :: "string \<Rightarrow> StorageEvent list \<Rightarrow> control_db \<Rightarrow> ctl_error + control_db" where
  "insert_storage_events tenantID [] db = Inr db"
| "insert_storage_events tenantID (e # es) db = and_then (insert_storage_event tenantID e db) (insert_storage_events tenantID es)"

definition RecordEvents :: "bool \<Rightarrow> string option \<Rightarrow> control_db \<Rightarrow> string \<Rightarrow> StorageEvent list \<Rightarrow> control_db \<times> (ctl_error + unit)" where
  "RecordEvents pool fault db tenantID es =
     (if tenantID = [] then (db, Inl (ErrInvalidInput ''tenantID required''))
      else case List.map_filter event_error es of
          e # _ \<Rightarrow> (db, Inl e)
        | [] \<Rightarrow>
            if \<not> pool \<or> es = [] then (db, Inr ())
            else tx fault tenantID (\<lambda>d. and_then (insert_storage_events tenantID es d) (\<lambda>d'. Inr (d', ()))) db)"

definition RecordEvent :: "bool \<Rightarrow> string option \<Rightarrow> control_db \<Rightarrow> string \<Rightarrow> string \<Rightarrow> string \<Rightarrow> int \<Rightarrow> control_db \<times> (ctl_error + unit)" where
  "RecordEvent pool fault db tenantID eventType objectKey sizeBytes =
     RecordEvents pool fault db tenantID [\<lparr>se_EventType = eventType, se_ObjectKey = objectKey, se_SizeBytes = sizeBytes\<rparr>]"

definition signed_size :: "StorageEvent \<Rightarrow> int" where
  "signed_size e = (if se_EventType e = EventObjectCreated then se_SizeBytes e else - se_SizeBytes e)"

definition event_total :: "string \<Rightarrow> control_db \<Rightarrow> int" where
  "event_total tenantID db = sum_list (map (\<lambda>(t, e). if t = tenantID then signed_size e else 0) (storage_events db))"

text \<open>The sum is a \<^verbatim>\<open>numeric\<close>; reading one that is no \<^verbatim>\<open>int64\<close> fails.\<close>

definition ReconcileTenant :: "bool \<Rightarrow> string option \<Rightarrow> control_db \<Rightarrow> string \<Rightarrow> ctl_error + int" where
  "ReconcileTenant pool fault db tenantID =
     (if tenantID = [] then Inl (ErrInvalidInput ''tenantID required'')
      else if \<not> pool then Inr 0
      else snd (tx fault tenantID (\<lambda>d. if fits_int8 (event_total tenantID d) then Inr (d, event_total tenantID d) else Inl (DbError ''value out of range'')) db))"

subsection \<open>Storage event webhook\<close>

record s3NotificationRecord =
  s3_EventName :: string
  s3_Bucket :: string
  s3_Key :: string
  s3_Size :: "int option"

definition has_prefix :: "string \<Rightarrow> string \<Rightarrow> bool" where
  "has_prefix s p \<longleftrightarrow> take (length p) s = p"

definition classifyEventName :: "string \<Rightarrow> string option" where
  "classifyEventName name =
     (if has_prefix name ''s3:ObjectCreated:'' then Some EventObjectCreated
      else if has_prefix name ''s3:ObjectRemoved:'' then Some EventObjectDeleted else None)"

definition tenantIDFromBucket :: "string \<Rightarrow> string" where
  "tenantIDFromBucket bucket =
     (let b = trim_space bucket in
      if length b > 6 \<and> map ascii_lower (take 6 b) = ''kmail-'' then drop 6 b else [])"

text \<open>\<^verbatim>\<open>url.QueryUnescape\<close>.\<close>

fun QueryUnescape :: "string \<Rightarrow> string option" where
  "QueryUnescape [] = Some []"
| "QueryUnescape (c # cs) =
     (if c = CHR ''%'' then
        (case cs of
           a # b # rest \<Rightarrow>
             (case (hex_val a, hex_val b, QueryUnescape rest) of
                (Some h, Some l, Some r) \<Rightarrow> Some (char_of (16 * h + l) # r)
              | _ \<Rightarrow> None)
         | _ \<Rightarrow> None)
      else map_option (Cons (if c = CHR ''+'' then CHR '' '' else c)) (QueryUnescape cs))"

definition decodeObjectKey :: "string \<Rightarrow> string" where
  "decodeObjectKey key = (case QueryUnescape key of None \<Rightarrow> key | Some dec \<Rightarrow> dec)"

definition event_of_record :: "s3NotificationRecord \<Rightarrow> (string \<times> StorageEvent) option" where
  "event_of_record rec =
     (case classifyEventName (s3_EventName rec) of
        None \<Rightarrow> None
      | Some ty \<Rightarrow>
          if tenantIDFromBucket (s3_Bucket rec) = [] then None
          else Some (tenantIDFromBucket (s3_Bucket rec), \<lparr>se_EventType = ty, se_ObjectKey = decodeObjectKey (s3_Key rec), se_SizeBytes = coalesce (s3_Size rec) 0\<rparr>))"

text \<open>The events of the routable records by tenant, tenants in the order of their first record.\<close>

fun add_pending :: "string \<times> StorageEvent \<Rightarrow> (string \<times> StorageEvent list) list \<Rightarrow> (string \<times> StorageEvent list) list" where
  "add_pending (t, e) [] = [(t, [e])]"
| "add_pending (t, e) ((t', es) # ps) = (if t = t' then (t', es @ [e]) # ps else (t', es) # add_pending (t, e) ps)"

definition group_records :: "s3NotificationRecord list \<Rightarrow> (string \<times> StorageEvent list) list" where
  "group_records recs = fold add_pending (List.map_filter event_of_record recs) []"

datatype storage_effect =
    Ingested string
  | AuditIngested string nat nat int
  | AuditReconciled string int
  | AuditDrift string int int int

definition ingest_effects :: "bool \<Rightarrow> string \<Rightarrow> StorageEvent list \<Rightarrow> storage_effect list" where
  "ingest_effects audit tenantID es =
     map (\<lambda>e. Ingested (se_EventType e)) es
     @ (if audit then [AuditIngested tenantID (length (filter (\<lambda>e. se_EventType e = EventObjectCreated) es))
                         (length (filter (\<lambda>e. se_EventType e \<noteq> EventObjectCreated) es)) (int64 (sum_list (map signed_size es)))]
        else [])"

text \<open>\<open>faults t\<close> is the fault of the batch of tenant \<open>t\<close>.\<close>

fun record_batches :: "bool \<Rightarrow> bool \<Rightarrow> (string \<Rightarrow> string option) \<Rightarrow> control_db \<Rightarrow> (string \<times> StorageEvent list) list \<Rightarrow> control_db \<times> storage_effect list \<times> bool" where
  "record_batches pool audit faults db [] = (db, [], False)"
| "record_batches pool audit faults db ((t, es) # ps) =
     (case RecordEvents pool (faults t) db t es of
        (db1, Inl _) \<Rightarrow> (case record_batches pool audit faults db1 ps of (db2, effs, _) \<Rightarrow> (db2, effs, True))
      | (db1, Inr _) \<Rightarrow> (case record_batches pool audit faults db1 ps of (db2, effs, failed) \<Rightarrow> (db2, ingest_effects audit t es @ effs, failed)))"

definition storage_serve :: "(string \<Rightarrow> string \<Rightarrow> byte list) \<Rightarrow> (string \<Rightarrow> s3NotificationRecord list option) \<Rightarrow> string \<Rightarrow> bool \<Rightarrow> bool \<Rightarrow> (string \<Rightarrow> string option)
    \<Rightarrow> time \<Rightarrow> control_db \<Rightarrow> string \<Rightarrow> string option \<Rightarrow> control_db \<times> storage_effect list \<times> int" where
  "storage_serve hmac decode secret pool audit faults now db header body =
     (case body of
        None \<Rightarrow> (db, [], 400)
      | Some b \<Rightarrow>
          (case storage_verify hmac secret now header b of
             Some _ \<Rightarrow> (db, [], 401)
           | None \<Rightarrow>
               (case decode b of
                  None \<Rightarrow> (db, [], 400)
                | Some recs \<Rightarrow>
                    (case record_batches pool audit faults db (group_records recs) of
                       (db', effs, failed) \<Rightarrow> (db', effs, if failed then 500 else 204)))))"

subsection \<open>Workers\<close>

definition listActiveTenantIDs :: "control_db \<Rightarrow> string list" where
  "listActiveTenantIDs db = map tn_ID (filter (\<lambda>t. tn_Status t \<noteq> ''deleted'') (tenants db))"

text \<open>The totals the event worker last saw; \<open>faults t\<close> are the faults of tenant \<open>t\<close> in this tick.\<close>

definition auditSnapshot :: "bool \<Rightarrow> (string \<rightharpoonup> int) \<Rightarrow> string \<Rightarrow> int \<Rightarrow> (string \<rightharpoonup> int) \<times> storage_effect list" where
  "auditSnapshot audit lastTotal tenantID tot =
     (lastTotal(tenantID \<mapsto> tot), if lastTotal tenantID = Some tot \<or> \<not> audit then [] else [AuditReconciled tenantID tot])"

definition event_tick_tenant :: "billing_config \<Rightarrow> bool \<Rightarrow> (string \<Rightarrow> faults) \<Rightarrow> string \<Rightarrow> control_db \<times> (string \<rightharpoonup> int) \<times> storage_effect list
    \<Rightarrow> control_db \<times> (string \<rightharpoonup> int) \<times> storage_effect list" where
  "event_tick_tenant cfg audit faults i s =
     (case s of (db, lastTotal, effs) \<Rightarrow>
        (case ReconcileTenant True (faults i 0) db i of
           Inl _ \<Rightarrow> (db, lastTotal, effs)
         | Inr t0 \<Rightarrow>
             let tot = max 0 t0 in
             case SetStorageUsage cfg (faults i 1) db i tot of
               (db1, Inl _) \<Rightarrow> (db1, lastTotal, effs)
             | (db1, Inr _) \<Rightarrow> (case auditSnapshot audit lastTotal i tot of (lt, es) \<Rightarrow> (db1, lt, effs @ es))))"

definition event_tick :: "billing_config \<Rightarrow> bool \<Rightarrow> string option \<Rightarrow> (string \<Rightarrow> faults) \<Rightarrow> control_db \<Rightarrow> (string \<rightharpoonup> int)
    \<Rightarrow> control_db \<times> (string \<rightharpoonup> int) \<times> storage_effect list" where
  "event_tick cfg audit listFault faults db lastTotal =
     (case listFault of
        Some _ \<Rightarrow> (db, lastTotal, [])
      | None \<Rightarrow> fold (event_tick_tenant cfg audit faults) (listActiveTenantIDs db) (db, lastTotal, []))"

abbreviation ModePoll :: string where "ModePoll \<equiv> ''poll''"
abbreviation ModeEvent :: string where "ModeEvent \<equiv> ''event''"

record quota_worker_config =
  qw_Interval :: duration
  qw_Mode :: string
  qw_Events :: bool
  qw_DriftInterval :: duration

definition resolveMode :: "string \<Rightarrow> quota_worker_config \<Rightarrow> string" where
  "resolveMode env cfg =
     (let mode = (if qw_Mode cfg = [] then (if env = ''true'' then ModeEvent else ModePoll) else qw_Mode cfg)
      in if mode = ModeEvent \<and> \<not> qw_Events cfg then ModePoll else mode)"

definition resolveInterval :: "quota_worker_config \<Rightarrow> string \<Rightarrow> duration" where
  "resolveInterval cfg mode =
     (if mode = ModeEvent then (if qw_DriftInterval cfg > 0 then qw_DriftInterval cfg else nanos_per_hour)
      else if qw_Interval cfg > 0 then qw_Interval cfg else 300 * nanos_per_s)"

text \<open>\<open>scan\<close> is the storage scanner.\<close>

definition pollTick :: "billing_config \<Rightarrow> (string \<Rightarrow> string + int) \<Rightarrow> string option \<Rightarrow> (string \<Rightarrow> faults) \<Rightarrow> control_db \<Rightarrow> control_db" where
  "pollTick cfg scan listFault faults db =
     (case listFault of
        Some _ \<Rightarrow> db
      | None \<Rightarrow>
          fold (\<lambda>i d. case scan i of
                  Inl _ \<Rightarrow> d
                | Inr n \<Rightarrow> if n < 0 then d else fst (SetStorageUsage cfg (faults i 0) d i n))
            (listActiveTenantIDs db) db)"

text \<open>The drift gauge has a value for every label in its domain; \<open>labels\<close>: metrics are wired.\<close>

definition drift_tick_tenant :: "(string \<Rightarrow> string + int) \<Rightarrow> (string \<Rightarrow> faults) \<Rightarrow> bool \<Rightarrow> bool \<Rightarrow> control_db \<Rightarrow> string \<Rightarrow> (string \<rightharpoonup> int) \<times> storage_effect list
    \<Rightarrow> (string \<rightharpoonup> int) \<times> storage_effect list" where
  "drift_tick_tenant scan faults metrics audit db i s =
     (case s of (gauge, effs) \<Rightarrow>
        (case scan i of
           Inl _ \<Rightarrow> s
         | Inr actual \<Rightarrow>
             if actual < 0 then s
             else case ReconcileTenant True (faults i 0) db i of
                 Inl _ \<Rightarrow> s
               | Inr eventTotal \<Rightarrow>
                   let drift = int64 (actual - eventTotal)
                   in (if metrics then gauge(i \<mapsto> drift) else gauge,
                       effs @ (if drift \<noteq> 0 \<and> audit then [AuditDrift i actual eventTotal drift] else []))))"

definition driftTick :: "(string \<Rightarrow> string + int) \<Rightarrow> string option \<Rightarrow> (string \<Rightarrow> faults) \<Rightarrow> bool \<Rightarrow> bool \<Rightarrow> control_db \<Rightarrow> (string \<rightharpoonup> int)
    \<Rightarrow> (string \<rightharpoonup> int) \<times> storage_effect list" where
  "driftTick scan listFault faults metrics audit db gauge =
     (case listFault of
        Some _ \<Rightarrow> (gauge, [])
      | None \<Rightarrow> fold (drift_tick_tenant scan faults metrics audit db) (listActiveTenantIDs db) (gauge |` set (listActiveTenantIDs db), []))"

definition quota_tick :: "string \<Rightarrow> billing_config \<Rightarrow> (string \<Rightarrow> string + int) \<Rightarrow> string option \<Rightarrow> (string \<Rightarrow> faults) \<Rightarrow> bool \<Rightarrow> bool \<Rightarrow> control_db \<Rightarrow> (string \<rightharpoonup> int)
    \<Rightarrow> control_db \<times> (string \<rightharpoonup> int) \<times> storage_effect list" where
  "quota_tick mode cfg scan listFault faults metrics audit db gauge =
     (if mode = ModeEvent then (db, driftTick scan listFault faults metrics audit db gauge)
      else (pollTick cfg scan listFault faults db, gauge, []))"

subsection \<open>Handlers\<close>

datatype billing_body =
    ErrorBody string | SummaryBody BillingSummary | QuotaBody string Quota | ProrationBody string string int | HistoryBody "BillingHistoryEntry list"
  | InvoiceBody string int | PortalBody string

definition statusFor :: "ctl_error \<Rightarrow> int" where
  "statusFor e = (case e of ErrInvalidInput _ \<Rightarrow> 400 | ErrNotFound \<Rightarrow> 404 | ErrQuotaExceeded \<Rightarrow> 402 | _ \<Rightarrow> 500)"

definition error_text :: "ctl_error \<Rightarrow> string" where
  "error_text e =
     (case e of ErrInvalidInput m \<Rightarrow> ''invalid input: '' @ m | ErrNotFound \<Rightarrow> ''not found'' | ErrQuotaExceeded \<Rightarrow> ''quota exceeded'' | DbError m \<Rightarrow> m | OtherError m \<Rightarrow> m)"

definition writeError :: "ctl_error \<Rightarrow> int \<times> billing_body" where
  "writeError e = (statusFor e, ErrorBody (error_text e))"

definition checkTenantScope :: "string \<Rightarrow> string \<Rightarrow> string option" where
  "checkTenantScope ctxTenantID pathTenantID =
     (if ctxTenantID = [] then Some ''missing tenant context''
      else if ctxTenantID \<noteq> pathTenantID then Some ''cross-tenant access forbidden'' else None)"

definition in_scope :: "string \<Rightarrow> string \<Rightarrow> control_db \<Rightarrow> (control_db \<Rightarrow> control_db \<times> int \<times> billing_body) \<Rightarrow> control_db \<times> int \<times> billing_body" where
  "in_scope ctxTenantID pathTenantID db handler =
     (case checkTenantScope ctxTenantID pathTenantID of Some e \<Rightarrow> (db, 403, ErrorBody e) | None \<Rightarrow> handler db)"

definition respond :: "('a \<Rightarrow> billing_body) \<Rightarrow> ctl_error + 'a \<Rightarrow> int \<times> billing_body" where
  "respond body r = (case r of Inl e \<Rightarrow> writeError e | Inr a \<Rightarrow> (200, body a))"

definition prorationPreview :: "Lifecycle option \<Rightarrow> faults \<Rightarrow> time \<Rightarrow> string \<Rightarrow> control_db \<Rightarrow> string \<Rightarrow> string \<Rightarrow> control_db \<times> int \<times> billing_body" where
  "prorationPreview lc faults now ctxTenantID db tenantID plan =
     in_scope ctxTenantID tenantID db (\<lambda>db.
       case ValidatePlan plan of
         Some e \<Rightarrow> (db, 400, ErrorBody (error_text e))
       | None \<Rightarrow>
           (case lc of
              None \<Rightarrow> (db, 200, ProrationBody [] [] 0)
            | Some l \<Rightarrow> (db, respond (ProrationBody tenantID plan) (ProrationPreview l faults now db tenantID plan))))"

definition history :: "Lifecycle option \<Rightarrow> faults \<Rightarrow> string \<Rightarrow> control_db \<Rightarrow> string \<Rightarrow> control_db \<times> int \<times> billing_body" where
  "history lc faults ctxTenantID db tenantID =
     in_scope ctxTenantID tenantID db (\<lambda>db.
       case lc of
         None \<Rightarrow> (db, 200, HistoryBody [])
       | Some l \<Rightarrow> (db, respond HistoryBody (ListBillingHistory l (faults 0) db tenantID 50)))"

text \<open>The faults of the three steps of \<^verbatim>\<open>changePlan\<close> are numbered from 0, 2 and 6.\<close>

definition changePlan :: "billing_config \<Rightarrow> Lifecycle option \<Rightarrow> faults \<Rightarrow> time \<Rightarrow> string \<Rightarrow> control_db \<Rightarrow> string \<Rightarrow> string option
    \<Rightarrow> control_db \<times> int \<times> billing_body" where
  "changePlan cfg lc faults now ctxTenantID db tenantID inp =
     in_scope ctxTenantID tenantID db (\<lambda>db.
       case inp of
         None \<Rightarrow> (db, 400, ErrorBody ''decode'')
       | Some plan \<Rightarrow>
           let prev = Summary cfg faults db tenantID in
           (case ChangePlan cfg (\<lambda>n. faults (2 + n)) db tenantID plan of
              (db1, Inl e) \<Rightarrow> (db1, writeError e)
            | (db1, Inr sm) \<Rightarrow>
                (case (lc, prev) of
                   (Some l, Inr p) \<Rightarrow>
                     if bs_Plan p \<noteq> [] then (fst (OnPlanChanged l (\<lambda>n. faults (6 + n)) now db1 tenantID (bs_Plan p) plan), 200, SummaryBody sm)
                     else (db1, 200, SummaryBody sm)
                 | _ \<Rightarrow> (db1, 200, SummaryBody sm))))"

definition summary :: "billing_config \<Rightarrow> faults \<Rightarrow> string \<Rightarrow> control_db \<Rightarrow> string \<Rightarrow> control_db \<times> int \<times> billing_body" where
  "summary cfg faults ctxTenantID db tenantID =
     in_scope ctxTenantID tenantID db (\<lambda>db. (db, respond SummaryBody (Summary cfg faults db tenantID)))"

definition usage :: "billing_config \<Rightarrow> faults \<Rightarrow> string \<Rightarrow> control_db \<Rightarrow> string \<Rightarrow> control_db \<times> int \<times> billing_body" where
  "usage cfg faults ctxTenantID db tenantID =
     in_scope ctxTenantID tenantID db (\<lambda>db.
       (db, respond (QuotaBody tenantID) (case GetQuota cfg (faults 0) db tenantID of Inl ErrNotFound \<Rightarrow> Inr zero_quota | r \<Rightarrow> r)))"

definition updateLimits :: "billing_config \<Rightarrow> faults \<Rightarrow> string \<Rightarrow> control_db \<Rightarrow> string \<Rightarrow> UpdateQuotaLimitsInput option \<Rightarrow> control_db \<times> int \<times> billing_body" where
  "updateLimits cfg faults ctxTenantID db tenantID inp =
     in_scope ctxTenantID tenantID db (\<lambda>db.
       case inp of
         None \<Rightarrow> (db, 400, ErrorBody ''decode'')
       | Some i \<Rightarrow> (case UpdateQuotaLimits cfg (faults 0) db tenantID i of (db1, r) \<Rightarrow> (db1, respond (QuotaBody tenantID) r)))"

definition invoice :: "billing_config \<Rightarrow> faults \<Rightarrow> string \<Rightarrow> control_db \<Rightarrow> string \<Rightarrow> control_db \<times> int \<times> billing_body" where
  "invoice cfg faults ctxTenantID db tenantID =
     in_scope ctxTenantID tenantID db (\<lambda>db. case CalculateInvoice cfg faults db tenantID of (db1, r) \<Rightarrow> (db1, respond (InvoiceBody tenantID) r))"

definition lookupCustomer :: "bool \<Rightarrow> string option \<Rightarrow> control_db \<Rightarrow> string \<Rightarrow> ctl_error + string" where
  "lookupCustomer pool fault db tenantID =
     (if \<not> pool then Inr []
      else snd (tx fault tenantID (\<lambda>d. Inr (d, case billing_subscriptions d tenantID of None \<Rightarrow> [] | Some r \<Rightarrow> coalesce (sub_StripeCustomerID r) [])) db))"

text \<open>\<open>answer\<close> is Stripe's answer to the request, the session or an error.\<close>

definition portal_create :: "bool \<Rightarrow> bool \<Rightarrow> (stripe_request \<Rightarrow> string + string) \<Rightarrow> string option \<Rightarrow> string \<Rightarrow> control_db \<Rightarrow> string \<Rightarrow> string \<Rightarrow> control_db \<times> int \<times> billing_body" where
  "portal_create pool configured answer fault ctxTenantID db tenantID returnURL =
     in_scope ctxTenantID tenantID db (\<lambda>db.
       if \<not> configured then (db, 503, ErrorBody ''stripe: not configured'')
       else case lookupCustomer pool fault db tenantID of
           Inl e \<Rightarrow> (db, writeError e)
         | Inr customer \<Rightarrow>
             if customer = [] then (db, 404, ErrorBody ''billing: tenant has no stripe customer'')
             else case and_then (CreatePortalSession configured customer returnURL) answer of
                 Inl e \<Rightarrow> (db, 502, ErrorBody e)
               | Inr session \<Rightarrow> (db, 200, PortalBody session))"

end
