(* ===== verification/BillingProps.thy ===== *)
theory BillingProps
  imports BillingEvents
begin

text \<open>
  Properties of billing: the proration of a plan change, the storage quota check, storage usage in event mode, dunning
  and the signature check of the two webhooks.
\<close>

subsection \<open>Proration\<close>

lemma quot_minus: "quot (- a) b = - quot a b"
  by (simp add: quot_def sgn_minus)

lemma abs_quot: "\<bar>quot a b\<bar> = \<bar>a\<bar> div \<bar>b\<bar>"
proof (cases "a = 0 \<or> b = 0")
  case True
  then show ?thesis by (auto simp: quot_def)
next
  case False
  then have "\<bar>sgn a\<bar> = 1" "\<bar>sgn b\<bar> = 1" by (simp_all add: sgn_if)
  moreover have "0 \<le> \<bar>a\<bar> div \<bar>b\<bar>" by (simp add: div_int_pos_iff)
  ultimately show ?thesis by (simp add: quot_def abs_mult)
qed

lemma quot_sign: "0 \<le> quot a b * (a * b)"
proof -
  have "quot a b * (a * b) = (sgn a * a) * (sgn b * b) * (\<bar>a\<bar> div \<bar>b\<bar>)" by (simp add: quot_def algebra_simps)
  also have "\<dots> = \<bar>a\<bar> * \<bar>b\<bar> * (\<bar>a\<bar> div \<bar>b\<bar>)" by (simp add: abs_sgn mult.commute)
  also have "\<dots> \<ge> 0" by (simp add: div_int_pos_iff)
  finally show ?thesis .
qed

lemma quot_self: "b \<noteq> 0 \<Longrightarrow> quot (a * b) b = a"
proof -
  assume "b \<noteq> 0"
  then have "quot (a * b) b = sgn a * (sgn b * sgn b) * \<bar>a\<bar>" by (simp add: quot_def sgn_mult abs_mult algebra_simps)
  also have "sgn b * sgn b = 1" using \<open>b \<noteq> 0\<close> by (simp add: sgn_if)
  finally show ?thesis by (simp add: sgn_mult_abs)
qed

text \<open>The days of the period that have started or are still to come at an instant.\<close>

definition period_days :: "time \<Rightarrow> time \<Rightarrow> int" where
  "period_days s e = (e - s) div nanos_per_day + 1"

lemma days_started_nonneg: "0 \<le> d \<Longrightarrow> days_started d = d div nanos_per_day + 1"
  by (simp add: days_started_def quot_nonneg)

lemma period_days_pos: "s \<le> e \<Longrightarrow> 1 \<le> period_days s e"
  by (simp add: period_days_def pos_imp_zdiv_nonneg_iff)

lemma period_days_mono: "s \<le> s' \<Longrightarrow> period_days s' e \<le> period_days s e"
  by (simp add: period_days_def zdiv_mono1)

text \<open>The price difference of a plan change for all seats of the tenant.\<close>

definition seat_total :: "control_db \<Rightarrow> string \<Rightarrow> int" where
  "seat_total db t = int (length (filter (is_seat t) (users db)))"

lemma CountSeats_ok: "cfg_Pool cfg \<Longrightarrow> t \<noteq> [] \<Longrightarrow> CountSeats cfg None db t = Inr (seat_total db t)"
  by (simp add: CountSeats_def tx_def seat_total_def)

definition price_diff :: "billing_config \<Rightarrow> string \<Rightarrow> string \<Rightarrow> int" where
  "price_diff cfg old new = (case (GetPlanPricing cfg old, GetPlanPricing cfg new) of (Inr a, Inr b) \<Rightarrow> b - a | _ \<Rightarrow> 0)"

lemma price_diff_swap: "price_diff cfg new old = - price_diff cfg old new"
  by (simp add: price_diff_def split: sum.splits)

lemma valid_plan_price: "ValidatePlan p = None \<Longrightarrow> \<exists>c. GetPlanPricing cfg p = Inr c"
  by (auto simp: ValidatePlan_def GetPlanPricing_def split: if_splits)

lemma valid_plan_nonempty: "ValidatePlan p = None \<Longrightarrow> p \<noteq> []"
  by (auto simp: ValidatePlan_def split: if_splits)

lemma proration_value:
  assumes "cfg_Pool (lc_cfg l)" and "t \<noteq> []" and "ValidatePlan old = None" and "ValidatePlan new = None" and "old \<noteq> new"
    and "s \<le> e" and "e - s < 2 ^ 63"
    and "\<bar>price_diff (lc_cfg l) old new\<bar> * seat_total db t * period_days s e < 2 ^ 63"
  shows "computeProration l None db t old new s e now =
    Inr (if now > e then 0
         else quot (price_diff (lc_cfg l) old new * seat_total db t * period_days (max s now) e) (period_days s e))"
proof -
  obtain a b where ab: "GetPlanPricing (lc_cfg l) old = Inr a" "GetPlanPricing (lc_cfg l) new = Inr b"
    using valid_plan_price assms(3,4) by metis
  let ?d = "price_diff (lc_cfg l) old new" and ?n = "seat_total db t" and ?D = "period_days s e"
  have d: "?d = b - a" by (simp add: price_diff_def ab)
  have D: "1 \<le> ?D" by (rule period_days_pos [OF assms(6)])
  have n: "0 \<le> ?n" by (simp add: seat_total_def)
  have nonempty: "old \<noteq> []" "new \<noteq> []" using assms(3,4) by (auto dest: valid_plan_nonempty)
  have start: "computeProration l None db t old new s e now =
     (let p = days_started (time_Sub e s); periodDays = (if p \<le> 0 then 30 else p); now = (if now < s then s else now)
      in if now > e then Inr 0
         else Inr (quot (int64 (int64 (int64 (b - a) * ?n) * max 0 (days_started (time_Sub e now)))) periodDays))"
    using nonempty assms(5) ab CountSeats_ok [OF assms(1,2)] by (simp add: computeProration_def Let_def)
  have days: "days_started (time_Sub e s) = ?D"
    using assms(6,7) by (simp add: time_Sub_within days_started_nonneg period_days_def)
  have eff: "(if now < s then s else now) = max s now" by (simp add: max_def)
  show ?thesis
  proof (cases "now > e")
    case True
    then show ?thesis using assms(6) unfolding start Let_def eff by simp
  next
    case False
    let ?m = "max s now"
    have m: "s \<le> ?m" "?m \<le> e" using False assms(6) by auto
    let ?r = "period_days ?m e"
    have r: "1 \<le> ?r" "?r \<le> ?D" using period_days_pos [OF m(2)] period_days_mono [OF m(1)] by simp_all
    have rem: "days_started (time_Sub e ?m) = ?r"
      using m assms(7) by (simp add: time_Sub_within days_started_nonneg period_days_def)
    have dn: "\<bar>?d\<bar> * ?n * ?r \<le> \<bar>?d\<bar> * ?n * ?D" using r(2) n by (simp add: mult_left_mono)
    then have lt: "\<bar>?d * ?n * ?r\<bar> < 2 ^ 63" using assms(8) n r(1) by (simp add: abs_mult)
    have "\<bar>?d * ?n\<bar> \<le> \<bar>?d * ?n * ?r\<bar>" using r(1) mult_left_mono [of 1 ?r "\<bar>?d * ?n\<bar>"] by (simp add: abs_mult)
    then have lt2: "\<bar>?d * ?n\<bar> < 2 ^ 63" using lt by linarith
    have inner: "int64 (int64 ?d * ?n) = ?d * ?n"
    proof (cases "?n = 0")
      case True
      then show ?thesis by (simp add: int64_def)
    next
      case False
      then have "\<bar>?d\<bar> \<le> \<bar>?d * ?n\<bar>" using n mult_left_mono [of 1 ?n "\<bar>?d\<bar>"] by (simp add: abs_mult)
      with lt2 have "fits_int8 ?d" unfolding fits_int8_def by linarith
      moreover have "fits_int8 (?d * ?n)" using lt2 unfolding fits_int8_def by linarith
      ultimately show ?thesis by (simp add: int64_id)
    qed
    have "fits_int8 (?d * ?n * ?r)" using lt unfolding fits_int8_def by linarith
    then have outer: "int64 (?d * ?n * ?r) = ?d * ?n * ?r" by (rule int64_id)
    have "computeProration l None db t old new s e now = Inr (quot (?d * ?n * ?r) ?D)"
      unfolding start Let_def eff rem days using m(2) r(1) D inner outer d by (simp add: less_max_iff_disj not_less)
    then show ?thesis using False by simp
  qed
qed

text \<open>
  A plan change is prorated fairly: the amount is the price difference of all seats in proportion to the days left.
  Before the period starts it is the whole difference, after its end nothing; it never exceeds the difference, has its
  sign, shrinks as the period goes on, and changing back at the same instant costs exactly the opposite.\<close>

theorem proration_is_fair:
  assumes "cfg_Pool (lc_cfg l)" and "t \<noteq> []" and "ValidatePlan old = None" and "ValidatePlan new = None" and "old \<noteq> new"
    and "s \<le> e" and "e - s < 2 ^ 63" and "now \<le> now'"
    and "\<bar>price_diff (lc_cfg l) old new\<bar> * seat_total db t * period_days s e < 2 ^ 63"
  shows "\<exists>v v'. computeProration l None db t old new s e now = Inr v \<and> computeProration l None db t old new s e now' = Inr v'
    \<and> computeProration l None db t new old s e now = Inr (- v)
    \<and> \<bar>v'\<bar> \<le> \<bar>v\<bar> \<and> \<bar>v\<bar> \<le> \<bar>price_diff (lc_cfg l) old new * seat_total db t\<bar> \<and> 0 \<le> v * price_diff (lc_cfg l) old new
    \<and> (now \<le> s \<longrightarrow> v = price_diff (lc_cfg l) old new * seat_total db t) \<and> (now > e \<longrightarrow> v = 0)"
proof -
  let ?d = "price_diff (lc_cfg l) old new" and ?n = "seat_total db t" and ?D = "period_days s e"
  let ?v = "\<lambda>now. if now > e then 0 else quot (?d * ?n * period_days (max s now) e) ?D"
  have fwd: "computeProration l None db t old new s e x = Inr (?v x)" for x
    by (rule proration_value [OF assms(1-7) assms(9)])
  have bwd: "computeProration l None db t new old s e now = Inr (- ?v now)"
  proof -
    have swap: "price_diff (lc_cfg l) new old = - ?d" by (rule price_diff_swap)
    have back_bound: "\<bar>price_diff (lc_cfg l) new old\<bar> * ?n * ?D < 2 ^ 63" using assms(9) by (simp add: swap)
    have neq: "new \<noteq> old" using assms(5) by simp
    show ?thesis
      unfolding proration_value [OF assms(1,2,4,3) neq assms(6,7) back_bound] swap
      by (simp add: quot_minus [symmetric])
  qed
  have D: "1 \<le> ?D" by (rule period_days_pos [OF assms(6)])
  have n: "0 \<le> ?n" by (simp add: seat_total_def)
  have abs: "\<bar>?v x\<bar> = (if x > e then 0 else \<bar>?d * ?n\<bar> * period_days (max s x) e div ?D)" for x
    using D period_days_pos [of "max s x" e] assms(6) by (auto simp: abs_quot abs_mult)
  have shrink: "\<bar>?v now'\<bar> \<le> \<bar>?v now\<bar>"
  proof (cases "now' > e")
    case False
    then have "period_days (max s now') e \<le> period_days (max s now) e" using assms(8) by (intro period_days_mono) auto
    then have "\<bar>?d * ?n\<bar> * period_days (max s now') e \<le> \<bar>?d * ?n\<bar> * period_days (max s now) e" by (simp add: mult_left_mono)
    then have "\<bar>?d * ?n\<bar> * period_days (max s now') e div ?D \<le> \<bar>?d * ?n\<bar> * period_days (max s now) e div ?D" using D by (simp add: zdiv_mono1)
    then show ?thesis using False assms(8) unfolding abs by simp
  qed simp
  have bound: "\<bar>?v now\<bar> \<le> \<bar>?d * ?n\<bar>"
  proof (cases "now > e")
    case False
    have "period_days (max s now) e \<le> ?D" by (rule period_days_mono) simp
    then have "\<bar>?d * ?n\<bar> * period_days (max s now) e \<le> \<bar>?d * ?n\<bar> * ?D" by (simp add: mult_left_mono)
    then have "\<bar>?d * ?n\<bar> * period_days (max s now) e div ?D \<le> \<bar>?d * ?n\<bar> * ?D div ?D" using D by (intro zdiv_mono1) simp_all
    then show ?thesis using False D unfolding abs by simp
  qed simp
  have sign: "0 \<le> ?v now * ?d"
  proof (cases "now > e \<or> ?n = 0 \<or> ?d = 0")
    case True
    then show ?thesis by (auto simp: quot_def)
  next
    case False
    then have pos: "0 < ?n" "1 \<le> period_days (max s now) e" using n period_days_pos [of "max s now" e] assms(6) by auto
    let ?k = "?n * period_days (max s now) e * ?D"
    have k: "0 < ?k" using pos D by simp
    have "0 \<le> quot (?d * ?n * period_days (max s now) e) ?D * (?d * ?n * period_days (max s now) e * ?D)" by (rule quot_sign)
    then have "0 \<le> ?v now * ?d * ?k" using False by (simp add: algebra_simps)
    then show ?thesis using k by (simp add: zero_le_mult_iff)
  qed
  have full: "now \<le> s \<longrightarrow> ?v now = ?d * ?n" using D assms(6) by (auto simp: max_def quot_self)
  show ?thesis using fwd [of now] fwd [of now'] bwd shrink bound sign full by (intro exI conjI) auto
qed

definition ex_cfg :: billing_config where
  "ex_cfg = NewService \<lparr>cfg_Pool = True, cfg_CoreSeatCents = 0, cfg_ProSeatCents = 0, cfg_PrivacySeatCents = 0, cfg_CorePerSeatBytes = 0, cfg_ProPerSeatBytes = 0, cfg_PrivacyPerSeatBytes = 0\<rparr>"

definition ex_lifecycle :: Lifecycle where
  "ex_lifecycle = \<lparr>lc_cfg = ex_cfg, lc_stripe = False, lc_pricing = Map.empty, lc_path_escape = id\<rparr>"

definition ex_seat :: "string \<Rightarrow> string \<Rightarrow> User" where
  "ex_seat t i = \<lparr>us_ID = i, us_TenantID = t, us_KChatUserID = i, us_StalwartAccountID = i, us_Email = i, us_DisplayName = i, us_Role = ''member'', us_Status = ''active'', us_AccountType = ''user'', us_QuotaBytes = 0\<rparr>"

theorem proration_is_fair_witness:
  "\<exists>v v'. computeProration ex_lifecycle None (control_tables [active_tenant ''t1''] [ex_seat ''t1'' ''a'', ex_seat ''t1'' ''b'']) ''t1'' ''core'' ''pro'' 0 (30 * nanos_per_day) (15 * nanos_per_day) = Inr v
     \<and> computeProration ex_lifecycle None (control_tables [active_tenant ''t1''] [ex_seat ''t1'' ''a'', ex_seat ''t1'' ''b'']) ''t1'' ''pro'' ''core'' 0 (30 * nanos_per_day) (15 * nanos_per_day) = Inr (- v)
     \<and> computeProration ex_lifecycle None (control_tables [active_tenant ''t1''] [ex_seat ''t1'' ''a'', ex_seat ''t1'' ''b'']) ''t1'' ''core'' ''pro'' 0 (30 * nanos_per_day) (20 * nanos_per_day) = Inr v'
     \<and> \<bar>v'\<bar> \<le> \<bar>v\<bar> \<and> \<bar>v\<bar> \<le> 600"
proof -
  let ?db = "control_tables [active_tenant ''t1''] [ex_seat ''t1'' ''a'', ex_seat ''t1'' ''b'']"
  have n: "seat_total ?db ''t1'' = 2" by code_simp
  have d: "price_diff (lc_cfg ex_lifecycle) ''core'' ''pro'' = 300" by code_simp
  have D: "period_days 0 (30 * nanos_per_day) = 31" by code_simp
  from proration_is_fair [of ex_lifecycle "''t1''" "''core''" "''pro''" 0 "30 * nanos_per_day" "15 * nanos_per_day" "20 * nanos_per_day" ?db, unfolded n d D]
  show ?thesis by (simp add: ex_lifecycle_def ex_cfg_def NewService_def ValidatePlan_def) blast
qed

subsection \<open>Storage quota\<close>

text \<open>Without overflow the check before an upload compares the sum with the limit, and refuses a tenant without a row.\<close>

lemma storage_check_exact:
  assumes "cfg_Pool cfg" and "t \<noteq> []" and "0 \<le> n"
  shows "CheckStorageQuota cfg None db t n =
    (case quotas db t of
       None \<Rightarrow> Some ErrQuotaExceeded
     | Some q \<Rightarrow> if q_StorageLimitBytes q \<noteq> 0 \<and> int64 (q_StorageUsedBytes q + n) > q_StorageLimitBytes q then Some ErrQuotaExceeded else None)"
  using assms by (auto simp: CheckStorageQuota_def GetQuota_def tx_def split: option.splits)

text \<open>A claimed size near the largest integer overflows and passes.\<close>

lemma storage_check_overflow:
  "CheckStorageQuota ex_cfg None ((control_tables [active_tenant ''t1''] [])\<lparr>quotas := [''t1'' \<mapsto> \<lparr>q_StorageUsedBytes = 10, q_StorageLimitBytes = 100, q_SeatCount = 0, q_SeatLimit = 0\<rparr>]\<rparr>)
     ''t1'' (2 ^ 63 - 1) = None"
  by code_simp

text \<open>A delta of two gibibytes or more is not accounted for: the statement's parameter has 32 bits.\<close>

lemma large_delta_refused:
  assumes "cfg_Pool cfg" and "t \<noteq> []" and "2 ^ 31 \<le> n"
  shows "UpdateStorageUsage cfg None db t n = (db, Inl (DbError ''value out of range for int4''))"
  using assms by (simp add: UpdateStorageUsage_def tx_def fits_int4_def)

subsection \<open>Storage accounting by events\<close>

definition ledger :: "string \<Rightarrow> (string \<times> StorageEvent) list \<Rightarrow> int" where
  "ledger t xs = sum_list (map (\<lambda>(t', e). if t' = t then signed_size e else 0) xs)"

lemma ledger_simps [simp]: "ledger t [] = 0" "ledger t (x # xs) = (if fst x = t then signed_size (snd x) else 0) + ledger t xs"
  by (simp_all add: ledger_def split: prod.splits)

lemma ledger_append [simp]: "ledger t (xs @ ys) = ledger t xs + ledger t ys"
  by (simp add: ledger_def)

lemma event_total_ledger: "event_total t db = ledger t (storage_events db)"
  by (simp add: event_total_def ledger_def)

definition flat :: "(string \<times> StorageEvent list) list \<Rightarrow> (string \<times> StorageEvent) list" where
  "flat ps = concat (map (\<lambda>(t, es). map (Pair t) es) ps)"

lemma flat_simps [simp]: "flat [] = []" "flat ((t, es) # ps) = map (Pair t) es @ flat ps"
  by (simp_all add: flat_def)

lemma ledger_add_pending: "ledger t (flat (add_pending p ps)) = ledger t (flat ps) + ledger t [p]"
  by (induction p ps rule: add_pending.induct) auto

lemma ledger_group: "ledger t (flat (fold add_pending xs ps)) = ledger t (flat ps) + ledger t xs"
  by (induction xs arbitrary: ps) (auto simp: ledger_add_pending)

text \<open>An event that can be recorded for a tenant.\<close>

definition recordable :: "control_db \<Rightarrow> string \<Rightarrow> StorageEvent \<Rightarrow> bool" where
  "recordable db t e \<longleftrightarrow> t \<noteq> [] \<and> tenant_exists db t \<and> event_error e = None \<and> fits_int8 (se_SizeBytes e)"

definition batches_ok :: "control_db \<Rightarrow> (string \<times> StorageEvent list) list \<Rightarrow> bool" where
  "batches_ok db ps \<longleftrightarrow> (\<forall>(t, es) \<in> set ps. t \<noteq> [] \<and> tenant_exists db t \<and> (\<forall>e \<in> set es. recordable db t e))"

lemma batches_ok_simps [simp]: "batches_ok db []"
    "batches_ok db ((t, es) # ps) \<longleftrightarrow> (t \<noteq> [] \<and> tenant_exists db t \<and> (\<forall>e \<in> set es. recordable db t e)) \<and> batches_ok db ps"
  by (auto simp: batches_ok_def)

lemma batches_add: "recordable db (fst p) (snd p) \<Longrightarrow> batches_ok db ps \<Longrightarrow> batches_ok db (add_pending p ps)"
  by (induction p ps rule: add_pending.induct) (auto simp: recordable_def)

lemma batches_group: "\<forall>p \<in> set xs. recordable db (fst p) (snd p) \<Longrightarrow> batches_ok db ps \<Longrightarrow> batches_ok db (fold add_pending xs ps)"
  by (induction xs arbitrary: ps) (auto intro: batches_add)

lemma tenant_exists_frame [simp]:
  "tenant_exists (db\<lparr>storage_events := x\<rparr>) t = tenant_exists db t" "tenant_exists (db\<lparr>quotas := y\<rparr>) t = tenant_exists db t"
  "tenant_exists (db\<lparr>billing_events := z\<rparr>) t = tenant_exists db t" "tenant_exists (db\<lparr>quotas := y, billing_events := z\<rparr>) t = tenant_exists db t"
  by (simp_all add: tenant_exists_def)

lemma batches_frame [simp]: "batches_ok (db\<lparr>storage_events := x\<rparr>) ps = batches_ok db ps"
  by (simp add: batches_ok_def recordable_def)

lemma insert_storage_events_ok:
  "tenant_exists db t \<Longrightarrow> \<forall>e \<in> set es. recordable db t e \<Longrightarrow>
    insert_storage_events t es db = Inr (db\<lparr>storage_events := storage_events db @ map (Pair t) es\<rparr>)"
proof (induction es arbitrary: db)
  case Nil
  show ?case by simp
next
  case (Cons e es)
  let ?db = "db\<lparr>storage_events := storage_events db @ [(t, e)]\<rparr>"
  have "insert_storage_event t e db = Inr ?db"
    using Cons.prems by (auto simp: insert_storage_event_def recordable_def event_error_def split: if_splits)
  moreover have "insert_storage_events t es ?db = Inr (?db\<lparr>storage_events := storage_events ?db @ map (Pair t) es\<rparr>)"
    using Cons.prems by (intro Cons.IH) (auto simp: recordable_def)
  ultimately show ?case by simp
qed

lemma RecordEvents_ok:
  assumes "t \<noteq> []" and "tenant_exists db t" and "\<forall>e \<in> set es. recordable db t e"
  shows "RecordEvents True None db t es = (db\<lparr>storage_events := storage_events db @ map (Pair t) es\<rparr>, Inr ())"
proof -
  have "List.map_filter event_error es = []" using assms(3) by (induction es) (auto simp: map_filter_simps recordable_def)
  then show ?thesis using assms(1) insert_storage_events_ok [OF assms(2,3)] by (auto simp: RecordEvents_def tx_def)
qed

lemma record_batches_ok:
  assumes "batches_ok db ps"
  shows "\<exists>effs. record_batches True audit (\<lambda>_. None) db ps = (db\<lparr>storage_events := storage_events db @ flat ps\<rparr>, effs, False)"
  using assms
proof (induction ps arbitrary: db)
  case (Cons p ps)
  obtain t es where p: "p = (t, es)" by (cases p)
  let ?db = "db\<lparr>storage_events := storage_events db @ map (Pair t) es\<rparr>"
  have "RecordEvents True None db t es = (?db, Inr ())" using Cons.prems p by (intro RecordEvents_ok) auto
  moreover obtain effs where "record_batches True audit (\<lambda>_. None) ?db ps = (?db\<lparr>storage_events := storage_events ?db @ flat ps\<rparr>, effs, False)"
    using Cons.IH [of ?db] Cons.prems p by auto
  ultimately show ?case using p by simp
qed simp

text \<open>The quota row of a tenant after its usage is set.\<close>

definition with_usage :: "control_db \<Rightarrow> string \<Rightarrow> int \<Rightarrow> Quota" where
  "with_usage db t n = (coalesce (quotas db t) zero_quota)\<lparr>q_StorageUsedBytes := n\<rparr>"

definition quota_rows_ok :: "control_db \<Rightarrow> bool" where
  "quota_rows_ok db \<longleftrightarrow> (\<forall>t q. quotas db t = Some q \<longrightarrow> quota_ok q)"

lemma SetStorageUsage_ok:
  assumes "cfg_Pool cfg" and "t \<noteq> []" and "tenant_exists db t" and "quota_rows_ok db" and "0 \<le> n" and "fits_int8 n"
  shows "\<exists>evs. SetStorageUsage cfg None db t n = (db\<lparr>quotas := (quotas db)(t \<mapsto> with_usage db t n), billing_events := evs\<rparr>, Inr ())"
proof -
  have ok: "quota_ok (with_usage db t n)"
    using assms(4-6) by (cases "quotas db t") (auto simp: with_usage_def coalesce_def quota_ok_def zero_quota_def quota_rows_ok_def fits_int8_def fits_int4_def)
  let ?used = "\<lambda>q. q\<lparr>q_StorageUsedBytes := n\<rparr>"
  have put: "upsert_quota t ?used ?used db = Inr (db\<lparr>quotas := (quotas db)(t \<mapsto> with_usage db t n)\<rparr>)"
    using ok assms(3) by (cases "quotas db t") (simp_all add: upsert_quota_def put_quota_def with_usage_def coalesce_def)
  have ins: "insert_event ((event_row t ''storage_snapshot'')\<lparr>be_storage_delta := Some n\<rparr>) d = Inr (d\<lparr>billing_events := billing_events d @ [(event_row t ''storage_snapshot'')\<lparr>be_storage_delta := Some n\<rparr>]\<rparr>)"
    if "tenant_exists d t" for d
    using that assms(6) by (simp add: insert_event_def event_row_def billing_event_types_def in_range_def)
  show ?thesis
    using assms(1,2,3,5) put ins [of "db\<lparr>quotas := (quotas db)(t \<mapsto> with_usage db t n)\<rparr>"] by (auto simp: SetStorageUsage_def tx_def Let_def)
qed

lemma ReconcileTenant_ok:
  "t \<noteq> [] \<Longrightarrow> fits_int8 (event_total t db) \<Longrightarrow> ReconcileTenant True None db t = Inr (event_total t db)"
  by (simp add: ReconcileTenant_def tx_def)

lemma quota_rows_ok_upd: "quota_rows_ok db \<Longrightarrow> 0 \<le> n \<Longrightarrow> fits_int8 n \<Longrightarrow> quota_rows_ok (db\<lparr>quotas := (quotas db)(t \<mapsto> with_usage db t n), billing_events := evs\<rparr>)"
  by (cases "quotas db t") (auto simp: quota_rows_ok_def with_usage_def coalesce_def zero_quota_def quota_ok_def fits_int8_def fits_int4_def)

definition event_usage :: "control_db \<Rightarrow> string \<Rightarrow> int" where
  "event_usage db t = max 0 (event_total t db)"

lemma event_usage_fits: "fits_int8 (event_total t db) \<Longrightarrow> 0 \<le> event_usage db t \<and> fits_int8 (event_usage db t)"
  by (auto simp: event_usage_def fits_int8_def)

lemma event_usage_frame [simp]: "event_usage (db\<lparr>quotas := x, billing_events := y\<rparr>) t = event_usage db t"
  by (simp add: event_usage_def event_total_ledger)

lemma tick_tenant_ok:
  assumes "cfg_Pool cfg" and "t \<noteq> []" and "tenant_exists db t" and "quota_rows_ok db" and "fits_int8 (event_total t db)"
  shows "\<exists>evs lt' effs'. event_tick_tenant cfg audit (\<lambda>_ _. None) t (db, lt, effs) =
    (db\<lparr>quotas := (quotas db)(t \<mapsto> with_usage db t (event_usage db t)), billing_events := evs\<rparr>, lt', effs')"
proof -
  obtain evs where "SetStorageUsage cfg None db t (event_usage db t) = (db\<lparr>quotas := (quotas db)(t \<mapsto> with_usage db t (event_usage db t)), billing_events := evs\<rparr>, Inr ())"
    using SetStorageUsage_ok [OF assms(1-4)] event_usage_fits [OF assms(5)] by blast
  then show ?thesis
    by (auto simp: event_tick_tenant_def ReconcileTenant_ok [OF assms(2,5)] event_usage_def auditSnapshot_def Let_def)
qed

lemma tick_fold_ok:
  assumes "cfg_Pool cfg" and "\<forall>t \<in> set ids. t \<noteq> [] \<and> tenant_exists db t \<and> fits_int8 (event_total t db)" and "quota_rows_ok db"
  shows "\<exists>db' lt' effs'. fold (event_tick_tenant cfg audit (\<lambda>_ _. None)) ids (db, lt, effs) = (db', lt', effs')
    \<and> (\<forall>t. quotas db' t = (if t \<in> set ids then Some (with_usage db t (event_usage db t)) else quotas db t))"
  using assms(2,3)
proof (induction ids arbitrary: db lt effs)
  case (Cons i ids)
  obtain evs lt1 effs1 where step: "event_tick_tenant cfg audit (\<lambda>_ _. None) i (db, lt, effs) =
      (db\<lparr>quotas := (quotas db)(i \<mapsto> with_usage db i (event_usage db i)), billing_events := evs\<rparr>, lt1, effs1)"
    using tick_tenant_ok [OF assms(1), of i db audit lt effs] Cons.prems by auto
  let ?db = "db\<lparr>quotas := (quotas db)(i \<mapsto> with_usage db i (event_usage db i)), billing_events := evs\<rparr>"
  have "quota_rows_ok ?db" using Cons.prems event_usage_fits by (intro quota_rows_ok_upd) auto
  moreover have "\<forall>t \<in> set ids. t \<noteq> [] \<and> tenant_exists ?db t \<and> fits_int8 (event_total t ?db)" using Cons.prems(1) by (simp add: event_total_ledger)
  ultimately obtain db' lt' effs' where rest: "fold (event_tick_tenant cfg audit (\<lambda>_ _. None)) ids (?db, lt1, effs1) = (db', lt', effs')"
      "\<forall>t. quotas db' t = (if t \<in> set ids then Some (with_usage ?db t (event_usage ?db t)) else quotas ?db t)"
    using Cons.IH [of ?db lt1 effs1] by blast
  have "quotas db' t = (if t \<in> set (i # ids) then Some (with_usage db t (event_usage db t)) else quotas db t)" for t
    using rest(2) by (simp add: with_usage_def coalesce_def)
  then show ?case using step rest(1) by simp
qed simp

lemma listActive_exists: "t \<in> set (listActiveTenantIDs db) \<Longrightarrow> tenant_exists db t"
  by (auto simp: listActiveTenantIDs_def tenant_exists_def list_ex_iff)

lemma storage_serve_ok:
  assumes "storage_verify hmac secret now header body = None" and "decode body = Some recs"
    and "\<forall>p \<in> set (List.map_filter event_of_record recs). recordable db (fst p) (snd p)"
  shows "\<exists>effs xs. storage_serve hmac decode secret True audit (\<lambda>_. None) now db header (Some body) = (db\<lparr>storage_events := storage_events db @ xs\<rparr>, effs, 204)
    \<and> (\<forall>t. ledger t xs = ledger t (List.map_filter event_of_record recs))"
proof -
  have "batches_ok db (group_records recs)" unfolding group_records_def by (rule batches_group [OF assms(3)]) simp
  then obtain effs where "record_batches True audit (\<lambda>_. None) db (group_records recs) = (db\<lparr>storage_events := storage_events db @ flat (group_records recs)\<rparr>, effs, False)"
    using record_batches_ok by blast
  then have "storage_serve hmac decode secret True audit (\<lambda>_. None) now db header (Some body) = (db\<lparr>storage_events := storage_events db @ flat (group_records recs)\<rparr>, effs, 204)"
    using assms(1,2) by (simp add: storage_serve_def)
  moreover have "\<forall>t. ledger t (flat (group_records recs)) = ledger t (List.map_filter event_of_record recs)"
    by (simp add: group_records_def ledger_group)
  ultimately show ?thesis by blast
qed

text \<open>
  Object notifications and the event worker together keep the storage usage: after an accepted notification, whatever
  tenants and objects it mixes, and an undisturbed tick, the usage of every tenant that is not deleted is the sum of the
  created minus the deleted bytes over all its events, and zero if that is negative.\<close>

theorem storage_usage_follows_events:
  assumes "cfg_Pool cfg" and "storage_verify hmac secret now header body = None" and "decode body = Some recs"
    and "\<forall>p \<in> set (List.map_filter event_of_record recs). recordable db (fst p) (snd p)" and "quota_rows_ok db"
    and "\<forall>t \<in> set (listActiveTenantIDs db). t \<noteq> [] \<and> fits_int8 (event_total t db + ledger t (List.map_filter event_of_record recs))"
  shows "\<exists>db1 effs db2 lt' effs'. storage_serve hmac decode secret True audit (\<lambda>_. None) now db header (Some body) = (db1, effs, 204)
    \<and> event_tick cfg audit None (\<lambda>_ _. None) db1 lt = (db2, lt', effs')
    \<and> (\<forall>t \<in> set (listActiveTenantIDs db). \<exists>q. quotas db2 t = Some q
         \<and> q_StorageUsedBytes q = max 0 (event_total t db + ledger t (List.map_filter event_of_record recs)))"
proof -
  obtain effs xs where serve: "storage_serve hmac decode secret True audit (\<lambda>_. None) now db header (Some body) = (db\<lparr>storage_events := storage_events db @ xs\<rparr>, effs, 204)"
    and xs: "\<forall>t. ledger t xs = ledger t (List.map_filter event_of_record recs)"
    using storage_serve_ok [where decode = decode, OF assms(2,3,4)] by blast
  let ?db1 = "db\<lparr>storage_events := storage_events db @ xs\<rparr>"
  have ids: "listActiveTenantIDs ?db1 = listActiveTenantIDs db" by (simp add: listActiveTenantIDs_def)
  have tot: "event_total t ?db1 = event_total t db + ledger t (List.map_filter event_of_record recs)" for t using xs by (simp add: event_total_ledger)
  have rows: "quota_rows_ok ?db1" using assms(5) by (simp add: quota_rows_ok_def)
  have "\<forall>t \<in> set (listActiveTenantIDs db). t \<noteq> [] \<and> tenant_exists ?db1 t \<and> fits_int8 (event_total t ?db1)" using assms(6) tot by (simp add: listActive_exists)
  from tick_fold_ok [OF assms(1) this rows, of audit lt "[]"]
  obtain db2 lt' effs' where tick: "fold (event_tick_tenant cfg audit (\<lambda>_ _. None)) (listActiveTenantIDs db) (?db1, lt, []) = (db2, lt', effs')"
    and q: "\<forall>t. quotas db2 t = (if t \<in> set (listActiveTenantIDs db) then Some (with_usage ?db1 t (event_usage ?db1 t)) else quotas ?db1 t)" by blast
  have "event_tick cfg audit None (\<lambda>_ _. None) ?db1 lt = (db2, lt', effs')" using tick by (simp add: event_tick_def ids)
  moreover have "\<forall>t \<in> set (listActiveTenantIDs db). \<exists>q. quotas db2 t = Some q \<and> q_StorageUsedBytes q = max 0 (event_total t db + ledger t (List.map_filter event_of_record recs))"
    using q tot by (simp add: with_usage_def event_usage_def)
  ultimately show ?thesis using serve by blast
qed

definition ex_record :: "string \<Rightarrow> string \<Rightarrow> int option \<Rightarrow> s3NotificationRecord" where
  "ex_record name t n = \<lparr>s3_EventName = name, s3_Bucket = ''kmail-'' @ t, s3_Key = ''a%20b'', s3_Size = n\<rparr>"

definition ex_records :: "s3NotificationRecord list" where
  "ex_records = [ex_record ''s3:ObjectCreated:Put'' ''t1'' (Some 700), ex_record ''s3:ObjectRemoved:Delete'' ''t1'' (Some 200), ex_record ''s3:ObjectCreated:Put'' ''t2'' (Some 50)]"

definition ex_storage_db :: control_db where
  "ex_storage_db = control_tables [active_tenant ''t1'', active_tenant ''t2''] []"

theorem storage_usage_follows_events_witness:
  "\<exists>db1 effs db2 lt' effs'. storage_serve (\<lambda>_ _. []) (\<lambda>_. Some ex_records) [] True True (\<lambda>_. None) 0 ex_storage_db [] (Some []) = (db1, effs, 204)
    \<and> event_tick ex_cfg True None (\<lambda>_ _. None) db1 Map.empty = (db2, lt', effs')
    \<and> map_option q_StorageUsedBytes (quotas db2 ''t1'') = Some 500 \<and> map_option q_StorageUsedBytes (quotas db2 ''t2'') = Some 50"
proof -
  have events: "List.map_filter event_of_record ex_records =
      [(''t1'', \<lparr>se_EventType = EventObjectCreated, se_ObjectKey = ''a b'', se_SizeBytes = 700\<rparr>), (''t1'', \<lparr>se_EventType = EventObjectDeleted, se_ObjectKey = ''a b'', se_SizeBytes = 200\<rparr>),
       (''t2'', \<lparr>se_EventType = EventObjectCreated, se_ObjectKey = ''a b'', se_SizeBytes = 50\<rparr>)]"
    by code_simp
  have ids: "listActiveTenantIDs ex_storage_db = [''t1'', ''t2'']" by code_simp
  have none: "storage_events ex_storage_db = []" by (simp add: ex_storage_db_def control_tables_def)
  have sums: "ledger ''t1'' (List.map_filter event_of_record ex_records) = 500" "ledger ''t2'' (List.map_filter event_of_record ex_records) = 50"
    unfolding events by (simp_all add: signed_size_def)
  have rec: "\<forall>p \<in> set (List.map_filter event_of_record ex_records). recordable ex_storage_db (fst p) (snd p)"
    unfolding events by (simp add: recordable_def tenant_exists_def ex_storage_db_def control_tables_def active_tenant_def event_error_def validStorageEventType_def fits_int8_def)
  have rows: "quota_rows_ok ex_storage_db" by (simp add: quota_rows_ok_def ex_storage_db_def control_tables_def)
  have pool: "cfg_Pool ex_cfg" by (simp add: ex_cfg_def NewService_def)
  have ver: "storage_verify (\<lambda>_ _. []) [] 0 [] [] = None" by (simp add: storage_verify_def)
  have fits: "\<forall>t \<in> set (listActiveTenantIDs ex_storage_db). t \<noteq> [] \<and> fits_int8 (event_total t ex_storage_db + ledger t (List.map_filter event_of_record ex_records))"
    unfolding ids using sums by (simp add: event_total_ledger none fits_int8_def)
  from storage_usage_follows_events [where decode = "\<lambda>_. Some ex_records", OF pool ver refl rec rows fits, of True Map.empty]
  show ?thesis unfolding ids using sums by (auto simp: event_total_ledger none)
qed

text \<open>A notification that is delivered twice is counted twice.\<close>

lemma redelivery_counts_twice:
  assumes "storage_verify hmac secret now header body = None" and "decode body = Some recs"
    and "\<forall>p \<in> set (List.map_filter event_of_record recs). recordable db (fst p) (snd p)"
  shows "\<exists>db1 effs db2 effs'. storage_serve hmac decode secret True audit (\<lambda>_. None) now db header (Some body) = (db1, effs, 204)
    \<and> storage_serve hmac decode secret True audit (\<lambda>_. None) now db1 header (Some body) = (db2, effs', 204)
    \<and> (\<forall>t. event_total t db2 = event_total t db + 2 * ledger t (List.map_filter event_of_record recs))"
proof -
  obtain effs xs where 1: "storage_serve hmac decode secret True audit (\<lambda>_. None) now db header (Some body) = (db\<lparr>storage_events := storage_events db @ xs\<rparr>, effs, 204)"
    "\<forall>t. ledger t xs = ledger t (List.map_filter event_of_record recs)"
    using storage_serve_ok [where decode = decode, OF assms] by blast
  let ?db1 = "db\<lparr>storage_events := storage_events db @ xs\<rparr>"
  have "\<forall>p \<in> set (List.map_filter event_of_record recs). recordable ?db1 (fst p) (snd p)" using assms(3) by (simp add: recordable_def)
  from storage_serve_ok [where decode = decode, OF assms(1,2) this]
  obtain effs' ys where 2: "storage_serve hmac decode secret True audit (\<lambda>_. None) now ?db1 header (Some body) = (?db1\<lparr>storage_events := storage_events ?db1 @ ys\<rparr>, effs', 204)"
    "\<forall>t. ledger t ys = ledger t (List.map_filter event_of_record recs)" by blast
  have "\<forall>t. event_total t (?db1\<lparr>storage_events := storage_events ?db1 @ ys\<rparr>) = event_total t db + 2 * ledger t (List.map_filter event_of_record recs)"
    using 1(2) 2(2) by (simp add: event_total_ledger)
  then show ?thesis using 1(1) 2(1) by blast
qed

text \<open>The removal of an object without a size, which is how removals arrive, takes nothing off the usage.\<close>

lemma removal_without_size_is_free:
  assumes "event_of_record r = Some (t, e)" and "s3_Size r = None"
  shows "signed_size e = 0"
  using assms by (auto simp: event_of_record_def signed_size_def coalesce_def split: option.splits if_splits)

end
