(* ===== verification/PaymentProps.thy ===== *)
theory PaymentProps
  imports BillingEvents
begin

text \<open>
  Properties of the payment side of billing: dunning counts every invoice once, the webhooks act on signed fresh requests
  only, and which events of Stripe reach a subscription.
\<close>

subsection \<open>Dunning\<close>

text \<open>The deliveries that bring an invoice for the first time.\<close>

fun first_deliveries :: "string list \<Rightarrow> DunningEvent list \<Rightarrow> DunningEvent list" where
  "first_deliveries seen [] = []"
| "first_deliveries seen (e # es) =
     (if de_StripeInvoiceID e \<in> set seen then first_deliveries seen es
      else e # first_deliveries (de_StripeInvoiceID e # seen) es)"

lemma first_deliveries_snoc:
  "first_deliveries seen (es @ [e]) = first_deliveries seen es @
     (if de_StripeInvoiceID e \<in> set seen \<union> de_StripeInvoiceID ` set (first_deliveries seen es) then [] else [e])"
  by (induction es arbitrary: seen) auto

lemma first_deliveries_subset: "set (first_deliveries seen es) \<subseteq> set es"
  by (induction es arbitrary: seen) auto

definition occurred :: "DunningEvent \<Rightarrow> time" where
  "occurred e = coalesce (de_OccurredAt e) 0"

definition failures_for :: "string \<Rightarrow> time \<Rightarrow> DunningEvent list \<Rightarrow> nat" where
  "failures_for t now es = length (filter (\<lambda>e. de_TenantID e = t \<and> now - dunningWindow \<le> occurred e) es)"

text \<open>Some first delivery for the tenant is the third or a later one within thirty days before it.\<close>

definition struck_out :: "string \<Rightarrow> DunningEvent list \<Rightarrow> bool" where
  "struck_out t es \<longleftrightarrow> list_ex (\<lambda>k. de_TenantID (es ! k) = t \<and> 3 \<le> failures_for t (occurred (es ! k)) (take (Suc k) es)) [0..<length es]"

lemma struck_out_Nil [simp]: "\<not> struck_out t []"
  by (simp add: struck_out_def)

lemma struck_out_snoc: "struck_out t (es @ [e]) \<longleftrightarrow> struck_out t es \<or> de_TenantID e = t \<and> 3 \<le> failures_for t (occurred e) (es @ [e])"
  by (auto simp: struck_out_def list_ex_iff nth_append less_Suc_eq)

definition dunning_run :: "dunning_config \<Rightarrow> DunningEvent list \<Rightarrow> control_db \<times> dunning_effect list \<Rightarrow> control_db \<times> dunning_effect list" where
  "dunning_run cfg evts s =
     fold (\<lambda>e (db, effs). case dunning_Handle cfg (\<lambda>_. None) 0 db e of (db', es, _) \<Rightarrow> (db', effs @ es)) evts s"

definition notified :: "dunning_effect list \<Rightarrow> (string \<times> string) list" where
  "notified effs = List.map_filter (\<lambda>x. case x of NotifyPaymentFailed t i _ _ \<Rightarrow> Some (t, i) | _ \<Rightarrow> None) effs"

definition tenant_status :: "control_db \<Rightarrow> string \<Rightarrow> string option" where
  "tenant_status db t = map_option tn_Status (tenant_row db t)"

lemma notified_append [simp]: "notified (xs @ ys) = notified xs @ notified ys"
  by (simp add: notified_def map_filter_def)

lemma notified_simps [simp]: "notified [] = []" "notified (NotifyPaymentFailed t i a c # xs) = (t, i) # notified xs"
    "notified (AuditPaymentFailed t i f a c # xs) = notified xs" "notified (AuditTenantSuspended t f # xs) = notified xs"
  by (simp_all add: notified_def map_filter_simps)

definition row_of :: "DunningEvent \<Rightarrow> dunning_row" where
  "row_of e = \<lparr>du_tenant = de_TenantID e, du_invoice = de_StripeInvoiceID e, du_customer = de_StripeCustomerID e, du_amount = de_AmountDue e,
     du_currency = de_Currency e, du_occurred_at = occurred e\<rparr>"

lemma find_map_id: "(\<And>x. P (f x) = P x) \<Longrightarrow> find P (map f xs) = map_option f (find P xs)"
  by (induction xs) auto

definition suspend_row :: "string \<Rightarrow> Tenant \<Rightarrow> Tenant" where
  "suspend_row i t = (if tn_ID t = i \<and> tn_Status t \<noteq> ''suspended'' then t\<lparr>tn_Status := ''suspended''\<rparr> else t)"

lemma status_suspend:
  "tenant_status (db\<lparr>billing_dunning_events := rows, tenants := map (suspend_row i) (tenants db)\<rparr>) t =
     (if t = i then map_option (\<lambda>_. ''suspended'') (tenant_status db t) else tenant_status db t)"
proof -
  have "find (\<lambda>r. tn_ID r = t) (map (suspend_row i) (tenants db)) = map_option (suspend_row i) (find (\<lambda>r. tn_ID r = t) (tenants db))"
    by (rule find_map_id) (simp add: suspend_row_def)
  then show ?thesis
    by (cases "find (\<lambda>r. tn_ID r = t) (tenants db)") (auto simp: tenant_status_def tenant_row_def suspend_row_def dest: find_SomeD)
qed

lemma Handle_known:
  assumes "dc_Pool cfg" and "de_TenantID e \<noteq> []" and "list_ex (\<lambda>r. du_invoice r = de_StripeInvoiceID e) (billing_dunning_events db)"
  shows "dunning_Handle cfg (\<lambda>_. None) now db e = (db, [], None)"
  using assms by (simp add: dunning_Handle_def recordAndCount_def tx_def insert_dunning_def Let_def)

lemma Handle_new:
  assumes "dc_Pool cfg" and "de_TenantID e \<noteq> []" and "\<not> list_ex (\<lambda>r. du_invoice r = de_StripeInvoiceID e) (billing_dunning_events db)"
    and "tenant_exists db (de_TenantID e)" and "de_OccurredAt e \<noteq> None"
  shows "\<exists>effs. dunning_Handle cfg (\<lambda>_. None) now db e =
      (let db1 = db\<lparr>billing_dunning_events := billing_dunning_events db @ [row_of e]\<rparr>
       in if failures_since (occurred e - dunningWindow) (de_TenantID e) db1 \<ge> 3
          then db1\<lparr>tenants := map (suspend_row (de_TenantID e)) (tenants db1)\<rparr> else db1, effs, None)
    \<and> (dc_Notifier cfg \<longrightarrow> notified effs = [(de_TenantID e, de_StripeInvoiceID e)])"
proof -
  obtain t where t: "de_OccurredAt e = Some t" using assms(5) by auto
  let ?db1 = "db\<lparr>billing_dunning_events := billing_dunning_events db @ [row_of e]\<rparr>"
  have rec: "recordAndCount cfg None db e (occurred e) = (?db1, Inr (failures_since (occurred e - dunningWindow) (de_TenantID e) ?db1, True))"
    using assms(1-4) by (simp add: recordAndCount_def tx_def insert_dunning_def row_of_def)
  have occ: "coalesce (de_OccurredAt e) now = occurred e" by (simp add: occurred_def coalesce_def t)
  have sus: "suspend cfg None ?db1 (de_TenantID e) = (?db1\<lparr>tenants := map (suspend_row (de_TenantID e)) (tenants ?db1)\<rparr>, Inr ())"
    using assms(1,2) by (simp add: suspend_def tx_def suspend_row_def [abs_def])
  show ?thesis
  proof (cases "failures_since (occurred e - dunningWindow) (de_TenantID e) ?db1 \<ge> 3")
    case True
    then show ?thesis using assms(2) sus by (simp add: dunning_Handle_def occ rec Let_def)
  next
    case False
    then show ?thesis using assms(2) by (simp add: dunning_Handle_def occ rec Let_def)
  qed
qed

lemma failures_since_rows:
  "billing_dunning_events db = map row_of es \<Longrightarrow> failures_since (now - dunningWindow) t db = int (failures_for t now es)"
  by (simp add: failures_since_def failures_for_def filter_map row_of_def o_def)

lemma dunning_run_state:
  assumes "dc_Pool cfg" and "dc_Notifier cfg" and "billing_dunning_events db = []"
    and "\<forall>e \<in> set evts. de_TenantID e \<noteq> [] \<and> tenant_exists db (de_TenantID e) \<and> de_OccurredAt e \<noteq> None"
  shows "\<exists>db' effs. dunning_run cfg evts (db, []) = (db', effs) \<and> billing_dunning_events db' = map row_of (first_deliveries [] evts)
    \<and> notified effs = map (\<lambda>e. (de_TenantID e, de_StripeInvoiceID e)) (first_deliveries [] evts)
    \<and> (\<forall>t. tenant_exists db' t = tenant_exists db t)
    \<and> (\<forall>t. tenant_status db' t = (if struck_out t (first_deliveries [] evts) then map_option (\<lambda>_. ''suspended'') (tenant_status db t) else tenant_status db t))"
  using assms(4)
proof (induction evts rule: rev_induct)
  case Nil
  then show ?case using assms(3) by (simp add: dunning_run_def)
next
  case (snoc e evts)
  let ?F = "first_deliveries [] evts"
  obtain db' effs where run: "dunning_run cfg evts (db, []) = (db', effs)" and rows: "billing_dunning_events db' = map row_of ?F"
    and told: "notified effs = map (\<lambda>e. (de_TenantID e, de_StripeInvoiceID e)) ?F" and ex: "\<forall>t. tenant_exists db' t = tenant_exists db t"
    and st: "\<forall>t. tenant_status db' t = (if struck_out t ?F then map_option (\<lambda>_. ''suspended'') (tenant_status db t) else tenant_status db t)"
    using snoc by auto
  have e: "de_TenantID e \<noteq> []" "tenant_exists db' (de_TenantID e)" "de_OccurredAt e \<noteq> None" using snoc.prems ex by auto
  have step: "dunning_run cfg (evts @ [e]) (db, []) = (case dunning_Handle cfg (\<lambda>_. None) 0 db' e of (d, es, _) \<Rightarrow> (d, effs @ es))"
    using run by (simp add: dunning_run_def)
  have seen: "list_ex (\<lambda>r. du_invoice r = de_StripeInvoiceID e) (billing_dunning_events db') \<longleftrightarrow> de_StripeInvoiceID e \<in> de_StripeInvoiceID ` set ?F"
    unfolding rows by (auto simp: list_ex_iff row_of_def intro: rev_image_eqI)
  show ?case
  proof (cases "de_StripeInvoiceID e \<in> de_StripeInvoiceID ` set ?F")
    case True
    then have "first_deliveries [] (evts @ [e]) = ?F" by (simp add: first_deliveries_snoc)
    moreover have "dunning_run cfg (evts @ [e]) (db, []) = (db', effs)" using Handle_known [OF assms(1) e(1)] seen True by (simp add: step)
    ultimately show ?thesis using rows told ex st by simp
  next
    case False
    then have F: "first_deliveries [] (evts @ [e]) = ?F @ [e]" by (simp add: first_deliveries_snoc)
    let ?db1 = "db'\<lparr>billing_dunning_events := billing_dunning_events db' @ [row_of e]\<rparr>"
    have count: "failures_since (occurred e - dunningWindow) (de_TenantID e) ?db1 = int (failures_for (de_TenantID e) (occurred e) (?F @ [e]))"
      by (rule failures_since_rows) (simp add: rows)
    let ?out = "3 \<le> failures_for (de_TenantID e) (occurred e) (?F @ [e])"
    let ?db2 = "if ?out then ?db1\<lparr>tenants := map (suspend_row (de_TenantID e)) (tenants ?db1)\<rparr> else ?db1"
    have new: "\<not> list_ex (\<lambda>r. du_invoice r = de_StripeInvoiceID e) (billing_dunning_events db')" using seen False by simp
    obtain es where h: "dunning_Handle cfg (\<lambda>_. None) 0 db' e =
        (let db1 = ?db1 in if failures_since (occurred e - dunningWindow) (de_TenantID e) db1 \<ge> 3 then db1\<lparr>tenants := map (suspend_row (de_TenantID e)) (tenants db1)\<rparr> else db1, es, None)"
      and es: "notified es = [(de_TenantID e, de_StripeInvoiceID e)]"
      using Handle_new [OF assms(1) e(1) new e(2,3), of 0] assms(2) by blast
    have "dunning_Handle cfg (\<lambda>_. None) 0 db' e = (?db2, es, None)" unfolding h Let_def count by simp
    then have run2: "dunning_run cfg (evts @ [e]) (db, []) = (?db2, effs @ es)" "notified (effs @ es) = map (\<lambda>e. (de_TenantID e, de_StripeInvoiceID e)) (?F @ [e])"
      using step told es by simp_all
    have st2: "tenant_status ?db2 t = (if struck_out t (?F @ [e]) then map_option (\<lambda>_. ''suspended'') (tenant_status db t) else tenant_status db t)" for t
    proof -
      have same: "tenant_status ?db1 t = tenant_status db' t" by (simp add: tenant_status_def tenant_row_def)
      have "tenant_status ?db2 t = (if ?out \<and> t = de_TenantID e then map_option (\<lambda>_. ''suspended'') (tenant_status db' t) else tenant_status db' t)"
        using status_suspend [where db = db' and i = "de_TenantID e" and rows = "billing_dunning_events db' @ [row_of e]" and t = t] same
        by (cases "t = de_TenantID e") simp_all
      then show ?thesis using st by (auto simp: struck_out_snoc option.map_comp o_def)
    qed
    have ex2: "tenant_exists ?db2 t = tenant_exists db t" for t
    proof -
      have same: "tenant_exists ?db1 t = tenant_exists db' t" by (simp add: tenant_exists_def)
      have "tenant_exists (?db1\<lparr>tenants := map (suspend_row (de_TenantID e)) (tenants ?db1)\<rparr>) t = tenant_exists ?db1 t"
        by (rule tenant_exists_map) (simp add: suspend_row_def)
      then have "tenant_exists ?db2 t = tenant_exists db' t" using same by simp
      then show ?thesis using ex by simp
    qed
    have rows2: "billing_dunning_events ?db2 = map row_of (?F @ [e])" using rows by simp
    show ?thesis unfolding F using run2(1) rows2 run2(2) ex2 st2 by blast
  qed
qed

text \<open>
  However often Stripe redelivers failed payments, dunning notifies a tenant exactly once per invoice, in the order of
  first delivery, and a tenant ends up suspended exactly when some first delivery was its third or later one within the
  thirty days before it.\<close>

theorem dunning_once_per_invoice:
  assumes "dc_Pool cfg" and "dc_Notifier cfg" and "billing_dunning_events db = []"
    and "\<forall>e \<in> set evts. de_TenantID e \<noteq> [] \<and> tenant_exists db (de_TenantID e) \<and> de_OccurredAt e \<noteq> None"
  shows "case dunning_run cfg evts (db, []) of (db', effs) \<Rightarrow>
    notified effs = map (\<lambda>e. (de_TenantID e, de_StripeInvoiceID e)) (first_deliveries [] evts)
    \<and> (\<forall>t. tenant_status db' t = (if struck_out t (first_deliveries [] evts) then map_option (\<lambda>_. ''suspended'') (tenant_status db t) else tenant_status db t))"
  using dunning_run_state [OF assms] by auto

definition ex_failure :: "string \<Rightarrow> int \<Rightarrow> DunningEvent" where
  "ex_failure i day = \<lparr>de_TenantID = ''t1'', de_StripeInvoiceID = i, de_StripeCustomerID = ''c'', de_AmountDue = 900, de_Currency = ''usd'', de_OccurredAt = Some (day * nanos_per_day)\<rparr>"

definition ex_failures :: "DunningEvent list" where
  "ex_failures = [ex_failure ''i1'' 1, ex_failure ''i1'' 2, ex_failure ''i2'' 10, ex_failure ''i3'' 31]"

definition ex_dunning_db :: control_db where
  "ex_dunning_db = control_tables [active_tenant ''t1''] []"

theorem dunning_once_per_invoice_witness:
  "case dunning_run \<lparr>dc_Pool = True, dc_Notifier = True, dc_Auditor = True\<rparr> ex_failures (ex_dunning_db, []) of (db', effs) \<Rightarrow>
    notified effs = [(''t1'', ''i1''), (''t1'', ''i2''), (''t1'', ''i3'')] \<and> tenant_status db' ''t1'' = Some ''suspended''"
proof -
  have F: "first_deliveries [] ex_failures = [ex_failure ''i1'' 1, ex_failure ''i2'' 10, ex_failure ''i3'' 31]" by code_simp
  have out: "struck_out ''t1'' [ex_failure ''i1'' 1, ex_failure ''i2'' 10, ex_failure ''i3'' 31]" by code_simp
  have st: "tenant_status ex_dunning_db ''t1'' = Some ''active''" by code_simp
  have hyps: "billing_dunning_events ex_dunning_db = []"
    "\<forall>e \<in> set ex_failures. de_TenantID e \<noteq> [] \<and> tenant_exists ex_dunning_db (de_TenantID e) \<and> de_OccurredAt e \<noteq> None"
    by (simp_all add: ex_dunning_db_def control_tables_def ex_failures_def ex_failure_def tenant_exists_def active_tenant_def)
  show ?thesis
    using dunning_once_per_invoice [OF _ _ hyps, of "\<lparr>dc_Pool = True, dc_Notifier = True, dc_Auditor = True\<rparr>"] out st
    by (auto simp: F ex_failure_def)
qed

subsection \<open>Signed webhooks\<close>

lemma outside_window_iff: "outside_window now ts \<longleftrightarrow> \<bar>now - ts * nanos_per_s\<bar> > replayWindow"
  by (auto simp: outside_window_def Let_def time_Sub_def)

text \<open>A header is good when its last timestamp and signature fit the body and the clock.\<close>

definition fresh_signature :: "(string \<Rightarrow> string \<Rightarrow> byte list) \<Rightarrow> string \<Rightarrow> time \<Rightarrow> string \<Rightarrow> string \<Rightarrow> bool" where
  "fresh_signature hmac secret now header body \<longleftrightarrow>
     (\<exists>t v1 ts. signature_fields header = (t, v1) \<and> v1 \<noteq> [] \<and> v1 = hex_encode (hmac secret (t @ ''.'' @ body))
        \<and> ParseInt t = Some ts \<and> \<bar>now - ts * nanos_per_s\<bar> \<le> replayWindow)"

lemma ParseInt_Nil [simp]: "ParseInt [] = None"
  by (simp add: ParseInt_def)

lemma signature_fields_Nil [simp]: "signature_fields [] = ([], [])"
  by (simp add: signature_fields_def splitN2_def trim_space_def)

lemma stripe_verify_iff: "secret \<noteq> [] \<Longrightarrow> stripe_verify hmac secret now header body = None \<longleftrightarrow> fresh_signature hmac secret now header body"
  by (cases "header = []"; cases "signature_fields header"; cases "ParseInt (fst (signature_fields header))")
    (auto simp: stripe_verify_def fresh_signature_def outside_window_iff Let_def split: if_splits)

text \<open>The header Stripe writes for a body.\<close>

definition stripe_header :: "(string \<Rightarrow> string \<Rightarrow> byte list) \<Rightarrow> string \<Rightarrow> nat \<Rightarrow> string \<Rightarrow> string" where
  "stripe_header hmac secret ts body = ''t='' @ dec_nat ts @ '',v1='' @ hex_encode (hmac secret (dec_nat ts @ ''.'' @ body))"

lemma digit_chars: "set (dec_nat n) \<subseteq> digit_char ` {..<10}"
proof (induction n rule: dec_nat.induct)
  case (1 n)
  show ?case by (cases "n < 10") (use 1 in \<open>auto simp: dec_nat.simps [of n]\<close>)
qed

lemma digit_char_plain: "d < 10 \<Longrightarrow> \<not> is_space (digit_char d) \<and> digit_char d \<noteq> CHR '','' \<and> digit_char d \<noteq> CHR ''=''\<and> digit_char d \<noteq> CHR ''-'' \<and> digit_char d \<noteq> CHR ''+''"
proof -
  assume d: "d < 10"
  have "digit_char d \<noteq> c" if "digit_val c = None" for c using digit_val_char [OF d] that by auto
  then show ?thesis using d by (simp add: digit_val_def) (simp add: digit_char_def is_space_def)
qed

lemma hex_chars: "set (hex_encode bs) \<subseteq> set ''0123456789abcdef''"
proof
  fix c assume "c \<in> set (hex_encode bs)"
  then obtain n where n: "n < 16" "c = ''0123456789abcdef'' ! n"
    unfolding hex_encode_def hex_digit_def
  proof -
    assume "c \<in> set (concat (map (\<lambda>b. [''0123456789abcdef'' ! (unat b div 16), ''0123456789abcdef'' ! (unat b mod 16)]) bs))"
    then obtain b :: byte where "c = ''0123456789abcdef'' ! (unat b div 16) \<or> c = ''0123456789abcdef'' ! (unat b mod 16)" by auto
    moreover have "unat b div 16 < 16" using unsigned_less [of b, where ?'a = nat] by simp
    ultimately show thesis by (elim disjE) (rule that; simp)+
  qed
  then show "c \<in> set ''0123456789abcdef''" using nth_mem [of n "''0123456789abcdef''"] by simp
qed

lemma hex_char_plain: "c \<in> set ''0123456789abcdef'' \<Longrightarrow> \<not> is_space c \<and> c \<noteq> CHR '',''"
  by (auto simp: is_space_def)

lemma trim_space_plain: "\<forall>c \<in> set s. \<not> is_space c \<Longrightarrow> trim_space s = s"
proof -
  have drop: "dropWhile is_space xs = xs" if "\<forall>c \<in> set xs. \<not> is_space c" for xs using that by (cases xs) auto
  assume "\<forall>c \<in> set s. \<not> is_space c"
  then show ?thesis using drop [of s] drop [of "rev s"] by (simp add: trim_space_def)
qed

lemma splitN2_at: "c \<notin> set k \<Longrightarrow> splitN2 c (k @ c # v) = [k, v]"
  by (simp add: splitN2_def takeWhile_append dropWhile_append)

lemma header_fields: "signature_fields (stripe_header hmac secret ts body) = (dec_nat ts, hex_encode (hmac secret (dec_nat ts @ ''.'' @ body)))"
proof -
  let ?sig = "hex_encode (hmac secret (dec_nat ts @ ''.'' @ body))"
  have t: "\<forall>c \<in> set (dec_nat ts). \<not> is_space c \<and> c \<noteq> CHR '',''" using digit_chars [of ts] digit_char_plain by fastforce
  have v: "\<forall>c \<in> set ?sig. \<not> is_space c \<and> c \<noteq> CHR '',''" using hex_chars [of "hmac secret (dec_nat ts @ ''.'' @ body)"] hex_char_plain by blast
  have left: "CHR '','' \<notin> set (''t='' @ dec_nat ts)" using t by auto
  have right: "CHR '','' \<notin> set (''v1='' @ ?sig)" using v by auto
  have split: "split_on (CHR '','') (stripe_header hmac secret ts body) = [''t='' @ dec_nat ts, ''v1='' @ ?sig]"
    using split_on_sep [OF left, of "''v1='' @ ?sig"] split_on_plain [OF right] by (simp add: stripe_header_def)
  have trims: "trim_space (''t='' @ dec_nat ts) = ''t='' @ dec_nat ts" "trim_space (''v1='' @ ?sig) = ''v1='' @ ?sig"
    using t v by (intro trim_space_plain; auto simp: is_space_def)+
  have cuts: "splitN2 (CHR ''='') (''t='' @ dec_nat ts) = [''t'', dec_nat ts]" "splitN2 (CHR ''='') (''v1='' @ ?sig) = [''v1'', ?sig]"
    using splitN2_at [of "CHR ''=''" "''t''" "dec_nat ts"] splitN2_at [of "CHR ''=''" "''v1''" ?sig] by simp_all
  show ?thesis unfolding signature_fields_def split using trims cuts by simp
qed

lemma ParseInt_dec_nat: "int n < 2 ^ 63 \<Longrightarrow> ParseInt (dec_nat n) = Some (int n)"
proof -
  assume n: "int n < 2 ^ 63"
  obtain c cs where c: "dec_nat n = c # cs" by (meson dec_nat_nonempty list.exhaust)
  then have "c \<in> digit_char ` {..<10}" using digit_chars [of n] by auto
  then have "c \<noteq> CHR ''-''" "c \<noteq> CHR ''+''" using digit_char_plain by auto
  then show ?thesis using c n parse_digits_dec_nat [of n] by (simp add: ParseInt_def Let_def fits_int8_def)
qed

text \<open>
  C24: With a secret configured, the Stripe webhook acts on a request (changes a table, hands a session to the signup flow,
  answers anything but 400) only if the signature of its header is the HMAC of its timestamp and body and the timestamp
  is within five minutes of the clock; and the header Stripe writes for a body is accepted within those five minutes.\<close>

theorem stripe_webhook_authentic:
  assumes "secret \<noteq> []"
  shows "(\<not> fresh_signature hmac secret now header body \<longrightarrow>
            stripe_serve hmac decode secret completer lifecycle pool fault now db header (Some body) = (db, None, 400))
    \<and> (int ts < 2 ^ 63 \<longrightarrow> \<bar>now - int ts * nanos_per_s\<bar> \<le> replayWindow \<longrightarrow> hmac secret (dec_nat ts @ ''.'' @ body) \<noteq> [] \<longrightarrow>
         stripe_verify hmac secret now (stripe_header hmac secret ts body) body = None)"
proof (intro conjI impI)
  assume "\<not> fresh_signature hmac secret now header body"
  then have "stripe_verify hmac secret now header body \<noteq> None" using stripe_verify_iff [OF assms] by simp
  then show "stripe_serve hmac decode secret completer lifecycle pool fault now db header (Some body) = (db, None, 400)"
    by (auto simp: stripe_serve_def)
next
  assume ts: "int ts < 2 ^ 63" "\<bar>now - int ts * nanos_per_s\<bar> \<le> replayWindow" "hmac secret (dec_nat ts @ ''.'' @ body) \<noteq> []"
  then have "hex_encode (hmac secret (dec_nat ts @ ''.'' @ body)) \<noteq> []" by (cases "hmac secret (dec_nat ts @ ''.'' @ body)") (simp_all add: hex_encode_def)
  with ts show "stripe_verify hmac secret now (stripe_header hmac secret ts body) body = None"
    unfolding stripe_verify_iff [OF assms] fresh_signature_def header_fields by (simp add: ParseInt_dec_nat)
qed

theorem stripe_webhook_authentic_witness:
  "stripe_serve (\<lambda>_ _. [1]) (\<lambda>_. None) ''s'' None True True None 0 ex_dunning_db ''t=1,v1=00'' (Some ''b'') = (ex_dunning_db, None, 400)
   \<and> stripe_verify (\<lambda>_ _. [1]) ''s'' (100 * nanos_per_s) (stripe_header (\<lambda>_ _. [1]) ''s'' 100 ''b'') ''b'' = None"
proof -
  have fields: "signature_fields ''t=1,v1=00'' = (''1'', ''00'')" by code_simp
  have sig: "hex_encode [1] = ''01''" by code_simp
  have stale: "\<not> fresh_signature (\<lambda>_ _. [1]) ''s'' 0 ''t=1,v1=00'' ''b''" by (simp add: fresh_signature_def fields sig)
  have "(''s'' :: string) \<noteq> []" by simp
  note auth = stripe_webhook_authentic [OF this]
  show ?thesis
    using auth [of "\<lambda>_ _. [1]" 0 "''t=1,v1=00''" "''b''" "\<lambda>_. None" None True True None ex_dunning_db 0]
      auth [of "\<lambda>_ _. [1]" "100 * nanos_per_s" "[]" "''b''" "\<lambda>_. None" None True True None ex_dunning_db 100] stale by simp
qed

text \<open>The storage webhook takes the same signature in either case of its digits.\<close>

lemma hex_val_digit: "n < 16 \<Longrightarrow> hex_val (hex_digit n) = Some n"
proof -
  assume "n < 16"
  then have "n \<in> {0, 1, 2, 3, 4, 5, 6, 7, 8, 9, 10, 11, 12, 13, 14, 15}" by (simp, arith)
  then show ?thesis by (elim insertE emptyE; simp add: hex_digit_def hex_val_def)
qed

lemma hex_decode_encode: "hex_decode (hex_encode bs) = Some bs"
proof (induction bs)
  case (Cons b bs)
  have "unat b div 16 < 16" using unsigned_less [of b, where ?'a = nat] by simp
  moreover have "(of_nat (16 * (unat b div 16) + unat b mod 16) :: byte) = b" by (simp only: mult_div_mod_eq) simp
  ultimately show ?case using Cons by (simp add: hex_encode_def hex_val_digit)
qed (simp add: hex_encode_def)

lemma storage_webhook_accepts:
  assumes "secret \<noteq> []" and "fresh_signature hmac secret now header body"
  shows "storage_verify hmac secret now header body = None"
proof -
  obtain t v1 ts where f: "signature_fields header = (t, v1)" "v1 \<noteq> []" "v1 = hex_encode (hmac secret (t @ ''.'' @ body))" "ParseInt t = Some ts"
    "\<bar>now - ts * nanos_per_s\<bar> \<le> replayWindow" using assms(2) unfolding fresh_signature_def by blast
  then have "header \<noteq> []" "t \<noteq> []" by auto
  moreover have "\<not> outside_window now ts" using f(5) by (simp only: outside_window_iff not_less)
  ultimately show ?thesis using f(1-4) assms(1) by (simp add: storage_verify_def hex_decode_encode)
qed

subsection \<open>Events that do not reach their tenant\<close>

text \<open>The metadata that \<^verbatim>\<open>OnTenantCreated\<close> attaches names the tenant under a key that no handler of the webhook reads.\<close>

lemma own_subscription_events_ignored:
  assumes "ev_Type ev \<noteq> ''checkout.session.completed''"
    and "ev_payment ev = Some [(''kmail_tenant_id'', t), (''kmail_plan'', p)]"
    and "ev_subscription ev = Some so" and "so_Metadata so = [(''kmail_tenant_id'', t), (''kmail_plan'', p)]"
  shows "stripe_dispatch completer lifecycle pool fault db ev = (db, None, Inr ())"
  using assms by (simp add: stripe_dispatch_def markActive_def markPastDue_def applySubscriptionUpdate_def tenantIDFromObject_def lookup_or_empty_def Let_def)

lemma own_subscription_metadata:
  assumes "lc_stripe l" and "ans_customer ans = Inr c" and "price_of l plan \<noteq> []"
  shows "\<exists>req. fst (create_in_stripe l ans t plan) = [CreateCustomer True [] [(''kmail_tenant_id'', t)], CreateSubscription True req]
    \<and> sr_Metadata req = [(''kmail_tenant_id'', t), (''kmail_plan'', plan)]"
  using assms by (auto simp: create_in_stripe_def Let_def split: sum.splits)

subsection \<open>A downgrade past the usage\<close>

definition ex_config :: billing_config where
  "ex_config = NewService \<lparr>cfg_Pool = True, cfg_CoreSeatCents = 0, cfg_ProSeatCents = 0, cfg_PrivacySeatCents = 0, cfg_CorePerSeatBytes = 0, cfg_ProPerSeatBytes = 0, cfg_PrivacyPerSeatBytes = 0\<rparr>"

definition ex_pro_db :: control_db where
  "ex_pro_db = (control_tables [(active_tenant ''t1'')\<lparr>tn_Plan := ''pro''\<rparr>] [])\<lparr>
     quotas := [''t1'' \<mapsto> \<lparr>q_StorageUsedBytes = 10 * 1024 * 1024 * 1024, q_StorageLimitBytes = 15 * 1024 * 1024 * 1024, q_SeatCount = 0, q_SeatLimit = 0\<rparr>],
     billing_subscriptions := [''t1'' \<mapsto> \<lparr>sub_Plan = ''pro'', sub_Status = ''active'', sub_StripeSubscriptionID = None, sub_StripeCustomerID = None, sub_CurrentPeriodStart = 0, sub_CurrentPeriodEnd = 1\<rparr>]\<rparr>"

text \<open>The plan of the tenant changes, the answer is 402, and the subscription stays on the old plan without a proration.\<close>

lemma downgrade_leaves_subscription:
  "let (db, code, body) = changePlan ex_config (Some \<lparr>lc_cfg = ex_config, lc_stripe = False, lc_pricing = Map.empty, lc_path_escape = id\<rparr>) (\<lambda>_. None) 0 ''t1'' ex_pro_db ''t1'' (Some ''core'')
   in code = 402 \<and> map tn_Plan (tenants db) = [''core''] \<and> map_option sub_Plan (billing_subscriptions db ''t1'') = Some ''pro''
      \<and> map be_type (billing_events db) = [''plan_changed'']"
  by code_simp

end
