(* ===== verification/Tenancy.thy ===== *)
theory Tenancy
  imports BillingEvents
begin

text \<open>
  The tenant service (\<^verbatim>\<open>internal/tenant/service.go\<close>) and its HTTP handlers (\<^verbatim>\<open>handlers.go\<close>): tenants, users, domains and
  shared inboxes, with the storage provisioner, the billing hooks and the seat accounting they call.

  \<open>prov\<close> is the storage provisioner's answer, \<open>nid\<close> the id the database draws for a new row. An operation that reads and
  then writes in separate transactions takes what other processes do in between as a function on the tables.
\<close>

subsection \<open>Service\<close>

record tenant_service =
  ts_seats :: "billing_config option"
  ts_provisioner :: "(string \<Rightarrow> string \<Rightarrow> string option) option"
  ts_billing :: "Lifecycle option"
  ts_sharedInboxFn :: bool

datatype tenant_effect =
    Provision string string
  | Stripe "string + stripe_request"
  | MembershipChanged string string "string list" string

text \<open>What the services outside answer during one call.\<close>

record tenant_env =
  te_faults :: faults
  te_answers :: stripe_answers
  te_now :: time
  te_nid :: string

definition shift :: "nat \<Rightarrow> faults \<Rightarrow> faults" where
  "shift k f = (\<lambda>n. f (k + n))"

text \<open>A statement outside a transaction.\<close>

definition stmt :: "string option \<Rightarrow> (control_db \<Rightarrow> ctl_error + control_db \<times> 'a) \<Rightarrow> control_db \<Rightarrow> control_db \<times> (ctl_error + 'a)" where
  "stmt fault body db =
     (case fault of Some e \<Rightarrow> (db, Inl (DbError e)) | None \<Rightarrow> (case body db of Inl e \<Rightarrow> (db, Inl e) | Inr (db', a) \<Rightarrow> (db', Inr a)))"

definition tenant_ok :: "control_db \<Rightarrow> Tenant \<Rightarrow> bool" where
  "tenant_ok db t \<longleftrightarrow>
     ValidatePlan (tn_Plan t) = None \<and> tn_Status t \<in> {''active'', ''suspended'', ''deleted''}
     \<and> \<not> list_ex (\<lambda>r. tn_ID r \<noteq> tn_ID t \<and> tn_Slug r = tn_Slug t) (tenants db)"

definition insert_tenant :: "Tenant \<Rightarrow> control_db \<Rightarrow> ctl_error + control_db \<times> Tenant" where
  "insert_tenant t db =
     (if tenant_exists db (tn_ID t) then Inl (DbError ''tenants_pkey'')
      else if \<not> tenant_ok db t then Inl (DbError ''tenants: constraint'')
      else Inr (db\<lparr>tenants := tenants db @ [t]\<rparr>, t))"

text \<open>An update of one tenant by its key; without a row it is \<open>ErrNotFound\<close>.\<close>

definition update_tenant :: "string \<Rightarrow> (Tenant \<Rightarrow> Tenant) \<Rightarrow> control_db \<Rightarrow> ctl_error + control_db \<times> Tenant" where
  "update_tenant i f db =
     (case tenant_row db i of
        None \<Rightarrow> Inl ErrNotFound
      | Some t \<Rightarrow>
          if \<not> tenant_ok db (f t) then Inl (DbError ''tenants: constraint'')
          else Inr (db\<lparr>tenants := map (\<lambda>r. if tn_ID r = i then f r else r) (tenants db)\<rparr>, f t))"

text \<open>The sentinel errors of the billing package are not those of this one; only the quota error stays recognisable.\<close>

definition from_billing :: "ctl_error \<Rightarrow> ctl_error" where
  "from_billing e = (case e of ErrQuotaExceeded \<Rightarrow> ErrQuotaExceeded | _ \<Rightarrow> OtherError (error_text e))"

definition runProvisioningHooks :: "tenant_service \<Rightarrow> tenant_env \<Rightarrow> nat \<Rightarrow> control_db \<Rightarrow> string \<Rightarrow> string \<Rightarrow> control_db \<times> tenant_effect list \<times> ctl_error option" where
  "runProvisioningHooks s env k db tenantID plan =
     (let (effs, perr) = (case ts_provisioner s of None \<Rightarrow> ([], None) | Some prov \<Rightarrow> ([Provision tenantID plan], prov tenantID plan)) in
      case perr of
        Some e \<Rightarrow> (db, effs, Some (OtherError e))
      | None \<Rightarrow>
          (case ts_billing s of
             None \<Rightarrow> (db, effs, None)
           | Some l \<Rightarrow>
               (case OnTenantCreated l (te_answers env) (shift k (te_faults env)) (te_now env) db tenantID plan of
                  (db1, calls, r) \<Rightarrow> (db1, effs @ map Stripe calls, case r of Inl e \<Rightarrow> Some (from_billing e) | Inr _ \<Rightarrow> None))))"

record CreateTenantInput =
  ct_Name :: string
  ct_Slug :: string
  ct_Plan :: string

text \<open>The row is kept when a hook fails, and returned beside the error.\<close>

definition CreateTenant :: "tenant_service \<Rightarrow> tenant_env \<Rightarrow> control_db \<Rightarrow> CreateTenantInput \<Rightarrow> control_db \<times> tenant_effect list \<times> Tenant option \<times> ctl_error option" where
  "CreateTenant s env db inp =
     (if ct_Name inp = [] \<or> ct_Slug inp = [] \<or> ct_Plan inp = [] then (db, [], None, Some (ErrInvalidInput ''name, slug, and plan are required''))
      else case stmt (te_faults env 0)
             (insert_tenant \<lparr>tn_ID = te_nid env, tn_Name = ct_Name inp, tn_Slug = ct_Slug inp, tn_Plan = ct_Plan inp, tn_Status = ''active''\<rparr>) db of
          (db1, Inl e) \<Rightarrow> (db1, [], None, Some e)
        | (db1, Inr t) \<Rightarrow>
            (case runProvisioningHooks s env 1 db1 (tn_ID t) (tn_Plan t) of (db2, effs, e) \<Rightarrow> (db2, effs, Some t, e)))"

definition GetTenant :: "string option \<Rightarrow> control_db \<Rightarrow> string \<Rightarrow> ctl_error + Tenant" where
  "GetTenant fault db i =
     snd (stmt fault (\<lambda>d. case tenant_row d i of None \<Rightarrow> Inl ErrNotFound | Some t \<Rightarrow> Inr (d, t)) db)"

definition ListTenants :: "string option \<Rightarrow> control_db \<Rightarrow> ctl_error + Tenant list" where
  "ListTenants fault db = snd (stmt fault (\<lambda>d. Inr (d, tenants d)) db)"

record EnsureTenantInput =
  et_ID :: string
  et_Name :: string
  et_Slug :: string
  et_Plan :: string
  et_EnsureProvisioned :: bool

fun firstNonEmptyTenantField :: "string list \<Rightarrow> string" where
  "firstNonEmptyTenantField [] = []"
| "firstNonEmptyTenantField (v # vs) = (if trim_space v \<noteq> [] then trim_space v else firstNonEmptyTenantField vs)"

text \<open>A column follows its input where the input is not blank.\<close>

definition follow :: "string \<Rightarrow> string \<Rightarrow> string" where
  "follow new old = (if trim_space new \<noteq> [] then trim_space new else old)"

definition follow_input :: "EnsureTenantInput \<Rightarrow> Tenant \<Rightarrow> Tenant" where
  "follow_input inp t = t\<lparr>tn_Name := follow (et_Name inp) (tn_Name t), tn_Slug := follow (et_Slug inp) (tn_Slug t), tn_Plan := follow (et_Plan inp) (tn_Plan t)\<rparr>"

text \<open>The statement sets the columns that differ from the row read before; \<open>existing\<close> is that row.\<close>

definition set_changed :: "EnsureTenantInput \<Rightarrow> Tenant \<Rightarrow> Tenant \<Rightarrow> Tenant" where
  "set_changed inp existing t =
     (let new = follow_input inp existing in
      t\<lparr>tn_Name := (if tn_Name new \<noteq> tn_Name existing then tn_Name new else tn_Name t),
        tn_Slug := (if tn_Slug new \<noteq> tn_Slug existing then tn_Slug new else tn_Slug t),
        tn_Plan := (if tn_Plan new \<noteq> tn_Plan existing then tn_Plan new else tn_Plan t)\<rparr>)"

definition reconcileTenantMetadata :: "string option \<Rightarrow> control_db \<Rightarrow> Tenant \<Rightarrow> EnsureTenantInput \<Rightarrow> control_db \<times> (ctl_error + Tenant)" where
  "reconcileTenantMetadata fault db existing inp =
     (if follow_input inp existing = existing then (db, Inr existing)
      else case stmt fault (update_tenant (tn_ID existing) (set_changed inp existing)) db of
          (db1, Inl ErrNotFound) \<Rightarrow> (db1, Inl (OtherError ''reconcile tenant metadata: no rows''))
        | r \<Rightarrow> r)"

definition reconcileExisting :: "tenant_service \<Rightarrow> tenant_env \<Rightarrow> nat \<Rightarrow> control_db \<Rightarrow> Tenant \<Rightarrow> EnsureTenantInput
    \<Rightarrow> control_db \<times> tenant_effect list \<times> Tenant option \<times> bool \<times> ctl_error option" where
  "reconcileExisting s env k db existing inp =
     (case reconcileTenantMetadata (te_faults env k) db existing inp of
        (db1, Inl e) \<Rightarrow> (db1, [], None, False, Some e)
      | (db1, Inr t) \<Rightarrow>
          if et_EnsureProvisioned inp
          then (case runProvisioningHooks s env (k + 1) db1 (tn_ID t) (tn_Plan t) of (db2, effs, e) \<Rightarrow> (db2, effs, Some t, False, e))
          else (db1, [], Some t, False, None))"

text \<open>\<open>valid\<close> is \<^verbatim>\<open>uuid.Parse\<close>; \<open>others\<close> is what happens between the read and the insert. The flag says whether the row is new.\<close>

definition EnsureTenant :: "(string \<Rightarrow> bool) \<Rightarrow> tenant_service \<Rightarrow> tenant_env \<Rightarrow> (control_db \<Rightarrow> control_db) \<Rightarrow> control_db \<Rightarrow> EnsureTenantInput
    \<Rightarrow> control_db \<times> tenant_effect list \<times> Tenant option \<times> bool \<times> ctl_error option" where
  "EnsureTenant valid s env others db inp =
     (if \<not> valid (et_ID inp) then (db, [], None, False, Some (ErrInvalidInput ''tenant id must be a valid UUID''))
      else case GetTenant (te_faults env 0) db (et_ID inp) of
          Inr existing \<Rightarrow> reconcileExisting s env 1 db existing inp
        | Inl ErrNotFound \<Rightarrow>
            let db1 = others db;
                row = \<lparr>tn_ID = et_ID inp, tn_Name = firstNonEmptyTenantField [et_Name inp, et_Slug inp, et_ID inp],
                       tn_Slug = firstNonEmptyTenantField [et_Slug inp, et_ID inp], tn_Plan = (if et_Plan inp = [] then ''core'' else et_Plan inp),
                       tn_Status = ''active''\<rparr>
            in (case te_faults env 1 of
                  Some e \<Rightarrow> (db1, [], None, False, Some (DbError e))
                | None \<Rightarrow>
                    if ValidatePlan (tn_Plan row) \<noteq> None then (db1, [], None, False, Some (DbError ''tenants_plan_check''))
                    else (case tenant_row db1 (et_ID inp) of
                       Some _ \<Rightarrow>
                         (case GetTenant (te_faults env 2) db1 (et_ID inp) of
                            Inl e \<Rightarrow> (db1, [], None, False, Some e)
                          | Inr existing \<Rightarrow> reconcileExisting s env 3 db1 existing inp)
                     | None \<Rightarrow>
                         (case insert_tenant row db1 of
                            Inl e \<Rightarrow> (db1, [], None, False, Some e)
                          | Inr (db2, t) \<Rightarrow> (case runProvisioningHooks s env 2 db2 (tn_ID t) (tn_Plan t) of (db3, effs, e) \<Rightarrow> (db3, effs, Some t, True, e)))))
        | Inl e \<Rightarrow> (db, [], None, False, Some e))"

definition lazy_EnsureTenant :: "(string \<Rightarrow> bool) \<Rightarrow> tenant_service \<Rightarrow> tenant_env \<Rightarrow> (control_db \<Rightarrow> control_db) \<Rightarrow> control_db \<Rightarrow> string \<Rightarrow> control_db \<times> tenant_effect list \<times> ctl_error option" where
  "lazy_EnsureTenant valid s env others db tenantID =
     (case EnsureTenant valid s env others db \<lparr>et_ID = tenantID, et_Name = [], et_Slug = [], et_Plan = [], et_EnsureProvisioned = False\<rparr> of
        (db1, effs, _, _, e) \<Rightarrow> (db1, effs, e))"

record UpdateTenantInput =
  ut_Name :: "string option"
  ut_Plan :: "string option"
  ut_Status :: "string option"

definition UpdateTenant :: "string option \<Rightarrow> control_db \<Rightarrow> string \<Rightarrow> UpdateTenantInput \<Rightarrow> control_db \<times> (ctl_error + Tenant)" where
  "UpdateTenant fault db i inp =
     (if i = [] then (db, Inl (ErrInvalidInput ''tenant id is required''))
      else if ut_Name inp = None \<and> ut_Plan inp = None \<and> ut_Status inp = None then (db, Inl (ErrInvalidInput ''no fields to update''))
      else if ut_Name inp = Some [] then (db, Inl (ErrInvalidInput ''name cannot be empty''))
      else if \<not> (case ut_Plan inp of None \<Rightarrow> True | Some p \<Rightarrow> p \<in> {''core'', ''pro'', ''privacy''}) then (db, Inl (ErrInvalidInput ''plan must be one of core, pro, privacy''))
      else if \<not> (case ut_Status inp of None \<Rightarrow> True | Some st \<Rightarrow> st \<in> {''active'', ''suspended'', ''deleted''})
      then (db, Inl (ErrInvalidInput ''status must be one of active, suspended, deleted''))
      else stmt fault (update_tenant i (\<lambda>t. t\<lparr>tn_Name := coalesce (ut_Name inp) (tn_Name t), tn_Plan := coalesce (ut_Plan inp) (tn_Plan t),
                                             tn_Status := coalesce (ut_Status inp) (tn_Status t)\<rparr>)) db)"

definition DeleteTenant :: "tenant_service \<Rightarrow> tenant_env \<Rightarrow> control_db \<Rightarrow> string \<Rightarrow> control_db \<times> tenant_effect list \<times> ctl_error option" where
  "DeleteTenant s env db i =
     (if i = [] then (db, [], Some (ErrInvalidInput ''tenant id is required''))
      else case stmt (te_faults env 0) (update_tenant i (\<lambda>t. t\<lparr>tn_Status := ''deleted''\<rparr>)) db of
          (db1, Inl e) \<Rightarrow> (db1, [], Some e)
        | (db1, Inr _) \<Rightarrow>
            (case ts_billing s of
               None \<Rightarrow> (db1, [], None)
             | Some l \<Rightarrow>
                 (case OnTenantDeleted l (shift 1 (te_faults env)) db1 i of
                    (db2, calls, r) \<Rightarrow> (db2, map Stripe calls, case r of Inl e \<Rightarrow> Some (from_billing e) | Inr _ \<Rightarrow> None))))"

subsection \<open>Users\<close>

record CreateUserInput =
  cu_KChatUserID :: string
  cu_StalwartAccountID :: string
  cu_Email :: string
  cu_DisplayName :: string
  cu_Role :: string
  cu_QuotaBytes :: int
  cu_AccountType :: string

definition user_roles :: "string list" where
  "user_roles = [''owner'', ''admin'', ''member'', ''billing'', ''deliverability'']"

definition user_ok :: "User \<Rightarrow> bool" where
  "user_ok u \<longleftrightarrow>
     us_Role u \<in> set user_roles \<and> us_Status u \<in> {''active'', ''suspended'', ''deleted''} \<and> 0 \<le> us_QuotaBytes u \<and> fits_int8 (us_QuotaBytes u)
     \<and> us_AccountType u \<in> {''user'', ''shared_inbox'', ''service''}"

definition insert_user :: "User \<Rightarrow> control_db \<Rightarrow> ctl_error + control_db \<times> User" where
  "insert_user u db =
     (if \<not> tenant_exists db (us_TenantID u) then Inl (DbError ''users_tenant_id_fkey'')
      else if list_ex (\<lambda>r. us_ID r = us_ID u \<or> us_Email r = us_Email u \<or> us_StalwartAccountID r = us_StalwartAccountID u
                \<or> us_TenantID r = us_TenantID u \<and> us_KChatUserID r = us_KChatUserID u) (users db)
      then Inl (DbError ''users: unique constraint'')
      else if \<not> user_ok u then Inl (DbError ''users: check constraint'')
      else Inr (db\<lparr>users := users db @ [u]\<rparr>, u))"

definition user_or_default :: "string \<Rightarrow> string" where
  "user_or_default ty = (if ty = [] then ''user'' else ty)"

definition takes_seat :: "tenant_service \<Rightarrow> string \<Rightarrow> billing_config option" where
  "takes_seat s ty = (if ty = ''user'' then ts_seats s else None)"

text \<open>
  The checks before the insert, the insert, and the counting after it, in three transactions; \<open>others\<close> happens between
  the check and the insert. A failure to count is swallowed.
\<close>

definition CreateUser_check :: "tenant_service \<Rightarrow> string option \<Rightarrow> control_db \<Rightarrow> string \<Rightarrow> CreateUserInput \<Rightarrow> ctl_error option" where
  "CreateUser_check s fault db tenantID inp =
     (if cu_KChatUserID inp = [] \<or> cu_StalwartAccountID inp = [] \<or> cu_Email inp = [] \<or> cu_DisplayName inp = []
      then Some (ErrInvalidInput ''kchat_user_id, stalwart_account_id, email, and display_name are required'')
      else if user_or_default (cu_AccountType inp) \<notin> {''user'', ''shared_inbox'', ''service''}
      then Some (ErrInvalidInput ''account_type must be one of user, shared_inbox, service'')
      else case takes_seat s (user_or_default (cu_AccountType inp)) of
          None \<Rightarrow> None
        | Some cfg \<Rightarrow> map_option from_billing (CheckSeatAvailable cfg fault db tenantID))"

definition new_user :: "string \<Rightarrow> string \<Rightarrow> CreateUserInput \<Rightarrow> User" where
  "new_user nid tenantID inp =
     \<lparr>us_ID = nid, us_TenantID = tenantID, us_KChatUserID = cu_KChatUserID inp, us_StalwartAccountID = cu_StalwartAccountID inp, us_Email = cu_Email inp,
      us_DisplayName = cu_DisplayName inp, us_Role = (if cu_Role inp = [] then ''member'' else cu_Role inp), us_Status = ''active'',
      us_AccountType = user_or_default (cu_AccountType inp), us_QuotaBytes = cu_QuotaBytes inp\<rparr>"

definition CreateUser :: "tenant_service \<Rightarrow> tenant_env \<Rightarrow> (control_db \<Rightarrow> control_db) \<Rightarrow> control_db \<Rightarrow> string \<Rightarrow> CreateUserInput \<Rightarrow> control_db \<times> (ctl_error + User)" where
  "CreateUser s env others db tenantID inp =
     (case CreateUser_check s (te_faults env 0) db tenantID inp of
        Some e \<Rightarrow> (db, Inl e)
      | None \<Rightarrow>
          (case tx (te_faults env 1) tenantID (insert_user (new_user (te_nid env) tenantID inp)) (others db) of
             (db1, Inl e) \<Rightarrow> (db1, Inl e)
           | (db1, Inr u) \<Rightarrow>
               (case takes_seat s (us_AccountType u) of
                  None \<Rightarrow> (db1, Inr u)
                | Some cfg \<Rightarrow> (fst (IncrementSeatCount cfg (te_faults env 2) db1 tenantID 1), Inr u))))"

definition ListUsers :: "string option \<Rightarrow> control_db \<Rightarrow> string \<Rightarrow> ctl_error + User list" where
  "ListUsers fault db tenantID =
     (if tenantID = [] then Inl (ErrInvalidInput ''tenant id is required'')
      else snd (tx fault tenantID (\<lambda>d. Inr (d, filter (\<lambda>u. us_TenantID u = tenantID) (users d))) db))"

definition user_row :: "(User \<Rightarrow> bool) \<Rightarrow> control_db \<Rightarrow> ctl_error + control_db \<times> User" where
  "user_row P db = (case find P (users db) of None \<Rightarrow> Inl ErrNotFound | Some u \<Rightarrow> Inr (db, u))"

definition GetUser :: "string option \<Rightarrow> control_db \<Rightarrow> string \<Rightarrow> string \<Rightarrow> ctl_error + User" where
  "GetUser fault db tenantID userID =
     (if tenantID = [] \<or> userID = [] then Inl (ErrInvalidInput ''tenant id and user id are required'')
      else snd (tx fault tenantID (user_row (\<lambda>u. us_ID u = userID \<and> us_TenantID u = tenantID)) db))"

definition GetUserByKChatID :: "string option \<Rightarrow> control_db \<Rightarrow> string \<Rightarrow> string \<Rightarrow> ctl_error + User" where
  "GetUserByKChatID fault db tenantID kchatUserID =
     (if tenantID = [] \<or> kchatUserID = [] then Inl (ErrInvalidInput ''tenant id and kchat_user_id are required'')
      else snd (tx fault tenantID (user_row (\<lambda>u. us_TenantID u = tenantID \<and> us_KChatUserID u = kchatUserID)) db))"

record UpdateUserInput =
  uu_DisplayName :: "string option"
  uu_Role :: "string option"
  uu_Status :: "string option"
  uu_QuotaBytes :: "int option"

definition update_user :: "(User \<Rightarrow> bool) \<Rightarrow> (User \<Rightarrow> User) \<Rightarrow> control_db \<Rightarrow> ctl_error + control_db \<times> User" where
  "update_user P f db =
     (case find P (users db) of
        None \<Rightarrow> Inl ErrNotFound
      | Some u \<Rightarrow>
          if \<not> user_ok (f u) then Inl (DbError ''users: check constraint'')
          else Inr (db\<lparr>users := map (\<lambda>r. if P r then f r else r) (users db)\<rparr>, f u))"

definition UpdateUser :: "string option \<Rightarrow> control_db \<Rightarrow> string \<Rightarrow> string \<Rightarrow> UpdateUserInput \<Rightarrow> control_db \<times> (ctl_error + User)" where
  "UpdateUser fault db tenantID userID inp =
     (if tenantID = [] \<or> userID = [] then (db, Inl (ErrInvalidInput ''tenant id and user id are required''))
      else if uu_DisplayName inp = None \<and> uu_Role inp = None \<and> uu_Status inp = None \<and> uu_QuotaBytes inp = None then (db, Inl (ErrInvalidInput ''no fields to update''))
      else if uu_DisplayName inp = Some [] then (db, Inl (ErrInvalidInput ''display_name cannot be empty''))
      else if \<not> (case uu_Role inp of None \<Rightarrow> True | Some ro \<Rightarrow> ro \<in> set user_roles)
      then (db, Inl (ErrInvalidInput ''role must be one of owner, admin, member, billing, deliverability''))
      else if \<not> (case uu_Status inp of None \<Rightarrow> True | Some st \<Rightarrow> st \<in> {''active'', ''suspended'', ''deleted''})
      then (db, Inl (ErrInvalidInput ''status must be one of active, suspended, deleted''))
      else if coalesce (uu_QuotaBytes inp) 0 < 0 then (db, Inl (ErrInvalidInput ''quota_bytes must be non-negative''))
      else tx fault tenantID (update_user (\<lambda>u. us_ID u = userID \<and> us_TenantID u = tenantID)
             (\<lambda>u. u\<lparr>us_DisplayName := coalesce (uu_DisplayName inp) (us_DisplayName u), us_Role := coalesce (uu_Role inp) (us_Role u),
                    us_Status := coalesce (uu_Status inp) (us_Status u), us_QuotaBytes := coalesce (uu_QuotaBytes inp) (us_QuotaBytes u)\<rparr>)) db)"

definition DeleteUser :: "tenant_service \<Rightarrow> tenant_env \<Rightarrow> control_db \<Rightarrow> string \<Rightarrow> string \<Rightarrow> control_db \<times> ctl_error option" where
  "DeleteUser s env db tenantID userID =
     (if tenantID = [] \<or> userID = [] then (db, Some (ErrInvalidInput ''tenant id and user id are required''))
      else case tx (te_faults env 0) tenantID
             (update_user (\<lambda>u. us_ID u = userID \<and> us_TenantID u = tenantID \<and> us_Status u \<noteq> ''deleted'') (\<lambda>u. u\<lparr>us_Status := ''deleted''\<rparr>)) db of
          (db1, Inl e) \<Rightarrow> (db1, Some e)
        | (db1, Inr u) \<Rightarrow>
            (case takes_seat s (us_AccountType u) of
               None \<Rightarrow> (db1, None)
             | Some cfg \<Rightarrow> (fst (IncrementSeatCount cfg (te_faults env 1) db1 tenantID (- 1)), None)))"

subsection \<open>Domains\<close>

definition CreateDomain :: "tenant_env \<Rightarrow> control_db \<Rightarrow> string \<Rightarrow> string \<Rightarrow> control_db \<times> (ctl_error + Domain)" where
  "CreateDomain env db tenantID name =
     (if name = [] then (db, Inl (ErrInvalidInput ''domain is required''))
      else tx (te_faults env 0) tenantID (\<lambda>d.
        if \<not> tenant_exists d tenantID then Inl (DbError ''domains_tenant_id_fkey'')
        else if list_ex (\<lambda>r. dm_ID r = te_nid env \<or> dm_Domain r = name) (domains d) then Inl (DbError ''domains_domain_key'')
        else let row = \<lparr>dm_ID = te_nid env, dm_TenantID = tenantID, dm_Domain = name, dm_Verified = False, dm_MXVerified = False, dm_SPFVerified = False,
                        dm_DKIMVerified = False, dm_DMARCVerified = False\<rparr>
             in Inr (d\<lparr>domains := domains d @ [row]\<rparr>, row)) db)"

definition ListDomains :: "string option \<Rightarrow> control_db \<Rightarrow> string \<Rightarrow> ctl_error + Domain list" where
  "ListDomains fault db tenantID = snd (tx fault tenantID (\<lambda>d. Inr (d, filter (\<lambda>r. dm_TenantID r = tenantID) (domains d))) db)"

definition GetDomain :: "string option \<Rightarrow> control_db \<Rightarrow> string \<Rightarrow> string \<Rightarrow> ctl_error + Domain" where
  "GetDomain fault db tenantID domainID =
     (if tenantID = [] \<or> domainID = [] then Inl (ErrInvalidInput ''tenant id and domain id are required'')
      else snd (tx fault tenantID (\<lambda>d. case find (\<lambda>r. dm_ID r = domainID \<and> dm_TenantID r = tenantID) (domains d) of None \<Rightarrow> Inl ErrNotFound | Some r \<Rightarrow> Inr (d, r)) db))"

subsection \<open>Shared inboxes\<close>

record CreateSharedInboxInput =
  cs_Address :: string
  cs_DisplayName :: string
  cs_MLSGroupID :: string

definition CreateSharedInbox :: "tenant_env \<Rightarrow> control_db \<Rightarrow> string \<Rightarrow> CreateSharedInboxInput \<Rightarrow> control_db \<times> (ctl_error + SharedInbox)" where
  "CreateSharedInbox env db tenantID inp =
     (if cs_Address inp = [] \<or> cs_DisplayName inp = [] \<or> cs_MLSGroupID inp = []
      then (db, Inl (ErrInvalidInput ''address, display_name, and mls_group_id are required''))
      else tx (te_faults env 0) tenantID (\<lambda>d.
        if \<not> tenant_exists d tenantID then Inl (DbError ''shared_inboxes_tenant_id_fkey'')
        else if list_ex (\<lambda>r. si_ID r = te_nid env \<or> si_TenantID r = tenantID \<and> si_Address r = cs_Address inp) (shared_inboxes d)
        then Inl (DbError ''shared_inboxes_tenant_id_address_key'')
        else let row = \<lparr>si_ID = te_nid env, si_TenantID = tenantID, si_Address = cs_Address inp, si_DisplayName = cs_DisplayName inp, si_MLSGroupID = cs_MLSGroupID inp\<rparr>
             in Inr (d\<lparr>shared_inboxes := shared_inboxes d @ [row]\<rparr>, row)) db)"

definition ListSharedInboxes :: "string option \<Rightarrow> control_db \<Rightarrow> string \<Rightarrow> ctl_error + SharedInbox list" where
  "ListSharedInboxes fault db tenantID =
     (if tenantID = [] then Inl (ErrInvalidInput ''tenant id is required'')
      else snd (tx fault tenantID (\<lambda>d. Inr (d, filter (\<lambda>r. si_TenantID r = tenantID) (shared_inboxes d))) db))"

definition listSharedInboxMemberIDs :: "string option \<Rightarrow> control_db \<Rightarrow> string \<Rightarrow> string \<Rightarrow> string list" where
  "listSharedInboxMemberIDs fault db tenantID inboxID =
     (case snd (tx fault tenantID (\<lambda>d. Inr (d, sort (map sm_UserID (filter (\<lambda>m. sm_TenantID m = tenantID \<and> sm_SharedInboxID m = inboxID) (shared_inbox_members d))))) db) of
        Inl _ \<Rightarrow> [] | Inr ids \<Rightarrow> ids)"

definition membership_hook :: "tenant_service \<Rightarrow> string option \<Rightarrow> control_db \<Rightarrow> string \<Rightarrow> string \<Rightarrow> string \<Rightarrow> tenant_effect list" where
  "membership_hook s fault db tenantID inboxID reason =
     (if ts_sharedInboxFn s then [MembershipChanged tenantID inboxID (listSharedInboxMemberIDs fault db tenantID inboxID) reason] else [])"

text \<open>The foreign keys of a member do not ask for the inbox and the user to be of the tenant.\<close>

definition insert_member :: "SharedInboxMember \<Rightarrow> control_db \<Rightarrow> ctl_error + control_db \<times> SharedInboxMember" where
  "insert_member m d =
     (if \<not> (tenant_exists d (sm_TenantID m) \<and> list_ex (\<lambda>r. si_ID r = sm_SharedInboxID m) (shared_inboxes d) \<and> list_ex (\<lambda>u. us_ID u = sm_UserID m) (users d))
      then Inl (DbError ''shared_inbox_members: foreign key'')
      else if list_ex (\<lambda>r. sm_SharedInboxID r = sm_SharedInboxID m \<and> sm_UserID r = sm_UserID m) (shared_inbox_members d) then Inl (DbError ''shared_inbox_members_pkey'')
      else Inr (d\<lparr>shared_inbox_members := shared_inbox_members d @ [m]\<rparr>, m))"

definition AddSharedInboxMember :: "tenant_service \<Rightarrow> tenant_env \<Rightarrow> control_db \<Rightarrow> string \<Rightarrow> string \<Rightarrow> string \<Rightarrow> string
    \<Rightarrow> control_db \<times> tenant_effect list \<times> (ctl_error + SharedInboxMember)" where
  "AddSharedInboxMember s env db tenantID inboxID userID role0 =
     (let role = (if role0 = [] then ''member'' else role0) in
      if tenantID = [] \<or> inboxID = [] \<or> userID = [] then (db, [], Inl (ErrInvalidInput ''tenant id, inbox id, and user id are required''))
      else if role \<notin> {''owner'', ''member'', ''viewer''} then (db, [], Inl (ErrInvalidInput ''role must be one of owner, member, viewer''))
      else case tx (te_faults env 0) tenantID
             (insert_member \<lparr>sm_TenantID = tenantID, sm_SharedInboxID = inboxID, sm_UserID = userID, sm_Role = role\<rparr>) db of
          (db1, Inl e) \<Rightarrow> (db1, [], Inl e)
        | (db1, Inr m) \<Rightarrow> (db1, membership_hook s (te_faults env 1) db1 tenantID inboxID ''member_added'', Inr m))"

definition member_at :: "string \<Rightarrow> string \<Rightarrow> string \<Rightarrow> SharedInboxMember \<Rightarrow> bool" where
  "member_at tenantID inboxID userID m \<longleftrightarrow> sm_TenantID m = tenantID \<and> sm_SharedInboxID m = inboxID \<and> sm_UserID m = userID"

definition RemoveSharedInboxMember :: "tenant_service \<Rightarrow> tenant_env \<Rightarrow> control_db \<Rightarrow> string \<Rightarrow> string \<Rightarrow> string \<Rightarrow> control_db \<times> tenant_effect list \<times> ctl_error option" where
  "RemoveSharedInboxMember s env db tenantID inboxID userID =
     (if tenantID = [] \<or> inboxID = [] \<or> userID = [] then (db, [], Some (ErrInvalidInput ''tenant id, inbox id, and user id are required''))
      else case tx (te_faults env 0) tenantID (\<lambda>d.
             Inr (d\<lparr>shared_inbox_members := filter (\<lambda>m. \<not> member_at tenantID inboxID userID m) (shared_inbox_members d)\<rparr>,
                  list_ex (member_at tenantID inboxID userID) (shared_inbox_members d))) db of
          (db1, Inl e) \<Rightarrow> (db1, [], Some e)
        | (db1, Inr affected) \<Rightarrow>
            if \<not> affected then (db1, [], Some ErrNotFound)
            else (db1, membership_hook s (te_faults env 1) db1 tenantID inboxID ''member_removed'', None))"

end
