(* ===== verification/TenancyApi.thy ===== *)
theory TenancyApi
  imports Tenancy Aliases
begin

text \<open>
  The HTTP handlers of the tenant service (\<^verbatim>\<open>internal/tenant/handlers.go\<close>). \<open>ctx\<close> is the tenant of the caller's token. A
  body that does not decode is \<open>None\<close>. A response is its status with what it carries, if anything.
\<close>

datatype 'a response = Fail int | Done int "'a option"

definition statusForServiceError :: "ctl_error \<Rightarrow> int" where
  "statusForServiceError e = (case e of ErrInvalidInput _ \<Rightarrow> 400 | ErrNotFound \<Rightarrow> 404 | _ \<Rightarrow> 500)"

definition answer_result :: "int \<Rightarrow> ctl_error + 'a \<Rightarrow> 'a response" where
  "answer_result ok r = (case r of Inl e \<Rightarrow> Fail (statusForServiceError e) | Inr a \<Rightarrow> Done ok (Some a))"

definition answer_done :: "ctl_error option \<Rightarrow> unit response" where
  "answer_done e = (case e of Some e' \<Rightarrow> Fail (statusForServiceError e') | None \<Rightarrow> Done 204 None)"

text \<open>The guard of every handler below a tenant, and the decoding of a body.\<close>

definition scoped :: "string \<Rightarrow> string \<Rightarrow> 's \<Rightarrow> ('s \<Rightarrow> 's \<times> 'a response) \<Rightarrow> 's \<times> 'a response" where
  "scoped ctx tenantID s handler = (case checkTenantScope ctx tenantID of Some _ \<Rightarrow> (s, Fail 403) | None \<Rightarrow> handler s)"

definition decoded :: "'i option \<Rightarrow> 's \<Rightarrow> ('i \<Rightarrow> 's \<Rightarrow> 's \<times> 'a response) \<Rightarrow> 's \<times> 'a response" where
  "decoded inp s handler = (case inp of None \<Rightarrow> (s, Fail 400) | Some i \<Rightarrow> handler i s)"

subsection \<open>Tenants\<close>

definition createTenant :: "tenant_service \<Rightarrow> tenant_env \<Rightarrow> control_db \<Rightarrow> CreateTenantInput option \<Rightarrow> control_db \<times> Tenant response" where
  "createTenant s env db inp = decoded inp db (\<lambda>i d.
     case CreateTenant s env d i of
       (d1, _, t, Some e) \<Rightarrow> (d1, Fail (statusForServiceError e))
     | (d1, _, t, None) \<Rightarrow> (d1, Done 201 t))"

definition listTenants :: "string option \<Rightarrow> control_db \<Rightarrow> control_db \<times> Tenant list response" where
  "listTenants fault db = (db, case ListTenants fault db of Inl _ \<Rightarrow> Fail 500 | Inr ts \<Rightarrow> Done 200 (Some ts))"

definition getTenant :: "string option \<Rightarrow> control_db \<Rightarrow> string \<Rightarrow> control_db \<times> Tenant response" where
  "getTenant fault db i = (db, case GetTenant fault db i of Inl e \<Rightarrow> Fail (if e = ErrNotFound then 404 else 500) | Inr t \<Rightarrow> Done 200 (Some t))"

definition updateTenant :: "string option \<Rightarrow> control_db \<Rightarrow> string \<Rightarrow> UpdateTenantInput option \<Rightarrow> control_db \<times> Tenant response" where
  "updateTenant fault db i inp = decoded inp db (\<lambda>u d. case UpdateTenant fault d i u of (d1, r) \<Rightarrow> (d1, answer_result 200 r))"

definition deleteTenant :: "tenant_service \<Rightarrow> tenant_env \<Rightarrow> control_db \<Rightarrow> string \<Rightarrow> control_db \<times> unit response" where
  "deleteTenant s env db i = (case DeleteTenant s env db i of (d1, _, e) \<Rightarrow> (d1, answer_done e))"

subsection \<open>Users and domains\<close>

definition createUser :: "tenant_service \<Rightarrow> tenant_env \<Rightarrow> (control_db \<Rightarrow> control_db) \<Rightarrow> string \<Rightarrow> control_db \<Rightarrow> string \<Rightarrow> CreateUserInput option \<Rightarrow> control_db \<times> User response" where
  "createUser s env others ctx db tenantID inp = scoped ctx tenantID db (\<lambda>d.
     decoded inp d (\<lambda>i d. case CreateUser s env others d tenantID i of (d1, r) \<Rightarrow> (d1, answer_result 201 r)))"

definition listUsers :: "string option \<Rightarrow> string \<Rightarrow> control_db \<Rightarrow> string \<Rightarrow> control_db \<times> User list response" where
  "listUsers fault ctx db tenantID = scoped ctx tenantID db (\<lambda>d. (d, answer_result 200 (ListUsers fault d tenantID)))"

definition getUser :: "string option \<Rightarrow> string \<Rightarrow> control_db \<Rightarrow> string \<Rightarrow> string \<Rightarrow> control_db \<times> User response" where
  "getUser fault ctx db tenantID userID = scoped ctx tenantID db (\<lambda>d. (d, answer_result 200 (GetUser fault d tenantID userID)))"

definition updateUser :: "string option \<Rightarrow> string \<Rightarrow> control_db \<Rightarrow> string \<Rightarrow> string \<Rightarrow> UpdateUserInput option \<Rightarrow> control_db \<times> User response" where
  "updateUser fault ctx db tenantID userID inp = scoped ctx tenantID db (\<lambda>d.
     decoded inp d (\<lambda>i d. case UpdateUser fault d tenantID userID i of (d1, r) \<Rightarrow> (d1, answer_result 200 r)))"

definition deleteUser :: "tenant_service \<Rightarrow> tenant_env \<Rightarrow> string \<Rightarrow> control_db \<Rightarrow> string \<Rightarrow> string \<Rightarrow> control_db \<times> unit response" where
  "deleteUser s env ctx db tenantID userID = scoped ctx tenantID db (\<lambda>d. case DeleteUser s env d tenantID userID of (d1, e) \<Rightarrow> (d1, answer_done e))"

definition createDomain :: "tenant_env \<Rightarrow> string \<Rightarrow> control_db \<Rightarrow> string \<Rightarrow> string option \<Rightarrow> control_db \<times> Domain response" where
  "createDomain env ctx db tenantID inp = scoped ctx tenantID db (\<lambda>d.
     decoded inp d (\<lambda>name d. case CreateDomain env d tenantID name of (d1, r) \<Rightarrow> (d1, answer_result 201 r)))"

definition listDomains :: "string option \<Rightarrow> string \<Rightarrow> control_db \<Rightarrow> string \<Rightarrow> control_db \<times> Domain list response" where
  "listDomains fault ctx db tenantID = scoped ctx tenantID db (\<lambda>d. (d, case ListDomains fault d tenantID of Inl _ \<Rightarrow> Fail 500 | Inr ds \<Rightarrow> Done 200 (Some ds)))"

subsection \<open>Aliases\<close>

definition alias_status :: "alias_error \<Rightarrow> int" where
  "alias_status e = (case e of ErrAliasInUse \<Rightarrow> 409 | Ctl c \<Rightarrow> statusForServiceError c)"

definition createAlias :: "(string \<Rightarrow> string option) \<Rightarrow> bool \<Rightarrow> alias_env \<Rightarrow> string \<Rightarrow> control_db \<times> stalwart \<Rightarrow> string \<Rightarrow> (string \<times> string) option
    \<Rightarrow> (control_db \<times> stalwart) \<times> Alias response" where
  "createAlias parse_address sync env ctx s tenantID inp = scoped ctx tenantID s (\<lambda>s.
     decoded inp s (\<lambda>(userID, aliasEmail) s.
       case CreateAlias parse_address sync env s tenantID userID aliasEmail of
         (s1, Inl e) \<Rightarrow> (s1, Fail (alias_status e))
       | (s1, Inr a) \<Rightarrow> (s1, Done 201 (Some a))))"

definition listAliases_handler :: "string option \<Rightarrow> string \<Rightarrow> control_db \<Rightarrow> string \<Rightarrow> control_db \<times> Alias list response" where
  "listAliases_handler fault ctx db tenantID = scoped ctx tenantID db (\<lambda>d. (d, answer_result 200 (ListAliases fault d tenantID)))"

definition listUserAliases :: "string option \<Rightarrow> string \<Rightarrow> control_db \<Rightarrow> string \<Rightarrow> string \<Rightarrow> control_db \<times> Alias list response" where
  "listUserAliases fault ctx db tenantID userID = scoped ctx tenantID db (\<lambda>d. (d, answer_result 200 (ListUserAliases fault d tenantID userID)))"

definition deleteAlias :: "bool \<Rightarrow> alias_env \<Rightarrow> string \<Rightarrow> control_db \<times> stalwart \<Rightarrow> string \<Rightarrow> string \<Rightarrow> (control_db \<times> stalwart) \<times> unit response" where
  "deleteAlias sync env ctx s tenantID aliasID = scoped ctx tenantID s (\<lambda>s. case DeleteAlias sync env s tenantID aliasID of (s1, e) \<Rightarrow> (s1, answer_done e))"

subsection \<open>Shared inboxes\<close>

definition createSharedInbox :: "tenant_env \<Rightarrow> string \<Rightarrow> control_db \<Rightarrow> string \<Rightarrow> CreateSharedInboxInput option \<Rightarrow> control_db \<times> SharedInbox response" where
  "createSharedInbox env ctx db tenantID inp = scoped ctx tenantID db (\<lambda>d.
     decoded inp d (\<lambda>i d. case CreateSharedInbox env d tenantID i of (d1, r) \<Rightarrow> (d1, answer_result 201 r)))"

definition listSharedInboxes :: "string option \<Rightarrow> string \<Rightarrow> control_db \<Rightarrow> string \<Rightarrow> control_db \<times> SharedInbox list response" where
  "listSharedInboxes fault ctx db tenantID = scoped ctx tenantID db (\<lambda>d. (d, answer_result 200 (ListSharedInboxes fault d tenantID)))"

definition addSharedInboxMember :: "tenant_service \<Rightarrow> tenant_env \<Rightarrow> string \<Rightarrow> control_db \<Rightarrow> string \<Rightarrow> string \<Rightarrow> (string \<times> string) option \<Rightarrow> control_db \<times> SharedInboxMember response" where
  "addSharedInboxMember s env ctx db tenantID inboxID inp = scoped ctx tenantID db (\<lambda>d.
     decoded inp d (\<lambda>(userID, role) d. case AddSharedInboxMember s env d tenantID inboxID userID role of (d1, _, r) \<Rightarrow> (d1, answer_result 201 r)))"

definition removeSharedInboxMember :: "tenant_service \<Rightarrow> tenant_env \<Rightarrow> string \<Rightarrow> control_db \<Rightarrow> string \<Rightarrow> string \<Rightarrow> string \<Rightarrow> control_db \<times> unit response" where
  "removeSharedInboxMember s env ctx db tenantID inboxID userID = scoped ctx tenantID db (\<lambda>d.
     case RemoveSharedInboxMember s env d tenantID inboxID userID of (d1, _, e) \<Rightarrow> (d1, answer_done e))"

end
