(* ===== verification/TenantIsolation.thy ===== *)
theory TenantIsolation
  imports TenancyApi
begin

text \<open>
  Tenants are isolated: whatever the callers of other tenants request from the tenant and billing handlers that sit below
  a tenant, the rows of a tenant stay as they are.
\<close>

subsection \<open>The rows of a tenant\<close>

definition tenant_view :: "string \<Rightarrow> control_db \<Rightarrow> Tenant option \<times> User list \<times> Domain list \<times> SharedInbox list \<times> SharedInboxMember list \<times> Quota option
    \<times> billing_event list \<times> Subscription option \<times> dunning_row list \<times> (string \<times> StorageEvent) list \<times> Alias list \<times> sync_row list \<times> string option" where
  "tenant_view b db =
     (tenant_row db b, filter (\<lambda>u. us_TenantID u = b) (users db), filter (\<lambda>d. dm_TenantID d = b) (domains db),
      filter (\<lambda>i. si_TenantID i = b) (shared_inboxes db), filter (\<lambda>m. sm_TenantID m = b) (shared_inbox_members db), quotas db b,
      filter (\<lambda>e. be_tenant e = b) (billing_events db), billing_subscriptions db b, filter (\<lambda>r. du_tenant r = b) (billing_dunning_events db),
      filter (\<lambda>e. fst e = b) (storage_events db), filter (\<lambda>a. al_TenantID a = b) (aliases db),
      filter (\<lambda>r. sy_tenant r = b) (alias_stalwart_sync_queue db), tenant_shard_assignments db b)"

definition same_for :: "string \<Rightarrow> control_db \<Rightarrow> control_db \<Rightarrow> bool" where
  "same_for b db db' \<longleftrightarrow> tenant_view b db' = tenant_view b db"

named_theorems isolation \<open>operations that leave the rows of other tenants alone\<close>

lemma same_refl [simp]: "same_for b db db"
  by (simp add: same_for_def)

lemma same_trans [trans]: "same_for b x y \<Longrightarrow> same_for b y z \<Longrightarrow> same_for b x z"
  by (simp add: same_for_def)

lemma filter_map_other:
  "(\<And>x. x \<in> set xs \<Longrightarrow> P x \<Longrightarrow> \<not> Q x \<and> \<not> Q (f x)) \<Longrightarrow> filter Q (map (\<lambda>x. if P x then f x else x) xs) = filter Q xs"
  by (induction xs) auto

lemma find_map_other:
  "(\<And>x. x \<in> set xs \<Longrightarrow> P x \<Longrightarrow> \<not> Q x \<and> \<not> Q (f x)) \<Longrightarrow> find Q (map (\<lambda>x. if P x then f x else x) xs) = find Q xs"
  by (induction xs) auto

lemma filter_filter_other: "(\<And>x. Q x \<Longrightarrow> \<not> P x) \<Longrightarrow> filter Q (filter (\<lambda>x. \<not> P x) xs) = filter Q xs"
  by (induction xs) auto

subsection \<open>Statements and transactions\<close>

text \<open>What a body leaves alone, its transaction and its statement leave alone.\<close>

lemma tx_same: "(\<And>db' a. body db = Inr (db', a) \<Longrightarrow> same_for b db db') \<Longrightarrow> same_for b db (fst (tx fault t body db))"
  by (auto simp: tx_def split: option.splits sum.splits)

lemma tx_committed: "tx fault t body db = (db', Inr a) \<Longrightarrow> body db = Inr (db', a)"
  by (auto simp: tx_def split: if_splits option.splits sum.splits prod.splits)

lemma put_quota_same: "put_quota t q db = Inr db' \<Longrightarrow> t \<noteq> b \<Longrightarrow> same_for b db db'"
  by (auto simp: put_quota_def same_for_def tenant_view_def tenant_row_def split: if_splits)

lemma upsert_quota_same: "upsert_quota t f g db = Inr db' \<Longrightarrow> t \<noteq> b \<Longrightarrow> same_for b db db'"
  by (auto simp: upsert_quota_def intro: put_quota_same split: option.splits)

lemma insert_event_same: "insert_event ev db = Inr db' \<Longrightarrow> be_tenant ev \<noteq> b \<Longrightarrow> same_for b db db'"
  by (auto simp: insert_event_def same_for_def tenant_view_def tenant_row_def split: if_splits)

lemma insert_event_other: "insert_event ev db = Inr db' \<Longrightarrow> be_tenant ev \<noteq> b \<longrightarrow> same_for b db db'"
  by (simp add: insert_event_same)

lemma put_quota_other: "put_quota t q db = Inr db' \<Longrightarrow> t \<noteq> b \<longrightarrow> same_for b db db'"
  by (simp add: put_quota_same)

lemma put_subscription_same: "put_subscription t sub db = Inr db' \<Longrightarrow> t \<noteq> b \<Longrightarrow> same_for b db db'"
  by (auto simp: put_subscription_def same_for_def tenant_view_def tenant_row_def split: if_splits)

lemma event_row_tenant [simp]: "be_tenant (event_row t ty) = t"
  by (simp add: event_row_def)

lemma quota_then_event_same:
  assumes "and_then (upsert_quota t f g db) (\<lambda>d1. and_then (insert_event ev d1) (\<lambda>d2. Inr (d2, a))) = Inr (db', x)" and "be_tenant ev = t" and "t \<noteq> b"
  shows "same_for b db db'"
  using assms by (auto simp: and_then_Inr_iff dest: upsert_quota_same insert_event_same intro: same_trans)

subsection \<open>Billing\<close>

lemma IncrementSeatCount_same [isolation]: "t \<noteq> b \<Longrightarrow> same_for b db (fst (IncrementSeatCount cfg fault db t n))"
  by (auto simp: IncrementSeatCount_def intro!: tx_same elim!: quota_then_event_same)

lemma UpdateQuotaLimits_same [isolation]: "t \<noteq> b \<Longrightarrow> same_for b db (fst (UpdateQuotaLimits cfg fault db t inp))"
  by (auto simp: UpdateQuotaLimits_def and_then_Inr_iff Let_def intro!: tx_same split: option.splits
      dest!: insert_event_other [where b = b] put_quota_other [where b = b] intro: same_trans)

lemma CalculateInvoice_same [isolation]: "t \<noteq> b \<Longrightarrow> same_for b db (fst (CalculateInvoice cfg faults db t))"
  by (auto simp: CalculateInvoice_def and_then_Inr_iff Let_def intro!: tx_same split: sum.splits dest!: insert_event_other [where b = b])

lemma set_plan_same: "t \<noteq> b \<Longrightarrow> same_for b db (set_plan t p db)"
  by (simp add: same_for_def tenant_view_def set_plan_def tenant_row_def find_map_other)

lemma sync_storage_default_same: "sync_storage_default t n o' db = Inr db' \<Longrightarrow> t \<noteq> b \<Longrightarrow> same_for b db db'"
  by (auto simp: sync_storage_default_def split: option.splits if_splits dest: put_quota_same)

text \<open>A plan change that commits sets the plan, moves the default storage limit along and logs an event.\<close>

lemma ChangePlan_effect:
  "fst (ChangePlan cfg faults db t plan) = db
   \<or> (\<exists>n old d2 ev. (sync_storage_default t n old (set_plan t plan db) = Inr d2 \<or> d2 = set_plan t plan db)
        \<and> insert_event ev d2 = Inr (fst (ChangePlan cfg faults db t plan)) \<and> be_tenant ev = t)"
proof -
  let ?body = "\<lambda>d. case tenant_row d t of None \<Rightarrow> Inl ErrNotFound
      | Some r \<Rightarrow> let oldPlan = tn_Plan r; newBytes = seat_bytes_or_zero cfg plan in
          if oldPlan = plan then Inr (d, ())
          else let d1 = set_plan t plan d in
               and_then (if newBytes > 0 then sync_storage_default t newBytes (seat_bytes_or_zero cfg oldPlan) d1 else Inr d1) (\<lambda>d2.
               and_then (insert_event ((event_row t ''plan_changed'')\<lparr>be_metadata := [(''old_plan'', oldPlan), (''new_plan'', plan)]\<rparr>) d2) (\<lambda>d3. Inr (d3, ())))"
  have tx: "fst (ChangePlan cfg faults db t plan) = db \<or> fst (ChangePlan cfg faults db t plan) = fst (tx (faults 0) t ?body db)"
    by (auto simp: ChangePlan_def split: option.splits sum.splits prod.splits)
  have body: "d' = db \<or> (\<exists>n old d2 ev. (sync_storage_default t n old (set_plan t plan db) = Inr d2 \<or> d2 = set_plan t plan db) \<and> insert_event ev d2 = Inr d' \<and> be_tenant ev = t)"
    if r0: "?body db = Inr (d', a)" for d' a
  proof (cases "tenant_row db t")
    case (Some r)
    let ?ev = "(event_row t ''plan_changed'')\<lparr>be_metadata := [(''old_plan'', tn_Plan r), (''new_plan'', plan)]\<rparr>"
    show ?thesis
    proof (cases "tn_Plan r = plan")
      case False
      obtain d2 where d2: "(if seat_bytes_or_zero cfg plan > 0 then sync_storage_default t (seat_bytes_or_zero cfg plan) (seat_bytes_or_zero cfg (tn_Plan r)) (set_plan t plan db)
          else Inr (set_plan t plan db)) = Inr d2" and d3: "insert_event ?ev d2 = Inr d'"
        using r0 Some False by (auto simp: Let_def and_then_Inr_iff)
      have "sync_storage_default t (seat_bytes_or_zero cfg plan) (seat_bytes_or_zero cfg (tn_Plan r)) (set_plan t plan db) = Inr d2 \<or> d2 = set_plan t plan db"
        using d2 by (auto split: if_splits)
      moreover have "be_tenant ?ev = t" by simp
      ultimately show ?thesis using d3 by blast
    qed (use r0 Some in simp)
  qed (use r0 in simp)
  have "fst (tx (faults 0) t ?body db) = db \<or> (\<exists>a. ?body db = Inr (fst (tx (faults 0) t ?body db), a))"
    by (auto simp: tx_def split: option.splits sum.splits)
  then have "fst (tx (faults 0) t ?body db) = db \<or> (\<exists>n old d2 ev. (sync_storage_default t n old (set_plan t plan db) = Inr d2 \<or> d2 = set_plan t plan db)
      \<and> insert_event ev d2 = Inr (fst (tx (faults 0) t ?body db)) \<and> be_tenant ev = t)"
    using body by blast
  then show ?thesis using tx by (elim disjE) (simp_all only:, simp_all)
qed

lemma ChangePlan_same [isolation]:
  assumes "t \<noteq> b"
  shows "same_for b db (fst (ChangePlan cfg faults db t plan))"
  using ChangePlan_effect [of cfg faults db t plan]
proof
  assume "\<exists>n old d2 ev. (sync_storage_default t n old (set_plan t plan db) = Inr d2 \<or> d2 = set_plan t plan db)
    \<and> insert_event ev d2 = Inr (fst (ChangePlan cfg faults db t plan)) \<and> be_tenant ev = t"
  then obtain n old d2 ev where d2: "sync_storage_default t n old (set_plan t plan db) = Inr d2 \<or> d2 = set_plan t plan db"
    and ev: "insert_event ev d2 = Inr (fst (ChangePlan cfg faults db t plan))" "be_tenant ev = t" by blast
  have "same_for b db (set_plan t plan db)" by (rule set_plan_same [OF assms])
  also have "same_for b (set_plan t plan db) d2" using d2 sync_storage_default_same [OF _ assms] by auto
  also have "same_for b d2 (fst (ChangePlan cfg faults db t plan))" using insert_event_same [OF ev(1)] ev(2) assms by simp
  finally show ?thesis .
qed simp

lemma fst_same: "same_for b db (fst r) \<Longrightarrow> r = (db', a) \<Longrightarrow> same_for b db db'"
  by simp

lemma upsertSubscription_same: "t \<noteq> b \<Longrightarrow> same_for b db (fst (upsertSubscriptionWithStripe l fault db t plan st i c s e))"
  by (auto simp: upsertSubscriptionWithStripe_def and_then_Inr_iff Let_def intro!: tx_same dest: put_subscription_same)

lemma recordEvent_same: "t \<noteq> b \<Longrightarrow> same_for b db (fst (recordEvent l fault db t ty md n))"
  by (auto simp: recordEvent_def and_then_Inr_iff intro!: tx_same dest!: insert_event_other [where b = b])

lemma OnPlanChanged_same [isolation]:
  assumes "t \<noteq> b"
  shows "same_for b db (fst (OnPlanChanged l faults now db t old new))"
proof (cases "GetSubscription l (faults 0) db t")
  case (Inl e)
  then show ?thesis
    using upsertSubscription_same [OF assms, of db l, THEN fst_same]
    by (cases e) (simp_all add: OnPlanChanged_def upsertSubscription_def split: prod.splits)
next
  case (Inr sub)
  obtain db1 r where u: "upsertSubscription l (faults 2) db t new (sub_Status sub) (subscription_id sub) (sub_CurrentPeriodStart sub) (sub_CurrentPeriodEnd sub) = (db1, r)" by (cases "upsertSubscription l (faults 2) db t new (sub_Status sub) (subscription_id sub) (sub_CurrentPeriodStart sub) (sub_CurrentPeriodEnd sub)")
  then have 1: "same_for b db db1" using upsertSubscription_same [OF assms] by (metis fst_conv upsertSubscription_def)
  then show ?thesis
    using Inr u fst_same [OF recordEvent_same [OF assms, of db1 l]]
    by (cases r) (auto simp: OnPlanChanged_def Let_def split: prod.splits intro: same_trans)
qed

subsection \<open>Tenants, users, domains, inboxes\<close>

lemma stmt_same: "(\<And>db' a. body db = Inr (db', a) \<Longrightarrow> same_for b db db') \<Longrightarrow> same_for b db (fst (stmt fault body db))"
  by (auto simp: stmt_def split: option.splits sum.splits)

lemma tenant_key: "tenant_row db i = Some t \<Longrightarrow> tn_ID t = i"
  by (auto simp: tenant_row_def find_Some_iff)

lemma insert_tenant_same: "insert_tenant t db = Inr (db', a) \<Longrightarrow> tn_ID t \<noteq> b \<Longrightarrow> same_for b db db' \<and> a = t"
  by (auto simp: insert_tenant_def same_for_def tenant_view_def tenant_row_def find_append split: if_splits option.split)

lemma update_tenant_same:
  "update_tenant i f db = Inr (db', a) \<Longrightarrow> (\<And>t. tn_ID (f t) = tn_ID t) \<Longrightarrow> i \<noteq> b \<Longrightarrow> same_for b db db'"
  by (auto simp: update_tenant_def same_for_def tenant_view_def tenant_row_def find_map_other split: if_splits option.splits)

lemma UpsertQuota_same: "t \<noteq> b \<Longrightarrow> same_for b db (fst (UpsertQuota cfg fault db t n k))"
  by (auto simp: UpsertQuota_def and_then_Inr_iff Let_def intro!: tx_same stmt_same dest!: upsert_quota_same split: option.splits)

lemma OnTenantCreated_same:
  assumes "t \<noteq> b"
  shows "same_for b db (fst (OnTenantCreated l ans faults now db t plan))"
proof -
  obtain db1 r where u: "UpsertQuota (lc_cfg l) (faults 0) db t (seat_bytes_or_zero (lc_cfg l) plan) 1 = (db1, r)" by fastforce
  have 1: "same_for b db db1" by (rule fst_same [OF UpsertQuota_same [OF assms] u])
  have "same_for b db (fst (upsertSubscriptionWithStripe l f db1 t plan st i c x y))" for f st i c x y
    by (rule same_trans [OF 1 upsertSubscription_same [OF assms]])
  then show ?thesis using 1 u by (cases r) (auto simp: OnTenantCreated_def case_prod_beta split: option.splits)
qed

lemma cancelled_same:
  assumes "t \<noteq> b"
  shows "same_for b db (fst (markSubscriptionCancelled l fault db t))"
proof -
  have "same_for b d (d\<lparr>billing_subscriptions := (case billing_subscriptions d t of None \<Rightarrow> billing_subscriptions d
      | Some r \<Rightarrow> (billing_subscriptions d)(t \<mapsto> r\<lparr>sub_Status := ''cancelled''\<rparr>))\<rparr>)" for d
    using assms by (simp add: same_for_def tenant_view_def tenant_row_def split: option.split)
  then show ?thesis by (auto simp: markSubscriptionCancelled_def intro!: tx_same)
qed

lemma OnTenantDeleted_same:
  assumes "t \<noteq> b"
  shows "same_for b db (fst (OnTenantDeleted l faults db t))"
proof -
  let ?db1 = "fst (CalculateInvoice (lc_cfg l) faults db t)"
  have "same_for b db ?db1" by (rule CalculateInvoice_same [OF assms])
  also have "same_for b ?db1 (fst (markSubscriptionCancelled l (faults 4) ?db1 t))"
    by (rule cancelled_same [OF assms])
  finally show ?thesis by (simp add: OnTenantDeleted_def Let_def case_prod_beta)
qed

lemma createTenant_same:
  assumes "te_nid env \<noteq> b"
  shows "same_for b db (fst (createTenant s env db inp))"
proof -
  have hooks: "same_for b d (fst (runProvisioningHooks s env k d t plan))" if "t \<noteq> b" for d k t plan
    using OnTenantCreated_same [OF that] by (auto simp: runProvisioningHooks_def Let_def case_prod_beta split: option.splits)
  have "same_for b d (fst (CreateTenant s env d i))" for d i
  proof -
    let ?t = "\<lparr>tn_ID = te_nid env, tn_Name = ct_Name i, tn_Slug = ct_Slug i, tn_Plan = ct_Plan i, tn_Status = ''active''\<rparr>"
    obtain d1 r where st: "stmt (te_faults env 0) (insert_tenant ?t) d = (d1, r)" by fastforce
    have ins: "same_for b d d1" "\<And>t. r = Inr t \<Longrightarrow> tn_ID t \<noteq> b"
      using st insert_tenant_same [of ?t d _ _ b] assms by (auto simp: stmt_def split: option.splits sum.splits)
    then show ?thesis
      using st same_trans [OF ins(1) hooks] by (cases r) (auto simp: CreateTenant_def case_prod_beta)
  qed
  then show ?thesis by (auto simp: createTenant_def decoded_def case_prod_beta split: option.splits)
qed

lemma updateTenant_same: "i \<noteq> b \<Longrightarrow> same_for b db (fst (updateTenant f db i inp))"
  by (auto simp: updateTenant_def decoded_def UpdateTenant_def case_prod_beta intro!: stmt_same elim!: update_tenant_same split: option.splits)

lemma deleteTenant_same:
  assumes "i \<noteq> b"
  shows "same_for b db (fst (deleteTenant s env db i))"
proof -
  obtain d1 r where st: "stmt (te_faults env 0) (update_tenant i (\<lambda>t. t\<lparr>tn_Status := ''deleted''\<rparr>)) db = (d1, r)" by fastforce
  have 1: "same_for b db d1" by (rule fst_same [OF stmt_same st]) (auto elim!: update_tenant_same simp: assms)
  have "same_for b db (fst (OnTenantDeleted l f d1 i))" for l f by (rule same_trans [OF 1 OnTenantDeleted_same [OF assms]])
  then show ?thesis using 1 st by (cases r) (auto simp: deleteTenant_def DeleteTenant_def case_prod_beta split: option.splits)
qed

lemma insert_user_same: "insert_user u db = Inr (db', a) \<Longrightarrow> us_TenantID u \<noteq> b \<Longrightarrow> same_for b db db'"
  by (auto simp: insert_user_def same_for_def tenant_view_def tenant_row_def split: if_splits)

lemma update_user_same:
  "update_user P f db = Inr (db', a) \<Longrightarrow> (\<And>u. P u \<Longrightarrow> us_TenantID u \<noteq> b \<and> us_TenantID (f u) \<noteq> b) \<Longrightarrow> same_for b db db'"
  by (auto simp: update_user_def same_for_def tenant_view_def tenant_row_def filter_map_other split: if_splits option.splits)

lemma CreateUser_same [isolation]:
  assumes "t \<noteq> b" and "same_for b db (others db)"
  shows "same_for b db (fst (CreateUser s env others db t inp))"
proof (cases "CreateUser_check s (te_faults env 0) db t inp")
  case None
  obtain db1 r where r: "tx (te_faults env 1) t (insert_user (new_user (te_nid env) t inp)) (others db) = (db1, r)"
    by (cases "tx (te_faults env 1) t (insert_user (new_user (te_nid env) t inp)) (others db)")
  have "same_for b (others db) db1"
  proof (rule fst_same [OF tx_same r])
    fix db' a assume "insert_user (new_user (te_nid env) t inp) (others db) = Inr (db', a)"
    then show "same_for b (others db) db'" by (rule insert_user_same) (use assms(1) in \<open>simp add: new_user_def\<close>)
  qed
  then have "same_for b db db1" using assms(2) same_trans by blast
  then show ?thesis
    using None r IncrementSeatCount_same [OF assms(1)] by (auto simp: CreateUser_def split: sum.splits option.splits intro: same_trans)
qed (simp add: CreateUser_def)

lemma UpdateUser_same [isolation]: "t \<noteq> b \<Longrightarrow> same_for b db (fst (UpdateUser fault db t u inp))"
  by (auto simp: UpdateUser_def intro!: tx_same elim!: update_user_same)

lemma DeleteUser_same [isolation]:
  assumes "t \<noteq> b"
  shows "same_for b db (fst (DeleteUser s env db t u))"
proof -
  let ?body = "update_user (\<lambda>r. us_ID r = u \<and> us_TenantID r = t \<and> us_Status r \<noteq> ''deleted'') (\<lambda>r. r\<lparr>us_Status := ''deleted''\<rparr>)"
  obtain db1 r where r: "tx (te_faults env 0) t ?body db = (db1, r)" by (cases "tx (te_faults env 0) t ?body db")
  have "same_for b db db1" using assms by (intro fst_same [OF tx_same r]) (auto elim!: update_user_same)
  then show ?thesis
    using r IncrementSeatCount_same [OF assms] by (auto simp: DeleteUser_def split: sum.splits option.splits intro: same_trans)
qed

lemma domain_row_same: "dm_TenantID r \<noteq> b \<Longrightarrow> same_for b db (db\<lparr>domains := domains db @ [r]\<rparr>)"
  by (simp add: same_for_def tenant_view_def tenant_row_def)

lemma inbox_row_same: "si_TenantID r \<noteq> b \<Longrightarrow> same_for b db (db\<lparr>shared_inboxes := shared_inboxes db @ [r]\<rparr>)"
  by (simp add: same_for_def tenant_view_def tenant_row_def)

lemma CreateDomain_same [isolation]: "t \<noteq> b \<Longrightarrow> same_for b db (fst (CreateDomain env db t name))"
  by (auto simp: CreateDomain_def Let_def domain_row_same intro!: tx_same split: if_splits)

lemma CreateSharedInbox_same [isolation]: "t \<noteq> b \<Longrightarrow> same_for b db (fst (CreateSharedInbox env db t inp))"
  by (auto simp: CreateSharedInbox_def Let_def inbox_row_same intro!: tx_same split: if_splits)

lemma insert_member_same: "insert_member m db = Inr (db', a) \<Longrightarrow> sm_TenantID m \<noteq> b \<Longrightarrow> same_for b db db'"
  by (auto simp: insert_member_def same_for_def tenant_view_def tenant_row_def split: if_splits)

lemma AddSharedInboxMember_same [isolation]:
  assumes "t \<noteq> b"
  shows "same_for b db (fst (AddSharedInboxMember s env db t i u role))"
proof -
  let ?m = "\<lparr>sm_TenantID = t, sm_SharedInboxID = i, sm_UserID = u, sm_Role = if role = [] then ''member'' else role\<rparr>"
  have "same_for b db (fst (tx (te_faults env 0) t (insert_member ?m) db))"
    using assms by (auto intro!: tx_same elim!: insert_member_same)
  moreover have "fst (AddSharedInboxMember s env db t i u role) \<in> {db, fst (tx (te_faults env 0) t (insert_member ?m) db)}"
    by (auto simp: AddSharedInboxMember_def Let_def split: prod.splits sum.splits)
  ultimately show ?thesis by auto
qed

lemma RemoveSharedInboxMember_same [isolation]:
  assumes "t \<noteq> b"
  shows "same_for b db (fst (RemoveSharedInboxMember s env db t i u))"
proof -
  let ?body = "\<lambda>d. Inr (d\<lparr>shared_inbox_members := filter (\<lambda>m. \<not> member_at t i u m) (shared_inbox_members d)\<rparr>, list_ex (member_at t i u) (shared_inbox_members d))
    :: ctl_error + control_db \<times> bool"
  have "filter (\<lambda>m. sm_TenantID m = b) (filter (\<lambda>m. \<not> member_at t i u m) ms) = filter (\<lambda>m. sm_TenantID m = b) ms" for ms
    using assms by (intro filter_filter_other) (simp add: member_at_def)
  then have "same_for b db (fst (tx (te_faults env 0) t ?body db))"
    by (intro tx_same) (auto simp: same_for_def tenant_view_def tenant_row_def)
  moreover have "fst (RemoveSharedInboxMember s env db t i u) \<in> {db, fst (tx (te_faults env 0) t ?body db)}"
    by (auto simp: RemoveSharedInboxMember_def split: prod.splits sum.splits)
  ultimately show ?thesis by auto
qed

subsection \<open>Aliases\<close>

text \<open>The queue row an alias operation makes is its own: the id is fresh.\<close>

definition queued_for :: "string \<Rightarrow> string \<Rightarrow> control_db \<Rightarrow> bool" where
  "queued_for t i db \<longleftrightarrow> (\<forall>r \<in> set (alias_stalwart_sync_queue db). sy_id r = i \<longrightarrow> sy_tenant r = t)"

lemma queue_row_same:
  assumes "\<not> list_ex (\<lambda>x. sy_id x = sy_id r) (alias_stalwart_sync_queue db)" and "sy_tenant r \<noteq> b"
  shows "same_for b db (db\<lparr>alias_stalwart_sync_queue := alias_stalwart_sync_queue db @ [r]\<rparr>)
    \<and> queued_for (sy_tenant r) (sy_id r) (db\<lparr>alias_stalwart_sync_queue := alias_stalwart_sync_queue db @ [r]\<rparr>)"
  using assms by (simp add: same_for_def tenant_view_def tenant_row_def queued_for_def list_ex_iff)

lemma enqueue_same:
  assumes "enqueueAliasSyncTx q now t op acc al db = Inr (db', i)" and "t \<noteq> b"
  shows "same_for b db db' \<and> queued_for t i db'"
proof -
  define r where "r = \<lparr>sy_id = q, sy_tenant = t, sy_operation = op, sy_account = acc, sy_alias = al, sy_status = ''pending'', sy_attempts = 0,
    sy_last_error = [], sy_next_retry_at = now\<rparr>"
  have "\<not> list_ex (\<lambda>x. sy_id x = sy_id r) (alias_stalwart_sync_queue db)" "i = sy_id r"
       "db' = db\<lparr>alias_stalwart_sync_queue := alias_stalwart_sync_queue db @ [r]\<rparr>"
    using assms(1) by (auto simp: enqueueAliasSyncTx_def r_def split: if_splits)
  moreover have "sy_tenant r = t" by (simp add: r_def)
  ultimately show ?thesis using queue_row_same [of r db b] assms(2) by simp
qed

lemma on_pending_same:
  assumes "queued_for t i db" and "t \<noteq> b" and "\<And>r. sy_tenant (f r) = sy_tenant r"
  shows "same_for b db (on_pending i f db)"
proof -
  have "filter (\<lambda>r. sy_tenant r = b) (map (\<lambda>r. if sy_id r = i \<and> sy_status r = ''pending'' then f r else r) (alias_stalwart_sync_queue db))
        = filter (\<lambda>r. sy_tenant r = b) (alias_stalwart_sync_queue db)"
    using assms by (intro filter_map_other) (auto simp: queued_for_def)
  then show ?thesis by (simp add: on_pending_def same_for_def tenant_view_def tenant_row_def)
qed

lemma inline_same:
  assumes "t \<noteq> b" and "\<And>i. q = Some i \<Longrightarrow> queued_for t i (fst s)"
  shows "same_for b (fst s) (fst (attemptAliasSyncInline sync env q op acc al s))"
  using assms by (cases s)
    (auto simp: attemptAliasSyncInline_def markAliasSyncSynced_def recordAliasSyncFailure_def exec_def
      split: option.splits prod.splits intro!: on_pending_same)

lemma insert_alias_same:
  assumes "insert_alias sync env t u al db = Inr (db1, a, acc, q)" and "t \<noteq> b"
  shows "same_for b db db1 \<and> (\<forall>i. q = Some i \<longrightarrow> queued_for t i db1)"
proof -
  have row: "same_for b db (db\<lparr>aliases := aliases db @ [\<lparr>al_ID = n, al_TenantID = t, al_UserID = u, al_AliasEmail = al\<rparr>]\<rparr>)" for n
    using assms(2) by (simp add: same_for_def tenant_view_def tenant_row_def)
  show ?thesis
    using assms same_trans [OF row] row enqueue_same [OF _ assms(2)]
    by (fastforce simp: insert_alias_def Let_def split: option.splits if_splits sum.splits prod.splits)
qed

lemma CreateAlias_same [isolation]:
  assumes "t \<noteq> b"
  shows "same_for b (fst s) (fst (fst (CreateAlias parse sync env s t u al)))"
proof -
  have "same_for b db (fst (attemptAliasSyncInline sync env q op acc e (db1, st)))"
    if "insert_alias sync env t u al db = Inr (db1, a, acc, q)" for al db db1 a acc q op e st
    using insert_alias_same [OF that assms] inline_same [of t b q "(db1, st)"] assms same_trans by fastforce
  then show ?thesis
    by (cases s) (auto simp: CreateAlias_def split: sum.splits option.splits)
qed

lemma delete_alias_same:
  assumes "delete_alias sync env t i db = Inr (db1, x)" and "t \<noteq> b"
  shows "same_for b db db1 \<and> (\<forall>al acc k. x = Some (al, acc, Some k) \<longrightarrow> queued_for t k db1)"
proof -
  have "filter (\<lambda>a. al_TenantID a = b) (filter (\<lambda>r. \<not> (al_ID r = i \<and> al_TenantID r = t)) as) = filter (\<lambda>a. al_TenantID a = b) as" for as
    using assms(2) by (intro filter_filter_other) simp
  then have row: "same_for b db (db\<lparr>aliases := filter (\<lambda>r. \<not> (al_ID r = i \<and> al_TenantID r = t)) (aliases db)\<rparr>)"
    by (simp add: same_for_def tenant_view_def tenant_row_def)
  show ?thesis
    using assms row same_trans [OF row] enqueue_same [OF _ assms(2)]
    by (fastforce simp: delete_alias_def Let_def split: option.splits if_splits sum.splits prod.splits)
qed

lemma DeleteAlias_same [isolation]:
  assumes "t \<noteq> b"
  shows "same_for b (fst s) (fst (fst (DeleteAlias sync env s t i)))"
proof -
  obtain db st where s: "s = (db, st)" by (cases s)
  obtain db1 r where r: "tx (ae_faults env 0) t (delete_alias sync env t i) db = (db1, r)" by (cases "tx (ae_faults env 0) t (delete_alias sync env t i) db")
  have 1: "same_for b db db1" using delete_alias_same assms by (intro fst_same [OF tx_same r]) blast
  have "queued_for t k db1" if "r = Inr (Some (al, acc, Some k))" for al acc k
    using delete_alias_same [OF tx_committed [OF r [unfolded that]] assms] by blast
  then have "same_for b db1 (fst (attemptAliasSyncInline sync env q aliasSyncOpRemove acc al (db1, st)))" if "r = Inr (Some (al, acc, q))" for al acc q
    using inline_same [of t b q "(db1, st)"] assms that by fastforce
  then show ?thesis
    using 1 s r same_trans by (auto simp: DeleteAlias_def split: sum.splits option.splits)
qed

subsection \<open>Requests\<close>

text \<open>
  The requests below a tenant that change rows, with the tenant of the caller's token and the tenant of the path. The
  seat check and the insert of one \<^verbatim>\<open>createUser\<close> are adjacent here; requests of others are further elements of the run.
\<close>

datatype api_call =
    CallCreateUser tenant_env string string "CreateUserInput option"
  | CallUpdateUser "string option" string string string "UpdateUserInput option"
  | CallDeleteUser tenant_env string string string
  | CallCreateDomain tenant_env string string "string option"
  | CallCreateAlias alias_env string string "(string \<times> string) option"
  | CallDeleteAlias alias_env string string string
  | CallCreateSharedInbox tenant_env string string "CreateSharedInboxInput option"
  | CallAddMember tenant_env string string string "(string \<times> string) option"
  | CallRemoveMember tenant_env string string string string
  | CallChangePlan faults time string string "string option"
  | CallUpdateLimits faults string string "UpdateQuotaLimitsInput option"
  | CallInvoice faults string string

fun call_ctx :: "api_call \<Rightarrow> string" where
  "call_ctx (CallCreateUser _ c _ _) = c"
| "call_ctx (CallUpdateUser _ c _ _ _) = c"
| "call_ctx (CallDeleteUser _ c _ _) = c"
| "call_ctx (CallCreateDomain _ c _ _) = c"
| "call_ctx (CallCreateAlias _ c _ _) = c"
| "call_ctx (CallDeleteAlias _ c _ _) = c"
| "call_ctx (CallCreateSharedInbox _ c _ _) = c"
| "call_ctx (CallAddMember _ c _ _ _) = c"
| "call_ctx (CallRemoveMember _ c _ _ _) = c"
| "call_ctx (CallChangePlan _ _ c _ _) = c"
| "call_ctx (CallUpdateLimits _ c _ _) = c"
| "call_ctx (CallInvoice _ c _) = c"

fun call_tenant :: "api_call \<Rightarrow> string" where
  "call_tenant (CallCreateUser _ _ t _) = t"
| "call_tenant (CallUpdateUser _ _ t _ _) = t"
| "call_tenant (CallDeleteUser _ _ t _) = t"
| "call_tenant (CallCreateDomain _ _ t _) = t"
| "call_tenant (CallCreateAlias _ _ t _) = t"
| "call_tenant (CallDeleteAlias _ _ t _) = t"
| "call_tenant (CallCreateSharedInbox _ _ t _) = t"
| "call_tenant (CallAddMember _ _ t _ _) = t"
| "call_tenant (CallRemoveMember _ _ t _ _) = t"
| "call_tenant (CallChangePlan _ _ _ t _) = t"
| "call_tenant (CallUpdateLimits _ _ t _) = t"
| "call_tenant (CallInvoice _ _ t) = t"

record api_server =
  as_tenants :: tenant_service
  as_billing :: billing_config
  as_lifecycle :: "Lifecycle option"
  as_parse :: "string \<Rightarrow> string option"
  as_sync :: bool

definition on_db :: "(control_db \<Rightarrow> control_db \<times> 'a) \<Rightarrow> control_db \<times> stalwart \<Rightarrow> control_db \<times> stalwart" where
  "on_db h s = (fst (h (fst s)), snd s)"

fun api :: "api_server \<Rightarrow> api_call \<Rightarrow> control_db \<times> stalwart \<Rightarrow> control_db \<times> stalwart" where
  "api v (CallCreateUser env c t inp) s = on_db (\<lambda>db. createUser (as_tenants v) env id c db t inp) s"
| "api v (CallUpdateUser f c t u inp) s = on_db (\<lambda>db. updateUser f c db t u inp) s"
| "api v (CallDeleteUser env c t u) s = on_db (\<lambda>db. deleteUser (as_tenants v) env c db t u) s"
| "api v (CallCreateDomain env c t inp) s = on_db (\<lambda>db. createDomain env c db t inp) s"
| "api v (CallCreateAlias env c t inp) s = fst (createAlias (as_parse v) (as_sync v) env c s t inp)"
| "api v (CallDeleteAlias env c t i) s = fst (deleteAlias (as_sync v) env c s t i)"
| "api v (CallCreateSharedInbox env c t inp) s = on_db (\<lambda>db. createSharedInbox env c db t inp) s"
| "api v (CallAddMember env c t i inp) s = on_db (\<lambda>db. addSharedInboxMember (as_tenants v) env c db t i inp) s"
| "api v (CallRemoveMember env c t i u) s = on_db (\<lambda>db. removeSharedInboxMember (as_tenants v) env c db t i u) s"
| "api v (CallChangePlan f now c t inp) s = on_db (\<lambda>db. changePlan (as_billing v) (as_lifecycle v) f now c db t inp) s"
| "api v (CallUpdateLimits f c t inp) s = on_db (\<lambda>db. updateLimits (as_billing v) f c db t inp) s"
| "api v (CallInvoice f c t) s = on_db (\<lambda>db. invoice (as_billing v) f c db t) s"

lemmas handler_defs =
  createUser_def updateUser_def deleteUser_def createDomain_def createAlias_def deleteAlias_def createSharedInbox_def
  addSharedInboxMember_def removeSharedInboxMember_def changePlan_def updateLimits_def invoice_def

lemma scope_iff: "checkTenantScope c t = None \<longleftrightarrow> c \<noteq> [] \<and> c = t"
  by (simp add: checkTenantScope_def)

lemma out_of_scope: "call_ctx k \<noteq> call_tenant k \<or> call_ctx k = [] \<Longrightarrow> api v k s = s"
  by (cases k; cases s) (auto simp: handler_defs scoped_def in_scope_def on_db_def checkTenantScope_def)

lemma scoped_same:
  "(\<And>s. same_for b (p s) (p (fst (h s)))) \<Longrightarrow> same_for b (p s) (p (fst (scoped c t s h)))"
  by (simp add: scoped_def split: option.splits)

lemma decoded_same:
  "(\<And>i s. same_for b (p s) (p (fst (h i s)))) \<Longrightarrow> same_for b (p s) (p (fst (decoded i s h)))"
  by (simp add: decoded_def split: option.splits)

lemma in_scope_same: "(\<And>d. same_for b d (fst (h d))) \<Longrightarrow> same_for b db (fst (in_scope c t db h))"
  by (simp add: in_scope_def split: option.splits)

lemma fst_case_pair [simp]: "fst (case p of (d, r) \<Rightarrow> (d, g d r)) = fst p"
  by (cases p) simp

lemma fst_case_triple [simp]: "fst (case p of (d, x, r) \<Rightarrow> (d, g d x r)) = fst p"
  by (cases p) simp

lemma fst_case_result [simp]: "fst (case p of (d, Inl e) \<Rightarrow> (d, f d e) | (d, Inr a) \<Rightarrow> (d, g d a)) = fst p"
  by (cases p; cases "snd p") auto

lemma changePlan_body_same:
  assumes "t \<noteq> b"
  shows "same_for b d (fst (case ChangePlan cfg f d t plan of
      (db1, Inl e) \<Rightarrow> (db1, writeError e)
    | (db1, Inr sm) \<Rightarrow>
        (case (lc, prev) of
           (Some l, Inr p) \<Rightarrow>
             if bs_Plan p \<noteq> [] then (fst (OnPlanChanged l f' now db1 t (bs_Plan p) plan), 200, SummaryBody sm) else (db1, 200, SummaryBody sm)
         | _ \<Rightarrow> (db1, 200, SummaryBody sm))))"
proof -
  obtain db1 r where r: "ChangePlan cfg f d t plan = (db1, r)" by (cases "ChangePlan cfg f d t plan")
  have 1: "same_for b d db1" by (rule fst_same [OF ChangePlan_same [OF assms] r])
  have "same_for b d (fst (OnPlanChanged l f' now db1 t old plan))" for l old by (rule same_trans [OF 1 OnPlanChanged_same [OF assms]])
  then show ?thesis using 1 by (cases r; cases lc; cases prev) (simp_all add: r)
qed

lemma changePlan_same: "t \<noteq> b \<Longrightarrow> same_for b db (fst (changePlan cfg lc faults now c db t inp))"
  unfolding changePlan_def Let_def
  by (intro in_scope_same; cases inp; simp only: option.case fst_conv same_refl) (rule changePlan_body_same)

text \<open>A request below a tenant leaves the rows of the other tenants as they are.\<close>

lemma api_same:
  assumes "call_tenant k \<noteq> b"
  shows "same_for b (fst s) (fst (api v k s))"
proof (cases k)
  case (CallChangePlan f now c t inp)
  then show ?thesis using assms by (simp add: on_db_def changePlan_same)
next
  case (CallUpdateLimits f c t inp)
  then show ?thesis using assms by (auto simp: on_db_def updateLimits_def UpdateQuotaLimits_same split: option.splits intro!: in_scope_same)
qed (use assms in \<open>auto simp: on_db_def handler_defs isolation CreateAlias_same [where s = "(x, y)" for x y, simplified] DeleteAlias_same [where s = "(x, y)" for x y, simplified]
    intro!: scoped_same [where p = id, simplified] scoped_same [where p = fst] decoded_same [where p = id, simplified] decoded_same [where p = fst] in_scope_same\<close>)

text \<open>
  The handlers of the tenants themselves take no tenant of the caller: there is no scope check. Reading and listing tenants
  change nothing and are not part of a run.
\<close>

datatype tenant_call =
    CallCreateTenant tenant_env "CreateTenantInput option"
  | CallUpdateTenant "string option" string "UpdateTenantInput option"
  | CallDeleteTenant tenant_env string

fun managed :: "tenant_call \<Rightarrow> string" where
  "managed (CallCreateTenant env _) = te_nid env"
| "managed (CallUpdateTenant _ i _) = i"
| "managed (CallDeleteTenant _ i) = i"

fun serve :: "api_server \<Rightarrow> api_call + tenant_call \<Rightarrow> control_db \<times> stalwart \<Rightarrow> control_db \<times> stalwart" where
  "serve v (Inl k) s = api v k s"
| "serve v (Inr (CallCreateTenant env inp)) s = on_db (\<lambda>db. createTenant (as_tenants v) env db inp) s"
| "serve v (Inr (CallUpdateTenant f i inp)) s = on_db (\<lambda>db. updateTenant f db i inp) s"
| "serve v (Inr (CallDeleteTenant env i)) s = on_db (\<lambda>db. deleteTenant (as_tenants v) env db i) s"

fun foreign_to :: "string \<Rightarrow> api_call + tenant_call \<Rightarrow> bool" where
  "foreign_to b (Inl k) = (call_ctx k \<noteq> b)"
| "foreign_to b (Inr m) = (managed m \<noteq> b)"

lemma serve_same:
  assumes "foreign_to b r"
  shows "same_for b (fst s) (fst (serve v r s))"
proof (cases r)
  case (Inl k)
  then show ?thesis using assms api_same [of k b s v] out_of_scope [of k v s] by (cases "call_ctx k = call_tenant k") simp_all
next
  case (Inr m)
  then show ?thesis using assms by (cases m) (simp_all add: on_db_def createTenant_same updateTenant_same deleteTenant_same)
qed

lemma run_same: "list_all (foreign_to b) rs \<Longrightarrow> same_for b (fst s) (fst (fold (serve v) rs s))"
proof (induction rs arbitrary: s)
  case (Cons r rs)
  then have "same_for b (fst s) (fst (serve v r s))" by (intro serve_same) simp
  then show ?case using Cons same_trans [of b] by simp
qed simp

lemma scoped_ok: "snd (scoped c t s h) = Done n x \<Longrightarrow> c = t \<and> snd (h s) = Done n x"
  by (auto simp: scoped_def checkTenantScope_def split: if_splits)

lemma listed_are_own:
  "snd (listUsers f c db t) = Done n (Some us) \<Longrightarrow> list_all (\<lambda>u. us_TenantID u = c) us"
  "snd (listDomains f c db t) = Done n (Some ds) \<Longrightarrow> list_all (\<lambda>d. dm_TenantID d = c) ds"
  "snd (listSharedInboxes f c db t) = Done n (Some is) \<Longrightarrow> list_all (\<lambda>i. si_TenantID i = c) is"
  "snd (listAliases_handler f c db t) = Done n (Some as) \<Longrightarrow> list_all (\<lambda>a. al_TenantID a = c) as"
  by (auto simp: listUsers_def listDomains_def listSharedInboxes_def listAliases_handler_def ListUsers_def ListDomains_def ListSharedInboxes_def ListAliases_def
      listAliases_def tx_def answer_result_def list_all_iff dest!: scoped_ok split: if_splits option.splits sum.splits)

text \<open>
  C20: tenants are isolated by every handler below a tenant (users, domains, inboxes and their members, aliases, plan,
  limits, invoice). Whatever callers of other tenants request from them, and whatever tenants other than \<open>b\<close> are created,
  updated and deleted in between, in any order and with any faults of the database, of Stripe and of Stalwart, every row
  of tenant \<open>b\<close> (its tenant row, users, domains, inboxes, members, quota, billing events, subscription, dunning rows,
  storage events, aliases, queue rows and shard) stays as it is. A request below a tenant that is not the
  caller's changes nothing at all, and what is listed to a caller is of its own tenant. The handlers that
  create, read, list, update and delete tenants have no check of the caller: on tenant \<open>b\<close> itself they are excluded.\<close>

theorem tenant_isolation:
  assumes "list_all (foreign_to b) rs"
  shows "tenant_view b (fst (fold (serve v) rs s)) = tenant_view b (fst s)
    \<and> (\<forall>k. call_ctx k \<noteq> call_tenant k \<longrightarrow> api v k s = s)
    \<and> (\<forall>f c t n us. snd (listUsers f c (fst s) t) = Done n (Some us) \<longrightarrow> list_all (\<lambda>u. us_TenantID u = c) us)
    \<and> (\<forall>f c t n as. snd (listAliases_handler f c (fst s) t) = Done n (Some as) \<longrightarrow> list_all (\<lambda>a. al_TenantID a = c) as)"
  using run_same [OF assms, of s v] listed_are_own by (auto simp: same_for_def out_of_scope)

definition ex_env :: tenant_env where
  "ex_env = \<lparr>te_faults = (\<lambda>_. None), te_answers = \<lparr>ans_customer = Inl [], ans_subscription = Inl []\<rparr>, te_now = 0, te_nid = ''d1''\<rparr>"

definition ex_server :: api_server where
  "ex_server = \<lparr>as_tenants = \<lparr>ts_seats = None, ts_provisioner = None, ts_billing = None, ts_sharedInboxFn = False\<rparr>,
     as_billing = NewService \<lparr>cfg_Pool = True, cfg_CoreSeatCents = 0, cfg_ProSeatCents = 0, cfg_PrivacySeatCents = 0, cfg_CorePerSeatBytes = 0, cfg_ProPerSeatBytes = 0,
       cfg_PrivacyPerSeatBytes = 0\<rparr>, as_lifecycle = None, as_parse = Some, as_sync = False\<rparr>"

definition ex_calls :: "(api_call + tenant_call) list" where
  "ex_calls = [Inl (CallCreateDomain ex_env ''t1'' ''t1'' (Some ''one.example'')), Inl (CallCreateDomain ex_env ''t1'' ''t2'' (Some ''two.example'')),
     Inr (CallDeleteTenant ex_env ''t1'')]"

theorem tenant_isolation_witness:
  "tenant_view ''t2'' (fst (fold (serve ex_server) ex_calls (control_tables [active_tenant ''t1'', active_tenant ''t2''] [], {})))
     = tenant_view ''t2'' (control_tables [active_tenant ''t1'', active_tenant ''t2''] [])
   \<and> map dm_Domain (domains (fst (fold (serve ex_server) ex_calls (control_tables [active_tenant ''t1'', active_tenant ''t2''] [], {})))) = [''one.example'']"
proof -
  have "list_all (foreign_to ''t2'') ex_calls" by (simp add: ex_calls_def)
  from tenant_isolation [OF this, of ex_server "(control_tables [active_tenant ''t1'', active_tenant ''t2''] [], {})"]
  have "tenant_view ''t2'' (fst (fold (serve ex_server) ex_calls (control_tables [active_tenant ''t1'', active_tenant ''t2''] [], {})))
     = tenant_view ''t2'' (control_tables [active_tenant ''t1'', active_tenant ''t2''] [])" by simp
  moreover have "map dm_Domain (domains (fst (fold (serve ex_server) ex_calls (control_tables [active_tenant ''t1'', active_tenant ''t2''] [], {})))) = [''one.example'']"
    by code_simp
  ultimately show ?thesis by blast
qed

text \<open>
  The handlers of the tenant itself have no such guard: the caller does not occur in them. A token of one tenant deletes another.\<close>

lemma anyone_deletes_a_tenant:
  "snd (deleteTenant (as_tenants ex_server) ex_env (control_tables [active_tenant ''t1'', active_tenant ''t2''] []) ''t2'') = Done 204 None"
  "map tn_Status (tenants (fst (deleteTenant (as_tenants ex_server) ex_env (control_tables [active_tenant ''t1'', active_tenant ''t2''] []) ''t2''))) = [''active'', ''deleted'']"
  by code_simp+

end
