(* ===== verification/SeatProps.thy ===== *)
theory SeatProps
  imports TenantIsolation
begin

text \<open>
  Seats: the counter the billing service keeps for the tenant service follows the accounts of the tenant, and the seat
  limit bounds them, under any sequence of requests. The interface is the locale \<open>seat_accounter\<close> (the Go interface
  \<^verbatim>\<open>SeatAccounter\<close> of \<^verbatim>\<open>internal/tenant/service.go\<close>), interpreted on \<^verbatim>\<open>CheckSeatAvailable\<close> and \<^verbatim>\<open>IncrementSeatCount\<close>.
\<close>

subsection \<open>The accounts that take a seat\<close>

definition holds_seat :: "string \<Rightarrow> User \<Rightarrow> bool" where
  "holds_seat t u \<longleftrightarrow> us_TenantID u = t \<and> us_AccountType u = ''user'' \<and> us_Status u \<noteq> ''deleted''"

definition seats_taken :: "string \<Rightarrow> control_db \<Rightarrow> int" where
  "seats_taken t db = int (length (filter (holds_seat t) (users db)))"

text \<open>What the rows of a tenant say about its seats.\<close>

definition seat_view :: "string \<Rightarrow> control_db \<Rightarrow> User list \<times> (int \<times> int \<times> bool) option \<times> bool" where
  "seat_view t db =
     (filter (\<lambda>u. us_TenantID u = t) (users db), map_option (\<lambda>q. (q_SeatCount q, q_SeatLimit q, quota_ok q)) (quotas db t), tenant_exists db t)"

definition seats_same :: "string \<Rightarrow> control_db \<Rightarrow> control_db \<Rightarrow> bool" where
  "seats_same t db db' \<longleftrightarrow> seat_view t db' = seat_view t db"

text \<open>The row of the tenant has a limit and counts the accounts, which are within the limit.\<close>

definition seats_counted :: "string \<Rightarrow> int \<Rightarrow> control_db \<Rightarrow> bool" where
  "seats_counted t l db \<longleftrightarrow>
     t \<noteq> [] \<and> tenant_exists db t \<and> 0 < l \<and> distinct (map us_ID (filter (\<lambda>u. us_TenantID u = t) (users db)))
     \<and> (case quotas db t of None \<Rightarrow> False | Some q \<Rightarrow> quota_ok q \<and> q_SeatLimit q = l \<and> q_SeatCount q = seats_taken t db) \<and> seats_taken t db \<le> l"

lemma seats_same_refl [simp]: "seats_same t db db"
  by (simp add: seats_same_def)

lemma seats_same_trans [trans]: "seats_same t x y \<Longrightarrow> seats_same t y z \<Longrightarrow> seats_same t x z"
  by (simp add: seats_same_def)

lemma filter_holds_seat: "filter (holds_seat t) us = filter (holds_seat t) (filter (\<lambda>u. us_TenantID u = t) us)"
  by (induction us) (auto simp: holds_seat_def)

lemma seats_taken_same: "seats_same t db db' \<Longrightarrow> seats_taken t db' = seats_taken t db"
  using filter_holds_seat [of t "users db"] filter_holds_seat [of t "users db'"] by (simp add: seats_same_def seat_view_def seats_taken_def)

lemma counted_same: "seats_same t db db' \<Longrightarrow> seats_counted t l db \<Longrightarrow> seats_counted t l db'"
  using seats_taken_same [of t db db'] by (auto simp: seats_counted_def seats_same_def seat_view_def split: option.splits)

lemma tenant_exists_row: "tenant_exists db t \<longleftrightarrow> tenant_row db t \<noteq> None"
  by (auto simp: tenant_exists_def tenant_row_def list_ex_iff find_None_iff)

lemma same_for_seats: "same_for t db db' \<Longrightarrow> seats_same t db db'"
  by (simp add: same_for_def tenant_view_def seats_same_def seat_view_def tenant_exists_row)

subsection \<open>The interface\<close>

text \<open>
  What a provider of seats promises: the check lets a seat pass only below the limit; counting moves the counter of a
  tenant that has room for it and nothing else the accounts depend on.
\<close>

locale seat_accounter =
  fixes check :: "control_db \<Rightarrow> string \<Rightarrow> ctl_error option"
    and count :: "control_db \<Rightarrow> string \<Rightarrow> int \<Rightarrow> control_db"
  assumes check_below: "seats_counted t l db \<Longrightarrow> check db t = None \<Longrightarrow> seats_taken t db < l"
    and check_passes: "seats_counted t l db \<Longrightarrow> seats_taken t db < l \<Longrightarrow> check db t = None"
    and count_users: "users (count db t n) = users db"
    and count_exists: "tenant_exists (count db t n) = tenant_exists db"
    and count_moves: "t \<noteq> [] \<Longrightarrow> tenant_exists db t \<Longrightarrow> quotas db t = Some q \<Longrightarrow> quota_ok q \<Longrightarrow> \<bar>n\<bar> \<le> 1 \<Longrightarrow> 0 \<le> q_SeatCount q + n
        \<Longrightarrow> q_SeatCount q + n \<le> q_SeatLimit q
        \<Longrightarrow> \<exists>q'. quotas (count db t n) t = Some q' \<and> quota_ok q' \<and> q_SeatLimit q' = q_SeatLimit q \<and> q_SeatCount q' = q_SeatCount q + n"
begin

text \<open>Counting restores the count after the accounts changed by \<open>n\<close>.\<close>

lemma counting_restores:
  assumes old: "seats_counted t l db" and row: "quotas db1 t = quotas db t" "tenant_exists db1 t"
    and ids: "distinct (map us_ID (filter (\<lambda>u. us_TenantID u = t) (users db1)))"
    and step: "seats_taken t db1 = seats_taken t db + n" "\<bar>n\<bar> \<le> 1" "seats_taken t db1 \<le> l"
  shows "seats_counted t l (count db1 t n)"
proof -
  obtain q where q: "quotas db1 t = Some q" "quota_ok q" "q_SeatLimit q = l" "q_SeatCount q = seats_taken t db"
    using old row by (auto simp: seats_counted_def split: option.splits)
  have "0 \<le> seats_taken t db1" by (simp add: seats_taken_def)
  then obtain q' where "quotas (count db1 t n) t = Some q'" "quota_ok q'" "q_SeatLimit q' = l" "q_SeatCount q' = seats_taken t db1"
    using count_moves [OF _ row(2) q(1,2) step(2)] old q step by (auto simp: seats_counted_def)
  moreover have "seats_taken t (count db1 t n) = seats_taken t db1" by (simp add: seats_taken_def count_users)
  ultimately show ?thesis using old ids row step by (simp add: seats_counted_def count_users count_exists)
qed

text \<open>An account that passed the check and took its seat is counted.\<close>

lemma create_counted:
  assumes "seats_counted t l db" and "check db t = None" and "holds_seat t u" and "us_ID u \<notin> us_ID ` set (users db)"
  shows "seats_counted t l (count (db\<lparr>users := users db @ [u]\<rparr>) t 1)"
proof (rule counting_restores [OF assms(1)])
  show "seats_taken t (db\<lparr>users := users db @ [u]\<rparr>) \<le> l"
    using check_below [OF assms(1,2)] assms(3) by (simp add: seats_taken_def)
qed (use assms in \<open>auto simp: seats_counted_def seats_taken_def holds_seat_def tenant_exists_def\<close>)

end

subsection \<open>Billing provides it\<close>

lemma GetQuota_row: "cfg_Pool cfg \<Longrightarrow> t \<noteq> [] \<Longrightarrow> GetQuota cfg None db t = (case quotas db t of None \<Rightarrow> Inl ErrNotFound | Some q \<Rightarrow> Inr q)"
  by (simp add: GetQuota_def tx_def split: option.splits)

lemma IncrementSeatCount_counts:
  assumes "cfg_Pool cfg" and "t \<noteq> []" and "tenant_exists db t" and "quotas db t = Some q" and "quota_ok q" and "\<bar>n\<bar> \<le> 1"
    and "0 \<le> q_SeatCount q + n" and "q_SeatCount q + n \<le> q_SeatLimit q"
  shows "\<exists>evs. fst (IncrementSeatCount cfg None db t n) = db\<lparr>quotas := (quotas db)(t \<mapsto> q\<lparr>q_SeatCount := q_SeatCount q + n\<rparr>), billing_events := evs\<rparr>"
    and "quota_ok (q\<lparr>q_SeatCount := q_SeatCount q + n\<rparr>)"
proof -
  show "quota_ok (q\<lparr>q_SeatCount := q_SeatCount q + n\<rparr>)" using assms by (auto simp: quota_ok_def fits_int4_def)
  then show "\<exists>evs. fst (IncrementSeatCount cfg None db t n) = db\<lparr>quotas := (quotas db)(t \<mapsto> q\<lparr>q_SeatCount := q_SeatCount q + n\<rparr>), billing_events := evs\<rparr>"
    using assms by (auto simp: IncrementSeatCount_def tx_def upsert_quota_def put_quota_def insert_event_def event_row_def in_range_def fits_int4_def
        fits_int8_def billing_event_types_def tenant_exists_def)
qed

lemma tx_keeps: "P db \<Longrightarrow> (\<And>db' a. body db = Inr (db', a) \<Longrightarrow> P db') \<Longrightarrow> P (fst (tx fault t body db))"
  by (auto simp: tx_def split: option.splits sum.splits)

lemma put_quota_users: "put_quota t q db = Inr db' \<Longrightarrow> users db' = users db \<and> tenants db' = tenants db"
  by (auto simp: put_quota_def split: if_splits)

lemma upsert_quota_users: "upsert_quota t f g db = Inr db' \<Longrightarrow> users db' = users db \<and> tenants db' = tenants db"
  by (auto simp: upsert_quota_def split: option.splits dest: put_quota_users)

lemma insert_event_rows: "insert_event ev db = Inr db' \<Longrightarrow> users db' = users db \<and> tenants db' = tenants db \<and> quotas db' = quotas db"
  by (auto simp: insert_event_def split: if_splits)

lemma IncrementSeatCount_users: "users (fst (IncrementSeatCount cfg f db t n)) = users db \<and> tenants (fst (IncrementSeatCount cfg f db t n)) = tenants db"
  unfolding IncrementSeatCount_def
  by (auto simp: and_then_Inr_iff intro!: tx_keeps [where P = "\<lambda>d. users d = users db"] tx_keeps [where P = "\<lambda>d. tenants d = tenants db"]
      dest!: upsert_quota_users insert_event_rows)

lemma seat_check_iff:
  assumes "cfg_Pool cfg" and "seats_counted t l db"
  shows "CheckSeatAvailable cfg None db t = None \<longleftrightarrow> seats_taken t db < l"
  using assms by (auto simp: CheckSeatAvailable_def GetQuota_row seats_counted_def split: option.splits)

text \<open>A service with a database.\<close>

definition pooled :: "billing_config \<Rightarrow> billing_config" where
  "pooled cfg = cfg\<lparr>cfg_Pool := True\<rparr>"

lemma pooled_pool [simp]: "cfg_Pool (pooled cfg)"
  by (simp add: pooled_def)

lemma pooled_id: "cfg_Pool cfg \<Longrightarrow> pooled cfg = cfg"
  by (simp add: pooled_def)

interpretation billing_seats: seat_accounter "CheckSeatAvailable (pooled cfg) None" "\<lambda>db t n. fst (IncrementSeatCount (pooled cfg) None db t n)" for cfg
proof
  fix t q n and db :: control_db
  assume *: "t \<noteq> []" "tenant_exists db t" "quotas db t = Some q" "quota_ok q" "\<bar>n\<bar> \<le> 1" "0 \<le> q_SeatCount q + n" "q_SeatCount q + n \<le> q_SeatLimit q"
  then show "\<exists>q'. quotas (fst (IncrementSeatCount (pooled cfg) None db t n)) t = Some q' \<and> quota_ok q' \<and> q_SeatLimit q' = q_SeatLimit q \<and> q_SeatCount q' = q_SeatCount q + n"
    using IncrementSeatCount_counts(1) [OF pooled_pool *, of cfg] IncrementSeatCount_counts(2) [OF pooled_pool *] by force
qed (auto simp: seat_check_iff IncrementSeatCount_users tenant_exists_def fun_eq_iff)

subsection \<open>Requests keep the count\<close>

text \<open>Accounts.\<close>

lemma seat_check_fault: "cfg_Pool cfg \<Longrightarrow> t \<noteq> [] \<Longrightarrow> CheckSeatAvailable cfg f db t = None \<Longrightarrow> f = None"
  by (cases f) (auto simp: CheckSeatAvailable_def GetQuota_def tx_def)

lemma insert_user_row: "insert_user u db = Inr (db', u') \<Longrightarrow> u' = u \<and> db' = db\<lparr>users := users db @ [u]\<rparr> \<and> us_ID u \<notin> us_ID ` set (users db)"
  by (auto simp: insert_user_def list_ex_iff split: if_splits)

lemma other_account_counted:
  "seats_counted t l db \<Longrightarrow> us_AccountType u \<noteq> ''user'' \<Longrightarrow> us_ID u \<notin> us_ID ` set (users db) \<Longrightarrow> seats_counted t l (db\<lparr>users := users db @ [u]\<rparr>)"
  by (auto simp: seats_counted_def seats_taken_def holds_seat_def tenant_exists_def split: option.splits)

lemma CreateUser_counted:
  assumes inv: "seats_counted t l db" and seats: "ts_seats s = Some cfg" "cfg_Pool cfg" and fault: "te_faults env 2 = None"
  shows "seats_counted t l (fst (CreateUser s env id db t inp))"
proof (cases "CreateUser_check s (te_faults env 0) db t inp")
  case None
  let ?u = "new_user (te_nid env) t inp"
  obtain db1 r where r: "tx (te_faults env 1) t (insert_user ?u) db = (db1, r)" by (cases "tx (te_faults env 1) t (insert_user ?u) db")
  show ?thesis
  proof (cases r)
    case (Inl e)
    then have "db1 = db" using r by (auto simp: tx_def split: option.splits if_splits sum.splits prod.splits)
    then show ?thesis using None r Inl inv by (simp add: CreateUser_def)
  next
    case (Inr u)
    have row: "u = ?u" "db1 = db\<lparr>users := users db @ [?u]\<rparr>" "us_ID ?u \<notin> us_ID ` set (users db)"
      using insert_user_row [OF tx_committed [OF r [unfolded Inr]]] by auto
    show ?thesis
    proof (cases "us_AccountType ?u = ''user''")
      case True
      then have "CheckSeatAvailable cfg (te_faults env 0) db t = None"
        using None seats by (simp add: CreateUser_check_def takes_seat_def new_user_def split: if_splits)
      moreover from this have "te_faults env 0 = None" using seat_check_fault seats inv by (auto simp: seats_counted_def)
      moreover have "holds_seat t ?u" using True by (simp add: holds_seat_def new_user_def)
      ultimately have "seats_counted t l (fst (IncrementSeatCount cfg None db1 t 1))"
        using billing_seats.create_counted [OF inv, where cfg = cfg] row pooled_id [OF seats(2)] by simp
      then show ?thesis using None r Inr row True seats fault by (simp add: CreateUser_def takes_seat_def)
    next
      case False
      then show ?thesis using None r Inr row inv other_account_counted by (simp add: CreateUser_def takes_seat_def)
    qed
  qed
qed (simp add: CreateUser_def inv)

lemma counted_users:
  assumes "seats_counted t l db" and "quotas db1 = quotas db" and "tenants db1 = tenants db"
    and "map us_ID (filter (\<lambda>u. us_TenantID u = t) (users db1)) = map us_ID (filter (\<lambda>u. us_TenantID u = t) (users db))" and "seats_taken t db1 = seats_taken t db"
  shows "seats_counted t l db1"
  using assms by (simp add: seats_counted_def tenant_exists_def split: option.splits)

lemma map_rows_counted:
  assumes "seats_counted t l db"
    and "\<And>u. us_ID (f u) = us_ID u" "\<And>u. us_TenantID (f u) = us_TenantID u" "\<And>u. us_AccountType (f u) = us_AccountType u" "\<And>u. us_Status (f u) = us_Status u"
  shows "seats_counted t l (db\<lparr>users := map f (users db)\<rparr>)"
proof -
  have "length (filter (holds_seat t) (map f us)) = length (filter (holds_seat t) us)" for us by (induction us) (simp_all add: holds_seat_def assms(2-))
  moreover have "map us_ID (filter (\<lambda>u. us_TenantID u = t) (map f us)) = map us_ID (filter (\<lambda>u. us_TenantID u = t) us)" for us
    by (induction us) (simp_all add: assms(2-))
  ultimately show ?thesis by (intro counted_users [OF assms(1)]) (simp_all add: seats_taken_def)
qed

lemma update_user_counted:
  assumes "update_user P f db = Inr (d', x)" and "seats_counted t l db"
    and "\<And>u. us_ID (f u) = us_ID u" "\<And>u. us_TenantID (f u) = us_TenantID u" "\<And>u. us_AccountType (f u) = us_AccountType u" "\<And>u. us_Status (f u) = us_Status u"
  shows "seats_counted t l d'"
proof -
  have "d' = db\<lparr>users := map (\<lambda>r. if P r then f r else r) (users db)\<rparr>" using assms(1) by (auto simp: update_user_def split: option.splits if_splits)
  then show ?thesis using map_rows_counted [OF assms(2), of "\<lambda>r. if P r then f r else r"] assms(3-) by simp
qed

lemma UpdateUser_counted:
  assumes "seats_counted t l db" and "uu_Status inp = None"
  shows "seats_counted t l (fst (UpdateUser fault db t u inp))"
proof -
  let ?f = "\<lambda>u. u\<lparr>us_DisplayName := coalesce (uu_DisplayName inp) (us_DisplayName u), us_Role := coalesce (uu_Role inp) (us_Role u),
    us_Status := coalesce (uu_Status inp) (us_Status u), us_QuotaBytes := coalesce (uu_QuotaBytes inp) (us_QuotaBytes u)\<rparr>"
  let ?P = "\<lambda>r. us_ID r = u \<and> us_TenantID r = t"
  have "fst (UpdateUser fault db t u inp) \<in> {db, fst (tx fault t (update_user ?P ?f) db)}" by (auto simp: UpdateUser_def)
  moreover have "seats_counted t l (fst (tx fault t (update_user ?P ?f) db))"
    using assms by (intro tx_keeps [where P = "seats_counted t l"]) (auto elim!: update_user_counted simp: coalesce_def [of None])
  ultimately show ?thesis using assms(1) by auto
qed

lemma deleted_row:
  assumes "distinct (map us_ID (filter (\<lambda>u. us_TenantID u = t) us))" and "find (\<lambda>u. us_ID u = i \<and> us_TenantID u = t \<and> us_Status u \<noteq> ''deleted'') us = Some u"
  shows "int (length (filter (holds_seat t) (map (\<lambda>r. if us_ID r = i \<and> us_TenantID r = t \<and> us_Status r \<noteq> ''deleted'' then r\<lparr>us_Status := ''deleted''\<rparr> else r) us)))
    = int (length (filter (holds_seat t) us)) + (if us_AccountType u = ''user'' then - 1 else 0)"
  using assms
proof (induction us)
  case (Cons r us)
  show ?case
  proof (cases "us_ID r = i \<and> us_TenantID r = t \<and> us_Status r \<noteq> ''deleted''")
    case True
    then have "\<not> (us_ID x = i \<and> us_TenantID x = t \<and> us_Status x \<noteq> ''deleted'')" if "x \<in> set us" for x using Cons.prems(1) that by (force simp: image_iff)
    then have "map (\<lambda>r. if us_ID r = i \<and> us_TenantID r = t \<and> us_Status r \<noteq> ''deleted'' then r\<lparr>us_Status := ''deleted''\<rparr> else r) us = us" by (auto intro!: map_idI)
    then show ?thesis using True Cons.prems(2) by (auto simp: holds_seat_def)
  next
    case False
    then show ?thesis using Cons by (auto split: if_splits)
  qed
qed simp

lemma DeleteUser_counted:
  assumes inv: "seats_counted t l db" and seats: "ts_seats s = Some cfg" "cfg_Pool cfg" and fault: "te_faults env 1 = None"
  shows "seats_counted t l (fst (DeleteUser s env db t i))"
proof -
  let ?P = "\<lambda>u. us_ID u = i \<and> us_TenantID u = t \<and> us_Status u \<noteq> ''deleted''"
  let ?f = "\<lambda>r. r\<lparr>us_Status := ''deleted''\<rparr>"
  obtain db1 r where r: "tx (te_faults env 0) t (update_user ?P ?f) db = (db1, r)" by (cases "tx (te_faults env 0) t (update_user ?P ?f) db")
  show ?thesis
  proof (cases r)
    case (Inl e)
    then have "db1 = db" using r by (auto simp: tx_def split: option.splits if_splits sum.splits prod.splits)
    then show ?thesis using r Inl inv by (simp add: DeleteUser_def)
  next
    case (Inr u)
    obtain u0 where u0: "find ?P (users db) = Some u0" "u = ?f u0" "db1 = db\<lparr>users := map (\<lambda>r. if ?P r then ?f r else r) (users db)\<rparr>"
      using tx_committed [OF r [unfolded Inr]] by (auto simp: update_user_def split: option.splits if_splits)
    have "map us_ID (filter (\<lambda>u. us_TenantID u = t) (map (\<lambda>r. if ?P r then ?f r else r) us)) = map us_ID (filter (\<lambda>u. us_TenantID u = t) us)" for us
      by (induction us) auto
    then have ids: "map us_ID (filter (\<lambda>u. us_TenantID u = t) (users db1)) = map us_ID (filter (\<lambda>u. us_TenantID u = t) (users db))" by (simp add: u0(3))
    have taken: "seats_taken t db1 = seats_taken t db + (if us_AccountType u = ''user'' then - 1 else 0)"
      using deleted_row [OF _ u0(1)] inv u0 by (simp add: seats_taken_def seats_counted_def)
    show ?thesis
    proof (cases "us_AccountType u = ''user''")
      case True
      have "seats_counted t l (fst (IncrementSeatCount (pooled cfg) None db1 t (- 1)))"
      proof (rule billing_seats.counting_restores [OF inv])
        show "distinct (map us_ID (filter (\<lambda>u. us_TenantID u = t) (users db1)))" using inv unfolding ids seats_counted_def by blast
      qed (use inv u0(3) taken True in \<open>simp_all add: seats_counted_def tenant_exists_def\<close>)
      then show ?thesis using inv r Inr True seats fault pooled_id [OF seats(2)] by (cases "t = []"; cases "i = []") (simp_all add: DeleteUser_def takes_seat_def)
    next
      case False
      have "seats_counted t l db1" by (rule counted_users [OF inv _ _ ids]) (use u0(3) taken False in simp_all)
      then show ?thesis using r Inr False inv by (simp add: DeleteUser_def takes_seat_def)
    qed
  qed
qed

text \<open>The other requests of the tenant do not touch accounts and counter.\<close>

definition seat_rows_kept :: "control_db \<Rightarrow> control_db \<Rightarrow> bool" where
  "seat_rows_kept db db' \<longleftrightarrow> users db' = users db \<and> quotas db' = quotas db \<and> tenants db' = tenants db"

lemma kept_refl [simp]: "seat_rows_kept db db"
  by (simp add: seat_rows_kept_def)

lemma kept_trans: "seat_rows_kept x y \<Longrightarrow> seat_rows_kept y z \<Longrightarrow> seat_rows_kept x z"
  by (simp add: seat_rows_kept_def)

lemma kept_counted: "seat_rows_kept db db' \<Longrightarrow> seats_counted t l db \<Longrightarrow> seats_counted t l db'"
  by (erule counted_users) (simp_all add: seat_rows_kept_def seats_taken_def)

lemma tx_kept: "(\<And>db' a. body db = Inr (db', a) \<Longrightarrow> seat_rows_kept db db') \<Longrightarrow> seat_rows_kept db (fst (tx fault t body db))"
  by (rule tx_keeps) simp_all

lemma insert_event_kept: "insert_event ev db = Inr db' \<Longrightarrow> seat_rows_kept db db'"
  using insert_event_rows by (auto simp: seat_rows_kept_def)

lemma CalculateInvoice_kept: "seat_rows_kept db (fst (CalculateInvoice cfg f db t))"
  by (auto simp: CalculateInvoice_def and_then_Inr_iff Let_def intro!: tx_kept split: sum.splits dest: insert_event_kept)

lemma CreateDomain_kept: "seat_rows_kept db (fst (CreateDomain env db t name))"
  by (auto simp: CreateDomain_def Let_def seat_rows_kept_def [of _ "_\<lparr>domains := _\<rparr>"] intro!: tx_kept split: if_splits)

lemma CreateSharedInbox_kept: "seat_rows_kept db (fst (CreateSharedInbox env db t inp))"
  by (auto simp: CreateSharedInbox_def Let_def seat_rows_kept_def [of _ "_\<lparr>shared_inboxes := _\<rparr>"] intro!: tx_kept split: if_splits)

lemma AddSharedInboxMember_kept: "seat_rows_kept db (fst (AddSharedInboxMember s env db t i u role))"
proof -
  have "seat_rows_kept db (fst (tx f t (insert_member m) db))" for f m
    by (auto simp: insert_member_def seat_rows_kept_def [of _ "_\<lparr>shared_inbox_members := _\<rparr>"] intro!: tx_kept split: if_splits)
  then show ?thesis by (simp add: AddSharedInboxMember_def Let_def)
qed

lemma RemoveSharedInboxMember_kept: "seat_rows_kept db (fst (RemoveSharedInboxMember s env db t i u))"
  by (auto simp: RemoveSharedInboxMember_def tx_def seat_rows_kept_def split: option.splits)

lemma enqueue_kept: "enqueueAliasSyncTx q now t op acc al db = Inr (db', i) \<Longrightarrow> seat_rows_kept db db'"
  by (auto simp: enqueueAliasSyncTx_def seat_rows_kept_def split: if_splits)

lemma inline_kept: "seat_rows_kept (fst s) (fst (attemptAliasSyncInline sync env q op acc al s))"
  by (cases s) (auto simp: attemptAliasSyncInline_def markAliasSyncSynced_def recordAliasSyncFailure_def exec_def on_pending_def seat_rows_kept_def
      split: option.splits prod.splits)

lemma insert_alias_kept: "insert_alias sync env t u al db = Inr (db1, x) \<Longrightarrow> seat_rows_kept db db1"
  by (auto simp: insert_alias_def Let_def seat_rows_kept_def split: option.splits if_splits sum.splits dest!: enqueue_kept)

lemma CreateAlias_kept: "seat_rows_kept (fst s) (fst (fst (CreateAlias parse sync env s t u al)))"
  by (cases s) (auto simp: CreateAlias_def split: sum.splits option.splits dest!: insert_alias_kept intro: kept_trans inline_kept [of "(_, _)", unfolded fst_conv])

lemma delete_alias_kept: "delete_alias sync env t i db = Inr (db1, x) \<Longrightarrow> seat_rows_kept db db1"
  by (auto simp: delete_alias_def Let_def seat_rows_kept_def split: option.splits if_splits sum.splits dest!: enqueue_kept)

lemma DeleteAlias_kept: "seat_rows_kept (fst s) (fst (fst (DeleteAlias sync env s t i)))"
proof -
  obtain db st where s: "s = (db, st)" by (cases s)
  obtain db1 r where r: "tx (ae_faults env 0) t (delete_alias sync env t i) db = (db1, r)" by (cases "tx (ae_faults env 0) t (delete_alias sync env t i) db")
  have "seat_rows_kept db db1" using tx_kept [of "delete_alias sync env t i" db "ae_faults env 0" t] delete_alias_kept r by auto
  then show ?thesis
    using s r kept_trans [OF _ inline_kept [of "(db1, st)", unfolded fst_conv]] by (auto simp: DeleteAlias_def split: sum.splits option.splits)
qed

lemmas kept_requests = CalculateInvoice_kept CreateDomain_kept CreateSharedInbox_kept AddSharedInboxMember_kept RemoveSharedInboxMember_kept CreateAlias_kept DeleteAlias_kept

text \<open>A change of plan moves the storage limit only.\<close>

lemma put_quota_counted:
  assumes "put_quota t q' db = Inr db'" and "seats_counted t l db" and "quotas db t = Some q" and "q_SeatCount q' = q_SeatCount q" and "q_SeatLimit q' = q_SeatLimit q"
  shows "seats_counted t l db'"
  using assms by (auto simp: put_quota_def seats_counted_def seats_taken_def tenant_exists_def split: if_splits)

lemma sync_counted: "sync_storage_default t n old db = Inr db' \<Longrightarrow> seats_counted t l db \<Longrightarrow> seats_counted t l db'"
  by (auto simp: sync_storage_default_def split: option.splits if_splits elim: put_quota_counted)

lemma set_plan_counted: "seats_counted t l db \<Longrightarrow> seats_counted t l (set_plan t p db)"
  by (rule counted_same) (simp_all add: seats_same_def seat_view_def set_plan_def tenant_exists_map)

lemma ChangePlan_counted: "seats_counted t l db \<Longrightarrow> seats_counted t l (fst (ChangePlan cfg faults db t plan))"
  using ChangePlan_effect [of cfg faults db t plan] set_plan_counted [of t l db plan] by (auto dest!: insert_event_kept intro: kept_counted sync_counted)

lemma upsertSubscription_kept: "seat_rows_kept db (fst (upsertSubscriptionWithStripe l fault db t plan st i c s e))"
  by (auto simp: upsertSubscriptionWithStripe_def and_then_Inr_iff Let_def put_subscription_def seat_rows_kept_def [of _ "_\<lparr>billing_subscriptions := _\<rparr>"]
      intro!: tx_kept split: if_splits)

lemma recordEvent_kept: "seat_rows_kept db (fst (recordEvent l fault db t ty md n))"
  by (auto simp: recordEvent_def and_then_Inr_iff intro!: tx_kept dest!: insert_event_kept)

lemma OnPlanChanged_kept: "seat_rows_kept db (fst (OnPlanChanged l faults now db t old new))"
proof (cases "GetSubscription l (faults 0) db t")
  case (Inl e)
  then show ?thesis
    using upsertSubscription_kept [of db l] by (cases e) (simp_all add: OnPlanChanged_def upsertSubscription_def split: prod.splits)
next
  case (Inr sub)
  obtain db1 r where u: "upsertSubscription l (faults 2) db t new (sub_Status sub) (subscription_id sub) (sub_CurrentPeriodStart sub) (sub_CurrentPeriodEnd sub) = (db1, r)"
    by (cases "upsertSubscription l (faults 2) db t new (sub_Status sub) (subscription_id sub) (sub_CurrentPeriodStart sub) (sub_CurrentPeriodEnd sub)")
  then have "seat_rows_kept db db1" using upsertSubscription_kept by (metis fst_conv upsertSubscription_def)
  then show ?thesis
    using Inr u recordEvent_kept [of db1 l] by (cases r) (auto simp: OnPlanChanged_def Let_def intro: kept_trans)
qed

lemma changePlan_body_counted:
  assumes "seats_counted t l d"
  shows "seats_counted t l (fst (case ChangePlan cfg f d t plan of
      (db1, Inl e) \<Rightarrow> (db1, writeError e)
    | (db1, Inr sm) \<Rightarrow>
        (case (lc, prev) of
           (Some l, Inr p) \<Rightarrow>
             if bs_Plan p \<noteq> [] then (fst (OnPlanChanged l f' now db1 t (bs_Plan p) plan), 200, SummaryBody sm) else (db1, 200, SummaryBody sm)
         | _ \<Rightarrow> (db1, 200, SummaryBody sm))))"
proof -
  obtain db1 r where r: "ChangePlan cfg f d t plan = (db1, r)" by (cases "ChangePlan cfg f d t plan")
  have "seats_counted t l db1" using ChangePlan_counted [OF assms, of cfg f plan] r by simp
  then show ?thesis using kept_counted [OF OnPlanChanged_kept, of t l db1] by (cases r; cases lc; cases prev) (auto simp: r)
qed

lemma in_scope_counted: "seats_counted t l db \<Longrightarrow> seats_counted t l (fst (h db)) \<Longrightarrow> seats_counted t l (fst (in_scope c t' db h))"
  by (simp add: in_scope_def split: option.splits)

lemma scoped_counted: "seats_counted t l (p s) \<Longrightarrow> seats_counted t l (p (fst (h s))) \<Longrightarrow> seats_counted t l (p (fst (scoped c t' s h)))"
  by (simp add: scoped_def split: option.splits)

lemma decoded_counted: "seats_counted t l (p s) \<Longrightarrow> (\<And>x. i = Some x \<Longrightarrow> seats_counted t l (p (fst (h x s)))) \<Longrightarrow> seats_counted t l (p (fst (decoded i s h)))"
  by (simp add: decoded_def split: option.splits)

lemma changePlan_counted: "seats_counted t l db \<Longrightarrow> seats_counted t l (fst (changePlan cfg lc faults now c db t inp))"
  unfolding changePlan_def Let_def
  by (rule in_scope_counted, assumption, cases inp; simp only: option.case fst_conv) (rule changePlan_body_counted)

subsection \<open>Any sequence of requests\<close>

text \<open>
  Requests that leave the seats of \<open>t\<close> to the counting: no statement that counts fails, an account does not change its
  status through \<^verbatim>\<open>updateUser\<close>, and the limit of \<open>t\<close> is not moved. Requests to other tenants are free.
\<close>

fun seat_safe :: "string \<Rightarrow> api_call \<Rightarrow> bool" where
  "seat_safe t (CallCreateUser env c t' inp) = (t' = t \<longrightarrow> te_faults env 2 = None)"
| "seat_safe t (CallDeleteUser env c t' u) = (t' = t \<longrightarrow> te_faults env 1 = None)"
| "seat_safe t (CallUpdateUser f c t' u inp) = (t' = t \<longrightarrow> (case inp of None \<Rightarrow> True | Some i \<Rightarrow> uu_Status i = None))"
| "seat_safe t (CallUpdateLimits f c t' inp) = (t' \<noteq> t)"
| "seat_safe t k = True"

lemma api_counted:
  assumes inv: "seats_counted t l (fst s)" and v: "ts_seats (as_tenants v) = Some cfg" "cfg_Pool cfg" and k: "seat_safe t k"
  shows "seats_counted t l (fst (api v k s))"
proof (cases "call_tenant k = t")
  case False
  then show ?thesis using counted_same [OF same_for_seats [OF api_same] inv] by blast
next
  case True
  show ?thesis
  proof (cases k)
    case (CallChangePlan f now c t' inp)
    then show ?thesis using True inv by (simp add: on_db_def changePlan_counted)
  next
    case (CallUpdateUser f c t' u inp)
    then show ?thesis using True k inv
      by (auto simp: on_db_def handler_defs intro!: scoped_counted [where p = id, simplified] decoded_counted [where p = id, simplified] UpdateUser_counted)
  qed (use True k inv v in \<open>auto simp: on_db_def handler_defs intro!: scoped_counted [where p = id, simplified] decoded_counted [where p = id, simplified]
      scoped_counted [where p = fst] decoded_counted [where p = fst] in_scope_counted CreateUser_counted DeleteUser_counted kept_requests [THEN kept_counted]\<close>)
qed

lemma run_counted:
  "seats_counted t l (fst s) \<Longrightarrow> ts_seats (as_tenants v) = Some cfg \<Longrightarrow> cfg_Pool cfg \<Longrightarrow> list_all (seat_safe t) ks \<Longrightarrow> seats_counted t l (fst (fold (api v) ks s))"
  by (induction ks arbitrary: s) (simp_all add: api_counted)

text \<open>
  C21: the seat limit holds for requests that are served one after the other. Whatever sequence of requests below tenants
  (of any tenants, in any order) reaches the handlers, if none to \<open>t\<close> sets the status of an account through \<^verbatim>\<open>updateUser\<close>,
  moves the limit of \<open>t\<close> or has its counting statement fail, then the counter of \<open>t\<close> is the number of its accounts of type
  \<^verbatim>\<open>user\<close> that are not deleted, and never exceeds the limit; and a next account passes the seat check exactly
  while there is a seat left.\<close>

theorem seat_limit_enforced:
  assumes "seats_counted t l (fst s)" and "ts_seats (as_tenants v) = Some cfg" and "cfg_Pool cfg" and "list_all (seat_safe t) ks"
  defines "db \<equiv> fst (fold (api v) ks s)"
  shows "map_option q_SeatCount (quotas db t) = Some (seats_taken t db) \<and> seats_taken t db \<le> l
    \<and> (CheckSeatAvailable cfg None db t = None \<longleftrightarrow> seats_taken t db < l)"
  using run_counted [OF assms(1-4)] seat_check_iff [OF assms(3) run_counted [OF assms(1-4)]]
  by (auto simp: db_def seats_counted_def split: option.splits)

definition seat_server :: api_server where
  "seat_server = ex_server\<lparr>as_tenants := \<lparr>ts_seats = Some (as_billing ex_server), ts_provisioner = None, ts_billing = None, ts_sharedInboxFn = False\<rparr>\<rparr>"

definition seat_env :: "string \<Rightarrow> tenant_env" where
  "seat_env i = ex_env\<lparr>te_nid := i\<rparr>"

definition seat_user :: "string \<Rightarrow> CreateUserInput" where
  "seat_user n = \<lparr>cu_KChatUserID = n, cu_StalwartAccountID = n, cu_Email = n, cu_DisplayName = n, cu_Role = [], cu_QuotaBytes = 0, cu_AccountType = []\<rparr>"

definition one_seat_db :: control_db where
  "one_seat_db = (control_tables [active_tenant ''t1''] [])\<lparr>quotas := [''t1'' \<mapsto> \<lparr>q_StorageUsedBytes = 0, q_StorageLimitBytes = 0, q_SeatCount = 0, q_SeatLimit = 1\<rparr>]\<rparr>"

definition one_seat_calls :: "api_call list" where
  "one_seat_calls = [CallCreateUser (seat_env ''u1'') ''t1'' ''t1'' (Some (seat_user ''a'')), CallCreateUser (seat_env ''u2'') ''t1'' ''t1'' (Some (seat_user ''b''))]"

theorem seat_limit_enforced_witness:
  "seats_taken ''t1'' (fst (fold (api seat_server) one_seat_calls (one_seat_db, {}))) = 1
   \<and> map_option q_SeatCount (quotas (fst (fold (api seat_server) one_seat_calls (one_seat_db, {}))) ''t1'') = Some 1"
proof -
  have "seats_counted ''t1'' 1 (fst (one_seat_db, {}))" by code_simp
  moreover have "ts_seats (as_tenants seat_server) = Some (as_billing ex_server)" by (simp add: seat_server_def)
  moreover have "cfg_Pool (as_billing ex_server)" by code_simp
  moreover have "list_all (seat_safe ''t1'') one_seat_calls" by code_simp
  ultimately have "map_option q_SeatCount (quotas (fst (fold (api seat_server) one_seat_calls (one_seat_db, {}))) ''t1'')
      = Some (seats_taken ''t1'' (fst (fold (api seat_server) one_seat_calls (one_seat_db, {}))))"
    by (rule seat_limit_enforced [THEN conjunct1])
  moreover have "seats_taken ''t1'' (fst (fold (api seat_server) one_seat_calls (one_seat_db, {}))) = 1" by code_simp
  ultimately show ?thesis by simp
qed

text \<open>
  Check and insert are separate transactions: a second \<^verbatim>\<open>CreateUser\<close> between those of the first takes the last seat with it.\<close>

lemma racing_creations_exceed_limit:
  "seats_taken ''t1'' (fst (CreateUser (as_tenants seat_server) (seat_env ''u1'')
      (\<lambda>db. fst (CreateUser (as_tenants seat_server) (seat_env ''u2'') id db ''t1'' (seat_user ''b''))) one_seat_db ''t1'' (seat_user ''a''))) = 2"
  by code_simp

text \<open>
  \<^verbatim>\<open>UpdateUser\<close> may set any status and does not count: reviving a deleted account takes a seat past the limit.\<close>

lemma revived_account_exceeds_limit:
  "let db1 = fst (fold (api seat_server) [CallCreateUser (seat_env ''u1'') ''t1'' ''t1'' (Some (seat_user ''a'')), CallDeleteUser (seat_env []) ''t1'' ''t1'' ''u1'',
         CallCreateUser (seat_env ''u2'') ''t1'' ''t1'' (Some (seat_user ''b'')),
         CallUpdateUser None ''t1'' ''t1'' ''u1'' (Some \<lparr>uu_DisplayName = None, uu_Role = None, uu_Status = Some ''active'', uu_QuotaBytes = None\<rparr>)] (one_seat_db, {}))
   in seats_taken ''t1'' db1 = 2 \<and> map_option q_SeatCount (quotas db1 ''t1'') = Some 1"
  by code_simp

end
