(* ===== verification/Malware.thy ===== *)
theory Malware
  imports Prelude "HOL-Library.Sublist"
begin

text \<open>
  The malware scanner of \<^verbatim>\<open>internal/malware\<close>: the verdicts and the no-op scanner (\<^verbatim>\<open>scanner.go\<close>), the ClamAV adapter with its
  \<^verbatim>\<open>INSTREAM\<close> framing (\<^verbatim>\<open>clamav.go\<close>), the hook that the JMAP proxy calls and the scan endpoint (\<^verbatim>\<open>handlers.go\<close>). The daemon is an
  argument: it maps the bytes of a connection to the bytes it sends back, or to the error that ends the exchange (dialling, writing,
  the deadline, reading). Byte strings are lists of characters.
\<close>

subsection \<open>Verdicts\<close>

datatype Verdict = Clean | Infected | Unknown

fun verdict_String :: "Verdict \<Rightarrow> string" where
  "verdict_String Clean = ''clean''"
| "verdict_String Infected = ''infected''"
| "verdict_String Unknown = ''unknown''"

record ScanResult =
  sr_Verdict :: Verdict
  sr_Signature :: string
  sr_Engine :: string
  sr_BytesRead :: nat

text \<open>A scanner gives a result, and beside it an error that the result comes with.\<close>

type_synonym Scanner = "string \<Rightarrow> ScanResult \<times> string option"

definition noop_Scan :: Scanner where
  "noop_Scan body = (\<lparr>sr_Verdict = Clean, sr_Signature = [], sr_Engine = ''noop'', sr_BytesRead = length body\<rparr>, None)"

subsection \<open>The ClamAV adapter\<close>

record ClamAVConfig =
  cv_Addr :: string
  cv_MaxBytes :: nat

text \<open>\<open>None\<close> is the error for an empty address. The timeout is part of the daemon; no wiring of the scanner sets a negative cap.\<close>

definition NewClamAVScanner :: "ClamAVConfig \<Rightarrow> ClamAVConfig option" where
  "NewClamAVScanner cfg =
     (if trim_space (cv_Addr cfg) = [] then None
      else Some (if cv_MaxBytes cfg = 0 then cfg\<lparr>cv_MaxBytes := 26 * 1024 * 1024\<rparr> else cfg))"

text \<open>\<^verbatim>\<open>binary.BigEndian.PutUint32\<close>.\<close>

definition be32 :: "nat \<Rightarrow> string" where
  "be32 n = map (\<lambda>i. char_of (n div 256 ^ i mod 256)) [3, 2, 1, 0]"

definition chunk :: nat where "chunk = 32 * 1024"

function write_chunks :: "string \<Rightarrow> string" where
  "write_chunks body =
     (if body = [] then [] else be32 (length (take chunk body)) @ take chunk body @ write_chunks (drop chunk body))"
  by pat_completeness auto
termination by (relation "measure length") (auto simp: chunk_def)

declare write_chunks.simps [simp del]

definition instream :: "string \<Rightarrow> string" where
  "instream body = ''zINSTREAM'' @ char_of (0 :: nat) # write_chunks body @ be32 0"

definition HasSuffix :: "string \<Rightarrow> string \<Rightarrow> bool" where
  "HasSuffix s suf \<longleftrightarrow> suffix suf s"

text \<open>\<^verbatim>\<open>s[idx+2:]\<close> for the first occurrence of a colon and a space in \<^verbatim>\<open>s\<close>, or \<^verbatim>\<open>s\<close>.\<close>

fun after_colon :: "string \<Rightarrow> string option" where
  "after_colon (a # b # rest) = (if a = CHR '':'' \<and> b = CHR '' '' then Some rest else after_colon (b # rest))"
| "after_colon _ = None"

definition parseClamdResponse :: "string \<Rightarrow> string \<Rightarrow> nat \<Rightarrow> ScanResult" where
  "parseClamdResponse line engine bytesRead =
     (if HasSuffix line '' OK'' then \<lparr>sr_Verdict = Clean, sr_Signature = [], sr_Engine = engine, sr_BytesRead = bytesRead\<rparr>
      else if HasSuffix line '' FOUND'' then
        let sig = take (length line - length '' FOUND'') line
        in \<lparr>sr_Verdict = Infected, sr_Signature = (case after_colon sig of Some r \<Rightarrow> r | None \<Rightarrow> sig), sr_Engine = engine, sr_BytesRead = bytesRead\<rparr>
      else \<lparr>sr_Verdict = Unknown, sr_Signature = [], sr_Engine = engine, sr_BytesRead = bytesRead\<rparr>)"

text \<open>\<^verbatim>\<open>ReadString(0)\<close>, with the error at the end of the stream ignored, and \<^verbatim>\<open>TrimRight(line, "\x00\n\r")\<close>.\<close>

definition trim_reply :: "string \<Rightarrow> string" where
  "trim_reply s = rev (dropWhile (\<lambda>c. of_char c \<in> {0, 10, 13 :: nat}) (rev s))"

definition reply_line :: "string \<Rightarrow> string" where
  "reply_line s = trim_reply (takeWhile (\<lambda>c. c \<noteq> char_of (0 :: nat)) s)"

datatype exchange = NoConnection string | Broken string | Replied string

definition clamav_Scan :: "ClamAVConfig \<Rightarrow> (string \<Rightarrow> exchange) \<Rightarrow> Scanner" where
  "clamav_Scan cfg clamd body0 =
     (if body0 = [] then (\<lparr>sr_Verdict = Clean, sr_Signature = [], sr_Engine = ''clamav'', sr_BytesRead = 0\<rparr>, None)
      else let body = take (cv_MaxBytes cfg) body0 in
        case clamd (instream body) of
          NoConnection e \<Rightarrow> (\<lparr>sr_Verdict = Unknown, sr_Signature = [], sr_Engine = ''clamav'', sr_BytesRead = length body\<rparr>, Some e)
        | Broken e \<Rightarrow> (\<lparr>sr_Verdict = Unknown, sr_Signature = [], sr_Engine = ''clamav'', sr_BytesRead = 0\<rparr>, Some e)
        | Replied reply \<Rightarrow> (parseClamdResponse (reply_line reply) ''clamav'' (length body), None))"

subsection \<open>Handlers\<close>

definition NewHandlers :: "Scanner option \<Rightarrow> Scanner" where
  "NewHandlers scanner = (case scanner of None \<Rightarrow> noop_Scan | Some s \<Rightarrow> s)"

text \<open>The hook passes when the scanner fails.\<close>

definition PreDeliverHook :: "Scanner \<Rightarrow> string \<Rightarrow> string option" where
  "PreDeliverHook scanner body =
     (if body = [] then None
      else case scanner body of
          (_, Some _) \<Rightarrow> None
        | (res, None) \<Rightarrow>
            if sr_Verdict res = Infected then Some (''malware: message rejected by malware scanner: '' @ sr_Signature res) else None)"

datatype scan_reply = ScanFailure int | ScanReply string string string nat

text \<open>The endpoint; \<open>None\<close> is a body that cannot be read.\<close>

definition malware_scan :: "Scanner \<Rightarrow> string option \<Rightarrow> scan_reply" where
  "malware_scan scanner content =
     (case content of
        None \<Rightarrow> ScanFailure 400
      | Some body \<Rightarrow>
          let res = fst (scanner (take (32 * 1024 * 1024) body))
          in ScanReply (verdict_String (sr_Verdict res)) (sr_Engine res) (sr_Signature res) (sr_BytesRead res))"

subsection \<open>The framing\<close>

text \<open>What a daemon reads from a connection by the documented protocol: the command, chunks behind their lengths, a length of zero.\<close>

definition be_nat :: "string \<Rightarrow> nat" where
  "be_nat s = fold (\<lambda>c n. 256 * n + of_char c) s 0"

function read_chunks :: "string \<Rightarrow> string option" where
  "read_chunks s =
     (if length s < 4 then None
      else let n = be_nat (take 4 s); rest = drop 4 s in
        if n = 0 then (if rest = [] then Some [] else None)
        else if length rest < n then None
        else map_option (\<lambda>t. take n rest @ t) (read_chunks (drop n rest)))"
  by pat_completeness auto
termination by (relation "measure length") auto

declare read_chunks.simps [simp del]

definition read_instream :: "string \<Rightarrow> string option" where
  "read_instream s = (if take 10 s = ''zINSTREAM'' @ [char_of (0 :: nat)] then read_chunks (drop 10 s) else None)"

lemma be32_length [simp]: "length (be32 n) = 4"
  by (simp add: be32_def)

lemma be_nat_be32: "n < 2 ^ 32 \<Longrightarrow> be_nat (be32 n) = n"
proof -
  have "256 * (n div 256) + n mod 256 = n" "256 * (n div 65536) + n div 256 mod 256 = n div 256" "256 * (n div 16777216) + n div 65536 mod 256 = n div 65536"
    using mult_div_mod_eq [of 256 n] mult_div_mod_eq [of 256 "n div 256"] mult_div_mod_eq [of 256 "n div 65536"] by (simp_all add: div_mult2_eq [symmetric])
  then have "16777216 * (n div 16777216) + 65536 * (n div 65536 mod 256) + 256 * (n div 256 mod 256) + n mod 256 = n" by linarith
  then show "n < 2 ^ 32 \<Longrightarrow> ?thesis" by (simp add: be_nat_def be32_def)
qed

lemma write_one_chunk: "body \<noteq> [] \<Longrightarrow> length body \<le> chunk \<Longrightarrow> write_chunks body = be32 (length body) @ body"
  using write_chunks.simps [of body] write_chunks.simps [of "[]"] by simp

lemma read_write_chunks: "read_chunks (write_chunks body @ be32 0) = Some body"
proof (induction body rule: write_chunks.induct)
  case (1 body)
  show ?case
  proof (cases "body = []")
    case True
    then show ?thesis by (simp add: write_chunks.simps [of "[]"] read_chunks.simps [of "be32 0"] be_nat_be32)
  next
    case False
    let ?c = "take chunk body"
    have n: "be_nat (be32 (length ?c)) = length ?c" by (rule be_nat_be32) (simp add: chunk_def min_def)
    have "0 < length ?c" using False by (simp add: chunk_def)
    moreover have "write_chunks body @ be32 0 = be32 (length ?c) @ ?c @ write_chunks (drop chunk body) @ be32 0"
      using False by (subst write_chunks.simps) simp
    moreover have "take (length ?c) body = ?c" by (cases "length body \<le> chunk") simp_all
    ultimately show ?thesis using 1 [OF False] n append_take_drop_id [of chunk body] by (simp add: read_chunks.simps [of "be32 _ @ _"] Let_def)
  qed
qed

text \<open>
  C27: A daemon that reads a scan as the \<^verbatim>\<open>INSTREAM\<close> protocol says gets exactly the body it was handed, for every body and every number of
  chunks: no byte is lost, doubled or taken for a length.\<close>

theorem instream_roundtrip: "read_instream (instream body) = Some body"
  by (simp add: read_instream_def instream_def read_write_chunks)

subsection \<open>What the hook lets pass\<close>

lemma suffix_not_both: "HasSuffix s '' FOUND'' \<Longrightarrow> \<not> HasSuffix s '' OK''"
  by (auto simp: HasSuffix_def suffix_def)

lemma reported_is_infected: "HasSuffix line '' FOUND'' \<longleftrightarrow> sr_Verdict (parseClamdResponse line engine n) = Infected"
  using suffix_not_both by (auto simp: parseClamdResponse_def Let_def)

lemma hook_refuses_iff:
  "PreDeliverHook (clamav_Scan cfg clamd) body \<noteq> None
   \<longleftrightarrow> body \<noteq> [] \<and> (\<exists>reply. clamd (instream (take (cv_MaxBytes cfg) body)) = Replied reply \<and> HasSuffix (reply_line reply) '' FOUND'')"
  by (auto simp: PreDeliverHook_def clamav_Scan_def Let_def reported_is_infected [of _ "''clamav''" "min (length body) (cv_MaxBytes cfg)"] split: exchange.splits if_splits)

text \<open>What lies behind the cap of the adapter is not scanned: two bodies with the same first bytes get the same verdict.\<close>

lemma tail_is_not_scanned:
  "length a = cv_MaxBytes cfg \<Longrightarrow> a \<noteq> [] \<Longrightarrow> clamav_Scan cfg clamd (a @ b) = clamav_Scan cfg clamd (a @ c)"
  by (simp add: clamav_Scan_def)

end
