(* ===== verification/Jmap.thy ===== *)
theory Jmap
  imports Calendar
begin

text \<open>
  JMAP requests and responses as the services build and read them, and the client through which the server itself calls
  Stalwart (\<^verbatim>\<open>internal/jmap/internal_client.go\<close>).

  A JSON value that Go holds as \<^verbatim>\<open>any\<close> is a \<open>json\<close>; the keys of an object are distinct and their order means nothing. Numbers
  are kept as they are written. The codec, the shard registry, the token minter and the exchange with a shard are arguments.
\<close>

datatype json = JNull | JBool bool | JNumber string | JString string | JArray "json list" | JObject "(string \<times> json) list"

text \<open>Go's comma-ok type assertions with their zero values; a missing key of a map reads as \<^verbatim>\<open>nil\<close>.\<close>

fun as_string :: "json \<Rightarrow> string" where
  "as_string (JString s) = s"
| "as_string _ = []"

fun as_object :: "json \<Rightarrow> (string \<times> json) list" where
  "as_object (JObject m) = m"
| "as_object _ = []"

fun as_array :: "json \<Rightarrow> json list" where
  "as_array (JArray xs) = xs"
| "as_array _ = []"

fun is_object :: "json \<Rightarrow> bool" where
  "is_object (JObject m) = True"
| "is_object _ = False"

definition field :: "(string \<times> json) list \<Rightarrow> string \<Rightarrow> json" where
  "field m k = (case map_of m k of None \<Rightarrow> JNull | Some v \<Rightarrow> v)"

text \<open>Assignment to a key of a map.\<close>

definition set_field :: "string \<Rightarrow> json \<Rightarrow> (string \<times> json) list \<Rightarrow> (string \<times> json) list" where
  "set_field k v m = AList.update k v m"

lemma field_set_field: "field (set_field k v m) k' = (if k = k' then v else field m k')"
  by (simp add: field_def set_field_def update_conv')

subsection \<open>Messages\<close>

record JmapRequest =
  jq_Using :: "string list"
  jq_MethodCalls :: "json list list"
  jq_CreatedIds :: "(string \<times> string) list"

record JmapResponse =
  jp_MethodResponses :: "json list list"
  jp_SessionState :: string
  jp_CreatedIds :: "(string \<times> string) list"

record MethodError =
  me_Type :: string
  me_Description :: string

definition MethodError_text :: "MethodError \<Rightarrow> string" where
  "MethodError_text e =
     ''jmap method error: '' @ me_Type e @ (if me_Description e \<noteq> [] then '': '' @ me_Description e else [])"

fun CallByID_in :: "json list list \<Rightarrow> string \<Rightarrow> (string \<times> (string \<times> json) list) option" where
  "CallByID_in [] i = None"
| "CallByID_in (entry # es) i =
     (case entry of
        [n, args, k] \<Rightarrow> if as_string k = i then Some (as_string n, as_object args) else CallByID_in es i
      | _ \<Rightarrow> CallByID_in es i)"

definition CallByID :: "JmapResponse \<Rightarrow> string \<Rightarrow> (string \<times> (string \<times> json) list) option" where
  "CallByID r i = CallByID_in (jp_MethodResponses r) i"

fun FirstCallError_in :: "json list list \<Rightarrow> MethodError option" where
  "FirstCallError_in [] = None"
| "FirstCallError_in (entry # es) =
     (case entry of
        [n, args, k] \<Rightarrow>
          if as_string n \<noteq> ''error'' then FirstCallError_in es
          else Some \<lparr>me_Type = as_string (field (as_object args) ''type''), me_Description = as_string (field (as_object args) ''description'')\<rparr>
      | _ \<Rightarrow> FirstCallError_in es)"

definition FirstCallError :: "JmapResponse \<Rightarrow> MethodError option" where
  "FirstCallError r = FirstCallError_in (jp_MethodResponses r)"

subsection \<open>The internal client\<close>

datatype jmap_error =
    Required string | ResolveError string | MarshalError | AuthError string | ShardError string | ClientError string int string
  | TooLarge string | UnmarshalError string | MethodFailed MethodError | NoShard

datatype http_outcome = TransportError | BodyError | Answered int string

record http_request =
  hq_method :: string
  hq_url :: string
  hq_headers :: "(string \<times> string) list"
  hq_body :: string

record 's jmap_client =
  jc_resolve :: "string \<Rightarrow> string \<Rightarrow> string + string"
  jc_shards :: "string \<Rightarrow> string list"
  jc_target :: string
  jc_parse :: "string \<Rightarrow> (string \<times> string) option"
  jc_dev_auth :: string
  jc_minter :: "(string \<Rightarrow> string + string) option"
  jc_max_response :: nat
  jc_max_blob :: nat
  jc_marshal :: "JmapRequest \<Rightarrow> string option"
  jc_unmarshal :: "string \<Rightarrow> JmapResponse option"
  jc_path_escape :: "string \<Rightarrow> string"
  jc_do :: "'s \<Rightarrow> http_request \<Rightarrow> 's \<times> http_outcome"

text \<open>\<open>jc_parse\<close> splits a base URL into what stands before its path and the path; \<open>None\<close> does not parse.\<close>

definition trim_slash :: "string \<Rightarrow> string" where
  "trim_slash p = (if p \<noteq> [] \<and> last p = CHR ''/'' then butlast p else p)"

definition joinPath :: "'s jmap_client \<Rightarrow> string \<Rightarrow> string \<Rightarrow> string option" where
  "joinPath c base relPath =
     (case jc_parse c base of
        None \<Rightarrow> None
      | Some (front, path) \<Rightarrow>
          Some (front @ trim_slash path @ (if relPath \<noteq> [] \<and> hd relPath = CHR ''/'' then relPath else ''/'' @ relPath)))"

definition truncate_text :: "string \<Rightarrow> nat \<Rightarrow> string" where
  "truncate_text b n = (if length b \<le> n then b else take n b @ ''...(truncated)'')"

definition setAuth :: "'s jmap_client \<Rightarrow> string \<Rightarrow> jmap_error + (string \<times> string) list" where
  "setAuth c accountID =
     (if jc_dev_auth c \<noteq> [] then Inr [(''Authorization'', jc_dev_auth c)]
      else case jc_minter c of
          None \<Rightarrow> Inr []
        | Some mint \<Rightarrow>
            if trim_space accountID = [] then Inl (AuthError ''cannot mint stalwart bearer with empty account id'')
            else case mint accountID of Inl e \<Rightarrow> Inl (AuthError e) | Inr token \<Rightarrow> Inr [(''Authorization'', ''Bearer '' @ token)])"

definition identity_headers :: "string \<Rightarrow> string \<Rightarrow> string \<Rightarrow> (string \<times> string) list" where
  "identity_headers tenantID kchatUserID accountID =
     [(''X-KMail-Tenant-Id'', tenantID), (''X-KMail-Kchat-User-Id'', kchatUserID), (''X-KMail-Stalwart-Account-Id'', accountID)]"

text \<open>
  The loop over the shards: an attempt that does not reach the shard, breaks off or is answered with 5xx goes on with the
  next shard and leaves its error; every other answer ends the loop. A body is read up to one byte past its cap.
\<close>

fun shard_loop :: "'s jmap_client \<Rightarrow> (string \<Rightarrow> (string \<times> string) list \<Rightarrow> http_request) \<Rightarrow> string \<Rightarrow> string \<Rightarrow> nat \<Rightarrow> (string \<Rightarrow> string \<Rightarrow> jmap_error + 'a)
    \<Rightarrow> jmap_error option \<Rightarrow> string list \<Rightarrow> 's \<Rightarrow> 's \<times> (jmap_error + 'a)" where
  "shard_loop c req relPath accountID cap read lastErr [] s = (s, Inl (case lastErr of None \<Rightarrow> NoShard | Some e \<Rightarrow> e))"
| "shard_loop c req relPath accountID cap read lastErr (base # bases) s =
     (case joinPath c base relPath of
        None \<Rightarrow> shard_loop c req relPath accountID cap read (Some (ShardError base)) bases s
      | Some endpoint \<Rightarrow>
          (case setAuth c accountID of
             Inl e \<Rightarrow> (s, Inl e)
           | Inr auth \<Rightarrow>
               (case jc_do c s (req endpoint auth) of
                  (s1, TransportError) \<Rightarrow> shard_loop c req relPath accountID cap read (Some (ShardError base)) bases s1
                | (s1, BodyError) \<Rightarrow> shard_loop c req relPath accountID cap read (Some (ShardError base)) bases s1
                | (s1, Answered st body0) \<Rightarrow>
                    let body = take (cap + 1) body0 in
                    if st \<ge> 500 then shard_loop c req relPath accountID cap read (Some (ShardError base)) bases s1
                    else if st \<ge> 400 then (s1, Inl (ClientError base st (truncate_text body 512)))
                    else if length body > cap then (s1, Inl (TooLarge base))
                    else (s1, read base body))))"

definition shard_bases :: "'s jmap_client \<Rightarrow> string \<Rightarrow> string list" where
  "shard_bases c tenantID = (if jc_shards c tenantID = [] then [jc_target c] else jc_shards c tenantID)"

definition read_response :: "'s jmap_client \<Rightarrow> string \<Rightarrow> string \<Rightarrow> jmap_error + JmapResponse" where
  "read_response c base body =
     (case jc_unmarshal c body of
        None \<Rightarrow> Inl (UnmarshalError base)
      | Some out \<Rightarrow> (case FirstCallError out of Some e \<Rightarrow> Inl (MethodFailed e) | None \<Rightarrow> Inr out))"

definition Dispatch :: "'s jmap_client \<Rightarrow> string \<Rightarrow> string \<Rightarrow> JmapRequest \<Rightarrow> 's \<Rightarrow> 's \<times> (jmap_error + JmapResponse)" where
  "Dispatch c tenantID kchatUserID req s =
     (if trim_space tenantID = [] then (s, Inl (Required ''tenantID''))
      else if trim_space kchatUserID = [] then (s, Inl (Required ''kchatUserID''))
      else case jc_resolve c tenantID kchatUserID of
          Inl e \<Rightarrow> (s, Inl (ResolveError e))
        | Inr accountID \<Rightarrow>
            (case jc_marshal c req of
               None \<Rightarrow> (s, Inl MarshalError)
             | Some body \<Rightarrow>
                 shard_loop c (\<lambda>url auth. \<lparr>hq_method = ''POST'', hq_url = url,
                     hq_headers = [(''Content-Type'', ''application/json''), (''Accept'', ''application/json'')] @ identity_headers tenantID kchatUserID accountID @ auth,
                     hq_body = body\<rparr>) ''/jmap/api'' accountID (jc_max_response c) (read_response c) None (shard_bases c tenantID) s))"

definition DownloadBlob :: "'s jmap_client \<Rightarrow> string \<Rightarrow> string \<Rightarrow> string \<Rightarrow> string \<Rightarrow> string \<Rightarrow> 's \<Rightarrow> 's \<times> (jmap_error + string)" where
  "DownloadBlob c tenantID kchatUserID accountID blobID name s =
     (if trim_space tenantID = [] then (s, Inl (Required ''tenantID''))
      else if trim_space kchatUserID = [] then (s, Inl (Required ''kchatUserID''))
      else if trim_space accountID = [] then (s, Inl (Required ''accountID''))
      else if trim_space blobID = [] then (s, Inl (Required ''blobID''))
      else let relPath = ''/jmap/download/'' @ jc_path_escape c accountID @ ''/'' @ jc_path_escape c blobID @ ''/'' @ jc_path_escape c (if name = [] then ''blob'' else name)
           in shard_loop c (\<lambda>url auth. \<lparr>hq_method = ''GET'', hq_url = url,
                hq_headers = (''Accept'', ''application/octet-stream'') # identity_headers tenantID kchatUserID accountID @ auth, hq_body = []\<rparr>)
                relPath accountID (jc_max_blob c) (\<lambda>_ body. Inr body) None (shard_bases c tenantID) s)"

text \<open>\<^verbatim>\<open>t.UTC().Format(time.RFC3339)\<close> of an instant with whole seconds cut off.\<close>

definition format_rfc3339 :: "time \<Rightarrow> string" where
  "format_rfc3339 t =
     (case civil_date (day_of t) of (y, m, d) \<Rightarrow>
        let sec = unix_sec t mod 86400
        in pad 4 y @ ''-'' @ pad 2 m @ ''-'' @ pad 2 d @ ''T'' @ pad 2 (sec div 3600) @ '':'' @ pad 2 (sec mod 3600 div 60) @ '':'' @ pad 2 (sec mod 60) @ ''Z'')"

subsection \<open>What the client guarantees\<close>

text \<open>An answer comes from a shard that was reached, within the cap, and carries no method error.\<close>

lemma shard_loop_reads:
  assumes "shard_loop c req relPath acc cap read lastErr bases s = (s', Inr a)"
  shows "\<exists>base body. base \<in> set bases \<and> length body \<le> cap \<and> read base body = Inr a"
  using assms
proof (induction bases arbitrary: lastErr s)
  case (Cons base bases)
  have later: ?case if "shard_loop c req relPath acc cap read e bases s1 = (s', Inr a)" for e s1
    using Cons.IH [OF that] by auto
  show ?case
  proof (cases "joinPath c base relPath")
    case None
    then show ?thesis using Cons.prems later by simp
  next
    case (Some endpoint)
    show ?thesis
    proof (cases "setAuth c acc")
      case (Inl e)
      then show ?thesis using Cons.prems Some by simp
    next
      case (Inr auth)
      obtain s1 o1 where d: "jc_do c s (req endpoint auth) = (s1, o1)" by (cases "jc_do c s (req endpoint auth)")
      show ?thesis
      proof (cases o1)
        case (Answered st body0)
        show ?thesis
        proof (cases "st \<ge> 500")
          case True
          then show ?thesis using Cons.prems later Some Inr d Answered by simp
        next
          case False
          then have "length (take (cap + 1) body0) \<le> cap \<and> read base (take (cap + 1) body0) = Inr a"
            using Cons.prems Some Inr d Answered by (simp add: Let_def del: take_Suc_Cons split: if_splits)
          then show ?thesis by (intro exI [of _ base] exI [of _ "take (cap + 1) body0"]) simp
        qed
      qed (use Cons.prems later Some Inr d in simp_all)
    qed
  qed
qed simp

lemma read_response_ok: "read_response c base body = Inr out \<Longrightarrow> FirstCallError out = None"
  by (simp add: read_response_def split: option.splits)

lemma Dispatch_no_method_error:
  assumes "Dispatch c t u req s = (s', Inr out)"
  shows "FirstCallError out = None"
proof -
  obtain acc where acc: "jc_resolve c t u = Inr acc" using assms by (simp add: Dispatch_def split: if_splits sum.splits)
  obtain body where body: "jc_marshal c req = Some body" using assms acc by (simp add: Dispatch_def split: if_splits option.splits)
  have "\<exists>req' path bases. shard_loop c req' path acc (jc_max_response c) (read_response c) None bases s = (s', Inr out)"
    using assms acc body by (auto simp: Dispatch_def split: if_splits)
  then show ?thesis using shard_loop_reads [of c _ _ acc "jc_max_response c" "read_response c"] read_response_ok by blast
qed

end
