(* ===== verification/LeaseQueue.thy ===== *)
theory LeaseQueue
  imports Calendar
begin

text \<open>
  The durable queues of scheduled sends and snoozes have one shape: a worker claims the earliest due row of a Postgres table
  by pushing its retry time into the future (a lease), calls Stalwart outside the transaction, and records the outcome with
  an update guarded by the status. This theory states that shape once. \<open>queue_ops\<close> names the columns and updates of a
  table, the locale \<open>lease_queue\<close> their laws; the runs of many workers and users are the step relation \<open>queue_step\<close>.
\<close>

record 'r queue_ops =
  qo_id :: "'r \<Rightarrow> string"
  qo_live :: "'r \<Rightarrow> bool"
  qo_due :: "'r \<Rightarrow> time"
  qo_retry_at :: "'r \<Rightarrow> time"
  qo_attempts :: "'r \<Rightarrow> int"
  qo_lease :: "time \<Rightarrow> 'r \<Rightarrow> 'r"
  qo_done :: "time \<Rightarrow> 'r \<Rightarrow> 'r"
  qo_fail :: "string \<Rightarrow> 'r \<Rightarrow> 'r"
  qo_retry :: "time \<Rightarrow> string \<Rightarrow> 'r \<Rightarrow> 'r"

text \<open>What the queues use of the database: the casts of a text to \<^verbatim>\<open>uuid\<close> and \<^verbatim>\<open>jsonb\<close> (\<open>None\<close> on a malformed text) and the rows of \<^verbatim>\<open>tenants\<close>.\<close>

record queue_pg =
  sp_uuid :: "string \<Rightarrow> string option"
  sp_jsonb :: "string \<Rightarrow> string option"
  sp_tenant :: "string \<Rightarrow> bool"

text \<open>
  A time given by a client through a \<^verbatim>\<open>timestamptz\<close> column: the driver sends whole microseconds and cuts the rest off.
\<close>

definition column_time :: "time \<Rightarrow> time" where
  "column_time t = t - t mod 1000"

lemma column_time_le: "column_time t \<le> t" "t < column_time t + 1000"
  by (simp_all add: column_time_def)

text \<open>\<^verbatim>\<open>WHERE status = <live> AND due <= now() AND next_retry_at <= now() ... SKIP LOCKED\<close>; \<open>locked\<close> are the ids other claims hold.\<close>

definition claimable :: "'r queue_ops \<Rightarrow> time \<Rightarrow> string list \<Rightarrow> 'r \<Rightarrow> bool" where
  "claimable q dbnow locked r \<longleftrightarrow> qo_live q r \<and> qo_due q r \<le> dbnow \<and> qo_retry_at q r \<le> dbnow \<and> qo_id q r \<notin> set locked"

definition queue_claim :: "'r queue_ops \<Rightarrow> time \<Rightarrow> string list \<Rightarrow> time \<Rightarrow> 'r list \<Rightarrow> ('r \<times> 'r list) option" where
  "queue_claim q dbnow locked leaseUntil rows =
     (case sort_key (qo_due q) (filter (claimable q dbnow locked) rows) of
        [] \<Rightarrow> None
      | r # _ \<Rightarrow> Some (qo_lease q leaseUntil r, map (\<lambda>x. if qo_id q x = qo_id q r then qo_lease q leaseUntil x else x) rows))"

text \<open>An update \<^verbatim>\<open>WHERE id = $1 AND status = <live>\<close>.\<close>

definition guarded :: "'r queue_ops \<Rightarrow> string \<Rightarrow> ('r \<Rightarrow> 'r) \<Rightarrow> 'r list \<Rightarrow> 'r list" where
  "guarded q i f rows = map (\<lambda>r. if qo_id q r = i \<and> qo_live q r then f r else r) rows"

text \<open>What the worker records for an error of the call, whatever Stalwart did with it.\<close>

definition queue_failed :: "'r queue_ops \<Rightarrow> int \<Rightarrow> (int \<Rightarrow> duration) \<Rightarrow> time \<Rightarrow> string \<Rightarrow> 'r \<Rightarrow> 'r list \<Rightarrow> 'r list" where
  "queue_failed q maxAttempts backoff now e c rows =
     guarded q (qo_id q c) (if qo_attempts q c \<ge> maxAttempts then qo_fail q e else qo_retry q (now + backoff (qo_attempts q c)) e) rows"

subsection \<open>Runs\<close>

datatype queue_event = Claimed string | Accepted string time | Reposted string | Lost string

text \<open>
  \<open>qw_busy\<close> are the claims in flight, each with whether one of its calls is carried out; \<open>qw_log\<close> what happened: claims, calls that
  Stalwart carries out (\<open>Accepted\<close>, at the time of the call, even if Stalwart gets to it after the worker stopped waiting), calls
  repeated in one dispatch although an earlier one is carried out, whose answer was lost (\<open>Reposted\<close>: the client fails over to the next
  shard after a time-out, a broken answer or a status of 500 and above), and claims whose outcome was not recorded as it was
  (\<open>Lost\<close>: a crash, a failed update, or an error reported for a call that is carried out). \<open>lost_of\<close> counts the outcomes of calls that were
  lost, inside a dispatch or with its claim, \<open>dropped_of\<close> the claims only.
\<close>

record 'r queue_world =
  qw_rows :: "'r list"
  qw_busy :: "('r \<times> bool) list"
  qw_log :: "queue_event list"
  qw_now :: time

definition claims_of :: "string \<Rightarrow> queue_event list \<Rightarrow> nat" where
  "claims_of i evs = length (filter (\<lambda>e. e = Claimed i) evs)"

definition accepted_of :: "string \<Rightarrow> queue_event list \<Rightarrow> nat" where
  "accepted_of i evs = length (filter (\<lambda>e. case e of Accepted j _ \<Rightarrow> j = i | _ \<Rightarrow> False) evs)"

definition lost_of :: "string \<Rightarrow> queue_event list \<Rightarrow> nat" where
  "lost_of i evs = length (filter (\<lambda>e. e = Lost i \<or> e = Reposted i) evs)"

definition dropped_of :: "string \<Rightarrow> queue_event list \<Rightarrow> nat" where
  "dropped_of i evs = length (filter (\<lambda>e. e = Lost i) evs)"

lemma counts_append [simp]:
  "claims_of i (evs @ evs') = claims_of i evs + claims_of i evs'" "lost_of i (evs @ evs') = lost_of i evs + lost_of i evs'"
  "dropped_of i (evs @ evs') = dropped_of i evs + dropped_of i evs'" "accepted_of i (evs @ evs') = accepted_of i evs + accepted_of i evs'"
  by (simp_all add: claims_of_def lost_of_def dropped_of_def accepted_of_def)

lemma counts_Cons [simp]:
  "claims_of i (e # evs) = (if e = Claimed i then 1 else 0) + claims_of i evs"
  "lost_of i (e # evs) = (if e = Lost i \<or> e = Reposted i then 1 else 0) + lost_of i evs"
  "dropped_of i (e # evs) = (if e = Lost i then 1 else 0) + dropped_of i evs"
  "accepted_of i (e # evs) = (case e of Accepted j _ \<Rightarrow> if j = i then 1 else 0 | _ \<Rightarrow> 0) + accepted_of i evs"
  by (simp_all add: claims_of_def lost_of_def dropped_of_def accepted_of_def split: queue_event.split)

lemma counts_Nil [simp]: "claims_of i [] = 0" "lost_of i [] = 0" "dropped_of i [] = 0" "accepted_of i [] = 0"
  by (simp_all add: claims_of_def lost_of_def dropped_of_def accepted_of_def)

lemma dropped_le: "dropped_of i evs \<le> lost_of i evs"
  unfolding dropped_of_def lost_of_def by (induction evs) auto

text \<open>Time goes on and does not pass the lease of a claim in flight: workers end or crash before it.\<close>

definition prompt :: "'r queue_ops \<Rightarrow> time \<Rightarrow> 'r queue_world \<Rightarrow> bool" where
  "prompt q t w \<longleftrightarrow> qw_now w \<le> t \<and> (\<forall>(c, a) \<in> set (qw_busy w). t < qo_retry_at q c)"

inductive queue_step :: "'r queue_ops \<Rightarrow> int \<Rightarrow> (int \<Rightarrow> duration) \<Rightarrow> 'r queue_world \<Rightarrow> 'r queue_world \<Rightarrow> bool"
  for q :: "'r queue_ops" and maxAttempts :: int and backoff :: "int \<Rightarrow> duration" where
  add: "prompt q t w \<Longrightarrow> qo_id q r \<notin> qo_id q ` set (qw_rows w) \<Longrightarrow> qo_live q r \<Longrightarrow> qo_attempts q r = 0
    \<Longrightarrow> queue_step q maxAttempts backoff w (w\<lparr>qw_rows := qw_rows w @ [r], qw_now := t\<rparr>)"
| withdraw: "prompt q t w \<Longrightarrow> (\<And>r. P r \<Longrightarrow> qo_id q (f r) = qo_id q r \<and> qo_attempts q (f r) = qo_attempts q r \<and> qo_due q (f r) = qo_due q r \<and> \<not> qo_live q (f r))
    \<Longrightarrow> queue_step q maxAttempts backoff w (w\<lparr>qw_rows := map (\<lambda>r. if P r then f r else r) (qw_rows w), qw_now := t\<rparr>)"
| claim: "prompt q t w \<Longrightarrow> queue_claim q t locked leaseUntil (qw_rows w) = Some (c, rows)
    \<Longrightarrow> queue_step q maxAttempts backoff w (w\<lparr>qw_rows := rows, qw_busy := (c, False) # qw_busy w, qw_log := qw_log w @ [Claimed (qo_id q c)], qw_now := t\<rparr>)"
| accept: "prompt q t w \<Longrightarrow> qw_busy w = xs @ (c, False) # ys
    \<Longrightarrow> queue_step q maxAttempts backoff w (w\<lparr>qw_busy := xs @ (c, True) # ys, qw_log := qw_log w @ [Accepted (qo_id q c) t], qw_now := t\<rparr>)"
| repost: "prompt q t w \<Longrightarrow> qw_busy w = xs @ (c, True) # ys
    \<Longrightarrow> queue_step q maxAttempts backoff w (w\<lparr>qw_log := qw_log w @ [Reposted (qo_id q c), Accepted (qo_id q c) t], qw_now := t\<rparr>)"
| record_done: "prompt q t w \<Longrightarrow> qw_busy w = xs @ (c, True) # ys
    \<Longrightarrow> queue_step q maxAttempts backoff w (w\<lparr>qw_rows := guarded q (qo_id q c) (qo_done q at') (qw_rows w), qw_busy := xs @ ys, qw_now := t\<rparr>)"
| record_failure: "prompt q t w \<Longrightarrow> qw_busy w = xs @ (c, a) # ys
    \<Longrightarrow> queue_step q maxAttempts backoff w (w\<lparr>qw_rows := queue_failed q maxAttempts backoff now e c (qw_rows w), qw_busy := xs @ ys,
          qw_log := qw_log w @ (if a then [Lost (qo_id q c)] else []), qw_now := t\<rparr>)"
| lose: "prompt q t w \<Longrightarrow> qw_busy w = xs @ (c, a) # ys
    \<Longrightarrow> queue_step q maxAttempts backoff w (w\<lparr>qw_busy := xs @ ys, qw_log := qw_log w @ [Lost (qo_id q c)], qw_now := t\<rparr>)"

inductive_cases queue_stepE: "queue_step q maxAttempts backoff w w'"

definition empty_world :: "'r queue_world" where
  "empty_world = \<lparr>qw_rows = [], qw_busy = [], qw_log = [], qw_now = 0\<rparr>"

subsection \<open>The invariant\<close>

definition busy_ids :: "'r queue_ops \<Rightarrow> ('r \<times> bool) list \<Rightarrow> string list" where
  "busy_ids q busy = map (\<lambda>b. qo_id q (fst b)) busy"

text \<open>The row of a claim in flight is due and carries its lease as long as it is live.\<close>

definition lease_held :: "'r queue_ops \<Rightarrow> time \<Rightarrow> 'r \<Rightarrow> 'r \<Rightarrow> bool" where
  "lease_held q now c r \<longleftrightarrow>
     qo_id q r = qo_id q c \<and> qo_due q r \<le> now \<and> (qo_live q r \<longrightarrow> qo_retry_at q r = qo_retry_at q c) \<and> qo_attempts q r = qo_attempts q c"

definition leases_hold :: "'r queue_ops \<Rightarrow> time \<Rightarrow> ('r \<times> bool) list \<Rightarrow> 'r list \<Rightarrow> bool" where
  "leases_hold q now busy rows \<longleftrightarrow> (\<forall>b \<in> set busy. \<exists>r \<in> set rows. lease_held q now (fst b) r)"

definition sent_flag :: "'r queue_ops \<Rightarrow> ('r \<times> bool) list \<Rightarrow> string \<Rightarrow> bool option" where
  "sent_flag q busy i = map_of (map (\<lambda>b. (qo_id q (fst b), snd b)) busy) i"

text \<open>How far a row may have come: accepted calls and attempts against the outcomes that were lost.\<close>

definition row_counts :: "'r queue_ops \<Rightarrow> int \<Rightarrow> bool option \<Rightarrow> queue_event list \<Rightarrow> 'r \<Rightarrow> bool" where
  "row_counts q K fl evs r \<longleftrightarrow>
     (let i = qo_id q r; acc = accepted_of i evs; lost = lost_of i evs; dropped = dropped_of i evs in
      qo_attempts q r = int (claims_of i evs)
      \<and> (if fl = Some False then acc \<le> lost \<and> qo_attempts q r \<le> K + int dropped
         else if fl = None \<and> qo_live q r then acc \<le> lost \<and> qo_attempts q r < K + int dropped
         else acc \<le> lost + 1 \<and> qo_attempts q r \<le> K + int dropped))"

definition no_events :: "string \<Rightarrow> queue_event list \<Rightarrow> bool" where
  "no_events i evs \<longleftrightarrow> claims_of i evs = 0 \<and> accepted_of i evs = 0 \<and> lost_of i evs = 0 \<and> dropped_of i evs = 0"

definition on_time :: "'r queue_ops \<Rightarrow> queue_event list \<Rightarrow> 'r list \<Rightarrow> bool" where
  "on_time q evs rows \<longleftrightarrow> (\<forall>i t. Accepted i t \<in> set evs \<longrightarrow> (\<exists>r \<in> set rows. qo_id q r = i \<and> qo_due q r \<le> t))"

definition queue_inv :: "'r queue_ops \<Rightarrow> int \<Rightarrow> 'r queue_world \<Rightarrow> bool" where
  "queue_inv q K w \<longleftrightarrow>
     distinct (map (qo_id q) (qw_rows w)) \<and> distinct (busy_ids q (qw_busy w)) \<and> leases_hold q (qw_now w) (qw_busy w) (qw_rows w)
     \<and> (\<forall>r \<in> set (qw_rows w). row_counts q K (sent_flag q (qw_busy w) (qo_id q r)) (qw_log w) r)
     \<and> (\<forall>i. i \<notin> qo_id q ` set (qw_rows w) \<longrightarrow> no_events i (qw_log w)) \<and> on_time q (qw_log w) (qw_rows w)"

lemma sent_flag_None: "sent_flag q busy i = None \<longleftrightarrow> i \<notin> set (busy_ids q busy)"
  by (induction busy) (auto simp: sent_flag_def busy_ids_def)

lemma sent_flag_Cons: "sent_flag q ((c, a) # busy) i = (if i = qo_id q c then Some a else sent_flag q busy i)"
  by (simp add: sent_flag_def)

lemma busy_ids_split: "busy_ids q (xs @ (c, a) # ys) = busy_ids q xs @ qo_id q c # busy_ids q ys" "busy_ids q (xs @ ys) = busy_ids q xs @ busy_ids q ys"
  by (simp_all add: busy_ids_def)

lemma sent_flag_split: "distinct (busy_ids q (xs @ (c, a) # ys)) \<Longrightarrow> sent_flag q (xs @ (c, b) # ys) i = (if i = qo_id q c then Some b else sent_flag q (xs @ ys) i)"
  by (induction xs) (auto simp: sent_flag_def busy_ids_def)

lemma sent_flag_removed: "distinct (busy_ids q (xs @ (c, a) # ys)) \<Longrightarrow> sent_flag q (xs @ ys) (qo_id q c) = None"
  by (auto simp: sent_flag_None busy_ids_def)

lemma row_counts_other:
  "e = Claimed j \<or> e = Lost j \<or> e = Reposted j \<or> e = Accepted j t \<Longrightarrow> j \<noteq> qo_id q r \<Longrightarrow> row_counts q K fl (evs @ [e]) r = row_counts q K fl evs r"
  by (auto simp: row_counts_def Let_def)

text \<open>An update of rows that keeps their ids and due times.\<close>

lemma ids_map: "(\<And>r. qo_id q (F r) = qo_id q r) \<Longrightarrow> map (qo_id q) (map F rows) = map (qo_id q) rows"
  by simp

lemma on_time_map:
  "on_time q evs rows \<Longrightarrow> (\<And>r. qo_id q (F r) = qo_id q r) \<Longrightarrow> (\<And>r. qo_due q (F r) = qo_due q r) \<Longrightarrow> on_time q evs (map F rows)"
  by (fastforce simp: on_time_def)

lemma queue_claim_cases:
  assumes "queue_claim q t locked leaseUntil rows = Some (c, rows')"
  shows "\<exists>r. r \<in> set rows \<and> claimable q t locked r \<and> c = qo_lease q leaseUntil r
    \<and> rows' = map (\<lambda>x. if qo_id q x = qo_id q r then qo_lease q leaseUntil x else x) rows"
proof -
  obtain r rs where r: "sort_key (qo_due q) (filter (claimable q t locked) rows) = r # rs" and c: "c = qo_lease q leaseUntil r"
    and rows': "rows' = map (\<lambda>x. if qo_id q x = qo_id q r then qo_lease q leaseUntil x else x) rows"
    using assms by (auto simp: queue_claim_def split: list.splits)
  have "r \<in> set (filter (claimable q t locked) rows)" using arg_cong [OF r, of set] by auto
  then show ?thesis using c rows' by auto
qed

subsection \<open>The laws of a queue\<close>

locale lease_queue =
  fixes q :: "'r queue_ops" and K :: int
  assumes lease_row: "qo_id q (qo_lease q t r) = qo_id q r" "qo_live q (qo_lease q t r) = qo_live q r" "qo_due q (qo_lease q t r) = qo_due q r"
      "qo_retry_at q (qo_lease q t r) = t" "qo_attempts q (qo_lease q t r) = qo_attempts q r + 1"
    and done_row: "qo_id q (qo_done q t r) = qo_id q r" "\<not> qo_live q (qo_done q t r)" "qo_due q (qo_done q t r) = qo_due q r" "qo_attempts q (qo_done q t r) = qo_attempts q r"
    and fail_row: "qo_id q (qo_fail q e r) = qo_id q r" "\<not> qo_live q (qo_fail q e r)" "qo_due q (qo_fail q e r) = qo_due q r" "qo_attempts q (qo_fail q e r) = qo_attempts q r"
    and retry_row: "qo_id q (qo_retry q t e r) = qo_id q r" "qo_live q (qo_retry q t e r) = qo_live q r" "qo_due q (qo_retry q t e r) = qo_due q r"
      "qo_attempts q (qo_retry q t e r) = qo_attempts q r"
    and budget: "0 < K"
begin

lemmas row_laws = lease_row done_row fail_row retry_row

lemma inv_empty: "queue_inv q K empty_world"
  by (simp add: queue_inv_def empty_world_def busy_ids_def leases_hold_def no_events_def on_time_def)

text \<open>Two claims of one row are never in flight together: a live row that is leased is not claimable.\<close>

lemma claimed_not_busy:
  assumes "queue_inv q K w" and "prompt q t w" and "r \<in> set (qw_rows w)" and "claimable q t locked r"
  shows "qo_id q r \<notin> set (busy_ids q (qw_busy w))"
proof
  assume "qo_id q r \<in> set (busy_ids q (qw_busy w))"
  then obtain b where b: "b \<in> set (qw_busy w)" "qo_id q r = qo_id q (fst b)" by (auto simp: busy_ids_def)
  then obtain r' where r': "r' \<in> set (qw_rows w)" "lease_held q (qw_now w) (fst b) r'"
    using assms(1) by (auto simp: queue_inv_def leases_hold_def)
  have "qo_id q r' = qo_id q r" using r' b by (simp add: lease_held_def)
  then have "r' = r" using assms(1,3) r'(1) by (auto simp: queue_inv_def distinct_map dest: inj_onD)
  then have "qo_retry_at q r = qo_retry_at q (fst b)" using r'(2) assms(4) by (simp add: lease_held_def claimable_def)
  moreover have "t < qo_retry_at q (fst b)" using assms(2) b(1) by (cases b) (auto simp: prompt_def)
  ultimately show False using assms(4) by (simp add: claimable_def)
qed

text \<open>What a step may do to the rows: keep ids, due times and their order; what it owes for each of them.\<close>

lemma inv_rows:
  assumes inv: "queue_inv q K w" and "prompt q t w"
    and F: "\<And>r. qo_id q (F r) = qo_id q r" "\<And>r. qo_due q (F r) = qo_due q r"
    and busy: "distinct (busy_ids q busy)" "\<And>b. b \<in> set busy \<Longrightarrow> \<exists>r \<in> set (qw_rows w). lease_held q t (fst b) (F r)"
    and rows: "\<And>r. r \<in> set (qw_rows w) \<Longrightarrow> row_counts q K (sent_flag q busy (qo_id q r)) evs (F r)"
    and evs: "\<And>i. i \<notin> qo_id q ` set (qw_rows w) \<Longrightarrow> no_events i (qw_log w) \<Longrightarrow> no_events i evs"
    and times: "\<And>i s. Accepted i s \<in> set evs \<Longrightarrow> Accepted i s \<in> set (qw_log w) \<or> (\<exists>r \<in> set (qw_rows w). qo_id q r = i \<and> qo_due q r \<le> s)"
  shows "queue_inv q K (w\<lparr>qw_rows := map F (qw_rows w), qw_busy := busy, qw_log := evs, qw_now := t\<rparr>)"
proof -
  have "on_time q evs (qw_rows w)" using inv times by (fastforce simp: queue_inv_def on_time_def)
  then have "on_time q evs (map F (qw_rows w))" by (rule on_time_map) (simp_all add: F)
  moreover have ids: "map (qo_id q) (map F (qw_rows w)) = map (qo_id q) (qw_rows w)" by (simp add: F)
  moreover have "qo_id q ` set (map F (qw_rows w)) = qo_id q ` set (qw_rows w)" using arg_cong [OF ids, of set] by (simp only: set_map)
  moreover have "leases_hold q t busy (map F (qw_rows w))" using busy(2) by (auto simp: leases_hold_def)
  moreover have "\<forall>r \<in> set (map F (qw_rows w)). row_counts q K (sent_flag q busy (qo_id q r)) evs r" using rows by (auto simp: F)
  ultimately show ?thesis using inv busy(1) evs unfolding queue_inv_def by (simp del: set_map map_map)
qed

lemma old_leases: "queue_inv q K w \<Longrightarrow> prompt q t w \<Longrightarrow> b \<in> set (qw_busy w) \<Longrightarrow> \<exists>r \<in> set (qw_rows w). lease_held q t (fst b) r"
  unfolding queue_inv_def leases_hold_def prompt_def lease_held_def by (metis order_trans)

lemma old_counts: "queue_inv q K w \<Longrightarrow> r \<in> set (qw_rows w) \<Longrightarrow> row_counts q K (sent_flag q (qw_busy w) (qo_id q r)) (qw_log w) r"
  by (simp add: queue_inv_def)

lemma same_row: "queue_inv q K w \<Longrightarrow> r \<in> set (qw_rows w) \<Longrightarrow> r' \<in> set (qw_rows w) \<Longrightarrow> qo_id q r = qo_id q r' \<Longrightarrow> r = r'"
  by (auto simp: queue_inv_def distinct_map dest: inj_onD)

lemma inv_add:
  assumes inv: "queue_inv q K w" and t: "prompt q t w" and fresh: "qo_id q r \<notin> qo_id q ` set (qw_rows w)" and r: "qo_live q r" "qo_attempts q r = 0"
  shows "queue_inv q K (w\<lparr>qw_rows := qw_rows w @ [r], qw_now := t\<rparr>)"
proof -
  have "qo_id q r \<notin> set (busy_ids q (qw_busy w))"
    using old_leases [OF inv t] fresh by (force simp: busy_ids_def lease_held_def image_iff)
  then have "sent_flag q (qw_busy w) (qo_id q r) = None" by (simp add: sent_flag_None)
  moreover have "no_events (qo_id q r) (qw_log w)" using inv fresh by (simp add: queue_inv_def)
  ultimately have "row_counts q K (sent_flag q (qw_busy w) (qo_id q r)) (qw_log w) r" using r budget by (simp add: row_counts_def no_events_def)
  moreover have "leases_hold q t (qw_busy w) (qw_rows w @ [r])" using old_leases [OF inv t] by (auto simp: leases_hold_def)
  moreover have "on_time q (qw_log w) (qw_rows w @ [r])" using inv by (auto simp: queue_inv_def on_time_def)
  ultimately show ?thesis using inv fresh by (simp add: queue_inv_def)
qed

lemma inv_withdraw:
  assumes inv: "queue_inv q K w" and t: "prompt q t w"
    and f: "\<And>r. P r \<Longrightarrow> qo_id q (f r) = qo_id q r \<and> qo_attempts q (f r) = qo_attempts q r \<and> qo_due q (f r) = qo_due q r \<and> \<not> qo_live q (f r)"
  shows "queue_inv q K (w\<lparr>qw_rows := map (\<lambda>r. if P r then f r else r) (qw_rows w), qw_now := t\<rparr>)"
proof -
  let ?F = "\<lambda>r. if P r then f r else r"
  have "lease_held q t c (?F r)" if "lease_held q t c r" for c r using that f by (auto simp: lease_held_def)
  then have leases: "\<exists>r \<in> set (qw_rows w). lease_held q t (fst b) (?F r)" if "b \<in> set (qw_busy w)" for b using old_leases [OF inv t that] by blast
  have counts: "row_counts q K (sent_flag q (qw_busy w) (qo_id q r)) (qw_log w) (?F r)" if "r \<in> set (qw_rows w)" for r
    using old_counts [OF inv that] f [of r] by (auto simp: row_counts_def Let_def split: if_splits)
  have "queue_inv q K (w\<lparr>qw_rows := map ?F (qw_rows w), qw_busy := qw_busy w, qw_log := qw_log w, qw_now := t\<rparr>)"
    by (rule inv_rows [OF inv t]) (use f leases counts inv in \<open>auto simp: queue_inv_def\<close>)
  then show ?thesis by simp
qed

lemma inv_claim:
  assumes inv: "queue_inv q K w" and t: "prompt q t w" and claim: "queue_claim q t locked leaseUntil (qw_rows w) = Some (c, rows)"
  shows "queue_inv q K (w\<lparr>qw_rows := rows, qw_busy := (c, False) # qw_busy w, qw_log := qw_log w @ [Claimed (qo_id q c)], qw_now := t\<rparr>)"
proof -
  obtain r where r: "r \<in> set (qw_rows w)" "claimable q t locked r" "c = qo_lease q leaseUntil r"
    and rows: "rows = map (\<lambda>x. if qo_id q x = qo_id q r then qo_lease q leaseUntil x else x) (qw_rows w)"
    using queue_claim_cases [OF claim] by blast
  let ?F = "\<lambda>x. if qo_id q x = qo_id q r then qo_lease q leaseUntil x else x"
  have c: "qo_id q c = qo_id q r" by (simp add: r row_laws)
  have free: "qo_id q r \<notin> set (busy_ids q (qw_busy w))" by (rule claimed_not_busy [OF inv t r(1,2)])
  have mine: "lease_held q t c (?F r)" using r by (simp add: lease_held_def row_laws claimable_def)
  have others: "lease_held q t (fst b) (?F x)" if "b \<in> set (qw_busy w)" "lease_held q t (fst b) x" for b x
    using that free by (auto simp: lease_held_def busy_ids_def image_iff)
  show ?thesis
    unfolding rows
  proof (rule inv_rows [OF inv t])
    show "distinct (busy_ids q ((c, False) # qw_busy w))" using inv free c by (simp add: queue_inv_def busy_ids_def)
  next
    fix b assume "b \<in> set ((c, False) # qw_busy w)"
    then consider "b = (c, False)" | "b \<in> set (qw_busy w)" by auto
    then show "\<exists>x \<in> set (qw_rows w). lease_held q t (fst b) (?F x)"
    proof cases
      case 1
      then show ?thesis using r(1) mine by (intro bexI [of _ r]) simp_all
    next
      case 2
      then show ?thesis using others old_leases [OF inv t 2] by blast
    qed
  next
    fix x assume x: "x \<in> set (qw_rows w)"
    show "row_counts q K (sent_flag q ((c, False) # qw_busy w) (qo_id q x)) (qw_log w @ [Claimed (qo_id q c)]) (?F x)"
    proof (cases "qo_id q x = qo_id q r")
      case True
      then have "x = r" using same_row [OF inv x r(1)] by simp
      then show ?thesis
        using old_counts [OF inv r(1)] free r(2) by (auto simp: row_counts_def sent_flag_None [symmetric] sent_flag_Cons c row_laws claimable_def Let_def)
    next
      case False
      then show ?thesis using old_counts [OF inv x] c by (simp add: row_counts_other [of "Claimed (qo_id q r)" "qo_id q r"] sent_flag_Cons)
    qed
  next
    fix i assume "i \<notin> qo_id q ` set (qw_rows w)" "no_events i (qw_log w)"
    then show "no_events i (qw_log w @ [Claimed (qo_id q c)])" using r(1) c by (auto simp: no_events_def)
  qed (auto simp: row_laws)
qed

lemma busy_row:
  assumes "queue_inv q K w" and "prompt q t w" and "qw_busy w = xs @ (c, a) # ys"
  obtains r where "r \<in> set (qw_rows w)" "lease_held q t c r" "row_counts q K (Some a) (qw_log w) r"
proof -
  obtain r where r: "r \<in> set (qw_rows w)" "lease_held q t c r" using old_leases [OF assms(1,2), of "(c, a)"] assms(3) by auto
  have "distinct (busy_ids q (xs @ (c, a) # ys))" using assms(1,3) by (simp add: queue_inv_def)
  then have "sent_flag q (qw_busy w) (qo_id q r) = Some a" using r(2) assms(3) sent_flag_split [of q xs c a ys a] by (simp add: lease_held_def)
  then show thesis using that r old_counts [OF assms(1) r(1)] by simp
qed

text \<open>
  The end of a claim in flight: its row is updated by \<open>g\<close> if it is still live, and the log may note a lost outcome. The row
  then has to be within its counts as one that nobody works on.
\<close>

lemma inv_settle:
  assumes inv: "queue_inv q K w" and t: "prompt q t w" and busy: "qw_busy w = xs @ (c, a) # ys"
    and g: "\<And>r. qo_id q (g r) = qo_id q r \<and> qo_due q (g r) = qo_due q r \<and> qo_attempts q (g r) = qo_attempts q r"
    and evs: "evs = [] \<or> evs = [Lost (qo_id q c)]"
    and counts: "\<And>r. lease_held q t c r \<Longrightarrow> row_counts q K (Some a) (qw_log w) r \<Longrightarrow> row_counts q K None (qw_log w @ evs) (if qo_live q r then g r else r)"
  shows "queue_inv q K (w\<lparr>qw_rows := guarded q (qo_id q c) g (qw_rows w), qw_busy := xs @ ys, qw_log := qw_log w @ evs, qw_now := t\<rparr>)"
proof -
  let ?F = "\<lambda>r. if qo_id q r = qo_id q c \<and> qo_live q r then g r else r"
  have ids: "distinct (busy_ids q (xs @ (c, a) # ys))" using inv busy by (simp add: queue_inv_def)
  obtain r0 where r0: "r0 \<in> set (qw_rows w)" "lease_held q t c r0" "row_counts q K (Some a) (qw_log w) r0" by (rule busy_row [OF inv t busy])
  show ?thesis
    unfolding guarded_def
  proof (rule inv_rows [OF inv t])
    show "distinct (busy_ids q (xs @ ys))" using ids by (simp add: busy_ids_def)
  next
    fix b assume b: "b \<in> set (xs @ ys)"
    then obtain r where r: "r \<in> set (qw_rows w)" "lease_held q t (fst b) r" using old_leases [OF inv t, of b] busy by auto
    have "qo_id q (fst b) \<noteq> qo_id q c" using ids b by (force simp: busy_ids_def image_iff)
    then have "?F r = r" using r(2) by (auto simp: lease_held_def)
    then show "\<exists>r \<in> set (qw_rows w). lease_held q t (fst b) (?F r)" using r by (intro bexI [of _ r]) simp_all
  next
    fix r assume r: "r \<in> set (qw_rows w)"
    show "row_counts q K (sent_flag q (xs @ ys) (qo_id q r)) (qw_log w @ evs) (?F r)"
    proof (cases "qo_id q r = qo_id q c")
      case True
      then have "r = r0" using same_row [OF inv r r0(1)] r0(2) by (simp add: lease_held_def)
      then show ?thesis using counts [OF r0(2,3)] True sent_flag_removed [OF ids] by (cases "qo_live q r0") simp_all
    next
      case False
      then show ?thesis
        using old_counts [OF inv r] busy sent_flag_split [OF ids, of a] evs row_counts_other [of "Lost (qo_id q c)" "qo_id q c" t q r] by auto
    qed
  next
    fix i assume "i \<notin> qo_id q ` set (qw_rows w)" "no_events i (qw_log w)"
    moreover from this have "i \<noteq> qo_id q c" using r0 by (force simp: lease_held_def image_iff)
    ultimately show "no_events i (qw_log w @ evs)" using evs by (auto simp: no_events_def)
  qed (use g evs in auto)
qed

lemma inv_done:
  assumes "queue_inv q K w" and "prompt q t w" and "qw_busy w = xs @ (c, True) # ys"
  shows "queue_inv q K (w\<lparr>qw_rows := guarded q (qo_id q c) (qo_done q at') (qw_rows w), qw_busy := xs @ ys, qw_now := t\<rparr>)"
  using inv_settle [OF assms, of "qo_done q at'" "[]"] by (simp add: row_laws row_counts_def Let_def split: if_splits)

lemma inv_failure:
  assumes "queue_inv q K w" and "prompt q t w" and "qw_busy w = xs @ (c, a) # ys"
  shows "queue_inv q K (w\<lparr>qw_rows := queue_failed q K backoff now e c (qw_rows w), qw_busy := xs @ ys,
    qw_log := qw_log w @ (if a then [Lost (qo_id q c)] else []), qw_now := t\<rparr>)"
  unfolding queue_failed_def
  by (rule inv_settle [OF assms]) (use budget in \<open>auto simp: row_laws row_counts_def Let_def lease_held_def split: if_splits\<close>)

lemma inv_lose:
  assumes "queue_inv q K w" and "prompt q t w" and "qw_busy w = xs @ (c, a) # ys"
  shows "queue_inv q K (w\<lparr>qw_busy := xs @ ys, qw_log := qw_log w @ [Lost (qo_id q c)], qw_now := t\<rparr>)"
proof -
  have "guarded q (qo_id q c) (\<lambda>r. r) (qw_rows w) = qw_rows w" by (simp add: guarded_def)
  then show ?thesis
    using inv_settle [OF assms, of "\<lambda>r. r" "[Lost (qo_id q c)]"] by (auto simp: row_counts_def Let_def lease_held_def split: if_splits)
qed

lemma inv_accept:
  assumes inv: "queue_inv q K w" and t: "prompt q t w" and busy: "qw_busy w = xs @ (c, False) # ys"
  shows "queue_inv q K (w\<lparr>qw_busy := xs @ (c, True) # ys, qw_log := qw_log w @ [Accepted (qo_id q c) t], qw_now := t\<rparr>)"
proof -
  have ids: "distinct (busy_ids q (xs @ (c, False) # ys))" using inv busy by (simp add: queue_inv_def)
  obtain r0 where r0: "r0 \<in> set (qw_rows w)" "lease_held q t c r0" by (rule busy_row [OF inv t busy])
  have "queue_inv q K (w\<lparr>qw_rows := map (\<lambda>r. r) (qw_rows w), qw_busy := xs @ (c, True) # ys, qw_log := qw_log w @ [Accepted (qo_id q c) t], qw_now := t\<rparr>)"
  proof (rule inv_rows [OF inv t])
    show "distinct (busy_ids q (xs @ (c, True) # ys))" using ids by (simp add: busy_ids_def)
  next
    fix b assume "b \<in> set (xs @ (c, True) # ys)"
    then show "\<exists>r \<in> set (qw_rows w). lease_held q t (fst b) r" using old_leases [OF inv t, of b] old_leases [OF inv t, of "(c, False)"] busy by auto
  next
    fix r assume r: "r \<in> set (qw_rows w)"
    show "row_counts q K (sent_flag q (xs @ (c, True) # ys) (qo_id q r)) (qw_log w @ [Accepted (qo_id q c) t]) r"
      using old_counts [OF inv r] busy sent_flag_split [OF ids, of True "qo_id q r"] sent_flag_split [OF ids, of False "qo_id q r"]
      by (auto simp: row_counts_def Let_def)
  next
    fix i assume "i \<notin> qo_id q ` set (qw_rows w)" "no_events i (qw_log w)"
    moreover from this have "i \<noteq> qo_id q c" using r0 by (force simp: lease_held_def image_iff)
    ultimately show "no_events i (qw_log w @ [Accepted (qo_id q c) t])" by (simp add: no_events_def)
  next
    fix i s assume "Accepted i s \<in> set (qw_log w @ [Accepted (qo_id q c) t])"
    then show "Accepted i s \<in> set (qw_log w) \<or> (\<exists>r \<in> set (qw_rows w). qo_id q r = i \<and> qo_due q r \<le> s)" using r0 by (auto simp: lease_held_def)
  qed auto
  then show ?thesis by simp
qed

lemma inv_repost:
  assumes inv: "queue_inv q K w" and t: "prompt q t w" and busy: "qw_busy w = xs @ (c, True) # ys"
  shows "queue_inv q K (w\<lparr>qw_log := qw_log w @ [Reposted (qo_id q c), Accepted (qo_id q c) t], qw_now := t\<rparr>)"
    (is "queue_inv q K (w\<lparr>qw_log := ?evs, qw_now := t\<rparr>)")
proof -
  have ids: "distinct (busy_ids q (xs @ (c, True) # ys))" using inv busy by (simp add: queue_inv_def)
  obtain r0 where r0: "r0 \<in> set (qw_rows w)" "lease_held q t c r0" by (rule busy_row [OF inv t busy])
  have "queue_inv q K (w\<lparr>qw_rows := map (\<lambda>r. r) (qw_rows w), qw_busy := qw_busy w, qw_log := ?evs, qw_now := t\<rparr>)"
  proof (rule inv_rows [OF inv t])
    fix r assume r: "r \<in> set (qw_rows w)"
    show "row_counts q K (sent_flag q (qw_busy w) (qo_id q r)) ?evs r"
      using old_counts [OF inv r] busy sent_flag_split [OF ids, of True "qo_id q r"] by (auto simp: row_counts_def Let_def)
  next
    fix i assume "i \<notin> qo_id q ` set (qw_rows w)" "no_events i (qw_log w)"
    moreover from this have "i \<noteq> qo_id q c" using r0 by (force simp: lease_held_def image_iff)
    ultimately show "no_events i ?evs" by (simp add: no_events_def)
  next
    fix i s assume "Accepted i s \<in> set ?evs"
    then show "Accepted i s \<in> set (qw_log w) \<or> (\<exists>r \<in> set (qw_rows w). qo_id q r = i \<and> qo_due q r \<le> s)" using r0 by (auto simp: lease_held_def)
  qed (use inv old_leases [OF inv t] in \<open>auto simp: queue_inv_def\<close>)
  then show ?thesis by simp
qed

lemma inv_step: "queue_step q K backoff w w' \<Longrightarrow> queue_inv q K w \<Longrightarrow> queue_inv q K w'"
proof (induction rule: queue_step.induct)
  case (withdraw t w P f)
  then show ?case by (intro inv_withdraw) simp_all
qed (rule inv_add inv_claim inv_accept inv_repost inv_done inv_failure inv_lose; assumption)+

lemma inv_reachable: "(queue_step q K backoff)\<^sup>*\<^sup>* empty_world w \<Longrightarrow> queue_inv q K w"
  by (induction rule: rtranclp_induct) (auto intro: inv_empty inv_step)

text \<open>What the invariant says of every run.\<close>

lemma run_counts:
  assumes "(queue_step q K backoff)\<^sup>*\<^sup>* empty_world w"
  shows "accepted_of i (qw_log w) \<le> lost_of i (qw_log w) + 1" and "int (claims_of i (qw_log w)) \<le> K + int (dropped_of i (qw_log w))"
    and "distinct (busy_ids q (qw_busy w))" and "Accepted i t \<in> set (qw_log w) \<Longrightarrow> \<exists>r \<in> set (qw_rows w). qo_id q r = i \<and> qo_due q r \<le> t"
proof -
  have inv: "queue_inv q K w" by (rule inv_reachable [OF assms])
  have "accepted_of i (qw_log w) \<le> lost_of i (qw_log w) + 1 \<and> int (claims_of i (qw_log w)) \<le> K + int (dropped_of i (qw_log w))"
  proof (cases "i \<in> qo_id q ` set (qw_rows w)")
    case True
    then obtain r where "r \<in> set (qw_rows w)" "i = qo_id q r" by auto
    then show ?thesis using old_counts [OF inv] by (force simp: row_counts_def Let_def split: if_splits)
  next
    case False
    then show ?thesis using inv budget by (simp add: queue_inv_def no_events_def)
  qed
  then show "accepted_of i (qw_log w) \<le> lost_of i (qw_log w) + 1" "int (claims_of i (qw_log w)) \<le> K + int (dropped_of i (qw_log w))" by simp_all
  show "distinct (busy_ids q (qw_busy w))" using inv by (simp add: queue_inv_def)
  show "Accepted i t \<in> set (qw_log w) \<Longrightarrow> \<exists>r \<in> set (qw_rows w). qo_id q r = i \<and> qo_due q r \<le> t" using inv by (simp add: queue_inv_def on_time_def)
qed

text \<open>A live row that nobody works on was carried out only where an outcome was lost.\<close>

lemma live_unsent:
  assumes "(queue_step q K backoff)\<^sup>*\<^sup>* empty_world w" and "r \<in> set (qw_rows w)" and "qo_live q r" and "qo_id q r \<notin> set (busy_ids q (qw_busy w))"
  shows "accepted_of (qo_id q r) (qw_log w) \<le> lost_of (qo_id q r) (qw_log w)"
  using old_counts [OF inv_reachable [OF assms(1)] assms(2)] assms(3,4) by (simp add: row_counts_def sent_flag_None [symmetric] Let_def)

text \<open>A row that is not live and that nobody works on stays so, and is not called for any more.\<close>

definition at_rest :: "string \<Rightarrow> 'r queue_world \<Rightarrow> bool" where
  "at_rest i w \<longleftrightarrow> (\<exists>r \<in> set (qw_rows w). qo_id q r = i) \<and> (\<forall>r \<in> set (qw_rows w). qo_id q r = i \<longrightarrow> \<not> qo_live q r) \<and> i \<notin> set (busy_ids q (qw_busy w))"

lemma at_rest_step: "queue_step q K backoff w w' \<Longrightarrow> at_rest i w \<Longrightarrow> at_rest i w' \<and> accepted_of i (qw_log w') = accepted_of i (qw_log w)"
proof (induction rule: queue_step.induct)
  case (claim t w locked leaseUntil c rows)
  obtain r where r: "r \<in> set (qw_rows w)" "claimable q t locked r" "c = qo_lease q leaseUntil r"
    and rows: "rows = map (\<lambda>x. if qo_id q x = qo_id q r then qo_lease q leaseUntil x else x) (qw_rows w)"
    using queue_claim_cases [OF claim.hyps(2)] by blast
  then have "qo_id q r \<noteq> i" using claim.prems by (auto simp: at_rest_def claimable_def)
  then show ?case using claim.prems by (auto simp: at_rest_def rows r(3) row_laws busy_ids_def)
next
  case (withdraw t w P f)
  let ?F = "\<lambda>r. if P r then f r else r"
  obtain r where r: "r \<in> set (qw_rows w)" "qo_id q r = i" using withdraw.prems unfolding at_rest_def by blast
  have keep: "qo_id q (?F x) = qo_id q x" "qo_id q x = i \<longrightarrow> x \<in> set (qw_rows w) \<longrightarrow> \<not> qo_live q (?F x)" for x
    using withdraw.hyps(2) [of x] withdraw.prems unfolding at_rest_def by (cases "P x"; simp)+
  have "\<exists>x \<in> set (map ?F (qw_rows w)). qo_id q x = i" using r keep(1) by (intro bexI [of _ "?F r"]) simp_all
  moreover have "\<forall>x \<in> set (map ?F (qw_rows w)). qo_id q x = i \<longrightarrow> \<not> qo_live q x" using keep unfolding set_map by (metis (no_types, lifting) imageE)
  ultimately show ?case using withdraw.prems unfolding at_rest_def by simp
next
  case (record_failure t w xs c a ys now e)
  then show ?case by (auto simp: at_rest_def queue_failed_def guarded_def busy_ids_def row_laws)
qed (auto simp: at_rest_def guarded_def busy_ids_def row_laws)

text \<open>Rows are added and updated, never removed.\<close>

lemma step_rows:
  "queue_step q K backoff w w' \<Longrightarrow> (\<exists>r. qw_rows w' = qw_rows w @ [r]) \<or> (\<exists>F. (\<forall>r. qo_id q (F r) = qo_id q r) \<and> qw_rows w' = map F (qw_rows w))"
proof (induction rule: queue_step.induct)
  case (withdraw t w P f)
  then show ?case by (intro disjI2 exI [of _ "\<lambda>r. if P r then f r else r"]) simp
next
  case (claim t w locked leaseUntil c rows)
  then obtain r where "rows = map (\<lambda>x. if qo_id q x = qo_id q r then qo_lease q leaseUntil x else x) (qw_rows w)" using queue_claim_cases [OF claim(2)] by blast
  then show ?case by (intro disjI2 exI [of _ "\<lambda>x. if qo_id q x = qo_id q r then qo_lease q leaseUntil x else x"]) (simp add: row_laws)
next
  case (record_done t w xs c ys at')
  show ?case
    by (intro disjI2 exI [of _ "\<lambda>r. if qo_id q r = qo_id q c \<and> qo_live q r then qo_done q at' r else r"]) (simp add: guarded_def row_laws)
next
  case (record_failure t w xs c a ys now e)
  let ?g = "if qo_attempts q c \<ge> K then qo_fail q e else qo_retry q (now + backoff (qo_attempts q c)) e"
  show ?case
    by (intro disjI2 exI [of _ "\<lambda>r. if qo_id q r = qo_id q c \<and> qo_live q r then ?g r else r"]) (simp add: queue_failed_def guarded_def row_laws)
qed (auto intro: exI [of _ "\<lambda>r. r"])

lemma step_ids: "queue_step q K backoff w w' \<Longrightarrow> qo_id q ` set (qw_rows w) \<subseteq> qo_id q ` set (qw_rows w')"
  using step_rows [of backoff w w'] by (auto simp: image_image)

lemma at_rest_run: "(queue_step q K backoff)\<^sup>*\<^sup>* w w' \<Longrightarrow> at_rest i w \<Longrightarrow> accepted_of i (qw_log w') = accepted_of i (qw_log w)"
proof (induction rule: rtranclp_induct)
  case (step y z)
  have "at_rest i y" using step.hyps(1) step.prems by (induction rule: rtranclp_induct) (auto dest: at_rest_step)
  then show ?case using step at_rest_step by fastforce
qed simp

end

end
