(* ===== verification/ScheduledSend.thy ===== *)
theory ScheduledSend
  imports Jmap LeaseQueue
begin

text \<open>
  Scheduled sends (\<^verbatim>\<open>internal/scheduledsend\<close>): the table with its service (\<^verbatim>\<open>service.go\<close>), the dispatch worker (\<^verbatim>\<open>worker.go\<close>) and
  the REST handlers (\<^verbatim>\<open>handlers.go\<close>).

  The table is the list of its rows, with \<open>queue_pg\<close> for the rest of the database. \<open>dbnow\<close> is the clock of the database and \<open>now\<close> that of the process, both read in whole
  microseconds as a \<^verbatim>\<open>timestamptz\<close> keeps them, while the \<open>send_at\<close> of a client loses its nanoseconds in the column; \<open>fault\<close> is an error of a statement, which then changes nothing. The column
  \<^verbatim>\<open>updated_at\<close>, which nothing reads, is left out.
\<close>

record ScheduledSend =
  ss_ID :: string
  ss_TenantID :: string
  ss_KChatUserID :: string
  ss_StalwartAccountID :: string
  ss_EmailID :: string
  ss_IdentityID :: string
  ss_SubmissionPayload :: string
  ss_SendAt :: time
  ss_Status :: string
  ss_Attempts :: int
  ss_LastError :: string
  ss_NextRetryAt :: time
  ss_SentAt :: "time option"
  ss_CreatedAt :: time

datatype send_error =
    SendNotFound | AlreadyDispatched | AlreadyCancelled | InvalidSchedule string | SendTenantMismatch
  | SendRequired string | SendDb string | UnexpectedStatus string

record ScheduleInput =
  in_TenantID :: string
  in_KChatUserID :: string
  in_StalwartAccountID :: string
  in_EmailID :: string
  in_IdentityID :: string
  in_SubmissionPayload :: string
  in_SendAt :: time

definition MinScheduleHorizon :: duration where "MinScheduleHorizon = 60 * nanos_per_s"
definition MaxScheduleHorizon :: duration where "MaxScheduleHorizon = 365 * 24 * nanos_per_hour"
definition DispatchLeaseInterval :: duration where "DispatchLeaseInterval = 300 * nanos_per_s"
definition DefaultMaxAttempts :: int where "DefaultMaxAttempts = 5"

text \<open>The zero \<^verbatim>\<open>time.Time\<close>, the first of January of year 1.\<close>

definition zero_time :: time where "zero_time = - 62135596800 * nanos_per_s"

subsection \<open>Service\<close>

definition validateSchedule :: "time \<Rightarrow> ScheduleInput \<Rightarrow> send_error option" where
  "validateSchedule now inp =
     (if trim_space (in_TenantID inp) = [] then Some (SendRequired ''TenantID'')
      else if trim_space (in_KChatUserID inp) = [] then Some (SendRequired ''KChatUserID'')
      else if trim_space (in_StalwartAccountID inp) = [] then Some (SendRequired ''StalwartAccountID'')
      else if trim_space (in_EmailID inp) = [] then Some (SendRequired ''EmailID'')
      else if trim_space (in_IdentityID inp) = [] then Some (SendRequired ''IdentityID'')
      else if in_SubmissionPayload inp = [] then Some (SendRequired ''SubmissionPayload'')
      else if in_SendAt inp = zero_time then Some (InvalidSchedule ''send_at is zero'')
      else let horizon = time_Sub (in_SendAt inp) now in
        if horizon < MinScheduleHorizon then Some (InvalidSchedule ''send_at must be at least 1m0s in the future'')
        else if horizon > MaxScheduleHorizon then Some (InvalidSchedule ''send_at must be within 8760h0m0s'')
        else None)"

definition Schedule :: "queue_pg \<Rightarrow> string option \<Rightarrow> string \<Rightarrow> time \<Rightarrow> time \<Rightarrow> ScheduleInput \<Rightarrow> ScheduledSend list \<Rightarrow> ScheduledSend list \<times> (send_error + ScheduledSend)" where
  "Schedule pg fault nid dbnow now inp rows =
     (case validateSchedule now inp of
        Some e \<Rightarrow> (rows, Inl e)
      | None \<Rightarrow>
          (case (fault, sp_uuid pg (in_TenantID inp), sp_jsonb pg (in_SubmissionPayload inp)) of
             (None, Some tid, Some doc) \<Rightarrow>
               if \<not> sp_tenant pg tid then (rows, Inl (SendDb ''scheduled_sends_tenant_id_fkey''))
               else if list_ex (\<lambda>r. ss_ID r = nid) rows then (rows, Inl (SendDb ''scheduled_sends_pkey''))
               else let r = \<lparr>ss_ID = nid, ss_TenantID = tid, ss_KChatUserID = in_KChatUserID inp, ss_StalwartAccountID = in_StalwartAccountID inp,
                      ss_EmailID = in_EmailID inp, ss_IdentityID = in_IdentityID inp, ss_SubmissionPayload = doc, ss_SendAt = column_time (in_SendAt inp), ss_Status = ''pending'',
                      ss_Attempts = 0, ss_LastError = [], ss_NextRetryAt = column_time (in_SendAt inp), ss_SentAt = None, ss_CreatedAt = dbnow\<rparr>
                 in (rows @ [r], Inr r)
           | (Some e, _, _) \<Rightarrow> (rows, Inl (SendDb e))
           | _ \<Rightarrow> (rows, Inl (SendDb ''invalid input syntax''))))"

definition Get :: "queue_pg \<Rightarrow> string option \<Rightarrow> string \<Rightarrow> string \<Rightarrow> string \<Rightarrow> ScheduledSend list \<Rightarrow> send_error + ScheduledSend" where
  "Get pg fault tenantID kchatUserID i rows =
     (if trim_space tenantID = [] then Inl (SendRequired ''tenantID'')
      else if trim_space kchatUserID = [] then Inl (SendRequired ''kchatUserID'')
      else if trim_space i = [] then Inl SendNotFound
      else case (fault, sp_uuid pg tenantID, sp_uuid pg i) of
          (None, Some tid, Some rid) \<Rightarrow>
            (case find (\<lambda>r. ss_ID r = rid \<and> ss_TenantID r = tid \<and> ss_KChatUserID r = kchatUserID) rows of
               None \<Rightarrow> Inl SendNotFound
             | Some r \<Rightarrow> if ss_TenantID r \<noteq> tenantID then Inl SendTenantMismatch else Inr r)
        | (Some e, _, _) \<Rightarrow> Inl (SendDb e)
        | _ \<Rightarrow> Inl (SendDb ''invalid input syntax for type uuid''))"

definition ListByUser :: "queue_pg \<Rightarrow> string option \<Rightarrow> string \<Rightarrow> string \<Rightarrow> ScheduledSend list \<Rightarrow> send_error + ScheduledSend list" where
  "ListByUser pg fault tenantID kchatUserID rows =
     (if trim_space tenantID = [] then Inl (SendRequired ''tenantID'')
      else if trim_space kchatUserID = [] then Inl (SendRequired ''kchatUserID'')
      else case (fault, sp_uuid pg tenantID) of
          (None, Some tid) \<Rightarrow>
            Inr (take 500 (sort_key (\<lambda>r. - ss_CreatedAt r) (filter (\<lambda>r. ss_TenantID r = tid \<and> ss_KChatUserID r = kchatUserID) rows)))
        | (Some e, _) \<Rightarrow> Inl (SendDb e)
        | _ \<Rightarrow> Inl (SendDb ''invalid input syntax for type uuid''))"

text \<open>The guarded update, then the re-read that tells why it found no row; an error rolls the transaction back.\<close>

definition Cancel :: "queue_pg \<Rightarrow> string option \<Rightarrow> string \<Rightarrow> string \<Rightarrow> string \<Rightarrow> ScheduledSend list \<Rightarrow> ScheduledSend list \<times> send_error option" where
  "Cancel pg fault tenantID kchatUserID i rows =
     (if trim_space tenantID = [] then (rows, Some (SendRequired ''tenantID''))
      else if trim_space kchatUserID = [] then (rows, Some (SendRequired ''kchatUserID''))
      else if trim_space i = [] then (rows, Some SendNotFound)
      else case (fault, sp_uuid pg tenantID, sp_uuid pg i) of
          (None, Some tid, Some rid) \<Rightarrow>
            let P = (\<lambda>r. ss_ID r = rid \<and> ss_TenantID r = tid \<and> ss_KChatUserID r = kchatUserID \<and> ss_Status r = ''pending'') in
            if length (filter P rows) = 1 then (map (\<lambda>r. if P r then r\<lparr>ss_Status := ''cancelled''\<rparr> else r) rows, None)
            else (rows, Some (case find (\<lambda>r. ss_ID r = rid) rows of
                None \<Rightarrow> SendNotFound
              | Some r \<Rightarrow>
                  if ss_TenantID r \<noteq> tenantID then SendTenantMismatch
                  else if ss_KChatUserID r \<noteq> kchatUserID then SendNotFound
                  else if ss_Status r = ''cancelled'' then AlreadyCancelled
                  else if ss_Status r = ''sent'' \<or> ss_Status r = ''failed'' then AlreadyDispatched
                  else UnexpectedStatus (ss_Status r)))
        | (Some e, _, _) \<Rightarrow> (rows, Some (SendDb e))
        | _ \<Rightarrow> (rows, Some (SendDb ''invalid input syntax for type uuid'')))"

text \<open>\<open>locked\<close> are the rows that claims of other replicas lock; rows due at the same instant are taken in the order of the list.\<close>

definition claimDue :: "string option \<Rightarrow> time \<Rightarrow> string list \<Rightarrow> time \<Rightarrow> ScheduledSend list \<Rightarrow> ScheduledSend list \<times> (send_error + ScheduledSend)" where
  "claimDue fault dbnow locked now rows =
     (case fault of
        Some e \<Rightarrow> (rows, Inl (SendDb e))
      | None \<Rightarrow>
          let leaseUntil = now + DispatchLeaseInterval in
          (case sort_key ss_SendAt (filter (\<lambda>r. ss_Status r = ''pending'' \<and> ss_SendAt r \<le> dbnow \<and> ss_NextRetryAt r \<le> dbnow \<and> ss_ID r \<notin> set locked) rows) of
             [] \<Rightarrow> (rows, Inl SendNotFound)
           | r # _ \<Rightarrow> (map (\<lambda>x. if ss_ID x = ss_ID r then x\<lparr>ss_Attempts := ss_Attempts x + 1, ss_NextRetryAt := leaseUntil\<rparr> else x) rows,
                       Inr (r\<lparr>ss_Attempts := ss_Attempts r + 1, ss_NextRetryAt := leaseUntil\<rparr>))))"

definition on_pending :: "string option \<Rightarrow> string \<Rightarrow> (ScheduledSend \<Rightarrow> ScheduledSend) \<Rightarrow> ScheduledSend list \<Rightarrow> ScheduledSend list" where
  "on_pending fault i f rows =
     (case fault of Some _ \<Rightarrow> rows | None \<Rightarrow> map (\<lambda>r. if ss_ID r = i \<and> ss_Status r = ''pending'' then f r else r) rows)"

definition markDispatched :: "string option \<Rightarrow> string \<Rightarrow> time \<Rightarrow> ScheduledSend list \<Rightarrow> ScheduledSend list" where
  "markDispatched fault i sentAt = on_pending fault i (\<lambda>r. r\<lparr>ss_Status := ''sent'', ss_SentAt := Some sentAt, ss_LastError := []\<rparr>)"

definition markFailed :: "string option \<Rightarrow> string \<Rightarrow> string \<Rightarrow> ScheduledSend list \<Rightarrow> ScheduledSend list" where
  "markFailed fault i lastErr = on_pending fault i (\<lambda>r. r\<lparr>ss_Status := ''failed'', ss_LastError := lastErr\<rparr>)"

definition scheduleRetry :: "string option \<Rightarrow> string \<Rightarrow> time \<Rightarrow> string \<Rightarrow> ScheduledSend list \<Rightarrow> ScheduledSend list" where
  "scheduleRetry fault i nextRetryAt lastErr = on_pending fault i (\<lambda>r. r\<lparr>ss_NextRetryAt := nextRetryAt, ss_LastError := lastErr\<rparr>)"

subsection \<open>Worker\<close>

text \<open>
  \<open>dw_Dispatch\<close> is the internal client (\<open>Jmap.Dispatch\<close> in production), \<open>dw_unmarshal\<close> the JSON decoder, \<open>dw_text\<close> the text of
  a client error. The errors of recording an outcome are logged and dropped.
\<close>

record 's send_worker =
  dw_Dispatch :: "string \<Rightarrow> string \<Rightarrow> JmapRequest \<Rightarrow> 's \<Rightarrow> 's \<times> (jmap_error + JmapResponse)"
  dw_unmarshal :: "string \<Rightarrow> json option"
  dw_text :: "jmap_error \<Rightarrow> string"
  dw_interval :: duration
  dw_maxBatch :: int
  dw_maxAttempts :: int

record 's send_worker_config =
  wc_store :: bool
  wc_internal :: "(string \<Rightarrow> string \<Rightarrow> JmapRequest \<Rightarrow> 's \<Rightarrow> 's \<times> (jmap_error + JmapResponse)) option"
  wc_interval :: duration
  wc_maxBatch :: int
  wc_maxAttempts :: int

definition newDispatchWorkerWithStore :: "(string \<Rightarrow> json option) \<Rightarrow> (jmap_error \<Rightarrow> string) \<Rightarrow> 's send_worker_config \<Rightarrow> 's send_worker option" where
  "newDispatchWorkerWithStore unmarshal txt cfg =
     (if \<not> wc_store cfg then None
      else case wc_internal cfg of
          None \<Rightarrow> None
        | Some d \<Rightarrow> Some \<lparr>dw_Dispatch = d, dw_unmarshal = unmarshal, dw_text = txt,
            dw_interval = (if wc_interval cfg \<le> 0 then 15 * nanos_per_s else wc_interval cfg),
            dw_maxBatch = (if wc_maxBatch cfg \<le> 0 then 50 else wc_maxBatch cfg),
            dw_maxAttempts = (if wc_maxAttempts cfg \<le> 0 then DefaultMaxAttempts else wc_maxAttempts cfg)\<rparr>)"

datatype dispatch_error =
    EmptyPayload | DecodePayload | NilPayload | ClientFailed jmap_error | MethodErr MethodError | MissingCall | Rejected string string string

text \<open>A payload \<^verbatim>\<open>null\<close> leaves the map nil and the assignment to it panics.\<close>

definition buildSubmissionCreate :: "(string \<Rightarrow> json option) \<Rightarrow> ScheduledSend \<Rightarrow> dispatch_error + (string \<times> json) list" where
  "buildSubmissionCreate unmarshal ss =
     (if ss_SubmissionPayload ss = [] then Inl EmptyPayload
      else case unmarshal (ss_SubmissionPayload ss) of
          Some (JObject payload) \<Rightarrow>
            let p1 = set_field ''emailId'' (JString (ss_EmailID ss)) payload
            in Inr (if trim_space (ss_IdentityID ss) \<noteq> [] then set_field ''identityId'' (JString (ss_IdentityID ss)) p1 else p1)
        | Some JNull \<Rightarrow> Inl NilPayload
        | _ \<Rightarrow> Inl DecodePayload)"

definition submissionCreateKey :: "ScheduledSend \<Rightarrow> string" where
  "submissionCreateKey ss = ''submission''"

definition submission_request :: "ScheduledSend \<Rightarrow> (string \<times> json) list \<Rightarrow> JmapRequest" where
  "submission_request ss create =
     \<lparr>jq_Using = [''urn:ietf:params:jmap:core'', ''urn:ietf:params:jmap:mail'', ''urn:ietf:params:jmap:submission''],
      jq_MethodCalls = [[JString ''EmailSubmission/set'',
        JObject [(''accountId'', JString (ss_StalwartAccountID ss)), (''create'', JObject [(submissionCreateKey ss, JObject create)]),
          (''onSuccessDestroyEmail'', JArray [JString (''#'' @ submissionCreateKey ss)])],
        JString ''0'']],
      jq_CreatedIds = []\<rparr>"

definition submission_result :: "JmapResponse \<Rightarrow> dispatch_error option" where
  "submission_result resp =
     (case FirstCallError resp of
        Some e \<Rightarrow> Some (MethodErr e)
      | None \<Rightarrow>
          (case CallByID resp ''0'' of
             None \<Rightarrow> Some MissingCall
           | Some (name, args) \<Rightarrow>
               if name \<noteq> ''EmailSubmission/set'' then Some MissingCall
               else (case as_object (field args ''notCreated'') of
                   [] \<Rightarrow> None
                 | (k, v) # _ \<Rightarrow> Some (Rejected k (as_string (field (as_object v) ''type'')) (as_string (field (as_object v) ''description''))))))"

definition dispatch :: "'s send_worker \<Rightarrow> ScheduledSend \<Rightarrow> 's \<Rightarrow> 's \<times> dispatch_error option" where
  "dispatch w ss s =
     (case buildSubmissionCreate (dw_unmarshal w) ss of
        Inl e \<Rightarrow> (s, Some e)
      | Inr create \<Rightarrow>
          (case dw_Dispatch w (ss_TenantID ss) (ss_KChatUserID ss) (submission_request ss create) s of
             (s', Inl e) \<Rightarrow> (s', Some (ClientFailed e))
           | (s', Inr resp) \<Rightarrow> (s', submission_result resp)))"

fun dispatch_text :: "(jmap_error \<Rightarrow> string) \<Rightarrow> dispatch_error \<Rightarrow> string" where
  "dispatch_text txt EmptyPayload = ''build submission create: scheduledsend: empty submission payload''"
| "dispatch_text txt DecodePayload = ''build submission create: decode submission payload''"
| "dispatch_text txt NilPayload = []"
| "dispatch_text txt (ClientFailed e) = txt e"
| "dispatch_text txt (MethodErr e) = MethodError_text e"
| "dispatch_text txt MissingCall = ''scheduledsend: missing EmailSubmission/set in response''"
| "dispatch_text txt (Rejected k t d) = ''stalwart rejected submission '' @ k @ '': '' @ t @ '': '' @ d"

definition backoffs :: "duration list" where
  "backoffs = [60 * nanos_per_s, 300 * nanos_per_s, 1800 * nanos_per_s, 1800 * nanos_per_s, 1800 * nanos_per_s]"

definition backoff_of :: "int \<Rightarrow> duration" where
  "backoff_of attempts =
     (let idx = attempts - 1; idx1 = (if idx < 0 then 0 else idx); idx2 = (if idx1 \<ge> int (length backoffs) then int (length backoffs) - 1 else idx1)
      in backoffs ! nat idx2)"

definition handleErr :: "'s send_worker \<Rightarrow> string option \<Rightarrow> time \<Rightarrow> ScheduledSend \<Rightarrow> dispatch_error \<Rightarrow> ScheduledSend list \<Rightarrow> ScheduledSend list" where
  "handleErr w fault now ss e rows =
     (if ss_Attempts ss \<ge> dw_maxAttempts w then markFailed fault (ss_ID ss) (dispatch_text (dw_text w) e) rows
      else scheduleRetry fault (ss_ID ss) (now + backoff_of (ss_Attempts ss)) (dispatch_text (dw_text w) e) rows)"

text \<open>
  One turn of the worker. \<open>sv_others\<close> is what other processes do to the table while the call to Stalwart is under way. The result
  \<open>Inl None\<close> is the panic.
\<close>

record send_turn =
  sv_dbnow :: time
  sv_locked :: "string list"
  sv_claim_now :: time
  sv_claim_fault :: "string option"
  sv_others :: "ScheduledSend list \<Rightarrow> ScheduledSend list"
  sv_end :: time
  sv_record_fault :: "string option"

definition dispatchOne :: "'s send_worker \<Rightarrow> send_turn \<Rightarrow> ScheduledSend list \<Rightarrow> 's \<Rightarrow> ScheduledSend list \<times> 's \<times> (send_error option + bool)" where
  "dispatchOne w ev rows s =
     (case claimDue (sv_claim_fault ev) (sv_dbnow ev) (sv_locked ev) (sv_claim_now ev) rows of
        (rows1, Inl SendNotFound) \<Rightarrow> (rows1, s, Inr False)
      | (rows1, Inl e) \<Rightarrow> (rows1, s, Inl (Some e))
      | (rows1, Inr ss) \<Rightarrow>
          (case dispatch w ss s of
             (s1, Some NilPayload) \<Rightarrow> (sv_others ev rows1, s1, Inl None)
           | (s1, Some e) \<Rightarrow> (handleErr w (sv_record_fault ev) (sv_end ev) ss e (sv_others ev rows1), s1, Inr True)
           | (s1, None) \<Rightarrow> (markDispatched (sv_record_fault ev) (ss_ID ss) (sv_end ev) (sv_others ev rows1), s1, Inr True)))"

fun Tick_loop :: "'s send_worker \<Rightarrow> nat \<Rightarrow> (nat \<Rightarrow> send_turn) \<Rightarrow> ScheduledSend list \<Rightarrow> 's \<Rightarrow> ScheduledSend list \<times> 's" where
  "Tick_loop w 0 evs rows s = (rows, s)"
| "Tick_loop w (Suc n) evs rows s =
     (case dispatchOne w (evs 0) rows s of
        (rows1, s1, Inr True) \<Rightarrow> Tick_loop w n (\<lambda>k. evs (Suc k)) rows1 s1
      | (rows1, s1, _) \<Rightarrow> (rows1, s1))"

definition send_Tick :: "'s send_worker \<Rightarrow> (nat \<Rightarrow> send_turn) \<Rightarrow> ScheduledSend list \<Rightarrow> 's \<Rightarrow> ScheduledSend list \<times> 's" where
  "send_Tick w evs rows s = Tick_loop w (nat (dw_maxBatch w)) evs rows s"

subsection \<open>Handlers\<close>

record responsePayload =
  rp_ID :: string
  rp_Status :: string
  rp_EmailID :: string
  rp_IdentityID :: string
  rp_StalwartAccountID :: string
  rp_SendAt :: string
  rp_Attempts :: int
  rp_LastError :: string
  rp_SentAt :: "string option"
  rp_CreatedAt :: string

datatype send_body = SendFailure string | SendList "responsePayload list" | SendRow responsePayload | CancelReply bool "string option"

definition toResponse :: "ScheduledSend \<Rightarrow> responsePayload" where
  "toResponse ss =
     \<lparr>rp_ID = ss_ID ss, rp_Status = ss_Status ss, rp_EmailID = ss_EmailID ss, rp_IdentityID = ss_IdentityID ss, rp_StalwartAccountID = ss_StalwartAccountID ss,
      rp_SendAt = format_rfc3339 (ss_SendAt ss), rp_Attempts = ss_Attempts ss, rp_LastError = ss_LastError ss,
      rp_SentAt = map_option format_rfc3339 (ss_SentAt ss), rp_CreatedAt = format_rfc3339 (ss_CreatedAt ss)\<rparr>"

definition toResponses :: "ScheduledSend list \<Rightarrow> responsePayload list" where
  "toResponses rows = map toResponse rows"

text \<open>\<open>tenantID\<close> and \<open>kchatUserID\<close> are those of the authenticated request, empty where it has none.\<close>

definition list_sends :: "queue_pg \<Rightarrow> string option \<Rightarrow> string \<Rightarrow> string \<Rightarrow> ScheduledSend list \<Rightarrow> int \<times> send_body" where
  "list_sends pg fault tenantID kchatUserID rows =
     (if tenantID = [] \<or> kchatUserID = [] then (500, SendFailure ''missing auth context'')
      else case ListByUser pg fault tenantID kchatUserID rows of
          Inl e \<Rightarrow> (500, SendFailure ''internal error'')
        | Inr rs \<Rightarrow> (200, SendList (toResponses rs)))"

definition get_send :: "queue_pg \<Rightarrow> string option \<Rightarrow> string \<Rightarrow> string \<Rightarrow> string \<Rightarrow> ScheduledSend list \<Rightarrow> int \<times> send_body" where
  "get_send pg fault tenantID kchatUserID pathID rows =
     (if tenantID = [] \<or> kchatUserID = [] then (500, SendFailure ''missing auth context'')
      else let i = trim_space pathID in
        if i = [] then (400, SendFailure ''missing id'')
        else case Get pg fault tenantID kchatUserID i rows of
            Inr ss \<Rightarrow> (200, SendRow (toResponse ss))
          | Inl SendNotFound \<Rightarrow> (404, SendFailure ''not found'')
          | Inl SendTenantMismatch \<Rightarrow> (404, SendFailure ''not found'')
          | Inl _ \<Rightarrow> (500, SendFailure ''internal error''))"

definition cancel_send :: "queue_pg \<Rightarrow> string option \<Rightarrow> string \<Rightarrow> string \<Rightarrow> string \<Rightarrow> ScheduledSend list \<Rightarrow> ScheduledSend list \<times> int \<times> send_body" where
  "cancel_send pg fault tenantID kchatUserID pathID rows =
     (if tenantID = [] \<or> kchatUserID = [] then (rows, 500, SendFailure ''missing auth context'')
      else let i = trim_space pathID in
        if i = [] then (rows, 400, SendFailure ''missing id'')
        else case Cancel pg fault tenantID kchatUserID i rows of
            (rows', None) \<Rightarrow> (rows', 200, CancelReply True None)
          | (rows', Some AlreadyDispatched) \<Rightarrow> (rows', 410, CancelReply False (Some ''already sent''))
          | (rows', Some AlreadyCancelled) \<Rightarrow> (rows', 200, CancelReply True None)
          | (rows', Some SendTenantMismatch) \<Rightarrow> (rows', 404, SendFailure ''not found'')
          | (rows', Some SendNotFound) \<Rightarrow> (rows', 404, SendFailure ''not found'')
          | (rows', Some _) \<Rightarrow> (rows', 500, SendFailure ''internal error''))"

end
