(* ===== verification/ScheduledSendRuns.thy ===== *)
theory ScheduledSendRuns
  imports ScheduledSend
begin

text \<open>
  Runs of the scheduled-send queue: users who schedule and cancel, any number of worker replicas, calls to Stalwart that
  outlive their claim transaction, crashes and failed updates, in every order. Each step is a call of the service and a step of
  the queue of \<open>LeaseQueue\<close>, whose laws then hold for every run.
\<close>

definition sends_queue :: "ScheduledSend queue_ops" where
  "sends_queue =
     \<lparr>qo_id = ss_ID, qo_live = (\<lambda>r. ss_Status r = ''pending''), qo_due = ss_SendAt, qo_retry_at = ss_NextRetryAt, qo_attempts = ss_Attempts,
      qo_lease = (\<lambda>t r. r\<lparr>ss_Attempts := ss_Attempts r + 1, ss_NextRetryAt := t\<rparr>),
      qo_done = (\<lambda>t r. r\<lparr>ss_Status := ''sent'', ss_SentAt := Some t, ss_LastError := []\<rparr>),
      qo_fail = (\<lambda>e r. r\<lparr>ss_Status := ''failed'', ss_LastError := e\<rparr>),
      qo_retry = (\<lambda>t e r. r\<lparr>ss_NextRetryAt := t, ss_LastError := e\<rparr>)\<rparr>"

lemma sends_queue_simps [simp]:
  "qo_id sends_queue = ss_ID" "qo_live sends_queue r = (ss_Status r = ''pending'')" "qo_due sends_queue = ss_SendAt"
  "qo_retry_at sends_queue = ss_NextRetryAt" "qo_attempts sends_queue = ss_Attempts"
  by (simp_all add: sends_queue_def)

interpretation sends: lease_queue sends_queue "max 1 K" for K
  by unfold_locales (simp_all add: sends_queue_def)

subsection \<open>Steps\<close>

text \<open>
  \<open>deliver\<close> is a submission that Stalwart carries out, at once or when the worker no longer waits for it; a worker sees a success only
  after it (\<open>succeed\<close>), and may see an error before or after it (\<open>fail\<close>). \<open>redeliver\<close> is the failover of \<^verbatim>\<open>InternalClient.Dispatch\<close>: the
  same submission posted to the next shard although an earlier post of this dispatch is carried out, and carried out again. A failed
  update leaves the outcome unrecorded, which the log notes as lost. Every step is \<open>prompt\<close>: no dispatch outlives its lease.
\<close>

inductive send_step :: "queue_pg \<Rightarrow> 's send_worker \<Rightarrow> ScheduledSend queue_world \<Rightarrow> ScheduledSend queue_world \<Rightarrow> bool"
  for pg :: queue_pg and w :: "'s send_worker" where
  schedule: "prompt sends_queue t x \<Longrightarrow> send_step pg w x (x\<lparr>qw_rows := fst (Schedule pg fault nid t now inp (qw_rows x)), qw_now := t\<rparr>)"
| cancel: "prompt sends_queue t x \<Longrightarrow> send_step pg w x (x\<lparr>qw_rows := fst (Cancel pg fault tenantID kchatUserID i (qw_rows x)), qw_now := t\<rparr>)"
| claim: "prompt sends_queue t x \<Longrightarrow> claimDue fault t locked now (qw_rows x) = (rows, Inr c)
    \<Longrightarrow> send_step pg w x (x\<lparr>qw_rows := rows, qw_busy := (c, False) # qw_busy x, qw_log := qw_log x @ [Claimed (ss_ID c)], qw_now := t\<rparr>)"
| deliver: "prompt sends_queue t x \<Longrightarrow> qw_busy x = xs @ (c, False) # ys
    \<Longrightarrow> send_step pg w x (x\<lparr>qw_busy := xs @ (c, True) # ys, qw_log := qw_log x @ [Accepted (ss_ID c) t], qw_now := t\<rparr>)"
| redeliver: "prompt sends_queue t x \<Longrightarrow> qw_busy x = xs @ (c, True) # ys
    \<Longrightarrow> send_step pg w x (x\<lparr>qw_log := qw_log x @ [Reposted (ss_ID c), Accepted (ss_ID c) t], qw_now := t\<rparr>)"
| succeed: "prompt sends_queue t x \<Longrightarrow> qw_busy x = xs @ (c, True) # ys
    \<Longrightarrow> send_step pg w x (x\<lparr>qw_rows := markDispatched fault (ss_ID c) now (qw_rows x), qw_busy := xs @ ys,
          qw_log := qw_log x @ (if fault = None then [] else [Lost (ss_ID c)]), qw_now := t\<rparr>)"
| fail: "prompt sends_queue t x \<Longrightarrow> qw_busy x = xs @ (c, a) # ys
    \<Longrightarrow> send_step pg w x (x\<lparr>qw_rows := handleErr w fault now c e (qw_rows x), qw_busy := xs @ ys,
          qw_log := qw_log x @ (if a \<or> fault \<noteq> None then [Lost (ss_ID c)] else []), qw_now := t\<rparr>)"
| crash: "prompt sends_queue t x \<Longrightarrow> qw_busy x = xs @ (c, a) # ys
    \<Longrightarrow> send_step pg w x (x\<lparr>qw_busy := xs @ ys, qw_log := qw_log x @ [Lost (ss_ID c)], qw_now := t\<rparr>)"

lemma keep_rows: "prompt sends_queue t x \<Longrightarrow> queue_step sends_queue K b x (x\<lparr>qw_now := t\<rparr>)"
  using queue_step.withdraw [of sends_queue t x "\<lambda>_. False" id K b] by simp

lemma Schedule_cases:
  "fst (Schedule pg fault nid t now inp rows) = rows
   \<or> (\<exists>r. fst (Schedule pg fault nid t now inp rows) = rows @ [r] \<and> ss_ID r \<notin> ss_ID ` set rows \<and> ss_Status r = ''pending'' \<and> ss_Attempts r = 0)"
  by (auto simp: Schedule_def Let_def list_ex_iff split: option.splits)

definition cancels :: "queue_pg \<Rightarrow> string \<Rightarrow> string \<Rightarrow> string \<Rightarrow> ScheduledSend \<Rightarrow> bool" where
  "cancels pg tenantID kchatUserID i r \<longleftrightarrow>
     Some (ss_ID r) = sp_uuid pg i \<and> Some (ss_TenantID r) = sp_uuid pg tenantID \<and> ss_KChatUserID r = kchatUserID \<and> ss_Status r = ''pending''"

lemma Cancel_cases:
  "fst (Cancel pg fault tid u i rows) = rows
   \<or> fst (Cancel pg fault tid u i rows) = map (\<lambda>r. if cancels pg tid u i r then r\<lparr>ss_Status := ''cancelled''\<rparr> else r) rows"
  by (simp add: Cancel_def cancels_def Let_def split: option.split)

lemma claimDue_queue:
  "claimDue fault t locked now rows = (rows', Inr c) \<Longrightarrow> queue_claim sends_queue t locked (now + DispatchLeaseInterval) rows = Some (c, rows')"
  by (auto simp: claimDue_def queue_claim_def claimable_def [abs_def] sends_queue_def Let_def split: option.splits list.splits)

lemma markDispatched_guarded: "markDispatched None i t rows = guarded sends_queue i (qo_done sends_queue t) rows"
  by (simp add: markDispatched_def on_pending_def guarded_def sends_queue_def)

lemma handleErr_failed: "handleErr w None now c e rows = queue_failed sends_queue (dw_maxAttempts w) backoff_of now (dispatch_text (dw_text w) e) c rows"
  by (simp add: handleErr_def markFailed_def scheduleRetry_def on_pending_def queue_failed_def guarded_def sends_queue_def)

lemma record_fault: "markDispatched (Some f) i t rows = rows" "handleErr w (Some f) now c e rows = rows"
  by (simp_all add: markDispatched_def handleErr_def markFailed_def scheduleRetry_def on_pending_def)

text \<open>The refinement: what the service and the worker do is what the queue may do.\<close>

lemma send_step_queue: "send_step pg w x y \<Longrightarrow> queue_step sends_queue (dw_maxAttempts w) backoff_of x y"
proof (induction rule: send_step.induct)
  case (schedule t x fault nid now inp)
  consider "fst (Schedule pg fault nid t now inp (qw_rows x)) = qw_rows x"
    | r where "fst (Schedule pg fault nid t now inp (qw_rows x)) = qw_rows x @ [r]" "ss_ID r \<notin> ss_ID ` set (qw_rows x)" "ss_Status r = ''pending''" "ss_Attempts r = 0"
    using Schedule_cases by blast
  then show ?case
  proof cases
    case 1
    then show ?thesis using keep_rows [OF schedule] by simp
  next
    case 2
    then show ?thesis using queue_step.add [OF schedule, of r] by simp
  qed
next
  case (cancel t x fault tenantID kchatUserID i)
  show ?case
    using Cancel_cases [of pg fault tenantID kchatUserID i "qw_rows x"] keep_rows [OF cancel]
      queue_step.withdraw [OF cancel, of "cancels pg tenantID kchatUserID i" "\<lambda>r. r\<lparr>ss_Status := ''cancelled''\<rparr>"] by auto
next
  case (claim t x fault locked now rows c)
  then show ?case using queue_step.claim [OF claim.hyps(1) claimDue_queue] by simp
next
  case (deliver t x xs c ys)
  then show ?case using queue_step.accept [OF deliver] by simp
next
  case (redeliver t x xs c ys)
  then show ?case using queue_step.repost [OF redeliver] by simp
next
  case (succeed t x xs c ys fault now)
  then show ?case
    using queue_step.record_done [OF succeed, of _ _ now] queue_step.lose [OF succeed] by (cases fault) (simp_all add: markDispatched_guarded record_fault)
next
  case (fail t x xs c a ys fault now e)
  show ?case
    using queue_step.record_failure [OF fail, of "dw_maxAttempts w" backoff_of now "dispatch_text (dw_text w) e"] queue_step.lose [OF fail]
    by (cases fault; cases a) (simp_all add: handleErr_failed record_fault)
next
  case (crash t x xs c a ys)
  then show ?case using queue_step.lose [OF crash] by simp
qed

lemma send_run_queue: "(send_step pg w)\<^sup>*\<^sup>* x y \<Longrightarrow> (queue_step sends_queue (dw_maxAttempts w) backoff_of)\<^sup>*\<^sup>* x y"
  by (induction rule: rtranclp_induct) (auto dest: send_step_queue intro: rtranclp.rtrancl_into_rtrancl)

lemma worker_budget: "newDispatchWorkerWithStore um txt cfg = Some w \<Longrightarrow> max 1 (dw_maxAttempts w) = dw_maxAttempts w"
  by (auto simp: newDispatchWorkerWithStore_def DefaultMaxAttempts_def split: if_splits option.splits)

subsection \<open>One turn of a worker\<close>

text \<open>Without other processes in between, a turn of \<open>dispatchOne\<close> is a run of steps that leaves no claim behind.\<close>

lemma dispatchOne_run:
  assumes turn: "dispatchOne w ev rows s = (rows', s', Inr again)" and x: "qw_rows x = rows"
    and t: "prompt sends_queue (sv_dbnow ev) x" "sv_dbnow ev < sv_claim_now ev + DispatchLeaseInterval" and alone: "sv_others ev = id"
  shows "\<exists>y. (send_step pg w)\<^sup>*\<^sup>* x y \<and> qw_rows y = rows' \<and> qw_busy y = qw_busy x"
proof (cases "snd (claimDue (sv_claim_fault ev) (sv_dbnow ev) (sv_locked ev) (sv_claim_now ev) rows)")
  case (Inl e)
  then have "rows' = rows" using turn by (cases e) (auto simp: dispatchOne_def claimDue_def Let_def split: option.splits list.splits)
  then show ?thesis using x by auto
next
  case (Inr c)
  then obtain rows1 where claim: "claimDue (sv_claim_fault ev) (sv_dbnow ev) (sv_locked ev) (sv_claim_now ev) rows = (rows1, Inr c)" by (metis prod.collapse)
  let ?y = "x\<lparr>qw_rows := rows1, qw_busy := (c, False) # qw_busy x, qw_log := qw_log x @ [Claimed (ss_ID c)], qw_now := sv_dbnow ev\<rparr>"
  have y: "send_step pg w x ?y" using send_step.claim [OF t(1)] claim x by simp
  have "ss_NextRetryAt c = sv_claim_now ev + DispatchLeaseInterval" using claim by (auto simp: claimDue_def Let_def split: option.splits list.splits)
  then have prompt: "prompt sends_queue (sv_dbnow ev) ?y" using t by (simp add: prompt_def)
  obtain s1 res where d: "dispatch w c s = (s1, res)" by (cases "dispatch w c s")
  show ?thesis
  proof (cases res)
    case (Some e)
    then have "rows' = handleErr w (sv_record_fault ev) (sv_end ev) c e rows1"
      using turn claim d alone by (cases e) (simp_all add: dispatchOne_def)
    moreover have "\<exists>u. send_step pg w ?y u \<and> qw_rows u = handleErr w (sv_record_fault ev) (sv_end ev) c e rows1 \<and> qw_busy u = qw_busy x"
      using send_step.fail [OF prompt, of "[]" c False "qw_busy x" pg w "sv_record_fault ev" "sv_end ev" e] by fastforce
    ultimately show ?thesis using y by (meson converse_rtranclp_into_rtranclp r_into_rtranclp)
  next
    case None
    let ?z = "?y\<lparr>qw_busy := (c, True) # qw_busy x, qw_log := qw_log ?y @ [Accepted (ss_ID c) (sv_dbnow ev)], qw_now := sv_dbnow ev\<rparr>"
    have z: "send_step pg w ?y ?z" using send_step.deliver [OF prompt, of "[]" c "qw_busy x"] by simp
    have "prompt sends_queue (sv_dbnow ev) ?z" using prompt by (simp add: prompt_def)
    from send_step.succeed [OF this, of "[]" c "qw_busy x" pg w "sv_record_fault ev" "sv_end ev"]
    have "\<exists>u. send_step pg w ?z u \<and> qw_rows u = markDispatched (sv_record_fault ev) (ss_ID c) (sv_end ev) rows1 \<and> qw_busy u = qw_busy x" by fastforce
    moreover have "rows' = markDispatched (sv_record_fault ev) (ss_ID c) (sv_end ev) rows1" using turn claim d alone None by (simp add: dispatchOne_def)
    ultimately show ?thesis using y z by (meson converse_rtranclp_into_rtranclp r_into_rtranclp)
  qed
qed

subsection \<open>A tick\<close>

text \<open>A turn in which nothing fails in the database and no other process interferes, at the database time \<open>t\<close>.\<close>

definition quiet :: "time \<Rightarrow> send_turn \<Rightarrow> bool" where
  "quiet t ev \<longleftrightarrow> sv_dbnow ev = t \<and> sv_locked ev = [] \<and> sv_claim_fault ev = None \<and> sv_record_fault ev = None \<and> sv_others ev = id
     \<and> t < sv_claim_now ev + DispatchLeaseInterval \<and> t < sv_end ev + 60 * nanos_per_s"

definition decodes :: "'s send_worker \<Rightarrow> ScheduledSend \<Rightarrow> bool" where
  "decodes w r \<longleftrightarrow> (case dw_unmarshal w (ss_SubmissionPayload r) of Some JNull \<Rightarrow> False | _ \<Rightarrow> True)"

lemma backoff_of_min: "60 * nanos_per_s \<le> backoff_of a"
proof -
  have all: "\<forall>k < length backoffs. 60 * nanos_per_s \<le> backoffs ! k" by (simp add: backoffs_def nth_Cons')
  have "\<exists>k < length backoffs. backoff_of a = backoffs ! k"
    by (rule exI [of _ "nat (min 4 (max 0 (a - 1)))"]) (auto simp: backoff_of_def backoffs_def Let_def min_def max_def)
  then show ?thesis using all by auto
qed

lemma dispatch_decodes: "decodes w r \<Longrightarrow> ss_SubmissionPayload c = ss_SubmissionPayload r \<Longrightarrow> snd (dispatch w c s) \<noteq> Some NilPayload"
  by (auto simp: decodes_def dispatch_def buildSubmissionCreate_def submission_result_def Let_def
      split: option.splits json.splits sum.splits prod.splits list.splits if_splits)

lemma filter_update_less:
  assumes "distinct (map f rows)" and "r \<in> set rows" and "C r" and "\<And>x. f x \<noteq> f r \<Longrightarrow> F x = x" and "\<not> C (F r)"
  shows "length (filter C (map F rows)) < length (filter C rows)"
  using assms(1,2)
proof (induction rows)
  case (Cons a rows)
  show ?case
  proof (cases "a = r")
    case True
    then have "map F rows = rows" using Cons.prems(1) assms(4) by (intro map_idI) (metis True distinct.simps(2) imageI list.set_map list.simps(9))
    then show ?thesis using True assms(3,5) by simp
  next
    case False
    then have "r \<in> set rows" "f a \<noteq> f r" using Cons.prems by auto
    then show ?thesis using Cons assms(4) by simp
  qed
qed simp

lemma dispatchOne_claimed:
  assumes "claimDue (sv_claim_fault ev) (sv_dbnow ev) (sv_locked ev) (sv_claim_now ev) rows = (rows1, Inr ss)" and "dispatch w ss s = (s1, res)" and "res \<noteq> Some NilPayload"
  shows "dispatchOne w ev rows s =
    (case res of None \<Rightarrow> markDispatched (sv_record_fault ev) (ss_ID ss) (sv_end ev) (sv_others ev rows1)
       | Some e \<Rightarrow> handleErr w (sv_record_fault ev) (sv_end ev) ss e (sv_others ev rows1), s1, Inr True)"
  using assms(3) by (cases res; cases "the res") (simp_all add: dispatchOne_def assms(1,2))

text \<open>A quiet turn finds nothing due, or leaves fewer rows due than before.\<close>

lemma quiet_turn:
  assumes ev: "quiet t ev" and ids: "distinct (map ss_ID rows)" and dec: "\<forall>r \<in> set rows. decodes w r"
    and due: "filter (claimable sends_queue t []) rows \<noteq> []"
  shows "\<exists>F s1. dispatchOne w ev rows s = (map F rows, s1, Inr True) \<and> (\<forall>x. ss_ID (F x) = ss_ID x \<and> ss_SubmissionPayload (F x) = ss_SubmissionPayload x)
    \<and> length (filter (claimable sends_queue t []) (map F rows)) < length (filter (claimable sends_queue t []) rows)"
proof -
  let ?lease = "sv_claim_now ev + DispatchLeaseInterval"
  let ?L = "\<lambda>r :: ScheduledSend. r\<lparr>ss_Attempts := ss_Attempts r + 1, ss_NextRetryAt := ?lease\<rparr>"
  have C: "claimable sends_queue t [] = (\<lambda>r. ss_Status r = ''pending'' \<and> ss_SendAt r \<le> t \<and> ss_NextRetryAt r \<le> t)" by (auto simp: claimable_def)
  obtain r rs where sort: "sort_key ss_SendAt (filter (claimable sends_queue t []) rows) = r # rs" using due by (metis length_sort length_0_conv neq_Nil_conv)
  then have r: "r \<in> set rows" "claimable sends_queue t [] r" by (metis (no_types, lifting) filter_set list.set_intros(1) set_sort mem_Collect_eq set_filter)+
  have claim: "claimDue (sv_claim_fault ev) (sv_dbnow ev) (sv_locked ev) (sv_claim_now ev) rows = (map (\<lambda>x. if ss_ID x = ss_ID r then ?L x else x) rows, Inr (?L r))"
    using ev sort by (simp add: claimDue_def quiet_def C Let_def)
  obtain s1 res where d: "dispatch w (?L r) s = (s1, res)" by (cases "dispatch w (?L r) s")
  have "res \<noteq> Some NilPayload" using dispatch_decodes [of w r "?L r" s] dec r(1) d by simp
  define G where "G = (case res of None \<Rightarrow> (\<lambda>x :: ScheduledSend. x\<lparr>ss_Status := ''sent'', ss_SentAt := Some (sv_end ev), ss_LastError := []\<rparr>)
    | Some e \<Rightarrow> if ss_Attempts r + 1 \<ge> dw_maxAttempts w then (\<lambda>x. x\<lparr>ss_Status := ''failed'', ss_LastError := dispatch_text (dw_text w) e\<rparr>)
        else (\<lambda>x. x\<lparr>ss_NextRetryAt := sv_end ev + backoff_of (ss_Attempts r + 1), ss_LastError := dispatch_text (dw_text w) e\<rparr>))"
  define F where "F = (\<lambda>x :: ScheduledSend. if ss_ID x = ss_ID r then (if ss_Status x = ''pending'' then G (?L x) else ?L x) else x)"
  have "dispatchOne w ev rows s = (map F rows, s1, Inr True)"
    using ev unfolding dispatchOne_claimed [OF claim d \<open>res \<noteq> Some NilPayload\<close>]
    by (cases res) (auto simp: quiet_def markDispatched_def handleErr_def markFailed_def scheduleRetry_def on_pending_def F_def G_def)
  moreover have keep: "ss_ID (F x) = ss_ID x \<and> ss_SubmissionPayload (F x) = ss_SubmissionPayload x" for x
    by (simp add: F_def G_def split: option.splits)
  moreover have "\<not> claimable sends_queue t [] (F r)"
    using ev r(2) backoff_of_min [of "ss_Attempts r + 1"] by (auto simp: F_def G_def C quiet_def split: option.splits)
  then have "length (filter (claimable sends_queue t []) (map F rows)) < length (filter (claimable sends_queue t []) rows)"
    by (intro filter_update_less [where f = ss_ID and r = r, OF ids r(1)] r(2)) (simp_all add: F_def)
  ultimately show ?thesis by blast
qed

lemma nothing_due:
  "quiet t ev \<Longrightarrow> filter (claimable sends_queue t []) rows = [] \<Longrightarrow> dispatchOne w ev rows s = (rows, s, Inr False)"
  by (simp add: dispatchOne_def claimDue_def quiet_def claimable_def [abs_def] Let_def)

lemma Tick_loop_drains:
  assumes "\<And>k. quiet t (evs k)" and "distinct (map ss_ID rows)" and "\<forall>r \<in> set rows. decodes w r" and "length (filter (claimable sends_queue t []) rows) \<le> n"
  shows "filter (claimable sends_queue t []) (fst (Tick_loop w n evs rows s)) = []"
  using assms
proof (induction n arbitrary: evs rows s)
  case (Suc n)
  show ?case
  proof (cases "filter (claimable sends_queue t []) rows = []")
    case True
    then have "dispatchOne w (evs 0) rows s = (rows, s, Inr False)" using Suc.prems(1) True by (intro nothing_due)
    then show ?thesis using True by simp
  next
    case False
    obtain F s1 where turn: "dispatchOne w (evs 0) rows s = (map F rows, s1, Inr True)" and F: "\<And>x. ss_ID (F x) = ss_ID x \<and> ss_SubmissionPayload (F x) = ss_SubmissionPayload x"
      and less: "length (filter (claimable sends_queue t []) (map F rows)) < length (filter (claimable sends_queue t []) rows)"
      using quiet_turn [OF Suc.prems(1) Suc.prems(2,3) False] by blast
    have ids: "distinct (map ss_ID (map F rows))" using Suc.prems(2) F by (simp add: comp_def)
    have dec: "\<forall>r \<in> set (map F rows). decodes w r" using Suc.prems(3) F by (simp add: decodes_def)
    have n: "length (filter (claimable sends_queue t []) (map F rows)) \<le> n" using less Suc.prems(4) by simp
    have "filter (claimable sends_queue t []) (fst (Tick_loop w n (\<lambda>k. evs (Suc k)) (map F rows) s1)) = []"
      by (rule Suc.IH [OF Suc.prems(1) ids dec n])
    then show ?thesis by (simp add: turn)
  qed
qed simp

subsection \<open>Properties\<close>

definition ex_pg :: queue_pg where
  "ex_pg = \<lparr>sp_uuid = Some, sp_jsonb = Some, sp_tenant = (\<lambda>_. True)\<rparr>"

definition ex_worker_config :: "unit send_worker_config" where
  "ex_worker_config = \<lparr>wc_store = True, wc_internal = Some (\<lambda>_ _ _ s. (s, Inl NoShard)), wc_interval = 0, wc_maxBatch = 0, wc_maxAttempts = 0\<rparr>"

definition ex_worker :: "unit send_worker" where
  "ex_worker = the (newDispatchWorkerWithStore (\<lambda>_. Some (JObject [])) (\<lambda>_. []) ex_worker_config)"

definition ex_input :: ScheduleInput where
  "ex_input = \<lparr>in_TenantID = ''t'', in_KChatUserID = ''u'', in_StalwartAccountID = ''a'', in_EmailID = ''e'', in_IdentityID = ''i'', in_SubmissionPayload = ''{}'',
     in_SendAt = 120 * nanos_per_s\<rparr>"

definition ex_scheduled :: "ScheduledSend queue_world" where
  "ex_scheduled = empty_world\<lparr>qw_rows := fst (Schedule ex_pg None ''1'' 0 0 ex_input []), qw_now := 0\<rparr>"

lemma ex_worker_config_ok: "newDispatchWorkerWithStore (\<lambda>_. Some (JObject [])) (\<lambda>_. []) ex_worker_config = Some ex_worker"
  by (simp add: ex_worker_def newDispatchWorkerWithStore_def ex_worker_config_def)

lemma ex_schedule_step: "send_step ex_pg ex_worker empty_world ex_scheduled"
  using send_step.schedule [of 0 empty_world ex_pg ex_worker None "''1''" 0 ex_input]
  by (simp add: ex_scheduled_def prompt_def empty_world_def)

definition ex_sent :: "ScheduledSend queue_world" where
  "ex_sent =
     (case claimDue None (200 * nanos_per_s) [] (200 * nanos_per_s) (qw_rows ex_scheduled) of
        (rows, Inr c) \<Rightarrow> ex_scheduled\<lparr>qw_rows := markDispatched None (ss_ID c) (201 * nanos_per_s) rows,
          qw_log := [Claimed (ss_ID c), Accepted (ss_ID c) (200 * nanos_per_s)], qw_now := 200 * nanos_per_s\<rparr>
      | _ \<Rightarrow> ex_scheduled)"

lemma ex_sent_run: "(send_step ex_pg ex_worker)\<^sup>*\<^sup>* empty_world ex_sent"
proof -
  let ?t = "200 * nanos_per_s"
  have rows: "qw_rows ex_scheduled \<noteq> []" "qw_busy ex_scheduled = []" "qw_log ex_scheduled = []" "qw_now ex_scheduled = 0"
    by (simp_all add: ex_scheduled_def empty_world_def) code_simp
  obtain rs c where c: "claimDue None ?t [] ?t (qw_rows ex_scheduled) = (rs, Inr c)" "ss_NextRetryAt c = 500 * nanos_per_s"
  proof -
    have "case snd (claimDue None ?t [] ?t (qw_rows ex_scheduled)) of Inl _ \<Rightarrow> False | Inr c \<Rightarrow> ss_NextRetryAt c = 500 * nanos_per_s" by code_simp
    then show thesis using that by (cases "claimDue None ?t [] ?t (qw_rows ex_scheduled)") (simp split: sum.splits)
  qed
  let ?x = "ex_scheduled\<lparr>qw_rows := rs, qw_busy := [(c, False)], qw_log := [Claimed (ss_ID c)], qw_now := ?t\<rparr>"
  let ?y = "?x\<lparr>qw_busy := [(c, True)], qw_log := [Claimed (ss_ID c), Accepted (ss_ID c) ?t], qw_now := ?t\<rparr>"
  have "prompt sends_queue ?t ex_scheduled" "prompt sends_queue ?t ?x" "prompt sends_queue ?t ?y" by (simp_all add: prompt_def rows c)
  then have "send_step ex_pg ex_worker ex_scheduled ?x" "send_step ex_pg ex_worker ?x ?y"
      "send_step ex_pg ex_worker ?y (?y\<lparr>qw_rows := markDispatched None (ss_ID c) (201 * nanos_per_s) rs, qw_busy := [], qw_log := qw_log ?y, qw_now := ?t\<rparr>)"
    using send_step.claim [OF _ c(1), of ex_pg ex_worker] send_step.deliver [of ?t ?x "[]" c "[]" ex_pg ex_worker]
      send_step.succeed [of ?t ?y "[]" c "[]" ex_pg ex_worker None "201 * nanos_per_s"] rows by simp_all
  moreover have "ex_sent = ?y\<lparr>qw_rows := markDispatched None (ss_ID c) (201 * nanos_per_s) rs, qw_busy := [], qw_log := qw_log ?y, qw_now := ?t\<rparr>"
    using c rows by (simp add: ex_sent_def)
  ultimately show ?thesis using ex_schedule_step by (metis (no_types, lifting) rtranclp.rtrancl_into_rtrancl rtranclp.rtrancl_refl)
qed

text \<open>
  C25: In every run with any number of workers in which no dispatch outlives its lease, a scheduled mail is carried out by Stalwart at most
  once more often than answers to its submissions are lost (so once if none is): an answer is lost when the client fails over to
  the next shard, reports an error or crashes although the submission is carried out, or when the outcome cannot be recorded. It is
  claimed at most \<open>maxAttempts\<close> times plus once for every claim whose outcome was lost, no two dispatches of it are ever in flight
  together, and no submission reaches Stalwart before \<open>send_at\<close>.\<close>

theorem scheduled_send_once:
  assumes "newDispatchWorkerWithStore um txt cfg = Some w" and "(send_step pg w)\<^sup>*\<^sup>* empty_world x"
  shows "accepted_of i (qw_log x) \<le> lost_of i (qw_log x) + 1 \<and> int (claims_of i (qw_log x)) \<le> dw_maxAttempts w + int (dropped_of i (qw_log x))
    \<and> distinct (map (\<lambda>b. ss_ID (fst b)) (qw_busy x)) \<and> (\<forall>t. Accepted i t \<in> set (qw_log x) \<longrightarrow> (\<exists>r \<in> set (qw_rows x). ss_ID r = i \<and> ss_SendAt r \<le> t))"
  using sends.run_counts [of "dw_maxAttempts w" backoff_of x] send_run_queue [OF assms(2)] by (simp add: worker_budget [OF assms(1)] busy_ids_def)

theorem scheduled_send_once_witness:
  "accepted_of ''1'' (qw_log ex_sent) = 1 \<and> accepted_of ''1'' (qw_log ex_sent) \<le> lost_of ''1'' (qw_log ex_sent) + 1 \<and> lost_of ''1'' (qw_log ex_sent) = 0"
  using conjunct1 [OF scheduled_send_once [OF ex_worker_config_ok ex_sent_run, of "''1''"]] by (intro conjI) (code_simp, assumption, code_simp)

text \<open>
  C26: A cancellation that succeeds while no dispatch of the mail is in flight is final: however the run goes on, the mail is not
  submitted any more, and if no answer to a submission was lost before it was never sent at all.\<close>

theorem scheduled_cancel_final:
  assumes "newDispatchWorkerWithStore um txt cfg = Some w" and "(send_step pg w)\<^sup>*\<^sup>* empty_world x"
    and "Cancel pg fault tenantID kchatUserID i (qw_rows x) = (rows, None)" and "sp_uuid pg i = Some rid"
    and "rid \<notin> ss_ID ` fst ` set (qw_busy x)" and "prompt sends_queue t x"
    and "(send_step pg w)\<^sup>*\<^sup>* (x\<lparr>qw_rows := rows, qw_now := t\<rparr>) y"
  shows "accepted_of rid (qw_log y) = accepted_of rid (qw_log x) \<and> accepted_of rid (qw_log x) \<le> lost_of rid (qw_log x)"
proof -
  let ?C = "cancels pg tenantID kchatUserID i" and ?K = "dw_maxAttempts w"
  have K: "max 1 ?K = ?K" by (rule worker_budget [OF assms(1)])
  have run: "(queue_step sends_queue ?K backoff_of)\<^sup>*\<^sup>* empty_world x" by (rule send_run_queue [OF assms(2)])
  have one: "length (filter ?C (qw_rows x)) = 1" and rows: "rows = map (\<lambda>r. if ?C r then r\<lparr>ss_Status := ''cancelled''\<rparr> else r) (qw_rows x)"
    using assms(3,4) by (auto simp: Cancel_def cancels_def [abs_def] Let_def split: option.splits if_splits)
  obtain r where "r \<in> set (filter ?C (qw_rows x))" using one by (cases "filter ?C (qw_rows x)") auto
  then have r: "r \<in> set (qw_rows x)" "?C r" by simp_all
  then have id: "ss_ID r = rid" using assms(4) by (simp add: cancels_def)
  have free: "rid \<notin> set (busy_ids sends_queue (qw_busy x))" using assms(5) by (auto simp: busy_ids_def)
  have same: "r' = r" if "r' \<in> set (qw_rows x)" "ss_ID r' = rid" for r'
    using sends.same_row [of ?K x r' r] sends.inv_reachable [of ?K backoff_of x] run r(1) that id by (simp add: K)
  then have "\<forall>r' \<in> set rows. ss_ID r' = rid \<longrightarrow> ss_Status r' \<noteq> ''pending''" using r(2) by (auto simp: rows)
  moreover have "\<exists>r' \<in> set rows. ss_ID r' = rid" using r id by (intro bexI [of _ "r\<lparr>ss_Status := ''cancelled''\<rparr>"]) (auto simp: rows intro!: image_eqI [of _ _ r])
  ultimately have rest: "sends.at_rest rid (x\<lparr>qw_rows := rows, qw_now := t\<rparr>)" using free by (simp add: sends.at_rest_def)
  then have "accepted_of rid (qw_log y) = accepted_of rid (qw_log x)"
    using sends.at_rest_run [of ?K backoff_of "x\<lparr>qw_rows := rows, qw_now := t\<rparr>" y rid] send_run_queue [OF assms(7)] by (simp add: K)
  moreover have "accepted_of rid (qw_log x) \<le> lost_of rid (qw_log x)"
    using sends.live_unsent [of ?K backoff_of x r] run r free id by (simp add: K cancels_def)
  ultimately show ?thesis ..
qed

theorem scheduled_cancel_final_witness:
  "accepted_of ''1'' (qw_log (ex_scheduled\<lparr>qw_rows := fst (Cancel ex_pg None ''t'' ''u'' ''1'' (qw_rows ex_scheduled)), qw_now := 5\<rparr>)) = 0"
proof -
  have c: "Cancel ex_pg None ''t'' ''u'' ''1'' (qw_rows ex_scheduled) = (fst (Cancel ex_pg None ''t'' ''u'' ''1'' (qw_rows ex_scheduled)), None)"
    by (rule prod_eqI) (simp, code_simp)
  have "qw_busy ex_scheduled = []" "qw_log ex_scheduled = []" "prompt sends_queue 5 ex_scheduled" by (simp_all add: ex_scheduled_def empty_world_def prompt_def)
  moreover have "sp_uuid ex_pg ''1'' = Some ''1''" by (simp add: ex_pg_def)
  ultimately show ?thesis
    using scheduled_cancel_final [OF ex_worker_config_ok r_into_rtranclp [of "send_step ex_pg ex_worker", OF ex_schedule_step] c _ _ _ rtranclp.rtrancl_refl, of "''1''" 5] by simp
qed

text \<open>
  A tick at database time \<open>t\<close> ends with no row due, whatever Stalwart answers, when no more rows were due than the batch allows
  and neither the database nor another process interferes.\<close>

theorem scheduled_tick_drains:
  assumes "\<And>k. quiet t (evs k)" and "distinct (map ss_ID rows)" and "list_all (decodes w) rows"
    and "int (length (filter (claimable sends_queue t []) rows)) \<le> dw_maxBatch w"
  shows "filter (claimable sends_queue t []) (fst (send_Tick w evs rows s)) = []"
  unfolding send_Tick_def by (rule Tick_loop_drains) (use assms in \<open>auto simp: list_all_iff\<close>)

definition ex_turn :: send_turn where
  "ex_turn = \<lparr>sv_dbnow = 200 * nanos_per_s, sv_locked = [], sv_claim_now = 200 * nanos_per_s, sv_claim_fault = None, sv_others = id, sv_end = 201 * nanos_per_s, sv_record_fault = None\<rparr>"

theorem scheduled_tick_drains_witness:
  "filter (claimable sends_queue (200 * nanos_per_s) []) (qw_rows ex_scheduled) \<noteq> []
   \<and> filter (claimable sends_queue (200 * nanos_per_s) []) (fst (send_Tick ex_worker (\<lambda>_. ex_turn) (qw_rows ex_scheduled) ())) = []"
proof
  show "filter (claimable sends_queue (200 * nanos_per_s) []) (qw_rows ex_scheduled) \<noteq> []" by code_simp
  show "filter (claimable sends_queue (200 * nanos_per_s) []) (fst (send_Tick ex_worker (\<lambda>_. ex_turn) (qw_rows ex_scheduled) ())) = []"
  proof (rule scheduled_tick_drains)
    show "quiet (200 * nanos_per_s) ex_turn" by (simp add: quiet_def ex_turn_def DispatchLeaseInterval_def)
    show "distinct (map ss_ID (qw_rows ex_scheduled))" "list_all (decodes ex_worker) (qw_rows ex_scheduled)" by code_simp+
    show "int (length (filter (claimable sends_queue (200 * nanos_per_s) []) (qw_rows ex_scheduled))) \<le> dw_maxBatch ex_worker" by code_simp
  qed
qed

end
