(* ===== verification/SendHook.thy ===== *)
theory SendHook
  imports UndoSend ScheduledSend Malware
begin

text \<open>
  What happens to a JMAP request of a client before it reaches Stalwart: the stage of the proxy that scans messages and offers
  them to the send interceptors (\<^verbatim>\<open>internal/jmap/proxy.go\<close>), and the two interceptors, undo send and scheduled send
  (\<^verbatim>\<open>proxy_hook.go\<close> of \<^verbatim>\<open>internal/undosend\<close> and \<^verbatim>\<open>internal/scheduledsend\<close>), with the undo-send handlers.

  The JSON decoder and encoder, the account lookup and the internal client are arguments. A Go map is iterated in the order of its
  list, which stands for any order. A write to the client succeeds.
\<close>

subsection \<open>Times\<close>

text \<open>\<^verbatim>\<open>time.Unix(n, 0)\<close>: the seconds are counted from year 1 in an \<^verbatim>\<open>int64\<close>.\<close>

definition unix_time :: "int \<Rightarrow> time" where
  "unix_time n = (int64 (n + 62135596800) - 62135596800) * nanos_per_s"

text \<open>\<^verbatim>\<open>time.Parse(time.RFC3339, s)\<close>: an hour may have one digit, a fraction is cut after nine digits.\<close>

fun two_digits :: "string \<Rightarrow> (int \<times> string) option" where
  "two_digits (a # b # rest) = (case (digit_val a, digit_val b) of (Some x, Some y) \<Rightarrow> Some (int (10 * x + y), rest) | _ \<Rightarrow> None)"
| "two_digits _ = None"

fun hour_digits :: "string \<Rightarrow> (int \<times> string) option" where
  "hour_digits (a # rest) =
     (case digit_val a of
        None \<Rightarrow> None
      | Some x \<Rightarrow> (case two_digits (a # rest) of Some r \<Rightarrow> Some r | None \<Rightarrow> Some (int x, rest)))"
| "hour_digits [] = None"

fun expect :: "char \<Rightarrow> (int \<times> string) option \<Rightarrow> (int \<times> string) option" where
  "expect c (Some (n, d # rest)) = (if d = c then Some (n, rest) else None)"
| "expect c _ = None"

definition is_digit :: "char \<Rightarrow> bool" where "is_digit c \<longleftrightarrow> digit_val c \<noteq> None"

definition fraction :: "string \<Rightarrow> int \<times> string" where
  "fraction s =
     (case s of
        c # rest \<Rightarrow>
          if (c = CHR ''.'' \<or> c = CHR '','') \<and> takeWhile is_digit rest \<noteq> []
          then let ds = take 9 (takeWhile is_digit rest) in
            (case parse_digits 0 ds of Some n \<Rightarrow> (int n * 10 ^ (9 - length ds), dropWhile is_digit rest) | None \<Rightarrow> (0, s))
          else (0, s)
      | [] \<Rightarrow> (0, s))"

definition zone :: "string \<Rightarrow> int option" where
  "zone s =
     (case s of
        [] \<Rightarrow> None
      | c # rest \<Rightarrow>
          if c = CHR ''Z'' then (if rest = [] then Some 0 else None)
          else if c = CHR ''+'' \<or> c = CHR ''-'' then
            (case expect CHR '':'' (two_digits rest) of
               None \<Rightarrow> None
             | Some (hh, r1) \<Rightarrow>
                 (case two_digits r1 of
                    Some (mm, []) \<Rightarrow> if hh \<le> 24 \<and> mm \<le> 60 then Some ((if c = CHR ''+'' then 1 else - 1) * (hh * 3600 + mm * 60)) else None
                  | _ \<Rightarrow> None))
          else None)"

definition parse_rfc3339 :: "string \<Rightarrow> time option" where
  "parse_rfc3339 s =
     (case two_digits s of None \<Rightarrow> None | Some (y1, r1) \<Rightarrow>
      (case expect CHR ''-'' (two_digits r1) of None \<Rightarrow> None | Some (y2, r2) \<Rightarrow>
      (case expect CHR ''-'' (two_digits r2) of None \<Rightarrow> None | Some (mo, r3) \<Rightarrow>
      (case expect CHR ''T'' (two_digits r3) of None \<Rightarrow> None | Some (d, r4) \<Rightarrow>
      (case expect CHR '':'' (hour_digits r4) of None \<Rightarrow> None | Some (h, r5) \<Rightarrow>
      (case expect CHR '':'' (two_digits r5) of None \<Rightarrow> None | Some (mi, r6) \<Rightarrow>
      (case two_digits r6 of None \<Rightarrow> None | Some (sec, r7) \<Rightarrow>
        let (frac, r8) = fraction r7; y = 100 * y1 + y2 in
        if mo < 1 \<or> 12 < mo \<or> d < 1 \<or> civil_date (civil_days y mo d) \<noteq> (y, mo, d) \<or> 24 \<le> h \<or> 60 \<le> mi \<or> 60 \<le> sec then None
        else (case zone r8 of None \<Rightarrow> None
          | Some off \<Rightarrow> Some ((civil_days y mo d * 86400 + h * 3600 + mi * 60 + sec - off) * nanos_per_s + frac)))))))))"

definition parseScheduleAt :: "string \<Rightarrow> time option" where
  "parseScheduleAt raw =
     (case ParseInt raw of
        Some n \<Rightarrow> if n \<le> 0 then None else Some (unix_time n)
      | None \<Rightarrow> parse_rfc3339 raw)"

subsection \<open>The intent of a batch\<close>

record scheduleIntent =
  si_stripped :: JmapRequest
  si_submissionMethodID :: string
  si_submissionCreateKey :: string
  si_emailCreateKey :: string
  si_identityID :: string
  si_submissionCreate :: "(string \<times> json) list"

type_synonym undoIntent = scheduleIntent

text \<open>The first call that carries a submission, with what precedes and what follows it.\<close>

definition submission_in :: "json list \<Rightarrow> (string \<times> string \<times> (string \<times> json) list) option" where
  "submission_in call =
     (case call of
        [n, args, k] \<Rightarrow>
          if as_string n \<noteq> ''EmailSubmission/set'' then None
          else (case as_object (field (as_object args) ''create'') of
              [] \<Rightarrow> None
            | (subKey, v) # _ \<Rightarrow> (case v of JObject subVal \<Rightarrow> Some (as_string k, subKey, subVal) | _ \<Rightarrow> None))
      | _ \<Rightarrow> None)"

fun split_submission :: "json list list \<Rightarrow> ((string \<times> string \<times> (string \<times> json) list) \<times> json list list) option" where
  "split_submission [] = None"
| "split_submission (call # calls) =
     (case submission_in call of
        Some sub \<Rightarrow> Some (sub, calls)
      | None \<Rightarrow> map_option (\<lambda>(sub, rest). (sub, call # rest)) (split_submission calls))"

definition has_ref :: "string \<Rightarrow> bool" where "has_ref r \<longleftrightarrow> r \<noteq> [] \<and> hd r = CHR ''#''"

definition extractScheduleIntent :: "JmapRequest \<Rightarrow> scheduleIntent option" where
  "extractScheduleIntent req =
     (case split_submission (jq_MethodCalls req) of
        None \<Rightarrow> None
      | Some ((methodID, subKey, subVal), calls) \<Rightarrow>
          let ref = as_string (field subVal ''emailId'') in
          Some \<lparr>si_stripped = \<lparr>jq_Using = jq_Using req, jq_MethodCalls = calls, jq_CreatedIds = jq_CreatedIds req\<rparr>,
            si_submissionMethodID = methodID, si_submissionCreateKey = subKey, si_emailCreateKey = (if has_ref ref then tl ref else []),
            si_identityID = as_string (field subVal ''identityId''), si_submissionCreate = subVal\<rparr>)"

definition extractUndoIntent :: "JmapRequest \<Rightarrow> undoIntent option" where
  "extractUndoIntent req = extractScheduleIntent req"

fun created_email :: "json list list \<Rightarrow> string \<Rightarrow> string option" where
  "created_email [] key = None"
| "created_email (entry # es) key =
     (case entry of
        [n, args, k] \<Rightarrow>
          if as_string n \<noteq> ''Email/set'' then created_email es key
          else let i = as_string (field (as_object (field (as_object (field (as_object args) ''created'')) key)) ''id'')
            in if i \<noteq> [] then Some i else created_email es key
      | _ \<Rightarrow> created_email es key)"

definition resolveCreatedEmailID :: "JmapResponse \<Rightarrow> string \<Rightarrow> string option" where
  "resolveCreatedEmailID resp key = (if trim_space key = [] then None else created_email (jp_MethodResponses resp) key)"

fun is_string :: "json \<Rightarrow> bool" where
  "is_string (JString _) = True"
| "is_string _ = False"

definition normalised :: "(string \<times> json) list \<Rightarrow> string \<Rightarrow> string \<Rightarrow> (string \<times> json) list" where
  "normalised create key emailID =
     (let ref = as_string (field create ''emailId'') in
      if has_ref ref \<and> tl ref = key then set_field ''emailId'' (JString emailID) create
      else if \<not> is_string (field create ''emailId'') then set_field ''emailId'' (JString emailID) create
      else create)"

definition normaliseSubmissionPayload :: "((string \<times> json) list \<Rightarrow> string option) \<Rightarrow> (string \<times> json) list \<Rightarrow> string \<Rightarrow> string \<Rightarrow> string option" where
  "normaliseSubmissionPayload marshal create key emailID = marshal (normalised create key emailID)"

fun email_set_account :: "json list list \<Rightarrow> string option" where
  "email_set_account [] = None"
| "email_set_account (entry # es) =
     (case entry of
        [n, args, k] \<Rightarrow>
          if as_string n \<noteq> ''Email/set'' then email_set_account es
          else (case field (as_object args) ''accountId'' of JString a \<Rightarrow> Some a | _ \<Rightarrow> None)
      | _ \<Rightarrow> email_set_account es)"

definition with_submission :: "json \<Rightarrow> JmapResponse \<Rightarrow> scheduleIntent \<Rightarrow> string \<Rightarrow> JmapResponse" where
  "with_submission sendAt resp intent i =
     (let account = (case email_set_account (jp_MethodResponses resp) of None \<Rightarrow> [] | Some a \<Rightarrow> [(''accountId'', JString a)]);
          args = account @ [(''created'', JObject [(si_submissionCreateKey intent,
                   JObject [(''id'', JString i), (''sendAt'', sendAt), (''undoStatus'', JString ''pending'')])])];
          methodID = (if si_submissionMethodID intent = [] then ''1'' else si_submissionMethodID intent)
      in resp\<lparr>jp_MethodResponses := jp_MethodResponses resp @ [[JString ''EmailSubmission/set'', JObject args, JString methodID]]\<rparr>)"

definition mergeWithSyntheticSubmission :: "JmapResponse \<Rightarrow> scheduleIntent \<Rightarrow> string \<Rightarrow> time \<Rightarrow> JmapResponse" where
  "mergeWithSyntheticSubmission resp intent i sendAt = with_submission (JString (format_rfc3339 sendAt)) resp intent i"

definition undo_mergeWithSyntheticSubmission :: "JmapResponse \<Rightarrow> undoIntent \<Rightarrow> string \<Rightarrow> JmapResponse" where
  "undo_mergeWithSyntheticSubmission resp intent i = with_submission JNull resp intent i"

subsection \<open>The hooks\<close>

datatype hook_reply = HttpError int string | JmapReply "(string \<times> string) list" JmapResponse

record hook_result =
  hr_intercepted :: bool
  hr_error :: "string option"
  hr_reply :: "hook_reply option"

record 's hook =
  hk_Dispatch :: "string \<Rightarrow> string \<Rightarrow> JmapRequest \<Rightarrow> 's \<Rightarrow> 's \<times> (jmap_error + JmapResponse)"
  hk_AccountResolver :: "string \<Rightarrow> string \<Rightarrow> string + string"
  hk_parse :: "string \<Rightarrow> JmapRequest option"
  hk_marshal :: "(string \<times> json) list \<Rightarrow> string option"
  hk_writes :: "JmapResponse \<Rightarrow> bool"

definition pass :: "string option \<Rightarrow> hook_result" where
  "pass e = \<lparr>hr_intercepted = False, hr_error = e, hr_reply = None\<rparr>"

definition http_error :: "int \<Rightarrow> string \<Rightarrow> hook_result" where
  "http_error st msg = \<lparr>hr_intercepted = True, hr_error = None, hr_reply = Some (HttpError st msg)\<rparr>"

definition writeJMAPResponse :: "'s hook \<Rightarrow> string \<Rightarrow> (string \<times> string) list \<Rightarrow> JmapResponse \<Rightarrow> hook_result" where
  "writeJMAPResponse h pkg headers resp =
     (if \<not> hk_writes h resp then \<lparr>hr_intercepted = True, hr_error = Some ''marshal'', hr_reply = Some (HttpError 500 (pkg @ '': response marshal failed''))\<rparr>
      else \<lparr>hr_intercepted = True, hr_error = None, hr_reply = Some (JmapReply headers resp)\<rparr>)"

text \<open>What both hooks do once they have an intent, up to the draft that Stalwart created; \<open>store\<close> is the rest.\<close>

definition forward_stripped :: "'s hook \<Rightarrow> string \<Rightarrow> string \<Rightarrow> string \<Rightarrow> scheduleIntent
    \<Rightarrow> (string \<Rightarrow> JmapResponse \<Rightarrow> string \<Rightarrow> string \<Rightarrow> 'q \<times> hook_result) \<Rightarrow> 'q \<Rightarrow> 's \<Rightarrow> 'q \<times> 's \<times> hook_result" where
  "forward_stripped h pkg tenantID kchatUserID intent store q s =
     (if tenantID = [] \<or> kchatUserID = [] then (q, s, pass None)
      else case hk_AccountResolver h tenantID kchatUserID of
          Inl e \<Rightarrow> (q, s, pass (Some (pkg @ ''.Hook: resolve account: '' @ e)))
        | Inr accountID \<Rightarrow>
            (case hk_Dispatch h tenantID kchatUserID (si_stripped intent) s of
               (s1, Inl e) \<Rightarrow> (q, s1, pass (Some (pkg @ ''.Hook: forward stripped'')))
             | (s1, Inr resp) \<Rightarrow>
                 if FirstCallError resp \<noteq> None then (q, s1, writeJMAPResponse h pkg [] resp)
                 else (case resolveCreatedEmailID resp (si_emailCreateKey intent) of
                     None \<Rightarrow> (q, s1, writeJMAPResponse h pkg [] resp)
                   | Some emailID \<Rightarrow>
                       (case normaliseSubmissionPayload (hk_marshal h) (si_submissionCreate intent) (si_emailCreateKey intent) emailID of
                          None \<Rightarrow> (q, s1, writeJMAPResponse h pkg [] resp)
                        | Some payload \<Rightarrow> (case store accountID resp emailID payload of (q1, r) \<Rightarrow> (q1, s1, r))))))"

record hook_request =
  hq_ScheduleAt :: string
  hq_UndoSend :: string
  hq_tenantID :: string
  hq_kchatUserID :: string
  hq_content :: string

record schedule_env =
  se_fault :: "string option"
  se_nid :: string
  se_dbnow :: time
  se_now :: time

definition schedule_store :: "'s hook \<Rightarrow> queue_pg \<Rightarrow> schedule_env \<Rightarrow> hook_request \<Rightarrow> time \<Rightarrow> scheduleIntent \<Rightarrow> ScheduledSend list
    \<Rightarrow> string \<Rightarrow> JmapResponse \<Rightarrow> string \<Rightarrow> string \<Rightarrow> ScheduledSend list \<times> hook_result" where
  "schedule_store h pg ev r sendAt intent rows accountID resp emailID payload =
     (case Schedule pg (se_fault ev) (se_nid ev) (se_dbnow ev) (se_now ev)
          \<lparr>in_TenantID = hq_tenantID r, in_KChatUserID = hq_kchatUserID r, in_StalwartAccountID = accountID, in_EmailID = emailID,
           in_IdentityID = si_identityID intent, in_SubmissionPayload = payload, in_SendAt = sendAt\<rparr> rows of
        (rows1, Inl (InvalidSchedule m)) \<Rightarrow> (rows1, http_error 400 (''scheduledsend: scheduledsend: invalid send_at: '' @ m))
      | (rows1, Inl _) \<Rightarrow> (rows1, writeJMAPResponse h ''scheduledsend'' [] resp)
      | (rows1, Inr ss) \<Rightarrow>
          (rows1, writeJMAPResponse h ''scheduledsend'' [(''X-KMail-Scheduled-Send-Id'', ss_ID ss), (''X-KMail-Scheduled-Send-At'', itoa (unix_sec (ss_SendAt ss)))]
             (mergeWithSyntheticSubmission resp intent (ss_ID ss) (ss_SendAt ss))))"

definition schedule_Intercept :: "'s hook \<Rightarrow> queue_pg \<Rightarrow> schedule_env \<Rightarrow> time \<Rightarrow> hook_request \<Rightarrow> ScheduledSend list \<Rightarrow> 's \<Rightarrow> ScheduledSend list \<times> 's \<times> hook_result" where
  "schedule_Intercept h pg ev now r rows s =
     (let raw = trim_space (hq_ScheduleAt r) in
      if raw = [] then (rows, s, pass None)
      else case parseScheduleAt raw of
          None \<Rightarrow> (rows, s, http_error 400 ''scheduledsend: malformed X-KMail-Schedule-At header'')
        | Some sendAt \<Rightarrow>
            let horizon = time_Sub sendAt now in
            if horizon < MinScheduleHorizon then (rows, s, http_error 400 ''scheduledsend: send_at must be at least 1m0s in the future'')
            else if horizon > MaxScheduleHorizon then (rows, s, http_error 400 ''scheduledsend: send_at must be within 8760h0m0s'')
            else case hk_parse h (hq_content r) of
                None \<Rightarrow> (rows, s, pass None)
              | Some jr \<Rightarrow>
                  (case extractScheduleIntent jr of
                     None \<Rightarrow> (rows, s, pass None)
                   | Some intent \<Rightarrow>
                       forward_stripped h ''scheduledsend'' (hq_tenantID r) (hq_kchatUserID r) intent (schedule_store h pg ev r sendAt intent rows) rows s))"

record 'v undo_hook_env =
  ue_service :: undo_service
  ue_valkey :: "'v valkey"
  ue_codec :: codec
  ue_time :: int
  ue_now :: time
  ue_uuid :: "string option"

definition undo_store :: "'s hook \<Rightarrow> 'v undo_hook_env \<Rightarrow> hook_request \<Rightarrow> undoIntent \<Rightarrow> 'v
    \<Rightarrow> string \<Rightarrow> JmapResponse \<Rightarrow> string \<Rightarrow> string \<Rightarrow> 'v \<times> hook_result" where
  "undo_store h ev r intent q accountID resp emailID payload =
     (case Hold (ue_service ev) (ue_valkey ev) (ue_codec ev) q (ue_time ev) (ue_now ev) (ue_uuid ev)
          \<lparr>hi_TenantID = hq_tenantID r, hi_KChatUserID = hq_kchatUserID r, hi_StalwartAccountID = accountID, hi_CreateID = si_submissionCreateKey intent,
           hi_EmailID = emailID, hi_IdentityID = si_identityID intent, hi_SubmissionPayload = payload\<rparr> of
        (q1, Inl _) \<Rightarrow> (q1, writeJMAPResponse h ''undosend'' [] resp)
      | (q1, Inr ps) \<Rightarrow>
          (q1, writeJMAPResponse h ''undosend'' [(''X-KMail-Pending-Send-Id'', ps_ID ps), (''X-KMail-Undo-Deadline'', itoa (unix_sec (ps_DeadlineAt ps)))]
             (undo_mergeWithSyntheticSubmission resp intent (ps_ID ps))))"

definition undo_Intercept :: "'s hook \<Rightarrow> 'v undo_hook_env \<Rightarrow> hook_request \<Rightarrow> 'v \<Rightarrow> 's \<Rightarrow> 'v \<times> 's \<times> hook_result" where
  "undo_Intercept h ev r q s =
     (if hq_UndoSend r \<noteq> ''true'' then (q, s, pass None)
      else case hk_parse h (hq_content r) of
          None \<Rightarrow> (q, s, pass None)
        | Some jr \<Rightarrow>
            (case extractUndoIntent jr of
               None \<Rightarrow> (q, s, pass None)
             | Some intent \<Rightarrow> forward_stripped h ''undosend'' (hq_tenantID r) (hq_kchatUserID r) intent (undo_store h ev r intent q) q s))"

text \<open>\<^verbatim>\<open>ChainSendInterceptors\<close> over the state of all hooks.\<close>

fun chain_Intercept :: "('x \<Rightarrow> 'x \<times> hook_result) list \<Rightarrow> 'x \<Rightarrow> 'x \<times> hook_result" where
  "chain_Intercept [] x = (x, pass None)"
| "chain_Intercept (h # hs) x =
     (case h x of (x1, r) \<Rightarrow> if hr_error r \<noteq> None then (x1, r) else if hr_intercepted r then (x1, r) else chain_Intercept hs x1)"

definition ChainSendInterceptors :: "('x \<Rightarrow> 'x \<times> hook_result) option list \<Rightarrow> ('x \<Rightarrow> 'x \<times> hook_result) option" where
  "ChainSendInterceptors hooks =
     (case filter (\<lambda>h. h \<noteq> None) hooks of [] \<Rightarrow> None | [h] \<Rightarrow> h | hs \<Rightarrow> Some (chain_Intercept (map the hs)))"

subsection \<open>The proxy\<close>

definition contains_sub :: "string \<Rightarrow> string \<Rightarrow> bool" where
  "contains_sub p s \<longleftrightarrow> list_ex (prefix p) (suffixes s)"

definition requestCarriesMessageContent :: "string \<Rightarrow> bool" where
  "requestCarriesMessageContent p =
     (if contains_sub ''/jmap/upload'' p \<or> suffix ''/upload'' p then True
      else if suffix ''/jmap'' p \<or> suffix ''/jmap/'' p then \<not> contains_sub ''/.well-known/'' p
      else False)"

definition jmapSubmitMethods :: "string list" where
  "jmapSubmitMethods = [''\"Email/set\"'', ''\"EmailSubmission/set\"'', ''\"EmailSubmission/create\"'']"

definition shouldScanBody :: "string \<Rightarrow> string \<Rightarrow> bool" where
  "shouldScanBody p body =
     (if contains_sub ''/jmap/upload'' p \<or> suffix ''/upload'' p then True else list_ex (\<lambda>m. contains_sub m body) jmapSubmitMethods)"

definition maxScanBytes :: nat where "maxScanBytes = 33554432"

datatype account_lookup = NotProvisioned | LookupFailed string | Account string

datatype proxy_outcome = ProxyError int string | HookReply "hook_reply option" | Forward "string option"

text \<open>
  \<open>preDeliver\<close> is the configured hook, an error where it refuses a body; \<open>interceptor\<close> works on the state of the send hooks. \<open>Forward\<close> hands the request with its body to
  the shards. \<open>content\<close> is \<open>None\<close> for a request without body, \<open>unreadable\<close> a body that breaks off.
\<close>

definition proxy_ServeHTTP :: "(string \<Rightarrow> string \<Rightarrow> account_lookup) \<Rightarrow> (string \<Rightarrow> string option) option \<Rightarrow> (string \<Rightarrow> 'x \<Rightarrow> 'x \<times> hook_result) option
    \<Rightarrow> string \<Rightarrow> string \<Rightarrow> string \<Rightarrow> string \<Rightarrow> string option \<Rightarrow> bool \<Rightarrow> 'x \<Rightarrow> 'x \<times> proxy_outcome" where
  "proxy_ServeHTTP resolveAccount preDeliver interceptor tenantID kchatUserID meth path content unreadable x =
     (if tenantID = [] \<or> kchatUserID = [] then (x, ProxyError 500 ''missing tenant or user context'')
      else case resolveAccount tenantID kchatUserID of
          NotProvisioned \<Rightarrow> (x, ProxyError 404 ''stalwart account not provisioned'')
        | LookupFailed _ \<Rightarrow> (x, ProxyError 502 ''account lookup failed'')
        | Account _ \<Rightarrow>
            (case content of
               None \<Rightarrow> (x, Forward None)
             | Some body \<Rightarrow>
                 if \<not> ((preDeliver \<noteq> None \<or> interceptor \<noteq> None) \<and> (meth = ''POST'' \<or> meth = ''PUT'') \<and> requestCarriesMessageContent path)
                 then (x, Forward (Some body))
                 else if unreadable then (x, ProxyError 502 ''read body'')
                 else if length body > maxScanBytes then (x, ProxyError 413 ''message exceeds malware-scan size limit'')
                 else if \<not> shouldScanBody path body then (x, Forward (Some body))
                 else if (case preDeliver of Some scan \<Rightarrow> scan body \<noteq> None | None \<Rightarrow> False) then (x, ProxyError 422 ''message rejected by malware scanner'')
                 else case interceptor of
                     None \<Rightarrow> (x, Forward (Some body))
                   | Some hook \<Rightarrow> (case hook body x of (x1, r) \<Rightarrow> if hr_intercepted r then (x1, HookReply (hr_reply r)) else (x1, Forward (Some body)))))"

subsection \<open>Undo-send handlers\<close>

datatype undo_body = UndoFailure string | UndoCancel bool "string option" | UndoGone string | UndoStatus PendingSend

definition undo_cancel :: "'v valkey \<Rightarrow> codec \<Rightarrow> int \<Rightarrow> string \<Rightarrow> string \<Rightarrow> 'v \<Rightarrow> 'v \<times> int \<times> undo_body" where
  "undo_cancel v cd t tenantID pathID q =
     (if tenantID = [] then (q, 500, UndoFailure ''missing tenant context'')
      else let i = trim_space pathID in
        if i = [] then (q, 400, UndoFailure ''missing id'')
        else case UndoSend.Cancel v cd q t i tenantID of
            (q1, None) \<Rightarrow> (q1, 200, UndoCancel True None)
          | (q1, Some ErrAlreadySent) \<Rightarrow> (q1, 410, UndoCancel False (Some ''already sent''))
          | (q1, Some ErrTenantMismatch) \<Rightarrow> (q1, 404, UndoFailure ''not found'')
          | (q1, Some ErrNotFound) \<Rightarrow> (q1, 404, UndoFailure ''not found'')
          | (q1, Some _) \<Rightarrow> (q1, 500, UndoFailure ''internal error''))"

text \<open>\<open>UndoGone\<close> is the answer \<^verbatim>\<open>{"id": id, "status": "sent"}\<close>; \<open>UndoStatus\<close> shows the row without its payload.\<close>

definition undo_status :: "'v valkey \<Rightarrow> codec \<Rightarrow> int \<Rightarrow> string \<Rightarrow> string \<Rightarrow> 'v \<Rightarrow> int \<times> undo_body" where
  "undo_status v cd t tenantID pathID q =
     (if tenantID = [] then (500, UndoFailure ''missing tenant context'')
      else let i = trim_space pathID in
        if i = [] then (400, UndoFailure ''missing id'')
        else case undo_Get v cd q t i of
            Inl ErrNotFound \<Rightarrow> (200, UndoGone i)
          | Inl _ \<Rightarrow> (500, UndoFailure ''internal error'')
          | Inr ps \<Rightarrow> if ps_TenantID ps \<noteq> tenantID then (404, UndoFailure ''not found'') else (200, UndoStatus (ps\<lparr>ps_SubmissionPayload := []\<rparr>)))"

subsection \<open>What the hooks guarantee\<close>

text \<open>The stripped batch is the batch without its first submission.\<close>

lemma split_submission_splits:
  "split_submission calls = Some (sub, rest) \<Longrightarrow> \<exists>pre call post. calls = pre @ call # post \<and> rest = pre @ post \<and> submission_in call = Some sub \<and> (\<forall>c \<in> set pre. submission_in c = None)"
proof (induction calls arbitrary: rest)
  case (Cons call calls)
  show ?case
  proof (cases "submission_in call")
    case None
    then obtain rest' where r: "split_submission calls = Some (sub, rest')" "rest = call # rest'" using Cons.prems by auto
    obtain pre c post where "calls = pre @ c # post" "rest' = pre @ post" "submission_in c = Some sub" "\<forall>c \<in> set pre. submission_in c = None" using Cons.IH [OF r(1)] by blast
    then show ?thesis using r(2) None by (intro exI [of _ "call # pre"] exI [of _ c] exI [of _ post]) simp
  next
    case (Some x)
    then show ?thesis using Cons.prems by (intro exI [of _ "[]"] exI [of _ call] exI [of _ calls]) simp
  qed
qed simp

lemma intent_strips_submission:
  assumes "extractScheduleIntent jr = Some intent"
  obtains pre call post where "jq_MethodCalls jr = pre @ call # post" "submission_in call \<noteq> None" "\<forall>c \<in> set pre. submission_in c = None"
    "si_stripped intent = jr\<lparr>jq_MethodCalls := pre @ post\<rparr>"
proof -
  obtain sub rest where r: "split_submission (jq_MethodCalls jr) = Some (sub, rest)"
      and si: "si_stripped intent = \<lparr>jq_Using = jq_Using jr, jq_MethodCalls = rest, jq_CreatedIds = jq_CreatedIds jr\<rparr>"
    using assms by (auto simp: extractScheduleIntent_def Let_def split: option.splits)
  obtain pre call post where "jq_MethodCalls jr = pre @ call # post" "rest = pre @ post" "submission_in call = Some sub" "\<forall>c \<in> set pre. submission_in c = None"
    using split_submission_splits [OF r] by blast
  then show thesis using that [of pre call post] si by simp
qed

lemma writeJMAPResponse_intercepts [simp]: "hr_intercepted (writeJMAPResponse h pkg hs resp)"
  by (simp add: writeJMAPResponse_def)

lemma http_error_intercepts [simp]: "hr_intercepted (http_error st msg)"
  by (simp add: http_error_def)

text \<open>Once Stalwart answered the stripped batch, the hook keeps the request.\<close>

lemma forward_stripped_passes:
  assumes "forward_stripped h pkg tid u intent store q s = (q', s', r)" and "\<not> hr_intercepted r"
    and "\<And>acc resp email payload. hr_intercepted (snd (store acc resp email payload))"
  shows "q' = q \<and> hr_reply r = None \<and> (s' = s \<or> (\<exists>e. hk_Dispatch h tid u (si_stripped intent) s = (s', Inl e)))"
proof (cases "tid = [] \<or> u = []")
  case True
  then show ?thesis using assms(1) by (auto simp: forward_stripped_def pass_def)
next
  case False
  show ?thesis
  proof (cases "hk_AccountResolver h tid u")
    case (Inl e)
    then show ?thesis using assms(1) False by (auto simp: forward_stripped_def pass_def)
  next
    case (Inr acc)
    obtain s1 res where d: "hk_Dispatch h tid u (si_stripped intent) s = (s1, res)" by (cases "hk_Dispatch h tid u (si_stripped intent) s")
    show ?thesis
    proof (cases res)
      case (Inl e)
      then show ?thesis using assms(1) False Inr d by (auto simp: forward_stripped_def pass_def)
    next
      case (Inr resp)
      have "hr_intercepted r"
        using assms(1,3) False \<open>hk_AccountResolver h tid u = Inr acc\<close> d Inr
        by (auto simp: forward_stripped_def split: if_splits option.splits prod.splits) (metis snd_conv)+
      then show ?thesis using assms(2) by simp
    qed
  qed
qed

lemma schedule_store_intercepts: "hr_intercepted (snd (schedule_store h pg ev r sendAt intent rows acc resp email payload))"
  by (auto simp: schedule_store_def split: prod.splits sum.splits send_error.splits)

lemma undo_store_intercepts: "hr_intercepted (snd (undo_store h ev r intent q acc resp email payload))"
  by (auto simp: undo_store_def split: prod.splits sum.splits)

end
