(* ===== verification/SendHookProps.thy ===== *)
theory SendHookProps
  imports SendHook
begin

text \<open>
  What the send hooks and the proxy promise for an outgoing mail: when the full batch still reaches Stalwart, what the worker will
  submit for a mail that the hook scheduled, which requests the malware scanner sees.
\<close>

subsection \<open>Falling through\<close>

text \<open>The hooks of scheduled and undo send on their common state, as \<^verbatim>\<open>main.go\<close> chains them.\<close>

definition on_sends :: "(ScheduledSend list \<Rightarrow> 's \<Rightarrow> ScheduledSend list \<times> 's \<times> hook_result) \<Rightarrow> 'v \<times> ScheduledSend list \<times> 's \<Rightarrow> ('v \<times> ScheduledSend list \<times> 's) \<times> hook_result" where
  "on_sends f x = (case x of (q, rows, s) \<Rightarrow> (case f rows s of (rows', s', r) \<Rightarrow> ((q, rows', s'), r)))"

definition on_holds :: "('v \<Rightarrow> 's \<Rightarrow> 'v \<times> 's \<times> hook_result) \<Rightarrow> 'v \<times> ScheduledSend list \<times> 's \<Rightarrow> ('v \<times> ScheduledSend list \<times> 's) \<times> hook_result" where
  "on_holds f x = (case x of (q, rows, s) \<Rightarrow> (case f q s of (q', s', r) \<Rightarrow> ((q', rows, s'), r)))"

definition send_hooks :: "'s hook \<Rightarrow> 'v undo_hook_env option \<Rightarrow> queue_pg \<Rightarrow> schedule_env \<Rightarrow> time \<Rightarrow> hook_request
    \<Rightarrow> ('v \<times> ScheduledSend list \<times> 's \<Rightarrow> ('v \<times> ScheduledSend list \<times> 's) \<times> hook_result) option" where
  "send_hooks h undo pg ev now r =
     ChainSendInterceptors [map_option (\<lambda>ue. on_holds (undo_Intercept h ue r)) undo, Some (on_sends (schedule_Intercept h pg ev now r))]"

text \<open>
  The one call of a hook on a request that it lets pass in the end: it has offered Stalwart the batch without the submission, and the
  internal client reported an error. What Stalwart did with that batch is open: the client also reports an error for an answer that
  got lost or was cut off.
\<close>

definition tried_stripped :: "'s hook \<Rightarrow> hook_request \<Rightarrow> 's \<Rightarrow> 's \<Rightarrow> bool" where
  "tried_stripped h r s s' \<longleftrightarrow>
     (\<exists>jr pre call post e. hk_parse h (hq_content r) = Some jr \<and> jq_MethodCalls jr = pre @ call # post
        \<and> submission_in call \<noteq> None \<and> (\<forall>c \<in> set pre. submission_in c = None)
        \<and> hk_Dispatch h (hq_tenantID r) (hq_kchatUserID r) (jr\<lparr>jq_MethodCalls := pre @ post\<rparr>) s = (s', Inl e))"

lemma tried_strippedI:
  assumes "Option.bind (hk_parse h (hq_content r)) extractScheduleIntent = Some intent"
    and "hk_Dispatch h (hq_tenantID r) (hq_kchatUserID r) (si_stripped intent) s = (s', Inl e)"
  shows "tried_stripped h r s s'"
proof -
  obtain jr where jr: "hk_parse h (hq_content r) = Some jr" "extractScheduleIntent jr = Some intent" using assms(1) by (auto simp: bind_eq_Some_conv)
  show ?thesis using intent_strips_submission [OF jr(2)] jr(1) assms(2) unfolding tried_stripped_def by metis
qed

lemma forward_stripped_tried:
  assumes f: "forward_stripped h pkg (hq_tenantID r) (hq_kchatUserID r) intent store q s = (q', s', res)" and no: "\<not> hr_intercepted res"
    and store: "\<And>acc resp email payload. hr_intercepted (snd (store acc resp email payload))"
    and intent: "Option.bind (hk_parse h (hq_content r)) extractScheduleIntent = Some intent"
  shows "q' = q \<and> hr_reply res = None \<and> (s' = s \<or> (tried_stripped h r s s' \<and> hr_error res \<noteq> None))"
proof -
  note p = forward_stripped_passes [OF f no store]
  show ?thesis
  proof (cases "s' = s")
    case False
    then obtain e where e: "hk_Dispatch h (hq_tenantID r) (hq_kchatUserID r) (si_stripped intent) s = (s', Inl e)" using p by blast
    then have "hr_error res \<noteq> None" using f False by (auto simp: forward_stripped_def pass_def split: if_splits sum.splits)
    then show ?thesis using p tried_strippedI [OF intent e] by blast
  qed (use p in simp)
qed

lemma schedule_Intercept_passes:
  assumes "schedule_Intercept h pg ev now r rows s = (rows', s', res)" and "\<not> hr_intercepted res"
  shows "rows' = rows \<and> hr_reply res = None \<and> (s' = s \<or> (tried_stripped h r s s' \<and> hr_error res \<noteq> None))"
proof -
  consider "(rows', s', res) = (rows, s, pass None)" | st msg where "(rows', s', res) = (rows, s, http_error st msg)"
    | sendAt intent where "Option.bind (hk_parse h (hq_content r)) extractScheduleIntent = Some intent"
        "forward_stripped h ''scheduledsend'' (hq_tenantID r) (hq_kchatUserID r) intent (schedule_store h pg ev r sendAt intent rows) rows s = (rows', s', res)"
    using assms(1) by (simp add: schedule_Intercept_def Let_def split: if_splits option.splits) blast+
  then show ?thesis
  proof cases
    case 3
    then show ?thesis by (intro forward_stripped_tried [OF _ assms(2) schedule_store_intercepts])
  qed (use assms(2) in \<open>simp_all add: pass_def\<close>)
qed

lemma undo_Intercept_passes:
  assumes "undo_Intercept h ue r q s = (q', s', res)" and "\<not> hr_intercepted res"
  shows "q' = q \<and> hr_reply res = None \<and> (s' = s \<or> (tried_stripped h r s s' \<and> hr_error res \<noteq> None))"
proof -
  consider "(q', s', res) = (q, s, pass None)" | intent where "Option.bind (hk_parse h (hq_content r)) extractScheduleIntent = Some intent"
        "forward_stripped h ''undosend'' (hq_tenantID r) (hq_kchatUserID r) intent (undo_store h ue r intent q) q s = (q', s', res)"
    using assms(1) by (simp add: undo_Intercept_def extractUndoIntent_def split: if_splits option.splits)
  then show ?thesis
  proof cases
    case 2
    then show ?thesis by (intro forward_stripped_tried [OF _ assms(2) undo_store_intercepts])
  qed (use assms(2) in \<open>simp add: pass_def\<close>)
qed

text \<open>
  C28: The chained hooks let a request through to Stalwart only with nothing held and nothing scheduled, and after at most one call of
  their own: a batch without the submission that they take over, for which the internal client reported an error. So the
  submission that the proxy then forwards has neither been kept for later nor been handed to Stalwart by a hook.\<close>

theorem hooks_no_double_submission:
  assumes "send_hooks h undo pg ev now r = Some hook" and "hook (q, rows, s) = ((q', rows', s'), res)" and "\<not> hr_intercepted res"
  shows "q' = q \<and> rows' = rows \<and> hr_reply res = None \<and> (s' = s \<or> tried_stripped h r s s')"
proof (cases undo)
  case None
  then have "hook = on_sends (schedule_Intercept h pg ev now r)" using assms(1) by (simp add: send_hooks_def ChainSendInterceptors_def)
  then show ?thesis using assms(2) schedule_Intercept_passes [OF _ assms(3)] by (fastforce simp: on_sends_def split: prod.splits)
next
  case (Some ue)
  then have hook: "hook = chain_Intercept [on_holds (undo_Intercept h ue r), on_sends (schedule_Intercept h pg ev now r)]"
    using assms(1) by (simp add: send_hooks_def ChainSendInterceptors_def)
  obtain q1 s1 r1 where u: "undo_Intercept h ue r q s = (q1, s1, r1)" by (cases "undo_Intercept h ue r q s")
  show ?thesis
  proof (cases "hr_error r1 = None \<and> \<not> hr_intercepted r1")
    case True
    then have pass1: "q1 = q" "s1 = s" using undo_Intercept_passes [OF u] by auto
    obtain rows2 s2 r2 where sch: "schedule_Intercept h pg ev now r rows s = (rows2, s2, r2)" by (cases "schedule_Intercept h pg ev now r rows s")
    have "((q', rows', s'), res) = (if hr_error r2 \<noteq> None \<or> hr_intercepted r2 then ((q, rows2, s2), r2) else ((q, rows2, s2), pass None))"
      using assms(2) hook True u sch pass1 by (auto simp: on_holds_def on_sends_def split: if_splits)
    then show ?thesis using schedule_Intercept_passes [OF sch] assms(3) by (auto simp: pass_def split: if_splits)
  next
    case False
    then have "(q', rows', s') = (q1, rows, s1) \<and> res = r1" using assms(2) hook u by (auto simp: on_holds_def split: if_splits)
    then show ?thesis using undo_Intercept_passes [OF u] assms(3) by auto
  qed
qed

definition ex_batch :: JmapRequest where
  "ex_batch = \<lparr>jq_Using = [], jq_MethodCalls =
     [[JString ''Email/set'', JObject [], JString ''0''],
      [JString ''EmailSubmission/set'', JObject [(''create'', JObject [(''k'', JObject [(''emailId'', JString ''#d''), (''identityId'', JString ''i'')])])], JString ''1'']],
     jq_CreatedIds = []\<rparr>"

definition ex_hook :: "bool \<Rightarrow> nat hook" where
  "ex_hook up = \<lparr>hk_Dispatch = (\<lambda>_ _ _ n. (Suc n, if up then Inr \<lparr>jp_MethodResponses = [[JString ''Email/set'', JObject [(''created'', JObject [(''d'', JObject [(''id'', JString ''E1'')])])], JString ''0'']],
       jp_SessionState = [], jp_CreatedIds = []\<rparr> else Inl NoShard)),
     hk_AccountResolver = (\<lambda>_ _. Inr ''a''), hk_parse = (\<lambda>_. Some ex_batch), hk_marshal = (\<lambda>m. Some (''{'' @ as_string (field m ''emailId''))), hk_writes = (\<lambda>_. True)\<rparr>"

definition ex_send_request :: hook_request where
  "ex_send_request = \<lparr>hq_ScheduleAt = ''1000'', hq_UndoSend = [], hq_tenantID = ''t'', hq_kchatUserID = ''u'', hq_content = ''\"Email/set\"''\<rparr>"

definition ex_sends_pg :: queue_pg where
  "ex_sends_pg = \<lparr>sp_uuid = Some, sp_jsonb = Some, sp_tenant = (\<lambda>_. True)\<rparr>"

definition ex_schedule_env :: schedule_env where
  "ex_schedule_env = \<lparr>se_fault = None, se_nid = ''1'', se_dbnow = 0, se_now = 0\<rparr>"

theorem hooks_no_double_submission_witness:
  "hr_error (snd (on_sends (schedule_Intercept (ex_hook False) ex_sends_pg ex_schedule_env 0 ex_send_request) ((), [], 0))) \<noteq> None
   \<and> fst (on_sends (schedule_Intercept (ex_hook False) ex_sends_pg ex_schedule_env 0 ex_send_request) ((), [], 0)) = ((), [], 1)
   \<and> tried_stripped (ex_hook False) ex_send_request 0 1"
proof -
  let ?f = "on_sends (schedule_Intercept (ex_hook False) ex_sends_pg ex_schedule_env 0 ex_send_request)"
  have r: "?f ((), [], 0) = (((), [], 1), pass (Some ''scheduledsend.Hook: forward stripped''))" by code_simp
  have "send_hooks (ex_hook False) (None :: unit undo_hook_env option) ex_sends_pg ex_schedule_env 0 ex_send_request = Some ?f"
    by (simp add: send_hooks_def ChainSendInterceptors_def)
  from hooks_no_double_submission [OF this r] show ?thesis by (simp add: r pass_def)
qed

subsection \<open>Errors\<close>

text \<open>
  Requests that carry mail, as a specification of the paths and bodies that the proxy reads: an upload, or a batch at \<^verbatim>\<open>/jmap\<close> with the
  quoted name of a submitting method in its text.
\<close>

definition names_submission :: "string \<Rightarrow> bool" where
  "names_submission body \<longleftrightarrow> sublist ''\"Email/set\"'' body \<or> sublist ''\"EmailSubmission/set\"'' body \<or> sublist ''\"EmailSubmission/create\"'' body"

definition carries_mail :: "string \<Rightarrow> string \<Rightarrow> bool" where
  "carries_mail path body \<longleftrightarrow> sublist ''/jmap/upload'' path \<or> suffix ''/upload'' path
     \<or> (suffix ''/jmap'' path \<or> suffix ''/jmap/'' path) \<and> \<not> sublist ''/.well-known/'' path \<and> names_submission body"

lemma contains_sub_sublist: "contains_sub p s = sublist p s"
  unfolding sublist_altdef' by (auto simp: contains_sub_def list_ex_iff)

lemma carries_mail_scanned: "carries_mail path body \<Longrightarrow> requestCarriesMessageContent path \<and> shouldScanBody path body"
  by (auto simp: carries_mail_def names_submission_def requestCarriesMessageContent_def shouldScanBody_def jmapSubmitMethods_def contains_sub_sublist)

lemma send_hooks_without_undo:
  assumes "hq_UndoSend r \<noteq> ''true''" and "schedule_Intercept h pg ev now r rows s = (rows', s', res)" and "hr_intercepted res \<or> hr_error res \<noteq> None"
  obtains hook where "send_hooks h undo pg ev now r = Some hook" "hook (q, rows, s) = ((q, rows', s'), res)"
proof (cases undo)
  case None
  then show thesis using that [of "on_sends (schedule_Intercept h pg ev now r)"] assms(2) by (simp add: send_hooks_def ChainSendInterceptors_def on_sends_def)
next
  case (Some ue)
  let ?hook = "chain_Intercept [on_holds (undo_Intercept h ue r), on_sends (schedule_Intercept h pg ev now r)]"
  have "?hook (q, rows, s) = ((q, rows', s'), res)"
    using assms by (auto simp: on_holds_def on_sends_def undo_Intercept_def pass_def)
  then show thesis using that [of ?hook] Some by (simp add: send_hooks_def ChainSendInterceptors_def)
qed

lemma schedule_Intercept_outcome:
  assumes "trim_space (hq_ScheduleAt r) \<noteq> []" and "parseScheduleAt (trim_space (hq_ScheduleAt r)) = Some sendAt"
    and "MinScheduleHorizon \<le> time_Sub sendAt now" and "time_Sub sendAt now \<le> MaxScheduleHorizon"
    and "hk_parse h (hq_content r) = Some jr" and "extractScheduleIntent jr = Some intent" and "hq_tenantID r \<noteq> []" and "hq_kchatUserID r \<noteq> []"
    and "schedule_Intercept h pg ev now r rows s = (rows', s', res)"
  shows "case hk_AccountResolver h (hq_tenantID r) (hq_kchatUserID r) of
      Inl _ \<Rightarrow> rows' = rows \<and> s' = s \<and> \<not> hr_intercepted res \<and> hr_error res \<noteq> None
    | Inr _ \<Rightarrow> (case hk_Dispatch h (hq_tenantID r) (hq_kchatUserID r) (si_stripped intent) s of
        (s1, Inl _) \<Rightarrow> rows' = rows \<and> s' = s1 \<and> \<not> hr_intercepted res \<and> hr_error res \<noteq> None
      | (s1, Inr _) \<Rightarrow> s' = s1 \<and> hr_intercepted res)"
proof -
  have f: "forward_stripped h ''scheduledsend'' (hq_tenantID r) (hq_kchatUserID r) intent (schedule_store h pg ev r sendAt intent rows) rows s = (rows', s', res)"
    using assms(1-6,9) by (simp add: schedule_Intercept_def Let_def)
  show ?thesis
  proof (cases "hk_AccountResolver h (hq_tenantID r) (hq_kchatUserID r)")
    case (Inl e)
    then show ?thesis using f assms(7,8) by (auto simp: forward_stripped_def pass_def)
  next
    case acc: (Inr acc)
    obtain s1 o1 where d: "hk_Dispatch h (hq_tenantID r) (hq_kchatUserID r) (si_stripped intent) s = (s1, o1)"
      by (cases "hk_Dispatch h (hq_tenantID r) (hq_kchatUserID r) (si_stripped intent) s")
    show ?thesis
    proof (cases o1)
      case (Inl e)
      then show ?thesis using f assms(7,8) acc d by (auto simp: forward_stripped_def pass_def)
    next
      case (Inr resp)
      have s1: "s' = s1" using f assms(7,8) acc d Inr by (auto simp: forward_stripped_def split: if_splits option.splits prod.splits)
      have "hr_intercepted res"
      proof (rule ccontr)
        assume "\<not> hr_intercepted res"
        then show False using f schedule_store_intercepts [of h pg ev r sendAt intent rows] assms(7,8) acc d Inr
          by (auto simp: forward_stripped_def split: if_splits option.splits prod.splits) (metis snd_conv)+
      qed
      then show ?thesis using acc d Inr s1 by simp
    qed
  qed
qed

text \<open>
  C29: What becomes of a batch that asks for scheduling. Take a \<^verbatim>\<open>POST\<close> that carries mail as above, of at most 32 MiB, that the malware
  hook, if there is one, lets pass; with a well-formed \<^verbatim>\<open>X-KMail-Schedule-At\<close> inside the horizon, without undo send, and with a
  submission in the batch, from a user with an account. Under the chained hooks the proxy keeps it back when the account of the hook
  resolves and the internal client brings an answer for the stripped batch. When one of the two fails, the full batch is forwarded at
  once and nothing is scheduled: the mail goes out now instead of later.\<close>

theorem schedule_kept_back_iff:
  assumes "trim_space (hq_ScheduleAt r) \<noteq> []" and "parseScheduleAt (trim_space (hq_ScheduleAt r)) = Some sendAt"
    and "MinScheduleHorizon \<le> time_Sub sendAt now" and "time_Sub sendAt now \<le> MaxScheduleHorizon"
    and "hk_parse h (hq_content r) = Some jr" and "extractScheduleIntent jr = Some intent"
    and "hq_tenantID r \<noteq> []" and "hq_kchatUserID r \<noteq> []" and "hq_UndoSend r \<noteq> ''true''"
    and "carries_mail path (hq_content r)" and "length (hq_content r) \<le> maxScanBytes" and "\<forall>f. preDeliver = Some f \<longrightarrow> f (hq_content r) = None"
    and "resolve (hq_tenantID r) (hq_kchatUserID r) = Account acc"
  shows "\<exists>rows' s' res. schedule_Intercept h pg ev now r rows s = (rows', s', res)
    \<and> proxy_ServeHTTP resolve preDeliver (map_option (\<lambda>f _. f) (send_hooks h undo pg ev now r))
        (hq_tenantID r) (hq_kchatUserID r) ''POST'' path (Some (hq_content r)) False (q, rows, s)
      = (case hk_AccountResolver h (hq_tenantID r) (hq_kchatUserID r) of
           Inl _ \<Rightarrow> ((q, rows, s), Forward (Some (hq_content r)))
         | Inr _ \<Rightarrow> (case hk_Dispatch h (hq_tenantID r) (hq_kchatUserID r) (si_stripped intent) s of
             (s1, Inl _) \<Rightarrow> ((q, rows, s1), Forward (Some (hq_content r)))
           | (s1, Inr _) \<Rightarrow> ((q, rows', s1), HookReply (hr_reply res))))"
proof -
  obtain rows' s' res where i: "schedule_Intercept h pg ev now r rows s = (rows', s', res)" by (cases "schedule_Intercept h pg ev now r rows s")
  note out = schedule_Intercept_outcome [OF assms(1-8) i]
  then have "hr_intercepted res \<or> hr_error res \<noteq> None" by (auto split: sum.split_asm prod.split_asm) (metis sum.exhaust)
  then obtain hook where hook: "send_hooks h undo pg ev now r = Some hook" "hook (q, rows, s) = ((q, rows', s'), res)"
    by (rule send_hooks_without_undo [OF assms(9) i])
  have "proxy_ServeHTTP resolve preDeliver (map_option (\<lambda>f _. f) (send_hooks h undo pg ev now r))
        (hq_tenantID r) (hq_kchatUserID r) ''POST'' path (Some (hq_content r)) False (q, rows, s)
      = ((q, rows', s'), if hr_intercepted res then HookReply (hr_reply res) else Forward (Some (hq_content r)))"
    using assms(7,8,11-13) carries_mail_scanned [OF assms(10)] hook by (cases preDeliver) (simp_all add: proxy_ServeHTTP_def)
  then show ?thesis using i out by (auto split: sum.splits prod.splits)
qed

theorem schedule_kept_back_iff_witness:
  "\<exists>rows' s' res. schedule_Intercept (ex_hook False) ex_sends_pg ex_schedule_env 0 ex_send_request [] 0 = (rows', s', res)
    \<and> proxy_ServeHTTP (\<lambda>_ _. Account ''a'') (Some (PreDeliverHook noop_Scan)) (map_option (\<lambda>f _. f) (send_hooks (ex_hook False) (None :: unit undo_hook_env option) ex_sends_pg ex_schedule_env 0 ex_send_request))
      ''t'' ''u'' ''POST'' ''/jmap'' (Some (hq_content ex_send_request)) False ((), [], 0)
    = (((), [], 1), Forward (Some (hq_content ex_send_request)))"
proof -
  have "extractScheduleIntent ex_batch = Some (the (extractScheduleIntent ex_batch))" by code_simp
  moreover have "parseScheduleAt (trim_space (hq_ScheduleAt ex_send_request)) = Some (1000 * nanos_per_s)" by code_simp
  moreover have "trim_space (hq_ScheduleAt ex_send_request) \<noteq> []" "MinScheduleHorizon \<le> time_Sub (1000 * nanos_per_s) 0" "time_Sub (1000 * nanos_per_s) 0 \<le> MaxScheduleHorizon"
      "carries_mail ''/jmap'' (hq_content ex_send_request)" "hq_UndoSend ex_send_request \<noteq> ''true''" by code_simp+
  moreover have "length (hq_content ex_send_request) \<le> maxScanBytes" by (simp add: ex_send_request_def maxScanBytes_def)
  moreover have "hk_parse (ex_hook False) (hq_content ex_send_request) = Some ex_batch" "hq_tenantID ex_send_request = ''t''" "hq_kchatUserID ex_send_request = ''u''"
    by (simp_all add: ex_hook_def ex_send_request_def)
  moreover have "\<forall>f. Some (PreDeliverHook noop_Scan) = Some f \<longrightarrow> f (hq_content ex_send_request) = None" by (simp add: PreDeliverHook_def noop_Scan_def)
  ultimately show ?thesis
    using schedule_kept_back_iff [of ex_send_request "1000 * nanos_per_s" 0 "ex_hook False" ex_batch "the (extractScheduleIntent ex_batch)" "''/jmap''" "Some (PreDeliverHook noop_Scan)" "\<lambda>_ _. Account ''a''" "''a''" ex_sends_pg ex_schedule_env "[]" 0]
    by (simp add: ex_hook_def)
qed

subsection \<open>From the batch to the worker\<close>

text \<open>What the JSON encoder, the \<^verbatim>\<open>jsonb\<close> column and the decoder of the worker keep of an object: its keys and values.\<close>

definition keeps_objects :: "((string \<times> json) list \<Rightarrow> string option) \<Rightarrow> (string \<Rightarrow> string option) \<Rightarrow> (string \<Rightarrow> json option) \<Rightarrow> bool" where
  "keeps_objects marshal jsonb unmarshal \<longleftrightarrow>
     (\<forall>m p doc. marshal m = Some p \<longrightarrow> jsonb p = Some doc \<longrightarrow> doc \<noteq> [] \<and> (\<exists>m'. unmarshal doc = Some (JObject m') \<and> (\<forall>k. field m' k = field m k)))"

lemma Schedule_adds:
  assumes "Schedule pg fault nid dbnow now inp rows = (rows', Inr ss)"
  shows "rows' = rows @ [ss] \<and> sp_jsonb pg (in_SubmissionPayload inp) = Some (ss_SubmissionPayload ss) \<and> ss_EmailID ss = in_EmailID inp
    \<and> ss_IdentityID ss = in_IdentityID inp \<and> trim_space (in_IdentityID inp) \<noteq> [] \<and> ss_SendAt ss = column_time (in_SendAt inp)"
  using assms by (auto simp: Schedule_def validateSchedule_def Let_def split: option.splits if_splits)

lemma Schedule_fails: "Schedule pg fault nid dbnow now inp rows = (rows', Inl e) \<Longrightarrow> rows' = rows"
  by (auto simp: Schedule_def Let_def split: option.splits if_splits)

lemma schedule_store_adds:
  assumes "schedule_store h pg ev r sendAt intent rows acc resp email payload = (rows', res)" and "rows' \<noteq> rows"
  obtains ss where "rows' = rows @ [ss]" "sp_jsonb pg payload = Some (ss_SubmissionPayload ss)" "ss_EmailID ss = email"
    "ss_IdentityID ss = si_identityID intent" "trim_space (si_identityID intent) \<noteq> []" "ss_SendAt ss = column_time sendAt"
proof -
  define inp where "inp = \<lparr>in_TenantID = hq_tenantID r, in_KChatUserID = hq_kchatUserID r, in_StalwartAccountID = acc, in_EmailID = email,
           in_IdentityID = si_identityID intent, in_SubmissionPayload = payload, in_SendAt = sendAt\<rparr>"
  obtain rows1 o1 where S: "Schedule pg (se_fault ev) (se_nid ev) (se_dbnow ev) (se_now ev) inp rows = (rows1, o1)" by (cases "Schedule pg (se_fault ev) (se_nid ev) (se_dbnow ev) (se_now ev) inp rows")
  have "rows' = rows1" using assms(1) S unfolding schedule_store_def inp_def [symmetric] by (auto split: sum.splits send_error.splits)
  moreover obtain ss where "o1 = Inr ss" using Schedule_fails S assms(2) \<open>rows' = rows1\<close> by (cases o1) auto
  ultimately show thesis using that Schedule_adds S by (fastforce simp: inp_def)
qed

lemma normalised_field: "field (normalised create key email) k = (if k = ''emailId'' then field (normalised create key email) ''emailId'' else field create k)"
  by (simp add: normalised_def Let_def field_set_field)

lemma as_string_field: "as_string j \<noteq> [] \<Longrightarrow> j = JString (as_string j)"
  by (cases j) auto

lemma trim_space_Nil: "trim_space [] = []"
  by (simp add: trim_space_def)

text \<open>
  C30: When the hook scheduled a mail, the submission that the worker later builds from the stored row names the draft that Stalwart created
  for this batch and has every other field as the client sent it, and the row is due at the time of the header, cut to the
  microseconds of its column.\<close>

theorem scheduled_submission_roundtrip:
  assumes "schedule_Intercept h pg ev now r rows s = (rows', s', res)" and "rows' \<noteq> rows" and "keeps_objects (hk_marshal h) (sp_jsonb pg) unmarshal"
  shows "\<exists>ss jr intent resp email create. rows' = rows @ [ss] \<and> hk_parse h (hq_content r) = Some jr \<and> extractScheduleIntent jr = Some intent
    \<and> hk_Dispatch h (hq_tenantID r) (hq_kchatUserID r) (si_stripped intent) s = (s', Inr resp) \<and> resolveCreatedEmailID resp (si_emailCreateKey intent) = Some email
    \<and> map_option column_time (parseScheduleAt (trim_space (hq_ScheduleAt r))) = Some (ss_SendAt ss) \<and> ScheduledSend.buildSubmissionCreate unmarshal ss = Inr create
    \<and> (\<forall>k. field create k = (if k = ''emailId'' then JString email else field (si_submissionCreate intent) k))"
proof -
  obtain sendAt jr intent where at: "parseScheduleAt (trim_space (hq_ScheduleAt r)) = Some sendAt" and jr: "hk_parse h (hq_content r) = Some jr"
      and intent: "extractScheduleIntent jr = Some intent"
      and f: "forward_stripped h ''scheduledsend'' (hq_tenantID r) (hq_kchatUserID r) intent (schedule_store h pg ev r sendAt intent rows) rows s = (rows', s', res)"
    using assms(1,2) by (auto simp: schedule_Intercept_def Let_def split: if_splits option.splits)
  obtain acc resp email payload where d: "hk_Dispatch h (hq_tenantID r) (hq_kchatUserID r) (si_stripped intent) s = (s', Inr resp)"
      and email: "resolveCreatedEmailID resp (si_emailCreateKey intent) = Some email"
      and payload: "hk_marshal h (normalised (si_submissionCreate intent) (si_emailCreateKey intent) email) = Some payload"
      and st: "schedule_store h pg ev r sendAt intent rows acc resp email payload = (rows', res)"
    using f assms(2) by (auto simp: forward_stripped_def normaliseSubmissionPayload_def split: if_splits sum.splits option.splits prod.splits)
  obtain ss where ss: "rows' = rows @ [ss]" "sp_jsonb pg payload = Some (ss_SubmissionPayload ss)" "ss_EmailID ss = email"
      "ss_IdentityID ss = si_identityID intent" "trim_space (si_identityID intent) \<noteq> []" "ss_SendAt ss = column_time sendAt"
    by (rule schedule_store_adds [OF st assms(2)])
  obtain m where m: "unmarshal (ss_SubmissionPayload ss) = Some (JObject m)" "ss_SubmissionPayload ss \<noteq> []"
      and fm: "\<And>k. field m k = field (normalised (si_submissionCreate intent) (si_emailCreateKey intent) email) k"
    using assms(3) payload ss(2) unfolding keeps_objects_def by blast
  have "si_identityID intent = as_string (field (si_submissionCreate intent) ''identityId'')"
    using intent by (auto simp: extractScheduleIntent_def Let_def split: option.splits)
  then have idf: "field (si_submissionCreate intent) ''identityId'' = JString (si_identityID intent)" using ss(5) as_string_field trim_space_Nil by metis
  let ?c = "set_field ''identityId'' (JString (si_identityID intent)) (set_field ''emailId'' (JString email) m)"
  have "ScheduledSend.buildSubmissionCreate unmarshal ss = Inr ?c" using m ss by (simp add: ScheduledSend.buildSubmissionCreate_def Let_def)
  moreover have "field ?c k = (if k = ''emailId'' then JString email else field (si_submissionCreate intent) k)" for k
    using normalised_field [of "si_submissionCreate intent" "si_emailCreateKey intent" email k] by (auto simp: field_set_field fm idf)
  moreover have "map_option column_time (parseScheduleAt (trim_space (hq_ScheduleAt r))) = Some (ss_SendAt ss)" using at ss(6) by simp
  ultimately show ?thesis using ss(1) jr intent d email by blast
qed

definition ex_unmarshal :: "string \<Rightarrow> json option" where
  "ex_unmarshal s = (case s of [] \<Rightarrow> None | _ # e \<Rightarrow> Some (JObject [(''emailId'', JString e), (''identityId'', JString ''i'')]))"

definition ex_marshal :: "(string \<times> json) list \<Rightarrow> string option" where
  "ex_marshal m =
     (let e = as_string (field m ''emailId'') in if m = [(''emailId'', JString e), (''identityId'', JString ''i'')] then Some (''{'' @ e) else None)"

definition ex_codec_hook :: "nat hook" where
  "ex_codec_hook = (ex_hook True)\<lparr>hk_marshal := ex_marshal\<rparr>"

theorem scheduled_submission_roundtrip_witness:
  "\<exists>ss create. fst (schedule_Intercept ex_codec_hook ex_sends_pg ex_schedule_env 0 ex_send_request [] 0) = [ss]
    \<and> ScheduledSend.buildSubmissionCreate ex_unmarshal ss = Inr create \<and> field create ''identityId'' = JString ''i''"
proof -
  let ?i = "schedule_Intercept ex_codec_hook ex_sends_pg ex_schedule_env 0 ex_send_request [] 0"
  have "keeps_objects (hk_marshal ex_codec_hook) (sp_jsonb ex_sends_pg) ex_unmarshal"
    unfolding keeps_objects_def by (auto simp: ex_codec_hook_def ex_marshal_def ex_unmarshal_def ex_sends_pg_def Let_def split: if_splits)
  moreover have "fst ?i \<noteq> []" by code_simp
  ultimately have "\<exists>ss jr intent resp email create. fst ?i = [] @ [ss] \<and> hk_parse ex_codec_hook (hq_content ex_send_request) = Some jr \<and> extractScheduleIntent jr = Some intent
    \<and> hk_Dispatch ex_codec_hook (hq_tenantID ex_send_request) (hq_kchatUserID ex_send_request) (si_stripped intent) 0 = (fst (snd ?i), Inr resp)
    \<and> resolveCreatedEmailID resp (si_emailCreateKey intent) = Some email
    \<and> map_option column_time (parseScheduleAt (trim_space (hq_ScheduleAt ex_send_request))) = Some (ss_SendAt ss) \<and> ScheduledSend.buildSubmissionCreate ex_unmarshal ss = Inr create
    \<and> (\<forall>k. field create k = (if k = ''emailId'' then JString email else field (si_submissionCreate intent) k))"
    by (intro scheduled_submission_roundtrip [where res = "snd (snd ?i)"]) (simp_all only: prod.collapse not_False_eq_True)
  then obtain ss jr intent email create where w: "fst ?i = [ss]" "hk_parse ex_codec_hook (hq_content ex_send_request) = Some jr" "extractScheduleIntent jr = Some intent"
      "ScheduledSend.buildSubmissionCreate ex_unmarshal ss = Inr create" "\<forall>k. field create k = (if k = ''emailId'' then JString email else field (si_submissionCreate intent) k)"
    unfolding append_Nil by blast
  have "jr = ex_batch" using w(2) by (simp add: ex_codec_hook_def ex_hook_def)
  moreover have "map_option (\<lambda>i. field (si_submissionCreate i) ''identityId'') (extractScheduleIntent ex_batch) = Some (JString ''i'')" by code_simp
  ultimately have "field (si_submissionCreate intent) ''identityId'' = JString ''i''" using w(3) by simp
  then show ?thesis using w(1,4) spec [OF w(5), of "''identityId''"] by simp
qed

subsection \<open>Scanning\<close>

text \<open>
  C31: With the ClamAV scanner wired, take a request by \<^verbatim>\<open>POST\<close> or \<^verbatim>\<open>PUT\<close> that carries mail: an upload, or a batch at \<^verbatim>\<open>/jmap\<close> that has
  the quoted name of a submitting method in its text. The proxy forwards it only unchanged, complete and of at most 32 MiB, and only if
  the daemon, given the body up to the cap of the adapter, did not answer that it found something; a scan that fails lets the mail
  pass.\<close>

theorem forwarded_was_scanned:
  assumes "proxy_ServeHTTP resolve (Some (PreDeliverHook (clamav_Scan cfg clamd))) interceptor tenantID kchatUserID meth path (Some body) unreadable x = (x', Forward (Some body'))"
    and "meth = ''POST'' \<or> meth = ''PUT''" and "carries_mail path body" and "body \<noteq> []"
  shows "body' = body \<and> length body \<le> 32 * 1024 * 1024 \<and> \<not> unreadable
    \<and> \<not> (\<exists>reply. clamd (instream (take (cv_MaxBytes cfg) body)) = Replied reply \<and> suffix '' FOUND'' (reply_line reply))"
proof -
  have "body' = body" "length body \<le> maxScanBytes" "\<not> unreadable" "PreDeliverHook (clamav_Scan cfg clamd) body = None"
    using assms(1,2) carries_mail_scanned [OF assms(3)] by (auto simp: proxy_ServeHTTP_def split: if_splits account_lookup.splits option.splits prod.splits)
  then show ?thesis using hook_refuses_iff [of cfg clamd body] assms(4) by (simp add: maxScanBytes_def HasSuffix_def)
qed

definition ex_clamd :: "string \<Rightarrow> exchange" where
  "ex_clamd s = Replied (if contains_sub ''EICAR'' s then ''stream: Eicar FOUND'' @ [char_of (0 :: nat)] else ''stream: OK'' @ [char_of (0 :: nat)])"

definition ex_clamav :: ClamAVConfig where
  "ex_clamav = \<lparr>cv_Addr = ''clamav:3310'', cv_MaxBytes = 26\<rparr>"

theorem forwarded_was_scanned_witness:
  "proxy_ServeHTTP (\<lambda>_ _. Account ''a'') (Some (PreDeliverHook (clamav_Scan ex_clamav ex_clamd))) None ''t'' ''u'' ''POST'' ''/jmap/upload/a'' (Some ''MIME'') False ()
     = ((), Forward (Some ''MIME''))
   \<and> \<not> (\<exists>reply. ex_clamd (instream ''MIME'') = Replied reply \<and> suffix '' FOUND'' (reply_line reply))
   \<and> proxy_ServeHTTP (\<lambda>_ _. Account ''a'') (Some (PreDeliverHook (clamav_Scan ex_clamav ex_clamd))) None ''t'' ''u'' ''POST'' ''/jmap/upload/a'' (Some ''EICAR'') False ()
     = ((), ProxyError 422 ''message rejected by malware scanner'')"
proof -
  have c: "requestCarriesMessageContent ''/jmap/upload/a''" "shouldScanBody ''/jmap/upload/a'' ''MIME''" "shouldScanBody ''/jmap/upload/a'' ''EICAR''"
      "carries_mail ''/jmap/upload/a'' ''MIME''" by code_simp+
  have wire: "instream ''MIME'' = ''zINSTREAM'' @ map char_of [0, 0, 0, 0, 4 :: nat] @ ''MIME'' @ map char_of [0, 0, 0, 0 :: nat]"
      "instream ''EICAR'' = ''zINSTREAM'' @ map char_of [0, 0, 0, 0, 5 :: nat] @ ''EICAR'' @ map char_of [0, 0, 0, 0 :: nat]"
    by (simp_all add: instream_def write_one_chunk chunk_def be32_def)
  have reply: "ex_clamd (instream ''MIME'') = Replied (''stream: OK'' @ [char_of (0 :: nat)])" "ex_clamd (instream ''EICAR'') = Replied (''stream: Eicar FOUND'' @ [char_of (0 :: nat)])"
    unfolding wire by code_simp+
  have line: "HasSuffix (reply_line (''stream: Eicar FOUND'' @ [char_of (0 :: nat)])) '' FOUND''" "\<not> HasSuffix (reply_line (''stream: OK'' @ [char_of (0 :: nat)])) '' FOUND''"
    by code_simp+
  have h: "PreDeliverHook (clamav_Scan ex_clamav ex_clamd) ''MIME'' = None" "PreDeliverHook (clamav_Scan ex_clamav ex_clamd) ''EICAR'' \<noteq> None"
    using hook_refuses_iff [of ex_clamav ex_clamd "''MIME''"] hook_refuses_iff [of ex_clamav ex_clamd "''EICAR''"] reply line by (simp_all add: ex_clamav_def)
  have f: "proxy_ServeHTTP (\<lambda>_ _. Account ''a'') (Some (PreDeliverHook (clamav_Scan ex_clamav ex_clamd))) None ''t'' ''u'' ''POST'' ''/jmap/upload/a'' (Some ''MIME'') False () = ((), Forward (Some ''MIME''))"
    and g: "proxy_ServeHTTP (\<lambda>_ _. Account ''a'') (Some (PreDeliverHook (clamav_Scan ex_clamav ex_clamd))) None ''t'' ''u'' ''POST'' ''/jmap/upload/a'' (Some ''EICAR'') False () = ((), ProxyError 422 ''message rejected by malware scanner'')"
    using c h by (auto simp: proxy_ServeHTTP_def maxScanBytes_def)
  show ?thesis using forwarded_was_scanned [OF f _ c(4)] f g by (simp add: ex_clamav_def)
qed

text \<open>A scanner that fails lets a mail pass.\<close>

lemma scanner_failure_passes: "clamd (instream (take (cv_MaxBytes cfg) body)) = NoConnection e \<Longrightarrow> PreDeliverHook (clamav_Scan cfg clamd) body = None"
  by (simp add: PreDeliverHook_def clamav_Scan_def)

text \<open>The route \<^verbatim>\<open>/jmap/\<close> also serves \<^verbatim>\<open>/jmap/api\<close>, whose batches neither the scanner nor a hook sees.\<close>

lemma jmap_api_unscanned:
  "resolve tenantID kchatUserID = Account acc \<Longrightarrow> tenantID \<noteq> [] \<Longrightarrow> kchatUserID \<noteq> []
   \<Longrightarrow> proxy_ServeHTTP resolve preDeliver interceptor tenantID kchatUserID meth ''/jmap/api'' (Some body) unreadable x = (x, Forward (Some body))"
proof -
  have "\<not> requestCarriesMessageContent ''/jmap/api''" by code_simp
  then show "resolve tenantID kchatUserID = Account acc \<Longrightarrow> tenantID \<noteq> [] \<Longrightarrow> kchatUserID \<noteq> [] \<Longrightarrow> ?thesis" by (simp add: proxy_ServeHTTP_def)
qed

text \<open>A solidus that JSON allows to be escaped hides the method name from the scan of \<^verbatim>\<open>/jmap\<close>.\<close>

lemma escaped_method_unscanned: "\<not> shouldScanBody ''/jmap'' (''[[\"Email'' @ CHR 0x5C # ''/set\",{},\"0\"]]'')"
  by code_simp

text \<open>A submission of an existing draft, named by its id, is taken out of the batch and neither scheduled nor sent; the answer is 200.\<close>

lemma existing_draft_dropped:
  assumes "hq_tenantID r \<noteq> []" "hq_kchatUserID r \<noteq> []" "hk_AccountResolver h (hq_tenantID r) (hq_kchatUserID r) = Inr acc"
    and "hk_Dispatch h (hq_tenantID r) (hq_kchatUserID r) (si_stripped intent) s = (s', Inr resp)" and "FirstCallError resp = None" and "si_emailCreateKey intent = []"
  shows "forward_stripped h pkg (hq_tenantID r) (hq_kchatUserID r) intent store q s = (q, s', writeJMAPResponse h pkg [] resp)"
  using assms by (simp add: forward_stripped_def resolveCreatedEmailID_def trim_space_Nil)

text \<open>The internal client reports a method error of the batch as an error, so the hooks never see one in a response.\<close>

lemma hook_method_error_branch_dead:
  "hk_Dispatch h = Dispatch c \<Longrightarrow> hk_Dispatch h tid u req s = (s', Inr resp) \<Longrightarrow> FirstCallError resp = None"
  using Dispatch_no_method_error by metis

end
