(* ===== verification/Snooze.thy ===== *)
theory Snooze
  imports Jmap LeaseQueue
begin

text \<open>
  Snoozed mail (\<^verbatim>\<open>internal/snooze\<close>): the table with its service (\<^verbatim>\<open>service.go\<close>), the worker that wakes mail (\<^verbatim>\<open>worker.go\<close>) and the REST
  handlers with the moves they make in Stalwart (\<^verbatim>\<open>handlers.go\<close>).

  The conventions are those of \<open>ScheduledSend\<close>. \<open>unmarshal\<close> decodes a \<^verbatim>\<open>map[string]bool\<close> (\<^verbatim>\<open>null\<close> to the empty map), \<open>marshal\<close> encodes it.
\<close>

record Snooze =
  sz_ID :: string
  sz_TenantID :: string
  sz_KChatUserID :: string
  sz_StalwartAccountID :: string
  sz_EmailID :: string
  sz_OriginalMailboxIDs :: string
  sz_SnoozedMailboxID :: string
  sz_SnoozeUntil :: time
  sz_MarkUnreadOnWake :: bool
  sz_Status :: string
  sz_Attempts :: int
  sz_LastError :: string
  sz_NextRetryAt :: time
  sz_WokenAt :: "time option"
  sz_CreatedAt :: time

datatype snooze_error =
    SnoozeNotFound | AlreadyAwake | AlreadyCancelled | InvalidSnooze string | SnoozeTenantMismatch | AlreadySnoozed | SnoozeFailed
  | SnoozeRequired string | SnoozeDb string | UnexpectedStatus string

record SnoozeInput =
  zi_TenantID :: string
  zi_KChatUserID :: string
  zi_StalwartAccountID :: string
  zi_EmailID :: string
  zi_OriginalMailboxIDs :: string
  zi_SnoozedMailboxID :: string
  zi_SnoozeUntil :: time
  zi_MarkUnreadOnWake :: bool

type_synonym mailbox_decoder = "string \<Rightarrow> (string \<times> bool) list option"

definition MinSnoozeHorizon :: duration where "MinSnoozeHorizon = 60 * nanos_per_s"
definition MaxSnoozeHorizon :: duration where "MaxSnoozeHorizon = 365 * 24 * nanos_per_hour"
definition DispatchLeaseInterval :: duration where "DispatchLeaseInterval = 300 * nanos_per_s"
definition DefaultMaxAttempts :: int where "DefaultMaxAttempts = 5"
definition zero_time :: time where "zero_time = - 62135596800 * nanos_per_s"

subsection \<open>Service\<close>

definition validateSnooze :: "mailbox_decoder \<Rightarrow> time \<Rightarrow> SnoozeInput \<Rightarrow> snooze_error option" where
  "validateSnooze unmarshal now inp =
     (if trim_space (zi_TenantID inp) = [] then Some (SnoozeRequired ''TenantID'')
      else if trim_space (zi_KChatUserID inp) = [] then Some (SnoozeRequired ''KChatUserID'')
      else if trim_space (zi_StalwartAccountID inp) = [] then Some (SnoozeRequired ''StalwartAccountID'')
      else if trim_space (zi_EmailID inp) = [] then Some (SnoozeRequired ''EmailID'')
      else if zi_OriginalMailboxIDs inp = [] then Some (SnoozeRequired ''OriginalMailboxIDs'')
      else case unmarshal (zi_OriginalMailboxIDs inp) of
          None \<Rightarrow> Some (SnoozeRequired ''OriginalMailboxIDs must be JSON object of mailboxId to bool'')
        | Some probe \<Rightarrow>
            if probe = [] then Some (SnoozeRequired ''OriginalMailboxIDs must contain at least one mailbox'')
            else if trim_space (zi_SnoozedMailboxID inp) = [] then Some (SnoozeRequired ''SnoozedMailboxID'')
            else if zi_SnoozeUntil inp = zero_time then Some (InvalidSnooze ''snooze_until is zero'')
            else let horizon = time_Sub (zi_SnoozeUntil inp) now in
              if horizon < MinSnoozeHorizon then Some (InvalidSnooze ''snooze_until must be at least 1m0s in the future'')
              else if horizon > MaxSnoozeHorizon then Some (InvalidSnooze ''snooze_until must be within 8760h0m0s'')
              else None)"

text \<open>A violation of a unique constraint, the partial index on active rows or the primary key, reads as \<^verbatim>\<open>ErrAlreadySnoozed\<close>.\<close>

definition snooze_Snooze :: "queue_pg \<Rightarrow> mailbox_decoder \<Rightarrow> string option \<Rightarrow> string \<Rightarrow> time \<Rightarrow> time \<Rightarrow> SnoozeInput \<Rightarrow> Snooze list \<Rightarrow> Snooze list \<times> (snooze_error + Snooze)" where
  "snooze_Snooze pg unmarshal fault nid dbnow now inp rows =
     (case validateSnooze unmarshal now inp of
        Some e \<Rightarrow> (rows, Inl e)
      | None \<Rightarrow>
          (case (fault, sp_uuid pg (zi_TenantID inp), sp_jsonb pg (zi_OriginalMailboxIDs inp)) of
             (None, Some tid, Some doc) \<Rightarrow>
               if list_ex (\<lambda>r. sz_ID r = nid \<or> sz_Status r = ''snoozed'' \<and> sz_TenantID r = tid \<and> sz_KChatUserID r = zi_KChatUserID inp \<and> sz_EmailID r = zi_EmailID inp) rows
               then (rows, Inl AlreadySnoozed)
               else if \<not> sp_tenant pg tid then (rows, Inl (SnoozeDb ''snoozed_emails_tenant_id_fkey''))
               else let r = \<lparr>sz_ID = nid, sz_TenantID = tid, sz_KChatUserID = zi_KChatUserID inp, sz_StalwartAccountID = zi_StalwartAccountID inp, sz_EmailID = zi_EmailID inp,
                      sz_OriginalMailboxIDs = doc, sz_SnoozedMailboxID = zi_SnoozedMailboxID inp, sz_SnoozeUntil = column_time (zi_SnoozeUntil inp), sz_MarkUnreadOnWake = zi_MarkUnreadOnWake inp,
                      sz_Status = ''snoozed'', sz_Attempts = 0, sz_LastError = [], sz_NextRetryAt = column_time (zi_SnoozeUntil inp), sz_WokenAt = None, sz_CreatedAt = dbnow\<rparr>
                 in (rows @ [r], Inr r)
           | (Some e, _, _) \<Rightarrow> (rows, Inl (SnoozeDb e))
           | _ \<Rightarrow> (rows, Inl (SnoozeDb ''invalid input syntax''))))"

definition Get :: "queue_pg \<Rightarrow> string option \<Rightarrow> string \<Rightarrow> string \<Rightarrow> string \<Rightarrow> Snooze list \<Rightarrow> snooze_error + Snooze" where
  "Get pg fault tenantID kchatUserID i rows =
     (if trim_space tenantID = [] then Inl (SnoozeRequired ''tenantID'')
      else if trim_space kchatUserID = [] then Inl (SnoozeRequired ''kchatUserID'')
      else if trim_space i = [] then Inl SnoozeNotFound
      else case (fault, sp_uuid pg tenantID, sp_uuid pg i) of
          (None, Some tid, Some rid) \<Rightarrow>
            (case find (\<lambda>r. sz_ID r = rid \<and> sz_TenantID r = tid \<and> sz_KChatUserID r = kchatUserID) rows of
               None \<Rightarrow> Inl SnoozeNotFound
             | Some r \<Rightarrow> if sz_TenantID r \<noteq> tenantID then Inl SnoozeTenantMismatch else Inr r)
        | (Some e, _, _) \<Rightarrow> Inl (SnoozeDb e)
        | _ \<Rightarrow> Inl (SnoozeDb ''invalid input syntax for type uuid''))"

definition ListByUser :: "queue_pg \<Rightarrow> string option \<Rightarrow> string \<Rightarrow> string \<Rightarrow> Snooze list \<Rightarrow> snooze_error + Snooze list" where
  "ListByUser pg fault tenantID kchatUserID rows =
     (if trim_space tenantID = [] then Inl (SnoozeRequired ''tenantID'')
      else if trim_space kchatUserID = [] then Inl (SnoozeRequired ''kchatUserID'')
      else case (fault, sp_uuid pg tenantID) of
          (None, Some tid) \<Rightarrow>
            Inr (take 500 (sort_key (\<lambda>r. - sz_CreatedAt r) (filter (\<lambda>r. sz_TenantID r = tid \<and> sz_KChatUserID r = kchatUserID) rows)))
        | (Some e, _) \<Rightarrow> Inl (SnoozeDb e)
        | _ \<Rightarrow> Inl (SnoozeDb ''invalid input syntax for type uuid''))"

definition Cancel :: "queue_pg \<Rightarrow> string option \<Rightarrow> string \<Rightarrow> string \<Rightarrow> string \<Rightarrow> Snooze list \<Rightarrow> Snooze list \<times> snooze_error option" where
  "Cancel pg fault tenantID kchatUserID i rows =
     (if trim_space tenantID = [] then (rows, Some (SnoozeRequired ''tenantID''))
      else if trim_space kchatUserID = [] then (rows, Some (SnoozeRequired ''kchatUserID''))
      else if trim_space i = [] then (rows, Some SnoozeNotFound)
      else case (fault, sp_uuid pg tenantID, sp_uuid pg i) of
          (None, Some tid, Some rid) \<Rightarrow>
            let P = (\<lambda>r. sz_ID r = rid \<and> sz_TenantID r = tid \<and> sz_KChatUserID r = kchatUserID \<and> (sz_Status r = ''snoozed'' \<or> sz_Status r = ''failed'')) in
            if length (filter P rows) = 1 then (map (\<lambda>r. if P r then r\<lparr>sz_Status := ''cancelled''\<rparr> else r) rows, None)
            else (rows, Some (case find (\<lambda>r. sz_ID r = rid) rows of
                None \<Rightarrow> SnoozeNotFound
              | Some r \<Rightarrow>
                  if sz_TenantID r \<noteq> tenantID then SnoozeTenantMismatch
                  else if sz_KChatUserID r \<noteq> kchatUserID then SnoozeNotFound
                  else if sz_Status r = ''unsnoozed'' then AlreadyAwake
                  else if sz_Status r = ''cancelled'' then AlreadyCancelled
                  else if sz_Status r = ''failed'' then SnoozeFailed
                  else UnexpectedStatus (sz_Status r)))
        | (Some e, _, _) \<Rightarrow> (rows, Some (SnoozeDb e))
        | _ \<Rightarrow> (rows, Some (SnoozeDb ''invalid input syntax for type uuid'')))"

definition claimDue :: "string option \<Rightarrow> time \<Rightarrow> string list \<Rightarrow> time \<Rightarrow> Snooze list \<Rightarrow> Snooze list \<times> (snooze_error + Snooze)" where
  "claimDue fault dbnow locked now rows =
     (case fault of
        Some e \<Rightarrow> (rows, Inl (SnoozeDb e))
      | None \<Rightarrow>
          let leaseUntil = now + DispatchLeaseInterval in
          (case sort_key sz_SnoozeUntil (filter (\<lambda>r. sz_Status r = ''snoozed'' \<and> sz_SnoozeUntil r \<le> dbnow \<and> sz_NextRetryAt r \<le> dbnow \<and> sz_ID r \<notin> set locked) rows) of
             [] \<Rightarrow> (rows, Inl SnoozeNotFound)
           | r # _ \<Rightarrow> (map (\<lambda>x. if sz_ID x = sz_ID r then x\<lparr>sz_Attempts := sz_Attempts x + 1, sz_NextRetryAt := leaseUntil\<rparr> else x) rows,
                       Inr (r\<lparr>sz_Attempts := sz_Attempts r + 1, sz_NextRetryAt := leaseUntil\<rparr>))))"

definition on_snoozed :: "string option \<Rightarrow> string \<Rightarrow> (Snooze \<Rightarrow> Snooze) \<Rightarrow> Snooze list \<Rightarrow> Snooze list \<times> snooze_error option" where
  "on_snoozed fault i f rows =
     (case fault of Some e \<Rightarrow> (rows, Some (SnoozeDb e)) | None \<Rightarrow> (map (\<lambda>r. if sz_ID r = i \<and> sz_Status r = ''snoozed'' then f r else r) rows, None))"

definition markUnsnoozed :: "string option \<Rightarrow> string \<Rightarrow> time \<Rightarrow> Snooze list \<Rightarrow> Snooze list \<times> snooze_error option" where
  "markUnsnoozed fault i wokenAt = on_snoozed fault i (\<lambda>r. r\<lparr>sz_Status := ''unsnoozed'', sz_WokenAt := Some wokenAt, sz_LastError := []\<rparr>)"

definition markFailed :: "string option \<Rightarrow> string \<Rightarrow> string \<Rightarrow> Snooze list \<Rightarrow> Snooze list \<times> snooze_error option" where
  "markFailed fault i lastErr = on_snoozed fault i (\<lambda>r. r\<lparr>sz_Status := ''failed'', sz_LastError := lastErr\<rparr>)"

definition scheduleRetry :: "string option \<Rightarrow> string \<Rightarrow> time \<Rightarrow> string \<Rightarrow> Snooze list \<Rightarrow> Snooze list \<times> snooze_error option" where
  "scheduleRetry fault i nextRetryAt lastErr = on_snoozed fault i (\<lambda>r. r\<lparr>sz_NextRetryAt := nextRetryAt, sz_LastError := lastErr\<rparr>)"

subsection \<open>Worker\<close>

record 's snooze_worker =
  zw_Dispatch :: "string \<Rightarrow> string \<Rightarrow> JmapRequest \<Rightarrow> 's \<Rightarrow> 's \<times> (jmap_error + JmapResponse)"
  zw_unmarshal :: mailbox_decoder
  zw_text :: "jmap_error \<Rightarrow> string"
  zw_json :: "json \<Rightarrow> string"
  zw_interval :: duration
  zw_maxBatch :: int
  zw_maxAttempts :: int

record 's snooze_worker_config =
  zc_store :: bool
  zc_internal :: "(string \<Rightarrow> string \<Rightarrow> JmapRequest \<Rightarrow> 's \<Rightarrow> 's \<times> (jmap_error + JmapResponse)) option"
  zc_interval :: duration
  zc_maxBatch :: int
  zc_maxAttempts :: int

definition newDispatchWorkerWithStore :: "mailbox_decoder \<Rightarrow> (jmap_error \<Rightarrow> string) \<Rightarrow> (json \<Rightarrow> string) \<Rightarrow> 's snooze_worker_config \<Rightarrow> 's snooze_worker option" where
  "newDispatchWorkerWithStore unmarshal txt js cfg =
     (if \<not> zc_store cfg then None
      else case zc_internal cfg of
          None \<Rightarrow> None
        | Some d \<Rightarrow> Some \<lparr>zw_Dispatch = d, zw_unmarshal = unmarshal, zw_text = txt, zw_json = js,
            zw_interval = (if zc_interval cfg \<le> 0 then 30 * nanos_per_s else zc_interval cfg),
            zw_maxBatch = (if zc_maxBatch cfg \<le> 0 then 25 else zc_maxBatch cfg),
            zw_maxAttempts = (if zc_maxAttempts cfg \<le> 0 then DefaultMaxAttempts else zc_maxAttempts cfg)\<rparr>)"

definition mailbox_key :: "string \<Rightarrow> string" where
  "mailbox_key mb = ''mailboxIds/'' @ mb"

text \<open>Every key of the original map is set, whatever its value; the empty key is skipped.\<close>

definition set_mailboxes :: "json \<Rightarrow> (string \<times> bool) list \<Rightarrow> (string \<times> json) list \<Rightarrow> (string \<times> json) list" where
  "set_mailboxes v orig patch = fold (\<lambda>(mb, _) p. if mb = [] then p else set_field (mailbox_key mb) v p) orig patch"

definition buildWakePatch :: "mailbox_decoder \<Rightarrow> Snooze \<Rightarrow> string + (string \<times> json) list" where
  "buildWakePatch unmarshal ss =
     (case unmarshal (sz_OriginalMailboxIDs ss) of
        None \<Rightarrow> Inl ''snooze: parse original mailbox ids''
      | Some orig \<Rightarrow>
          if orig = [] then Inl ''snooze: empty original mailbox ids''
          else let p1 = set_mailboxes (JBool True) orig (set_field (mailbox_key (sz_SnoozedMailboxID ss)) JNull [])
            in Inr (if sz_MarkUnreadOnWake ss then set_field ''keywords/$seen'' JNull p1 else p1))"

definition update_request :: "string \<Rightarrow> string \<Rightarrow> string \<Rightarrow> (string \<times> json) list \<Rightarrow> JmapRequest" where
  "update_request callID accountID emailID patch =
     \<lparr>jq_Using = [''urn:ietf:params:jmap:core'', ''urn:ietf:params:jmap:mail''],
      jq_MethodCalls = [[JString ''Email/set'', JObject [(''accountId'', JString accountID), (''update'', JObject [(emailID, JObject patch)])], JString callID]],
      jq_CreatedIds = []\<rparr>"

definition not_updated :: "(string \<times> json) list \<Rightarrow> string \<Rightarrow> json option" where
  "not_updated args emailID = (case field args ''notUpdated'' of JObject m \<Rightarrow> map_of m emailID | _ \<Rightarrow> None)"

definition dispatch :: "'s snooze_worker \<Rightarrow> Snooze \<Rightarrow> 's \<Rightarrow> 's \<times> string option" where
  "dispatch w ss s =
     (case buildWakePatch (zw_unmarshal w) ss of
        Inl e \<Rightarrow> (s, Some e)
      | Inr patch \<Rightarrow>
          (case zw_Dispatch w (sz_TenantID ss) (sz_KChatUserID ss) (update_request ''wake'' (sz_StalwartAccountID ss) (sz_EmailID ss) patch) s of
             (s', Inl e) \<Rightarrow> (s', Some (''dispatch wake: '' @ zw_text w e))
           | (s', Inr resp) \<Rightarrow>
               (s', if jp_MethodResponses resp = [] then Some ''snooze: empty wake response''
                    else case CallByID resp ''wake'' of
                        None \<Rightarrow> Some ''snooze: wake response missing client id''
                      | Some (name, args) \<Rightarrow>
                          if name \<noteq> ''Email/set'' then Some (''snooze: unexpected wake response method '' @ name)
                          else (case not_updated args (sz_EmailID ss) of Some reason \<Rightarrow> Some (''snooze: wake refused by stalwart: '' @ zw_json w reason) | None \<Rightarrow> None))))"

definition snoozeBackoff :: "int \<Rightarrow> duration" where
  "snoozeBackoff attempts = (if attempts \<le> 1 then 60 * nanos_per_s else if attempts = 2 then 300 * nanos_per_s else 1800 * nanos_per_s)"

definition handleErr :: "'s snooze_worker \<Rightarrow> string option \<Rightarrow> time \<Rightarrow> Snooze \<Rightarrow> string \<Rightarrow> Snooze list \<Rightarrow> Snooze list \<times> snooze_error option" where
  "handleErr w fault now ss e rows =
     (if sz_Attempts ss \<ge> zw_maxAttempts w then markFailed fault (sz_ID ss) e rows
      else scheduleRetry fault (sz_ID ss) (now + snoozeBackoff (sz_Attempts ss)) e rows)"

record snooze_turn =
  zt_dbnow :: time
  zt_locked :: "string list"
  zt_claim_now :: time
  zt_claim_fault :: "string option"
  zt_others :: "Snooze list \<Rightarrow> Snooze list"
  zt_end :: time
  zt_record_fault :: "string option"

definition dispatchOne :: "'s snooze_worker \<Rightarrow> snooze_turn \<Rightarrow> Snooze list \<Rightarrow> 's \<Rightarrow> Snooze list \<times> 's \<times> snooze_error option" where
  "dispatchOne w ev rows s =
     (case claimDue (zt_claim_fault ev) (zt_dbnow ev) (zt_locked ev) (zt_claim_now ev) rows of
        (rows1, Inl e) \<Rightarrow> (rows1, s, Some e)
      | (rows1, Inr row) \<Rightarrow>
          (case dispatch w row s of
             (s1, Some e) \<Rightarrow> (case handleErr w (zt_record_fault ev) (zt_end ev) row e (zt_others ev rows1) of (rows2, r) \<Rightarrow> (rows2, s1, r))
           | (s1, None) \<Rightarrow> (case markUnsnoozed (zt_record_fault ev) (sz_ID row) (zt_end ev) (zt_others ev rows1) of (rows2, r) \<Rightarrow> (rows2, s1, r))))"

fun snooze_Tick_loop :: "'s snooze_worker \<Rightarrow> nat \<Rightarrow> (nat \<Rightarrow> snooze_turn) \<Rightarrow> Snooze list \<Rightarrow> 's \<Rightarrow> Snooze list \<times> 's" where
  "snooze_Tick_loop w 0 evs rows s = (rows, s)"
| "snooze_Tick_loop w (Suc n) evs rows s =
     (case dispatchOne w (evs 0) rows s of
        (rows1, s1, None) \<Rightarrow> snooze_Tick_loop w n (\<lambda>k. evs (Suc k)) rows1 s1
      | (rows1, s1, Some _) \<Rightarrow> (rows1, s1))"

definition snooze_Tick :: "'s snooze_worker \<Rightarrow> (nat \<Rightarrow> snooze_turn) \<Rightarrow> Snooze list \<Rightarrow> 's \<Rightarrow> Snooze list \<times> 's" where
  "snooze_Tick w evs rows s = snooze_Tick_loop w (nat (zw_maxBatch w)) evs rows s"

subsection \<open>Handlers\<close>

record 's snooze_handlers =
  zh_Resolve :: "string \<Rightarrow> string \<Rightarrow> string + string"
  zh_Dispatch :: "string \<Rightarrow> string \<Rightarrow> JmapRequest \<Rightarrow> 's \<Rightarrow> 's \<times> (jmap_error + JmapResponse)"
  zh_marshal :: "(string \<times> bool) list \<Rightarrow> string"
  zh_unmarshal :: mailbox_decoder
  zh_pg :: queue_pg

record createRequest =
  cr_EmailID :: string
  cr_OriginalMailboxIDs :: "(string \<times> bool) list"
  cr_SnoozedMailboxID :: string
  cr_SnoozeUntil :: time
  cr_MarkUnreadOnWake :: "bool option"

record responsePayload =
  rz_ID :: string
  rz_Status :: string
  rz_EmailID :: string
  rz_SnoozedMailboxID :: string
  rz_SnoozeUntil :: string
  rz_MarkUnreadOnWake :: bool
  rz_Attempts :: int
  rz_LastError :: string
  rz_WokenAt :: "string option"
  rz_CreatedAt :: string

datatype snooze_body = SnoozeFailure string | SnoozeRows "responsePayload list" | SnoozeRow responsePayload | Woken

definition toResponse :: "Snooze \<Rightarrow> responsePayload" where
  "toResponse ss =
     \<lparr>rz_ID = sz_ID ss, rz_Status = sz_Status ss, rz_EmailID = sz_EmailID ss, rz_SnoozedMailboxID = sz_SnoozedMailboxID ss,
      rz_SnoozeUntil = format_rfc3339 (sz_SnoozeUntil ss), rz_MarkUnreadOnWake = sz_MarkUnreadOnWake ss, rz_Attempts = sz_Attempts ss,
      rz_LastError = sz_LastError ss, rz_WokenAt = map_option format_rfc3339 (sz_WokenAt ss), rz_CreatedAt = format_rfc3339 (sz_CreatedAt ss)\<rparr>"

definition toResponses :: "Snooze list \<Rightarrow> responsePayload list" where
  "toResponses rows = map toResponse rows"

text \<open>\<^verbatim>\<open>applyMove\<close>: its patch, then the request; the result is whether it failed.\<close>

definition move_patch :: "(string \<times> bool) list \<Rightarrow> string \<Rightarrow> bool \<Rightarrow> bool \<Rightarrow> (string \<times> json) list" where
  "move_patch originals snoozed restore markUnread =
     (if restore then
        let p1 = set_mailboxes (JBool True) originals [];
            p2 = (if snoozed \<noteq> [] then set_field (mailbox_key snoozed) JNull p1 else p1)
        in if markUnread then set_field ''keywords/$seen'' JNull p2 else p2
      else set_field (mailbox_key snoozed) (JBool True) (set_mailboxes JNull originals []))"

definition applyMove :: "'s snooze_handlers \<Rightarrow> string \<Rightarrow> string \<Rightarrow> string \<Rightarrow> string \<Rightarrow> (string \<times> bool) list \<Rightarrow> string \<Rightarrow> bool \<Rightarrow> bool \<Rightarrow> 's \<Rightarrow> 's \<times> bool" where
  "applyMove h tenantID kchatUserID accountID emailID originals snoozed restore markUnread s =
     (case zh_Dispatch h tenantID kchatUserID (update_request ''snz'' accountID emailID (move_patch originals snoozed restore markUnread)) s of
        (s', Inl _) \<Rightarrow> (s', True)
      | (s', Inr resp) \<Rightarrow>
          (s', case CallByID resp ''snz'' of
                 None \<Rightarrow> True
               | Some (name, args) \<Rightarrow> name \<noteq> ''Email/set'' \<or> not_updated args emailID \<noteq> None))"

text \<open>\<open>now\<close> is the clock of the handler, \<open>fault\<close>, \<open>nid\<close>, \<open>dbnow\<close> and \<open>now2\<close> belong to the insert.\<close>

definition create_snooze :: "'s snooze_handlers \<Rightarrow> time \<Rightarrow> string option \<Rightarrow> string \<Rightarrow> time \<Rightarrow> time \<Rightarrow> string \<Rightarrow> string \<Rightarrow> createRequest option
    \<Rightarrow> Snooze list \<Rightarrow> 's \<Rightarrow> Snooze list \<times> 's \<times> int \<times> snooze_body" where
  "create_snooze h now fault nid dbnow now2 tenantID kchatUserID content rows s =
     (if tenantID = [] \<or> kchatUserID = [] then (rows, s, 500, SnoozeFailure ''missing auth context'')
      else case content of
          None \<Rightarrow> (rows, s, 400, SnoozeFailure ''invalid json body'')
        | Some b \<Rightarrow>
            if trim_space (cr_EmailID b) = [] then (rows, s, 400, SnoozeFailure ''email_id is required'')
            else if cr_OriginalMailboxIDs b = [] then (rows, s, 400, SnoozeFailure ''original_mailbox_ids is required'')
            else if trim_space (cr_SnoozedMailboxID b) = [] then (rows, s, 400, SnoozeFailure ''snoozed_mailbox_id is required'')
            else if cr_SnoozeUntil b = zero_time then (rows, s, 400, SnoozeFailure ''snooze_until is required'')
            else let horizon = time_Sub (cr_SnoozeUntil b) now in
              if horizon < MinSnoozeHorizon then (rows, s, 400, SnoozeFailure ''snooze_until must be at least 1m0s in the future'')
              else if horizon > MaxSnoozeHorizon then (rows, s, 400, SnoozeFailure ''snooze_until must be within 8760h0m0s'')
              else if map_of (cr_OriginalMailboxIDs b) (cr_SnoozedMailboxID b) = Some True
              then (rows, s, 400, SnoozeFailure ''snoozed_mailbox_id must not be present in original_mailbox_ids'')
              else let markUnread = (case cr_MarkUnreadOnWake b of None \<Rightarrow> True | Some v \<Rightarrow> v) in
                (case zh_Resolve h tenantID kchatUserID of
                   Inl _ \<Rightarrow> (rows, s, 500, SnoozeFailure ''resolve stalwart account'')
                 | Inr accountID \<Rightarrow>
                     (case applyMove h tenantID kchatUserID accountID (cr_EmailID b) (cr_OriginalMailboxIDs b) (cr_SnoozedMailboxID b) False False s of
                        (s1, True) \<Rightarrow> (rows, s1, 502, SnoozeFailure ''stalwart refused move'')
                      | (s1, False) \<Rightarrow>
                          (case snooze_Snooze (zh_pg h) (zh_unmarshal h) fault nid dbnow now2
                              \<lparr>zi_TenantID = tenantID, zi_KChatUserID = kchatUserID, zi_StalwartAccountID = accountID, zi_EmailID = cr_EmailID b,
                               zi_OriginalMailboxIDs = zh_marshal h (cr_OriginalMailboxIDs b), zi_SnoozedMailboxID = cr_SnoozedMailboxID b,
                               zi_SnoozeUntil = cr_SnoozeUntil b, zi_MarkUnreadOnWake = markUnread\<rparr> rows of
                             (rows1, Inr row) \<Rightarrow> (rows1, s1, 201, SnoozeRow (toResponse row))
                           | (rows1, Inl AlreadySnoozed) \<Rightarrow> (rows1, s1, 409, SnoozeFailure ''email is already snoozed'')
                           | (rows1, Inl e) \<Rightarrow>
                               (rows1, fst (applyMove h tenantID kchatUserID accountID (cr_EmailID b) (cr_OriginalMailboxIDs b) (cr_SnoozedMailboxID b) True False s1),
                                case e of InvalidSnooze m \<Rightarrow> (400, SnoozeFailure (''snooze: invalid snooze_until: '' @ m)) | _ \<Rightarrow> (500, SnoozeFailure ''internal error''))))))"

definition list_snoozes :: "'s snooze_handlers \<Rightarrow> string option \<Rightarrow> string \<Rightarrow> string \<Rightarrow> Snooze list \<Rightarrow> int \<times> snooze_body" where
  "list_snoozes h fault tenantID kchatUserID rows =
     (if tenantID = [] \<or> kchatUserID = [] then (500, SnoozeFailure ''missing auth context'')
      else case ListByUser (zh_pg h) fault tenantID kchatUserID rows of
          Inl _ \<Rightarrow> (500, SnoozeFailure ''internal error'')
        | Inr rs \<Rightarrow> (200, SnoozeRows (toResponses rs)))"

definition get_snooze :: "'s snooze_handlers \<Rightarrow> string option \<Rightarrow> string \<Rightarrow> string \<Rightarrow> string \<Rightarrow> Snooze list \<Rightarrow> int \<times> snooze_body" where
  "get_snooze h fault tenantID kchatUserID pathID rows =
     (if tenantID = [] \<or> kchatUserID = [] then (500, SnoozeFailure ''missing auth context'')
      else let i = trim_space pathID in
        if i = [] then (400, SnoozeFailure ''missing id'')
        else case Get (zh_pg h) fault tenantID kchatUserID i rows of
            Inr row \<Rightarrow> (200, SnoozeRow (toResponse row))
          | Inl SnoozeNotFound \<Rightarrow> (404, SnoozeFailure ''not found'')
          | Inl SnoozeTenantMismatch \<Rightarrow> (404, SnoozeFailure ''not found'')
          | Inl _ \<Rightarrow> (500, SnoozeFailure ''internal error''))"

text \<open>\<open>others\<close> is what happens to the table during the move; \<open>faults\<close> belong to the two reads and the cancellation.\<close>

definition wakeNow :: "'s snooze_handlers \<Rightarrow> (nat \<Rightarrow> string option) \<Rightarrow> (Snooze list \<Rightarrow> Snooze list) \<Rightarrow> string \<Rightarrow> string \<Rightarrow> string
    \<Rightarrow> Snooze list \<Rightarrow> 's \<Rightarrow> Snooze list \<times> 's \<times> int \<times> snooze_body" where
  "wakeNow h faults others tenantID kchatUserID pathID rows s =
     (if tenantID = [] \<or> kchatUserID = [] then (rows, s, 500, SnoozeFailure ''missing auth context'')
      else let i = trim_space pathID in
        if i = [] then (rows, s, 400, SnoozeFailure ''missing id'')
        else case Get (zh_pg h) (faults 0) tenantID kchatUserID i rows of
            Inl SnoozeNotFound \<Rightarrow> (rows, s, 404, SnoozeFailure ''not found'')
          | Inl SnoozeTenantMismatch \<Rightarrow> (rows, s, 404, SnoozeFailure ''not found'')
          | Inl _ \<Rightarrow> (rows, s, 500, SnoozeFailure ''internal error'')
          | Inr row \<Rightarrow>
              if sz_Status row = ''unsnoozed'' \<or> sz_Status row = ''cancelled'' then (rows, s, 200, Woken)
              else if sz_Status row \<noteq> ''snoozed'' \<and> sz_Status row \<noteq> ''failed'' then (rows, s, 404, SnoozeFailure ''not found'')
              else (case zh_unmarshal h (sz_OriginalMailboxIDs row) of
                  None \<Rightarrow> (rows, s, 500, SnoozeFailure ''decode mailbox ids'')
                | Some orig \<Rightarrow>
                    (case applyMove h (sz_TenantID row) (sz_KChatUserID row) (sz_StalwartAccountID row) (sz_EmailID row) orig (sz_SnoozedMailboxID row) True (sz_MarkUnreadOnWake row) s of
                       (s1, True) \<Rightarrow>
                         (others rows, s1,
                          case Get (zh_pg h) (faults 1) tenantID kchatUserID i (others rows) of
                            Inr row2 \<Rightarrow> if sz_Status row2 = ''unsnoozed'' \<or> sz_Status row2 = ''cancelled'' then (200, Woken) else (502, SnoozeFailure ''stalwart refused wake'')
                          | Inl _ \<Rightarrow> (502, SnoozeFailure ''stalwart refused wake''))
                     | (s1, False) \<Rightarrow>
                         (case Cancel (zh_pg h) (faults 2) tenantID kchatUserID i (others rows) of
                            (rows2, None) \<Rightarrow> (rows2, s1, 200, Woken)
                          | (rows2, Some AlreadyAwake) \<Rightarrow> (rows2, s1, 200, Woken)
                          | (rows2, Some AlreadyCancelled) \<Rightarrow> (rows2, s1, 200, Woken)
                          | (rows2, Some _) \<Rightarrow> (rows2, s1, 500, SnoozeFailure ''internal error'')))))"

end
