(* ===== verification/SnoozeRuns.thy ===== *)
theory SnoozeRuns
  imports Snooze
begin

text \<open>
  Runs of the snooze queue, as steps of the queue of \<open>LeaseQueue\<close>; what waking does to the mailboxes of a mail; what the handler that
  snoozes leaves behind on an error.
\<close>

definition snooze_queue :: "Snooze queue_ops" where
  "snooze_queue =
     \<lparr>qo_id = sz_ID, qo_live = (\<lambda>r. sz_Status r = ''snoozed''), qo_due = sz_SnoozeUntil, qo_retry_at = sz_NextRetryAt, qo_attempts = sz_Attempts,
      qo_lease = (\<lambda>t r. r\<lparr>sz_Attempts := sz_Attempts r + 1, sz_NextRetryAt := t\<rparr>),
      qo_done = (\<lambda>t r. r\<lparr>sz_Status := ''unsnoozed'', sz_WokenAt := Some t, sz_LastError := []\<rparr>),
      qo_fail = (\<lambda>e r. r\<lparr>sz_Status := ''failed'', sz_LastError := e\<rparr>),
      qo_retry = (\<lambda>t e r. r\<lparr>sz_NextRetryAt := t, sz_LastError := e\<rparr>)\<rparr>"

lemma snooze_queue_simps [simp]:
  "qo_id snooze_queue = sz_ID" "qo_live snooze_queue r = (sz_Status r = ''snoozed'')" "qo_due snooze_queue = sz_SnoozeUntil"
  "qo_retry_at snooze_queue = sz_NextRetryAt" "qo_attempts snooze_queue = sz_Attempts"
  by (simp_all add: snooze_queue_def)

interpretation snoozes: lease_queue snooze_queue "max 1 K" for K
  by unfold_locales (simp_all add: snooze_queue_def)

subsection \<open>Steps\<close>

text \<open>
  The steps go over the queue and the list of wake moves that Stalwart carries out: the id of the snooze, the time of the call, and
  whether the user asked for it. \<open>wake\<close> and \<open>rewake\<close> are the calls of a worker, the second one its client's failover to the next shard; a
  user's \<^verbatim>\<open>DELETE\<close> (\<open>wakeNow\<close>) reads the row, sends the move at once (\<open>wake_early\<close>, several times when its client fails over) and
  cancels the row afterwards (\<open>cancel\<close>), with anything in between: the row it has read as snoozed or failed can have any status when
  the move arrives, so \<open>wake_early\<close> asks only for a row that the user can read.
\<close>

type_synonym wake_move = "string \<times> time \<times> bool"

inductive snooze_step :: "queue_pg \<Rightarrow> mailbox_decoder \<Rightarrow> 's snooze_worker \<Rightarrow> Snooze queue_world \<times> wake_move list \<Rightarrow> Snooze queue_world \<times> wake_move list \<Rightarrow> bool"
  for pg :: queue_pg and um :: mailbox_decoder and w :: "'s snooze_worker" where
  snooze: "prompt snooze_queue t x \<Longrightarrow> snooze_step pg um w (x, ms) (x\<lparr>qw_rows := fst (snooze_Snooze pg um fault nid t now inp (qw_rows x)), qw_now := t\<rparr>, ms)"
| wake_early: "prompt snooze_queue t x \<Longrightarrow> Get pg fault tenantID kchatUserID i (qw_rows x) = Inr row
    \<Longrightarrow> snooze_step pg um w (x, ms) (x\<lparr>qw_now := t\<rparr>, ms @ [(sz_ID row, t, True)])"
| cancel: "prompt snooze_queue t x \<Longrightarrow> snooze_step pg um w (x, ms) (x\<lparr>qw_rows := fst (Cancel pg fault tenantID kchatUserID i (qw_rows x)), qw_now := t\<rparr>, ms)"
| claim: "prompt snooze_queue t x \<Longrightarrow> claimDue fault t locked now (qw_rows x) = (rows, Inr c)
    \<Longrightarrow> snooze_step pg um w (x, ms) (x\<lparr>qw_rows := rows, qw_busy := (c, False) # qw_busy x, qw_log := qw_log x @ [Claimed (sz_ID c)], qw_now := t\<rparr>, ms)"
| wake: "prompt snooze_queue t x \<Longrightarrow> qw_busy x = xs @ (c, False) # ys
    \<Longrightarrow> snooze_step pg um w (x, ms) (x\<lparr>qw_busy := xs @ (c, True) # ys, qw_log := qw_log x @ [Accepted (sz_ID c) t], qw_now := t\<rparr>, ms @ [(sz_ID c, t, False)])"
| rewake: "prompt snooze_queue t x \<Longrightarrow> qw_busy x = xs @ (c, True) # ys
    \<Longrightarrow> snooze_step pg um w (x, ms) (x\<lparr>qw_log := qw_log x @ [Reposted (sz_ID c), Accepted (sz_ID c) t], qw_now := t\<rparr>, ms @ [(sz_ID c, t, False)])"
| succeed: "prompt snooze_queue t x \<Longrightarrow> qw_busy x = xs @ (c, True) # ys
    \<Longrightarrow> snooze_step pg um w (x, ms) (x\<lparr>qw_rows := fst (markUnsnoozed fault (sz_ID c) now (qw_rows x)), qw_busy := xs @ ys,
          qw_log := qw_log x @ (if fault = None then [] else [Lost (sz_ID c)]), qw_now := t\<rparr>, ms)"
| fail: "prompt snooze_queue t x \<Longrightarrow> qw_busy x = xs @ (c, a) # ys
    \<Longrightarrow> snooze_step pg um w (x, ms) (x\<lparr>qw_rows := fst (handleErr w fault now c e (qw_rows x)), qw_busy := xs @ ys,
          qw_log := qw_log x @ (if a \<or> fault \<noteq> None then [Lost (sz_ID c)] else []), qw_now := t\<rparr>, ms)"
| crash: "prompt snooze_queue t x \<Longrightarrow> qw_busy x = xs @ (c, a) # ys
    \<Longrightarrow> snooze_step pg um w (x, ms) (x\<lparr>qw_busy := xs @ ys, qw_log := qw_log x @ [Lost (sz_ID c)], qw_now := t\<rparr>, ms)"

lemma keep_snoozes: "prompt snooze_queue t x \<Longrightarrow> queue_step snooze_queue K b x (x\<lparr>qw_now := t\<rparr>)"
  using queue_step.withdraw [of snooze_queue t x "\<lambda>_. False" id K b] by simp

definition mail_key :: "Snooze \<Rightarrow> string \<times> string \<times> string" where
  "mail_key r = (sz_TenantID r, sz_KChatUserID r, sz_EmailID r)"

definition active :: "Snooze list \<Rightarrow> (string \<times> string \<times> string) list" where
  "active rows = map mail_key (filter (\<lambda>r. sz_Status r = ''snoozed'') rows)"

lemma snooze_Snooze_cases:
  "fst (snooze_Snooze pg um fault nid t now inp rows) = rows
   \<or> (\<exists>r. fst (snooze_Snooze pg um fault nid t now inp rows) = rows @ [r] \<and> sz_ID r \<notin> sz_ID ` set rows \<and> sz_Status r = ''snoozed'' \<and> sz_Attempts r = 0
        \<and> mail_key r \<notin> set (active rows))"
  by (auto simp: snooze_Snooze_def Let_def list_ex_iff active_def mail_key_def split: option.splits)

definition snooze_cancels :: "queue_pg \<Rightarrow> string \<Rightarrow> string \<Rightarrow> string \<Rightarrow> Snooze \<Rightarrow> bool" where
  "snooze_cancels pg tenantID kchatUserID i r \<longleftrightarrow>
     Some (sz_ID r) = sp_uuid pg i \<and> Some (sz_TenantID r) = sp_uuid pg tenantID \<and> sz_KChatUserID r = kchatUserID \<and> (sz_Status r = ''snoozed'' \<or> sz_Status r = ''failed'')"

lemma snooze_Cancel_cases:
  "fst (Cancel pg fault tid u i rows) = rows
   \<or> fst (Cancel pg fault tid u i rows) = map (\<lambda>r. if snooze_cancels pg tid u i r then r\<lparr>sz_Status := ''cancelled''\<rparr> else r) rows"
  by (simp add: Cancel_def snooze_cancels_def Let_def split: option.split)

lemma snooze_claimDue_queue:
  "claimDue fault t locked now rows = (rows', Inr c) \<Longrightarrow> queue_claim snooze_queue t locked (now + DispatchLeaseInterval) rows = Some (c, rows')"
  by (auto simp: claimDue_def queue_claim_def claimable_def [abs_def] snooze_queue_def Let_def split: option.splits list.splits)

lemma markUnsnoozed_guarded: "fst (markUnsnoozed None i t rows) = guarded snooze_queue i (qo_done snooze_queue t) rows"
  by (simp add: markUnsnoozed_def on_snoozed_def guarded_def snooze_queue_def)

lemma snooze_handleErr_failed: "fst (handleErr w None now c e rows) = queue_failed snooze_queue (zw_maxAttempts w) snoozeBackoff now e c rows"
  by (simp add: handleErr_def markFailed_def scheduleRetry_def on_snoozed_def queue_failed_def guarded_def snooze_queue_def)

lemma snooze_record_fault: "fst (markUnsnoozed (Some f) i t rows) = rows" "fst (handleErr w (Some f) now c e rows) = rows"
  by (simp_all add: markUnsnoozed_def handleErr_def markFailed_def scheduleRetry_def on_snoozed_def)

lemma snooze_step_queue: "snooze_step pg um w s s' \<Longrightarrow> queue_step snooze_queue (zw_maxAttempts w) snoozeBackoff (fst s) (fst s')"
proof (induction rule: snooze_step.induct)
  case (wake_early t x fault tenantID kchatUserID i row ms)
  then show ?case using keep_snoozes by simp
next
  case (rewake t x xs c ys ms)
  then show ?case using queue_step.repost [OF rewake] by simp
next
  case (snooze t x ms fault nid now inp)
  consider "fst (snooze_Snooze pg um fault nid t now inp (qw_rows x)) = qw_rows x"
    | r where "fst (snooze_Snooze pg um fault nid t now inp (qw_rows x)) = qw_rows x @ [r]" "sz_ID r \<notin> sz_ID ` set (qw_rows x)" "sz_Status r = ''snoozed''" "sz_Attempts r = 0"
    using snooze_Snooze_cases by blast
  then show ?case
  proof cases
    case 1
    then show ?thesis using keep_snoozes [OF snooze] by simp
  next
    case 2
    then show ?thesis using queue_step.add [OF snooze, of r] by simp
  qed
next
  case (cancel t x ms fault tenantID kchatUserID i)
  show ?case
    using snooze_Cancel_cases [of pg fault tenantID kchatUserID i "qw_rows x"] keep_snoozes [OF cancel]
      queue_step.withdraw [OF cancel, of "snooze_cancels pg tenantID kchatUserID i" "\<lambda>r. r\<lparr>sz_Status := ''cancelled''\<rparr>"] by auto
next
  case (claim t x fault locked now rows c ms)
  then show ?case using queue_step.claim [OF claim.hyps(1) snooze_claimDue_queue] by simp
next
  case (wake t x xs c ys ms)
  then show ?case using queue_step.accept [OF wake] by simp
next
  case (succeed t x xs c ys ms fault now)
  then show ?case
    using queue_step.record_done [OF succeed, of _ _ now] queue_step.lose [OF succeed] by (cases fault) (simp_all add: markUnsnoozed_guarded snooze_record_fault)
next
  case (fail t x xs c a ys ms fault now e)
  show ?case
    using queue_step.record_failure [OF fail, of "zw_maxAttempts w" snoozeBackoff now e] queue_step.lose [OF fail]
    by (cases fault; cases a) (simp_all add: snooze_handleErr_failed snooze_record_fault)
next
  case (crash t x xs c a ys ms)
  then show ?case using queue_step.lose [OF crash] by simp
qed

lemma snooze_run_queue: "(snooze_step pg um w)\<^sup>*\<^sup>* s s' \<Longrightarrow> (queue_step snooze_queue (zw_maxAttempts w) snoozeBackoff)\<^sup>*\<^sup>* (fst s) (fst s')"
  by (induction rule: rtranclp_induct) (auto dest: snooze_step_queue intro: rtranclp.rtrancl_into_rtrancl)

lemma snooze_worker_budget: "newDispatchWorkerWithStore um txt js cfg = Some w \<Longrightarrow> max 1 (zw_maxAttempts w) = zw_maxAttempts w"
  by (auto simp: newDispatchWorkerWithStore_def DefaultMaxAttempts_def split: if_splits option.splits)

subsection \<open>One active row per mail\<close>

lemma active_map:
  assumes key: "\<And>r. mail_key (F r) = mail_key r" and live: "\<And>r. sz_Status (F r) = ''snoozed'' \<Longrightarrow> sz_Status r = ''snoozed''" and "distinct (active rows)"
  shows "distinct (active (map F rows))"
  using assms(3)
proof (induction rows)
  case (Cons r rows)
  have sub: "set (active (map F rows)) \<subseteq> set (active rows)" using key live by (fastforce simp: active_def)
  have old: "distinct (active rows)" "sz_Status r = ''snoozed'' \<longrightarrow> mail_key r \<notin> set (active rows)" using Cons.prems by (simp_all add: active_def split: if_splits)
  show ?case
  proof (cases "sz_Status (F r) = ''snoozed''")
    case True
    then have "active (map F (r # rows)) = mail_key r # active (map F rows)" by (simp add: active_def key)
    then show ?thesis using Cons.IH old sub live [OF True] by auto
  next
    case False
    then have "active (map F (r # rows)) = active (map F rows)" by (simp add: active_def)
    then show ?thesis using Cons.IH old by simp
  qed
qed (simp add: active_def)

lemma step_active: "snooze_step pg um w s s' \<Longrightarrow> distinct (active (qw_rows (fst s))) \<Longrightarrow> distinct (active (qw_rows (fst s')))"
proof (induction rule: snooze_step.induct)
  case (snooze t x ms fault nid now inp)
  then show ?case using snooze_Snooze_cases [of pg um fault nid t now inp "qw_rows x"] by (auto simp: active_def)
next
  case (cancel t x ms fault tenantID kchatUserID i)
  have "distinct (active (map (\<lambda>r. if snooze_cancels pg tenantID kchatUserID i r then r\<lparr>sz_Status := ''cancelled''\<rparr> else r) (qw_rows x)))"
    by (rule active_map [OF _ _ cancel.prems [unfolded fst_conv]]) (auto simp: mail_key_def split: if_splits)
  then show ?case using snooze_Cancel_cases [of pg fault tenantID kchatUserID i "qw_rows x"] cancel.prems by auto
next
  case (claim t x fault locked now rows c ms)
  have "rows = map (\<lambda>x. if sz_ID x = sz_ID c then x\<lparr>sz_Attempts := sz_Attempts x + 1, sz_NextRetryAt := now + DispatchLeaseInterval\<rparr> else x) (qw_rows x)"
    using claim.hyps(2) by (auto simp: claimDue_def Let_def split: option.splits list.splits)
  then show ?case by (auto simp: mail_key_def split: if_splits intro!: active_map [OF _ _ claim.prems [unfolded fst_conv]])
next
  case (succeed t x xs c ys ms fault now)
  show ?case using succeed.prems by (cases fault) (auto simp: markUnsnoozed_def on_snoozed_def mail_key_def split: if_splits intro!: active_map)
next
  case (fail t x xs c a ys ms fault now e)
  show ?case using fail.prems
    by (cases fault) (auto simp: handleErr_def markFailed_def scheduleRetry_def on_snoozed_def mail_key_def split: if_splits intro!: active_map)
qed simp_all

lemma run_active: "(snooze_step pg um w)\<^sup>*\<^sup>* (empty_world, []) s \<Longrightarrow> distinct (active (qw_rows (fst s)))"
  by (induction rule: rtranclp_induct) (auto simp: active_def empty_world_def dest: step_active)

subsection \<open>Wake moves\<close>

definition worker_wakes :: "string \<Rightarrow> wake_move list \<Rightarrow> nat" where
  "worker_wakes i ms = length (filter (\<lambda>(j, t, byUser). j = i \<and> \<not> byUser) ms)"

text \<open>The moves of workers are the accepted calls of the log, those of users belong to rows.\<close>

definition moves_ok :: "Snooze queue_world \<times> wake_move list \<Rightarrow> bool" where
  "moves_ok s \<longleftrightarrow> (\<forall>i. worker_wakes i (snd s) = accepted_of i (qw_log (fst s)))
     \<and> (\<forall>(i, t, byUser) \<in> set (snd s). if byUser then i \<in> sz_ID ` set (qw_rows (fst s)) else Accepted i t \<in> set (qw_log (fst s)))"

lemma moves_frame:
  assumes "moves_ok s" and "snd s' = snd s @ ms" and "\<And>i. accepted_of i (qw_log (fst s')) = accepted_of i (qw_log (fst s)) + worker_wakes i ms"
    and "set (qw_log (fst s)) \<subseteq> set (qw_log (fst s'))" and "sz_ID ` set (qw_rows (fst s)) \<subseteq> sz_ID ` set (qw_rows (fst s'))"
    and "\<forall>(i, t, byUser) \<in> set ms. if byUser then i \<in> sz_ID ` set (qw_rows (fst s')) else Accepted i t \<in> set (qw_log (fst s'))"
  shows "moves_ok s'"
proof -
  have "worker_wakes i (snd s') = accepted_of i (qw_log (fst s'))" for i
    using assms(1-3) by (simp add: moves_ok_def worker_wakes_def)
  moreover have "if byUser then i \<in> sz_ID ` set (qw_rows (fst s')) else Accepted i t \<in> set (qw_log (fst s'))" if "(i, t, byUser) \<in> set (snd s)" for i t byUser
    using that assms(1,4,5) by (auto simp: moves_ok_def split: if_splits)
  ultimately show ?thesis using assms(2,6) by (auto simp: moves_ok_def)
qed

lemma step_moves: "snooze_step pg um w s s' \<Longrightarrow> max 1 (zw_maxAttempts w) = zw_maxAttempts w \<Longrightarrow> moves_ok s \<Longrightarrow> moves_ok s'"
proof -
  assume st: "snooze_step pg um w s s'" and K: "max 1 (zw_maxAttempts w) = zw_maxAttempts w" and ok: "moves_ok s"
  have ids: "sz_ID ` set (qw_rows (fst s)) \<subseteq> sz_ID ` set (qw_rows (fst s'))"
    using snoozes.step_ids [of "zw_maxAttempts w" snoozeBackoff "fst s" "fst s'"] snooze_step_queue [OF st] K by simp
  from st have "\<exists>ms. snd s' = snd s @ ms \<and> (\<forall>i. accepted_of i (qw_log (fst s')) = accepted_of i (qw_log (fst s)) + worker_wakes i ms)
      \<and> set (qw_log (fst s)) \<subseteq> set (qw_log (fst s'))
      \<and> (\<forall>(i, t, byUser) \<in> set ms. if byUser then i \<in> sz_ID ` set (qw_rows (fst s)) else Accepted i t \<in> set (qw_log (fst s')))"
  proof (induction rule: snooze_step.induct)
    case (wake_early t x fault tenantID kchatUserID i row ms)
    then have "row \<in> set (qw_rows x)" by (auto simp: Get_def find_Some_iff split: if_splits option.splits)
    then show ?case by (intro exI [of _ "[(sz_ID row, t, True)]"]) (simp add: worker_wakes_def)
  next
    case (wake t x xs c ys ms)
    show ?case by (intro exI [of _ "[(sz_ID c, t, False)]"]) (auto simp: worker_wakes_def)
  next
    case (rewake t x xs c ys ms)
    show ?case by (intro exI [of _ "[(sz_ID c, t, False)]"]) (auto simp: worker_wakes_def)
  qed (intro exI [of _ "[]"]; auto simp: worker_wakes_def)+
  then obtain ms where ms: "snd s' = snd s @ ms" "\<And>i. accepted_of i (qw_log (fst s')) = accepted_of i (qw_log (fst s)) + worker_wakes i ms"
      "set (qw_log (fst s)) \<subseteq> set (qw_log (fst s'))"
      and new: "\<forall>(i, t, byUser) \<in> set ms. if byUser then i \<in> sz_ID ` set (qw_rows (fst s)) else Accepted i t \<in> set (qw_log (fst s'))" by blast
  have "if byUser then i \<in> sz_ID ` set (qw_rows (fst s')) else Accepted i t \<in> set (qw_log (fst s'))" if m: "(i, t, byUser) \<in> set ms" for i t byUser
  proof -
    have "if byUser then i \<in> sz_ID ` set (qw_rows (fst s)) else Accepted i t \<in> set (qw_log (fst s'))" using new m by blast
    then show ?thesis using ids by (cases byUser) auto
  qed
  then show "moves_ok s'" by (intro moves_frame [OF ok ms ids]) blast
qed

lemma run_moves:
  "(snooze_step pg um w)\<^sup>*\<^sup>* (empty_world, []) s \<Longrightarrow> max 1 (zw_maxAttempts w) = zw_maxAttempts w \<Longrightarrow> moves_ok s"
proof (induction rule: rtranclp_induct)
  case base
  then show ?case by (simp add: moves_ok_def worker_wakes_def empty_world_def)
next
  case (step s s')
  then show ?case using step_moves by blast
qed

definition ex_snooze_pg :: queue_pg where
  "ex_snooze_pg = \<lparr>sp_uuid = Some, sp_jsonb = Some, sp_tenant = (\<lambda>_. True)\<rparr>"

definition ex_decoder :: mailbox_decoder where
  "ex_decoder s = Some [(s, True)]"

definition ex_snooze_config :: "unit snooze_worker_config" where
  "ex_snooze_config = \<lparr>zc_store = True, zc_internal = Some (\<lambda>_ _ _ s. (s, Inl NoShard)), zc_interval = 0, zc_maxBatch = 0, zc_maxAttempts = 0\<rparr>"

definition ex_snooze_worker :: "unit snooze_worker" where
  "ex_snooze_worker = the (newDispatchWorkerWithStore ex_decoder (\<lambda>_. []) (\<lambda>_. []) ex_snooze_config)"

definition ex_snooze_input :: SnoozeInput where
  "ex_snooze_input = \<lparr>zi_TenantID = ''t'', zi_KChatUserID = ''u'', zi_StalwartAccountID = ''a'', zi_EmailID = ''e'', zi_OriginalMailboxIDs = ''in'',
     zi_SnoozedMailboxID = ''sn'', zi_SnoozeUntil = 120 * nanos_per_s, zi_MarkUnreadOnWake = True\<rparr>"

definition ex_snoozed :: "Snooze queue_world" where
  "ex_snoozed = empty_world\<lparr>qw_rows := fst (snooze_Snooze ex_snooze_pg ex_decoder None ''1'' 0 0 ex_snooze_input []), qw_now := 0\<rparr>"

text \<open>The snooze of the example, claimed and woken by a worker after 200 seconds.\<close>

definition ex_woken :: "Snooze queue_world" where
  "ex_woken =
     (case claimDue None (200 * nanos_per_s) [] (200 * nanos_per_s) (qw_rows ex_snoozed) of
        (rows, Inr c) \<Rightarrow> ex_snoozed\<lparr>qw_rows := fst (markUnsnoozed None (sz_ID c) (201 * nanos_per_s) rows),
          qw_log := [Claimed (sz_ID c), Accepted (sz_ID c) (200 * nanos_per_s)], qw_now := 200 * nanos_per_s\<rparr>
      | _ \<Rightarrow> ex_snoozed)"

lemma ex_woken_run: "(snooze_step ex_snooze_pg ex_decoder ex_snooze_worker)\<^sup>*\<^sup>* (empty_world, []) (ex_woken, [(''1'', 200 * nanos_per_s, False)])"
proof -
  let ?t = "200 * nanos_per_s" and ?step = "snooze_step ex_snooze_pg ex_decoder ex_snooze_worker"
  have first: "?step (empty_world, []) (ex_snoozed, [])"
    using snooze_step.snooze [of 0 empty_world ex_snooze_pg ex_decoder ex_snooze_worker "[]" None "''1''" 0 ex_snooze_input]
    by (simp add: ex_snoozed_def prompt_def empty_world_def)
  have rows: "qw_busy ex_snoozed = []" "qw_log ex_snoozed = []" "qw_now ex_snoozed = 0" by (simp_all add: ex_snoozed_def empty_world_def)
  obtain rs c where c: "claimDue None ?t [] ?t (qw_rows ex_snoozed) = (rs, Inr c)" "?t < sz_NextRetryAt c" "sz_ID c = ''1''"
  proof -
    have "case snd (claimDue None ?t [] ?t (qw_rows ex_snoozed)) of Inl _ \<Rightarrow> False | Inr c \<Rightarrow> ?t < sz_NextRetryAt c \<and> sz_ID c = ''1''" by code_simp
    then show thesis using that by (cases "claimDue None ?t [] ?t (qw_rows ex_snoozed)") (simp split: sum.splits)
  qed
  let ?x = "ex_snoozed\<lparr>qw_rows := rs, qw_busy := [(c, False)], qw_log := [Claimed (sz_ID c)], qw_now := ?t\<rparr>"
  let ?y = "?x\<lparr>qw_busy := [(c, True)], qw_log := [Claimed (sz_ID c), Accepted (sz_ID c) ?t], qw_now := ?t\<rparr>"
  let ?z = "?y\<lparr>qw_rows := fst (markUnsnoozed None (sz_ID c) (201 * nanos_per_s) rs), qw_busy := [], qw_log := qw_log ?y, qw_now := ?t\<rparr>"
  have "prompt snooze_queue ?t ex_snoozed" "prompt snooze_queue ?t ?x" "prompt snooze_queue ?t ?y" using c(2) by (simp_all add: prompt_def rows)
  then have "?step (ex_snoozed, []) (?x, [])" "?step (?x, []) (?y, [(''1'', ?t, False)])" "?step (?y, [(''1'', ?t, False)]) (?z, [(''1'', ?t, False)])"
    using snooze_step.claim [OF _ c(1), of ex_snooze_pg ex_decoder ex_snooze_worker "[]"] snooze_step.wake [of ?t ?x "[]" c "[]" ex_snooze_pg ex_decoder ex_snooze_worker "[]"]
      snooze_step.succeed [of ?t ?y "[]" c "[]" ex_snooze_pg ex_decoder ex_snooze_worker "[(''1'', ?t, False)]" None "201 * nanos_per_s"] rows c(3) by simp_all
  moreover have "ex_woken = ?z" using c(1) rows by (simp add: ex_woken_def)
  ultimately show ?thesis
    using run4 [of ?step "(empty_world, [])" "(ex_snoozed, [])" "(?x, [])" "(?y, [(''1'', ?t, False)])" "(?z, [(''1'', ?t, False)])", OF first] by (simp only:)
qed

text \<open>
  C32: In every run of users and workers in which no dispatch outlives its lease, no mail has two active snoozes of one user; every
  wake move that Stalwart carries out is one of a worker at or after \<open>snooze_until\<close> or was asked for by the user's early wake of that
  snooze; the workers' moves of a snooze are at most one more than the answers lost (failovers to the next shard included), and it is
  claimed at most \<open>maxAttempts\<close> times plus once for every claim whose outcome was lost.\<close>

theorem snooze_run_safe:
  assumes "newDispatchWorkerWithStore um txt js cfg = Some w" and "(snooze_step pg um w)\<^sup>*\<^sup>* (empty_world, []) (x, ms)"
  shows "distinct (map mail_key (filter (\<lambda>r. sz_Status r = ''snoozed'') (qw_rows x)))
    \<and> (\<forall>(i, t, byUser) \<in> set ms. \<exists>r \<in> set (qw_rows x). sz_ID r = i \<and> (byUser \<or> sz_SnoozeUntil r \<le> t))
    \<and> (\<forall>i. worker_wakes i ms \<le> lost_of i (qw_log x) + 1 \<and> int (claims_of i (qw_log x)) \<le> zw_maxAttempts w + int (dropped_of i (qw_log x)))"
proof -
  have K: "max 1 (zw_maxAttempts w) = zw_maxAttempts w" by (rule snooze_worker_budget [OF assms(1)])
  note run = snooze_run_queue [OF assms(2), unfolded fst_conv] and moves = run_moves [OF assms(2) K, unfolded moves_ok_def snd_conv fst_conv]
  have "\<exists>r \<in> set (qw_rows x). sz_ID r = i \<and> (byUser \<or> sz_SnoozeUntil r \<le> t)" if "(i, t, byUser) \<in> set ms" for i t byUser
  proof -
    have "if byUser then i \<in> sz_ID ` set (qw_rows x) else Accepted i t \<in> set (qw_log x)" using moves that by blast
    then show ?thesis using snoozes.run_counts(4) [of "zw_maxAttempts w" snoozeBackoff x i t] run K by (cases byUser) auto
  qed
  moreover have "worker_wakes i ms \<le> lost_of i (qw_log x) + 1 \<and> int (claims_of i (qw_log x)) \<le> zw_maxAttempts w + int (dropped_of i (qw_log x))" for i
    using conjunct1 [OF moves] snoozes.run_counts(1,2) [of "zw_maxAttempts w" snoozeBackoff x i] run K by simp
  moreover have "distinct (map mail_key (filter (\<lambda>r. sz_Status r = ''snoozed'') (qw_rows x)))"
    using run_active [OF assms(2)] by (simp add: active_def)
  ultimately show ?thesis by blast
qed

theorem snooze_run_safe_witness:
  "map sz_Status (qw_rows ex_woken) = [''unsnoozed'']
   \<and> (\<exists>r \<in> set (qw_rows ex_woken). sz_ID r = ''1'' \<and> sz_SnoozeUntil r \<le> 200 * nanos_per_s)"
proof -
  have "newDispatchWorkerWithStore ex_decoder (\<lambda>_. []) (\<lambda>_. []) ex_snooze_config = Some ex_snooze_worker"
    by (simp add: ex_snooze_worker_def newDispatchWorkerWithStore_def ex_snooze_config_def)
  moreover have "map sz_Status (qw_rows ex_woken) = [''unsnoozed'']" by code_simp
  ultimately show ?thesis using conjunct1 [OF conjunct2 [OF snooze_run_safe [OF _ ex_woken_run]]] by simp
qed

subsection \<open>Moving a mail and back\<close>

text \<open>
  Stalwart applies the patches of \<^verbatim>\<open>Email/set\<close>, so a patch is a parameter \<open>ap\<close>, \<open>None\<close> where it is refused, on mails of any type with the
  observations \<open>inn\<close> (the mailboxes a mail is in) and \<open>seen\<close>. What the code relies on is the documented meaning of a patch (RFC 8620, 5.3;
  RFC 8621, 4.1.1 and 4.6) on JMAP ids (RFC 8620, 1.2): the pointer \<^verbatim>\<open>mailboxIds/<id>\<close> set to true adds the mailbox, set to null removes it,
  and a mailbox no pointer names keeps its state where \<^verbatim>\<open>mailboxIds\<close> itself is not set; the keyword \<^verbatim>\<open>$seen\<close> in the same way.
\<close>

definition jmap_id :: "string \<Rightarrow> bool" where
  "jmap_id s \<longleftrightarrow> s \<noteq> [] \<and> length s \<le> 255 \<and> list_all (\<lambda>c. c \<in> set ''ABCDEFGHIJKLMNOPQRSTUVWXYZabcdefghijklmnopqrstuvwxyz0123456789_-'') s"

definition patch_law :: "('m \<Rightarrow> string \<Rightarrow> bool) \<Rightarrow> ('m \<Rightarrow> bool) \<Rightarrow> ((string \<times> json) list \<Rightarrow> 'm \<Rightarrow> 'm option) \<Rightarrow> bool" where
  "patch_law inn seen ap \<longleftrightarrow>
     (\<forall>p m m'. ap p m = Some m' \<longrightarrow>
        (\<forall>mb. jmap_id mb \<longrightarrow>
             (map_of p (mailbox_key mb) = Some JNull \<longrightarrow> \<not> inn m' mb) \<and> (map_of p (mailbox_key mb) = Some (JBool True) \<longrightarrow> inn m' mb)
           \<and> (map_of p (mailbox_key mb) = None \<and> map_of p ''mailboxIds'' = None \<longrightarrow> inn m' mb = inn m mb))
      \<and> (map_of p ''keywords/$seen'' = Some JNull \<longrightarrow> \<not> seen m')
      \<and> (map_of p ''keywords/$seen'' = None \<and> map_of p ''keywords'' = None \<longrightarrow> seen m' = seen m))"

lemma patch_lawD:
  assumes "patch_law inn seen ap" and "ap p m = Some m'"
  shows "jmap_id mb \<Longrightarrow> map_of p (mailbox_key mb) = Some JNull \<Longrightarrow> \<not> inn m' mb"
    and "jmap_id mb \<Longrightarrow> map_of p (mailbox_key mb) = Some (JBool True) \<Longrightarrow> inn m' mb"
    and "jmap_id mb \<Longrightarrow> map_of p (mailbox_key mb) = None \<Longrightarrow> map_of p ''mailboxIds'' = None \<Longrightarrow> inn m' mb = inn m mb"
    and "map_of p ''keywords/$seen'' = Some JNull \<Longrightarrow> \<not> seen m'"
    and "map_of p ''keywords/$seen'' = None \<Longrightarrow> map_of p ''keywords'' = None \<Longrightarrow> seen m' = seen m"
  using assms unfolding patch_law_def by blast+

lemma mailbox_key_inj [simp]: "mailbox_key a = mailbox_key b \<longleftrightarrow> a = b" "mailbox_key a \<noteq> ''keywords/$seen''" "''keywords/$seen'' \<noteq> mailbox_key a"
    "mailbox_key a \<noteq> ''keywords''" "''keywords'' \<noteq> mailbox_key a" "mailbox_key a \<noteq> ''mailboxIds''" "''mailboxIds'' \<noteq> mailbox_key a"
  by (simp_all add: mailbox_key_def)

lemma map_of_set_field: "map_of (set_field k v m) k' = (if k' = k then Some v else map_of m k')"
  by (simp add: set_field_def update_conv')

definition originals :: "(string \<times> bool) list \<Rightarrow> string set" where
  "originals orig = fst ` set orig"

lemma originals_simps [simp]: "originals [] = {}" "originals ((mb, b) # orig) = insert mb (originals orig)"
  by (simp_all add: originals_def)

lemma map_of_set_mailboxes:
  "map_of (set_mailboxes v orig p) k = (if \<exists>mb \<in> originals orig. mb \<noteq> [] \<and> k = mailbox_key mb then Some v else map_of p k)"
proof (induction orig arbitrary: p)
  case (Cons e orig)
  obtain mb b where e: "e = (mb, b)" by (cases e)
  have "set_mailboxes v (e # orig) p = set_mailboxes v orig (if mb = [] then p else set_field (mailbox_key mb) v p)" by (simp add: set_mailboxes_def e)
  then show ?case by (auto simp: Cons.IH e map_of_set_field)
qed (simp add: set_mailboxes_def)

lemma wake_patch:
  assumes "buildWakePatch um row = Inr patch" and "um (sz_OriginalMailboxIDs row) = Some orig"
  shows "map_of patch k = (if k = ''keywords/$seen'' \<and> sz_MarkUnreadOnWake row then Some JNull
    else if \<exists>mb \<in> originals orig. mb \<noteq> [] \<and> k = mailbox_key mb then Some (JBool True)
    else if k = mailbox_key (sz_SnoozedMailboxID row) then Some JNull else None)"
  using assms by (auto simp: buildWakePatch_def Let_def map_of_set_field map_of_set_mailboxes split: if_splits)

lemma move_patch_lookup:
  "map_of (move_patch orig sn False b) k = (if k = mailbox_key sn then Some (JBool True) else if \<exists>mb \<in> originals orig. mb \<noteq> [] \<and> k = mailbox_key mb then Some JNull else None)"
  "map_of (move_patch orig sn True b) k = (if k = ''keywords/$seen'' \<and> b then Some JNull else if sn \<noteq> [] \<and> k = mailbox_key sn then Some JNull
     else if \<exists>mb \<in> originals orig. mb \<noteq> [] \<and> k = mailbox_key mb then Some (JBool True) else None)"
  by (auto simp: move_patch_def Let_def map_of_set_field map_of_set_mailboxes)

lemma moved_mail:
  assumes "patch_law inn seen ap" and "ap (move_patch orig sn False b) m = Some m1" and "jmap_id mb"
  shows "inn m1 mb = (mb = sn \<or> mb \<notin> originals orig \<and> inn m mb)" and "seen m1 = seen m"
proof -
  note law = patch_lawD [OF assms(1,2)]
  have ne: "mb \<noteq> []" using assms(3) by (simp add: jmap_id_def)
  consider "mb = sn" | "mb \<noteq> sn" "mb \<in> originals orig" | "mb \<noteq> sn" "mb \<notin> originals orig" by blast
  then show "inn m1 mb = (mb = sn \<or> mb \<notin> originals orig \<and> inn m mb)"
    using law(1-3) [OF assms(3)] ne by cases (auto simp: move_patch_lookup)
  show "seen m1 = seen m" using law(5) by (simp add: move_patch_lookup)
qed

lemma woken_mail:
  assumes "patch_law inn seen ap" and "ap patch m = Some m1" and "buildWakePatch um row = Inr patch" and "um (sz_OriginalMailboxIDs row) = Some orig" and "jmap_id mb"
  shows "inn m1 mb = (mb \<in> originals orig \<or> mb \<noteq> sz_SnoozedMailboxID row \<and> inn m mb)" and "seen m1 = (seen m \<and> \<not> sz_MarkUnreadOnWake row)"
proof -
  note law = patch_lawD [OF assms(1,2)] and p = wake_patch [OF assms(3,4)]
  have ne: "mb \<noteq> []" using assms(5) by (simp add: jmap_id_def)
  consider "mb \<in> originals orig" | "mb \<notin> originals orig" "mb = sz_SnoozedMailboxID row" | "mb \<notin> originals orig" "mb \<noteq> sz_SnoozedMailboxID row" by blast
  then show "inn m1 mb = (mb \<in> originals orig \<or> mb \<noteq> sz_SnoozedMailboxID row \<and> inn m mb)"
    using law(1-3) [OF assms(5)] ne by cases (auto simp: p)
  show "seen m1 = (seen m \<and> \<not> sz_MarkUnreadOnWake row)"
    using law(4,5) by (cases "sz_MarkUnreadOnWake row") (auto simp: p)
qed

text \<open>
  C33: Waking undoes snoozing where the originals do not name the snooze mailbox. For a Stalwart that applies patches as the RFCs say, when
  it accepts the move of the handler and later the wake patch of the worker, and nothing else has changed the mail in between, then the
  mail is in its mailboxes other than the snooze mailbox together with the originals, and unread where that was asked for; and the early
  wake of the handler sends the same patch as the worker.\<close>

theorem snooze_wake_roundtrip:
  assumes "patch_law inn seen ap" and "buildWakePatch um row = Inr patch" and "um (sz_OriginalMailboxIDs row) = Some orig"
    and "ap (move_patch orig (sz_SnoozedMailboxID row) False False) m = Some m1" and "ap patch m1 = Some m2"
    and "sz_SnoozedMailboxID row \<notin> originals orig" and "sz_SnoozedMailboxID row \<noteq> []" and "jmap_id mb"
  shows "inn m2 mb = (mb \<noteq> sz_SnoozedMailboxID row \<and> (mb \<in> originals orig \<or> inn m mb))
    \<and> seen m2 = (seen m \<and> \<not> sz_MarkUnreadOnWake row)
    \<and> map_of (move_patch orig (sz_SnoozedMailboxID row) True (sz_MarkUnreadOnWake row)) = map_of patch"
proof (intro conjI ext)
  note moved = moved_mail [OF assms(1,4,8)] and woken = woken_mail [OF assms(1,5,2,3,8)]
  show "inn m2 mb = (mb \<noteq> sz_SnoozedMailboxID row \<and> (mb \<in> originals orig \<or> inn m mb))" using moved(1) woken(1) assms(6) by auto
  show "seen m2 = (seen m \<and> \<not> sz_MarkUnreadOnWake row)" using moved(2) woken(2) by simp
  show "map_of (move_patch orig (sz_SnoozedMailboxID row) True (sz_MarkUnreadOnWake row)) k = map_of patch k" for k
    using assms(6,7) by (auto simp: wake_patch [OF assms(2,3)] move_patch_lookup)
qed

text \<open>A concrete server for the example: it refuses a mail in no mailbox, as RFC 8621 asks.\<close>

record ex_mail =
  ml_in :: "string list"
  ml_seen :: bool

definition set_below :: "string \<Rightarrow> json \<Rightarrow> (string \<times> json) list \<Rightarrow> string list" where
  "set_below pre v p = map (drop (length pre) \<circ> fst) (filter (\<lambda>(k, _). take (length pre) k = pre \<and> map_of p k = Some v) p)"

lemma set_below_iff: "mb \<in> set (set_below pre v p) \<longleftrightarrow> map_of p (pre @ mb) = Some v"
proof
  assume "mb \<in> set (set_below pre v p)"
  then obtain k where k: "take (length pre) k = pre" "map_of p k = Some v" "mb = drop (length pre) k" by (auto simp: set_below_def)
  have "k = pre @ mb" using append_take_drop_id [of "length pre" k] unfolding k(1,3) by simp
  then show "map_of p (pre @ mb) = Some v" using k(2) by simp
next
  assume r: "map_of p (pre @ mb) = Some v"
  then have "(pre @ mb, v) \<in> set p" by (rule map_of_SomeD)
  then show "mb \<in> set (set_below pre v p)" using r by (force simp: set_below_def)
qed

definition ex_apply :: "(string \<times> json) list \<Rightarrow> ex_mail \<Rightarrow> ex_mail option" where
  "ex_apply p m =
     (let boxes = set_below ''mailboxIds/'' (JBool True) p @ filter (\<lambda>mb. map_of p (mailbox_key mb) = None) (ml_in m)
      in if boxes = [] then None else Some \<lparr>ml_in = boxes, ml_seen = (ml_seen m \<and> map_of p ''keywords/$seen'' \<noteq> Some JNull)\<rparr>)"

lemma ex_apply_law: "patch_law (\<lambda>m mb. mb \<in> set (ml_in m)) ml_seen ex_apply"
proof -
  have "mb \<in> set (ml_in m') \<longleftrightarrow> map_of p (mailbox_key mb) = Some (JBool True) \<or> map_of p (mailbox_key mb) = None \<and> mb \<in> set (ml_in m)"
    if "ex_apply p m = Some m'" for p m m' mb
    using that set_below_iff [of mb "''mailboxIds/''" "JBool True" p, folded mailbox_key_def] by (auto simp: ex_apply_def Let_def split: if_splits)
  moreover have "ml_seen m' = (ml_seen m \<and> map_of p ''keywords/$seen'' \<noteq> Some JNull)" if "ex_apply p m = Some m'" for p m m'
    using that by (auto simp: ex_apply_def Let_def split: if_splits)
  ultimately show ?thesis by (simp add: patch_law_def)
qed

theorem snooze_wake_roundtrip_witness:
  "\<exists>m1 m2. ex_apply (move_patch [(''in'', True)] ''sn'' False False) \<lparr>ml_in = [''in''], ml_seen = True\<rparr> = Some m1
     \<and> ex_apply (projr (buildWakePatch ex_decoder (hd (qw_rows ex_snoozed)))) m1 = Some m2 \<and> ''in'' \<in> set (ml_in m2) \<and> \<not> ml_seen m2"
proof -
  let ?row = "hd (qw_rows ex_snoozed)" and ?m = "\<lparr>ml_in = [''in''], ml_seen = True\<rparr>"
  let ?patch = "projr (buildWakePatch ex_decoder ?row)" and ?m1 = "\<lparr>ml_in = [''sn''], ml_seen = True\<rparr>" and ?m2 = "\<lparr>ml_in = [''in''], ml_seen = False\<rparr>"
  have b: "buildWakePatch ex_decoder ?row = Inr ?patch" "ex_decoder (sz_OriginalMailboxIDs ?row) = Some [(''in'', True)]"
      and sn: "sz_SnoozedMailboxID ?row = ''sn''" "sz_MarkUnreadOnWake ?row" "jmap_id ''in''" by code_simp+
  have a: "ex_apply (move_patch [(''in'', True)] ''sn'' False False) ?m = Some ?m1" "ex_apply ?patch ?m1 = Some ?m2" by code_simp+
  have "''in'' \<in> set (ml_in ?m2) \<and> \<not> ml_seen ?m2"
    using snooze_wake_roundtrip [OF ex_apply_law b _ a(2) _ _ sn(3), of ?m] a(1) sn by simp
  then show ?thesis using a by blast
qed

text \<open>An original that is the snooze mailbox with the value \<^verbatim>\<open>false\<close> passes the handler, and the worker then leaves the mail there.\<close>

lemma wake_keeps_snooze_mailbox:
  assumes "patch_law inn seen ap" and "buildWakePatch um row = Inr patch" and "um (sz_OriginalMailboxIDs row) = Some [(''in'', True), (sz_SnoozedMailboxID row, False)]"
    and "jmap_id (sz_SnoozedMailboxID row)" and "ap patch m = Some m'"
  shows "inn m' (sz_SnoozedMailboxID row)"
  using woken_mail(1) [OF assms(1,5,2,3,4)] by simp

text \<open>A second snooze into another mailbox is refused with 409 after its move; waking the first leaves the mail in that mailbox.\<close>

lemma second_snooze_stays:
  assumes "patch_law inn seen ap" and "buildWakePatch um row = Inr patch" and "um (sz_OriginalMailboxIDs row) = Some orig"
    and "jmap_id other" "other \<noteq> sz_SnoozedMailboxID row" "other \<notin> originals orig"
    and "ap (move_patch orig other False False) m1 = Some m2" and "ap patch m2 = Some m3"
  shows "inn m3 other"
  using moved_mail(1) [OF assms(1,7,4)] woken_mail(1) [OF assms(1,8,2,3,4)] assms(5) by simp

subsection \<open>Errors of the handler\<close>

text \<open>The move of a request, and its opposite.\<close>

definition request_move :: "'s snooze_handlers \<Rightarrow> string \<Rightarrow> string \<Rightarrow> string \<Rightarrow> createRequest \<Rightarrow> bool \<Rightarrow> 's \<Rightarrow> 's \<times> bool" where
  "request_move h tenantID kchatUserID accountID b restore s =
     applyMove h tenantID kchatUserID accountID (cr_EmailID b) (cr_OriginalMailboxIDs b) (cr_SnoozedMailboxID b) restore False s"

lemma snooze_Snooze_result:
  "snooze_Snooze pg um fault nid dbnow now inp rows = (rows', res) \<Longrightarrow>
   (case res of Inl _ \<Rightarrow> rows' = rows | Inr r \<Rightarrow> rows' = rows @ [r] \<and> sz_Status r = ''snoozed'' \<and> sz_EmailID r = zi_EmailID inp)"
  by (auto simp: snooze_Snooze_def Let_def split: option.splits if_splits sum.splits)

text \<open>
  C34: The handler that snoozes a mail stores a row exactly when it answers 201, and then Stalwart took the move. When the move was taken but
  the row could not be stored, the handler has moved the mail back, except for the answer 409, where an earlier snooze holds it.\<close>

theorem create_snooze_errors:
  assumes "create_snooze h now fault nid dbnow now2 tenantID kchatUserID content rows s = (rows', s', st, body)"
  shows "(st \<noteq> 201 \<and> rows' = rows \<or> st = 201 \<and> (\<exists>row. rows' = rows @ [row] \<and> sz_Status row = ''snoozed''))
    \<and> (s' = s \<and> st \<noteq> 201
       \<or> (\<exists>b accountID s1 failed. content = Some b \<and> request_move h tenantID kchatUserID accountID b False s = (s1, failed)
            \<and> (if failed then st = 502 \<and> s' = s1
               else if st = 201 \<or> st = 409 then s' = s1
               else s' = fst (request_move h tenantID kchatUserID accountID b True s1))))"
proof (cases "rows' = rows \<and> s' = s \<and> st \<noteq> 201")
  case False
  obtain b where b: "content = Some b" and ctx: "tenantID \<noteq> []" "kchatUserID \<noteq> []" using assms False by (auto simp: create_snooze_def split: if_splits option.splits)
  have ok: "trim_space (cr_EmailID b) \<noteq> []" "cr_OriginalMailboxIDs b \<noteq> []" "trim_space (cr_SnoozedMailboxID b) \<noteq> []" "cr_SnoozeUntil b \<noteq> zero_time"
      "\<not> time_Sub (cr_SnoozeUntil b) now < MinSnoozeHorizon" "\<not> time_Sub (cr_SnoozeUntil b) now > MaxSnoozeHorizon"
      "map_of (cr_OriginalMailboxIDs b) (cr_SnoozedMailboxID b) \<noteq> Some True"
    using assms False b ctx by (auto simp: create_snooze_def Let_def split: if_splits)
  obtain acc where acc: "zh_Resolve h tenantID kchatUserID = Inr acc" using assms False b ctx ok by (auto simp: create_snooze_def Let_def split: sum.splits)
  obtain s1 failed where m: "request_move h tenantID kchatUserID acc b False s = (s1, failed)" by (cases "request_move h tenantID kchatUserID acc b False s")
  define inp where "inp = \<lparr>zi_TenantID = tenantID, zi_KChatUserID = kchatUserID, zi_StalwartAccountID = acc, zi_EmailID = cr_EmailID b,
     zi_OriginalMailboxIDs = zh_marshal h (cr_OriginalMailboxIDs b), zi_SnoozedMailboxID = cr_SnoozedMailboxID b,
     zi_SnoozeUntil = cr_SnoozeUntil b, zi_MarkUnreadOnWake = (case cr_MarkUnreadOnWake b of None \<Rightarrow> True | Some v \<Rightarrow> v)\<rparr>"
  obtain rows1 res where S: "snooze_Snooze (zh_pg h) (zh_unmarshal h) fault nid dbnow now2 inp rows = (rows1, res)"
    by (cases "snooze_Snooze (zh_pg h) (zh_unmarshal h) fault nid dbnow now2 inp rows")
  have run: "create_snooze h now fault nid dbnow now2 tenantID kchatUserID content rows s =
      (if failed then (rows, s1, 502, SnoozeFailure ''stalwart refused move'')
       else case res of Inr row \<Rightarrow> (rows1, s1, 201, SnoozeRow (toResponse row)) | Inl AlreadySnoozed \<Rightarrow> (rows1, s1, 409, SnoozeFailure ''email is already snoozed'')
         | Inl e \<Rightarrow> (rows1, fst (request_move h tenantID kchatUserID acc b True s1),
             case e of InvalidSnooze msg \<Rightarrow> (400, SnoozeFailure (''snooze: invalid snooze_until: '' @ msg)) | _ \<Rightarrow> (500, SnoozeFailure ''internal error'')))"
    using m S b ctx ok acc unfolding create_snooze_def request_move_def inp_def
    by (cases failed; cases res; cases "projl res") (simp_all add: Let_def)
  show ?thesis
  proof (cases failed)
    case True
    then show ?thesis using assms run m b by auto
  next
    case moved: False
    show ?thesis
    proof (cases res)
      case (Inl e)
      then show ?thesis using assms run m b moved snooze_Snooze_result [OF S] by (cases e) auto
    next
      case (Inr row)
      then show ?thesis using assms run m b moved snooze_Snooze_result [OF S] by auto
    qed
  qed
qed simp

definition ex_snooze_handlers :: "nat snooze_handlers" where
  "ex_snooze_handlers = \<lparr>zh_Resolve = (\<lambda>_ _. Inr ''a''),
     zh_Dispatch = (\<lambda>_ _ _ n. (Suc n, Inr \<lparr>jp_MethodResponses = [[JString ''Email/set'', JObject [], JString ''snz'']], jp_SessionState = [], jp_CreatedIds = []\<rparr>)),
     zh_marshal = (\<lambda>m. fst (hd m)), zh_unmarshal = ex_decoder, zh_pg = ex_snooze_pg\<rparr>"

definition ex_create :: createRequest where
  "ex_create = \<lparr>cr_EmailID = ''e'', cr_OriginalMailboxIDs = [(''in'', True)], cr_SnoozedMailboxID = ''sn'', cr_SnoozeUntil = 120 * nanos_per_s, cr_MarkUnreadOnWake = None\<rparr>"

theorem create_snooze_errors_witness:
  "\<exists>b accountID s1 failed. Some ex_create = Some b \<and> request_move ex_snooze_handlers ''t'' ''u'' accountID b False 0 = (s1, failed)
     \<and> (2 :: nat) = fst (request_move ex_snooze_handlers ''t'' ''u'' accountID b True s1)"
proof -
  have r: "create_snooze ex_snooze_handlers 0 (Some ''down'') ''1'' 0 0 ''t'' ''u'' (Some ex_create) [] 0 = ([], 2, 500, SnoozeFailure ''internal error'')"
    by code_simp
  show ?thesis using conjunct2 [OF create_snooze_errors [OF r]] by (auto split: if_splits)
qed

end
