(* ===== verification/EmailOps.thy ===== *)
theory EmailOps
  imports Jmap
begin

text \<open>
  The two ways the retention sweep reaches mail in Stalwart: \<^verbatim>\<open>StalwartEmailOperator\<close> (\<^verbatim>\<open>internal/jmap/email_ops.go\<close>), which goes through
  the accounts of a tenant with the internal client, and \<^verbatim>\<open>JMAPEnforcer\<close> (\<^verbatim>\<open>internal/retention/worker.go\<close>), which addresses the shard with
  the tenant id as account and also moves objects to the cold tier.

  The accounts of a tenant, the internal client and the HTTP exchanges are arguments; errors are texts. A Go map is iterated in the
  order of its list, sorted where the code sorts its keys.
\<close>

text \<open>The interface \<^verbatim>\<open>EmailOperator\<close>, with the optional \<^verbatim>\<open>ColdMover\<close>.\<close>

record 's email_operator =
  eo_query :: "string \<Rightarrow> string \<Rightarrow> time \<Rightarrow> nat \<Rightarrow> 's \<Rightarrow> 's \<times> (string + string list)"
  eo_destroy :: "string \<Rightarrow> string list \<Rightarrow> 's \<Rightarrow> 's \<times> string option"
  eo_cold :: "(string \<Rightarrow> string list \<Rightarrow> 's \<Rightarrow> 's \<times> string option) option"

text \<open>\<^verbatim>\<open>%q\<close> of a text without characters to escape.\<close>

definition quoted :: "string \<Rightarrow> string" where "quoted s = CHR 0x22 # s @ [CHR 0x22]"

abbreviation destroyChunk :: nat where "destroyChunk \<equiv> 100"

text \<open>\<^verbatim>\<open>for i := 0; i < len(ids); i += n\<close> over slices of \<open>n\<close> ids.\<close>

function chunks :: "nat \<Rightarrow> 'a list \<Rightarrow> 'a list list" where
  "chunks n xs = (if xs = [] \<or> n = 0 then [] else take n xs # chunks n (drop n xs))"
  by pat_completeness auto
termination by (relation "measure (length \<circ> snd)") auto

declare chunks.simps [simp del]

lemma concat_chunks: "0 < n \<Longrightarrow> concat (chunks n xs) = xs"
  by (induction n xs rule: chunks.induct) (subst chunks.simps, auto)

lemma chunk_length: "0 < n \<Longrightarrow> c \<in> set (chunks n xs) \<Longrightarrow> c \<noteq> [] \<and> length c \<le> n \<and> set c \<subseteq> set xs"
proof (induction n xs rule: chunks.induct)
  case (1 n xs)
  show ?case
  proof (cases "xs = []")
    case False
    then have "c = take n xs \<or> c \<in> set (chunks n (drop n xs))" using "1.prems" by (subst (asm) chunks.simps) auto
    then show ?thesis using 1 False set_take_subset [of n xs] set_drop_subset [of n xs] by auto
  qed (use 1 in \<open>simp add: chunks.simps\<close>)
qed

subsection \<open>Qualified ids\<close>

definition QualifyEmailID :: "string \<Rightarrow> string \<Rightarrow> string" where
  "QualifyEmailID accountID emailID = accountID @ '':'' @ emailID"

definition SplitQualifiedEmailID :: "string \<Rightarrow> (string \<times> string) option" where
  "SplitQualifiedEmailID q =
     (let a = takeWhile (\<lambda>c. c \<noteq> CHR '':'') q; r = dropWhile (\<lambda>c. c \<noteq> CHR '':'') q in
      if a = [] \<or> length r \<le> 1 then None else Some (a, tl r))"

lemma Split_Qualify: "CHR '':'' \<notin> set a \<Longrightarrow> a \<noteq> [] \<Longrightarrow> e \<noteq> [] \<Longrightarrow> SplitQualifiedEmailID (QualifyEmailID a e) = Some (a, e)"
  by (auto simp: SplitQualifiedEmailID_def QualifyEmailID_def Let_def takeWhile_append dropWhile_append)

subsection \<open>StalwartEmailOperator\<close>

definition email_filter :: "string \<Rightarrow> time \<Rightarrow> (string \<times> json) list" where
  "email_filter mailboxID olderThan =
     (''before'', JString (format_rfc3339 olderThan)) # (if mailboxID \<noteq> [] then [(''inMailbox'', JString mailboxID)] else [])"

definition query_request :: "string \<Rightarrow> string \<Rightarrow> time \<Rightarrow> nat \<Rightarrow> JmapRequest" where
  "query_request accountID mailboxID olderThan remaining =
     \<lparr>jq_Using = [''urn:ietf:params:jmap:core'', ''urn:ietf:params:jmap:mail''],
      jq_MethodCalls = [[JString ''Email/query'', JObject [(''accountId'', JString accountID), (''filter'', JObject (email_filter mailboxID olderThan)),
        (''sort'', JArray [JObject [(''property'', JString ''receivedAt''), (''isAscending'', JBool True)]]),
        (''position'', JNumber ''0''), (''limit'', JNumber (dec_nat remaining)), (''calculateTotal'', JBool False)], JString ''q0'']],
      jq_CreatedIds = []\<rparr>"

definition destroy_request :: "string \<Rightarrow> string list \<Rightarrow> JmapRequest" where
  "destroy_request accountID batch =
     \<lparr>jq_Using = [''urn:ietf:params:jmap:core'', ''urn:ietf:params:jmap:mail''],
      jq_MethodCalls = [[JString ''Email/set'', JObject [(''accountId'', JString accountID), (''destroy'', JArray (map JString batch))], JString ''d0'']],
      jq_CreatedIds = []\<rparr>"

definition parseEmailQueryIDs :: "JmapResponse \<Rightarrow> string \<Rightarrow> string + string list" where
  "parseEmailQueryIDs resp callID =
     (case CallByID resp callID of
        None \<Rightarrow> Inl (''missing Email/query response ('' @ callID @ '')'')
      | Some (name, args) \<Rightarrow>
          if name \<noteq> ''Email/query'' then Inl (''unexpected response method for '' @ callID @ '': '' @ quoted name)
          else Inr (filter (\<lambda>s. s \<noteq> []) (map as_string (as_array (field args ''ids'')))))"

text \<open>The first failure, in the order of the ids, that is not \<^verbatim>\<open>notFound\<close>.\<close>

definition destroy_failure :: "(string \<times> json) list \<Rightarrow> string option" where
  "destroy_failure notDestroyed =
     (case find (\<lambda>(i, e). as_string (field (as_object e) ''type'') \<noteq> ''notFound'') (sort_key fst notDestroyed) of
        None \<Rightarrow> None
      | Some (i, e) \<Rightarrow>
          let typ = as_string (field (as_object e) ''type''); desc = as_string (field (as_object e) ''description'') in
          Some (''destroy '' @ i @ '' failed: '' @ typ @ (if desc \<noteq> [] then '': '' @ desc else [])))"

definition checkEmailSetDestroy :: "JmapResponse \<Rightarrow> string \<Rightarrow> string option" where
  "checkEmailSetDestroy resp callID =
     (case CallByID resp callID of
        None \<Rightarrow> Some (''missing Email/set response ('' @ callID @ '')'')
      | Some (name, args) \<Rightarrow>
          if name \<noteq> ''Email/set'' then Some (''unexpected response method for '' @ callID @ '': '' @ quoted name)
          else destroy_failure (as_object (field args ''notDestroyed'')))"

record 's stalwart_operator =
  so_Dispatch :: "string \<Rightarrow> string \<Rightarrow> JmapRequest \<Rightarrow> 's \<Rightarrow> 's \<times> (jmap_error + JmapResponse)"
  so_accounts :: "string \<Rightarrow> string + (string \<times> string) list"
  so_text :: "jmap_error \<Rightarrow> string"

text \<open>An account without the mailbox is skipped.\<close>

definition no_mailbox :: "string \<Rightarrow> jmap_error \<Rightarrow> bool" where
  "no_mailbox mailboxID e = (case e of MethodFailed me \<Rightarrow> mailboxID \<noteq> [] \<and> me_Type me = ''invalidArguments'' | _ \<Rightarrow> False)"

fun query_accounts :: "'s stalwart_operator \<Rightarrow> string \<Rightarrow> string \<Rightarrow> time \<Rightarrow> nat \<Rightarrow> (string \<times> string) list \<Rightarrow> string list \<Rightarrow> 's \<Rightarrow> 's \<times> (string + string list)" where
  "query_accounts o1 tenantID mailboxID olderThan limit [] out s = (s, Inr out)"
| "query_accounts o1 tenantID mailboxID olderThan limit ((user, acct) # accts) out s =
     (if length out \<ge> limit then (s, Inr out)
      else case so_Dispatch o1 tenantID user (query_request acct mailboxID olderThan (limit - length out)) s of
          (s1, Inl e) \<Rightarrow>
            if no_mailbox mailboxID e then query_accounts o1 tenantID mailboxID olderThan limit accts out s1
            else (s1, Inl (''Email/query account '' @ acct @ '': '' @ so_text o1 e))
        | (s1, Inr resp) \<Rightarrow>
            (case parseEmailQueryIDs resp ''q0'' of
               Inl e \<Rightarrow> (s1, Inl (''parse Email/query account '' @ acct @ '': '' @ e))
             | Inr ids \<Rightarrow> query_accounts o1 tenantID mailboxID olderThan limit accts (out @ take (limit - length out) (map (QualifyEmailID acct) ids)) s1))"

definition QueryEmailsByDate :: "'s stalwart_operator \<Rightarrow> string \<Rightarrow> string \<Rightarrow> time \<Rightarrow> nat \<Rightarrow> 's \<Rightarrow> 's \<times> (string + string list)" where
  "QueryEmailsByDate o1 tenantID mailboxID olderThan limit0 s =
     (if trim_space tenantID = [] then (s, Inl ''jmap.QueryEmailsByDate: tenantID is required'')
      else let limit = (if limit0 = 0 then 500 else limit0) in
        case so_accounts o1 tenantID of
          Inl e \<Rightarrow> (s, Inl (''enumerate tenant accounts: '' @ e))
        | Inr accts \<Rightarrow> query_accounts o1 tenantID mailboxID olderThan limit accts [] s)"

text \<open>Grouping by account, in the order of first appearance; \<open>None\<close> on a malformed id.\<close>

fun group_ids :: "string list \<Rightarrow> (string \<times> string list) list \<Rightarrow> (string \<times> string list) list option" where
  "group_ids [] byAccount = Some byAccount"
| "group_ids (q # qs) byAccount =
     (case SplitQualifiedEmailID q of
        None \<Rightarrow> None
      | Some (acct, emailID) \<Rightarrow>
          group_ids qs (case map_of byAccount acct of None \<Rightarrow> byAccount @ [(acct, [emailID])] | Some ids \<Rightarrow> AList.update acct (ids @ [emailID]) byAccount))"

fun destroy_batches :: "'s stalwart_operator \<Rightarrow> string \<Rightarrow> string \<Rightarrow> string \<Rightarrow> string list list \<Rightarrow> 's \<Rightarrow> 's \<times> string option" where
  "destroy_batches o1 tenantID user acct [] s = (s, None)"
| "destroy_batches o1 tenantID user acct (batch # bs) s =
     (case so_Dispatch o1 tenantID user (destroy_request acct batch) s of
        (s1, Inl e) \<Rightarrow> (s1, Some (''Email/set destroy account '' @ acct @ '': '' @ so_text o1 e))
      | (s1, Inr resp) \<Rightarrow>
          (case checkEmailSetDestroy resp ''d0'' of
             Some e \<Rightarrow> (s1, Some (''Email/set destroy account '' @ acct @ '': '' @ e))
           | None \<Rightarrow> destroy_batches o1 tenantID user acct bs s1))"

fun destroy_accounts :: "'s stalwart_operator \<Rightarrow> string \<Rightarrow> (string \<times> string) list \<Rightarrow> (string \<times> string list) list \<Rightarrow> 's \<Rightarrow> 's \<times> string option" where
  "destroy_accounts o1 tenantID accts [] s = (s, None)"
| "destroy_accounts o1 tenantID accts ((acct, ids) # rest) s =
     (case map_of (rev (map (\<lambda>(u, a). (a, u)) accts)) acct of
        None \<Rightarrow> (s, Some (''jmap.DestroyEmails: account '' @ acct @ '' is not an active account of tenant '' @ tenantID))
      | Some user \<Rightarrow>
          (case destroy_batches o1 tenantID user acct (chunks destroyChunk ids) s of
             (s1, Some e) \<Rightarrow> (s1, Some e)
           | (s1, None) \<Rightarrow> destroy_accounts o1 tenantID accts rest s1))"

definition DestroyEmails :: "'s stalwart_operator \<Rightarrow> string \<Rightarrow> string list \<Rightarrow> 's \<Rightarrow> 's \<times> string option" where
  "DestroyEmails o1 tenantID messageIDs s =
     (if trim_space tenantID = [] then (s, Some ''jmap.DestroyEmails: tenantID is required'')
      else if messageIDs = [] then (s, None)
      else case group_ids messageIDs [] of
          None \<Rightarrow> (s, Some ''jmap.DestroyEmails: malformed qualified id'')
        | Some byAccount \<Rightarrow>
            (case so_accounts o1 tenantID of
               Inl e \<Rightarrow> (s, Some (''enumerate tenant accounts: '' @ e))
             | Inr accts \<Rightarrow> destroy_accounts o1 tenantID accts byAccount s))"

definition stalwart_ops :: "'s stalwart_operator \<Rightarrow> 's email_operator" where
  "stalwart_ops o1 = \<lparr>eo_query = QueryEmailsByDate o1, eo_destroy = DestroyEmails o1, eo_cold = None\<rparr>"

subsection \<open>JMAPEnforcer\<close>

text \<open>
  \<open>je_do\<close> posts a payload to a URL with headers: a failed exchange is its error, an answer its status with what \<^verbatim>\<open>json.Unmarshal\<close> makes of the
  method responses in its first 4 MiB.
\<close>

record 's JMAPEnforcer =
  je_Shards :: "(string \<Rightarrow> string + string) option"
  je_Auth :: string
  je_FabricURL :: string
  je_FabricAuth :: string
  je_do :: "string \<Rightarrow> (string \<times> string) list \<Rightarrow> json \<Rightarrow> 's \<Rightarrow> 's \<times> (string + int \<times> json list list option)"

definition trim_slashes :: "string \<Rightarrow> string" where
  "trim_slashes s = rev (dropWhile (\<lambda>c. c = CHR ''/'') (rev s))"

definition shardURL :: "'s JMAPEnforcer \<Rightarrow> string \<Rightarrow> string + string" where
  "shardURL e tenantID =
     (case je_Shards e of
        None \<Rightarrow> Inl ''retention: shards not configured''
      | Some resolve \<Rightarrow> (case resolve tenantID of Inl er \<Rightarrow> Inl er | Inr url \<Rightarrow> Inr (trim_slashes url @ ''/jmap/api'')))"

definition json_headers :: "string \<Rightarrow> (string \<times> string) list" where
  "json_headers auth = (''Content-Type'', ''application/json'') # (if auth \<noteq> [] then [(''Authorization'', auth)] else [])"

definition enforcer_jmap :: "'s JMAPEnforcer \<Rightarrow> string \<Rightarrow> json \<Rightarrow> 's \<Rightarrow> 's \<times> (string + json list list)" where
  "enforcer_jmap e url payload s =
     (case je_do e url (json_headers (je_Auth e)) payload s of
        (s1, Inl er) \<Rightarrow> (s1, Inl er)
      | (s1, Inr (st, decoded)) \<Rightarrow>
          if st \<ge> 300 then (s1, Inl (''retention: jmap HTTP '' @ itoa st))
          else (case decoded of None \<Rightarrow> (s1, Inl ''unmarshal'') | Some resp \<Rightarrow> (s1, Inr resp)))"

text \<open>The decoding of a JSON value into a string, a slice of strings and a struct with the field \<^verbatim>\<open>ids\<close>; \<^verbatim>\<open>null\<close> leaves the zero value.\<close>

fun decode_string :: "json \<Rightarrow> string option" where
  "decode_string (JString s) = Some s"
| "decode_string JNull = Some []"
| "decode_string _ = None"

fun decode_strings :: "json \<Rightarrow> string list option" where
  "decode_strings (JArray xs) = those (map decode_string xs)"
| "decode_strings JNull = Some []"
| "decode_strings _ = None"

fun decode_ids :: "json \<Rightarrow> string list option" where
  "decode_ids (JObject m) = decode_strings (field m ''ids'')"
| "decode_ids JNull = Some []"
| "decode_ids _ = None"

fun decodes_set_error :: "json \<Rightarrow> bool" where
  "decodes_set_error (JObject m) \<longleftrightarrow> decode_string (field m ''type'') \<noteq> None \<and> decode_string (field m ''description'') \<noteq> None"
| "decodes_set_error JNull \<longleftrightarrow> True"
| "decodes_set_error _ \<longleftrightarrow> False"

fun decodes_not_destroyed :: "json \<Rightarrow> bool" where
  "decodes_not_destroyed (JObject m) =
     (case field m ''notDestroyed'' of JObject es \<Rightarrow> list_all (decodes_set_error \<circ> snd) es | JNull \<Rightarrow> True | _ \<Rightarrow> False)"
| "decodes_not_destroyed JNull \<longleftrightarrow> True"
| "decodes_not_destroyed _ \<longleftrightarrow> False"

fun jmapMethodArgs :: "json list list \<Rightarrow> string \<Rightarrow> string \<Rightarrow> string + json" where
  "jmapMethodArgs [] expected callID = Inl (''retention: missing '' @ expected @ '' response ('' @ callID @ '')'')"
| "jmapMethodArgs (mr # mrs) expected callID =
     (if length mr < 3 \<or> decode_string (mr ! 2) \<noteq> Some callID then jmapMethodArgs mrs expected callID
      else case decode_string (mr ! 0) of
          None \<Rightarrow> Inl (''retention: decode '' @ expected @ '' response method'')
        | Some name \<Rightarrow>
            if name = ''error'' then
              (let typ = as_string (field (as_object (mr ! 1)) ''type''); desc = as_string (field (as_object (mr ! 1)) ''description'')
               in Inl (''retention: '' @ expected @ '' failed: '' @ typ @ (if desc \<noteq> [] then '': '' @ desc else [])))
            else if name \<noteq> expected then Inl (''retention: unexpected response method for '' @ callID @ '': '' @ quoted name)
            else Inr (mr ! 1))"

definition enforcer_payload :: "string \<Rightarrow> (string \<times> json) list \<Rightarrow> json" where
  "enforcer_payload name args =
     JObject [(''using'', JArray [JString ''urn:ietf:params:jmap:core'', JString ''urn:ietf:params:jmap:mail'']),
       (''methodCalls'', JArray [JArray [JString name, JObject args, JString ''c1'']])]"

definition query_payload :: "string \<Rightarrow> string \<Rightarrow> time \<Rightarrow> nat \<Rightarrow> json" where
  "query_payload tenantID mailboxID olderThan limit =
     enforcer_payload ''Email/query'' [(''accountId'', JString tenantID), (''filter'', JObject (email_filter mailboxID olderThan)),
       (''sort'', JArray [JObject [(''property'', JString ''receivedAt''), (''isAscending'', JBool True)]]), (''limit'', JNumber (dec_nat limit))]"

definition destroy_payload :: "string \<Rightarrow> string list \<Rightarrow> json" where
  "destroy_payload tenantID batch =
     enforcer_payload ''Email/set'' [(''accountId'', JString tenantID), (''destroy'', JArray (map JString batch))]"

definition enforcer_query :: "'s JMAPEnforcer \<Rightarrow> string \<Rightarrow> string \<Rightarrow> time \<Rightarrow> nat \<Rightarrow> 's \<Rightarrow> 's \<times> (string + string list)" where
  "enforcer_query e tenantID mailboxID olderThan limit0 s =
     (if trim_space tenantID = [] then (s, Inl ''retention: tenantID is required'')
      else let limit = (if limit0 = 0 then 500 else limit0) in
        case shardURL e tenantID of
          Inl er \<Rightarrow> (s, Inl er)
        | Inr url \<Rightarrow>
            (case enforcer_jmap e url (query_payload tenantID mailboxID olderThan limit) s of
               (s1, Inl er) \<Rightarrow> (s1, Inl er)
             | (s1, Inr resp) \<Rightarrow>
                 (case jmapMethodArgs resp ''Email/query'' ''c1'' of
                    Inl er \<Rightarrow> (s1, Inl er)
                  | Inr args \<Rightarrow> (case decode_ids args of None \<Rightarrow> (s1, Inl ''retention: decode Email/query args'') | Some ids \<Rightarrow> (s1, Inr ids)))))"

definition checkJMAPDestroy :: "json list list \<Rightarrow> string \<Rightarrow> string option" where
  "checkJMAPDestroy resp callID =
     (case jmapMethodArgs resp ''Email/set'' callID of
        Inl er \<Rightarrow> Some er
      | Inr args \<Rightarrow>
          if \<not> decodes_not_destroyed args then Some ''retention: decode Email/set args''
          else map_option ((@) ''retention: '') (destroy_failure (as_object (field (as_object args) ''notDestroyed''))))"

fun enforcer_destroy_batches :: "'s JMAPEnforcer \<Rightarrow> string \<Rightarrow> string \<Rightarrow> string list list \<Rightarrow> 's \<Rightarrow> 's \<times> string option" where
  "enforcer_destroy_batches e url tenantID [] s = (s, None)"
| "enforcer_destroy_batches e url tenantID (batch # bs) s =
     (case enforcer_jmap e url (destroy_payload tenantID batch) s of
        (s1, Inl er) \<Rightarrow> (s1, Some er)
      | (s1, Inr resp) \<Rightarrow>
          (case checkJMAPDestroy resp ''c1'' of Some er \<Rightarrow> (s1, Some er) | None \<Rightarrow> enforcer_destroy_batches e url tenantID bs s1))"

definition enforcer_destroy :: "'s JMAPEnforcer \<Rightarrow> string \<Rightarrow> string list \<Rightarrow> 's \<Rightarrow> 's \<times> string option" where
  "enforcer_destroy e tenantID ids s =
     (if trim_space tenantID = [] then (s, Some ''retention: tenantID is required'')
      else if ids = [] then (s, None)
      else case shardURL e tenantID of
          Inl er \<Rightarrow> (s, Some er)
        | Inr url \<Rightarrow> enforcer_destroy_batches e url tenantID (chunks destroyChunk ids) s)"

definition move_payload :: "string \<Rightarrow> string list \<Rightarrow> json" where
  "move_payload tenantID batch =
     JObject [(''tenant_id'', JString tenantID), (''object_ids'', JArray (map JString batch)), (''target_tier'', JString ''cold''), (''reason'', JString ''retention_archive'')]"

text \<open>The count that the code returns is not used by the sweep.\<close>

fun move_batches :: "'s JMAPEnforcer \<Rightarrow> string \<Rightarrow> string list list \<Rightarrow> 's \<Rightarrow> 's \<times> string option" where
  "move_batches e tenantID [] s = (s, None)"
| "move_batches e tenantID (batch # bs) s =
     (case je_do e (trim_slashes (je_FabricURL e) @ ''/placements/move'') (json_headers (je_FabricAuth e)) (move_payload tenantID batch) s of
        (s1, Inl er) \<Rightarrow> (s1, Some er)
      | (s1, Inr (st, _)) \<Rightarrow> if st \<ge> 300 then (s1, Some (''retention: fabric placement HTTP '' @ itoa st)) else move_batches e tenantID bs s1)"

definition MoveToCold :: "'s JMAPEnforcer \<Rightarrow> string \<Rightarrow> string list \<Rightarrow> 's \<Rightarrow> 's \<times> string option" where
  "MoveToCold e tenantID ids s =
     (if je_FabricURL e = [] then (s, Some ''retention: fabric url not configured'') else move_batches e tenantID (chunks destroyChunk ids) s)"

definition enforcer_ops :: "'s JMAPEnforcer \<Rightarrow> 's email_operator" where
  "enforcer_ops e = \<lparr>eo_query = enforcer_query e, eo_destroy = enforcer_destroy e, eo_cold = Some (MoveToCold e)\<rparr>"

end
