(* ===== verification/Retention.thy ===== *)
theory Retention
  imports EmailOps AuditLog
begin

text \<open>
  Retention of mail (\<^verbatim>\<open>internal/retention\<close>): the policies (\<^verbatim>\<open>service.go\<close>), the sweep that enforces one (\<^verbatim>\<open>enforcement.go\<close>), the daily worker
  (\<^verbatim>\<open>worker.go\<close>) and the REST handlers (\<^verbatim>\<open>handlers.go\<close>).

  The mail, with whatever the operator needs, is a state \<open>'s\<close> behind the interface \<open>email_operator\<close>; the tables and the entries handed to
  the audit log stand beside it. The pool is configured. Clock readings, generated ids, faults of a statement and the cast to \<^verbatim>\<open>uuid\<close> are
  arguments. Error texts are kept where a caller reads them; a decoded body is \<open>None\<close> where it does not decode.
\<close>

subsection \<open>Data\<close>

record Policy =
  py_ID :: string
  py_TenantID :: string
  py_PolicyType :: string
  py_RetentionDays :: int
  py_AppliesTo :: string
  py_TargetRef :: string
  py_Enabled :: bool
  py_CreatedAt :: time
  py_UpdatedAt :: time

record EnforcementRun =
  er_ID :: string
  er_PolicyID :: string
  er_EmailsProcessed :: int
  er_EmailsDeleted :: int
  er_EmailsArchived :: int
  er_StartedAt :: time
  er_CompletedAt :: "time option"
  er_Error :: string
  er_Notes :: string

record 's retention_state =
  rs_tenants :: "(string \<times> string) list"
  rs_policies :: "Policy list"
  rs_log :: "(string \<times> EnforcementRun) list"
  rs_audit :: "json Entry list"
  rs_deleted_total :: int
  rs_archived_total :: int
  rs_mail :: 's

type_synonym uuid_cast = "string \<Rightarrow> string option"

subsection \<open>Policies\<close>

definition validatePolicy :: "Policy \<Rightarrow> string option" where
  "validatePolicy p =
     (if py_TenantID p = [] then Some ''retention: tenant_id required''
      else if py_PolicyType p \<noteq> ''archive'' \<and> py_PolicyType p \<noteq> ''delete'' then Some ''retention: policy_type must be archive|delete''
      else if py_RetentionDays p \<le> 0 then Some ''retention: retention_days must be > 0''
      else if py_AppliesTo p \<notin> {''all'', ''mailbox'', ''label''} then Some ''retention: applies_to must be all|mailbox|label''
      else None)"

definition CreatePolicy :: "uuid_cast \<Rightarrow> string option \<Rightarrow> string \<Rightarrow> time \<Rightarrow> Policy \<Rightarrow> 's retention_state \<Rightarrow> 's retention_state \<times> (string + Policy)" where
  "CreatePolicy uuid fault nid dbnow p s =
     (case validatePolicy p of
        Some e \<Rightarrow> (s, Inl e)
      | None \<Rightarrow>
          (case (fault, uuid (py_TenantID p)) of
             (Some e, _) \<Rightarrow> (s, Inl (''create retention: '' @ e))
           | (None, None) \<Rightarrow> (s, Inl ''create retention: invalid input syntax for type uuid'')
           | (None, Some tid) \<Rightarrow>
               if \<not> fits_int4 (py_RetentionDays p) then (s, Inl ''create retention: retention_days out of range'')
               else if tid \<notin> fst ` set (rs_tenants s) then (s, Inl ''create retention: retention_policies_tenant_id_fkey'')
               else if nid \<in> py_ID ` set (rs_policies s) then (s, Inl ''create retention: retention_policies_pkey'')
               else let q = p\<lparr>py_ID := nid, py_CreatedAt := dbnow, py_UpdatedAt := dbnow\<rparr>
                 in (s\<lparr>rs_policies := rs_policies s @ [q\<lparr>py_TenantID := tid\<rparr>]\<rparr>, Inr q)))"

definition UpdatePolicy :: "uuid_cast \<Rightarrow> string option \<Rightarrow> time \<Rightarrow> Policy \<Rightarrow> 's retention_state \<Rightarrow> 's retention_state \<times> (string + Policy)" where
  "UpdatePolicy uuid fault dbnow p s =
     (case validatePolicy p of
        Some e \<Rightarrow> (s, Inl e)
      | None \<Rightarrow>
          (case (fault, uuid (py_ID p), uuid (py_TenantID p)) of
             (Some e, _, _) \<Rightarrow> (s, Inl e)
           | (None, Some i, Some tid) \<Rightarrow>
               if \<not> fits_int4 (py_RetentionDays p) then (s, Inl ''retention_days out of range'')
               else (s\<lparr>rs_policies := map (\<lambda>q. if py_ID q = i \<and> py_TenantID q = tid
                   then q\<lparr>py_PolicyType := py_PolicyType p, py_RetentionDays := py_RetentionDays p, py_AppliesTo := py_AppliesTo p,
                          py_TargetRef := py_TargetRef p, py_Enabled := py_Enabled p, py_UpdatedAt := dbnow\<rparr> else q) (rs_policies s)\<rparr>, Inr p)
           | _ \<Rightarrow> (s, Inl ''invalid input syntax for type uuid'')))"

text \<open>The runs of a deleted policy go with it.\<close>

definition DeletePolicy :: "uuid_cast \<Rightarrow> string option \<Rightarrow> string \<Rightarrow> string \<Rightarrow> 's retention_state \<Rightarrow> 's retention_state \<times> string option" where
  "DeletePolicy uuid fault tenantID i s =
     (case (fault, uuid i, uuid tenantID) of
        (Some e, _, _) \<Rightarrow> (s, Some e)
      | (None, Some pid, Some tid) \<Rightarrow>
          let gone = (\<lambda>q. py_ID q = pid \<and> py_TenantID q = tid); ids = py_ID ` set (filter gone (rs_policies s)) in
          (s\<lparr>rs_policies := filter (\<lambda>q. \<not> gone q) (rs_policies s), rs_log := filter (\<lambda>(_, r). er_PolicyID r \<notin> ids) (rs_log s)\<rparr>, None)
      | _ \<Rightarrow> (s, Some ''invalid input syntax for type uuid''))"

definition ListPolicies :: "uuid_cast \<Rightarrow> string option \<Rightarrow> string \<Rightarrow> 's retention_state \<Rightarrow> string + Policy list" where
  "ListPolicies uuid fault tenantID s =
     (case (fault, uuid tenantID) of
        (Some e, _) \<Rightarrow> Inl e
      | (None, None) \<Rightarrow> Inl ''invalid input syntax for type uuid''
      | (None, Some tid) \<Rightarrow> Inr (sort_key py_CreatedAt (filter (\<lambda>p. py_TenantID p = tid) (rs_policies s))))"

definition ListActiveTenants :: "string option \<Rightarrow> 's retention_state \<Rightarrow> string + string list" where
  "ListActiveTenants fault s =
     (case fault of Some e \<Rightarrow> Inl e | None \<Rightarrow> Inr (map fst (filter (\<lambda>(_, st). st = ''active'') (rs_tenants s))))"

definition RecentEnforcementRuns :: "uuid_cast \<Rightarrow> string option \<Rightarrow> string \<Rightarrow> int \<Rightarrow> 's retention_state \<Rightarrow> string + EnforcementRun list" where
  "RecentEnforcementRuns uuid fault tenantID limit0 s =
     (if tenantID = [] then Inr []
      else let limit = (if limit0 \<le> 0 \<or> limit0 > 200 then 20 else limit0) in
        case (fault, uuid tenantID) of
          (Some e, _) \<Rightarrow> Inl e
        | (None, None) \<Rightarrow> Inl ''invalid input syntax for type uuid''
        | (None, Some tid) \<Rightarrow> Inr (take (nat limit) (sort_key (\<lambda>r. - er_StartedAt r) (map snd (filter (\<lambda>(t, _). t = tid) (rs_log s))))))"

subsection \<open>The sweep\<close>

abbreviation queryPageSize :: nat where "queryPageSize \<equiv> 500"
abbreviation maxPages :: nat where "maxPages \<equiv> 5000"

text \<open>The clock is read at the start, for the cutoff and at the end; the database stamps and numbers the row of the run.\<close>

record run_env =
  rn_start :: time
  rn_cut :: time
  rn_done :: time
  rn_open_fault :: "string option"
  rn_id :: string
  rn_opened :: time
  rn_close_fault :: "string option"
  rn_closed :: time

record 's Enforcer =
  en_op :: "'s email_operator option"
  en_cold :: "(string \<Rightarrow> string list \<Rightarrow> 's \<Rightarrow> 's \<times> string option) option"
  en_metrics :: bool
  en_dryRun :: bool

definition scopeMailbox :: "Policy \<Rightarrow> string + string" where
  "scopeMailbox p =
     (if py_AppliesTo p = ''all'' then Inr []
      else if py_AppliesTo p = ''mailbox'' then
        (if trim_space (py_TargetRef p) = [] then Inl ''retention: mailbox policy missing target_ref'' else Inr (py_TargetRef p))
      else if py_AppliesTo p = ''label'' then Inl ''retention: label-scoped policies are not supported by the JMAP enforcer''
      else Inl (''retention: unknown applies_to '' @ quoted (py_AppliesTo p)))"

definition sameIDSet :: "string list \<Rightarrow> string list \<Rightarrow> bool" where
  "sameIDSet a b \<longleftrightarrow> length (remdups a) = length (remdups b) \<and> list_all (\<lambda>i. i \<in> set b) (remdups a)"

text \<open>\<^verbatim>\<open>-time.Duration(days) * 24 * time.Hour\<close> in \<^verbatim>\<open>int64\<close>.\<close>

definition cutoff_of :: "time \<Rightarrow> int \<Rightarrow> time" where
  "cutoff_of now days = now + int64 (int64 (int64 (- days) * 24) * nanos_per_hour)"

fun apply_chunks :: "'s Enforcer \<Rightarrow> 's email_operator \<Rightarrow> string \<Rightarrow> string \<Rightarrow> string list list \<Rightarrow> int \<Rightarrow> int \<Rightarrow> 's \<Rightarrow> 's \<times> int \<times> int \<times> string option" where
  "apply_chunks e op tenantID policyType [] deleted archived s = (s, deleted, archived, None)"
| "apply_chunks e op tenantID policyType (batch # bs) deleted archived s =
     (if policyType = ''delete'' then
        (case eo_destroy op tenantID batch s of
           (s1, Some er) \<Rightarrow> (s1, deleted, archived, Some (''destroy: '' @ er))
         | (s1, None) \<Rightarrow> apply_chunks e op tenantID policyType bs (deleted + int (length batch)) archived s1)
      else if policyType = ''archive'' then
        (case en_cold e of
           None \<Rightarrow> (s, deleted, archived, Some ''retention: archive policy requires a cold-tier mover'')
         | Some move \<Rightarrow>
             (case move tenantID batch s of
                (s1, Some er) \<Rightarrow> (s1, deleted, archived, Some (''archive move: '' @ er))
              | (s1, None) \<Rightarrow>
                  (case eo_destroy op tenantID batch s1 of
                     (s2, Some er) \<Rightarrow> (s2, deleted, archived, Some (''archive destroy: '' @ er))
                   | (s2, None) \<Rightarrow> apply_chunks e op tenantID policyType bs deleted (archived + int (length batch)) s2)))
      else (s, deleted, archived, Some (''retention: unsupported policy_type '' @ quoted policyType)))"

definition applyBatches :: "'s Enforcer \<Rightarrow> 's email_operator \<Rightarrow> string \<Rightarrow> string \<Rightarrow> string list \<Rightarrow> 's \<Rightarrow> 's \<times> int \<times> int \<times> string option" where
  "applyBatches e op tenantID policyType ids s = apply_chunks e op tenantID policyType (chunks destroyChunk ids) 0 0 s"

definition errNoProgress :: string where
  "errNoProgress = ''retention: enforcement made no progress (destroy did not remove messages)''"

text \<open>The loop over the pages, with the number of pages left.\<close>

fun sweep :: "'s Enforcer \<Rightarrow> 's email_operator \<Rightarrow> string \<Rightarrow> string \<Rightarrow> string \<Rightarrow> time \<Rightarrow> nat \<Rightarrow> string list \<Rightarrow> EnforcementRun \<Rightarrow> 's
    \<Rightarrow> 's \<times> EnforcementRun \<times> string option" where
  "sweep e op tenantID policyType mailbox cutoff 0 prev run s = (s, run, Some ''retention: exceeded 5000 pages'')"
| "sweep e op tenantID policyType mailbox cutoff (Suc pages) prev run s =
     (case eo_query op tenantID mailbox cutoff queryPageSize s of
        (s1, Inl er) \<Rightarrow> (s1, run, Some (''query emails: '' @ er))
      | (s1, Inr ids) \<Rightarrow>
          if ids = [] then (s1, run, None)
          else if \<not> en_dryRun e \<and> sameIDSet ids prev then (s1, run, Some errNoProgress)
          else let run1 = run\<lparr>er_EmailsProcessed := er_EmailsProcessed run + int (length ids)\<rparr> in
            if en_dryRun e then (s1, run1, None)
            else case applyBatches e op tenantID policyType ids s1 of
                (s2, deleted, archived, er) \<Rightarrow>
                  let run2 = run1\<lparr>er_EmailsDeleted := er_EmailsDeleted run1 + deleted, er_EmailsArchived := er_EmailsArchived run1 + archived\<rparr> in
                  (case er of Some x \<Rightarrow> (s2, run2, Some x) | None \<Rightarrow> sweep e op tenantID policyType mailbox cutoff pages ids run2 s2))"

definition startLog :: "uuid_cast \<Rightarrow> run_env \<Rightarrow> string \<Rightarrow> string \<Rightarrow> string \<Rightarrow> 's retention_state \<Rightarrow> 's retention_state \<times> (string \<times> time) option" where
  "startLog uuid env tenantID policyID note s =
     (case (rn_open_fault env, uuid tenantID, uuid policyID) of
        (None, Some tid, Some pid) \<Rightarrow>
          if tid \<notin> fst ` set (rs_tenants s) \<or> pid \<notin> py_ID ` set (rs_policies s) \<or> rn_id env \<in> (er_ID \<circ> snd) ` set (rs_log s) then (s, None)
          else (s\<lparr>rs_log := rs_log s @ [(tid, \<lparr>er_ID = rn_id env, er_PolicyID = pid, er_EmailsProcessed = 0, er_EmailsDeleted = 0, er_EmailsArchived = 0,
                  er_StartedAt = rn_opened env, er_CompletedAt = None, er_Error = [], er_Notes = note\<rparr>)]\<rparr>, Some (rn_id env, rn_opened env))
      | _ \<Rightarrow> (s, None))"

definition updateLog :: "uuid_cast \<Rightarrow> run_env \<Rightarrow> string \<Rightarrow> EnforcementRun \<Rightarrow> 's retention_state \<Rightarrow> 's retention_state" where
  "updateLog uuid env tenantID run s =
     (if er_ID run = [] then s
      else case (rn_close_fault env, uuid tenantID, uuid (er_ID run)) of
          (None, Some tid, Some rid) \<Rightarrow>
            s\<lparr>rs_log := map (\<lambda>(t, r). if t = tid \<and> er_ID r = rid
                then (t, r\<lparr>er_EmailsProcessed := er_EmailsProcessed run, er_EmailsDeleted := er_EmailsDeleted run, er_EmailsArchived := er_EmailsArchived run,
                          er_CompletedAt := Some (rn_closed env), er_Error := er_Error run, er_Notes := (if er_Notes run \<noteq> [] then er_Notes run else er_Notes r)\<rparr>)
                else (t, r)) (rs_log s)\<rparr>
        | _ \<Rightarrow> s)"

definition run_metadata :: "'s Enforcer \<Rightarrow> Policy \<Rightarrow> EnforcementRun \<Rightarrow> string option \<Rightarrow> (string \<times> json) list" where
  "run_metadata e p run runErr =
     [(''policy_type'', json.JString (py_PolicyType p)), (''retention_days'', JNumber (itoa (py_RetentionDays p))), (''applies_to'', json.JString (py_AppliesTo p)),
      (''emails_processed'', JNumber (itoa (er_EmailsProcessed run))), (''emails_deleted'', JNumber (itoa (er_EmailsDeleted run))),
      (''emails_archived'', JNumber (itoa (er_EmailsArchived run))), (''dry_run'', json.JBool (en_dryRun e))]
     @ (if py_TargetRef p \<noteq> [] then [(''target_ref'', json.JString (py_TargetRef p))] else [])
     @ (case runErr of Some er \<Rightarrow> [(''error'', json.JString er)] | None \<Rightarrow> [])"

definition writeAudit :: "'s Enforcer \<Rightarrow> string \<Rightarrow> Policy \<Rightarrow> EnforcementRun \<Rightarrow> string option \<Rightarrow> 's retention_state \<Rightarrow> 's retention_state" where
  "writeAudit e tenantID p run runErr s =
     s\<lparr>rs_audit := rs_audit s @ [\<lparr>e_TenantID = tenantID, e_ActorID = ''retention-worker'', e_ActorType = ''system'', e_Action = ''retention.enforce'',
         e_ResourceType = ''retention_policy'', e_ResourceID = py_ID p, e_Metadata = run_metadata e p run runErr, e_IPAddress = [], e_UserAgent = [],
         e_ID = [], e_PrevHash = [], e_EntryHash = [], e_CreatedAt = - 62135596800 * nanos_per_s\<rparr>]\<rparr>"

definition complete :: "uuid_cast \<Rightarrow> 's Enforcer \<Rightarrow> run_env \<Rightarrow> string \<Rightarrow> Policy \<Rightarrow> EnforcementRun \<Rightarrow> string option \<Rightarrow> 's retention_state
    \<Rightarrow> 's retention_state \<times> EnforcementRun option \<times> string option" where
  "complete uuid e env tenantID p run0 runErr s =
     (let run = run0\<lparr>er_CompletedAt := Some (rn_done env), er_Error := (case runErr of Some x \<Rightarrow> x | None \<Rightarrow> er_Error run0)\<rparr>;
          s1 = updateLog uuid env tenantID run s;
          s2 = (if en_dryRun e \<or> \<not> en_metrics e then s1
                else s1\<lparr>rs_deleted_total := rs_deleted_total s1 + max 0 (er_EmailsDeleted run), rs_archived_total := rs_archived_total s1 + max 0 (er_EmailsArchived run)\<rparr>)
      in (writeAudit e tenantID p run runErr s2, Some run, runErr))"

definition EnforcePolicy :: "uuid_cast \<Rightarrow> 's Enforcer \<Rightarrow> run_env \<Rightarrow> string \<Rightarrow> Policy \<Rightarrow> 's retention_state
    \<Rightarrow> 's retention_state \<times> EnforcementRun option \<times> string option" where
  "EnforcePolicy uuid e env tenantID p s =
     (if trim_space tenantID = [] then (s, None, Some ''retention: tenantID is required'')
      else case en_op e of
          None \<Rightarrow> (s, None, Some ''retention: enforcer has no email operator'')
        | Some op \<Rightarrow>
            let run0 = \<lparr>er_ID = [], er_PolicyID = py_ID p, er_EmailsProcessed = 0, er_EmailsDeleted = 0, er_EmailsArchived = 0, er_StartedAt = rn_start env,
                  er_CompletedAt = None, er_Error = [], er_Notes = (if en_dryRun e then ''dry_run=true'' else [])\<rparr>;
                (s1, opened) = startLog uuid env tenantID (py_ID p) (er_Notes run0) s;
                run = (case opened of None \<Rightarrow> run0 | Some (i, t) \<Rightarrow> run0\<lparr>er_ID := i, er_StartedAt := t\<rparr>) in
            (case scopeMailbox p of
               Inl er \<Rightarrow> complete uuid e env tenantID p run (Some er) s1
             | Inr mailbox \<Rightarrow>
                 if py_RetentionDays p \<le> 0 then complete uuid e env tenantID p run (Some (''retention: refusing to enforce policy '' @ py_ID p @ '': non-positive retention_days='' @ itoa (py_RetentionDays p))) s1
                 else case sweep e op tenantID (py_PolicyType p) mailbox (cutoff_of (rn_cut env) (py_RetentionDays p)) maxPages [] run (rs_mail s1) of
                     (m, run', er) \<Rightarrow> complete uuid e env tenantID p run' er (s1\<lparr>rs_mail := m\<rparr>)))"

subsection \<open>Evaluation and worker\<close>

text \<open>What differs from call to call in one pass over the tenants.\<close>

record tick_env =
  te_tenants :: "string option"
  te_list :: "string \<Rightarrow> string option"
  te_now :: "string \<Rightarrow> time"
  te_run :: "string \<Rightarrow> string \<Rightarrow> run_env"

definition join_errors :: "string list \<Rightarrow> string option" where
  "join_errors errs = (if errs = [] then None else Some (join_with (CHR 0x0A) errs))"

fun evaluate_policies :: "uuid_cast \<Rightarrow> 's Enforcer \<Rightarrow> (string \<Rightarrow> run_env) \<Rightarrow> string \<Rightarrow> Policy list \<Rightarrow> int \<Rightarrow> string list \<Rightarrow> 's retention_state
    \<Rightarrow> 's retention_state \<times> int \<times> string list" where
  "evaluate_policies uuid e env tenantID [] enforced errs s = (s, enforced, errs)"
| "evaluate_policies uuid e env tenantID (p # ps) enforced errs s =
     (if \<not> py_Enabled p then evaluate_policies uuid e env tenantID ps enforced errs s
      else case EnforcePolicy uuid e (env (py_ID p)) tenantID p s of
          (s1, _, Some er) \<Rightarrow> evaluate_policies uuid e env tenantID ps enforced (errs @ [''policy '' @ py_ID p @ '': '' @ er]) s1
        | (s1, _, None) \<Rightarrow> evaluate_policies uuid e env tenantID ps (enforced + 1) errs s1)"

definition EvaluateRetention :: "uuid_cast \<Rightarrow> 's Enforcer option \<Rightarrow> tick_env \<Rightarrow> string \<Rightarrow> 's retention_state \<Rightarrow> 's retention_state \<times> int \<times> string option" where
  "EvaluateRetention uuid enforcer env tenantID s =
     (case ListPolicies uuid (te_list env tenantID) tenantID s of
        Inl er \<Rightarrow> (s, 0, Some er)
      | Inr policies \<Rightarrow>
          (case enforcer of
             None \<Rightarrow> (s, int (length (filter py_Enabled policies)), None)
           | Some e \<Rightarrow>
               (case evaluate_policies uuid e (te_run env tenantID) tenantID policies 0 [] s of
                  (s1, enforced, errs) \<Rightarrow> (s1, enforced, join_errors errs))))"

text \<open>The engine is built from the options at the first tick and kept; \<open>wk_engine\<close> is \<open>None\<close> before.\<close>

record 's retention_worker =
  wk_op :: "'s email_operator option"
  wk_dryRun :: bool
  wk_metrics :: bool
  wk_engine :: "'s Enforcer option option"
  wk_lastEvaluatedAt :: int
  wk_lastDeletedTotal :: int
  wk_lastArchivedTotal :: int
  wk_lastErrorsTotal :: int
  wk_evaluations_total :: int
  wk_errors_total :: int

record WorkerSnapshot =
  sn_DryRun :: bool
  sn_LastEvaluated :: "time option"
  sn_EmailsDeleted :: int
  sn_EmailsArchived :: int
  sn_Errors :: int

definition Snapshot :: "'s retention_worker \<Rightarrow> WorkerSnapshot" where
  "Snapshot w = \<lparr>sn_DryRun = wk_dryRun w, sn_LastEvaluated = (if wk_lastEvaluatedAt w > 0 then Some (wk_lastEvaluatedAt w * nanos_per_s) else None),
     sn_EmailsDeleted = wk_lastDeletedTotal w, sn_EmailsArchived = wk_lastArchivedTotal w, sn_Errors = wk_lastErrorsTotal w\<rparr>"

definition NewWorker :: "'s retention_worker" where
  "NewWorker = \<lparr>wk_op = None, wk_dryRun = True, wk_metrics = False, wk_engine = None, wk_lastEvaluatedAt = 0, wk_lastDeletedTotal = 0,
     wk_lastArchivedTotal = 0, wk_lastErrorsTotal = 0, wk_evaluations_total = 0, wk_errors_total = 0\<rparr>"

definition engineFor :: "'s retention_worker \<Rightarrow> 's retention_worker \<times> 's Enforcer option" where
  "engineFor w =
     (case wk_engine w of
        Some eng \<Rightarrow> (w, eng)
      | None \<Rightarrow>
          let eng = (case wk_op w of
                None \<Rightarrow> None
              | Some op \<Rightarrow> Some \<lparr>en_op = Some op, en_cold = eo_cold op, en_metrics = wk_metrics w, en_dryRun = wk_dryRun w\<rparr>)
          in (w\<lparr>wk_engine := Some eng\<rparr>, eng))"

definition incEvaluations :: "'s retention_worker \<Rightarrow> 's retention_worker" where
  "incEvaluations w = (if wk_metrics w then w\<lparr>wk_evaluations_total := wk_evaluations_total w + 1\<rparr> else w)"

definition incErrors :: "'s retention_worker \<Rightarrow> 's retention_worker" where
  "incErrors w =
     (let w1 = w\<lparr>wk_lastErrorsTotal := int64 (wk_lastErrorsTotal w + 1)\<rparr>
      in if wk_metrics w1 then w1\<lparr>wk_errors_total := wk_errors_total w1 + 1\<rparr> else w1)"

definition count_run :: "EnforcementRun option \<Rightarrow> 's retention_worker \<Rightarrow> 's retention_worker" where
  "count_run r w =
     (case r of
        None \<Rightarrow> w
      | Some run \<Rightarrow>
          let w1 = (if er_EmailsDeleted run > 0 then w\<lparr>wk_lastDeletedTotal := int64 (wk_lastDeletedTotal w + er_EmailsDeleted run)\<rparr> else w)
          in if er_EmailsArchived run > 0 then w1\<lparr>wk_lastArchivedTotal := int64 (wk_lastArchivedTotal w1 + er_EmailsArchived run)\<rparr> else w1)"

fun worker_policies :: "uuid_cast \<Rightarrow> 's Enforcer \<Rightarrow> (string \<Rightarrow> run_env) \<Rightarrow> string \<Rightarrow> Policy list \<Rightarrow> string list \<Rightarrow> 's retention_worker \<Rightarrow> 's retention_state
    \<Rightarrow> 's retention_worker \<times> 's retention_state \<times> string list" where
  "worker_policies uuid e env tenantID [] errs w s = (w, s, errs)"
| "worker_policies uuid e env tenantID (p # ps) errs w s =
     (if \<not> py_Enabled p then worker_policies uuid e env tenantID ps errs w s
      else case EnforcePolicy uuid e (env (py_ID p)) tenantID p s of
          (s1, run, er) \<Rightarrow>
            let w1 = count_run run (incEvaluations w) in
            (case er of
               None \<Rightarrow> worker_policies uuid e env tenantID ps errs w1 s1
             | Some x \<Rightarrow> worker_policies uuid e env tenantID ps (errs @ [''policy '' @ py_ID p @ '': '' @ x]) (incErrors w1) s1))"

definition evaluateTenant :: "uuid_cast \<Rightarrow> 's Enforcer \<Rightarrow> tick_env \<Rightarrow> string \<Rightarrow> 's retention_worker \<Rightarrow> 's retention_state
    \<Rightarrow> 's retention_worker \<times> 's retention_state \<times> string option" where
  "evaluateTenant uuid e env tenantID w s =
     (case ListPolicies uuid (te_list env tenantID) tenantID s of
        Inl er \<Rightarrow> (incErrors w, s, Some (''list policies: '' @ er))
      | Inr policies \<Rightarrow>
          (case worker_policies uuid e (te_run env tenantID) tenantID policies [] (w\<lparr>wk_lastEvaluatedAt := unix_sec (te_now env tenantID)\<rparr>) s of
             (w1, s1, errs) \<Rightarrow> (w1, s1, join_errors errs)))"

text \<open>The error of a tenant is logged.\<close>

fun tick_tenants :: "uuid_cast \<Rightarrow> 's Enforcer \<Rightarrow> tick_env \<Rightarrow> string list \<Rightarrow> 's retention_worker \<Rightarrow> 's retention_state \<Rightarrow> 's retention_worker \<times> 's retention_state" where
  "tick_tenants uuid e env [] w s = (w, s)"
| "tick_tenants uuid e env (i # ids) w s = (case evaluateTenant uuid e env i w s of (w1, s1, _) \<Rightarrow> tick_tenants uuid e env ids w1 s1)"

definition retention_tick :: "uuid_cast \<Rightarrow> tick_env \<Rightarrow> 's retention_worker \<Rightarrow> 's retention_state \<Rightarrow> 's retention_worker \<times> 's retention_state \<times> string option" where
  "retention_tick uuid env w0 s =
     (case engineFor w0 of
        (w, None) \<Rightarrow> (w, s, None)
      | (w, Some e) \<Rightarrow>
          (case ListActiveTenants (te_tenants env) s of
             Inl er \<Rightarrow> (w, s, Some er)
           | Inr ids \<Rightarrow> (case tick_tenants uuid e env ids w s of (w1, s1) \<Rightarrow> (w1, s1, None))))"

subsection \<open>Handlers\<close>

datatype retention_body =
    RetentionPolicies "Policy list" | RetentionPolicy Policy | RetentionStatus "WorkerSnapshot option" "EnforcementRun list" | RetentionFailure string | NoBody

definition list_policies :: "uuid_cast \<Rightarrow> string option \<Rightarrow> string \<Rightarrow> 's retention_state \<Rightarrow> int \<times> retention_body" where
  "list_policies uuid fault tenantID s =
     (case ListPolicies uuid fault tenantID s of Inl e \<Rightarrow> (500, RetentionFailure e) | Inr ps \<Rightarrow> (200, RetentionPolicies ps))"

definition create_policy :: "uuid_cast \<Rightarrow> string option \<Rightarrow> string \<Rightarrow> time \<Rightarrow> string \<Rightarrow> Policy option \<Rightarrow> 's retention_state \<Rightarrow> 's retention_state \<times> int \<times> retention_body" where
  "create_policy uuid fault nid dbnow tenantID content s =
     (case content of
        None \<Rightarrow> (s, 400, RetentionFailure ''json'')
      | Some p \<Rightarrow>
          (case CreatePolicy uuid fault nid dbnow (p\<lparr>py_TenantID := tenantID\<rparr>) s of
             (s1, Inl e) \<Rightarrow> (s1, 400, RetentionFailure e)
           | (s1, Inr q) \<Rightarrow> (s1, 201, RetentionPolicy q)))"

definition update_policy :: "uuid_cast \<Rightarrow> string option \<Rightarrow> time \<Rightarrow> string \<Rightarrow> string \<Rightarrow> Policy option \<Rightarrow> 's retention_state \<Rightarrow> 's retention_state \<times> int \<times> retention_body" where
  "update_policy uuid fault dbnow tenantID policyId content s =
     (case content of
        None \<Rightarrow> (s, 400, RetentionFailure ''json'')
      | Some p \<Rightarrow>
          (case UpdatePolicy uuid fault dbnow (p\<lparr>py_TenantID := tenantID, py_ID := policyId\<rparr>) s of
             (s1, Inl e) \<Rightarrow> (s1, 400, RetentionFailure e)
           | (s1, Inr q) \<Rightarrow> (s1, 200, RetentionPolicy q)))"

definition delete_policy :: "uuid_cast \<Rightarrow> string option \<Rightarrow> string \<Rightarrow> string \<Rightarrow> 's retention_state \<Rightarrow> 's retention_state \<times> int \<times> retention_body" where
  "delete_policy uuid fault tenantID policyId s =
     (case DeletePolicy uuid fault tenantID policyId s of (s1, Some e) \<Rightarrow> (s1, 500, RetentionFailure e) | (s1, None) \<Rightarrow> (s1, 204, NoBody))"

text \<open>Without a worker the answer has the defaults; \<open>None\<close> stands for them.\<close>

definition retention_status :: "uuid_cast \<Rightarrow> string option \<Rightarrow> 's retention_worker option \<Rightarrow> string \<Rightarrow> 's retention_state \<Rightarrow> int \<times> retention_body" where
  "retention_status uuid fault worker tenantID s =
     (200, RetentionStatus (map_option Snapshot worker) (case RecentEnforcementRuns uuid fault tenantID 20 s of Inl _ \<Rightarrow> [] | Inr runs \<Rightarrow> runs))"

end
