(* ===== verification/DateText.thy ===== *)
theory DateText
  imports SendHook
begin

text \<open>
  The dates on the wire: an instant of a year of four digits that the program prints in the layout of RFC 3339 reads back as its
  whole second, with the calendar arithmetic this rests on.
\<close>

subsection \<open>The calendar\<close>

lemma div_bounds: "0 < k \<Longrightarrow> k * (n div k) \<le> n \<and> n < k * (n div k) + k" for n k :: int
  using pos_mod_bound [of k n] pos_mod_sign [of k n] by (simp add: minus_mod_eq_mult_div [symmetric] algebra_simps)

lemma year_of_century:
  fixes r c e y q :: int
  assumes "0 \<le> c" "c \<le> 3" "0 \<le> r" "r < 36524" "e = (24 * c + r) div 1460" "y = (r - e) div 365" "q = y div 4"
  shows "0 \<le> y \<and> y < 100 \<and> 0 \<le> r - (365 * y + q) \<and> r - (365 * y + q) \<le> 366"
proof -
  have e: "1460 * e \<le> 24 * c + r" "24 * c + r < 1460 * e + 1460" using div_bounds [of 1460 "24 * c + r"] assms by simp_all
  have y: "365 * y \<le> r - e" "r - e < 365 * y + 365" using div_bounds [of 365 "r - e"] assms by simp_all
  have q: "4 * q \<le> y" "y < 4 * q + 4" using div_bounds [of 4 y] assms by simp_all
  have "0 \<le> e" using assms by (simp add: pos_imp_zdiv_nonneg_iff)
  with e y q assms(1-4) show ?thesis by linarith
qed

lemma year_of_era:
  fixes doe :: int
  assumes "0 \<le> doe" and "doe < 146097" and yoe: "yoe = (doe - doe div 1460 + doe div 36524 - doe div 146096) div 365"
  shows "0 \<le> yoe \<and> yoe < 400 \<and> 0 \<le> doe - (365 * yoe + yoe div 4 - yoe div 100) \<and> doe - (365 * yoe + yoe div 4 - yoe div 100) \<le> 366"
proof (cases "doe = 146096")
  case False
  define c where "c = doe div 36524"
  define r where "r = doe mod 36524"
  define y where "y = (r - (24 * c + r) div 1460) div 365"
  have doe: "doe = 36524 * c + r" by (simp add: c_def r_def)
  have c: "0 \<le> c" "c \<le> 3" using assms False by (simp_all add: c_def pos_imp_zdiv_nonneg_iff)
  have r: "0 \<le> r" "r < 36524" by (simp_all add: r_def)
  have "doe div 1460 = ((24 * c + r) + 25 * c * 1460) div 1460" by (simp add: doe)
  then have q: "doe div 1460 = (24 * c + r) div 1460 + 25 * c" by (subst (asm) div_mult_self1) simp_all
  have l: "doe div 146096 = 0" using assms False by simp
  have "yoe = ((r - (24 * c + r) div 1460) + 100 * c * 365) div 365" unfolding yoe q l c_def [symmetric] by (simp add: doe)
  then have Y: "yoe = y + 100 * c" unfolding y_def by (subst (asm) div_mult_self1) simp_all
  note b = year_of_century [OF c r refl y_def refl]
  have "yoe div 100 = c" using b Y by simp
  moreover have "yoe div 4 = y div 4 + 25 * c" using div_mult_self1 [of 4 y "25 * c"] Y by (simp add: algebra_simps)
  ultimately show ?thesis using b c Y doe by simp
qed (use assms in simp)

lemma civil_days_civil_date:
  assumes "civil_date n = (y, m, d)"
  shows "civil_days y m d = n" and "1 \<le> m" and "m \<le> 12" and "1 \<le> d" and "d < 100"
proof -
  define z era doe where "z = n + 719468" and "era = z div 146097" and "doe = z mod 146097"
  define yoe where "yoe = (doe - doe div 1460 + doe div 36524 - doe div 146096) div 365"
  define doy where "doy = doe - (365 * yoe + yoe div 4 - yoe div 100)"
  define mp where "mp = (5 * doy + 2) div 153"
  have "0 \<le> doe" "doe < 146097" by (simp_all add: doe_def)
  from year_of_era [OF this yoe_def] have b: "0 \<le> yoe" "yoe < 400" "0 \<le> doy" "doy \<le> 366" by (simp_all add: doy_def)
  then have mp: "0 \<le> mp" "mp \<le> 11" by (simp_all add: mp_def)
  have "civil_date n = (let m = (if mp < 10 then mp + 3 else mp - 9) in (yoe + era * 400 + (if m \<le> 2 then 1 else 0), m, doy - (153 * mp + 2) div 5 + 1))"
    by (simp only: civil_date_def Let_def z_def era_def doe_def yoe_def doy_def mp_def)
  with assms have d: "d = doy - (153 * mp + 2) div 5 + 1" and m: "m = (if mp < 10 then mp + 3 else mp - 9)"
    and y: "y = yoe + era * 400 + (if m \<le> 2 then 1 else 0)"
    by (clarsimp simp only: Let_def prod.inject)+
  show "1 \<le> m" "m \<le> 12" using mp m by (simp_all split: if_splits)
  show "1 \<le> d" "d < 100"
    using d div_bounds [of 153 "5 * doy + 2"] div_bounds [of 5 "153 * mp + 2"] unfolding mp_def [symmetric] by linarith+
  have "(if m \<le> 2 then y - 1 else y) = yoe + era * 400" using y by simp
  moreover have "(if m > 2 then m - 3 else m + 9) = mp" using mp m by (simp split: if_splits)
  moreover have "(yoe + era * 400) div 400 = era" "(yoe + era * 400) mod 400 = yoe" using b by simp_all
  ultimately have "civil_days y m d = era * 146097 + (yoe * 365 + yoe div 4 - yoe div 100 + ((153 * mp + 2) div 5 + d - 1)) - 719468"
    by (simp add: civil_days_def Let_def)
  moreover have "era * 146097 + doe = n + 719468" using div_mult_mod_eq [of z 146097] by (simp only: era_def doe_def z_def)
  ultimately show "civil_days y m d = n" using d unfolding doy_def by linarith
qed

subsection \<open>Texts\<close>

lemma pad_two_digits:
  assumes "0 \<le> n" and "n < 100"
  shows "two_digits (pad 2 n @ rest) = Some (n, rest)" and "hour_digits (pad 2 n @ rest) = Some (n, rest)"
proof -
  have p: "pad 2 n = [digit_char (nat n div 10), digit_char (nat n mod 10)]" using assms by (rule pad_two)
  have "nat n div 10 < 10" "nat n mod 10 < 10" "int (10 * (nat n div 10) + nat n mod 10) = n" using assms by simp_all
  then show "two_digits (pad 2 n @ rest) = Some (n, rest)" "hour_digits (pad 2 n @ rest) = Some (n, rest)"
    by (simp_all add: p)
qed

lemma dec_nat_hundreds:
  assumes "100 \<le> m"
  shows "dec_nat m = dec_nat (m div 100) @ [digit_char (m mod 100 div 10), digit_char (m mod 10)]"
proof -
  have "m div 10 div 10 = m div 100" using div_mult2_eq [of m 10 10] by simp
  moreover have "m mod 100 = 10 * (m div 10 mod 10) + m mod 10" using mod_mult2_eq [of m 10 10] by simp
  then have "m mod 100 div 10 = m div 10 mod 10" by simp
  moreover have "dec_nat m = dec_nat (m div 10) @ [digit_char (m mod 10)]" using assms by (subst dec_nat.simps) simp
  moreover have "dec_nat (m div 10) = dec_nat (m div 10 div 10) @ [digit_char (m div 10 mod 10)]" using assms by (subst dec_nat.simps) simp
  ultimately show ?thesis by simp
qed

lemma pad_four:
  assumes "0 \<le> n" and "n < 10000"
  shows "pad 4 n = pad 2 (n div 100) @ pad 2 (n mod 100)"
proof (cases "n < 100")
  case True
  have z: "digit_char 0 = CHR ''0''" by code_simp
  have l: "length (itoa n) \<le> 2" using True assms length_dec_nat [of "nat n" 2] by (simp add: itoa_def)
  then have "4 - length (itoa n) = Suc (Suc (2 - length (itoa n)))" by simp
  then have "pad 4 n = CHR ''0'' # CHR ''0'' # pad 2 n" unfolding pad_def Let_def by (simp only: replicate.simps append_Cons)
  moreover have "pad 2 0 = [CHR ''0'', CHR ''0'']" using pad_two [of 0] z by simp
  ultimately show ?thesis using True assms by simp
next
  case False
  define m where "m = nat n"
  have m: "nat (n div 100) = m div 100" "n = int m" "100 \<le> m" "m div 100 < 100" using assms False by (auto simp: m_def nat_div_distrib)
  have p: "pad 2 (n mod 100) = [digit_char (m mod 100 div 10), digit_char (m mod 10)]"
    using pad_two [of "n mod 100"] m by (simp add: nat_mod_distrib mod_mod_cancel)
  have d: "dec_nat m = dec_nat (m div 100) @ [digit_char (m mod 100 div 10), digit_char (m mod 10)]" using m by (intro dec_nat_hundreds)
  have "\<not> n div 100 < 0" using assms by (simp add: pos_imp_zdiv_neg_iff)
  then show ?thesis unfolding p using m d by (simp add: pad_def itoa_def Let_def)
qed

text \<open>What the texts keep of an instant: its second.\<close>

definition whole_second :: "time \<Rightarrow> time" where
  "whole_second t = unix_sec t * nanos_per_s"

lemma whole_second_le: "whole_second t \<le> t"
  using div_bounds [of nanos_per_s t] by (simp add: whole_second_def unix_sec_def mult.commute)

lemma day_second: "day_of t * 86400 + unix_sec t mod 86400 = unix_sec t"
proof -
  have "day_of t = unix_sec t div 86400" using zdiv_zmult2_eq [of 86400 t nanos_per_s] by (simp add: day_of_def unix_sec_def)
  then show ?thesis by simp
qed

lemma clock_of_second:
  fixes sec :: int
  assumes "0 \<le> sec" and "sec < 86400"
  shows "sec div 3600 * 3600 + sec mod 3600 div 60 * 60 + sec mod 60 = sec" and "0 \<le> sec div 3600" and "sec div 3600 < 24"
    and "0 \<le> sec mod 3600 div 60" and "sec mod 3600 div 60 < 60"
proof -
  have "sec mod 3600 mod 60 = sec mod 60" by (simp add: mod_mod_cancel)
  then show "sec div 3600 * 3600 + sec mod 3600 div 60 * 60 + sec mod 60 = sec"
    using div_mult_mod_eq [of sec 3600] div_mult_mod_eq [of "sec mod 3600" 60] by linarith
qed (use assms in \<open>simp_all add: pos_imp_zdiv_nonneg_iff\<close>)

lemma parse_fields:
  assumes "0 \<le> a" "a < 100" "0 \<le> b" "b < 100" "0 \<le> m" "m < 100" "0 \<le> d" "d < 100" "0 \<le> h" "h < 24" "0 \<le> i" "i < 60" "0 \<le> s" "s < 60"
    and "1 \<le> m" "m \<le> 12" "1 \<le> d" "civil_date (civil_days (100 * a + b) m d) = (100 * a + b, m, d)"
  shows "parse_rfc3339 (pad 2 a @ pad 2 b @ CHR ''-'' # pad 2 m @ CHR ''-'' # pad 2 d @ CHR ''T'' # pad 2 h @ CHR '':'' # pad 2 i @ CHR '':'' # pad 2 s @ ''Z'')
    = Some ((civil_days (100 * a + b) m d * 86400 + h * 3600 + i * 60 + s) * nanos_per_s)"
proof -
  have z: "fraction ''Z'' = (0, ''Z'')" "zone ''Z'' = Some 0" by code_simp+
  have l: "h < 100" "i < 100" "s < 100" using assms by simp_all
  show ?thesis unfolding parse_rfc3339_def by (simp add: pad_two_digits l z assms linorder_not_less linorder_not_le)
qed

lemma parse_format_rfc3339:
  assumes "0 \<le> fst (civil_date (day_of t))" and "fst (civil_date (day_of t)) < 10000"
  shows "parse_rfc3339 (format_rfc3339 t) = Some (whole_second t)"
proof -
  obtain y m d where c: "civil_date (day_of t) = (y, m, d)" by (cases "civil_date (day_of t)")
  note cd = civil_days_civil_date [OF c]
  define sec where "sec = unix_sec t mod 86400"
  have sec: "0 \<le> sec" "sec < 86400" by (simp_all add: sec_def)
  note k = clock_of_second [OF sec]
  have y: "0 \<le> y" "y < 10000" "0 \<le> y div 100" "y div 100 < 100" "0 \<le> y mod 100" "y mod 100 < 100"
    using assms c by (simp_all add: pos_imp_zdiv_nonneg_iff)
  have f: "format_rfc3339 t = pad 2 (y div 100) @ pad 2 (y mod 100) @ CHR ''-'' # pad 2 m @ CHR ''-'' # pad 2 d @ CHR ''T'' # pad 2 (sec div 3600)
      @ CHR '':'' # pad 2 (sec mod 3600 div 60) @ CHR '':'' # pad 2 (sec mod 60) @ ''Z''"
    using y by (simp add: format_rfc3339_def c Let_def sec_def pad_four)
  have r: "0 \<le> m" "m < 100" "0 \<le> d" "0 \<le> sec mod 60" "sec mod 60 < 60" using cd by simp_all
  have yy: "100 * (y div 100) + y mod 100 = y" by simp
  have cc: "civil_date (civil_days (100 * (y div 100) + y mod 100) m d) = (100 * (y div 100) + y mod 100, m, d)" unfolding yy using cd(1) c by simp
  have "civil_days y m d * 86400 + sec div 3600 * 3600 + sec mod 3600 div 60 * 60 + sec mod 60 = unix_sec t"
    using day_second [of t] k(1) cd(1) unfolding sec_def [symmetric] by linarith
  then show ?thesis unfolding f whole_second_def
    using parse_fields [OF y(3-6) r(1-3) cd(5) k(2,3,4,5) r(4,5) cd(2,3,4) cc] unfolding yy by simp
qed

end
