(* ===== verification/RetentionProps.thy ===== *)
theory RetentionProps
  imports Retention DateText
begin

text \<open>
  What the retention sweep does to mail. The locale \<open>email_store\<close> is the contract between the sweep and an operator, the locale
  \<open>jmap_server\<close> is what RFC 8620 and 8621 say of \<^verbatim>\<open>Email/query\<close> and \<^verbatim>\<open>Email/set\<close> and the documentation of the placement move; the
  production operator gives the first from the second.
\<close>

subsection \<open>Mail\<close>

record email =
  em_id :: string
  em_mailboxes :: "string list"
  em_received :: time

type_synonym mail = "string \<Rightarrow> email set"

definition eligible :: "email set \<Rightarrow> string \<Rightarrow> time \<Rightarrow> email set" where
  "eligible M mailbox before = {m \<in> M. em_received m < before \<and> (mailbox = [] \<or> mailbox \<in> set (em_mailboxes m))}"

definition removed :: "mail \<Rightarrow> string \<Rightarrow> string set \<Rightarrow> mail" where
  "removed M t gone = M(t := {m \<in> M t. em_id m \<notin> gone})"

text \<open>A page of a query: all that match, or \<open>limit\<close> of them.\<close>

definition is_page :: "email set \<Rightarrow> nat \<Rightarrow> string list \<Rightarrow> bool" where
  "is_page E limit ids \<longleftrightarrow> distinct ids \<and> set ids \<subseteq> em_id ` E \<and> length ids = min limit (card E)"

text \<open>Instants whose text has a year of four digits.\<close>

definition wire_date :: "time \<Rightarrow> bool" where
  "wire_date t \<longleftrightarrow> 0 \<le> fst (civil_date (day_of t)) \<and> fst (civil_date (day_of t)) < 10000"

lemma removed_simps [simp]:
  "removed M t {} = M" "removed (removed M t a) t b = removed M t (a \<union> b)" "removed M t a t = {m \<in> M t. em_id m \<notin> a}"
  by (auto simp: removed_def)

lemma eligible_removed: "eligible {m \<in> M. em_id m \<notin> gone} mb b = {m \<in> eligible M mb b. em_id m \<notin> gone}"
  by (auto simp: eligible_def)

lemma eligible_subset: "eligible M mb b \<subseteq> M" by (auto simp: eligible_def)

subsection \<open>The contract of the operator\<close>

text \<open>The two guards of the page loop, as against a failure that the operator reports.\<close>

definition guard_error :: "string \<Rightarrow> bool" where
  "guard_error er \<longleftrightarrow> er = errNoProgress \<or> er = ''retention: exceeded 5000 pages''"

definition counted :: "EnforcementRun \<Rightarrow> int" where
  "counted run = er_EmailsDeleted run + er_EmailsArchived run"

text \<open>Mail that a policy is meant for at the time \<open>now\<close>.\<close>

definition due_under :: "time \<Rightarrow> Policy \<Rightarrow> email \<Rightarrow> bool" where
  "due_under now p m \<longleftrightarrow> em_received m < now - py_RetentionDays p * nanos_per_day
     \<and> (py_AppliesTo p = ''all'' \<or> py_AppliesTo p = ''mailbox'' \<and> py_TargetRef p \<in> set (em_mailboxes m))"

text \<open>The duration of the retention fits \<^verbatim>\<open>int64\<close> nanoseconds, 292 years.\<close>

abbreviation maxDays :: int where "maxDays \<equiv> 106751"

lemma cutoff_fits: "0 < days \<Longrightarrow> days \<le> maxDays \<Longrightarrow> cutoff_of now days = now - days * nanos_per_day"
  by (simp add: cutoff_of_def int64_id fits_int8_def)

lemma eligible_due:
  assumes "m \<in> eligible M mb (whole_second (cutoff_of now (py_RetentionDays p)))" and "scopeMailbox p = Inr mb" and "0 < py_RetentionDays p" and "py_RetentionDays p \<le> maxDays"
  shows "due_under now p m"
  using assms whole_second_le [of "now - py_RetentionDays p * nanos_per_day"]
  by (auto simp: eligible_def due_under_def cutoff_fits scopeMailbox_def trim_space_def split: if_splits)

text \<open>The policies that a pass over the tenants may apply to a mail of \<open>u\<close>.\<close>

definition applies :: "uuid_cast \<Rightarrow> tick_env \<Rightarrow> bool \<Rightarrow> Policy list \<Rightarrow> string list \<Rightarrow> string \<Rightarrow> email \<Rightarrow> Policy \<Rightarrow> bool" where
  "applies uuid env dry policies tenants u m p \<longleftrightarrow> \<not> dry \<and> u \<in> set tenants \<and> p \<in> set policies \<and> py_Enabled p \<and> uuid u = Some (py_TenantID p)
     \<and> due_under (rn_cut (te_run env u (py_ID p))) p m"

definition page_run :: "EnforcementRun \<Rightarrow> string list \<Rightarrow> int \<Rightarrow> int \<Rightarrow> EnforcementRun" where
  "page_run run xs d a = run\<lparr>er_EmailsProcessed := er_EmailsProcessed run + int (length xs), er_EmailsDeleted := er_EmailsDeleted run + d, er_EmailsArchived := er_EmailsArchived run + a\<rparr>"

lemma sweep_step:
  assumes "eo_query op t mb c queryPageSize s = (s1, Inr xs)" and "xs \<noteq> []" and "\<not> en_dryRun en" and "\<not> sameIDSet xs prev"
    and "applyBatches en op t ty xs s1 = (s2, d, a, er)"
  shows "sweep en op t ty mb c (Suc n) prev run s
    = (case er of Some x \<Rightarrow> (s2, page_run run xs d a, Some x) | None \<Rightarrow> sweep en op t ty mb c n xs (page_run run xs d a) s2)"
  using assms by (cases er) (simp_all add: Let_def page_run_def)

lemma sweep_keeps_error: "sweep en op t ty mb c n prev run s = (s', run', er) \<Longrightarrow> er_Error run' = er_Error run"
proof (induction n arbitrary: prev run s)
  case (Suc n)
  obtain s1 q where Q: "eo_query op t mb c queryPageSize s = (s1, q)" by (metis surj_pair)
  show ?case
  proof (cases "\<exists>xs. q = Inr xs \<and> xs \<noteq> [] \<and> \<not> en_dryRun en \<and> \<not> sameIDSet xs prev")
    case False
    then show ?thesis using Suc.prems Q by (auto simp: Let_def split: sum.splits if_splits)
  next
    case True
    then obtain xs where xs: "eo_query op t mb c queryPageSize s = (s1, Inr xs)" "xs \<noteq> []" "\<not> en_dryRun en" "\<not> sameIDSet xs prev" using Q by blast
    obtain s2 d a e2 where A: "applyBatches en op t ty xs s1 = (s2, d, a, e2)" by (metis prod_cases4)
    show ?thesis
    proof (cases e2)
      case None
      then have "sweep en op t ty mb c n xs (page_run run xs d a) s2 = (s', run', er)" using Suc.prems sweep_step [OF xs A] by simp
      from Suc.IH [OF this] show ?thesis by (simp add: page_run_def)
    next
      case (Some x)
      then show ?thesis using Suc.prems sweep_step [OF xs A] by (auto simp: page_run_def)
    qed
  qed
qed simp

text \<open>A policy is enforced by one sweep or not at all.\<close>

lemma startLog_mail [simp]: "rs_mail (fst (startLog uuid env t i n s)) = rs_mail s" "rs_policies (fst (startLog uuid env t i n s)) = rs_policies s"
    "rs_tenants (fst (startLog uuid env t i n s)) = rs_tenants s" "rs_audit (fst (startLog uuid env t i n s)) = rs_audit s"
  by (simp_all add: startLog_def split: option.split prod.split)

lemma updateLog_mail [simp]: "rs_mail (updateLog uuid env t r s) = rs_mail s" "rs_policies (updateLog uuid env t r s) = rs_policies s"
    "rs_tenants (updateLog uuid env t r s) = rs_tenants s" "rs_audit (updateLog uuid env t r s) = rs_audit s"
  by (simp_all add: updateLog_def split: option.split prod.split)

lemma complete_parts:
  assumes "complete uuid e env t p run0 er0 s = (s', run, er)"
  shows "rs_mail s' = rs_mail s" and "rs_policies s' = rs_policies s" and "rs_tenants s' = rs_tenants s" and "er = er0"
    and "\<exists>r. run = Some r \<and> counted r = counted run0 \<and> er_Error r = (case er of Some x \<Rightarrow> x | None \<Rightarrow> er_Error run0)
      \<and> (\<exists>x. rs_audit s' = rs_audit s @ [x] \<and> e_TenantID x = t \<and> e_ResourceID x = py_ID p \<and> e_Metadata x = run_metadata e p r er)"
  using assms by (auto simp: complete_def Let_def writeAudit_def counted_def)

lemma enforce_cases:
  assumes "EnforcePolicy uuid en env t p s = (s', run, er)" and "en_op en = Some op" and "trim_space t \<noteq> []"
  shows "\<exists>run0 s1. counted run0 = 0 \<and> er_Error run0 = [] \<and> rs_mail s1 = rs_mail s \<and> rs_policies s1 = rs_policies s \<and> rs_tenants s1 = rs_tenants s \<and> rs_audit s1 = rs_audit s
    \<and> ((\<exists>x. (scopeMailbox p = Inl x \<or> py_RetentionDays p \<le> 0) \<and> complete uuid en env t p run0 (Some x) s1 = (s', run, er))
      \<or> (\<exists>mb m run1. scopeMailbox p = Inr mb \<and> 0 < py_RetentionDays p
          \<and> sweep en op t (py_PolicyType p) mb (cutoff_of (rn_cut env) (py_RetentionDays p)) maxPages [] run0 (rs_mail s) = (m, run1, er)
          \<and> complete uuid en env t p run1 er (s1\<lparr>rs_mail := m\<rparr>) = (s', run, er)))"
proof -
  define run0 where "run0 = \<lparr>er_ID = [], er_PolicyID = py_ID p, er_EmailsProcessed = 0, er_EmailsDeleted = 0, er_EmailsArchived = 0, er_StartedAt = rn_start env,
                  er_CompletedAt = None, er_Error = [], er_Notes = (if en_dryRun en then ''dry_run=true'' else [])\<rparr>"
  define lg where "lg = startLog uuid env t (py_ID p) (er_Notes run0) s"
  define r1 where "r1 = (case snd lg of None \<Rightarrow> run0 | Some (i, u) \<Rightarrow> run0\<lparr>er_ID := i, er_StartedAt := u\<rparr>)"
  have r1: "counted r1 = 0" "er_Error r1 = []" by (auto simp: r1_def counted_def run0_def split: option.split prod.split)
  have lg: "rs_mail (fst lg) = rs_mail s" "rs_policies (fst lg) = rs_policies s" "rs_tenants (fst lg) = rs_tenants s" "rs_audit (fst lg) = rs_audit s"
    by (simp_all add: lg_def)
  have E: "(case scopeMailbox p of Inl x \<Rightarrow> complete uuid en env t p r1 (Some x) (fst lg)
      | Inr mb \<Rightarrow> if py_RetentionDays p \<le> 0 then complete uuid en env t p r1 (Some (''retention: refusing to enforce policy '' @ py_ID p @ '': non-positive retention_days='' @ itoa (py_RetentionDays p))) (fst lg)
        else case sweep en op t (py_PolicyType p) mb (cutoff_of (rn_cut env) (py_RetentionDays p)) maxPages [] r1 (rs_mail (fst lg)) of
          (m, run1, er) \<Rightarrow> complete uuid en env t p run1 er ((fst lg)\<lparr>rs_mail := m\<rparr>)) = (s', run, er)"
    using assms unfolding EnforcePolicy_def unfolding lg_def r1_def by (simp add: Let_def run0_def [symmetric] split_def cong: sum.case_cong)
  show ?thesis
  proof (cases "scopeMailbox p")
    case (Inl x)
    then show ?thesis using E r1 lg by (intro exI [of _ r1] exI [of _ "fst lg"]) auto
  next
    case (Inr mb)
    show ?thesis
    proof (cases "py_RetentionDays p \<le> 0")
      case True
      then show ?thesis using E Inr r1 lg by (intro exI [of _ r1] exI [of _ "fst lg"]) auto
    next
      case False
      obtain m run1 e2 where sw: "sweep en op t (py_PolicyType p) mb (cutoff_of (rn_cut env) (py_RetentionDays p)) maxPages [] r1 (rs_mail s) = (m, run1, e2)"
        by (metis prod_cases3)
      then have cm: "complete uuid en env t p run1 e2 ((fst lg)\<lparr>rs_mail := m\<rparr>) = (s', run, er)" using E Inr False lg by simp
      then show ?thesis using complete_parts(4) [OF cm] sw Inr False r1 lg by (intro exI [of _ r1] exI [of _ "fst lg"]) auto
    qed
  qed
qed

lemma enforce_mail:
  assumes E: "EnforcePolicy uuid en env t p s = (s', run, er)" and op: "en_op en = Some op"
  shows "rs_mail s' = rs_mail s \<or> (\<exists>mb run0 run1. scopeMailbox p = Inr mb \<and> 0 < py_RetentionDays p
    \<and> sweep en op t (py_PolicyType p) mb (cutoff_of (rn_cut env) (py_RetentionDays p)) maxPages [] run0 (rs_mail s) = (rs_mail s', run1, er))"
    and "rs_policies s' = rs_policies s" and "rs_tenants s' = rs_tenants s"
proof -
  have "trim_space t \<noteq> [] \<or> s' = s" using E by (auto simp: EnforcePolicy_def)
  then have c: "s' = s \<or> (\<exists>run0 s1. rs_mail s1 = rs_mail s \<and> rs_policies s1 = rs_policies s \<and> rs_tenants s1 = rs_tenants s
      \<and> ((\<exists>x. complete uuid en env t p run0 (Some x) s1 = (s', run, er))
        \<or> (\<exists>mb m run1. scopeMailbox p = Inr mb \<and> 0 < py_RetentionDays p
          \<and> sweep en op t (py_PolicyType p) mb (cutoff_of (rn_cut env) (py_RetentionDays p)) maxPages [] run0 (rs_mail s) = (m, run1, er)
          \<and> complete uuid en env t p run1 er (s1\<lparr>rs_mail := m\<rparr>) = (s', run, er))))"
    using enforce_cases [OF E op] by blast
  show "rs_policies s' = rs_policies s" using c by (auto dest: complete_parts(2))
  show "rs_tenants s' = rs_tenants s" using c by (auto dest: complete_parts(3))
  show "rs_mail s' = rs_mail s \<or> (\<exists>mb run0 run1. scopeMailbox p = Inr mb \<and> 0 < py_RetentionDays p
    \<and> sweep en op t (py_PolicyType p) mb (cutoff_of (rn_cut env) (py_RetentionDays p)) maxPages [] run0 (rs_mail s) = (rs_mail s', run1, er))"
    using c by (auto dest: complete_parts(1))
qed

locale email_store =
  fixes op :: "'s email_operator" and mail :: "'s \<Rightarrow> mail" and cold :: "'s \<Rightarrow> string \<Rightarrow> string set"
  assumes mail_ids: "finite (mail s t)" "inj_on em_id (mail s t)"
    and query_keeps: "eo_query op t mb c lim s = (s', q) \<Longrightarrow> mail s' = mail s \<and> cold s' = cold s"
    and query_page: "eo_query op t mb c lim s = (s', Inr xs) \<Longrightarrow> wire_date c \<Longrightarrow> 0 < lim \<Longrightarrow> is_page (eligible (mail s t) mb (whole_second c)) lim xs"
    and destroy_some: "eo_destroy op t xs s = (s', r) \<Longrightarrow> cold s' = cold s \<and> (\<exists>gone \<subseteq> set xs. mail s' = removed (mail s) t gone)"
    and destroy_all: "eo_destroy op t xs s = (s', None) \<Longrightarrow> mail s' = removed (mail s) t (set xs)"
    and move_cold: "eo_cold op = Some move \<Longrightarrow> move t xs s = (s', r) \<Longrightarrow> mail s' = mail s \<and> (\<forall>u. cold s u \<subseteq> cold s' u) \<and> (r = None \<longrightarrow> set xs \<subseteq> cold s' t)"
begin

text \<open>What a step may have done: \<open>gone\<close> has left the mail of \<open>t\<close>, in an archive only after it was moved.\<close>

definition took :: "string \<Rightarrow> string \<Rightarrow> string set \<Rightarrow> 's \<Rightarrow> 's \<Rightarrow> bool" where
  "took ty t gone s s' \<longleftrightarrow> mail s' = removed (mail s) t gone \<and> (\<forall>u. cold s u \<subseteq> cold s' u) \<and> (ty = ''archive'' \<longrightarrow> gone \<subseteq> cold s' t)"

lemma took_trans: "took ty t g s s1 \<Longrightarrow> took ty t h s1 s2 \<Longrightarrow> took ty t (g \<union> h) s s2"
  unfolding took_def by (auto; blast)

lemma took_nothing: "mail s' = mail s \<Longrightarrow> cold s' = cold s \<Longrightarrow> took ty t {} s s'"
  by (simp add: took_def)

lemma batch_effect:
  assumes "en_cold en = eo_cold op"
  shows "\<exists>s1 gone. gone \<subseteq> set b \<and> took ty t gone s s1
    \<and> ((\<exists>er. \<not> guard_error er \<and> apply_chunks en op t ty (b # bs) d a s = (s1, d, a, Some er))
       \<or> gone = set b \<and> apply_chunks en op t ty (b # bs) d a s
           = apply_chunks en op t ty bs (d + (if ty = ''delete'' then int (length b) else 0)) (a + (if ty = ''delete'' then 0 else int (length b))) s1)"
proof -
  obtain s2 r where D: "eo_destroy op t b s = (s2, r)" by (cases "eo_destroy op t b s")
  consider (delete) "ty = ''delete''" | (none) "ty = ''archive''" "eo_cold op = None" | (archive) move where "ty = ''archive''" "eo_cold op = Some move"
    | (other) "ty \<noteq> ''delete''" "ty \<noteq> ''archive''" by blast
  then show ?thesis
  proof cases
    case delete
    obtain gone where g: "gone \<subseteq> set b" "took ty t gone s s2" using destroy_some [OF D] delete by (auto simp: took_def)
    show ?thesis
    proof (cases r)
      case None
      with D destroy_all destroy_some [OF D] delete have "took ty t (set b) s s2" by (auto simp: took_def)
      then show ?thesis using D None delete by (intro exI [of _ s2] exI [of _ "set b"]) simp
    next
      case (Some x)
      then show ?thesis using D g delete by (intro exI [of _ s2] exI [of _ gone]) (simp add: guard_error_def errNoProgress_def)
    qed
  next
    case none
    then show ?thesis using assms by (intro exI [of _ s] exI [of _ "{}"]) (simp add: guard_error_def errNoProgress_def took_def)
  next
    case other
    then show ?thesis by (intro exI [of _ s] exI [of _ "{}"]) (simp add: guard_error_def errNoProgress_def took_def)
  next
    case archive
    obtain s1 q where M: "move t b s = (s1, q)" by (cases "move t b s")
    obtain s3 r3 where D3: "eo_destroy op t b s1 = (s3, r3)" by (cases "eo_destroy op t b s1")
    note m = move_cold [OF archive(2) M]
    show ?thesis
    proof (cases q)
      case (Some x)
      then show ?thesis using M m archive assms by (intro exI [of _ s1] exI [of _ "{}"]) (simp add: guard_error_def errNoProgress_def took_def)
    next
      case None
      obtain gone where g: "gone \<subseteq> set b" "took ty t gone s s3"
        using destroy_some [OF D3] m None archive(1) by (auto simp: took_def)
      show ?thesis
      proof (cases r3)
        case (Some x)
        then show ?thesis using M D3 g None archive assms by (intro exI [of _ s3] exI [of _ gone]) (simp add: guard_error_def errNoProgress_def)
      next
        case r3: None
        have "took ty t (set b) s s3" using destroy_all D3 r3 destroy_some [OF D3] m None by (auto simp: took_def)
        then show ?thesis using M D3 r3 None archive assms by (intro exI [of _ s3] exI [of _ "set b"]) simp
      qed
    qed
  qed
qed

lemma chunks_effect:
  assumes "apply_chunks en op t ty bs d a s = (s', d', a', er)" and "en_cold en = eo_cold op" and "distinct (concat bs)"
  shows "\<exists>gone \<subseteq> set (concat bs). took ty t gone s s' \<and> d' + a' \<le> d + a + int (card gone)
    \<and> (er = None \<longrightarrow> gone = set (concat bs) \<and> d' + a' = d + a + int (card gone)) \<and> (\<forall>x. er = Some x \<longrightarrow> \<not> guard_error x)"
  using assms
proof (induction bs arbitrary: d a s)
  case Nil
  then show ?case by (intro exI [of _ "{}"]) (simp add: took_def)
next
  case (Cons b bs)
  let ?d = "d + (if ty = ''delete'' then int (length b) else 0)" and ?a = "a + (if ty = ''delete'' then 0 else int (length b))"
  obtain s1 gone where g: "gone \<subseteq> set b" "took ty t gone s s1"
    and c: "(\<exists>er. \<not> guard_error er \<and> apply_chunks en op t ty (b # bs) d a s = (s1, d, a, Some er))
       \<or> gone = set b \<and> apply_chunks en op t ty (b # bs) d a s = apply_chunks en op t ty bs ?d ?a s1"
    using batch_effect [OF Cons.prems(2), of b ty t s bs d a] by blast
  from c show ?case
  proof
    assume "\<exists>er. \<not> guard_error er \<and> apply_chunks en op t ty (b # bs) d a s = (s1, d, a, Some er)"
    with Cons.prems(1) g show ?thesis by (intro exI [of _ gone]) auto
  next
    assume e: "gone = set b \<and> apply_chunks en op t ty (b # bs) d a s = apply_chunks en op t ty bs ?d ?a s1"
    have "apply_chunks en op t ty bs ?d ?a s1 = (s', d', a', er)" "distinct (concat bs)" using Cons.prems e by auto
    from Cons.IH [OF this(1) Cons.prems(2) this(2)] obtain h where h: "h \<subseteq> set (concat bs)" "took ty t h s1 s'" "d' + a' \<le> ?d + ?a + int (card h)"
      "er = None \<longrightarrow> h = set (concat bs) \<and> d' + a' = ?d + ?a + int (card h)" "\<forall>x. er = Some x \<longrightarrow> \<not> guard_error x"
      by blast
    have "card (set b \<union> h) = length b + card h"
      using Cons.prems(3) h(1) by (subst card_Un_disjoint) (auto simp: distinct_card intro: finite_subset)
    moreover have "took ty t (set b \<union> h) s s'" using took_trans g h(2) e by blast
    moreover have "?d + ?a = d + a + int (length b)" by simp
    ultimately show ?thesis using h(1,3,4,5) by (intro exI [of _ "set b \<union> h"]) (auto simp del: if_split_asm)
  qed
qed

lemma page_effect:
  assumes "applyBatches en op t ty xs s = (s', d', a', er)" and "en_cold en = eo_cold op" and "distinct xs"
  shows "\<exists>gone \<subseteq> set xs. took ty t gone s s' \<and> d' + a' \<le> int (card gone)
    \<and> (er = None \<longrightarrow> gone = set xs \<and> d' + a' = int (card gone)) \<and> (\<forall>x. er = Some x \<longrightarrow> \<not> guard_error x)"
  using chunks_effect [of en t ty "chunks destroyChunk xs" 0 0 s s' d' a' er] assms by (simp add: applyBatches_def concat_chunks)

lemma sweep_effect:
  assumes "sweep en op t ty mb c n prev run s = (s', run', er)" and "en_cold en = eo_cold op" and "wire_date c"
  shows "\<exists>gone \<subseteq> em_id ` eligible (mail s t) mb (whole_second c). took ty t gone s s' \<and> (en_dryRun en \<longrightarrow> gone = {})
    \<and> counted run' \<le> counted run + int (card gone)
    \<and> (er = None \<and> \<not> en_dryRun en \<longrightarrow> eligible (mail s' t) mb (whole_second c) = {} \<and> counted run' = counted run + int (card gone))"
  using assms
proof (induction n arbitrary: prev run s)
  case 0
  then show ?case by (intro exI [of _ "{}"]) (auto simp: took_def)
next
  case (Suc n)
  let ?E = "\<lambda>s. eligible (mail s t) mb (whole_second c)"
  obtain s1 q where Q: "eo_query op t mb c queryPageSize s = (s1, q)" by (cases "eo_query op t mb c queryPageSize s")
  note k = query_keeps [OF Q]
  show ?case
  proof (cases q)
    case (Inl x)
    then show ?thesis using Suc.prems Q k by (intro exI [of _ "{}"]) (auto simp: took_def)
  next
    case (Inr xs)
    have pg: "is_page (?E s) queryPageSize xs" using query_page Q Inr assms(3) by simp
    then have xs: "distinct xs" "set xs \<subseteq> em_id ` ?E s" by (simp_all add: is_page_def)
    have fin: "finite (?E s)" by (rule finite_subset [OF eligible_subset mail_ids(1)])
    consider (finished) "xs = []" | (stuck) "xs \<noteq> []" "\<not> en_dryRun en" "sameIDSet xs prev" | (dry) "xs \<noteq> []" "en_dryRun en"
      | (go) "xs \<noteq> []" "\<not> en_dryRun en" "\<not> sameIDSet xs prev" by blast
    then show ?thesis
    proof cases
      case finished
      then have "?E s = {}" using pg fin by (simp add: is_page_def min_def split: if_splits)
      then show ?thesis using Suc.prems Q k Inr finished by (intro exI [of _ "{}"]) (auto simp: took_def)
    next
      case stuck
      then show ?thesis using Suc.prems Q k Inr by (intro exI [of _ "{}"]) (auto simp: took_def)
    next
      case dry
      then show ?thesis using Suc.prems Q k Inr by (intro exI [of _ "{}"]) (auto simp: took_def counted_def Let_def)
    next
      case go
      obtain s2 d2 a2 er2 where A: "applyBatches en op t ty xs s1 = (s2, d2, a2, er2)" by (metis prod_cases4)
      obtain g where g: "g \<subseteq> set xs" "took ty t g s1 s2" "d2 + a2 \<le> int (card g)" "er2 = None \<longrightarrow> g = set xs \<and> d2 + a2 = int (card g)"
        using page_effect [OF A Suc.prems(2) xs(1)] by blast
      have t2: "took ty t g s s2" using g(2) k by (simp add: took_def)
      define run2 where "run2 = page_run run xs d2 a2"
      have cr: "counted run2 = counted run + (d2 + a2)" by (simp add: counted_def run2_def page_run_def)
      note step = sweep_step [OF Q [unfolded Inr] go A, of n run, folded run2_def]
      show ?thesis
      proof (cases er2)
        case (Some x)
        then show ?thesis using Suc.prems(1) step go g xs(2) t2 cr by (intro exI [of _ g]) auto
      next
        case None
        with Suc.prems(1) step have "sweep en op t ty mb c n xs run2 s2 = (s', run', er)" by simp
        from Suc.IH [OF this Suc.prems(2,3)] obtain h where h: "h \<subseteq> em_id ` ?E s2" "took ty t h s2 s'" "counted run' \<le> counted run2 + int (card h)"
          "er = None \<and> \<not> en_dryRun en \<longrightarrow> ?E s' = {} \<and> counted run' = counted run2 + int (card h)" by blast
        have E2: "?E s2 = {m \<in> ?E s. em_id m \<notin> set xs}" using t2 g(4) None by (simp add: took_def eligible_removed)
        then have "card (set xs \<union> h) = card (set xs) + card h"
          using h(1) fin by (intro card_Un_disjoint) (auto intro: finite_subset)
        moreover have "took ty t (set xs \<union> h) s s'" using took_trans [OF _ h(2)] t2 g(4) None by blast
        moreover have "set xs \<union> h \<subseteq> em_id ` ?E s" using xs(2) h(1) E2 by auto
        ultimately show ?thesis using h(3,4) cr g(4) None go by (intro exI [of _ "set xs \<union> h"]) auto
      qed
    qed
  qed
qed

text \<open>Neither guard fires as long as the pages suffice.\<close>

lemma sweep_no_guard:
  assumes "sweep en op t ty mb c (Suc k) prev run s = (s', run', Some x)" and "en_cold en = eo_cold op" and "wire_date c"
    and "card (eligible (mail s t) mb (whole_second c)) \<le> 500 * k" and "set prev \<inter> em_id ` mail s t = {}"
  shows "\<not> guard_error x"
  using assms
proof (induction k arbitrary: prev run s)
  case (0 prev run s)
  then have "eligible (mail s t) mb (whole_second c) = {}" using finite_subset [OF eligible_subset mail_ids(1)] by simp
  with 0 show ?case
    using query_page [of t mb c queryPageSize s] by (auto simp: is_page_def guard_error_def errNoProgress_def split: prod.splits sum.splits if_splits)
next
  case (Suc k)
  let ?E = "\<lambda>s. eligible (mail s t) mb (whole_second c)"
  obtain s1 q where Q: "eo_query op t mb c queryPageSize s = (s1, q)" by (cases "eo_query op t mb c queryPageSize s")
  show ?case
  proof (cases q)
    case (Inl y)
    then show ?thesis using Suc.prems(1) Q by (auto simp: guard_error_def errNoProgress_def)
  next
    case (Inr xs)
    have fin: "finite (?E s)" by (rule finite_subset [OF eligible_subset mail_ids(1)])
    have pg: "is_page (?E s) queryPageSize xs" using query_page Q Inr assms(3) by simp
    then have xs: "distinct xs" "set xs \<subseteq> em_id ` ?E s" "length xs = min queryPageSize (card (?E s))" by (simp_all add: is_page_def)
    have ne: "xs \<noteq> []" and live: "\<not> en_dryRun en" using Suc.prems(1) Q Inr by (auto simp: Let_def split: if_splits)
    have "set xs \<subseteq> em_id ` mail s t" using xs(2) eligible_subset by blast
    then have "\<not> sameIDSet xs prev" using ne Suc.prems(5) by (cases xs) (auto simp: sameIDSet_def list_all_iff)
    moreover obtain s2 d2 a2 er2 where A: "applyBatches en op t ty xs s1 = (s2, d2, a2, er2)" by (metis prod_cases4)
    ultimately have step: "sweep en op t ty mb c (Suc (Suc k)) prev run s
        = (case er2 of Some y \<Rightarrow> (s2, page_run run xs d2 a2, Some y) | None \<Rightarrow> sweep en op t ty mb c (Suc k) xs (page_run run xs d2 a2) s2)"
      using sweep_step [OF Q [unfolded Inr] ne live] by blast
    note pe = page_effect [OF A Suc.prems(2) xs(1)]
    show ?thesis
    proof (cases er2)
      case (Some y)
      then show ?thesis using pe step Suc.prems(1) by auto
    next
      case None
      then have t2: "took ty t (set xs) s1 s2" using pe by auto
      then have m2: "mail s2 t = {m \<in> mail s t. em_id m \<notin> set xs}" using query_keeps [OF Q] by (simp add: took_def)
      then have E2: "?E s2 = ?E s - {m \<in> ?E s. em_id m \<in> set xs}" by (auto simp: eligible_def)
      have "em_id ` {m \<in> ?E s. em_id m \<in> set xs} = set xs" using xs(2) by auto
      moreover have "inj_on em_id {m \<in> ?E s. em_id m \<in> set xs}" by (rule inj_on_subset [OF mail_ids(2) [of s t]]) (auto simp: eligible_def)
      ultimately have "card {m \<in> ?E s. em_id m \<in> set xs} = length xs" using distinct_card [OF xs(1)] by (metis card_image)
      then have "card (?E s2) = card (?E s) - length xs" unfolding E2 using fin by (subst card_Diff_subset) auto
      then have "card (?E s2) \<le> 500 * k" using xs(3) Suc.prems(4) by simp
      moreover have "set xs \<inter> em_id ` mail s2 t = {}" using m2 by auto
      ultimately show ?thesis using Suc.IH [of xs "page_run run xs d2 a2" s2] Suc.prems(1-3) step None by simp
    qed
  qed
qed

lemma enforce_effect:
  assumes E: "EnforcePolicy uuid en env t p S = (S', run, er)" and "en_op en = Some op" and "en_cold en = eo_cold op"
    and "wire_date (cutoff_of (rn_cut env) (py_RetentionDays p))"
  shows "\<exists>gone \<subseteq> em_id ` eligible (mail (rs_mail S) t) (case scopeMailbox p of Inr mb \<Rightarrow> mb | Inl _ \<Rightarrow> []) (whole_second (cutoff_of (rn_cut env) (py_RetentionDays p))).
      took (py_PolicyType p) t gone (rs_mail S) (rs_mail S') \<and> (gone \<noteq> {} \<longrightarrow> \<not> en_dryRun en \<and> 0 < py_RetentionDays p \<and> scopeMailbox p \<noteq> Inl (projl (scopeMailbox p)))"
proof (cases "rs_mail S' = rs_mail S")
  case True
  then show ?thesis by (intro exI [of _ "{}"]) (simp add: took_def)
next
  case False
  with enforce_mail [OF E assms(2)] obtain mb run0 run1 where mb: "scopeMailbox p = Inr mb" "0 < py_RetentionDays p"
    and sw: "sweep en op t (py_PolicyType p) mb (cutoff_of (rn_cut env) (py_RetentionDays p)) maxPages [] run0 (rs_mail S) = (rs_mail S', run1, er)"
    by blast
  show ?thesis using sweep_effect [OF sw assms(3,4)] mb by auto
qed

text \<open>Nothing appears, nothing leaves the cold tier, and what is lost was lost under a policy that allows it.\<close>

definition lawful :: "(string \<Rightarrow> email \<Rightarrow> Policy \<Rightarrow> bool) \<Rightarrow> 's \<Rightarrow> 's \<Rightarrow> bool" where
  "lawful ok s s' \<longleftrightarrow> (\<forall>u. mail s' u \<subseteq> mail s u \<and> cold s u \<subseteq> cold s' u
     \<and> (\<forall>m \<in> mail s u - mail s' u. \<exists>p. ok u m p \<and> (py_PolicyType p = ''archive'' \<longrightarrow> em_id m \<in> cold s' u)))"

lemma lawful_refl: "lawful ok s s" by (simp add: lawful_def)

lemma lawful_trans:
  assumes a: "lawful ok s s1" and b: "lawful ok s1 s2"
  shows "lawful ok s s2"
  unfolding lawful_def
proof (intro allI conjI ballI)
  fix u m
  show "mail s2 u \<subseteq> mail s u" "cold s u \<subseteq> cold s2 u" using a b unfolding lawful_def by blast+
  assume "m \<in> mail s u - mail s2 u"
  then have "m \<in> mail s u - mail s1 u \<or> m \<in> mail s1 u - mail s2 u" by blast
  moreover have "cold s1 u \<subseteq> cold s2 u" using b by (simp add: lawful_def)
  ultimately show "\<exists>p. ok u m p \<and> (py_PolicyType p = ''archive'' \<longrightarrow> em_id m \<in> cold s2 u)"
    using a b unfolding lawful_def by blast
qed

lemma enforce_lawful:
  assumes E: "EnforcePolicy uuid en env t p S = (S', run, er)" and "en_op en = Some op" and "en_cold en = eo_cold op"
    and w: "wire_date (cutoff_of (rn_cut env) (py_RetentionDays p))" and d: "py_RetentionDays p \<le> maxDays"
    and ok: "\<And>m. \<not> en_dryRun en \<Longrightarrow> due_under (rn_cut env) p m \<Longrightarrow> ok t m p"
  shows "lawful ok (rs_mail S) (rs_mail S')"
proof -
  let ?M = "mail (rs_mail S) t" and ?c = "whole_second (cutoff_of (rn_cut env) (py_RetentionDays p))"
  obtain gone where g: "gone \<subseteq> em_id ` eligible ?M (case scopeMailbox p of Inr mb \<Rightarrow> mb | Inl _ \<Rightarrow> []) ?c" "took (py_PolicyType p) t gone (rs_mail S) (rs_mail S')"
    and n: "gone \<noteq> {} \<longrightarrow> \<not> en_dryRun en \<and> 0 < py_RetentionDays p \<and> scopeMailbox p \<noteq> Inl (projl (scopeMailbox p))"
    using enforce_effect [OF E assms(2-4)] by blast
  have due: "ok t m p" if m: "m \<in> ?M" "em_id m \<in> gone" for m
  proof -
    obtain mb where mb: "scopeMailbox p = Inr mb" using n m by (cases "scopeMailbox p") auto
    obtain m' where m': "em_id m = em_id m'" "m' \<in> eligible ?M mb ?c" using g(1) m(2) mb by auto
    then have "m = m'" using mail_ids(2) [of "rs_mail S" t] m(1) by (auto simp: eligible_def inj_on_def)
    then show ?thesis using ok eligible_due [OF _ mb _ d, of m] m' n m(2) by auto
  qed
  show ?thesis unfolding lawful_def
  proof (intro allI conjI ballI)
    fix u m
    show "mail (rs_mail S') u \<subseteq> mail (rs_mail S) u" "cold (rs_mail S) u \<subseteq> cold (rs_mail S') u"
      using g(2) by (auto simp: took_def removed_def)
    assume "m \<in> mail (rs_mail S) u - mail (rs_mail S') u"
    then have "u = t" "m \<in> ?M" "em_id m \<in> gone" using g(2) by (auto simp: took_def removed_def split: if_splits)
    then show "\<exists>p. ok u m p \<and> (py_PolicyType p = ''archive'' \<longrightarrow> em_id m \<in> cold (rs_mail S') u)" using due g(2) by (intro exI [of _ p]) (auto simp: took_def)
  qed
qed

lemma policies_lawful:
  assumes "worker_policies uuid en (te_run env t) t ps errs w S = (w', S', errs')" and "en_op en = Some op" and "en_cold en = eo_cold op"
    and "\<forall>p \<in> set ps. wire_date (cutoff_of (rn_cut (te_run env t (py_ID p))) (py_RetentionDays p)) \<and> py_RetentionDays p \<le> maxDays"
    and "\<And>p m. p \<in> set ps \<Longrightarrow> py_Enabled p \<Longrightarrow> \<not> en_dryRun en \<Longrightarrow> due_under (rn_cut (te_run env t (py_ID p))) p m \<Longrightarrow> ok t m p"
  shows "lawful ok (rs_mail S) (rs_mail S') \<and> rs_policies S' = rs_policies S \<and> rs_tenants S' = rs_tenants S"
  using assms
proof (induction ps arbitrary: errs w S)
  case Nil
  then show ?case by (simp add: lawful_refl)
next
  case (Cons p ps)
  obtain S1 run er where E: "EnforcePolicy uuid en (te_run env t (py_ID p)) t p S = (S1, run, er)" by (metis prod_cases3)
  show ?case
  proof (cases "py_Enabled p")
    case False
    then show ?thesis using Cons by simp
  next
    case True
    then have "\<exists>errs1 w1. worker_policies uuid en (te_run env t) t ps errs1 w1 S1 = (w', S', errs')"
      using Cons.prems(1) E by (cases er) (auto simp: Let_def)
    then have "lawful ok (rs_mail S1) (rs_mail S') \<and> rs_policies S' = rs_policies S1 \<and> rs_tenants S' = rs_tenants S1"
      using Cons.IH Cons.prems by (metis list.set_intros(2))
    moreover have "lawful ok (rs_mail S) (rs_mail S1)"
      using E Cons.prems(2,3) by (rule enforce_lawful) (use Cons.prems(4,5) True in auto)
    ultimately show ?thesis using enforce_mail(2,3) [OF E Cons.prems(2)] lawful_trans by metis
  qed
qed

lemma tenants_lawful:
  assumes "tick_tenants uuid en env ts w S = (w', S')" and "en_op en = Some op" and "en_cold en = eo_cold op"
    and "\<forall>p \<in> set (rs_policies S). \<forall>t \<in> set ts. wire_date (cutoff_of (rn_cut (te_run env t (py_ID p))) (py_RetentionDays p)) \<and> py_RetentionDays p \<le> maxDays"
    and "set ts \<subseteq> set tenants"
  shows "lawful (applies uuid env (en_dryRun en) (rs_policies S) tenants) (rs_mail S) (rs_mail S')"
  using assms
proof (induction ts arbitrary: w S)
  case Nil
  then show ?case by (simp add: lawful_refl)
next
  case (Cons t ts)
  let ?ok = "applies uuid env (en_dryRun en) (rs_policies S) tenants"
  obtain w1 S1 er where E: "evaluateTenant uuid en env t w S = (w1, S1, er)" by (metis prod_cases3)
  have step: "lawful ?ok (rs_mail S) (rs_mail S1) \<and> rs_policies S1 = rs_policies S \<and> rs_tenants S1 = rs_tenants S"
  proof (cases "ListPolicies uuid (te_list env t) t S")
    case (Inl x)
    then show ?thesis using E by (auto simp: evaluateTenant_def lawful_refl)
  next
    case (Inr ps)
    then obtain tid where tid: "uuid t = Some tid" and ps: "\<And>p. p \<in> set ps \<Longrightarrow> p \<in> set (rs_policies S) \<and> py_TenantID p = tid"
      by (auto simp: ListPolicies_def split: option.splits)
    obtain w2 errs2 where W: "worker_policies uuid en (te_run env t) t ps [] (w\<lparr>wk_lastEvaluatedAt := unix_sec (te_now env t)\<rparr>) S = (w2, S1, errs2)"
      using E Inr by (auto simp: evaluateTenant_def split: prod.splits)
    show ?thesis
      using W Cons.prems(2,3) by (rule policies_lawful) (use Cons.prems(4,5) ps tid in \<open>auto simp: applies_def\<close>)
  qed
  moreover have "tick_tenants uuid en env ts w1 S1 = (w', S')" using Cons.prems(1) E by simp
  ultimately show ?case using Cons.IH [of w1 S1] Cons.prems lawful_trans by auto
qed

lemma tick_removes:
  assumes "wk_engine w = None" and "wk_op w = Some op" and T: "retention_tick uuid env w S = (w', S', er)"
    and wire: "\<forall>p \<in> set (rs_policies S). py_RetentionDays p \<le> maxDays \<and> (\<forall>t. wire_date (cutoff_of (rn_cut (te_run env t (py_ID p))) (py_RetentionDays p)))"
  shows "mail (rs_mail S') u \<subseteq> mail (rs_mail S) u
    \<and> (\<forall>m \<in> mail (rs_mail S) u - mail (rs_mail S') u. \<not> wk_dryRun w \<and> (u, ''active'') \<in> set (rs_tenants S)
        \<and> (\<exists>p \<in> set (rs_policies S). py_Enabled p \<and> uuid u = Some (py_TenantID p) \<and> due_under (rn_cut (te_run env u (py_ID p))) p m
             \<and> (py_PolicyType p = ''archive'' \<longrightarrow> em_id m \<in> cold (rs_mail S') u)))"
proof (cases "ListActiveTenants (te_tenants env) S")
  case (Inl x)
  then show ?thesis using T assms(1,2) by (auto simp: retention_tick_def engineFor_def Let_def)
next
  case (Inr ts)
  define en where "en = \<lparr>en_op = Some op, en_cold = eo_cold op, en_metrics = wk_metrics w, en_dryRun = wk_dryRun w\<rparr>"
  have "tick_tenants uuid en env ts (w\<lparr>wk_engine := Some (Some en)\<rparr>) S = (w', S')"
    using T assms(1,2) Inr by (auto simp: retention_tick_def engineFor_def en_def Let_def split: prod.splits)
  then have "lawful (applies uuid env (en_dryRun en) (rs_policies S) ts) (rs_mail S) (rs_mail S')"
    by (rule tenants_lawful) (use wire in \<open>simp_all add: en_def\<close>)
  moreover have "set ts \<subseteq> {t. (t, ''active'') \<in> set (rs_tenants S)}" using Inr by (auto simp: ListActiveTenants_def split: option.splits)
  ultimately show ?thesis unfolding lawful_def applies_def by (simp add: en_def) blast
qed

text \<open>A live sweep that reports no error leaves nothing due, one that does never stops for want of progress or of pages; the counts are what has left.\<close>

lemma sweep_result:
  assumes E: "EnforcePolicy uuid en env t p S = (S', run, er)" and op: "en_op en = Some op" and c: "en_cold en = eo_cold op" and "trim_space t \<noteq> []"
    and mb: "scopeMailbox p = Inr mb" and d: "0 < py_RetentionDays p" and w: "wire_date (cutoff_of (rn_cut env) (py_RetentionDays p))" and live: "\<not> en_dryRun en"
    and fits: "card (eligible (mail (rs_mail S) t) mb (whole_second (cutoff_of (rn_cut env) (py_RetentionDays p)))) \<le> 2499500"
  shows "\<exists>r. run = Some r \<and> counted r \<le> int (card (mail (rs_mail S) t - mail (rs_mail S') t))
    \<and> (case er of None \<Rightarrow> eligible (mail (rs_mail S') t) mb (whole_second (cutoff_of (rn_cut env) (py_RetentionDays p))) = {}
          \<and> counted r = int (card (mail (rs_mail S) t - mail (rs_mail S') t))
        | Some x \<Rightarrow> \<not> guard_error x)"
proof -
  let ?c = "cutoff_of (rn_cut env) (py_RetentionDays p)"
  from enforce_cases [OF E op assms(4)] mb d obtain run0 s1 m run1 where r0: "counted run0 = 0"
    and sw: "sweep en op t (py_PolicyType p) mb ?c maxPages [] run0 (rs_mail S) = (m, run1, er)"
    and cm: "complete uuid en env t p run1 er (s1\<lparr>rs_mail := m\<rparr>) = (S', run, er)" by auto
  have m: "rs_mail S' = m" using complete_parts(1) [OF cm] by simp
  obtain r where r: "run = Some r" "counted r = counted run1" using complete_parts(5) [OF cm] by blast
  obtain gone where g: "gone \<subseteq> em_id ` eligible (mail (rs_mail S) t) mb (whole_second ?c)" "took (py_PolicyType p) t gone (rs_mail S) m"
    "counted run1 \<le> counted run0 + int (card gone)"
    "er = None \<longrightarrow> eligible (mail m t) mb (whole_second ?c) = {} \<and> counted run1 = counted run0 + int (card gone)"
    using sweep_effect [OF sw c w] live by blast
  have lost: "mail (rs_mail S) t - mail m t = {x \<in> mail (rs_mail S) t. em_id x \<in> gone}" using g(2) by (auto simp: took_def)
  have "em_id ` {x \<in> mail (rs_mail S) t. em_id x \<in> gone} = gone" using g(1) by (auto simp: eligible_def)
  moreover have "inj_on em_id {x \<in> mail (rs_mail S) t. em_id x \<in> gone}" by (rule inj_on_subset [OF mail_ids(2)]) auto
  ultimately have "card (mail (rs_mail S) t - mail m t) = card gone" unfolding lost by (metis card_image)
  moreover have "\<not> guard_error x" if "er = Some x" for x
  proof -
    have "sweep en op t (py_PolicyType p) mb ?c (Suc 4999) [] run0 (rs_mail S) = (m, run1, Some x)" using sw that by simp
    then show ?thesis by (rule sweep_no_guard [OF _ c w]) (use fits in simp_all)
  qed
  ultimately show ?thesis using r r0 g(3,4) m by (auto split: option.split)
qed

end

subsection \<open>The production operator\<close>

lemma enforcer_query_exchange:
  assumes "enforcer_query j t mb c lim s = (s', r)"
  obtains (refused) x where "s' = s" "r = Inl x"
  | (asked) url q where "je_do j url (json_headers (je_Auth j)) (query_payload t mb c (if lim = 0 then 500 else lim)) s = (s', q)"
      "\<And>ys. r = Inr ys \<Longrightarrow> \<exists>st resp a. q = Inr (st, Some resp) \<and> st < 300 \<and> jmapMethodArgs resp ''Email/query'' ''c1'' = Inr a \<and> decode_ids a = Some ys"
proof (cases "trim_space t = [] \<or> (\<exists>x. shardURL j t = Inl x)")
  case True
  then have "s' = s \<and> (\<exists>x. r = Inl x)" using assms by (auto simp: enforcer_query_def Let_def split: if_splits)
  then show thesis using refused by blast
next
  case False
  then obtain url where url: "shardURL j t = Inr url" by (cases "shardURL j t") auto
  obtain s1 q where D: "je_do j url (json_headers (je_Auth j)) (query_payload t mb c (if lim = 0 then 500 else lim)) s = (s1, q)" by (metis surj_pair)
  have "s' = s1 \<and> (\<forall>ys. r = Inr ys \<longrightarrow> (\<exists>st resp a. q = Inr (st, Some resp) \<and> st < 300 \<and> jmapMethodArgs resp ''Email/query'' ''c1'' = Inr a \<and> decode_ids a = Some ys))"
    using assms False url D by (auto simp: enforcer_query_def enforcer_jmap_def split: sum.splits prod.splits option.splits if_splits)
  with D show thesis by (intro asked) auto
qed

lemma destroy_failure_none:
  assumes "destroy_failure es = None" and "(x, er) \<in> set es"
  shows "as_string (field (as_object er) ''type'') = ''notFound''"
proof -
  have "find (\<lambda>(i, e). as_string (field (as_object e) ''type'') \<noteq> ''notFound'') (sort_key fst es) = None"
    using assms(1) by (auto simp: destroy_failure_def Let_def split: option.splits prod.splits)
  with assms(2) show ?thesis by (force simp: find_None_iff)
qed

text \<open>
  What the code relies on: \<^verbatim>\<open>Email/query\<close> answers with ids of the mail of the account that the filter matches, all or as many as the limit
  says, and changes nothing; \<^verbatim>\<open>Email/set\<close> destroys no other mail than it is asked to and reports every id it did not destroy, with a type other
  than \<^verbatim>\<open>notFound\<close> where the mail is still there; a placement move that is answered with success has moved its objects and leaves the mail alone.
\<close>

locale jmap_server =
  fixes j :: "'s JMAPEnforcer" and mail :: "'s \<Rightarrow> mail" and cold :: "'s \<Rightarrow> string \<Rightarrow> string set"
  assumes account_ids: "finite (mail s t)" "inj_on em_id (mail s t)"
    and query_reads: "je_do j url h (enforcer_payload ''Email/query'' args) s = (s', r) \<Longrightarrow> mail s' = mail s \<and> cold s' = cold s"
    and query_answer: "je_do j url h (enforcer_payload ''Email/query'' args) s = (s', Inr (st, Some resp)) \<Longrightarrow> st < 300
      \<Longrightarrow> jmapMethodArgs resp ''Email/query'' ''c1'' = Inr a \<Longrightarrow> decode_ids a = Some xs
      \<Longrightarrow> field args ''accountId'' = JString t \<Longrightarrow> field args ''filter'' = JObject f \<Longrightarrow> field f ''before'' = JString text \<Longrightarrow> parse_rfc3339 text = Some before
      \<Longrightarrow> field args ''limit'' = JNumber (dec_nat n) \<Longrightarrow> 0 < n \<Longrightarrow> is_page (eligible (mail s t) (as_string (field f ''inMailbox'')) before) n xs"
    and set_some: "je_do j url h (destroy_payload t xs) s = (s', r) \<Longrightarrow> cold s' = cold s \<and> (\<exists>gone \<subseteq> set xs. mail s' = removed (mail s) t gone)"
    and set_answer: "je_do j url h (destroy_payload t xs) s = (s', Inr (st, Some resp)) \<Longrightarrow> st < 300
      \<Longrightarrow> jmapMethodArgs resp ''Email/set'' ''c1'' = Inr a \<Longrightarrow> x \<in> set xs \<Longrightarrow> x \<in> em_id ` mail s' t
      \<Longrightarrow> \<exists>er. (x, er) \<in> set (as_object (field (as_object a) ''notDestroyed'')) \<and> as_string (field (as_object er) ''type'') \<noteq> ''notFound''"
    and placement_move: "je_do j url h (move_payload t xs) s = (s', r) \<Longrightarrow> mail s' = mail s \<and> (\<forall>u. cold s u \<subseteq> cold s' u)
      \<and> (\<forall>st d. r = Inr (st, d) \<and> st < 300 \<longrightarrow> set xs \<subseteq> cold s' t)"
begin

lemma operator_query:
  assumes "enforcer_query j t mb c lim s = (s', r)"
  shows "mail s' = mail s \<and> cold s' = cold s"
    and "r = Inr xs \<Longrightarrow> wire_date c \<Longrightarrow> 0 < lim \<Longrightarrow> is_page (eligible (mail s t) mb (whole_second c)) lim xs"
proof -
  define n where "n = (if lim = 0 then 500 else lim)"
  note ways = enforcer_query_exchange [OF assms, folded n_def]
  show "mail s' = mail s \<and> cold s' = cold s"
  proof (rule ways)
    fix url q
    assume "je_do j url (json_headers (je_Auth j)) (query_payload t mb c n) s = (s', q)"
    then show "mail s' = mail s \<and> cold s' = cold s" unfolding query_payload_def by (rule query_reads)
  qed simp
  assume r: "r = Inr xs" "wire_date c" "0 < lim"
  have f: "field (email_filter mb c) ''before'' = JString (format_rfc3339 c)" "as_string (field (email_filter mb c) ''inMailbox'') = mb"
    by (simp_all add: email_filter_def field_def)
  show "is_page (eligible (mail s t) mb (whole_second c)) lim xs"
  proof (rule ways)
    fix url q
    assume D: "je_do j url (json_headers (je_Auth j)) (query_payload t mb c n) s = (s', q)"
      and ys: "\<And>ys. r = Inr ys \<Longrightarrow> \<exists>st resp a. q = Inr (st, Some resp) \<and> st < 300 \<and> jmapMethodArgs resp ''Email/query'' ''c1'' = Inr a \<and> decode_ids a = Some ys"
    from ys [OF r(1)] obtain st resp a where q: "q = Inr (st, Some resp)" "st < 300"
      "jmapMethodArgs resp ''Email/query'' ''c1'' = Inr a" "decode_ids a = Some xs" by blast
    note ans = query_answer [OF D [unfolded q(1) query_payload_def] q(2-4), of t "email_filter mb c" "format_rfc3339 c" "whole_second c" n]
    have "parse_rfc3339 (format_rfc3339 c) = Some (whole_second c)" using r(2) by (intro parse_format_rfc3339) (simp_all add: wire_date_def)
    with ans f r(3) show ?thesis by (simp add: field_def n_def)
  qed (use r in simp)
qed

lemma operator_destroy_batches:
  assumes "enforcer_destroy_batches j url t bs s = (s', r)"
  shows "cold s' = cold s \<and> (\<exists>gone \<subseteq> set (concat bs). mail s' = removed (mail s) t gone \<and> (r = None \<longrightarrow> gone = set (concat bs)))"
  using assms
proof (induction bs arbitrary: s)
  case Nil
  then show ?case by (intro conjI exI [of _ "{}"]) auto
next
  case (Cons b bs)
  obtain s1 q where D: "je_do j url (json_headers (je_Auth j)) (destroy_payload t b) s = (s1, q)" by (metis surj_pair)
  obtain gone where g: "cold s1 = cold s" "gone \<subseteq> set b" "mail s1 = removed (mail s) t gone" using set_some [OF D] by blast
  show ?case
  proof (cases "\<exists>st resp. q = Inr (st, Some resp) \<and> st < 300 \<and> checkJMAPDestroy resp ''c1'' = None")
    case False
    then have "s' = s1" "r \<noteq> None"
      using Cons.prems D by (auto simp: enforcer_jmap_def split: sum.splits prod.splits option.splits if_splits)
    then show ?thesis using g by (intro conjI exI [of _ gone]) auto
  next
    case True
    then obtain st resp where q: "q = Inr (st, Some resp)" "st < 300" "checkJMAPDestroy resp ''c1'' = None" by blast
    then obtain a where a: "jmapMethodArgs resp ''Email/set'' ''c1'' = Inr a" "destroy_failure (as_object (field (as_object a) ''notDestroyed'')) = None"
      by (auto simp: checkJMAPDestroy_def split: sum.splits if_splits)
    have "x \<notin> em_id ` mail s1 t" if "x \<in> set b" for x
      using set_answer [OF D [unfolded q(1)] q(2) a(1) that] destroy_failure_none [OF a(2)] by blast
    then have all: "mail s1 = removed (mail s) t (set b)" using g(2,3) by (auto simp: removed_def fun_eq_iff)
    have "enforcer_destroy_batches j url t bs s1 = (s', r)" using Cons.prems D q by (simp add: enforcer_jmap_def)
    from Cons.IH [OF this] obtain h where h: "cold s' = cold s1" "h \<subseteq> set (concat bs)" "mail s' = removed (mail s1) t h" "r = None \<longrightarrow> h = set (concat bs)" by blast
    then show ?thesis using all g(1) by (intro conjI exI [of _ "set b \<union> h"]) auto
  qed
qed

lemma operator_move:
  assumes "move_batches j t bs s = (s', r)"
  shows "mail s' = mail s \<and> (\<forall>u. cold s u \<subseteq> cold s' u) \<and> (r = None \<longrightarrow> set (concat bs) \<subseteq> cold s' t)"
  using assms
proof (induction bs arbitrary: s)
  case (Cons b bs)
  let ?u = "trim_slashes (je_FabricURL j) @ ''/placements/move''"
  obtain s1 q where D: "je_do j ?u (json_headers (je_FabricAuth j)) (move_payload t b) s = (s1, q)" by (metis surj_pair)
  note m = placement_move [OF D]
  show ?case
  proof (cases "\<exists>st d. q = Inr (st, d) \<and> st < 300")
    case False
    then have "s' = s1" "r \<noteq> None" using Cons.prems D by (auto split: sum.splits prod.splits if_splits)
    then show ?thesis using m by blast
  next
    case True
    then have "move_batches j t bs s1 = (s', r)" using Cons.prems D by auto
    note ih = Cons.IH [OF this]
    have "set b \<subseteq> cold s1 t" using m True by blast
    then show ?thesis using ih m by (auto; blast)
  qed
qed simp

end

sublocale jmap_server \<subseteq> email_store "enforcer_ops j" mail cold
proof
  fix t xs s s' r
  show "mail s' = mail s \<and> cold s' = cold s" if "eo_query (enforcer_ops j) t mb c lim s = (s', q)" for mb c lim q
    using that by (auto simp: enforcer_ops_def dest: operator_query(1))
  show "is_page (eligible (mail s t) mb (whole_second c)) lim xs" if "eo_query (enforcer_ops j) t mb c lim s = (s', Inr xs)" "wire_date c" "0 < lim" for mb c lim
    using that by (auto simp: enforcer_ops_def intro: operator_query(2))
  have d: "cold s' = cold s \<and> (\<exists>gone \<subseteq> set xs. mail s' = removed (mail s) t gone \<and> (r = None \<longrightarrow> gone = set xs))"
    if "enforcer_destroy j t xs s = (s', r)" for r
  proof (cases "trim_space t = [] \<or> xs = [] \<or> (\<exists>x. shardURL j t = Inl x)")
    case True
    then show ?thesis using that by (intro conjI exI [of _ "{}"]) (auto simp: enforcer_destroy_def split: if_splits)
  next
    case False
    then obtain url where "shardURL j t = Inr url" by (cases "shardURL j t") auto
    with False that have "enforcer_destroy_batches j url t (chunks destroyChunk xs) s = (s', r)" by (simp add: enforcer_destroy_def)
    from operator_destroy_batches [OF this] show ?thesis by (simp add: concat_chunks)
  qed
  show "cold s' = cold s \<and> (\<exists>gone \<subseteq> set xs. mail s' = removed (mail s) t gone)" if "eo_destroy (enforcer_ops j) t xs s = (s', r)"
    using d that by (auto simp: enforcer_ops_def)
  show "mail s' = removed (mail s) t (set xs)" if "eo_destroy (enforcer_ops j) t xs s = (s', None)"
    using d [of None] that by (auto simp: enforcer_ops_def)
  show "mail s' = mail s \<and> (\<forall>u. cold s u \<subseteq> cold s' u) \<and> (r = None \<longrightarrow> set xs \<subseteq> cold s' t)"
    if "eo_cold (enforcer_ops j) = Some move" "move t xs s = (s', r)" for move
  proof (cases "je_FabricURL j = []")
    case True
    then show ?thesis using that by (auto simp: enforcer_ops_def MoveToCold_def)
  next
    case False
    then have "move_batches j t (chunks destroyChunk xs) s = (s', r)" using that by (auto simp: enforcer_ops_def MoveToCold_def)
    from operator_move [OF this] show ?thesis by (simp add: concat_chunks)
  qed
qed (rule account_ids)+

context jmap_server
begin

lemma operator_store: "email_store (enforcer_ops j) mail cold"
  by unfold_locales

end

subsection \<open>A server that keeps the contract\<close>

text \<open>Mail keyed by account and id, and the objects in the cold tier.\<close>

record ref_state =
  rf_mail :: "((string \<times> string) \<times> string list \<times> time) list"
  rf_cold :: "(string \<times> string) list"

definition ref_mail :: "ref_state \<Rightarrow> mail" where
  "ref_mail s t = {m. map_of (rf_mail s) (t, em_id m) = Some (em_mailboxes m, em_received m)}"

definition ref_cold :: "ref_state \<Rightarrow> string \<Rightarrow> string set" where
  "ref_cold s t = {i. (t, i) \<in> set (rf_cold s)}"

definition ref_matches :: "(string \<times> json) list \<Rightarrow> string list \<times> time \<Rightarrow> bool" where
  "ref_matches f v =
     (let mb = as_string (field f ''inMailbox'')
      in (case parse_rfc3339 (as_string (field f ''before'')) of None \<Rightarrow> False | Some b \<Rightarrow> snd v < b) \<and> (mb = [] \<or> mb \<in> set (fst v)))"

definition ref_matching :: "ref_state \<Rightarrow> string \<Rightarrow> (string \<times> json) list \<Rightarrow> string list" where
  "ref_matching s t f =
     filter (\<lambda>i. case map_of (rf_mail s) (t, i) of None \<Rightarrow> False | Some v \<Rightarrow> ref_matches f v)
       (remdups (map (\<lambda>((_, i), _). i) (filter (\<lambda>((a, _), _). a = t) (rf_mail s))))"

fun json_nat :: "json \<Rightarrow> nat" where
  "json_nat (JNumber ds) = (case parse_digits 0 ds of Some n \<Rightarrow> n | None \<Rightarrow> 0)"
| "json_nat _ = 0"

definition json_strings :: "json \<Rightarrow> string list" where
  "json_strings v = (case decode_strings v of Some xs \<Rightarrow> xs | None \<Rightarrow> [])"

definition ref_query :: "(string \<times> json) list \<Rightarrow> ref_state \<Rightarrow> json list list" where
  "ref_query args s =
     [[JString ''Email/query'', JObject [(''ids'', JArray (map JString (take (json_nat (field args ''limit''))
        (ref_matching s (as_string (field args ''accountId'')) (as_object (field args ''filter''))))))], JString ''c1'']]"

definition ref_set :: "(string \<times> json) list \<Rightarrow> ref_state \<Rightarrow> ref_state \<times> json list list" where
  "ref_set args s =
     (let t = as_string (field args ''accountId''); xs = json_strings (field args ''destroy'');
          missing = filter (\<lambda>i. map_of (rf_mail s) (t, i) = None) xs
      in (s\<lparr>rf_mail := filter (\<lambda>((a, i), _). \<not> (a = t \<and> i \<in> set xs)) (rf_mail s)\<rparr>,
          [[JString ''Email/set'', JObject [(''notDestroyed'', JObject (map (\<lambda>i. (i, JObject [(''type'', JString ''notFound'')])) missing))], JString ''c1'']]))"

definition ref_do :: "string \<Rightarrow> (string \<times> string) list \<Rightarrow> json \<Rightarrow> ref_state \<Rightarrow> ref_state \<times> (string + int \<times> json list list option)" where
  "ref_do url h payload s =
     (case map as_array (as_array (field (as_object payload) ''methodCalls'')) of
        [[name, args, _]] \<Rightarrow>
          if as_string name = ''Email/query'' then (s, Inr (200, Some (ref_query (as_object args) s)))
          else (case ref_set (as_object args) s of (s1, resp) \<Rightarrow> (s1, Inr (200, Some resp)))
      | _ \<Rightarrow>
          (s\<lparr>rf_cold := rf_cold s @ map (Pair (as_string (field (as_object payload) ''tenant_id''))) (json_strings (field (as_object payload) ''object_ids''))\<rparr>, Inr (200, None)))"

definition ref_enforcer :: "ref_state JMAPEnforcer" where
  "ref_enforcer = \<lparr>je_Shards = Some (\<lambda>_. Inr ''https://shard-1''), je_Auth = [], je_FabricURL = ''https://fabric/'', je_FabricAuth = [], je_do = ref_do\<rparr>"

lemma those_strings [simp]: "those (map (decode_string \<circ> JString) xs) = Some xs"
  by (induction xs) auto

lemma json_strings_map [simp]: "json_strings (JArray (map JString xs)) = xs"
  by (simp add: json_strings_def)

lemma ref_mail_ids: "finite (ref_mail s t)" "inj_on em_id (ref_mail s t)"
proof -
  show inj: "inj_on em_id (ref_mail s t)" by (rule inj_onI) (auto simp: ref_mail_def)
  have "em_id ` ref_mail s t \<subseteq> (snd \<circ> fst) ` set (rf_mail s)" by (force simp: ref_mail_def dest: map_of_SomeD)
  then show "finite (ref_mail s t)" using inj finite_subset [OF _ finite_imageI [OF finite_set]] by (metis finite_imageD)
qed

lemma ref_matching_ids:
  assumes "field f ''before'' = JString text" and "parse_rfc3339 text = Some b"
  shows "set (ref_matching s t f) = em_id ` eligible (ref_mail s t) (as_string (field f ''inMailbox'')) b"
    and "distinct (ref_matching s t f)"
proof -
  have k: "i \<in> (\<lambda>((_, i), _). i) ` set (filter (\<lambda>((a, _), _). a = t) (rf_mail s))" if "map_of (rf_mail s) (t, i) = Some v" for i v
    using map_of_SomeD [OF that] by force
  show "set (ref_matching s t f) = em_id ` eligible (ref_mail s t) (as_string (field f ''inMailbox'')) b"
  proof (intro equalityI subsetI)
    fix i
    assume "i \<in> set (ref_matching s t f)"
    then obtain v where "map_of (rf_mail s) (t, i) = Some v" "ref_matches f v" by (auto simp: ref_matching_def split: option.splits)
    then have "\<lparr>em_id = i, em_mailboxes = fst v, em_received = snd v\<rparr> \<in> eligible (ref_mail s t) (as_string (field f ''inMailbox'')) b"
      using assms by (auto simp: eligible_def ref_mail_def ref_matches_def Let_def)
    then show "i \<in> em_id ` eligible (ref_mail s t) (as_string (field f ''inMailbox'')) b" by (rule rev_image_eqI) simp
  next
    fix i
    assume "i \<in> em_id ` eligible (ref_mail s t) (as_string (field f ''inMailbox'')) b"
    then obtain v where "map_of (rf_mail s) (t, i) = Some v" "ref_matches f v"
      using assms by (auto simp: eligible_def ref_mail_def ref_matches_def Let_def)
    with k show "i \<in> set (ref_matching s t f)" by (auto simp: ref_matching_def)
  qed
qed (simp add: ref_matching_def)

lemma ref_do_payloads:
  "ref_do url h (enforcer_payload ''Email/query'' args) s = (s, Inr (200, Some (ref_query args s)))"
  "ref_do url h (destroy_payload t xs) s = (s\<lparr>rf_mail := filter (\<lambda>((a, i), _). \<not> (a = t \<and> i \<in> set xs)) (rf_mail s)\<rparr>, snd (ref_do url h (destroy_payload t xs) s))"
  "ref_do url h (move_payload t xs) s = (s\<lparr>rf_cold := rf_cold s @ map (Pair t) xs\<rparr>, Inr (200, None))"
  by (simp_all add: ref_do_def enforcer_payload_def destroy_payload_def move_payload_def field_def ref_set_def Let_def)

lemma map_of_filter_keys: "map_of (filter (\<lambda>(k, _). P k) xs) k = (if P k then map_of xs k else None)"
  by (induction xs) auto

interpretation reference: jmap_server ref_enforcer ref_mail ref_cold
proof
  fix s t
  show "finite (ref_mail s t)" "inj_on em_id (ref_mail s t)" by (rule ref_mail_ids)+
  fix url h s' 
  show "ref_mail s' = ref_mail s \<and> ref_cold s' = ref_cold s" if "je_do ref_enforcer url h (enforcer_payload ''Email/query'' args) s = (s', r)" for args r
    using that by (simp add: ref_enforcer_def ref_do_payloads)
  show "is_page (eligible (ref_mail s t) (as_string (field f ''inMailbox'')) before) n xs"
    if D: "je_do ref_enforcer url h (enforcer_payload ''Email/query'' args) s = (s', Inr (st, Some resp))" "jmapMethodArgs resp ''Email/query'' ''c1'' = Inr a" "decode_ids a = Some xs"
      "field args ''accountId'' = JString t" "field args ''filter'' = JObject f" "field f ''before'' = JString iso" "parse_rfc3339 iso = Some before"
      "field args ''limit'' = JNumber (dec_nat n)" for args st resp a xs f iso before n
  proof -
    have xs: "xs = take n (ref_matching s t f)"
      using D by (auto simp: ref_enforcer_def ref_do_payloads ref_query_def field_def [of "[_]"] parse_digits_dec_nat)
    let ?E = "eligible (ref_mail s t) (as_string (field f ''inMailbox'')) before"
    note L = ref_matching_ids [OF D(6,7), of s t]
    have "inj_on em_id ?E" by (rule inj_on_subset [OF ref_mail_ids(2) eligible_subset])
    then have "length (ref_matching s t f) = card ?E" using L by (metis card_image distinct_card)
    then show ?thesis using L set_take_subset [of n "ref_matching s t f"] by (auto simp: is_page_def xs)
  qed
  fix xs r
  have set: "ref_cold s' = ref_cold s \<and> ref_mail s' = removed (ref_mail s) t (set xs)" if "je_do ref_enforcer url h (destroy_payload t xs) s = (s', r)" for r
  proof -
    have s': "s' = s\<lparr>rf_mail := filter (\<lambda>(k, _). case k of (a, i) \<Rightarrow> a = t \<longrightarrow> i \<notin> set xs) (rf_mail s)\<rparr>"
      using that ref_do_payloads(2) [of url h t xs s] by (simp add: ref_enforcer_def split_def)
    show ?thesis unfolding s' by (auto simp: ref_cold_def ref_mail_def removed_def fun_eq_iff map_of_filter_keys [of "\<lambda>k. case k of (a, i) \<Rightarrow> a = t \<longrightarrow> i \<notin> set xs"])
  qed
  show "ref_cold s' = ref_cold s \<and> (\<exists>gone \<subseteq> set xs. ref_mail s' = removed (ref_mail s) t gone)" if "je_do ref_enforcer url h (destroy_payload t xs) s = (s', r)"
    using set [OF that] by blast
  show "\<exists>er. (x, er) \<in> set (as_object (field (as_object a) ''notDestroyed'')) \<and> as_string (field (as_object er) ''type'') \<noteq> ''notFound''"
    if "je_do ref_enforcer url h (destroy_payload t xs) s = (s', Inr (st, Some resp))" "x \<in> set xs" "x \<in> em_id ` ref_mail s' t" for st resp a x
    using set [OF that(1)] that(2,3) by auto
  show "ref_mail s' = ref_mail s \<and> (\<forall>u. ref_cold s u \<subseteq> ref_cold s' u) \<and> (\<forall>st d. r = Inr (st, d) \<and> st < 300 \<longrightarrow> set xs \<subseteq> ref_cold s' t)"
    if "je_do ref_enforcer url h (move_payload t xs) s = (s', r)"
    using that by (auto simp: ref_enforcer_def ref_do_payloads ref_mail_def ref_cold_def fun_eq_iff)
qed

subsection \<open>What a pass of the worker may delete\<close>

text \<open>
  C35: with a Stalwart and an object store that keep the contract \<open>jmap_server\<close> (a query answers only with mails that match its filter, an
  accepted removal or move does just that; every call may also fail) and with every retention time within 106751 days, beyond which the
  code computes another date and deletes what is not due, one tick of the retention worker with the production operator adds no mail,
  whichever policies, tenants and statements fail. A mail that it removes belongs to an active tenant with an enabled policy under which
  the mail is due: received before the retention time of the policy, in the mailbox the policy is scoped to; under an archive policy its
  object was moved to the cold tier first. In a dry run nothing is removed.
\<close>

theorem retention_tick_only_due:
  assumes "jmap_server j mail cold" and "wk_engine w = None" and "wk_op w = Some (enforcer_ops j)" and "retention_tick uuid env w S = (w', S', er)"
    and "\<forall>p \<in> set (rs_policies S). py_RetentionDays p \<le> maxDays \<and> (\<forall>t. wire_date (cutoff_of (rn_cut (te_run env t (py_ID p))) (py_RetentionDays p)))"
  shows "mail (rs_mail S') u \<subseteq> mail (rs_mail S) u
    \<and> (\<forall>m \<in> mail (rs_mail S) u - mail (rs_mail S') u. \<not> wk_dryRun w \<and> (u, ''active'') \<in> set (rs_tenants S)
        \<and> (\<exists>p \<in> set (rs_policies S). py_Enabled p \<and> uuid u = Some (py_TenantID p) \<and> due_under (rn_cut (te_run env u (py_ID p))) p m
             \<and> (py_PolicyType p = ''archive'' \<longrightarrow> em_id m \<in> cold (rs_mail S') u)))"
  using email_store.tick_removes [OF jmap_server.operator_store [OF assms(1)] assms(2-5)] .

text \<open>Two tenants with a delete policy of a mailbox and an archive policy, at the first of January 2026.\<close>

abbreviation ex_now :: time where "ex_now \<equiv> 1767225600 * nanos_per_s"

definition ex_policy :: "string \<Rightarrow> string \<Rightarrow> string \<Rightarrow> int \<Rightarrow> string \<Rightarrow> string \<Rightarrow> Policy" where
  "ex_policy i t ty days scope ref = \<lparr>py_ID = i, py_TenantID = t, py_PolicyType = ty, py_RetentionDays = days, py_AppliesTo = scope, py_TargetRef = ref,
     py_Enabled = True, py_CreatedAt = 0, py_UpdatedAt = 0\<rparr>"

definition ex_run :: run_env where
  "ex_run = \<lparr>rn_start = ex_now, rn_cut = ex_now, rn_done = ex_now, rn_open_fault = None, rn_id = ''r1'', rn_opened = ex_now, rn_close_fault = None, rn_closed = ex_now\<rparr>"

definition ex_tick :: tick_env where
  "ex_tick = \<lparr>te_tenants = None, te_list = (\<lambda>_. None), te_now = (\<lambda>_. ex_now), te_run = (\<lambda>t i. ex_run\<lparr>rn_id := i\<rparr>)\<rparr>"

definition ex_mail :: ref_state where
  "ex_mail = \<lparr>rf_mail = [((''a'', ''m1''), [''inbox''], ex_now - 400 * nanos_per_day), ((''a'', ''m2''), [''inbox''], ex_now - nanos_per_day),
     ((''a'', ''m3''), [''sent''], ex_now - 400 * nanos_per_day), ((''b'', ''m1''), [''inbox''], ex_now - 40 * nanos_per_day)], rf_cold = []\<rparr>"

definition ex_state :: "Policy list \<Rightarrow> ref_state retention_state" where
  "ex_state ps = \<lparr>rs_tenants = [(''a'', ''active''), (''b'', ''active'')], rs_policies = ps, rs_log = [], rs_audit = [], rs_deleted_total = 0, rs_archived_total = 0, rs_mail = ex_mail\<rparr>"

abbreviation ex_policies :: "Policy list" where
  "ex_policies \<equiv> [ex_policy ''p1'' ''a'' ''delete'' 365 ''mailbox'' ''inbox'', ex_policy ''p2'' ''b'' ''archive'' 30 ''all'' []]"

definition ex_worker :: "ref_state retention_worker" where
  "ex_worker = NewWorker\<lparr>wk_op := Some (enforcer_ops ref_enforcer), wk_dryRun := False\<rparr>"

abbreviation ex_result :: "ref_state retention_worker \<times> ref_state retention_state \<times> string option" where
  "ex_result \<equiv> retention_tick Some ex_tick ex_worker (ex_state ex_policies)"

lemma ex_result_mail:
  "rs_mail (fst (snd ex_result)) = \<lparr>rf_mail = [((''a'', ''m2''), [''inbox''], ex_now - nanos_per_day), ((''a'', ''m3''), [''sent''], ex_now - 400 * nanos_per_day)],
     rf_cold = [(''b'', ''m1'')]\<rparr>"
  by code_simp

lemma ex_wire: "wire_date (cutoff_of ex_now 365)" "wire_date (cutoff_of ex_now 30)"
  by code_simp+

abbreviation ex_m1 :: email where "ex_m1 \<equiv> \<lparr>em_id = ''m1'', em_mailboxes = [''inbox''], em_received = ex_now - 400 * nanos_per_day\<rparr>"

theorem retention_tick_only_due_witness:
  "ex_m1 \<in> ref_mail ex_mail ''a'' \<and> ex_m1 \<notin> ref_mail (rs_mail (fst (snd ex_result))) ''a'' \<and> \<not> wk_dryRun ex_worker
   \<and> (\<exists>p. p \<in> set ex_policies \<and> py_TenantID p = ''a'' \<and> due_under ex_now p ex_m1)"
proof -
  have T: "retention_tick Some ex_tick ex_worker (ex_state ex_policies) = (fst ex_result, fst (snd ex_result), snd (snd ex_result))" by simp
  have w: "wk_engine ex_worker = None" "wk_op ex_worker = Some (enforcer_ops ref_enforcer)" by (simp_all add: ex_worker_def NewWorker_def)
  have p: "\<forall>p \<in> set (rs_policies (ex_state ex_policies)). py_RetentionDays p \<le> maxDays
      \<and> (\<forall>t. wire_date (cutoff_of (rn_cut (te_run ex_tick t (py_ID p))) (py_RetentionDays p)))"
    using ex_wire by (simp add: ex_state_def ex_policy_def ex_tick_def ex_run_def)
  have m: "rs_mail (ex_state ex_policies) = ex_mail" "rs_policies (ex_state ex_policies) = ex_policies" by (simp_all add: ex_state_def)
  have l: "ex_m1 \<in> ref_mail ex_mail ''a''" "ex_m1 \<notin> ref_mail (rs_mail (fst (snd ex_result))) ''a''"
    unfolding ex_result_mail by (simp_all add: ref_mail_def ex_mail_def)
  note r = retention_tick_only_due [OF reference.jmap_server_axioms w T p, of "''a''", unfolded m]
  from r l have "\<not> wk_dryRun ex_worker \<and> (\<exists>p \<in> set ex_policies. Some ''a'' = Some (py_TenantID p) \<and> due_under (rn_cut (te_run ex_tick ''a'' (py_ID p))) p ex_m1)"
    by blast
  with l show ?thesis by (auto simp: ex_tick_def ex_run_def)
qed

subsection \<open>What a sweep achieves\<close>

text \<open>
  C36: a live run of the production operator for a policy with a scope, on up to 2499500 mails that are due, ends in one of two ways. Without an error no
  mail is due any more, and the deleted and archived counts add up to exactly the mails that left. With an error the counts are no more than what left,
  and the error is a failure that the operator reported or an unsupported policy: the guards against a loop without progress and against more than 5000
  pages do not fire.
\<close>

theorem retention_sweep_result:
  assumes "jmap_server j mail cold" and "EnforcePolicy uuid en env t p S = (S', run, er)"
    and "en_op en = Some (enforcer_ops j)" and "en_cold en = eo_cold (enforcer_ops j)" and "trim_space t \<noteq> []"
    and "scopeMailbox p = Inr mb" and "0 < py_RetentionDays p" and "wire_date (cutoff_of (rn_cut env) (py_RetentionDays p))" and "\<not> en_dryRun en"
    and "card (eligible (mail (rs_mail S) t) mb (whole_second (cutoff_of (rn_cut env) (py_RetentionDays p)))) \<le> 2499500"
  shows "\<exists>r. run = Some r \<and> counted r \<le> int (card (mail (rs_mail S) t - mail (rs_mail S') t))
    \<and> (case er of None \<Rightarrow> eligible (mail (rs_mail S') t) mb (whole_second (cutoff_of (rn_cut env) (py_RetentionDays p))) = {}
          \<and> counted r = int (card (mail (rs_mail S) t - mail (rs_mail S') t))
        | Some x \<Rightarrow> \<not> guard_error x)"
  using email_store.sweep_result [OF jmap_server.operator_store [OF assms(1)] assms(2-10)] .

definition ex_enforcer :: "ref_state Enforcer" where
  "ex_enforcer = \<lparr>en_op = Some (enforcer_ops ref_enforcer), en_cold = eo_cold (enforcer_ops ref_enforcer), en_metrics = True, en_dryRun = False\<rparr>"

abbreviation ex_sweep :: "ref_state retention_state \<times> EnforcementRun option \<times> string option" where
  "ex_sweep \<equiv> EnforcePolicy Some ex_enforcer ex_run ''a'' (ex_policy ''p1'' ''a'' ''delete'' 365 ''all'' []) (ex_state ex_policies)"

lemma ex_sweep_ends: "snd (snd ex_sweep) = None"
  by code_simp

theorem retention_sweep_result_witness:
  "\<exists>r. fst (snd ex_sweep) = Some r \<and> counted r = int (card (ref_mail ex_mail ''a'' - ref_mail (rs_mail (fst ex_sweep)) ''a''))
     \<and> eligible (ref_mail (rs_mail (fst ex_sweep)) ''a'') [] (whole_second (cutoff_of ex_now 365)) = {}"
proof -
  let ?p = "ex_policy ''p1'' ''a'' ''delete'' 365 ''all'' []"
  have E: "EnforcePolicy Some ex_enforcer ex_run ''a'' ?p (ex_state ex_policies) = (fst ex_sweep, fst (snd ex_sweep), None)"
    using ex_sweep_ends by (simp add: prod_eq_iff)
  have e: "en_op ex_enforcer = Some (enforcer_ops ref_enforcer)" "en_cold ex_enforcer = eo_cold (enforcer_ops ref_enforcer)" "trim_space ''a'' \<noteq> []"
    "scopeMailbox ?p = Inr []" "0 < py_RetentionDays ?p" "wire_date (cutoff_of (rn_cut ex_run) (py_RetentionDays ?p))" "\<not> en_dryRun ex_enforcer"
    using ex_wire by (simp_all add: ex_enforcer_def scopeMailbox_def ex_policy_def ex_run_def trim_space_def is_space_def)
  have "em_id ` ref_mail ex_mail ''a'' \<subseteq> {''m1'', ''m2'', ''m3''}" by (auto simp: ref_mail_def ex_mail_def split: if_splits)
  then have "card (em_id ` ref_mail ex_mail ''a'') \<le> card {''m1'', ''m2'', ''m3''}" by (intro card_mono) simp_all
  then have "card (ref_mail ex_mail ''a'') \<le> 3" by (simp add: card_image [OF ref_mail_ids(2)])
  moreover have "card (eligible (ref_mail ex_mail ''a'') [] c) \<le> card (ref_mail ex_mail ''a'')" for c by (intro card_mono ref_mail_ids(1) eligible_subset)
  ultimately have f: "card (eligible (ref_mail (rs_mail (ex_state ex_policies)) ''a'') [] (whole_second (cutoff_of (rn_cut ex_run) (py_RetentionDays ?p)))) \<le> 2499500"
    by (simp add: ex_state_def) (meson le_trans numeral_le_iff order.trans semiring_norm)
  have k: "rn_cut ex_run = ex_now" "py_RetentionDays ?p = 365" "rs_mail (ex_state ex_policies) = ex_mail" by (simp_all add: ex_run_def ex_policy_def ex_state_def)
  show ?thesis using retention_sweep_result [OF reference.jmap_server_axioms E e f] unfolding k option.case by blast
qed

subsection \<open>Refused policies\<close>

text \<open>
  C37: every policy that reaches the enforcer for a named tenant leaves its trace. A run record comes back whatever happens, and exactly one entry is handed to
  the audit log, for this tenant and policy, with the counts of the record and the error. A policy for labels, for a mailbox without a name, with an unknown scope
  or with a retention time of no days or fewer touches no mail and ends in an error with nothing counted, whatever the operator would do.
\<close>

theorem retention_refusals:
  assumes "EnforcePolicy uuid en env t p S = (S', run, er)" and "en_op en = Some op" and "trim_space t \<noteq> []"
  shows "\<exists>r x. run = Some r \<and> rs_audit S' = rs_audit S @ [x] \<and> e_TenantID x = t \<and> e_ResourceID x = py_ID p \<and> e_Metadata x = run_metadata en p r er
    \<and> er_Error r = (case er of Some y \<Rightarrow> y | None \<Rightarrow> [])
    \<and> (isl (scopeMailbox p) \<or> py_RetentionDays p \<le> 0 \<longrightarrow> rs_mail S' = rs_mail S \<and> er \<noteq> None \<and> counted r = 0)"
proof -
  obtain run0 s1 where r0: "counted run0 = 0" "er_Error run0 = []" and s1: "rs_mail s1 = rs_mail S" "rs_audit s1 = rs_audit S"
    and c: "(\<exists>x. (scopeMailbox p = Inl x \<or> py_RetentionDays p \<le> 0) \<and> complete uuid en env t p run0 (Some x) s1 = (S', run, er))
      \<or> (\<exists>mb m run1. scopeMailbox p = Inr mb \<and> 0 < py_RetentionDays p
          \<and> sweep en op t (py_PolicyType p) mb (cutoff_of (rn_cut env) (py_RetentionDays p)) maxPages [] run0 (rs_mail S) = (m, run1, er)
          \<and> complete uuid en env t p run1 er (s1\<lparr>rs_mail := m\<rparr>) = (S', run, er))"
    using enforce_cases [OF assms] by blast
  from c show ?thesis
  proof
    assume "\<exists>x. (scopeMailbox p = Inl x \<or> py_RetentionDays p \<le> 0) \<and> complete uuid en env t p run0 (Some x) s1 = (S', run, er)"
    then obtain x where C: "complete uuid en env t p run0 (Some x) s1 = (S', run, er)" by blast
    from complete_parts(1,4,5) [OF C] r0 s1 show ?thesis by auto
  next
    assume "\<exists>mb m run1. scopeMailbox p = Inr mb \<and> 0 < py_RetentionDays p
          \<and> sweep en op t (py_PolicyType p) mb (cutoff_of (rn_cut env) (py_RetentionDays p)) maxPages [] run0 (rs_mail S) = (m, run1, er)
          \<and> complete uuid en env t p run1 er (s1\<lparr>rs_mail := m\<rparr>) = (S', run, er)"
    then obtain mb m run1 where n: "scopeMailbox p = Inr mb" "0 < py_RetentionDays p"
      and sw: "sweep en op t (py_PolicyType p) mb (cutoff_of (rn_cut env) (py_RetentionDays p)) maxPages [] run0 (rs_mail S) = (m, run1, er)"
      and C: "complete uuid en env t p run1 er (s1\<lparr>rs_mail := m\<rparr>) = (S', run, er)" by blast
    have "er_Error run1 = []" using sweep_keeps_error [OF sw] r0(2) by simp
    with complete_parts(5) [OF C] s1 n show ?thesis by (auto split: option.splits)
  qed
qed

theorem retention_refusals_witness:
  "\<exists>S' r er. EnforcePolicy Some ex_enforcer ex_run ''a'' (ex_policy ''p1'' ''a'' ''delete'' 365 ''label'' ''work'') (ex_state ex_policies) = (S', Some r, Some er)
     \<and> rs_mail S' = ex_mail \<and> length (rs_audit S') = 1 \<and> counted r = 0"
proof -
  let ?p = "ex_policy ''p1'' ''a'' ''delete'' 365 ''label'' ''work''"
  obtain S' run er where E: "EnforcePolicy Some ex_enforcer ex_run ''a'' ?p (ex_state ex_policies) = (S', run, er)" by (metis prod_cases3)
  have e: "en_op ex_enforcer = Some (enforcer_ops ref_enforcer)" "trim_space ''a'' \<noteq> []" by (simp_all add: ex_enforcer_def trim_space_def is_space_def)
  have "isl (scopeMailbox ?p)" "rs_mail (ex_state ex_policies) = ex_mail" "rs_audit (ex_state ex_policies) = []"
    by (simp_all add: scopeMailbox_def ex_policy_def ex_state_def)
  with retention_refusals [OF E e] E show ?thesis by auto
qed

subsection \<open>The longest retention\<close>

text \<open>
  Beyond 292 years the duration wraps: a policy that the service accepts and the database stores, meant to keep mail practically for ever, has its cutoff in the
  future: a sweep that reports no error leaves no mail received up to now.
\<close>

lemma cutoff_overflow: "cutoff_of now 106752 = now + 9223371273709551616"
  by (simp add: cutoff_of_def int64_def)

lemma retention_days_overflow:
  assumes "jmap_server j mail cold" and "EnforcePolicy uuid en env t p S = (S', run, None)"
    and "en_op en = Some (enforcer_ops j)" and "en_cold en = eo_cold (enforcer_ops j)" and "trim_space t \<noteq> []" and "\<not> en_dryRun en"
    and p: "p = ex_policy i t ''delete'' 106752 ''all'' []" and "wire_date (cutoff_of (rn_cut env) 106752)" and "card (mail (rs_mail S) t) \<le> 2499500"
    and "m \<in> mail (rs_mail S') t"
  shows "t \<noteq> [] \<Longrightarrow> validatePolicy p = None" and "fits_int4 (py_RetentionDays p)" and "rn_cut env < em_received m"
proof -
  show "validatePolicy p = None" if "t \<noteq> []" using that by (simp add: p ex_policy_def validatePolicy_def)
  show "fits_int4 (py_RetentionDays p)" by (simp add: p ex_policy_def fits_int4_def)
  note st = jmap_server.operator_store [OF assms(1)]
  have d: "py_RetentionDays p = 106752" "scopeMailbox p = Inr []" "0 < py_RetentionDays p" by (simp_all add: p ex_policy_def scopeMailbox_def)
  have "card (eligible (mail (rs_mail S) t) [] c) \<le> 2499500" for c
    using card_mono [OF email_store.mail_ids(1) [OF st] eligible_subset] assms(9) by (rule order.trans)
  then have "eligible (mail (rs_mail S') t) [] (whole_second (cutoff_of (rn_cut env) 106752)) = {}"
    using email_store.sweep_result [OF st assms(2-5) d(2,3) _ assms(6)] assms(8) d(1) by auto
  then have "\<not> em_received m < whole_second (cutoff_of (rn_cut env) 106752)" using assms(10) by (auto simp: eligible_def)
  moreover have "cutoff_of (rn_cut env) 106752 - nanos_per_s < whole_second (cutoff_of (rn_cut env) 106752)"
    using div_bounds [of nanos_per_s "cutoff_of (rn_cut env) 106752"] by (simp add: whole_second_def unix_sec_def mult.commute)
  ultimately show "rn_cut env < em_received m" by (simp add: cutoff_overflow)
qed

text \<open>An update of a policy that does not exist is answered with the policy.\<close>

lemma update_missing_policy:
  "update_policy Some None 0 ''a'' ''p9'' (Some (ex_policy [] [] ''delete'' 30 ''all'' [])) (ex_state [])
   = (ex_state [], 200, RetentionPolicy (ex_policy ''p9'' ''a'' ''delete'' 30 ''all'' []))"
  by (simp add: update_policy_def UpdatePolicy_def validatePolicy_def ex_policy_def ex_state_def fits_int4_def)

end
