(* ===== verification/Confidential.thy ===== *)
theory Confidential
  imports Calendar Encoding Valkey
begin

text \<open>
  Confidential send (\<^verbatim>\<open>internal/confidentialsend\<close>): links to encrypted messages (\<^verbatim>\<open>service.go\<close>), the client of the key service
  (\<^verbatim>\<open>mls.go\<close>) and the HTTP surface with the public portal and its attempt counter (\<^verbatim>\<open>handlers.go\<close>).

  The table is the list of its rows. bcrypt, the random token, the exchange with the key service, the cast to \<^verbatim>\<open>uuid\<close>, clocks, generated ids
  and statement faults are arguments. The pool is configured. A decoded body is \<open>None\<close> where it does not decode.
\<close>

record SecureMessage =
  sm_ID :: string
  sm_TenantID :: string
  sm_SenderID :: string
  sm_LinkToken :: string
  sm_EncryptedBlobRef :: string
  sm_HasPassword :: bool
  sm_ExpiresAt :: time
  sm_MaxViews :: int
  sm_ViewCount :: int
  sm_Revoked :: bool
  sm_CreatedAt :: time
  sm_MLSWrapped :: bool
  sm_MLSWrappingKey :: string
  sm_MLSEpoch :: int

text \<open>A row of \<^verbatim>\<open>confidential_send_links\<close>.\<close>

record link_row =
  lk_id :: string
  lk_tenant :: string
  lk_sender :: string
  lk_token :: string
  lk_blob :: string
  lk_password_hash :: string
  lk_expires_at :: time
  lk_max_views :: int
  lk_view_count :: int
  lk_revoked :: bool
  lk_created_at :: time
  lk_mls_key :: string
  lk_mls_leaf :: string
  lk_mls_participants :: "string list"
  lk_mls_epoch :: int

record CreateLinkRequest =
  cq_TenantID :: string
  cq_SenderID :: string
  cq_EncryptedBlobRef :: string
  cq_Password :: string
  cq_ExpiresIn :: duration
  cq_MaxViews :: int
  cq_SenderLeafKey :: string
  cq_Recipients :: "string list"

datatype cs_error =
    MissingField string | InvalidField string | MLSPartialRequest | MLSDisabled | MLSDeriveFailed string | MLSRekeyFailed string | InvalidRekeyRequest
  | LinkExpired | LinkRevoked | ViewsExceeded | InvalidPassword | LinkNotFound | KeyService string | CsDb string

subsection \<open>The key service\<close>

text \<open>\<open>kd_post\<close> sends a body to a path: an error, or the status with the field \<^verbatim>\<open>wrapping_key\<close> of the decoded answer.\<close>

record HTTPKeyDeriver =
  kd_Endpoint :: string
  kd_post :: "string \<Rightarrow> string list \<Rightarrow> string + int \<times> string option"

definition Enabled :: "HTTPKeyDeriver \<Rightarrow> bool" where
  "Enabled d \<longleftrightarrow> trim_space (kd_Endpoint d) \<noteq> []"

definition kd_answer :: "HTTPKeyDeriver \<Rightarrow> string \<Rightarrow> string list \<Rightarrow> cs_error + string" where
  "kd_answer d path args =
     (case kd_post d (kd_Endpoint d @ path) args of
        Inl e \<Rightarrow> Inl (KeyService e)
      | Inr (st, key) \<Rightarrow>
          if st \<noteq> 200 then Inl (KeyService (''confidentialsend: MLS endpoint returned '' @ itoa st))
          else (case key of None \<Rightarrow> Inl (KeyService ''json'') | Some k \<Rightarrow>
            if k = [] then Inl (KeyService ''confidentialsend: empty wrapping_key in MLS response'') else Inr k))"

definition DeriveWrappingKey :: "HTTPKeyDeriver \<Rightarrow> string \<Rightarrow> string \<Rightarrow> cs_error + string" where
  "DeriveWrappingKey d senderLeafKey recipientCredential =
     (if \<not> Enabled d then Inl MLSDisabled
      else if senderLeafKey = [] \<or> recipientCredential = [] then Inl (KeyService ''confidentialsend: senderLeafKey + recipientCredential required'')
      else kd_answer d ''/mls/wrap'' [senderLeafKey, recipientCredential])"

definition RekeyMessage :: "HTTPKeyDeriver \<Rightarrow> string \<Rightarrow> string list \<Rightarrow> cs_error + string" where
  "RekeyMessage d messageID newParticipants =
     (if \<not> Enabled d then Inl MLSDisabled
      else if messageID = [] then Inl (KeyService ''confidentialsend: messageID required'')
      else kd_answer d ''/mls/rekey'' (messageID # newParticipants))"

subsection \<open>Service\<close>

record cs_env =
  ce_uuid :: "string \<Rightarrow> string option"
  ce_tenant :: "string \<Rightarrow> bool"
  ce_bcrypt :: "string \<Rightarrow> string option"
  ce_bcrypt_ok :: "string \<Rightarrow> string \<Rightarrow> bool"
  ce_mls :: "HTTPKeyDeriver option"

definition MLSEnabled :: "cs_env \<Rightarrow> bool" where
  "MLSEnabled env \<longleftrightarrow> (case ce_mls env of None \<Rightarrow> False | Some d \<Rightarrow> Enabled d)"

definition DeriveMLSWrappingKey :: "cs_env \<Rightarrow> string \<Rightarrow> string \<Rightarrow> cs_error + string" where
  "DeriveMLSWrappingKey env leaf credential =
     (case ce_mls env of Some d \<Rightarrow> if Enabled d then DeriveWrappingKey d leaf credential else Inl MLSDisabled | None \<Rightarrow> Inl MLSDisabled)"

definition resolveCreateWrapping :: "cs_env \<Rightarrow> CreateLinkRequest \<Rightarrow> cs_error + (string \<times> string \<times> string list) option" where
  "resolveCreateWrapping env req =
     (let hasLeaf = (trim_space (cq_SenderLeafKey req) \<noteq> []); hasRecipients = (cq_Recipients req \<noteq> []) in
      if \<not> hasLeaf \<and> \<not> hasRecipients then Inr None
      else if hasLeaf \<noteq> hasRecipients then Inl MLSPartialRequest
      else case ce_mls env of
          None \<Rightarrow> Inl MLSDisabled
        | Some d \<Rightarrow>
            if \<not> Enabled d then Inl MLSDisabled
            else (case DeriveWrappingKey d (cq_SenderLeafKey req) (hd (cq_Recipients req)) of
                    Inl (KeyService e) \<Rightarrow> Inl (MLSDeriveFailed e)
                  | Inl e \<Rightarrow> Inl e
                  | Inr key \<Rightarrow> Inr (Some (key, cq_SenderLeafKey req, cq_Recipients req))))"

text \<open>The answer to a create carries the wrapping key, the one of the portal never does.\<close>

definition message_of :: "link_row \<Rightarrow> SecureMessage" where
  "message_of r = \<lparr>sm_ID = lk_id r, sm_TenantID = lk_tenant r, sm_SenderID = lk_sender r, sm_LinkToken = lk_token r, sm_EncryptedBlobRef = lk_blob r,
     sm_HasPassword = (lk_password_hash r \<noteq> []), sm_ExpiresAt = lk_expires_at r, sm_MaxViews = lk_max_views r, sm_ViewCount = lk_view_count r,
     sm_Revoked = lk_revoked r, sm_CreatedAt = lk_created_at r, sm_MLSWrapped = (lk_mls_key r \<noteq> []), sm_MLSWrappingKey = lk_mls_key r, sm_MLSEpoch = lk_mls_epoch r\<rparr>"

text \<open>\<open>rnd\<close> are 32 random bytes, \<open>None\<close> where the source fails.\<close>

definition newToken :: "byte list option \<Rightarrow> string option" where
  "newToken rnd = map_option rawurl_encode rnd"

definition CreateSecureMessage :: "cs_env \<Rightarrow> string option \<Rightarrow> byte list option \<Rightarrow> string \<Rightarrow> time \<Rightarrow> time \<Rightarrow> CreateLinkRequest \<Rightarrow> link_row list
    \<Rightarrow> link_row list \<times> (cs_error + SecureMessage)" where
  "CreateSecureMessage env fault rnd nid dbnow now req rows =
     (if trim_space (cq_TenantID req) = [] then (rows, Inl (MissingField ''tenant_id''))
      else if trim_space (cq_SenderID req) = [] then (rows, Inl (MissingField ''sender_id''))
      else if trim_space (cq_EncryptedBlobRef req) = [] then (rows, Inl (MissingField ''encrypted_blob_ref''))
      else let expiresIn = (if cq_ExpiresIn req \<le> 0 then 24 * nanos_per_hour else cq_ExpiresIn req) in
        if expiresIn > 30 * 24 * nanos_per_hour then (rows, Inl (InvalidField ''expires_in cannot exceed 30 days''))
        else if cq_MaxViews req < 0 then (rows, Inl (InvalidField ''max_views must be >= 0 (0 = unlimited)''))
        else case resolveCreateWrapping env req of
            Inl e \<Rightarrow> (rows, Inl e)
          | Inr wrap \<Rightarrow>
              (case newToken rnd of
                 None \<Rightarrow> (rows, Inl (CsDb ''rand''))
               | Some token \<Rightarrow>
                   (case (if cq_Password req = [] then Some [] else ce_bcrypt env (cq_Password req)) of
                      None \<Rightarrow> (rows, Inl (CsDb ''hash password''))
                    | Some hash \<Rightarrow>
                        (case (fault, ce_uuid env (cq_TenantID req)) of
                           (None, Some tid) \<Rightarrow>
                             if \<not> ce_tenant env tid \<or> \<not> fits_int4 (cq_MaxViews req) \<or> nid \<in> lk_id ` set rows \<or> token \<in> lk_token ` set rows
                             then (rows, Inl (CsDb ''create secure message''))
                             else let (key, leaf, participants) = (case wrap of None \<Rightarrow> ([], [], []) | Some w \<Rightarrow> w);
                                      r = \<lparr>lk_id = nid, lk_tenant = tid, lk_sender = cq_SenderID req, lk_token = token, lk_blob = cq_EncryptedBlobRef req,
                                           lk_password_hash = hash, lk_expires_at = now + expiresIn, lk_max_views = cq_MaxViews req, lk_view_count = 0,
                                           lk_revoked = False, lk_created_at = dbnow, lk_mls_key = key, lk_mls_leaf = leaf, lk_mls_participants = participants,
                                           lk_mls_epoch = 0\<rparr>
                                  in (rows @ [r], Inr (message_of r))
                         | _ \<Rightarrow> (rows, Inl (CsDb ''create secure message''))))))"

definition RekeyConfidentialMessage :: "cs_env \<Rightarrow> string option \<Rightarrow> string \<Rightarrow> string \<Rightarrow> string list \<Rightarrow> link_row list \<Rightarrow> link_row list \<times> (cs_error + string)" where
  "RekeyConfidentialMessage env fault tenantID linkID newParticipants rows =
     (case ce_mls env of
        None \<Rightarrow> (rows, Inl MLSDisabled)
      | Some d \<Rightarrow>
          if \<not> Enabled d then (rows, Inl MLSDisabled)
          else if trim_space tenantID = [] \<or> trim_space linkID = [] \<or> newParticipants = [] then (rows, Inl InvalidRekeyRequest)
          else case RekeyMessage d linkID newParticipants of
              Inl (KeyService e) \<Rightarrow> (rows, Inl (MLSRekeyFailed e))
            | Inl e \<Rightarrow> (rows, Inl e)
            | Inr key \<Rightarrow>
                (case (fault, ce_uuid env tenantID, ce_uuid env linkID) of
                   (None, Some tid, Some lid) \<Rightarrow>
                     let P = (\<lambda>r. lk_tenant r = tid \<and> lk_id r = lid \<and> lk_mls_leaf r \<noteq> []) in
                     if list_ex P rows
                     then (map (\<lambda>r. if P r then r\<lparr>lk_mls_key := key, lk_mls_participants := newParticipants, lk_mls_epoch := lk_mls_epoch r + 1\<rparr> else r) rows, Inr key)
                     else (rows, Inl LinkNotFound)
                 | _ \<Rightarrow> (rows, Inl (CsDb ''rekey''))))"

text \<open>One transaction under the row lock.\<close>

definition GetSecureMessage :: "cs_env \<Rightarrow> string option \<Rightarrow> time \<Rightarrow> string \<Rightarrow> string \<Rightarrow> link_row list \<Rightarrow> link_row list \<times> (cs_error + SecureMessage)" where
  "GetSecureMessage env fault now token password rows =
     (if trim_space token = [] then (rows, Inl LinkNotFound)
      else case fault of
          Some e \<Rightarrow> (rows, Inl (CsDb e))
        | None \<Rightarrow>
            (case find (\<lambda>r. lk_token r = token) rows of
               None \<Rightarrow> (rows, Inl LinkNotFound)
             | Some m \<Rightarrow>
                 if lk_revoked m then (rows, Inl LinkRevoked)
                 else if now > lk_expires_at m then (rows, Inl LinkExpired)
                 else if lk_max_views m > 0 \<and> lk_view_count m \<ge> lk_max_views m then (rows, Inl ViewsExceeded)
                 else if lk_password_hash m \<noteq> [] \<and> \<not> ce_bcrypt_ok env (lk_password_hash m) password then (rows, Inl InvalidPassword)
                 else (map (\<lambda>r. if lk_id r = lk_id m then r\<lparr>lk_view_count := lk_view_count r + 1\<rparr> else r) rows,
                       Inr (message_of (m\<lparr>lk_view_count := lk_view_count m + 1\<rparr>)\<lparr>sm_MLSWrappingKey := []\<rparr>))))"

definition RevokeLink :: "cs_env \<Rightarrow> string option \<Rightarrow> string \<Rightarrow> string \<Rightarrow> link_row list \<Rightarrow> link_row list \<times> cs_error option" where
  "RevokeLink env fault tenantID linkID rows =
     (if tenantID = [] \<or> linkID = [] then (rows, Some (MissingField ''tenantID and linkID required''))
      else case (fault, ce_uuid env tenantID, ce_uuid env linkID) of
          (None, Some tid, Some lid) \<Rightarrow> (map (\<lambda>r. if lk_tenant r = tid \<and> lk_id r = lid then r\<lparr>lk_revoked := True\<rparr> else r) rows, None)
        | _ \<Rightarrow> (rows, Some (CsDb ''revoke'')))"

definition ListSentSecureMessages :: "cs_env \<Rightarrow> string option \<Rightarrow> string \<Rightarrow> string \<Rightarrow> link_row list \<Rightarrow> cs_error + SecureMessage list" where
  "ListSentSecureMessages env fault tenantID senderID rows =
     (if tenantID = [] then Inl (MissingField ''tenantID'')
      else case (fault, ce_uuid env tenantID) of
          (None, Some tid) \<Rightarrow>
            Inr (map (\<lambda>r. message_of r\<lparr>sm_EncryptedBlobRef := [], sm_MLSWrapped := (lk_mls_leaf r \<noteq> []), sm_MLSWrappingKey := []\<rparr>)
              (take 200 (sort_key (\<lambda>r. - lk_created_at r) (filter (\<lambda>r. lk_tenant r = tid \<and> (senderID = [] \<or> lk_sender r = senderID)) rows))))
        | _ \<Rightarrow> Inl (CsDb ''list''))"

subsection \<open>Handlers\<close>

datatype cs_body = SecureBody SecureMessage | SecureList "SecureMessage list" | WrappingKey string | MLSStatus bool | CsFailure cs_error | CsText string | CsNothing

definition attemptWindow :: duration where "attemptWindow = 900 * nanos_per_s"
definition maxAttempts :: int where "maxAttempts = 5"

text \<open>\<^verbatim>\<open>Truncate\<close> counts from the zero time.\<close>

definition attempt_bucket :: "time \<Rightarrow> int" where
  "attempt_bucket now = unix_sec (now - (now + 62135596800 * nanos_per_s) mod attemptWindow)"

definition attempt_key :: "string \<Rightarrow> time \<Rightarrow> string" where
  "attempt_key token now = ''kmail:cs:portal:'' @ token @ '':'' @ itoa (attempt_bucket now)"

text \<open>\<open>down\<close> is a failed command; \<open>t\<close> is the clock of the server. An answer that is not a number is an error of the command.\<close>

definition allowAttempt :: "'v valkey option \<Rightarrow> bool \<Rightarrow> int \<Rightarrow> time \<Rightarrow> string \<Rightarrow> 'v \<Rightarrow> 'v \<times> bool" where
  "allowAttempt valkey down t now token v =
     (case valkey of
        None \<Rightarrow> (v, True)
      | Some c \<Rightarrow>
          if down then (v, True)
          else (case vk_incr c v t (attempt_key token now) of
                  (v1, None) \<Rightarrow> (v1, True)
                | (v1, Some count) \<Rightarrow>
                    (if count = 1 then vk_pexpire c v1 t (attempt_key token now) ((attemptWindow + 5 * nanos_per_s) div nanos_per_ms) else v1, count \<le> maxAttempts)))"

definition portal_status :: "cs_error \<Rightarrow> int" where
  "portal_status e = (case e of LinkNotFound \<Rightarrow> 404 | LinkRevoked \<Rightarrow> 410 | LinkExpired \<Rightarrow> 410 | ViewsExceeded \<Rightarrow> 410 | InvalidPassword \<Rightarrow> 401 | _ \<Rightarrow> 500)"

text \<open>The password of a decoded body is read for \<^verbatim>\<open>POST\<close> only.\<close>

definition sent_password :: "string \<Rightarrow> string option \<Rightarrow> string" where
  "sent_password verb content = (if verb = ''POST'' then (case content of Some p \<Rightarrow> p | None \<Rightarrow> []) else [])"

definition portal :: "cs_env \<Rightarrow> 'v valkey option \<Rightarrow> bool \<Rightarrow> int \<Rightarrow> string option \<Rightarrow> time \<Rightarrow> time \<Rightarrow> string \<Rightarrow> string \<Rightarrow> string option \<Rightarrow> 'v \<Rightarrow> link_row list
    \<Rightarrow> 'v \<times> link_row list \<times> int \<times> cs_body" where
  "portal env valkey down t fault now now2 verb token content v rows =
     (if token = [] then (v, rows, 400, CsText ''token required'')
      else case allowAttempt valkey down t now token v of
          (v1, False) \<Rightarrow> (v1, rows, 429, CsText ''too many attempts; try again later'')
        | (v1, True) \<Rightarrow>
            (case GetSecureMessage env fault now2 token (sent_password verb content) rows of
               (rows1, Inl e) \<Rightarrow> (v1, rows1, portal_status e, CsFailure e)
             | (rows1, Inr m) \<Rightarrow> (v1, rows1, 200, SecureBody m)))"

record create_body =
  cb_SenderID :: string
  cb_EncryptedBlobRef :: string
  cb_Password :: string
  cb_ExpiresInSec :: int
  cb_MaxViews :: int
  cb_SenderLeafKey :: string
  cb_Recipients :: "string list"

definition create_link :: "cs_env \<Rightarrow> string option \<Rightarrow> byte list option \<Rightarrow> string \<Rightarrow> time \<Rightarrow> time \<Rightarrow> string \<Rightarrow> create_body option \<Rightarrow> link_row list
    \<Rightarrow> link_row list \<times> int \<times> cs_body" where
  "create_link env fault rnd nid dbnow now tenantID content rows =
     (case content of
        None \<Rightarrow> (rows, 400, CsText ''json'')
      | Some b \<Rightarrow>
          (case CreateSecureMessage env fault rnd nid dbnow now
              \<lparr>cq_TenantID = tenantID, cq_SenderID = cb_SenderID b, cq_EncryptedBlobRef = cb_EncryptedBlobRef b, cq_Password = cb_Password b,
               cq_ExpiresIn = int64 (cb_ExpiresInSec b * nanos_per_s), cq_MaxViews = cb_MaxViews b, cq_SenderLeafKey = cb_SenderLeafKey b,
               cq_Recipients = cb_Recipients b\<rparr> rows of
             (rows1, Inl MLSDisabled) \<Rightarrow> (rows1, 503, CsFailure MLSDisabled)
           | (rows1, Inl (MLSDeriveFailed e)) \<Rightarrow> (rows1, 502, CsFailure (MLSDeriveFailed e))
           | (rows1, Inl e) \<Rightarrow> (rows1, 400, CsFailure e)
           | (rows1, Inr m) \<Rightarrow> (rows1, 201, SecureBody m)))"

definition list_links :: "cs_env \<Rightarrow> string option \<Rightarrow> string \<Rightarrow> string \<Rightarrow> link_row list \<Rightarrow> int \<times> cs_body" where
  "list_links env fault tenantID senderID rows =
     (case ListSentSecureMessages env fault tenantID senderID rows of Inl e \<Rightarrow> (500, CsFailure e) | Inr ms \<Rightarrow> (200, SecureList ms))"

definition revoke_link :: "cs_env \<Rightarrow> string option \<Rightarrow> string \<Rightarrow> string \<Rightarrow> link_row list \<Rightarrow> link_row list \<times> int \<times> cs_body" where
  "revoke_link env fault tenantID linkID rows =
     (case RevokeLink env fault tenantID linkID rows of (rows1, Some e) \<Rightarrow> (rows1, 500, CsFailure e) | (rows1, None) \<Rightarrow> (rows1, 204, CsNothing))"

definition mlsStatus :: "cs_env \<Rightarrow> int \<times> cs_body" where
  "mlsStatus env = (200, MLSStatus (MLSEnabled env))"

definition mlsWrap :: "cs_env \<Rightarrow> (string \<times> string) option \<Rightarrow> int \<times> cs_body" where
  "mlsWrap env content =
     (case content of
        None \<Rightarrow> (400, CsText ''json'')
      | Some (leaf, credential) \<Rightarrow>
          (case DeriveMLSWrappingKey env leaf credential of
             Inl MLSDisabled \<Rightarrow> (503, CsFailure MLSDisabled)
           | Inl e \<Rightarrow> (502, CsFailure e)
           | Inr key \<Rightarrow> (200, WrappingKey key)))"

definition mlsRekey :: "cs_env \<Rightarrow> string option \<Rightarrow> string \<Rightarrow> string \<Rightarrow> string list option \<Rightarrow> link_row list \<Rightarrow> link_row list \<times> int \<times> cs_body" where
  "mlsRekey env fault tenantID linkID content rows =
     (case content of
        None \<Rightarrow> (rows, 400, CsText ''json'')
      | Some participants \<Rightarrow>
          (case RekeyConfidentialMessage env fault tenantID linkID participants rows of
             (rows1, Inl MLSDisabled) \<Rightarrow> (rows1, 503, CsFailure MLSDisabled)
           | (rows1, Inl InvalidRekeyRequest) \<Rightarrow> (rows1, 400, CsFailure InvalidRekeyRequest)
           | (rows1, Inl LinkNotFound) \<Rightarrow> (rows1, 404, CsFailure LinkNotFound)
           | (rows1, Inl e) \<Rightarrow> (rows1, 502, CsFailure e)
           | (rows1, Inr key) \<Rightarrow> (rows1, 200, WrappingKey key)))"

end
