(* ===== verification/ConfidentialRuns.thy ===== *)
theory ConfidentialRuns
  imports Confidential
begin

text \<open>
  Runs of the confidential-send handlers: how often, until when and with which password a link is served, what a revocation ends, and how many
  attempts the portal evaluates.
\<close>

subsection \<open>Runs\<close>

text \<open>\<open>cw_served\<close> records the answers of the portal that carry a message: the link, the time and the password of the request.\<close>

record 'v cs_world =
  cw_rows :: "link_row list"
  cw_valkey :: 'v
  cw_served :: "(string \<times> time \<times> string) list"

definition served_by :: "time \<Rightarrow> string \<Rightarrow> cs_body \<Rightarrow> (string \<times> time \<times> string) list" where
  "served_by now password b = (case b of SecureBody m \<Rightarrow> [(sm_ID m, now, password)] | _ \<Rightarrow> [])"

inductive cs_step :: "cs_env \<Rightarrow> 'v valkey option \<Rightarrow> 'v cs_world \<Rightarrow> 'v cs_world \<Rightarrow> bool" for env valkey where
  step_create: "create_link env fault rnd nid dbnow now t content (cw_rows w) = (rows, st, b) \<Longrightarrow> cs_step env valkey w (w\<lparr>cw_rows := rows\<rparr>)"
| step_revoke: "revoke_link env fault t i (cw_rows w) = (rows, st, b) \<Longrightarrow> cs_step env valkey w (w\<lparr>cw_rows := rows\<rparr>)"
| step_rekey: "mlsRekey env fault t i parts (cw_rows w) = (rows, st, b) \<Longrightarrow> cs_step env valkey w (w\<lparr>cw_rows := rows\<rparr>)"
| step_portal: "portal env valkey down t fault now now2 verb token content (cw_valkey w) (cw_rows w) = (v, rows, st, b)
    \<Longrightarrow> cs_step env valkey w \<lparr>cw_rows = rows, cw_valkey = v,
        cw_served = cw_served w @ served_by now2 (sent_password verb content) b\<rparr>"

inductive_cases cs_stepE: "cs_step env valkey w w'"

definition views_of :: "string \<Rightarrow> 'v cs_world \<Rightarrow> (string \<times> time \<times> string) list" where
  "views_of i w = filter (\<lambda>x. fst x = i) (cw_served w)"

definition cs_init :: "'v \<Rightarrow> 'v cs_world" where
  "cs_init v = \<lparr>cw_rows = [], cw_valkey = v, cw_served = []\<rparr>"

subsection \<open>What every operation does to a row\<close>

text \<open>The part of a row that no operation changes.\<close>

definition same_link :: "link_row \<Rightarrow> link_row \<Rightarrow> bool" where
  "same_link r r' \<longleftrightarrow> lk_id r' = lk_id r \<and> lk_tenant r' = lk_tenant r \<and> lk_token r' = lk_token r \<and> lk_password_hash r' = lk_password_hash r
     \<and> lk_expires_at r' = lk_expires_at r \<and> lk_max_views r' = lk_max_views r \<and> (lk_revoked r \<longrightarrow> lk_revoked r')"

text \<open>An operation that serves nothing: rows are kept with their views, or a fresh one is added.\<close>

definition unserved :: "link_row list \<Rightarrow> link_row list \<Rightarrow> bool" where
  "unserved rows rows' \<longleftrightarrow> list_all2 (\<lambda>r r'. same_link r r' \<and> lk_view_count r' = lk_view_count r) rows rows'
     \<or> (\<exists>r. rows' = rows @ [r] \<and> lk_view_count r = 0 \<and> 0 \<le> lk_max_views r \<and> lk_id r \<notin> lk_id ` set rows \<and> lk_token r \<notin> lk_token ` set rows)"

lemma same_link_refl [simp]: "same_link r r" by (simp add: same_link_def)

lemma unserved_refl: "unserved rows rows"
  by (simp add: unserved_def list_all2_refl)

lemma unserved_map: "(\<And>r. same_link r (f r) \<and> lk_view_count (f r) = lk_view_count r) \<Longrightarrow> unserved rows (map f rows)"
  by (simp add: unserved_def list_all2_conv_all_nth)

lemma create_unserved: "create_link env fault rnd nid dbnow now t content rows = (rows', st, b) \<Longrightarrow> unserved rows rows'"
proof -
  assume C: "create_link env fault rnd nid dbnow now t content rows = (rows', st, b)"
  have S: "unserved rows (fst (CreateSecureMessage env fault rnd nid dbnow now req rows))" for req
    by (auto simp: CreateSecureMessage_def Let_def unserved_refl split: sum.split option.split prod.split) (auto simp: unserved_def)
  from C S show ?thesis by (auto simp: create_link_def unserved_refl split: option.splits prod.splits sum.splits cs_error.splits) (metis fst_conv)+
qed

lemma revoke_unserved: "revoke_link env fault t i rows = (rows', st, b) \<Longrightarrow> unserved rows rows'"
  by (auto simp: revoke_link_def RevokeLink_def unserved_refl same_link_def split: option.splits prod.splits if_splits intro!: unserved_map)

lemma rekey_unserved: "mlsRekey env fault t i parts rows = (rows', st, b) \<Longrightarrow> unserved rows rows'"
proof -
  assume R: "mlsRekey env fault t i parts rows = (rows', st, b)"
  have S: "unserved rows (fst (RekeyConfidentialMessage env fault t i p rows))" for p
    by (auto simp: RekeyConfidentialMessage_def Let_def unserved_refl same_link_def split: option.split sum.split cs_error.split intro!: unserved_map)
  from R S show ?thesis by (auto simp: mlsRekey_def unserved_refl split: option.splits prod.splits sum.splits cs_error.splits) (metis fst_conv)+
qed

text \<open>The portal serves a link that is open, and counts it.\<close>

definition open_to :: "cs_env \<Rightarrow> time \<Rightarrow> string \<Rightarrow> link_row \<Rightarrow> bool" where
  "open_to env now password r \<longleftrightarrow> \<not> lk_revoked r \<and> now \<le> lk_expires_at r \<and> (0 < lk_max_views r \<longrightarrow> lk_view_count r < lk_max_views r)
     \<and> (lk_password_hash r \<noteq> [] \<longrightarrow> ce_bcrypt_ok env (lk_password_hash r) password)"

definition viewed :: "string \<Rightarrow> link_row list \<Rightarrow> link_row list" where
  "viewed i rows = map (\<lambda>r. if lk_id r = i then r\<lparr>lk_view_count := lk_view_count r + 1\<rparr> else r) rows"

lemma get_cases:
  assumes "GetSecureMessage env fault now token password rows = (rows', res)"
  obtains (refused) e where "rows' = rows" "res = Inl e"
  | (served) r m where "r \<in> set rows" "lk_token r = token" "open_to env now password r" "rows' = viewed (lk_id r) rows" "res = Inr m"
      "sm_ID m = lk_id r" "sm_MLSWrappingKey m = []" "sm_EncryptedBlobRef m = lk_blob r"
proof (cases "find (\<lambda>r. lk_token r = token) rows")
  case None
  then show thesis using assms refused by (auto simp: GetSecureMessage_def split: if_splits option.splits)
next
  case (Some r)
  then have r: "r \<in> set rows" "lk_token r = token" by (auto simp: find_Some_iff)
  show thesis
  proof (cases "trim_space token \<noteq> [] \<and> fault = None \<and> open_to env now password r")
    case True
    define m where "m = message_of (r\<lparr>lk_view_count := lk_view_count r + 1\<rparr>)\<lparr>sm_MLSWrappingKey := []\<rparr>"
    have "rows' = viewed (lk_id r) rows" "res = Inr m"
      using True assms Some by (auto simp: GetSecureMessage_def open_to_def viewed_def m_def split: if_splits)
    moreover have "sm_ID m = lk_id r" "sm_MLSWrappingKey m = []" "sm_EncryptedBlobRef m = lk_blob r" by (simp_all add: m_def message_of_def)
    ultimately show thesis using served [of r m] r True by blast
  next
    case False
    then show thesis using assms r Some refused by (auto simp: GetSecureMessage_def open_to_def split: if_splits option.splits)
  qed
qed

lemma portal_cases:
  assumes "portal env valkey down t fault now now2 verb token content v rows = (v', rows', st, b)"
  obtains (refused) "rows' = rows" "\<And>p. served_by now2 p b = []" "st \<noteq> 200"
  | (served) r m where "r \<in> set rows" "lk_token r = token" "open_to env now2 (sent_password verb content) r"
      "rows' = viewed (lk_id r) rows" "b = SecureBody m" "st = 200" "sm_ID m = lk_id r" "sm_MLSWrappingKey m = []"
proof -
  let ?p = "sent_password verb content"
  obtain v1 ok where A: "allowAttempt valkey down t now token v = (v1, ok)" by (metis surj_pair)
  obtain rows1 res where G: "GetSecureMessage env fault now2 token ?p rows = (rows1, res)" by (metis surj_pair)
  show thesis
  proof (cases "token = [] \<or> \<not> ok")
    case True
    then have "rows' = rows \<and> (\<exists>x. b = CsText x) \<and> st \<noteq> 200" using assms A by (auto simp: portal_def split: if_splits)
    then show thesis using refused by (auto simp: served_by_def)
  next
    case False
    show thesis using G
    proof (cases rule: get_cases)
      case (refused e)
      have "portal_status e \<noteq> 200" by (cases e) (simp_all add: portal_status_def)
      then show thesis using assms A G False refused that(1) by (auto simp: portal_def served_by_def)
    next
      case (served r m)
      then show thesis using assms A G False that(2) [of r m] by (auto simp: portal_def)
    qed
  qed
qed

subsection \<open>The invariant\<close>

definition link_ok :: "cs_env \<Rightarrow> 'v cs_world \<Rightarrow> link_row \<Rightarrow> bool" where
  "link_ok env w r \<longleftrightarrow> lk_view_count r = int (length (views_of (lk_id r) w)) \<and> (0 < lk_max_views r \<longrightarrow> lk_view_count r \<le> lk_max_views r)
     \<and> (\<forall>(i, now, password) \<in> set (views_of (lk_id r) w). now \<le> lk_expires_at r \<and> (lk_password_hash r \<noteq> [] \<longrightarrow> ce_bcrypt_ok env (lk_password_hash r) password))"

definition cs_inv :: "cs_env \<Rightarrow> 'v cs_world \<Rightarrow> bool" where
  "cs_inv env w \<longleftrightarrow> distinct (map lk_id (cw_rows w)) \<and> fst ` set (cw_served w) \<subseteq> lk_id ` set (cw_rows w) \<and> (\<forall>r \<in> set (cw_rows w). link_ok env w r)"

lemma link_ok_same:
  assumes "link_ok env w r" and "same_link r r'" and "lk_view_count r' = lk_view_count r" and "views_of (lk_id r) w' = views_of (lk_id r) w"
  shows "link_ok env w' r'"
  using assms by (auto simp: link_ok_def same_link_def)

lemma list_all2_ids: "list_all2 (\<lambda>r r'. same_link r r' \<and> P r r') rows rows' \<Longrightarrow> map lk_id rows' = map lk_id rows"
  by (induction rule: list_all2_induct) (simp_all add: same_link_def)

lemma list_all2_right: "list_all2 P xs ys \<Longrightarrow> y \<in> set ys \<Longrightarrow> \<exists>x \<in> set xs. P x y"
  by (induction rule: list_all2_induct) auto

lemma unserved_inv:
  assumes inv: "cs_inv env w" and q: "unserved (cw_rows w) rows"
  shows "cs_inv env (w\<lparr>cw_rows := rows\<rparr>)"
  using q unfolding unserved_def
proof
  assume l: "list_all2 (\<lambda>r r'. same_link r r' \<and> lk_view_count r' = lk_view_count r) (cw_rows w) rows"
  have "link_ok env (w\<lparr>cw_rows := rows\<rparr>) r'" if m: "r' \<in> set rows" for r'
  proof -
    obtain r where "r \<in> set (cw_rows w)" "same_link r r'" "lk_view_count r' = lk_view_count r"
      using list_all2_right [OF l m] by blast
    then show ?thesis using inv by (auto simp: cs_inv_def views_of_def intro: link_ok_same)
  qed
  moreover have "lk_id ` set rows = lk_id ` set (cw_rows w)" using list_all2_ids [OF l] by (metis list.set_map)
  ultimately show ?thesis using inv list_all2_ids [OF l] by (auto simp: cs_inv_def)
next
  assume "\<exists>r. rows = cw_rows w @ [r] \<and> lk_view_count r = 0 \<and> 0 \<le> lk_max_views r \<and> lk_id r \<notin> lk_id ` set (cw_rows w) \<and> lk_token r \<notin> lk_token ` set (cw_rows w)"
  then obtain r where r: "rows = cw_rows w @ [r]" "lk_view_count r = 0" "0 \<le> lk_max_views r" "lk_id r \<notin> lk_id ` set (cw_rows w)" by blast
  then have "views_of (lk_id r) w = []" using inv by (auto simp: cs_inv_def views_of_def filter_empty_conv)
  with r inv show ?thesis by (auto simp: cs_inv_def link_ok_def views_of_def)
qed

lemma served_inv:
  assumes inv: "cs_inv env w" and r: "r \<in> set (cw_rows w)" and o: "open_to env now p r"
  shows "cs_inv env \<lparr>cw_rows = viewed (lk_id r) (cw_rows w), cw_valkey = v, cw_served = cw_served w @ [(lk_id r, now, p)]\<rparr>" (is "cs_inv env ?w")
proof -
  have ids: "map lk_id (viewed (lk_id r) (cw_rows w)) = map lk_id (cw_rows w)" by (simp add: viewed_def comp_def if_distrib cong: if_cong)
  have "link_ok env ?w r'" if m: "r' \<in> set (viewed (lk_id r) (cw_rows w))" for r'
  proof -
    obtain q where q: "q \<in> set (cw_rows w)" "r' = (if lk_id q = lk_id r then q\<lparr>lk_view_count := lk_view_count q + 1\<rparr> else q)" using m unfolding viewed_def by (auto simp del: if_split)
    show ?thesis
    proof (cases "lk_id q = lk_id r")
      case True
      then have "q = r" using q(1) r inv by (simp add: cs_inv_def distinct_map inj_on_def)
      then show ?thesis using q r inv o True by (auto simp: cs_inv_def link_ok_def views_of_def open_to_def)
    next
      case False
      then have "r' = q" "views_of (lk_id q) ?w = views_of (lk_id q) w" using q(2) by (simp_all add: views_of_def)
      moreover have "link_ok env w q" using inv q(1) by (simp add: cs_inv_def)
      ultimately show ?thesis using link_ok_same [of env w q q ?w] by simp
    qed
  qed
  moreover have "lk_id ` set (viewed (lk_id r) (cw_rows w)) = lk_id ` set (cw_rows w)" using ids by (metis list.set_map)
  ultimately show ?thesis using inv r ids by (auto simp: cs_inv_def)
qed

lemma link_step_inv: "cs_step env valkey w w' \<Longrightarrow> cs_inv env w \<Longrightarrow> cs_inv env w'"
proof (induction rule: cs_step.induct)
  case (step_portal down t fault now now2 verb token content w v rows st b)
  show ?case using step_portal.hyps
  proof (cases rule: portal_cases)
    case refused
    then show ?thesis using step_portal.prems by (auto simp: cs_inv_def link_ok_def views_of_def)
  next
    case (served r m)
    then show ?thesis using served_inv [OF step_portal.prems served(1,3)] by (simp add: served_by_def)
  qed
qed (blast intro: unserved_inv create_unserved revoke_unserved rekey_unserved)+

lemma link_run_inv: "(cs_step env valkey)\<^sup>*\<^sup>* w w' \<Longrightarrow> cs_inv env w \<Longrightarrow> cs_inv env w'"
  by (induction rule: rtranclp_induct) (auto intro: link_step_inv)

lemma link_init_inv: "cs_inv env (cs_init v)"
  by (simp add: cs_inv_def cs_init_def)

subsection \<open>Revocation\<close>

definition link_closed :: "string \<Rightarrow> 'v cs_world \<Rightarrow> bool" where
  "link_closed i w \<longleftrightarrow> (\<forall>r \<in> set (cw_rows w). lk_id r = i \<longrightarrow> lk_revoked r) \<and> i \<in> lk_id ` set (cw_rows w)"

lemma unserved_closed: "unserved (cw_rows w) rows \<Longrightarrow> link_closed i w \<Longrightarrow> link_closed i (w\<lparr>cw_rows := rows\<rparr>)"
  unfolding unserved_def
proof (elim disjE exE conjE)
  assume l: "list_all2 (\<lambda>r r'. same_link r r' \<and> lk_view_count r' = lk_view_count r) (cw_rows w) rows" and c: "link_closed i w"
  have "lk_id ` set rows = lk_id ` set (cw_rows w)" using list_all2_ids [OF l] by (metis list.set_map)
  moreover have "lk_revoked r'" if "r' \<in> set rows" "lk_id r' = i" for r'
    using list_all2_right [OF l that(1)] c that(2) by (auto simp: link_closed_def same_link_def)
  ultimately show ?thesis using c by (simp add: link_closed_def)
qed (auto simp: link_closed_def)

lemma link_step_closed:
  assumes "cs_step env valkey w w'" and "link_closed i w"
  shows "link_closed i w' \<and> views_of i w' = views_of i w"
  using assms
proof (induction rule: cs_step.induct)
  case (step_portal down t fault now now2 verb token content w v rows st b)
  show ?case using step_portal.hyps
  proof (cases rule: portal_cases)
    case refused
    then show ?thesis using step_portal.prems by (simp add: link_closed_def views_of_def)
  next
    case (served r m)
    then have "lk_id r \<noteq> i" using step_portal.prems by (auto simp: link_closed_def open_to_def)
    then show ?thesis using served step_portal.prems by (auto simp: link_closed_def views_of_def served_by_def viewed_def image_image)
  qed
qed (simp_all add: unserved_closed create_unserved revoke_unserved rekey_unserved views_of_def)

lemma link_run_closed: "(cs_step env valkey)\<^sup>*\<^sup>* w w' \<Longrightarrow> link_closed i w \<Longrightarrow> link_closed i w' \<and> views_of i w' = views_of i w"
  by (induction rule: rtranclp_induct) (auto dest: link_step_closed)

subsection \<open>Attempts\<close>

lemma dec_nat_chars: "set (dec_nat n) \<subseteq> {c. \<exists>d < 10. c = digit_char d}"
proof (induction n rule: dec_nat.induct)
  case (1 n)
  then show ?case by (cases "n < 10") (auto simp: dec_nat.simps [of n] intro: exI [of _ "n mod 10"])
qed

lemma itoa_no_colon: "CHR '':'' \<notin> set (itoa i)"
proof -
  have "digit_char d \<noteq> CHR '':''" if "d < 10" for d using digit_val_char [OF that] by (auto simp: digit_val_def)
  then have "CHR '':'' \<notin> set (dec_nat n)" for n using dec_nat_chars [of n] by fastforce
  then show ?thesis by (simp add: itoa_def)
qed

lemma attempt_key_inj: "attempt_key t n = attempt_key t' n' \<longleftrightarrow> t = t' \<and> attempt_bucket n = attempt_bucket n'"
proof
  assume "attempt_key t n = attempt_key t' n'"
  then have e: "t @ CHR '':'' # itoa (attempt_bucket n) = t' @ CHR '':'' # itoa (attempt_bucket n')" by (simp add: attempt_key_def)
  have cut: "takeWhile (\<lambda>c. c \<noteq> CHR '':'') (rev (x @ CHR '':'' # itoa b)) = rev (itoa b)" for x b
    using itoa_no_colon [of b] by (simp, subst takeWhile_append2) auto
  from cut [of t "attempt_bucket n"] cut [of t' "attempt_bucket n'"] e have "itoa (attempt_bucket n) = itoa (attempt_bucket n')" by simp
  with e show "t = t' \<and> attempt_bucket n = attempt_bucket n'" by (simp add: itoa_inj)
qed (simp add: attempt_key_def)

definition key_lifetime :: int where "key_lifetime = 905000"

text \<open>The counter of a key that has counted \<open>n\<close> attempts and lives until \<open>e\<close>.\<close>

definition counting :: "keyspace \<Rightarrow> string \<Rightarrow> int \<Rightarrow> int \<Rightarrow> bool" where
  "counting m k n e \<longleftrightarrow> (\<forall>u \<le> e. ks_live m u k = Some (VStr (itoa n), Some e))"

context valkey_server
begin

lemma allow_other:
  assumes "allowAttempt (Some v) down t now token s = (s', ok)" and "attempt_key token now \<noteq> k"
  shows "ks_live (ks s') u k = ks_live (ks s) u k"
proof (cases "down")
  case False
  obtain s1 c where I: "vk_incr v s t (attempt_key token now) = (s1, c)" by (metis surj_pair)
  have "ks s1 = fst (ks_incr (ks s) t (attempt_key token now))" using incr(1) [of s t "attempt_key token now"] I by simp
  then have "ks_live (ks s1) u k = ks_live (ks s) u k" using assms(2) by (simp add: ks_simps)
  moreover have "ks_live (ks (vk_pexpire v s1 t (attempt_key token now) d)) u k = ks_live (ks s1) u k" for d using assms(2) by (simp add: pexpire ks_simps)
  ultimately show ?thesis using assms(1) I False by (auto simp: allowAttempt_def split: option.splits if_splits)
qed (use assms in \<open>auto simp: allowAttempt_def\<close>)

lemma allow_first:
  assumes A: "allowAttempt (Some v) False t now token s = (s', ok)" and n: "ks_live (ks s) t (attempt_key token now) = None"
  shows "counting (ks s') (attempt_key token now) 1 (t + key_lifetime)"
proof -
  let ?k = "attempt_key token now"
  obtain s1 c where I: "vk_incr v s t ?k = (s1, c)" by (metis surj_pair)
  have c: "c = Some 1" and s1: "ks s1 = (ks s)(?k \<mapsto> (VStr (itoa 1), None))" using incr [of s t ?k] I n by (simp_all add: ks_incr_def)
  have "s' = vk_pexpire v s1 t ?k key_lifetime" using A I c by (simp add: allowAttempt_def attemptWindow_def key_lifetime_def)
  then have "ks s' = (ks s1)(?k \<mapsto> (VStr (itoa 1), Some (t + key_lifetime)))"
    by (simp add: pexpire ks_pexpire_def s1 ks_live_def key_lifetime_def)
  then show ?thesis by (simp add: counting_def ks_live_def)
qed

lemma allow_next:
  assumes A: "allowAttempt (Some v) False t now token s = (s', ok)" and n: "counting (ks s) (attempt_key token now) n e" "t \<le> e" "1 \<le> n"
  shows "counting (ks s') (attempt_key token now) (n + 1) e" and "ok \<longleftrightarrow> n < maxAttempts"
proof -
  let ?k = "attempt_key token now"
  obtain s1 c where I: "vk_incr v s t ?k = (s1, c)" by (metis surj_pair)
  have "ks_live (ks s) t ?k = Some (VStr (itoa n), Some e)" using n by (simp add: counting_def)
  then have c: "c = Some (n + 1)" and s1: "ks s1 = (ks s)(?k \<mapsto> (VStr (itoa (n + 1)), Some e))"
    using incr [of s t ?k] I by (simp_all add: ks_incr_def)
  have "s' = s1" "ok \<longleftrightarrow> n < maxAttempts" using A I c n(3) by (auto simp: allowAttempt_def)
  then show "counting (ks s') ?k (n + 1) e" "ok \<longleftrightarrow> n < maxAttempts" by (simp_all add: s1 counting_def ks_live_def)
qed

end

text \<open>A request to the portal: whether the counter is out of reach, the clocks of Valkey and of the handler, and the request.\<close>

record portal_req =
  pr_down :: bool
  pr_t :: int
  pr_now :: time
  pr_now2 :: time
  pr_fault :: "string option"
  pr_verb :: string
  pr_token :: string
  pr_body :: "string option"

abbreviation pr_key :: "portal_req \<Rightarrow> string" where "pr_key q \<equiv> attempt_key (pr_token q) (pr_now q)"

fun portal_run :: "cs_env \<Rightarrow> 'v valkey option \<Rightarrow> portal_req list \<Rightarrow> 'v \<Rightarrow> link_row list \<Rightarrow> (portal_req \<times> int) list" where
  "portal_run env valkey [] v rows = []"
| "portal_run env valkey (q # qs) v rows =
     (case portal env valkey (pr_down q) (pr_t q) (pr_fault q) (pr_now q) (pr_now2 q) (pr_verb q) (pr_token q) (pr_body q) v rows of
        (v1, rows1, st, b) \<Rightarrow> (q, st) # portal_run env valkey qs v1 rows1)"

definition attempt_evaluated :: "string \<Rightarrow> portal_req \<times> int \<Rightarrow> bool" where
  "attempt_evaluated k x \<longleftrightarrow> pr_key (fst x) = k \<and> pr_token (fst x) \<noteq> [] \<and> \<not> pr_down (fst x) \<and> snd x \<noteq> 429"

context valkey_server
begin

lemma portal_valkey:
  assumes "portal env (Some v) down t fault now now2 verb token content s rows = (s', rows', st, b)" and "token \<noteq> []"
  shows "\<exists>ok. allowAttempt (Some v) down t now token s = (s', ok) \<and> (\<not> ok \<longrightarrow> st = 429)"
proof -
  obtain s1 ok where "allowAttempt (Some v) down t now token s = (s1, ok)" by (metis surj_pair)
  then show ?thesis using assms by (cases ok) (auto simp: portal_def split: prod.splits sum.splits)
qed

lemma portal_idle:
  assumes "portal env (Some v) down t fault now now2 verb token content s rows = (s', rows', st, b)" and "token = [] \<or> down"
  shows "s' = s"
  using assms by (cases "token = []") (auto simp: portal_def allowAttempt_def split: prod.splits sum.splits)

lemma counted_attempts:
  assumes "counting (ks s) k n e" and "1 \<le> n" and "\<forall>q \<in> set qs. pr_key q = k \<longrightarrow> pr_t q \<le> e"
  shows "int (length (filter (attempt_evaluated k) (portal_run env (Some v) qs s rows))) \<le> max 0 (maxAttempts - n)"
  using assms
proof (induction qs arbitrary: s rows n)
  case (Cons q qs)
  obtain s1 rows1 st b where P: "portal env (Some v) (pr_down q) (pr_t q) (pr_fault q) (pr_now q) (pr_now2 q) (pr_verb q) (pr_token q) (pr_body q) s rows = (s1, rows1, st, b)"
    by (metis prod_cases4)
  have rest: "int (length (filter (attempt_evaluated k) (portal_run env (Some v) qs s1 rows1))) \<le> max 0 (maxAttempts - n')" if "counting (ks s1) k n' e" "1 \<le> n'" for n'
    using Cons.IH [OF that] Cons.prems(3) by simp
  show ?case
  proof (cases "pr_token q = [] \<or> pr_down q \<or> pr_key q \<noteq> k")
    case True
    have "counting (ks s1) k n e"
    proof (cases "pr_token q = [] \<or> pr_down q")
      case True
      then have "s1 = s" using P portal_idle by blast
      then show ?thesis using Cons.prems(1) by simp
    next
      case False
      then obtain ok where A: "allowAttempt (Some v) (pr_down q) (pr_t q) (pr_now q) (pr_token q) s = (s1, ok)" using portal_valkey [OF P] by blast
      have "pr_key q \<noteq> k" using False \<open>pr_token q = [] \<or> pr_down q \<or> pr_key q \<noteq> k\<close> by blast
      then show ?thesis using allow_other [OF A] Cons.prems(1) by (simp add: counting_def)
    qed
    moreover have "\<not> attempt_evaluated k (q, st)" using True by (auto simp: attempt_evaluated_def)
    ultimately show ?thesis using rest [of n] Cons.prems(2) P by simp
  next
    case False
    then obtain ok where A: "allowAttempt (Some v) False (pr_t q) (pr_now q) (pr_token q) s = (s1, ok)" "\<not> ok \<longrightarrow> st = 429"
      using portal_valkey [OF P] by auto
    have "counting (ks s1) k (n + 1) e" "ok \<longleftrightarrow> n < maxAttempts"
      using allow_next [OF A(1), of n e] False Cons.prems by auto
    moreover have "\<not> attempt_evaluated k (q, st)" if "\<not> ok" using A(2) that by (simp add: attempt_evaluated_def)
    ultimately show ?thesis using rest [of "n + 1"] Cons.prems(2) P by (cases ok) (auto simp: maxAttempts_def)
  qed
qed simp

lemma fresh_attempts:
  assumes "\<forall>u. ks_live (ks s) u k = None" and "sorted (map pr_t qs)" and "\<forall>q \<in> set qs. \<forall>q' \<in> set qs. pr_key q = k \<and> pr_key q' = k \<longrightarrow> pr_t q' \<le> pr_t q + key_lifetime"
  shows "int (length (filter (attempt_evaluated k) (portal_run env (Some v) qs s rows))) \<le> maxAttempts"
  using assms
proof (induction qs arbitrary: s rows)
  case Nil
  then show ?case by (simp add: maxAttempts_def)
next
  case (Cons q qs)
  obtain s1 rows1 st b where P: "portal env (Some v) (pr_down q) (pr_t q) (pr_fault q) (pr_now q) (pr_now2 q) (pr_verb q) (pr_token q) (pr_body q) s rows = (s1, rows1, st, b)"
    by (metis prod_cases4)
  show ?case
  proof (cases "pr_token q = [] \<or> pr_down q \<or> pr_key q \<noteq> k")
    case True
    have "\<forall>u. ks_live (ks s1) u k = None"
    proof (cases "pr_token q = [] \<or> pr_down q")
      case True
      then have "s1 = s" using P portal_idle by blast
      then show ?thesis using Cons.prems(1) by simp
    next
      case False
      then obtain ok where A: "allowAttempt (Some v) (pr_down q) (pr_t q) (pr_now q) (pr_token q) s = (s1, ok)" using portal_valkey [OF P] by blast
      have "pr_key q \<noteq> k" using False \<open>pr_token q = [] \<or> pr_down q \<or> pr_key q \<noteq> k\<close> by blast
      then show ?thesis using allow_other [OF A] Cons.prems(1) by simp
    qed
    moreover have "\<not> attempt_evaluated k (q, st)" using True by (auto simp: attempt_evaluated_def)
    ultimately show ?thesis using Cons.IH [of s1 rows1] Cons.prems P by simp
  next
    case False
    then obtain ok where A: "allowAttempt (Some v) False (pr_t q) (pr_now q) (pr_token q) s = (s1, ok)" using portal_valkey [OF P] by auto
    have "counting (ks s1) k 1 (pr_t q + key_lifetime)" using allow_first [OF A] False Cons.prems(1) by auto
    moreover have "\<forall>q' \<in> set qs. pr_key q' = k \<longrightarrow> pr_t q' \<le> pr_t q + key_lifetime" using Cons.prems(3) False by simp
    ultimately have "int (length (filter (attempt_evaluated k) (portal_run env (Some v) qs s1 rows1))) \<le> max 0 (maxAttempts - 1)"
      by (intro counted_attempts) simp_all
    then show ?thesis using P by (simp add: maxAttempts_def)
  qed
qed

end

subsection \<open>Properties\<close>

text \<open>
  C38: however creations, portal requests, revocations and rekeys of all tenants interleave and fail, a link is served at most \<^verbatim>\<open>max_views\<close> times where that is
  positive, only up to its expiry and only to requests whose password matches where it has one, and the stored counter is the number of times it was served.
\<close>

theorem confidential_link_limits:
  assumes "(cs_step env valkey)\<^sup>*\<^sup>* (cs_init v) w" and "r \<in> set (cw_rows w)"
  shows "lk_view_count r = int (length (views_of (lk_id r) w)) \<and> (0 < lk_max_views r \<longrightarrow> int (length (views_of (lk_id r) w)) \<le> lk_max_views r)
    \<and> (\<forall>now password. (lk_id r, now, password) \<in> set (cw_served w)
        \<longrightarrow> now \<le> lk_expires_at r \<and> (lk_password_hash r \<noteq> [] \<longrightarrow> ce_bcrypt_ok env (lk_password_hash r) password))"
proof -
  have "link_ok env w r" using link_run_inv [OF assms(1) link_init_inv] assms(2) by (simp add: cs_inv_def)
  then show ?thesis by (auto simp: link_ok_def views_of_def)
qed

definition ex_cs :: cs_env where
  "ex_cs = \<lparr>ce_uuid = Some, ce_tenant = (\<lambda>_. True), ce_bcrypt = Some, ce_bcrypt_ok = (=), ce_mls = None\<rparr>"

definition ex_link :: link_row where
  "ex_link = \<lparr>lk_id = ''l1'', lk_tenant = ''t'', lk_sender = ''u'', lk_token = ''AAA'', lk_blob = ''blob'', lk_password_hash = ''pw'', lk_expires_at = 86400 * nanos_per_s,
     lk_max_views = 1, lk_view_count = 0, lk_revoked = False, lk_created_at = 0, lk_mls_key = [], lk_mls_leaf = [], lk_mls_participants = [], lk_mls_epoch = 0\<rparr>"

lemma ex_created:
  "create_link ex_cs None (Some [0, 0]) ''l1'' 0 0 ''t'' (Some \<lparr>cb_SenderID = ''u'', cb_EncryptedBlobRef = ''blob'', cb_Password = ''pw'', cb_ExpiresInSec = 0,
     cb_MaxViews = 1, cb_SenderLeafKey = [], cb_Recipients = []\<rparr>) [] = ([ex_link], 201, SecureBody (message_of ex_link))"
  by code_simp

lemma ex_viewed:
  "portal ex_cs None False 0 None 0 5 ''POST'' ''AAA'' (Some ''pw'') () [ex_link]
   = ((), [ex_link\<lparr>lk_view_count := 1\<rparr>], 200, SecureBody (message_of (ex_link\<lparr>lk_view_count := 1\<rparr>)\<lparr>sm_MLSWrappingKey := []\<rparr>))"
  by code_simp

abbreviation ex_link_world :: "unit cs_world" where "ex_link_world \<equiv> \<lparr>cw_rows = [ex_link], cw_valkey = (), cw_served = []\<rparr>"

lemma ex_run_views:
  "cs_step ex_cs None (cs_init ()) ex_link_world" "cs_step ex_cs None ex_link_world \<lparr>cw_rows = [ex_link\<lparr>lk_view_count := 1\<rparr>], cw_valkey = (), cw_served = [(''l1'', 5, ''pw'')]\<rparr>"
proof -
  have "cw_rows (cs_init ()) = []" by (simp add: cs_init_def)
  from step_create [OF ex_created [folded this], of None] show "cs_step ex_cs None (cs_init ()) ex_link_world" by (simp add: cs_init_def)
  show "cs_step ex_cs None ex_link_world \<lparr>cw_rows = [ex_link\<lparr>lk_view_count := 1\<rparr>], cw_valkey = (), cw_served = [(''l1'', 5, ''pw'')]\<rparr>"
    using step_portal [where w = ex_link_world and valkey = None] ex_viewed by (force simp: served_by_def sent_password_def message_of_def ex_link_def)
qed

theorem confidential_link_limits_witness:
  "\<exists>w r. (cs_step ex_cs None)\<^sup>*\<^sup>* (cs_init ()) w \<and> r \<in> set (cw_rows w) \<and> length (views_of (lk_id r) w) = 1 \<and> lk_max_views r = 1 \<and> 5 \<le> lk_expires_at r"
proof -
  let ?r = "ex_link\<lparr>lk_view_count := 1\<rparr>" and ?w = "\<lparr>cw_rows = [ex_link\<lparr>lk_view_count := 1\<rparr>], cw_valkey = (), cw_served = [(''l1'', 5, ''pw'')]\<rparr>"
  have R: "(cs_step ex_cs None)\<^sup>*\<^sup>* (cs_init ()) ?w" using ex_run_views by (meson converse_rtranclp_into_rtranclp rtranclp.rtrancl_refl)
  have "?r \<in> set (cw_rows ?w)" "lk_id ?r = ''l1''" "lk_max_views ?r = 1" "lk_view_count ?r = 1" by (simp_all add: ex_link_def)
  then show ?thesis using R confidential_link_limits [OF R, of ?r] by (intro exI [of _ ?w] exI [of _ ?r]) auto
qed

text \<open>
  C39: a revocation answered with 204 that names a link which exists and belongs to the tenant is final: whatever is requested
  afterwards, by whomever and with whatever faults, the link is not served again. (The handler answers 204 also when the tenant and the id
  match no row, and then closes nothing.)
\<close>

theorem revoked_link_closed:
  assumes "revoke_link env fault t i (cw_rows w) = (rows, 204, b)" and "ce_uuid env t = Some (lk_tenant r)" and "ce_uuid env i = Some (lk_id r)"
    and "r \<in> set (cw_rows w)" and "(cs_step env valkey)\<^sup>*\<^sup>* (cs_init v) w" and "(cs_step env valkey)\<^sup>*\<^sup>* (w\<lparr>cw_rows := rows\<rparr>) w'"
  shows "views_of (lk_id r) w' = views_of (lk_id r) w"
proof -
  have rows: "rows = map (\<lambda>q. if lk_tenant q = lk_tenant r \<and> lk_id q = lk_id r then q\<lparr>lk_revoked := True\<rparr> else q) (cw_rows w)"
    using assms(1-3) by (auto simp: revoke_link_def RevokeLink_def split: if_splits option.splits)
  have u: "q = r" if "q \<in> set (cw_rows w)" "lk_id q = lk_id r" for q
    using link_run_inv [OF assms(5) link_init_inv] assms(4) that by (simp add: cs_inv_def distinct_map inj_on_def)
  have "map lk_id rows = map lk_id (cw_rows w)" by (simp add: rows comp_def if_distrib cong: if_cong)
  then have "lk_id ` set rows = lk_id ` set (cw_rows w)" by (metis list.set_map)
  moreover have "lk_revoked q" if "q \<in> set rows" "lk_id q = lk_id r" for q using that u by (auto simp: rows split: if_splits)
  ultimately have "link_closed (lk_id r) (w\<lparr>cw_rows := rows\<rparr>)" using assms(4) by (auto simp: link_closed_def)
  from link_run_closed [OF assms(6) this] show ?thesis by (simp add: views_of_def)
qed

theorem revoked_link_closed_witness:
  "\<exists>rows w'. revoke_link ex_cs None ''t'' ''l1'' [ex_link] = (rows, 204, CsNothing) \<and> cs_step ex_cs None (ex_link_world\<lparr>cw_rows := rows\<rparr>) w' \<and> views_of ''l1'' w' = []"
proof -
  have R: "revoke_link ex_cs None ''t'' ''l1'' (cw_rows ex_link_world) = ([ex_link\<lparr>lk_revoked := True\<rparr>], 204, CsNothing)" by code_simp
  have u: "ce_uuid ex_cs ''t'' = Some (lk_tenant ex_link)" "ce_uuid ex_cs ''l1'' = Some (lk_id ex_link)" "ex_link \<in> set (cw_rows ex_link_world)" by (simp_all add: ex_cs_def ex_link_def)
  have S: "cs_step ex_cs None (ex_link_world\<lparr>cw_rows := [ex_link\<lparr>lk_revoked := True\<rparr>]\<rparr>) (ex_link_world\<lparr>cw_rows := [ex_link\<lparr>lk_revoked := True\<rparr>]\<rparr>)"
  proof -
    have P: "portal ex_cs None False 0 None 0 5 ''POST'' ''AAA'' (Some ''pw'') () [ex_link\<lparr>lk_revoked := True\<rparr>] = ((), [ex_link\<lparr>lk_revoked := True\<rparr>], 410, CsFailure LinkRevoked)"
      by code_simp
    show ?thesis using step_portal [where w = "ex_link_world\<lparr>cw_rows := [ex_link\<lparr>lk_revoked := True\<rparr>]\<rparr>" and valkey = None] P by (force simp: served_by_def)
  qed
  have i: "(cs_step ex_cs None)\<^sup>*\<^sup>* (cs_init ()) ex_link_world" using ex_run_views(1) by (rule r_into_rtranclp)
  from revoked_link_closed [OF R u i r_into_rtranclp [of "cs_step ex_cs None", OF S]] R S show ?thesis by (auto simp: views_of_def ex_link_def)
qed

text \<open>
  C40: with a Valkey server that keeps its counters, at most five requests to the portal are evaluated for one token in one window of fifteen minutes, of any
  number of requests for any tokens, except those for which the counter could not be reached. The clocks of the handlers and of Valkey may drift by up to five seconds
  in a window.
\<close>

theorem portal_attempts_bounded:
  assumes "valkey_server c ks" and "\<forall>u. ks_live (ks v) u (attempt_key token now) = None" and "sorted (map pr_t qs)" and "token \<noteq> []"
    and "\<forall>q \<in> set qs. \<forall>q' \<in> set qs. pr_token q = token \<and> pr_token q' = token \<and> attempt_bucket (pr_now q) = attempt_bucket now \<and> attempt_bucket (pr_now q') = attempt_bucket now
        \<longrightarrow> pr_t q' \<le> pr_t q + key_lifetime"
  shows "length (filter (\<lambda>(q, st). pr_token q = token \<and> attempt_bucket (pr_now q) = attempt_bucket now \<and> \<not> pr_down q \<and> st \<noteq> 429) (portal_run env (Some c) qs v rows)) \<le> 5"
proof -
  let ?k = "attempt_key token now"
  have e: "(\<lambda>(q, st). pr_token q = token \<and> attempt_bucket (pr_now q) = attempt_bucket now \<and> \<not> pr_down q \<and> st \<noteq> 429) = attempt_evaluated ?k"
    using assms(4) by (auto simp: fun_eq_iff attempt_evaluated_def attempt_key_inj)
  have "\<forall>q \<in> set qs. \<forall>q' \<in> set qs. pr_key q = ?k \<and> pr_key q' = ?k \<longrightarrow> pr_t q' \<le> pr_t q + key_lifetime"
    using assms(5) by (simp add: attempt_key_inj)
  from valkey_server.fresh_attempts [OF assms(1-3) this] show ?thesis unfolding e by (simp add: maxAttempts_def)
qed

definition ex_guess :: "time \<Rightarrow> portal_req" where
  "ex_guess now = \<lparr>pr_down = False, pr_t = now div nanos_per_ms, pr_now = now, pr_now2 = now, pr_fault = None, pr_verb = ''POST'', pr_token = ''AAA'', pr_body = Some ''guess''\<rparr>"

lemma ex_guesses: "map snd (portal_run ex_cs (Some ks_valkey) (replicate 6 (ex_guess 0)) Map.empty [ex_link]) = [401, 401, 401, 401, 401, 429]"
  by code_simp

theorem portal_attempts_bounded_witness:
  "length (filter (\<lambda>(q, st). pr_token q = ''AAA'' \<and> attempt_bucket (pr_now q) = attempt_bucket 0 \<and> \<not> pr_down q \<and> st \<noteq> 429)
     (portal_run ex_cs (Some ks_valkey) (replicate 6 (ex_guess 0)) Map.empty [ex_link])) \<le> 5"
  using portal_attempts_bounded [OF ks_valkey_server, of Map.empty "''AAA''" 0 "replicate 6 (ex_guess 0)"]
  by (simp add: ks_live_def ex_guess_def key_lifetime_def)

text \<open>The windows are fixed: around the change of windows ten guesses are evaluated within two seconds.\<close>

lemma ten_guesses:
  "map snd (portal_run ex_cs (Some ks_valkey) (replicate 5 (ex_guess (899 * nanos_per_s)) @ replicate 5 (ex_guess (900 * nanos_per_s))) Map.empty [ex_link])
   = replicate 10 401"
  by code_simp

end
