(* ===== verification/Spec2Isabelle.thy ===== *)
theory Spec2Isabelle
  imports Breaker ShardTransport RateLimit UndoSend AuditLog Mbox Approval Totp Session OAuthRuns CutoverRuns DeliverabilityProps FeatureFlagRuns ShardProps BillingProps PaymentProps SeatProps Malware ScheduledSendRuns SendHookProps SnoozeRuns RetentionProps ConfidentialRuns
begin

text \<open>
  Verification of the core services of KMail, a multi-tenant mail control plane written in Go that runs in front of
  Stalwart mail servers, with Postgres as its database and Valkey (Redis) as its shared memory.

  \<^bold>\<open>Parts of the program and how they interact.\<close> The API process authenticates a request, puts it through middleware (session
  ledger, TOTP, rate limiter) and hands it to the JMAP proxy, which forwards it to a Stalwart shard with failover under
  circuit breakers. Beside the proxy stand services with their own tables: the OAuth authorization server, the approval
  workflow for dangerous admin actions, the audit log that all of them write to, deliverability control,
  mailbox export, search, feature flags, and the control plane of tenants, their users, aliases, quotas, payments and
  shards, whose tables \<open>Billing\<close> declares. Background workers move state on: the undo-send and scheduled-send dispatchers submit held messages, the snooze worker wakes mail, the cutover
  worker moves tenants between search engines, the alias worker carries aliases to Stalwart, the quota workers reconcile storage.

  \<^bold>\<open>Theories, in the order they build on each other.\<close>
    \<^item> \<open>Prelude\<close>: time, Go's string helpers, integers as text, generic list lemmas. \<open>Encoding\<close>: bytes, hexadecimal and
      base64url. \<open>Valkey\<close>: the commands of the server as a record of functions, the locale \<open>valkey_server\<close> with their
      documented laws, and the reference key space \<open>ks_valkey\<close> that satisfies it.
    \<^item> \<open>Breaker\<close> (\<^verbatim>\<open>internal/jmap/breaker.go\<close>): the in-process breaker refines a history of failures, the Lua breaker
      answers like it. The interface is the locale \<open>circuit_breaker\<close>, interpreted on both. \<open>ShardTransport\<close>
      (\<^verbatim>\<open>internal/jmap/proxy.go\<close>): \<^verbatim>\<open>RoundTrip\<close> over candidate shards reaches the first healthy one.
    \<^item> \<open>RateLimit\<close> (\<^verbatim>\<open>internal/middleware/ratelimit.go\<close>, \<^verbatim>\<open>ratelimit_fallback.go\<close>): the sliding-window script against a
      reference log, bounds of window and token bucket, invisibility of garbage collection.
    \<^item> \<open>UndoSend\<close> (\<^verbatim>\<open>internal/undosend/service.go\<close>, \<^verbatim>\<open>worker.go\<close>): hold, cancel, claim, retry and dead letter; a step relation
      interleaves clients and workers with crashes and with posts whose outcome the worker does not learn; a cancelled message is
      not posted any more, and was accepted before only by an attempt that ended unclear; a held one is attempted a bounded number of times.
    \<^item> \<open>AuditLog\<close> (\<^verbatim>\<open>internal/audit/audit.go\<close>): the hash chain; appends of entries that survive their columns keep every chain
      verifying, and two verifying tables with the same tail agree (for a hash without collisions and fields without the separator).
    \<^item> \<open>Mbox\<close> (\<^verbatim>\<open>internal/export/mbox.go\<close>): writing and reading back an mbox file.
    \<^item> \<open>Approval\<close> (\<^verbatim>\<open>internal/approval/service.go\<close>): requests, resolution, execution; runs as a step relation.
    \<^item> \<open>Totp\<close> (\<^verbatim>\<open>internal/middleware/totp.go\<close>, \<^verbatim>\<open>totp_store.go\<close>): codes, lockout, recovery codes and the handlers.
    \<^item> \<open>Session\<close> (\<^verbatim>\<open>internal/middleware/session.go\<close>, \<^verbatim>\<open>session_redis.go\<close>, \<^verbatim>\<open>session_handlers.go\<close>): both stores implement
      the locale \<open>session_ledger\<close>; cap, revocation and sign-out are proved in it.
    \<^item> \<open>OAuth\<close>, \<open>OAuthRuns\<close> (\<^verbatim>\<open>internal/oauth\<close>): the operations, and the invariant of the four tables with what follows for
      every run of the server: tokens need consent, codes are single-use, a replayed refresh token kills its family.
    \<^item> \<open>Cutover\<close>, \<open>CutoverRuns\<close> (\<^verbatim>\<open>internal/search/cutover*.go\<close>, \<^verbatim>\<open>service.go\<close>): the operations, and claims, recovery, retry
      bounds and progress.
    \<^item> \<open>Deliverability\<close>, \<open>DeliverabilityProps\<close> (\<^verbatim>\<open>internal/deliverability\<close>): suppression by bounces, send limits against a
      reference counter, warm-up ramp, choice of the sending address, abuse scores and alerts.
    \<^item> \<open>FeatureFlags\<close>, \<open>FeatureFlagRuns\<close> (\<^verbatim>\<open>internal/featureflags\<close>): resolver with its snapshot and plan caches, store and admin
      handlers; runs that interleave writers, refreshes and reads: precedence, propagation, the last-known-good cache.
    \<^item> \<open>Calendar\<close>: Go's \<^verbatim>\<open>int64\<close>, dates and durations. \<open>Billing\<close> (\<^verbatim>\<open>internal/billing/billing.go\<close>) with the tables of the control plane,
      which the next theories share, \<open>BillingFlow\<close> (\<^verbatim>\<open>stripe.go\<close>, \<^verbatim>\<open>lifecycle.go\<close>, \<^verbatim>\<open>dunning.go\<close>), \<open>BillingEvents\<close> (webhooks, storage
      events, workers, handlers). \<open>BillingProps\<close>: proration, storage usage against the event ledger. \<open>PaymentProps\<close>: dunning,
      authenticity of the Stripe webhook.
    \<^item> \<open>Tenancy\<close> (\<^verbatim>\<open>internal/tenant/service.go\<close>), \<open>Aliases\<close> (\<^verbatim>\<open>aliases.go\<close>, \<^verbatim>\<open>stalwart_alias_sync_*.go\<close>), \<open>TenancyApi\<close> (\<^verbatim>\<open>handlers.go\<close>),
      \<open>Shards\<close> (\<^verbatim>\<open>shard.go\<close>, \<^verbatim>\<open>autoprovision.go\<close>, \<^verbatim>\<open>shard_handlers.go\<close>). \<open>ShardProps\<close>: counters (for assignments that do not overlap), provisioning, the end of every
      alias tick. \<open>TenantIsolation\<close>: requests of other tenants below a tenant leave its rows alone. \<open>SeatProps\<close>: the seat limit, through the
      locale \<open>seat_accounter\<close> interpreted on billing.
    \<^item> \<open>Jmap\<close> (\<^verbatim>\<open>internal/jmap/internal_client.go\<close>): JSON values, the JMAP envelopes and the client for Stalwart. \<open>LeaseQueue\<close>: the shape
      that the durable queues share, a claim that leases a row, with its laws as the locale \<open>lease_queue\<close> and its runs as a step relation.
      \<open>ScheduledSend\<close>, \<open>ScheduledSendRuns\<close> (\<^verbatim>\<open>internal/scheduledsend\<close>) and \<open>Snooze\<close>, \<open>SnoozeRuns\<close> (\<^verbatim>\<open>internal/snooze\<close>): services, workers and
      handlers; both interpret the locale, and every step of theirs is a step of the queue: a mail is sent or woken once, after
      its time, within the retry budget, up to answers that were lost (the failover of the client included), as long as no dispatch outlives
      its lease; cancelling is final; a tick drains; waking undoes snoozing, for a Stalwart that applies patches as the RFC says (\<open>patch_law\<close>).
    \<^item> \<open>Malware\<close> (\<^verbatim>\<open>internal/malware\<close>): the scanners, the framing of a scan, the hook of the proxy that passes when the scanner fails.
    \<^item> \<open>SendHook\<close>, \<open>SendHookProps\<close> (\<^verbatim>\<open>proxy.go\<close>, \<^verbatim>\<open>proxy_hook.go\<close> of both send queues): the way of an outgoing batch through the malware scan
      and the send hooks: what a hook has done when it lets a batch pass, what happens on errors, what the worker will submit, what was scanned.
    \<^item> \<open>EmailOps\<close> (\<^verbatim>\<open>internal/jmap/email_ops.go\<close> and the operator of \<^verbatim>\<open>internal/retention/worker.go\<close>), \<open>Retention\<close> (\<^verbatim>\<open>internal/retention\<close>): policies,
      sweep, worker, handlers. \<open>DateText\<close>: dates on the wire read back as their second. \<open>RetentionProps\<close>: the contract between sweep and
      operator as the locale \<open>email_store\<close>, what RFC 8621 promises of Stalwart as the locale \<open>jmap_server\<close>, which gives the first for the
      production operator; a tick removes only mail that is due, a sweep leaves none, refused policies touch nothing.
    \<^item> \<open>Confidential\<close>, \<open>ConfidentialRuns\<close> (\<^verbatim>\<open>internal/confidentialsend\<close>): links to encrypted messages and their public portal; runs of the handlers
      serve a link within its views, time and password, never after a revocation; the portal evaluates five attempts a window.

  \<^bold>\<open>How code becomes definitions.\<close> A struct is a record whose fields carry a prefix of the type, an enumeration a datatype, a
  method a function that takes the receiver's state and returns it updated, with errors as a sum, an option or a status
  code. A Postgres table is a list of rows in insertion order (or a map by its key); what the queries and the
  constraints of \<^verbatim>\<open>migrations\<close> do is written out. A transaction commits as a whole or changes nothing. Row-level
  security is written as the tenant comparison it enforces. Time is an integer number of nanoseconds (Valkey's clock:
  milliseconds), read once per operation unless the definition says otherwise. \<^verbatim>\<open>float64\<close> values are rationals. Where the
  code compares texts after lower-casing, letters are folded in ASCII. Texts with characters outside ASCII are written
  with ASCII ones. Log output and metrics are left out.

  \<^bold>\<open>What is a parameter.\<close> Valkey; SHA-256, HMAC, bcrypt and random bytes; the JSON codec, uuid and inet casts and
  \<^verbatim>\<open>url.Parse\<close>; Stalwart's answers; the search engines. Laws used of them are hypotheses of the
  theorem (mostly through a locale) and each such theorem has a witness in which they hold.

  \<^bold>\<open>Loops and fuel.\<close> Loops over lists are structural recursions; the loop of the alias worker ends by a measure on its queue.
  The only function with fuel is the recursive query of
  the refresh-token family (\<open>OAuth.chain_from\<close>, as many rounds as the table has rows); \<open>OAuthRuns.refresh_chain_set\<close> shows that
  it reaches every descendant. Workers that run for ever are modelled by one tick and a step relation.

  \<^bold>\<open>Findings.\<close> Where code and documentation differ the theorem states what the code does; the manifest lists these cases. Where a
  property needs a condition that the code does not enforce, its statement and its text name the condition, and a lemma beside it shows what
  happens without it (an ambiguous hash, lossy metadata, overlapping assignments and creations, an unlisted cutover target, unscanned paths).

  \<^bold>\<open>Calls to Stalwart.\<close> An error that the internal client reports does not mean that Stalwart did nothing: the answer may be lost, or the
  call repeated on another shard. The step relations of the queues therefore keep the calls Stalwart carries out apart from what the worker
  sees of them, and count the answers that were lost.

  \<^bold>\<open>Not modelled.\<close> The rest of the JMAP proxy (request rewriting, streaming), CalDAV, DNS, push and language-model calls, which are
  protocol glue around network I/O; start-up, configuration and process wiring; metrics, logging and tracing; the front ends
  and deployment files. Further services with tables of their own (tenant sign-up and placement, webhook delivery, export jobs, Sieve rules, migration
  jobs, SCIM, DNS records, shared inboxes and vault) follow the same patterns as the modelled ones and are left out for size; the manifest lists
  each with its files.
\<close>

end
